(* ===== verification/Prelude.thy ===== *)
theory Prelude
  imports Main "HOL-Library.Sublist" "HOL-Library.List_Lexorder" "HOL-Library.Char_ord"
begin

text \<open>
  What every component shares: names for the model's basic types, the JavaScript library
  operations the source calls (insertion-ordered sets, string splitting, trimming and
  lower-casing, prefix tests, chunking), and the lemmas about them the component proofs use.
  A JavaScript string is a \<open>string\<close> (a list of characters); case folding and white space are
  those of ASCII.  A JavaScript \<open>Set\<close> is the list of its elements in insertion order.
\<close>

type_synonym node_id = string
type_synonym user_id = string
type_synonym session_id = string
type_synonym timestamp = nat

named_theorems guard_simps \<open>defining equations of the guards, for case analysis\<close>
named_theorems inv_intros \<open>operations keep the invariant of their component\<close>

section \<open>Insertion-ordered sets\<close>

definition set_add :: "'a \<Rightarrow> 'a list \<Rightarrow> 'a list" where
  "set_add x xs = (if x \<in> set xs then xs else xs @ [x])"

definition js_set :: "'a list \<Rightarrow> 'a list" where
  "js_set xs = fold set_add xs []"

lemma set_set_add [simp]: "set (set_add x xs) = insert x (set xs)"
  by (auto simp: set_add_def)

lemma distinct_set_add [simp]: "distinct (set_add x xs) = distinct xs"
  by (simp add: set_add_def)

lemma set_add_absorb [simp]: "x \<in> set xs \<Longrightarrow> set_add x xs = xs"
  by (simp add: set_add_def)

lemma set_add_idem [simp]: "set_add x (set_add x xs) = set_add x xs"
  by simp

lemma set_fold_set_add [simp]: "set (fold set_add xs ys) = set xs \<union> set ys"
  by (induction xs arbitrary: ys) auto

lemma distinct_fold_set_add [simp]: "distinct (fold set_add xs ys) = distinct ys"
  by (induction xs arbitrary: ys) auto

lemma set_js_set [simp]: "set (js_set xs) = set xs"
  by (simp add: js_set_def)

lemma distinct_js_set [simp]: "distinct (js_set xs)"
  by (simp add: js_set_def)

lemma js_set_Nil [simp]: "js_set [] = []"
  by (simp add: js_set_def)

section \<open>Strings\<close>

definition js_lower_char :: "char \<Rightarrow> char" where
  "js_lower_char c =
     (if 65 \<le> (of_char c :: nat) \<and> (of_char c :: nat) \<le> 90 then char_of ((of_char c :: nat) + 32) else c)"

definition js_lower :: "string \<Rightarrow> string" where
  "js_lower s = map js_lower_char s"

definition js_space :: "char \<Rightarrow> bool" where
  "js_space c \<longleftrightarrow> (of_char c :: nat) \<in> {9, 10, 11, 12, 13, 32}"

definition js_trim :: "string \<Rightarrow> string" where
  "js_trim s = rev (dropWhile js_space (rev (dropWhile js_space s)))"

fun split_on :: "char \<Rightarrow> string \<Rightarrow> string list" where
  "split_on d [] = [[]]"
| "split_on d (c # cs) =
     (if c = d then [] # split_on d cs
      else (case split_on d cs of [] \<Rightarrow> [[c]] | s # ss \<Rightarrow> (c # s) # ss))"

fun join_with :: "string \<Rightarrow> string list \<Rightarrow> string" where
  "join_with d [] = []"
| "join_with d [s] = s"
| "join_with d (s # ss) = s @ d @ join_with d ss"

lemma split_on_nonempty [simp]: "split_on d s \<noteq> []"
  by (induction s) (auto split: list.splits)

lemma join_with_Cons: "ss \<noteq> [] \<Longrightarrow> join_with d (s # ss) = s @ d @ join_with d ss"
  by (cases ss) auto

lemma join_split_on [simp]: "join_with [d] (split_on d s) = s"
proof (induction s)
  case Nil
  then show ?case by simp
next
  case (Cons c cs)
  obtain t ts where ts: "split_on d cs = t # ts"
    by (cases "split_on d cs") auto
  with Cons.IH show ?case
    by (cases ts) (auto simp: join_with_Cons)
qed

lemma split_on_no_delim: "s \<in> set (split_on d cs) \<Longrightarrow> d \<notin> set s"
  by (induction cs arbitrary: s) (fastforce split: list.splits if_splits)+

lemma split_on_id: "d \<notin> set s \<Longrightarrow> split_on d s = [s]"
  by (induction s) auto

lemma split_on_append_delim: "d \<notin> set s \<Longrightarrow> split_on d (s @ d # t) = s # split_on d t"
  by (induction s) auto

lemma split_on_join:
  "ss \<noteq> [] \<Longrightarrow> \<forall>s \<in> set ss. d \<notin> set s \<Longrightarrow> split_on d (join_with [d] ss) = ss"
  by (induction "[d]" ss rule: join_with.induct) (auto simp: split_on_id split_on_append_delim)

text \<open>The em dash of the source's messages, as the three bytes of its UTF-8 form.\<close>

definition em_dash :: string where "em_dash = [CHR 0xE2, CHR 0x80, CHR 0x94]"

section \<open>Chunks\<close>

text \<open>The loop \<open>for (i = 0; i < xs.length; i += n) xs.slice(i, i + n)\<close>, for a positive \<open>n\<close>.\<close>

function chunks :: "nat \<Rightarrow> 'a list \<Rightarrow> 'a list list" where
  "chunks n xs = (if xs = [] \<or> n = 0 then [] else take n xs # chunks n (drop n xs))"
  by pat_completeness auto
termination
  by (relation "measure (\<lambda>(n, xs). length xs)") auto

declare chunks.simps [simp del]

lemma chunks_Nil [simp]: "chunks n [] = []"
  by (subst chunks.simps) simp

lemma concat_chunks: "0 < n \<Longrightarrow> concat (chunks n xs) = xs"
proof (induction n xs rule: chunks.induct)
  case (1 n xs)
  then show ?case
    by (cases "xs = []") (simp_all add: chunks.simps [of n xs])
qed

lemma chunks_length: "c \<in> set (chunks n xs) \<Longrightarrow> c \<noteq> [] \<and> length c \<le> n"
proof (induction n xs rule: chunks.induct)
  case (1 n xs)
  then show ?case
    by (cases "xs = [] \<or> n = 0") (auto simp: chunks.simps [of n xs])
qed

section \<open>Options, maps and sums\<close>

definition bind_sum :: "'e + 'a \<Rightarrow> ('a \<Rightarrow> 'e + 'b) \<Rightarrow> 'e + 'b" where
  "bind_sum r k = (case r of Inl e \<Rightarrow> Inl e | Inr x \<Rightarrow> k x)"

lemma bind_sum_simps [simp]:
  "bind_sum (Inl e) k = Inl e"
  "bind_sum (Inr x) k = k x"
  by (simp_all add: bind_sum_def)

lemma bind_sum_Inr: "bind_sum r k = Inr y \<longleftrightarrow> (\<exists>x. r = Inr x \<and> k x = Inr y)"
  by (cases r) auto

lemma find_None_filter: "find P xs = None \<longleftrightarrow> filter P xs = []"
  by (induction xs) auto

lemma find_Some_filter: "find P xs = Some x \<longleftrightarrow> (\<exists>ys. filter P xs = x # ys)"
  by (induction xs) auto

lemma find_SomeD: "find P xs = Some x \<Longrightarrow> x \<in> set xs \<and> P x"
  by (induction xs) (auto split: if_splits)

lemma filter_length_mono:
  "(\<And>x. x \<in> set xs \<Longrightarrow> P x \<Longrightarrow> Q x) \<Longrightarrow> length (filter P xs) \<le> length (filter Q xs)"
  by (induction xs) (auto intro: le_SucI)

section \<open>Systems with an invariant\<close>

text \<open>
  The contract of every component with steps: a relation and a predicate it keeps.  A run is a
  sequence of steps; what a step keeps, a run keeps.
\<close>

locale invariant_system =
  fixes step :: "'s \<Rightarrow> 's \<Rightarrow> bool"
    and inv :: "'s \<Rightarrow> bool"
  assumes step_inv: "inv s \<Longrightarrow> step s t \<Longrightarrow> inv t"
begin

lemma run_inv: "step\<^sup>*\<^sup>* s t \<Longrightarrow> inv s \<Longrightarrow> inv t"
  by (induction rule: rtranclp_induct) (auto intro: step_inv)

end

text \<open>A transitive relation between the two ends of a step holds between the two ends of a run.\<close>

locale run_relation =
  fixes step :: "'s \<Rightarrow> 's \<Rightarrow> bool"
    and rel :: "'s \<Rightarrow> 's \<Rightarrow> bool"
  assumes rel_refl: "rel s s"
    and rel_trans: "rel s t \<Longrightarrow> rel t u \<Longrightarrow> rel s u"
    and step_rel: "step s t \<Longrightarrow> rel s t"
begin

lemma run_rel: "step\<^sup>*\<^sup>* s t \<Longrightarrow> rel s t"
  by (induction rule: rtranclp_induct) (auto intro: rel_refl rel_trans step_rel)

end

sublocale run_relation \<subseteq> from_start: invariant_system step "rel s0"
  for s0
  by unfold_locales (auto intro: rel_trans step_rel)

section \<open>Tables with a key\<close>

text \<open>
  A table is the list of its rows.  \<open>table_kept key rel xs ys\<close>: every key of \<open>xs\<close> is still there
  in \<open>ys\<close>, and its row is related to the row it had.
\<close>

definition row_of :: "('r \<Rightarrow> 'k) \<Rightarrow> 'r list \<Rightarrow> 'k \<Rightarrow> 'r option" where
  "row_of key xs k = find (\<lambda>r. key r = k) xs"

definition table_kept :: "('r \<Rightarrow> 'k) \<Rightarrow> ('r \<Rightarrow> 'r \<Rightarrow> bool) \<Rightarrow> 'r list \<Rightarrow> 'r list \<Rightarrow> bool" where
  "table_kept key rel xs ys \<longleftrightarrow>
     (\<forall>k r. row_of key xs k = Some r \<longrightarrow> (\<exists>r'. row_of key ys k = Some r' \<and> rel r r'))"

lemma find_map_key: "(\<And>x. P (f x) = P x) \<Longrightarrow> find P (map f xs) = map_option f (find P xs)"
  by (induction xs) auto

lemma find_append_list: "find P (xs @ ys) = (case find P xs of None \<Rightarrow> find P ys | Some x \<Rightarrow> Some x)"
  by (induction xs) auto

lemma row_of_SomeD: "row_of key xs k = Some r \<Longrightarrow> r \<in> set xs \<and> key r = k"
  by (auto simp: row_of_def dest: find_SomeD)

lemma row_of_NoneD: "row_of key xs k = None \<Longrightarrow> r \<in> set xs \<Longrightarrow> key r \<noteq> k"
  by (auto simp: row_of_def find_None_iff)

lemma row_of_unique:
  "distinct (map key xs) \<Longrightarrow> r \<in> set xs \<Longrightarrow> row_of key xs (key r) = Some r"
proof -
  assume d: "distinct (map key xs)" and r: "r \<in> set xs"
  then obtain r' where r': "row_of key xs (key r) = Some r'"
    by (cases "row_of key xs (key r)") (auto dest: row_of_NoneD)
  with d r show ?thesis
    using row_of_SomeD [OF r'] by (auto simp: distinct_map inj_on_def)
qed

locale kept_rows =
  fixes key :: "'r \<Rightarrow> 'k"
    and rel :: "'r \<Rightarrow> 'r \<Rightarrow> bool"
  assumes rel_refl: "rel r r"
    and rel_trans: "rel r s \<Longrightarrow> rel s t \<Longrightarrow> rel r t"
begin

lemma kept_refl: "table_kept key rel xs xs"
  by (auto simp: table_kept_def intro: rel_refl)

lemma kept_trans: "table_kept key rel xs ys \<Longrightarrow> table_kept key rel ys zs \<Longrightarrow> table_kept key rel xs zs"
  unfolding table_kept_def by (blast intro: rel_trans)

lemma kept_append: "table_kept key rel xs (xs @ ys)"
  by (auto simp: table_kept_def row_of_def find_append_list intro: rel_refl)

lemma kept_map:
  assumes "\<And>r. key (f r) = key r" and "\<And>r. rel r (f r)"
  shows "table_kept key rel xs (map f xs)"
  using assms by (auto simp: table_kept_def row_of_def find_map_key)

lemma kept_map_if:
  assumes "\<And>r. key (f r) = key r" and "\<And>r. rel r (f r)"
  shows "table_kept key rel xs (map (\<lambda>r. if P r then f r else r) xs)"
  by (rule kept_map) (simp_all add: assms rel_refl)

end

end
