(* ===== verification/Roles.thy ===== *)
theory Roles
  imports Prelude
begin

text \<open>
  The global role model of \<^verbatim>\<open>apps/server/auth/roles.ts\<close>: four tiers in a fixed order, the
  three configured group lists and the tier an identity gets from its groups.
\<close>

datatype global_scope = SRead | SWrite | SManage | SAdmin

fun rank :: "global_scope \<Rightarrow> nat" where
  "rank SRead = 0"
| "rank SWrite = 1"
| "rank SManage = 2"
| "rank SAdmin = 3"

definition scopeAtLeast :: "global_scope \<Rightarrow> global_scope \<Rightarrow> bool" where
  "scopeAtLeast actual required \<longleftrightarrow> rank actual \<ge> rank required"

instantiation global_scope :: linorder
begin

definition less_eq_global_scope :: "global_scope \<Rightarrow> global_scope \<Rightarrow> bool" where
  "a \<le> b \<longleftrightarrow> rank a \<le> rank b"

definition less_global_scope :: "global_scope \<Rightarrow> global_scope \<Rightarrow> bool" where
  "a < b \<longleftrightarrow> rank a < rank b"

instance
proof
  fix a b :: global_scope
  assume "a \<le> b" and "b \<le> a"
  then show "a = b"
    by (cases a; cases b) (auto simp: less_eq_global_scope_def)
qed (auto simp: less_eq_global_scope_def less_global_scope_def)

end

lemma scopeAtLeast_le [simp]: "scopeAtLeast a b \<longleftrightarrow> b \<le> a"
  by (simp add: scopeAtLeast_def less_eq_global_scope_def)

lemma SAdmin_top [simp]: "a \<le> SAdmin"
  by (cases a) (auto simp: less_eq_global_scope_def)

lemma SRead_bot [simp]: "SRead \<le> a"
  by (simp add: less_eq_global_scope_def)

lemma scope_le_simps [simp]:
  "\<not> SWrite \<le> SRead" "\<not> SManage \<le> SRead" "\<not> SAdmin \<le> SRead"
  "SWrite \<le> SManage" "\<not> SManage \<le> SWrite" "\<not> SAdmin \<le> SWrite" "\<not> SAdmin \<le> SManage"
  by (simp_all add: less_eq_global_scope_def)

record group_role_config =
  cfg_admin :: "string list"
  cfg_manage :: "string list"
  cfg_write :: "string list"

definition parseList :: "string option \<Rightarrow> string list" where
  "parseList v =
     filter (\<lambda>s. s \<noteq> [])
       (map (\<lambda>s. js_lower (js_trim s))
          (split_on (CHR '','') (case v of None \<Rightarrow> [] | Some s \<Rightarrow> s)))"

definition groupRoleConfigFromEnv :: "(string \<Rightarrow> string option) \<Rightarrow> group_role_config" where
  "groupRoleConfigFromEnv env =
     \<lparr>cfg_admin = parseList (env ''PORTUNI_GROUPS_ADMIN''),
      cfg_manage = parseList (env ''PORTUNI_GROUPS_MANAGE''),
      cfg_write = parseList (env ''PORTUNI_GROUPS_WRITE'')\<rparr>"

definition resolveGlobalScope :: "string list \<Rightarrow> group_role_config \<Rightarrow> global_scope" where
  "resolveGlobalScope groups cfg =
     (let lowered = map js_lower groups in
      if \<exists>g \<in> set (cfg_admin cfg). g \<in> set lowered then SAdmin
      else if \<exists>g \<in> set (cfg_manage cfg). g \<in> set lowered then SManage
      else if \<exists>g \<in> set (cfg_write cfg). g \<in> set lowered then SWrite
      else SRead)"

text \<open>The groups a tier is configured with; the read tier needs none.\<close>

fun cfg_of :: "group_role_config \<Rightarrow> global_scope \<Rightarrow> string list" where
  "cfg_of cfg SAdmin = cfg_admin cfg"
| "cfg_of cfg SManage = cfg_manage cfg"
| "cfg_of cfg SWrite = cfg_write cfg"
| "cfg_of cfg SRead = []"

definition in_tier :: "string list \<Rightarrow> group_role_config \<Rightarrow> global_scope \<Rightarrow> bool" where
  "in_tier groups cfg t \<longleftrightarrow>
     t = SRead \<or> (\<exists>g \<in> set groups. js_lower g \<in> set (cfg_of cfg t))"

lemma resolveGlobalScope_in_tier: "in_tier groups cfg (resolveGlobalScope groups cfg)"
  unfolding resolveGlobalScope_def Let_def
  by (auto simp: in_tier_def split: if_split)

lemma resolveGlobalScope_greatest:
  "in_tier groups cfg t \<Longrightarrow> t \<le> resolveGlobalScope groups cfg"
  unfolding resolveGlobalScope_def Let_def
  by (cases t) (auto simp: in_tier_def)

lemma resolveGlobalScope_mono:
  "set gs \<subseteq> set hs \<Longrightarrow> resolveGlobalScope gs cfg \<le> resolveGlobalScope hs cfg"
proof -
  assume sub: "set gs \<subseteq> set hs"
  have "in_tier hs cfg (resolveGlobalScope gs cfg)"
    using resolveGlobalScope_in_tier [of gs cfg] sub by (auto simp: in_tier_def)
  then show ?thesis by (rule resolveGlobalScope_greatest)
qed

text \<open>The global scope of a user is the greatest tier one of whose groups, ignoring case, is
  configured for it; the read tier is open to everyone.\<close>

theorem global_scope_is_greatest_tier:
  "in_tier groups cfg (resolveGlobalScope groups cfg) \<and>
   {t. in_tier groups cfg t} \<subseteq> {..resolveGlobalScope groups cfg}"
  by (auto intro: resolveGlobalScope_in_tier resolveGlobalScope_greatest)

end
