(* ===== verification/GraphDb.thy ===== *)
theory GraphDb
  imports Prelude
begin

text \<open>
  The tables of the graph database the server's components read and write (nodes, edges,
  node\_access, files, the tables that hang off a node, audit\_log), each as the list of its rows in table order, the queries
  several components share, and the audit writer of \<^verbatim>\<open>apps/server/infra/audit.ts\<close> with the
  change-feed publication that rides on it.  A JSON column is its parsed value: \<open>None\<close> for NULL,
  \<open>Some None\<close> for text \<open>JSON.parse\<close> rejects.
\<close>

datatype json = JNull | JBool bool | JNum int | JStr string | JArr "json list" | JObj "(string \<times> json) list"

text \<open>Property access on a parsed value: a repeated key keeps its last value.\<close>

fun json_get :: "json \<Rightarrow> string \<Rightarrow> json option" where
  "json_get (JObj kvs) k = map_of (rev kvs) k"
| "json_get _ k = None"

record node_row =
  nd_id :: node_id
  nd_type :: string
  nd_name :: string
  nd_visibility :: string
  nd_access_mode :: string
  nd_created_by :: user_id
  nd_meta :: "json option option"
  nd_sync_key :: string
  nd_description :: "string option"
  nd_status :: string
  nd_lifecycle :: "string option"
  nd_health :: string
  nd_goal :: "string option"
  nd_owner :: "string option"
  nd_created_at :: timestamp
  nd_updated_at :: timestamp

record edge_row =
  ed_id :: string
  ed_source :: node_id
  ed_target :: node_id
  ed_relation :: string
  ed_meta :: "json option"
  ed_created_by :: user_id
  ed_created_at :: timestamp

record access_row =
  ac_node :: node_id
  ac_kind :: string
  ac_principal :: string

record file_row =
  fl_id :: string
  fl_node :: node_id
  fl_remote_name :: "string option"
  fl_remote_path :: "string option"
  fl_updated_at :: timestamp
  fl_filename :: string
  fl_status :: string
  fl_hash :: "string option"              \<comment> \<open>current_remote_hash\<close>
  fl_native :: bool
  fl_object :: "string option"            \<comment> \<open>remote_file_id\<close>
  fl_pushed_by :: "user_id option"
  fl_pushed_at :: "timestamp option"
  fl_mime :: "string option"

text \<open>The rows of the tables that hang off a node (events, responsibilities, data sources, tools).\<close>

record child_row =
  cr_id :: string
  cr_node :: node_id

record assignment_row =
  as_responsibility :: string
  as_actor :: string

record audit_entry =
  au_user :: user_id
  au_action :: string
  au_target_type :: string
  au_target_id :: string
  au_detail :: "json option"

datatype change_kind = ChangeNode | ChangeFiles

record graph_db =
  nodes_t :: "node_row list"
  edges_t :: "edge_row list"
  access_t :: "access_row list"
  files_t :: "file_row list"
  events_t :: "child_row list"
  responsibilities_t :: "child_row list"
  assignments_t :: "assignment_row list"
  data_sources_t :: "child_row list"
  tools_t :: "child_row list"
  audit_t :: "audit_entry list"
  feed_t :: "(node_id \<times> change_kind) list"

definition empty_graph_db :: graph_db where
  "empty_graph_db =
     \<lparr>nodes_t = [], edges_t = [], access_t = [], files_t = [], events_t = [], responsibilities_t = [],
      assignments_t = [], data_sources_t = [], tools_t = [], audit_t = [], feed_t = []\<rparr>"

definition node_by_id :: "graph_db \<Rightarrow> node_id \<Rightarrow> node_row option" where
  "node_by_id db i = find (\<lambda>n. nd_id n = i) (nodes_t db)"

lemma node_by_id_SomeD: "node_by_id db i = Some n \<Longrightarrow> n \<in> set (nodes_t db) \<and> nd_id n = i"
  by (auto simp: node_by_id_def dest: find_SomeD)

section \<open>The audit log\<close>

definition auditNodeId :: "string \<Rightarrow> string \<Rightarrow> json option \<Rightarrow> node_id option" where
  "auditNodeId targetType targetId detail =
     (if targetType = ''node'' then Some targetId
      else (case Option.bind detail (\<lambda>d. json_get d ''node_id'') of
              Some (JStr s) \<Rightarrow> (if 0 < length s then Some s else None)
            | _ \<Rightarrow> None))"

definition auditChangeKind :: "string \<Rightarrow> string \<Rightarrow> change_kind" where
  "auditChangeKind action targetType =
     (if targetType = ''file'' \<or> prefix ''sync_'' action then ChangeFiles else ChangeNode)"

definition publishNodeChange :: "node_id \<Rightarrow> change_kind \<Rightarrow> graph_db \<Rightarrow> graph_db" where
  "publishNodeChange i k db = db\<lparr>feed_t := feed_t db @ [(i, k)]\<rparr>"

definition writeAudit ::
  "user_id \<Rightarrow> string \<Rightarrow> string \<Rightarrow> string \<Rightarrow> json option \<Rightarrow> graph_db \<Rightarrow> graph_db" where
  "writeAudit user action targetType targetId detail db =
     (let db' = db\<lparr>audit_t := audit_t db @
                  [\<lparr>au_user = user, au_action = action, au_target_type = targetType,
                    au_target_id = targetId, au_detail = detail\<rparr>]\<rparr>
      in case auditNodeId targetType targetId detail of
           None \<Rightarrow> db'
         | Some i \<Rightarrow> publishNodeChange i (auditChangeKind action targetType) db')"

text \<open>Publishing and auditing leave the graph itself alone.\<close>

lemma publish_frame [simp]:
  "nodes_t (publishNodeChange i k db) = nodes_t db"
  "edges_t (publishNodeChange i k db) = edges_t db"
  "access_t (publishNodeChange i k db) = access_t db"
  "files_t (publishNodeChange i k db) = files_t db"
  "audit_t (publishNodeChange i k db) = audit_t db"
  by (simp_all add: publishNodeChange_def)

lemma writeAudit_frame [simp]:
  "nodes_t (writeAudit u a tt ti d db) = nodes_t db"
  "edges_t (writeAudit u a tt ti d db) = edges_t db"
  "access_t (writeAudit u a tt ti d db) = access_t db"
  "files_t (writeAudit u a tt ti d db) = files_t db"
  by (simp_all add: writeAudit_def Let_def split: option.splits)

lemma writeAudit_appends:
  "audit_t (writeAudit u a tt ti d db) =
     audit_t db @ [\<lparr>au_user = u, au_action = a, au_target_type = tt, au_target_id = ti, au_detail = d\<rparr>]"
  by (simp add: writeAudit_def Let_def split: option.splits)

section \<open>Neighbours\<close>

text \<open>
  The one definition of depth one, \<^verbatim>\<open>apps/server/domain/queries/neighbours.ts\<close>: the distinct
  peers of a node over the edges that touch it, in either direction, empty ids dropped.
\<close>

definition peer_of :: "node_id \<Rightarrow> edge_row \<Rightarrow> node_id" where
  "peer_of i e = (if ed_source e = i then ed_target e else ed_source e)"

definition nodeNeighbourIds :: "graph_db \<Rightarrow> node_id \<Rightarrow> node_id list" where
  "nodeNeighbourIds db i =
     filter (\<lambda>p. p \<noteq> [])
       (js_set (map (peer_of i) (filter (\<lambda>e. ed_source e = i \<or> ed_target e = i) (edges_t db))))"

definition adjacent :: "graph_db \<Rightarrow> node_id \<Rightarrow> node_id \<Rightarrow> bool" where
  "adjacent db a b \<longleftrightarrow>
     (\<exists>e \<in> set (edges_t db). (ed_source e = a \<and> ed_target e = b) \<or> (ed_source e = b \<and> ed_target e = a))"

lemma adjacent_sym: "adjacent db a b \<Longrightarrow> adjacent db b a"
  by (auto simp: adjacent_def)

lemma set_nodeNeighbourIds: "set (nodeNeighbourIds db i) = {p. adjacent db i p \<and> p \<noteq> []}"
  by (auto simp: nodeNeighbourIds_def adjacent_def peer_of_def image_iff split: if_splits)

lemma distinct_nodeNeighbourIds: "distinct (nodeNeighbourIds db i)"
  by (simp add: nodeNeighbourIds_def)

end
