(* ===== verification/Samples.thy ===== *)
theory Samples
  imports GraphDb
begin

text \<open>
  One small concrete graph, at which the witnesses of the graph components apply their
  properties: an organization with a private area owned by \<open>ann\<close>, a project in that area, a
  scope-sensitive node, and a node opened to the group \<open>dev\<close>.
\<close>

definition sample_node :: "node_id \<Rightarrow> string \<Rightarrow> string \<Rightarrow> user_id \<Rightarrow> json option option \<Rightarrow> node_row" where
  "sample_node i ty vis owner m =
     \<lparr>nd_id = i, nd_type = ty, nd_name = i, nd_visibility = vis, nd_access_mode = ''hidden'',
      nd_created_by = owner, nd_meta = m, nd_sync_key = i, nd_description = None,
      nd_status = ''active'', nd_lifecycle = None, nd_health = ''on_track'', nd_goal = None,
      nd_owner = None, nd_created_at = 0, nd_updated_at = 0\<rparr>"

definition sample_edge :: "string \<Rightarrow> node_id \<Rightarrow> node_id \<Rightarrow> string \<Rightarrow> edge_row" where
  "sample_edge i a b rel = \<lparr>ed_id = i, ed_source = a, ed_target = b, ed_relation = rel,
     ed_meta = None, ed_created_by = ''ann'', ed_created_at = 0\<rparr>"

definition sample_db :: graph_db where
  "sample_db =
     \<lparr>nodes_t =
        [sample_node ''org'' ''organization'' ''team'' ''ann'' None,
         sample_node ''area'' ''area'' ''private'' ''ann'' None,
         sample_node ''proj'' ''project'' ''team'' ''ann'' None,
         sample_node ''sec'' ''process'' ''team'' ''ann''
           (Some (Some (JObj [(''scope_sensitive'', JBool True)]))),
         sample_node ''grp'' ''process'' ''team'' ''ann'' None],
      edges_t =
        [sample_edge ''e1'' ''area'' ''org'' ''belongs_to'',
         sample_edge ''e2'' ''proj'' ''area'' ''belongs_to'',
         sample_edge ''e3'' ''sec'' ''org'' ''belongs_to'',
         sample_edge ''e4'' ''grp'' ''org'' ''belongs_to'',
         sample_edge ''e5'' ''grp'' ''sec'' ''related_to''],
      access_t = [\<lparr>ac_node = ''grp'', ac_kind = ''group'', ac_principal = ''dev''\<rparr>],
      files_t = [], events_t = [], responsibilities_t = [], assignments_t = [],
      data_sources_t = [], tools_t = [], audit_t = [], feed_t = []\<rparr>"

lemmas sample_simps = sample_db_def sample_node_def sample_edge_def node_by_id_def

end
