(* ===== verification/NodeAccess.thy ===== *)
theory NodeAccess
  imports GraphDb Roles Samples
begin

text \<open>
  Node-level access, \<^verbatim>\<open>apps/server/auth/node-access.ts\<close>: the chain query over
  \<open>belongs_to\<close>, the resolution of a chain to the nearest authoritative node, the visibility
  test, and the batch paths (filter, restriction flag, three-way classification).
  The lemmas show that the batched query gives every node the chain it would get alone, that a
  resolved chain is the nearest restricted node of the walk, and that the batch paths agree
  with the single-node test.
\<close>

section \<open>The chain query\<close>

record chain_row =
  ch_node :: node_id
  ch_depth :: nat
  ch_visibility :: string
  ch_mode :: string
  ch_created_by :: user_id
  ch_grant :: "(string \<times> string) option"

definition MAX_CHAIN :: nat where "MAX_CHAIN = 50"

definition CHAIN_BATCH :: nat where "CHAIN_BATCH = 500"

text \<open>The correlated \<open>LIMIT 1\<close> subquery: the first \<open>belongs_to\<close> edge of the table.\<close>

definition chain_parent :: "graph_db \<Rightarrow> node_id \<Rightarrow> node_id option" where
  "chain_parent db i =
     map_option ed_target
       (find (\<lambda>e. ed_source e = i \<and> ed_relation e = ''belongs_to'') (edges_t db))"

text \<open>The recursive part of the query: the rows \<open>(id, depth)\<close> seeded from one root.\<close>

function chain_walk :: "graph_db \<Rightarrow> node_id \<Rightarrow> nat \<Rightarrow> (node_id \<times> nat) list" where
  "chain_walk db i d =
     (i, d) # (if d < MAX_CHAIN
               then (case chain_parent db i of
                       None \<Rightarrow> []
                     | Some p \<Rightarrow> chain_walk db p (Suc d))
               else [])"
  by pat_completeness auto
termination
  by (relation "measure (\<lambda>(db, i, d). MAX_CHAIN - d)") auto

declare chain_walk.simps [simp del]

text \<open>The join on \<open>nodes\<close> and the left join on \<open>node_access\<close> for one row of the walk.\<close>

definition node_chain_rows :: "graph_db \<Rightarrow> nat \<Rightarrow> node_row \<Rightarrow> chain_row list" where
  "node_chain_rows db d n =
     (let base = \<lparr>ch_node = nd_id n, ch_depth = d, ch_visibility = nd_visibility n,
                  ch_mode = nd_access_mode n, ch_created_by = nd_created_by n, ch_grant = None\<rparr>
      in case filter (\<lambda>a. ac_node a = nd_id n) (access_t db) of
           [] \<Rightarrow> [base]
         | as \<Rightarrow> map (\<lambda>a. base\<lparr>ch_grant := Some (ac_kind a, ac_principal a)\<rparr>) as)"

definition join_row :: "graph_db \<Rightarrow> node_id \<times> nat \<Rightarrow> chain_row list" where
  "join_row db x =
     concat (map (node_chain_rows db (snd x)) (filter (\<lambda>n. nd_id n = fst x) (nodes_t db)))"

definition chain_rows :: "graph_db \<Rightarrow> node_id \<Rightarrow> chain_row list" where
  "chain_rows db root = concat (map (join_row db) (chain_walk db root 0))"

text \<open>The result set of one batch: every row tagged with its root, ordered by root and depth.\<close>

definition chain_query :: "graph_db \<Rightarrow> node_id list \<Rightarrow> (node_id \<times> chain_row) list" where
  "chain_query db batch =
     sort_key fst (sort_key (\<lambda>r. ch_depth (snd r))
       (concat (map (\<lambda>root. map (Pair root) (chain_rows db root)) batch)))"

text \<open>The loop over a result set that pushes each row onto its root's bucket.\<close>

definition push_row :: "node_id \<times> chain_row \<Rightarrow> (node_id \<rightharpoonup> chain_row list) \<Rightarrow> (node_id \<rightharpoonup> chain_row list)" where
  "push_row r m =
     (case m (fst r) of
        Some rows \<Rightarrow> m(fst r \<mapsto> rows @ [snd r])
      | None \<Rightarrow> m(fst r \<mapsto> [snd r]))"

definition loadChains :: "graph_db \<Rightarrow> node_id list \<Rightarrow> (node_id \<rightharpoonup> chain_row list)" where
  "loadChains db nodeIds =
     fold (\<lambda>batch m. fold push_row (chain_query db batch) m)
       (chunks CHAIN_BATCH (js_set nodeIds)) Map.empty"

definition loadChain :: "graph_db \<Rightarrow> node_id \<Rightarrow> chain_row list" where
  "loadChain db i = (case loadChains db [i] i of Some rows \<Rightarrow> rows | None \<Rightarrow> [])"

section \<open>Resolution\<close>

record resolved_chain =
  rc_source :: "node_id option"
  rc_entries :: "(string \<times> string) list option"
  rc_mode :: "string option"
  rc_implicit :: bool

definition unrestricted :: resolved_chain where
  "unrestricted = \<lparr>rc_source = None, rc_entries = None, rc_mode = None, rc_implicit = False\<rparr>"

text \<open>The loop over the sorted depths, each with its bucket of rows.\<close>

fun resolve_depths :: "chain_row list \<Rightarrow> nat list \<Rightarrow> resolved_chain" where
  "resolve_depths rows [] = unrestricted"
| "resolve_depths rows (d # ds) =
     (let bucket = filter (\<lambda>r. ch_depth r = d) rows;
          grants = List.map_filter ch_grant bucket
      in if grants \<noteq> []
         then \<lparr>rc_source = Some (ch_node (hd bucket)), rc_entries = Some grants,
               rc_mode = Some (ch_mode (hd bucket)), rc_implicit = False\<rparr>
         else if ch_visibility (hd bucket) = ''group''
         then \<lparr>rc_source = Some (ch_node (hd bucket)), rc_entries = Some [],
               rc_mode = Some (ch_mode (hd bucket)), rc_implicit = False\<rparr>
         else if ch_visibility (hd bucket) = ''private''
         then \<lparr>rc_source = Some (ch_node (hd bucket)),
               rc_entries = Some [(''user'', ch_created_by (hd bucket))],
               rc_mode = None, rc_implicit = True\<rparr>
         else resolve_depths rows ds)"

definition resolveChainRows :: "chain_row list \<Rightarrow> resolved_chain" where
  "resolveChainRows rows =
     (if rows = [] \<or> ch_depth (hd rows) \<noteq> 0 then unrestricted
      else resolve_depths rows (sort (js_set (map ch_depth rows))))"

definition resolveAccessChain :: "graph_db \<Rightarrow> node_id \<Rightarrow> resolved_chain" where
  "resolveAccessChain db i = resolveChainRows (loadChain db i)"

definition resolveAccessChains :: "graph_db \<Rightarrow> node_id list \<Rightarrow> (node_id \<rightharpoonup> resolved_chain)" where
  "resolveAccessChains db nodeIds =
     (let chains = loadChains db nodeIds
      in fold (\<lambda>i m. if m i = None
                     then m(i \<mapsto> resolveChainRows (case chains i of Some rows \<Rightarrow> rows | None \<Rightarrow> []))
                     else m)
           nodeIds Map.empty)"

definition effectiveAccessEntries :: "graph_db \<Rightarrow> node_id \<Rightarrow> (string \<times> string) list option" where
  "effectiveAccessEntries db i = rc_entries (resolveAccessChain db i)"

section \<open>Visibility\<close>

record group_identity =
  gi_scope :: global_scope
  gi_groups :: "string list"
  gi_group_ids :: "string list"
  gi_user :: user_id

definition canSeeNode :: "group_identity \<Rightarrow> (string \<times> string) list option \<Rightarrow> bool" where
  "canSeeNode identity entries =
     (case entries of
        None \<Rightarrow> True
      | Some es \<Rightarrow>
          gi_scope identity = SAdmin \<or>
          (\<exists>e \<in> set es.
             if fst e = ''user'' then snd e = gi_user identity
             else snd e \<in> set (gi_group_ids identity) \<or>
                  (\<exists>g \<in> set (gi_groups identity). js_lower g = js_lower (snd e))))"

definition nodeVisibleTo :: "graph_db \<Rightarrow> group_identity \<Rightarrow> node_id \<Rightarrow> bool" where
  "nodeVisibleTo db identity i = canSeeNode identity (effectiveAccessEntries db i)"

text \<open>
  The three batch paths.  Each returns a JavaScript \<open>Set\<close> or \<open>Map\<close> keyed by node id; the model
  returns the set of members, or the map.
\<close>

definition filterVisibleNodeIds :: "graph_db \<Rightarrow> group_identity \<Rightarrow> node_id list \<Rightarrow> node_id set" where
  "filterVisibleNodeIds db identity nodeIds =
     (if gi_scope identity = SAdmin then set nodeIds
      else (let resolved = resolveAccessChains db nodeIds
            in set (filter (\<lambda>i. case resolved i of
                                  Some c \<Rightarrow> canSeeNode identity (rc_entries c)
                                | None \<Rightarrow> False) nodeIds)))"

definition visibilityWithRestriction ::
  "graph_db \<Rightarrow> group_identity \<Rightarrow> node_id list \<Rightarrow> (node_id \<rightharpoonup> bool \<times> bool)" where
  "visibilityWithRestriction db identity nodeIds =
     (let isAdmin = (gi_scope identity = SAdmin); resolved = resolveAccessChains db nodeIds
      in (\<lambda>i. map_option (\<lambda>c. (if isAdmin then True else canSeeNode identity (rc_entries c),
                                rc_entries c \<noteq> None)) (resolved i)))"

datatype node_visibility = Visible | Request | Hidden

definition classifyNodeVisibility ::
  "graph_db \<Rightarrow> group_identity \<Rightarrow> node_id list \<Rightarrow> (node_id \<rightharpoonup> node_visibility)" where
  "classifyNodeVisibility db identity nodeIds =
     (if gi_scope identity = SAdmin
      then fold (\<lambda>i m. m(i \<mapsto> Visible)) nodeIds Map.empty
      else (let resolved = resolveAccessChains db nodeIds
            in (\<lambda>i. map_option
                      (\<lambda>c. if canSeeNode identity (rc_entries c) then Visible
                           else if rc_mode c = Some ''request'' then Request
                           else Hidden) (resolved i))))"

section \<open>The batched query gives every node its own chain\<close>

lemma push_row_apply:
  "push_row r m i =
     (if fst r = i then Some ((case m i of None \<Rightarrow> [] | Some old \<Rightarrow> old) @ [snd r]) else m i)"
  by (simp add: push_row_def split: option.splits)

lemma fold_push_row:
  "fold push_row rs m i =
     (case map snd (filter (\<lambda>r. fst r = i) rs) of
        [] \<Rightarrow> m i
      | ys \<Rightarrow> Some ((case m i of None \<Rightarrow> [] | Some old \<Rightarrow> old) @ ys))"
proof (induction rs arbitrary: m)
  case Nil
  then show ?case by simp
next
  case (Cons r rs)
  show ?case
    using push_row_apply [of r m i]
    by (simp add: Cons.IH split: option.splits list.splits)
qed

lemma fold_fold_concat: "fold (\<lambda>b m. fold f (q b) m) bs m = fold f (concat (map q bs)) m"
  by (induction bs arbitrary: m) auto

lemma node_chain_rows_fields:
  "r \<in> set (node_chain_rows db d n) \<Longrightarrow>
     ch_depth r = d \<and> ch_node r = nd_id n \<and> ch_visibility r = nd_visibility n \<and>
     ch_mode r = nd_access_mode n \<and> ch_created_by r = nd_created_by n"
  by (cases "filter (\<lambda>a. ac_node a = nd_id n) (access_t db)")
    (auto simp: node_chain_rows_def Let_def)

lemma join_row_depth: "r \<in> set (join_row db x) \<Longrightarrow> ch_depth r = snd x"
  by (auto simp: join_row_def dest: node_chain_rows_fields)

lemma chain_walk_depths:
  "map snd (chain_walk db i d) = [d..<d + length (chain_walk db i d)]"
proof (induction db i d rule: chain_walk.induct)
  case (1 db i d)
  show ?case
  proof (cases "d < MAX_CHAIN \<and> chain_parent db i \<noteq> None")
    case True
    then obtain p where p: "chain_parent db i = Some p" and d: "d < MAX_CHAIN" by auto
    from "1.IH" [OF d p]
    have "map snd (chain_walk db p (Suc d)) = [Suc d..<Suc d + length (chain_walk db p (Suc d))]" .
    then show ?thesis
      by (simp add: chain_walk.simps [of db i d] p d upt_conv_Cons del: upt_Suc)
  next
    case False
    then show ?thesis
      by (auto simp: chain_walk.simps [of db i d] split: option.splits)
  qed
qed

lemma chain_walk_distinct_depths: "distinct (map snd (chain_walk db i d))"
  by (simp add: chain_walk_depths)

lemma sorted_join_rows:
  "sorted (map snd W) \<Longrightarrow> sorted (map ch_depth (concat (map (join_row db) W)))"
proof (induction W)
  case Nil
  then show ?case by simp
next
  case (Cons x W)
  have "map ch_depth (join_row db x) = map (\<lambda>_. snd x) (join_row db x)"
    by (rule map_cong) (auto dest: join_row_depth)
  then have "sorted (map ch_depth (join_row db x))"
    by (simp add: map_replicate_const)
  with Cons show ?case
    by (fastforce simp: sorted_append dest: join_row_depth)
qed

lemma chain_rows_sorted: "sorted (map ch_depth (chain_rows db i))"
  unfolding chain_rows_def
  by (rule sorted_join_rows) (simp add: chain_walk_depths)

lemma filter_tagged_concat:
  "distinct batch \<Longrightarrow>
     filter (\<lambda>r. fst r = i) (concat (map (\<lambda>root. map (Pair root) (f root)) batch)) =
     (if i \<in> set batch then map (Pair i) (f i) else [])"
  by (induction batch) (auto simp: filter_map o_def filter_empty_conv)

lemma chain_query_filter:
  assumes "distinct batch"
  shows "filter (\<lambda>r. fst r = i) (chain_query db batch) =
           (if i \<in> set batch then map (Pair i) (chain_rows db i) else [])"
proof -
  have "filter (\<lambda>r. fst r = i) (chain_query db batch) =
          sort_key (\<lambda>r. ch_depth (snd r))
            (if i \<in> set batch then map (Pair i) (chain_rows db i) else [])"
    by (simp add: chain_query_def sort_key_stable filter_sort filter_tagged_concat [OF assms])
  then show ?thesis
    using chain_rows_sorted [of db i]
    by (auto simp: sort_key_id_if_sorted o_def)
qed

lemma concat_if_member:
  "distinct (concat bs) \<Longrightarrow>
     concat (map (\<lambda>b. if i \<in> set b then X else []) bs) = (if i \<in> set (concat bs) then X else [])"
  by (induction bs) auto

lemma filter_queries:
  assumes "distinct (concat bs)" and "\<forall>b \<in> set bs. distinct b"
  shows "filter (\<lambda>r. fst r = i) (concat (map (chain_query db) bs)) =
           (if i \<in> set (concat bs) then map (Pair i) (chain_rows db i) else [])"
proof -
  have "filter (\<lambda>r. fst r = i) (concat (map (chain_query db) bs)) =
          concat (map (\<lambda>b. if i \<in> set b then map (Pair i) (chain_rows db i) else []) bs)"
    using assms(2) by (induction bs) (simp_all add: chain_query_filter)
  with assms(1) show ?thesis by (simp add: concat_if_member)
qed

lemma CHAIN_BATCH_pos: "0 < CHAIN_BATCH"
  by (simp add: CHAIN_BATCH_def)

lemma loadChains_eq:
  "loadChains db ids i =
     (if i \<in> set ids \<and> chain_rows db i \<noteq> [] then Some (chain_rows db i) else None)"
proof -
  have cc: "concat (chunks CHAIN_BATCH (js_set ids)) = js_set ids"
    by (rule concat_chunks [OF CHAIN_BATCH_pos])
  then have d: "distinct (concat (chunks CHAIN_BATCH (js_set ids)))" by simp
  then have d': "\<forall>b \<in> set (chunks CHAIN_BATCH (js_set ids)). distinct b"
    by (auto simp: distinct_concat_iff)
  have "loadChains db ids i =
          fold push_row (concat (map (chain_query db) (chunks CHAIN_BATCH (js_set ids)))) Map.empty i"
    by (simp add: loadChains_def fold_fold_concat)
  also have "\<dots> = (if i \<in> set ids \<and> chain_rows db i \<noteq> [] then Some (chain_rows db i) else None)"
    by (simp add: fold_push_row filter_queries [OF d d'] cc o_def split: list.splits)
  finally show ?thesis .
qed

lemma loadChain_eq: "loadChain db i = chain_rows db i"
  by (simp add: loadChain_def loadChains_eq)

lemma fold_upd_if_new:
  "fold (\<lambda>i m. if m i = None then m(i \<mapsto> f i) else m) ids m x =
     (if x \<in> set ids \<and> m x = None then Some (f x) else m x)"
  by (induction ids arbitrary: m) auto

lemma resolveAccessChains_eq:
  "resolveAccessChains db ids i = (if i \<in> set ids then Some (resolveAccessChain db i) else None)"
  by (simp add: resolveAccessChains_def Let_def fold_upd_if_new resolveAccessChain_def
      loadChain_eq loadChains_eq)

section \<open>A resolved chain is the nearest authoritative node\<close>

text \<open>
  The specification: a node decides for itself when it has grants, or is restricted by its
  visibility; otherwise the decision is that of the next node of the \<open>belongs_to\<close> walk.
\<close>

definition node_grants :: "graph_db \<Rightarrow> node_id \<Rightarrow> (string \<times> string) list" where
  "node_grants db i =
     map (\<lambda>a. (ac_kind a, ac_principal a)) (filter (\<lambda>a. ac_node a = i) (access_t db))"

definition node_authority :: "graph_db \<Rightarrow> node_row \<Rightarrow> resolved_chain option" where
  "node_authority db n =
     (if node_grants db (nd_id n) \<noteq> []
      then Some \<lparr>rc_source = Some (nd_id n), rc_entries = Some (node_grants db (nd_id n)),
                 rc_mode = Some (nd_access_mode n), rc_implicit = False\<rparr>
      else if nd_visibility n = ''group''
      then Some \<lparr>rc_source = Some (nd_id n), rc_entries = Some [],
                 rc_mode = Some (nd_access_mode n), rc_implicit = False\<rparr>
      else if nd_visibility n = ''private''
      then Some \<lparr>rc_source = Some (nd_id n), rc_entries = Some [(''user'', nd_created_by n)],
                 rc_mode = None, rc_implicit = True\<rparr>
      else None)"

fun nearest_authority :: "graph_db \<Rightarrow> node_id list \<Rightarrow> resolved_chain" where
  "nearest_authority db [] = unrestricted"
| "nearest_authority db (i # is) =
     (case Option.bind (node_by_id db i) (node_authority db) of
        Some rc \<Rightarrow> rc
      | None \<Rightarrow> nearest_authority db is)"

text \<open>\<open>nodes.id\<close> is a primary key.\<close>

definition unique_nodes :: "graph_db \<Rightarrow> bool" where
  "unique_nodes db \<longleftrightarrow> distinct (map nd_id (nodes_t db))"

lemma find_distinct_filter:
  "distinct (map f xs) \<Longrightarrow>
     filter (\<lambda>x. f x = k) xs = (case find (\<lambda>x. f x = k) xs of None \<Rightarrow> [] | Some x \<Rightarrow> [x])"
  by (induction xs) (fastforce simp: filter_empty_conv image_iff split: option.splits dest: find_SomeD)+

lemma join_row_unique:
  "unique_nodes db \<Longrightarrow>
     join_row db x =
       (case node_by_id db (fst x) of None \<Rightarrow> [] | Some n \<Rightarrow> node_chain_rows db (snd x) n)"
  by (simp add: join_row_def unique_nodes_def node_by_id_def find_distinct_filter split: option.splits)

lemma node_chain_rows_nonempty [simp]: "node_chain_rows db d n \<noteq> []"
  by (simp add: node_chain_rows_def Let_def split: list.splits)

lemma node_chain_rows_grants:
  "List.map_filter ch_grant (node_chain_rows db d n) = node_grants db (nd_id n)"
  by (cases "filter (\<lambda>a. ac_node a = nd_id n) (access_t db)")
    (simp_all add: node_chain_rows_def node_grants_def Let_def List.map_filter_def o_def)

lemma node_chain_rows_hd:
  "ch_node (hd (node_chain_rows db d n)) = nd_id n"
  "ch_visibility (hd (node_chain_rows db d n)) = nd_visibility n"
  "ch_mode (hd (node_chain_rows db d n)) = nd_access_mode n"
  "ch_created_by (hd (node_chain_rows db d n)) = nd_created_by n"
  "ch_depth (hd (node_chain_rows db d n)) = d"
  using node_chain_rows_fields [OF hd_in_set [OF node_chain_rows_nonempty [of db d n]]] by auto

lemma resolve_depths_Cons_node:
  assumes "filter (\<lambda>r. ch_depth r = d) rows = node_chain_rows db d n"
  shows "resolve_depths rows (d # ds) =
           (case node_authority db n of Some rc \<Rightarrow> rc | None \<Rightarrow> resolve_depths rows ds)"
  by (simp add: assms Let_def node_chain_rows_grants node_chain_rows_hd node_authority_def)

lemma node_chain_rows_depths [simp]: "ch_depth ` set (node_chain_rows db d n) = {d}"
  by (cases "filter (\<lambda>a. ac_node a = nd_id n) (access_t db)")
    (auto simp: node_chain_rows_def Let_def)

lemma filter_depth_absent:
  "d \<notin> snd ` set W \<Longrightarrow> filter (\<lambda>r. ch_depth r = d) (concat (map (join_row db) W)) = []"
  by (force simp: filter_empty_conv dest: join_row_depth)

lemma filter_depth_rows:
  "distinct (map snd W) \<Longrightarrow> x \<in> set W \<Longrightarrow>
     filter (\<lambda>r. ch_depth r = snd x) (concat (map (join_row db) W)) = join_row db x"
proof (induction W)
  case Nil
  then show ?case by simp
next
  case (Cons y W)
  show ?case
  proof (cases "x = y")
    case True
    have "filter (\<lambda>r. ch_depth r = snd x) (concat (map (join_row db) W)) = []"
      by (rule filter_depth_absent) (use Cons.prems True in auto)
    moreover have "filter (\<lambda>r. ch_depth r = snd x) (join_row db y) = join_row db y"
      using True by (auto simp: filter_id_conv dest: join_row_depth)
    ultimately show ?thesis using True by simp
  next
    case False
    with Cons.prems have "snd y \<noteq> snd x" and "x \<in> set W" by (auto simp: rev_image_eqI)
    then have "filter (\<lambda>r. ch_depth r = snd x) (join_row db y) = []"
      by (auto simp: filter_empty_conv dest: join_row_depth)
    with Cons \<open>x \<in> set W\<close> show ?thesis by simp
  qed
qed

definition present :: "graph_db \<Rightarrow> (node_id \<times> nat) list \<Rightarrow> (node_id \<times> nat) list" where
  "present db W = filter (\<lambda>x. node_by_id db (fst x) \<noteq> None) W"

lemma present_simps [simp]:
  "present db [] = []"
  "present db (x # W) = (if node_by_id db (fst x) = None then present db W else x # present db W)"
  by (simp_all add: present_def)

lemma row_depths_present:
  assumes "unique_nodes db" and "sorted (map snd W)" and "distinct (map snd W)"
  shows "sort (js_set (map ch_depth (concat (map (join_row db) W)))) = map snd (present db W)"
proof (rule sorted_distinct_set_unique)
  show "sorted (map snd (present db W))"
    unfolding present_def using assms(2) by (rule sorted_filter)
  show "distinct (map snd (present db W))"
    unfolding present_def using assms(3) by (rule distinct_map_filter)
  have "ch_depth ` set (join_row db x) = (if node_by_id db (fst x) = None then {} else {snd x})" for x
    by (cases "node_by_id db (fst x)") (simp_all add: join_row_unique [OF assms(1)])
  then show "set (sort (js_set (map ch_depth (concat (map (join_row db) W))))) =
               set (map snd (present db W))"
    by (auto simp: present_def image_UN split: if_splits)
qed simp_all

lemma resolve_depths_nearest:
  assumes "unique_nodes db" and "distinct (map snd W)" and "set V \<subseteq> set W"
  shows "resolve_depths (concat (map (join_row db) W)) (map snd (present db V)) =
           nearest_authority db (map fst V)"
  using assms(3)
proof (induction V)
  case Nil
  then show ?case by simp
next
  case (Cons x V)
  then have IH: "resolve_depths (concat (map (join_row db) W)) (map snd (present db V)) =
                   nearest_authority db (map fst V)" and x: "x \<in> set W"
    by auto
  show ?case
  proof (cases "node_by_id db (fst x)")
    case None
    with IH show ?thesis by simp
  next
    case (Some n)
    then have "filter (\<lambda>r. ch_depth r = snd x) (concat (map (join_row db) W)) =
                 node_chain_rows db (snd x) n"
      using filter_depth_rows [OF assms(2) x, of db] by (simp add: join_row_unique [OF assms(1)])
    from resolve_depths_Cons_node [OF this, of "map snd (present db V)"] IH Some
    show ?thesis
      by (simp del: resolve_depths.simps split: option.split)
  qed
qed

lemma chain_walk_head: "\<exists>W. chain_walk db i d = (i, d) # W"
  by (subst chain_walk.simps) simp

theorem resolveAccessChain_spec:
  assumes "unique_nodes db"
  shows "resolveAccessChain db i =
           (if node_by_id db i = None then unrestricted
            else nearest_authority db (map fst (chain_walk db i 0)))"
proof -
  let ?W = "chain_walk db i 0"
  obtain W' where W: "?W = (i, 0) # W'" using chain_walk_head by blast
  have srt: "sorted (map snd ?W)" and dst: "distinct (map snd ?W)"
    by (simp_all add: chain_walk_depths)
  have rows: "loadChain db i = concat (map (join_row db) ?W)"
    by (simp add: loadChain_eq chain_rows_def)
  show ?thesis
  proof (cases "node_by_id db i")
    case None
    have "\<forall>r \<in> set (loadChain db i). ch_depth r \<noteq> 0"
    proof
      fix r assume "r \<in> set (loadChain db i)"
      then obtain x where x: "x \<in> set ?W" and r: "r \<in> set (join_row db x)"
        by (auto simp: rows)
      have "x \<noteq> (i, 0)" using r None by (auto simp: join_row_unique [OF assms])
      then have "snd x \<noteq> 0" using x dst W by (force simp: rev_image_eqI)
      then show "ch_depth r \<noteq> 0" using r by (simp add: join_row_depth)
    qed
    with None show ?thesis
      by (cases "loadChain db i") (auto simp: resolveAccessChain_def resolveChainRows_def)
  next
    case (Some n)
    have "loadChain db i = node_chain_rows db 0 n @ concat (map (join_row db) W')"
      by (simp add: rows W join_row_unique [OF assms] Some)
    then have "loadChain db i \<noteq> []" and "ch_depth (hd (loadChain db i)) = 0"
      by (simp_all add: node_chain_rows_hd)
    moreover have "sort (js_set (map ch_depth (loadChain db i))) = map snd (present db ?W)"
      unfolding rows by (rule row_depths_present [OF assms srt dst])
    ultimately have "resolveAccessChain db i =
                 resolve_depths (concat (map (join_row db) ?W)) (map snd (present db ?W))"
      by (simp add: resolveAccessChain_def resolveChainRows_def flip: rows)
    also have "\<dots> = nearest_authority db (map fst ?W)"
      by (rule resolve_depths_nearest [OF assms dst subset_refl])
    finally show ?thesis using Some by simp
  qed
qed

section \<open>Inheritance and the bound of the walk\<close>

lemma chain_walk_take:
  "d < MAX_CHAIN \<Longrightarrow>
     map fst (chain_walk db i (Suc d)) = take (MAX_CHAIN - d) (map fst (chain_walk db i d))"
proof (induction db i d rule: chain_walk.induct)
  case (1 db i d)
  show ?case
  proof (cases "chain_parent db i")
    case None
    with "1.prems" show ?thesis
      by (simp add: chain_walk.simps [of db i] take_Cons')
  next
    case (Some p)
    with "1.IH" [OF "1.prems" Some] "1.prems" show ?thesis
      by (cases "Suc d < MAX_CHAIN")
        (simp_all add: chain_walk.simps [of db i] chain_walk.simps [of db p MAX_CHAIN]
          take_Cons' Suc_diff_Suc not_less_eq Suc_diff_le)
  qed
qed

lemma resolve_own:
  "unique_nodes db \<Longrightarrow> node_by_id db i = Some n \<Longrightarrow> node_authority db n = Some rc \<Longrightarrow>
     resolveAccessChain db i = rc"
  using chain_walk_head [of db i 0] by (auto simp: resolveAccessChain_spec)

lemma resolve_inherit:
  assumes "unique_nodes db" and "node_by_id db i = Some n" and "node_authority db n = None"
    and "chain_parent db i = Some p" and "node_by_id db p = Some m"
    and "length (chain_walk db p 0) \<le> MAX_CHAIN"
  shows "resolveAccessChain db i = resolveAccessChain db p"
proof -
  have pos: "0 < MAX_CHAIN" by (simp add: MAX_CHAIN_def)
  have "map fst (chain_walk db p (Suc 0)) = map fst (chain_walk db p 0)"
    using chain_walk_take [OF pos, of db p] assms(6) by simp
  then have "map fst (chain_walk db i 0) = i # map fst (chain_walk db p 0)"
    using assms(4) pos by (simp add: chain_walk.simps [of db i 0])
  with assms show ?thesis by (simp add: resolveAccessChain_spec)
qed

lemma nodeVisible_own_private:
  assumes "unique_nodes db" and "node_by_id db i = Some n" and "node_grants db i = []"
    and "nd_visibility n = ''private''"
  shows "nodeVisibleTo db u i \<longleftrightarrow> gi_scope u = SAdmin \<or> gi_user u = nd_created_by n"
proof -
  have "nd_id n = i" using assms(2) by (auto dest: node_by_id_SomeD)
  with assms show ?thesis
    by (auto simp: nodeVisibleTo_def effectiveAccessEntries_def canSeeNode_def node_authority_def
        resolve_own [OF assms(1,2)])
qed

section \<open>Batch paths\<close>

lemma filterVisibleNodeIds_eq:
  "filterVisibleNodeIds db u ids = {i \<in> set ids. nodeVisibleTo db u i}"
  by (auto simp: filterVisibleNodeIds_def Let_def resolveAccessChains_eq nodeVisibleTo_def
      effectiveAccessEntries_def canSeeNode_def split: option.splits)

lemma visibilityWithRestriction_eq:
  "visibilityWithRestriction db u ids i =
     (if i \<in> set ids then Some (nodeVisibleTo db u i, effectiveAccessEntries db i \<noteq> None) else None)"
  by (auto simp: visibilityWithRestriction_def Let_def resolveAccessChains_eq nodeVisibleTo_def
      effectiveAccessEntries_def canSeeNode_def split: option.splits)

lemma fold_upd_const: "fold (\<lambda>i m. m(i \<mapsto> c)) ids m x = (if x \<in> set ids then Some c else m x)"
  by (induction ids arbitrary: m) auto

lemma nodeVisible_admin: "gi_scope u = SAdmin \<Longrightarrow> nodeVisibleTo db u i"
  by (simp add: nodeVisibleTo_def canSeeNode_def split: option.splits)

lemma classifyNodeVisibility_eq:
  "classifyNodeVisibility db u ids i =
     (if i \<notin> set ids then None
      else Some (if nodeVisibleTo db u i then Visible
                 else if rc_mode (resolveAccessChain db i) = Some ''request'' then Request
                 else Hidden))"
  by (simp add: classifyNodeVisibility_def Let_def resolveAccessChains_eq fold_upd_const
      nodeVisible_admin) (simp add: nodeVisibleTo_def effectiveAccessEntries_def)

text \<open>
  The interface the readers of the graph rely on: a test for one node, and a batch filter that
  is that test, pointwise.
\<close>

locale visibility_service =
  fixes visible :: "'n \<Rightarrow> bool"
    and filter_ids :: "'n list \<Rightarrow> 'n set"
  assumes filter_ids_eq: "filter_ids ids = {i \<in> set ids. visible i}"
begin

lemma filter_list_visible: "filter (\<lambda>i. i \<in> filter_ids ids) ids = filter visible ids"
  by (rule filter_cong) (auto simp: filter_ids_eq)

lemma filter_ids_mono: "set ids \<subseteq> set ids' \<Longrightarrow> filter_ids ids \<subseteq> filter_ids ids'"
  by (auto simp: filter_ids_eq)

end

interpretation access: visibility_service "nodeVisibleTo db u" "filterVisibleNodeIds db u"
  for db u
  by unfold_locales (rule filterVisibleNodeIds_eq)

section \<open>Only the graph matters\<close>

text \<open>Two databases with the same graph: they may differ in their logs and files.\<close>

definition same_graph :: "graph_db \<Rightarrow> graph_db \<Rightarrow> bool" where
  "same_graph db db' \<longleftrightarrow>
     nodes_t db' = nodes_t db \<and> edges_t db' = edges_t db \<and> access_t db' = access_t db"

lemma same_graph_refl [simp]: "same_graph db db"
  by (simp add: same_graph_def)

lemma same_graph_trans: "same_graph a b \<Longrightarrow> same_graph b c \<Longrightarrow> same_graph a c"
  by (simp add: same_graph_def)

lemma same_graph_writeAudit [simp]: "same_graph db (writeAudit u a tt ti d db)"
  by (simp add: same_graph_def)

lemma same_graph_node_by_id: "same_graph db db' \<Longrightarrow> node_by_id db' i = node_by_id db i"
  by (simp add: same_graph_def node_by_id_def)

lemma same_graph_neighbours: "same_graph db db' \<Longrightarrow> nodeNeighbourIds db' i = nodeNeighbourIds db i"
  by (simp add: same_graph_def nodeNeighbourIds_def)

lemma same_graph_chain_walk: "same_graph db db' \<Longrightarrow> chain_walk db' i d = chain_walk db i d"
proof (induction db i d rule: chain_walk.induct)
  case (1 db i d)
  then have "chain_parent db' i = chain_parent db i"
    by (simp add: same_graph_def chain_parent_def)
  with 1 show ?case
    by (simp add: chain_walk.simps [of db i d] chain_walk.simps [of db' i d] split: option.split)
qed

lemma same_graph_resolve:
  assumes "same_graph db db'"
  shows "resolveAccessChain db' i = resolveAccessChain db i"
proof -
  have "node_chain_rows db' = node_chain_rows db"
    using assms by (intro ext) (simp add: same_graph_def node_chain_rows_def)
  then have "join_row db' = join_row db"
    using assms by (intro ext) (simp add: same_graph_def join_row_def)
  then show ?thesis
    by (simp add: resolveAccessChain_def loadChain_eq chain_rows_def same_graph_chain_walk [OF assms])
qed

lemma same_graph_visible: "same_graph db db' \<Longrightarrow> nodeVisibleTo db' u i = nodeVisibleTo db u i"
  by (simp add: nodeVisibleTo_def effectiveAccessEntries_def same_graph_resolve)

section \<open>The sample graph\<close>

definition sample_user :: "global_scope \<Rightarrow> user_id \<Rightarrow> group_identity" where
  "sample_user sc u = \<lparr>gi_scope = sc, gi_groups = [], gi_group_ids = [], gi_user = u\<rparr>"

lemma sample_user_sel [simp]: "gi_scope (sample_user sc u) = sc" "gi_user (sample_user sc u) = u"
  by (simp_all add: sample_user_def)

lemma sample_nodes:
  "node_by_id sample_db ''org'' = Some (sample_node ''org'' ''organization'' ''team'' ''ann'' None)"
  "node_by_id sample_db ''grp'' = Some (sample_node ''grp'' ''process'' ''team'' ''ann'' None)"
  by (simp_all add: sample_simps)

lemma sample_unique: "unique_nodes sample_db"
  by (simp add: unique_nodes_def sample_simps)

lemma sample_visible_proj: "nodeVisibleTo sample_db u ''proj'' \<longleftrightarrow> gi_scope u = SAdmin \<or> gi_user u = ''ann''"
  unfolding nodeVisibleTo_def effectiveAccessEntries_def resolveAccessChain_spec [OF sample_unique]
  by (auto simp: sample_simps chain_walk.simps chain_parent_def MAX_CHAIN_def node_authority_def
      node_grants_def canSeeNode_def)

section \<open>Properties\<close>

text \<open>C7: The resolved access of an existing node is that of the nearest node of its
  \<open>belongs_to\<close> walk, itself first, that has grants or restricts itself; nothing restricts a node
  with no such ancestor, nor an id that names no node.\<close>

theorem access_is_nearest_authority:
  "unique_nodes db \<Longrightarrow>
     resolveAccessChain db i =
       (if node_by_id db i = None then unrestricted
        else nearest_authority db (map fst (chain_walk db i 0)))"
  by (rule resolveAccessChain_spec)

lemma access_is_nearest_authority_witness:
  "resolveAccessChain sample_db ''proj'' =
     \<lparr>rc_source = Some ''area'', rc_entries = Some [(''user'', ''ann'')], rc_mode = None, rc_implicit = True\<rparr>"
  using access_is_nearest_authority [OF sample_unique, of "''proj''"]
  by (simp add: sample_simps chain_walk.simps chain_parent_def MAX_CHAIN_def node_authority_def
      node_grants_def)

text \<open>The batched paths of the server agree with the test of one node, for any list of ids,
  duplicates and unknown ids included: the visible subset, the visibility and restriction flags,
  and the three-way classification, which says request only of a node the user cannot see.\<close>

theorem batch_visibility_agrees:
  "filterVisibleNodeIds db u ids = {i \<in> set ids. nodeVisibleTo db u i} \<and>
   visibilityWithRestriction db u ids =
     (\<lambda>i. if i \<in> set ids then Some (nodeVisibleTo db u i, effectiveAccessEntries db i \<noteq> None) else None) \<and>
   classifyNodeVisibility db u ids =
     (\<lambda>i. if i \<notin> set ids then None
          else Some (if nodeVisibleTo db u i then Visible
                     else if rc_mode (resolveAccessChain db i) = Some ''request'' then Request
                     else Hidden))"
  by (simp add: filterVisibleNodeIds_eq fun_eq_iff visibilityWithRestriction_eq classifyNodeVisibility_eq)

text \<open>A node with no grants and no restriction of its own is visible to exactly the users its
  parent is visible to, as long as the parent's walk is not cut off by the bound.\<close>

theorem unrestricted_node_inherits:
  "unique_nodes db \<Longrightarrow> node_by_id db i = Some n \<Longrightarrow> node_authority db n = None \<Longrightarrow>
     chain_parent db i = Some p \<Longrightarrow> node_by_id db p = Some m \<Longrightarrow>
     length (chain_walk db p 0) \<le> MAX_CHAIN \<Longrightarrow> nodeVisibleTo db u i = nodeVisibleTo db u p"
  by (simp add: nodeVisibleTo_def effectiveAccessEntries_def resolve_inherit)

lemma unrestricted_node_inherits_witness:
  "\<forall>u. nodeVisibleTo sample_db u ''proj'' = nodeVisibleTo sample_db u ''area''"
  by (rule allI, rule unrestricted_node_inherits
      [of sample_db "''proj''" "sample_node ''proj'' ''project'' ''team'' ''ann'' None" "''area''"
        "sample_node ''area'' ''area'' ''private'' ''ann'' None"])
    (simp_all add: unique_nodes_def sample_simps node_authority_def node_grants_def chain_parent_def
      chain_walk.simps MAX_CHAIN_def)

end
