(* ===== verification/ReadScope.thy ===== *)
theory ReadScope
  imports NodeAccess
begin

text \<open>
  The read scope of one MCP session, \<^verbatim>\<open>apps/server/mcp/scope.ts\<close>: the session type derived from
  the authentication path, the in-memory scope object with its listeners, seeding from a home
  node, the read decision with its hard floors, and the guard every scoped read passes through.
  A listener is a number; the calls it gets are recorded in order.  The dialog of the client
  (\<^verbatim>\<open>mcp/elicit.ts\<close>) is a parameter: a function from the prompt to the user's answer.
\<close>

section \<open>Session types\<close>

datatype via = ViaEnv | ViaSessionJwt | ViaDeviceToken | ViaOauthGrant

datatype session_type = InteractiveTask | InteractiveChat | Headless | EnvSession

definition deriveSessionType :: "via \<Rightarrow> bool \<Rightarrow> node_id option \<Rightarrow> session_type" where
  "deriveSessionType v headless homeNodeId =
     (if v = ViaEnv then EnvSession
      else if v = ViaOauthGrant then InteractiveChat
      else if headless then Headless
      else InteractiveTask)"

fun session_type_name :: "session_type \<Rightarrow> string" where
  "session_type_name InteractiveTask = ''interactive_task''"
| "session_type_name InteractiveChat = ''interactive_chat''"
| "session_type_name Headless = ''headless''"
| "session_type_name EnvSession = ''env''"

section \<open>The scope object\<close>

datatype trigger = TrigUser | TrigAgent | TrigTraversal | TrigInit

datatype added_via = ViaSeed | ViaEdge | ViaDisconnected | ViaCreated | ViaElicited

record expansion_record =
  ex_at :: timestamp
  ex_node_ids :: "node_id list"
  ex_reason :: string
  ex_trigger :: trigger
  ex_via :: "added_via option"

datatype listener_call = AddCall nat node_id | WritableCall nat node_id

record session_scope =
  sc_nodes :: "node_id list"
  sc_history :: "expansion_record list"
  sc_write :: "node_id list"
  sc_add_listeners :: "nat list"
  sc_writable_listeners :: "nat list"
  sc_calls :: "listener_call list"
  sc_home :: "node_id option"
  sc_session_id :: "session_id option"
  sc_type :: session_type
  sc_created_at :: timestamp

definition new_scope :: "session_type \<Rightarrow> timestamp \<Rightarrow> session_scope" where
  "new_scope t now =
     \<lparr>sc_nodes = [], sc_history = [], sc_write = [], sc_add_listeners = [],
      sc_writable_listeners = [], sc_calls = [], sc_home = None, sc_session_id = None,
      sc_type = t, sc_created_at = now\<rparr>"

definition scope_has :: "session_scope \<Rightarrow> node_id \<Rightarrow> bool" where
  "scope_has s i \<longleftrightarrow> i \<in> set (sc_nodes s)"

definition scope_size :: "session_scope \<Rightarrow> nat" where
  "scope_size s = length (sc_nodes s)"

definition onAdd :: "nat \<Rightarrow> session_scope \<Rightarrow> session_scope" where
  "onAdd l s = s\<lparr>sc_add_listeners := sc_add_listeners s @ [l]\<rparr>"

text \<open>\<open>add\<close>: whether the node is new, and the scope after; a throwing listener changes nothing.\<close>

definition add_node :: "node_id \<Rightarrow> session_scope \<Rightarrow> bool \<times> session_scope" where
  "add_node i s =
     (if scope_has s i then (False, s)
      else (True, s\<lparr>sc_nodes := sc_nodes s @ [i],
                    sc_calls := sc_calls s @ map (\<lambda>l. AddCall l i) (sc_add_listeners s)\<rparr>))"

definition scope_add :: "node_id \<Rightarrow> session_scope \<Rightarrow> session_scope" where
  "scope_add i s = snd (add_node i s)"

definition recordExpansion :: "expansion_record \<Rightarrow> session_scope \<Rightarrow> session_scope" where
  "recordExpansion r s = s\<lparr>sc_history := sc_history s @ [r]\<rparr>"

definition onWritable :: "nat \<Rightarrow> session_scope \<Rightarrow> session_scope" where
  "onWritable l s = s\<lparr>sc_writable_listeners := sc_writable_listeners s @ [l]\<rparr>"

definition addWritable :: "node_id \<Rightarrow> session_scope \<Rightarrow> bool \<times> session_scope" where
  "addWritable i s =
     (let s1 = scope_add i s
      in if i \<in> set (sc_write s1) then (False, s1)
         else (True, s1\<lparr>sc_write := sc_write s1 @ [i],
                        sc_calls := sc_calls s1 @ map (\<lambda>l. WritableCall l i) (sc_writable_listeners s1)\<rparr>))"

definition scope_addWritable :: "node_id \<Rightarrow> session_scope \<Rightarrow> session_scope" where
  "scope_addWritable i s = snd (addWritable i s)"

definition canWrite :: "session_scope \<Rightarrow> node_id \<Rightarrow> bool" where
  "canWrite s i \<longleftrightarrow> i \<in> set (sc_write s)"

section \<open>Seeding\<close>

definition seed_neighbours :: "graph_db \<Rightarrow> group_identity option \<Rightarrow> node_id \<Rightarrow> node_id list" where
  "seed_neighbours db identity home =
     (let raw = nodeNeighbourIds db home
      in case identity of
           None \<Rightarrow> raw
         | Some u \<Rightarrow> filter (\<lambda>i. i \<in> filterVisibleNodeIds db u raw) raw)"

definition seedScopeFromHome ::
  "graph_db \<Rightarrow> session_scope \<Rightarrow> node_id \<Rightarrow> group_identity option \<Rightarrow> node_id list \<times> session_scope" where
  "seedScopeFromHome db s home identity =
     (let s1 = scope_add home (s\<lparr>sc_home := Some home\<rparr>);
          ns = seed_neighbours db identity home
      in (home # ns, fold scope_add ns s1))"

section \<open>Prompts and structured errors\<close>

definition newline :: string where "newline = [CHR 0x0A]"

definition quoted :: "string \<Rightarrow> string" where
  "quoted s = [CHR 0x22] @ s @ [CHR 0x22]"

definition nodeConsentPrompt :: "string \<Rightarrow> node_id \<Rightarrow> string option \<Rightarrow> string option \<Rightarrow> string \<Rightarrow> string" where
  "nodeConsentPrompt action i nm ty why =
     (case nm of
        None \<Rightarrow> ''Allow this session to '' @ action @ '' node '' @ i @ ''? '' @ why
      | Some name \<Rightarrow>
          if name = [] then ''Allow this session to '' @ action @ '' node '' @ i @ ''? '' @ why
          else (let label = (case ty of
                               None \<Rightarrow> quoted name
                             | Some t \<Rightarrow> if t = [] then quoted name else quoted name @ '' ('' @ t @ '')'')
                in ''Allow this session to '' @ action @ '' '' @ label @ ''? '' @ why @ newline @ i))"

datatype scope_error =
    ExpansionRequired node_id string bool   \<comment> \<open>hint, dialog\_timed\_out present\<close>
  | ScopeRefused node_id string

definition timedOutReadHint :: "node_id \<Rightarrow> string" where
  "timedOutReadHint i =
     ''The confirmation dialog for reading node '' @ i @ '' was not answered in time, so nothing '' @
     ''was read. Ask the user in chat, then either retry the tool (a new dialog is shown) or call '' @
     ''portuni_expand_scope with node_ids: ['' @ quoted i @ ''], reason 'user-confirmed-in-chat'.''"

definition scopeExpansionError :: "node_id \<Rightarrow> string \<Rightarrow> bool \<Rightarrow> scope_error" where
  "scopeExpansionError i hint dialogTimedOut =
     (if dialogTimedOut then ExpansionRequired i (timedOutReadHint i) True
      else ExpansionRequired i hint False)"

definition scopeRefusedError :: "node_id \<Rightarrow> string \<Rightarrow> scope_error" where
  "scopeRefusedError i hint = ScopeRefused i hint"

section \<open>The read decision\<close>

record node_scope_row =
  ns_exists :: bool
  ns_visibility :: string
  ns_creator :: "user_id option"
  ns_sensitive :: bool
  ns_name :: "string option"
  ns_type :: "string option"

definition meta_scope_sensitive :: "json option option \<Rightarrow> bool" where
  "meta_scope_sensitive rawMeta =
     (case rawMeta of
        Some (Some j) \<Rightarrow> json_get j ''scope_sensitive'' = Some (JBool True)
      | _ \<Rightarrow> False)"

definition loadNodeScopeMeta :: "graph_db \<Rightarrow> node_id \<Rightarrow> node_scope_row" where
  "loadNodeScopeMeta db i =
     (case node_by_id db i of
        None \<Rightarrow> \<lparr>ns_exists = False, ns_visibility = ''team'', ns_creator = None,
                 ns_sensitive = False, ns_name = None, ns_type = None\<rparr>
      | Some n \<Rightarrow> \<lparr>ns_exists = True, ns_visibility = nd_visibility n,
                    ns_creator = Some (nd_created_by n),
                    ns_sensitive = meta_scope_sensitive (nd_meta n),
                    ns_name = Some (nd_name n), ns_type = Some (nd_type n)\<rparr>)"

definition violatesHardFloor :: "node_scope_row \<Rightarrow> user_id \<Rightarrow> bool" where
  "violatesHardFloor m sessionUserId \<longleftrightarrow>
     ns_sensitive m \<or>
     (ns_visibility m = ''private'' \<and> ns_creator m \<noteq> None \<and> ns_creator m \<noteq> Some sessionUserId)"

datatype scope_decision =
    DAllow bool                              \<comment> \<open>added\_via edge\<close>
  | DElicit string "string option"           \<comment> \<open>agent hint, user prompt\<close>
  | DRefused string

definition userPromptFor :: "node_id \<Rightarrow> node_scope_row \<Rightarrow> string \<Rightarrow> string" where
  "userPromptFor i m why = nodeConsentPrompt ''read'' i (ns_name m) (ns_type m) why"

definition decideRead ::
  "session_scope \<Rightarrow> node_id \<Rightarrow> node_scope_row \<Rightarrow> user_id \<Rightarrow> bool \<Rightarrow> scope_decision" where
  "decideRead s i m sessionUserId reachable =
     (if scope_has s i then DAllow False
      else if ns_sensitive m \<or>
              (ns_visibility m = ''private'' \<and> ns_creator m \<noteq> None \<and> ns_creator m \<noteq> Some sessionUserId)
      then (if sc_type s = Headless
            then DRefused (''Node '' @ i @ '' is scope-sensitive and cannot be reached by a headless session.'')
            else DElicit
                   (''Target node '' @ i @ '' is scope-sensitive. Ask the user to confirm, '' @
                    ''then call portuni_expand_scope with reason 'user-confirmed-in-chat'.'')
                   (Some (userPromptFor i m
                      ''It is marked scope-sensitive, so it stays out of reach unless you confirm.'')))
      else if sc_type s = InteractiveChat then DAllow False
      else if reachable then DAllow True
      else if sc_type s = Headless
      then DElicit
             (''Node '' @ i @ '' is outside the session scope and not reachable via a graph edge '' @
              ''from anything already in scope (a disconnected jump). Headless sessions have no '' @
              ''user to ask -- call portuni_expand_scope with a reason describing why this node '' @
              ''is needed; the jump is recorded and surfaced in review.'')
             None
      else DElicit
             (''Node '' @ i @ '' is outside the session scope and not reachable via a graph edge '' @
              ''from anything already in scope (a disconnected jump). Ask the user to confirm, '' @
              ''then call portuni_expand_scope with reason 'user-confirmed-in-chat'.'')
             (Some (userPromptFor i m
                ''It is outside this session's scope and nothing already in scope links to it.'')))"

definition isEdgeReachable :: "graph_db \<Rightarrow> session_scope \<Rightarrow> node_id \<Rightarrow> bool" where
  "isEdgeReachable db s i =
     (if scope_size s = 0 then False
      else (\<exists>p \<in> set (nodeNeighbourIds db i). scope_has s p))"

section \<open>The guard\<close>

datatype elicit_outcome = EAccept | EDecline | EUnsupported | ETimeout

datatype read_outcome = RAllow | RElicit scope_error | RRefused scope_error | RNotFound

definition auto_expand_audit :: "string \<Rightarrow> session_scope \<Rightarrow> json" where
  "auto_expand_audit via_name s =
     JObj [(''added_via'', JStr via_name), (''session_type'', JStr (session_type_name (sc_type s)))]"

text \<open>The side effects of an accepted read: the node enters scope, recorded and audited.\<close>

definition auto_expand ::
  "timestamp \<Rightarrow> user_id \<Rightarrow> node_id \<Rightarrow> string \<Rightarrow> trigger \<Rightarrow> added_via \<Rightarrow> string \<Rightarrow>
     session_scope \<times> graph_db \<Rightarrow> session_scope \<times> graph_db" where
  "auto_expand now user i reason trig v via_name st =
     (let s = recordExpansion \<lparr>ex_at = now, ex_node_ids = [i], ex_reason = reason,
                               ex_trigger = trig, ex_via = Some v\<rparr> (scope_add i (fst st))
      in (s, writeAudit user ''scope_auto_expand'' ''scope'' i (Some (auto_expand_audit via_name s)) (snd st)))"

definition guardNodeRead ::
  "timestamp \<Rightarrow> user_id \<Rightarrow> group_identity option \<Rightarrow> (string \<Rightarrow> elicit_outcome) option \<Rightarrow> node_id \<Rightarrow>
     session_scope \<times> graph_db \<Rightarrow> read_outcome \<times> session_scope \<times> graph_db" where
  "guardNodeRead now user identity elicitor i st =
     (let s = fst st; db = snd st;
          m = loadNodeScopeMeta db i;
          visible = (case identity of None \<Rightarrow> True | Some u \<Rightarrow> nodeVisibleTo db u i)
      in if \<not> ns_exists m then (RNotFound, st)
         else if \<not> visible then (RNotFound, st)
         else (let alreadyInScope = scope_has s i;
                   reachable = (if sc_type s = InteractiveChat then False
                                else alreadyInScope \<or> isEdgeReachable db s i)
               in case decideRead s i m user reachable of
                    DRefused hint \<Rightarrow> (RRefused (scopeRefusedError i hint), st)
                  | DElicit hint prompt \<Rightarrow>
                      (case (if sc_type s = Headless then None else elicitor) of
                         None \<Rightarrow> (RElicit (scopeExpansionError i hint False), st)
                       | Some confirm \<Rightarrow>
                           (case confirm (case prompt of
                                            Some p \<Rightarrow> p
                                          | None \<Rightarrow> ''Allow this session to read node '' @ i @ ''?'') of
                              EAccept \<Rightarrow>
                                (RAllow, auto_expand now user i
                                   ''elicited (protocol dialog confirmed by user)''
                                   TrigUser ViaElicited ''elicited'' st)
                            | ETimeout \<Rightarrow> (RElicit (scopeExpansionError i hint True), st)
                            | _ \<Rightarrow> (RElicit (scopeExpansionError i hint False), st)))
                  | DAllow via_edge \<Rightarrow>
                      (if via_edge \<and> \<not> alreadyInScope
                       then (RAllow, auto_expand now user i
                               ''edge-reachable from the current scope set''
                               TrigTraversal ViaEdge ''edge'' st)
                       else (RAllow, st))))"

section \<open>What the operations do to the scope\<close>

definition scope_wf :: "session_scope \<Rightarrow> bool" where
  "scope_wf s \<longleftrightarrow> distinct (sc_nodes s) \<and> distinct (sc_write s) \<and> set (sc_write s) \<subseteq> set (sc_nodes s)"

lemma scope_add_simps [simp]:
  "set (sc_nodes (scope_add i s)) = insert i (set (sc_nodes s))"
  "sc_write (scope_add i s) = sc_write s"
  "sc_type (scope_add i s) = sc_type s"
  "sc_home (scope_add i s) = sc_home s"
  "sc_history (scope_add i s) = sc_history s"
  by (auto simp: scope_add_def add_node_def scope_has_def)

lemma scope_addWritable_simps [simp]:
  "set (sc_nodes (scope_addWritable i s)) = insert i (set (sc_nodes s))"
  "set (sc_write (scope_addWritable i s)) = insert i (set (sc_write s))"
  "sc_type (scope_addWritable i s) = sc_type s"
  "sc_home (scope_addWritable i s) = sc_home s"
  by (auto simp: scope_addWritable_def addWritable_def Let_def)

lemma recordExpansion_simps [simp]:
  "sc_nodes (recordExpansion r s) = sc_nodes s"
  "sc_write (recordExpansion r s) = sc_write s"
  "sc_type (recordExpansion r s) = sc_type s"
  "sc_home (recordExpansion r s) = sc_home s"
  "sc_calls (recordExpansion r s) = sc_calls s"
  by (simp_all add: recordExpansion_def)

lemma scope_wf_new [inv_intros]: "scope_wf (new_scope t now)"
  by (simp add: scope_wf_def new_scope_def)

lemma scope_wf_add [inv_intros]: "scope_wf s \<Longrightarrow> scope_wf (scope_add i s)"
  by (auto simp: scope_wf_def) (auto simp: scope_add_def add_node_def scope_has_def)

lemma scope_wf_record [inv_intros]: "scope_wf s \<Longrightarrow> scope_wf (recordExpansion r s)"
  by (simp add: scope_wf_def)

lemma scope_wf_addWritable [inv_intros]: "scope_wf s \<Longrightarrow> scope_wf (scope_addWritable i s)"
  using scope_wf_add [of s i]
  by (auto simp: scope_wf_def scope_addWritable_def addWritable_def Let_def)

lemma scope_wf_home [inv_intros]: "scope_wf s \<Longrightarrow> scope_wf (s\<lparr>sc_home := h\<rparr>)"
  by (simp add: scope_wf_def)

lemma fold_scope_add [simp]:
  "set (sc_nodes (fold scope_add is s)) = set is \<union> set (sc_nodes s)"
  "sc_write (fold scope_add is s) = sc_write s"
  "sc_type (fold scope_add is s) = sc_type s"
  "sc_home (fold scope_add is s) = sc_home s"
  by (induction "is" arbitrary: s) auto

lemma fold_scope_addWritable [simp]:
  "set (sc_nodes (fold scope_addWritable is s)) = set is \<union> set (sc_nodes s)"
  "set (sc_write (fold scope_addWritable is s)) = set is \<union> set (sc_write s)"
  by (induction "is" arbitrary: s) auto

lemma scope_wf_fold_add [inv_intros]: "scope_wf s \<Longrightarrow> scope_wf (fold scope_add is s)"
  by (induction "is" arbitrary: s) (auto intro: scope_wf_add)

lemma scope_wf_seed [inv_intros]: "scope_wf s \<Longrightarrow> scope_wf (snd (seedScopeFromHome db s h u))"
  by (auto simp: seedScopeFromHome_def Let_def intro!: inv_intros)

lemma set_seed_neighbours:
  "set (seed_neighbours db identity home) =
     {i. adjacent db home i \<and> i \<noteq> [] \<and> (\<forall>u. identity = Some u \<longrightarrow> nodeVisibleTo db u i)}"
  by (auto simp: seed_neighbours_def Let_def set_nodeNeighbourIds access.filter_ids_eq
      split: option.splits)

lemma isEdgeReachable_iff:
  "isEdgeReachable db s i \<longleftrightarrow> (\<exists>p \<in> set (sc_nodes s). adjacent db i p \<and> p \<noteq> [])"
  by (auto simp: isEdgeReachable_def scope_size_def scope_has_def set_nodeNeighbourIds)

lemma decideRead_hard_floor:
  "\<not> scope_has s i \<Longrightarrow> violatesHardFloor m u \<Longrightarrow> \<exists>hint prompt.
     decideRead s i m u r = (if sc_type s = Headless then DRefused hint else DElicit hint prompt)"
  by (auto simp: decideRead_def violatesHardFloor_def)

lemma decideRead_DAllow:
  "decideRead s i m u r = DAllow b \<Longrightarrow>
     scope_has s i \<and> \<not> b \<or>
     \<not> violatesHardFloor m u \<and> (sc_type s = InteractiveChat \<and> \<not> b \<or> sc_type s \<noteq> InteractiveChat \<and> r \<and> b)"
  by (auto simp: decideRead_def violatesHardFloor_def split: if_splits)

lemma auto_expand_simps [simp]:
  "set (sc_nodes (fst (auto_expand now u i re tr v vn st))) = insert i (set (sc_nodes (fst st)))"
  "sc_write (fst (auto_expand now u i re tr v vn st)) = sc_write (fst st)"
  "sc_type (fst (auto_expand now u i re tr v vn st)) = sc_type (fst st)"
  "sc_home (fst (auto_expand now u i re tr v vn st)) = sc_home (fst st)"
  "nodes_t (snd (auto_expand now u i re tr v vn st)) = nodes_t (snd st)"
  "edges_t (snd (auto_expand now u i re tr v vn st)) = edges_t (snd st)"
  "access_t (snd (auto_expand now u i re tr v vn st)) = access_t (snd st)"
  by (simp_all add: auto_expand_def Let_def)

lemma scope_wf_auto_expand [inv_intros]:
  "scope_wf (fst st) \<Longrightarrow> scope_wf (fst (auto_expand now u i re tr v vn st))"
  by (auto simp: auto_expand_def Let_def intro!: inv_intros)

text \<open>
  Every outcome of the guard: the session is left alone, or the node enters scope because it is
  adjacent to it, or because the user accepted the dialog.
\<close>

lemma guardNodeRead_effect:
  assumes "guardNodeRead now u identity elicitor i st = (out, st')"
  obtains "st' = st"
  | "out = RAllow" "\<not> scope_has (fst st) i" "sc_type (fst st) \<noteq> InteractiveChat"
    "isEdgeReachable (snd st) (fst st) i" "\<not> violatesHardFloor (loadNodeScopeMeta (snd st) i) u"
    "\<forall>g. identity = Some g \<longrightarrow> nodeVisibleTo (snd st) g i"
    "st' = auto_expand now u i ''edge-reachable from the current scope set''
             TrigTraversal ViaEdge ''edge'' st"
  | confirm p where "out = RAllow" "\<not> scope_has (fst st) i" "sc_type (fst st) \<noteq> Headless"
    "elicitor = Some confirm" "confirm p = EAccept"
    "\<forall>g. identity = Some g \<longrightarrow> nodeVisibleTo (snd st) g i"
    "st' = auto_expand now u i ''elicited (protocol dialog confirmed by user)''
             TrigUser ViaElicited ''elicited'' st"
proof -
  let ?s = "fst st" and ?db = "snd st"
  let ?m = "loadNodeScopeMeta ?db i"
  let ?r = "if sc_type ?s = InteractiveChat then False else scope_has ?s i \<or> isEdgeReachable ?db ?s i"
  let ?vis = "case identity of None \<Rightarrow> True | Some g \<Rightarrow> nodeVisibleTo ?db g i"
  show ?thesis
  proof (cases "ns_exists ?m \<and> ?vis")
    case False
    with assms have "st' = st" by (auto simp: guardNodeRead_def Let_def split: if_splits)
    then show ?thesis by (rule that(1))
  next
    case True
    then have vis: "\<forall>g. identity = Some g \<longrightarrow> nodeVisibleTo ?db g i" by (auto split: option.splits)
    show ?thesis
    proof (cases "decideRead ?s i ?m u ?r")
      case (DAllow b)
      show ?thesis
      proof (cases "b \<and> \<not> scope_has ?s i")
        case True
        with DAllow \<open>ns_exists ?m \<and> ?vis\<close> assms vis decideRead_DAllow [OF DAllow] show ?thesis
          by (intro that(2)) (auto simp: guardNodeRead_def Let_def split: if_splits)
      next
        case False
        with DAllow True assms have "st' = st" by (auto simp: guardNodeRead_def Let_def)
        then show ?thesis by (rule that(1))
      qed
    next
      case (DElicit hint prompt)
      have nin: "\<not> scope_has ?s i" using DElicit by (auto simp: decideRead_def)
      show ?thesis
      proof (cases "sc_type ?s = Headless \<or> elicitor = None")
        case True
        with DElicit \<open>ns_exists ?m \<and> ?vis\<close> assms have "st' = st"
          by (auto simp: guardNodeRead_def Let_def)
        then show ?thesis by (rule that(1))
      next
        case False
        then obtain confirm where c: "elicitor = Some confirm" and h: "sc_type ?s \<noteq> Headless" by auto
        let ?p = "case prompt of Some p \<Rightarrow> p | None \<Rightarrow> ''Allow this session to read node '' @ i @ ''?''"
        show ?thesis
        proof (cases "confirm ?p = EAccept")
          case True
          with DElicit \<open>ns_exists ?m \<and> ?vis\<close> assms c h
          have "out = RAllow" and "st' = auto_expand now u i
              ''elicited (protocol dialog confirmed by user)'' TrigUser ViaElicited ''elicited'' st"
            by (auto simp: guardNodeRead_def Let_def)
          with nin h c True vis show ?thesis by (intro that(3) [of confirm ?p])
        next
          case False
          with DElicit \<open>ns_exists ?m \<and> ?vis\<close> assms c h have "st' = st"
            by (auto simp: guardNodeRead_def Let_def split: elicit_outcome.splits)
          then show ?thesis by (rule that(1))
        qed
      qed
    next
      case (DRefused hint)
      with True assms have "st' = st" by (auto simp: guardNodeRead_def Let_def)
      then show ?thesis by (rule that(1))
    qed
  qed
qed

lemma guardNodeRead_db:
  assumes "guardNodeRead now u identity elicitor i st = (out, st')"
  shows "nodes_t (snd st') = nodes_t (snd st)" "edges_t (snd st') = edges_t (snd st)"
    "access_t (snd st') = access_t (snd st)"
  by (rule guardNodeRead_effect [OF assms]; simp)+

lemma guardNodeRead_frame:
  assumes "guardNodeRead now u identity elicitor i st = (out, st')"
  shows "sc_write (fst st') = sc_write (fst st)" "sc_type (fst st') = sc_type (fst st)"
    "sc_home (fst st') = sc_home (fst st)"
    "set (sc_nodes (fst st)) \<subseteq> set (sc_nodes (fst st'))"
    "set (sc_nodes (fst st')) \<subseteq> insert i (set (sc_nodes (fst st)))"
    "scope_wf (fst st) \<Longrightarrow> scope_wf (fst st')"
  by (rule guardNodeRead_effect [OF assms]; auto intro: scope_wf_auto_expand)+

section \<open>Properties of the guard\<close>

lemma ns_exists_iff: "ns_exists (loadNodeScopeMeta db i) \<longleftrightarrow> node_by_id db i \<noteq> None"
  by (simp add: loadNodeScopeMeta_def split: option.splits)

lemma guardNodeRead_missing:
  "node_by_id (snd st) i = None \<Longrightarrow>
     guardNodeRead now u identity elicitor i st = (RNotFound, st)"
  by (simp add: guardNodeRead_def Let_def ns_exists_iff)

text \<open>C8: The guard is no oracle for hidden nodes: reading a node the user cannot see gives the
  answer an id that names no node gives, whatever the session's scope and its client, and leaves
  the session and the database as they were.\<close>

theorem guard_hides_invisible_nodes:
  "node_by_id db i = None \<or> \<not> nodeVisibleTo db g i \<Longrightarrow>
     guardNodeRead now u (Some g) elicitor i (s, db) = (RNotFound, s, db)"
  by (elim disjE) (simp_all add: guardNodeRead_missing, simp add: guardNodeRead_def Let_def)

lemma guard_hides_invisible_nodes_witness:
  "guardNodeRead 0 ''bob'' (Some (sample_user SWrite ''bob''))
     None ''proj'' (new_scope EnvSession 0, sample_db) = (RNotFound, new_scope EnvSession 0, sample_db)"
  by (rule guard_hides_invisible_nodes) (simp add: sample_visible_proj)

text \<open>Without a dialog, a read is allowed exactly for a node that exists, is visible to the
  user, and is in scope already or is under no hard floor and either the session is a chat or an
  edge links the node to the scope.\<close>

theorem guard_allows_exactly:
  "fst (guardNodeRead now u (Some g) None i (s, db)) = RAllow \<longleftrightarrow>
     node_by_id db i \<noteq> None \<and> nodeVisibleTo db g i \<and>
     (scope_has s i \<or>
      \<not> violatesHardFloor (loadNodeScopeMeta db i) u \<and>
        (sc_type s = InteractiveChat \<or> isEdgeReachable db s i))"
proof (cases "node_by_id db i \<noteq> None \<and> nodeVisibleTo db g i")
  case False
  then show ?thesis
    by (auto simp: guard_simps guardNodeRead_def Let_def ns_exists_iff)
next
  case True
  let ?m = "loadNodeScopeMeta db i"
  let ?r = "if sc_type s = InteractiveChat then False else scope_has s i \<or> isEdgeReachable db s i"
  have dec: "fst (guardNodeRead now u (Some g) None i (s, db)) = RAllow \<longleftrightarrow>
      (\<exists>b. decideRead s i ?m u ?r = DAllow b)"
    using True by (cases "decideRead s i ?m u ?r") (simp_all add: guardNodeRead_def Let_def ns_exists_iff)
  have floor: "ns_sensitive ?m \<or>
      (ns_visibility ?m = ''private'' \<and> ns_creator ?m \<noteq> None \<and> ns_creator ?m \<noteq> Some u) \<longleftrightarrow>
      violatesHardFloor ?m u"
    by (simp add: violatesHardFloor_def)
  show ?thesis
    unfolding dec decideRead_def floor using True by (simp add: ex_bool_eq)
qed

text \<open>A headless session asking for a node outside its scope that is under a hard floor is
  refused for good: the answer names the node, no dialog is shown, and nothing is recorded.\<close>

theorem headless_hard_floor_refused:
  "sc_type s = Headless \<Longrightarrow> node_by_id db i \<noteq> None \<Longrightarrow> nodeVisibleTo db g i \<Longrightarrow>
     \<not> scope_has s i \<Longrightarrow> violatesHardFloor (loadNodeScopeMeta db i) u \<Longrightarrow>
     \<exists>hint. guardNodeRead now u (Some g) elicitor i (s, db) = (RRefused (ScopeRefused i hint), s, db)"
  using decideRead_hard_floor [of s i "loadNodeScopeMeta db i" u "scope_has s i \<or> isEdgeReachable db s i"]
  by (auto simp: guardNodeRead_def Let_def ns_exists_iff scopeRefusedError_def)

lemma headless_hard_floor_refused_witness:
  "\<exists>hint. guardNodeRead 0 ''ann'' (Some (sample_user SAdmin ''ann''))
     (Some (\<lambda>_. EAccept)) ''sec'' (scope_add ''org'' (new_scope Headless 0), sample_db) =
     (RRefused (ScopeRefused ''sec'' hint), scope_add ''org'' (new_scope Headless 0), sample_db)"
  by (rule headless_hard_floor_refused)
    (simp_all add: scope_has_def new_scope_def sample_simps nodeVisibleTo_def canSeeNode_def
      loadNodeScopeMeta_def violatesHardFloor_def meta_scope_sensitive_def split: option.split)

end
