(* ===== verification/ScopeTools.thy ===== *)
theory ScopeTools
  imports ReadScope
begin

text \<open>
  The operations that drive a session's read scope: the listing gate
  (\<^verbatim>\<open>mcp/list-scope-gate.ts\<close>), the auto-seed on connect (\<^verbatim>\<open>mcp/auto-seed.ts\<close>) and the scope
  tools \<^verbatim>\<open>portuni_session_init\<close> and \<^verbatim>\<open>portuni_expand_scope\<close>
  (\<^verbatim>\<open>mcp/tools/scope.ts\<close>).  A tool's JSON answer is a record of its fields; the device's mirror
  registry is a parameter.
\<close>

section \<open>The gate of the listing tools\<close>

datatype tool_error = NodeNotFound node_id | ScopeErr scope_error

definition guardListScope ::
  "timestamp \<Rightarrow> user_id \<Rightarrow> group_identity option \<Rightarrow> (string \<Rightarrow> elicit_outcome) option \<Rightarrow>
     node_id option \<Rightarrow> session_scope \<times> graph_db \<Rightarrow> tool_error option \<times> session_scope \<times> graph_db" where
  "guardListScope now user identity elicitor nodeId st =
     (case nodeId of
        None \<Rightarrow> (None, st)
      | Some i \<Rightarrow>
          (case guardNodeRead now user identity elicitor i st of
             (RNotFound, st') \<Rightarrow> (Some (NodeNotFound i), st')
           | (RElicit e, st') \<Rightarrow> (Some (ScopeErr e), st')
           | (RRefused e, st') \<Rightarrow> (Some (ScopeErr e), st')
           | (RAllow, st') \<Rightarrow> (None, st')))"

section \<open>Auto-seed\<close>

definition auto_seed_reason :: string where
  "auto_seed_reason = ''auto-seed from home_node_id query param''"

definition json_ids :: "node_id list \<Rightarrow> json" where
  "json_ids ids = JArr (map JStr ids)"

definition autoSeedFromHome ::
  "timestamp \<Rightarrow> user_id \<Rightarrow> group_identity option \<Rightarrow> node_id option \<Rightarrow> session_scope \<times> graph_db \<Rightarrow>
     (bool \<times> node_id list) \<times> session_scope \<times> graph_db" where
  "autoSeedFromHome now user identity homeArg st =
     (let s = fst st; db = snd st
      in case homeArg of
           None \<Rightarrow> ((False, []), st)
         | Some h \<Rightarrow>
             if h = [] then ((False, []), st)
             else if sc_home s \<noteq> None \<and> scope_size s > 0 then ((False, []), st)
             else (let home = (case sc_home s of Some h' \<Rightarrow> h' | None \<Rightarrow> h)
                   in if node_by_id db home = None then ((False, []), st)
                      else (case seedScopeFromHome db s home identity of
                              (seeded, s1) \<Rightarrow>
                                ((True, seeded),
                                 recordExpansion \<lparr>ex_at = now, ex_node_ids = seeded,
                                   ex_reason = auto_seed_reason, ex_trigger = TrigInit, ex_via = None\<rparr> s1,
                                 writeAudit user ''session_init'' ''scope'' home
                                   (Some (JObj [(''node_ids'', json_ids seeded),
                                                (''triggered_by'', JStr ''init''),
                                                (''reason'', JStr auto_seed_reason)])) db))))"

section \<open>\<open>portuni_session_init\<close>\<close>

text \<open>The node id given, else the one node whose name is the one given, ignoring case.\<close>

definition loadNodeIdFromMaybeName ::
  "graph_db \<Rightarrow> node_id option \<Rightarrow> string option \<Rightarrow> node_id option" where
  "loadNodeIdFromMaybeName db home_id home_name =
     (case home_id of
        Some i \<Rightarrow>
          (if i \<noteq> [] then Some i
           else (case home_name of
                   None \<Rightarrow> None
                 | Some nm \<Rightarrow>
                     (if nm = [] then None
                      else (case filter (\<lambda>n. js_lower (nd_name n) = js_lower nm) (nodes_t db) of
                              [n] \<Rightarrow> Some (nd_id n) | _ \<Rightarrow> None))))
      | None \<Rightarrow>
          (case home_name of
             None \<Rightarrow> None
           | Some nm \<Rightarrow>
               (if nm = [] then None
                else (case filter (\<lambda>n. js_lower (nd_name n) = js_lower nm) (nodes_t db) of
                        [n] \<Rightarrow> Some (nd_id n) | _ \<Rightarrow> None))))"

datatype init_result =
    InitNoHome nat                            \<comment> \<open>scope size\<close>
  | InitNotFound node_id
  | InitSeeded node_id string string nat "node_id list"

definition session_init ::
  "timestamp \<Rightarrow> user_id \<Rightarrow> group_identity \<Rightarrow> node_id option \<Rightarrow> string option \<Rightarrow>
     session_scope \<times> graph_db \<Rightarrow> init_result \<times> session_scope \<times> graph_db" where
  "session_init now user identity home_id home_name st =
     (let s = fst st; db = snd st
      in case loadNodeIdFromMaybeName db home_id home_name of
           None \<Rightarrow>
             (InitNoHome (scope_size s), s,
              writeAudit user ''session_init'' ''scope'' ''session''
                (Some (JObj [(''home'', JNull),
                             (''session_type'', JStr (session_type_name (sc_type s)))])) db)
         | Some homeId \<Rightarrow>
             (case node_by_id db homeId of
                None \<Rightarrow> (InitNotFound homeId, st)
              | Some n \<Rightarrow>
                  (case seedScopeFromHome db s homeId (Some identity) of
                     (seedIds, s1) \<Rightarrow>
                       (let s2 = recordExpansion \<lparr>ex_at = now, ex_node_ids = seedIds,
                                   ex_reason = ''session_init seed (home + depth-1)'',
                                   ex_trigger = TrigInit, ex_via = None\<rparr> s1
                        in (InitSeeded homeId (nd_name n) (nd_type n) (scope_size s2) seedIds, s2,
                            writeAudit user ''session_init'' ''scope'' homeId
                              (Some (JObj [(''home'', JStr homeId), (''seeded'', json_ids seedIds),
                                           (''session_type'', JStr (session_type_name (sc_type s)))]))
                              db)))))"

section \<open>\<open>portuni_expand_scope\<close>\<close>

record expand_args =
  xa_node_ids :: "node_id list"
  xa_reason :: string
  xa_trigger :: trigger
  xa_confirmed_hard_floor :: bool
  xa_writable :: bool

text \<open>What the loop over the node ids carries from one node to the next.\<close>

record expand_state =
  xs_scope :: session_scope
  xs_accepted :: "node_id list"
  xs_via :: "(node_id \<times> added_via) list"
  xs_unknown :: "node_id list"
  xs_refused_floor :: "(node_id \<times> string \<times> bool) list"
  xs_refused_write :: "(node_id \<times> string) list"

fun assoc_set :: "'k \<Rightarrow> 'v \<Rightarrow> ('k \<times> 'v) list \<Rightarrow> ('k \<times> 'v) list" where
  "assoc_set k v [] = [(k, v)]"
| "assoc_set k v ((k', v') # kvs) = (if k = k' then (k, v) # kvs else (k', v') # assoc_set k v kvs)"

definition write_refusal_reason :: "elicit_outcome \<Rightarrow> string" where
  "write_refusal_reason outcome =
     (if outcome = EUnsupported
      then ''This client does not support MCP elicitation dialogs; write-scope expansion has no honor-system fallback.''
      else if outcome = ETimeout
      then ''The write-access confirmation dialog was not answered in time; ask the user and retry.''
      else ''The user declined the write-access confirmation dialog.'')"

definition write_dialog ::
  "(string \<Rightarrow> elicit_outcome) option \<Rightarrow> node_id \<Rightarrow> node_scope_row \<Rightarrow> string \<Rightarrow> elicit_outcome" where
  "write_dialog elicit i m reason =
     (case elicit of
        None \<Rightarrow> EUnsupported
      | Some confirm \<Rightarrow>
          confirm (nodeConsentPrompt ''write to'' i (ns_name m) (ns_type m)
                     (''The agent asks for write access, saying: '' @ quoted reason)))"

definition expand_node ::
  "expand_args \<Rightarrow> group_identity \<Rightarrow> (string \<Rightarrow> elicit_outcome) option \<Rightarrow> graph_db \<Rightarrow>
     node_id \<Rightarrow> expand_state \<Rightarrow> expand_state" where
  "expand_node args identity elicit db i x =
     (let s = xs_scope x; headless = (sc_type s = Headless)
      in if node_by_id db i = None then x\<lparr>xs_unknown := xs_unknown x @ [i]\<rparr>
         else if \<not> nodeVisibleTo db identity i then x\<lparr>xs_unknown := xs_unknown x @ [i]\<rparr>
         else (let m = loadNodeScopeMeta db i
               in if violatesHardFloor m (gi_user identity) \<and>
                     (headless \<or> \<not> xa_confirmed_hard_floor args)
                  then x\<lparr>xs_refused_floor := xs_refused_floor x @
                           [(i, (if ns_sensitive m then ''meta.scope_sensitive=true''
                                 else ''visibility=private and owner is another user''), headless)]\<rparr>
                  else (let reachable = scope_has s i \<or> isEdgeReachable db s i;
                            x1 = x\<lparr>xs_via := assoc_set i (if reachable then ViaEdge else ViaDisconnected) (xs_via x)\<rparr>
                        in if xa_writable args
                           then (let outcome = write_dialog elicit i m (xa_reason args)
                                 in if outcome \<noteq> EAccept
                                    then x1\<lparr>xs_refused_write := xs_refused_write x @
                                              [(i, write_refusal_reason outcome)]\<rparr>
                                    else x1\<lparr>xs_scope := scope_addWritable i s,
                                             xs_accepted := xs_accepted x @ [i]\<rparr>)
                           else x1\<lparr>xs_scope := scope_add i s,
                                    xs_accepted := xs_accepted x @ [i]\<rparr>)))"

definition expand_loop ::
  "expand_args \<Rightarrow> group_identity \<Rightarrow> (string \<Rightarrow> elicit_outcome) option \<Rightarrow> graph_db \<Rightarrow>
     session_scope \<Rightarrow> expand_state" where
  "expand_loop args identity elicit db s =
     fold (expand_node args identity elicit db) (xa_node_ids args)
       \<lparr>xs_scope = s, xs_accepted = [], xs_via = [], xs_unknown = [], xs_refused_floor = [],
        xs_refused_write = []\<rparr>"

fun via_name :: "added_via \<Rightarrow> string" where
  "via_name ViaSeed = ''seed''"
| "via_name ViaEdge = ''edge''"
| "via_name ViaDisconnected = ''disconnected''"
| "via_name ViaCreated = ''created''"
| "via_name ViaElicited = ''elicited''"

fun trigger_name :: "trigger \<Rightarrow> string" where
  "trigger_name TrigUser = ''user''"
| "trigger_name TrigAgent = ''agent''"
| "trigger_name TrigTraversal = ''traversal''"
| "trigger_name TrigInit = ''init''"

text \<open>The three audit entries the call writes, each only when its list is not empty.\<close>

definition expand_audit :: "expand_args \<Rightarrow> user_id \<Rightarrow> expand_state \<Rightarrow> graph_db \<Rightarrow> graph_db" where
  "expand_audit args user x db =
     (let db1 = (if xs_accepted x \<noteq> []
                 then writeAudit user ''expand_scope'' ''scope'' (join_with '','' (xs_accepted x))
                        (Some (JObj [(''node_ids'', json_ids (xs_accepted x)),
                                     (''added_via'', JObj (map (\<lambda>(i, v). (i, JStr (via_name v))) (xs_via x))),
                                     (''writable'', JBool (xa_writable args)),
                                     (''reason'', JStr (xa_reason args)),
                                     (''triggered_by'', JStr (trigger_name (xa_trigger args))),
                                     (''confirmed_hard_floor'', JBool (xa_confirmed_hard_floor args))])) db
                 else db);
          db2 = (if xs_refused_floor x \<noteq> []
                 then writeAudit user ''scope_hard_floor_refusal'' ''scope''
                        (join_with '','' (map fst (xs_refused_floor x)))
                        (Some (JObj [(''refused'', JArr (map (\<lambda>(i, r, p). JObj [(''node_id'', JStr i),
                                        (''reason'', JStr r), (''permanent'', JBool p)]) (xs_refused_floor x))),
                                     (''reason'', JStr (xa_reason args))])) db1
                 else db1)
      in if xs_refused_write x \<noteq> []
         then writeAudit user ''scope_write_expansion_refused'' ''scope''
                (join_with '','' (map fst (xs_refused_write x)))
                (Some (JObj [(''refused'', JArr (map (\<lambda>(i, r). JObj [(''node_id'', JStr i),
                                (''reason'', JStr r)]) (xs_refused_write x))),
                             (''reason'', JStr (xa_reason args))])) db2
         else db2)"

record expand_answer =
  xr_added :: "node_id list"
  xr_added_via :: "(node_id \<times> added_via) list"
  xr_writable :: "node_id list"
  xr_unknown :: "node_id list"
  xr_refused_floor :: "(node_id \<times> string \<times> bool) list"
  xr_refused_write :: "(node_id \<times> string) list"
  xr_size :: nat
  xr_readable :: "(node_id \<times> string) list"
  xr_hint :: "string option"

definition expand_hint :: "expand_state \<Rightarrow> string option" where
  "expand_hint x =
     (if \<exists>r \<in> set (xs_refused_floor x). \<not> snd (snd r)
      then Some (''Re-call portuni_expand_scope with confirmed_hard_floor=true only after the user explicitly '' @
                 ''authorises the hard-floor node.'')
      else if xs_refused_write x \<noteq> []
      then Some (''Write-access grants require the user to accept a real elicitation dialog; see '' @
                 ''refused_write for why each node was not granted.'')
      else if xs_accepted x \<noteq> []
      then Some (''Nodes listed in 'readable' can be Read/Grep'd directly at that path; the rest have no local '' @
                 ''mirror on this device '' @ em_dash @ '' read them with portuni_read_file (node_id + path).'')
      else None)"

datatype expand_result = WriteExpansionImpossible | Expanded expand_answer

definition expand_scope ::
  "timestamp \<Rightarrow> group_identity \<Rightarrow> (string \<Rightarrow> elicit_outcome) option \<Rightarrow> (node_id \<Rightarrow> string option) \<Rightarrow>
     expand_args \<Rightarrow> session_scope \<times> graph_db \<Rightarrow> expand_result \<times> session_scope \<times> graph_db" where
  "expand_scope now identity elicit mirror args st =
     (let s = fst st; db = snd st
      in if xa_writable args \<and> sc_type s = Headless then (WriteExpansionImpossible, st)
         else (let x = expand_loop args identity elicit db s;
                   s1 = (if xs_accepted x \<noteq> []
                         then recordExpansion \<lparr>ex_at = now, ex_node_ids = xs_accepted x,
                                ex_reason = xa_reason args, ex_trigger = xa_trigger args,
                                ex_via = None\<rparr> (xs_scope x)
                         else xs_scope x)
               in (Expanded \<lparr>xr_added = xs_accepted x, xr_added_via = xs_via x,
                      xr_writable = (if xa_writable args then xs_accepted x else []),
                      xr_unknown = xs_unknown x, xr_refused_floor = xs_refused_floor x,
                      xr_refused_write = xs_refused_write x, xr_size = scope_size s1,
                      xr_readable = List.map_filter (\<lambda>i. map_option (Pair i) (mirror i)) (xs_accepted x),
                      xr_hint = expand_hint x\<rparr>,
                   s1, expand_audit args (gi_user identity) x db)))"

section \<open>What an expansion can do\<close>

text \<open>When a node may be accepted by an expansion, and whose word it rests on.\<close>

definition may_accept ::
  "expand_args \<Rightarrow> group_identity \<Rightarrow> (string \<Rightarrow> elicit_outcome) option \<Rightarrow> graph_db \<Rightarrow>
     session_type \<Rightarrow> node_id \<Rightarrow> bool" where
  "may_accept args g elicit db ty i \<longleftrightarrow>
     node_by_id db i \<noteq> None \<and> nodeVisibleTo db g i \<and>
     (violatesHardFloor (loadNodeScopeMeta db i) (gi_user g) \<longrightarrow>
        ty \<noteq> Headless \<and> xa_confirmed_hard_floor args) \<and>
     (xa_writable args \<longrightarrow>
        write_dialog elicit i (loadNodeScopeMeta db i) (xa_reason args) = EAccept)"

text \<open>Every node of the call ends up in one of the answer's lists.\<close>

definition rejected_ids :: "expand_state \<Rightarrow> node_id set" where
  "rejected_ids x =
     set (xs_unknown x) \<union> fst ` set (xs_refused_floor x) \<union> fst ` set (xs_refused_write x)"

lemma rejected_ids_simps [simp]:
  "rejected_ids (x\<lparr>xs_unknown := xs_unknown x @ [i]\<rparr>) = insert i (rejected_ids x)"
  "rejected_ids (x\<lparr>xs_refused_floor := xs_refused_floor x @ [(i, f)]\<rparr>) = insert i (rejected_ids x)"
  "rejected_ids (x\<lparr>xs_refused_write := xs_refused_write x @ [(i, w)]\<rparr>) = insert i (rejected_ids x)"
  "rejected_ids (x\<lparr>xs_via := v\<rparr>) = rejected_ids x"
  "rejected_ids (x\<lparr>xs_scope := s\<rparr>) = rejected_ids x"
  "rejected_ids (x\<lparr>xs_accepted := a\<rparr>) = rejected_ids x"
  "rejected_ids (x\<lparr>xs_via := v, xs_refused_write := xs_refused_write x @ [(i, w)]\<rparr>) =
     insert i (rejected_ids x)"
  "rejected_ids (x\<lparr>xs_via := v, xs_scope := s, xs_accepted := a\<rparr>) = rejected_ids x"
  by (auto simp: rejected_ids_def)

definition expand_inv ::
  "expand_args \<Rightarrow> group_identity \<Rightarrow> (string \<Rightarrow> elicit_outcome) option \<Rightarrow> graph_db \<Rightarrow>
     session_scope \<Rightarrow> node_id set \<Rightarrow> expand_state \<Rightarrow> bool" where
  "expand_inv args g elicit db s0 seen x \<longleftrightarrow>
     sc_type (xs_scope x) = sc_type s0 \<and> sc_home (xs_scope x) = sc_home s0 \<and>
     (scope_wf s0 \<longrightarrow> scope_wf (xs_scope x)) \<and>
     set (sc_nodes (xs_scope x)) = set (sc_nodes s0) \<union> set (xs_accepted x) \<and>
     set (sc_write (xs_scope x)) =
       set (sc_write s0) \<union> (if xa_writable args then set (xs_accepted x) else {}) \<and>
     (\<forall>i \<in> set (xs_accepted x). may_accept args g elicit db (sc_type s0) i) \<and>
     (\<forall>i \<in> rejected_ids x. \<not> may_accept args g elicit db (sc_type s0) i) \<and>
     seen = set (xs_accepted x) \<union> rejected_ids x"

lemma expand_node_inv:
  assumes "expand_inv args g elicit db s0 seen x"
  shows "expand_inv args g elicit db s0 (insert i seen) (expand_node args g elicit db i x)"
proof -
  let ?m = "loadNodeScopeMeta db i"
  have ty: "sc_type (xs_scope x) = sc_type s0" using assms by (simp add: expand_inv_def)
  consider
      (unknown) "node_by_id db i = None \<or> \<not> nodeVisibleTo db g i"
    | (floor) "node_by_id db i \<noteq> None" "nodeVisibleTo db g i"
        "violatesHardFloor ?m (gi_user g)" "sc_type s0 = Headless \<or> \<not> xa_confirmed_hard_floor args"
    | (refused) "node_by_id db i \<noteq> None" "nodeVisibleTo db g i"
        "\<not> (violatesHardFloor ?m (gi_user g) \<and> (sc_type s0 = Headless \<or> \<not> xa_confirmed_hard_floor args))"
        "xa_writable args" "write_dialog elicit i ?m (xa_reason args) \<noteq> EAccept"
    | (accepted) "may_accept args g elicit db (sc_type s0) i"
    unfolding may_accept_def by blast
  then show ?thesis
  proof cases
    case unknown
    then have eq: "expand_node args g elicit db i x = x\<lparr>xs_unknown := xs_unknown x @ [i]\<rparr>"
      by (elim disjE) (simp_all add: expand_node_def Let_def)
    have "\<not> may_accept args g elicit db (sc_type s0) i"
      using unknown by (auto simp: may_accept_def)
    with assms show ?thesis by (simp add: eq expand_inv_def)
  next
    case floor
    then have eq: "expand_node args g elicit db i x =
        x\<lparr>xs_refused_floor := xs_refused_floor x @
            [(i, (if ns_sensitive ?m then ''meta.scope_sensitive=true''
                  else ''visibility=private and owner is another user''), sc_type s0 = Headless)]\<rparr>"
      using ty by (simp add: expand_node_def Let_def)
    have "\<not> may_accept args g elicit db (sc_type s0) i"
      using floor by (auto simp: may_accept_def)
    with assms show ?thesis by (simp add: eq expand_inv_def)
  next
    case refused
    then have eq: "expand_node args g elicit db i x =
        x\<lparr>xs_via := assoc_set i (if scope_has (xs_scope x) i \<or> isEdgeReachable db (xs_scope x) i
                                 then ViaEdge else ViaDisconnected) (xs_via x),
          xs_refused_write := xs_refused_write x @
            [(i, write_refusal_reason (write_dialog elicit i ?m (xa_reason args)))]\<rparr>"
      using ty by (auto simp: expand_node_def Let_def)
    have "\<not> may_accept args g elicit db (sc_type s0) i"
      using refused by (auto simp: may_accept_def)
    with assms show ?thesis by (simp add: eq expand_inv_def)
  next
    case accepted
    then have "expand_node args g elicit db i x =
        x\<lparr>xs_via := assoc_set i (if scope_has (xs_scope x) i \<or> isEdgeReachable db (xs_scope x) i
                                 then ViaEdge else ViaDisconnected) (xs_via x),
          xs_scope := (if xa_writable args then scope_addWritable i (xs_scope x)
                       else scope_add i (xs_scope x)),
          xs_accepted := xs_accepted x @ [i]\<rparr>"
      using ty by (auto simp: expand_node_def Let_def may_accept_def)
    with assms accepted show ?thesis
      by (simp add: expand_inv_def scope_wf_addWritable scope_wf_add)
  qed
qed

lemma expand_fold_inv:
  "expand_inv args g elicit db s0 seen x \<Longrightarrow>
     expand_inv args g elicit db s0 (set is \<union> seen) (fold (expand_node args g elicit db) is x)"
proof (induction "is" arbitrary: seen x)
  case Nil
  then show ?case by simp
next
  case (Cons i "is")
  from Cons.IH [OF expand_node_inv [OF Cons.prems, of i]] show ?case by simp
qed

lemma expand_loop_inv:
  "expand_inv args g elicit db s (set (xa_node_ids args)) (expand_loop args g elicit db s)"
proof -
  have "expand_inv args g elicit db s {}
          \<lparr>xs_scope = s, xs_accepted = [], xs_via = [], xs_unknown = [], xs_refused_floor = [],
           xs_refused_write = []\<rparr>"
    by (simp add: expand_inv_def rejected_ids_def)
  from expand_fold_inv [OF this, of "xa_node_ids args"] show ?thesis
    by (simp add: expand_loop_def)
qed

lemma expand_audit_frame [simp]:
  "nodes_t (expand_audit args u x db) = nodes_t db"
  "edges_t (expand_audit args u x db) = edges_t db"
  "access_t (expand_audit args u x db) = access_t db"
  by (simp_all add: expand_audit_def Let_def)

text \<open>An expansion adds exactly the nodes that may be accepted, and to the write set too when asked to.\<close>

lemma expand_scope_effect:
  assumes "expand_scope now g elicit mirror args st = (r, st')"
    and "\<not> (xa_writable args \<and> sc_type (fst st) = Headless)"
  shows "set (sc_nodes (fst st')) = set (sc_nodes (fst st)) \<union>
           {i \<in> set (xa_node_ids args). may_accept args g elicit (snd st) (sc_type (fst st)) i}"
    and "set (sc_write (fst st')) = set (sc_write (fst st)) \<union>
           (if xa_writable args
            then {i \<in> set (xa_node_ids args). may_accept args g elicit (snd st) (sc_type (fst st)) i}
            else {})"
    and "sc_type (fst st') = sc_type (fst st)" and "sc_home (fst st') = sc_home (fst st)"
    and "scope_wf (fst st) \<Longrightarrow> scope_wf (fst st')" and "same_graph (snd st) (snd st')"
proof -
  let ?x = "expand_loop args g elicit (snd st) (fst st)"
  have inv: "expand_inv args g elicit (snd st) (fst st) (set (xa_node_ids args)) ?x"
    by (rule expand_loop_inv)
  then have acc: "set (xs_accepted ?x) =
      {i \<in> set (xa_node_ids args). may_accept args g elicit (snd st) (sc_type (fst st)) i}"
    by (auto simp: expand_inv_def)
  have st': "snd st' = expand_audit args (gi_user g) ?x (snd st)"
      "sc_nodes (fst st') = sc_nodes (xs_scope ?x)" "sc_write (fst st') = sc_write (xs_scope ?x)"
      "sc_type (fst st') = sc_type (xs_scope ?x)" "sc_home (fst st') = sc_home (xs_scope ?x)"
    using assms by (auto simp: expand_scope_def Let_def split: if_splits)
  show "set (sc_nodes (fst st')) = set (sc_nodes (fst st)) \<union>
          {i \<in> set (xa_node_ids args). may_accept args g elicit (snd st) (sc_type (fst st)) i}"
    and "set (sc_write (fst st')) = set (sc_write (fst st)) \<union>
           (if xa_writable args
            then {i \<in> set (xa_node_ids args). may_accept args g elicit (snd st) (sc_type (fst st)) i}
            else {})"
    and "sc_type (fst st') = sc_type (fst st)" and "sc_home (fst st') = sc_home (fst st)"
    and "same_graph (snd st) (snd st')"
    using inv acc st' by (auto simp: expand_inv_def same_graph_def)
  show "scope_wf (fst st')" if "scope_wf (fst st)"
    using inv st' that by (auto simp: expand_inv_def scope_wf_def)
qed

lemma expand_scope_headless_write:
  "xa_writable args \<Longrightarrow> sc_type (fst st) = Headless \<Longrightarrow>
     expand_scope now g elicit mirror args st = (WriteExpansionImpossible, st)"
  by (simp add: expand_scope_def)

section \<open>Properties of the expansion\<close>

definition sample_expand :: "node_id list \<Rightarrow> bool \<Rightarrow> bool \<Rightarrow> expand_args" where
  "sample_expand ids confirmed writable =
     \<lparr>xa_node_ids = ids, xa_reason = ''why'', xa_trigger = TrigAgent,
      xa_confirmed_hard_floor = confirmed, xa_writable = writable\<rparr>"

text \<open>An expansion puts into the read scope exactly the requested nodes that exist, are visible
  to the user, are under no hard floor or were confirmed by a session with a user, and, when write
  access is asked for, whose own dialog the user accepted; those and no others enter the write set,
  and only when write access is asked for.\<close>

theorem expand_scope_accepts_exactly:
  "expand_scope now g elicit mirror args (s, db) = (r, s', db') \<Longrightarrow>
     \<not> (xa_writable args \<and> sc_type s = Headless) \<Longrightarrow>
     set (sc_nodes s') =
       set (sc_nodes s) \<union> {i \<in> set (xa_node_ids args). may_accept args g elicit db (sc_type s) i} \<and>
     set (sc_write s') =
       set (sc_write s) \<union>
       (if xa_writable args
        then {i \<in> set (xa_node_ids args). may_accept args g elicit db (sc_type s) i} else {})"
  using expand_scope_effect(1,2) [of now g elicit mirror args "(s, db)" r "(s', db')"]
  unfolding fst_conv snd_conv by (intro conjI)

lemma expand_scope_accepts_exactly_witness:
  "let X = expand_scope 0 (sample_user SAdmin ''ann'') (Some (\<lambda>_. EAccept)) (\<lambda>_. None)
             (sample_expand [''sec'', ''nope'', ''org''] False True) (new_scope EnvSession 0, sample_db)
   in set (sc_nodes (fst (snd X))) = {''org''} \<and> set (sc_write (fst (snd X))) = {''org''}"
proof -
  let ?args = "sample_expand [''sec'', ''nope'', ''org''] False True"
  let ?X = "expand_scope 0 (sample_user SAdmin ''ann'') (Some (\<lambda>_. EAccept)) (\<lambda>_. None) ?args
              (new_scope EnvSession 0, sample_db)"
  have "{i \<in> set (xa_node_ids ?args).
          may_accept ?args (sample_user SAdmin ''ann'') (Some (\<lambda>_. EAccept)) sample_db EnvSession i} = {''org''}"
    by (auto simp: may_accept_def sample_expand_def nodeVisible_admin sample_simps loadNodeScopeMeta_def
        violatesHardFloor_def meta_scope_sensitive_def write_dialog_def)
  with expand_scope_accepts_exactly
    [of 0 "sample_user SAdmin ''ann''" "Some (\<lambda>_. EAccept)" "\<lambda>_. None" ?args "new_scope EnvSession 0"
      sample_db "fst ?X" "fst (snd ?X)" "snd (snd ?X)"]
  show ?thesis by (simp add: Let_def new_scope_def) (simp add: sample_expand_def)
qed

text \<open>A headless session is never granted a node for writing: the call is turned down before any
  node is looked at, and neither the scope nor the database changes.\<close>

theorem headless_write_expansion_impossible:
  "xa_writable args \<Longrightarrow> sc_type s = Headless \<Longrightarrow>
     expand_scope now g elicit mirror args (s, db) = (WriteExpansionImpossible, s, db)"
  by (simp add: expand_scope_headless_write)

lemma headless_write_expansion_impossible_witness:
  "expand_scope 0 (sample_user SAdmin ''ann'')
     (Some (\<lambda>_. EAccept)) (\<lambda>_. None) (sample_expand [''org''] True True)
     (new_scope Headless 0, sample_db) = (WriteExpansionImpossible, new_scope Headless 0, sample_db)"
  by (rule headless_write_expansion_impossible) (simp_all add: sample_expand_def new_scope_def)

text \<open>Every node an expansion is asked about is answered for: it is added, or listed as unknown,
  refused at a hard floor, or refused for writing, and the lists of the added nodes and of the
  rejected ones do not overlap.\<close>

theorem expand_scope_answers_every_node:
  "expand_scope now g elicit mirror args (s, db) = (Expanded a, s', db') \<Longrightarrow>
     set (xr_added a) \<union> set (xr_unknown a) \<union> fst ` set (xr_refused_floor a) \<union>
       fst ` set (xr_refused_write a) = set (xa_node_ids args) \<and>
     set (xr_added a) \<inter>
       (set (xr_unknown a) \<union> fst ` set (xr_refused_floor a) \<union> fst ` set (xr_refused_write a)) = {}"
proof -
  let ?x = "expand_loop args g elicit db s"
  assume "expand_scope now g elicit mirror args (s, db) = (Expanded a, s', db')"
  then have a: "xr_added a = xs_accepted ?x" "xr_unknown a = xs_unknown ?x"
      "xr_refused_floor a = xs_refused_floor ?x" "xr_refused_write a = xs_refused_write ?x"
    by (auto simp: expand_scope_def Let_def simp del: fun_upd_apply split: if_split_asm)
  have "expand_inv args g elicit db s (set (xa_node_ids args)) ?x" by (rule expand_loop_inv)
  then have acc: "\<forall>i \<in> set (xs_accepted ?x). may_accept args g elicit db (sc_type s) i"
    and rej: "\<forall>i \<in> rejected_ids ?x. \<not> may_accept args g elicit db (sc_type s) i"
    and all: "set (xa_node_ids args) = set (xs_accepted ?x) \<union> rejected_ids ?x"
    by (simp_all add: expand_inv_def)
  have "set (xs_accepted ?x) \<inter> rejected_ids ?x = {}" using acc rej by blast
  with all show ?thesis by (simp add: a rejected_ids_def Un_assoc)
qed

lemma expand_scope_answers_every_node_witness:
  "\<exists>a s' db'. expand_scope 0 (sample_user SAdmin ''ann'') None (\<lambda>_. None)
       (sample_expand [''sec'', ''nope'', ''org''] False False) (new_scope EnvSession 0, sample_db) =
       (Expanded a, s', db') \<and>
     set (xr_added a) \<union> set (xr_unknown a) \<union> fst ` set (xr_refused_floor a) \<union>
       fst ` set (xr_refused_write a) = {''sec'', ''nope'', ''org''}"
proof -
  let ?args = "sample_expand [''sec'', ''nope'', ''org''] False False"
  obtain a s' db' where eq: "expand_scope 0 (sample_user SAdmin ''ann'') None (\<lambda>_. None) ?args
      (new_scope EnvSession 0, sample_db) = (Expanded a, s', db')"
    by (simp add: expand_scope_def Let_def sample_expand_def)
  from expand_scope_answers_every_node [OF eq] have
    "set (xr_added a) \<union> set (xr_unknown a) \<union> fst ` set (xr_refused_floor a) \<union>
       fst ` set (xr_refused_write a) = {''sec'', ''nope'', ''org''}"
    by (simp add: sample_expand_def)
  with eq show ?thesis by blast
qed

end
