(* ===== verification/ScopeRuns.thy ===== *)
theory ScopeRuns
  imports ScopeTools
begin

text \<open>
  The life of one session: the scope tools an agent has (a guarded read or listing, an expansion, a
  re-initialisation), as step relations on the scope and the database, and what every run of them
  keeps.  \<open>confined_step\<close> leaves re-initialisation out; \<open>read_step\<close> is a guarded read.  The tools that
  change the scope beside their own work, creating a node, traversing the graph and writing, are steps of \<^verbatim>\<open>ScopeWrites\<close>.
\<close>

section \<open>Steps\<close>

type_synonym agent_state = "session_scope \<times> graph_db"

inductive confined_step ::
  "group_identity \<Rightarrow> (string \<Rightarrow> elicit_outcome) option \<Rightarrow> agent_state \<Rightarrow> agent_state \<Rightarrow> bool"
  for g :: group_identity and elicit :: "(string \<Rightarrow> elicit_outcome) option" where
  StepRead: "guardNodeRead now (gi_user g) (Some g) elicit i st = (out, st') \<Longrightarrow>
     confined_step g elicit st st'"
| StepExpand: "expand_scope now g elicit mirror args st = (r, st') \<Longrightarrow> confined_step g elicit st st'"

inductive agent_step ::
  "group_identity \<Rightarrow> (string \<Rightarrow> elicit_outcome) option \<Rightarrow> agent_state \<Rightarrow> agent_state \<Rightarrow> bool"
  for g :: group_identity and elicit :: "(string \<Rightarrow> elicit_outcome) option" where
  StepConfined: "confined_step g elicit st st' \<Longrightarrow> agent_step g elicit st st'"
| StepInit: "session_init now (gi_user g) g home_id home_name st = (r, st') \<Longrightarrow>
     agent_step g elicit st st'"
| StepSeed: "autoSeedFromHome now (gi_user g) (Some g) home st = (r, st') \<Longrightarrow>
     agent_step g elicit st st'"

inductive read_step ::
  "group_identity \<Rightarrow> (string \<Rightarrow> elicit_outcome) option \<Rightarrow> agent_state \<Rightarrow> agent_state \<Rightarrow> bool"
  for g :: group_identity and elicit :: "(string \<Rightarrow> elicit_outcome) option" where
  StepReadOnly: "guardNodeRead now (gi_user g) (Some g) elicit i st = (out, st') \<Longrightarrow> read_step g elicit st st'"

inductive_cases confined_stepE: "confined_step g elicit st st'"
inductive_cases agent_stepE: "agent_step g elicit st st'"
inductive_cases read_stepE: "read_step g elicit st st'"

section \<open>Seeding steps\<close>

lemma session_init_effect:
  assumes "session_init now u g home_id home_name st = (r, st')"
  shows "same_graph (snd st) (snd st')" "sc_write (fst st') = sc_write (fst st)"
    "sc_type (fst st') = sc_type (fst st)" "scope_wf (fst st) \<Longrightarrow> scope_wf (fst st')"
proof -
  have "same_graph (snd st) (snd st') \<and> sc_write (fst st') = sc_write (fst st) \<and>
      sc_type (fst st') = sc_type (fst st) \<and> (scope_wf (fst st) \<longrightarrow> scope_wf (fst st'))"
    using assms
    by (auto simp: session_init_def seedScopeFromHome_def Let_def
        split: option.splits intro!: inv_intros)
  then show "same_graph (snd st) (snd st')" "sc_write (fst st') = sc_write (fst st)"
    "sc_type (fst st') = sc_type (fst st)" "scope_wf (fst st) \<Longrightarrow> scope_wf (fst st')"
    by auto
qed

lemma autoSeed_effect:
  assumes "autoSeedFromHome now u identity home st = (r, st')"
  shows "same_graph (snd st) (snd st')" "sc_write (fst st') = sc_write (fst st)"
    "sc_type (fst st') = sc_type (fst st)" "scope_wf (fst st) \<Longrightarrow> scope_wf (fst st')"
proof -
  have "same_graph (snd st) (snd st') \<and> sc_write (fst st') = sc_write (fst st) \<and>
      sc_type (fst st') = sc_type (fst st) \<and> (scope_wf (fst st) \<longrightarrow> scope_wf (fst st'))"
    using assms
    by (auto simp: autoSeedFromHome_def seedScopeFromHome_def Let_def
        split: option.splits if_splits intro!: inv_intros)
  then show "same_graph (snd st) (snd st')" "sc_write (fst st') = sc_write (fst st)"
    "sc_type (fst st') = sc_type (fst st)" "scope_wf (fst st) \<Longrightarrow> scope_wf (fst st')"
    by auto
qed

section \<open>What one step does\<close>

definition never_accepts :: "(string \<Rightarrow> elicit_outcome) option \<Rightarrow> bool" where
  "never_accepts elicit \<longleftrightarrow> (\<forall>confirm p. elicit = Some confirm \<longrightarrow> confirm p \<noteq> EAccept)"

text \<open>What an agent step keeps, whatever it is: the graph, the type, the invariant.\<close>

definition session_kept :: "agent_state \<Rightarrow> agent_state \<Rightarrow> bool" where
  "session_kept st st' \<longleftrightarrow>
     same_graph (snd st) (snd st') \<and> sc_type (fst st') = sc_type (fst st) \<and>
     (scope_wf (fst st) \<longrightarrow> scope_wf (fst st'))"

lemma expand_scope_kept:
  assumes "expand_scope now g elicit mirror args st = (r, st')"
  shows "session_kept st st'"
proof (cases "xa_writable args \<and> sc_type (fst st) = Headless")
  case True
  with assms have "st' = st" by (simp add: expand_scope_headless_write)
  then show ?thesis by (simp add: session_kept_def)
next
  case False
  from expand_scope_effect [OF assms False] show ?thesis by (simp add: session_kept_def)
qed

lemma guardNodeRead_kept:
  "guardNodeRead now u identity elicitor i st = (out, st') \<Longrightarrow> session_kept st st'"
  using guardNodeRead_db [of now u identity elicitor i st out st']
    guardNodeRead_frame [of now u identity elicitor i st out st']
  by (simp add: session_kept_def same_graph_def)

lemma session_init_kept:
  "session_init now u g home_id home_name st = (r, st') \<Longrightarrow> session_kept st st'"
  using session_init_effect [of now u g home_id home_name st r st'] by (simp add: session_kept_def)

lemma autoSeed_kept:
  "autoSeedFromHome now u identity home st = (r, st') \<Longrightarrow> session_kept st st'"
  using autoSeed_effect [of now u identity home st r st'] by (simp add: session_kept_def)

lemma agent_step_kept: "agent_step g elicit st st' \<Longrightarrow> session_kept st st'"
  by (elim agent_stepE confined_stepE)
    (simp_all add: guardNodeRead_kept expand_scope_kept session_init_kept autoSeed_kept)

lemma session_kept_refl: "session_kept st st"
  by (simp add: session_kept_def)

lemma session_kept_trans: "session_kept a b \<Longrightarrow> session_kept b c \<Longrightarrow> session_kept a c"
  by (auto simp: session_kept_def intro: same_graph_trans)

interpretation agent: run_relation "agent_step g elicit" session_kept
  for g elicit
  by unfold_locales (auto intro: session_kept_refl session_kept_trans agent_step_kept)

text \<open>The write set of a session whose user accepts no dialog.\<close>

definition same_write_set :: "agent_state \<Rightarrow> agent_state \<Rightarrow> bool" where
  "same_write_set st st' \<longleftrightarrow> set (sc_write (fst st')) = set (sc_write (fst st))"

lemma write_dialog_never: "never_accepts elicit \<Longrightarrow> write_dialog elicit i m reason \<noteq> EAccept"
  by (auto simp: never_accepts_def write_dialog_def split: option.splits)

lemma expand_scope_never_accepts:
  assumes "expand_scope now g elicit mirror args st = (r, st')" "never_accepts elicit"
  shows "same_write_set st st'"
proof (cases "xa_writable args \<and> sc_type (fst st) = Headless")
  case True
  with assms show ?thesis by (simp add: expand_scope_headless_write same_write_set_def)
next
  case False
  from expand_scope_effect(2) [OF assms(1) False] assms(2) show ?thesis
    by (auto simp: same_write_set_def may_accept_def write_dialog_never)
qed

lemma agent_step_never_accepts:
  assumes "never_accepts elicit" "agent_step g elicit st st'"
  shows "same_write_set st st'"
  using assms(2)
proof (elim agent_stepE confined_stepE)
  fix now mirror args r
  assume "expand_scope now g elicit mirror args st = (r, st')"
  with assms(1) show ?thesis by (rule expand_scope_never_accepts [rotated])
qed (simp_all add: guardNodeRead_frame session_init_effect autoSeed_effect same_write_set_def)

section \<open>Headless sessions\<close>



lemma same_graph_scope_meta:
  "same_graph db db' \<Longrightarrow> loadNodeScopeMeta db' i = loadNodeScopeMeta db i"
  by (simp add: loadNodeScopeMeta_def same_graph_node_by_id)






section \<open>Guarded reads\<close>

text \<open>The user accepted the dialog of a read, which names the node and says why it asks.\<close>

definition read_consent :: "(string \<Rightarrow> elicit_outcome) option \<Rightarrow> graph_db \<Rightarrow> node_id \<Rightarrow> bool" where
  "read_consent elicit db i \<longleftrightarrow>
     (\<exists>confirm why. elicit = Some confirm \<and> confirm (userPromptFor i (loadNodeScopeMeta db i) why) = EAccept)"

lemma decideRead_prompt:
  "decideRead s i m u r = DElicit hint prompt \<Longrightarrow> sc_type s \<noteq> Headless \<Longrightarrow> \<exists>why. prompt = Some (userPromptFor i m why)"
  by (auto simp: decideRead_def split: if_splits)

lemma guardNodeRead_gain:
  assumes "guardNodeRead now u identity elicit i st = (out, st')" and "j \<in> set (sc_nodes (fst st'))" and "j \<notin> set (sc_nodes (fst st))"
  shows "j = i \<and> (isEdgeReachable (snd st) (fst st) i \<or> sc_type (fst st) \<noteq> Headless \<and> read_consent elicit (snd st) i)"
proof -
  have ji: "j = i" using guardNodeRead_frame(5) [OF assms(1)] assms(2,3) by auto
  from guardNodeRead_effect [OF assms(1)] show ?thesis
  proof cases
    case (3 confirm p)
    have "st' \<noteq> st" using assms(2,3) by auto
    then have "isEdgeReachable (snd st) (fst st) i \<or> read_consent elicit (snd st) i"
      using assms(1) 3(3,4) unfolding read_consent_def guardNodeRead_def Let_def
      by (auto split: if_splits scope_decision.splits elicit_outcome.splits dest!: decideRead_prompt decideRead_DAllow)
    with 3 ji show ?thesis by blast
  qed (use assms(2,3) ji in auto)
qed

definition connected_growth :: "(string \<Rightarrow> elicit_outcome) option \<Rightarrow> agent_state \<Rightarrow> agent_state \<Rightarrow> bool" where
  "connected_growth elicit st st' \<longleftrightarrow>
     same_graph (snd st) (snd st') \<and> sc_type (fst st') = sc_type (fst st) \<and>
     (\<forall>i \<in> set (sc_nodes (fst st')). \<exists>p. (adjacent (snd st))\<^sup>*\<^sup>* i p \<and>
        (p \<in> set (sc_nodes (fst st)) \<or> sc_type (fst st) \<noteq> Headless \<and> read_consent elicit (snd st) p))"

lemma same_graph_adjacent: "same_graph db db' \<Longrightarrow> adjacent db' = adjacent db"
  by (simp add: fun_eq_iff adjacent_def same_graph_def)

lemma same_graph_consent: "same_graph db db' \<Longrightarrow> read_consent elicit db' i = read_consent elicit db i"
  by (simp add: read_consent_def same_graph_scope_meta)

lemma read_step_connected: "read_step g elicit st st' \<Longrightarrow> connected_growth elicit st st'"
proof (elim read_stepE)
  fix now i out
  assume read: "guardNodeRead now (gi_user g) (Some g) elicit i st = (out, st')"
  have "\<exists>p. (adjacent (snd st))\<^sup>*\<^sup>* j p \<and> (p \<in> set (sc_nodes (fst st)) \<or> sc_type (fst st) \<noteq> Headless \<and> read_consent elicit (snd st) p)"
    if "j \<in> set (sc_nodes (fst st'))" for j
  proof (cases "j \<in> set (sc_nodes (fst st))")
    case False
    then show ?thesis using guardNodeRead_gain [OF read that] by (auto simp: isEdgeReachable_iff)
  qed blast
  then show ?thesis
    using guardNodeRead_kept [OF read] by (simp add: session_kept_def connected_growth_def)
qed

interpretation reads: run_relation "read_step g elicit" "connected_growth elicit"
  for g elicit
proof unfold_locales
  show "connected_growth elicit st st" for st by (auto simp: connected_growth_def)
  show "read_step g elicit a b \<Longrightarrow> connected_growth elicit a b" for a b by (rule read_step_connected)
  show "connected_growth elicit a c" if ab: "connected_growth elicit a b" and bc: "connected_growth elicit b c" for a b c
  proof -
    have same: "adjacent (snd b) = adjacent (snd a)" "read_consent elicit (snd b) i = read_consent elicit (snd a) i"
      "sc_type (fst b) = sc_type (fst a)" for i
      using ab by (simp_all add: connected_growth_def same_graph_adjacent same_graph_consent)
    have "\<exists>p. (adjacent (snd a))\<^sup>*\<^sup>* i p \<and> (p \<in> set (sc_nodes (fst a)) \<or> sc_type (fst a) \<noteq> Headless \<and> read_consent elicit (snd a) p)"
      if "i \<in> set (sc_nodes (fst c))" for i
    proof -
      from bc that same obtain q where q: "(adjacent (snd a))\<^sup>*\<^sup>* i q"
        "q \<in> set (sc_nodes (fst b)) \<or> sc_type (fst a) \<noteq> Headless \<and> read_consent elicit (snd a) q"
        by (auto simp: connected_growth_def)
      show ?thesis
      proof (cases "q \<in> set (sc_nodes (fst b))")
        case True
        with ab obtain p where "(adjacent (snd a))\<^sup>*\<^sup>* q p"
          "p \<in> set (sc_nodes (fst a)) \<or> sc_type (fst a) \<noteq> Headless \<and> read_consent elicit (snd a) p"
          unfolding connected_growth_def by blast
        with q(1) show ?thesis by (meson rtranclp_trans)
      next
        case False
        with q show ?thesis by blast
      qed
    qed
    with ab bc show ?thesis by (auto simp: connected_growth_def intro: same_graph_trans)
  qed
qed

section \<open>Properties of a session\<close>

lemma sample_init_home:
  "sc_home (fst (snd (session_init now u g (Some ''org'') None (s, sample_db)))) = Some ''org''"
  by (simp add: session_init_def loadNodeIdFromMaybeName_def sample_nodes seedScopeFromHome_def Let_def)


text \<open>A scope holding the organization of the sample graph, and its project area read from there.\<close>

definition sample_scope :: "session_type \<Rightarrow> session_scope" where
  "sample_scope ty = scope_add ''org'' (new_scope ty 0)"

text \<open>Re-initialising is not confined: it gives a headless session a home of its choice, which it may write
  to, also a scope-sensitive node that neither a read nor an expansion would have let it have.\<close>

lemma headless_init_takes_sensitive_home:
  "violatesHardFloor (loadNodeScopeMeta sample_db ''sec'') u \<and>
   (let s' = fst (snd (session_init now u g (Some ''sec'') None (sample_scope Headless, sample_db)))
    in sc_type s' = Headless \<and> sc_home s' = Some ''sec'' \<and> scope_has s' ''sec'')"
proof -
  have "violatesHardFloor (loadNodeScopeMeta sample_db ''sec'') u"
    by (simp add: violatesHardFloor_def loadNodeScopeMeta_def node_by_id_def sample_db_def sample_node_def meta_scope_sensitive_def)
  moreover obtain n where "node_by_id sample_db ''sec'' = Some n"
    by (simp add: node_by_id_def sample_db_def sample_node_def)
  moreover have "sc_type (sample_scope Headless) = Headless" by (simp add: sample_scope_def new_scope_def)
  ultimately show ?thesis
    by (simp add: session_init_def loadNodeIdFromMaybeName_def sample_nodes seedScopeFromHome_def Let_def scope_has_def)
qed

lemma sample_reachable: "isEdgeReachable sample_db (sample_scope ty) ''grp''"
  by (simp add: isEdgeReachable_iff sample_scope_def adjacent_def sample_db_def sample_edge_def)

lemma sample_grp_read:
  "''grp'' \<in> set (sc_nodes (fst (snd (guardNodeRead now ''ann'' (Some (sample_user SAdmin ''ann'')) elicit
     ''grp'' (sample_scope Headless, sample_db)))))"
proof -
  have ty: "sc_type (sample_scope Headless) = Headless"
    and new: "\<not> scope_has (sample_scope Headless) ''grp''"
    by (simp_all add: sample_scope_def new_scope_def scope_has_def)
  have "loadNodeScopeMeta sample_db ''grp'' =
      \<lparr>ns_exists = True, ns_visibility = ''team'', ns_creator = Some ''ann'', ns_sensitive = False,
       ns_name = Some ''grp'', ns_type = Some ''process''\<rparr>"
    by (simp add: loadNodeScopeMeta_def sample_nodes sample_node_def meta_scope_sensitive_def)
  with ty new show ?thesis
    by (simp add: guardNodeRead_def Let_def decideRead_def nodeVisible_admin sample_reachable)
qed


text \<open>C9: Reading never takes a session out of the parts of the graph it was let into: after any sequence of
  guarded reads, every node in scope is linked by a chain of edges to one of the first scope, or to one
  whose dialog the user accepted, and a headless session has no such dialog.\<close>

theorem reads_stay_connected:
  "(read_step g elicit)\<^sup>*\<^sup>* (s, db) (s', db') \<Longrightarrow> i \<in> set (sc_nodes s') \<Longrightarrow>
     \<exists>p. (adjacent db)\<^sup>*\<^sup>* i p \<and>
       (p \<in> set (sc_nodes s) \<or>
        sc_type s \<noteq> Headless \<and>
        (\<exists>confirm why. elicit = Some confirm \<and> confirm (userPromptFor p (loadNodeScopeMeta db p) why) = EAccept))"
  using reads.run_rel [of g elicit "(s, db)" "(s', db')"] by (simp add: connected_growth_def read_consent_def)

text \<open>A session that holds the organization reads a process of it: the process joined by the edge, whatever a dialog
  would have said.\<close>

lemma reads_stay_connected_witness:
  "\<exists>s'. (read_step (sample_user SAdmin ''ann'') (Some (\<lambda>_. EDecline)))\<^sup>*\<^sup>* (sample_scope Headless, sample_db) s' \<and>
     ''grp'' \<in> set (sc_nodes (fst s')) \<and> ''grp'' \<notin> set (sc_nodes (sample_scope Headless)) \<and>
     (\<exists>p \<in> set (sc_nodes (sample_scope Headless)). (adjacent sample_db)\<^sup>*\<^sup>* ''grp'' p)"
proof -
  let ?g = "sample_user SAdmin ''ann''" and ?e = "Some (\<lambda>_ :: string. EDecline)"
  let ?X = "guardNodeRead 0 (gi_user ?g) (Some ?g) ?e ''grp'' (sample_scope Headless, sample_db)"
  have "read_step ?g ?e (sample_scope Headless, sample_db) (fst (snd ?X), snd (snd ?X))"
    by (rule StepReadOnly [of 0 _ _ "''grp''" _ "fst ?X"]) simp
  then have run: "(read_step ?g ?e)\<^sup>*\<^sup>* (sample_scope Headless, sample_db) (fst (snd ?X), snd (snd ?X))" by simp
  have grp: "''grp'' \<in> set (sc_nodes (fst (snd ?X)))" by (simp add: sample_grp_read)
  have new: "''grp'' \<notin> set (sc_nodes (sample_scope Headless))" by (simp add: sample_scope_def new_scope_def)
  have "\<exists>p \<in> set (sc_nodes (sample_scope Headless)). (adjacent sample_db)\<^sup>*\<^sup>* ''grp'' p"
    using reads_stay_connected [OF run grp] by auto
  with run grp new show ?thesis by fastforce
qed

text \<open>Every state a session can reach from its creation has no duplicate in its read or write
  set, everything writable is readable, and its type is the one it was created with.\<close>

theorem session_scope_invariant:
  "(agent_step g elicit)\<^sup>*\<^sup>* (new_scope ty now, db) (s, db') \<Longrightarrow>
     distinct (sc_nodes s) \<and> distinct (sc_write s) \<and> set (sc_write s) \<subseteq> set (sc_nodes s) \<and>
     sc_type s = ty"
  using agent.run_rel [of g elicit "(new_scope ty now, db)" "(s, db')"] scope_wf_new [of ty now]
  by (auto simp: session_kept_def scope_wf_def new_scope_def)

lemma session_scope_invariant_witness:
  "\<exists>s db'. (agent_step (sample_user SAdmin ''ann'') None)\<^sup>*\<^sup>* (new_scope EnvSession 0, sample_db) (s, db') \<and>
     sc_home s = Some ''org'' \<and> distinct (sc_nodes s) \<and> sc_type s = EnvSession"
proof -
  let ?g = "sample_user SAdmin ''ann''"
  let ?X = "session_init 0 (gi_user ?g) ?g (Some ''org'') None (new_scope EnvSession 0, sample_db)"
  have "agent_step ?g None (new_scope EnvSession 0, sample_db) (fst (snd ?X), snd (snd ?X))"
    by (rule StepInit [of 0 _ "Some ''org''" None _ "fst ?X"]) simp
  then have run: "(agent_step ?g None)\<^sup>*\<^sup>* (new_scope EnvSession 0, sample_db)
      (fst (snd ?X), snd (snd ?X))" by simp
  have "sc_home (fst (snd ?X)) = Some ''org''"
    by (rule sample_init_home)
  with session_scope_invariant [OF run] run show ?thesis by blast
qed

end
