(* ===== verification/Sessions.thy ===== *)
theory Sessions
  imports ReadScope "HOL-Library.Product_Lexorder"
begin

text \<open>
  Persistent sessions, \<^verbatim>\<open>apps/server/domain/sessions.ts\<close>: the \<^verbatim>\<open>sessions\<close>,
  \<^verbatim>\<open>session_scope\<close> and \<^verbatim>\<open>session_runs\<close> tables next to the graph, every operation on them with
  the table constraints that make it fail, and the state machine of a session row.  A column of
  type DATETIME is the ISO text the code writes, compared as text as SQL does; the clock is an
  argument (\<open>now\<close>, and \<open>ago ms\<close> for the time \<open>ms\<close> milliseconds before it), as are the id
  \<^verbatim>\<open>ulid()\<close> returns and the translated default name of a draft.
\<close>

section \<open>Tables\<close>

type_synonym iso = string

datatype session_state = Draft | Running | Suspended | Closed | Archived

record session_row =
  se_id :: session_id
  se_node :: "node_id option"
  se_user :: user_id
  se_type :: session_type
  se_cli :: "string option"
  se_instance :: "string option"
  se_agent_session :: "string option"
  se_terminal :: "string option"
  se_runner :: "string option"
  se_host :: "string option"
  se_waiting_since :: "iso option"
  se_state :: session_state
  se_handoff_path :: "string option"
  se_handoff_hash :: "string option"
  se_name :: string
  se_custom_name :: bool
  se_model :: "string option"
  se_effort :: "string option"
  se_context_used :: "nat option"
  se_context_max :: "nat option"
  se_created_at :: iso
  se_active_at :: iso
  se_closed_at :: "iso option"

record scope_row =
  sr_session :: session_id
  sr_node :: node_id
  sr_via :: added_via
  sr_reason :: "string option"
  sr_writable :: bool
  sr_added_at :: iso

record run_row =
  rn_id :: string
  rn_session :: session_id
  rn_host :: "string option"
  rn_started_at :: iso
  rn_ended_at :: "iso option"

record session_db =
  sd_graph :: graph_db
  sessions_t :: "session_row list"
  scope_t :: "scope_row list"
  runs_t :: "run_row list"

definition audit_session ::
  "user_id \<Rightarrow> string \<Rightarrow> session_id \<Rightarrow> (string \<times> json) list \<Rightarrow> session_db \<Rightarrow> session_db" where
  "audit_session user action i detail db =
     db\<lparr>sd_graph := writeAudit user action ''session'' i (Some (JObj detail)) (sd_graph db)\<rparr>"

definition json_opt :: "string option \<Rightarrow> json" where
  "json_opt x = (case x of None \<Rightarrow> JNull | Some s \<Rightarrow> JStr s)"

section \<open>Spawn ids and names\<close>

definition in_range :: "nat \<Rightarrow> nat \<Rightarrow> char \<Rightarrow> bool" where
  "in_range a b c \<longleftrightarrow> a \<le> (of_char c :: nat) \<and> (of_char c :: nat) \<le> b"

text \<open>The character class \<^verbatim>\<open>[0-9A-HJKMNP-TV-Z]\<close>.\<close>

definition crockford :: "char \<Rightarrow> bool" where
  "crockford c \<longleftrightarrow>
     in_range 48 57 c \<or> in_range 65 72 c \<or> c \<in> set ''JKMN'' \<or> in_range 80 84 c \<or> in_range 86 90 c"

definition isSpawnSessionId :: "string \<Rightarrow> bool" where
  "isSpawnSessionId v \<longleftrightarrow> length v = 26 \<and> list_all crockford v"

text \<open>A request header: absent, one value, or a list of values of which the first counts.\<close>

datatype header = NoHeader | OneHeader string | ManyHeaders "string list"

fun header_value :: "header \<Rightarrow> string option" where
  "header_value NoHeader = None"
| "header_value (OneHeader s) = Some s"
| "header_value (ManyHeaders []) = None"
| "header_value (ManyHeaders (s # _)) = Some s"

definition trimmed_header :: "header \<Rightarrow> string option" where
  "trimmed_header h =
     (case header_value h of
        None \<Rightarrow> None
      | Some s \<Rightarrow> (if js_trim s = [] then None else Some (js_trim s)))"

definition spawnSessionIdFromHeader :: "header \<Rightarrow> session_id option" where
  "spawnSessionIdFromHeader h =
     (case trimmed_header h of
        None \<Rightarrow> None
      | Some raw \<Rightarrow> (if isSpawnSessionId raw then Some raw else None))"

definition js_slice :: "nat \<Rightarrow> nat \<Rightarrow> string \<Rightarrow> string" where
  "js_slice a b s = take (b - a) (drop a s)"

text \<open>The middle dot of the name, and the ellipsis of a cut one, in their UTF-8 form.\<close>

definition middle_dot :: string where "middle_dot = [CHR 0xC2, CHR 0xB7]"

definition ellipsis :: string where "ellipsis = [CHR 0xE2, CHR 0x80, CHR 0xA6]"

definition computeDefaultSessionName :: "string option \<Rightarrow> iso \<Rightarrow> string" where
  "computeDefaultSessionName nodeName createdAtIso =
     (case nodeName of None \<Rightarrow> ''Chat'' | Some n \<Rightarrow> n) @ '' '' @ middle_dot @ '' '' @
     js_slice 0 10 createdAtIso @ '' '' @ js_slice 11 16 createdAtIso"

definition THREAD_NAME_MAX_LENGTH :: nat where "THREAD_NAME_MAX_LENGTH = 60"

text \<open>\<open>replace(/\s+/g, ' ')\<close>.\<close>

function collapse_spaces :: "string \<Rightarrow> string" where
  "collapse_spaces [] = []"
| "collapse_spaces (c # cs) =
     (if js_space c then CHR '' '' # collapse_spaces (dropWhile js_space cs)
      else c # collapse_spaces cs)"
  by pat_completeness auto
termination
  by (relation "measure length") (auto simp: less_Suc_eq_le length_dropWhile_le)

text \<open>\<open>s.lastIndexOf(' ')\<close>, \<open>None\<close> for -1.\<close>

fun last_space :: "string \<Rightarrow> nat option" where
  "last_space [] = None"
| "last_space (c # cs) =
     (case last_space cs of
        Some i \<Rightarrow> Some (Suc i)
      | None \<Rightarrow> (if c = CHR '' '' then Some 0 else None))"

definition threadNameFromFirstMessage :: "string \<Rightarrow> string" where
  "threadNameFromFirstMessage text =
     (let collapsed = collapse_spaces (js_trim (hd (split_on (CHR 0x0A) text)))
      in if length collapsed \<le> THREAD_NAME_MAX_LENGTH then collapsed
         else (let truncated = take THREAD_NAME_MAX_LENGTH collapsed;
                   cut = (case last_space truncated of
                            Some i \<Rightarrow> (if 0 < i then take i truncated else truncated)
                          | None \<Rightarrow> truncated)
               in cut @ ellipsis))"

section \<open>Reading rows\<close>

definition loadSession :: "session_db \<Rightarrow> session_id \<Rightarrow> session_row option" where
  "loadSession db i = find (\<lambda>r. se_id r = i) (sessions_t db)"

definition getSession :: "session_db \<Rightarrow> session_id \<Rightarrow> session_row option" where
  "getSession db i = loadSession db i"

definition update_session :: "session_id \<Rightarrow> (session_row \<Rightarrow> session_row) \<Rightarrow> session_db \<Rightarrow> session_db" where
  "update_session i f db =
     db\<lparr>sessions_t := map (\<lambda>r. if se_id r = i then f r else r) (sessions_t db)\<rparr>"

section \<open>Creating, renaming and deleting\<close>

record create_input =
  ci_node :: "node_id option"
  ci_type :: session_type
  ci_cli :: "string option"
  ci_instance :: "string option"
  ci_agent_session :: "string option"
  ci_terminal :: "string option"
  ci_runner :: "string option"
  ci_host :: "string option"
  ci_model :: "string option"
  ci_effort :: "string option"

definition effort_levels :: "string list" where
  "effort_levels = [''low'', ''medium'', ''high'', ''xhigh'', ''max'']"

text \<open>The INSERT under the table's constraints: primary key, id length, anchor reference, effort.\<close>

definition insert_session :: "session_row \<Rightarrow> session_db \<Rightarrow> string + session_db" where
  "insert_session r db =
     (if loadSession db (se_id r) \<noteq> None then Inl ''UNIQUE constraint failed: sessions.id''
      else if length (se_id r) \<noteq> 26 then Inl ''CHECK constraint failed: sessions.id''
      else if \<exists>e. se_effort r = Some e \<and> e \<notin> set effort_levels then Inl ''CHECK constraint failed: sessions.effort''
      else if \<exists>n. se_node r = Some n \<and> node_by_id (sd_graph db) n = None then Inl ''FOREIGN KEY constraint failed''
      else Inr (db\<lparr>sessions_t := sessions_t db @ [r]\<rparr>))"

definition session_of_input ::
  "session_id \<Rightarrow> iso \<Rightarrow> user_id \<Rightarrow> create_input \<Rightarrow> string \<Rightarrow> session_row" where
  "session_of_input i now user inp name =
     \<lparr>se_id = i, se_node = ci_node inp, se_user = user, se_type = ci_type inp, se_cli = ci_cli inp,
      se_instance = ci_instance inp, se_agent_session = ci_agent_session inp,
      se_terminal = ci_terminal inp, se_runner = ci_runner inp, se_host = ci_host inp,
      se_waiting_since = None, se_state = Running, se_handoff_path = None, se_handoff_hash = None,
      se_name = name, se_custom_name = False, se_model = ci_model inp, se_effort = ci_effort inp,
      se_context_used = None, se_context_max = None,
      se_created_at = now, se_active_at = now, se_closed_at = None\<rparr>"

definition createSession ::
  "string \<Rightarrow> iso \<Rightarrow> user_id \<Rightarrow> create_input \<Rightarrow> session_id option \<Rightarrow> session_db \<Rightarrow>
     string + (session_row \<times> session_db)" where
  "createSession ulid now user inp preassignedId db =
     (let i = (case preassignedId of Some p \<Rightarrow> p | None \<Rightarrow> ulid);
          nodeName = (case ci_node inp of
                        None \<Rightarrow> None
                      | Some n \<Rightarrow> map_option nd_name (node_by_id (sd_graph db) n));
          r = session_of_input i now user inp (computeDefaultSessionName nodeName now)
      in case insert_session r db of
           Inl e \<Rightarrow> Inl e
         | Inr db1 \<Rightarrow>
             Inr (r, audit_session user ''session_create'' i
                       [(''node_id'', json_opt (ci_node inp)),
                        (''session_type'', JStr (session_type_name (ci_type inp)))] db1))"

record draft_overrides =
  do_model :: "string option"
  do_effort :: "string option"
  do_runner :: "string option"
  do_instance :: "string option"

definition createDraftSession ::
  "string \<Rightarrow> iso \<Rightarrow> string \<Rightarrow> user_id \<Rightarrow> node_id \<Rightarrow> draft_overrides \<Rightarrow> session_db \<Rightarrow>
     string + (session_row \<times> session_db)" where
  "createDraftSession ulid now draftName user nodeId ov db =
     (let r = \<lparr>se_id = ulid, se_node = Some nodeId, se_user = user, se_type = InteractiveTask,
               se_cli = None, se_instance = do_instance ov, se_agent_session = None,
               se_terminal = None, se_runner = do_runner ov, se_host = None, se_waiting_since = None,
               se_state = Draft, se_handoff_path = None, se_handoff_hash = None, se_name = draftName,
               se_custom_name = False, se_model = do_model ov, se_effort = do_effort ov,
               se_context_used = None, se_context_max = None,
               se_created_at = now, se_active_at = now, se_closed_at = None\<rparr>
      in case insert_session r db of
           Inl e \<Rightarrow> Inl e
         | Inr db1 \<Rightarrow>
             Inr (r, audit_session user ''session_create'' ulid
                       [(''node_id'', JStr nodeId), (''draft'', JBool True)] db1))"

text \<open>DELETE FROM sessions, with the cascade to the rows that reference the deleted ones.\<close>

definition delete_sessions :: "(session_row \<Rightarrow> bool) \<Rightarrow> session_db \<Rightarrow> session_db" where
  "delete_sessions P db =
     (let gone = set (map se_id (filter P (sessions_t db)))
      in db\<lparr>sessions_t := filter (\<lambda>r. \<not> P r) (sessions_t db),
            scope_t := filter (\<lambda>r. sr_session r \<notin> gone) (scope_t db),
            runs_t := filter (\<lambda>r. rn_session r \<notin> gone) (runs_t db)\<rparr>)"

fun state_name :: "session_state \<Rightarrow> string" where
  "state_name Draft = ''draft''"
| "state_name Running = ''running''"
| "state_name Suspended = ''suspended''"
| "state_name Closed = ''closed''"
| "state_name Archived = ''archived''"

definition deleteDraftSession :: "user_id \<Rightarrow> session_id \<Rightarrow> session_db \<Rightarrow> string + session_db" where
  "deleteDraftSession actor i db =
     (case loadSession db i of
        None \<Rightarrow> Inl (''deleteDraftSession: '' @ i @ '' not found'')
      | Some existing \<Rightarrow>
          if se_state existing \<noteq> Draft
          then Inl (''deleteDraftSession: session '' @ i @ '' is not a draft (state: '' @
                    state_name (se_state existing) @ '')'')
          else Inr (audit_session actor ''session_delete'' i [(''was_draft'', JBool True)]
                      (delete_sessions (\<lambda>r. se_id r = i) db)))"

definition DEFAULT_DRAFT_PRUNE_AFTER_MS :: nat where
  "DEFAULT_DRAFT_PRUNE_AFTER_MS = 24 * 60 * 60 * 1000"

definition pruneStaleDraftSessions :: "(nat \<Rightarrow> iso) \<Rightarrow> nat \<Rightarrow> session_db \<Rightarrow> nat \<times> session_db" where
  "pruneStaleDraftSessions ago olderThanMs db =
     (let stale = (\<lambda>r. se_state r = Draft \<and> se_created_at r < ago olderThanMs)
      in (length (filter stale (sessions_t db)), delete_sessions stale db))"

definition renameSession :: "user_id \<Rightarrow> session_id \<Rightarrow> string \<Rightarrow> session_db \<Rightarrow> string + session_db" where
  "renameSession actor i name db =
     (let trimmed = js_trim name
      in if length trimmed = 0 then Inl ''renameSession: name must not be empty''
         else (case loadSession db i of
                 None \<Rightarrow> Inl (''renameSession: '' @ i @ '' not found'')
               | Some existing \<Rightarrow>
                   Inr (audit_session actor ''session_rename'' i
                          [(''from'', JStr (se_name existing)), (''to'', JStr trimmed)]
                          (update_session i (\<lambda>r. r\<lparr>se_name := trimmed, se_custom_name := True\<rparr>) db))))"

section \<open>Resuming, listing and touching\<close>

definition loadResumableSession ::
  "session_db \<Rightarrow> user_id \<Rightarrow> node_id \<Rightarrow> session_id \<Rightarrow> session_row option" where
  "loadResumableSession db user nodeId i =
     (case loadSession db i of
        None \<Rightarrow> None
      | Some row \<Rightarrow>
          if se_user row \<noteq> user then None
          else if se_node row \<noteq> Some nodeId then None
          else if se_state row \<noteq> Suspended then None
          else Some row)"

text \<open>The filtered list, last active first; rows of the same time keep their table order.\<close>

definition listSessions ::
  "session_db \<Rightarrow> node_id option \<Rightarrow> user_id option \<Rightarrow> session_state option \<Rightarrow> session_row list" where
  "listSessions db nodeF userF stateF =
     rev (sort_key se_active_at
       (rev (filter (\<lambda>r. (nodeF = None \<or> se_node r = nodeF) \<and>
                         (case userF of None \<Rightarrow> True | Some u \<Rightarrow> se_user r = u) \<and>
                         (case stateF of None \<Rightarrow> True | Some s \<Rightarrow> se_state r = s)) (sessions_t db))))"

definition touchSession :: "iso \<Rightarrow> session_id \<Rightarrow> session_db \<Rightarrow> session_db" where
  "touchSession now i db = update_session i (\<lambda>r. r\<lparr>se_active_at := now\<rparr>) db"

definition setSessionCli :: "session_id \<Rightarrow> string \<Rightarrow> session_db \<Rightarrow> session_db" where
  "setSessionCli i cli db = update_session i (\<lambda>r. r\<lparr>se_cli := Some cli\<rparr>) db"

section \<open>The state machine\<close>

fun ALLOWED_TRANSITIONS :: "session_state \<Rightarrow> session_state list" where
  "ALLOWED_TRANSITIONS Draft = [Running]"
| "ALLOWED_TRANSITIONS Running = [Suspended, Closed]"
| "ALLOWED_TRANSITIONS Suspended = [Running, Closed]"
| "ALLOWED_TRANSITIONS Closed = [Running, Archived]"
| "ALLOWED_TRANSITIONS Archived = []"

definition isAllowedSessionTransition :: "session_state \<Rightarrow> session_state \<Rightarrow> bool" where
  "isAllowedSessionTransition from_state to_state \<longleftrightarrow>
     from_state = to_state \<or> to_state \<in> set (ALLOWED_TRANSITIONS from_state)"

definition transitionSessionState ::
  "iso \<Rightarrow> user_id \<Rightarrow> session_id \<Rightarrow> session_state \<Rightarrow> session_db \<Rightarrow> string + session_db" where
  "transitionSessionState now actor i toState db =
     (case loadSession db i of
        None \<Rightarrow> Inl (''transitionSessionState: '' @ i @ '' not found'')
      | Some existing \<Rightarrow>
          if se_state existing = toState then Inr db
          else if \<not> isAllowedSessionTransition (se_state existing) toState
          then Inl (''transitionSessionState: '' @ state_name (se_state existing) @ '' -> '' @
                    state_name toState @ '' is not a valid transition'')
          else (let closedAt = (if toState = Closed then Some now
                                else if toState = Running then None
                                else se_closed_at existing)
                in Inr (audit_session actor ''session_state_transition'' i
                          [(''from'', JStr (state_name (se_state existing))),
                           (''to'', JStr (state_name toState))]
                          (update_session i
                             (\<lambda>r. r\<lparr>se_state := toState, se_active_at := now, se_closed_at := closedAt\<rparr>) db))))"

text \<open>A thread a device drives: a runner task, or one with a run still open.\<close>

definition isDeviceDrivenSession :: "session_db \<Rightarrow> session_row \<Rightarrow> bool" where
  "isDeviceDrivenSession db row \<longleftrightarrow>
     se_runner row \<noteq> None \<or> (\<exists>r \<in> set (runs_t db). rn_session r = se_id row \<and> rn_ended_at r = None)"

definition suspendRecordOnCentral :: "iso \<Rightarrow> session_id \<Rightarrow> session_db \<Rightarrow> string + (bool \<times> session_db)" where
  "suspendRecordOnCentral now i db =
     (case loadSession db i of
        None \<Rightarrow> Inr (False, db)
      | Some row \<Rightarrow>
          if se_state row \<noteq> Running then Inr (False, db)
          else if isDeviceDrivenSession db row then Inr (False, db)
          else (case transitionSessionState now (se_user row) i Suspended db of
                  Inl e \<Rightarrow> Inl e
                | Inr db' \<Rightarrow> Inr (True, db')))"

definition DEFAULT_ARCHIVE_AFTER_MS :: nat where
  "DEFAULT_ARCHIVE_AFTER_MS = 30 * 24 * 60 * 60 * 1000"

definition archived_if_due :: "iso \<Rightarrow> session_row \<Rightarrow> session_row" where
  "archived_if_due cutoff r =
     (if se_state r = Closed \<and> (case se_closed_at r of None \<Rightarrow> False | Some t \<Rightarrow> t < cutoff)
      then r\<lparr>se_state := Archived\<rparr> else r)"

definition autoArchiveClosedSessions :: "(nat \<Rightarrow> iso) \<Rightarrow> nat \<Rightarrow> session_db \<Rightarrow> nat \<times> session_db" where
  "autoArchiveClosedSessions ago olderThanMs db =
     (length (filter (\<lambda>r. archived_if_due (ago olderThanMs) r \<noteq> r) (sessions_t db)),
      db\<lparr>sessions_t := map (archived_if_due (ago olderThanMs)) (sessions_t db)\<rparr>)"

record suspend_input =
  su_handoff_path :: "string option"
  su_handoff_hash :: "string option"
  su_agent_session :: "string option"
  su_title :: "string option"

definition handoffEnrichedName :: "session_row \<Rightarrow> string option \<Rightarrow> string" where
  "handoffEnrichedName s handoffTitle =
     (case map_option js_trim handoffTitle of
        None \<Rightarrow> se_name s
      | Some title \<Rightarrow> (if \<not> se_custom_name s \<and> title \<noteq> [] then title else se_name s))"

definition suspendSession ::
  "iso \<Rightarrow> user_id \<Rightarrow> session_id \<Rightarrow> suspend_input \<Rightarrow> session_db \<Rightarrow> string + session_db" where
  "suspendSession now actor i inp db =
     (case loadSession db i of
        None \<Rightarrow> Inl (''suspendSession: '' @ i @ '' not found'')
      | Some existing \<Rightarrow>
          if se_state existing \<noteq> Running \<and> se_state existing \<noteq> Suspended
          then Inl (''suspendSession: cannot suspend a session in state '' @ state_name (se_state existing))
          else Inr (audit_session actor ''session_suspend'' i
                      [(''handoff_path'', json_opt (su_handoff_path inp)),
                       (''handoff_hash'', json_opt (su_handoff_hash inp))]
                      (update_session i
                         (\<lambda>r. r\<lparr>se_state := Suspended, se_handoff_path := su_handoff_path inp,
                               se_handoff_hash := su_handoff_hash inp,
                               se_agent_session := (case su_agent_session inp of
                                                      Some a \<Rightarrow> Some a | None \<Rightarrow> se_agent_session r),
                               se_active_at := now,
                               se_name := handoffEnrichedName existing (su_title inp)\<rparr>) db)))"

section \<open>The persisted scope\<close>

fun ADDED_VIA_RANK :: "added_via \<Rightarrow> nat" where
  "ADDED_VIA_RANK ViaSeed = 0"
| "ADDED_VIA_RANK ViaEdge = 1"
| "ADDED_VIA_RANK ViaCreated = 1"
| "ADDED_VIA_RANK ViaDisconnected = 2"
| "ADDED_VIA_RANK ViaElicited = 2"

definition scope_key :: "session_id \<Rightarrow> node_id \<Rightarrow> scope_row \<Rightarrow> bool" where
  "scope_key s n r \<longleftrightarrow> sr_session r = s \<and> sr_node r = n"

text \<open>The upsert: an INSERT that can miss its references, or the guarded update of the row there is.\<close>

definition upsertSessionScopeRead ::
  "iso \<Rightarrow> session_id \<Rightarrow> node_id \<Rightarrow> added_via \<Rightarrow> string option \<Rightarrow> session_db \<Rightarrow> string + session_db" where
  "upsertSessionScopeRead now s n via reason db =
     (if find (scope_key s n) (scope_t db) = None
      then (if loadSession db s = None \<or> node_by_id (sd_graph db) n = None
            then Inl ''FOREIGN KEY constraint failed''
            else Inr (db\<lparr>scope_t := scope_t db @
                 [\<lparr>sr_session = s, sr_node = n, sr_via = via, sr_reason = reason, sr_writable = False,
                   sr_added_at = now\<rparr>]\<rparr>))
      else Inr (db\<lparr>scope_t :=
                map (\<lambda>r. if scope_key s n r \<and> ADDED_VIA_RANK via > ADDED_VIA_RANK (sr_via r)
                         then r\<lparr>sr_via := via, sr_reason := reason\<rparr> else r) (scope_t db)\<rparr>))"

definition setSessionScopeWritable :: "session_id \<Rightarrow> node_id \<Rightarrow> session_db \<Rightarrow> session_db" where
  "setSessionScopeWritable s n db =
     db\<lparr>scope_t := map (\<lambda>r. if scope_key s n r then r\<lparr>sr_writable := True\<rparr> else r) (scope_t db)\<rparr>"

definition getSessionScope :: "session_db \<Rightarrow> session_id \<Rightarrow> scope_row list" where
  "getSessionScope db s = sort_key sr_added_at (filter (\<lambda>r. sr_session r = s) (scope_t db))"

text \<open>
  The grouped query: the nodes of the joined rows, each once, by the first time it was added
  (groups of the same time in the order their first rows have).
\<close>

definition connector_rows :: "session_db \<Rightarrow> user_id \<Rightarrow> scope_row list" where
  "connector_rows db user =
     filter (\<lambda>ss. (\<exists>s \<in> set (sessions_t db). se_id s = sr_session ss \<and> se_user s = user \<and>
                                             se_type s = InteractiveChat) \<and>
                  node_by_id (sd_graph db) (sr_node ss) \<noteq> None \<and>
                  sr_via ss = ViaCreated \<and> sr_writable ss) (scope_t db)"

definition listConnectorCreatedWritableNodes :: "session_db \<Rightarrow> user_id \<Rightarrow> node_id list" where
  "listConnectorCreatedWritableNodes db user =
     js_set (map sr_node (sort_key sr_added_at (connector_rows db user)))"

definition getSessionWriteCount :: "session_db \<Rightarrow> session_id \<Rightarrow> nat" where
  "getSessionWriteCount db s = length (filter (\<lambda>r. sr_session r = s \<and> sr_writable r) (scope_t db))"

definition getLatestRunHostId :: "session_db \<Rightarrow> session_id \<Rightarrow> string option" where
  "getLatestRunHostId db s =
     (case rev (sort_key (\<lambda>r. (rn_started_at r, rn_id r))
                  (filter (\<lambda>r. rn_session r = s \<and> rn_host r \<noteq> None) (runs_t db))) of
        [] \<Rightarrow> None
      | r # _ \<Rightarrow> (case rn_host r of
                     Some h \<Rightarrow> (if length h > 0 then Some h else None)
                   | None \<Rightarrow> None))"

text \<open>The WHERE clauses of the two rewrites, limited to the owner's threads when one is given.\<close>

definition claim_ids :: "string \<Rightarrow> string list \<Rightarrow> string list" where
  "claim_ids hostId previousHostIds =
     filter (\<lambda>i. i \<noteq> [] \<and> i \<noteq> hostId) (js_set (map js_trim previousHostIds))"

definition claim_session_due :: "string list \<Rightarrow> user_id option \<Rightarrow> session_row \<Rightarrow> bool" where
  "claim_session_due previous owner r \<longleftrightarrow>
     (\<exists>i \<in> set previous. se_host r = Some i) \<and> (case owner of None \<Rightarrow> True | Some u \<Rightarrow> se_user r = u)"

definition claim_run_due :: "session_db \<Rightarrow> string list \<Rightarrow> user_id option \<Rightarrow> run_row \<Rightarrow> bool" where
  "claim_run_due db previous owner r \<longleftrightarrow>
     (\<exists>i \<in> set previous. rn_host r = Some i) \<and>
     (case owner of None \<Rightarrow> True
      | Some u \<Rightarrow> (\<exists>s \<in> set (sessions_t db). se_id s = rn_session r \<and> se_user s = u))"

definition claim_owner :: "user_id option \<Rightarrow> user_id option" where
  "claim_owner user = (case user of None \<Rightarrow> None | Some u \<Rightarrow> (if u = [] then None else Some u))"

definition claimHostRecords ::
  "string \<Rightarrow> string list \<Rightarrow> user_id option \<Rightarrow> session_db \<Rightarrow> (nat \<times> nat) \<times> session_db" where
  "claimHostRecords hostId previousHostIds user db =
     (let previous = claim_ids hostId previousHostIds; owner = claim_owner user
      in if length previous = 0 then ((0, 0), db)
         else ((length (filter (claim_session_due previous owner) (sessions_t db)),
                length (filter (claim_run_due db previous owner) (runs_t db))),
               db\<lparr>sessions_t := map (\<lambda>r. if claim_session_due previous owner r
                                         then r\<lparr>se_host := Some hostId\<rparr> else r) (sessions_t db),
                  runs_t := map (\<lambda>r. if claim_run_due db previous owner r
                                     then r\<lparr>rn_host := Some hostId\<rparr> else r) (runs_t db)\<rparr>))"

section \<open>Rows after an operation\<close>

lemma find_map_keep: "(\<And>x. P (f x) = P x) \<Longrightarrow> find P (map f xs) = map_option f (find P xs)"
  by (induction xs) auto

lemma find_append: "find P (xs @ ys) = (case find P xs of None \<Rightarrow> find P ys | Some x \<Rightarrow> Some x)"
  by (induction xs) auto

lemma find_filter_keep: "find P xs = Some x \<Longrightarrow> Q x \<Longrightarrow> find P (filter Q xs) = Some x"
  by (induction xs) (auto split: if_splits)

lemma loadSession_id: "loadSession db i = Some r \<Longrightarrow> se_id r = i \<and> r \<in> set (sessions_t db)"
  by (auto simp: loadSession_def dest: find_SomeD)

lemma loadSession_self: "loadSession db i = Some r \<Longrightarrow> loadSession db (se_id r) = Some r"
  using loadSession_id [of db i r] by simp

lemma audit_session_frame [simp]:
  "sessions_t (audit_session u a i d db) = sessions_t db"
  "scope_t (audit_session u a i d db) = scope_t db"
  "runs_t (audit_session u a i d db) = runs_t db"
  "loadSession (audit_session u a i d db) = loadSession db"
  by (simp_all add: audit_session_def loadSession_def fun_eq_iff)

lemma update_session_frame [simp]:
  "scope_t (update_session i f db) = scope_t db"
  "runs_t (update_session i f db) = runs_t db"
  "sd_graph (update_session i f db) = sd_graph db"
  by (simp_all add: update_session_def)

lemma insert_session_Inr:
  "insert_session r db = Inr db' \<Longrightarrow>
     db' = db\<lparr>sessions_t := sessions_t db @ [r]\<rparr> \<and> loadSession db (se_id r) = None"
  by (auto simp: insert_session_def split: if_splits)

section \<open>The lifecycle\<close>

text \<open>Every operation of the module on the three tables.\<close>

inductive session_step :: "session_db \<Rightarrow> session_db \<Rightarrow> bool" where
  SCreate: "createSession ulid now u inp pre db = Inr (r, db') \<Longrightarrow> session_step db db'"
| SDraft: "createDraftSession ulid now nm u n ov db = Inr (r, db') \<Longrightarrow> session_step db db'"
| SDelete: "deleteDraftSession u i db = Inr db' \<Longrightarrow> session_step db db'"
| SPrune: "pruneStaleDraftSessions ago ms db = (k, db') \<Longrightarrow> session_step db db'"
| SRename: "renameSession u i nm db = Inr db' \<Longrightarrow> session_step db db'"
| STouch: "session_step db (touchSession now i db)"
| SCli: "session_step db (setSessionCli i cli db)"
| STransition: "transitionSessionState now u i t db = Inr db' \<Longrightarrow> session_step db db'"
| SCentral: "suspendRecordOnCentral now i db = Inr (b, db') \<Longrightarrow> session_step db db'"
| SArchive: "autoArchiveClosedSessions ago ms db = (k, db') \<Longrightarrow> session_step db db'"
| SSuspend: "suspendSession now u i inp db = Inr db' \<Longrightarrow> session_step db db'"
| SUpsert: "upsertSessionScopeRead now s n via reason db = Inr db' \<Longrightarrow> session_step db db'"
| SWritable: "session_step db (setSessionScopeWritable s n db)"
| SClaim: "claimHostRecords h ps u db = (c, db') \<Longrightarrow> session_step db db'"

text \<open>What a started session's row may become: its identity fixed, never a draft again, and
  archived for good once archived.\<close>

definition progressed :: "session_row \<Rightarrow> session_row \<Rightarrow> bool" where
  "progressed r r' \<longleftrightarrow>
     se_id r' = se_id r \<and> se_user r' = se_user r \<and> se_type r' = se_type r \<and> se_node r' = se_node r \<and>
     se_created_at r' = se_created_at r \<and> se_state r' \<noteq> Draft \<and>
     (se_state r = Archived \<longrightarrow> se_state r' = Archived)"

definition lifecycle :: "session_db \<Rightarrow> session_db \<Rightarrow> bool" where
  "lifecycle db db' \<longleftrightarrow>
     (\<forall>i r. loadSession db i = Some r \<and> se_state r \<noteq> Draft \<longrightarrow>
        (\<exists>r'. loadSession db' i = Some r' \<and> progressed r r'))"

lemma progressed_refl: "se_state r \<noteq> Draft \<Longrightarrow> progressed r r"
  by (simp add: progressed_def)

lemma lifecycle_refl [simp]: "lifecycle db db"
  by (auto simp: lifecycle_def intro: progressed_refl)

lemma lifecycle_trans: "lifecycle a b \<Longrightarrow> lifecycle b c \<Longrightarrow> lifecycle a c"
proof -
  assume ab: "lifecycle a b" and bc: "lifecycle b c"
  show "lifecycle a c"
    unfolding lifecycle_def
  proof (intro allI impI)
    fix i r
    assume "loadSession a i = Some r \<and> se_state r \<noteq> Draft"
    with ab obtain r1 where r1: "loadSession b i = Some r1" and p1: "progressed r r1"
      by (auto simp: lifecycle_def)
    from p1 have "se_state r1 \<noteq> Draft" by (simp add: progressed_def)
    with bc r1 obtain r2 where "loadSession c i = Some r2" and "progressed r1 r2"
      by (auto simp: lifecycle_def)
    with p1 show "\<exists>r'. loadSession c i = Some r' \<and> progressed r r'"
      by (auto simp: progressed_def)
  qed
qed

lemma lifecycle_same: "sessions_t db' = sessions_t db \<Longrightarrow> lifecycle db db'"
  by (auto simp: lifecycle_def loadSession_def intro: progressed_refl)

lemma lifecycle_map:
  assumes "sessions_t db' = map f (sessions_t db)" and "\<And>r. se_id (f r) = se_id r"
    and "\<And>i r. loadSession db i = Some r \<Longrightarrow> se_state r \<noteq> Draft \<Longrightarrow> progressed r (f r)"
  shows "lifecycle db db'"
proof -
  have "loadSession db' i = map_option f (loadSession db i)" for i
    by (simp add: loadSession_def assms(1) find_map_keep assms(2))
  with assms(3) show ?thesis by (auto simp: lifecycle_def)
qed

lemma lifecycle_update:
  assumes "\<And>r. se_id (f r) = se_id r"
    and "\<And>r. loadSession db i = Some r \<Longrightarrow> se_state r \<noteq> Draft \<Longrightarrow> progressed r (f r)"
  shows "lifecycle db (update_session i f db)"
proof (rule lifecycle_map [where f = "\<lambda>r. if se_id r = i then f r else r"])
  show "progressed r (if se_id r = i then f r else r)"
    if "loadSession db j = Some r" "se_state r \<noteq> Draft" for j r
    using that assms(2) [of r] loadSession_id [OF that(1)] progressed_refl [of r] by auto
qed (simp_all add: update_session_def assms(1))

lemma lifecycle_append: "sessions_t db' = sessions_t db @ rs \<Longrightarrow> lifecycle db db'"
  by (auto simp: lifecycle_def loadSession_def find_append intro: progressed_refl)

lemma lifecycle_delete:
  assumes "\<And>i r. loadSession db i = Some r \<Longrightarrow> P r \<Longrightarrow> se_state r = Draft"
  shows "lifecycle db (delete_sessions P db)"
  unfolding lifecycle_def
proof (intro allI impI, elim conjE)
  fix i r
  assume r: "loadSession db i = Some r" "se_state r \<noteq> Draft"
  then have "\<not> P r" using assms by blast
  then have "loadSession (delete_sessions P db) i = Some r"
    using r(1) by (simp add: loadSession_def delete_sessions_def Let_def find_filter_keep)
  with progressed_refl [OF r(2)] show "\<exists>r'. loadSession (delete_sessions P db) i = Some r' \<and> progressed r r'"
    by blast
qed

section \<open>What each operation does to the lifecycle\<close>

lemma transition_Inr:
  assumes "transitionSessionState now u i t db = Inr db'"
  obtains e where "loadSession db i = Some e" "se_state e = t" "db' = db"
  | e detail where "loadSession db i = Some e" "se_state e \<noteq> t" "t \<in> set (ALLOWED_TRANSITIONS (se_state e))"
    "db' = audit_session u ''session_state_transition'' i detail
       (update_session i (\<lambda>r. r\<lparr>se_state := t, se_active_at := now,
          se_closed_at := (if t = Closed then Some now else if t = Running then None else se_closed_at e)\<rparr>) db)"
  using assms
  by (auto simp: transitionSessionState_def isAllowedSessionTransition_def Let_def
      split: option.splits if_split_asm)

lemma not_to_draft: "t \<in> set (ALLOWED_TRANSITIONS s) \<Longrightarrow> t \<noteq> Draft \<and> s \<noteq> Archived"
  by (cases s) auto

lemma lifecycle_transition:
  assumes "transitionSessionState now u i t db = Inr db'"
  shows "lifecycle db db'"
  using assms
proof (cases rule: transition_Inr)
  case 1
  then show ?thesis by simp
next
  case (2 e detail)
  have "lifecycle db (update_session i (\<lambda>r. r\<lparr>se_state := t, se_active_at := now,
      se_closed_at := (if t = Closed then Some now else if t = Running then None else se_closed_at e)\<rparr>) db)"
    using 2 not_to_draft by (intro lifecycle_update) (auto simp: progressed_def)
  moreover have "lifecycle (update_session i (\<lambda>r. r\<lparr>se_state := t, se_active_at := now,
      se_closed_at := (if t = Closed then Some now else if t = Running then None else se_closed_at e)\<rparr>) db) db'"
    using 2 by (intro lifecycle_same) simp
  ultimately show ?thesis by (rule lifecycle_trans)
qed

lemma lifecycle_audit: "lifecycle db db' \<Longrightarrow> lifecycle db (audit_session u a i d db')"
  by (erule lifecycle_trans) (simp add: lifecycle_same)

lemma claim_effect:
  assumes "claimHostRecords h ps u db = (c, db')"
  obtains P where "sessions_t db' = map (\<lambda>r. if P r then r\<lparr>se_host := Some h\<rparr> else r) (sessions_t db)"
    "scope_t db' = scope_t db"
proof (cases "claim_ids h ps = []")
  case True
  with assms have "db' = db" by (simp add: claimHostRecords_def)
  then show ?thesis by (intro that [of "\<lambda>_. False"]) simp_all
next
  case False
  with assms show ?thesis
    by (intro that [of "claim_session_due (claim_ids h ps) (claim_owner u)"])
      (auto simp: claimHostRecords_def Let_def)
qed

lemma lifecycle_step: "session_step db db' \<Longrightarrow> lifecycle db db'"
proof (induction rule: session_step.induct)
  case (SCreate ulid now u inp pre db r db')
  then show ?case
    by (auto simp: createSession_def Let_def split: sum.splits dest!: insert_session_Inr
        intro!: lifecycle_audit lifecycle_append)
next
  case (SDraft ulid now nm u n ov db r db')
  then show ?case
    by (auto simp: createDraftSession_def Let_def split: sum.splits dest!: insert_session_Inr
        intro!: lifecycle_audit lifecycle_append)
next
  case (SDelete u i db db')
  then show ?case
    by (auto simp: deleteDraftSession_def split: option.splits if_splits dest: loadSession_self
        intro!: lifecycle_audit lifecycle_delete)
next
  case (SPrune ago ms db k db')
  then show ?case
    by (auto simp: pruneStaleDraftSessions_def Let_def intro!: lifecycle_delete)
next
  case (SRename u i nm db db')
  then show ?case
    by (auto simp: renameSession_def Let_def progressed_def split: if_splits option.splits
        intro!: lifecycle_audit lifecycle_update)
next
  case (STouch db now i)
  then show ?case by (auto simp: touchSession_def progressed_def intro!: lifecycle_update)
next
  case (SCli db i cli)
  then show ?case by (auto simp: setSessionCli_def progressed_def intro!: lifecycle_update)
next
  case (STransition now u i t db db')
  then show ?case by (rule lifecycle_transition)
next
  case (SCentral now i db b db')
  then show ?case
    by (auto simp: suspendRecordOnCentral_def split: option.splits if_splits sum.splits
        intro: lifecycle_transition)
next
  case (SArchive ago ms db k db')
  then show ?case
    by (intro lifecycle_map [where f = "archived_if_due (ago ms)"])
      (auto simp: autoArchiveClosedSessions_def Let_def progressed_def archived_if_due_def)
next
  case (SSuspend now u i inp db db')
  then show ?case
    by (auto simp: suspendSession_def progressed_def split: option.splits if_splits
        intro!: lifecycle_audit lifecycle_update)
next
  case (SUpsert now s n via reason db db')
  then show ?case by (auto simp: upsertSessionScopeRead_def split: if_splits intro!: lifecycle_same)
next
  case (SWritable db s n)
  then show ?case by (simp add: setSessionScopeWritable_def lifecycle_same)
next
  case (SClaim h ps u db c db')
  then obtain P where "sessions_t db' = map (\<lambda>r. if P r then r\<lparr>se_host := Some h\<rparr> else r) (sessions_t db)"
    by (rule claim_effect)
  then show ?case by (rule lifecycle_map) (simp_all add: progressed_def)
qed

interpretation sessions: run_relation session_step lifecycle
  by unfold_locales (auto intro: lifecycle_trans lifecycle_step)

section \<open>The table invariant\<close>

text \<open>Ids are unique, a row has a closing time exactly when it is closed or archived, and the
  persisted scope has one row per session and node.\<close>

definition closed_ok :: "session_row \<Rightarrow> bool" where
  "closed_ok r \<longleftrightarrow> (se_closed_at r \<noteq> None \<longleftrightarrow> se_state r = Closed \<or> se_state r = Archived)"

definition session_wf :: "session_db \<Rightarrow> bool" where
  "session_wf db \<longleftrightarrow>
     distinct (map se_id (sessions_t db)) \<and> list_all closed_ok (sessions_t db) \<and>
     distinct (map (\<lambda>r. (sr_session r, sr_node r)) (scope_t db))"

lemma wf_unique:
  "session_wf db \<Longrightarrow> loadSession db i = Some e \<Longrightarrow> r \<in> set (sessions_t db) \<Longrightarrow> se_id r = i \<Longrightarrow> r = e"
  using loadSession_id [of db i e] by (auto simp: session_wf_def distinct_map inj_on_def)

lemma wf_loadSession_closed: "session_wf db \<Longrightarrow> loadSession db i = Some e \<Longrightarrow> closed_ok e"
  by (auto simp: session_wf_def list_all_iff dest: loadSession_id)

lemma wf_map:
  assumes "session_wf db" and "sessions_t db' = map f (sessions_t db)" and "scope_t db' = scope_t db"
    and "\<And>r. se_id (f r) = se_id r"
    and "\<And>r. r \<in> set (sessions_t db) \<Longrightarrow> closed_ok r \<Longrightarrow> closed_ok (f r)"
  shows "session_wf db'"
proof -
  have "map se_id (sessions_t db') = map se_id (sessions_t db)" by (simp add: assms(2,4))
  with assms show ?thesis by (auto simp: session_wf_def list_all_iff simp del: map_map)
qed

lemma wf_update:
  assumes "session_wf db" and "\<And>r. se_id (f r) = se_id r"
    and "\<And>e. loadSession db i = Some e \<Longrightarrow> closed_ok e \<Longrightarrow> closed_ok (f e)"
  shows "session_wf (update_session i f db)"
proof (rule wf_map [where f = "\<lambda>r. if se_id r = i then f r else r", OF assms(1)])
  fix r assume r: "r \<in> set (sessions_t db)" "closed_ok r"
  show "closed_ok (if se_id r = i then f r else r)"
  proof (cases "se_id r = i")
    case True
    obtain e where e: "loadSession db i = Some e"
      using r(1) True by (cases "loadSession db i") (auto simp: loadSession_def find_None_iff)
    with wf_unique [OF assms(1) e r(1) True] r(2) True assms(3) [OF e] show ?thesis by simp
  qed (simp add: r(2))
qed (simp_all add: update_session_def assms(2))

lemma wf_audit: "session_wf db \<Longrightarrow> session_wf (audit_session u a i d db)"
  by (simp add: session_wf_def)

lemma wf_insert:
  "session_wf db \<Longrightarrow> insert_session r db = Inr db' \<Longrightarrow> closed_ok r \<Longrightarrow> session_wf db'"
  by (drule insert_session_Inr) (auto simp: session_wf_def loadSession_def find_None_iff list_all_iff)

lemma wf_delete: "session_wf db \<Longrightarrow> session_wf (delete_sessions P db)"
  by (auto simp: session_wf_def delete_sessions_def Let_def list_all_iff distinct_map_filter)

lemma wf_scope:
  "session_wf db \<Longrightarrow> sessions_t db' = sessions_t db \<Longrightarrow>
     map (\<lambda>r. (sr_session r, sr_node r)) (scope_t db') = map (\<lambda>r. (sr_session r, sr_node r)) (scope_t db) \<Longrightarrow>
     session_wf db'"
  by (simp add: session_wf_def)

lemma wf_upsert:
  assumes "session_wf db" and "upsertSessionScopeRead now s n via reason db = Inr db'"
  shows "session_wf db'"
proof (cases "find (scope_key s n) (scope_t db)")
  case None
  with assms show ?thesis
    by (auto simp: upsertSessionScopeRead_def session_wf_def find_None_iff scope_key_def split: if_splits)
next
  case (Some r)
  with assms(2) have db': "db' = db\<lparr>scope_t :=
      map (\<lambda>r. if scope_key s n r \<and> ADDED_VIA_RANK via > ADDED_VIA_RANK (sr_via r)
               then r\<lparr>sr_via := via, sr_reason := reason\<rparr> else r) (scope_t db)\<rparr>"
    by (simp add: upsertSessionScopeRead_def)
  show ?thesis by (rule wf_scope [OF assms(1)]) (auto simp: db')
qed

lemma wf_transition:
  assumes "session_wf db" and "transitionSessionState now u i t db = Inr db'"
  shows "session_wf db'"
  using assms(2)
proof (cases rule: transition_Inr)
  case 1
  with assms show ?thesis by simp
next
  case (2 e detail)
  have "session_wf (update_session i (\<lambda>r. r\<lparr>se_state := t, se_active_at := now,
      se_closed_at := (if t = Closed then Some now else if t = Running then None else se_closed_at e)\<rparr>) db)"
    using 2 by (intro wf_update assms(1)) (cases "se_state e"; auto simp: closed_ok_def)+
  with 2 show ?thesis by (simp add: wf_audit)
qed

lemma wf_claim:
  assumes wf: "session_wf db" and "claimHostRecords h ps u db = (c, db')"
  shows "session_wf db'"
proof -
  from assms(2) obtain P
    where s: "sessions_t db' = map (\<lambda>r. if P r then r\<lparr>se_host := Some h\<rparr> else r) (sessions_t db)"
      and sc: "scope_t db' = scope_t db"
    by (rule claim_effect)
  show ?thesis by (rule wf_map [OF wf s sc]) (simp_all add: closed_ok_def)
qed

lemma wf_step: "session_wf db \<Longrightarrow> session_step db db' \<Longrightarrow> session_wf db'"
proof (erule session_step.cases, goal_cases)
  case (1 ulid now u inp pre db1 r db2)
  then show ?case
    by (auto simp: createSession_def Let_def closed_ok_def session_of_input_def split: sum.splits
        intro!: wf_audit elim!: wf_insert)
next
  case (2 ulid now nm u n ov db1 r db2)
  then show ?case
    by (auto simp: createDraftSession_def Let_def closed_ok_def split: sum.splits
        intro!: wf_audit elim!: wf_insert)
next
  case (3 u i db1 db2)
  then show ?case
    by (auto simp: deleteDraftSession_def split: option.splits if_splits intro!: wf_audit wf_delete)
next
  case (4 ago ms db1 k db2)
  then show ?case by (auto simp: pruneStaleDraftSessions_def Let_def intro!: wf_delete)
next
  case (5 u i nm db1 db2)
  then show ?case
    by (auto simp: renameSession_def Let_def closed_ok_def split: if_splits option.splits
        intro!: wf_audit wf_update)
next
  case (6 db1 now i)
  then show ?case by (auto simp: touchSession_def closed_ok_def intro!: wf_update)
next
  case (7 db1 i cli)
  then show ?case by (auto simp: setSessionCli_def closed_ok_def intro!: wf_update)
next
  case (8 now u i t db1 db2)
  then show ?case by (simp add: wf_transition)
next
  case (9 now i db1 b db2)
  then show ?case
    by (auto simp: suspendRecordOnCentral_def split: option.splits if_splits sum.splits
        intro: wf_transition)
next
  case (10 ago ms db1 k db2)
  then show ?case
    by - (rule wf_map [where db = db and f = "archived_if_due (ago ms)"],
      auto simp: autoArchiveClosedSessions_def closed_ok_def archived_if_due_def)
next
  case (11 now u i inp db1 db2)
  then show ?case
    by (auto simp: suspendSession_def closed_ok_def split: option.splits if_splits
        intro!: wf_audit wf_update)
next
  case (12 now s n via reason db1 db2)
  then show ?case by (simp add: wf_upsert)
next
  case (13 db1 s n)
  then show ?case by (auto simp: setSessionScopeWritable_def intro!: wf_scope [where db = db])
next
  case (14 h ps u db1 c db2)
  then show ?case using wf_claim [of db h ps u c db'] by simp
qed

interpretation session_tables: invariant_system session_step session_wf
  by unfold_locales (rule wf_step)

end
