(* ===== verification/SessionPersistence.thy ===== *)
theory SessionPersistence
  imports Sessions
begin

text \<open>
  The link between a live scope and its rows, \<^verbatim>\<open>apps/server/mcp/session-persistence.ts\<close>, and
  the owner check of \<^verbatim>\<open>apps/server/auth/session-access.ts\<close>.  The deferred writes of a
  connection are applied in the order they are queued, after the call that queued them; a write
  that fails is dropped, as \<^verbatim>\<open>safe()\<close> does.  The two listeners a connection registers are one
  number here, and \<open>sync_call\<close> is what they do when called.
\<close>

section \<open>Mirroring a scope into its rows\<close>

definition classifyNode :: "session_scope \<Rightarrow> node_id \<Rightarrow> added_via \<times> string" where
  "classifyNode s i =
     (case find (\<lambda>r. i \<in> set (ex_node_ids r)) (rev (sc_history s)) of
        Some r \<Rightarrow> ((case ex_via r of Some v \<Rightarrow> v | None \<Rightarrow> ViaSeed), ex_reason r)
      | None \<Rightarrow> (ViaSeed, ''seed''))"

definition syncRead :: "iso \<Rightarrow> session_id \<Rightarrow> session_scope \<Rightarrow> node_id \<Rightarrow> session_db \<Rightarrow> session_db" where
  "syncRead now sid s i db =
     (case classifyNode s i of
        (via, reason) \<Rightarrow>
          (case upsertSessionScopeRead now sid i via (Some reason) db of
             Inl _ \<Rightarrow> db
           | Inr db' \<Rightarrow> db'))"

definition syncWritable :: "iso \<Rightarrow> session_id \<Rightarrow> session_scope \<Rightarrow> node_id \<Rightarrow> session_db \<Rightarrow> session_db" where
  "syncWritable now sid s i db =
     (case classifyNode s i of
        (via, reason) \<Rightarrow>
          (case upsertSessionScopeRead now sid i via (Some reason) db of
             Inl _ \<Rightarrow> db
           | Inr db' \<Rightarrow> setSessionScopeWritable sid i db'))"

definition home_ids :: "node_id option \<Rightarrow> node_id list" where
  "home_ids home = (case home of None \<Rightarrow> [] | Some h \<Rightarrow> (if h = [] then [] else [h]))"

definition wireOngoingSync ::
  "iso \<Rightarrow> nat \<Rightarrow> session_id \<Rightarrow> node_id option \<Rightarrow> session_scope \<times> session_db \<Rightarrow> session_scope \<times> session_db" where
  "wireOngoingSync now listener sid home st =
     (let s = onWritable listener (onAdd listener (fst st));
          db1 = fold (syncRead now sid s) (sc_nodes s) (snd st);
          db2 = fold (syncWritable now sid s) (sc_write s) db1;
          db3 = fold (syncWritable now sid s) (home_ids home) db2
      in (s, db3))"

text \<open>The listeners: a new node is mirrored and bumps the session, a new grant is mirrored.\<close>

fun sync_call :: "iso \<Rightarrow> session_id \<Rightarrow> session_scope \<Rightarrow> listener_call \<Rightarrow> session_db \<Rightarrow> session_db" where
  "sync_call now sid s (AddCall l i) db = syncRead now sid s i (touchSession now sid db)"
| "sync_call now sid s (WritableCall l i) db = syncWritable now sid s i db"

section \<open>Binding a connection to a row\<close>

definition bindSessionPersistence ::
  "string \<Rightarrow> iso \<Rightarrow> nat \<Rightarrow> user_id \<Rightarrow> node_id option option \<Rightarrow> session_id option \<Rightarrow> string option \<Rightarrow>
     session_scope \<times> session_db \<Rightarrow> session_scope \<times> session_db" where
  "bindSessionPersistence ulid now listener user homeArg spawnId cli st =
     (let home = (case homeArg of Some h \<Rightarrow> h | None \<Rightarrow> sc_home (fst st))
      in case createSession ulid now user
                \<lparr>ci_node = home, ci_type = sc_type (fst st), ci_cli = cli, ci_instance = None,
                 ci_agent_session = None, ci_terminal = None, ci_runner = None, ci_host = None,
                 ci_model = None, ci_effort = None\<rparr> spawnId (snd st) of
           Inl _ \<Rightarrow> st
         | Inr (row, db) \<Rightarrow>
             wireOngoingSync now listener (se_id row) home ((fst st)\<lparr>sc_session_id := Some (se_id row)\<rparr>, db))"

text \<open>The loop that puts the accumulated rows back into a scope, and its one history entry.\<close>

definition add_scope_row :: "scope_row \<Rightarrow> session_scope \<Rightarrow> session_scope" where
  "add_scope_row r s =
     (let s1 = scope_add (sr_node r) s
      in if sr_writable r then scope_addWritable (sr_node r) s1 else s1)"

definition rehydrate :: "timestamp \<Rightarrow> string \<Rightarrow> scope_row list \<Rightarrow> session_scope \<Rightarrow> session_scope" where
  "rehydrate at reason rows s =
     (let s1 = fold add_scope_row rows s
      in if length rows > 0
         then recordExpansion \<lparr>ex_at = at, ex_node_ids = map sr_node rows, ex_reason = reason,
                               ex_trigger = TrigInit, ex_via = None\<rparr> s1
         else s1)"

definition resumeSessionPersistence ::
  "timestamp \<Rightarrow> iso \<Rightarrow> nat \<Rightarrow> user_id \<Rightarrow> session_id \<Rightarrow> node_id option \<Rightarrow> session_scope \<times> session_db \<Rightarrow>
     string + (session_id option \<times> session_scope \<times> session_db)" where
  "resumeSessionPersistence at now listener user resumeId home st =
     (case home of
        None \<Rightarrow> Inr (None, st)
      | Some h \<Rightarrow>
          if h = [] then Inr (None, st)
          else (case loadResumableSession (snd st) user h resumeId of
                  None \<Rightarrow> Inr (None, st)
                | Some resumable \<Rightarrow>
                    (case transitionSessionState now user (se_id resumable) Running (snd st) of
                       Inl e \<Rightarrow> Inl e
                     | Inr db \<Rightarrow>
                         (let s = (fst st)\<lparr>sc_session_id := Some (se_id resumable), sc_home := Some h\<rparr>;
                              s1 = rehydrate at ''session resumed: rehydrated from persisted session_scope''
                                     (getSessionScope db (se_id resumable)) s
                          in Inr (Some (se_id resumable),
                                  wireOngoingSync now listener (se_id resumable) home (s1, db))))))"

definition bindExistingSessionPersistence ::
  "timestamp \<Rightarrow> iso \<Rightarrow> nat \<Rightarrow> session_row \<Rightarrow> session_scope \<times> session_db \<Rightarrow> session_scope \<times> session_db" where
  "bindExistingSessionPersistence at now listener row st =
     (let s = (fst st)\<lparr>sc_session_id := Some (se_id row), sc_home := se_node row\<rparr>;
          s1 = rehydrate at ''session bound: rehydrated from persisted session_scope''
                 (getSessionScope (snd st) (se_id row)) s
      in wireOngoingSync now listener (se_id row) (se_node row) (s1, snd st))"

definition bindExistingSessionHandshake ::
  "iso \<Rightarrow> session_id \<Rightarrow> string option \<Rightarrow> session_db \<Rightarrow> session_db" where
  "bindExistingSessionHandshake now sid cli db =
     (let db1 = touchSession now sid db
      in case cli of None \<Rightarrow> db1 | Some c \<Rightarrow> (if c = [] then db1 else setSessionCli sid c db1))"

datatype spawn_lookup = SpawnNotFound | SpawnRefused | SpawnBindable session_row

definition lookupSpawnSessionForBind :: "session_db \<Rightarrow> user_id \<Rightarrow> session_id \<Rightarrow> spawn_lookup" where
  "lookupSpawnSessionForBind db user sid =
     (case getSession db sid of
        None \<Rightarrow> SpawnNotFound
      | Some row \<Rightarrow>
          if se_state row \<noteq> Running \<or> se_user row \<noteq> user then SpawnRefused else SpawnBindable row)"

definition rehydrateConnectorWriteGrants ::
  "timestamp \<Rightarrow> group_identity \<Rightarrow> session_scope \<times> session_db \<Rightarrow> node_id list \<times> session_scope" where
  "rehydrateConnectorWriteGrants at identity st =
     (let s = fst st; db = snd st
      in if sc_type s \<noteq> InteractiveChat then ([], s)
         else (let created = listConnectorCreatedWritableNodes db (gi_user identity)
               in if length created = 0 then ([], s)
                  else (let visible = filterVisibleNodeIds (sd_graph db) identity created;
                            granted = filter (\<lambda>i. i \<in> visible) created;
                            s1 = fold scope_addWritable granted s
                        in (granted,
                            if length granted > 0
                            then recordExpansion \<lparr>ex_at = at, ex_node_ids = granted,
                                   ex_reason = ''created by an earlier connector session of this user (rehydrated write grant)'',
                                   ex_trigger = TrigInit, ex_via = Some ViaCreated\<rparr> s1
                            else s1))))"

section \<open>The owner check\<close>

datatype session_access_error = SESSION_NOT_FOUND string

definition sessionAccess ::
  "session_db \<Rightarrow> user_id \<Rightarrow> session_id \<Rightarrow> session_access_error + session_row" where
  "sessionAccess db user sid =
     (case getSession db sid of
        None \<Rightarrow> Inl (SESSION_NOT_FOUND (''session '' @ sid @ '' not found''))
      | Some row \<Rightarrow>
          if se_user row \<noteq> user then Inl (SESSION_NOT_FOUND (''session '' @ sid @ '' not found''))
          else Inr row)"

section \<open>The rows a scope leaves behind\<close>

definition read_rows :: "session_db \<Rightarrow> session_id \<Rightarrow> node_id set" where
  "read_rows db sid = set (map sr_node (filter (\<lambda>r. sr_session r = sid) (scope_t db)))"

definition write_rows :: "session_db \<Rightarrow> session_id \<Rightarrow> node_id set" where
  "write_rows db sid = set (map sr_node (filter (\<lambda>r. sr_session r = sid \<and> sr_writable r) (scope_t db)))"

text \<open>The references a scope row needs: its session, and the nodes mirrored.\<close>

definition has_refs :: "session_db \<Rightarrow> session_id \<Rightarrow> node_id set \<Rightarrow> bool" where
  "has_refs db sid ids \<longleftrightarrow>
     loadSession db sid \<noteq> None \<and> (\<forall>i \<in> ids. node_by_id (sd_graph db) i \<noteq> None)"

lemma map_filter_keep:
  assumes "\<And>r. g (f r) = g r" and "\<And>r. P (f r) = P r"
  shows "map g (filter P (map f xs)) = map g (filter P xs)"
  using assms by (simp add: filter_map o_def)

lemma upsert_rows:
  assumes "has_refs db sid {i}"
  obtains db' where "upsertSessionScopeRead now sid i via reason db = Inr db'"
    "read_rows db' sid = insert i (read_rows db sid)" "write_rows db' sid = write_rows db sid"
    "sd_graph db' = sd_graph db" "sessions_t db' = sessions_t db"
    "find (scope_key sid i) (scope_t db') \<noteq> None"
proof (cases "find (scope_key sid i) (scope_t db)")
  case None
  with assms show ?thesis
    by (intro that [of "db\<lparr>scope_t := scope_t db @ [\<lparr>sr_session = sid, sr_node = i, sr_via = via,
          sr_reason = reason, sr_writable = False, sr_added_at = now\<rparr>]\<rparr>"])
      (simp_all add: upsertSessionScopeRead_def has_refs_def read_rows_def write_rows_def
        find_append scope_key_def)
next
  case (Some r)
  let ?f = "\<lambda>r. if scope_key sid i r \<and> ADDED_VIA_RANK via > ADDED_VIA_RANK (sr_via r)
                then r\<lparr>sr_via := via, sr_reason := reason\<rparr> else r"
  have keep: "sr_node (?f r) = sr_node r" "sr_session (?f r) = sr_session r"
    "sr_writable (?f r) = sr_writable r" "scope_key sid i (?f r) = scope_key sid i r" for r
    by (simp_all add: scope_key_def)
  let ?db' = "db\<lparr>scope_t := map ?f (scope_t db)\<rparr>"
  have up: "upsertSessionScopeRead now sid i via reason db = Inr ?db'"
    using Some by (simp add: upsertSessionScopeRead_def)
  have rows: "read_rows ?db' sid = read_rows db sid"
    using map_filter_keep [of sr_node ?f "\<lambda>r. sr_session r = sid" "scope_t db"]
    by (simp add: read_rows_def keep del: map_map)
  have wrows: "write_rows ?db' sid = write_rows db sid"
    using map_filter_keep [of sr_node ?f "\<lambda>r. sr_session r = sid \<and> sr_writable r" "scope_t db"]
    by (simp add: write_rows_def keep del: map_map)
  have "i \<in> read_rows db sid"
    using find_SomeD [OF Some] by (auto simp: read_rows_def scope_key_def)
  then have rrows: "read_rows ?db' sid = insert i (read_rows db sid)" by (simp only: rows insert_absorb)
  have there: "find (scope_key sid i) (scope_t ?db') \<noteq> None"
    using find_map_keep [of "scope_key sid i" ?f "scope_t db", OF keep(4)] Some by simp
  have frame: "sd_graph ?db' = sd_graph db" "sessions_t ?db' = sessions_t db" by simp_all
  show ?thesis by (rule that [OF up rrows wrows frame there])
qed

lemma setWritable_rows:
  "read_rows (setSessionScopeWritable sid i db) sid = read_rows db sid"
  "write_rows (setSessionScopeWritable sid i db) sid =
     (if i \<in> read_rows db sid then insert i (write_rows db sid) else write_rows db sid)"
  "sd_graph (setSessionScopeWritable sid i db) = sd_graph db"
  "sessions_t (setSessionScopeWritable sid i db) = sessions_t db"
proof -
  let ?f = "\<lambda>r. if scope_key sid i r then r\<lparr>sr_writable := True\<rparr> else r"
  have keep: "sr_node (?f r) = sr_node r" "sr_session (?f r) = sr_session r"
    "sr_writable (?f r) = (scope_key sid i r \<or> sr_writable r)" for r
    by simp_all
  have sc: "scope_t (setSessionScopeWritable sid i db) = map ?f (scope_t db)"
    by (simp add: setSessionScopeWritable_def)
  show "read_rows (setSessionScopeWritable sid i db) sid = read_rows db sid"
    using map_filter_keep [of sr_node ?f "\<lambda>r. sr_session r = sid" "scope_t db"]
    by (simp add: read_rows_def setSessionScopeWritable_def keep del: map_map)
  have "write_rows (setSessionScopeWritable sid i db) sid =
      sr_node ` {r \<in> set (scope_t db). sr_session r = sid \<and> (scope_key sid i r \<or> sr_writable r)}"
    unfolding write_rows_def sc filter_map map_map o_def keep set_map set_filter ..
  also have "\<dots> = sr_node ` {r \<in> set (scope_t db). sr_session r = sid \<and> sr_node r = i} \<union> write_rows db sid"
    unfolding write_rows_def scope_key_def by auto
  also have "sr_node ` {r \<in> set (scope_t db). sr_session r = sid \<and> sr_node r = i} =
      (if i \<in> read_rows db sid then {i} else {})"
    by (auto simp: read_rows_def)
  finally show "write_rows (setSessionScopeWritable sid i db) sid =
      (if i \<in> read_rows db sid then insert i (write_rows db sid) else write_rows db sid)"
    by simp
qed (simp_all add: setSessionScopeWritable_def)

text \<open>One mirrored node: the rows it adds, and what it leaves alone.\<close>

definition mirrored ::
  "session_db \<Rightarrow> session_id \<Rightarrow> node_id set \<Rightarrow> node_id set \<Rightarrow> session_db \<Rightarrow> bool" where
  "mirrored db sid R W db' \<longleftrightarrow>
     read_rows db' sid = R \<union> read_rows db sid \<and> write_rows db' sid = W \<union> write_rows db sid \<and>
     sd_graph db' = sd_graph db \<and> sessions_t db' = sessions_t db"

lemma mirrored_refs: "mirrored db sid R W db' \<Longrightarrow> has_refs db' sid ids = has_refs db sid ids"
  by (simp add: mirrored_def has_refs_def loadSession_def)

lemma mirrored_refsI: "mirrored db sid R W db' \<Longrightarrow> has_refs db sid ids \<Longrightarrow> has_refs db' sid ids"
  by (simp add: mirrored_refs)

lemma mirrored_refl: "mirrored db sid {} {} db"
  by (simp add: mirrored_def)

lemma mirrored_trans:
  "mirrored a sid R W b \<Longrightarrow> mirrored b sid R' W' c \<Longrightarrow> mirrored a sid (R \<union> R') (W \<union> W') c"
  by (auto simp: mirrored_def)

lemma syncRead_mirrored: "has_refs db sid {i} \<Longrightarrow> mirrored db sid {i} {} (syncRead now sid s i db)"
  by (cases "classifyNode s i")
    (rule upsert_rows [of db sid i now "fst (classifyNode s i)" "Some (snd (classifyNode s i))"],
      simp_all add: syncRead_def mirrored_def)

lemma syncWritable_mirrored:
  "has_refs db sid {i} \<Longrightarrow> mirrored db sid {i} {i} (syncWritable now sid s i db)"
  by (cases "classifyNode s i")
    (rule upsert_rows [of db sid i now "fst (classifyNode s i)" "Some (snd (classifyNode s i))"],
      simp_all add: syncWritable_def mirrored_def setWritable_rows)

lemma fold_syncRead:
  "has_refs db sid (set is) \<Longrightarrow> mirrored db sid (set is) {} (fold (syncRead now sid s) is db)"
proof (induction "is" arbitrary: db)
  case Nil
  then show ?case by (simp add: mirrored_refl)
next
  case (Cons i "is")
  then have step: "mirrored db sid {i} {} (syncRead now sid s i db)"
    by (intro syncRead_mirrored) (simp add: has_refs_def)
  with Cons.prems have "has_refs (syncRead now sid s i db) sid (set is)"
    by (simp add: mirrored_refs) (simp add: has_refs_def)
  from mirrored_trans [OF step Cons.IH [OF this]] show ?case by simp
qed

lemma fold_syncWritable:
  "has_refs db sid (set is) \<Longrightarrow> mirrored db sid (set is) (set is) (fold (syncWritable now sid s) is db)"
proof (induction "is" arbitrary: db)
  case Nil
  then show ?case by (simp add: mirrored_refl)
next
  case (Cons i "is")
  then have step: "mirrored db sid {i} {i} (syncWritable now sid s i db)"
    by (intro syncWritable_mirrored) (simp add: has_refs_def)
  with Cons.prems have "has_refs (syncWritable now sid s i db) sid (set is)"
    by (simp add: mirrored_refs) (simp add: has_refs_def)
  from mirrored_trans [OF step Cons.IH [OF this]] show ?case by simp
qed

lemma has_refs_Un: "has_refs db sid (A \<union> B) \<longleftrightarrow> has_refs db sid A \<and> has_refs db sid B"
  by (auto simp: has_refs_def)

lemma listeners_simps [simp]:
  "sc_nodes (onWritable l (onAdd l s)) = sc_nodes s"
  "sc_write (onWritable l (onAdd l s)) = sc_write s"
  "sc_home (onWritable l (onAdd l s)) = sc_home s"
  "sc_session_id (onWritable l (onAdd l s)) = sc_session_id s"
  "sc_type (onWritable l (onAdd l s)) = sc_type s"
  by (simp_all add: onWritable_def onAdd_def)

lemma wireOngoingSync_mirrored:
  assumes "has_refs db sid (set (sc_nodes s) \<union> set (sc_write s) \<union> set (home_ids home))"
  shows "mirrored db sid (set (sc_nodes s) \<union> set (sc_write s) \<union> set (home_ids home))
           (set (sc_write s) \<union> set (home_ids home)) (snd (wireOngoingSync now l sid home (s, db)))"
proof -
  let ?s = "onWritable l (onAdd l s)"
  let ?db1 = "fold (syncRead now sid ?s) (sc_nodes ?s) db"
  let ?db2 = "fold (syncWritable now sid ?s) (sc_write ?s) ?db1"
  have m1: "mirrored db sid (set (sc_nodes s)) {} ?db1"
    using fold_syncRead [of db sid "sc_nodes ?s" now ?s] assms by (simp add: has_refs_Un)
  have m2: "mirrored ?db1 sid (set (sc_write s)) (set (sc_write s)) ?db2"
    using fold_syncWritable [of ?db1 sid "sc_write ?s" now ?s] mirrored_refsI [OF m1] assms
    by (simp only: has_refs_Un listeners_simps)
  note m12 = mirrored_trans [OF m1 m2]
  have m3: "mirrored ?db2 sid (set (home_ids home)) (set (home_ids home))
      (fold (syncWritable now sid ?s) (home_ids home) ?db2)"
    using fold_syncWritable [of ?db2 sid "home_ids home" now ?s] mirrored_refsI [OF m12] assms
    by (simp only: has_refs_Un)
  from mirrored_trans [OF m12 m3] show ?thesis
    by (simp add: wireOngoingSync_def Let_def)
qed

section \<open>The scope the rows give back\<close>

lemma add_scope_row_sets:
  "set (sc_nodes (add_scope_row r s)) = insert (sr_node r) (set (sc_nodes s))"
  "set (sc_write (add_scope_row r s)) =
     (if sr_writable r then insert (sr_node r) (set (sc_write s)) else set (sc_write s))"
  by (simp_all add: add_scope_row_def Let_def)

lemma fold_add_scope_row:
  "set (sc_nodes (fold add_scope_row rows s)) = sr_node ` set rows \<union> set (sc_nodes s)"
  "set (sc_write (fold add_scope_row rows s)) =
     sr_node ` {r \<in> set rows. sr_writable r} \<union> set (sc_write s)"
  by (induction rows arbitrary: s) (auto simp: add_scope_row_sets)

lemma rehydrate_sets:
  "set (sc_nodes (rehydrate at reason (getSessionScope db sid) s)) = read_rows db sid \<union> set (sc_nodes s)"
  "set (sc_write (rehydrate at reason (getSessionScope db sid) s)) = write_rows db sid \<union> set (sc_write s)"
  by (auto simp: rehydrate_def Let_def fold_add_scope_row getSessionScope_def read_rows_def write_rows_def
      filter_empty_conv)

lemma fold_add_scope_row_frame [simp]:
  "sc_home (fold add_scope_row rows s) = sc_home s"
  "sc_session_id (fold add_scope_row rows s) = sc_session_id s"
  "sc_type (fold add_scope_row rows s) = sc_type s"
  by (induction rows arbitrary: s)
    (simp_all add: add_scope_row_def Let_def scope_add_def add_node_def scope_addWritable_def addWritable_def)

lemma rehydrate_frame:
  "sc_home (rehydrate at reason rows s) = sc_home s"
  "sc_session_id (rehydrate at reason rows s) = sc_session_id s"
  "sc_type (rehydrate at reason rows s) = sc_type s"
  by (simp_all add: rehydrate_def Let_def recordExpansion_def)

end
