(* ===== verification/SessionSamples.thy ===== *)
theory SessionSamples
  imports SessionPersistence
begin

text \<open>A concrete store with one session, at which the witnesses of the session and gate components
  apply their properties.\<close>

section \<open>A sample store\<close>

definition sample_sid :: session_id where "sample_sid = ''01ARZ3NDEKTSV4RRFFQ69G5FAV''"

definition sample_session :: "session_state \<Rightarrow> session_type \<Rightarrow> session_row" where
  "sample_session st ty =
     \<lparr>se_id = sample_sid, se_node = Some ''org'', se_user = ''ann'', se_type = ty, se_cli = None,
      se_instance = None, se_agent_session = None, se_terminal = None, se_runner = None,
      se_host = Some ''old'', se_waiting_since = None, se_state = st, se_handoff_path = None,
      se_handoff_hash = None, se_name = ''n'', se_custom_name = False, se_model = None, se_effort = None,
      se_context_used = None, se_context_max = None,
      se_created_at = ''2026-01-01'', se_active_at = ''2026-01-01'', se_closed_at = None\<rparr>"

definition sample_sdb :: "session_state \<Rightarrow> session_type \<Rightarrow> session_db" where
  "sample_sdb st ty =
     \<lparr>sd_graph = sample_db, sessions_t = [sample_session st ty], scope_t = [], runs_t = []\<rparr>"

lemma sample_sdb_load [simp]: "loadSession (sample_sdb st ty) sample_sid = Some (sample_session st ty)"
  by (simp add: loadSession_def sample_sdb_def sample_session_def)

lemma sample_session_sel [simp]:
  "se_state (sample_session st ty) = st" "se_user (sample_session st ty) = ''ann''"
  "se_id (sample_session st ty) = sample_sid" "se_node (sample_session st ty) = Some ''org''"
  by (simp_all add: sample_session_def)

end
