(* ===== verification/WriteGate.thy ===== *)
theory WriteGate
  imports SessionSamples
begin

text \<open>
  The write gate: the domain rule (\<^verbatim>\<open>apps/server/domain/write-gate.ts\<close>), its MCP wrapper with
  the confirmation dialog (\<^verbatim>\<open>apps/server/mcp/write-gate.ts\<close>) and its REST wrapper, which first
  decides which write context a request has (\<^verbatim>\<open>apps/server/api/write-gate.ts\<close>).  A request is
  the two headers the gate reads; the process environment's secret is an argument.
\<close>

section \<open>The domain rule\<close>

record write_context =
  wc_type :: session_type
  wc_home :: "node_id option"
  wc_writable :: "node_id set"

definition WRITE_SCOPE_WHY :: string where
  "WRITE_SCOPE_WHY = ''It is outside this session's write scope.''"

datatype write_outcome = WAllow | WElicit string | WRefused string

definition guardWrite :: "write_context \<Rightarrow> node_id \<Rightarrow> write_outcome" where
  "guardWrite ctx i =
     (if wc_type ctx = EnvSession then WAllow
      else if Some i = wc_home ctx \<or> i \<in> wc_writable ctx then WAllow
      else if wc_type ctx = Headless
      then WRefused
        (''Node '' @ i @ '' is outside this headless session's write scope (home node only). '' @
         ''Headless sessions cannot expand their write set mid-run -- this write cannot proceed.'')
      else WElicit
        (''Node '' @ i @ '' is outside this session's write scope. Ask the user to confirm this '' @
         ''write, then call portuni_expand_scope with node_ids: ['' @ quoted i @ ''], writable: true, '' @
         ''reason 'user-confirmed-in-chat'.''))"

definition noElicitationWriteHint :: "node_id \<Rightarrow> string" where
  "noElicitationWriteHint i =
     ''Node '' @ i @ '' is outside this session's write scope, and this client does not support '' @
     ''MCP elicitation dialogs, so write access cannot be granted from this session -- do NOT call '' @
     ''portuni_expand_scope with writable: true, it will be refused for the same reason. '' @
     ''Either continue from a client with confirmation dialogs (Claude Code, the Portuni desktop app) '' @
     ''or, for new work, create the node from this chat: nodes created by a connector session stay '' @
     ''writable in this user's later connector sessions.''"

definition timedOutWriteHint :: "node_id \<Rightarrow> string" where
  "timedOutWriteHint i =
     ''The confirmation dialog for write access to node '' @ i @ '' was not answered in time, so the '' @
     ''write did not happen. Nothing was changed. Ask the user in chat, then either retry the tool '' @
     ''(a new dialog is shown) or call portuni_expand_scope with node_ids: ['' @ quoted i @ ''], '' @
     ''writable: true, reason 'user-confirmed-in-chat'.''"

record write_error =
  we_error :: string
  we_node :: node_id
  we_hint :: string
  we_no_elicitation :: bool      \<comment> \<open>elicitation\_supported: false present\<close>
  we_timed_out :: bool           \<comment> \<open>dialog\_timed\_out: true present\<close>

text \<open>The kind is \<open>True\<close> for "refused"; an option left out is \<open>None\<close> or \<open>False\<close>.\<close>

definition writeGuardError ::
  "node_id \<Rightarrow> bool \<Rightarrow> string \<Rightarrow> bool option \<Rightarrow> bool \<Rightarrow> write_error" where
  "writeGuardError i refused hint elicitationSupported dialogTimedOut =
     (let hintText = (if elicitationSupported = Some False then noElicitationWriteHint i
                      else if dialogTimedOut then timedOutWriteHint i
                      else hint)
      in \<lparr>we_error = (if refused then ''write_refused'' else ''write_expansion_required''),
          we_node = i, we_hint = hintText,
          we_no_elicitation = (elicitationSupported = Some False),
          we_timed_out = dialogTimedOut\<rparr>)"

section \<open>The MCP wrapper\<close>

definition writeContextFromScope :: "session_scope \<Rightarrow> write_context" where
  "writeContextFromScope s =
     \<lparr>wc_type = sc_type s, wc_home = sc_home s, wc_writable = set (sc_write s)\<rparr>"

text \<open>\<open>None\<close> for a process with no graph database: the lookup throws and the prompt has the bare id.\<close>

definition nodeIdentity :: "graph_db option \<Rightarrow> node_id \<Rightarrow> string option \<times> string option" where
  "nodeIdentity db i =
     (case db of
        None \<Rightarrow> (None, None)
      | Some d \<Rightarrow> (ns_name (loadNodeScopeMeta d i), ns_type (loadNodeScopeMeta d i)))"

definition write_prompt :: "graph_db option \<Rightarrow> node_id \<Rightarrow> string" where
  "write_prompt db i =
     nodeConsentPrompt ''write to'' i (fst (nodeIdentity db i)) (snd (nodeIdentity db i)) WRITE_SCOPE_WHY"

definition guardNodeWrite ::
  "graph_db option \<Rightarrow> (string \<Rightarrow> elicit_outcome) option \<Rightarrow> node_id \<Rightarrow> session_scope \<Rightarrow>
     write_error option \<times> session_scope" where
  "guardNodeWrite db elicitor i s =
     (case guardWrite (writeContextFromScope s) i of
        WAllow \<Rightarrow> (None, s)
      | WRefused hint \<Rightarrow> (Some (writeGuardError i True hint None False), s)
      | WElicit hint \<Rightarrow>
          (case elicitor of
             None \<Rightarrow> (Some (writeGuardError i False hint None False), s)
           | Some confirm \<Rightarrow>
               (let outcome = confirm (write_prompt db i)
                in if outcome = EAccept then (None, scope_addWritable i s)
                   else (Some (writeGuardError i False hint (Some (outcome \<noteq> EUnsupported))
                                 (outcome = ETimeout)), s))))"

section \<open>The write context of a REST request\<close>

record rest_request =
  rq_spawn_id :: header
  rq_webview_proxy :: header

record request_identity =
  ri_user :: user_id
  ri_via :: via
  ri_headless :: bool

definition spawnSessionIdFromRequest :: "rest_request \<Rightarrow> session_id option" where
  "spawnSessionIdFromRequest rq = trimmed_header (rq_spawn_id rq)"

definition webviewProxySecretFromRequest :: "rest_request \<Rightarrow> string" where
  "webviewProxySecretFromRequest rq =
     (case header_value (rq_webview_proxy rq) of None \<Rightarrow> [] | Some s \<Rightarrow> js_trim s)"

definition configuredWebviewProxySecret :: "string option \<Rightarrow> string" where
  "configuredWebviewProxySecret env = js_trim (case env of None \<Rightarrow> [] | Some s \<Rightarrow> s)"

definition timingSafeStringEqual :: "string \<Rightarrow> string \<Rightarrow> bool" where
  "timingSafeStringEqual a b \<longleftrightarrow> length a = length b \<and> a = b"

definition webviewProxyProven :: "rest_request \<Rightarrow> string \<Rightarrow> bool" where
  "webviewProxyProven rq configured = timingSafeStringEqual (webviewProxySecretFromRequest rq) configured"

definition bare_context :: "session_type \<Rightarrow> write_context" where
  "bare_context t = \<lparr>wc_type = t, wc_home = None, wc_writable = {}\<rparr>"

text \<open>The session a spawn id names, when it is the caller's own and running.\<close>

definition resolvable_spawn :: "session_db \<Rightarrow> user_id \<Rightarrow> session_id \<Rightarrow> session_row option" where
  "resolvable_spawn db user sid =
     (case getSession db sid of
        None \<Rightarrow> None
      | Some row \<Rightarrow> (if se_user row = user \<and> se_state row = Running then Some row else None))"

definition context_without_spawn :: "string \<Rightarrow> rest_request \<Rightarrow> request_identity \<Rightarrow> write_context" where
  "context_without_spawn secret rq ident =
     (if ri_via ident = ViaSessionJwt then bare_context EnvSession
      else if ri_via ident = ViaEnv
      then (if secret = [] \<or> webviewProxyProven rq secret then bare_context EnvSession
            else bare_context Headless)
      else if ri_headless ident then bare_context Headless
      else bare_context InteractiveTask)"

definition resolveRestWriteContext ::
  "session_db \<Rightarrow> string option \<Rightarrow> rest_request \<Rightarrow> request_identity \<Rightarrow> write_context" where
  "resolveRestWriteContext db env rq ident =
     (if ri_via ident = ViaOauthGrant then bare_context InteractiveChat
      else (let secret = configuredWebviewProxySecret env
            in case spawnSessionIdFromRequest rq of
                 None \<Rightarrow> context_without_spawn secret rq ident
               | Some sid \<Rightarrow>
                   (case resolvable_spawn db (ri_user ident) sid of
                      Some row \<Rightarrow>
                        \<lparr>wc_type = InteractiveTask, wc_home = se_node row,
                         wc_writable = set (map sr_node (filter sr_writable (getSessionScope db sid)))\<rparr>
                    | None \<Rightarrow>
                        (if ri_via ident = ViaEnv \<and> secret \<noteq> [] then bare_context Headless
                         else context_without_spawn secret rq ident))))"

section \<open>The REST gates\<close>

record api_error =
  ae_status :: nat
  ae_code :: string
  ae_error :: string
  ae_node :: "node_id option"
  ae_detail :: "write_error option"

definition webviewMutationAllowed :: "string option \<Rightarrow> rest_request \<Rightarrow> request_identity \<Rightarrow> bool" where
  "webviewMutationAllowed env rq ident =
     (let secret = configuredWebviewProxySecret env
      in if secret = [] then True else ri_via ident = ViaEnv \<and> webviewProxyProven rq secret)"

definition guardRestSessionWrite :: "string option \<Rightarrow> rest_request \<Rightarrow> request_identity \<Rightarrow> api_error option" where
  "guardRestSessionWrite env rq ident =
     (if webviewMutationAllowed env rq ident then None
      else Some \<lparr>ae_status = 403, ae_code = ''WEBVIEW_PROXY_REQUIRED'',
             ae_error = ''session actions over REST are reserved for the desktop app; drive a session through the Portuni MCP tools from a terminal'',
             ae_node = None, ae_detail = None\<rparr>)"

definition respondWriteGuardError :: "write_error \<Rightarrow> api_error" where
  "respondWriteGuardError p =
     \<lparr>ae_status = 403,
      ae_code = (if we_error p = ''write_refused'' then ''WRITE_REFUSED'' else ''WRITE_EXPANSION_REQUIRED''),
      ae_error = we_error p, ae_node = Some (we_node p), ae_detail = Some p\<rparr>"

definition guardAgentRestWrite ::
  "string option \<Rightarrow> rest_request \<Rightarrow> request_identity \<Rightarrow> node_id \<Rightarrow> api_error option" where
  "guardAgentRestWrite env rq ident i =
     (if webviewMutationAllowed env rq ident then None
      else Some (respondWriteGuardError (writeGuardError i True
             ''REST writes on the sync agent are reserved for the desktop app; mutate through the Portuni MCP tools from a terminal.''
             None False)))"

definition guardRestNodeWrite ::
  "session_db \<Rightarrow> string option \<Rightarrow> rest_request \<Rightarrow> request_identity \<Rightarrow> node_id \<Rightarrow> api_error option" where
  "guardRestNodeWrite db env rq ident i =
     (case guardWrite (resolveRestWriteContext db env rq ident) i of
        WAllow \<Rightarrow> None
      | WElicit hint \<Rightarrow> Some (respondWriteGuardError (writeGuardError i False hint None False))
      | WRefused hint \<Rightarrow> Some (respondWriteGuardError (writeGuardError i True hint None False)))"

definition guardFileWrite ::
  "session_db \<Rightarrow> string option \<Rightarrow> rest_request \<Rightarrow> request_identity \<Rightarrow> node_id \<Rightarrow> api_error option" where
  "guardFileWrite db env rq ident i =
     (if ri_via ident = ViaDeviceToken \<and> \<not> ri_headless ident \<and> spawnSessionIdFromRequest rq = None then None
      else guardRestNodeWrite db env rq ident i)"

definition filterRestWritableNodeIds ::
  "session_db \<Rightarrow> string option \<Rightarrow> rest_request \<Rightarrow> request_identity \<Rightarrow> node_id list \<Rightarrow> node_id set" where
  "filterRestWritableNodeIds db env rq ident ids =
     (let ctx = resolveRestWriteContext db env rq ident
      in set (filter (\<lambda>i. guardWrite ctx i = WAllow) ids))"

section \<open>What the gates let through\<close>

lemma guardWrite_allow [guard_simps]:
  "guardWrite ctx i = WAllow \<longleftrightarrow>
     wc_type ctx = EnvSession \<or> Some i = wc_home ctx \<or> i \<in> wc_writable ctx"
  by (simp add: guardWrite_def)

lemma guardWrite_cases:
  "(case guardWrite ctx i of WAllow \<Rightarrow> a | WElicit h \<Rightarrow> e h | WRefused h \<Rightarrow> r h) =
     (if wc_type ctx = EnvSession \<or> Some i = wc_home ctx \<or> i \<in> wc_writable ctx then a
      else if wc_type ctx = Headless
      then r (case guardWrite ctx i of WRefused h \<Rightarrow> h | _ \<Rightarrow> [])
      else e (case guardWrite ctx i of WElicit h \<Rightarrow> h | _ \<Rightarrow> []))"
  by (auto simp: guardWrite_def)

lemma guardRestNodeWrite_iff:
  "guardRestNodeWrite db env rq ident i = None \<longleftrightarrow>
     guardWrite (resolveRestWriteContext db env rq ident) i = WAllow"
  by (simp add: guardRestNodeWrite_def split: write_outcome.split)

lemma timingSafe_eq [simp]: "timingSafeStringEqual a b \<longleftrightarrow> a = b"
  by (auto simp: timingSafeStringEqual_def)

lemma resolvable_spawn_iff:
  "resolvable_spawn db u sid = Some row \<longleftrightarrow>
     loadSession db sid = Some row \<and> se_user row = u \<and> se_state row = Running"
  by (auto simp: resolvable_spawn_def getSession_def split: option.splits)

text \<open>C13: A tool call may write a node exactly when the session is unscoped, the node is its home or
  was granted to it, or the session has a user who accepts the dialog shown for this very node; the
  session changes exactly when the dialog was shown and accepted, and then by the grant of this node; a
  dialog declined, unsupported or timed out leaves it as it was.\<close>

theorem mcp_write_exactly:
  "(fst (guardNodeWrite db elicitor i s) = None \<longleftrightarrow>
      sc_type s = EnvSession \<or> Some i = sc_home s \<or> canWrite s i \<or>
      sc_type s \<noteq> Headless \<and> (\<exists>confirm. elicitor = Some confirm \<and> confirm (write_prompt db i) = EAccept)) \<and>
   snd (guardNodeWrite db elicitor i s) =
     (if sc_type s = EnvSession \<or> Some i = sc_home s \<or> canWrite s i \<or> sc_type s = Headless then s
      else (case elicitor of
              Some confirm \<Rightarrow> if confirm (write_prompt db i) = EAccept then scope_addWritable i s else s
            | None \<Rightarrow> s))"
proof -
  let ?in = "sc_type s = EnvSession \<or> Some i = sc_home s \<or> canWrite s i"
  consider (allow) ?in | (headless) "\<not> ?in" "sc_type s = Headless" | (ask) "\<not> ?in" "sc_type s \<noteq> Headless"
    by blast
  then show ?thesis
  proof cases
    case allow
    then have "guardWrite (writeContextFromScope s) i = WAllow"
      by (auto simp: guardWrite_allow writeContextFromScope_def canWrite_def)
    with allow show ?thesis by (auto simp: guardNodeWrite_def)
  next
    case headless
    then obtain h where "guardWrite (writeContextFromScope s) i = WRefused h"
      by (simp add: guardWrite_def writeContextFromScope_def canWrite_def)
    with headless show ?thesis by (simp add: guardNodeWrite_def)
  next
    case ask
    then obtain h where "guardWrite (writeContextFromScope s) i = WElicit h"
      by (simp add: guardWrite_def writeContextFromScope_def canWrite_def)
    with ask show ?thesis by (simp add: guardNodeWrite_def Let_def split: option.split)
  qed
qed

text \<open>The REST gate and its batch form are one test: an instance of the visibility contract.\<close>

interpretation rest_write: visibility_service
    "\<lambda>i. guardRestNodeWrite db env rq ident i = None" "filterRestWritableNodeIds db env rq ident"
  for db env rq ident
  by unfold_locales (auto simp: filterRestWritableNodeIds_def Let_def guardRestNodeWrite_iff)

text \<open>C14: When a webview secret is configured, a local request passes the REST write gate exactly if
  it carries no spawn id and proves the secret, or its spawn id names a running session of the same
  user that has the node as its anchor or holds it for writing; a forged or stale spawn id is refused
  even with the secret.\<close>

theorem hardened_local_write_exactly:
  "configuredWebviewProxySecret env \<noteq> [] \<Longrightarrow> ri_via ident = ViaEnv \<Longrightarrow>
     guardRestNodeWrite db env rq ident i = None \<longleftrightarrow>
       (case spawnSessionIdFromRequest rq of
          None \<Rightarrow> webviewProxySecretFromRequest rq = configuredWebviewProxySecret env
        | Some sid \<Rightarrow>
            (\<exists>row. loadSession db sid = Some row \<and> se_user row = ri_user ident \<and>
                   se_state row = Running \<and> (Some i = se_node row \<or> i \<in> write_rows db sid)))"
proof -
  assume secret: "configuredWebviewProxySecret env \<noteq> []" and via: "ri_via ident = ViaEnv"
  show ?thesis
  proof (cases "spawnSessionIdFromRequest rq")
    case None
    with secret via show ?thesis
      by (simp add: guardRestNodeWrite_iff guardWrite_allow resolveRestWriteContext_def Let_def
          context_without_spawn_def bare_context_def webviewProxyProven_def)
  next
    case (Some sid)
    have rows: "set (map sr_node (filter sr_writable (getSessionScope db sid))) = write_rows db sid"
      by (auto simp: getSessionScope_def write_rows_def)
    show ?thesis
    proof (cases "resolvable_spawn db (ri_user ident) sid")
      case None
      then have "\<not> (\<exists>row. loadSession db sid = Some row \<and> se_user row = ri_user ident \<and>
          se_state row = Running)"
        by (auto simp flip: resolvable_spawn_iff)
      with Some None secret via show ?thesis
        by (auto simp: guardRestNodeWrite_iff guardWrite_allow resolveRestWriteContext_def Let_def
            bare_context_def)
    next
      case (Some row)
      then have own: "loadSession db sid = Some row" "se_user row = ri_user ident" "se_state row = Running"
        by (simp_all add: resolvable_spawn_iff)
      have "resolveRestWriteContext db env rq ident =
          \<lparr>wc_type = InteractiveTask, wc_home = se_node row, wc_writable = write_rows db sid\<rparr>"
        using Some \<open>spawnSessionIdFromRequest rq = Some sid\<close> via rows
        by (simp add: resolveRestWriteContext_def Let_def del: set_map set_filter)
      with \<open>spawnSessionIdFromRequest rq = Some sid\<close> own show ?thesis
        by (simp add: guardRestNodeWrite_iff guardWrite_allow)
    qed
  qed
qed

definition sample_request :: "string \<Rightarrow> string \<Rightarrow> rest_request" where
  "sample_request spawn proof_header =
     \<lparr>rq_spawn_id = OneHeader spawn, rq_webview_proxy = OneHeader proof_header\<rparr>"

lemma hardened_local_write_exactly_witness:
  "guardRestNodeWrite (sample_sdb Running Headless) (Some ''secret'')
     (sample_request sample_sid []) \<lparr>ri_user = ''ann'', ri_via = ViaEnv, ri_headless = False\<rparr> ''org'' = None \<and>
   guardRestNodeWrite (sample_sdb Running Headless) (Some ''secret'')
     (sample_request sample_sid []) \<lparr>ri_user = ''ann'', ri_via = ViaEnv, ri_headless = False\<rparr> ''grp'' \<noteq> None"
proof -
  have sec: "configuredWebviewProxySecret (Some ''secret'') \<noteq> []"
    by (simp add: configuredWebviewProxySecret_def js_trim_def js_space_def)
  have sid: "spawnSessionIdFromRequest (sample_request sample_sid []) = Some sample_sid"
    by (simp add: spawnSessionIdFromRequest_def sample_request_def trimmed_header_def sample_sid_def
        js_trim_def js_space_def)
  have "write_rows (sample_sdb Running Headless) sample_sid = {}"
    by (simp add: write_rows_def sample_sdb_def)
  with hardened_local_write_exactly [OF sec, of "\<lparr>ri_user = ''ann'', ri_via = ViaEnv, ri_headless = False\<rparr>"
      "sample_sdb Running Headless" "sample_request sample_sid []"] sid
  show ?thesis by simp
qed

lemma oauth_refused:
  "ri_via ident = ViaOauthGrant \<Longrightarrow> \<exists>e. guardRestNodeWrite db env rq ident i = Some e"
  using guardRestNodeWrite_iff [of db env rq ident i]
  by (simp add: guardWrite_allow resolveRestWriteContext_def bare_context_def)

text \<open>A connector (OAuth) request never writes over REST: every node gate, file gate and batch
  refuses it, whatever headers it sends.\<close>

theorem connector_never_writes_over_rest:
  "ri_via ident = ViaOauthGrant \<Longrightarrow>
     guardRestNodeWrite db env rq ident i \<noteq> None \<and> guardFileWrite db env rq ident i \<noteq> None \<and>
     filterRestWritableNodeIds db env rq ident ids = {}"
  by (simp add: rest_write.filter_ids_eq guardFileWrite_def oauth_refused)

lemma connector_never_writes_over_rest_witness:
  "guardFileWrite (sample_sdb Running Headless) None (sample_request sample_sid [])
     \<lparr>ri_user = ''ann'', ri_via = ViaOauthGrant, ri_headless = False\<rparr> ''org'' \<noteq> None"
  using connector_never_writes_over_rest
    [of "\<lparr>ri_user = ''ann'', ri_via = ViaOauthGrant, ri_headless = False\<rparr>"
      "sample_sdb Running Headless" None "sample_request sample_sid []" "''org''" "[]"]
  by simp

end
