(* ===== verification/NodePaths.thy ===== *)
theory NodePaths
  imports GraphDb
begin

text \<open>
  Where a node's files live: the remote path of a file (\<^verbatim>\<open>apps/server/domain/sync/remote-path.ts\<close>),
  its place in a local mirror, the containment tests of \<^verbatim>\<open>apps/server/shared/safe-path.ts\<close> and
  the node facts a root is built from (\<^verbatim>\<open>apps/server/domain/sync/node-info.ts\<close>).  The functions
  of Node's \<^verbatim>\<open>path\<close> module are those of its POSIX half; the working directory of the process
  is an argument where \<open>resolve\<close> reads it, and is absolute.
\<close>

section \<open>Node's path module\<close>

text \<open>\<open>normalizeString\<close>: the segments already taken are a stack, the last one first.\<close>

definition push_segment :: "bool \<Rightarrow> string \<Rightarrow> string list \<Rightarrow> string list" where
  "push_segment allow s st =
     (if s = [] \<or> s = ''.'' then st
      else if s = ''..''
      then (case st of
              [] \<Rightarrow> if allow then [s] else []
            | t # ts \<Rightarrow> if t = ''..'' then (if allow then s # st else st) else ts)
      else s # st)"

definition normal_segments :: "bool \<Rightarrow> string \<Rightarrow> string list" where
  "normal_segments allow p = rev (fold (push_segment allow) (split_on CHR ''/'' p) [])"

definition normalize_string :: "bool \<Rightarrow> string \<Rightarrow> string" where
  "normalize_string allow p = join_with ''/'' (normal_segments allow p)"

definition isAbsolute :: "string \<Rightarrow> bool" where
  "isAbsolute p = prefix ''/'' p"

definition posix_normalize :: "string \<Rightarrow> string" where
  "posix_normalize p =
     (if p = [] then ''.''
      else (let q = normalize_string (\<not> isAbsolute p) p; trailing = (last p = CHR ''/'')
            in if q = [] then (if isAbsolute p then ''/'' else if trailing then ''./'' else ''.'')
               else (if isAbsolute p then ''/'' else []) @ q @ (if trailing then ''/'' else [])))"

definition posix_join :: "string list \<Rightarrow> string" where
  "posix_join parts =
     (let ps = filter (\<lambda>p. p \<noteq> []) parts
      in if ps = [] then ''.'' else posix_normalize (join_with ''/'' ps))"

text \<open>\<open>resolve\<close> takes its arguments from the last absolute one on, behind the working directory.\<close>

definition resolve_onto :: "string \<Rightarrow> string \<Rightarrow> string" where
  "resolve_onto acc p = (if p = [] then acc else if isAbsolute p then p else acc @ ''/'' @ p)"

definition path_resolve :: "string \<Rightarrow> string list \<Rightarrow> string" where
  "path_resolve cwd parts = ''/'' @ normalize_string False (foldl resolve_onto cwd parts)"

definition path_relative :: "string \<Rightarrow> string \<Rightarrow> string \<Rightarrow> string" where
  "path_relative cwd a b =
     (let f = normal_segments False (path_resolve cwd [a]); t = normal_segments False (path_resolve cwd [b]);
          n = length (longest_common_prefix f t)
      in join_with ''/'' (replicate (length f - n) ''..'' @ drop n t))"

section \<open>Containment\<close>

definition isInside :: "string \<Rightarrow> string \<Rightarrow> string \<Rightarrow> bool" where
  "isInside cwd root candidate =
     (let r = path_resolve cwd [root]; t = path_resolve cwd [candidate] in t = r \<or> prefix (r @ ''/'') t)"

definition safeJoin :: "string \<Rightarrow> string \<Rightarrow> string list \<Rightarrow> string option" where
  "safeJoin cwd root segments =
     (let r = path_resolve cwd [root]; t = path_resolve cwd (r # segments)
      in if t \<noteq> r \<and> \<not> prefix (r @ ''/'') t then None else Some t)"

text \<open>\<open>None\<close> is the thrown \<open>PathTraversalError\<close>.\<close>

definition ensureUnderRoot :: "string \<Rightarrow> string \<Rightarrow> string \<Rightarrow> string option" where
  "ensureUnderRoot cwd root candidate =
     (let a = (if isAbsolute candidate then candidate else path_resolve cwd [root, candidate])
      in if \<not> isInside cwd root a then None else Some (path_resolve cwd [a]))"

section \<open>Remote paths\<close>

definition SECTIONS :: "string list" where
  "SECTIONS = [''wip'', ''outputs'', ''resources'']"

definition TYPE_PLURAL :: "string \<Rightarrow> string option" where
  "TYPE_PLURAL = map_of
     [(''project'', ''projects''), (''process'', ''processes''), (''area'', ''areas''),
      (''principle'', ''principles''), (''organization'', ''organizations'')]"

datatype path_error =
    UnsafeSegment string string
  | InvalidCharacter string string
  | EmptyPath string
  | AbsolutePath string string
  | InvalidSection string
  | NotUnderNodeRoot string string
  | EscapesMirror string

definition assertSafeSegment :: "string \<Rightarrow> string \<Rightarrow> path_error + unit" where
  "assertSafeSegment seg ctx =
     (if seg = [] \<or> seg = ''.'' \<or> seg = ''..'' then Inl (UnsafeSegment ctx seg)
      else if CHR ''/'' \<in> set seg \<or> CHR 0x5C \<in> set seg \<or> CHR 0x00 \<in> set seg then Inl (InvalidCharacter ctx seg)
      else Inr ())"

fun assertSafeSegments :: "string list \<Rightarrow> string \<Rightarrow> path_error + unit" where
  "assertSafeSegments [] ctx = Inr ()"
| "assertSafeSegments (s # ss) ctx = bind_sum (assertSafeSegment s ctx) (\<lambda>_. assertSafeSegments ss ctx)"

definition assertSafeRelativePath :: "string \<Rightarrow> string \<Rightarrow> path_error + unit" where
  "assertSafeRelativePath p ctx =
     (if p = [] then Inl (EmptyPath ctx)
      else if prefix ''/'' p then Inl (AbsolutePath ctx p)
      else assertSafeSegments (split_on CHR ''/'' p) ctx)"

record node_info =
  in_org :: "string option"
  in_type :: string
  in_key :: string

definition optional :: "'a option \<Rightarrow> ('a \<Rightarrow> 'e + unit) \<Rightarrow> 'e + unit" where
  "optional v check = (case v of None \<Rightarrow> Inr () | Some x \<Rightarrow> check x)"

definition node_root_parts :: "node_info \<Rightarrow> string list" where
  "node_root_parts n =
     (let plural = (case TYPE_PLURAL (in_type n) of Some p \<Rightarrow> p | None \<Rightarrow> in_type n)
      in case in_org n of
           Some org \<Rightarrow> (if org \<noteq> [] then [org, plural, in_key n] else [plural, in_key n])
         | None \<Rightarrow> [plural, in_key n])"

definition buildNodeRoot :: "node_info \<Rightarrow> path_error + string" where
  "buildNodeRoot n =
     bind_sum (optional (in_org n) (\<lambda>k. assertSafeSegment k ''buildNodeRoot.orgSyncKey'')) (\<lambda>_.
     bind_sum (assertSafeSegment (in_key n) ''buildNodeRoot.nodeSyncKey'') (\<lambda>_.
       Inr (if in_type n = ''organization''
            then (case in_org n of Some k \<Rightarrow> k | None \<Rightarrow> in_key n)
            else posix_join (node_root_parts n))))"

record remote_path_args =
  rp_info :: node_info
  rp_section :: string
  rp_subpath :: "string option"
  rp_filename :: string

definition buildRemotePath :: "remote_path_args \<Rightarrow> path_error + string" where
  "buildRemotePath a =
     (if rp_section a \<notin> set SECTIONS then Inl (InvalidSection (rp_section a))
      else
        bind_sum (assertSafeSegment (rp_filename a) ''buildRemotePath.filename'') (\<lambda>_.
        bind_sum (optional (rp_subpath a) (\<lambda>p. assertSafeRelativePath p ''buildRemotePath.subpath'')) (\<lambda>_.
        bind_sum (buildNodeRoot (rp_info a)) (\<lambda>root.
          Inr (posix_join
            ([root, rp_section a]
             @ (case rp_subpath a of Some p \<Rightarrow> (if p \<noteq> [] then [p] else []) | None \<Rightarrow> [])
             @ [rp_filename a]))))))"

record mirror_subpath =
  ms_section :: string
  ms_subpath :: "string option"
  ms_filename :: string

definition subpathFromMirror :: "string \<Rightarrow> string \<Rightarrow> string \<Rightarrow> mirror_subpath option" where
  "subpathFromMirror cwd mirrorRoot absolutePath =
     (if \<not> isInside cwd mirrorRoot absolutePath then None
      else (let rel = path_relative cwd mirrorRoot absolutePath
            in if prefix ''..'' rel \<or> rel = [] then None
               else (let parts = split_on CHR ''/'' rel; section_name = hd parts;
                         filename = last parts; middle = butlast (tl parts)
                     in if section_name \<notin> set SECTIONS then None
                        else if \<exists>s \<in> set (middle @ [filename]). s = [] \<or> s = ''.'' \<or> s = ''..'' then None
                        else Some \<lparr>ms_section = section_name,
                               ms_subpath = (if middle = [] then None else Some (join_with ''/'' middle)),
                               ms_filename = filename\<rparr>)))"

definition deriveLocalPath :: "string \<Rightarrow> string \<Rightarrow> string \<Rightarrow> string \<Rightarrow> path_error + string" where
  "deriveLocalPath cwd mirrorRoot nodeRoot remotePath =
     (if \<not> prefix (nodeRoot @ ''/'') remotePath then Inl (NotUnderNodeRoot remotePath nodeRoot)
      else (let remainder = drop (length (nodeRoot @ ''/'')) remotePath
            in bind_sum (assertSafeRelativePath remainder ''deriveLocalPath.remotePath'') (\<lambda>_.
                 case ensureUnderRoot cwd mirrorRoot remainder of
                   None \<Rightarrow> Inl (EscapesMirror mirrorRoot)
                 | Some p \<Rightarrow> Inr p)))"

fun assertSafePaths :: "string list \<Rightarrow> path_error + unit" where
  "assertSafePaths [] = Inr ()"
| "assertSafePaths (p # ps) =
     (if p = [] then assertSafePaths ps
      else bind_sum (assertSafeRelativePath p ''safeMirrorJoin.segment'') (\<lambda>_. assertSafePaths ps))"

definition safeMirrorJoin :: "string \<Rightarrow> string \<Rightarrow> string list \<Rightarrow> path_error + string" where
  "safeMirrorJoin cwd mirrorRoot segments =
     bind_sum (assertSafePaths segments) (\<lambda>_.
       case ensureUnderRoot cwd mirrorRoot (posix_join segments) of
         None \<Rightarrow> Inl (EscapesMirror mirrorRoot)
       | Some p \<Rightarrow> Inr p)"

section \<open>The node facts of a root\<close>

definition org_membership_edges :: "graph_db \<Rightarrow> node_id \<Rightarrow> edge_row list" where
  "org_membership_edges db i =
     filter (\<lambda>e. ed_source e = i \<and> ed_relation e = ''belongs_to'' \<and>
                 (\<exists>t \<in> set (nodes_t db). nd_id t = ed_target e \<and> nd_type t = ''organization''))
       (edges_t db)"

definition resolveNodeInfo :: "graph_db \<Rightarrow> node_id \<Rightarrow> node_info option" where
  "resolveNodeInfo db i =
     (case node_by_id db i of
        None \<Rightarrow> None
      | Some n \<Rightarrow>
          if nd_type n = ''organization''
          then Some \<lparr>in_org = Some (nd_sync_key n), in_type = nd_type n, in_key = nd_sync_key n\<rparr>
          else Some \<lparr>in_org = (case org_membership_edges db i of
                                [] \<Rightarrow> None
                              | e # _ \<Rightarrow> map_option nd_sync_key (node_by_id db (ed_target e))),
                     in_type = nd_type n, in_key = nd_sync_key n\<rparr>)"

section \<open>Rows under a folder\<close>

text \<open>
  SQLite's \<open>LIKE\<close> with an escape character, case-insensitive on ASCII, and the condition built on
  it.  An escape at the end of the pattern matches nothing.
\<close>

fun sql_like :: "char \<Rightarrow> string \<Rightarrow> string \<Rightarrow> bool" where
  "sql_like esc [] s \<longleftrightarrow> s = []"
| "sql_like esc (p # ps) s \<longleftrightarrow>
     (if p = esc
      then (case ps of
              [] \<Rightarrow> False
            | q # qs \<Rightarrow> (case s of [] \<Rightarrow> False | c # cs \<Rightarrow> js_lower_char q = js_lower_char c \<and> sql_like esc qs cs))
      else if p = CHR ''%'' then (\<exists>k \<in> set [0..<Suc (length s)]. sql_like esc ps (drop k s))
      else if p = CHR ''_'' then (case s of [] \<Rightarrow> False | c # cs \<Rightarrow> sql_like esc ps cs)
      else (case s of [] \<Rightarrow> False | c # cs \<Rightarrow> js_lower_char p = js_lower_char c \<and> sql_like esc ps cs))"

definition like_escape :: "string \<Rightarrow> string" where
  "like_escape s =
     concat (map (\<lambda>c. if c \<in> {CHR 0x5C, CHR ''%'', CHR ''_''} then [CHR 0x5C, c] else [c]) s)"

definition pathPrefixCondition :: "string \<Rightarrow> string \<Rightarrow> bool" where
  "pathPrefixCondition absPrefix column =
     (let with_slash = absPrefix @ ''/''
      in sql_like CHR 0x5C (like_escape with_slash @ ''%'') column \<and>
         take (length with_slash) column = with_slash)"

section \<open>Plain segments\<close>

text \<open>A segment that normalisation keeps, and the lists of them.\<close>

definition plain_segment :: "string \<Rightarrow> bool" where
  "plain_segment s \<longleftrightarrow> s \<noteq> [] \<and> s \<noteq> ''.'' \<and> s \<noteq> ''..'' \<and> CHR ''/'' \<notin> set s"

named_theorems path_simps \<open>paths of plain segments\<close>

lemma fold_push_plain:
  "\<forall>s \<in> set ss. plain_segment s \<Longrightarrow> fold (push_segment allow) ss st = rev ss @ st"
  by (induction ss arbitrary: st) (auto simp: push_segment_def plain_segment_def)

lemma split_join_plain:
  "ss \<noteq> [] \<Longrightarrow> \<forall>s \<in> set ss. plain_segment s \<Longrightarrow> split_on CHR ''/'' (join_with ''/'' ss) = ss"
  by (rule split_on_join) (auto simp: plain_segment_def)

lemma normal_plain [path_simps]:
  "\<forall>s \<in> set ss. plain_segment s \<Longrightarrow> normal_segments allow (join_with ''/'' ss) = ss"
  by (cases "ss = []")
    (simp_all add: normal_segments_def push_segment_def split_join_plain fold_push_plain)

lemma normal_abs_plain [path_simps]:
  "\<forall>s \<in> set ss. plain_segment s \<Longrightarrow> normal_segments allow (CHR ''/'' # join_with ''/'' ss) = ss"
  using normal_plain [of ss allow] by (simp add: normal_segments_def push_segment_def)

lemma join_with_append:
  "ss \<noteq> [] \<Longrightarrow> ts \<noteq> [] \<Longrightarrow> join_with d (ss @ ts) = join_with d ss @ d @ join_with d ts"
  by (induction d ss rule: join_with.induct) (auto simp: join_with_Cons)

lemma join_with_nonempty: "ss \<noteq> [] \<Longrightarrow> \<forall>s \<in> set ss. plain_segment s \<Longrightarrow> join_with d ss \<noteq> []"
proof -
  assume "ss \<noteq> []" and "\<forall>s \<in> set ss. plain_segment s"
  then obtain t ts where "ss = t # ts" "t \<noteq> []"
    by (cases ss) (auto simp: plain_segment_def)
  then show ?thesis by (cases ts) auto
qed

lemma hd_join: "s \<noteq> [] \<Longrightarrow> hd (join_with d (s # ss)) = hd s"
  by (cases ss) auto

lemma last_join:
  "ss \<noteq> [] \<Longrightarrow> last ss \<noteq> [] \<Longrightarrow> join_with d ss \<noteq> [] \<and> last (join_with d ss) = last (last ss)"
proof (induction ss)
  case (Cons s ss)
  then show ?case
    by (cases "ss = []") (simp_all add: join_with_Cons)
qed simp

lemma plain_join_ends:
  assumes "ss \<noteq> []" and "\<forall>s \<in> set ss. plain_segment s"
  shows "hd (join_with d ss) \<noteq> CHR ''/''" and "last (join_with d ss) \<noteq> CHR ''/''"
proof -
  have h: "hd ss \<noteq> []" "CHR ''/'' \<notin> set (hd ss)" and l: "last ss \<noteq> []" "CHR ''/'' \<notin> set (last ss)"
    using assms by (auto simp: plain_segment_def)
  from h assms(1) show "hd (join_with d ss) \<noteq> CHR ''/''"
    using hd_join [of "hd ss" d "tl ss"] by (metis hd_in_set list.collapse)
  from l assms(1) show "last (join_with d ss) \<noteq> CHR ''/''"
    using last_join [of ss d] by (metis last_in_set)
qed

lemma plain_not_absolute: "ss \<noteq> [] \<Longrightarrow> \<forall>s \<in> set ss. plain_segment s \<Longrightarrow> \<not> isAbsolute (join_with d ss)"
  using plain_join_ends(1) [of ss d] by (cases "join_with d ss") (auto simp: isAbsolute_def)

lemma concat_split_plain: "\<forall>s \<in> set ss. plain_segment s \<Longrightarrow> concat (map (split_on CHR ''/'') ss) = ss"
  by (induction ss) (auto simp: plain_segment_def split_on_id)

lemma posix_join_plain:
  assumes "concat (map (split_on CHR ''/'') parts) = ss" and "\<forall>s \<in> set ss. plain_segment s" and "parts \<noteq> []"
  shows "posix_join parts = join_with ''/'' ss"
proof -
  have nonempty: "\<forall>p \<in> set parts. p \<noteq> []"
    using assms(1,2) by (force simp: plain_segment_def)
  have joined: "join_with ''/'' parts = join_with ''/'' ss"
    using assms(3) unfolding assms(1) [symmetric]
  proof (induction parts)
    case (Cons p ps)
    then show ?case
      by (cases "ps = []") (simp_all add: join_with_Cons join_with_append)
  qed simp
  have ss: "ss \<noteq> []"
    using assms(1,3) by (cases parts) auto
  show ?thesis
    using nonempty assms(2,3) ss plain_not_absolute [OF ss assms(2), of "''/''"]
      plain_join_ends(2) [OF ss assms(2), of "''/''"] join_with_nonempty [OF ss assms(2), of "''/''"]
    by (simp add: posix_join_def Let_def posix_normalize_def joined normalize_string_def path_simps)
qed

text \<open>What normalisation of an absolute path leaves is plain.\<close>

lemma push_segment_plain:
  "\<forall>t \<in> set st. plain_segment t \<Longrightarrow> CHR ''/'' \<notin> set s \<Longrightarrow>
     \<forall>t \<in> set (push_segment False s st). plain_segment t"
  by (cases st) (simp_all add: push_segment_def plain_segment_def)

lemma fold_push_segment_plain:
  "\<forall>t \<in> set st. plain_segment t \<Longrightarrow> \<forall>s \<in> set ss. CHR ''/'' \<notin> set s \<Longrightarrow>
     \<forall>t \<in> set (fold (push_segment False) ss st). plain_segment t"
proof (induction ss arbitrary: st)
  case (Cons s ss)
  then have "\<forall>t \<in> set (push_segment False s st). plain_segment t"
    by (intro push_segment_plain) auto
  then show ?case
    using Cons.IH [of "push_segment False s st"] Cons.prems(2) by simp
qed simp

lemma normal_segments_plain: "\<forall>t \<in> set (normal_segments False p). plain_segment t"
  unfolding normal_segments_def
  using fold_push_segment_plain [of "[]" "split_on CHR ''/'' p"] by (auto dest: split_on_no_delim)

section \<open>Resolving below a root\<close>

definition root_segments :: "string \<Rightarrow> string \<Rightarrow> string list" where
  "root_segments cwd m = normal_segments False (resolve_onto cwd m)"

lemma root_segments_plain: "\<forall>t \<in> set (root_segments cwd m). plain_segment t"
  by (simp add: root_segments_def normal_segments_plain)

lemma split_on_append: "split_on d (s @ d # t) = split_on d s @ split_on d t"
  by (induction s) (auto split: list.splits)

lemma resolve_root [path_simps]: "path_resolve cwd [m] = CHR ''/'' # join_with ''/'' (root_segments cwd m)"
  by (simp add: path_resolve_def normalize_string_def root_segments_def)

lemma root_segments_abs [path_simps]:
  "\<forall>s \<in> set ss. plain_segment s \<Longrightarrow> root_segments cwd (CHR ''/'' # join_with ''/'' ss) = ss"
  by (simp add: root_segments_def resolve_onto_def isAbsolute_def normal_abs_plain)

lemma resolve_below:
  assumes "rs \<noteq> []" and "\<forall>s \<in> set rs. plain_segment s"
  shows "path_resolve cwd [m, join_with ''/'' rs] = CHR ''/'' # join_with ''/'' (root_segments cwd m @ rs)"
proof -
  have "resolve_onto (resolve_onto cwd m) (join_with ''/'' rs) = resolve_onto cwd m @ CHR ''/'' # join_with ''/'' rs"
    using plain_not_absolute [OF assms, of "''/''"] join_with_nonempty [OF assms, of "''/''"]
    by (simp add: resolve_onto_def [of "resolve_onto cwd m"])
  moreover have "normal_segments False (resolve_onto cwd m @ CHR ''/'' # join_with ''/'' rs) = root_segments cwd m @ rs"
    using assms by (simp add: normal_segments_def root_segments_def split_on_append split_join_plain fold_push_plain)
  ultimately show ?thesis
    by (simp add: path_resolve_def normalize_string_def)
qed

lemma inside_below:
  assumes "root_segments cwd m \<noteq> []" and "\<forall>s \<in> set rs. plain_segment s"
  shows "isInside cwd m (CHR ''/'' # join_with ''/'' (root_segments cwd m @ rs))"
proof -
  have "\<forall>s \<in> set (root_segments cwd m @ rs). plain_segment s"
    using assms(2) root_segments_plain [of cwd m] by auto
  then have "path_resolve cwd [CHR ''/'' # join_with ''/'' (root_segments cwd m @ rs)] =
      CHR ''/'' # join_with ''/'' (root_segments cwd m @ rs)"
    by (simp add: path_simps)
  moreover have "rs = [] \<or> join_with ''/'' (root_segments cwd m @ rs) =
      join_with ''/'' (root_segments cwd m) @ CHR ''/'' # join_with ''/'' rs"
    using assms(1) by (simp add: join_with_append disj_imp)
  ultimately show ?thesis
    by (auto simp: isInside_def Let_def resolve_root)
qed

lemma lcp_prefix: "longest_common_prefix xs (xs @ ys) = xs"
  by (induction xs) (cases ys; simp)+

lemma relative_below:
  assumes "\<forall>s \<in> set rs. plain_segment s"
  shows "path_relative cwd m (CHR ''/'' # join_with ''/'' (root_segments cwd m @ rs)) = join_with ''/'' rs"
  using assms root_segments_plain [of cwd m]
  by (simp add: path_relative_def path_simps lcp_prefix ball_Un)

lemma ensure_below:
  assumes "root_segments cwd m \<noteq> []" and "rs \<noteq> []" and "\<forall>s \<in> set rs. plain_segment s"
  shows "ensureUnderRoot cwd m (join_with ''/'' rs) = Some (CHR ''/'' # join_with ''/'' (root_segments cwd m @ rs))"
  using assms root_segments_plain [of cwd m] inside_below [OF assms(1,3)] plain_not_absolute [OF assms(2,3), of "''/''"]
  by (simp add: ensureUnderRoot_def Let_def resolve_below path_simps ball_Un)

section \<open>What the assertions let through\<close>

lemma safe_segment_plain: "assertSafeSegment s ctx = Inr u \<Longrightarrow> plain_segment s"
  by (auto simp: assertSafeSegment_def plain_segment_def split: if_split_asm)

lemma safe_segments_iff:
  "assertSafeSegments ss ctx = Inr u \<longleftrightarrow> (\<forall>s \<in> set ss. assertSafeSegment s ctx = Inr ())"
  by (induction ss) (auto simp: bind_sum_Inr)

lemma safe_relative_iff:
  "assertSafeRelativePath p ctx = Inr u \<longleftrightarrow> (\<forall>s \<in> set (split_on CHR ''/'' p). assertSafeSegment s ctx = Inr ())"
proof -
  have "\<not> (\<forall>s \<in> set (split_on CHR ''/'' p). assertSafeSegment s ctx = Inr ())" if "p = [] \<or> prefix ''/'' p"
    using that by (cases p) (auto simp: assertSafeSegment_def)
  then show ?thesis
    by (auto simp: assertSafeRelativePath_def safe_segments_iff)
qed

lemma assertSafeSegment_ctx: "assertSafeSegment s ctx = Inr () \<longleftrightarrow> assertSafeSegment s ctx' = Inr ()"
  by (simp add: assertSafeSegment_def)

lemma sections_safe: "s \<in> set SECTIONS \<Longrightarrow> assertSafeSegment s ctx = Inr ()"
  by (auto simp: SECTIONS_def assertSafeSegment_def)

lemma sections_not_dotdot: "s \<in> set SECTIONS \<Longrightarrow> \<not> prefix ''..'' (join_with d (s # ss))"
  by (cases ss) (auto simp: SECTIONS_def)

definition known_type :: "string \<Rightarrow> bool" where
  "known_type t \<longleftrightarrow> TYPE_PLURAL t \<noteq> None"

lemma plural_plain: "TYPE_PLURAL t = Some p \<Longrightarrow> plain_segment p"
  by (auto simp: TYPE_PLURAL_def plain_segment_def split: if_split_asm)

definition root_parts :: "node_info \<Rightarrow> string list" where
  "root_parts n =
     (if in_type n = ''organization'' then [case in_org n of Some k \<Rightarrow> k | None \<Rightarrow> in_key n]
      else node_root_parts n)"

lemma node_root_plain:
  assumes "buildNodeRoot n = Inr root" and "known_type (in_type n)"
  shows "root = join_with ''/'' (root_parts n) \<and> root_parts n \<noteq> [] \<and> (\<forall>s \<in> set (root_parts n). plain_segment s)"
proof -
  obtain p where p: "TYPE_PLURAL (in_type n) = Some p" "plain_segment p"
    using assms(2) plural_plain by (auto simp: known_type_def)
  have key: "plain_segment (in_key n)" and org: "\<And>k. in_org n = Some k \<Longrightarrow> plain_segment k"
    using assms(1) by (auto simp: buildNodeRoot_def bind_sum_Inr optional_def dest: safe_segment_plain)
  have plain: "\<forall>s \<in> set (root_parts n). plain_segment s" and ne: "root_parts n \<noteq> []"
    using key org p by (auto simp: root_parts_def node_root_parts_def split: option.split)
  have split: "concat (map (split_on CHR ''/'') (root_parts n)) = root_parts n"
    by (rule concat_split_plain [OF plain])
  show ?thesis
    using assms(1) plain ne posix_join_plain [OF split plain ne]
    by (auto simp: buildNodeRoot_def bind_sum_Inr root_parts_def)
qed

section \<open>From the remote path to the mirror and back\<close>

definition tail_segments :: "remote_path_args \<Rightarrow> string list" where
  "tail_segments a =
     rp_section a # (case rp_subpath a of Some p \<Rightarrow> split_on CHR ''/'' p | None \<Rightarrow> []) @ [rp_filename a]"

lemma remote_path_parts:
  assumes "buildRemotePath a = Inr rp" and "known_type (in_type (rp_info a))"
  shows "\<exists>root. buildNodeRoot (rp_info a) = Inr root \<and> rp = root @ ''/'' @ join_with ''/'' (tail_segments a) \<and>
           rp_section a \<in> set SECTIONS \<and>
           (\<forall>s \<in> set (tail_segments a). assertSafeSegment s ctx = Inr ()) \<and>
           (\<forall>s \<in> set (tail_segments a). plain_segment s)"
proof -
  obtain root where root: "buildNodeRoot (rp_info a) = Inr root"
    and sec: "rp_section a \<in> set SECTIONS"
    and fname: "assertSafeSegment (rp_filename a) ''buildRemotePath.filename'' = Inr ()"
    and sub: "\<And>p. rp_subpath a = Some p \<Longrightarrow> assertSafeRelativePath p ''buildRemotePath.subpath'' = Inr ()"
    and rp: "rp = posix_join ([root, rp_section a]
               @ (case rp_subpath a of Some p \<Rightarrow> (if p \<noteq> [] then [p] else []) | None \<Rightarrow> []) @ [rp_filename a])"
    using assms(1) by (auto simp: buildRemotePath_def bind_sum_Inr optional_def split: if_split_asm option.splits)
  have parts: "root = join_with ''/'' (root_parts (rp_info a))" "root_parts (rp_info a) \<noteq> []"
    "\<forall>s \<in> set (root_parts (rp_info a)). plain_segment s"
    using node_root_plain [OF root assms(2)] by auto
  have safe: "\<forall>s \<in> set (tail_segments a). assertSafeSegment s ctx = Inr ()" for ctx
  proof -
    have "assertSafeSegment (rp_filename a) ctx = Inr ()"
      using fname by (rule iffD1 [OF assertSafeSegment_ctx])
    moreover have "\<forall>s \<in> set (split_on CHR ''/'' p). assertSafeSegment s ctx = Inr ()" if "rp_subpath a = Some p" for p
      using sub [OF that] assertSafeSegment_ctx unfolding safe_relative_iff by blast
    ultimately show ?thesis
      using sections_safe [OF sec] by (cases "rp_subpath a") (auto simp: tail_segments_def)
  qed
  have plain: "\<forall>s \<in> set (tail_segments a). plain_segment s"
    using safe safe_segment_plain by blast
  have sub_ne: "rp_subpath a \<noteq> Some []"
    using sub by (auto simp: assertSafeRelativePath_def)
  have secs: "split_on CHR ''/'' (rp_section a) = [rp_section a]"
    "split_on CHR ''/'' (rp_filename a) = [rp_filename a]"
    using plain by (auto simp: tail_segments_def plain_segment_def intro!: split_on_id)
  have "concat (map (split_on CHR ''/'') ([root, rp_section a]
      @ (case rp_subpath a of Some p \<Rightarrow> (if p \<noteq> [] then [p] else []) | None \<Rightarrow> []) @ [rp_filename a]))
      = root_parts (rp_info a) @ tail_segments a"
    using parts secs sub_ne by (auto simp: tail_segments_def split_join_plain split: option.split)
  then have "rp = join_with ''/'' (root_parts (rp_info a) @ tail_segments a)"
    using parts plain unfolding rp by (intro posix_join_plain) auto
  also have "\<dots> = root @ ''/'' @ join_with ''/'' (tail_segments a)"
    using parts by (simp add: join_with_append tail_segments_def)
  finally show ?thesis
    using root sec safe plain by blast
qed

lemma mirror_of_tail:
  assumes "\<forall>s \<in> set (tail_segments a). plain_segment s" and "rp_section a \<in> set SECTIONS"
    and "rp_subpath a \<noteq> Some []" and "root_segments cwd m \<noteq> []"
  shows "subpathFromMirror cwd m (CHR ''/'' # join_with ''/'' (root_segments cwd m @ tail_segments a)) =
           Some \<lparr>ms_section = rp_section a, ms_subpath = rp_subpath a, ms_filename = rp_filename a\<rparr>"
proof -
  have rel: "path_relative cwd m (CHR ''/'' # join_with ''/'' (root_segments cwd m @ tail_segments a)) =
      join_with ''/'' (tail_segments a)"
    by (rule relative_below [OF assms(1)])
  have "tail_segments a \<noteq> []" by (simp add: tail_segments_def)
  with assms(1) have split: "split_on CHR ''/'' (join_with ''/'' (tail_segments a)) = tail_segments a"
    and ne: "join_with ''/'' (tail_segments a) \<noteq> []"
    by (simp_all add: split_join_plain join_with_nonempty)
  have dots: "\<not> prefix ''..'' (join_with ''/'' (tail_segments a))"
    using sections_not_dotdot [OF assms(2)] by (simp add: tail_segments_def)
  have mid: "butlast (tl (tail_segments a)) = (case rp_subpath a of Some p \<Rightarrow> split_on CHR ''/'' p | None \<Rightarrow> [])"
    by (simp add: tail_segments_def)
  have sub: "(if butlast (tl (tail_segments a)) = [] then None
      else Some (join_with ''/'' (butlast (tl (tail_segments a))))) = rp_subpath a"
    unfolding mid by (cases "rp_subpath a") simp_all
  have clean: "\<not> (\<exists>s \<in> set (butlast (tl (tail_segments a)) @ [rp_filename a]). s = [] \<or> s = ''.'' \<or> s = ''..'')"
    using assms(1) unfolding mid by (auto simp: tail_segments_def plain_segment_def)
  have ends: "hd (tail_segments a) = rp_section a" "last (tail_segments a) = rp_filename a"
    by (simp_all add: tail_segments_def)
  show ?thesis
    using inside_below [OF assms(4,1)] ne dots clean assms(2)
    by (simp add: subpathFromMirror_def Let_def rel split ends sub del: bex_simps)
qed

text \<open>C18: A remote path the builder accepts has a place in every mirror whose root is not the root of
  the file system, and reading that place back gives the section, subpath and file name it was built
  from.\<close>

theorem remote_path_roundtrip:
  assumes "buildRemotePath a = Inr rp" and "TYPE_PLURAL (in_type (rp_info a)) \<noteq> None"
    and "path_resolve cwd [m] \<noteq> ''/''"
  shows "\<exists>root local. buildNodeRoot (rp_info a) = Inr root \<and> deriveLocalPath cwd m root rp = Inr local \<and>
           subpathFromMirror cwd m local =
             Some \<lparr>ms_section = rp_section a, ms_subpath = rp_subpath a, ms_filename = rp_filename a\<rparr>"
proof -
  obtain root where root: "buildNodeRoot (rp_info a) = Inr root"
    and rp: "rp = root @ ''/'' @ join_with ''/'' (tail_segments a)"
    and sec: "rp_section a \<in> set SECTIONS"
    and safe: "\<forall>s \<in> set (tail_segments a). assertSafeSegment s ''deriveLocalPath.remotePath'' = Inr ()"
    and plain: "\<forall>s \<in> set (tail_segments a). plain_segment s"
    using remote_path_parts [OF assms(1)] assms(2) unfolding known_type_def by blast
  have sub: "rp_subpath a \<noteq> Some []"
    using assms(1) by (auto simp: buildRemotePath_def bind_sum_Inr optional_def assertSafeRelativePath_def
        split: if_split_asm)
  have m: "root_segments cwd m \<noteq> []"
    using assms(3) by (auto simp: resolve_root)
  have ne: "tail_segments a \<noteq> []" by (simp add: tail_segments_def)
  then have "assertSafeRelativePath (join_with ''/'' (tail_segments a)) ''deriveLocalPath.remotePath'' = Inr ()"
    using safe plain by (simp add: safe_relative_iff split_join_plain)
  then have "deriveLocalPath cwd m root rp = Inr (CHR ''/'' # join_with ''/'' (root_segments cwd m @ tail_segments a))"
    using rp by (simp add: deriveLocalPath_def Let_def ensure_below [OF m ne plain])
  with root mirror_of_tail [OF plain sec sub m] show ?thesis by blast
qed

definition sample_file_args :: remote_path_args where
  "sample_file_args =
     \<lparr>rp_info = \<lparr>in_org = Some ''acme'', in_type = ''project'', in_key = ''site''\<rparr>,
      rp_section = ''wip'', rp_subpath = Some ''img/raw'', rp_filename = ''a.png''\<rparr>"

lemma remote_path_roundtrip_witness:
  "buildRemotePath sample_file_args = Inr ''acme/projects/site/wip/img/raw/a.png'' \<and>
   (\<exists>root local. buildNodeRoot (rp_info sample_file_args) = Inr root \<and>
      deriveLocalPath ''/'' ''/home/ann'' root ''acme/projects/site/wip/img/raw/a.png'' = Inr local \<and>
      subpathFromMirror ''/'' ''/home/ann'' local =
        Some \<lparr>ms_section = ''wip'', ms_subpath = Some ''img/raw'', ms_filename = ''a.png''\<rparr>)"
proof -
  have b: "buildRemotePath sample_file_args = Inr ''acme/projects/site/wip/img/raw/a.png''"
    by code_simp
  have t: "TYPE_PLURAL (in_type (rp_info sample_file_args)) \<noteq> None"
    by code_simp
  have m: "path_resolve ''/'' [''/home/ann''] \<noteq> ''/''"
    by code_simp
  show ?thesis
    using b remote_path_roundtrip [OF b t m] by (simp add: sample_file_args_def)
qed

section \<open>The folder condition\<close>

lemma sql_like_any: "sql_like CHR 0x5C ''%'' s"
  by (auto intro: bexI [of _ "length s"])

lemma sql_like_escaped: "sql_like CHR 0x5C (like_escape p @ ''%'') (p @ s)"
proof (induction p)
  case Nil
  then show ?case using sql_like_any [of s] by (simp add: like_escape_def)
next
  case (Cons c p)
  then show ?case by (simp add: like_escape_def)
qed

text \<open>The folder condition selects exactly the rows whose path goes on below the folder: the
  escaped pattern never loses one, and a sibling folder that shares the name's beginning or differs in
  case is not selected.\<close>

theorem folder_condition_exact:
  "pathPrefixCondition folder column \<longleftrightarrow> (\<exists>rest. column = folder @ ''/'' @ rest)"
proof
  assume "pathPrefixCondition folder column"
  then have t: "take (length (folder @ ''/'')) column = folder @ ''/''"
    by (simp add: pathPrefixCondition_def Let_def)
  have "column = take (length (folder @ ''/'')) column @ drop (length (folder @ ''/'')) column"
    by (rule append_take_drop_id [symmetric])
  then show "\<exists>rest. column = folder @ ''/'' @ rest"
    using t by (metis append.assoc)
next
  assume "\<exists>rest. column = folder @ ''/'' @ rest"
  then obtain rest where "column = (folder @ ''/'') @ rest" by auto
  then show "pathPrefixCondition folder column"
    using sql_like_escaped [of "folder @ ''/''" rest] by (simp add: pathPrefixCondition_def Let_def)
qed

end
