(* ===== verification/Routing.thy ===== *)
theory Routing
  imports NodePaths "HOL-Library.Product_Lexorder"
begin

text \<open>
  Which remote a node's files go to: the tables of remotes and routing rules and their operations,
  \<^verbatim>\<open>apps/server/domain/sync/routing.ts\<close>.  Whether the process is a local workspace is an argument
  (\<open>isLocalWorkspace\<close> reads the process environment).  A configuration is its parsed JSON.
\<close>

record remote_row =
  rm_name :: string
  rm_type :: string
  rm_config :: json
  rm_created_by :: user_id
  rm_created_at :: timestamp

record routing_rule =
  ru_priority :: int
  ru_node_type :: "string option"
  ru_org_slug :: "string option"
  ru_remote :: string

record routing_db =
  remotes_t :: "remote_row list"
  rules_t :: "(nat \<times> routing_rule) list"      \<comment> \<open>the row id and the rule\<close>
  next_rule_id :: nat                         \<comment> \<open>the table's AUTOINCREMENT counter\<close>

datatype routing_error = LocalModeNoRemote | ForeignKey

definition assertRemoteCapable :: "bool \<Rightarrow> routing_error + unit" where
  "assertRemoteCapable local = (if local then Inl LocalModeNoRemote else Inr ())"

definition upsertRemote ::
  "bool \<Rightarrow> timestamp \<Rightarrow> string \<Rightarrow> string \<Rightarrow> json \<Rightarrow> user_id \<Rightarrow> routing_db \<Rightarrow> routing_error + routing_db" where
  "upsertRemote local now name ty config user db =
     bind_sum (assertRemoteCapable local) (\<lambda>_. Inr
       (if \<exists>r \<in> set (remotes_t db). rm_name r = name
        then db\<lparr>remotes_t := map (\<lambda>r. if rm_name r = name then r\<lparr>rm_type := ty, rm_config := config\<rparr> else r)
                               (remotes_t db)\<rparr>
        else db\<lparr>remotes_t := remotes_t db @
               [\<lparr>rm_name = name, rm_type = ty, rm_config = config, rm_created_by = user,
                 rm_created_at = now\<rparr>]\<rparr>))"

definition getRemote :: "routing_db \<Rightarrow> string \<Rightarrow> remote_row option" where
  "getRemote db name = find (\<lambda>r. rm_name r = name) (remotes_t db)"

definition listRemotes :: "bool \<Rightarrow> routing_db \<Rightarrow> remote_row list" where
  "listRemotes local db = (if local then [] else sort_key rm_name (remotes_t db))"

definition legacyRemoteRowCounts :: "routing_db \<Rightarrow> nat \<times> nat" where
  "legacyRemoteRowCounts db = (length (remotes_t db), length (rules_t db))"

text \<open>A remote a rule names cannot be deleted (\<open>ON DELETE RESTRICT\<close>).\<close>

definition deleteRemote :: "string \<Rightarrow> routing_db \<Rightarrow> routing_error + routing_db" where
  "deleteRemote name db =
     (if (\<exists>r \<in> set (remotes_t db). rm_name r = name) \<and> (\<exists>ru \<in> set (rules_t db). ru_remote (snd ru) = name)
      then Inl ForeignKey
      else Inr (db\<lparr>remotes_t := filter (\<lambda>r. rm_name r \<noteq> name) (remotes_t db)\<rparr>))"

definition addRule :: "routing_rule \<Rightarrow> routing_db \<Rightarrow> routing_error + routing_db" where
  "addRule rule db =
     (if \<forall>r \<in> set (remotes_t db). rm_name r \<noteq> ru_remote rule then Inl ForeignKey
      else Inr (db\<lparr>rules_t := rules_t db @ [(next_rule_id db, rule)], next_rule_id := Suc (next_rule_id db)\<rparr>))"

definition rule_order :: "nat \<times> routing_rule \<Rightarrow> int \<times> nat" where
  "rule_order r = (ru_priority (snd r), fst r)"

definition listRules :: "bool \<Rightarrow> routing_db \<Rightarrow> routing_rule list" where
  "listRules local db = (if local then [] else map snd (sort_key rule_order (rules_t db)))"

fun add_rules :: "routing_rule list \<Rightarrow> routing_db \<Rightarrow> routing_error + routing_db" where
  "add_rules [] db = Inr db"
| "add_rules (r # rs) db = bind_sum (addRule r db) (add_rules rs)"

text \<open>One transaction: the table is emptied and filled again, or left as it was.\<close>

definition replaceRules :: "routing_rule list \<Rightarrow> routing_db \<Rightarrow> routing_error option \<times> routing_db" where
  "replaceRules rules db =
     (case add_rules rules (db\<lparr>rules_t := []\<rparr>) of
        Inl e \<Rightarrow> (Some e, db)
      | Inr db' \<Rightarrow> (None, db'))"

fun resolveRemoteFromRules :: "routing_rule list \<Rightarrow> string \<Rightarrow> string option \<Rightarrow> string option" where
  "resolveRemoteFromRules [] nodeType orgSlug = None"
| "resolveRemoteFromRules (rule # rules) nodeType orgSlug =
     (if ru_node_type rule \<noteq> None \<and> ru_node_type rule \<noteq> Some nodeType
      then resolveRemoteFromRules rules nodeType orgSlug
      else if ru_org_slug rule \<noteq> None \<and> ru_org_slug rule \<noteq> orgSlug
      then resolveRemoteFromRules rules nodeType orgSlug
      else Some (ru_remote rule))"

text \<open>SQL's comparison with a NULL argument is not true.\<close>

definition sql_eq :: "'a option \<Rightarrow> 'a option \<Rightarrow> bool" where
  "sql_eq a b \<longleftrightarrow> (case (a, b) of (Some x, Some y) \<Rightarrow> x = y | _ \<Rightarrow> False)"

definition rule_matches :: "string \<Rightarrow> string option \<Rightarrow> routing_rule \<Rightarrow> bool" where
  "rule_matches nodeType orgSlug r \<longleftrightarrow>
     (sql_eq (ru_node_type r) (Some nodeType) \<or> ru_node_type r = None) \<and>
     (sql_eq (ru_org_slug r) orgSlug \<or> ru_org_slug r = None)"

definition resolveRemote :: "bool \<Rightarrow> routing_db \<Rightarrow> string \<Rightarrow> string option \<Rightarrow> string option" where
  "resolveRemote local db nodeType orgSlug =
     (if local then None
      else (case sort_key rule_order (filter (\<lambda>r. rule_matches nodeType orgSlug (snd r)) (rules_t db)) of
              [] \<Rightarrow> None
            | r # _ \<Rightarrow> Some (ru_remote (snd r))))"

section \<open>The two resolvers\<close>

lemma rule_matches_iff:
  "rule_matches t k r \<longleftrightarrow>
     \<not> (ru_node_type r \<noteq> None \<and> ru_node_type r \<noteq> Some t) \<and> \<not> (ru_org_slug r \<noteq> None \<and> ru_org_slug r \<noteq> k)"
  by (cases "ru_node_type r"; cases "ru_org_slug r"; cases k) (auto simp: rule_matches_def sql_eq_def)

lemma first_match_is_find:
  "resolveRemoteFromRules rs t k = map_option ru_remote (find (rule_matches t k) rs)"
  by (induction rs) (auto simp: rule_matches_iff)

lemma resolveRemote_is_find:
  "resolveRemote local db t k = map_option ru_remote (find (rule_matches t k) (listRules local db))"
proof -
  have "find (rule_matches t k) (map snd xs) =
      (case filter (\<lambda>r. rule_matches t k (snd r)) xs of [] \<Rightarrow> None | r # _ \<Rightarrow> Some (snd r))" for xs :: "(nat \<times> routing_rule) list"
    by (induction xs) auto
  then show ?thesis
    by (auto simp: resolveRemote_def listRules_def filter_sort [symmetric] split: list.split)
qed

lemma add_rules_rows:
  "add_rules rs db = Inr db' \<Longrightarrow>
     rules_t db' = rules_t db @ zip [next_rule_id db..<next_rule_id db + length rs] rs \<and> remotes_t db' = remotes_t db"
proof (induction rs arbitrary: db)
  case (Cons r rs)
  then obtain db1 where db1: "addRule r db = Inr db1" "add_rules rs db1 = Inr db'"
    by (auto simp: bind_sum_Inr)
  with Cons.IH [OF db1(2)] show ?case
    by (auto simp: addRule_def upt_conv_Cons simp del: upt_Suc split: if_split_asm)
qed simp

text \<open>Ascending ids keep the order of rules with the same priority.\<close>

lemma insort_zip:
  "\<forall>y \<in> set xs. i < fst y \<Longrightarrow> sorted (map rule_order xs) \<Longrightarrow>
     map snd (insort_key rule_order (i, r) xs) = insort_key ru_priority r (map snd xs)"
  by (induction xs) (auto simp: rule_order_def)

lemma sort_by_order_is_stable:
  "map snd (sort_key rule_order (zip [n..<n + length rs] rs)) = sort_key ru_priority rs"
proof (induction rs arbitrary: n)
  case (Cons r rs)
  have "zip [n..<n + length (r # rs)] (r # rs) = (n, r) # zip [Suc n..<Suc n + length rs] rs"
    by (simp add: upt_conv_Cons del: upt_Suc)
  moreover have "\<forall>y \<in> set (sort_key rule_order (zip [Suc n..<Suc n + length rs] rs)). n < fst y"
    by (auto simp del: upt_Suc dest!: set_zip_leftD)
  ultimately show ?case
    using Cons.IH [of "Suc n"] by (simp add: insort_zip)
qed simp

text \<open>The in-memory resolver run on the listed rules and the database query choose the same
  remote, for every node type and organization, in a local workspace too.\<close>

theorem resolvers_agree:
  "resolveRemoteFromRules (listRules local db) t k = resolveRemote local db t k"
  by (simp add: first_match_is_find resolveRemote_is_find)

text \<open>Replacing the rules either fails and changes nothing, or installs exactly the given rules:
  they are listed by ascending priority, in the given order within a priority, and the first of them
  that matches decides.\<close>

theorem replaced_rules_decide:
  "(case replaceRules rules db of
      (Some e, db') \<Rightarrow> db' = db \<and> (\<exists>r \<in> set rules. getRemote db (ru_remote r) = None)
    | (None, db') \<Rightarrow>
        listRules False db' = sort_key ru_priority rules \<and> remotes_t db' = remotes_t db \<and>
        (\<forall>t k. resolveRemote False db' t k =
                 map_option ru_remote (find (rule_matches t k) (sort_key ru_priority rules))))"
proof -
  have failed: "\<exists>r \<in> set rs. getRemote d (ru_remote r) = None" if "add_rules rs d = Inl e" for rs d e
    using that
  proof (induction rs arbitrary: d)
    case (Cons r rs)
    show ?case
    proof (cases "addRule r d")
      case (Inl e')
      then show ?thesis by (auto simp: addRule_def getRemote_def find_None_iff split: if_split_asm)
    next
      case (Inr d')
      then have "remotes_t d' = remotes_t d" by (auto simp: addRule_def split: if_split_asm)
      with Cons Inr show ?thesis by (fastforce simp: getRemote_def)
    qed
  qed simp
  show ?thesis
  proof (cases "add_rules rules (db\<lparr>rules_t := []\<rparr>)")
    case (Inl e)
    with failed [OF Inl] show ?thesis by (simp add: replaceRules_def getRemote_def)
  next
    case (Inr db')
    have "listRules False db' = sort_key ru_priority rules" "remotes_t db' = remotes_t db"
      using add_rules_rows [OF Inr] sort_by_order_is_stable by (simp_all add: listRules_def)
    with Inr show ?thesis by (simp add: replaceRules_def resolveRemote_is_find)
  qed
qed

end
