(* ===== verification/Edges.thy ===== *)
theory Edges
  imports WriteGate Routing
begin

text \<open>
  The edges of the graph and the organization invariant: the constraints and triggers of the edge
  table (\<^verbatim>\<open>apps/server/infra/schema-triggers.ts\<close>), the domain mutations
  (\<^verbatim>\<open>apps/server/domain/edges.ts\<close>), the MCP tools (\<^verbatim>\<open>apps/server/mcp/tools/edges.ts\<close>) and the
  REST handlers (\<^verbatim>\<open>apps/server/api/edges.ts\<close>).  A statement that aborts changes nothing.  The
  remote's rename (\<open>getAdapter\<close> and the adapter behind it) is an argument: the remote, the old and
  the new path, and the error text of a failure.
\<close>

section \<open>The edge table\<close>

definition EDGE_RELATIONS :: "string list" where
  "EDGE_RELATIONS = [''related_to'', ''belongs_to'', ''applies'', ''informed_by'']"

definition type_of_node :: "graph_db \<Rightarrow> node_id \<Rightarrow> string option" where
  "type_of_node db i = map_option nd_type (node_by_id db i)"

definition is_org :: "graph_db \<Rightarrow> node_id \<Rightarrow> bool" where
  "is_org db i \<longleftrightarrow> type_of_node db i = Some ''organization''"

definition is_non_org :: "graph_db \<Rightarrow> node_id \<Rightarrow> bool" where
  "is_non_org db i \<longleftrightarrow>
     (case type_of_node db i of None \<Rightarrow> False | Some t \<Rightarrow> t \<noteq> ''organization'')"

lemma is_non_org_iff: "is_non_org db i \<longleftrightarrow> (\<exists>t. type_of_node db i = Some t \<and> t \<noteq> ''organization'')"
  by (simp add: is_non_org_def split: option.split)

text \<open>\<open>COUNT(*)\<close> over the membership edges of a node.\<close>

definition org_count :: "graph_db \<Rightarrow> node_id \<Rightarrow> nat" where
  "org_count db i = length (org_membership_edges db i)"

definition prevent_multi_parent_org :: "graph_db \<Rightarrow> edge_row \<Rightarrow> bool" where
  "prevent_multi_parent_org db e \<longleftrightarrow>
     ed_relation e = ''belongs_to'' \<and> is_non_org db (ed_source e) \<and> is_org db (ed_target e) \<and>
     org_membership_edges db (ed_source e) \<noteq> []"

definition prevent_orphan_on_edge_delete :: "graph_db \<Rightarrow> edge_row \<Rightarrow> bool" where
  "prevent_orphan_on_edge_delete db e \<longleftrightarrow>
     ed_relation e = ''belongs_to'' \<and> is_non_org db (ed_source e) \<and> is_org db (ed_target e) \<and>
     org_count db (ed_source e) \<le> 1"

definition same_link :: "edge_row \<Rightarrow> edge_row \<Rightarrow> bool" where
  "same_link a b \<longleftrightarrow>
     ed_source a = ed_source b \<and> ed_target a = ed_target b \<and> ed_relation a = ed_relation b"

text \<open>The table's own constraints: foreign keys, checks, and the unique index on a link.\<close>

definition edge_row_ok :: "graph_db \<Rightarrow> edge_row \<Rightarrow> bool" where
  "edge_row_ok db e \<longleftrightarrow>
     type_of_node db (ed_source e) \<noteq> None \<and> type_of_node db (ed_target e) \<noteq> None \<and>
     ed_relation e \<in> set EDGE_RELATIONS \<and> ed_source e \<noteq> ed_target e"

datatype db_abort = TriggerAbort string | ConstraintAbort

definition insert_edge :: "edge_row \<Rightarrow> graph_db \<Rightarrow> db_abort + graph_db" where
  "insert_edge e db =
     (if prevent_multi_parent_org db e then Inl (TriggerAbort ''prevent_multi_parent_org'')
      else if \<not> edge_row_ok db e \<or> (\<exists>x \<in> set (edges_t db). ed_id x = ed_id e \<or> same_link x e)
      then Inl ConstraintAbort
      else Inr (db\<lparr>edges_t := edges_t db @ [e]\<rparr>))"

text \<open>A DELETE runs the trigger row by row; one abort undoes the whole statement.\<close>

fun delete_edge_rows :: "edge_row list \<Rightarrow> graph_db \<Rightarrow> db_abort + graph_db" where
  "delete_edge_rows [] db = Inr db"
| "delete_edge_rows (e # es) db =
     (if prevent_orphan_on_edge_delete db e then Inl (TriggerAbort ''prevent_orphan_on_edge_delete'')
      else delete_edge_rows es (db\<lparr>edges_t := remove1 e (edges_t db)\<rparr>))"

definition delete_edges_where :: "(edge_row \<Rightarrow> bool) \<Rightarrow> graph_db \<Rightarrow> db_abort + graph_db" where
  "delete_edges_where P db = delete_edge_rows (filter P (edges_t db)) db"

definition update_edge_target :: "string \<Rightarrow> node_id \<Rightarrow> graph_db \<Rightarrow> db_abort + graph_db" where
  "update_edge_target eid target db =
     (case find (\<lambda>e. ed_id e = eid) (edges_t db) of
        None \<Rightarrow> Inr db
      | Some e \<Rightarrow>
          let e' = e\<lparr>ed_target := target\<rparr>
          in if \<not> edge_row_ok db e' \<or> (\<exists>x \<in> set (edges_t db). ed_id x \<noteq> eid \<and> same_link x e')
             then Inl ConstraintAbort
             else Inr (db\<lparr>edges_t := map (\<lambda>x. if ed_id x = eid then x\<lparr>ed_target := target\<rparr> else x)
                                     (edges_t db)\<rparr>))"

section \<open>Refusals\<close>

datatype edge_error_code =
    EDGE_NOT_FOUND | ORG_LAST_EDGE | NODE_NOT_FOUND | ORGANIZATION_NOT_FOUND
  | MOVE_SOURCE_IS_ORGANIZATION | MOVE_TARGET_NOT_ORGANIZATION | MOVE_REMOTE_MISMATCH

definition EDGE_ERROR_STATUS :: "edge_error_code \<Rightarrow> nat" where
  "EDGE_ERROR_STATUS c =
     (case c of
        EDGE_NOT_FOUND \<Rightarrow> 404 | ORG_LAST_EDGE \<Rightarrow> 409 | NODE_NOT_FOUND \<Rightarrow> 404
      | ORGANIZATION_NOT_FOUND \<Rightarrow> 404 | MOVE_SOURCE_IS_ORGANIZATION \<Rightarrow> 400
      | MOVE_TARGET_NOT_ORGANIZATION \<Rightarrow> 400 | MOVE_REMOTE_MISMATCH \<Rightarrow> 409)"

text \<open>An \<open>EdgeError\<close> with its parameters, or any other error the function throws.\<close>

datatype edge_failure =
    EdgeError edge_error_code "(string \<times> json) list"
  | NoMembership node_id
  | PathFailure path_error
  | DbFailure db_abort

definition db_result :: "db_abort + 'a \<Rightarrow> edge_failure + 'a" where
  "db_result r = (case r of Inl a \<Rightarrow> Inl (DbFailure a) | Inr x \<Rightarrow> Inr x)"

definition json_opt_str :: "string option \<Rightarrow> json" where
  "json_opt_str s = (case s of None \<Rightarrow> JNull | Some t \<Rightarrow> JStr t)"

section \<open>Disconnecting by id\<close>

definition edge_detail :: "node_id \<Rightarrow> node_id \<Rightarrow> string \<Rightarrow> json" where
  "edge_detail s t rel = JObj [(''source_id'', JStr s), (''target_id'', JStr t), (''relation'', JStr rel)]"

definition joined_edge :: "graph_db \<Rightarrow> string \<Rightarrow> (edge_row \<times> string \<times> string) option" where
  "joined_edge db eid =
     (case find (\<lambda>e. ed_id e = eid) (edges_t db) of
        None \<Rightarrow> None
      | Some e \<Rightarrow>
          (case (type_of_node db (ed_source e), type_of_node db (ed_target e)) of
             (Some s, Some t) \<Rightarrow> Some (e, s, t)
           | _ \<Rightarrow> None))"

definition publish_both :: "node_id \<Rightarrow> node_id \<Rightarrow> graph_db \<Rightarrow> graph_db" where
  "publish_both s t db = publishNodeChange t ChangeNode (publishNodeChange s ChangeNode db)"

definition disconnectEdgeById :: "user_id \<Rightarrow> string \<Rightarrow> graph_db \<Rightarrow> edge_failure + graph_db" where
  "disconnectEdgeById user eid db =
     (case joined_edge db eid of
        None \<Rightarrow> Inl (EdgeError EDGE_NOT_FOUND [(''edgeId'', JStr eid)])
      | Some (e, sourceType, targetType) \<Rightarrow>
          if ed_relation e = ''belongs_to'' \<and> sourceType \<noteq> ''organization'' \<and> targetType = ''organization'' \<and>
             org_count db (ed_source e) \<le> 1
          then Inl (EdgeError ORG_LAST_EDGE [(''nodeId'', JStr (ed_source e))])
          else bind_sum (db_result (delete_edges_where (\<lambda>x. ed_id x = eid) db)) (\<lambda>db'.
                 Inr (publish_both (ed_source e) (ed_target e)
                   (writeAudit user ''disconnect'' ''edge'' eid
                      (Some (edge_detail (ed_source e) (ed_target e) (ed_relation e))) db'))))"

section \<open>Moving a node to another organization\<close>

record migration =
  mg_file :: string
  mg_remote :: "string option"
  mg_old :: string
  mg_new :: string

record move_result =
  mv_moved :: bool
  mv_edge :: string
  mv_from :: node_id
  mv_to :: node_id
  mv_migrated :: nat
  mv_repair :: "(string \<times> string) list"

definition tracked_files :: "graph_db \<Rightarrow> node_id \<Rightarrow> file_row list" where
  "tracked_files db i = filter (\<lambda>f. fl_node f = i \<and> fl_remote_path f \<noteq> None) (files_t db)"

fun plan_files :: "string option \<Rightarrow> string \<Rightarrow> string \<Rightarrow> file_row list \<Rightarrow> edge_failure + migration list" where
  "plan_files target oldRoot newRoot [] = Inr []"
| "plan_files target oldRoot newRoot (f # fs) =
     (if target \<noteq> None \<and> target \<noteq> fl_remote_name f
      then Inl (EdgeError MOVE_REMOTE_MISMATCH
             [(''remoteName'', json_opt_str (fl_remote_name f)), (''targetRemote'', json_opt_str target)])
      else (let old = (case fl_remote_path f of Some p \<Rightarrow> p | None \<Rightarrow> []);
                new = (if \<not> prefix (oldRoot @ ''/'') old then old else newRoot @ drop (length oldRoot) old)
            in bind_sum (plan_files target oldRoot newRoot fs) (\<lambda>ms.
                 Inr (\<lparr>mg_file = fl_id f, mg_remote = fl_remote_name f, mg_old = old, mg_new = new\<rparr> # ms))))"

definition path_result :: "path_error + 'a \<Rightarrow> edge_failure + 'a" where
  "path_result r = (case r of Inl e \<Rightarrow> Inl (PathFailure e) | Inr x \<Rightarrow> Inr x)"

definition plan_move ::
  "bool \<Rightarrow> routing_db \<Rightarrow> graph_db \<Rightarrow> node_id \<Rightarrow> node_id \<Rightarrow> edge_failure + migration list" where
  "plan_move local rdb db i org =
     (let tracked = tracked_files db i
      in if tracked = [] then Inr []
         else (case (resolveNodeInfo db i, node_by_id db org) of
                 (Some old, Some orgRow) \<Rightarrow>
                   bind_sum (path_result (buildNodeRoot old)) (\<lambda>oldRoot.
                   bind_sum (path_result (buildNodeRoot (old\<lparr>in_org := Some (nd_sync_key orgRow)\<rparr>))) (\<lambda>newRoot.
                     plan_files (resolveRemote local rdb (in_type old) (Some (nd_sync_key orgRow)))
                       oldRoot newRoot tracked))
               | _ \<Rightarrow> Inl (EdgeError NODE_NOT_FOUND [(''nodeId'', JStr i)])))"

definition update_file_path :: "string \<Rightarrow> string \<Rightarrow> timestamp \<Rightarrow> graph_db \<Rightarrow> db_abort + graph_db" where
  "update_file_path fid path now db =
     (if \<exists>f \<in> set (files_t db). fl_id f = fid \<and>
           (\<exists>g \<in> set (files_t db). fl_id g \<noteq> fid \<and> fl_node g = fl_node f \<and> fl_remote_path g = Some path)
      then Inl ConstraintAbort
      else Inr (db\<lparr>files_t := map (\<lambda>f. if fl_id f = fid then f\<lparr>fl_remote_path := Some path, fl_updated_at := now\<rparr>
                                    else f) (files_t db)\<rparr>))"

text \<open>One file of the loop: the error it is reported with, if any, and the tables after it.\<close>

definition migrate_file ::
  "bool \<Rightarrow> (string option \<Rightarrow> string \<Rightarrow> string \<Rightarrow> string option) \<Rightarrow> timestamp \<Rightarrow> migration \<Rightarrow> graph_db \<Rightarrow>
     string option \<times> graph_db" where
  "migrate_file local rename now m db =
     (if mg_old m = mg_new m
      then (Some (''remote_path did not start with the old node root; left unchanged ('' @ mg_old m @ '')''), db)
      else (case (if local then None else rename (mg_remote m) (mg_old m) (mg_new m)) of
              Some e \<Rightarrow> (Some e, db)
            | None \<Rightarrow>
                (case update_file_path (mg_file m) (mg_new m) now db of
                   Inl _ \<Rightarrow> (Some ''constraint failed'', db)
                 | Inr db' \<Rightarrow> (None, db'))))"

fun migrate_files ::
  "bool \<Rightarrow> (string option \<Rightarrow> string \<Rightarrow> string \<Rightarrow> string option) \<Rightarrow> timestamp \<Rightarrow> migration list \<Rightarrow> graph_db \<Rightarrow>
     (nat \<times> (string \<times> string) list) \<times> graph_db" where
  "migrate_files local rename now [] db = ((0, []), db)"
| "migrate_files local rename now (m # ms) db =
     (let (err, db1) = migrate_file local rename now m db;
          ((n, repair), db2) = migrate_files local rename now ms db1
      in ((case err of None \<Rightarrow> (Suc n, repair) | Some e \<Rightarrow> (n, (mg_file m, e) # repair)), db2))"

definition finish_move ::
  "user_id \<Rightarrow> node_id \<Rightarrow> node_id \<Rightarrow> edge_row \<Rightarrow> (nat \<times> (string \<times> string) list) \<times> graph_db \<Rightarrow>
     move_result \<times> graph_db" where
  "finish_move user i org e res =
     (let ((n, repair), db2) = res
      in (\<lparr>mv_moved = True, mv_edge = ed_id e, mv_from = ed_target e, mv_to = org,
           mv_migrated = n, mv_repair = repair\<rparr>,
          writeAudit user ''move_node'' ''node'' i
            (Some (JObj [(''edge_id'', JStr (ed_id e)), (''from_org_id'', JStr (ed_target e)),
               (''to_org_id'', JStr org), (''files_migrated'', JNum (int n)),
               (''files_repair_needed'', JNum (int (length repair)))])) db2))"

definition unmoved :: "node_id \<Rightarrow> edge_row \<Rightarrow> move_result" where
  "unmoved org e =
     \<lparr>mv_moved = False, mv_edge = ed_id e, mv_from = ed_target e, mv_to = org,
      mv_migrated = 0, mv_repair = []\<rparr>"

definition moveNodeToOrganization ::
  "bool \<Rightarrow> (string option \<Rightarrow> string \<Rightarrow> string \<Rightarrow> string option) \<Rightarrow> timestamp \<Rightarrow> routing_db \<Rightarrow> user_id \<Rightarrow>
     node_id \<Rightarrow> node_id \<Rightarrow> graph_db \<Rightarrow> edge_failure + (move_result \<times> graph_db)" where
  "moveNodeToOrganization local rename now rdb user i org db =
     (case type_of_node db i of
        None \<Rightarrow> Inl (EdgeError NODE_NOT_FOUND [(''nodeId'', JStr i)])
      | Some t \<Rightarrow>
      if t = ''organization'' then Inl (EdgeError MOVE_SOURCE_IS_ORGANIZATION [(''nodeId'', JStr i)])
      else (case type_of_node db org of
        None \<Rightarrow> Inl (EdgeError ORGANIZATION_NOT_FOUND [(''organizationId'', JStr org)])
      | Some ot \<Rightarrow>
      if ot \<noteq> ''organization''
      then Inl (EdgeError MOVE_TARGET_NOT_ORGANIZATION [(''targetId'', JStr org), (''type'', JStr ot)])
      else (case org_membership_edges db i of
        [] \<Rightarrow> Inl (NoMembership i)
      | e # _ \<Rightarrow>
      if ed_target e = org
      then Inr (unmoved org e, db)
      else
        bind_sum (plan_move local rdb db i org) (\<lambda>plan.
        bind_sum (db_result (update_edge_target (ed_id e) org db)) (\<lambda>db1.
          Inr (finish_move user i org e (migrate_files local rename now plan db1)))))))"

section \<open>The MCP tools\<close>

datatype edge_tool_error =
    SourceNotFound node_id
  | TargetNotFound node_id
  | MoveNotFound node_id
  | AlreadyBelongs node_id string node_id
  | SelfLoop node_id
  | LastMembership node_id
  | EdgeFailed edge_failure

datatype edge_reply =
    Connected string node_id node_id string
  | EdgeExists string
  | Disconnected nat
  | Moved move_result
  | EdgeToolError edge_tool_error
  | EdgeWriteError write_error

definition name_of_node :: "graph_db \<Rightarrow> node_id \<Rightarrow> string" where
  "name_of_node db i = (case node_by_id db i of None \<Rightarrow> [] | Some n \<Rightarrow> nd_name n)"

text \<open>What \<open>portuni_connect\<close> does once the endpoints are visible and the source may be written.\<close>

definition connect_checked ::
  "user_id \<Rightarrow> timestamp \<Rightarrow> string \<Rightarrow> node_id \<Rightarrow> node_id \<Rightarrow> string \<Rightarrow> json option \<Rightarrow> graph_db \<Rightarrow>
     edge_reply \<times> graph_db" where
  "connect_checked user now eid s t rel meta db =
     (if rel = ''belongs_to'' \<and> is_org db t \<and> \<not> is_org db s \<and> org_membership_edges db s \<noteq> []
      then (let existing = hd (org_membership_edges db s)
            in (EdgeToolError (AlreadyBelongs s (name_of_node db (ed_target existing)) (ed_target existing)), db))
      else if s = t then (EdgeToolError (SelfLoop s), db)
      else (case filter (\<lambda>e. ed_source e = s \<and> ed_target e = t \<and> ed_relation e = rel) (edges_t db) of
              e # _ \<Rightarrow> (EdgeExists (ed_id e), db)
            | [] \<Rightarrow>
                (case insert_edge \<lparr>ed_id = eid, ed_source = s, ed_target = t, ed_relation = rel, ed_meta = meta,
                                   ed_created_by = user, ed_created_at = now\<rparr> db of
                   Inl a \<Rightarrow> (EdgeToolError (EdgeFailed (DbFailure a)), db)
                 | Inr db' \<Rightarrow>
                     (Connected eid s t rel,
                      publish_both s t
                        (writeAudit user ''connect'' ''edge'' eid (Some (edge_detail s t rel)) db')))))"

definition portuni_connect ::
  "group_identity \<Rightarrow> (string \<Rightarrow> elicit_outcome) option \<Rightarrow> timestamp \<Rightarrow> string \<Rightarrow> node_id \<Rightarrow> node_id \<Rightarrow>
     string \<Rightarrow> json option \<Rightarrow> session_scope \<times> graph_db \<Rightarrow> edge_reply \<times> session_scope \<times> graph_db" where
  "portuni_connect viewer elicitor now eid s t rel meta st =
     (let (scope, db) = st
      in if type_of_node db s = None \<or> \<not> nodeVisibleTo db viewer s
         then (EdgeToolError (SourceNotFound s), scope, db)
         else if type_of_node db t = None \<or> \<not> nodeVisibleTo db viewer t
         then (EdgeToolError (TargetNotFound t), scope, db)
         else (case guardNodeWrite (Some db) elicitor s scope of
                 (Some e, scope1) \<Rightarrow> (EdgeWriteError e, scope1, db)
               | (None, scope1) \<Rightarrow>
                   (case connect_checked (gi_user viewer) now eid s t rel meta db of
                      (reply, db1) \<Rightarrow> (reply, scope1, db1))))"

text \<open>The selection of \<open>portuni_disconnect\<close>: one relation between the two nodes, or all of them.\<close>

definition disconnect_rows :: "node_id \<Rightarrow> node_id \<Rightarrow> string option \<Rightarrow> edge_row \<Rightarrow> bool" where
  "disconnect_rows s t rel e \<longleftrightarrow>
     ed_source e = s \<and> ed_target e = t \<and> (case rel of None \<Rightarrow> True | Some r \<Rightarrow> ed_relation e = r)"

definition disconnect_checked ::
  "user_id \<Rightarrow> node_id \<Rightarrow> node_id \<Rightarrow> string option \<Rightarrow> graph_db \<Rightarrow> edge_reply \<times> graph_db" where
  "disconnect_checked user s t rel db =
     (if (rel = None \<or> rel = Some ''belongs_to'') \<and> is_non_org db s \<and> is_org db t \<and> org_count db s \<le> 1
      then (EdgeToolError (LastMembership s), db)
      else (case delete_edges_where (disconnect_rows s t rel) db of
              Inl a \<Rightarrow> (EdgeToolError (EdgeFailed (DbFailure a)), db)
            | Inr db' \<Rightarrow>
                (Disconnected (length (filter (disconnect_rows s t rel) (edges_t db))),
                 publish_both s t
                   (writeAudit user ''disconnect'' ''edge'' (s @ ''->'' @ t)
                      (Some (edge_detail s t (case rel of None \<Rightarrow> ''all'' | Some r \<Rightarrow> r))) db'))))"

definition portuni_disconnect ::
  "group_identity \<Rightarrow> (string \<Rightarrow> elicit_outcome) option \<Rightarrow> node_id \<Rightarrow> node_id \<Rightarrow> string option \<Rightarrow>
     session_scope \<times> graph_db \<Rightarrow> edge_reply \<times> session_scope \<times> graph_db" where
  "portuni_disconnect viewer elicitor s t rel st =
     (let (scope, db) = st
      in if \<not> nodeVisibleTo db viewer s then (EdgeToolError (SourceNotFound s), scope, db)
         else if \<not> nodeVisibleTo db viewer t then (EdgeToolError (TargetNotFound t), scope, db)
         else (case guardNodeWrite (Some db) elicitor s scope of
                 (Some e, scope1) \<Rightarrow> (EdgeWriteError e, scope1, db)
               | (None, scope1) \<Rightarrow>
                   (case disconnect_checked (gi_user viewer) s t rel db of
                      (reply, db1) \<Rightarrow> (reply, scope1, db1))))"

definition portuni_move_node ::
  "group_identity \<Rightarrow> (string \<Rightarrow> elicit_outcome) option \<Rightarrow> bool \<Rightarrow>
     (string option \<Rightarrow> string \<Rightarrow> string \<Rightarrow> string option) \<Rightarrow> timestamp \<Rightarrow> routing_db \<Rightarrow> node_id \<Rightarrow> node_id \<Rightarrow>
     session_scope \<times> graph_db \<Rightarrow> edge_reply \<times> session_scope \<times> graph_db" where
  "portuni_move_node viewer elicitor local rename now rdb i org st =
     (let (scope, db) = st
      in if \<not> nodeVisibleTo db viewer i then (EdgeToolError (MoveNotFound i), scope, db)
         else if \<not> nodeVisibleTo db viewer org then (EdgeToolError (MoveNotFound org), scope, db)
         else (case guardNodeWrite (Some db) elicitor i scope of
                 (Some e, scope1) \<Rightarrow> (EdgeWriteError e, scope1, db)
               | (None, scope1) \<Rightarrow>
                   (case moveNodeToOrganization local rename now rdb (gi_user viewer) i org db of
                      Inl e \<Rightarrow> (EdgeToolError (EdgeFailed e), scope1, db)
                    | Inr (r, db1) \<Rightarrow> (Moved r, scope1, db1))))"

section \<open>The REST handlers\<close>

datatype edge_rest_reply =
    RestCreated string node_id node_id string
  | RestDuplicate string
  | RestDeleted string
  | RestInvalidBody
  | RestError nat string "(string \<times> json) list"
  | RestWriteError api_error
  | RestFailed edge_failure

definition edge_code_name :: "edge_error_code \<Rightarrow> string" where
  "edge_code_name c =
     (case c of
        EDGE_NOT_FOUND \<Rightarrow> ''EDGE_NOT_FOUND'' | ORG_LAST_EDGE \<Rightarrow> ''ORG_LAST_EDGE''
      | NODE_NOT_FOUND \<Rightarrow> ''NODE_NOT_FOUND'' | ORGANIZATION_NOT_FOUND \<Rightarrow> ''ORGANIZATION_NOT_FOUND''
      | MOVE_SOURCE_IS_ORGANIZATION \<Rightarrow> ''MOVE_SOURCE_IS_ORGANIZATION''
      | MOVE_TARGET_NOT_ORGANIZATION \<Rightarrow> ''MOVE_TARGET_NOT_ORGANIZATION''
      | MOVE_REMOTE_MISMATCH \<Rightarrow> ''MOVE_REMOTE_MISMATCH'')"

definition rest_failure :: "edge_failure \<Rightarrow> edge_rest_reply" where
  "rest_failure f =
     (case f of
        EdgeError c params \<Rightarrow> RestError (EDGE_ERROR_STATUS c) (edge_code_name c) params
      | _ \<Rightarrow> RestFailed f)"

definition create_edge_body_ok :: "node_id \<Rightarrow> node_id \<Rightarrow> string \<Rightarrow> bool" where
  "create_edge_body_ok s t rel \<longleftrightarrow> s \<noteq> [] \<and> t \<noteq> [] \<and> rel \<in> set EDGE_RELATIONS \<and> s \<noteq> t"

definition handleCreateEdge ::
  "session_db \<Rightarrow> string option \<Rightarrow> rest_request \<Rightarrow> request_identity \<Rightarrow> group_identity \<Rightarrow> timestamp \<Rightarrow> string \<Rightarrow>
     node_id \<Rightarrow> node_id \<Rightarrow> string \<Rightarrow> graph_db \<Rightarrow> edge_rest_reply \<times> graph_db" where
  "handleCreateEdge sdb env rq ident viewer now eid s t rel db =
     (if \<not> create_edge_body_ok s t rel then (RestInvalidBody, db)
      else if length (filter (\<lambda>n. nd_id n = s \<or> nd_id n = t) (nodes_t db)) < 2
      then (RestError 404 ''EDGE_ENDPOINT_NOT_FOUND'' [], db)
      else if \<not> nodeVisibleTo db viewer s \<or> \<not> nodeVisibleTo db viewer t
      then (RestError 404 ''EDGE_ENDPOINT_NOT_FOUND'' [], db)
      else (case filter (\<lambda>e. ed_source e = s \<and> ed_target e = t \<and> ed_relation e = rel) (edges_t db) of
              e # _ \<Rightarrow> (RestDuplicate (ed_id e), db)
            | [] \<Rightarrow>
                (case guardRestNodeWrite sdb env rq ident s of
                   Some err \<Rightarrow> (RestWriteError err, db)
                 | None \<Rightarrow>
                     (case insert_edge \<lparr>ed_id = eid, ed_source = s, ed_target = t, ed_relation = rel,
                                        ed_meta = None, ed_created_by = ri_user ident, ed_created_at = now\<rparr> db of
                        Inl a \<Rightarrow> (RestFailed (DbFailure a), db)
                      | Inr db' \<Rightarrow>
                          (RestCreated eid s t rel,
                           publish_both s t
                             (writeAudit (ri_user ident) ''connect'' ''edge'' eid
                                (Some (edge_detail s t rel)) db'))))))"

definition delete_edge_found :: "user_id \<Rightarrow> string \<Rightarrow> graph_db \<Rightarrow> edge_rest_reply \<times> graph_db" where
  "delete_edge_found user eid db =
     (case disconnectEdgeById user eid db of
        Inl f \<Rightarrow> (rest_failure f, db)
      | Inr db' \<Rightarrow> (RestDeleted eid, db'))"

definition handleDeleteEdge ::
  "session_db \<Rightarrow> string option \<Rightarrow> rest_request \<Rightarrow> request_identity \<Rightarrow> group_identity \<Rightarrow> string \<Rightarrow> graph_db \<Rightarrow>
     edge_rest_reply \<times> graph_db" where
  "handleDeleteEdge sdb env rq ident viewer eid db =
     (case find (\<lambda>e. ed_id e = eid) (edges_t db) of
        None \<Rightarrow> delete_edge_found (ri_user ident) eid db
      | Some e \<Rightarrow>
          if \<not> nodeVisibleTo db viewer (ed_source e) \<or> \<not> nodeVisibleTo db viewer (ed_target e)
          then (RestError 404 ''EDGE_NOT_FOUND'' [(''edgeId'', JStr eid)], db)
          else (case guardRestNodeWrite sdb env rq ident (ed_source e) of
                  Some err \<Rightarrow> (RestWriteError err, db)
                | None \<Rightarrow> delete_edge_found (ri_user ident) eid db))"

end
