(* ===== verification/OrgInvariant.thy ===== *)
theory OrgInvariant
  imports Edges Samples
begin

text \<open>
  The organization invariant on the edge table and the statements that keep it: the triggers alone
  keep it under every INSERT and DELETE, and the rebind of a membership keeps it by construction.
\<close>

section \<open>The invariant\<close>

definition org_inv :: "graph_db \<Rightarrow> bool" where
  "org_inv db \<longleftrightarrow>
     unique_nodes db \<and> distinct (map ed_id (edges_t db)) \<and>
     (\<forall>e \<in> set (edges_t db). edge_row_ok db e) \<and>
     (\<forall>a \<in> set (edges_t db). \<forall>b \<in> set (edges_t db). same_link a b \<longrightarrow> a = b) \<and>
     (\<forall>n \<in> set (nodes_t db). nd_type n \<noteq> ''organization'' \<longrightarrow> org_count db (nd_id n) = 1)"

definition is_membership :: "graph_db \<Rightarrow> node_id \<Rightarrow> edge_row \<Rightarrow> bool" where
  "is_membership db i e \<longleftrightarrow> ed_source e = i \<and> ed_relation e = ''belongs_to'' \<and> is_org db (ed_target e)"

named_theorems org_frames \<open>what an operation leaves alone\<close>

lemma node_by_id_frame: "nodes_t db' = nodes_t db \<Longrightarrow> node_by_id db' i = node_by_id db i"
  by (simp add: node_by_id_def)

lemma type_frame: "nodes_t db' = nodes_t db \<Longrightarrow> type_of_node db' i = type_of_node db i"
  by (simp add: type_of_node_def node_by_id_def)

lemma is_org_frame: "nodes_t db' = nodes_t db \<Longrightarrow> is_org db' i = is_org db i"
  by (simp add: is_org_def type_frame [of db' db])

lemma is_non_org_frame: "nodes_t db' = nodes_t db \<Longrightarrow> is_non_org db' i = is_non_org db i"
  by (simp add: is_non_org_iff type_frame [of db' db])

lemma edge_row_ok_frame: "nodes_t db' = nodes_t db \<Longrightarrow> edge_row_ok db' e = edge_row_ok db e"
  by (simp add: edge_row_ok_def type_frame [of db' db])

lemma node_found:
  "unique_nodes db \<Longrightarrow> n \<in> set (nodes_t db) \<Longrightarrow> node_by_id db (nd_id n) = Some n"
  using row_of_unique [of nd_id "nodes_t db" n] by (simp add: row_of_def node_by_id_def unique_nodes_def)

lemma is_org_iff:
  "unique_nodes db \<Longrightarrow> is_org db i \<longleftrightarrow> (\<exists>t \<in> set (nodes_t db). nd_id t = i \<and> nd_type t = ''organization'')"
  using node_found [of db] node_by_id_SomeD [of db i]
  by (fastforce simp: is_org_def type_of_node_def)

lemma memberships_eq:
  "unique_nodes db \<Longrightarrow> org_membership_edges db i = filter (is_membership db i) (edges_t db)"
  unfolding org_membership_edges_def
  by (rule filter_cong) (auto simp: is_membership_def is_org_iff)

lemma org_count_eq: "unique_nodes db \<Longrightarrow> org_count db i = length (filter (is_membership db i) (edges_t db))"
  by (simp add: org_count_def memberships_eq)

lemma membership_frame: "nodes_t db' = nodes_t db \<Longrightarrow> is_membership db' = is_membership db"
  by (intro ext) (simp add: is_membership_def is_org_frame [of db' db])

lemma unique_frame: "nodes_t db' = nodes_t db \<Longrightarrow> unique_nodes db' = unique_nodes db"
  by (simp add: unique_nodes_def)

lemma org_inv_unique: "org_inv db \<Longrightarrow> unique_nodes db"
  by (simp add: org_inv_def)

lemma org_inv_count:
  "org_inv db \<Longrightarrow> is_non_org db i \<Longrightarrow> length (filter (is_membership db i) (edges_t db)) = 1"
  by (auto simp: org_inv_def is_non_org_iff type_of_node_def org_count_eq dest: node_by_id_SomeD)

text \<open>The invariant only reads nodes and edges, so it can be re-established on the edges alone.\<close>

lemma org_invI:
  assumes "org_inv db" and "nodes_t db' = nodes_t db"
    and "distinct (map ed_id (edges_t db'))"
    and "\<And>e. e \<in> set (edges_t db') \<Longrightarrow> edge_row_ok db e"
    and "\<And>a b. a \<in> set (edges_t db') \<Longrightarrow> b \<in> set (edges_t db') \<Longrightarrow> same_link a b \<Longrightarrow> a = b"
    and "\<And>i. is_non_org db i \<Longrightarrow>
           length (filter (is_membership db i) (edges_t db')) = length (filter (is_membership db i) (edges_t db))"
  shows "org_inv db'"
proof -
  have u: "unique_nodes db" "unique_nodes db'"
    using org_inv_unique [OF assms(1)] unique_frame [OF assms(2)] by auto
  have "org_count db' (nd_id n) = 1" if "n \<in> set (nodes_t db)" "nd_type n \<noteq> ''organization''" for n
  proof -
    have "is_non_org db (nd_id n)"
      using that node_found [OF u(1)] by (simp add: is_non_org_iff type_of_node_def)
    with assms(6) org_inv_count [OF assms(1)] show ?thesis
      by (simp add: org_count_eq [OF u(2)] membership_frame [OF assms(2)])
  qed
  with u assms(2-5) show ?thesis
    by (auto simp: org_inv_def edge_row_ok_frame [OF assms(2)])
qed

lemma org_inv_frame:
  assumes "org_inv db" and "nodes_t db' = nodes_t db" and "edges_t db' = edges_t db"
  shows "org_inv db'"
  using assms by (intro org_invI [OF assms(1,2)]) (auto simp: org_inv_def)

section \<open>Inserting and deleting edges\<close>

lemma insert_edge_inv:
  assumes "org_inv db" and "insert_edge e db = Inr db'"
  shows "org_inv db'"
proof -
  have db': "db' = db\<lparr>edges_t := edges_t db @ [e]\<rparr>" and ok: "edge_row_ok db e"
    and no_parent: "\<not> prevent_multi_parent_org db e"
    and new: "\<forall>x \<in> set (edges_t db). ed_id x \<noteq> ed_id e \<and> \<not> same_link x e"
    using assms(2) by (auto simp: insert_edge_def split: if_split_asm)
  have not_member: "\<not> is_membership db i e" if "is_non_org db i" for i
    using that no_parent org_inv_count [OF assms(1) that]
    by (auto simp: is_membership_def prevent_multi_parent_org_def memberships_eq org_inv_unique [OF assms(1)])
  show ?thesis
  proof (rule org_invI [OF assms(1)])
    show "same_link a b \<Longrightarrow> a = b" if "a \<in> set (edges_t db')" "b \<in> set (edges_t db')" for a b
      using that new assms(1) by (auto simp: db' org_inv_def same_link_def)
  qed (use assms(1) ok new not_member in \<open>auto simp: db' org_inv_def\<close>)
qed

lemma delete_edge_rows_frame:
  "delete_edge_rows es db = Inr db' \<Longrightarrow>
     db' = db\<lparr>edges_t := fold remove1 es (edges_t db)\<rparr>"
  by (induction es arbitrary: db) (fastforce split: if_split_asm)+

lemma distinct_map_remove1: "distinct (map f xs) \<Longrightarrow> distinct (map f (remove1 x xs))"
  using set_remove1_subset [of x xs] by (auto simp: distinct_map intro: inj_on_subset)

lemma remove_edge_inv:
  assumes "org_inv db" and "\<not> prevent_orphan_on_edge_delete db e"
  shows "org_inv (db\<lparr>edges_t := remove1 e (edges_t db)\<rparr>)"
proof (rule org_invI [OF assms(1)])
  show "length (filter (is_membership db i) (edges_t (db\<lparr>edges_t := remove1 e (edges_t db)\<rparr>))) =
      length (filter (is_membership db i) (edges_t db))" if "is_non_org db i" for i
  proof -
    have "\<not> is_membership db i e"
      using assms(2) org_inv_count [OF assms(1) that] that
      by (auto simp: is_membership_def prevent_orphan_on_edge_delete_def org_count_eq org_inv_unique [OF assms(1)])
    then show ?thesis
      by (simp add: filter_remove1 remove1_idem)
  qed
qed (use assms(1) in \<open>auto simp: org_inv_def distinct_map_remove1 dest: notin_set_remove1\<close>)

lemma delete_edge_rows_inv: "delete_edge_rows es db = Inr db' \<Longrightarrow> org_inv db \<Longrightarrow> org_inv db'"
  by (induction es arbitrary: db) (auto intro: remove_edge_inv split: if_split_asm)

lemma delete_edges_where_inv: "delete_edges_where P db = Inr db' \<Longrightarrow> org_inv db \<Longrightarrow> org_inv db'"
  unfolding delete_edges_where_def by (rule delete_edge_rows_inv)

lemma fold_remove1_distinct: "distinct xs \<Longrightarrow> fold remove1 ys xs = filter (\<lambda>x. x \<notin> set ys) xs"
proof (induction ys arbitrary: xs)
  case (Cons y ys)
  then show ?case
    by (simp add: distinct_remove1_removeAll removeAll_filter_not_eq)
      (metis (mono_tags, lifting) filter_cong)
qed simp

lemma delete_edges_where_rows:
  assumes "org_inv db" and "delete_edges_where P db = Inr db'"
  shows "db' = db\<lparr>edges_t := filter (\<lambda>e. \<not> P e) (edges_t db)\<rparr>"
proof -
  have "distinct (edges_t db)"
    using assms(1) distinct_map by (auto simp: org_inv_def)
  moreover have "filter (\<lambda>x. x \<notin> set (filter P (edges_t db))) (edges_t db) = filter (\<lambda>e. \<not> P e) (edges_t db)"
    by (rule filter_cong) auto
  ultimately show ?thesis
    using delete_edge_rows_frame assms(2) by (force simp: delete_edges_where_def fold_remove1_distinct)
qed

section \<open>Rebinding a membership\<close>

definition rebind :: "string \<Rightarrow> node_id \<Rightarrow> edge_row \<Rightarrow> edge_row" where
  "rebind eid org x = (if ed_id x = eid then x\<lparr>ed_target := org\<rparr> else x)"

lemma rebind_fields [simp]:
  "ed_id (rebind eid org x) = ed_id x" "ed_source (rebind eid org x) = ed_source x"
  "ed_relation (rebind eid org x) = ed_relation x"
  by (simp_all add: rebind_def)

lemma single_membership:
  assumes "org_inv db" and "is_non_org db i" and "is_membership db i a" and "is_membership db i b"
    and "a \<in> set (edges_t db)" and "b \<in> set (edges_t db)"
  shows "a = b"
proof -
  obtain c where "filter (is_membership db i) (edges_t db) = [c]"
    using org_inv_count [OF assms(1,2)] by (auto simp: length_Suc_conv)
  then have "{x \<in> set (edges_t db). is_membership db i x} = {c}"
    by (simp flip: set_filter)
  then have "x = c" if "x \<in> set (edges_t db)" "is_membership db i x" for x
    using that by auto
  with assms(3-6) show ?thesis by metis
qed

lemma edge_with_id:
  "org_inv db \<Longrightarrow> a \<in> set (edges_t db) \<Longrightarrow> b \<in> set (edges_t db) \<Longrightarrow> ed_id a = ed_id b \<Longrightarrow> a = b"
  by (auto simp: org_inv_def distinct_map inj_on_def)

lemma find_edge:
  "org_inv db \<Longrightarrow> e \<in> set (edges_t db) \<Longrightarrow> find (\<lambda>x. ed_id x = ed_id e) (edges_t db) = Some e"
  using row_of_unique [of ed_id "edges_t db" e] by (simp add: row_of_def org_inv_def)

lemma non_org_not_org: "is_non_org db i \<Longrightarrow> \<not> is_org db i"
  by (auto simp: is_non_org_iff is_org_def)

lemma rebind_updates:
  assumes "org_inv db" and "e \<in> set (edges_t db)" and "is_membership db i e" and "is_non_org db i" and "is_org db org"
  shows "update_edge_target (ed_id e) org db = Inr (db\<lparr>edges_t := map (rebind (ed_id e) org) (edges_t db)\<rparr>)"
proof -
  let ?e = "e\<lparr>ed_target := org\<rparr>"
  have src: "ed_source e = i" "ed_relation e = ''belongs_to''"
    using assms(3) by (auto simp: is_membership_def)
  have ok: "edge_row_ok db ?e"
    using assms src non_org_not_org [OF assms(4)]
    by (auto simp: edge_row_ok_def is_org_def is_non_org_iff EDGE_RELATIONS_def)
  have "x = e" if "x \<in> set (edges_t db)" "same_link x ?e" for x
    using that assms src by (auto intro: single_membership [OF assms(1,4)] simp: is_membership_def same_link_def)
  then have fresh: "\<not> (\<exists>x \<in> set (edges_t db). ed_id x \<noteq> ed_id e \<and> same_link x ?e)"
    by blast
  show ?thesis
    using ok fresh by (simp add: update_edge_target_def find_edge [OF assms(1,2)] Let_def rebind_def [abs_def])
qed

lemma rebind_inv:
  assumes "org_inv db" and "e \<in> set (edges_t db)" and "is_membership db i e" and "is_non_org db i" and "is_org db org"
  shows "org_inv (db\<lparr>edges_t := map (rebind (ed_id e) org) (edges_t db)\<rparr>)"
proof (rule org_invI [OF assms(1)])
  have src: "ed_source e = i" "ed_relation e = ''belongs_to''" "is_org db (ed_target e)"
    using assms(3) by (auto simp: is_membership_def)
  have same: "is_membership db j (rebind (ed_id e) org x) = is_membership db j x" if "x \<in> set (edges_t db)" for j x
    using that edge_with_id [OF assms(1) that assms(2)] src assms(5) by (auto simp: is_membership_def rebind_def)
  show "edge_row_ok db x" if x_in: "x \<in> set (edges_t (db\<lparr>edges_t := map (rebind (ed_id e) org) (edges_t db)\<rparr>))" for x
  proof -
    obtain y where y: "y \<in> set (edges_t db)" "x = rebind (ed_id e) org y"
      using x_in by auto
    have "edge_row_ok db y"
      using y(1) assms(1) by (simp add: org_inv_def)
    with y edge_with_id [OF assms(1) y(1) assms(2)] src assms(4,5) non_org_not_org [OF assms(4)]
    show ?thesis by (auto simp: edge_row_ok_def rebind_def is_org_def)
  qed
  show "a = b" if ab: "a \<in> set (edges_t (db\<lparr>edges_t := map (rebind (ed_id e) org) (edges_t db)\<rparr>))"
    "b \<in> set (edges_t (db\<lparr>edges_t := map (rebind (ed_id e) org) (edges_t db)\<rparr>))" "same_link a b" for a b
  proof -
    obtain x y where x: "x \<in> set (edges_t db)" "a = rebind (ed_id e) org x"
      and y: "y \<in> set (edges_t db)" "b = rebind (ed_id e) org y"
      using ab by auto
    have "x = y"
    proof (cases "is_membership db i x \<or> is_membership db i y")
      case True
      then have "is_membership db i a \<or> is_membership db i b"
        using same x y by auto
      then have "is_membership db i a \<and> is_membership db i b"
        using ab(3) by (auto simp: is_membership_def same_link_def)
      with same x y show ?thesis
        by (auto intro: single_membership [OF assms(1,4)])
    next
      case False
      then have "x \<noteq> e" "y \<noteq> e" using assms(3) by auto
      then have "a = x" "b = y"
        using x y edge_with_id [OF assms(1) _ assms(2)] by (auto simp: rebind_def)
      with ab(3) x(1) y(1) assms(1) show ?thesis by (auto simp: org_inv_def)
    qed
    with x y show ?thesis by simp
  qed
  show "length (filter (is_membership db j) (edges_t (db\<lparr>edges_t := map (rebind (ed_id e) org) (edges_t db)\<rparr>))) =
      length (filter (is_membership db j) (edges_t db))" for j
    using same by (simp add: filter_map o_def cong: filter_cong)
qed (use assms(1) in \<open>auto simp: org_inv_def o_def\<close>)

section \<open>Disconnecting\<close>

lemma publish_both_frame [simp]:
  "nodes_t (publish_both s t db) = nodes_t db" "edges_t (publish_both s t db) = edges_t db"
  "access_t (publish_both s t db) = access_t db" "files_t (publish_both s t db) = files_t db"
  by (simp_all add: publish_both_def)

lemma joined_edge_eq:
  assumes "org_inv db"
  shows "joined_edge db eid =
     (case find (\<lambda>e. ed_id e = eid) (edges_t db) of
        None \<Rightarrow> None
      | Some e \<Rightarrow> Some (e, the (type_of_node db (ed_source e)), the (type_of_node db (ed_target e))))"
proof (cases "find (\<lambda>e. ed_id e = eid) (edges_t db)")
  case (Some e)
  then have "edge_row_ok db e"
    using assms by (auto simp: org_inv_def dest: find_SomeD)
  with Some show ?thesis
    by (auto simp: joined_edge_def edge_row_ok_def)
qed (simp add: joined_edge_def)

lemma last_membership_iff:
  assumes "org_inv db" and "e \<in> set (edges_t db)"
  shows "(ed_relation e = ''belongs_to'' \<and> the (type_of_node db (ed_source e)) \<noteq> ''organization'' \<and>
            the (type_of_node db (ed_target e)) = ''organization'' \<and> org_count db (ed_source e) \<le> 1) \<longleftrightarrow>
         is_non_org db (ed_source e) \<and> is_membership db (ed_source e) e"
proof -
  have "edge_row_ok db e" using assms by (simp add: org_inv_def)
  then show ?thesis
    using org_inv_count [OF assms(1), of "ed_source e"]
    by (auto simp: edge_row_ok_def is_non_org_iff is_org_def is_membership_def
        org_count_eq [OF org_inv_unique [OF assms(1)]])
qed

lemma delete_one_edge:
  assumes "org_inv db" and "e \<in> set (edges_t db)"
    and "\<not> (is_non_org db (ed_source e) \<and> is_membership db (ed_source e) e)"
  shows "delete_edges_where (\<lambda>x. ed_id x = ed_id e) db =
           Inr (db\<lparr>edges_t := filter (\<lambda>x. ed_id x \<noteq> ed_id e) (edges_t db)\<rparr>)"
proof -
  have "filter (\<lambda>x. ed_id x = ed_id e) (edges_t db) = [e]"
    using assms(1,2) find_edge [OF assms(1,2)] find_distinct_filter [of ed_id "edges_t db" "ed_id e"]
    by (simp add: org_inv_def)
  moreover have "\<not> prevent_orphan_on_edge_delete db e"
    using assms(3) by (auto simp: prevent_orphan_on_edge_delete_def is_membership_def)
  ultimately obtain db' where "delete_edges_where (\<lambda>x. ed_id x = ed_id e) db = Inr db'"
    by (auto simp: delete_edges_where_def)
  with delete_edges_where_rows [OF assms(1) this] show ?thesis by simp
qed

text \<open>Disconnecting an edge of a graph that satisfies the invariant removes exactly that edge and
  records it, unless the edge is the organization membership of a non-organization node, which is
  refused, or does not exist; the database's own trigger is never reached.\<close>

theorem disconnect_exactly:
  assumes "org_inv db"
  shows "disconnectEdgeById user eid db =
     (case find (\<lambda>e. ed_id e = eid) (edges_t db) of
        None \<Rightarrow> Inl (EdgeError EDGE_NOT_FOUND [(''edgeId'', JStr eid)])
      | Some e \<Rightarrow>
          if is_non_org db (ed_source e) \<and> is_membership db (ed_source e) e
          then Inl (EdgeError ORG_LAST_EDGE [(''nodeId'', JStr (ed_source e))])
          else Inr (publish_both (ed_source e) (ed_target e)
                 (writeAudit user ''disconnect'' ''edge'' eid
                    (Some (edge_detail (ed_source e) (ed_target e) (ed_relation e)))
                    (db\<lparr>edges_t := filter (\<lambda>x. ed_id x \<noteq> eid) (edges_t db)\<rparr>))))"
proof (cases "find (\<lambda>e. ed_id e = eid) (edges_t db)")
  case None
  then show ?thesis by (simp add: disconnectEdgeById_def joined_edge_eq [OF assms])
next
  case (Some e)
  then have e: "e \<in> set (edges_t db)" "ed_id e = eid"
    by (auto dest: find_SomeD)
  show ?thesis
  proof (cases "is_non_org db (ed_source e) \<and> is_membership db (ed_source e) e")
    case True
    with Some last_membership_iff [OF assms e(1)] show ?thesis
      by (simp add: disconnectEdgeById_def joined_edge_eq [OF assms])
  next
    case False
    note not_last = False [folded last_membership_iff [OF assms e(1)]]
    have del: "delete_edges_where (\<lambda>x. ed_id x = eid) db =
        Inr (db\<lparr>edges_t := filter (\<lambda>x. ed_id x \<noteq> eid) (edges_t db)\<rparr>)"
      using delete_one_edge [OF assms e(1) False] e(2) by simp
    show ?thesis
      unfolding disconnectEdgeById_def joined_edge_eq [OF assms] Some option.case prod.case
        if_not_P [OF not_last] if_not_P [OF False] del
      by (simp add: db_result_def)
  qed
qed

section \<open>Moving\<close>

lemma plan_files_spec:
  "plan_files target oldRoot newRoot fs = Inr ms \<Longrightarrow>
     map mg_file ms = map fl_id fs \<and>
     (\<forall>m \<in> set ms. mg_new m = mg_old m \<or> prefix (newRoot @ ''/'') (mg_new m))"
proof (induction fs arbitrary: ms)
  case (Cons f fs)
  then obtain ms' where ms': "plan_files target oldRoot newRoot fs = Inr ms'" "tl ms = ms'"
    and m: "ms \<noteq> []" "mg_file (hd ms) = fl_id f"
      "mg_new (hd ms) = (if \<not> prefix (oldRoot @ ''/'') (mg_old (hd ms)) then mg_old (hd ms)
                         else newRoot @ drop (length oldRoot) (mg_old (hd ms)))"
    by (auto simp: bind_sum_Inr Let_def split: if_split_asm)
  have "mg_new (hd ms) = mg_old (hd ms) \<or> prefix (newRoot @ ''/'') (mg_new (hd ms))"
    using m(3) by (auto simp: prefix_def split: if_split_asm)
  with Cons.IH [OF ms'(1)] ms'(2) m show ?case
    by (cases ms) auto
qed simp

lemma migrate_file_spec:
  "migrate_file local rename now m db = (err, db') \<Longrightarrow>
     db' = (if err = None
            then db\<lparr>files_t := map (\<lambda>f. if fl_id f = mg_file m
                                   then f\<lparr>fl_remote_path := Some (mg_new m), fl_updated_at := now\<rparr> else f)
                              (files_t db)\<rparr>
            else db) \<and>
     (mg_old m = mg_new m \<longrightarrow> err \<noteq> None)"
  by (auto simp: migrate_file_def update_file_path_def split: if_split_asm option.splits sum.splits)

lemma migrate_files_frame:
  "migrate_files local rename now ms db = ((n, rep), db') \<Longrightarrow>
     nodes_t db' = nodes_t db \<and> edges_t db' = edges_t db \<and> n + length rep = length ms"
proof (induction ms arbitrary: db n rep)
  case (Cons m ms)
  obtain err db1 where m: "migrate_file local rename now m db = (err, db1)"
    by fastforce
  obtain k rep' where ms: "migrate_files local rename now ms db1 = ((k, rep'), db')"
    and rep: "n = (if err = None then Suc k else k)" "rep = (case err of None \<Rightarrow> rep' | Some e \<Rightarrow> (mg_file m, e) # rep')"
    using Cons.prems m by (auto split: prod.splits option.splits)
  have "nodes_t db1 = nodes_t db" "edges_t db1 = edges_t db"
    using migrate_file_spec [OF m] by simp_all
  with Cons.IH [OF ms] rep show ?case
    by (auto split: option.splits)
qed auto

lemma migrate_files_paths:
  "migrate_files local rename now ms db = ((n, rep), db') \<Longrightarrow> distinct (map mg_file ms) \<Longrightarrow>
     g \<in> set (files_t db') \<Longrightarrow>
     \<exists>f \<in> set (files_t db). fl_id f = fl_id g \<and> fl_node f = fl_node g \<and>
        (fl_id g \<notin> mg_file ` set ms \<longrightarrow> g = f) \<and>
        (\<forall>m \<in> set ms. mg_file m = fl_id g \<longrightarrow>
           fl_id g \<in> fst ` set rep \<or> mg_old m \<noteq> mg_new m \<and> fl_remote_path g = Some (mg_new m))"
proof (induction ms arbitrary: db n rep)
  case (Cons m ms)
  obtain err db1 where m: "migrate_file local rename now m db = (err, db1)"
    by fastforce
  obtain k rep' where ms: "migrate_files local rename now ms db1 = ((k, rep'), db')"
    and rep: "rep = (case err of None \<Rightarrow> rep' | Some e \<Rightarrow> (mg_file m, e) # rep')"
    using Cons.prems(1) m by (auto split: prod.splits option.splits)
  obtain f1 where f1: "f1 \<in> set (files_t db1)" "fl_id f1 = fl_id g" "fl_node f1 = fl_node g"
    "fl_id g \<notin> mg_file ` set ms \<longrightarrow> g = f1"
    "\<forall>x \<in> set ms. mg_file x = fl_id g \<longrightarrow>
       fl_id g \<in> fst ` set rep' \<or> mg_old x \<noteq> mg_new x \<and> fl_remote_path g = Some (mg_new x)"
    using Cons.IH [OF ms] Cons.prems(2,3) by auto
  have reps: "fst ` set rep' \<subseteq> fst ` set rep" "err \<noteq> None \<Longrightarrow> mg_file m \<in> fst ` set rep"
    using rep by (auto split: option.splits)
  show ?case
  proof (cases "fl_id g = mg_file m")
    case True
    then have g: "g = f1" "\<forall>x \<in> set ms. mg_file x \<noteq> fl_id g"
      using f1(4) Cons.prems(2) by (auto simp: image_iff)
    show ?thesis
    proof (cases "err = None")
      case True
      then obtain f where "f \<in> set (files_t db)" "f1 = (if fl_id f = mg_file m
          then f\<lparr>fl_remote_path := Some (mg_new m), fl_updated_at := now\<rparr> else f)" "mg_old m \<noteq> mg_new m"
        using migrate_file_spec [OF m] f1(1) by auto
      with g \<open>fl_id g = mg_file m\<close> show ?thesis
        by (intro bexI [of _ f]) (auto split: if_split_asm)
    next
      case False
      then have "f1 \<in> set (files_t db)"
        using migrate_file_spec [OF m] f1(1) by auto
      with g reps(2) [OF False] \<open>fl_id g = mg_file m\<close> show ?thesis
        by (intro bexI [of _ f1]) auto
    qed
  next
    case False
    then have "f1 \<in> set (files_t db)"
      using migrate_file_spec [OF m] f1(1,2) by (auto split: if_split_asm)
    with f1 reps(1) False show ?thesis
      by (intro bexI [of _ f1]) auto
  qed
qed auto

lemma move_parts:
  assumes "org_inv db" and "is_non_org db i" and "is_org db org"
  obtains e where "org_membership_edges db i = [e]" "e \<in> set (edges_t db)" "is_membership db i e"
    "moveNodeToOrganization local rename now rdb user i org db =
       (if ed_target e = org then Inr (unmoved org e, db)
        else bind_sum (plan_move local rdb db i org) (\<lambda>plan.
          Inr (finish_move user i org e (migrate_files local rename now plan
                 (db\<lparr>edges_t := map (rebind (ed_id e) org) (edges_t db)\<rparr>)))))"
proof -
  have u: "unique_nodes db" by (rule org_inv_unique [OF assms(1)])
  obtain e where e: "org_membership_edges db i = [e]"
    using org_inv_count [OF assms(1,2)] by (auto simp: memberships_eq [OF u] length_Suc_conv)
  then have in_e: "e \<in> set (edges_t db)" "is_membership db i e"
    using set_filter [of "is_membership db i" "edges_t db"] by (auto simp: memberships_eq [OF u])
  obtain t where t: "type_of_node db i = Some t" "t \<noteq> ''organization''"
    using assms(2) by (auto simp: is_non_org_iff)
  have ot: "type_of_node db org = Some ''organization''"
    using assms(3) by (simp add: is_org_def)
  show ?thesis
    by (rule that [OF e in_e])
      (simp add: moveNodeToOrganization_def t ot e rebind_updates [OF assms(1) in_e assms(2,3)] db_result_def)
qed

lemma rebind_same:
  "org_inv db \<Longrightarrow> e \<in> set (edges_t db) \<Longrightarrow> map (rebind (ed_id e) (ed_target e)) (edges_t db) = edges_t db"
proof (rule map_idI)
  fix x
  assume "org_inv db" "e \<in> set (edges_t db)" "x \<in> set (edges_t db)"
  then show "rebind (ed_id e) (ed_target e) x = x"
    using edge_with_id [of db x e] by (cases "ed_id x = ed_id e") (simp_all add: rebind_def)
qed

lemma rebound_membership:
  assumes "org_inv db" and "is_non_org db i" and "is_org db org" and "org_membership_edges db i = [e]"
    and "nodes_t db' = nodes_t db" and "edges_t db' = map (rebind (ed_id e) org) (edges_t db)"
  shows "org_membership_edges db' i = [e\<lparr>ed_target := org\<rparr>]"
proof -
  have u: "unique_nodes db" "unique_nodes db'"
    using org_inv_unique [OF assms(1)] unique_frame [OF assms(5)] by auto
  have e: "filter (is_membership db i) (edges_t db) = [e]"
    using assms(4) memberships_eq [OF u(1)] by simp
  then have in_e: "e \<in> set (edges_t db)" "is_membership db i e"
    using set_filter [of "is_membership db i" "edges_t db"] by auto
  have same: "is_membership db i (rebind (ed_id e) org x) = is_membership db i x" if "x \<in> set (edges_t db)" for x
    using edge_with_id [OF assms(1) that in_e(1)] in_e(2) assms(3) by (auto simp: is_membership_def rebind_def)
  have "filter (is_membership db i) (map (rebind (ed_id e) org) (edges_t db)) =
      map (rebind (ed_id e) org) (filter (is_membership db i) (edges_t db))"
    using same by (simp add: filter_map o_def cong: filter_cong)
  then show ?thesis
    using e by (simp add: memberships_eq [OF u(2)] membership_frame [OF assms(5)] assms(6) rebind_def)
qed

text \<open>Moving a non-organization node to an organization keeps its one membership edge, with its
  id, now pointing to the new organization, and changes no other edge and no node; the only refusals
  are those of the file plan.\<close>

theorem move_exactly:
  assumes "org_inv db" and "is_non_org db i" and "is_org db org"
  shows "case moveNodeToOrganization local rename now rdb user i org db of
      Inl f \<Rightarrow> plan_move local rdb db i org = Inl f
    | Inr (r, db') \<Rightarrow>
        (\<exists>e. org_membership_edges db i = [e] \<and> mv_edge r = ed_id e \<and> mv_from r = ed_target e \<and>
             mv_moved r = (ed_target e \<noteq> org) \<and> nodes_t db' = nodes_t db \<and>
             edges_t db' = map (rebind (ed_id e) org) (edges_t db) \<and>
             org_membership_edges db' i = [e\<lparr>ed_target := org\<rparr>])"
proof -
  obtain e where e: "org_membership_edges db i = [e]" "e \<in> set (edges_t db)"
    and mv: "moveNodeToOrganization local rename now rdb user i org db =
       (if ed_target e = org then Inr (unmoved org e, db)
        else bind_sum (plan_move local rdb db i org) (\<lambda>plan.
          Inr (finish_move user i org e (migrate_files local rename now plan
                 (db\<lparr>edges_t := map (rebind (ed_id e) org) (edges_t db)\<rparr>)))))"
    by (rule move_parts [OF assms])
  note after = rebound_membership [OF assms e(1)]
  show ?thesis
  proof (cases "ed_target e = org")
    case True
    then have "edges_t db = map (rebind (ed_id e) org) (edges_t db)"
      using rebind_same [OF assms(1) e(2)] by simp
    with True e(1) mv after [of db] show ?thesis by (simp add: unmoved_def)
  next
    case False
    show ?thesis
    proof (cases "plan_move local rdb db i org")
      case (Inl f)
      with mv False show ?thesis by simp
    next
      case (Inr plan)
      obtain n repair db2 where m: "migrate_files local rename now plan
          (db\<lparr>edges_t := map (rebind (ed_id e) org) (edges_t db)\<rparr>) = ((n, repair), db2)"
        by (metis surj_pair)
      with migrate_files_frame [OF m] mv False Inr e(1) after show ?thesis by (simp add: finish_move_def)
    qed
  qed
qed

text \<open>A small graph that satisfies the invariant: two organizations, a project with a tracked file
  and an area.\<close>

definition sample_org_db :: graph_db where
  "sample_org_db =
     empty_graph_db\<lparr>
       nodes_t :=
         [sample_node ''acme'' ''organization'' ''team'' ''ann'' None,
          sample_node ''beta'' ''organization'' ''team'' ''ann'' None,
          sample_node ''site'' ''project'' ''team'' ''ann'' None,
          sample_node ''shop'' ''area'' ''team'' ''ann'' None],
       edges_t :=
         [sample_edge ''m1'' ''site'' ''acme'' ''belongs_to'',
          sample_edge ''m2'' ''shop'' ''beta'' ''belongs_to'',
          sample_edge ''r1'' ''site'' ''shop'' ''related_to''],
       files_t :=
         [\<lparr>fl_id = ''f1'', fl_node = ''site'', fl_remote_name = Some ''drive'',
           fl_remote_path = Some ''acme/projects/site/wip/a.md'', fl_updated_at = 0,
           fl_filename = ''a.md'', fl_status = ''wip'', fl_hash = Some ''h1'', fl_native = False, fl_object = None,
           fl_pushed_by = Some ''ann'', fl_pushed_at = None, fl_mime = None\<rparr>]\<rparr>"

definition sample_routing :: routing_db where
  "sample_routing = \<lparr>remotes_t = [], rules_t = [], next_rule_id = 0\<rparr>"

lemma sample_org_inv: "org_inv sample_org_db"
  by code_simp

lemma disconnect_exactly_witness:
  "disconnectEdgeById ''ann'' ''m1'' sample_org_db = Inl (EdgeError ORG_LAST_EDGE [(''nodeId'', JStr ''site'')]) \<and>
   (\<exists>db'. disconnectEdgeById ''ann'' ''r1'' sample_org_db = Inr db' \<and> map ed_id (edges_t db') = [''m1'', ''m2''])"
proof -
  have m: "find (\<lambda>e. ed_id e = ''m1'') (edges_t sample_org_db) =
      Some (sample_edge ''m1'' ''site'' ''acme'' ''belongs_to'')"
    "find (\<lambda>e. ed_id e = ''r1'') (edges_t sample_org_db) =
      Some (sample_edge ''r1'' ''site'' ''shop'' ''related_to'')"
    by code_simp+
  have c: "is_non_org sample_org_db ''site''" "is_org sample_org_db ''acme''"
    by (simp_all add: sample_org_db_def is_non_org_iff is_org_def type_of_node_def sample_simps)
  have rest: "map ed_id (filter (\<lambda>x. ed_id x \<noteq> ''r1'') (edges_t sample_org_db)) = [''m1'', ''m2'']"
    by code_simp
  show ?thesis
    using c rest
    by (simp add: disconnect_exactly [OF sample_org_inv] m sample_edge_def is_membership_def)
qed

lemma move_exactly_witness:
  "case moveNodeToOrganization True (\<lambda>_ _ _. None) 0 sample_routing ''ann'' ''site'' ''beta'' sample_org_db of
      Inl f \<Rightarrow> plan_move True sample_routing sample_org_db ''site'' ''beta'' = Inl f
    | Inr (r, db') \<Rightarrow> \<exists>e. org_membership_edges db' ''site'' = [e\<lparr>ed_target := ''beta''\<rparr>]"
proof -
  have "is_non_org sample_org_db ''site''" "is_org sample_org_db ''beta''"
    by (simp_all add: sample_org_db_def is_non_org_iff is_org_def type_of_node_def sample_simps)
  from move_exactly [OF sample_org_inv this, where local = True and rename = "\<lambda>_ _ _. None" and now = 0
      and rdb = sample_routing and user = "''ann''"]
  show ?thesis by (auto split: sum.splits)
qed

section \<open>The files of a moved node\<close>

lemma file_of_id:
  "distinct (map fl_id fs) \<Longrightarrow> f \<in> set fs \<Longrightarrow> g \<in> set fs \<Longrightarrow> fl_id f = fl_id g \<Longrightarrow> f = g"
  by (auto simp: distinct_map inj_on_def)

lemma plan_move_roots:
  assumes "plan_move local rdb db i org = Inr plan" and "tracked_files db i \<noteq> []"
  obtains info orgRow root where "resolveNodeInfo db i = Some info" "node_by_id db org = Some orgRow"
    "buildNodeRoot (info\<lparr>in_org := Some (nd_sync_key orgRow)\<rparr>) = Inr root"
    "map mg_file plan = map fl_id (tracked_files db i)"
    "\<forall>m \<in> set plan. mg_new m = mg_old m \<or> prefix (root @ ''/'') (mg_new m)"
  using assms plan_files_spec
  by (auto simp: plan_move_def Let_def bind_sum_Inr path_result_def split: option.splits sum.splits)

lemma info_after_rebind:
  assumes "resolveNodeInfo db i = Some info" and "is_non_org db i" and "node_by_id db org = Some orgRow"
    and "nodes_t db' = nodes_t db" and "org_membership_edges db' i = [e\<lparr>ed_target := org\<rparr>]"
  shows "resolveNodeInfo db' i = Some (info\<lparr>in_org := Some (nd_sync_key orgRow)\<rparr>)"
  using assms node_by_id_frame [OF assms(4)]
  by (auto simp: resolveNodeInfo_def is_non_org_iff type_of_node_def split: option.splits if_split_asm)

text \<open>C20: After a move that rebinds the edge, every tracked file of the node either lies under the
  node's new root or is listed as needing repair, and no file is lost from the count.\<close>

theorem moved_files_follow:
  assumes "org_inv db" and "is_non_org db i" and "is_org db org" and "distinct (map fl_id (files_t db))"
    and "moveNodeToOrganization local rename now rdb user i org db = Inr (r, db')" and "mv_moved r"
  shows "mv_migrated r + length (mv_repair r) = length (tracked_files db i) \<and>
     (\<forall>g \<in> set (tracked_files db' i).
        fl_id g \<in> fst ` set (mv_repair r) \<or>
        (\<exists>info root. resolveNodeInfo db' i = Some info \<and> buildNodeRoot info = Inr root \<and>
           prefix (root @ ''/'') (the (fl_remote_path g))))"
proof -
  obtain e where e: "org_membership_edges db i = [e]" "e \<in> set (edges_t db)" "is_membership db i e"
    and mv: "moveNodeToOrganization local rename now rdb user i org db =
       (if ed_target e = org then Inr (unmoved org e, db)
        else bind_sum (plan_move local rdb db i org) (\<lambda>plan.
          Inr (finish_move user i org e (migrate_files local rename now plan
                 (db\<lparr>edges_t := map (rebind (ed_id e) org) (edges_t db)\<rparr>)))))"
    by (rule move_parts [OF assms(1-3)])
  have moved: "ed_target e \<noteq> org"
    using mv assms(5,6) by (auto simp: unmoved_def)
  obtain plan n repair db2 where plan: "plan_move local rdb db i org = Inr plan"
    and m: "migrate_files local rename now plan (db\<lparr>edges_t := map (rebind (ed_id e) org) (edges_t db)\<rparr>) =
              ((n, repair), db2)"
    and fin: "finish_move user i org e ((n, repair), db2) = (r, db')"
  proof -
    obtain plan where p: "plan_move local rdb db i org = Inr plan"
      "finish_move user i org e (migrate_files local rename now plan
         (db\<lparr>edges_t := map (rebind (ed_id e) org) (edges_t db)\<rparr>)) = (r, db')"
      using mv [unfolded if_not_P [OF moved] assms(5), symmetric] by (auto simp: bind_sum_Inr)
    obtain c db2 where "migrate_files local rename now plan
        (db\<lparr>edges_t := map (rebind (ed_id e) org) (edges_t db)\<rparr>) = (c, db2)"
      by fastforce
    with p show thesis
      by (cases c) (auto intro: that)
  qed
  have frame: "nodes_t db' = nodes_t db" "edges_t db' = map (rebind (ed_id e) org) (edges_t db)"
    "files_t db' = files_t db2" "mv_migrated r = n" "mv_repair r = repair"
    using fin migrate_files_frame [OF m] by (auto simp: finish_move_def)
  note after = rebound_membership [OF assms(1-3) e(1) frame(1,2)]
  have count: "n + length repair = length plan"
    using migrate_files_frame [OF m] by simp
  show ?thesis
  proof (cases "tracked_files db i = []")
    case True
    then have "plan = []" using plan by (simp add: plan_move_def)
    with m have "files_t db2 = files_t db" "n = 0" "repair = []" by auto
    with True frame show ?thesis by (simp add: tracked_files_def)
  next
    case False
    obtain info orgRow root where roots: "resolveNodeInfo db i = Some info" "node_by_id db org = Some orgRow"
      "buildNodeRoot (info\<lparr>in_org := Some (nd_sync_key orgRow)\<rparr>) = Inr root"
      and ids: "map mg_file plan = map fl_id (tracked_files db i)"
      and new: "\<forall>m \<in> set plan. mg_new m = mg_old m \<or> prefix (root @ ''/'') (mg_new m)"
      by (rule plan_move_roots [OF plan False])
    have info': "resolveNodeInfo db' i = Some (info\<lparr>in_org := Some (nd_sync_key orgRow)\<rparr>)"
      by (rule info_after_rebind [OF roots(1) assms(2) roots(2) frame(1) after])
    have dist: "distinct (map mg_file plan)"
      unfolding ids tracked_files_def using assms(4) by (rule distinct_map_filter)
    have "fl_id g \<in> fst ` set repair \<or> prefix (root @ ''/'') (the (fl_remote_path g))"
      if g: "g \<in> set (tracked_files db' i)" for g
    proof -
      have g': "g \<in> set (files_t db2)" "fl_node g = i" "fl_remote_path g \<noteq> None"
        using g frame(3) by (auto simp: tracked_files_def)
      obtain f where f: "f \<in> set (files_t db)" "fl_id f = fl_id g" "fl_node f = fl_node g"
        "fl_id g \<notin> mg_file ` set plan \<longrightarrow> g = f"
        "\<forall>m \<in> set plan. mg_file m = fl_id g \<longrightarrow>
           fl_id g \<in> fst ` set repair \<or> mg_old m \<noteq> mg_new m \<and> fl_remote_path g = Some (mg_new m)"
        using migrate_files_paths [OF m dist g'(1)] by auto
      have "mg_file ` set plan = fl_id ` set (tracked_files db i)"
        using arg_cong [OF ids, of set] by simp
      then have "fl_id g \<in> mg_file ` set plan"
        using f g' by (auto simp: tracked_files_def)
      then obtain x where "x \<in> set plan" "mg_file x = fl_id g" by auto
      with f(5) new show ?thesis by fastforce
    qed
    moreover have "length plan = length (tracked_files db i)"
      using map_eq_imp_length_eq [OF ids] .
    ultimately show ?thesis
      using info' roots(3) frame count by auto
  qed
qed

lemma moved_files_follow_witness:
  "\<exists>r db'. moveNodeToOrganization False (\<lambda>_ _ _. None) 7 sample_routing ''ann'' ''site'' ''beta'' sample_org_db
             = Inr (r, db') \<and>
           map fl_remote_path (files_t db') = [Some ''beta/projects/site/wip/a.md''] \<and>
           mv_migrated r + length (mv_repair r) = 1"
proof -
  have t: "is_non_org sample_org_db ''site''" "is_org sample_org_db ''beta''"
    by (simp_all add: sample_org_db_def is_non_org_iff is_org_def type_of_node_def sample_simps)
  have d: "distinct (map fl_id (files_t sample_org_db))" "length (tracked_files sample_org_db ''site'') = 1"
    by (simp_all add: sample_org_db_def tracked_files_def)
  have "case moveNodeToOrganization False (\<lambda>_ _ _. None) 7 sample_routing ''ann'' ''site'' ''beta'' sample_org_db of
      Inl _ \<Rightarrow> False
    | Inr (r, db') \<Rightarrow> mv_moved r \<and> map fl_remote_path (files_t db') = [Some ''beta/projects/site/wip/a.md'']"
    by code_simp
  then obtain r db' where r: "moveNodeToOrganization False (\<lambda>_ _ _. None) 7 sample_routing ''ann'' ''site'' ''beta'' sample_org_db
      = Inr (r, db')" "mv_moved r" "map fl_remote_path (files_t db') = [Some ''beta/projects/site/wip/a.md'']"
    by (auto split: sum.splits prod.splits)
  from moved_files_follow [OF sample_org_inv t d(1) r(1,2)] d(2) r show ?thesis by auto
qed

end
