(* ===== verification/Nodes.thy ===== *)
theory Nodes
  imports OrgInvariant
begin

text \<open>
  Nodes: the closed sets and lifecycle tables of \<^verbatim>\<open>apps/server/shared/popp.ts\<close>, sync keys
  (\<^verbatim>\<open>apps/server/domain/sync/sync-key.ts\<close>), create, update and purge
  (\<^verbatim>\<open>apps/server/domain/nodes.ts\<close>) with the constraints and triggers of the node table, and the
  MCP tools (\<^verbatim>\<open>apps/server/mcp/tools/nodes.ts\<close>).  Random identifiers (ULIDs) and the time are
  arguments.  Accents and letters beyond ASCII are not folded here: the slug of a name treats them
  as separators.
\<close>

section \<open>The POPP schema\<close>

definition NODE_TYPES :: "string list" where
  "NODE_TYPES = [''organization'', ''project'', ''process'', ''area'', ''principle'']"

definition NODE_STATUSES :: "string list" where
  "NODE_STATUSES = [''active'', ''completed'', ''archived'']"

definition NODE_VISIBILITIES :: "string list" where
  "NODE_VISIBILITIES = [''team'', ''private'', ''group'']"

definition LIFECYCLE_STATES_BY_TYPE :: "(string \<times> string list) list" where
  "LIFECYCLE_STATES_BY_TYPE =
     [(''organization'', [''active'', ''inactive'', ''archived'']),
      (''area'', [''active'', ''needs_attention'', ''inactive'', ''archived'']),
      (''process'', [''not_implemented'', ''implementing'', ''operating'', ''at_risk'', ''broken'', ''retired'']),
      (''project'', [''backlog'', ''planned'', ''in_progress'', ''on_hold'', ''done'', ''cancelled'']),
      (''principle'', [''active'', ''archived''])]"

definition getLifecycleStatesForType :: "string \<Rightarrow> string list" where
  "getLifecycleStatesForType t = (case map_of LIFECYCLE_STATES_BY_TYPE t of Some ss \<Rightarrow> ss | None \<Rightarrow> [])"

definition LIFECYCLE_TO_STATUS :: "(string \<times> string) list" where
  "LIFECYCLE_TO_STATUS =
     [(''done'', ''completed''), (''archived'', ''archived''), (''retired'', ''archived''),
      (''cancelled'', ''archived''), (''inactive'', ''archived'')]"

definition deriveStatusFromLifecycle :: "string \<Rightarrow> string" where
  "deriveStatusFromLifecycle s = (case map_of LIFECYCLE_TO_STATUS s of Some st \<Rightarrow> st | None \<Rightarrow> ''active'')"

definition HEALTH_STATES :: "string list" where
  "HEALTH_STATES = [''on_track'', ''at_risk'', ''off_track'']"

definition DEFAULT_HEALTH :: string where
  "DEFAULT_HEALTH = ''on_track''"

definition isHealthApplicableForType :: "string \<Rightarrow> bool" where
  "isHealthApplicableForType t \<longleftrightarrow> t = ''project''"

section \<open>The node table\<close>

text \<open>The two lifecycle triggers, as the SQL of the schema writes them.\<close>

definition nodes_validate_lifecycle_state :: "string \<Rightarrow> string option \<Rightarrow> bool" where
  "nodes_validate_lifecycle_state t new \<longleftrightarrow>
     (case new of
        None \<Rightarrow> False
      | Some s \<Rightarrow>
          (t = ''organization'' \<and> s \<notin> {''active'', ''inactive'', ''archived''}) \<or>
          (t = ''area'' \<and> s \<notin> {''active'', ''needs_attention'', ''inactive'', ''archived''}) \<or>
          (t = ''process'' \<and> s \<notin> {''not_implemented'', ''implementing'', ''operating'', ''at_risk'', ''broken'', ''retired''}) \<or>
          (t = ''project'' \<and> s \<notin> {''backlog'', ''planned'', ''in_progress'', ''on_hold'', ''done'', ''cancelled''}) \<or>
          (t = ''principle'' \<and> s \<notin> {''active'', ''archived''}))"

definition nodes_derive_status_from_lifecycle :: "string option \<Rightarrow> string \<Rightarrow> string" where
  "nodes_derive_status_from_lifecycle new status =
     (case new of
        None \<Rightarrow> status
      | Some s \<Rightarrow>
          if s = ''done'' then ''completed''
          else if s = ''archived'' then ''archived''
          else if s = ''retired'' then ''archived''
          else if s = ''cancelled'' then ''archived''
          else if s = ''inactive'' then ''archived''
          else ''active'')"

definition node_row_ok :: "node_row \<Rightarrow> bool" where
  "node_row_ok n \<longleftrightarrow>
     nd_type n \<in> set NODE_TYPES \<and> nd_status n \<in> set NODE_STATUSES \<and>
     nd_visibility n \<in> set NODE_VISIBILITIES \<and> nd_health n \<in> set HEALTH_STATES \<and> nd_sync_key n \<noteq> []"

definition insert_node :: "node_row \<Rightarrow> graph_db \<Rightarrow> db_abort + graph_db" where
  "insert_node n db =
     (if nd_sync_key n = [] then Inl (TriggerAbort ''nodes_sync_key_not_null_insert'')
      else if \<not> node_row_ok n \<or> (\<exists>m \<in> set (nodes_t db). nd_id m = nd_id n \<or> nd_sync_key m = nd_sync_key n)
      then Inl ConstraintAbort
      else Inr (db\<lparr>nodes_t := nodes_t db @ [n]\<rparr>))"

definition update_node :: "node_id \<Rightarrow> (node_row \<Rightarrow> node_row) \<Rightarrow> graph_db \<Rightarrow> db_abort + graph_db" where
  "update_node i f db =
     (if \<exists>n \<in> set (nodes_t db). nd_id n = i \<and> \<not> node_row_ok (f n) then Inl ConstraintAbort
      else Inr (db\<lparr>nodes_t := map (\<lambda>n. if nd_id n = i then f n else n) (nodes_t db)\<rparr>))"

definition set_lifecycle :: "string option \<Rightarrow> node_row \<Rightarrow> node_row" where
  "set_lifecycle new n =
     n\<lparr>nd_lifecycle := new, nd_status := nodes_derive_status_from_lifecycle new (nd_status n)\<rparr>"

text \<open>An UPDATE that names \<open>lifecycle_state\<close>, with the further assignments \<open>f\<close>.\<close>

definition update_lifecycle ::
  "node_id \<Rightarrow> string option \<Rightarrow> (node_row \<Rightarrow> node_row) \<Rightarrow> graph_db \<Rightarrow> db_abort + graph_db" where
  "update_lifecycle i new f db =
     (if \<exists>n \<in> set (nodes_t db). nd_id n = i \<and> nodes_validate_lifecycle_state (nd_type n) new
      then Inl (TriggerAbort ''nodes_validate_lifecycle_state'')
      else update_node i (\<lambda>n. set_lifecycle new (f n)) db)"

section \<open>Sync keys\<close>

definition slug_char :: "char \<Rightarrow> bool" where
  "slug_char c \<longleftrightarrow> (let k = (of_char c :: nat) in 97 \<le> k \<and> k \<le> 122 \<or> 48 \<le> k \<and> k \<le> 57)"

text \<open>\<open>replace(/[^a-z0-9]+/g, "-")\<close>; the flag says that the current run already has its dash.\<close>

fun dash_runs :: "bool \<Rightarrow> string \<Rightarrow> string" where
  "dash_runs in_run [] = []"
| "dash_runs in_run (c # cs) =
     (if slug_char c then c # dash_runs False cs
      else if in_run then dash_runs True cs
      else CHR ''-'' # dash_runs True cs)"

definition strip_dash_ends :: "string \<Rightarrow> string" where
  "strip_dash_ends s =
     (let s1 = (if s \<noteq> [] \<and> hd s = CHR ''-'' then tl s else s)
      in if s1 \<noteq> [] \<and> last s1 = CHR ''-'' then butlast s1 else s1)"

definition slugifyForSyncKey :: "string \<Rightarrow> string" where
  "slugifyForSyncKey name = strip_dash_ends (dash_runs False (js_lower name))"

definition isTaken :: "graph_db \<Rightarrow> string \<Rightarrow> bool" where
  "isTaken db key \<longleftrightarrow> (\<exists>n \<in> set (nodes_t db). nd_sync_key n = key)"

definition last_chars :: "nat \<Rightarrow> string \<Rightarrow> string" where
  "last_chars n s = drop (length s - n) s"

definition generateSyncKey :: "string \<Rightarrow> string \<Rightarrow> graph_db \<Rightarrow> string \<Rightarrow> string" where
  "generateSyncKey ulid1 ulid2 db name =
     (let base = slugifyForSyncKey name
      in if 0 < length base \<and> \<not> isTaken db base then base
         else (let suffix = last_chars 8 (js_lower ulid1);
                   candidate = (if 0 < length base then base @ ''-'' @ suffix else suffix)
               in if isTaken db candidate then candidate @ ''-'' @ last_chars 4 (js_lower ulid2)
                  else candidate))"

section \<open>Creating\<close>

record create_node_input =
  cn_type :: string
  cn_name :: string
  cn_description :: "string option"
  cn_organization :: "node_id option"
  cn_meta :: "json option"
  cn_status :: "string option"
  cn_visibility :: "string option"
  cn_goal :: "string option"
  cn_lifecycle :: "string option"
  cn_health :: "string option"

datatype node_failure =
    InvalidInput
  | VisibilityManaged
  | OrganizationRequired string
  | OrganizationNotFound node_id
  | NotAnOrganization node_id string
  | InvalidLifecycle string string
  | HealthNotApplicable string
  | NodeMissing node_id
  | NodeDbFailure db_abort

definition opt_in :: "string option \<Rightarrow> string list \<Rightarrow> bool" where
  "opt_in v xs \<longleftrightarrow> (case v of None \<Rightarrow> True | Some x \<Rightarrow> x \<in> set xs)"

definition create_input_ok :: "create_node_input \<Rightarrow> bool" where
  "create_input_ok a \<longleftrightarrow>
     cn_type a \<in> set NODE_TYPES \<and> opt_in (cn_status a) NODE_STATUSES \<and>
     opt_in (cn_visibility a) NODE_VISIBILITIES \<and> opt_in (cn_health a) HEALTH_STATES"

definition truthy :: "string option \<Rightarrow> bool" where
  "truthy v \<longleftrightarrow> v \<noteq> None \<and> v \<noteq> Some []"

definition check_organization :: "create_node_input \<Rightarrow> graph_db \<Rightarrow> node_failure + unit" where
  "check_organization a db =
     (if cn_type a = ''organization'' then Inr ()
      else (case cn_organization a of
              None \<Rightarrow> Inl (OrganizationRequired (cn_type a))
            | Some org \<Rightarrow>
                if org = [] then Inl (OrganizationRequired (cn_type a))
                else (case type_of_node db org of
                        None \<Rightarrow> Inl (OrganizationNotFound org)
                      | Some t \<Rightarrow> if t \<noteq> ''organization'' then Inl (NotAnOrganization org t) else Inr ())))"

definition check_lifecycle :: "string \<Rightarrow> string option \<Rightarrow> node_failure + unit" where
  "check_lifecycle t state =
     (case state of
        None \<Rightarrow> Inr ()
      | Some s \<Rightarrow> if s \<notin> set (getLifecycleStatesForType t) then Inl (InvalidLifecycle s t) else Inr ())"

definition check_health :: "string \<Rightarrow> string option \<Rightarrow> node_failure + unit" where
  "check_health t health =
     (if health \<noteq> None \<and> \<not> isHealthApplicableForType t then Inl (HealthNotApplicable t) else Inr ())"

definition node_db :: "db_abort + 'a \<Rightarrow> node_failure + 'a" where
  "node_db r = (case r of Inl a \<Rightarrow> Inl (NodeDbFailure a) | Inr x \<Rightarrow> Inr x)"

definition or_default :: "'a option \<Rightarrow> 'a \<Rightarrow> 'a" where
  "or_default v d = (case v of None \<Rightarrow> d | Some x \<Rightarrow> x)"

text \<open>The identifiers drawn for a new node: its own, its membership edge's, and the two of the sync key.\<close>

record node_draws =
  dr_node :: string
  dr_edge :: string
  dr_key1 :: string
  dr_key2 :: string

definition new_node_row ::
  "node_draws \<Rightarrow> timestamp \<Rightarrow> user_id \<Rightarrow> create_node_input \<Rightarrow> string \<Rightarrow> node_row" where
  "new_node_row d now user a key =
     \<lparr>nd_id = dr_node d, nd_type = cn_type a, nd_name = cn_name a,
      nd_visibility = or_default (cn_visibility a) ''team'', nd_access_mode = ''private'',
      nd_created_by = user, nd_meta = map_option Some (cn_meta a), nd_sync_key = key,
      nd_description = cn_description a, nd_status = or_default (cn_status a) ''active'',
      nd_lifecycle = None, nd_health = or_default (cn_health a) DEFAULT_HEALTH, nd_goal = None,
      nd_owner = None, nd_created_at = now, nd_updated_at = now\<rparr>"

definition new_membership :: "node_draws \<Rightarrow> timestamp \<Rightarrow> user_id \<Rightarrow> node_id \<Rightarrow> edge_row" where
  "new_membership d now user org =
     \<lparr>ed_id = dr_edge d, ed_source = dr_node d, ed_target = org, ed_relation = ''belongs_to'',
      ed_meta = None, ed_created_by = user, ed_created_at = now\<rparr>"

text \<open>One batch: the node and, for a non-organization, its membership edge, or neither.\<close>

definition insert_batch ::
  "node_draws \<Rightarrow> timestamp \<Rightarrow> user_id \<Rightarrow> create_node_input \<Rightarrow> graph_db \<Rightarrow> db_abort + graph_db" where
  "insert_batch d now user a db =
     bind_sum (insert_node (new_node_row d now user a (generateSyncKey (dr_key1 d) (dr_key2 d) db (cn_name a))) db)
       (\<lambda>db1. case cn_organization a of
                 Some org \<Rightarrow>
                   if cn_type a \<noteq> ''organization'' \<and> org \<noteq> [] then insert_edge (new_membership d now user org) db1
                   else Inr db1
               | None \<Rightarrow> Inr db1)"

definition persist_goal :: "node_id \<Rightarrow> create_node_input \<Rightarrow> graph_db \<Rightarrow> db_abort + graph_db" where
  "persist_goal i a db =
     (case cn_lifecycle a of
        Some s \<Rightarrow> update_lifecycle i (Some s) (\<lambda>n. n\<lparr>nd_goal := cn_goal a\<rparr>) db
      | None \<Rightarrow>
          (case cn_goal a of
             Some g \<Rightarrow> update_node i (\<lambda>n. n\<lparr>nd_goal := Some g\<rparr>) db
           | None \<Rightarrow> Inr db))"

definition opt_field :: "string \<Rightarrow> string option \<Rightarrow> (string \<times> json) list" where
  "opt_field k v = (case v of None \<Rightarrow> [] | Some s \<Rightarrow> [(k, JStr s)])"

definition create_detail :: "create_node_input \<Rightarrow> json" where
  "create_detail a =
     JObj ([(''type'', JStr (cn_type a)), (''name'', JStr (cn_name a))]
       @ (if truthy (cn_organization a) then opt_field ''organization_id'' (cn_organization a) else [])
       @ opt_field ''goal'' (cn_goal a) @ opt_field ''lifecycle_state'' (cn_lifecycle a)
       @ opt_field ''health'' (cn_health a))"

text \<open>
  The result and the tables: once the batch has run, a failure of the second statement leaves the
  node behind.
\<close>

definition createNodeInternal ::
  "node_draws \<Rightarrow> timestamp \<Rightarrow> user_id \<Rightarrow> create_node_input \<Rightarrow> graph_db \<Rightarrow> (node_failure + node_id) \<times> graph_db" where
  "createNodeInternal d now user a db =
     (case (if \<not> create_input_ok a then Inl InvalidInput
            else if cn_visibility a = Some ''group'' then Inl VisibilityManaged
            else bind_sum (check_organization a db) (\<lambda>_.
                 bind_sum (check_lifecycle (cn_type a) (cn_lifecycle a)) (\<lambda>_.
                 bind_sum (check_health (cn_type a) (cn_health a)) (\<lambda>_.
                   node_db (insert_batch d now user a db))))) of
        Inl e \<Rightarrow> (Inl e, db)
      | Inr db1 \<Rightarrow>
          (case persist_goal (dr_node d) a db1 of
             Inl e \<Rightarrow> (Inl (NodeDbFailure e), db1)
           | Inr db2 \<Rightarrow>
               (Inr (dr_node d), writeAudit user ''create_node'' ''node'' (dr_node d) (Some (create_detail a)) db2)))"

section \<open>Updating\<close>

text \<open>A field is absent (\<open>None\<close>), or present; a nullable field is present with a value or NULL.\<close>

record update_node_input =
  un_node :: node_id
  un_name :: "string option"
  un_description :: "string option option"
  un_status :: "string option"
  un_visibility :: "string option"
  un_meta :: "json option"
  un_goal :: "string option option"
  un_lifecycle :: "string option option"
  un_owner :: "string option option"
  un_health :: "string option"

definition update_input_ok :: "update_node_input \<Rightarrow> bool" where
  "update_input_ok a \<longleftrightarrow>
     opt_in (un_status a) NODE_STATUSES \<and> opt_in (un_visibility a) NODE_VISIBILITIES \<and>
     opt_in (un_health a) HEALTH_STATES"

definition has_field_update :: "update_node_input \<Rightarrow> bool" where
  "has_field_update a \<longleftrightarrow>
     un_name a \<noteq> None \<or> un_description a \<noteq> None \<or> un_status a \<noteq> None \<or> un_visibility a \<noteq> None \<or>
     un_meta a \<noteq> None \<or> un_goal a \<noteq> None \<or> un_owner a \<noteq> None \<or> un_health a \<noteq> None"

definition apply_fields :: "timestamp \<Rightarrow> update_node_input \<Rightarrow> node_row \<Rightarrow> node_row" where
  "apply_fields now a n =
     n\<lparr>nd_name := or_default (un_name a) (nd_name n),
       nd_description := or_default (un_description a) (nd_description n),
       nd_status := or_default (un_status a) (nd_status n),
       nd_visibility := or_default (un_visibility a) (nd_visibility n),
       nd_meta := (case un_meta a of None \<Rightarrow> nd_meta n | Some m \<Rightarrow> Some (Some m)),
       nd_goal := or_default (un_goal a) (nd_goal n),
       nd_owner := or_default (un_owner a) (nd_owner n),
       nd_health := or_default (un_health a) (nd_health n),
       nd_updated_at := now\<rparr>"

definition has_access_rows :: "graph_db \<Rightarrow> node_id \<Rightarrow> bool" where
  "has_access_rows db i \<longleftrightarrow> (\<exists>r \<in> set (access_t db). ac_node r = i)"

definition check_update :: "update_node_input \<Rightarrow> graph_db \<Rightarrow> node_failure + unit" where
  "check_update a db =
     (if \<not> update_input_ok a then Inl InvalidInput
      else if un_visibility a = Some ''group'' then Inl VisibilityManaged
      else if un_visibility a \<noteq> None \<and> has_access_rows db (un_node a) then Inl VisibilityManaged
      else (case type_of_node db (un_node a) of
              None \<Rightarrow> Inl (NodeMissing (un_node a))
            | Some t \<Rightarrow>
                bind_sum (check_lifecycle t (case un_lifecycle a of Some s \<Rightarrow> s | None \<Rightarrow> None)) (\<lambda>_.
                  check_health t (un_health a))))"

definition write_fields :: "timestamp \<Rightarrow> update_node_input \<Rightarrow> graph_db \<Rightarrow> db_abort + graph_db" where
  "write_fields now a db =
     (if has_field_update a then update_node (un_node a) (apply_fields now a) db else Inr db)"

definition write_lifecycle :: "update_node_input \<Rightarrow> graph_db \<Rightarrow> db_abort + graph_db" where
  "write_lifecycle a db =
     (case un_lifecycle a of
        None \<Rightarrow> Inr db
      | Some s \<Rightarrow> update_lifecycle (un_node a) s (\<lambda>n. n) db)"

text \<open>The audited input is the parsed argument object; \<open>detail\<close> stands for it.\<close>

definition updateNodeInternal ::
  "timestamp \<Rightarrow> user_id \<Rightarrow> json \<Rightarrow> update_node_input \<Rightarrow> graph_db \<Rightarrow> node_failure option \<times> graph_db" where
  "updateNodeInternal now user detail a db =
     (case check_update a db of
        Inl e \<Rightarrow> (Some e, db)
      | Inr _ \<Rightarrow>
          (case write_fields now a db of
             Inl e \<Rightarrow> (Some (NodeDbFailure e), db)
           | Inr db1 \<Rightarrow>
               (case write_lifecycle a db1 of
                  Inl e \<Rightarrow> (Some (NodeDbFailure e), db1)
                | Inr db2 \<Rightarrow>
                    (None, writeAudit user ''update_node'' ''node'' (un_node a)
                             (Some (JObj [(''input'', detail)])) db2))))"

section \<open>Purging\<close>

text \<open>
  The batch, in its order: the node first, so that the trigger on its edges stays quiet, and then
  every table that hangs off it.  The foreign keys cascade the grants on the node away with it.
\<close>

definition purgeNodeRows :: "node_id \<Rightarrow> graph_db \<Rightarrow> graph_db" where
  "purgeNodeRows i db =
     (let owned = map cr_id (filter (\<lambda>r. cr_node r = i) (responsibilities_t db))
      in db\<lparr>nodes_t := filter (\<lambda>n. nd_id n \<noteq> i) (nodes_t db),
            access_t := filter (\<lambda>r. ac_node r \<noteq> i) (access_t db),
            edges_t := filter (\<lambda>e. \<not> (ed_source e = i \<or> ed_target e = i)) (edges_t db),
            files_t := filter (\<lambda>f. fl_node f \<noteq> i) (files_t db),
            events_t := filter (\<lambda>r. cr_node r \<noteq> i) (events_t db),
            assignments_t := filter (\<lambda>r. as_responsibility r \<notin> set owned) (assignments_t db),
            responsibilities_t := filter (\<lambda>r. cr_node r \<noteq> i) (responsibilities_t db),
            data_sources_t := filter (\<lambda>r. cr_node r \<noteq> i) (data_sources_t db),
            tools_t := filter (\<lambda>r. cr_node r \<noteq> i) (tools_t db)\<rparr>)"

section \<open>The MCP tools\<close>

datatype node_reply =
    NodeCreated node_id "node_id list"          \<comment> \<open>the ids of the name's duplicates, for the warning\<close>
  | NodeUpdated node_id
  | NodeArchived node_id
  | AlreadyArchived node_id
  | NodePurged node_id
  | NodeToolNotFound
  | NothingToUpdate
  | HasChildren node_id "node_id list"
  | NodeFailed node_failure
  | NodeWriteError write_error

definition same_named :: "graph_db \<Rightarrow> string \<Rightarrow> string \<Rightarrow> node_id list" where
  "same_named db name t = map nd_id (filter (\<lambda>n. nd_name n = name \<and> nd_type n = t) (nodes_t db))"

definition created_record :: "timestamp \<Rightarrow> node_id \<Rightarrow> expansion_record" where
  "created_record now i =
     \<lparr>ex_at = now, ex_node_ids = [i], ex_reason = ''node created by this session'',
      ex_trigger = TrigAgent, ex_via = Some ViaCreated\<rparr>"

definition portuni_create_node ::
  "group_identity \<Rightarrow> node_draws \<Rightarrow> timestamp \<Rightarrow> create_node_input \<Rightarrow> session_scope \<times> graph_db \<Rightarrow>
     node_reply \<times> session_scope \<times> graph_db" where
  "portuni_create_node viewer d now a st =
     (let (scope, db) = st
      in if truthy (cn_organization a) \<and> \<not> nodeVisibleTo db viewer (or_default (cn_organization a) [])
         then (NodeToolNotFound, scope, db)
         else (case createNodeInternal d now (gi_user viewer) a db of
                 (Inl e, db1) \<Rightarrow> (NodeFailed e, scope, db1)
               | (Inr i, db1) \<Rightarrow>
                   (NodeCreated i (same_named db (cn_name a) (cn_type a)),
                    recordExpansion (created_record now i) (scope_addWritable i scope), db1)))"

definition portuni_update_node ::
  "group_identity \<Rightarrow> (string \<Rightarrow> elicit_outcome) option \<Rightarrow> timestamp \<Rightarrow> json \<Rightarrow> update_node_input \<Rightarrow>
     session_scope \<times> graph_db \<Rightarrow> node_reply \<times> session_scope \<times> graph_db" where
  "portuni_update_node viewer elicitor now detail a st =
     (let (scope, db) = st
      in if type_of_node db (un_node a) = None \<or> \<not> nodeVisibleTo db viewer (un_node a)
         then (NodeToolNotFound, scope, db)
         else (case guardNodeWrite (Some db) elicitor (un_node a) scope of
                 (Some e, scope1) \<Rightarrow> (NodeWriteError e, scope1, db)
               | (None, scope1) \<Rightarrow>
                   if \<not> has_field_update a \<and> un_lifecycle a = None then (NothingToUpdate, scope1, db)
                   else (case updateNodeInternal now (gi_user viewer) detail a db of
                           (Some e, db1) \<Rightarrow> (NodeFailed e, scope1, db1)
                         | (None, db1) \<Rightarrow> (NodeUpdated (un_node a), scope1, db1))))"

definition org_children :: "graph_db \<Rightarrow> node_id \<Rightarrow> node_id list" where
  "org_children db org =
     map ed_source (filter (\<lambda>e. ed_target e = org \<and> ed_relation e = ''belongs_to'' \<and> is_non_org db (ed_source e))
       (edges_t db))"

definition type_name_detail :: "node_row \<Rightarrow> json" where
  "type_name_detail n = JObj [(''type'', JStr (nd_type n)), (''name'', JStr (nd_name n))]"

definition archive_node :: "timestamp \<Rightarrow> node_id \<Rightarrow> graph_db \<Rightarrow> db_abort + graph_db" where
  "archive_node now i db = update_node i (\<lambda>n. n\<lparr>nd_status := ''archived'', nd_updated_at := now\<rparr>) db"

text \<open>What \<open>portuni_delete_node\<close> does once the node is visible and may be written.\<close>

definition delete_checked :: "user_id \<Rightarrow> timestamp \<Rightarrow> bool \<Rightarrow> node_row \<Rightarrow> graph_db \<Rightarrow> node_reply \<times> graph_db" where
  "delete_checked user now purge n db =
     (let i = nd_id n
      in if \<not> purge
         then (if nd_status n = ''archived'' then (AlreadyArchived i, db)
               else (case archive_node now i db of
                       Inl e \<Rightarrow> (NodeFailed (NodeDbFailure e), db)
                     | Inr db1 \<Rightarrow>
                         (NodeArchived i,
                          writeAudit user ''archive_node'' ''node'' i (Some (type_name_detail n)) db1)))
         else if nd_type n = ''organization'' \<and> org_children db i \<noteq> []
         then (HasChildren i (org_children db i), db)
         else (NodePurged i,
               writeAudit user ''purge_node'' ''node'' i (Some (type_name_detail n)) (purgeNodeRows i db)))"

definition portuni_delete_node ::
  "group_identity \<Rightarrow> (string \<Rightarrow> elicit_outcome) option \<Rightarrow> timestamp \<Rightarrow> node_id \<Rightarrow> bool \<Rightarrow>
     session_scope \<times> graph_db \<Rightarrow> node_reply \<times> session_scope \<times> graph_db" where
  "portuni_delete_node viewer elicitor now i purge st =
     (let (scope, db) = st
      in case node_by_id db i of
           None \<Rightarrow> (NodeToolNotFound, scope, db)
         | Some n \<Rightarrow>
             if \<not> nodeVisibleTo db viewer i then (NodeToolNotFound, scope, db)
             else (case guardNodeWrite (Some db) elicitor i scope of
                     (Some e, scope1) \<Rightarrow> (NodeWriteError e, scope1, db)
                   | (None, scope1) \<Rightarrow>
                       (case delete_checked (gi_user viewer) now purge n db of
                          (reply, db1) \<Rightarrow> (reply, scope1, db1))))"

end
