(* ===== verification/NodeLaws.thy ===== *)
theory NodeLaws
  imports Nodes
begin

text \<open>
  What every graph mutation keeps: the organization invariant together with the constraints of the
  node table, over any sequence of calls of the tools and handlers; the agreement of the code's
  lifecycle tables with the triggers, which makes a refused create or update change nothing; and the
  shape of generated sync keys.
\<close>

section \<open>Types by id\<close>

definition node_keys :: "graph_db \<Rightarrow> (node_id \<times> string) list" where
  "node_keys db = map (\<lambda>n. (nd_id n, nd_type n)) (nodes_t db)"

lemma type_of_node_keys: "type_of_node db i = map_of (node_keys db) i"
proof -
  have "map_option nd_type (find (\<lambda>n. nd_id n = i) ns) = map_of (map (\<lambda>n. (nd_id n, nd_type n)) ns) i" for ns
    by (induction ns) auto
  then show ?thesis by (simp add: type_of_node_def node_by_id_def node_keys_def)
qed

lemma unique_nodes_keys: "unique_nodes db \<longleftrightarrow> distinct (map fst (node_keys db))"
  by (simp add: unique_nodes_def node_keys_def o_def)

definition membership_in :: "(node_id \<Rightarrow> string option) \<Rightarrow> node_id \<Rightarrow> edge_row \<Rightarrow> bool" where
  "membership_in T i e \<longleftrightarrow>
     ed_source e = i \<and> ed_relation e = ''belongs_to'' \<and> T (ed_target e) = Some ''organization''"

definition edge_ok_in :: "(node_id \<Rightarrow> string option) \<Rightarrow> edge_row \<Rightarrow> bool" where
  "edge_ok_in T e \<longleftrightarrow>
     T (ed_source e) \<noteq> None \<and> T (ed_target e) \<noteq> None \<and>
     ed_relation e \<in> set EDGE_RELATIONS \<and> ed_source e \<noteq> ed_target e"

lemma is_membership_eq: "is_membership db = membership_in (type_of_node db)"
  by (intro ext) (simp add: membership_in_def is_membership_def is_org_def)

text \<open>The invariant as a property of the types by id and the edges.\<close>

lemma org_inv_types:
  "org_inv db \<longleftrightarrow>
     unique_nodes db \<and> distinct (map ed_id (edges_t db)) \<and>
     (\<forall>e \<in> set (edges_t db). edge_ok_in (type_of_node db) e) \<and>
     (\<forall>a \<in> set (edges_t db). \<forall>b \<in> set (edges_t db). same_link a b \<longrightarrow> a = b) \<and>
     (\<forall>i t. type_of_node db i = Some t \<longrightarrow> t \<noteq> ''organization'' \<longrightarrow>
        length (filter (membership_in (type_of_node db) i) (edges_t db)) = 1)"
proof (cases "unique_nodes db")
  case True
  have "org_count db i = length (filter (membership_in (type_of_node db) i) (edges_t db))" for i
    by (simp add: org_count_eq [OF True] is_membership_eq)
  then have "(\<forall>n \<in> set (nodes_t db). nd_type n \<noteq> ''organization'' \<longrightarrow> org_count db (nd_id n) = 1) \<longleftrightarrow>
      (\<forall>i t. type_of_node db i = Some t \<longrightarrow> t \<noteq> ''organization'' \<longrightarrow>
         length (filter (membership_in (type_of_node db) i) (edges_t db)) = 1)"
    using node_found [OF True] by (auto simp: type_of_node_def dest!: node_by_id_SomeD)
  then show ?thesis
    unfolding org_inv_def edge_row_ok_def edge_ok_in_def by blast
qed (simp add: org_inv_def)

lemma org_inv_keys:
  assumes "org_inv db" and "node_keys db' = node_keys db" and "edges_t db' = edges_t db"
  shows "org_inv db'"
proof -
  have "type_of_node db' = type_of_node db"
    using assms(2) by (intro ext) (simp add: type_of_node_keys)
  with assms show ?thesis by (simp add: org_inv_types unique_nodes_keys)
qed

section \<open>The node table\<close>

definition node_inv :: "graph_db \<Rightarrow> bool" where
  "node_inv db \<longleftrightarrow> (\<forall>n \<in> set (nodes_t db). node_row_ok n) \<and> distinct (map nd_sync_key (nodes_t db))"

definition graph_inv :: "graph_db \<Rightarrow> bool" where
  "graph_inv db \<longleftrightarrow> org_inv db \<and> node_inv db"

lemma node_inv_frame: "node_inv db \<Longrightarrow> nodes_t db' = nodes_t db \<Longrightarrow> node_inv db'"
  by (simp add: node_inv_def)

lemma graph_inv_frame: "graph_inv db \<Longrightarrow> nodes_t db' = nodes_t db \<Longrightarrow> edges_t db' = edges_t db \<Longrightarrow> graph_inv db'"
  using org_inv_frame [of db db'] node_inv_frame [of db db'] by (simp add: graph_inv_def)

lemma graph_inv_writeAudit: "graph_inv db \<Longrightarrow> graph_inv (writeAudit u a tt ti d db)"
  by (rule graph_inv_frame) simp_all

lemma graph_inv_publish_both: "graph_inv db \<Longrightarrow> graph_inv (publish_both s t db)"
  by (rule graph_inv_frame) simp_all

text \<open>An UPDATE that keeps ids, types and sync keys keeps the invariant.\<close>

lemma update_node_inv:
  assumes "graph_inv db" and "update_node i f db = Inr db'"
    and "\<And>n. nd_id (f n) = nd_id n" and "\<And>n. nd_type (f n) = nd_type n" and "\<And>n. nd_sync_key (f n) = nd_sync_key n"
  shows "graph_inv db'"
proof -
  let ?g = "\<lambda>n. if nd_id n = i then f n else n"
  have ok: "\<forall>n \<in> set (nodes_t db). nd_id n = i \<longrightarrow> node_row_ok (f n)"
    and db': "db' = db\<lparr>nodes_t := map ?g (nodes_t db)\<rparr>"
    using assms(2) by (auto simp: update_node_def split: if_split_asm)
  have "node_keys db' = node_keys db"
    using assms(3,4) by (simp add: node_keys_def db' o_def)
  then have "org_inv db'"
    using org_inv_keys [of db db'] assms(1) by (simp add: graph_inv_def db')
  moreover have "nd_sync_key \<circ> ?g = nd_sync_key"
    using assms(5) by auto
  then have "node_inv db'"
    using assms(1) ok by (auto simp: graph_inv_def node_inv_def db')
  ultimately show ?thesis by (simp add: graph_inv_def)
qed

lemma set_lifecycle_fields [simp]:
  "nd_id (set_lifecycle s n) = nd_id n" "nd_type (set_lifecycle s n) = nd_type n"
  "nd_sync_key (set_lifecycle s n) = nd_sync_key n"
  by (simp_all add: set_lifecycle_def)

lemma apply_fields_fields [simp]:
  "nd_id (apply_fields now a n) = nd_id n" "nd_type (apply_fields now a n) = nd_type n"
  "nd_sync_key (apply_fields now a n) = nd_sync_key n"
  by (simp_all add: apply_fields_def)

lemma update_lifecycle_inv:
  assumes "graph_inv db" and "update_lifecycle i s f db = Inr db'"
    and "\<And>n. nd_id (f n) = nd_id n" and "\<And>n. nd_type (f n) = nd_type n" and "\<And>n. nd_sync_key (f n) = nd_sync_key n"
  shows "graph_inv db'"
proof (rule update_node_inv [OF assms(1)])
  show "update_node i (\<lambda>n. set_lifecycle s (f n)) db = Inr db'"
    using assms(2) by (simp add: update_lifecycle_def split: if_split_asm)
qed (simp_all add: assms(3-5))

section \<open>Lifecycle tables and triggers\<close>

lemma lifecycle_trigger:
  "t \<in> set NODE_TYPES \<Longrightarrow> nodes_validate_lifecycle_state t (Some s) \<longleftrightarrow> check_lifecycle t (Some s) \<noteq> Inr ()"
  by (auto simp: NODE_TYPES_def nodes_validate_lifecycle_state_def check_lifecycle_def
      getLifecycleStatesForType_def LIFECYCLE_STATES_BY_TYPE_def)

lemma status_trigger: "nodes_derive_status_from_lifecycle (Some s) status = deriveStatusFromLifecycle s"
  by (simp add: nodes_derive_status_from_lifecycle_def deriveStatusFromLifecycle_def LIFECYCLE_TO_STATUS_def)

text \<open>For every node type the trigger aborts exactly the lifecycle states the code's table does
  not list, so a state the code accepts is never aborted by the database, and the status the trigger
  derives is the one \<open>deriveStatusFromLifecycle\<close> computes.\<close>

theorem lifecycle_rules_agree:
  assumes "t \<in> set NODE_TYPES"
  shows "(nodes_validate_lifecycle_state t (Some s) \<longleftrightarrow> check_lifecycle t (Some s) \<noteq> Inr ()) \<and>
    nodes_derive_status_from_lifecycle (Some s) status = deriveStatusFromLifecycle s"
  using lifecycle_trigger [OF assms] by (simp add: status_trigger)

lemma lifecycle_rules_agree_witness:
  "nodes_validate_lifecycle_state ''project'' (Some ''retired'') \<and>
   nodes_derive_status_from_lifecycle (Some ''done'') ''active'' = ''completed''"
proof -
  have "''project'' \<in> set NODE_TYPES" by (simp add: NODE_TYPES_def)
  from lifecycle_rules_agree [OF this] show ?thesis
    by (simp add: check_lifecycle_def getLifecycleStatesForType_def LIFECYCLE_STATES_BY_TYPE_def
        deriveStatusFromLifecycle_def LIFECYCLE_TO_STATUS_def)
qed

section \<open>Creating keeps the invariant\<close>

lemma insert_node_types:
  assumes "insert_node n db = Inr db'"
  shows "type_of_node db' = (type_of_node db)(nd_id n \<mapsto> nd_type n)" and "type_of_node db (nd_id n) = None"
    and "edges_t db' = edges_t db" and "unique_nodes db \<Longrightarrow> unique_nodes db'" and "node_inv db \<Longrightarrow> node_inv db'"
proof -
  have db': "db' = db\<lparr>nodes_t := nodes_t db @ [n]\<rparr>" and ok: "node_row_ok n"
    and fresh: "\<forall>m \<in> set (nodes_t db). nd_id m \<noteq> nd_id n \<and> nd_sync_key m \<noteq> nd_sync_key n"
    using assms by (auto simp: insert_node_def split: if_split_asm)
  show none: "type_of_node db (nd_id n) = None"
    using fresh by (auto simp: type_of_node_def node_by_id_def find_None_iff)
  show "type_of_node db' = (type_of_node db)(nd_id n \<mapsto> nd_type n)"
    using none by (intro ext) (auto simp: type_of_node_def node_by_id_def db' find_append_list split: option.splits)
  show "edges_t db' = edges_t db" by (simp add: db')
  show "unique_nodes db \<Longrightarrow> unique_nodes db'"
    using fresh by (auto simp: unique_nodes_def db')
  show "node_inv db \<Longrightarrow> node_inv db'"
    using fresh ok by (fastforce simp: node_inv_def db')
qed

lemma membership_of_new:
  assumes "org_inv db" and "type_of_node db k = None" and "e \<in> set (edges_t db)"
  shows "membership_in ((type_of_node db)(k \<mapsto> t)) i e = membership_in (type_of_node db) i e"
    and "edge_ok_in ((type_of_node db)(k \<mapsto> t)) e" and "ed_source e \<noteq> k"
  using assms by (auto simp: org_inv_types membership_in_def edge_ok_in_def)

lemma insert_organization_inv:
  assumes "org_inv db" and "insert_node n db = Inr db'" and "nd_type n = ''organization''"
  shows "org_inv db'"
proof -
  note new = insert_node_types [OF assms(2)]
  have "filter (membership_in (type_of_node db') i) (edges_t db) = filter (membership_in (type_of_node db) i) (edges_t db)" for i
    by (rule filter_cong) (simp_all add: new(1) membership_of_new [OF assms(1) new(2)])
  then show ?thesis
    using assms(1,3) new membership_of_new(2) [OF assms(1) new(2)] by (auto simp: org_inv_types)
qed

lemma insert_member_inv:
  assumes "org_inv db" and "insert_node n db = Inr db1" and "insert_edge m db1 = Inr db2"
    and "ed_source m = nd_id n" and "ed_relation m = ''belongs_to''" and "type_of_node db (ed_target m) = Some ''organization''"
    and "nd_type n \<noteq> ''organization''"
  shows "org_inv db2"
proof -
  note new = insert_node_types [OF assms(2)]
  have db2: "db2 = db1\<lparr>edges_t := edges_t db @ [m]\<rparr>" and ok: "edge_row_ok db1 m"
    and fresh: "\<forall>x \<in> set (edges_t db). ed_id x \<noteq> ed_id m \<and> \<not> same_link x m"
    using assms(3) new(3) by (auto simp: insert_edge_def split: if_split_asm)
  have T: "type_of_node db2 = (type_of_node db)(nd_id n \<mapsto> nd_type n)"
    unfolding new(1) [symmetric] by (intro ext type_frame) (simp add: db2)
  have old: "filter (membership_in (type_of_node db2) i) (edges_t db) = filter (membership_in (type_of_node db) i) (edges_t db)" for i
    by (rule filter_cong) (simp_all add: T membership_of_new [OF assms(1) new(2)])
  have at_new: "filter (membership_in (type_of_node db) (nd_id n)) (edges_t db) = []"
    using membership_of_new(3) [OF assms(1) new(2)] by (auto simp: filter_empty_conv membership_in_def)
  have target: "ed_target m \<noteq> nd_id n" using new(2) assms(6) by auto
  have m: "membership_in (type_of_node db2) i m \<longleftrightarrow> i = nd_id n" for i
    using assms(4-6) target by (auto simp: membership_in_def T)
  have "edge_ok_in (type_of_node db2) m"
    using ok new(1) by (simp add: edge_row_ok_def edge_ok_in_def T)
  moreover have "unique_nodes db2"
    using new(4) [OF org_inv_unique [OF assms(1)]] by (simp add: db2 unique_nodes_def)
  moreover have "\<forall>e \<in> set (edges_t db). edge_ok_in (type_of_node db2) e"
    unfolding T using membership_of_new(2) [OF assms(1) new(2)] by simp
  moreover have "\<forall>a \<in> set (edges_t db2). \<forall>b \<in> set (edges_t db2). same_link a b \<longrightarrow> a = b"
    using fresh assms(1) by (auto simp: db2 org_inv_def same_link_def)
  moreover have "length (filter (membership_in (type_of_node db2) i) (edges_t db2)) = 1"
    if "type_of_node db2 i = Some t" "t \<noteq> ''organization''" for i t
  proof -
    have edges: "edges_t db2 = edges_t db @ [m]" by (simp add: db2)
    show ?thesis
    proof (cases "i = nd_id n")
      case True
      with m [of i] old [of i] at_new show ?thesis by (simp add: edges)
    next
      case False
      then have "type_of_node db i = Some t" using that(1) by (simp add: T)
      with False m [of i] old [of i] that(2) assms(1) show ?thesis
        by (simp add: edges org_inv_types)
    qed
  qed
  ultimately show ?thesis
    using fresh assms(1) by (auto simp: org_inv_types db2)
qed

lemma insert_batch_inv:
  assumes "graph_inv db" and "check_organization a db = Inr ()" and "insert_batch d now user a db = Inr db'"
  shows "graph_inv db'"
proof -
  let ?n = "new_node_row d now user a (generateSyncKey (dr_key1 d) (dr_key2 d) db (cn_name a))"
  have inv: "org_inv db" "node_inv db" using assms(1) by (simp_all add: graph_inv_def)
  have n: "nd_id ?n = dr_node d" "nd_type ?n = cn_type a" by (simp_all add: new_node_row_def)
  obtain db1 where db1: "insert_node ?n db = Inr db1"
    and rest: "(case cn_organization a of
                 Some org \<Rightarrow>
                   if cn_type a \<noteq> ''organization'' \<and> org \<noteq> [] then insert_edge (new_membership d now user org) db1
                   else Inr db1
               | None \<Rightarrow> Inr db1) = Inr db'"
    using assms(3) by (auto simp: insert_batch_def bind_sum_Inr)
  show ?thesis
  proof (cases "cn_type a = ''organization''")
    case True
    then have "db' = db1" using rest by (auto split: option.splits)
    with insert_organization_inv [OF inv(1) db1] insert_node_types(5) [OF db1 inv(2)] n(2) True
    show ?thesis by (simp add: graph_inv_def)
  next
    case False
    then obtain org where org: "cn_organization a = Some org" "org \<noteq> []" "type_of_node db org = Some ''organization''"
      using assms(2) by (auto simp: check_organization_def split: option.splits if_split_asm)
    with False rest have m: "insert_edge (new_membership d now user org) db1 = Inr db'"
      by simp
    have "org_inv db'"
      by (rule insert_member_inv [OF inv(1) db1 m]) (simp_all add: new_membership_def n False org)
    moreover have "nodes_t db' = nodes_t db1"
      using m by (auto simp: insert_edge_def split: if_split_asm)
    ultimately show ?thesis
      using insert_node_types(5) [OF db1 inv(2)] node_inv_frame by (auto simp: graph_inv_def)
  qed
qed

lemma check_all_Inr:
  "bind_sum r (\<lambda>_. k) = Inr y \<longleftrightarrow> (\<exists>u. r = Inr u) \<and> k = Inr y"
  by (auto simp: bind_sum_Inr)

lemma persist_goal_inv: "graph_inv db \<Longrightarrow> persist_goal i a db = Inr db' \<Longrightarrow> graph_inv db'"
  by (auto simp: persist_goal_def split: option.splits
      intro: update_lifecycle_inv [where db = db] update_node_inv [where db = db])

lemma createNodeInternal_inv:
  "graph_inv db \<Longrightarrow> graph_inv (snd (createNodeInternal d now user a db))"
  by (auto simp: createNodeInternal_def check_all_Inr node_db_def split: sum.splits if_split_asm
      intro: graph_inv_writeAudit persist_goal_inv insert_batch_inv)

lemma updateNodeInternal_inv:
  assumes "graph_inv db"
  shows "graph_inv (snd (updateNodeInternal now user detail a db))"
proof -
  have w: "graph_inv db1" if "write_fields now a db = Inr db1" for db1
    using that update_node_inv [OF assms, of "un_node a" "apply_fields now a"] assms
    by (auto simp: write_fields_def split: if_split_asm)
  have l: "graph_inv db2" if "graph_inv db1" "write_lifecycle a db1 = Inr db2" for db1 db2
    using that update_lifecycle_inv [OF that(1), of "un_node a" _ "\<lambda>n. n"]
    by (auto simp: write_lifecycle_def split: option.splits)
  show ?thesis
    using assms w l by (auto simp: updateNodeInternal_def split: sum.split intro: graph_inv_writeAudit)
qed

section \<open>Purging keeps the invariant\<close>

lemma purge_types:
  "type_of_node (purgeNodeRows i db) j = (if j = i then None else type_of_node db j)"
proof -
  have "map_of (filter (\<lambda>p. fst p \<noteq> i) kts) j = (if j = i then None else map_of kts j)" for kts :: "(node_id \<times> string) list"
    by (induction kts) auto
  moreover have "node_keys (purgeNodeRows i db) = filter (\<lambda>p. fst p \<noteq> i) (node_keys db)"
    by (simp add: node_keys_def purgeNodeRows_def Let_def filter_map o_def)
  ultimately show ?thesis
    by (simp add: type_of_node_keys)
qed

lemma purge_inv:
  assumes "graph_inv db" and "is_org db i \<Longrightarrow> org_children db i = []"
  shows "graph_inv (purgeNodeRows i db)"
proof -
  let ?db = "purgeNodeRows i db"
  have inv: "org_inv db" "node_inv db" using assms(1) by (simp_all add: graph_inv_def)
  have nodes: "nodes_t ?db = filter (\<lambda>n. nd_id n \<noteq> i) (nodes_t db)"
    and edges: "edges_t ?db = filter (\<lambda>e. ed_source e \<noteq> i \<and> ed_target e \<noteq> i) (edges_t db)"
    by (simp_all add: purgeNodeRows_def Let_def)
  have members: "filter (membership_in (type_of_node ?db) j) (edges_t ?db) = filter (membership_in (type_of_node db) j) (edges_t db)"
    if j: "j \<noteq> i" "type_of_node db j = Some t" "t \<noteq> ''organization''" for j t
  proof -
    have "ed_target e \<noteq> i" if "e \<in> set (edges_t db)" "membership_in (type_of_node db) j e" for e
    proof
      assume e: "ed_target e = i"
      then have "is_org db i" using that(2) by (simp add: membership_in_def is_org_def)
      moreover have "is_non_org db (ed_source e)"
        using that(2) j by (simp add: membership_in_def is_non_org_iff)
      ultimately show False
        using assms(2) that e by (auto simp: org_children_def filter_empty_conv membership_in_def)
    qed
    then show ?thesis
      unfolding edges filter_filter
      by (intro filter_cong) (use j in \<open>auto simp: membership_in_def purge_types\<close>)
  qed
  have "org_inv ?db"
    unfolding org_inv_types
  proof (intro conjI ballI allI impI)
    show "unique_nodes ?db"
      using org_inv_unique [OF inv(1)] by (simp add: unique_nodes_def nodes distinct_map_filter)
    show "distinct (map ed_id (edges_t ?db))"
      using inv(1) by (simp add: org_inv_def edges distinct_map_filter)
    show "edge_ok_in (type_of_node ?db) e" if "e \<in> set (edges_t ?db)" for e
      using that inv(1) by (auto simp: org_inv_types edges edge_ok_in_def purge_types)
    show "a = b" if "a \<in> set (edges_t ?db)" "b \<in> set (edges_t ?db)" "same_link a b" for a b
      using that inv(1) by (auto simp: org_inv_def edges)
    show "length (filter (membership_in (type_of_node ?db) j) (edges_t ?db)) = 1"
      if "type_of_node ?db j = Some t" "t \<noteq> ''organization''" for j t
      using that members [of j t] inv(1) by (auto simp: org_inv_types purge_types split: if_split_asm)
  qed
  moreover have "node_inv ?db"
    using inv(2) by (auto simp: node_inv_def nodes distinct_map_filter)
  ultimately show ?thesis by (simp add: graph_inv_def)
qed

section \<open>Every mutation of the graph\<close>

lemma graph_inv_edges: "graph_inv db \<Longrightarrow> org_inv db' \<Longrightarrow> nodes_t db' = nodes_t db \<Longrightarrow> graph_inv db'"
  using node_inv_frame [of db db'] by (simp add: graph_inv_def)

lemma insert_edge_graph_inv: "graph_inv db \<Longrightarrow> insert_edge e db = Inr db' \<Longrightarrow> graph_inv db'"
  using graph_inv_edges [of db db'] insert_edge_inv [of db e db']
  by (auto simp: graph_inv_def insert_edge_def split: if_split_asm)

lemma delete_edges_graph_inv: "graph_inv db \<Longrightarrow> delete_edges_where P db = Inr db' \<Longrightarrow> graph_inv db'"
  using graph_inv_edges [of db db'] delete_edges_where_inv [of P db db']
  by (auto simp: graph_inv_def delete_edges_where_def dest: delete_edge_rows_frame)

lemma disconnect_graph_inv: "graph_inv db \<Longrightarrow> disconnectEdgeById user eid db = Inr db' \<Longrightarrow> graph_inv db'"
  by (auto simp: disconnectEdgeById_def bind_sum_Inr db_result_def split: option.splits if_split_asm sum.splits
      intro!: graph_inv_publish_both graph_inv_writeAudit intro: delete_edges_graph_inv)

lemma move_graph_inv:
  assumes "graph_inv db" and "moveNodeToOrganization local rename now rdb user i org db = Inr (r, db')"
  shows "graph_inv db'"
proof -
  have inv: "org_inv db" using assms(1) by (simp add: graph_inv_def)
  have t: "is_non_org db i" "is_org db org"
    using assms(2) by (auto simp: moveNodeToOrganization_def is_non_org_iff is_org_def
        split: option.splits if_split_asm)
  obtain e where e: "org_membership_edges db i = [e]" "nodes_t db' = nodes_t db"
    "edges_t db' = map (rebind (ed_id e) org) (edges_t db)"
    using move_exactly [OF inv t, where local = local and rename = rename and now = now and rdb = rdb and user = user]
      assms(2) by auto
  have "e \<in> set (edges_t db)" "is_membership db i e"
    using e(1) set_filter [of "is_membership db i" "edges_t db"]
    by (auto simp: memberships_eq [OF org_inv_unique [OF inv]])
  then have "org_inv (db\<lparr>edges_t := map (rebind (ed_id e) org) (edges_t db)\<rparr>)"
    by (rule rebind_inv [OF inv _ _ t])
  then have "org_inv db'"
    by (rule org_inv_frame) (simp_all add: e)
  then show ?thesis by (rule graph_inv_edges [OF assms(1) _ e(2)])
qed

lemma connect_checked_inv: "graph_inv db \<Longrightarrow> graph_inv (snd (connect_checked user now eid s t rel meta db))"
  by (auto simp: connect_checked_def Let_def split: list.split sum.split
      intro!: graph_inv_publish_both graph_inv_writeAudit intro: insert_edge_graph_inv)

lemma disconnect_checked_inv: "graph_inv db \<Longrightarrow> graph_inv (snd (disconnect_checked user s t rel db))"
  by (auto simp: disconnect_checked_def split: sum.split
      intro!: graph_inv_publish_both graph_inv_writeAudit intro: delete_edges_graph_inv)

lemma handleCreateEdge_inv:
  "graph_inv db \<Longrightarrow> graph_inv (snd (handleCreateEdge sdb env rq ident viewer now eid s t rel db))"
  by (auto simp: handleCreateEdge_def split: list.split option.split sum.split
      intro!: graph_inv_publish_both graph_inv_writeAudit intro: insert_edge_graph_inv)

lemma handleDeleteEdge_inv:
  "graph_inv db \<Longrightarrow> graph_inv (snd (handleDeleteEdge sdb env rq ident viewer eid db))"
  by (auto simp: handleDeleteEdge_def delete_edge_found_def split: option.split sum.split intro: disconnect_graph_inv)

lemma archive_inv: "graph_inv db \<Longrightarrow> archive_node now i db = Inr db' \<Longrightarrow> graph_inv db'"
  by (rule update_node_inv [of db i "\<lambda>n. n\<lparr>nd_status := ''archived'', nd_updated_at := now\<rparr>"])
    (simp_all add: archive_node_def)

lemma delete_checked_inv:
  assumes "graph_inv db" and "node_by_id db i = Some n"
  shows "graph_inv (snd (delete_checked user now purge n db))"
proof -
  have id: "nd_id n = i" using node_by_id_SomeD [OF assms(2)] by simp
  have org: "is_org db i \<longleftrightarrow> nd_type n = ''organization''"
    using assms(2) by (simp add: is_org_def type_of_node_def)
  show ?thesis
    using assms(1) org purge_inv [OF assms(1), of i] archive_inv [OF assms(1)]
    by (auto simp: delete_checked_def Let_def id split: sum.split intro!: graph_inv_writeAudit)
qed

text \<open>One call of a tool or handler that may change the graph, whatever the caller, the session and
  the outcome.\<close>

inductive graph_step :: "graph_db \<Rightarrow> graph_db \<Rightarrow> bool" where
  connect: "portuni_connect viewer elicitor now eid s t rel meta (scope, db) = (reply, scope', db') \<Longrightarrow> graph_step db db'"
| disconnect: "portuni_disconnect viewer elicitor s t relo (scope, db) = (reply, scope', db') \<Longrightarrow> graph_step db db'"
| move: "portuni_move_node viewer elicitor local rename now rdb i org (scope, db) = (reply, scope', db') \<Longrightarrow> graph_step db db'"
| rest_create_edge: "handleCreateEdge sdb env rq ident viewer now eid s t rel db = (rest, db') \<Longrightarrow> graph_step db db'"
| rest_delete_edge: "handleDeleteEdge sdb env rq ident viewer eid db = (rest, db') \<Longrightarrow> graph_step db db'"
| move_direct: "moveNodeToOrganization local rename now rdb user i org db = Inr (r, db') \<Longrightarrow> graph_step db db'"
| create: "portuni_create_node viewer d now a (scope, db) = (nreply, scope', db') \<Longrightarrow> graph_step db db'"
| create_direct: "createNodeInternal d now user a db = (res, db') \<Longrightarrow> graph_step db db'"
| update: "portuni_update_node viewer elicitor now detail u (scope, db) = (nreply, scope', db') \<Longrightarrow> graph_step db db'"
| update_direct: "updateNodeInternal now user detail u db = (err, db') \<Longrightarrow> graph_step db db'"
| delete: "portuni_delete_node viewer elicitor now i purge (scope, db) = (nreply, scope', db') \<Longrightarrow> graph_step db db'"
| archive: "archive_node now i db = Inr db' \<Longrightarrow> graph_step db db'"

lemma graph_step_inv: "graph_step db db' \<Longrightarrow> graph_inv db \<Longrightarrow> graph_inv db'"
proof (induction rule: graph_step.induct)
  case (connect viewer elicitor now eid s t rel meta scope db reply scope' db')
  then show ?case
    using connect_checked_inv [OF connect(2), of "gi_user viewer" now eid s t rel meta]
    by (auto simp: portuni_connect_def split: if_split_asm prod.splits option.splits)
next
  case (disconnect viewer elicitor s t relo scope db reply scope' db')
  then show ?case
    using disconnect_checked_inv [OF disconnect(2), of "gi_user viewer" s t relo]
    by (auto simp: portuni_disconnect_def split: if_split_asm prod.splits option.splits)
next
  case (move viewer elicitor local rename now rdb i org scope db reply scope' db')
  then show ?case
    using move_graph_inv [OF move(2)]
    by (auto simp: portuni_move_node_def split: if_split_asm prod.splits option.splits sum.splits)
next
  case (rest_create_edge sdb env rq ident viewer now eid s t rel db rest db')
  then show ?case using handleCreateEdge_inv [of db] by (metis snd_conv)
next
  case (rest_delete_edge sdb env rq ident viewer eid db rest db')
  then show ?case using handleDeleteEdge_inv [of db] by (metis snd_conv)
next
  case (move_direct local rename now rdb user i org db r db')
  then show ?case by (auto intro: move_graph_inv)
next
  case (create viewer d now a scope db nreply scope' db')
  then show ?case
    using createNodeInternal_inv [OF create(2), of d now "gi_user viewer" a]
    by (auto simp: portuni_create_node_def split: if_split_asm prod.splits sum.splits)
next
  case (create_direct d now user a db res db')
  then show ?case using createNodeInternal_inv [of db] by (metis snd_conv)
next
  case (update viewer elicitor now detail u scope db nreply scope' db')
  then show ?case
    using updateNodeInternal_inv [OF update(2), of now "gi_user viewer" detail u]
    by (auto simp: portuni_update_node_def split: if_split_asm prod.splits option.splits)
next
  case (update_direct now user detail u db err db')
  then show ?case using updateNodeInternal_inv [of db] by (metis snd_conv)
next
  case (delete viewer elicitor now i purge scope db nreply scope' db')
  then show ?case
    using delete_checked_inv [OF delete(2), of i _ "gi_user viewer" now purge]
    by (auto simp: portuni_delete_node_def split: if_split_asm prod.splits option.splits)
next
  case (archive now i db db')
  then show ?case by (auto intro: archive_inv)
qed

interpretation graph: invariant_system graph_step graph_inv
  by unfold_locales (rule graph_step_inv)

text \<open>C19: Any sequence of connects, disconnects, moves, creations, updates, archivings and purges, over
  MCP or REST, by any callers, keeps the graph's invariant; in particular every node that is not an
  organization always belongs to exactly one.\<close>

theorem organization_invariant:
  assumes "graph_step\<^sup>*\<^sup>* db db'" and "graph_inv db"
  shows "graph_inv db' \<and>
     (\<forall>n \<in> set (nodes_t db'). nd_type n = ''organization'' \<or> length (org_membership_edges db' (nd_id n)) = 1)"
  using graph.run_inv [OF assms] by (auto simp: graph_inv_def org_inv_def org_count_def)

lemma sample_graph_inv: "graph_inv sample_org_db"
proof -
  have "node_inv sample_org_db"
    by (simp add: node_inv_def sample_org_db_def sample_simps node_row_ok_def NODE_TYPES_def NODE_STATUSES_def
        NODE_VISIBILITIES_def HEALTH_STATES_def)
  with sample_org_inv show ?thesis by (simp add: graph_inv_def)
qed

definition sample_update :: update_node_input where
  "sample_update =
     \<lparr>un_node = ''site'', un_name = Some ''Site'', un_description = None, un_status = None, un_visibility = None,
      un_meta = None, un_goal = None, un_lifecycle = Some (Some ''done''), un_owner = None, un_health = None\<rparr>"

lemma organization_invariant_witness:
  "graph_inv (snd (updateNodeInternal 5 ''ann'' JNull sample_update sample_org_db))"
proof -
  have "graph_step\<^sup>*\<^sup>* sample_org_db (snd (updateNodeInternal 5 ''ann'' JNull sample_update sample_org_db))"
    by (rule r_into_rtranclp, rule graph_step.update_direct) (rule surjective_pairing)
  from organization_invariant [OF this sample_graph_inv] show ?thesis by simp
qed

section \<open>A refused mutation changes nothing\<close>

lemma lifecycle_write_ok:
  assumes "\<forall>n \<in> set (nodes_t db). nd_id n = i \<longrightarrow> nd_type n = t \<and> node_row_ok (f n)" and "t \<in> set NODE_TYPES"
    and "check_lifecycle t s = Inr ()"
  shows "update_lifecycle i s f db =
    Inr (db\<lparr>nodes_t := map (\<lambda>n. if nd_id n = i then set_lifecycle s (f n) else n) (nodes_t db)\<rparr>)"
proof -
  have quiet: "\<not> nodes_validate_lifecycle_state t s"
    using lifecycle_trigger [OF assms(2)] assms(3)
    by (cases s) (simp_all add: nodes_validate_lifecycle_state_def [of _ None])
  have "node_row_ok (set_lifecycle s n)" if "node_row_ok n" for n
    using that by (auto simp: node_row_ok_def set_lifecycle_def nodes_derive_status_from_lifecycle_def
        NODE_STATUSES_def split: option.split)
  with quiet assms(1) show ?thesis
    by (auto simp: update_lifecycle_def update_node_def)
qed

lemma insert_batch_rows:
  assumes "create_input_ok a" and "check_organization a db = Inr ()" and "insert_batch d now user a db = Inr db'"
  shows "\<exists>key. nodes_t db' = nodes_t db @ [new_node_row d now user a key] \<and>
    edges_t db' = edges_t db @ (if cn_type a = ''organization'' then []
                                else [new_membership d now user (the (cn_organization a))]) \<and>
    node_row_ok (new_node_row d now user a key) \<and>
    (\<forall>m \<in> set (nodes_t db). nd_id m \<noteq> dr_node d \<and> nd_sync_key m \<noteq> key)"
proof -
  let ?n = "new_node_row d now user a (generateSyncKey (dr_key1 d) (dr_key2 d) db (cn_name a))"
  obtain db1 where db1: "insert_node ?n db = Inr db1"
    and rest: "(case cn_organization a of
                 Some org \<Rightarrow>
                   if cn_type a \<noteq> ''organization'' \<and> org \<noteq> [] then insert_edge (new_membership d now user org) db1
                   else Inr db1
               | None \<Rightarrow> Inr db1) = Inr db'"
    using assms(3) by (auto simp: insert_batch_def bind_sum_Inr)
  have n: "nodes_t db1 = nodes_t db @ [?n]" "edges_t db1 = edges_t db" "node_row_ok ?n"
    "\<forall>m \<in> set (nodes_t db). nd_id m \<noteq> nd_id ?n \<and> nd_sync_key m \<noteq> nd_sync_key ?n"
    using db1 by (auto simp: insert_node_def split: if_split_asm)
  have "nodes_t db' = nodes_t db1 \<and> edges_t db' = edges_t db1 @ (if cn_type a = ''organization'' then []
      else [new_membership d now user (the (cn_organization a))])"
    using rest assms(2) by (auto simp: check_organization_def insert_edge_def split: option.splits if_split_asm)
  with n show ?thesis by (intro exI) (auto simp: new_node_row_def)
qed

lemma persist_goal_ok:
  assumes "\<forall>n \<in> set (nodes_t db). nd_id n = i \<longrightarrow> nd_type n = cn_type a \<and> node_row_ok n"
    and "cn_type a \<in> set NODE_TYPES" and "check_lifecycle (cn_type a) (cn_lifecycle a) = Inr ()"
  shows "\<exists>g. persist_goal i a db = Inr (db\<lparr>nodes_t := map (\<lambda>n. if nd_id n = i then g n else n) (nodes_t db)\<rparr>) \<and>
    (\<forall>n. nd_id (g n) = nd_id n \<and> nd_type (g n) = nd_type n \<and> nd_sync_key (g n) = nd_sync_key n \<and>
         nd_name (g n) = nd_name n \<and> nd_lifecycle (g n) = (case cn_lifecycle a of None \<Rightarrow> nd_lifecycle n | Some s \<Rightarrow> Some s))"
proof (cases "cn_lifecycle a")
  case (Some s)
  have "persist_goal i a db = Inr (db\<lparr>nodes_t := map (\<lambda>n. if nd_id n = i then set_lifecycle (Some s) (n\<lparr>nd_goal := cn_goal a\<rparr>) else n)
      (nodes_t db)\<rparr>)"
    unfolding persist_goal_def Some option.case
    by (rule lifecycle_write_ok [where t = "cn_type a"]) (use assms Some in \<open>auto simp: node_row_ok_def\<close>)
  with Some show ?thesis
    by (intro exI [of _ "\<lambda>n. set_lifecycle (Some s) (n\<lparr>nd_goal := cn_goal a\<rparr>)"]) (simp add: set_lifecycle_def)
next
  case None
  show ?thesis
  proof (cases "cn_goal a")
    case (Some g)
    have "persist_goal i a db = Inr (db\<lparr>nodes_t := map (\<lambda>n. if nd_id n = i then n\<lparr>nd_goal := Some g\<rparr> else n) (nodes_t db)\<rparr>)"
      using assms(1) None Some by (auto simp: persist_goal_def update_node_def node_row_ok_def)
    with None show ?thesis by (intro exI [of _ "\<lambda>n. n\<lparr>nd_goal := Some g\<rparr>"]) simp
  next
    case no_goal: None
    have "map (\<lambda>n. if nd_id n = i then n else n) (nodes_t db) = nodes_t db" by simp
    with None no_goal show ?thesis by (intro exI [of _ "\<lambda>n. n"]) (simp add: persist_goal_def)
  qed
qed

text \<open>C21: Creating a node is all or nothing: a refusal leaves every table as it was, and a success adds
  exactly one node under the given id, with a sync key no other node has and the requested type and
  lifecycle state, and for a non-organization exactly its membership edge.\<close>

theorem create_exactly:
  assumes "graph_inv db"
  shows "case createNodeInternal d now user a db of
      (Inl e, db') \<Rightarrow> db' = db
    | (Inr i, db') \<Rightarrow>
        i = dr_node d \<and> node_by_id db i = None \<and>
        (\<exists>n. nodes_t db' = nodes_t db @ [n] \<and> nd_id n = i \<and> nd_type n = cn_type a \<and> nd_name n = cn_name a \<and>
             nd_lifecycle n = cn_lifecycle a \<and> nd_sync_key n \<notin> nd_sync_key ` set (nodes_t db)) \<and>
        edges_t db' = edges_t db @ (if cn_type a = ''organization'' then []
                                    else [new_membership d now user (the (cn_organization a))])"
proof (cases "createNodeInternal d now user a db")
  case (Pair res db')
  let ?pre = "if \<not> create_input_ok a then Inl InvalidInput
            else if cn_visibility a = Some ''group'' then Inl VisibilityManaged
            else bind_sum (check_organization a db) (\<lambda>_.
                 bind_sum (check_lifecycle (cn_type a) (cn_lifecycle a)) (\<lambda>_.
                 bind_sum (check_health (cn_type a) (cn_health a)) (\<lambda>_.
                   node_db (insert_batch d now user a db))))"
  show ?thesis
  proof (cases ?pre)
    case (Inl e)
    then show ?thesis by (simp add: createNodeInternal_def)
  next
    case (Inr db1)
    then have ok: "create_input_ok a" "check_organization a db = Inr ()"
      "check_lifecycle (cn_type a) (cn_lifecycle a) = Inr ()" "insert_batch d now user a db = Inr db1"
      by (auto simp: check_all_Inr node_db_def split: if_split_asm sum.splits)
    obtain key where rows: "nodes_t db1 = nodes_t db @ [new_node_row d now user a key]"
      "edges_t db1 = edges_t db @ (if cn_type a = ''organization'' then []
                                   else [new_membership d now user (the (cn_organization a))])"
      "node_row_ok (new_node_row d now user a key)"
      "\<forall>m \<in> set (nodes_t db). nd_id m \<noteq> dr_node d \<and> nd_sync_key m \<noteq> key"
      using insert_batch_rows [OF ok(1,2,4)] by blast
    have ty: "cn_type a \<in> set NODE_TYPES" using ok(1) by (simp add: create_input_ok_def)
    have only: "\<forall>n \<in> set (nodes_t db1). nd_id n = dr_node d \<longrightarrow> nd_type n = cn_type a \<and> node_row_ok n"
      using rows by (auto simp: new_node_row_def)
    obtain g where g: "persist_goal (dr_node d) a db1 =
        Inr (db1\<lparr>nodes_t := map (\<lambda>n. if nd_id n = dr_node d then g n else n) (nodes_t db1)\<rparr>)"
      "\<forall>n. nd_id (g n) = nd_id n \<and> nd_type (g n) = nd_type n \<and> nd_sync_key (g n) = nd_sync_key n \<and>
         nd_name (g n) = nd_name n \<and> nd_lifecycle (g n) = (case cn_lifecycle a of None \<Rightarrow> nd_lifecycle n | Some s \<Rightarrow> Some s)"
      using persist_goal_ok [OF only ty ok(3)] by blast
    have result: "createNodeInternal d now user a db = (Inr (dr_node d),
        writeAudit user ''create_node'' ''node'' (dr_node d) (Some (create_detail a))
          (db1\<lparr>nodes_t := map (\<lambda>n. if nd_id n = dr_node d then g n else n) (nodes_t db1)\<rparr>))"
      unfolding createNodeInternal_def Inr sum.case g(1) by simp
    have "map (\<lambda>n. if nd_id n = dr_node d then g n else n) (nodes_t db1) = nodes_t db @ [g (new_node_row d now user a key)]"
      using rows(1,4) by (auto simp: new_node_row_def intro!: map_idI)
    then show ?thesis
      unfolding result prod.case sum.case
      using rows g(2) by (auto simp: node_by_id_def find_None_iff new_node_row_def split: option.split)
  qed
qed

definition sample_draws_node :: node_draws where
  "sample_draws_node = \<lparr>dr_node = ''n9'', dr_edge = ''m9'', dr_key1 = ''01ARZ3NDEKTSV4RRFFQ69G5FAV'', dr_key2 = ''01ARZ3NDEKTSV4RRFFQ69G5FAW''\<rparr>"

definition sample_create :: create_node_input where
  "sample_create =
     \<lparr>cn_type = ''project'', cn_name = ''Site'', cn_description = None, cn_organization = Some ''acme'',
      cn_meta = None, cn_status = None, cn_visibility = None, cn_goal = Some ''launch'',
      cn_lifecycle = Some ''planned'', cn_health = None\<rparr>"

lemma create_exactly_witness:
  "\<exists>db' n. createNodeInternal sample_draws_node 5 ''ann'' sample_create sample_org_db = (Inr ''n9'', db') \<and>
     nodes_t db' = nodes_t sample_org_db @ [n] \<and> nd_lifecycle n = Some ''planned'' \<and>
     edges_t db' = edges_t sample_org_db @ [new_membership sample_draws_node 5 ''ann'' ''acme'']"
proof -
  have "fst (createNodeInternal sample_draws_node 5 ''ann'' sample_create sample_org_db) = Inr ''n9''"
    by code_simp
  then obtain db' where "createNodeInternal sample_draws_node 5 ''ann'' sample_create sample_org_db = (Inr ''n9'', db')"
    by (metis fst_conv surj_pair)
  with create_exactly [OF sample_graph_inv, where d = sample_draws_node and now = 5 and user = "''ann''"
      and a = sample_create] show ?thesis
    by (auto simp: sample_create_def)
qed

lemma write_fields_ok:
  assumes "graph_inv db" and "update_input_ok a"
  shows "write_fields now a db =
    Inr (if has_field_update a
         then db\<lparr>nodes_t := map (\<lambda>n. if nd_id n = un_node a then apply_fields now a n else n) (nodes_t db)\<rparr> else db)"
proof -
  have "node_row_ok (apply_fields now a n)" if "n \<in> set (nodes_t db)" for n
    using that assms by (auto simp: graph_inv_def node_inv_def node_row_ok_def apply_fields_def update_input_ok_def
        opt_in_def or_default_def split: option.splits)
  then show ?thesis
    by (auto simp: write_fields_def update_node_def)
qed

text \<open>An update either changes nothing and says why, or is one step on exactly that node: its given
  fields, then its lifecycle state with the status derived from it; the two statements never leave a
  half-applied update.\<close>

theorem update_exactly:
  assumes "graph_inv db"
  shows "case updateNodeInternal now user detail a db of
      (Some e, db') \<Rightarrow> db' = db
    | (None, db') \<Rightarrow>
        nodes_t db' = map (\<lambda>n. if nd_id n = un_node a
            then (let n1 = (if has_field_update a then apply_fields now a n else n)
                  in case un_lifecycle a of None \<Rightarrow> n1 | Some s \<Rightarrow> set_lifecycle s n1)
            else n) (nodes_t db) \<and>
        edges_t db' = edges_t db \<and> access_t db' = access_t db \<and> files_t db' = files_t db"
proof (cases "check_update a db")
  case (Inl e)
  then show ?thesis by (simp add: updateNodeInternal_def)
next
  case (Inr u)
  then obtain t where t: "update_input_ok a" "type_of_node db (un_node a) = Some t"
    "check_lifecycle t (case un_lifecycle a of Some s \<Rightarrow> s | None \<Rightarrow> None) = Inr ()"
    by (auto simp: check_update_def check_all_Inr split: if_split_asm option.splits)
  let ?f = "\<lambda>n. if has_field_update a then apply_fields now a n else n"
  let ?db1 = "db\<lparr>nodes_t := map (\<lambda>n. if nd_id n = un_node a then ?f n else n) (nodes_t db)\<rparr>"
  have w: "write_fields now a db = Inr ?db1"
  proof (cases "has_field_update a")
    case False
    then have "map (\<lambda>n. if nd_id n = un_node a then ?f n else n) (nodes_t db) = nodes_t db"
      by (intro map_idI) simp
    then have "?db1 = db" by simp
    with False show ?thesis by (simp add: write_fields_def)
  qed (use write_fields_ok [OF assms t(1), of now] in simp)
  have inv1: "graph_inv ?db1"
  proof (cases "has_field_update a")
    case True
    with w have "update_node (un_node a) (apply_fields now a) db = Inr ?db1"
      by (simp add: write_fields_def)
    then show ?thesis by (rule update_node_inv [OF assms]) simp_all
  next
    case False
    with w have "?db1 = db" by (simp add: write_fields_def)
    with assms show ?thesis by simp
  qed
  have uniq: "unique_nodes db" using assms by (simp add: graph_inv_def org_inv_unique)
  have "nd_type n = t" if "n \<in> set (nodes_t db)" "nd_id n = un_node a" for n
    using node_found [OF uniq that(1)] that(2) t(2) by (simp add: type_of_node_def)
  then have "\<forall>n \<in> set (nodes_t ?db1). nd_id n = un_node a \<longrightarrow> nd_type n = t"
    by auto
  moreover have "\<forall>n \<in> set (nodes_t ?db1). node_row_ok n"
    using inv1 unfolding graph_inv_def node_inv_def by blast
  ultimately have typed: "\<forall>n \<in> set (nodes_t ?db1). nd_id n = un_node a \<longrightarrow> nd_type n = t \<and> node_row_ok n"
    by blast
  have ty: "t \<in> set NODE_TYPES"
    using t(2) assms by (auto simp: type_of_node_def graph_inv_def node_inv_def node_row_ok_def dest!: node_by_id_SomeD)
  have l: "write_lifecycle a ?db1 = Inr (?db1\<lparr>nodes_t := map (\<lambda>n. if nd_id n = un_node a
      then (case un_lifecycle a of None \<Rightarrow> n | Some s \<Rightarrow> set_lifecycle s n) else n) (nodes_t ?db1)\<rparr>)"
  proof (cases "un_lifecycle a")
    case None
    have "map (\<lambda>n. if nd_id n = un_node a then n else n) (nodes_t ?db1) = nodes_t ?db1" by simp
    with None show ?thesis unfolding write_lifecycle_def by simp
  next
    case (Some s)
    show ?thesis
      unfolding write_lifecycle_def Some option.case
      by (rule lifecycle_write_ok [OF typed ty]) (use t(3) Some in simp)
  qed
  have "map (\<lambda>n. if nd_id n = un_node a then (case un_lifecycle a of None \<Rightarrow> n | Some s \<Rightarrow> set_lifecycle s n) else n)
      (nodes_t ?db1) =
    map (\<lambda>n. if nd_id n = un_node a
            then (let n1 = ?f n in case un_lifecycle a of None \<Rightarrow> n1 | Some s \<Rightarrow> set_lifecycle s n1)
            else n) (nodes_t db)"
    by (auto simp: Let_def split: option.split)
  then show ?thesis
    unfolding updateNodeInternal_def Inr sum.case w l by simp
qed

lemma update_exactly_witness:
  "\<exists>db'. updateNodeInternal 5 ''ann'' JNull sample_update sample_org_db = (None, db') \<and>
     map nd_status (nodes_t db') = [''active'', ''active'', ''completed'', ''active'']"
proof -
  have "fst (updateNodeInternal 5 ''ann'' JNull sample_update sample_org_db) = None"
    by code_simp
  then obtain db' where db': "updateNodeInternal 5 ''ann'' JNull sample_update sample_org_db = (None, db')"
    by (metis fst_conv surj_pair)
  with update_exactly [OF sample_graph_inv, where now = 5 and user = "''ann''" and detail = JNull and a = sample_update]
  have "nodes_t db' = map (\<lambda>n. if nd_id n = un_node sample_update
            then (let n1 = (if has_field_update sample_update then apply_fields 5 sample_update n else n)
                  in case un_lifecycle sample_update of None \<Rightarrow> n1 | Some s \<Rightarrow> set_lifecycle s n1)
            else n) (nodes_t sample_org_db)"
    by simp
  moreover have "map nd_status (map (\<lambda>n. if nd_id n = un_node sample_update
            then (let n1 = (if has_field_update sample_update then apply_fields 5 sample_update n else n)
                  in case un_lifecycle sample_update of None \<Rightarrow> n1 | Some s \<Rightarrow> set_lifecycle s n1)
            else n) (nodes_t sample_org_db)) = [''active'', ''active'', ''completed'', ''active'']"
    by code_simp
  ultimately show ?thesis using db' by metis
qed

end
