(* ===== verification/ScopeWrites.thy ===== *)
theory ScopeWrites
  imports ScopeRuns NodeLaws
begin

text \<open>
  The MCP tools that change a session's scope beside their own work: \<^verbatim>\<open>portuni_get_context\<close>
  (\<^verbatim>\<open>apps/server/mcp/tools/context.ts\<close>, what it adds to the scope; its payload is not modelled),
  \<^verbatim>\<open>portuni_create_node\<close> (\<^verbatim>\<open>apps/server/mcp/tools/nodes.ts\<close>, in \<^verbatim>\<open>Nodes\<close>) and the write gate every
  mutating tool passes.  \<open>tool_run\<close> runs them with the scope tools and with any change of the
  database by the tools themselves and by others, and lists the nodes the session created.
\<close>

section \<open>Traversal\<close>

datatype context_reply =
    ContextNotFound node_id
  | ContextScope scope_error
  | ContextTooDeep
  | ContextNodes "node_id list"

text \<open>The nodes of a walk of depth 0 or 1, the start first and its neighbours by name, less the neighbours the viewer cannot see.\<close>

definition walked_nodes :: "graph_db \<Rightarrow> group_identity \<Rightarrow> node_id \<Rightarrow> nat \<Rightarrow> node_id list" where
  "walked_nodes db viewer i depth =
     (let ns = sort_key nd_name (filter (\<lambda>n. nd_id n \<noteq> i \<and> nd_id n \<in> set (nodeNeighbourIds db i)) (nodes_t db));
          connected = (if depth = 0 then [] else map nd_id ns)
      in i # filter (\<lambda>p. classifyNodeVisibility db viewer connected p = Some Visible) connected)"

definition traversal_audit :: "session_scope \<Rightarrow> node_id \<Rightarrow> nat \<Rightarrow> node_id list \<Rightarrow> json" where
  "traversal_audit s i depth added =
     JObj [(''node_ids'', json_ids added), (''reason'', JStr ''traversal''), (''triggered_by'', JStr ''traversal''),
           (''start'', JStr i), (''depth'', JNum (int depth)), (''session_type'', JStr (session_type_name (sc_type s)))]"

definition portuni_get_context ::
  "group_identity \<Rightarrow> (string \<Rightarrow> elicit_outcome) option \<Rightarrow> timestamp \<Rightarrow> node_id \<Rightarrow> nat \<Rightarrow> agent_state \<Rightarrow>
     context_reply \<times> agent_state" where
  "portuni_get_context viewer elicitor now i depth st =
     (case guardNodeRead now (gi_user viewer) (Some viewer) elicitor i st of
        (RNotFound, st1) \<Rightarrow> (ContextNotFound i, st1)
      | (RElicit e, st1) \<Rightarrow> (ContextScope e, st1)
      | (RRefused e, st1) \<Rightarrow> (ContextScope e, st1)
      | (RAllow, s, db) \<Rightarrow>
          if 2 \<le> depth then (ContextTooDeep, s, db)
          else (let ids = walked_nodes db viewer i depth;
                    added = filter (\<lambda>p. \<not> scope_has s p) ids;
                    s1 = fold scope_add ids s
                in if added = [] then (ContextNodes ids, s1, db)
                   else (ContextNodes ids,
                         recordExpansion \<lparr>ex_at = now, ex_node_ids = added,
                           ex_reason = ''traversal from '' @ i @ '' depth '' @ (if depth = 0 then ''0'' else ''1''),
                           ex_trigger = TrigTraversal, ex_via = None\<rparr> s1,
                         writeAudit (gi_user viewer) ''expand_scope'' ''scope'' (join_with '','' added)
                           (Some (traversal_audit s1 i depth added)) db)))"

section \<open>Runs of a session's tools\<close>

text \<open>The nodes a call created, each with the database of before.\<close>

definition creations :: "node_reply \<Rightarrow> graph_db \<Rightarrow> (graph_db \<times> node_id) list" where
  "creations r db = (case r of NodeCreated i dups \<Rightarrow> [(db, i)] | _ \<Rightarrow> [])"

inductive tool_step ::
  "group_identity \<Rightarrow> (string \<Rightarrow> elicit_outcome) option \<Rightarrow> agent_state \<Rightarrow> (graph_db \<times> node_id) list \<Rightarrow> agent_state \<Rightarrow> bool"
  for g :: group_identity and elicit :: "(string \<Rightarrow> elicit_outcome) option" where
  ToolScope: "agent_step g elicit st st' \<Longrightarrow> tool_step g elicit st [] st'"
| ToolContext: "portuni_get_context g elicit now i depth st = (r, st') \<Longrightarrow> tool_step g elicit st [] st'"
| ToolGate: "guardNodeWrite (Some db) elicit i s = (r, s') \<Longrightarrow> tool_step g elicit (s, db) [] (s', db)"
| ToolCreate: "portuni_create_node g d now a st = (r, st') \<Longrightarrow> tool_step g elicit st (creations r (snd st)) st'"
| ToolDatabase: "tool_step g elicit (s, db) [] (s, db')"

inductive tool_run ::
  "group_identity \<Rightarrow> (string \<Rightarrow> elicit_outcome) option \<Rightarrow> agent_state \<Rightarrow> (graph_db \<times> node_id) list \<Rightarrow> agent_state \<Rightarrow> bool"
  for g :: group_identity and elicit :: "(string \<Rightarrow> elicit_outcome) option" where
  RunNil: "tool_run g elicit st [] st"
| RunStep: "tool_run g elicit st cs st1 \<Longrightarrow> tool_step g elicit st1 ds st2 \<Longrightarrow> tool_run g elicit st (cs @ ds) st2"

inductive_cases tool_stepE: "tool_step g elicit st cs st'"

text \<open>The mutating tools of \<^verbatim>\<open>Nodes\<close> and \<^verbatim>\<open>Edges\<close> are such runs: the gate, then their own change of the database.\<close>

lemma gated_run:
  assumes "guardNodeWrite (Some db) elicit i s = (r, s')"
  shows "tool_run g elicit (s, db) [] (s', db')"
proof -
  have "tool_run g elicit (s, db) [] (s', db)"
    using RunStep [OF RunNil ToolGate [OF assms]] by simp
  from RunStep [OF this ToolDatabase] show ?thesis by simp
qed

lemma database_run: "tool_run g elicit (s, db) [] (s, db')"
  using RunStep [OF RunNil ToolDatabase] by simp

lemma update_is_run: "portuni_update_node g elicit now detail a (s, db) = (r, s', db') \<Longrightarrow> tool_run g elicit (s, db) [] (s', db')"
  by (auto simp: portuni_update_node_def split: if_splits prod.splits option.splits intro: gated_run database_run)

lemma delete_is_run: "portuni_delete_node g elicit now i purge (s, db) = (r, s', db') \<Longrightarrow> tool_run g elicit (s, db) [] (s', db')"
  by (auto simp: portuni_delete_node_def split: if_splits prod.splits option.splits intro: gated_run database_run)

lemma connect_is_run: "portuni_connect g elicit now eid n t rel meta (s, db) = (r, s', db') \<Longrightarrow> tool_run g elicit (s, db) [] (s', db')"
  by (auto simp: portuni_connect_def split: if_splits prod.splits option.splits intro: gated_run database_run)

lemma disconnect_is_run: "portuni_disconnect g elicit n t rel (s, db) = (r, s', db') \<Longrightarrow> tool_run g elicit (s, db) [] (s', db')"
  by (auto simp: portuni_disconnect_def split: if_splits prod.splits option.splits intro: gated_run database_run)

lemma move_is_run:
  "portuni_move_node g elicit local rename now rdb i org (s, db) = (r, s', db') \<Longrightarrow> tool_run g elicit (s, db) [] (s', db')"
  by (auto simp: portuni_move_node_def split: if_splits prod.splits option.splits sum.splits intro: gated_run database_run)

section \<open>What a tool does to the write set\<close>

lemma write_set_scope_add [simp]: "sc_write (fold scope_add ids s) = sc_write s" "sc_write (scope_add i s) = sc_write s"
  by (induction ids arbitrary: s) (simp_all add: scope_add_def add_node_def)

lemma write_set_addWritable: "set (sc_write (scope_addWritable i s)) = insert i (set (sc_write s))"
  by (auto simp: scope_addWritable_def addWritable_def Let_def)

lemma write_set_record [simp]: "sc_write (recordExpansion x s) = sc_write s"
  by (simp add: recordExpansion_def)

lemma context_write_set: "portuni_get_context g elicit now i depth st = (r, st') \<Longrightarrow> sc_write (fst st') = sc_write (fst st)"
  by (auto simp: portuni_get_context_def Let_def split: read_outcome.splits prod.splits if_splits dest!: guardNodeRead_frame(1))

lemma gate_never_accepts:
  "never_accepts elicit \<Longrightarrow> guardNodeWrite db elicit i s = (r, s') \<Longrightarrow> s' = s"
  by (auto simp: guardNodeWrite_def Let_def never_accepts_def split: write_outcome.splits option.splits if_splits)

lemma insert_batch_new: "insert_batch d now user a db = Inr db1 \<Longrightarrow> node_by_id db (dr_node d) = None"
  by (auto simp: insert_batch_def bind_sum_Inr insert_node_def new_node_row_def node_by_id_def find_None_iff split: if_splits)

lemma create_write_set:
  assumes "portuni_create_node g d now a st = (r, st')"
  shows "set (sc_write (fst st')) = set (sc_write (fst st)) \<union> snd ` set (creations r (snd st)) \<and>
    list_all (\<lambda>(db, i). node_by_id db i = None) (creations r (snd st))"
proof -
  have new: "i = dr_node d \<and> node_by_id db i = None" if "createNodeInternal d now user a db = (Inr i, db1)" for user db i db1
    using that
    by (auto simp: createNodeInternal_def check_all_Inr node_db_def
        split: if_splits sum.splits dest!: insert_batch_new)
  show ?thesis
    using assms
    by (auto simp: portuni_create_node_def creations_def Let_def write_set_addWritable split: if_splits prod.splits sum.splits dest!: new)
qed

lemma tool_step_write_set:
  assumes "never_accepts elicit" and "tool_step g elicit st cs st'"
  shows "set (sc_write (fst st')) = set (sc_write (fst st)) \<union> snd ` set cs \<and> list_all (\<lambda>(db, i). node_by_id db i = None) cs"
  using assms(2)
proof (elim tool_stepE)
  fix db i s r s'
  assume gate: "guardNodeWrite (Some db) elicit i s = (r, s')" and st: "st = (s, db)" "cs = []" "st' = (s', db)"
  have "s' = s" using gate_never_accepts [OF assms(1) gate] .
  then show ?thesis by (simp add: st)
next
  fix d now a r
  assume "cs = creations r (snd st)" "portuni_create_node g d now a st = (r, st')"
  with create_write_set show ?thesis by simp
next
  assume "cs = []" "agent_step g elicit st st'"
  with agent_step_never_accepts [OF assms(1)] show ?thesis by (simp add: same_write_set_def)
next
  fix now i depth r
  assume "cs = []" "portuni_get_context g elicit now i depth st = (r, st')"
  with context_write_set show ?thesis by simp
qed simp

lemma tool_run_write_set:
  "tool_run g elicit st cs st' \<Longrightarrow> never_accepts elicit \<Longrightarrow>
     set (sc_write (fst st')) = set (sc_write (fst st)) \<union> snd ` set cs \<and> list_all (\<lambda>(db, i). node_by_id db i = None) cs"
proof (induction rule: tool_run.induct)
  case (RunStep st cs st1 ds st2)
  from tool_step_write_set [OF RunStep.prems RunStep.hyps(2)] RunStep.IH [OF RunStep.prems] show ?case by auto
qed simp

section \<open>Properties\<close>

text \<open>C3: The write set of a session grows by consent or by creation only: when its user accepts no dialog, then after any
  sequence of guarded reads, traversals, expansions, seeds, re-initialisations, gated writes and node
  creations, and whatever happens to the database meanwhile, it is the write set of the start and the
  nodes the session created, none of which existed when it was created.  The session's home, which it may also
  write to, is not part of the write set.\<close>

theorem write_set_needs_consent:
  "never_accepts elicit \<Longrightarrow> tool_run g elicit (s, db) cs (s', db') \<Longrightarrow>
     set (sc_write s') = set (sc_write s) \<union> snd ` set cs \<and> list_all (\<lambda>(d, i). node_by_id d i = None) cs"
  using tool_run_write_set [of g elicit "(s, db)" cs "(s', db')"] by simp

lemma write_set_needs_consent_witness:
  "\<exists>s' db'. tool_run (sample_user SAdmin ''ann'') (Some (\<lambda>_. ETimeout)) (new_scope InteractiveTask 0, sample_org_db)
       [(sample_org_db, ''n9'')] (s', db') \<and>
     set (sc_write s') = {''n9''}"
proof -
  let ?g = "sample_user SAdmin ''ann''" and ?e = "Some (\<lambda>_ :: string. ETimeout)"
  let ?st = "(new_scope InteractiveTask 0, sample_org_db)"
  let ?X = "portuni_create_node ?g sample_draws_node 5 sample_create ?st"
  have "creations (fst ?X) sample_org_db = [(sample_org_db, ''n9'')]" by code_simp
  moreover obtain r s' db' where X: "?X = (r, s', db')" by (metis surj_pair)
  ultimately have "tool_step ?g ?e ?st [(sample_org_db, ''n9'')] (s', db')" using ToolCreate [OF X, of ?e] by simp
  then have run: "tool_run ?g ?e ?st [(sample_org_db, ''n9'')] (s', db')" using RunStep [OF RunNil] by fastforce
  have "never_accepts ?e" by (simp add: never_accepts_def)
  from write_set_needs_consent [OF this run] run show ?thesis by (auto simp: new_scope_def)
qed

section \<open>Where the traversal departs from the guard\<close>

text \<open>A traversal puts the neighbours of its start in scope without the guard's hard floor: a headless session reads
  a scope-sensitive node that a read of its own would refuse.\<close>

lemma traversal_passes_hard_floor:
  "violatesHardFloor (loadNodeScopeMeta sample_db ''sec'') ''ann'' \<and>
   (case guardNodeRead 0 ''ann'' (Some (sample_user SAdmin ''ann'')) None ''sec'' (sample_scope Headless, sample_db) of
      (RRefused e, st) \<Rightarrow> True | _ \<Rightarrow> False) \<and>
   (case portuni_get_context (sample_user SAdmin ''ann'') None 0 ''org'' 1 (sample_scope Headless, sample_db) of
      (ContextNodes ids, s, db) \<Rightarrow> ''sec'' \<in> set ids \<and> scope_has s ''sec'' | _ \<Rightarrow> False)"
  by code_simp

end
