(* ===== verification/SessionLaws.thy ===== *)
theory SessionLaws
  imports SessionSamples
begin

text \<open>
  The properties of persistent sessions: the life of a row over any sequence of operations, the
  invariant of the tables, the round trip of a scope through its rows, what a reconnecting
  connector gets back, and the operations on classifications and hosts.
\<close>

section \<open>The life of a session\<close>

text \<open>C10: A session that has left the draft state is never deleted and never a draft again, its
  owner, type, anchor and creation time never change, and once archived it stays archived, whatever
  sequence of operations runs on the store.\<close>

theorem started_session_lifecycle:
  "session_step\<^sup>*\<^sup>* db db' \<Longrightarrow> loadSession db i = Some r \<Longrightarrow> se_state r \<noteq> Draft \<Longrightarrow>
     \<exists>r'. loadSession db' i = Some r' \<and> se_state r' \<noteq> Draft \<and> se_user r' = se_user r \<and>
          se_type r' = se_type r \<and> se_node r' = se_node r \<and> se_created_at r' = se_created_at r \<and>
          (se_state r = Archived \<longrightarrow> se_state r' = Archived)"
  using sessions.run_rel [of db db'] by (auto simp: lifecycle_def progressed_def)

lemma started_session_lifecycle_witness:
  "\<exists>db'. session_step\<^sup>*\<^sup>* (sample_sdb Running Headless) db' \<and>
     (\<exists>r'. loadSession db' sample_sid = Some r' \<and> se_user r' = ''ann'' \<and> se_state r' \<noteq> Draft)"
proof -
  let ?db = "sample_sdb Running Headless"
  obtain db' where db': "transitionSessionState ''t'' ''ann'' sample_sid Closed ?db = Inr db'"
    by (simp add: transitionSessionState_def isAllowedSessionTransition_def Let_def)
  then have run: "session_step\<^sup>*\<^sup>* ?db db'" by (auto intro: STransition)
  from started_session_lifecycle [OF run sample_sdb_load] show ?thesis using run by auto
qed

text \<open>C11: From tables with unique session ids, a closing time exactly on the closed and archived
  rows and one scope row per session and node, every sequence of operations leads to such tables.\<close>

theorem session_tables_invariant:
  "session_wf db \<Longrightarrow> session_step\<^sup>*\<^sup>* db db' \<Longrightarrow> session_wf db'"
  by (rule session_tables.run_inv)

lemma session_tables_invariant_witness:
  "\<exists>db'. session_step\<^sup>*\<^sup>* (sample_sdb Running Headless) db' \<and>
     loadSession db' sample_sid \<noteq> Some (sample_session Running Headless) \<and> session_wf db'"
proof -
  let ?db = "sample_sdb Running Headless"
  let ?db' = "touchSession ''z'' sample_sid ?db"
  have run: "session_step\<^sup>*\<^sup>* ?db ?db'" by (auto intro: STouch)
  have "session_wf ?db"
    by (simp add: session_wf_def sample_sdb_def sample_session_def closed_ok_def)
  from session_tables_invariant [OF this run] have "session_wf ?db'" .
  moreover have "loadSession ?db' sample_sid \<noteq> Some (sample_session Running Headless)"
    by (simp add: touchSession_def update_session_def loadSession_def sample_sdb_def sample_session_def)
  ultimately show ?thesis using run by blast
qed

section \<open>The scope of a session outlives its connection\<close>

text \<open>C12: A scope mirrored into the rows of a session that had none comes back whole when another
  connection binds to that session: the new scope reads exactly the nodes of the old one and the
  home node, and writes exactly the nodes granted to the old one and the home node.\<close>

theorem bound_scope_is_restored:
  assumes "loadSession db (se_id row) = Some row"
    and "read_rows db (se_id row) = {}"
    and "has_refs db (se_id row) (set (sc_nodes s) \<union> set (sc_write s) \<union> set (home_ids (se_node row)))"
    and "scope_wf s"
  shows "let db1 = snd (wireOngoingSync now l (se_id row) (se_node row) (s, db));
             s1 = fst (bindExistingSessionPersistence at now' l' row (new_scope ty t0, db1))
         in set (sc_nodes s1) = set (sc_nodes s) \<union> set (home_ids (se_node row)) \<and>
            set (sc_write s1) = set (sc_write s) \<union> set (home_ids (se_node row)) \<and>
            sc_home s1 = se_node row \<and> sc_session_id s1 = Some (se_id row)"
proof -
  let ?db1 = "snd (wireOngoingSync now l (se_id row) (se_node row) (s, db))"
  have wr: "write_rows db (se_id row) = {}"
    using assms(2) by (auto simp: read_rows_def write_rows_def)
  have sub: "set (sc_write s) \<subseteq> set (sc_nodes s)" using assms(4) by (simp add: scope_wf_def)
  have "mirrored db (se_id row) (set (sc_nodes s) \<union> set (sc_write s) \<union> set (home_ids (se_node row)))
      (set (sc_write s) \<union> set (home_ids (se_node row))) ?db1"
    by (rule wireOngoingSync_mirrored [OF assms(3)])
  then have "read_rows ?db1 (se_id row) = set (sc_nodes s) \<union> set (home_ids (se_node row))"
    and "write_rows ?db1 (se_id row) = set (sc_write s) \<union> set (home_ids (se_node row))"
    using assms(2) wr sub by (auto simp: mirrored_def)
  then show ?thesis
    by (simp add: bindExistingSessionPersistence_def wireOngoingSync_def Let_def rehydrate_sets
        new_scope_def rehydrate_frame)
qed

lemma bound_scope_is_restored_witness:
  "let row = sample_session Running Headless; db = sample_sdb Running Headless;
       s = scope_addWritable ''grp'' (new_scope Headless 0);
       db1 = snd (wireOngoingSync ''t'' 0 sample_sid (Some ''org'') (s, db));
       s1 = fst (bindExistingSessionPersistence 0 ''u'' 1 row (new_scope Headless 0, db1))
   in set (sc_nodes s1) = {''grp'', ''org''} \<and> set (sc_write s1) = {''grp'', ''org''}"
proof -
  let ?s = "scope_addWritable ''grp'' (new_scope Headless 0)"
  have refs: "has_refs (sample_sdb Running Headless) sample_sid {''grp'', ''org''}"
    by (simp add: has_refs_def) (simp add: sample_sdb_def sample_nodes)
  have "scope_wf ?s" by (intro scope_wf_addWritable scope_wf_new)
  with bound_scope_is_restored [of "sample_sdb Running Headless" "sample_session Running Headless" ?s
      "''t''" 0 0 "''u''" 1 Headless 0] refs
  show ?thesis
    by (simp add: Let_def home_ids_def read_rows_def insert_commute)
      (simp add: new_scope_def sample_sdb_def insert_commute)
qed

text \<open>A resume that succeeds attached a suspended session of the same user, anchored to the same
  node, which is running afterwards; any other outcome leaves the scope and the store as they were.\<close>

theorem resume_only_own_suspended:
  "resumeSessionPersistence at now l user sid home (s, db) = Inr (res, s', db') \<Longrightarrow>
     (case res of
        None \<Rightarrow> s' = s \<and> db' = db
      | Some i \<Rightarrow>
          (\<exists>row. loadSession db sid = Some row \<and> i = sid \<and> se_user row = user \<and>
                 home = se_node row \<and> se_state row = Suspended) \<and>
          sc_session_id s' = Some sid \<and> sc_home s' = home)"
proof -
  assume res: "resumeSessionPersistence at now l user sid home (s, db) = Inr (res, s', db')"
  show ?thesis
  proof (cases res)
    case None
    with res show ?thesis
      by (auto simp: resumeSessionPersistence_def Let_def split: option.splits if_split_asm sum.splits)
  next
    case (Some i)
    with res obtain h row db1 where h: "home = Some h"
      and row: "loadResumableSession db user h sid = Some row" and i: "i = se_id row"
      and s': "wireOngoingSync now l (se_id row) (Some h)
        (rehydrate at ''session resumed: rehydrated from persisted session_scope''
           (getSessionScope db1 (se_id row)) (s\<lparr>sc_session_id := Some (se_id row), sc_home := Some h\<rparr>), db1) =
        (s', db')"
      by (auto simp: resumeSessionPersistence_def Let_def split: option.splits if_split_asm sum.splits)
    have l: "loadSession db sid = Some row" "se_user row = user" "se_node row = Some h" "se_state row = Suspended"
      using row by (auto simp: loadResumableSession_def split: option.splits if_split_asm)
    have "se_id row = sid" using loadSession_id [OF l(1)] by simp
    moreover from s' have "sc_session_id s' = Some (se_id row)" "sc_home s' = Some h"
      by (auto simp: wireOngoingSync_def Let_def rehydrate_frame)
    ultimately show ?thesis using Some h i l by simp
  qed
qed

lemma resume_only_own_suspended_witness:
  "\<exists>s' db'. resumeSessionPersistence 0 ''t'' 0 ''ann'' sample_sid (Some ''org'')
       (new_scope Headless 0, sample_sdb Suspended Headless) = Inr (Some sample_sid, s', db') \<and>
     sc_home s' = Some ''org''"
proof -
  let ?st = "(new_scope Headless 0, sample_sdb Suspended Headless)"
  obtain s' db' where eq: "resumeSessionPersistence 0 ''t'' 0 ''ann'' sample_sid (Some ''org'') ?st =
      Inr (Some sample_sid, s', db')"
    by (simp add: resumeSessionPersistence_def loadResumableSession_def transitionSessionState_def
        isAllowedSessionTransition_def wireOngoingSync_def Let_def)
  from resume_only_own_suspended [OF eq] eq show ?thesis by simp
qed

text \<open>A connector session gets back write access to exactly the nodes an earlier connector session
  of the same user created and holds for writing, that still exist, and that the user can still
  see; a session of any other type gets nothing.\<close>

theorem connector_grants_exactly:
  "set (fst (rehydrateConnectorWriteGrants at g (s, db))) =
     (if sc_type s = InteractiveChat
      then {i. node_by_id (sd_graph db) i \<noteq> None \<and> nodeVisibleTo (sd_graph db) g i \<and>
               (\<exists>ss \<in> set (scope_t db). \<exists>se \<in> set (sessions_t db).
                  sr_node ss = i \<and> sr_via ss = ViaCreated \<and> sr_writable ss \<and>
                  se_id se = sr_session ss \<and> se_user se = gi_user g \<and> se_type se = InteractiveChat)}
      else {}) \<and>
   set (sc_write (snd (rehydrateConnectorWriteGrants at g (s, db)))) =
     set (sc_write s) \<union> set (fst (rehydrateConnectorWriteGrants at g (s, db)))"
proof (cases "sc_type s = InteractiveChat")
  case False
  then show ?thesis by (simp add: rehydrateConnectorWriteGrants_def)
next
  case True
  let ?created = "listConnectorCreatedWritableNodes db (gi_user g)"
  let ?granted = "filter (nodeVisibleTo (sd_graph db) g) ?created"
  have g: "filter (\<lambda>i. i \<in> filterVisibleNodeIds (sd_graph db) g ?created) ?created = ?granted"
    by (rule access.filter_list_visible)
  have r: "fst (rehydrateConnectorWriteGrants at g (s, db)) = ?granted"
    "set (sc_write (snd (rehydrateConnectorWriteGrants at g (s, db)))) = set (sc_write s) \<union> set ?granted"
    using True by (auto simp: rehydrateConnectorWriteGrants_def Let_def g filter_empty_conv)
  have "set ?created = {i. node_by_id (sd_graph db) i \<noteq> None \<and>
      (\<exists>ss \<in> set (scope_t db). \<exists>se \<in> set (sessions_t db).
         sr_node ss = i \<and> sr_via ss = ViaCreated \<and> sr_writable ss \<and>
         se_id se = sr_session ss \<and> se_user se = gi_user g \<and> se_type se = InteractiveChat)}"
    by (auto simp: listConnectorCreatedWritableNodes_def connector_rows_def)
  with True r show ?thesis by auto
qed

section \<open>Classifications, hosts and names\<close>

text \<open>Adding a node to a persisted scope again keeps one row for it, whose classification has the
  greater rank of the two and keeps its reason unless the new one outranks it; the write flag and
  every other row stay as they were.\<close>

theorem reclassification_never_downgrades:
  "find (scope_key s n) (scope_t db) = Some r \<Longrightarrow>
     \<exists>db'. upsertSessionScopeRead now s n via reason db = Inr db' \<and>
       length (scope_t db') = length (scope_t db) \<and>
       (\<exists>r'. find (scope_key s n) (scope_t db') = Some r' \<and>
          ADDED_VIA_RANK (sr_via r') = max (ADDED_VIA_RANK (sr_via r)) (ADDED_VIA_RANK via) \<and>
          sr_reason r' = (if ADDED_VIA_RANK (sr_via r) < ADDED_VIA_RANK via then reason else sr_reason r) \<and>
          sr_writable r' = sr_writable r) \<and>
       filter (\<lambda>x. \<not> scope_key s n x) (scope_t db') = filter (\<lambda>x. \<not> scope_key s n x) (scope_t db)"
proof -
  assume r: "find (scope_key s n) (scope_t db) = Some r"
  let ?f = "\<lambda>r. if scope_key s n r \<and> ADDED_VIA_RANK via > ADDED_VIA_RANK (sr_via r)
                then r\<lparr>sr_via := via, sr_reason := reason\<rparr> else r"
  have keep: "scope_key s n (?f x) = scope_key s n x" for x by (simp add: scope_key_def)
  have others: "filter (\<lambda>x. \<not> scope_key s n x) (map ?f xs) = filter (\<lambda>x. \<not> scope_key s n x) xs" for xs
    by (induction xs) (auto simp: scope_key_def)
  have "scope_key s n r" using find_SomeD [OF r] by simp
  moreover have "find (scope_key s n) (map ?f (scope_t db)) = Some (?f r)"
    using find_map_keep [of "scope_key s n" ?f "scope_t db", OF keep] r by simp
  ultimately show ?thesis
    using r others [of "scope_t db"] by (simp add: upsertSessionScopeRead_def max_def)
qed

lemma reclassification_never_downgrades_witness:
  "\<exists>db'. upsertSessionScopeRead ''t'' ''s'' ''n'' ViaEdge (Some ''edge'')
       (sample_sdb Running Headless\<lparr>scope_t := [\<lparr>sr_session = ''s'', sr_node = ''n'', sr_via = ViaElicited,
          sr_reason = Some ''asked'', sr_writable = True, sr_added_at = ''t''\<rparr>]\<rparr>) = Inr db' \<and>
     (\<exists>r'. find (scope_key ''s'' ''n'') (scope_t db') = Some r' \<and> sr_reason r' = Some ''asked'' \<and>
        ADDED_VIA_RANK (sr_via r') = 2)"
  using reclassification_never_downgrades [of "''s''" "''n''"
      "sample_sdb Running Headless\<lparr>scope_t := [\<lparr>sr_session = ''s'', sr_node = ''n'', sr_via = ViaElicited,
          sr_reason = Some ''asked'', sr_writable = True, sr_added_at = ''t''\<rparr>]\<rparr>"
      "\<lparr>sr_session = ''s'', sr_node = ''n'', sr_via = ViaElicited,
          sr_reason = Some ''asked'', sr_writable = True, sr_added_at = ''t''\<rparr>" "''t''" ViaEdge "Some ''edge''"]
  by (auto simp: scope_key_def)

lemma rewritten_once:
  assumes "\<And>r. \<not> P (f r)"
  shows "filter P (map (\<lambda>r. if P r then f r else r) xs) = []"
    and "map (\<lambda>r. if P r then f r else r) (map (\<lambda>r. if P r then f r else r) xs) =
         map (\<lambda>r. if P r then f r else r) xs"
  using assms by (auto simp: filter_empty_conv)

lemma claim_run_due_cong:
  "(\<And>i v. (\<exists>s \<in> set (sessions_t db'). se_id s = i \<and> se_user s = v) \<longleftrightarrow>
          (\<exists>s \<in> set (sessions_t db). se_id s = i \<and> se_user s = v)) \<Longrightarrow>
     claim_run_due db' p w = claim_run_due db p w"
  by (simp add: fun_eq_iff claim_run_due_def split: option.split)

text \<open>Claiming the records of a host's earlier ids is idempotent: a second claim rewrites no
  session and no run, and leaves the store as the first one left it.\<close>

theorem claim_is_idempotent:
  "claimHostRecords h ps u (snd (claimHostRecords h ps u db)) =
     ((0, 0), snd (claimHostRecords h ps u db))"
proof (cases "claim_ids h ps = []")
  case True
  then show ?thesis by (simp add: claimHostRecords_def)
next
  case False
  let ?s = "\<lambda>r. if claim_session_due (claim_ids h ps) (claim_owner u) r then r\<lparr>se_host := Some h\<rparr> else r"
  let ?r = "\<lambda>r. if claim_run_due db (claim_ids h ps) (claim_owner u) r then r\<lparr>rn_host := Some h\<rparr> else r"
  let ?db' = "db\<lparr>sessions_t := map ?s (sessions_t db), runs_t := map ?r (runs_t db)\<rparr>"
  have h: "h \<notin> set (claim_ids h ps)" by (simp add: claim_ids_def)
  have db': "snd (claimHostRecords h ps u db) = ?db'"
    using False by (simp add: claimHostRecords_def Let_def)
  have s: "\<not> claim_session_due (claim_ids h ps) (claim_owner u) (r\<lparr>se_host := Some h\<rparr>)" for r
    using h by (auto simp: claim_session_due_def)
  have ss: "sessions_t ?db' = map ?s (sessions_t db)" by simp
  have own: "(\<exists>s \<in> set (sessions_t ?db'). se_id s = i \<and> se_user s = v) \<longleftrightarrow>
      (\<exists>s \<in> set (sessions_t db). se_id s = i \<and> se_user s = v)" for i v
  proof -
    have "(\<exists>s \<in> set (sessions_t ?db'). se_id s = i \<and> se_user s = v) \<longleftrightarrow>
        (\<exists>s \<in> set (sessions_t db). se_id (?s s) = i \<and> se_user (?s s) = v)"
      unfolding ss set_map by blast
    then show ?thesis by simp
  qed
  have due: "claim_run_due ?db' (claim_ids h ps) (claim_owner u) =
      claim_run_due db (claim_ids h ps) (claim_owner u)"
    by (rule claim_run_due_cong [OF own])
  have r: "\<not> claim_run_due db (claim_ids h ps) (claim_owner u) (r\<lparr>rn_host := Some h\<rparr>)" for r
    using h by (auto simp: claim_run_due_def)
  note fs = rewritten_once(1) [of "claim_session_due (claim_ids h ps) (claim_owner u)", OF s]
  note ms = rewritten_once(2) [of "claim_session_due (claim_ids h ps) (claim_owner u)", OF s]
  note fr = rewritten_once(1) [of "claim_run_due db (claim_ids h ps) (claim_owner u)", OF r]
  note mr = rewritten_once(2) [of "claim_run_due db (claim_ids h ps) (claim_owner u)", OF r]
  have "claimHostRecords h ps u ?db' =
      ((length (filter (claim_session_due (claim_ids h ps) (claim_owner u)) (map ?s (sessions_t db))),
        length (filter (claim_run_due db (claim_ids h ps) (claim_owner u)) (map ?r (runs_t db)))),
       ?db'\<lparr>sessions_t := map ?s (map ?s (sessions_t db)), runs_t := map ?r (map ?r (runs_t db))\<rparr>)"
    using False unfolding claimHostRecords_def Let_def due by (simp del: map_map)
  also have "\<dots> = ((0, 0), ?db')" unfolding fs fr ms mr by simp
  finally show ?thesis by (simp only: db')
qed

end
