(* ===== verification/Tokens.thy ===== *)
theory Tokens
  imports ReadScope
begin

text \<open>
  The credentials of the server: OAuth authorization codes
  (\<^verbatim>\<open>apps/server/auth/oauth/codes.ts\<close>), access and refresh grants
  (\<^verbatim>\<open>apps/server/auth/oauth/grants.ts\<close>), device tokens
  (\<^verbatim>\<open>apps/server/auth/device-tokens.ts\<close>), the token endpoint
  (\<^verbatim>\<open>handleToken\<close> of \<^verbatim>\<open>apps/server/api/oauth.ts\<close>) and the resolution of a request's identity
  (\<^verbatim>\<open>apps/server/auth/request-identity.ts\<close>).  Parameters of the model: the hash \<open>H\<close> of
  \<^verbatim>\<open>node:crypto\<close>, the random ids and tokens a call draws, and the clock in milliseconds; the
  DATETIME columns hold whole seconds, as \<^verbatim>\<open>sqliteDatetime\<close> writes them.  A call that
  reads and then writes conditionally is two definitions, so that calls can interleave between them.
\<close>

section \<open>Tables\<close>

record code_row =
  co_id :: string
  co_hash :: string
  co_user :: user_id
  co_client :: string
  co_redirect :: string
  co_challenge :: string
  co_resource :: string
  co_scope :: string
  co_expires :: nat
  co_used :: "nat option"
  co_grant :: "string option"

record grant_row =
  gr_id :: string
  gr_user :: user_id
  gr_client :: string
  gr_client_name :: string
  gr_access_hash :: string
  gr_access_expires :: nat
  gr_refresh_hash :: string
  gr_prev_hash :: "string option"
  gr_refresh_expires :: nat
  gr_resource :: string
  gr_scope :: string
  gr_created :: nat
  gr_rotated :: "nat option"
  gr_revoked :: "nat option"
  gr_last_used :: "nat option"

record device_row =
  dt_id :: string
  dt_user :: user_id
  dt_label :: string
  dt_hash :: string
  dt_created :: nat
  dt_expires :: "nat option"
  dt_revoked :: "nat option"
  dt_last_used :: "nat option"
  dt_headless :: bool

record token_db =
  codes_t :: "code_row list"
  grants_t :: "grant_row list"
  devices_t :: "device_row list"

definition sqliteDatetime :: "nat \<Rightarrow> nat" where
  "sqliteDatetime ms = ms div 1000"

section \<open>Authorization codes\<close>

definition CODE_TTL_MS :: nat where "CODE_TTL_MS = 60 * 1000"

record mint_code_input =
  mc_user :: user_id
  mc_client :: string
  mc_redirect :: string
  mc_challenge :: string
  mc_resource :: string
  mc_scope :: string

definition mintAuthorizationCode ::
  "(string \<Rightarrow> string) \<Rightarrow> string \<Rightarrow> string \<Rightarrow> nat \<Rightarrow> mint_code_input \<Rightarrow> token_db \<Rightarrow>
     string + ((string \<times> string) \<times> token_db)" where
  "mintAuthorizationCode H i code now inp db =
     (if row_of co_id (codes_t db) i \<noteq> None \<or> row_of co_hash (codes_t db) (H code) \<noteq> None
      then Inl ''UNIQUE constraint failed''
      else Inr ((i, code),
             db\<lparr>codes_t := codes_t db @
                  [\<lparr>co_id = i, co_hash = H code, co_user = mc_user inp, co_client = mc_client inp,
                    co_redirect = mc_redirect inp, co_challenge = mc_challenge inp,
                    co_resource = mc_resource inp, co_scope = mc_scope inp,
                    co_expires = sqliteDatetime (now + CODE_TTL_MS), co_used = None, co_grant = None\<rparr>]\<rparr>))"

definition set_revoked :: "nat \<Rightarrow> string \<Rightarrow> token_db \<Rightarrow> token_db" where
  "set_revoked now gid db =
     db\<lparr>grants_t := map (\<lambda>g. if gr_id g = gid then g\<lparr>gr_revoked := Some (sqliteDatetime now)\<rparr> else g)
                      (grants_t db)\<rparr>"

definition revoke_attached :: "nat \<Rightarrow> string option \<Rightarrow> token_db \<Rightarrow> token_db" where
  "revoke_attached now gid db = (case gid of None \<Rightarrow> db | Some g \<Rightarrow> set_revoked now g db)"

text \<open>The first half of a redemption: the row to claim, or \<open>None\<close> for invalid\_grant.\<close>

definition redeem_lookup ::
  "(string \<Rightarrow> string) \<Rightarrow> nat \<Rightarrow> string \<Rightarrow> token_db \<Rightarrow> code_row option \<times> token_db" where
  "redeem_lookup H now code db =
     (case row_of co_hash (codes_t db) (H code) of
        None \<Rightarrow> (None, db)
      | Some row \<Rightarrow>
          if co_used row \<noteq> None then (None, revoke_attached now (co_grant row) db)
          else if co_expires row \<le> sqliteDatetime now then (None, db)
          else (Some row, db))"

text \<open>The second half: the conditional stamp, and the grant of the lost race.\<close>

definition redeem_stamp :: "nat \<Rightarrow> code_row \<Rightarrow> token_db \<Rightarrow> code_row option \<times> token_db" where
  "redeem_stamp now row db =
     (if \<exists>c \<in> set (codes_t db). co_id c = co_id row \<and> co_used c = None
      then (Some row,
            db\<lparr>codes_t := map (\<lambda>c. if co_id c = co_id row \<and> co_used c = None
                                   then c\<lparr>co_used := Some (sqliteDatetime now)\<rparr> else c) (codes_t db)\<rparr>)
      else (None, revoke_attached now (Option.bind (row_of co_id (codes_t db) (co_id row)) co_grant) db))"

definition redeemAuthorizationCode ::
  "(string \<Rightarrow> string) \<Rightarrow> nat \<Rightarrow> string \<Rightarrow> token_db \<Rightarrow> code_row option \<times> token_db" where
  "redeemAuthorizationCode H now code db =
     (case redeem_lookup H now code db of
        (None, db1) \<Rightarrow> (None, db1)
      | (Some row, db1) \<Rightarrow> redeem_stamp now row db1)"

definition attachGrantToCode :: "string \<Rightarrow> string \<Rightarrow> token_db \<Rightarrow> token_db" where
  "attachGrantToCode codeId grantId db =
     db\<lparr>codes_t := map (\<lambda>c. if co_id c = codeId then c\<lparr>co_grant := Some grantId\<rparr> else c) (codes_t db)\<rparr>"

section \<open>Grants\<close>

definition ACCESS_TTL_MS :: nat where "ACCESS_TTL_MS = 60 * 60 * 1000"

definition REFRESH_TTL_DAYS :: nat where "REFRESH_TTL_DAYS = 180"

record mint_grant_input =
  mg_user :: user_id
  mg_client :: string
  mg_client_name :: string
  mg_resource :: string
  mg_scope :: string

definition mintGrant ::
  "(string \<Rightarrow> string) \<Rightarrow> string \<Rightarrow> string \<Rightarrow> string \<Rightarrow> nat \<Rightarrow> mint_grant_input \<Rightarrow> token_db \<Rightarrow>
     string + (grant_row \<times> token_db)" where
  "mintGrant H i accessToken refreshToken now inp db =
     (let g = \<lparr>gr_id = i, gr_user = mg_user inp, gr_client = mg_client inp,
               gr_client_name = mg_client_name inp, gr_access_hash = H accessToken,
               gr_access_expires = sqliteDatetime (now + ACCESS_TTL_MS),
               gr_refresh_hash = H refreshToken, gr_prev_hash = None,
               gr_refresh_expires = sqliteDatetime (now + REFRESH_TTL_DAYS * 24 * 60 * 60 * 1000),
               gr_resource = mg_resource inp, gr_scope = mg_scope inp,
               gr_created = sqliteDatetime now, gr_rotated = None, gr_revoked = None,
               gr_last_used = None\<rparr>
      in if row_of gr_id (grants_t db) i \<noteq> None \<or> row_of gr_access_hash (grants_t db) (H accessToken) \<noteq> None \<or>
            row_of gr_refresh_hash (grants_t db) (H refreshToken) \<noteq> None
         then Inl ''UNIQUE constraint failed''
         else Inr (g, db\<lparr>grants_t := grants_t db @ [g]\<rparr>))"

record grant_hit =
  hit_id :: string
  hit_user :: user_id
  hit_resource :: string
  hit_scope :: string

definition hit_of :: "grant_row \<Rightarrow> grant_hit" where
  "hit_of g = \<lparr>hit_id = gr_id g, hit_user = gr_user g, hit_resource = gr_resource g, hit_scope = gr_scope g\<rparr>"

definition verifyAccessToken ::
  "(string \<Rightarrow> string) \<Rightarrow> nat \<Rightarrow> string \<Rightarrow> token_db \<Rightarrow> grant_hit option \<times> token_db" where
  "verifyAccessToken H now token db =
     (case find (\<lambda>g. gr_access_hash g = H token \<and> gr_revoked g = None \<and>
                     gr_access_expires g > sqliteDatetime now) (grants_t db) of
        None \<Rightarrow> (None, db)
      | Some g \<Rightarrow>
          (Some (hit_of g),
           db\<lparr>grants_t := map (\<lambda>x. if gr_id x = gr_id g
                                    then x\<lparr>gr_last_used := Some (sqliteDatetime now)\<rparr> else x) (grants_t db)\<rparr>))"

text \<open>The two halves of a rotation: the grant whose refresh token it is, and the conditional swap.\<close>

definition rotate_lookup ::
  "(string \<Rightarrow> string) \<Rightarrow> nat \<Rightarrow> string \<Rightarrow> token_db \<Rightarrow> grant_row option \<times> token_db" where
  "rotate_lookup H now refreshToken db =
     (case find (\<lambda>g. gr_prev_hash g = Some (H refreshToken) \<and> gr_revoked g = None) (grants_t db) of
        Some g \<Rightarrow> (None, set_revoked now (gr_id g) db)
      | None \<Rightarrow>
          (find (\<lambda>g. gr_refresh_hash g = H refreshToken \<and> gr_revoked g = None \<and>
                     gr_refresh_expires g > sqliteDatetime now) (grants_t db), db))"

definition rotate_swap ::
  "(string \<Rightarrow> string) \<Rightarrow> nat \<Rightarrow> string \<Rightarrow> string \<Rightarrow> string \<Rightarrow> grant_row \<Rightarrow> token_db \<Rightarrow>
     grant_hit option \<times> token_db" where
  "rotate_swap H now accessToken newRefresh refreshToken row db =
     (if \<exists>g \<in> set (grants_t db). gr_id g = gr_id row \<and> gr_refresh_hash g = H refreshToken
      then (Some (hit_of row),
            db\<lparr>grants_t := map (\<lambda>g. if gr_id g = gr_id row \<and> gr_refresh_hash g = H refreshToken
               then g\<lparr>gr_access_hash := H accessToken,
                      gr_access_expires := sqliteDatetime (now + ACCESS_TTL_MS),
                      gr_prev_hash := Some (gr_refresh_hash g), gr_refresh_hash := H newRefresh,
                      gr_rotated := Some (sqliteDatetime now)\<rparr> else g) (grants_t db)\<rparr>)
      else (None, db))"

definition rotateRefreshToken ::
  "(string \<Rightarrow> string) \<Rightarrow> nat \<Rightarrow> string \<Rightarrow> string \<Rightarrow> string \<Rightarrow> token_db \<Rightarrow> grant_hit option \<times> token_db" where
  "rotateRefreshToken H now accessToken newRefresh refreshToken db =
     (case rotate_lookup H now refreshToken db of
        (None, db1) \<Rightarrow> (None, db1)
      | (Some row, db1) \<Rightarrow> rotate_swap H now accessToken newRefresh refreshToken row db1)"

definition revokeGrant :: "nat \<Rightarrow> user_id \<Rightarrow> string \<Rightarrow> token_db \<Rightarrow> bool \<times> token_db" where
  "revokeGrant now user gid db =
     (let due = (\<lambda>g. gr_id g = gid \<and> gr_user g = user \<and> gr_revoked g = None)
      in (\<exists>g \<in> set (grants_t db). due g,
          db\<lparr>grants_t := map (\<lambda>g. if due g then g\<lparr>gr_revoked := Some (sqliteDatetime now)\<rparr> else g)
                           (grants_t db)\<rparr>))"

text \<open>Newest first; rows of the same second keep their table order.\<close>

definition listGrantsForUser :: "token_db \<Rightarrow> user_id \<Rightarrow> grant_row list" where
  "listGrantsForUser db user =
     rev (sort_key gr_created (rev (filter (\<lambda>g. gr_user g = user \<and> gr_revoked g = None) (grants_t db))))"

section \<open>Device tokens\<close>

definition DEFAULT_TTL_DAYS :: nat where "DEFAULT_TTL_DAYS = 180"

definition mintDeviceToken ::
  "(string \<Rightarrow> string) \<Rightarrow> string \<Rightarrow> string \<Rightarrow> nat \<Rightarrow> user_id \<Rightarrow> string \<Rightarrow> nat option \<Rightarrow> bool \<Rightarrow> token_db \<Rightarrow>
     string + token_db" where
  "mintDeviceToken H i token now user label ttlDays headless db =
     (let days = (case ttlDays of Some d \<Rightarrow> d | None \<Rightarrow> DEFAULT_TTL_DAYS)
      in if row_of dt_id (devices_t db) i \<noteq> None \<or> row_of dt_hash (devices_t db) (H token) \<noteq> None
         then Inl ''UNIQUE constraint failed''
         else Inr (db\<lparr>devices_t := devices_t db @
                [\<lparr>dt_id = i, dt_user = user, dt_label = label, dt_hash = H token,
                  dt_created = sqliteDatetime now,
                  dt_expires = Some (sqliteDatetime (now + days * 24 * 60 * 60 * 1000)),
                  dt_revoked = None, dt_last_used = None, dt_headless = headless\<rparr>]\<rparr>))"

record device_hit =
  dh_id :: string
  dh_user :: user_id
  dh_headless :: bool

definition verifyDeviceToken ::
  "(string \<Rightarrow> string) \<Rightarrow> nat \<Rightarrow> string \<Rightarrow> token_db \<Rightarrow> device_hit option \<times> token_db" where
  "verifyDeviceToken H now token db =
     (case find (\<lambda>d. dt_hash d = H token \<and> dt_revoked d = None \<and>
                     (case dt_expires d of None \<Rightarrow> True | Some e \<Rightarrow> e > sqliteDatetime now)) (devices_t db) of
        None \<Rightarrow> (None, db)
      | Some d \<Rightarrow>
          (Some \<lparr>dh_id = dt_id d, dh_user = dt_user d, dh_headless = dt_headless d\<rparr>,
           db\<lparr>devices_t := map (\<lambda>x. if dt_id x = dt_id d
                                     then x\<lparr>dt_last_used := Some (sqliteDatetime now)\<rparr> else x) (devices_t db)\<rparr>))"

definition revokeDeviceToken :: "nat \<Rightarrow> user_id \<Rightarrow> string \<Rightarrow> token_db \<Rightarrow> bool \<times> token_db" where
  "revokeDeviceToken now user tid db =
     (let due = (\<lambda>d. dt_id d = tid \<and> dt_user d = user \<and> dt_revoked d = None)
      in (\<exists>d \<in> set (devices_t db). due d,
          db\<lparr>devices_t := map (\<lambda>d. if due d then d\<lparr>dt_revoked := Some (sqliteDatetime now)\<rparr> else d)
                            (devices_t db)\<rparr>))"

definition listDeviceTokens :: "token_db \<Rightarrow> user_id \<Rightarrow> device_row list" where
  "listDeviceTokens db user =
     rev (sort_key dt_created (rev (filter (\<lambda>d. dt_user d = user) (devices_t db))))"

section \<open>The token endpoint\<close>

datatype token_response =
    TokenNotFound                         \<comment> \<open>404, the facade is off\<close>
  | TokenError string                     \<comment> \<open>400 with an OAuth error code\<close>
  | TokenFailed string                    \<comment> \<open>an exception of the store\<close>
  | TokenIssued string string string      \<comment> \<open>access token, refresh token, scope\<close>

definition form_get :: "(string \<Rightarrow> string option) \<Rightarrow> string \<Rightarrow> string" where
  "form_get form k = (case form k of None \<Rightarrow> [] | Some v \<Rightarrow> v)"

text \<open>\<open>pkceMatches\<close>; \<open>B\<close> is the base64url SHA-256 of the crypto library.\<close>

definition pkceMatches :: "(string \<Rightarrow> string) \<Rightarrow> string \<Rightarrow> string \<Rightarrow> bool" where
  "pkceMatches B verifier challenge \<longleftrightarrow> B verifier = challenge"

text \<open>What a request of the endpoint draws: the new grant's id and its two tokens.\<close>

record draws =
  dw_id :: string
  dw_access :: string
  dw_refresh :: string

definition exchange_code ::
  "(string \<Rightarrow> string) \<Rightarrow> (string \<Rightarrow> string) \<Rightarrow> (string \<Rightarrow> string) \<Rightarrow> nat \<Rightarrow> draws \<Rightarrow>
     (string \<Rightarrow> string option) \<Rightarrow> token_db \<times> graph_db \<Rightarrow> token_response \<times> token_db \<times> graph_db" where
  "exchange_code H B clientName now dw form st =
     (let code = form_get form ''code''; redirectUri = form_get form ''redirect_uri'';
          clientId = form_get form ''client_id''; codeVerifier = form_get form ''code_verifier''
      in if code = [] \<or> redirectUri = [] \<or> clientId = [] \<or> codeVerifier = []
         then (TokenError ''invalid_request'', st)
         else (case redeemAuthorizationCode H now code (fst st) of
                 (None, db1) \<Rightarrow> (TokenError ''invalid_grant'', db1, snd st)
               | (Some rc, db1) \<Rightarrow>
                   if co_client rc \<noteq> clientId \<or> co_redirect rc \<noteq> redirectUri
                   then (TokenError ''invalid_grant'', db1, snd st)
                   else if \<not> pkceMatches B codeVerifier (co_challenge rc)
                   then (TokenError ''invalid_grant'', db1, snd st)
                   else (case mintGrant H (dw_id dw) (dw_access dw) (dw_refresh dw) now
                                \<lparr>mg_user = co_user rc, mg_client = co_client rc,
                                 mg_client_name = clientName (co_client rc),
                                 mg_resource = co_resource rc, mg_scope = co_scope rc\<rparr> db1 of
                           Inl e \<Rightarrow> (TokenFailed e, db1, snd st)
                         | Inr (g, db2) \<Rightarrow>
                             (TokenIssued (dw_access dw) (dw_refresh dw) (co_scope rc),
                              attachGrantToCode (co_id rc) (gr_id g) db2,
                              writeAudit (co_user rc) ''oauth.token_issue'' ''oauth_grant'' (gr_id g)
                                (Some (JObj [(''client_id'', JStr (co_client rc))])) (snd st)))))"

definition refresh_grant ::
  "(string \<Rightarrow> string) \<Rightarrow> nat \<Rightarrow> draws \<Rightarrow> (string \<Rightarrow> string option) \<Rightarrow> token_db \<times> graph_db \<Rightarrow>
     token_response \<times> token_db \<times> graph_db" where
  "refresh_grant H now dw form st =
     (let refreshToken = form_get form ''refresh_token''
      in if refreshToken = [] then (TokenError ''invalid_request'', st)
         else (case rotateRefreshToken H now (dw_access dw) (dw_refresh dw) refreshToken (fst st) of
                 (None, db1) \<Rightarrow> (TokenError ''invalid_grant'', db1, snd st)
               | (Some hit, db1) \<Rightarrow>
                   (TokenIssued (dw_access dw) (dw_refresh dw) (hit_scope hit), db1,
                    writeAudit (hit_user hit) ''oauth.token_refresh'' ''oauth_grant'' (hit_id hit)
                      (Some (JObj [])) (snd st))))"

definition handleToken ::
  "(string \<Rightarrow> string) \<Rightarrow> (string \<Rightarrow> string) \<Rightarrow> (string \<Rightarrow> string) \<Rightarrow> bool \<Rightarrow> nat \<Rightarrow> draws \<Rightarrow> string \<Rightarrow>
     (string \<Rightarrow> string option) \<Rightarrow> token_db \<times> graph_db \<Rightarrow> token_response \<times> token_db \<times> graph_db" where
  "handleToken H B clientName enabled now dw contentType form st =
     (if \<not> enabled then (TokenNotFound, st)
      else if \<not> sublist ''application/x-www-form-urlencoded'' contentType
      then (TokenError ''invalid_request'', st)
      else (let grantType = form_get form ''grant_type''
            in if grantType = ''authorization_code'' then exchange_code H B clientName now dw form st
               else if grantType = ''refresh_token'' then refresh_grant H now dw form st
               else (TokenError ''unsupported_grant_type'', st)))"

section \<open>The identity of a request\<close>

record access_info =
  ai_scope :: global_scope
  ai_groups :: "string list"
  ai_group_ids :: "string list"

record full_identity =
  id_user :: user_id
  id_email :: string
  id_name :: string
  id_access :: access_info
  id_via :: via
  id_headless :: bool

text \<open>
  The context of the resolution.  \<open>ix_access\<close> stands for the identity adapter, \<open>ix_session\<close> for
  the verification of a session JWT by the \<^verbatim>\<open>jose\<close> library, \<open>ix_users\<close> for the users table.
\<close>

record identity_context =
  ix_env_mode :: bool
  ix_env_identity :: "string \<times> string"
  ix_solo_user :: user_id
  ix_access :: "string \<Rightarrow> access_info"
  ix_users :: "user_id \<Rightarrow> (string \<times> string) option"
  ix_session :: "string \<Rightarrow> full_identity option"
  ix_issuer :: string

definition bearerValue :: "string option \<Rightarrow> string" where
  "bearerValue h =
     (case h of
        None \<Rightarrow> []
      | Some s \<Rightarrow> (if prefix ''Bearer '' s then js_trim (drop (length ''Bearer '') s) else []))"

definition resolveRequestIdentity ::
  "(string \<Rightarrow> string) \<Rightarrow> nat \<Rightarrow> identity_context \<Rightarrow> string option \<Rightarrow> token_db \<Rightarrow>
     full_identity option \<times> token_db" where
  "resolveRequestIdentity H now ctx header db =
     (if ix_env_mode ctx
      then (Some \<lparr>id_user = ix_solo_user ctx, id_email = fst (ix_env_identity ctx),
                  id_name = snd (ix_env_identity ctx),
                  id_access = ix_access ctx (fst (ix_env_identity ctx)), id_via = ViaEnv,
                  id_headless = False\<rparr>, db)
      else (let value = bearerValue header
            in if value = [] then (None, db)
               else if prefix ''ptk_'' value
               then (case verifyDeviceToken H now value db of
                       (None, db1) \<Rightarrow> (None, db1)
                     | (Some hit, db1) \<Rightarrow>
                         (case ix_users ctx (dh_user hit) of
                            None \<Rightarrow> (None, db1)
                          | Some (email, nm) \<Rightarrow>
                              (Some \<lparr>id_user = dh_user hit, id_email = email, id_name = nm,
                                     id_access = ix_access ctx email, id_via = ViaDeviceToken,
                                     id_headless = dh_headless hit\<rparr>, db1)))
               else if prefix ''poa_'' value
               then (case verifyAccessToken H now value db of
                       (None, db1) \<Rightarrow> (None, db1)
                     | (Some hit, db1) \<Rightarrow>
                         if ix_issuer ctx = [] \<or> hit_resource hit \<noteq> ix_issuer ctx @ ''/mcp'' then (None, db1)
                         else (case ix_users ctx (hit_user hit) of
                                 None \<Rightarrow> (None, db1)
                               | Some (email, nm) \<Rightarrow>
                                   (Some \<lparr>id_user = hit_user hit, id_email = email, id_name = nm,
                                          id_access = ix_access ctx email, id_via = ViaOauthGrant,
                                          id_headless = False\<rparr>, db1)))
               else (case ix_session ctx value of
                       None \<Rightarrow> (None, db)
                     | Some claims \<Rightarrow> (Some (claims\<lparr>id_via := ViaSessionJwt\<rparr>), db))))"

section \<open>What is kept of a grant and of a device token\<close>

definition grant_kept :: "grant_row \<Rightarrow> grant_row \<Rightarrow> bool" where
  "grant_kept g g' \<longleftrightarrow>
     gr_id g' = gr_id g \<and> gr_user g' = gr_user g \<and> gr_client g' = gr_client g \<and>
     gr_resource g' = gr_resource g \<and> gr_scope g' = gr_scope g \<and>
     gr_refresh_expires g' = gr_refresh_expires g \<and> (gr_revoked g \<noteq> None \<longrightarrow> gr_revoked g' \<noteq> None)"

definition device_kept :: "device_row \<Rightarrow> device_row \<Rightarrow> bool" where
  "device_kept d d' \<longleftrightarrow>
     dt_id d' = dt_id d \<and> dt_user d' = dt_user d \<and> dt_hash d' = dt_hash d \<and>
     dt_expires d' = dt_expires d \<and> dt_headless d' = dt_headless d \<and>
     (dt_revoked d \<noteq> None \<longrightarrow> dt_revoked d' \<noteq> None)"

definition code_kept :: "code_row \<Rightarrow> code_row \<Rightarrow> bool" where
  "code_kept c c' \<longleftrightarrow>
     co_id c' = co_id c \<and> co_hash c' = co_hash c \<and> co_user c' = co_user c \<and>
     co_client c' = co_client c \<and> co_redirect c' = co_redirect c \<and>
     co_challenge c' = co_challenge c \<and> co_expires c' = co_expires c \<and>
     (co_used c \<noteq> None \<longrightarrow> co_used c' \<noteq> None)"

interpretation grants: kept_rows gr_id grant_kept
  by unfold_locales (auto simp: grant_kept_def)

interpretation devices: kept_rows dt_id device_kept
  by unfold_locales (auto simp: device_kept_def)

interpretation codes: kept_rows co_id code_kept
  by unfold_locales (auto simp: code_kept_def)

definition tokens_kept :: "token_db \<Rightarrow> token_db \<Rightarrow> bool" where
  "tokens_kept db db' \<longleftrightarrow>
     table_kept gr_id grant_kept (grants_t db) (grants_t db') \<and>
     table_kept dt_id device_kept (devices_t db) (devices_t db') \<and>
     table_kept co_id code_kept (codes_t db) (codes_t db')"

lemma tokens_kept_refl [simp]: "tokens_kept db db"
  by (simp add: tokens_kept_def grants.kept_refl devices.kept_refl codes.kept_refl)

lemma tokens_kept_trans: "tokens_kept a b \<Longrightarrow> tokens_kept b c \<Longrightarrow> tokens_kept a c"
  unfolding tokens_kept_def by (blast intro: grants.kept_trans devices.kept_trans codes.kept_trans)

lemma tokens_kept_set_revoked: "tokens_kept db (set_revoked now i db)"
  by (auto simp: tokens_kept_def set_revoked_def devices.kept_refl codes.kept_refl grant_kept_def
      intro!: grants.kept_map_if)

lemma tokens_kept_revoke_attached: "tokens_kept db (revoke_attached now i db)"
  by (simp add: revoke_attached_def tokens_kept_set_revoked split: option.split)

section \<open>Steps of the credential store\<close>

text \<open>
  Every statement batch of the store as one step; a redemption and a rotation are two, so a run
  interleaves them freely.
\<close>

inductive store_step :: "(string \<Rightarrow> string) \<Rightarrow> token_db \<Rightarrow> token_db \<Rightarrow> bool"
  for H :: "string \<Rightarrow> string" where
  TMintCode: "mintAuthorizationCode H i code now inp db = Inr (r, db') \<Longrightarrow> store_step H db db'"
| TLookup: "redeem_lookup H now code db = (r, db') \<Longrightarrow> store_step H db db'"
| TAttach: "store_step H db (attachGrantToCode c g db)"
| TMintGrant: "mintGrant H i acc ref now inp2 db = Inr (g, db') \<Longrightarrow> store_step H db db'"
| TVerify: "verifyAccessToken H now tok db = (h, db') \<Longrightarrow> store_step H db db'"
| TRotLookup: "rotate_lookup H now tok db = (g2, db') \<Longrightarrow> store_step H db db'"
| TRotSwap: "rotate_swap H now acc new old row2 db = (h, db') \<Longrightarrow> store_step H db db'"
| TRevoke: "revokeGrant now u gid db = (b, db') \<Longrightarrow> store_step H db db'"
| TMintDevice: "mintDeviceToken H i tok now u lbl ttl hl db = Inr db' \<Longrightarrow> store_step H db db'"
| TVerifyDevice: "verifyDeviceToken H now tok db = (h2, db') \<Longrightarrow> store_step H db db'"
| TRevokeDevice: "revokeDeviceToken now u tid db = (b, db') \<Longrightarrow> store_step H db db'"

lemma store_step_kept: "store_step H db db' \<Longrightarrow> tokens_kept db db'"
proof (induction rule: store_step.induct)
  case (TMintCode i code now inp db r db')
  then show ?case
    by (auto simp: mintAuthorizationCode_def tokens_kept_def grants.kept_refl devices.kept_refl
        codes.kept_append split: if_splits)
next
  case (TLookup now code db r db')
  then show ?case
    by (auto simp: redeem_lookup_def tokens_kept_revoke_attached split: option.splits if_splits)
next
  case (TAttach db c g)
  show ?case
    by (auto simp: attachGrantToCode_def tokens_kept_def grants.kept_refl devices.kept_refl
        code_kept_def intro!: codes.kept_map_if)
next
  case (TMintGrant i acc ref now inp2 db g db')
  then show ?case
    by (auto simp: mintGrant_def Let_def tokens_kept_def codes.kept_refl devices.kept_refl
        grants.kept_append split: if_splits)
next
  case (TVerify now tok db h db')
  then show ?case
    by (auto simp: verifyAccessToken_def tokens_kept_def codes.kept_refl devices.kept_refl
        grants.kept_refl grant_kept_def split: option.splits intro!: grants.kept_map_if)
next
  case (TRotLookup now tok db g2 db')
  then show ?case
    by (auto simp: rotate_lookup_def tokens_kept_set_revoked split: option.splits)
next
  case (TRotSwap now acc new old row2 db h db')
  then show ?case
    by (auto simp: rotate_swap_def tokens_kept_def codes.kept_refl devices.kept_refl
        grants.kept_refl grant_kept_def split: if_splits intro!: grants.kept_map_if)
next
  case (TRevoke now u gid db b db')
  then show ?case
    by (auto simp: revokeGrant_def Let_def tokens_kept_def codes.kept_refl devices.kept_refl
        grant_kept_def intro!: grants.kept_map_if)
next
  case (TMintDevice i tok now u lbl ttl hl db db')
  then show ?case
    by (auto simp: mintDeviceToken_def Let_def tokens_kept_def codes.kept_refl grants.kept_refl
        devices.kept_append split: if_splits)
next
  case (TVerifyDevice now tok db h2 db')
  then show ?case
    by (auto simp: verifyDeviceToken_def tokens_kept_def codes.kept_refl grants.kept_refl
        devices.kept_refl device_kept_def split: option.splits intro!: devices.kept_map_if)
next
  case (TRevokeDevice now u tid db b db')
  then show ?case
    by (auto simp: revokeDeviceToken_def Let_def tokens_kept_def codes.kept_refl grants.kept_refl
        device_kept_def intro!: devices.kept_map_if)
qed

text \<open>The stamp of a redemption, the one step that hands out a code.\<close>

inductive token_step :: "(string \<Rightarrow> string) \<Rightarrow> token_db \<Rightarrow> token_db \<Rightarrow> bool"
  for H :: "string \<Rightarrow> string" where
  TStore: "store_step H db db' \<Longrightarrow> token_step H db db'"
| TStamp: "redeem_stamp now row db = (r, db') \<Longrightarrow> token_step H db db'"

lemma redeem_stamp_kept: "redeem_stamp now row db = (r, db') \<Longrightarrow> tokens_kept db db'"
  by (auto simp: redeem_stamp_def tokens_kept_revoke_attached split: if_splits)
    (auto simp: tokens_kept_def grants.kept_refl devices.kept_refl code_kept_def
      intro!: codes.kept_map_if)

lemma token_step_kept: "token_step H db db' \<Longrightarrow> tokens_kept db db'"
  by (induction rule: token_step.induct) (simp_all add: store_step_kept redeem_stamp_kept)

interpretation token_runs: run_relation "token_step H" tokens_kept
  for H
  by unfold_locales (auto intro: tokens_kept_trans token_step_kept)

section \<open>The invariant of the tables\<close>

definition token_wf :: "token_db \<Rightarrow> bool" where
  "token_wf db \<longleftrightarrow>
     distinct (map co_id (codes_t db)) \<and> distinct (map co_hash (codes_t db)) \<and>
     distinct (map gr_id (grants_t db)) \<and> distinct (map dt_id (devices_t db))"

lemma row_of_None_notin: "row_of key xs k = None \<Longrightarrow> k \<notin> key ` set xs"
  by (auto dest: row_of_NoneD)

lemma token_wf_maps:
  assumes "token_wf db"
    and "map co_id (codes_t db') = map co_id (codes_t db)"
    and "map co_hash (codes_t db') = map co_hash (codes_t db)"
    and "map gr_id (grants_t db') = map gr_id (grants_t db)"
    and "map dt_id (devices_t db') = map dt_id (devices_t db)"
  shows "token_wf db'"
  using assms by (simp add: token_wf_def)

lemma revoke_attached_maps [simp]:
  "codes_t (revoke_attached now i db) = codes_t db"
  "devices_t (revoke_attached now i db) = devices_t db"
  "map gr_id (grants_t (revoke_attached now i db)) = map gr_id (grants_t db)"
  by (auto simp: revoke_attached_def set_revoked_def split: option.splits)

lemma set_revoked_maps [simp]:
  "codes_t (set_revoked now i db) = codes_t db"
  "devices_t (set_revoked now i db) = devices_t db"
  "map gr_id (grants_t (set_revoked now i db)) = map gr_id (grants_t db)"
  by (auto simp: set_revoked_def)

lemma map_if_key [simp]:
  "(\<And>r. key (f r) = key r) \<Longrightarrow> map (\<lambda>r. key (if P r then f r else r)) xs = map key xs"
  by simp

lemma token_wf_store: "store_step H db db' \<Longrightarrow> token_wf db \<Longrightarrow> token_wf db'"
proof (induction rule: store_step.induct)
  case (TMintCode i code now inp db r db')
  then show ?case
    by (auto simp: mintAuthorizationCode_def token_wf_def dest: row_of_None_notin split: if_splits)
next
  case (TLookup now code db r db')
  then show ?case
    by (intro token_wf_maps [OF TLookup(2)])
      (auto simp: redeem_lookup_def simp del: map_map split: option.splits if_splits)
next
  case (TAttach db c g)
  then show ?case by (intro token_wf_maps [OF TAttach(1)]) (auto simp: attachGrantToCode_def)
next
  case (TMintGrant i acc ref now inp2 db g db')
  then show ?case
    by (auto simp: mintGrant_def Let_def token_wf_def dest: row_of_None_notin split: if_splits)
next
  case (TVerify now tok db h db')
  then show ?case
    by (intro token_wf_maps [OF TVerify(2)]) (auto simp: verifyAccessToken_def split: option.splits)
next
  case (TRotLookup now tok db g2 db')
  then show ?case
    by (intro token_wf_maps [OF TRotLookup(2)])
      (auto simp: rotate_lookup_def simp del: map_map split: option.splits)
next
  case (TRotSwap now acc new old row2 db h db')
  then show ?case
    by (intro token_wf_maps [OF TRotSwap(2)]) (auto simp: rotate_swap_def split: if_splits)
next
  case (TRevoke now u gid db b db')
  then show ?case
    by (intro token_wf_maps [OF TRevoke(2)]) (auto simp: revokeGrant_def Let_def)
next
  case (TMintDevice i tok now u lbl ttl hl db db')
  then show ?case
    by (auto simp: mintDeviceToken_def Let_def token_wf_def dest: row_of_None_notin split: if_splits)
next
  case (TVerifyDevice now tok db h2 db')
  then show ?case
    by (intro token_wf_maps [OF TVerifyDevice(2)]) (auto simp: verifyDeviceToken_def split: option.splits)
next
  case (TRevokeDevice now u tid db b db')
  then show ?case
    by (intro token_wf_maps [OF TRevokeDevice(2)]) (auto simp: revokeDeviceToken_def Let_def)
qed

lemma token_wf_stamp: "redeem_stamp now row db = (r, db') \<Longrightarrow> token_wf db \<Longrightarrow> token_wf db'"
  by (rule token_wf_maps [of db]) (auto simp: redeem_stamp_def split: if_splits)

lemma token_wf_step: "token_wf db \<Longrightarrow> token_step H db db' \<Longrightarrow> token_wf db'"
  by (erule token_step.cases) (auto intro: token_wf_store token_wf_stamp)

interpretation token_tables: invariant_system "token_step H" token_wf
  for H
  by unfold_locales (rule token_wf_step)

end
