(* ===== verification/TokenLaws.thy ===== *)
theory TokenLaws
  imports Tokens
begin

text \<open>
  The properties of the credential store: a revoked credential never authenticates again, a code is
  handed out once however redemptions interleave, a replayed code or refresh token revokes its
  grant, and what a successful exchange rests on.
\<close>

section \<open>A sample store\<close>

definition sample_code :: code_row where
  "sample_code =
     \<lparr>co_id = ''c1'', co_hash = ''code'', co_user = ''ann'', co_client = ''cl'', co_redirect = ''uri'',
      co_challenge = ''pk'', co_resource = ''res'', co_scope = ''mcp'', co_expires = 100,
      co_used = None, co_grant = None\<rparr>"

definition sample_grant :: "nat option \<Rightarrow> grant_row" where
  "sample_grant revoked =
     \<lparr>gr_id = ''g1'', gr_user = ''ann'', gr_client = ''cl'', gr_client_name = ''cl'',
      gr_access_hash = ''acc'', gr_access_expires = 100, gr_refresh_hash = ''ref'', gr_prev_hash = None,
      gr_refresh_expires = 1000, gr_resource = ''res'', gr_scope = ''mcp'', gr_created = 0,
      gr_rotated = None, gr_revoked = revoked, gr_last_used = None\<rparr>"

definition sample_tokens :: "nat option \<Rightarrow> token_db" where
  "sample_tokens revoked =
     \<lparr>codes_t = [sample_code], grants_t = [sample_grant revoked], devices_t = []\<rparr>"

lemmas token_samples = sample_tokens_def sample_code_def sample_grant_def

lemma sample_tokens_wf: "token_wf (sample_tokens r)"
  by (simp add: token_wf_def token_samples)

definition sample_form :: "string \<Rightarrow> string option" where
  "sample_form = map_of [(''code'', ''code''), (''redirect_uri'', ''uri''), (''client_id'', ''cl''),
     (''code_verifier'', ''pk'')]"

definition sample_draws :: draws where
  "sample_draws = \<lparr>dw_id = ''g2'', dw_access = ''a2'', dw_refresh = ''r2''\<rparr>"

lemmas exchange_eval = exchange_code_def Let_def form_get_def sample_form_def
  redeemAuthorizationCode_def redeem_lookup_def redeem_stamp_def row_of_def
  sqliteDatetime_def pkceMatches_def mintGrant_def sample_draws_def

section \<open>Revocation is final\<close>

text \<open>The contract of a revocable credential, and what follows from it for every run.\<close>

locale revocable =
  fixes step :: "'db \<Rightarrow> 'db \<Rightarrow> bool"
    and wf :: "'db \<Rightarrow> bool"
    and revoked :: "'db \<Rightarrow> 'id \<Rightarrow> bool"
    and hits :: "'db \<Rightarrow> 'tok \<Rightarrow> 'id option"
  assumes step_wf: "wf db \<Longrightarrow> step db db' \<Longrightarrow> wf db'"
    and step_revoked: "step db db' \<Longrightarrow> revoked db i \<Longrightarrow> revoked db' i"
    and live_hits: "wf db \<Longrightarrow> hits db tok = Some i \<Longrightarrow> \<not> revoked db i"
begin

lemma run_wf: "step\<^sup>*\<^sup>* db db' \<Longrightarrow> wf db \<Longrightarrow> wf db'"
  by (induction rule: rtranclp_induct) (auto intro: step_wf)

lemma run_revoked: "step\<^sup>*\<^sup>* db db' \<Longrightarrow> revoked db i \<Longrightarrow> revoked db' i"
  by (induction rule: rtranclp_induct) (auto intro: step_revoked)

lemma dead_forever: "step\<^sup>*\<^sup>* db db' \<Longrightarrow> wf db \<Longrightarrow> revoked db i \<Longrightarrow> hits db' tok \<noteq> Some i"
  using run_wf run_revoked live_hits by blast

end

definition grant_revoked :: "token_db \<Rightarrow> string \<Rightarrow> bool" where
  "grant_revoked db i \<longleftrightarrow> (\<exists>g. row_of gr_id (grants_t db) i = Some g \<and> gr_revoked g \<noteq> None)"

definition device_revoked :: "token_db \<Rightarrow> string \<Rightarrow> bool" where
  "device_revoked db i \<longleftrightarrow> (\<exists>d. row_of dt_id (devices_t db) i = Some d \<and> dt_revoked d \<noteq> None)"

definition access_hit :: "(string \<Rightarrow> string) \<Rightarrow> token_db \<Rightarrow> nat \<times> string \<Rightarrow> string option" where
  "access_hit H db tok = map_option hit_id (fst (verifyAccessToken H (fst tok) (snd tok) db))"

definition device_token_hit :: "(string \<Rightarrow> string) \<Rightarrow> token_db \<Rightarrow> nat \<times> string \<Rightarrow> string option" where
  "device_token_hit H db tok = map_option dh_id (fst (verifyDeviceToken H (fst tok) (snd tok) db))"

lemma grant_revoked_step: "token_step H db db' \<Longrightarrow> grant_revoked db i \<Longrightarrow> grant_revoked db' i"
  by (drule token_step_kept) (fastforce simp: tokens_kept_def table_kept_def grant_revoked_def grant_kept_def)

lemma device_revoked_step: "token_step H db db' \<Longrightarrow> device_revoked db i \<Longrightarrow> device_revoked db' i"
  by (drule token_step_kept) (fastforce simp: tokens_kept_def table_kept_def device_revoked_def device_kept_def)

lemma access_hit_live: "token_wf db \<Longrightarrow> access_hit H db tok = Some i \<Longrightarrow> \<not> grant_revoked db i"
proof -
  assume wf: "token_wf db" and "access_hit H db tok = Some i"
  then obtain g where "find (\<lambda>g. gr_access_hash g = H (snd tok) \<and> gr_revoked g = None \<and>
      gr_access_expires g > sqliteDatetime (fst tok)) (grants_t db) = Some g" and i: "i = gr_id g"
    by (auto simp: access_hit_def verifyAccessToken_def hit_of_def split: option.splits)
  then have g: "g \<in> set (grants_t db)" "gr_revoked g = None" by (auto dest!: find_SomeD)
  with wf have "row_of gr_id (grants_t db) i = Some g" by (simp add: i token_wf_def row_of_unique)
  with g show ?thesis by (simp add: grant_revoked_def)
qed

lemma device_hit_live: "token_wf db \<Longrightarrow> device_token_hit H db tok = Some i \<Longrightarrow> \<not> device_revoked db i"
proof -
  assume wf: "token_wf db" and "device_token_hit H db tok = Some i"
  then obtain d where "find (\<lambda>d. dt_hash d = H (snd tok) \<and> dt_revoked d = None \<and>
      (case dt_expires d of None \<Rightarrow> True | Some e \<Rightarrow> e > sqliteDatetime (fst tok))) (devices_t db) = Some d"
    and i: "i = dt_id d"
    by (auto simp: device_token_hit_def verifyDeviceToken_def split: option.splits)
  then have d: "d \<in> set (devices_t db)" "dt_revoked d = None" by (auto dest!: find_SomeD)
  with wf have "row_of dt_id (devices_t db) i = Some d" by (simp add: i token_wf_def row_of_unique)
  with d show ?thesis by (simp add: device_revoked_def)
qed

interpretation access_tokens: revocable "token_step H" token_wf grant_revoked "access_hit H"
  for H
  by unfold_locales (auto intro: token_wf_step grant_revoked_step dest: access_hit_live)

interpretation device_tokens: revocable "token_step H" token_wf device_revoked "device_token_hit H"
  for H
  by unfold_locales (auto intro: token_wf_step device_revoked_step dest: device_hit_live)

text \<open>C15: Once a grant or a device token is revoked, no access or device token ever authenticates as
  it again, whatever codes, grants, rotations and verifications follow, in any order.\<close>

theorem revoked_credential_is_dead:
  "(token_step H)\<^sup>*\<^sup>* db db' \<Longrightarrow> token_wf db \<Longrightarrow>
     (grant_revoked db i \<longrightarrow> map_option hit_id (fst (verifyAccessToken H now tok db')) \<noteq> Some i) \<and>
     (device_revoked db i \<longrightarrow> map_option dh_id (fst (verifyDeviceToken H now tok db')) \<noteq> Some i)"
  using access_tokens.dead_forever [of H db db' i "(now, tok)"]
    device_tokens.dead_forever [of H db db' i "(now, tok)"]
  by (simp add: access_hit_def device_token_hit_def)

lemma revoked_credential_is_dead_witness:
  "\<exists>db'. (token_step (\<lambda>x. x))\<^sup>*\<^sup>* (sample_tokens (Some 5)) db' \<and> db' \<noteq> sample_tokens (Some 5) \<and>
     map_option hit_id (fst (verifyAccessToken (\<lambda>x. x) 0 ''acc'' db')) \<noteq> Some ''g1''"
proof -
  let ?db = "sample_tokens (Some 5)"
  let ?db' = "attachGrantToCode ''c1'' ''g1'' ?db"
  have run: "(token_step (\<lambda>x. x))\<^sup>*\<^sup>* ?db ?db'" by (intro r_into_rtranclp TStore TAttach)
  have "grant_revoked ?db ''g1''" by (simp add: grant_revoked_def row_of_def token_samples)
  then have "map_option hit_id (fst (verifyAccessToken (\<lambda>x. x) 0 ''acc'' ?db')) \<noteq> Some ''g1''"
    using revoked_credential_is_dead [OF run sample_tokens_wf, of "''g1''" 0 "''acc''"] by simp
  moreover have "?db' \<noteq> ?db" by (simp add: attachGrantToCode_def token_samples)
  ultimately show ?thesis using run by blast
qed

section \<open>A code is handed out once\<close>

text \<open>
  A server handling any number of redemptions at once: the codes looked up and not yet stamped, and
  the codes handed out.  Every other step of the store may happen in between.
\<close>

record redeem_state =
  rs_db :: token_db
  rs_pending :: "code_row list"
  rs_issued :: "string list"

inductive redeem_step :: "(string \<Rightarrow> string) \<Rightarrow> redeem_state \<Rightarrow> redeem_state \<Rightarrow> bool"
  for H :: "string \<Rightarrow> string" where
  RLookup: "redeem_lookup H now code (rs_db s) = (Some row, db) \<Longrightarrow>
     redeem_step H s (s\<lparr>rs_db := db, rs_pending := row # rs_pending s\<rparr>)"
| RStamp: "row \<in> set (rs_pending s) \<Longrightarrow> redeem_stamp now row (rs_db s) = (Some row2, db) \<Longrightarrow>
     redeem_step H s (s\<lparr>rs_db := db, rs_pending := remove1 row (rs_pending s),
                        rs_issued := co_id row2 # rs_issued s\<rparr>)"
| RLost: "row \<in> set (rs_pending s) \<Longrightarrow> redeem_stamp now row (rs_db s) = (None, db) \<Longrightarrow>
     redeem_step H s (s\<lparr>rs_db := db, rs_pending := remove1 row (rs_pending s)\<rparr>)"
| ROther: "store_step H (rs_db s) db \<Longrightarrow> redeem_step H s (s\<lparr>rs_db := db\<rparr>)"

definition code_used :: "token_db \<Rightarrow> string \<Rightarrow> bool" where
  "code_used db i \<longleftrightarrow> (\<exists>c. row_of co_id (codes_t db) i = Some c \<and> co_used c \<noteq> None)"

definition redeem_inv :: "redeem_state \<Rightarrow> bool" where
  "redeem_inv s \<longleftrightarrow> token_wf (rs_db s) \<and> distinct (rs_issued s) \<and> (\<forall>i \<in> set (rs_issued s). code_used (rs_db s) i)"

lemma code_used_step: "token_step H db db' \<Longrightarrow> code_used db i \<Longrightarrow> code_used db' i"
  by (drule token_step_kept) (fastforce simp: tokens_kept_def table_kept_def code_used_def code_kept_def)

lemma redeem_stamp_Some:
  assumes "token_wf db" and "redeem_stamp now row db = (Some row2, db')"
  shows "\<not> code_used db (co_id row2)" "code_used db' (co_id row2)" "row2 = row"
proof -
  let ?f = "\<lambda>c. if co_id c = co_id row \<and> co_used c = None
                then c\<lparr>co_used := Some (sqliteDatetime now)\<rparr> else c"
  have ex: "\<exists>c \<in> set (codes_t db). co_id c = co_id row \<and> co_used c = None"
  proof (rule ccontr)
    assume n: "\<not> (\<exists>c \<in> set (codes_t db). co_id c = co_id row \<and> co_used c = None)"
    from assms(2) show False unfolding redeem_stamp_def if_not_P [OF n] by simp
  qed
  from assms(2) have "(Some row, db\<lparr>codes_t := map ?f (codes_t db)\<rparr>) = (Some row2, db')"
    unfolding redeem_stamp_def if_P [OF ex] .
  then have db': "db' = db\<lparr>codes_t := map ?f (codes_t db)\<rparr>" and row2: "row2 = row" by auto
  from ex obtain c where c: "c \<in> set (codes_t db)" "co_id c = co_id row" "co_used c = None"
    by blast
  have r: "row_of co_id (codes_t db) (co_id row) = Some c"
    using row_of_unique [of co_id "codes_t db" c] c assms(1) by (simp add: token_wf_def)
  with c show "\<not> code_used db (co_id row2)" by (simp add: code_used_def row2)
  have "row_of co_id (codes_t db') (co_id row) = map_option ?f (row_of co_id (codes_t db) (co_id row))"
    using find_map_key [of "\<lambda>c. co_id c = co_id row" ?f "codes_t db"]
    by (simp add: row_of_def db')
  with r c show "code_used db' (co_id row2)" by (simp add: code_used_def row2)
  show "row2 = row" by (rule row2)
qed

lemma redeem_inv_other:
  assumes "redeem_inv s" and "token_step H (rs_db s) db"
  shows "token_wf db \<and> distinct (rs_issued s) \<and> (\<forall>i \<in> set (rs_issued s). code_used db i)"
  using assms token_wf_step [of "rs_db s" H db] code_used_step [of H "rs_db s" db]
  by (auto simp: redeem_inv_def)

lemma redeem_inv_step: "redeem_inv s \<Longrightarrow> redeem_step H s t \<Longrightarrow> redeem_inv t"
proof (erule redeem_step.cases, goal_cases)
  case (1 now code s' row db)
  then have "token_step H (rs_db s) db" by (auto intro: TStore TLookup)
  from redeem_inv_other [OF 1(1) this] 1 show ?case by (simp add: redeem_inv_def)
next
  case (2 row s' now row2 db)
  then have step: "token_step H (rs_db s) db" by (auto intro: TStamp)
  have "token_wf (rs_db s)" using 2 by (simp add: redeem_inv_def)
  with redeem_stamp_Some [of "rs_db s" now row row2 db] 2
  have "\<not> code_used (rs_db s) (co_id row2)" and "code_used db (co_id row2)" by auto
  with redeem_inv_other [OF 2(1) step] 2 show ?case by (auto simp: redeem_inv_def)
next
  case (3 row s' now db)
  then have "token_step H (rs_db s) db" by (auto intro: TStamp)
  from redeem_inv_other [OF 3(1) this] 3 show ?case by (simp add: redeem_inv_def)
next
  case (4 s' db)
  then have "token_step H (rs_db s) db" by (auto intro: TStore)
  from redeem_inv_other [OF 4(1) this] 4 show ?case by (simp add: redeem_inv_def)
qed

interpretation redemptions: invariant_system "redeem_step H" redeem_inv
  for H
  by unfold_locales (rule redeem_inv_step)

text \<open>C16: However many redemptions run at the same time, with their lookups and stamps interleaved
  with each other and with every other operation of the store, no authorization code is handed out
  twice.\<close>

theorem code_handed_out_once:
  "token_wf db \<Longrightarrow> (redeem_step H)\<^sup>*\<^sup>* \<lparr>rs_db = db, rs_pending = [], rs_issued = []\<rparr> s \<Longrightarrow>
     distinct (rs_issued s)"
  using redemptions.run_inv [of H "\<lparr>rs_db = db, rs_pending = [], rs_issued = []\<rparr>" s]
  by (simp add: redeem_inv_def)

lemma code_handed_out_once_witness:
  "\<exists>s. (redeem_step (\<lambda>x. x))\<^sup>*\<^sup>* \<lparr>rs_db = sample_tokens None, rs_pending = [], rs_issued = []\<rparr> s \<and>
     rs_issued s = [''c1''] \<and> distinct (rs_issued s)"
proof -
  let ?s0 = "\<lparr>rs_db = sample_tokens None, rs_pending = [], rs_issued = []\<rparr>"
  let ?s1 = "?s0\<lparr>rs_db := sample_tokens None, rs_pending := sample_code # rs_pending ?s0\<rparr>"
  let ?db2 = "snd (redeem_stamp 0 sample_code (sample_tokens None))"
  let ?s2 = "?s1\<lparr>rs_db := ?db2, rs_pending := remove1 sample_code (rs_pending ?s1),
               rs_issued := co_id sample_code # rs_issued ?s1\<rparr>"
  have "redeem_step (\<lambda>x. x) ?s0 ?s1"
    by (rule RLookup [of _ 0 "''code''"])
      (simp add: redeem_lookup_def row_of_def token_samples sqliteDatetime_def)
  moreover have "redeem_step (\<lambda>x. x) ?s1 ?s2"
    by (rule RStamp [of sample_code _ 0]) (simp_all add: redeem_stamp_def token_samples)
  ultimately have run: "(redeem_step (\<lambda>x. x))\<^sup>*\<^sup>* ?s0 ?s2" by (meson r_into_rtranclp rtranclp.rtrancl_into_rtrancl)
  have "rs_issued ?s2 = [''c1'']" by (simp add: sample_code_def)
  with run code_handed_out_once [OF sample_tokens_wf run] show ?thesis by blast
qed

section \<open>Replays\<close>

lemma set_revoked_revokes: "row_of gr_id (grants_t db) i \<noteq> None \<Longrightarrow> grant_revoked (set_revoked now i db) i"
proof -
  assume "row_of gr_id (grants_t db) i \<noteq> None"
  then obtain g where g: "row_of gr_id (grants_t db) i = Some g" by blast
  have "row_of gr_id (grants_t (set_revoked now i db)) i =
      map_option (\<lambda>g. if gr_id g = i then g\<lparr>gr_revoked := Some (sqliteDatetime now)\<rparr> else g)
        (row_of gr_id (grants_t db) i)"
    by (simp add: set_revoked_def row_of_def find_map_key)
  with g row_of_SomeD [OF g] show ?thesis by (simp add: grant_revoked_def)
qed

text \<open>What a successful rotation does: one live grant takes the new tokens and keeps the old hash as its previous one.\<close>

lemma rotation_row:
  assumes "rotateRefreshToken H now acc new old db = (Some hit, db1)"
  obtains row where "row \<in> set (grants_t db)" "gr_refresh_hash row = H old" "gr_revoked row = None" "hit = hit_of row"
    "\<And>g. g \<in> set (grants_t db) \<Longrightarrow> gr_prev_hash g = Some (H old) \<Longrightarrow> gr_revoked g \<noteq> None"
    "\<And>g. g \<in> set (grants_t db1) \<Longrightarrow> g \<in> set (grants_t db) \<and> (gr_id g \<noteq> gr_id row \<or> gr_refresh_hash g \<noteq> H old) \<or>
       gr_id g = gr_id row \<and> gr_refresh_hash g = H new \<and> gr_prev_hash g = Some (H old)"
proof -
  from assms obtain row where
    nprev: "find (\<lambda>g. gr_prev_hash g = Some (H old) \<and> gr_revoked g = None) (grants_t db) = None"
    and row: "find (\<lambda>g. gr_refresh_hash g = H old \<and> gr_revoked g = None \<and>
                        gr_refresh_expires g > sqliteDatetime now) (grants_t db) = Some row"
    and db1: "db1 = db\<lparr>grants_t := map (\<lambda>g. if gr_id g = gr_id row \<and> gr_refresh_hash g = H old
       then g\<lparr>gr_access_hash := H acc, gr_access_expires := sqliteDatetime (now + ACCESS_TTL_MS),
              gr_prev_hash := Some (gr_refresh_hash g), gr_refresh_hash := H new,
              gr_rotated := Some (sqliteDatetime now)\<rparr> else g) (grants_t db)\<rparr>" and hit: "hit = hit_of row"
    by (auto simp: rotateRefreshToken_def rotate_lookup_def rotate_swap_def split: option.splits if_splits)
  show ?thesis
    by (rule that [of row]) (use find_SomeD [OF row] nprev hit in \<open>auto simp: db1 find_None_iff\<close>)
qed

text \<open>A token two rotations back is in no live grant any more, neither as the current nor as the previous one.\<close>

lemma older_generation_ignored:
  assumes rot: "rotateRefreshToken H now acc new old db = (Some hit, db1)"
    and rot2: "rotateRefreshToken H now2 acc2 newer new db1 = (Some hit2, db3)"
    and dist: "distinct (map gr_refresh_hash (grants_t db))" and fresh: "H new \<notin> gr_refresh_hash ` set (grants_t db)"
    and newer: "H newer \<noteq> H old"
  shows "rotateRefreshToken H now' acc' new' old db3 = (None, db3)"
proof -
  obtain row where row: "row \<in> set (grants_t db)" "gr_refresh_hash row = H old"
    and nprev: "\<And>g. g \<in> set (grants_t db) \<Longrightarrow> gr_prev_hash g = Some (H old) \<Longrightarrow> gr_revoked g \<noteq> None"
    and one: "\<And>g. g \<in> set (grants_t db1) \<Longrightarrow> g \<in> set (grants_t db) \<and> (gr_id g \<noteq> gr_id row \<or> gr_refresh_hash g \<noteq> H old) \<or>
       gr_id g = gr_id row \<and> gr_refresh_hash g = H new \<and> gr_prev_hash g = Some (H old)"
    by (rule rotation_row [OF rot]) blast
  obtain row2 where row2: "row2 \<in> set (grants_t db1)" "gr_refresh_hash row2 = H new"
    and two: "\<And>g. g \<in> set (grants_t db3) \<Longrightarrow> g \<in> set (grants_t db1) \<and> (gr_id g \<noteq> gr_id row2 \<or> gr_refresh_hash g \<noteq> H new) \<or>
       gr_id g = gr_id row2 \<and> gr_refresh_hash g = H newer \<and> gr_prev_hash g = Some (H new)"
    by (rule rotation_row [OF rot2]) blast
  have only: "g = row" if "g \<in> set (grants_t db)" "gr_refresh_hash g = H old" for g
    using dist that row unfolding distinct_map by (metis inj_onD)
  have "row2 \<notin> set (grants_t db)" using fresh row2(2) by (metis imageI)
  then have r2: "gr_id row2 = gr_id row" using one [OF row2(1)] by blast
  have ne: "H new \<noteq> H old" using fresh row by (metis imageI)
  have dead: "gr_refresh_hash g \<noteq> H old \<and> (gr_prev_hash g = Some (H old) \<longrightarrow> gr_revoked g \<noteq> None)" if g: "g \<in> set (grants_t db3)" for g
    using two [OF g]
  proof
    assume a: "g \<in> set (grants_t db1) \<and> (gr_id g \<noteq> gr_id row2 \<or> gr_refresh_hash g \<noteq> H new)"
    then show ?thesis using one [of g] only [of g] nprev [of g] r2 by auto
  qed (use newer ne in auto)
  have "find (\<lambda>g. gr_prev_hash g = Some (H old) \<and> gr_revoked g = None) (grants_t db3) = None"
    "find (\<lambda>g. gr_refresh_hash g = H old \<and> gr_revoked g = None \<and> gr_refresh_expires g > sqliteDatetime now') (grants_t db3) = None"
    using dead by (auto simp: find_None_iff)
  then show ?thesis by (simp add: rotateRefreshToken_def rotate_lookup_def)
qed

lemma immediate_replay_revokes:
  "token_wf db \<Longrightarrow> rotateRefreshToken H now acc new old db = (Some hit, db1) \<Longrightarrow>
     grant_revoked db (hit_id hit) = False \<and>
     (case rotateRefreshToken H now' acc' new' old db1 of
        (r, db2) \<Rightarrow> r = None \<and> grant_revoked db2 (hit_id hit) \<and>
                    {h. \<exists>t tok. fst (verifyAccessToken H t tok db2) = Some h \<and> hit_id h = hit_id hit} = {})"
proof -
  assume wf: "token_wf db" and rot: "rotateRefreshToken H now acc new old db = (Some hit, db1)"
  let ?f = "\<lambda>row g. if gr_id g = gr_id row \<and> gr_refresh_hash g = H old
     then g\<lparr>gr_access_hash := H acc, gr_access_expires := sqliteDatetime (now + ACCESS_TTL_MS),
            gr_prev_hash := Some (gr_refresh_hash g), gr_refresh_hash := H new,
            gr_rotated := Some (sqliteDatetime now)\<rparr> else g"
  from rot obtain row where
    nprev: "find (\<lambda>g. gr_prev_hash g = Some (H old) \<and> gr_revoked g = None) (grants_t db) = None"
    and row: "find (\<lambda>g. gr_refresh_hash g = H old \<and> gr_revoked g = None \<and>
                        gr_refresh_expires g > sqliteDatetime now) (grants_t db) = Some row"
    and db1: "db1 = db\<lparr>grants_t := map (?f row) (grants_t db)\<rparr>" and hit: "hit = hit_of row"
    by (auto simp: rotateRefreshToken_def rotate_lookup_def rotate_swap_def split: option.splits if_splits)
  from find_SomeD [OF row] have r: "row \<in> set (grants_t db)" "gr_refresh_hash row = H old"
    "gr_revoked row = None" by auto
  have own: "row_of gr_id (grants_t db) (gr_id row) = Some row"
    using wf r(1) by (simp add: token_wf_def row_of_unique)
  then have live: "\<not> grant_revoked db (hit_id hit)"
    using r by (simp add: grant_revoked_def hit hit_of_def)
  have prev: "gr_prev_hash g = Some (H old) \<Longrightarrow> gr_revoked g = None \<Longrightarrow> gr_id g = gr_id row"
    if "g \<in> set (grants_t db1)" for g
    using that nprev by (auto simp: db1 find_None_iff split: if_splits)
  have own1: "row_of gr_id (grants_t db1) (gr_id row) = Some (?f row row)"
    using own by (simp add: db1 row_of_def find_map_key)
  have "?f row row \<in> set (grants_t db1)" using row_of_SomeD [OF own1] by blast
  moreover have "gr_prev_hash (?f row row) = Some (H old) \<and> gr_revoked (?f row row) = None"
    using r by simp
  ultimately have "find (\<lambda>g. gr_prev_hash g = Some (H old) \<and> gr_revoked g = None) (grants_t db1) \<noteq> None"
    unfolding find_None_iff by blast
  then have "\<exists>g. find (\<lambda>g. gr_prev_hash g = Some (H old) \<and> gr_revoked g = None) (grants_t db1) = Some g"
    by blast
  then obtain g where g: "find (\<lambda>g. gr_prev_hash g = Some (H old) \<and> gr_revoked g = None) (grants_t db1) = Some g"
    by blast
  with prev find_SomeD [OF g] have gid: "gr_id g = gr_id row" by blast
  let ?db2 = "set_revoked now' (gr_id row) db1"
  have rep: "rotateRefreshToken H now' acc' new' old db1 = (None, ?db2)"
    by (simp add: rotateRefreshToken_def rotate_lookup_def g gid)
  have rev: "grant_revoked ?db2 (gr_id row)"
    by (rule set_revoked_revokes) (simp add: own1)
  have "token_wf db1"
    by (rule token_wf_maps [OF wf]) (simp_all add: db1)
  then have wf2: "token_wf ?db2"
    by (rule token_wf_maps) simp_all
  have "hit_id h \<noteq> gr_id row" if "fst (verifyAccessToken H t tok ?db2) = Some h" for h t tok
  proof
    assume "hit_id h = gr_id row"
    with that have "access_hit H ?db2 (t, tok) = Some (gr_id row)" by (simp add: access_hit_def)
    from access_hit_live [OF wf2 this] rev show False by simp
  qed
  then have "{h. \<exists>t tok. fst (verifyAccessToken H t tok ?db2) = Some h \<and> hit_id h = gr_id row} = {}"
    by blast
  moreover have hid: "hit_id hit = gr_id row" by (simp add: hit hit_of_def)
  ultimately show ?thesis
    using live rev unfolding hid rep prod.case by blast
qed

text \<open>C17: Presenting the refresh token that a rotation just superseded revokes the grant: the replay is
  answered invalid\_grant, and no access token authenticates as that grant any more, the one the
  rotation had just issued included.  A token one generation older, whose successor was rotated too, is answered
  invalid\_grant and changes nothing; for distinct refresh hashes and new tokens that are new.\<close>

theorem replayed_refresh_token_revokes:
  assumes "token_wf db" and "rotateRefreshToken H now acc new old db = (Some hit, db1)"
    and "distinct (map gr_refresh_hash (grants_t db))" and "H new \<notin> gr_refresh_hash ` set (grants_t db)" and "H newer \<noteq> H old"
  shows "grant_revoked db (hit_id hit) = False \<and>
     (case rotateRefreshToken H now' acc' new' old db1 of
        (r, db2) \<Rightarrow> r = None \<and> grant_revoked db2 (hit_id hit) \<and>
                    {h. \<exists>t tok. fst (verifyAccessToken H t tok db2) = Some h \<and> hit_id h = hit_id hit} = {}) \<and>
     (case rotateRefreshToken H now2 acc2 newer new db1 of
        (Some hit2, db3) \<Rightarrow> rotateRefreshToken H now' acc' new' old db3 = (None, db3)
      | (None, db3) \<Rightarrow> True)"
  using immediate_replay_revokes [OF assms(1,2)] older_generation_ignored [OF assms(2) _ assms(3-5)]
  by (auto split: prod.split option.split)

lemma answered_pair:
  assumes "map_option f (fst x) = Some y"
  obtains a b where "x = (Some a, b)"
  using assms by (cases x; cases "fst x") auto

lemma replayed_refresh_token_revokes_witness:
  "\<exists>hit db1 hit2 db3. rotateRefreshToken (\<lambda>x. x) 0 ''new'' ''next'' ''ref'' (sample_tokens None) = (Some hit, db1) \<and>
     fst (rotateRefreshToken (\<lambda>x. x) 0 ''x'' ''y'' ''ref'' db1) = None \<and> hit_id hit = ''g1'' \<and>
     rotateRefreshToken (\<lambda>x. x) 1 ''new2'' ''last'' ''next'' db1 = (Some hit2, db3) \<and>
     rotateRefreshToken (\<lambda>x. x) 0 ''x'' ''y'' ''ref'' db3 = (None, db3)"
proof -
  let ?X = "rotateRefreshToken (\<lambda>x. x) 0 ''new'' ''next'' ''ref'' (sample_tokens None)"
  let ?Y = "rotateRefreshToken (\<lambda>x. x) 1 ''new2'' ''last'' ''next'' (snd ?X)"
  have eq: "?X = (Some (hit_of (sample_grant None)), snd ?X)"
    by (simp add: rotateRefreshToken_def rotate_lookup_def rotate_swap_def token_samples sqliteDatetime_def)
  have hit: "map_option hit_id (fst ?Y) = Some ''g1''"
    by (simp add: rotateRefreshToken_def rotate_lookup_def rotate_swap_def token_samples sqliteDatetime_def hit_of_def)
  obtain hit2 db3 where eq2: "?Y = (Some hit2, db3)" by (rule answered_pair [OF hit])
  have d: "distinct (map gr_refresh_hash (grants_t (sample_tokens None)))"
    "''next'' \<notin> gr_refresh_hash ` set (grants_t (sample_tokens None))" "''last'' \<noteq> ''ref''"
    by (simp_all add: token_samples)
  note all = replayed_refresh_token_revokes [OF sample_tokens_wf eq d, of 0 "''x''" "''y''" 1 "''new2''"]
  have "fst (rotateRefreshToken (\<lambda>x. x) 0 ''x'' ''y'' ''ref'' (snd ?X)) = None"
    using all by (auto split: prod.splits)
  moreover have "rotateRefreshToken (\<lambda>x. x) 0 ''x'' ''y'' ''ref'' db3 = (None, db3)"
    using all unfolding eq2 prod.case option.case by blast
  moreover have "hit_id (hit_of (sample_grant None)) = ''g1''" by (simp add: hit_of_def sample_grant_def)
  ultimately show ?thesis using eq eq2 by blast
qed

section \<open>The code exchange\<close>

lemma redeem_Some:
  assumes "redeemAuthorizationCode H now code db = (Some row, db')"
  shows "row_of co_hash (codes_t db) (H code) = Some row" "co_used row = None"
    "sqliteDatetime now < co_expires row" "redeem_stamp now row db = (Some row, db')"
proof -
  from assms obtain row1 where l: "redeem_lookup H now code db = (Some row1, db)"
    and st: "redeem_stamp now row1 db = (Some row, db')"
    by (auto simp: redeemAuthorizationCode_def redeem_lookup_def split: option.splits if_split_asm)
  from st have eq: "row1 = row" by (auto simp: redeem_stamp_def split: if_split_asm)
  from l show "row_of co_hash (codes_t db) (H code) = Some row" "co_used row = None"
    "sqliteDatetime now < co_expires row"
    by (auto simp: eq redeem_lookup_def split: option.splits if_split_asm)
  from st show "redeem_stamp now row db = (Some row, db')" by (simp add: eq)
qed

lemma redeem_stamp_tables:
  "redeem_stamp now row db = (Some row2, db') \<Longrightarrow>
     grants_t db' = grants_t db \<and> devices_t db' = devices_t db"
  by (auto simp: redeem_stamp_def split: if_split_asm)

text \<open>The steps behind a successful exchange.\<close>

lemma exchange_code_issued:
  assumes "exchange_code H B cn now dw form (db, gdb) = (TokenIssued a r sc, db', gdb')"
  obtains c db1 g db2 where
    "redeemAuthorizationCode H now (form_get form ''code'') db = (Some c, db1)"
    "co_client c = form_get form ''client_id''" "co_redirect c = form_get form ''redirect_uri''"
    "pkceMatches B (form_get form ''code_verifier'') (co_challenge c)"
    "mintGrant H (dw_id dw) (dw_access dw) (dw_refresh dw) now
       \<lparr>mg_user = co_user c, mg_client = co_client c, mg_client_name = cn (co_client c),
        mg_resource = co_resource c, mg_scope = co_scope c\<rparr> db1 = Inr (g, db2)"
    "db' = attachGrantToCode (co_id c) (gr_id g) db2" "a = dw_access dw" "r = dw_refresh dw"
    "sc = co_scope c" "form_get form ''code'' \<noteq> []" "form_get form ''redirect_uri'' \<noteq> []"
    "form_get form ''client_id'' \<noteq> []" "form_get form ''code_verifier'' \<noteq> []"
proof -
  let ?cond = "form_get form ''code'' = [] \<or> form_get form ''redirect_uri'' = [] \<or>
      form_get form ''client_id'' = [] \<or> form_get form ''code_verifier'' = []"
  have ne: "\<not> ?cond"
  proof
    assume ?cond
    from assms show False unfolding exchange_code_def Let_def if_P [OF \<open>?cond\<close>] by simp
  qed
  obtain rr db1 where red: "redeemAuthorizationCode H now (form_get form ''code'') db = (rr, db1)"
    by (cases "redeemAuthorizationCode H now (form_get form ''code'') db")
  note body = assms [unfolded exchange_code_def Let_def if_not_P [OF ne] fst_conv snd_conv red prod.case]
  from body obtain c where rr: "rr = Some c" by (cases rr) simp_all
  note body1 = body [unfolded rr option.case]
  have cl: "co_client c = form_get form ''client_id''" "co_redirect c = form_get form ''redirect_uri''"
    using body1 by (auto split: if_split_asm)
  then have ncl: "\<not> (co_client c \<noteq> form_get form ''client_id'' \<or> co_redirect c \<noteq> form_get form ''redirect_uri'')"
    by simp
  note body2 = body1 [unfolded if_not_P [OF ncl]]
  have pk: "pkceMatches B (form_get form ''code_verifier'') (co_challenge c)"
    using body2 by (auto split: if_split_asm)
  then have npk: "\<not> \<not> pkceMatches B (form_get form ''code_verifier'') (co_challenge c)" by simp
  note body3 = body2 [unfolded if_not_P [OF npk]]
  show ?thesis
  proof (cases "mintGrant H (dw_id dw) (dw_access dw) (dw_refresh dw) now
       \<lparr>mg_user = co_user c, mg_client = co_client c, mg_client_name = cn (co_client c),
        mg_resource = co_resource c, mg_scope = co_scope c\<rparr> db1")
    case (Inl e)
    from body3 [unfolded Inl] show ?thesis by simp
  next
    case (Inr gd)
    obtain g db2 where gd: "gd = (g, db2)" by (cases gd)
    from body3 [unfolded Inr gd] have "db' = attachGrantToCode (co_id c) (gr_id g) db2" "a = dw_access dw"
      "r = dw_refresh dw" "sc = co_scope c" by simp_all
    with red rr cl pk Inr gd ne show ?thesis by (intro that [of c db1 g db2]) simp_all
  qed
qed

lemma attach_grants [simp]: "grants_t (attachGrantToCode c g db) = grants_t db"
  by (simp add: attachGrantToCode_def)

lemma mintGrant_verifies:
  assumes "mintGrant H i acc ref now inp db = Inr (g, db')" and "grants_t db2 = grants_t db'"
  shows "fst (verifyAccessToken H now acc db2) = Some (hit_of g)" "gr_user g = mg_user inp"
    "gr_resource g = mg_resource inp" "gr_scope g = mg_scope inp" "gr_id g = i" "gr_revoked g = None"
    "row_of gr_id (grants_t db2) i = Some g"
proof -
  have m: "row_of gr_access_hash (grants_t db) (H acc) = None" "row_of gr_id (grants_t db) i = None"
    "grants_t db' = grants_t db @ [g]" "gr_access_hash g = H acc" "gr_revoked g = None" "gr_id g = i"
    "gr_access_expires g = sqliteDatetime (now + ACCESS_TTL_MS)"
    "gr_user g = mg_user inp" "gr_resource g = mg_resource inp" "gr_scope g = mg_scope inp"
    using assms(1) by (auto simp: mintGrant_def Let_def split: if_split_asm)
  have "find (\<lambda>g. gr_access_hash g = H acc \<and> gr_revoked g = None \<and>
      gr_access_expires g > sqliteDatetime now) (grants_t db) = None"
    using m(1) by (auto simp: row_of_def find_None_iff)
  moreover have "sqliteDatetime now < sqliteDatetime (now + ACCESS_TTL_MS)"
    by (simp add: sqliteDatetime_def ACCESS_TTL_MS_def)
  ultimately show "fst (verifyAccessToken H now acc db2) = Some (hit_of g)"
    by (simp add: verifyAccessToken_def assms(2) m find_append_list)
  show "gr_user g = mg_user inp" "gr_resource g = mg_resource inp" "gr_scope g = mg_scope inp"
    "gr_id g = i" "gr_revoked g = None" by (rule m)+
  show "row_of gr_id (grants_t db2) i = Some g"
    using m(2) by (simp add: row_of_def assms(2) m find_append_list)
qed

text \<open>The token endpoint issues tokens for a code only if the code was minted, is unused and
  unexpired, and the request names the client and redirect URI it was minted for and proves the PKCE
  challenge; the access token then authenticates at once as the code's user, for its resource and
  scope, and the code is used up.\<close>

theorem token_exchange_sound:
  "token_wf db \<Longrightarrow> exchange_code H B cn now dw form (db, gdb) = (TokenIssued a r sc, db', gdb') \<Longrightarrow>
     \<exists>c \<in> set (codes_t db).
       co_hash c = H (form_get form ''code'') \<and> co_used c = None \<and> sqliteDatetime now < co_expires c \<and>
       co_client c = form_get form ''client_id'' \<and> co_redirect c = form_get form ''redirect_uri'' \<and>
       B (form_get form ''code_verifier'') = co_challenge c \<and> sc = co_scope c \<and> code_used db' (co_id c) \<and>
       (\<exists>h. fst (verifyAccessToken H now a db') = Some h \<and> hit_user h = co_user c \<and>
            hit_resource h = co_resource c \<and> hit_scope h = co_scope c)"
proof -
  assume wf: "token_wf db"
    and iss: "exchange_code H B cn now dw form (db, gdb) = (TokenIssued a r sc, db', gdb')"
  from iss obtain c db1 g db2 where x:
    "redeemAuthorizationCode H now (form_get form ''code'') db = (Some c, db1)"
    "co_client c = form_get form ''client_id''" "co_redirect c = form_get form ''redirect_uri''"
    "pkceMatches B (form_get form ''code_verifier'') (co_challenge c)"
    "mintGrant H (dw_id dw) (dw_access dw) (dw_refresh dw) now
       \<lparr>mg_user = co_user c, mg_client = co_client c, mg_client_name = cn (co_client c),
        mg_resource = co_resource c, mg_scope = co_scope c\<rparr> db1 = Inr (g, db2)"
    "db' = attachGrantToCode (co_id c) (gr_id g) db2" "a = dw_access dw" "sc = co_scope c"
    by (rule exchange_code_issued) blast
  note red = redeem_Some [OF x(1)]
  have c: "c \<in> set (codes_t db)" "co_hash c = H (form_get form ''code'')"
    using row_of_SomeD [OF red(1)] by auto
  have "code_used db1 (co_id c)" by (rule redeem_stamp_Some(2) [OF wf red(4)])
  moreover have "codes_t db2 = codes_t db1"
    using x(5) by (auto simp: mintGrant_def Let_def split: if_split_asm)
  ultimately have "code_used db2 (co_id c)" by (simp add: code_used_def)
  then have used: "code_used db' (co_id c)"
    unfolding x(6) by (rule code_used_step [OF TStore [OF TAttach], rotated])
  note g = mintGrant_verifies [OF x(5), of db', unfolded x(6) attach_grants, OF refl]
  show ?thesis
    using c red(2,3) x(2-4,8) used g(1-4)
    by (intro bexI [of _ c]) (simp_all add: pkceMatches_def x(6,7) hit_of_def)
qed

lemma token_exchange_sound_witness:
  "\<exists>db' gdb'. exchange_code (\<lambda>x. x) (\<lambda>x. x) (\<lambda>x. x) 0 sample_draws sample_form
       (sample_tokens None, empty_graph_db) = (TokenIssued ''a2'' ''r2'' ''mcp'', db', gdb') \<and>
     code_used db' ''c1''"
proof -
  let ?X = "exchange_code (\<lambda>x. x) (\<lambda>x. x) (\<lambda>x. x) 0 sample_draws sample_form (sample_tokens None, empty_graph_db)"
  have eq: "?X = (TokenIssued ''a2'' ''r2'' ''mcp'', fst (snd ?X), snd (snd ?X))"
    by (simp add: exchange_eval token_samples)
  from token_exchange_sound [OF sample_tokens_wf eq] obtain c
    where "c \<in> set (codes_t (sample_tokens None))" "code_used (fst (snd ?X)) (co_id c)" by blast
  then have "code_used (fst (snd ?X)) ''c1''" by (simp add: sample_tokens_def) (simp add: sample_code_def)
  with eq show ?thesis by blast
qed

text \<open>Presenting a code again after its exchange is answered invalid\_grant and revokes the grant the
  exchange issued, so its access token stops working.\<close>

theorem replayed_code_revokes_grant:
  "token_wf db \<Longrightarrow> exchange_code H B cn now dw form (db, gdb) = (TokenIssued a r sc, db1, gdb1) \<Longrightarrow>
     (case exchange_code H B cn now' dw' form (db1, gdb1) of
        (resp, db2, gdb2) \<Rightarrow>
          resp = TokenError ''invalid_grant'' \<and> grant_revoked db2 (dw_id dw) \<and>
          gdb2 = gdb1)"
proof -
  assume wf: "token_wf db"
    and iss: "exchange_code H B cn now dw form (db, gdb) = (TokenIssued a r sc, db1, gdb1)"
  from iss obtain c dbr g dbm where x:
    "redeemAuthorizationCode H now (form_get form ''code'') db = (Some c, dbr)"
    "mintGrant H (dw_id dw) (dw_access dw) (dw_refresh dw) now
       \<lparr>mg_user = co_user c, mg_client = co_client c, mg_client_name = cn (co_client c),
        mg_resource = co_resource c, mg_scope = co_scope c\<rparr> dbr = Inr (g, dbm)"
    "db1 = attachGrantToCode (co_id c) (gr_id g) dbm"
    and nonempty: "form_get form ''code'' \<noteq> []" "form_get form ''redirect_uri'' \<noteq> []"
    "form_get form ''client_id'' \<noteq> []" "form_get form ''code_verifier'' \<noteq> []"
    by (rule exchange_code_issued) blast
  let ?code = "form_get form ''code''"
  note red = redeem_Some [OF x(1)]
  have c: "c \<in> set (codes_t db)" "co_hash c = H ?code" using row_of_SomeD [OF red(1)] by auto
  have cr: "codes_t dbm = codes_t dbr"
    using x(2) by (auto simp: mintGrant_def Let_def split: if_split_asm)
  let ?f = "\<lambda>c'. if co_id c' = co_id c \<and> co_used c' = None
                 then c'\<lparr>co_used := Some (sqliteDatetime now)\<rparr> else c'"
  have dbr: "codes_t dbr = map ?f (codes_t db)"
    using red(4) by (auto simp: redeem_stamp_def split: if_split_asm)
  let ?h = "\<lambda>c'. if co_id c' = co_id c then c'\<lparr>co_grant := Some (gr_id g)\<rparr> else c'"
  have codes1: "codes_t db1 = map ?h (map ?f (codes_t db))"
    by (simp add: x(3) attachGrantToCode_def cr dbr)
  have "row_of co_hash (codes_t db1) (H ?code) = map_option ?h (map_option ?f (row_of co_hash (codes_t db) (H ?code)))"
    unfolding codes1 row_of_def by (subst find_map_key, simp)+ simp
  then have row1: "row_of co_hash (codes_t db1) (H ?code) = Some (?h (?f c))" by (simp add: red(1))
  note gg = mintGrant_verifies [OF x(2), of db1, unfolded x(3) attach_grants, OF refl]
  have "redeemAuthorizationCode H now' ?code db1 = (None, set_revoked now' (gr_id g) db1)"
    using row1 red(2)
    by (simp add: redeemAuthorizationCode_def redeem_lookup_def revoke_attached_def)
  then have "exchange_code H B cn now' dw' form (db1, gdb1) =
      (TokenError ''invalid_grant'', set_revoked now' (gr_id g) db1, gdb1)"
    using nonempty by (simp add: exchange_code_def Let_def)
  moreover have "grant_revoked (set_revoked now' (gr_id g) db1) (dw_id dw)"
    using set_revoked_revokes [of db1 "dw_id dw" now'] gg(5,7) by (simp add: x(3))
  ultimately show ?thesis by simp
qed

lemma replayed_code_revokes_grant_witness:
  "\<exists>db1 gdb1. exchange_code (\<lambda>x. x) (\<lambda>x. x) (\<lambda>x. x) 0 sample_draws sample_form
       (sample_tokens None, empty_graph_db) = (TokenIssued ''a2'' ''r2'' ''mcp'', db1, gdb1) \<and>
     grant_revoked (fst (snd (exchange_code (\<lambda>x. x) (\<lambda>x. x) (\<lambda>x. x) 1 sample_draws sample_form (db1, gdb1)))) ''g2''"
proof -
  let ?X = "exchange_code (\<lambda>x. x) (\<lambda>x. x) (\<lambda>x. x) 0 sample_draws sample_form (sample_tokens None, empty_graph_db)"
  have eq: "?X = (TokenIssued ''a2'' ''r2'' ''mcp'', fst (snd ?X), snd (snd ?X))"
    by (simp add: exchange_eval token_samples)
  from replayed_code_revokes_grant [OF sample_tokens_wf eq, of 1 sample_draws]
  have "grant_revoked (fst (snd (exchange_code (\<lambda>x. x) (\<lambda>x. x) (\<lambda>x. x) 1 sample_draws sample_form
      (fst (snd ?X), snd (snd ?X))))) ''g2''"
    by (simp add: sample_draws_def split: prod.splits)
  with eq show ?thesis by blast
qed

text \<open>
  A replay that arrives between the redemption and the attachment of the grant (the endpoint fetches
  the client's metadata in between) finds no grant to revoke: the tokens issued afterwards work.
\<close>

lemma replay_before_attach_keeps_the_grant:
  "let db1 = snd (redeemAuthorizationCode (\<lambda>x. x) 0 ''code'' (sample_tokens None));
       (replayed, db2) = redeemAuthorizationCode (\<lambda>x. x) 0 ''code'' db1
   in replayed = None \<and>
      (case mintGrant (\<lambda>x. x) ''g2'' ''a2'' ''r2'' 0
              \<lparr>mg_user = ''ann'', mg_client = ''cl'', mg_client_name = ''cl'', mg_resource = ''res'',
               mg_scope = ''mcp''\<rparr> db2 of
         Inl e \<Rightarrow> False
       | Inr (g, db3) \<Rightarrow>
           fst (verifyAccessToken (\<lambda>x. x) 0 ''a2'' (attachGrantToCode ''c1'' ''g2'' db3)) = Some (hit_of g))"
  by (simp add: exchange_eval token_samples verifyAccessToken_def attachGrantToCode_def
      revoke_attached_def ACCESS_TTL_MS_def)

end
