(* ===== verification/GraphFacts.thy ===== *)
theory GraphFacts
  imports NodeLaws
begin

text \<open>
  Facts about single graph operations: the shape of generated sync keys, the completeness of the
  checks \<open>portuni_connect\<close> makes before its INSERT, and two divergences between what the tools
  say and what they do.
\<close>

section \<open>Sync keys\<close>

definition key_char :: "char \<Rightarrow> bool" where
  "key_char c \<longleftrightarrow> slug_char c \<or> c = CHR ''-''"

definition ulid_ok :: "string \<Rightarrow> bool" where
  "ulid_ok u \<longleftrightarrow> length u = 26 \<and> list_all (\<lambda>c. slug_char (js_lower_char c)) u"

lemma dash_runs_chars: "c \<in> set (dash_runs b s) \<Longrightarrow> key_char c"
  by (induction b s rule: dash_runs.induct) (auto simp: key_char_def split: if_split_asm)

lemma strip_dash_subset: "set (strip_dash_ends s) \<subseteq> set s"
  by (cases s) (auto simp: strip_dash_ends_def Let_def dest: in_set_butlastD)

lemma slug_chars: "c \<in> set (slugifyForSyncKey name) \<Longrightarrow> key_char c"
  using strip_dash_subset dash_runs_chars by (fastforce simp: slugifyForSyncKey_def)

lemma ulid_tail: "ulid_ok u \<Longrightarrow> c \<in> set (last_chars n (js_lower u)) \<Longrightarrow> key_char c"
  by (auto simp: ulid_ok_def last_chars_def js_lower_def list_all_iff key_char_def dest!: in_set_dropD)

lemma ulid_tail_nonempty: "ulid_ok u \<Longrightarrow> 0 < n \<Longrightarrow> last_chars n (js_lower u) \<noteq> []"
  by (auto simp: ulid_ok_def last_chars_def js_lower_def)

lemma key_chars_safe:
  assumes "s \<noteq> []" and "\<And>c. c \<in> set s \<Longrightarrow> key_char c"
  shows "assertSafeSegment s ctx = Inr ()"
proof -
  have "\<not> key_char CHR ''.''" "\<not> key_char CHR ''/''" "\<not> key_char CHR 0x5C" "\<not> key_char CHR 0x00"
    by (simp_all add: key_char_def slug_char_def)
  then have "CHR ''.'' \<notin> set s" "CHR ''/'' \<notin> set s" "CHR 0x5C \<notin> set s" "CHR 0x00 \<notin> set s"
    using assms(2) by metis+
  then show ?thesis
    using assms(1) by (auto simp: assertSafeSegment_def)
qed

text \<open>Whatever a node is called, the sync key generated for it is a safe path segment, so a root can
  always be built from it; and it is a key no node has yet, unless the slug and its first suffixed
  form are both taken, when a second suffix is drawn.\<close>

theorem generated_key_is_safe:
  assumes "ulid_ok u1" and "ulid_ok u2"
  shows "assertSafeSegment (generateSyncKey u1 u2 db name) ctx = Inr () \<and>
    (isTaken db (generateSyncKey u1 u2 db name) \<longrightarrow>
       (\<exists>first. isTaken db first \<and> generateSyncKey u1 u2 db name = first @ ''-'' @ last_chars 4 (js_lower u2)))"
proof -
  define key base first where "key = generateSyncKey u1 u2 db name" and "base = slugifyForSyncKey name"
    and "first = (if 0 < length base then base @ ''-'' @ last_chars 8 (js_lower u1) else last_chars 8 (js_lower u1))"
  have forms: "key = (if 0 < length base \<and> \<not> isTaken db base then base
      else if isTaken db first then first @ ''-'' @ last_chars 4 (js_lower u2) else first)"
    unfolding key_def generateSyncKey_def Let_def base_def first_def ..
  have dash: "key_char CHR ''-''" by (simp add: key_char_def)
  have base: "c \<in> set base \<Longrightarrow> key_char c" for c
    unfolding base_def by (rule slug_chars)
  have first: "first \<noteq> []" "\<And>c. c \<in> set first \<Longrightarrow> key_char c"
    unfolding first_def using dash base ulid_tail [OF assms(1), of _ 8] ulid_tail_nonempty [OF assms(1), of 8]
    by (auto split: if_split_asm)
  have "c \<in> set (first @ ''-'' @ last_chars 4 (js_lower u2)) \<Longrightarrow> key_char c" for c
    using first(2) dash ulid_tail [OF assms(2)] by auto
  then have chars: "c \<in> set key \<Longrightarrow> key_char c" for c
    unfolding forms using first(2) base by (simp only: split: if_split_asm)
  have "key \<noteq> []"
    unfolding forms using first(1) by auto
  then have "assertSafeSegment key ctx = Inr ()"
    using chars by (rule key_chars_safe)
  moreover have "isTaken db key \<longrightarrow> (\<exists>first. isTaken db first \<and> key = first @ ''-'' @ last_chars 4 (js_lower u2))"
    unfolding forms by (auto split: if_split)
  ultimately show ?thesis unfolding key_def by blast
qed

lemma generated_key_is_safe_witness:
  "assertSafeSegment (generateSyncKey ''01ARZ3NDEKTSV4RRFFQ69G5FAV'' ''01ARZ3NDEKTSV4RRFFQ69G5FAW''
     sample_org_db ''../Site // 2'') [] = Inr ()"
proof -
  have "ulid_ok ''01ARZ3NDEKTSV4RRFFQ69G5FAV''" "ulid_ok ''01ARZ3NDEKTSV4RRFFQ69G5FAW''"
    by (simp_all add: ulid_ok_def slug_char_def js_lower_char_def Let_def)
  from generated_key_is_safe [OF this] show ?thesis by blast
qed

section \<open>Connecting\<close>

text \<open>Once the endpoints exist, the tool's own checks leave nothing for the database to abort: with
  a fresh edge id and a known relation, a connect adds its edge, returns the existing one, or is
  refused with a reason of its own.\<close>

theorem connect_never_aborts:
  assumes "org_inv db" and "type_of_node db s \<noteq> None" and "type_of_node db t \<noteq> None"
    and "rel \<in> set EDGE_RELATIONS" and "eid \<notin> ed_id ` set (edges_t db)"
  shows "case connect_checked user now eid s t rel meta db of
      (Connected i s' t' rel', db') \<Rightarrow>
        i = eid \<and> map ed_id (edges_t db') = map ed_id (edges_t db) @ [eid] \<and> nodes_t db' = nodes_t db
    | (EdgeExists i, db') \<Rightarrow> db' = db \<and> i \<in> ed_id ` set (edges_t db)
    | (EdgeToolError (AlreadyBelongs i name org), db') \<Rightarrow> db' = db \<and> i = s \<and> is_membership db s (hd (org_membership_edges db s))
    | (EdgeToolError (SelfLoop i), db') \<Rightarrow> db' = db \<and> s = t
    | _ \<Rightarrow> False"
proof -
  have u: "unique_nodes db" by (rule org_inv_unique [OF assms(1)])
  consider (belongs) "rel = ''belongs_to'' \<and> is_org db t \<and> \<not> is_org db s \<and> org_membership_edges db s \<noteq> []"
    | (loop) "\<not> (rel = ''belongs_to'' \<and> is_org db t \<and> \<not> is_org db s \<and> org_membership_edges db s \<noteq> [])" "s = t"
    | (new) "\<not> (rel = ''belongs_to'' \<and> is_org db t \<and> \<not> is_org db s \<and> org_membership_edges db s \<noteq> [])" "s \<noteq> t"
    by blast
  then show ?thesis
  proof cases
    case belongs
    then have "hd (org_membership_edges db s) \<in> set (filter (is_membership db s) (edges_t db))"
      by (simp add: memberships_eq [OF u] del: set_filter)
    with belongs show ?thesis by (simp add: connect_checked_def Let_def)
  next
    case loop
    then show ?thesis unfolding connect_checked_def if_not_P [OF loop(1)] by simp
  next
    case new
    show ?thesis
    proof (cases "filter (\<lambda>e. ed_source e = s \<and> ed_target e = t \<and> ed_relation e = rel) (edges_t db)")
      case (Cons e es)
      then have "e \<in> set (edges_t db)" by (metis filter_is_subset list.set_intros(1) subsetD)
      with new Cons show ?thesis unfolding connect_checked_def if_not_P [OF new(1)] by simp
    next
      case Nil
      let ?e = "\<lparr>ed_id = eid, ed_source = s, ed_target = t, ed_relation = rel, ed_meta = meta,
                 ed_created_by = user, ed_created_at = now\<rparr>"
      have "\<not> prevent_multi_parent_org db ?e"
        using new(1) non_org_not_org by (auto simp: prevent_multi_parent_org_def)
      moreover have "edge_row_ok db ?e"
        using assms(2-4) new(2) by (simp add: edge_row_ok_def)
      moreover have "\<not> (\<exists>x \<in> set (edges_t db). ed_id x = ed_id ?e \<or> same_link x ?e)"
        using Nil assms(5) by (auto simp: filter_empty_conv same_link_def)
      ultimately have "insert_edge ?e db = Inr (db\<lparr>edges_t := edges_t db @ [?e]\<rparr>)"
        by (simp add: insert_edge_def del: edge_row.select_convs)
      then show ?thesis
        unfolding connect_checked_def if_not_P [OF new(1)] if_not_P [OF new(2)] Nil list.case by simp
    qed
  qed
qed

lemma connect_never_aborts_witness:
  "\<exists>db'. connect_checked ''ann'' 0 ''e9'' ''shop'' ''site'' ''informed_by'' None sample_org_db =
     (Connected ''e9'' ''shop'' ''site'' ''informed_by'', db') \<and> map ed_id (edges_t db') = [''m1'', ''m2'', ''r1'', ''e9'']"
proof -
  have "type_of_node sample_org_db ''shop'' \<noteq> None" "type_of_node sample_org_db ''site'' \<noteq> None"
    by (simp_all add: sample_org_db_def type_of_node_def sample_simps)
  moreover have "''informed_by'' \<in> set EDGE_RELATIONS" "''e9'' \<notin> ed_id ` set (edges_t sample_org_db)"
    by (simp_all add: EDGE_RELATIONS_def sample_org_db_def sample_simps)
  ultimately have c: "case connect_checked ''ann'' 0 ''e9'' ''shop'' ''site'' ''informed_by'' None sample_org_db of
      (Connected i s' t' rel', db') \<Rightarrow>
        i = ''e9'' \<and> map ed_id (edges_t db') = map ed_id (edges_t sample_org_db) @ [''e9''] \<and> nodes_t db' = nodes_t sample_org_db
    | (EdgeExists i, db') \<Rightarrow> db' = sample_org_db \<and> i \<in> ed_id ` set (edges_t sample_org_db)
    | (EdgeToolError (AlreadyBelongs i name org), db') \<Rightarrow> db' = sample_org_db \<and> i = ''shop'' \<and>
        is_membership sample_org_db ''shop'' (hd (org_membership_edges sample_org_db ''shop''))
    | (EdgeToolError (SelfLoop i), db') \<Rightarrow> db' = sample_org_db \<and> ''shop'' = ''site''
    | _ \<Rightarrow> False"
    by (rule connect_never_aborts [OF sample_org_inv])
  have "fst (connect_checked ''ann'' 0 ''e9'' ''shop'' ''site'' ''informed_by'' None sample_org_db) =
      Connected ''e9'' ''shop'' ''site'' ''informed_by''"
    by code_simp
  moreover have "map ed_id (edges_t sample_org_db) = [''m1'', ''m2'', ''r1'']"
    by code_simp
  ultimately show ?thesis
    using c by (cases "connect_checked ''ann'' 0 ''e9'' ''shop'' ''site'' ''informed_by'' None sample_org_db") auto
qed

section \<open>Two divergences\<close>

text \<open>
  Without a relation, \<open>portuni_disconnect\<close> refuses to remove a lateral edge from a node to an
  organization it does not belong to: the check counts the node's memberships, whichever
  organization they are in, and never asks whether a membership would be removed.
\<close>

lemma lateral_edge_to_other_org_is_stuck:
  "let db = sample_org_db\<lparr>edges_t := edges_t sample_org_db @ [sample_edge ''x1'' ''site'' ''beta'' ''related_to'']\<rparr>
   in org_inv db \<and>
      fst (disconnect_checked ''ann'' ''site'' ''beta'' None db) = EdgeToolError (LastMembership ''site'') \<and>
      fst (disconnect_checked ''ann'' ''site'' ''beta'' (Some ''related_to'') db) = Disconnected 1"
  by code_simp

text \<open>The owner of a node may be any string: the table has no foreign key on the column.\<close>

lemma owner_is_not_checked:
  "\<exists>db'. updateNodeInternal 5 ''ann'' JNull (sample_update\<lparr>un_owner := Some (Some ''nobody'')\<rparr>) sample_org_db =
           (None, db') \<and> map nd_owner (nodes_t db') = [None, None, Some ''nobody'', None]"
proof -
  have "(case updateNodeInternal 5 ''ann'' JNull (sample_update\<lparr>un_owner := Some (Some ''nobody'')\<rparr>) sample_org_db of
      (e, db') \<Rightarrow> e = None \<and> map nd_owner (nodes_t db') = [None, None, Some ''nobody'', None])"
    by code_simp
  then show ?thesis by (auto split: prod.splits)
qed

end
