(* ===== verification/RateLimit.thy ===== *)
theory RateLimit
  imports Prelude "HOL-Library.AList"
begin

text \<open>
  The rate limiter of the HTTP server, \<^verbatim>\<open>apps/server/http/rate-limit.ts\<close>: six buckets of ten
  seconds per key, and the key of a request.  Times are milliseconds; the hash is an argument.  The
  state of a limiter is the list of its keys in insertion order.
\<close>

definition WINDOW_MS :: int where "WINDOW_MS = 60000"
definition BUCKET_COUNT :: nat where "BUCKET_COUNT = 6"
definition BUCKET_MS :: int where "BUCKET_MS = 10000"

record key_state =
  ks_buckets :: "nat list"
  ks_times :: "int list"

record limiter =
  li_limit :: int
  li_state :: "(string \<times> key_state) list"
  li_last_prune :: int

record verdict =
  vd_allowed :: bool
  vd_retry :: int

definition createRateLimiter :: "int \<Rightarrow> limiter" where
  "createRateLimiter limitPerMinute = \<lparr>li_limit = limitPerMinute, li_state = [], li_last_prune = 0\<rparr>"

definition pruneStaleKeys :: "int \<Rightarrow> limiter \<Rightarrow> limiter" where
  "pruneStaleKeys nowMs l =
     (if nowMs - li_last_prune l < WINDOW_MS then l
      else l\<lparr>li_last_prune := nowMs,
             li_state := filter (\<lambda>(k, ks). \<not> nowMs - Max (set (ks_times ks)) > WINDOW_MS) (li_state l)\<rparr>)"

definition getBucketIndex :: "int \<Rightarrow> nat" where
  "getBucketIndex nowMs = nat ((nowMs div BUCKET_MS) mod int BUCKET_COUNT)"

definition fresh_state :: key_state where
  "fresh_state = \<lparr>ks_buckets = replicate BUCKET_COUNT 0, ks_times = replicate BUCKET_COUNT 0\<rparr>"

definition getOrCreate :: "string \<Rightarrow> limiter \<Rightarrow> key_state" where
  "getOrCreate key l = (case map_of (li_state l) key of Some ks \<Rightarrow> ks | None \<Rightarrow> fresh_state)"

definition put_state :: "string \<Rightarrow> key_state \<Rightarrow> limiter \<Rightarrow> limiter" where
  "put_state key ks l = l\<lparr>li_state := AList.update key ks (li_state l)\<rparr>"

text \<open>The loop that zeroes the buckets that left the window.\<close>

definition expire_buckets :: "int \<Rightarrow> key_state \<Rightarrow> key_state" where
  "expire_buckets nowMs ks =
     \<lparr>ks_buckets = map2 (\<lambda>b t. if nowMs - t \<ge> WINDOW_MS then 0 else b) (ks_buckets ks) (ks_times ks),
      ks_times = map (\<lambda>t. if nowMs - t \<ge> WINDOW_MS then 0 else t) (ks_times ks)\<rparr>"

definition oldest_active :: "int \<Rightarrow> key_state \<Rightarrow> int" where
  "oldest_active nowMs ks =
     fold (\<lambda>(b, t) best. if 0 < b \<and> t < best then t else best) (zip (ks_buckets ks) (ks_times ks)) nowMs"

definition ceil_div :: "int \<Rightarrow> int \<Rightarrow> int" where
  "ceil_div a b = - ((- a) div b)"

definition refusal :: "int \<Rightarrow> key_state \<Rightarrow> verdict" where
  "refusal nowMs ks =
     (let retryAfterMs = oldest_active nowMs ks + WINDOW_MS - nowMs
      in \<lparr>vd_allowed = False, vd_retry = max 1 (ceil_div retryAfterMs 1000)\<rparr>)"

definition bucket_aligned :: "int \<Rightarrow> int" where
  "bucket_aligned nowMs = (nowMs div BUCKET_MS) * BUCKET_MS"

definition record_request :: "int \<Rightarrow> key_state \<Rightarrow> key_state" where
  "record_request nowMs ks =
     (let cur = getBucketIndex nowMs; al = bucket_aligned nowMs;
          ks1 = (if ks_times ks ! cur \<noteq> al
                 then ks\<lparr>ks_buckets := (ks_buckets ks)[cur := 0], ks_times := (ks_times ks)[cur := al]\<rparr>
                 else ks)
      in ks1\<lparr>ks_buckets := (ks_buckets ks1)[cur := Suc (ks_buckets ks1 ! cur)]\<rparr>)"

definition check :: "int \<Rightarrow> string \<Rightarrow> limiter \<Rightarrow> verdict \<times> limiter" where
  "check nowMs key l =
     (if li_limit l \<le> 0 then (\<lparr>vd_allowed = True, vd_retry = 0\<rparr>, l)
      else (let l1 = pruneStaleKeys nowMs l;
                ks = expire_buckets nowMs (getOrCreate key l1);
                total = sum_list (ks_buckets ks)
            in if int total \<ge> li_limit l
               then (refusal nowMs ks, put_state key ks l1)
               else (\<lparr>vd_allowed = True, vd_retry = 0\<rparr>, put_state key (record_request nowMs ks) l1)))"

definition rateLimitKey :: "(string \<Rightarrow> string) \<Rightarrow> string option \<Rightarrow> string option \<Rightarrow> string" where
  "rateLimitKey hash authorizationHeader remoteAddress =
     (let token = (case authorizationHeader of
                     Some h \<Rightarrow> (if prefix ''Bearer '' h then js_trim (drop (length ''Bearer '') h) else [])
                   | None \<Rightarrow> [])
      in if 0 < length token then ''bearer:'' @ hash token
         else (case remoteAddress of
                 Some a \<Rightarrow> (if a \<noteq> [] then ''ip:'' @ a else ''anon'')
               | None \<Rightarrow> ''anon''))"

section \<open>Runs of checks\<close>

text \<open>The verdicts of a sequence of checks, each with its time and key, and the times at which a key passed.\<close>

fun checks :: "(int \<times> string) list \<Rightarrow> limiter \<Rightarrow> verdict list" where
  "checks [] l = []"
| "checks ((t, k) # cs) l = (case check t k l of (v, l') \<Rightarrow> v # checks cs l')"

definition allowed_times :: "string \<Rightarrow> (int \<times> string) list \<Rightarrow> verdict list \<Rightarrow> int list" where
  "allowed_times k cs vs = map (fst \<circ> fst) (filter (\<lambda>((t, k'), v). k' = k \<and> vd_allowed v) (zip cs vs))"

text \<open>
  The contract: a log of the times a key passed, without buckets, slots or pruning.  A request is
  counted until the ten-second slot it fell in started a minute ago.
\<close>

definition log_active :: "int \<Rightarrow> int list \<Rightarrow> int list" where
  "log_active now H = filter (\<lambda>t. now - (t div 10000) * 10000 < 60000) H"

definition log_check :: "int \<Rightarrow> int \<Rightarrow> int list \<Rightarrow> verdict" where
  "log_check limit now H =
     (if int (length (log_active now H)) \<ge> limit
      then \<lparr>vd_allowed = False,
             vd_retry = max 1 (ceil_div (Min (set (map (\<lambda>t. (t div 10000) * 10000) (log_active now H))) + 60000 - now) 1000)\<rparr>
      else \<lparr>vd_allowed = True, vd_retry = 0\<rparr>)"

fun log_checks :: "int \<Rightarrow> (string \<Rightarrow> int list) \<Rightarrow> (int \<times> string) list \<Rightarrow> verdict list" where
  "log_checks limit H [] = []"
| "log_checks limit H ((t, k) # cs) =
     (let v = log_check limit t (H k)
      in v # log_checks limit (if vd_allowed v then H(k := H k @ [t]) else H) cs)"

lemmas rl_consts = WINDOW_MS_def BUCKET_COUNT_def BUCKET_MS_def

lemma index_bound [simp]: "getBucketIndex t < BUCKET_COUNT"
  by (simp add: getBucketIndex_def BUCKET_COUNT_def)

lemma aligned_bounds: "bucket_aligned t \<le> t" "t < bucket_aligned t + BUCKET_MS"
  using pos_mod_sign [of 10000 t] pos_mod_bound [of 10000 t] div_mult_mod_eq [of t 10000]
  unfolding bucket_aligned_def BUCKET_MS_def by linarith+

lemma same_slot:
  assumes "getBucketIndex t = getBucketIndex u" and "t \<le> u" and "u - bucket_aligned t < WINDOW_MS"
  shows "bucket_aligned t = bucket_aligned u"
proof -
  let ?a = "t div 10000" and ?b = "u div 10000"
  have ab: "?a \<le> ?b" using assms(2) by (simp add: zdiv_mono1)
  have "u - ?a * 10000 < 60000" using assms(3) by (simp add: bucket_aligned_def rl_consts)
  moreover have "?b * 10000 \<le> u" using aligned_bounds(1) [of u] by (simp add: bucket_aligned_def BUCKET_MS_def)
  ultimately have less: "?b - ?a < 6" by linarith
  have "?b mod 6 = ?a mod 6"
    using assms(1) by (simp add: getBucketIndex_def rl_consts nat_eq_iff)
  then have "6 dvd (?b - ?a)" by (metis mod_eq_dvd_iff)
  then have "?a = ?b" using ab less zdvd_not_zless [of "?b - ?a" 6] by linarith
  then show ?thesis by (simp add: bucket_aligned_def BUCKET_MS_def)
qed

text \<open>What a key's state says about the times \<open>H\<close> at which the key was allowed, as of \<open>now\<close>.\<close>

definition slot_inv :: "key_state \<Rightarrow> int list \<Rightarrow> int \<Rightarrow> bool" where
  "slot_inv ks H now \<longleftrightarrow>
     length (ks_buckets ks) = BUCKET_COUNT \<and> length (ks_times ks) = BUCKET_COUNT \<and>
     (\<forall>t \<in> set H. t \<le> now) \<and>
     (\<forall>i < BUCKET_COUNT.
        0 \<le> ks_times ks ! i \<and> ks_times ks ! i \<le> now \<and>
        (now - ks_times ks ! i < WINDOW_MS \<longrightarrow>
           ks_buckets ks ! i = length (filter (\<lambda>t. getBucketIndex t = i \<and> bucket_aligned t = ks_times ks ! i) H)) \<and>
        (\<forall>t \<in> set H. getBucketIndex t = i \<longrightarrow> now - bucket_aligned t < WINDOW_MS \<longrightarrow>
           bucket_aligned t = ks_times ks ! i))"

lemma slot_inv_later: "slot_inv ks H now \<Longrightarrow> now \<le> now' \<Longrightarrow> slot_inv ks H now'"
  by (force simp: slot_inv_def)

lemma slot_inv_fresh:
  assumes "0 \<le> now" and "\<forall>t \<in> set H. t \<le> now \<and> now - bucket_aligned t \<ge> WINDOW_MS"
  shows "slot_inv fresh_state H now"
  using assms by (auto simp: slot_inv_def fresh_state_def filter_empty_conv)

lemma expire_nth:
  assumes "length (ks_buckets ks) = BUCKET_COUNT" and "length (ks_times ks) = BUCKET_COUNT" and "i < BUCKET_COUNT"
  shows "ks_buckets (expire_buckets now ks) ! i = (if now - ks_times ks ! i \<ge> WINDOW_MS then 0 else ks_buckets ks ! i)"
    and "ks_times (expire_buckets now ks) ! i = (if now - ks_times ks ! i \<ge> WINDOW_MS then 0 else ks_times ks ! i)"
  using assms by (simp_all add: expire_buckets_def)

lemma slot_inv_expire:
  assumes "slot_inv ks H now"
  shows "slot_inv (expire_buckets now ks) H now"
    and "i < BUCKET_COUNT \<Longrightarrow> ks_buckets (expire_buckets now ks) ! i =
           length (filter (\<lambda>t. getBucketIndex t = i \<and> now - bucket_aligned t < WINDOW_MS) H)"
proof -
  have len: "length (ks_buckets ks) = BUCKET_COUNT" "length (ks_times ks) = BUCKET_COUNT"
    using assms by (simp_all add: slot_inv_def)
  note slot = assms [unfolded slot_inv_def, THEN conjunct2, THEN conjunct2, THEN conjunct2, rule_format]
  show "slot_inv (expire_buckets now ks) H now"
    unfolding slot_inv_def
  proof (intro conjI allI impI)
    show "length (ks_buckets (expire_buckets now ks)) = BUCKET_COUNT"
      "length (ks_times (expire_buckets now ks)) = BUCKET_COUNT"
      using len by (simp_all add: expire_buckets_def)
    show "\<forall>t \<in> set H. t \<le> now" using assms by (simp add: slot_inv_def)
  next
    fix i assume i: "i < BUCKET_COUNT"
    note s = slot [OF i] and e = expire_nth [OF len i, of now]
    show "0 \<le> ks_times (expire_buckets now ks) ! i" using s by (simp add: e)
    show "ks_times (expire_buckets now ks) ! i \<le> now" using s by (auto simp: e)
    show "ks_buckets (expire_buckets now ks) ! i = length (filter (\<lambda>t. getBucketIndex t = i \<and>
        bucket_aligned t = ks_times (expire_buckets now ks) ! i) H)"
      if "now - ks_times (expire_buckets now ks) ! i < WINDOW_MS"
      using that s by (auto simp: e split: if_split_asm)
    show "\<forall>t \<in> set H. getBucketIndex t = i \<longrightarrow> now - bucket_aligned t < WINDOW_MS \<longrightarrow>
        bucket_aligned t = ks_times (expire_buckets now ks) ! i"
      using s by (auto simp: e)
  qed
  show "ks_buckets (expire_buckets now ks) ! i =
      length (filter (\<lambda>t. getBucketIndex t = i \<and> now - bucket_aligned t < WINDOW_MS) H)" if i: "i < BUCKET_COUNT"
  proof (cases "now - ks_times ks ! i \<ge> WINDOW_MS")
    case True
    with slot [OF i] have "filter (\<lambda>t. getBucketIndex t = i \<and> now - bucket_aligned t < WINDOW_MS) H = []"
      by (auto simp: filter_empty_conv)
    with True show ?thesis by (simp add: expire_nth [OF len i])
  next
    case False
    then have "filter (\<lambda>t. getBucketIndex t = i \<and> now - bucket_aligned t < WINDOW_MS) H =
        filter (\<lambda>t. getBucketIndex t = i \<and> bucket_aligned t = ks_times ks ! i) H"
      using slot [OF i] by (intro filter_cong) auto
    with False slot [OF i] show ?thesis by (simp add: expire_nth [OF len i])
  qed
qed


lemma slot_inv_record:
  assumes inv: "slot_inv ks H now" and now: "0 \<le> now"
  shows "slot_inv (record_request now ks) (H @ [now]) now"
proof -
  let ?c = "getBucketIndex now" and ?al = "bucket_aligned now"
  let ?r = "record_request now ks"
  have len: "length (ks_buckets ks) = BUCKET_COUNT" "length (ks_times ks) = BUCKET_COUNT"
    using inv by (simp_all add: slot_inv_def)
  note slot = inv [unfolded slot_inv_def, THEN conjunct2, THEN conjunct2, THEN conjunct2, rule_format]
  have al: "0 \<le> ?al" "?al \<le> now" "now - ?al < WINDOW_MS"
    using now aligned_bounds [of now] by (simp_all add: bucket_aligned_def rl_consts pos_imp_zdiv_nonneg_iff)
  have here: "bucket_aligned t = ?al" if "t \<in> set H" "getBucketIndex t = ?c" "now - bucket_aligned t < WINDOW_MS" for t
    using same_slot [of t now] that inv by (auto simp: slot_inv_def)
  have times: "ks_times ?r ! i = (if i = ?c then ?al else ks_times ks ! i)" if "i < BUCKET_COUNT" for i
    using that len by (simp add: record_request_def Let_def nth_list_update)
  have old: "(if ks_times ks ! ?c = ?al then ks_buckets ks ! ?c else 0) =
      length (filter (\<lambda>t. getBucketIndex t = ?c \<and> bucket_aligned t = ?al) H)"
  proof (cases "ks_times ks ! ?c = ?al")
    case True
    then show ?thesis using slot [OF index_bound, of now] al by simp
  next
    case False
    have "filter (\<lambda>t. getBucketIndex t = ?c \<and> bucket_aligned t = ?al) H = []"
      using False slot [OF index_bound, of now] al by (auto simp: filter_empty_conv)
    then show ?thesis using False by simp
  qed
  have count: "ks_buckets ?r ! i =
      (if i = ?c then Suc (length (filter (\<lambda>t. getBucketIndex t = ?c \<and> bucket_aligned t = ?al) H))
       else ks_buckets ks ! i)" if "i < BUCKET_COUNT" for i
    using that len by (simp add: record_request_def Let_def nth_list_update flip: old)
  show ?thesis
    unfolding slot_inv_def
  proof (intro conjI allI impI)
    show "length (ks_buckets ?r) = BUCKET_COUNT" "length (ks_times ?r) = BUCKET_COUNT"
      using len by (simp_all add: record_request_def Let_def)
    show "\<forall>t \<in> set (H @ [now]). t \<le> now" using inv by (simp add: slot_inv_def)
  next
    fix i assume i: "i < BUCKET_COUNT"
    show "0 \<le> ks_times ?r ! i" "ks_times ?r ! i \<le> now" using slot [OF i] al by (simp_all add: times [OF i])
    show "ks_buckets ?r ! i = length (filter (\<lambda>t. getBucketIndex t = i \<and> bucket_aligned t = ks_times ?r ! i) (H @ [now]))"
      if "now - ks_times ?r ! i < WINDOW_MS"
      using that slot [OF i] unfolding times [OF i] count [OF i] by (cases "i = ?c") simp_all
    show "\<forall>t \<in> set (H @ [now]). getBucketIndex t = i \<longrightarrow> now - bucket_aligned t < WINDOW_MS \<longrightarrow>
        bucket_aligned t = ks_times ?r ! i"
      using slot [OF i] here by (auto simp: times [OF i])
  qed
qed

section \<open>What the buckets add up to\<close>

lemma sum_over_slots:
  fixes g :: "'a \<Rightarrow> nat"
  assumes "\<forall>x \<in> set xs. g x < n"
  shows "(\<Sum>i<n. length (filter (\<lambda>x. g x = i) xs)) = length xs"
  using assms
proof (induction xs)
  case Nil
  then show ?case by simp
next
  case (Cons x xs)
  have "(\<Sum>i<n. length (filter (\<lambda>y. g y = i) (x # xs))) =
      (\<Sum>i<n. (if i = g x then 1 else 0) + length (filter (\<lambda>y. g y = i) xs))"
    by (rule sum.cong) auto
  also have "\<dots> = 1 + length xs"
    using Cons by (simp add: sum.distrib)
  finally show ?case by simp
qed

lemma log_active_alt: "log_active now H = filter (\<lambda>t. now - bucket_aligned t < WINDOW_MS) H"
  by (simp add: log_active_def bucket_aligned_def rl_consts)

lemma total_is_active:
  assumes "slot_inv ks H now"
  shows "sum_list (ks_buckets (expire_buckets now ks)) = length (log_active now H)"
proof -
  let ?e = "expire_buckets now ks"
  have len: "length (ks_buckets ?e) = BUCKET_COUNT"
    using slot_inv_expire(1) [OF assms] by (simp add: slot_inv_def)
  have "sum_list (ks_buckets ?e) = (\<Sum>i<BUCKET_COUNT. ks_buckets ?e ! i)"
    by (simp add: sum_list_sum_nth len lessThan_atLeast0)
  also have "\<dots> = (\<Sum>i<BUCKET_COUNT. length (filter (\<lambda>t. getBucketIndex t = i) (log_active now H)))"
    using slot_inv_expire(2) [OF assms] by (intro sum.cong) (auto simp: log_active_alt conj_commute)
  also have "\<dots> = length (log_active now H)"
    by (rule sum_over_slots) simp
  finally show ?thesis .
qed


lemma active_slot:
  assumes "slot_inv ks H now" and "i < BUCKET_COUNT"
  shows "0 < ks_buckets (expire_buckets now ks) ! i \<longleftrightarrow>
      (\<exists>t \<in> set (log_active now H). getBucketIndex t = i \<and> bucket_aligned t = ks_times (expire_buckets now ks) ! i)"
proof -
  have cl: "bucket_aligned t = ks_times (expire_buckets now ks) ! i"
    if "t \<in> set H" "getBucketIndex t = i" "now - bucket_aligned t < WINDOW_MS" for t
    using slot_inv_expire(1) [OF assms(1)] that assms(2) by (auto simp: slot_inv_def)
  have "0 < ks_buckets (expire_buckets now ks) ! i \<longleftrightarrow>
      filter (\<lambda>t. getBucketIndex t = i \<and> now - bucket_aligned t < WINDOW_MS) H \<noteq> []"
    unfolding slot_inv_expire(2) [OF assms] by simp
  then show ?thesis using cl by (auto simp: log_active_alt filter_empty_conv)
qed

lemma fold_best:
  "fold (\<lambda>(b, t) best. if 0 < b \<and> t < best then t else best) xs (m :: int) =
     Min (insert m (snd ` {x \<in> set xs. 0 < (fst x :: nat)}))"
proof (induction xs arbitrary: m)
  case Nil
  then show ?case by simp
next
  case (Cons x xs)
  obtain b t where x: "x = (b, t)" by (cases x)
  define S where "S = snd ` {y \<in> set xs. 0 < fst y}"
  have fin: "finite S" by (simp add: S_def)
  have all: "snd ` {y \<in> set (x # xs). 0 < fst y} = (if 0 < b then insert t S else S)"
    using x by (auto simp: S_def image_iff)
  have "Min (insert (if t < m then t else m) S) = Min (insert m (insert t S))"
  proof (cases "S = {}")
    case False
    define q where "q = Min S"
    from False fin have "Min (insert x S) = min x q" "Min (insert m (insert t S)) = min m (min t q)" for x
      by (simp_all only: q_def Min_insert finite_insert insert_not_empty not_False_eq_True)
    then show ?thesis by (auto simp: min_def)
  qed (simp add: min_def)
  note step = this
  have "fold (\<lambda>(b, t) best. if 0 < b \<and> t < best then t else best) (x # xs) m =
      Min (insert (if 0 < b \<and> t < m then t else m) S)"
    by (simp add: x Cons.IH S_def)
  then show ?case
    unfolding all using step by (cases "0 < b") simp_all
qed

lemma oldest_is_Min:
  assumes "slot_inv ks H now" and "log_active now H \<noteq> []"
  shows "oldest_active now (expire_buckets now ks) = Min (bucket_aligned ` set (log_active now H))"
proof -
  let ?e = "expire_buckets now ks" and ?A = "set (log_active now H)"
  have len: "length (ks_buckets ?e) = BUCKET_COUNT" "length (ks_times ?e) = BUCKET_COUNT"
    using slot_inv_expire(1) [OF assms(1)] by (simp_all add: slot_inv_def)
  have cl: "bucket_aligned t = ks_times ?e ! getBucketIndex t" if "t \<in> ?A" for t
    using slot_inv_expire(1) [OF assms(1)] that by (auto simp: slot_inv_def log_active_alt)
  have "snd ` {x \<in> set (zip (ks_buckets ?e) (ks_times ?e)). 0 < fst x} =
      (\<lambda>i. ks_times ?e ! i) ` {i. i < BUCKET_COUNT \<and> 0 < ks_buckets ?e ! i}"
    unfolding set_zip using len by (auto simp: image_def)
  also have "\<dots> = bucket_aligned ` ?A"
  proof (intro equalityI subsetI)
    fix y assume "y \<in> (\<lambda>i. ks_times ?e ! i) ` {i. i < BUCKET_COUNT \<and> 0 < ks_buckets ?e ! i}"
    then show "y \<in> bucket_aligned ` ?A" using active_slot [OF assms(1)] by force
  next
    fix y assume "y \<in> bucket_aligned ` ?A"
    then obtain t where t: "t \<in> ?A" "y = bucket_aligned t" by blast
    with active_slot [OF assms(1) index_bound, of t] cl [OF t(1)]
    have "0 < ks_buckets ?e ! getBucketIndex t" by blast
    with t cl [OF t(1)] show "y \<in> (\<lambda>i. ks_times ?e ! i) ` {i. i < BUCKET_COUNT \<and> 0 < ks_buckets ?e ! i}"
      by (auto intro: image_eqI [where x = "getBucketIndex t"])
  qed
  finally have eq: "oldest_active now ?e = Min (insert now (bucket_aligned ` ?A))"
    by (simp add: oldest_active_def fold_best)
  have "\<exists>x \<in> bucket_aligned ` ?A. x \<le> now"
  proof -
    from assms(2) obtain t where t: "t \<in> ?A" by (cases "log_active now H") auto
    then have "t \<le> now" using assms(1) by (auto simp: slot_inv_def log_active_alt)
    with t show ?thesis using aligned_bounds(1) [of t] by (auto intro: order_trans)
  qed
  then have "Min (bucket_aligned ` ?A) \<le> now"
    by (meson Min_le finite_imageI finite_set order_trans)
  then have "min now (Min (bucket_aligned ` ?A)) = Min (bucket_aligned ` ?A)" by (rule min_absorb2)
  then show ?thesis
    unfolding eq using assms(2) by (subst Min_insert) auto
qed

section \<open>The limiter follows the log\<close>

definition lim_inv :: "limiter \<Rightarrow> (string \<Rightarrow> int list) \<Rightarrow> int \<Rightarrow> bool" where
  "lim_inv l H now \<longleftrightarrow>
     0 \<le> now \<and> distinct (map fst (li_state l)) \<and> (\<forall>k. slot_inv (getOrCreate k l) (H k) now)"

lemma lim_inv_create: "0 \<le> now \<Longrightarrow> lim_inv (createRateLimiter L) (\<lambda>_. []) now"
  by (simp add: lim_inv_def createRateLimiter_def getOrCreate_def slot_inv_fresh)

lemma map_of_filter_distinct:
  "distinct (map fst xs) \<Longrightarrow>
     map_of (filter P xs) k = (case map_of xs k of Some v \<Rightarrow> (if P (k, v) then Some v else None) | None \<Rightarrow> None)"
  by (induction xs) (auto split: option.splits simp: map_of_eq_None_iff dest: map_of_SomeD) 

lemma stale_slots:
  assumes "slot_inv ks H now" and "now - Max (set (ks_times ks)) > WINDOW_MS"
  shows "slot_inv fresh_state H now"
proof (rule slot_inv_fresh)
  have len: "length (ks_times ks) = BUCKET_COUNT" using assms(1) by (simp add: slot_inv_def)
  have "ks_times ks ! getBucketIndex t \<in> set (ks_times ks)" for t
    using index_bound [of t] len by (metis nth_mem)
  then have max: "ks_times ks ! getBucketIndex t \<le> Max (set (ks_times ks))" for t by simp
  show "0 \<le> now" using assms(1) index_bound [of 0] unfolding slot_inv_def by (meson order_trans)
  show "\<forall>t \<in> set H. t \<le> now \<and> now - bucket_aligned t \<ge> WINDOW_MS"
    using assms max unfolding slot_inv_def
    by (smt (verit, best) index_bound)
qed

lemma lim_inv_prune:
  assumes "lim_inv l H now"
  shows "lim_inv (pruneStaleKeys now l) H now"
proof (cases "now - li_last_prune l < WINDOW_MS")
  case True
  then show ?thesis using assms by (simp add: pruneStaleKeys_def)
next
  case False
  have "slot_inv (getOrCreate k (pruneStaleKeys now l)) (H k) now" for k
  proof -
    have g: "slot_inv (getOrCreate k l) (H k) now" and d: "distinct (map fst (li_state l))"
      using assms by (simp_all add: lim_inv_def)
    show ?thesis
    proof (cases "map_of (li_state l) k")
      case None
      then show ?thesis using False g d by (simp add: pruneStaleKeys_def getOrCreate_def map_of_filter_distinct)
    next
      case (Some ks)
      then show ?thesis
        using False g d stale_slots [of ks "H k" now]
        by (simp add: pruneStaleKeys_def getOrCreate_def map_of_filter_distinct)
    qed
  qed
  moreover have "distinct (map fst (li_state (pruneStaleKeys now l)))"
    using assms by (auto simp: lim_inv_def pruneStaleKeys_def distinct_map_filter)
  ultimately show ?thesis using assms by (simp add: lim_inv_def)
qed

lemma lim_inv_put:
  assumes "lim_inv l H now" and "slot_inv ks h now"
  shows "lim_inv (put_state k ks l) (H(k := h)) now"
  using assms by (auto simp: lim_inv_def put_state_def getOrCreate_def update_conv' distinct_update)

lemma lim_inv_later: "lim_inv l H now \<Longrightarrow> now \<le> now' \<Longrightarrow> lim_inv l H now'"
  by (auto simp: lim_inv_def intro: slot_inv_later)


lemma check_follows_log:
  assumes inv: "lim_inv l H now" and L: "0 < li_limit l"
  shows "fst (check now k l) = log_check (li_limit l) now (H k)"
    and "lim_inv (snd (check now k l)) (if vd_allowed (fst (check now k l)) then H(k := H k @ [now]) else H) now"
    and "li_limit (snd (check now k l)) = li_limit l"
proof -
  define l1 where "l1 = pruneStaleKeys now l"
  define ks where "ks = getOrCreate k l1"
  have inv1: "lim_inv l1 H now" using lim_inv_prune [OF inv] by (simp add: l1_def)
  then have sl: "slot_inv ks (H k) now" and now: "0 \<le> now" by (simp_all add: lim_inv_def ks_def)
  have lim: "li_limit l1 = li_limit l" by (simp add: l1_def pruneStaleKeys_def)
  let ?over = "int (length (log_active now (H k))) \<ge> li_limit l"
  have c: "check now k l = (if ?over then (refusal now (expire_buckets now ks), put_state k (expire_buckets now ks) l1)
      else (\<lparr>vd_allowed = True, vd_retry = 0\<rparr>, put_state k (record_request now (expire_buckets now ks)) l1))"
    using L total_is_active [OF sl] by (simp add: check_def Let_def flip: l1_def ks_def)
  have ref: "refusal now (expire_buckets now ks) = log_check (li_limit l) now (H k)" if ?over
  proof -
    have "log_active now (H k) \<noteq> []" using that L by auto
    from oldest_is_Min [OF sl this] show ?thesis
      using that by (simp add: refusal_def log_check_def Let_def bucket_aligned_def rl_consts)
  qed
  show "fst (check now k l) = log_check (li_limit l) now (H k)"
    using ref by (cases ?over) (simp_all add: c, simp add: log_check_def)
  have "lim_inv (put_state k (expire_buckets now ks) l1) (H(k := H k)) now"
    by (rule lim_inv_put [OF inv1 slot_inv_expire(1) [OF sl]])
  moreover have "lim_inv (put_state k (record_request now (expire_buckets now ks)) l1) (H(k := H k @ [now])) now"
    by (rule lim_inv_put [OF inv1 slot_inv_record [OF slot_inv_expire(1) [OF sl] now]])
  ultimately show "lim_inv (snd (check now k l)) (if vd_allowed (fst (check now k l)) then H(k := H k @ [now]) else H) now"
    by (simp add: c refusal_def Let_def)
  show "li_limit (snd (check now k l)) = li_limit l"
    by (simp add: c put_state_def lim)
qed

lemma checks_follow_log:
  assumes "lim_inv l H now" and "0 < li_limit l" and "sorted (now # map fst cs)"
  shows "checks cs l = log_checks (li_limit l) H cs"
  using assms
proof (induction cs arbitrary: l H now)
  case Nil
  then show ?case by simp
next
  case (Cons c cs)
  obtain t k where c: "c = (t, k)" by (cases c)
  obtain v l' where v: "check t k l = (v, l')" by (cases "check t k l")
  have "lim_inv l H t" using Cons.prems c by (auto intro: lim_inv_later)
  note step = check_follows_log [OF this Cons.prems(2), of k, unfolded v fst_conv snd_conv]
  from Cons.IH [OF step(2)] show ?case
    using Cons.prems c v step(1,3) by (simp add: Let_def)
qed

section \<open>How many requests pass\<close>

lemma log_check_allows:
  assumes "vd_allowed (log_check L now H)"
  shows "int (length (log_active now H)) < L"
  using assms by (simp add: log_check_def split: if_splits)

lemma allowed_times_simps [simp]:
  "allowed_times k [] vs = []"
  "allowed_times k ((t, k') # cs) (v # vs) = (if k' = k \<and> vd_allowed v then [t] else []) @ allowed_times k cs vs"
  by (simp_all add: allowed_times_def)

lemma window_bound:
  assumes "\<forall>t \<in> set (H k). t \<le> now" and "sorted (now # map fst cs)"
    and "int (length (filter (\<lambda>t. a \<le> t \<and> t \<le> a + 50000) (H k))) \<le> L"
  shows "int (length (filter (\<lambda>t. a \<le> t \<and> t \<le> a + 50000) (H k @ allowed_times k cs (log_checks L H cs)))) \<le> L"
  using assms
proof (induction cs arbitrary: H now)
  case Nil
  then show ?case by simp
next
  case (Cons c cs)
  obtain t k' where c: "c = (t, k')" by (cases c)
  let ?v = "log_check L t (H k')" and ?in = "\<lambda>t. a \<le> t \<and> t \<le> a + 50000"
  let ?H = "if vd_allowed ?v then H(k' := H k' @ [t]) else H"
  have le: "\<forall>x \<in> set (H k). x \<le> t" using Cons.prems c by force
  have bnd: "int (length (filter ?in (?H k))) \<le> L"
  proof (cases "k' = k \<and> vd_allowed ?v \<and> ?in t")
    case True
    have "length (filter ?in (H k)) \<le> length (log_active t (H k))"
      unfolding log_active_alt
    proof (rule filter_length_mono)
      fix x assume "x \<in> set (H k)" "?in x"
      then show "t - bucket_aligned x < WINDOW_MS"
        using True aligned_bounds(2) [of x] by (simp add: rl_consts)
    qed
    moreover have "int (length (log_active t (H k))) < L"
      using True by (intro log_check_allows) auto
    ultimately show ?thesis using True by simp
  next
    case False
    then show ?thesis using Cons.prems(3) by auto
  qed
  have "int (length (filter ?in (?H k @ allowed_times k cs (log_checks L ?H cs)))) \<le> L"
    by (rule Cons.IH [where now = t]) (use le bnd Cons.prems c in auto)
  moreover have "?H k @ allowed_times k cs (log_checks L ?H cs) = H k @ allowed_times k (c # cs) (log_checks L H (c # cs))"
    by (simp add: c Let_def)
  ultimately show ?case by simp
qed


lemma log_check_seconds:
  assumes "\<forall>t \<in> set H. t \<le> now" and "0 < L" and "\<not> vd_allowed (log_check L now H)"
  shows "1 \<le> vd_retry (log_check L now H)" and "vd_retry (log_check L now H) \<le> 60"
proof -
  let ?A = "log_active now H"
  have full: "int (length ?A) \<ge> L" using assms(3) by (simp add: log_check_def split: if_splits)
  let ?m = "Min (bucket_aligned ` set ?A)"
  have ne: "?A \<noteq> []" using full assms(2) by auto
  then have "?m \<in> bucket_aligned ` set ?A" by (intro Min_in) auto
  then obtain t where "t \<in> set ?A" "?m = bucket_aligned t" by blast
  then have "?m \<le> now" using assms(1) aligned_bounds(1) [of t] by (auto simp: log_active_alt)
  then have "ceil_div (?m + 60000 - now) 1000 \<le> 60" by (simp add: ceil_div_def)
  moreover have "vd_retry (log_check L now H) = max 1 (ceil_div (?m + 60000 - now) 1000)"
    using full by (simp add: log_check_def bucket_aligned_def rl_consts)
  ultimately show "1 \<le> vd_retry (log_check L now H)" "vd_retry (log_check L now H) \<le> 60" by simp_all
qed


lemma log_checks_seconds:
  assumes "\<forall>k. \<forall>t \<in> set (H k). t \<le> now" and "sorted (now # map fst cs)" and "0 < L"
    and "v \<in> set (log_checks L H cs)" and "\<not> vd_allowed v"
  shows "1 \<le> vd_retry v \<and> vd_retry v \<le> 60"
  using assms
proof (induction cs arbitrary: H now)
  case Nil
  then show ?case by simp
next
  case (Cons c cs)
  obtain t k where c: "c = (t, k)" by (cases c)
  let ?H = "if vd_allowed (log_check L t (H k)) then H(k := H k @ [t]) else H"
  have le: "\<forall>k. \<forall>x \<in> set (H k). x \<le> t" using Cons.prems c by force
  consider "v = log_check L t (H k)" | "v \<in> set (log_checks L ?H cs)"
    using Cons.prems(4) c by (auto simp: Let_def)
  then show ?case
  proof cases
    case 1
    then show ?thesis using log_check_seconds [of "H k" t L] le Cons.prems(3,5) by simp
  next
    case 2
    show ?thesis
      by (rule Cons.IH [where now = t, OF _ _ Cons.prems(3) 2 Cons.prems(5)]) (use le Cons.prems c in auto)
  qed
qed

lemma checks_from_start:
  assumes "sorted (0 # map fst cs)" and "0 < L"
  shows "checks cs (createRateLimiter L) = log_checks L (\<lambda>_. []) cs"
  using checks_follow_log [OF lim_inv_create [of 0 L]] assms by (simp add: createRateLimiter_def)

section \<open>Properties\<close>

text \<open>
  C22: the limiter implements its contract.  For every sequence of checks at non-decreasing times, on
  any mix of keys, the verdicts of the ring buffers of six slots, with their expiry, their roll-over
  and the pruning of idle keys, are those of a log of the times each key passed: a request is
  refused exactly when the slots that started less than a minute ago already hold the limit, and
  the seconds to wait are those until the oldest of these slots leaves.
\<close>

theorem limiter_refines_log:
  assumes "sorted (0 # map fst cs)" and "0 < L"
  shows "checks cs (createRateLimiter L) = log_checks L (\<lambda>_. []) cs"
  using assms by (rule checks_from_start)

theorem limiter_refines_log_witness:
  "checks [(9999, ''a''), (9999, ''b''), (10000, ''a''), (59999, ''a''), (60000, ''a''), (130001, ''a'')] (createRateLimiter 2) =
     log_checks 2 (\<lambda>_. []) [(9999, ''a''), (9999, ''b''), (10000, ''a''), (59999, ''a''), (60000, ''a''), (130001, ''a'')] \<and>
   map vd_allowed (log_checks 2 (\<lambda>_. []) [(9999, ''a''), (9999, ''b''), (10000, ''a''), (59999, ''a''), (60000, ''a''), (130001, ''a'')]) =
     [True, True, True, False, True, True]"
proof
  show "checks [(9999, ''a''), (9999, ''b''), (10000, ''a''), (59999, ''a''), (60000, ''a''), (130001, ''a'')] (createRateLimiter 2) =
     log_checks 2 (\<lambda>_. []) [(9999, ''a''), (9999, ''b''), (10000, ''a''), (59999, ''a''), (60000, ''a''), (130001, ''a'')]"
    by (rule limiter_refines_log) simp_all
  show "map vd_allowed (log_checks 2 (\<lambda>_. []) [(9999, ''a''), (9999, ''b''), (10000, ''a''), (59999, ''a''), (60000, ''a''), (130001, ''a'')]) =
     [True, True, True, False, True, True]"
    by code_simp
qed

text \<open>
  C23: bounds.  In a run of checks at non-decreasing times a key passes at most the limit in any
  interval of fifty seconds, wherever it starts, and a refusal asks for a wait between one and sixty
  seconds.
\<close>

theorem limiter_bounds:
  assumes "sorted (0 # map fst cs)" and "0 < L"
  shows "int (length (filter (\<lambda>t. a \<le> t \<and> t \<le> a + 50000)
            (allowed_times k cs (checks cs (createRateLimiter L))))) \<le> L \<and>
         (\<forall>v \<in> set (checks cs (createRateLimiter L)). vd_allowed v \<or> (1 \<le> vd_retry v \<and> vd_retry v \<le> 60))"
proof -
  have "int (length (filter (\<lambda>t. a \<le> t \<and> t \<le> a + 50000)
      ([] @ allowed_times k cs (log_checks L (\<lambda>_. []) cs)))) \<le> L"
    by (rule window_bound [where now = 0]) (use assms in auto)
  moreover have "1 \<le> vd_retry v \<and> vd_retry v \<le> 60" if "v \<in> set (log_checks L (\<lambda>_. []) cs)" "\<not> vd_allowed v" for v
    by (rule log_checks_seconds [where now = 0, OF _ assms that]) simp
  ultimately show ?thesis unfolding checks_from_start [OF assms] by auto
qed

theorem limiter_bounds_witness:
  "int (length (filter (\<lambda>t. 9999 \<le> t \<and> t \<le> 9999 + 50000)
      (allowed_times ''a'' [(9999, ''a''), (9999, ''a''), (59999, ''a'')]
        (checks [(9999, ''a''), (9999, ''a''), (59999, ''a'')] (createRateLimiter 2))))) \<le> 2 \<and>
   map vd_retry (checks [(9999, ''a''), (9999, ''a''), (59999, ''a'')] (createRateLimiter 2)) = [0, 0, 1]"
proof
  show "int (length (filter (\<lambda>t. 9999 \<le> t \<and> t \<le> 9999 + 50000)
      (allowed_times ''a'' [(9999, ''a''), (9999, ''a''), (59999, ''a'')]
        (checks [(9999, ''a''), (9999, ''a''), (59999, ''a'')] (createRateLimiter 2))))) \<le> 2"
    by (rule limiter_bounds [THEN conjunct1]) simp_all
  show "map vd_retry (checks [(9999, ''a''), (9999, ''a''), (59999, ''a'')] (createRateLimiter 2)) = [0, 0, 1]"
    by code_simp
qed

text \<open>
  The interval cannot be a minute: the slot of a request at its very end leaves fifty seconds and a
  millisecond later, and a whole second lot passes.
\<close>

lemma twice_the_limit_in_a_minute:
  "allowed_times ''a'' [(9999, ''a''), (9999, ''a''), (60000, ''a''), (60000, ''a'')]
     (checks [(9999, ''a''), (9999, ''a''), (60000, ''a''), (60000, ''a'')] (createRateLimiter 2)) =
   [9999, 9999, 60000, 60000]"
  by code_simp

end
