(* ===== verification/PathLock.thy ===== *)
theory PathLock
  imports Prelude
begin

text \<open>
  The keyed mutex of the sync engine, \<^verbatim>\<open>apps/server/domain/sync/path-lock.ts\<close>.  A task is one call
  of \<open>withPathLock\<close>, named by its number in the order of the calls; it keeps the promise it waits for
  (the \<open>chained\<close> promise of the task that held the map entry when it called, if any).  The steps are
  the synchronous pieces of the call: the call itself, the resumption after \<open>await priorSettled\<close>, which
  starts \<open>fn\<close>, and the \<open>finally\<close> block once \<open>fn\<close> has settled, with its value or its error.
\<close>

section \<open>The lock\<close>

datatype 'a phase = Waiting | Running | Settled "string + 'a"

record 'a lock_task =
  lt_key :: string
  lt_prior :: "nat option"
  lt_phase :: "'a phase"

record 'a lock_state =
  lk_tasks :: "'a lock_task list"
  lk_chains :: "string \<Rightarrow> nat option"

definition lock_init :: "'a lock_state" where
  "lock_init = \<lparr>lk_tasks = [], lk_chains = (\<lambda>_. None)\<rparr>"

fun settled :: "'a phase \<Rightarrow> bool" where
  "settled (Settled _) \<longleftrightarrow> True"
| "settled _ \<longleftrightarrow> False"

text \<open>The call registers its own promise under the key and returns the task's number.\<close>

definition withPathLock :: "string \<Rightarrow> 'a lock_state \<Rightarrow> nat \<times> 'a lock_state" where
  "withPathLock key s =
     (let t = length (lk_tasks s)
      in (t, s\<lparr>lk_tasks := lk_tasks s @ [\<lparr>lt_key = key, lt_prior = lk_chains s key, lt_phase = Waiting\<rparr>],
               lk_chains := (lk_chains s)(key := Some t)\<rparr>))"

text \<open>
  \<open>chained = priorSettled.then(() => mine)\<close>: it settles when the promise of the prior task has and
  \<open>mine\<close> was released.  A prior task has a smaller number, so the recursion ends.
\<close>

function chained_settled :: "'a lock_task list \<Rightarrow> nat \<Rightarrow> bool" where
  "chained_settled ts t =
     (settled (lt_phase (ts ! t)) \<and>
      (case lt_prior (ts ! t) of None \<Rightarrow> True | Some j \<Rightarrow> (if j < t then chained_settled ts j else False)))"
  by pat_completeness auto
termination
  by (relation "measure snd") auto

declare chained_settled.simps [simp del]

definition prior_settled :: "'a lock_task list \<Rightarrow> nat \<Rightarrow> bool" where
  "prior_settled ts t = (case lt_prior (ts ! t) of None \<Rightarrow> True | Some j \<Rightarrow> chained_settled ts j)"

definition set_phase :: "nat \<Rightarrow> 'a phase \<Rightarrow> 'a lock_state \<Rightarrow> 'a lock_state" where
  "set_phase t p s = s\<lparr>lk_tasks := (lk_tasks s)[t := (lk_tasks s ! t)\<lparr>lt_phase := p\<rparr>]\<rparr>"

definition can_enter :: "nat \<Rightarrow> 'a lock_state \<Rightarrow> bool" where
  "can_enter t s \<longleftrightarrow> t < length (lk_tasks s) \<and> lt_phase (lk_tasks s ! t) = Waiting \<and> prior_settled (lk_tasks s) t"

definition can_leave :: "nat \<Rightarrow> 'a lock_state \<Rightarrow> bool" where
  "can_leave t s \<longleftrightarrow> t < length (lk_tasks s) \<and> lt_phase (lk_tasks s ! t) = Running"

text \<open>The \<open>finally\<close> block.\<close>

definition release :: "nat \<Rightarrow> string + 'a \<Rightarrow> 'a lock_state \<Rightarrow> 'a lock_state" where
  "release t r s =
     (let key = lt_key (lk_tasks s ! t); s1 = set_phase t (Settled r) s
      in if lk_chains s1 key = Some t then s1\<lparr>lk_chains := (lk_chains s1)(key := None)\<rparr> else s1)"

inductive drain_step :: "'a lock_state \<Rightarrow> 'a lock_state \<Rightarrow> bool" where
  enter: "can_enter t s \<Longrightarrow> drain_step s (set_phase t Running s)"
| leave: "can_leave t s \<Longrightarrow> drain_step s (release t r s)"

inductive lock_step :: "'a lock_state \<Rightarrow> 'a lock_state \<Rightarrow> bool" where
  call: "lock_step s (snd (withPathLock key s))"
| drain: "drain_step s s' \<Longrightarrow> lock_step s s'"

text \<open>
  A function may call the lock itself and wait for its call: \<open>awaits t\<close> are the calls the function of \<open>t\<close> waits
  for before it settles.  The lock is not reentrant, so a call it waits for may be one that waits for it.
\<close>

definition awaited_settled :: "(nat \<Rightarrow> nat list) \<Rightarrow> nat \<Rightarrow> 'a lock_state \<Rightarrow> bool" where
  "awaited_settled awaits t s \<longleftrightarrow> list_all (\<lambda>u. u < length (lk_tasks s) \<and> settled (lt_phase (lk_tasks s ! u))) (awaits t)"

inductive nested_step :: "(nat \<Rightarrow> nat list) \<Rightarrow> 'a lock_state \<Rightarrow> 'a lock_state \<Rightarrow> bool" for awaits :: "nat \<Rightarrow> nat list" where
  nested_enter: "can_enter t s \<Longrightarrow> nested_step awaits s (set_phase t Running s)"
| nested_leave: "can_leave t s \<Longrightarrow> awaited_settled awaits t s \<Longrightarrow> nested_step awaits s (release t r s)"

inductive nested_lock_step :: "(nat \<Rightarrow> nat list) \<Rightarrow> 'a lock_state \<Rightarrow> 'a lock_state \<Rightarrow> bool" for awaits :: "nat \<Rightarrow> nat list" where
  nested_call: "nested_lock_step awaits s (snd (withPathLock key s))"
| nested_drain: "nested_step awaits s s' \<Longrightarrow> nested_lock_step awaits s s'"

section \<open>The contract: a queue per key\<close>

text \<open>The tasks of a key that have not finished, in the order of their calls, and whether the first holds the lock.\<close>

type_synonym queue_lock = "string \<Rightarrow> nat list \<times> bool"

inductive queue_step :: "queue_lock \<Rightarrow> queue_lock \<Rightarrow> bool" where
  enqueue: "q k = (ts, h) \<Longrightarrow> queue_step q (q(k := (ts @ [t], h)))"
| acquire: "q k = (t # ts, False) \<Longrightarrow> queue_step q (q(k := (t # ts, True)))"
| dequeue: "q k = (t # ts, True) \<Longrightarrow> queue_step q (q(k := (ts, False)))"

definition pending_of :: "'a lock_state \<Rightarrow> string \<Rightarrow> nat list" where
  "pending_of s k = filter (\<lambda>t. lt_key (lk_tasks s ! t) = k \<and> \<not> settled (lt_phase (lk_tasks s ! t))) [0..<length (lk_tasks s)]"

definition queue_of :: "'a lock_state \<Rightarrow> queue_lock" where
  "queue_of s k =
     (let ts = pending_of s k
      in (ts, case ts of [] \<Rightarrow> False | t # _ \<Rightarrow> lt_phase (lk_tasks s ! t) = Running))"

section \<open>The invariant\<close>

abbreviation (input) key_of :: "'a lock_state \<Rightarrow> nat \<Rightarrow> string" where
  "key_of s t \<equiv> lt_key (lk_tasks s ! t)"

abbreviation (input) fin :: "'a lock_state \<Rightarrow> nat \<Rightarrow> bool" where
  "fin s t \<equiv> settled (lt_phase (lk_tasks s ! t))"

definition prior_ok :: "'a lock_state \<Rightarrow> nat \<Rightarrow> bool" where
  "prior_ok s t \<longleftrightarrow>
     (case lt_prior (lk_tasks s ! t) of
        None \<Rightarrow> \<forall>i<t. key_of s i = key_of s t \<longrightarrow> fin s i
      | Some j \<Rightarrow> j < t \<and> key_of s j = key_of s t \<and> (\<forall>i<t. j < i \<longrightarrow> key_of s i \<noteq> key_of s t))"

definition chain_ok :: "'a lock_state \<Rightarrow> string \<Rightarrow> bool" where
  "chain_ok s k \<longleftrightarrow>
     (case lk_chains s k of
        None \<Rightarrow> \<forall>i<length (lk_tasks s). key_of s i = k \<longrightarrow> fin s i
      | Some t \<Rightarrow> t < length (lk_tasks s) \<and> key_of s t = k \<and> \<not> fin s t \<and>
          (\<forall>i<length (lk_tasks s). t < i \<longrightarrow> key_of s i \<noteq> k))"

definition lock_inv :: "'a lock_state \<Rightarrow> bool" where
  "lock_inv s \<longleftrightarrow>
     (\<forall>t<length (lk_tasks s). prior_ok s t \<and>
        (lt_phase (lk_tasks s ! t) \<noteq> Waiting \<longrightarrow> (\<forall>i<t. key_of s i = key_of s t \<longrightarrow> fin s i))) \<and>
     (\<forall>k. chain_ok s k)"

lemma chained_settled_iff:
  assumes "lock_inv s" and "t < length (lk_tasks s)"
  shows "chained_settled (lk_tasks s) t \<longleftrightarrow> (\<forall>i\<le>t. key_of s i = key_of s t \<longrightarrow> fin s i)"
  using assms(2)
proof (induction t rule: less_induct)
  case (less t)
  have ok: "prior_ok s t" using assms(1) less.prems by (simp add: lock_inv_def)
  show ?case
  proof (cases "lt_prior (lk_tasks s ! t)")
    case None
    with ok show ?thesis by (subst chained_settled.simps) (auto simp: prior_ok_def le_less)
  next
    case (Some j)
    with ok have j: "j < t" "key_of s j = key_of s t" and gap: "\<forall>i<t. j < i \<longrightarrow> key_of s i \<noteq> key_of s t"
      by (simp_all add: prior_ok_def)
    have "chained_settled (lk_tasks s) j \<longleftrightarrow> (\<forall>i\<le>j. key_of s i = key_of s t \<longrightarrow> fin s i)"
      using less.IH [OF j(1)] j less.prems by simp
    moreover have "(\<forall>i\<le>j. key_of s i = key_of s t \<longrightarrow> fin s i) \<longleftrightarrow> (\<forall>i<t. key_of s i = key_of s t \<longrightarrow> fin s i)"
      using j(1) gap by (meson le_less_trans not_le)
    ultimately show ?thesis
      using Some j(1) by (subst chained_settled.simps) (auto simp: le_less)
  qed
qed

lemma prior_settled_iff:
  assumes "lock_inv s" and "t < length (lk_tasks s)"
  shows "prior_settled (lk_tasks s) t \<longleftrightarrow> (\<forall>i<t. key_of s i = key_of s t \<longrightarrow> fin s i)"
proof (cases "lt_prior (lk_tasks s ! t)")
  case None
  moreover have "prior_ok s t" using assms by (simp add: lock_inv_def)
  ultimately show ?thesis by (simp add: prior_ok_def prior_settled_def)
next
  case (Some j)
  moreover have "prior_ok s t" using assms by (simp add: lock_inv_def)
  ultimately have j: "j < t" "key_of s j = key_of s t" and gap: "\<forall>i<t. j < i \<longrightarrow> key_of s i \<noteq> key_of s t"
    by (simp_all add: prior_ok_def)
  have "prior_settled (lk_tasks s) t \<longleftrightarrow> (\<forall>i\<le>j. key_of s i = key_of s t \<longrightarrow> fin s i)"
    using Some chained_settled_iff [OF assms(1), of j] j assms(2) by (simp add: prior_settled_def)
  also have "\<dots> \<longleftrightarrow> (\<forall>i<t. key_of s i = key_of s t \<longrightarrow> fin s i)"
    using j(1) gap by (meson le_less_trans not_le)
  finally show ?thesis .
qed


lemma lock_invD:
  assumes "lock_inv s" and "t < length (lk_tasks s)"
  shows "prior_ok s t"
    and "lt_phase (lk_tasks s ! t) \<noteq> Waiting \<Longrightarrow> i < t \<Longrightarrow> key_of s i = key_of s t \<Longrightarrow> fin s i"
  using assms by (simp_all add: lock_inv_def)

lemma lock_inv_chain: "lock_inv s \<Longrightarrow> chain_ok s k"
  by (simp add: lock_inv_def)

lemma set_phase_simps [simp]:
  "length (lk_tasks (set_phase t p s)) = length (lk_tasks s)"
  "lk_chains (set_phase t p s) = lk_chains s"
  "lt_key (lk_tasks (set_phase t p s) ! i) = lt_key (lk_tasks s ! i)"
  "lt_prior (lk_tasks (set_phase t p s) ! i) = lt_prior (lk_tasks s ! i)"
  "t < length (lk_tasks s) \<Longrightarrow> lt_phase (lk_tasks (set_phase t p s) ! i) = (if i = t then p else lt_phase (lk_tasks s ! i))"
proof -
  show "length (lk_tasks (set_phase t p s)) = length (lk_tasks s)" "lk_chains (set_phase t p s) = lk_chains s"
    by (simp_all add: set_phase_def)
  show "t < length (lk_tasks s) \<Longrightarrow> lt_phase (lk_tasks (set_phase t p s) ! i) = (if i = t then p else lt_phase (lk_tasks s ! i))"
    by (simp add: set_phase_def nth_list_update)
  have "lk_tasks (set_phase t p s) ! i = (if i = t \<and> t < length (lk_tasks s) then (lk_tasks s ! t)\<lparr>lt_phase := p\<rparr> else lk_tasks s ! i)"
    by (cases "t < length (lk_tasks s)") (simp_all add: set_phase_def nth_list_update list_update_beyond)
  then show "lt_key (lk_tasks (set_phase t p s) ! i) = lt_key (lk_tasks s ! i)"
    "lt_prior (lk_tasks (set_phase t p s) ! i) = lt_prior (lk_tasks s ! i)"
    by simp_all
qed

lemma lock_inv_init: "lock_inv lock_init"
  by (simp add: lock_inv_def lock_init_def chain_ok_def)

lemma lock_inv_call:
  assumes inv: "lock_inv s"
  shows "lock_inv (snd (withPathLock key s))"
proof -
  let ?n = "length (lk_tasks s)"
  define s' where "s' = snd (withPathLock key s)"
  have old: "lk_tasks s' ! i = lk_tasks s ! i" if "i < ?n" for i
    using that by (simp add: s'_def withPathLock_def Let_def nth_append)
  have new: "lk_tasks s' ! ?n = \<lparr>lt_key = key, lt_prior = lk_chains s key, lt_phase = Waiting\<rparr>"
    and len: "length (lk_tasks s') = Suc ?n" and ch: "lk_chains s' = (lk_chains s)(key := Some ?n)"
    by (simp_all add: s'_def withPathLock_def Let_def)
  have "prior_ok s' t" if "t < Suc ?n" for t
  proof (cases "t = ?n")
    case True
    then show ?thesis
      using lock_inv_chain [OF inv, of key] by (auto simp: prior_ok_def chain_ok_def new old split: option.splits)
  next
    case False
    then have t: "t < ?n" using that by simp
    show ?thesis
      using lock_invD(1) [OF inv t] t by (auto simp: prior_ok_def old split: option.splits)
  qed
  moreover have "\<forall>i<t. key_of s' i = key_of s' t \<longrightarrow> fin s' i" if "t < Suc ?n" "lt_phase (lk_tasks s' ! t) \<noteq> Waiting" for t
    using lock_invD(2) [OF inv, of t] that by (cases "t = ?n") (auto simp: new old)
  moreover have "chain_ok s' k" for k
  proof (cases "k = key")
    case True
    then show ?thesis by (simp add: chain_ok_def ch len new)
  next
    case False
    then show ?thesis
      using lock_inv_chain [OF inv, of k]
      by (auto simp: chain_ok_def ch len old less_Suc_eq new split: option.splits)
  qed
  ultimately show ?thesis by (simp add: lock_inv_def len flip: s'_def)
qed

text \<open>Finishing tasks keeps the conditions on the promises.\<close>

lemma prior_ok_mono:
  assumes "prior_ok s t"
    and "\<And>i. lt_key (lk_tasks s' ! i) = lt_key (lk_tasks s ! i)" "\<And>i. lt_prior (lk_tasks s' ! i) = lt_prior (lk_tasks s ! i)"
    and "\<And>i. i < t \<Longrightarrow> fin s i \<Longrightarrow> fin s' i"
  shows "prior_ok s' t"
  using assms by (auto simp: prior_ok_def split: option.splits)

lemma lock_inv_enter:
  assumes inv: "lock_inv s" and c: "can_enter t s"
  shows "lock_inv (set_phase t Running s)"
proof -
  have t: "t < length (lk_tasks s)" "lt_phase (lk_tasks s ! t) = Waiting" "prior_settled (lk_tasks s) t"
    using c by (simp_all add: can_enter_def)
  then have first: "\<forall>i<t. key_of s i = key_of s t \<longrightarrow> fin s i"
    using prior_settled_iff [OF inv t(1)] by simp
  have fin: "fin (set_phase t Running s) i = fin s i" for i
    using t by auto
  have "prior_ok (set_phase t Running s) i" if "i < length (lk_tasks s)" for i
    using lock_invD(1) [OF inv that] by (rule prior_ok_mono) (simp, simp, simp only: fin)
  moreover have "fin (set_phase t Running s) i"
    if "j < length (lk_tasks s)" "lt_phase (lk_tasks (set_phase t Running s) ! j) \<noteq> Waiting" "i < j" "key_of s i = key_of s j" for i j
    using lock_invD(2) [OF inv that(1) _ that(3,4)] first that unfolding fin by (cases "j = t") (simp_all add: t)
  moreover have "chain_ok (set_phase t Running s) k" for k
    using lock_inv_chain [OF inv, of k] by (auto simp: chain_ok_def fin split: option.splits)
  ultimately show ?thesis by (simp add: lock_inv_def)
qed

lemma release_simps:
  assumes "t < length (lk_tasks s)"
  shows "lk_tasks (release t r s) = lk_tasks (set_phase t (Settled r) s)"
    and "lk_chains (release t r s) = (if lk_chains s (key_of s t) = Some t then (lk_chains s)(key_of s t := None) else lk_chains s)"
  by (simp_all add: release_def Let_def)

lemma lock_inv_release:
  assumes inv: "lock_inv s" and c: "can_leave t s"
  shows "lock_inv (release t r s)"
proof -
  have t: "t < length (lk_tasks s)" "lt_phase (lk_tasks s ! t) = Running"
    using c by (simp_all add: can_leave_def)
  have first: "fin s i" if "i < t" "key_of s i = key_of s t" for i
    using lock_invD(2) [OF inv t(1) _ that] t by simp
  note tasks = release_simps(1) [OF t(1), of r]
  have fin: "fin (release t r s) i \<longleftrightarrow> i = t \<or> fin s i" for i
    using t by (auto simp: tasks)
  have key: "key_of (release t r s) i = key_of s i" and prior: "lt_prior (lk_tasks (release t r s) ! i) = lt_prior (lk_tasks s ! i)"
    and len: "length (lk_tasks (release t r s)) = length (lk_tasks s)" for i
    by (simp_all add: tasks)
  have "prior_ok (release t r s) i" if "i < length (lk_tasks s)" for i
    using lock_invD(1) [OF inv that] by (rule prior_ok_mono) (auto simp only: fin key prior)
  moreover have "fin (release t r s) i"
    if "j < length (lk_tasks s)" "lt_phase (lk_tasks (release t r s) ! j) \<noteq> Waiting" "i < j" "key_of s i = key_of s j" for i j
    using lock_invD(2) [OF inv that(1) _ that(3,4)] first that unfolding fin by (cases "j = t") (simp_all add: t tasks)
  moreover have "chain_ok (release t r s) k" for k
  proof (cases "lk_chains s k = Some t")
    case True
    then have k: "key_of s t = k" "\<forall>i<length (lk_tasks s). t < i \<longrightarrow> key_of s i \<noteq> k"
      using lock_inv_chain [OF inv, of k] by (simp_all add: chain_ok_def)
    have "fin s i" if "i < length (lk_tasks s)" "key_of s i = k" "i \<noteq> t" for i
      using first [of i] k that by (meson linorder_neqE_nat)
    with True k show ?thesis by (auto simp: chain_ok_def release_simps(2) [OF t(1)] fin key len)
  next
    case False
    then have "lk_chains (release t r s) k = lk_chains s k" by (auto simp: release_simps(2) [OF t(1)])
    with False lock_inv_chain [OF inv, of k] show ?thesis
      by (auto simp: chain_ok_def fin key len split: option.splits)
  qed
  ultimately show ?thesis by (simp add: lock_inv_def key len)
qed

interpretation path_lock: invariant_system lock_step lock_inv
proof
  fix s s' :: "'a lock_state"
  assume inv: "lock_inv s" and step: "lock_step s s'"
  from step show "lock_inv s'"
    by (cases rule: lock_step.cases)
      (auto elim!: drain_step.cases intro: lock_inv_call lock_inv_enter lock_inv_release simp: inv)
qed

lemma lock_reachable: "lock_step\<^sup>*\<^sup>* lock_init s \<Longrightarrow> lock_inv s"
  using path_lock.run_inv lock_inv_init by blast


section \<open>The lock implements the queue\<close>

lemma queue_eq: "queue_of s = (\<lambda>k. (pending_of s k, case pending_of s k of [] \<Rightarrow> False | t # _ \<Rightarrow> lt_phase (lk_tasks s ! t) = Running))"
  by (simp add: queue_of_def Let_def fun_eq_iff)

lemma pending_set: "t \<in> set (pending_of s k) \<longleftrightarrow> t < length (lk_tasks s) \<and> key_of s t = k \<and> \<not> fin s t"
  by (auto simp: pending_of_def)

lemma pending_head:
  assumes "t < length (lk_tasks s)" and "\<not> fin s t" and "\<And>i. i < t \<Longrightarrow> key_of s i = key_of s t \<Longrightarrow> fin s i"
  obtains ts where "pending_of s (key_of s t) = t # ts" "\<forall>u \<in> set ts. t < u"
proof -
  have "[0..<length (lk_tasks s)] = [0..<t] @ t # [Suc t..<length (lk_tasks s)]"
    using assms(1) upt_add_eq_append [of 0 t "length (lk_tasks s) - t"] by (simp add: upt_conv_Cons)
  moreover have "filter (\<lambda>i. key_of s i = key_of s t \<and> \<not> fin s i) [0..<t] = []"
    using assms(3) by (auto simp: filter_empty_conv)
  ultimately have "pending_of s (key_of s t) =
      t # filter (\<lambda>i. key_of s i = key_of s t \<and> \<not> fin s i) [Suc t..<length (lk_tasks s)]"
    using assms(2) by (simp add: pending_of_def)
  then show ?thesis by (rule that) auto
qed

lemma pending_call:
  "pending_of (snd (withPathLock key s)) k = pending_of s k @ (if k = key then [length (lk_tasks s)] else [])"
  by (auto simp: pending_of_def withPathLock_def Let_def nth_append intro!: filter_cong)

lemma call_enqueues:
  assumes "lock_inv s"
  shows "queue_step (queue_of s) (queue_of (snd (withPathLock key s)))"
proof -
  let ?s = "snd (withPathLock key s)" and ?n = "length (lk_tasks s)"
  have old: "lk_tasks ?s ! i = lk_tasks s ! i" if "i \<in> set (pending_of s k)" for i k
    using that by (simp add: withPathLock_def Let_def nth_append pending_set)
  have new: "lt_phase (lk_tasks ?s ! ?n) = Waiting" by (simp add: withPathLock_def Let_def)
  have "queue_of ?s = (queue_of s)(key := (pending_of s key @ [?n], snd (queue_of s key)))"
  proof
    fix k
    show "queue_of ?s k = ((queue_of s)(key := (pending_of s key @ [?n], snd (queue_of s key)))) k"
      using old [of _ k] new by (cases "pending_of s k") (auto simp: queue_eq pending_call)
  qed
  moreover have "queue_of s key = (pending_of s key, snd (queue_of s key))" by (simp add: queue_eq)
  ultimately show ?thesis using queue_step.enqueue by metis
qed

lemma enter_acquires:
  assumes inv: "lock_inv s" and c: "can_enter t s"
  shows "queue_step (queue_of s) (queue_of (set_phase t Running s))"
proof -
  let ?k = "key_of s t"
  have t: "t < length (lk_tasks s)" "lt_phase (lk_tasks s ! t) = Waiting" "prior_settled (lk_tasks s) t"
    using c by (simp_all add: can_enter_def)
  obtain ts where ts: "pending_of s ?k = t # ts"
    by (rule pending_head [of t s]) (use t prior_settled_iff [OF inv t(1)] in auto)
  have same: "pending_of (set_phase t Running s) k = pending_of s k" for k
    unfolding pending_of_def using t by (intro filter_cong) auto
  have other: "t \<notin> set (pending_of s k)" if "k \<noteq> ?k" for k using that by (simp add: pending_set)
  have "queue_of (set_phase t Running s) = (queue_of s)(?k := (t # ts, True))"
  proof
    fix k
    show "queue_of (set_phase t Running s) k = ((queue_of s)(?k := (t # ts, True))) k"
      using t ts other [of k] by (cases "pending_of s k") (auto simp: queue_eq same)
  qed
  moreover have "queue_of s ?k = (t # ts, False)" using t ts by (simp add: queue_eq)
  ultimately show ?thesis using queue_step.acquire by metis
qed

lemma release_dequeues:
  assumes inv: "lock_inv s" and c: "can_leave t s"
  shows "queue_step (queue_of s) (queue_of (release t r s))"
proof -
  let ?k = "key_of s t" and ?s = "release t r s"
  have t: "t < length (lk_tasks s)" "lt_phase (lk_tasks s ! t) = Running"
    using c by (simp_all add: can_leave_def)
  have first: "fin s i" if "i < t" "key_of s i = ?k" for i
    using lock_invD(2) [OF inv t(1) _ that] t by simp
  obtain ts where ts: "pending_of s ?k = t # ts" "\<forall>u \<in> set ts. t < u"
    by (rule pending_head [of t s]) (use t first in auto)
  note tasks = release_simps(1) [OF t(1), of r]
  have pend: "pending_of ?s k = filter (\<lambda>u. u \<noteq> t) (pending_of s k)" for k
    unfolding pending_of_def filter_filter tasks set_phase_simps
    using t by (intro filter_cong) auto
  have key: "pending_of ?s ?k = ts"
    using ts(2) by (auto simp: pend ts(1) intro!: filter_True)
  have other: "pending_of ?s k = pending_of s k" "t \<notin> set (pending_of s k)" if "k \<noteq> ?k" for k
    unfolding pend using that by (auto simp: pending_set intro!: filter_True)
  have waiting: "lt_phase (lk_tasks ?s ! u) \<noteq> Running" if "u \<in> set ts" for u
  proof -
    have u: "u < length (lk_tasks s)" "key_of s u = ?k" "t < u"
      using that ts pending_set [of u s ?k] by auto
    then have "lt_phase (lk_tasks s ! u) = Waiting"
      using lock_invD(2) [OF inv u(1) _ u(3)] t by auto
    with u t show ?thesis by (simp add: tasks)
  qed
  have "queue_of ?s k = ((queue_of s)(?k := (ts, False))) k" for k
  proof (cases "k = ?k")
    case True
    then show ?thesis using waiting by (simp add: queue_eq key split: list.split)
  next
    case False
    have "lt_phase (lk_tasks ?s ! u) = lt_phase (lk_tasks s ! u)" if "u \<noteq> t" for u
      using that t by (simp add: tasks)
    with False other [OF False] show ?thesis by (auto simp: queue_eq split: list.split)
  qed
  then have "queue_of ?s = (queue_of s)(?k := (ts, False))" by blast
  moreover have "queue_of s ?k = (t # ts, True)" using t ts by (simp add: queue_eq)
  ultimately show ?thesis using queue_step.dequeue by metis
qed

section \<open>Nothing waits forever\<close>

text \<open>The steps a state still has to make when no one calls any more.\<close>

fun phase_work :: "'a phase \<Rightarrow> nat" where
  "phase_work Waiting = 2"
| "phase_work Running = 1"
| "phase_work (Settled _) = 0"

definition lock_work :: "'a lock_state \<Rightarrow> nat" where
  "lock_work s = sum_list (map (\<lambda>t. phase_work (lt_phase t)) (lk_tasks s))"

lemma sum_list_map_update:
  "t < length xs \<Longrightarrow> sum_list (map f (xs[t := y])) + f (xs ! t) = sum_list (map f xs) + (f y :: nat)"
  by (induction xs arbitrary: t) (auto split: nat.split)

lemma set_phase_work:
  assumes "t < length (lk_tasks s)"
  shows "lock_work (set_phase t p s) + phase_work (lt_phase (lk_tasks s ! t)) = lock_work s + phase_work p"
  using sum_list_map_update [OF assms, of "\<lambda>t. phase_work (lt_phase t)" "(lk_tasks s ! t)\<lparr>lt_phase := p\<rparr>"]
  by (simp add: lock_work_def set_phase_def)

lemma drain_step_work: "drain_step s s' \<Longrightarrow> lock_work s = Suc (lock_work s')"
proof (induction rule: drain_step.induct)
  case (enter t s)
  then show ?case using set_phase_work [of t s Running] by (simp add: can_enter_def)
next
  case (leave t s r)
  then have "lock_work (release t r s) = lock_work (set_phase t (Settled r) s)"
    by (simp add: can_leave_def release_simps lock_work_def)
  then show ?case using leave set_phase_work [of t s "Settled r"] by (simp add: can_leave_def)
qed

lemma drain_possible:
  assumes inv: "lock_inv s" and t: "t < length (lk_tasks s)" "\<not> fin s t"
  shows "\<exists>s'. drain_step s s'"
proof -
  define u where "u = (LEAST i. key_of s i = key_of s t \<and> \<not> fin s i)"
  have u: "key_of s u = key_of s t" "\<not> fin s u" "u \<le> t"
    unfolding u_def using t by (metis (mono_tags, lifting) LeastI, metis (mono_tags, lifting) LeastI, metis (mono_tags, lifting) Least_le)
  have first: "fin s i" if "i < u" "key_of s i = key_of s u" for i
    using not_less_Least that u(1) unfolding u_def by fastforce
  have len: "u < length (lk_tasks s)" using u(3) t(1) by simp
  show ?thesis
  proof (cases "lt_phase (lk_tasks s ! u)")
    case Waiting
    then have "can_enter u s" using len first prior_settled_iff [OF inv len] by (simp add: can_enter_def)
    then show ?thesis by (blast intro: drain_step.enter)
  next
    case Running
    then have "can_leave u s" using len by (simp add: can_leave_def)
    then show ?thesis by (blast intro: drain_step.leave)
  next
    case (Settled r)
    then show ?thesis using u(2) by simp
  qed
qed


lemma drain_keeps_inv: "drain_step\<^sup>*\<^sup>* s s' \<Longrightarrow> lock_inv s \<Longrightarrow> lock_inv s'"
proof (induction rule: rtranclp_induct)
  case (step y z)
  then show ?case using path_lock.step_inv lock_step.drain by blast
qed

lemma drained_chains:
  assumes "lock_inv s" and "\<forall>t<length (lk_tasks s). fin s t"
  shows "lk_chains s = (\<lambda>_. None)"
proof
  fix k
  show "lk_chains s k = None"
    using lock_inv_chain [OF assms(1), of k] assms(2) by (auto simp: chain_ok_def split: option.splits)
qed

section \<open>Functions that wait for calls of their own\<close>

lemma nested_drains: "nested_step awaits s s' \<Longrightarrow> drain_step s s'"
  by (cases rule: nested_step.cases) (auto intro: drain_step.intros)

text \<open>Every call that is waited for takes a key of a smaller rank, as the path locks inside a node's sync lock.\<close>

definition ranked :: "(string \<Rightarrow> nat) \<Rightarrow> (nat \<Rightarrow> nat list) \<Rightarrow> 'a lock_state \<Rightarrow> bool" where
  "ranked rank awaits s \<longleftrightarrow>
     (\<forall>t<length (lk_tasks s). list_all (\<lambda>u. u < length (lk_tasks s) \<and> rank (key_of s u) < rank (key_of s t)) (awaits t))"

lemma drain_frame:
  "drain_step s s' \<Longrightarrow> length (lk_tasks s') = length (lk_tasks s) \<and> (\<forall>t. key_of s' t = key_of s t)"
  by (cases rule: drain_step.cases) (auto simp: can_leave_def release_simps)

lemma ranked_frame: "drain_step s s' \<Longrightarrow> ranked rank awaits s' = ranked rank awaits s"
  using drain_frame [of s s'] by (simp add: ranked_def)

lemma nested_possible:
  assumes inv: "lock_inv s" and rk: "ranked rank awaits s" and t: "t < length (lk_tasks s)" "\<not> fin s t"
  shows "\<exists>s'. nested_step awaits s s'"
  using t
proof (induction "rank (key_of s t)" arbitrary: t rule: less_induct)
  case less
  define u where "u = (LEAST i. key_of s i = key_of s t \<and> \<not> fin s i)"
  have u: "key_of s u = key_of s t" "\<not> fin s u" "u \<le> t"
    unfolding u_def using less.prems
    by (metis (mono_tags, lifting) LeastI, metis (mono_tags, lifting) LeastI, metis (mono_tags, lifting) Least_le)
  have first: "fin s i" if "i < u" "key_of s i = key_of s u" for i
    using not_less_Least that u(1) unfolding u_def by fastforce
  have len: "u < length (lk_tasks s)" using u(3) less.prems(1) by simp
  show ?case
  proof (cases "lt_phase (lk_tasks s ! u)")
    case Waiting
    then have "can_enter u s" using len first prior_settled_iff [OF inv len] by (simp add: can_enter_def)
    then show ?thesis by (blast intro: nested_step.nested_enter)
  next
    case Running
    then have leave: "can_leave u s" using len by (simp add: can_leave_def)
    show ?thesis
    proof (cases "awaited_settled awaits u s")
      case True
      then show ?thesis using leave by (blast intro: nested_step.nested_leave)
    next
      case False
      then obtain v where v: "v \<in> set (awaits u)" "\<not> (v < length (lk_tasks s) \<and> fin s v)"
        by (auto simp: awaited_settled_def list_all_iff)
      then have r: "v < length (lk_tasks s)" "rank (key_of s v) < rank (key_of s t)"
        using rk len u(1) by (auto simp: ranked_def list_all_iff)
      show ?thesis using less.hyps [OF r(2,1)] v(2) r(1) by blast
    qed
  next
    case (Settled r)
    then show ?thesis using u(2) by simp
  qed
qed

lemma nested_runs_out:
  "lock_inv s \<Longrightarrow> ranked rank awaits s \<Longrightarrow>
     \<exists>s'. (nested_step awaits)\<^sup>*\<^sup>* s s' \<and> (\<forall>t<length (lk_tasks s'). fin s' t) \<and> length (lk_tasks s') = length (lk_tasks s)"
proof (induction "lock_work s" arbitrary: s)
  case 0
  have "fin s t" if "t < length (lk_tasks s)" for t
  proof (rule ccontr)
    assume "\<not> fin s t"
    with drain_possible [OF 0(2) that] obtain s' where "drain_step s s'" by blast
    with drain_step_work [OF this] 0(1) show False by simp
  qed
  then show ?case by blast
next
  case (Suc n)
  show ?case
  proof (cases "\<forall>t<length (lk_tasks s). fin s t")
    case True
    then show ?thesis by blast
  next
    case False
    then obtain s1 where s1: "nested_step awaits s s1" using nested_possible [OF Suc.prems] by blast
    note d = nested_drains [OF s1]
    have "n = lock_work s1" using drain_step_work [OF d] Suc.hyps(2) by simp
    moreover have "lock_inv s1" using drain_keeps_inv [of s s1] d Suc.prems(1) by blast
    moreover have "ranked rank awaits s1" using Suc.prems(2) by (simp add: ranked_frame [OF d])
    ultimately show ?thesis
      using Suc.hyps(1) [of s1] s1 drain_frame [OF d] by (metis converse_rtranclp_into_rtranclp)
  qed
qed

lemma nested_keeps_inv: "(nested_step awaits)\<^sup>*\<^sup>* s s' \<Longrightarrow> lock_inv s \<Longrightarrow> lock_inv s'"
proof -
  assume "(nested_step awaits)\<^sup>*\<^sup>* s s'" "lock_inv s"
  moreover from this(1) have "drain_step\<^sup>*\<^sup>* s s'" by (rule rtranclp_mono [THEN predicate2D, rotated]) (auto dest: nested_drains)
  ultimately show "lock_inv s'" by (blast intro: drain_keeps_inv)
qed

text \<open>A function that waits for a later call on its own key.\<close>

definition stuck_pair :: "(nat \<Rightarrow> nat list) \<Rightarrow> nat \<Rightarrow> nat \<Rightarrow> 'a lock_state \<Rightarrow> bool" where
  "stuck_pair awaits t u s \<longleftrightarrow>
     t < u \<and> u < length (lk_tasks s) \<and> u \<in> set (awaits t) \<and> key_of s u = key_of s t \<and>
     lt_phase (lk_tasks s ! t) = Running \<and> lt_phase (lk_tasks s ! u) = Waiting"

lemma stuck_step:
  assumes inv: "lock_inv s" and st: "stuck_pair awaits t u s" and step: "nested_lock_step awaits s s'"
  shows "stuck_pair awaits t u s'"
  using step
proof (cases rule: nested_lock_step.cases)
  case (nested_call key)
  then show ?thesis using st by (auto simp: stuck_pair_def withPathLock_def Let_def nth_append)
next
  case nested_drain
  then show ?thesis
  proof (cases rule: nested_step.cases)
    case (nested_enter v)
    have "v \<noteq> u"
      using st nested_enter(2) prior_settled_iff [OF inv, of u] by (auto simp: stuck_pair_def can_enter_def)
    then show ?thesis using st nested_enter by (auto simp: stuck_pair_def can_enter_def)
  next
    case (nested_leave v r)
    have "v \<noteq> t"
      using st nested_leave(3) by (auto simp: stuck_pair_def awaited_settled_def list_all_iff)
    moreover have "v \<noteq> u" using st nested_leave(2) by (auto simp: stuck_pair_def can_leave_def)
    ultimately show ?thesis using st nested_leave by (auto simp: stuck_pair_def can_leave_def release_simps)
  qed
qed

lemma stuck_run:
  "(nested_lock_step awaits)\<^sup>*\<^sup>* s s' \<Longrightarrow> lock_inv s \<Longrightarrow> stuck_pair awaits t u s \<Longrightarrow> lock_inv s' \<and> stuck_pair awaits t u s'"
proof (induction rule: rtranclp_induct)
  case (step y z)
  then have y: "lock_inv y" "stuck_pair awaits t u y" by blast+
  have "lock_step y z"
    using step.hyps(2) by (auto elim!: nested_lock_step.cases intro: lock_step.intros dest: nested_drains)
  then show ?case using stuck_step [OF y step.hyps(2)] path_lock.step_inv [OF y(1)] by blast
qed simp

lemma running_is_head:
  assumes inv: "lock_inv s" and t: "t < length (lk_tasks s)" "lt_phase (lk_tasks s ! t) = Running"
  shows "\<exists>ts. queue_of s (key_of s t) = (t # ts, True)"
proof -
  obtain ts where "pending_of s (key_of s t) = t # ts"
    by (rule pending_head [of t s]) (use t lock_invD(2) [OF inv t(1)] in auto)
  then show ?thesis using t by (simp add: queue_eq)
qed

lemma lock_exclusive:
  assumes "lock_inv s" and "t < length (lk_tasks s)" "lt_phase (lk_tasks s ! t) = Running"
    and "u < length (lk_tasks s)" "lt_phase (lk_tasks s ! u) = Running" and "key_of s t = key_of s u"
  shows "t = u"
proof -
  obtain ts us where "queue_of s (key_of s t) = (t # ts, True)" "queue_of s (key_of s u) = (u # us, True)"
    using running_is_head [OF assms(1-3)] running_is_head [OF assms(1,4,5)] by blast
  then show ?thesis unfolding assms(6) by simp
qed

section \<open>Properties\<close>

text \<open>A run of the lock: two calls on one key and one on another; the first holder fails.\<close>

definition sample_calls :: "nat lock_state" where
  "sample_calls = snd (withPathLock ''p'' (snd (withPathLock ''q'' (snd (withPathLock ''p'' lock_init)))))"

definition sample_held :: "nat lock_state" where
  "sample_held = set_phase 0 Running sample_calls"

lemma sample_calls_run: "lock_step\<^sup>*\<^sup>* lock_init sample_calls"
proof -
  have "lock_step\<^sup>*\<^sup>* lock_init s \<Longrightarrow> lock_step\<^sup>*\<^sup>* lock_init (snd (withPathLock key s))" for key :: string and s :: "nat lock_state"
    by (erule rtranclp.rtrancl_into_rtrancl) (rule lock_step.call)
  then show ?thesis unfolding sample_calls_def by simp
qed

lemma sample_can_enter: "can_enter 0 sample_calls" by code_simp

lemma sample_held_run: "lock_step\<^sup>*\<^sup>* lock_init sample_held"
  unfolding sample_held_def
  by (rule rtranclp.rtrancl_into_rtrancl [OF sample_calls_run lock_step.drain [OF drain_step.enter [OF sample_can_enter]]])

text \<open>
  C24: the promise chains implement a queue per key.  Whatever has happened before, a call goes to the
  end of its key's queue, a function starts only when its call is the first of its queue and no
  other runs, and a function that settles, with a value or an error, leaves the queue to the next
  call; what runs under a key is always the first of its queue, so never two functions at a time.
\<close>

theorem lock_refines_queue:
  assumes "lock_step\<^sup>*\<^sup>* lock_init s" and "lock_step s s'"
  shows "queue_step (queue_of s) (queue_of s') \<and>
         (\<forall>t<length (lk_tasks s'). lt_phase (lk_tasks s' ! t) = Running \<longrightarrow>
            (\<exists>ts. queue_of s' (lt_key (lk_tasks s' ! t)) = (t # ts, True)))"
proof
  have inv: "lock_inv s" by (rule lock_reachable [OF assms(1)])
  from assms(2) show "queue_step (queue_of s) (queue_of s')"
    by (cases rule: lock_step.cases)
      (auto elim!: drain_step.cases intro: call_enqueues [OF inv] enter_acquires [OF inv] release_dequeues [OF inv])
  show "\<forall>t<length (lk_tasks s'). lt_phase (lk_tasks s' ! t) = Running \<longrightarrow>
      (\<exists>ts. queue_of s' (lt_key (lk_tasks s' ! t)) = (t # ts, True))"
    using running_is_head [OF path_lock.step_inv [OF inv assms(2)]] by blast
qed

theorem lock_refines_queue_witness:
  "queue_step (queue_of sample_calls) (queue_of sample_held) \<and> queue_of sample_held ''p'' = ([0, 2], True)"
proof
  show "queue_step (queue_of sample_calls) (queue_of sample_held)"
    by (rule lock_refines_queue [THEN conjunct1, OF sample_calls_run])
      (unfold sample_held_def, rule lock_step.drain, rule drain_step.enter, rule sample_can_enter)
  show "queue_of sample_held ''p'' = ([0, 2], True)" by code_simp
qed

text \<open>
  C25: no call waits forever, when functions that wait for calls of their own take the keys in one order.  Say
  that a function settles only after the calls it waits for, and that these take keys of a smaller rank than its own, so
  never its own key again.  In every reachable state in which a call has not finished, a step that
  starts or finishes a function is possible; each such step brings the end one step nearer; and
  the calls of every reachable state can run to their end, which leaves no entry in the map.
\<close>

theorem lock_progress:
  assumes "lock_step\<^sup>*\<^sup>* lock_init s"
    and "\<And>t u. t < length (lk_tasks s) \<Longrightarrow> u \<in> set (awaits t) \<Longrightarrow>
           u < length (lk_tasks s) \<and> rank (lt_key (lk_tasks s ! u)) < (rank (lt_key (lk_tasks s ! t)) :: nat)"
  shows "(\<exists>t<length (lk_tasks s). \<not> settled (lt_phase (lk_tasks s ! t))) = (\<exists>s'. nested_step awaits s s') \<and>
         (\<forall>s'. nested_step awaits s s' \<longrightarrow> lock_work s = Suc (lock_work s')) \<and>
         (\<exists>s'. (nested_step awaits)\<^sup>*\<^sup>* s s' \<and> length (lk_tasks s') = length (lk_tasks s) \<and>
            (\<forall>t<length (lk_tasks s'). settled (lt_phase (lk_tasks s' ! t))) \<and> lk_chains s' = (\<lambda>_. None))"
proof (intro conjI)
  have inv: "lock_inv s" by (rule lock_reachable [OF assms(1)])
  have rk: "ranked rank awaits s" using assms(2) by (simp add: ranked_def list_all_iff)
  show "(\<exists>t<length (lk_tasks s). \<not> fin s t) = (\<exists>s'. nested_step awaits s s')"
    using nested_possible [OF inv rk] by (auto elim!: nested_step.cases simp: can_enter_def can_leave_def)
  show "\<forall>s'. nested_step awaits s s' \<longrightarrow> lock_work s = Suc (lock_work s')"
    by (blast intro: drain_step_work nested_drains)
  from nested_runs_out [OF inv rk] obtain s' where s': "(nested_step awaits)\<^sup>*\<^sup>* s s'" "\<forall>t<length (lk_tasks s'). fin s' t"
    "length (lk_tasks s') = length (lk_tasks s)" by blast
  moreover have "lk_chains s' = (\<lambda>_. None)"
    by (rule drained_chains [OF nested_keeps_inv [OF s'(1) inv] s'(2)])
  ultimately show "\<exists>s'. (nested_step awaits)\<^sup>*\<^sup>* s s' \<and> length (lk_tasks s') = length (lk_tasks s) \<and>
      (\<forall>t<length (lk_tasks s'). fin s' t) \<and> lk_chains s' = (\<lambda>_. None)" by blast
qed

text \<open>The holder of one key waits for the holder of another.\<close>

definition sample_awaits :: "nat \<Rightarrow> nat list" where
  "sample_awaits t = (if t = 0 then [1] else [])"

theorem lock_progress_witness:
  "lock_work sample_held = 5 \<and> \<not> awaited_settled sample_awaits 0 sample_held \<and> (\<exists>s'. nested_step sample_awaits sample_held s')"
proof (intro conjI)
  show "lock_work sample_held = 5" "\<not> awaited_settled sample_awaits 0 sample_held" by code_simp+
  have keys: "lt_key (lk_tasks sample_held ! 0) = ''p''" "lt_key (lk_tasks sample_held ! 1) = ''q''" "length (lk_tasks sample_held) = 3"
    by code_simp+
  have ord: "u < length (lk_tasks sample_held) \<and>
      (if lt_key (lk_tasks sample_held ! u) = ''p'' then 1 else 0) < (if lt_key (lk_tasks sample_held ! t) = ''p'' then 1 else 0 :: nat)"
    if "u \<in> set (sample_awaits t)" for t u
    using that keys by (auto simp: sample_awaits_def split: if_splits)
  have "\<not> settled (lt_phase (lk_tasks sample_held ! 0)) \<and> 0 < length (lk_tasks sample_held)" by code_simp
  then show "\<exists>s'. nested_step sample_awaits sample_held s'"
    using lock_progress [THEN conjunct1, OF sample_held_run ord] by blast
qed

text \<open>
  the lock is not reentrant.  A function that runs under a key and waits for a later call on the same key
  deadlocks with it: whatever calls are made and whatever else runs, neither the function nor the call ever
  settles, nor does the function of the call ever start.
\<close>

theorem nested_same_key_deadlocks:
  assumes "lock_step\<^sup>*\<^sup>* lock_init s" and "lt_phase (lk_tasks s ! t) = Running"
    and "t < u" and "u < length (lk_tasks s)" and "lt_key (lk_tasks s ! u) = lt_key (lk_tasks s ! t)" and "u \<in> set (awaits t)"
    and "(nested_lock_step awaits)\<^sup>*\<^sup>* s s'"
  shows "lt_phase (lk_tasks s' ! t) = Running \<and> lt_phase (lk_tasks s' ! u) = Waiting"
proof -
  have inv: "lock_inv s" by (rule lock_reachable [OF assms(1)])
  have "lt_phase (lk_tasks s ! u) = Waiting"
    using lock_invD(2) [OF inv assms(4) _ assms(3)] assms(2,5) by auto
  then have "stuck_pair awaits t u s" using assms(2-6) by (simp add: stuck_pair_def)
  from stuck_run [OF assms(7) inv this] show ?thesis by (simp add: stuck_pair_def)
qed

text \<open>The other key goes on: its call starts and settles beside the deadlock of the first and the third call.\<close>

definition sample_other_done :: "nat lock_state" where
  "sample_other_done = release 1 (Inr 7) (set_phase 1 Running sample_held)"

theorem nested_same_key_deadlocks_witness:
  "lt_phase (lk_tasks sample_other_done ! 1) = Settled (Inr 7) \<and>
   lt_phase (lk_tasks sample_other_done ! 0) = Running \<and> lt_phase (lk_tasks sample_other_done ! 2) = Waiting"
proof
  let ?w = "\<lambda>t :: nat. if t = 0 then [2 :: nat] else []"
  show "lt_phase (lk_tasks sample_other_done ! 1) = Settled (Inr 7)" by code_simp
  have facts: "lt_phase (lk_tasks sample_held ! 0) = Running" "(0 :: nat) < 2" "2 < length (lk_tasks sample_held)"
    "lt_key (lk_tasks sample_held ! 2) = lt_key (lk_tasks sample_held ! 0)" "2 \<in> set (?w 0)"
    by code_simp+
  have "can_enter 1 sample_held" "can_leave 1 (set_phase 1 Running sample_held)" "awaited_settled ?w 1 (set_phase 1 Running sample_held)"
    by code_simp+
  then have "nested_lock_step ?w sample_held (set_phase 1 Running sample_held)"
    "nested_lock_step ?w (set_phase 1 Running sample_held) sample_other_done"
    unfolding sample_other_done_def by (blast intro: nested_lock_step.nested_drain nested_step.intros)+
  then have "(nested_lock_step ?w)\<^sup>*\<^sup>* sample_held sample_other_done" by (meson converse_rtranclp_into_rtranclp r_into_rtranclp)
  from nested_same_key_deadlocks [OF sample_held_run facts this]
  show "lt_phase (lk_tasks sample_other_done ! 0) = Running \<and> lt_phase (lk_tasks sample_other_done ! 2) = Waiting" .
qed

end
