(* ===== verification/SyncJobs.thy ===== *)
theory SyncJobs
  imports PathLock
begin

text \<open>
  Background sync jobs, \<^verbatim>\<open>apps/server/domain/sync/sync-jobs.ts\<close>: the job objects (a list, an object is
  its position), the map of jobs, the current job of a user, the worker pool of \<open>runJob\<close> and the
  node lock of \<open>PathLock\<close> that every worker takes around \<open>runNode\<close>.  \<open>runNode\<close> itself is a parameter:
  how it settles, with a result or an error message, is chosen by the step that ends it.  A step is a
  synchronous piece of the code; a worker is always inside \<open>await withNodeSyncLock\<close> or has
  returned.
\<close>

section \<open>Data\<close>

datatype node_status = NPending | NRunning | NDone | NError

record 'a job_node =
  jn_id :: string
  jn_status :: node_status
  jn_result :: "'a option"
  jn_error :: "string option"

datatype job_status = JRunning | JDone

text \<open>A worker inside the lock: the index of its node and the number of its lock task; or returned.\<close>

datatype worker = Busy nat nat | Exited

record 'a sync_job =
  jb_id :: string
  jb_user :: string
  jb_status :: job_status
  jb_started :: timestamp
  jb_finished :: "timestamp option"
  jb_nodes :: "'a job_node list"
  jb_cursor :: nat
  jb_workers :: "worker list"

record 'a sync_state =
  sy_lock :: "'a lock_state"
  sy_heap :: "'a sync_job list"
  sy_jobs :: "string \<Rightarrow> nat option"
  sy_current :: "string \<Rightarrow> string option"

record 'a job_summary =
  sm_id :: string
  sm_status :: job_status
  sm_started :: timestamp
  sm_finished :: "timestamp option"
  sm_total :: nat
  sm_completed :: nat
  sm_errored :: nat
  sm_nodes :: "'a job_node list"

definition sync_init :: "'a sync_state" where
  "sync_init = \<lparr>sy_lock = lock_init, sy_heap = [], sy_jobs = (\<lambda>_. None), sy_current = (\<lambda>_. None)\<rparr>"

text \<open>
  The environment variable: unset, not a number (\<open>Number\<close> gives \<open>NaN\<close>, which \<open>Math.max(1, NaN)\<close> keeps),
  or an integer.
\<close>

definition JOB_CONCURRENCY :: "int option option \<Rightarrow> nat option" where
  "JOB_CONCURRENCY env =
     (case env of None \<Rightarrow> Some 3 | Some None \<Rightarrow> None | Some (Some n) \<Rightarrow> Some (nat (max 1 n)))"

definition pending_node :: "string \<Rightarrow> 'a job_node" where
  "pending_node n = \<lparr>jn_id = n, jn_status = NPending, jn_result = None, jn_error = None\<rparr>"

fun finished_status :: "node_status \<Rightarrow> bool" where
  "finished_status NDone \<longleftrightarrow> True"
| "finished_status NError \<longleftrightarrow> True"
| "finished_status _ \<longleftrightarrow> False"

definition toSummary :: "'a sync_job \<Rightarrow> 'a job_summary" where
  "toSummary job =
     \<lparr>sm_id = jb_id job, sm_status = jb_status job, sm_started = jb_started job, sm_finished = jb_finished job,
      sm_total = length (jb_nodes job),
      sm_completed = length (filter (\<lambda>n. jn_status n = NDone \<or> jn_status n = NError) (jb_nodes job)),
      sm_errored = length (filter (\<lambda>n. jn_status n = NError) (jb_nodes job)),
      sm_nodes = jb_nodes job\<rparr>"

section \<open>The worker pool\<close>

definition node_lock_key :: "string \<Rightarrow> string" where
  "node_lock_key node_id = ''sync-node:'' @ node_id"

definition withNodeSyncLock :: "string \<Rightarrow> 'a lock_state \<Rightarrow> nat \<times> 'a lock_state" where
  "withNodeSyncLock node_id lk = withPathLock (node_lock_key node_id) lk"

text \<open>A worker's loop up to its next \<open>await\<close>: the cursor moves even when no node is left.\<close>

definition worker_next :: "'a sync_job \<Rightarrow> 'a lock_state \<Rightarrow> worker \<times> 'a sync_job \<times> 'a lock_state" where
  "worker_next job lk =
     (let i = jb_cursor job; job1 = job\<lparr>jb_cursor := Suc i\<rparr>
      in if i \<ge> length (jb_nodes job1) then (Exited, job1, lk)
         else (let n = jb_nodes job1 ! i;
                   job2 = job1\<lparr>jb_nodes := (jb_nodes job1)[i := n\<lparr>jn_status := NRunning\<rparr>]\<rparr>
               in (case withNodeSyncLock (jn_id n) lk of (t, lk') \<Rightarrow> (Busy i t, job2, lk'))))"

fun spawn :: "nat \<Rightarrow> 'a sync_job \<Rightarrow> 'a lock_state \<Rightarrow> 'a sync_job \<times> 'a lock_state" where
  "spawn 0 job lk = (job, lk)"
| "spawn (Suc n) job lk =
     (case worker_next job lk of (w, job', lk') \<Rightarrow> spawn n (job'\<lparr>jb_workers := jb_workers job' @ [w]\<rparr>) lk')"

text \<open>\<open>Math.min(JOB_CONCURRENCY, Math.max(length - cursor, 0))\<close>; a \<open>NaN\<close> length makes an empty array.\<close>

definition pool_size :: "nat option \<Rightarrow> 'a sync_job \<Rightarrow> nat" where
  "pool_size conc job = (case conc of None \<Rightarrow> 0 | Some c \<Rightarrow> min c (length (jb_nodes job) - jb_cursor job))"

definition start_round :: "nat option \<Rightarrow> 'a sync_job \<Rightarrow> 'a lock_state \<Rightarrow> 'a sync_job \<times> 'a lock_state" where
  "start_round conc job lk = spawn (pool_size conc job) (job\<lparr>jb_workers := []\<rparr>) lk"

definition settle_node :: "string + 'a \<Rightarrow> 'a job_node \<Rightarrow> 'a job_node" where
  "settle_node r n =
     (case r of Inr x \<Rightarrow> n\<lparr>jn_result := Some x, jn_status := NDone\<rparr>
              | Inl e \<Rightarrow> n\<lparr>jn_status := NError, jn_error := Some e\<rparr>)"

definition resume_worker :: "nat \<Rightarrow> string + 'a \<Rightarrow> 'a sync_job \<Rightarrow> 'a lock_state \<Rightarrow> 'a sync_job \<times> 'a lock_state" where
  "resume_worker w r job lk =
     (case jb_workers job ! w of
        Exited \<Rightarrow> (job, lk)
      | Busy i t \<Rightarrow>
          (case worker_next (job\<lparr>jb_nodes := (jb_nodes job)[i := settle_node r (jb_nodes job ! i)]\<rparr>) lk of
             (wk, job', lk') \<Rightarrow> (job'\<lparr>jb_workers := (jb_workers job')[w := wk]\<rparr>, lk')))"

definition some_pending :: "'a sync_job \<Rightarrow> bool" where
  "some_pending job \<longleftrightarrow> (\<exists>n \<in> set (jb_nodes job). jn_status n = NPending)"

definition put_job :: "nat \<Rightarrow> 'a sync_job \<times> 'a lock_state \<Rightarrow> 'a sync_state \<Rightarrow> 'a sync_state" where
  "put_job p jl s = s\<lparr>sy_heap := (sy_heap s)[p := fst jl], sy_lock := snd jl\<rparr>"

text \<open>\<open>runJob\<close> after \<open>Promise.all\<close>: another round, or the end of the job.\<close>

definition after_round :: "nat option \<Rightarrow> timestamp \<Rightarrow> nat \<Rightarrow> 'a sync_state \<Rightarrow> 'a sync_state" where
  "after_round conc now p s =
     (let job = sy_heap s ! p
      in if some_pending job then put_job p (start_round conc job (sy_lock s)) s
         else (let s1 = put_job p (job\<lparr>jb_status := JDone, jb_finished := Some now\<rparr>, sy_lock s) s
               in if sy_current s1 (jb_user job) = Some (jb_id job)
                  then s1\<lparr>sy_current := (sy_current s1)(jb_user job := None)\<rparr> else s1))"

section \<open>The operations\<close>

definition currentRunningJob :: "string \<Rightarrow> 'a sync_state \<Rightarrow> nat option" where
  "currentRunningJob userId s =
     (case sy_current s userId of
        None \<Rightarrow> None
      | Some i \<Rightarrow> (case sy_jobs s i of
                    None \<Rightarrow> None
                  | Some p \<Rightarrow> (if jb_status (sy_heap s ! p) = JRunning then Some p else None)))"

fun append_missing :: "string list \<Rightarrow> 'a job_node list \<Rightarrow> 'a job_node list" where
  "append_missing [] ns = ns"
| "append_missing (x # xs) ns =
     append_missing xs (if \<exists>n \<in> set ns. jn_id n = x then ns else ns @ [pending_node x])"

definition startSyncJob ::
  "nat option \<Rightarrow> string \<Rightarrow> timestamp \<Rightarrow> string \<Rightarrow> string list \<Rightarrow> 'a sync_state \<Rightarrow> 'a job_summary \<times> 'a sync_state" where
  "startSyncJob conc ulid now userId nodeIds s =
     (case currentRunningJob userId s of
        Some p \<Rightarrow>
          (let job = (sy_heap s ! p)\<lparr>jb_nodes := append_missing nodeIds (jb_nodes (sy_heap s ! p))\<rparr>
           in (toSummary job, put_job p (job, sy_lock s) s))
      | None \<Rightarrow>
          (let job = \<lparr>jb_id = ulid, jb_user = userId, jb_status = JRunning, jb_started = now, jb_finished = None,
                      jb_nodes = map pending_node nodeIds, jb_cursor = 0, jb_workers = []\<rparr>
           in (case start_round conc job (sy_lock s) of
                 (job', lk') \<Rightarrow>
                   (toSummary job',
                    s\<lparr>sy_heap := sy_heap s @ [job'], sy_lock := lk',
                      sy_jobs := (sy_jobs s)(ulid := Some (length (sy_heap s))),
                      sy_current := (sy_current s)(userId := Some ulid)\<rparr>))))"

definition getSyncJob :: "string \<Rightarrow> string \<Rightarrow> 'a sync_state \<Rightarrow> 'a job_summary option" where
  "getSyncJob userId jobId s =
     (case sy_jobs s jobId of
        None \<Rightarrow> None
      | Some p \<Rightarrow> (if jb_user (sy_heap s ! p) \<noteq> userId then None else Some (toSummary (sy_heap s ! p))))"

definition getCurrentSyncJob :: "string \<Rightarrow> 'a sync_state \<Rightarrow> 'a job_summary option" where
  "getCurrentSyncJob userId s = map_option (\<lambda>p. toSummary (sy_heap s ! p)) (currentRunningJob userId s)"

text \<open>\<open>awaitSyncJob\<close>: the job's promise settles once the job is done; \<open>None\<close> inside while it has not.\<close>

definition awaitSyncJob :: "string \<Rightarrow> 'a sync_state \<Rightarrow> 'a job_summary option option" where
  "awaitSyncJob jobId s =
     (case sy_jobs s jobId of
        None \<Rightarrow> Some None
      | Some p \<Rightarrow> (if jb_status (sy_heap s ! p) = JDone then Some (Some (toSummary (sy_heap s ! p))) else None))"

section \<open>Steps\<close>

definition all_exited :: "'a sync_job \<Rightarrow> bool" where
  "all_exited job \<longleftrightarrow> (\<forall>w \<in> set (jb_workers job). w = Exited)"

text \<open>What happens without a new request: functions under the lock start and settle, workers resume, rounds end.\<close>

inductive quiet_step :: "nat option \<Rightarrow> 'a sync_state \<Rightarrow> 'a sync_state \<Rightarrow> bool" for conc where
  drained: "drain_step (sy_lock s) lk \<Longrightarrow> quiet_step conc s (s\<lparr>sy_lock := lk\<rparr>)"
| resumed: "p < length (sy_heap s) \<Longrightarrow> w < length (jb_workers (sy_heap s ! p)) \<Longrightarrow>
    jb_workers (sy_heap s ! p) ! w = Busy i t \<Longrightarrow> lt_phase (lk_tasks (sy_lock s) ! t) = Settled r \<Longrightarrow>
    quiet_step conc s (put_job p (resume_worker w r (sy_heap s ! p) (sy_lock s)) s)"
| round: "p < length (sy_heap s) \<Longrightarrow> jb_status (sy_heap s ! p) = JRunning \<Longrightarrow> all_exited (sy_heap s ! p) \<Longrightarrow>
    quiet_step conc s (after_round conc now p s)"

text \<open>The requests: a job, a lock taken by another handler, and the timer that drops a finished job.\<close>

inductive sync_step :: "nat option \<Rightarrow> 'a sync_state \<Rightarrow> 'a sync_state \<Rightarrow> bool" for conc where
  quiet: "quiet_step conc s s' \<Longrightarrow> sync_step conc s s'"
| start: "sync_step conc s (snd (startSyncJob conc ulid now userId nodeIds s))"
| locked: "sync_step conc s (s\<lparr>sy_lock := snd (withPathLock key (sy_lock s))\<rparr>)"
| expired: "sy_jobs s i = Some p \<Longrightarrow> jb_status (sy_heap s ! p) = JDone \<Longrightarrow>
    sync_step conc s (s\<lparr>sy_jobs := (sy_jobs s)(i := None)\<rparr>)"


section \<open>The invariant of a job\<close>

fun busy_node :: "worker \<Rightarrow> nat list" where
  "busy_node (Busy i t) = [i]"
| "busy_node Exited = []"

definition busy_nodes :: "worker list \<Rightarrow> nat list" where
  "busy_nodes ws = concat (map busy_node ws)"

definition running_nodes :: "'a sync_job \<Rightarrow> nat set" where
  "running_nodes j = {i. i < length (jb_nodes j) \<and> jn_status (jb_nodes j ! i) = NRunning}"

text \<open>What a worker inside the lock says about its task, and a pool of workers about the nodes of its job.\<close>

definition worker_ok :: "'a sync_job \<Rightarrow> 'a lock_state \<Rightarrow> worker \<Rightarrow> bool" where
  "worker_ok j lk w \<longleftrightarrow>
     (case w of Exited \<Rightarrow> True
      | Busy i t \<Rightarrow> t < length (lk_tasks lk) \<and> lt_key (lk_tasks lk ! t) = node_lock_key (jn_id (jb_nodes j ! i)))"

definition pool_ok :: "worker list \<Rightarrow> 'a sync_job \<Rightarrow> 'a lock_state \<Rightarrow> bool" where
  "pool_ok ws j lk \<longleftrightarrow>
     distinct (busy_nodes ws) \<and> set (busy_nodes ws) = running_nodes j \<and> (\<forall>w \<in> set ws. worker_ok j lk w) \<and>
     (\<forall>i < length (jb_nodes j). jb_cursor j \<le> i \<longrightarrow> jn_status (jb_nodes j ! i) = NPending)"

definition lock_ext :: "'a lock_state \<Rightarrow> 'a lock_state \<Rightarrow> bool" where
  "lock_ext lk lk' \<longleftrightarrow>
     length (lk_tasks lk) \<le> length (lk_tasks lk') \<and>
     (\<forall>t < length (lk_tasks lk). lt_key (lk_tasks lk' ! t) = lt_key (lk_tasks lk ! t))"

lemma lock_ext_refl [simp]: "lock_ext lk lk"
  by (simp add: lock_ext_def)

lemma lock_ext_trans: "lock_ext a b \<Longrightarrow> lock_ext b c \<Longrightarrow> lock_ext a c"
  by (auto simp: lock_ext_def)

lemma lock_ext_call: "lock_ext lk (snd (withPathLock k lk))"
  by (simp add: lock_ext_def withPathLock_def Let_def nth_append)

lemma lock_ext_drain: "drain_step lk lk' \<Longrightarrow> lock_ext lk lk'"
  by (auto elim!: drain_step.cases simp: lock_ext_def can_leave_def release_simps)

lemma busy_nodes_simps [simp]:
  "busy_nodes [] = []"
  "busy_nodes (w # ws) = busy_node w @ busy_nodes ws"
  "busy_nodes (us @ ws) = busy_nodes us @ busy_nodes ws"
  by (simp_all add: busy_nodes_def)

lemma busy_nodes_exited: "\<forall>w \<in> set ws. w = Exited \<Longrightarrow> busy_nodes ws = []"
  by (induction ws) auto

lemma in_busy_nodes: "i \<in> set (busy_nodes ws) \<longleftrightarrow> (\<exists>t. Busy i t \<in> set ws)"
proof (induction ws)
  case (Cons w ws)
  then show ?case by (cases w) auto
qed simp

lemma length_busy_nodes: "length (busy_nodes ws) \<le> length ws"
proof (induction ws)
  case (Cons w ws)
  then show ?case by (cases w) auto
qed simp

lemma worker_ok_lock: "worker_ok j lk w \<Longrightarrow> lock_ext lk lk' \<Longrightarrow> worker_ok j lk' w"
  by (cases w) (auto simp: worker_ok_def lock_ext_def)

lemma pool_ok_lock: "pool_ok ws j lk \<Longrightarrow> lock_ext lk lk' \<Longrightarrow> pool_ok ws j lk'"
  by (auto simp: pool_ok_def intro: worker_ok_lock)

lemma worker_ok_cong: "jb_nodes j' = jb_nodes j \<Longrightarrow> worker_ok j' lk w = worker_ok j lk w"
  by (cases w) (simp_all add: worker_ok_def)

lemma pool_ok_cong:
  assumes "jb_nodes j' = jb_nodes j" and "jb_cursor j' = jb_cursor j"
  shows "pool_ok ws j' lk = pool_ok ws j lk"
  using assms by (simp add: pool_ok_def worker_ok_cong [OF assms(1)] running_nodes_def)

lemma worker_next_cases:
  obtains (none) "worker_next j lk = (Exited, j\<lparr>jb_cursor := Suc (jb_cursor j)\<rparr>, lk)" "length (jb_nodes j) \<le> jb_cursor j"
  | (some) "worker_next j lk =
      (Busy (jb_cursor j) (length (lk_tasks lk)),
       j\<lparr>jb_cursor := Suc (jb_cursor j),
         jb_nodes := (jb_nodes j)[jb_cursor j := (jb_nodes j ! jb_cursor j)\<lparr>jn_status := NRunning\<rparr>]\<rparr>,
       snd (withPathLock (node_lock_key (jn_id (jb_nodes j ! jb_cursor j))) lk))"
      "jb_cursor j < length (jb_nodes j)"
proof (cases "jb_cursor j < length (jb_nodes j)")
  case True
  then show ?thesis
    by (intro some) (simp_all add: worker_next_def withNodeSyncLock_def Let_def withPathLock_def)
next
  case False
  then show ?thesis by (intro none) (simp_all add: worker_next_def Let_def)
qed

lemma lock_ext_next: "worker_next j lk = (wk, j', lk') \<Longrightarrow> lock_ext lk lk'"
  by (cases rule: worker_next_cases [of j lk]) (auto intro: lock_ext_call)

text \<open>Changing the status of one node.\<close>

lemma running_update:
  "i < length (jb_nodes j) \<Longrightarrow> running_nodes (j\<lparr>jb_cursor := c, jb_nodes := (jb_nodes j)[i := n]\<rparr>) =
     (if jn_status n = NRunning then insert i (running_nodes j) else running_nodes j - {i})"
  by (auto simp: running_nodes_def nth_list_update split: if_splits)

lemma worker_ok_update:
  "jn_id n = jn_id (jb_nodes j ! i) \<Longrightarrow>
     worker_ok (j\<lparr>jb_cursor := c, jb_nodes := (jb_nodes j)[i := n]\<rparr>) lk w = worker_ok j lk w"
  by (cases w; cases "i < length (jb_nodes j)") (auto simp: worker_ok_def nth_list_update list_update_beyond)

lemma pool_ok_next:
  assumes ok: "pool_ok (us @ Exited # vs) j lk" and step: "worker_next j lk = (wk, j', lk')"
  shows "pool_ok (us @ wk # vs) j' lk'"
proof (cases rule: worker_next_cases [of j lk])
  case none
  then have wk: "wk = Exited" and j': "j' = j\<lparr>jb_cursor := Suc (jb_cursor j)\<rparr>" and lk': "lk' = lk" using step by simp_all
  have "running_nodes j' = running_nodes j" "worker_ok j' lk w = worker_ok j lk w" for w
    using worker_ok_cong [of j' j lk w] by (simp_all add: j' running_nodes_def)
  with ok none(2) show ?thesis by (simp add: pool_ok_def wk lk' j')
next
  case some
  let ?c = "jb_cursor j" and ?n = "(jb_nodes j ! jb_cursor j)\<lparr>jn_status := NRunning\<rparr>"
  have wk: "wk = Busy ?c (length (lk_tasks lk))"
    and j': "j' = j\<lparr>jb_cursor := Suc ?c, jb_nodes := (jb_nodes j)[?c := ?n]\<rparr>"
    and lk': "lk' = snd (withPathLock (node_lock_key (jn_id (jb_nodes j ! ?c))) lk)"
    using some(1) step by simp_all
  have run: "running_nodes j' = insert ?c (running_nodes j)" by (simp add: j' running_update [OF some(2)])
  have fresh: "?c \<notin> running_nodes j" using ok some(2) by (auto simp: pool_ok_def running_nodes_def)
  have "worker_ok j' lk' w" if "w \<in> set us \<union> set vs" for w
    using ok that worker_ok_lock [OF _ lock_ext_next [OF step]] unfolding j' worker_ok_update [of ?n j ?c, simplified]
    by (auto simp: pool_ok_def)
  moreover have "worker_ok j' lk' wk"
    using some(2) by (simp add: wk worker_ok_def lk' withPathLock_def Let_def j')
  moreover have "jn_status (jb_nodes j' ! i) = NPending" if "i < length (jb_nodes j')" "jb_cursor j' \<le> i" for i
    using ok that by (simp add: pool_ok_def j' nth_list_update)
  ultimately show ?thesis
    using ok fresh run by (auto simp: pool_ok_def wk)
qed


section \<open>The operations keep the invariant\<close>

definition node_work :: "'a job_node \<Rightarrow> nat" where
  "node_work n = (case jn_status n of NPending \<Rightarrow> 4 | NRunning \<Rightarrow> 1 | _ \<Rightarrow> 0)"

definition nodes_work :: "'a sync_job \<Rightarrow> nat" where
  "nodes_work j = sum_list (map node_work (jb_nodes j))"

definition job_work :: "'a sync_job \<Rightarrow> nat" where
  "job_work j = nodes_work j + (if jb_status j = JRunning then 1 else 0)"

text \<open>No node was left behind the cursor.\<close>

definition no_skip :: "'a sync_job \<Rightarrow> bool" where
  "no_skip j \<longleftrightarrow> (\<forall>i < length (jb_nodes j). jn_status (jb_nodes j ! i) = NPending \<longrightarrow> jb_cursor j \<le> i)"

lemma no_skip_list:
  "no_skip j \<longleftrightarrow> (\<forall>i \<in> set [0..<length (jb_nodes j)]. jn_status (jb_nodes j ! i) = NPending \<longrightarrow> jb_cursor j \<le> i)"
  by (auto simp: no_skip_def)

lemma lock_work_call: "lock_work (snd (withPathLock k lk)) = lock_work lk + 2"
  by (simp add: lock_work_def withPathLock_def Let_def)

lemma nodes_work_update:
  "i < length (jb_nodes j) \<Longrightarrow>
     nodes_work (j\<lparr>jb_cursor := c, jb_nodes := (jb_nodes j)[i := n]\<rparr>) + node_work (jb_nodes j ! i) = nodes_work j + node_work n"
  using sum_list_map_update [of i "jb_nodes j" node_work n] by (simp add: nodes_work_def)

lemma map_list_update_same: "f y = f (xs ! i) \<Longrightarrow> map f (xs[i := y]) = map f xs"
proof (rule nth_equalityI)
  fix k
  assume eq: "f y = f (xs ! i)" and "k < length (map f (xs[i := y]))"
  then show "map f (xs[i := y]) ! k = map f xs ! k" by (cases "k = i") simp_all
qed simp

text \<open>What a worker's turn does to the work left, and to what the job remembers of its request.\<close>

lemma worker_next_facts:
  assumes "worker_next j lk = (wk, j', lk')"
  shows "jb_status j' = jb_status j" "jb_id j' = jb_id j" "jb_user j' = jb_user j" "jb_workers j' = jb_workers j"
    "length (jb_nodes j') = length (jb_nodes j)" "map jn_id (jb_nodes j') = map jn_id (jb_nodes j)"
    "jb_cursor j' = Suc (jb_cursor j)"
proof -
  consider "j' = j\<lparr>jb_cursor := Suc (jb_cursor j)\<rparr>" |
    "j' = j\<lparr>jb_cursor := Suc (jb_cursor j),
         jb_nodes := (jb_nodes j)[jb_cursor j := (jb_nodes j ! jb_cursor j)\<lparr>jn_status := NRunning\<rparr>]\<rparr>"
      "jb_cursor j < length (jb_nodes j)"
    using assms by (cases rule: worker_next_cases [of j lk]) auto
  then show "jb_status j' = jb_status j" "jb_id j' = jb_id j" "jb_user j' = jb_user j" "jb_workers j' = jb_workers j"
    "length (jb_nodes j') = length (jb_nodes j)" "map jn_id (jb_nodes j') = map jn_id (jb_nodes j)"
    "jb_cursor j' = Suc (jb_cursor j)"
    by (cases; simp add: map_list_update_same)+
qed

lemma worker_next_work:
  assumes "pool_ok ws j lk" and "worker_next j lk = (wk, j', lk')"
  shows "nodes_work j' + lock_work lk' + (if jb_cursor j < length (jb_nodes j) then 1 else 0) = nodes_work j + lock_work lk"
proof (cases rule: worker_next_cases [of j lk])
  case none
  with assms(2) show ?thesis by (auto simp: nodes_work_def)
next
  case some
  have "jn_status (jb_nodes j ! jb_cursor j) = NPending" using assms(1) some(2) by (simp add: pool_ok_def)
  with some assms(2) nodes_work_update [OF some(2), of "(jb_nodes j ! jb_cursor j)\<lparr>jn_status := NRunning\<rparr>" "Suc (jb_cursor j)"]
  show ?thesis by (auto simp: node_work_def lock_work_call)
qed

lemma worker_next_no_skip:
  assumes "no_skip j" and "worker_next j lk = (wk, j', lk')"
  shows "no_skip j'"
  using assms by (cases rule: worker_next_cases [of j lk]) (auto simp: no_skip_def nth_list_update Suc_le_eq le_less split: if_splits)

lemma lock_inv_next: "lock_inv lk \<Longrightarrow> worker_next j lk = (wk, j', lk') \<Longrightarrow> lock_inv lk'"
  by (cases rule: worker_next_cases [of j lk]) (auto intro: lock_inv_call)

lemma spawn_facts:
  assumes "pool_ok (jb_workers j) j lk" and "spawn n j lk = (j', lk')" and "n \<le> length (jb_nodes j) - jb_cursor j"
  shows "pool_ok (jb_workers j') j' lk' \<and> length (jb_workers j') = length (jb_workers j) + n \<and> lock_ext lk lk' \<and>
    jb_status j' = jb_status j \<and> jb_id j' = jb_id j \<and> jb_user j' = jb_user j \<and> map jn_id (jb_nodes j') = map jn_id (jb_nodes j) \<and>
    nodes_work j' + lock_work lk' + n = nodes_work j + lock_work lk \<and>
    (no_skip j \<longrightarrow> no_skip j') \<and> (lock_inv lk \<longrightarrow> lock_inv lk')"
  using assms
proof (induction n arbitrary: j lk)
  case 0
  then show ?case by simp
next
  case (Suc n)
  obtain wk j1 lk1 where nx: "worker_next j lk = (wk, j1, lk1)" by (cases "worker_next j lk")
  note f = worker_next_facts [OF nx]
  define j2 where "j2 = j1\<lparr>jb_workers := jb_workers j1 @ [wk]\<rparr>"
  have "pool_ok (jb_workers j @ Exited # []) j lk" using Suc.prems(1) by (simp add: pool_ok_def worker_ok_def)
  from pool_ok_next [OF this nx] have ok: "pool_ok (jb_workers j2) j2 lk1"
    by (simp add: j2_def f(4) pool_ok_cong [of "j1\<lparr>jb_workers := _\<rparr>" j1])
  have less: "jb_cursor j < length (jb_nodes j)" using Suc.prems(3) by simp
  have "spawn n j2 lk1 = (j', lk')" using Suc.prems(2) nx by (simp add: j2_def)
  from Suc.IH [OF ok this] f less Suc.prems(3)
  have IH: "pool_ok (jb_workers j') j' lk' \<and> length (jb_workers j') = length (jb_workers j2) + n \<and> lock_ext lk1 lk' \<and>
    jb_status j' = jb_status j2 \<and> jb_id j' = jb_id j2 \<and> jb_user j' = jb_user j2 \<and> map jn_id (jb_nodes j') = map jn_id (jb_nodes j2) \<and>
    nodes_work j' + lock_work lk' + n = nodes_work j2 + lock_work lk1 \<and>
    (no_skip j2 \<longrightarrow> no_skip j') \<and> (lock_inv lk1 \<longrightarrow> lock_inv lk')"
    by (simp add: j2_def)
  have "nodes_work j2 = nodes_work j1" "no_skip j2 = no_skip j1" by (simp_all add: j2_def nodes_work_def no_skip_def)
  with IH f worker_next_work [OF Suc.prems(1) nx] less
    worker_next_no_skip [OF _ nx] lock_ext_trans [OF lock_ext_next [OF nx]] lock_inv_next [OF _ nx]
  show ?case by (simp add: j2_def)
qed


lemma same_cursor: "j\<lparr>jb_cursor := jb_cursor j, jb_nodes := ns\<rparr> = j\<lparr>jb_nodes := ns\<rparr>"
  by simp

lemma running_set:
  "i < length (jb_nodes j) \<Longrightarrow> running_nodes (j\<lparr>jb_nodes := (jb_nodes j)[i := n]\<rparr>) =
     (if jn_status n = NRunning then insert i (running_nodes j) else running_nodes j - {i})"
  using running_update [of i j n "jb_cursor j"] by (simp only: same_cursor)

lemma worker_ok_set:
  "jn_id n = jn_id (jb_nodes j ! i) \<Longrightarrow> worker_ok (j\<lparr>jb_nodes := (jb_nodes j)[i := n]\<rparr>) lk w = worker_ok j lk w"
  using worker_ok_update [of n j i "jb_cursor j"] by (simp only: same_cursor)

lemma nodes_work_set:
  "i < length (jb_nodes j) \<Longrightarrow>
     nodes_work (j\<lparr>jb_nodes := (jb_nodes j)[i := n]\<rparr>) + node_work (jb_nodes j ! i) = nodes_work j + node_work n"
  using nodes_work_update [of i j n "jb_cursor j"] by (simp only: same_cursor)

lemma settle_node_simps [simp]:
  "jn_id (settle_node r n) = jn_id n"
  "jn_status (settle_node r n) \<noteq> NPending" "jn_status (settle_node r n) \<noteq> NRunning"
  "finished_status (jn_status (settle_node r n))" "node_work (settle_node r n) = 0"
  by (simp_all add: settle_node_def node_work_def split: sum.split)

lemma pool_ok_settle:
  assumes ok: "pool_ok (us @ Busy i t # vs) j lk"
  shows "pool_ok (us @ Exited # vs) (j\<lparr>jb_nodes := (jb_nodes j)[i := settle_node r (jb_nodes j ! i)]\<rparr>) lk"
    and "i < length (jb_nodes j)" and "jn_status (jb_nodes j ! i) = NRunning" and "i < jb_cursor j"
    and "t < length (lk_tasks lk)" and "lt_key (lk_tasks lk ! t) = node_lock_key (jn_id (jb_nodes j ! i))"
proof -
  have "i \<in> running_nodes j" using ok by (auto simp: pool_ok_def)
  then show i: "i < length (jb_nodes j)" and run: "jn_status (jb_nodes j ! i) = NRunning" by (simp_all add: running_nodes_def)
  show cur: "i < jb_cursor j"
  proof (rule ccontr)
    assume "\<not> i < jb_cursor j"
    with ok i run show False by (simp add: pool_ok_def)
  qed
  show "t < length (lk_tasks lk)" "lt_key (lk_tasks lk ! t) = node_lock_key (jn_id (jb_nodes j ! i))"
    using ok by (simp_all add: pool_ok_def worker_ok_def)
  let ?j = "j\<lparr>jb_nodes := (jb_nodes j)[i := settle_node r (jb_nodes j ! i)]\<rparr>"
  have "running_nodes ?j = running_nodes j - {i}" by (simp add: running_set [OF i])
  moreover have "worker_ok ?j lk w = worker_ok j lk w" for w by (rule worker_ok_set) simp
  moreover have "jn_status (jb_nodes ?j ! k) = NPending" if "k < length (jb_nodes ?j)" "jb_cursor ?j \<le> k" for k
    using ok that cur by (simp add: pool_ok_def)
  ultimately show "pool_ok (us @ Exited # vs) ?j lk"
    using ok by (auto simp: pool_ok_def worker_ok_def)
qed

text \<open>What a job keeps of its nodes: a finished node never changes, and no status goes back.\<close>

fun status_rank :: "node_status \<Rightarrow> nat" where
  "status_rank NPending = 0"
| "status_rank NRunning = 1"
| "status_rank NDone = 2"
| "status_rank NError = 2"

definition node_le :: "'a job_node \<Rightarrow> 'a job_node \<Rightarrow> bool" where
  "node_le n n' \<longleftrightarrow>
     jn_id n' = jn_id n \<and> status_rank (jn_status n) \<le> status_rank (jn_status n') \<and>
     (finished_status (jn_status n) \<longrightarrow> n' = n)"

definition job_le :: "'a sync_job \<Rightarrow> 'a sync_job \<Rightarrow> bool" where
  "job_le j j' \<longleftrightarrow>
     jb_id j' = jb_id j \<and> jb_user j' = jb_user j \<and> length (jb_nodes j) \<le> length (jb_nodes j') \<and>
     (\<forall>i < length (jb_nodes j). node_le (jb_nodes j ! i) (jb_nodes j' ! i))"

lemma node_le_refl [simp]: "node_le n n" by (simp add: node_le_def)

lemma node_le_trans: "node_le a b \<Longrightarrow> node_le b c \<Longrightarrow> node_le a c"
  by (auto simp: node_le_def)

lemma job_le_refl [simp]: "job_le j j" by (simp add: job_le_def)

lemma job_le_trans: "job_le a b \<Longrightarrow> job_le b c \<Longrightarrow> job_le a c"
  unfolding job_le_def by (auto intro: le_trans less_le_trans node_le_trans)

lemma finished_rank: "finished_status st \<longleftrightarrow> status_rank st = 2"
  by (cases st) simp_all

lemma job_le_next:
  assumes "pool_ok ws j lk" and "worker_next j lk = (wk, j', lk')"
  shows "job_le j j'"
proof (cases rule: worker_next_cases [of j lk])
  case none
  with assms(2) show ?thesis by (auto simp: job_le_def)
next
  case some
  have "jn_status (jb_nodes j ! jb_cursor j) = NPending" using assms(1) some(2) by (simp add: pool_ok_def)
  with some assms(2) show ?thesis by (auto simp: job_le_def node_le_def nth_list_update)
qed

lemma job_le_workers: "job_le j j' \<Longrightarrow> job_le j (j'\<lparr>jb_workers := ws\<rparr>)"
  by (simp add: job_le_def)

lemma job_le_spawn:
  assumes "pool_ok (jb_workers j) j lk" and "spawn n j lk = (j', lk')"
  shows "job_le j j'"
  using assms
proof (induction n arbitrary: j lk)
  case 0
  then show ?case by simp
next
  case (Suc n)
  obtain wk j1 lk1 where nx: "worker_next j lk = (wk, j1, lk1)" by (cases "worker_next j lk")
  have "pool_ok (jb_workers j @ Exited # []) j lk" using Suc.prems(1) by (simp add: pool_ok_def worker_ok_def)
  from pool_ok_next [OF this nx] worker_next_facts(4) [OF nx]
  have "pool_ok (jb_workers (j1\<lparr>jb_workers := jb_workers j1 @ [wk]\<rparr>)) (j1\<lparr>jb_workers := jb_workers j1 @ [wk]\<rparr>) lk1"
    by (simp add: pool_ok_cong [of "j1\<lparr>jb_workers := _\<rparr>" j1])
  from Suc.IH [OF this] Suc.prems(2) nx have "job_le (j1\<lparr>jb_workers := jb_workers j1 @ [wk]\<rparr>) j'" by simp
  then show ?case by (rule job_le_trans [OF job_le_workers [OF job_le_next [OF Suc.prems(1) nx]]])
qed

definition job_inv :: "nat \<Rightarrow> 'a sync_job \<Rightarrow> 'a lock_state \<Rightarrow> bool" where
  "job_inv c j lk \<longleftrightarrow>
     pool_ok (jb_workers j) j lk \<and> length (jb_workers j) \<le> c \<and>
     (jb_status j = JDone \<longrightarrow> (\<forall>n \<in> set (jb_nodes j). finished_status (jn_status n)))"

lemma resume_facts:
  assumes inv: "job_inv c j lk" and w: "w < length (jb_workers j)" "jb_workers j ! w = Busy i t"
    and st: "jb_status j = JRunning" and step: "resume_worker w r j lk = (j', lk')"
  shows "job_inv c j' lk'" and "jb_status j' = JRunning" and "job_le j j'" and "lock_ext lk lk'"
    and "nodes_work j' + lock_work lk' < nodes_work j + lock_work lk"
    and "no_skip j \<Longrightarrow> no_skip j'" and "lock_inv lk \<Longrightarrow> lock_inv lk'" and "length (jb_nodes j') = length (jb_nodes j)"
    and "jn_status (jb_nodes j ! k) = NPending \<Longrightarrow> k < jb_cursor j \<Longrightarrow> k < length (jb_nodes j) \<Longrightarrow>
           k < jb_cursor j' \<and> jn_status (jb_nodes j' ! k) = NPending"
proof -
  let ?j1 = "j\<lparr>jb_nodes := (jb_nodes j)[i := settle_node r (jb_nodes j ! i)]\<rparr>"
  define us vs where "us = take w (jb_workers j)" and "vs = drop (Suc w) (jb_workers j)"
  have ws: "jb_workers j = us @ Busy i t # vs"
    using w id_take_nth_drop [OF w(1)] by (simp add: us_def vs_def)
  have upd: "(jb_workers j)[w := x] = us @ x # vs" for x
    using w(1) by (simp add: us_def vs_def upd_conv_take_nth_drop)
  have ok: "pool_ok (us @ Busy i t # vs) j lk" using inv by (simp add: job_inv_def ws)
  note s = pool_ok_settle(1) [OF ok, of r] pool_ok_settle(2-4) [OF ok]
  obtain wk j2 where nx: "worker_next ?j1 lk = (wk, j2, lk')" and j': "j' = j2\<lparr>jb_workers := (jb_workers j2)[w := wk]\<rparr>"
    using step w by (auto simp: resume_worker_def split: prod.splits)
  note f = worker_next_facts [OF nx]
  have pool: "pool_ok (us @ wk # vs) j' lk'"
    using pool_ok_next [OF s(1) nx] by (simp add: j' pool_ok_cong [of "j2\<lparr>jb_workers := _\<rparr>" j2])
  have ws': "jb_workers j' = us @ wk # vs" using f(4) by (simp add: j' upd)
  show stat: "jb_status j' = JRunning" using f(1) st by (simp add: j')
  show "job_inv c j' lk'" using pool ws' stat inv by (simp add: job_inv_def ws)
  have "job_le j ?j1"
    using s(2,3) by (auto simp: job_le_def node_le_def nth_list_update settle_node_def split: sum.split)
  then show "job_le j j'" unfolding j' by (rule job_le_trans [OF _ job_le_workers [OF job_le_next [OF s(1) nx]]])
  show "lock_ext lk lk'" by (rule lock_ext_next [OF nx])
  have "nodes_work ?j1 < nodes_work j"
    using nodes_work_set [OF s(2), of "settle_node r (jb_nodes j ! i)"] s(3) by (simp add: node_work_def [of "jb_nodes j ! i"])
  moreover have "nodes_work j' = nodes_work j2" by (simp add: j' nodes_work_def)
  ultimately show "nodes_work j' + lock_work lk' < nodes_work j + lock_work lk"
    using worker_next_work [OF s(1) nx] by linarith
  show "no_skip j'" if "no_skip j"
  proof -
    have "no_skip ?j1" using that s(2) by (auto simp: no_skip_def nth_list_update)
    from worker_next_no_skip [OF this nx] show ?thesis by (simp add: no_skip_def j')
  qed
  show "lock_inv lk'" if "lock_inv lk" by (rule lock_inv_next [OF that nx])
  show "length (jb_nodes j') = length (jb_nodes j)" using f(5) by (simp add: j')
  show "k < jb_cursor j' \<and> jn_status (jb_nodes j' ! k) = NPending"
    if k: "jn_status (jb_nodes j ! k) = NPending" "k < jb_cursor j" "k < length (jb_nodes j)"
  proof -
    have "k \<noteq> i" using k(1) s(3) by auto
    then have "jn_status (jb_nodes ?j1 ! k) = NPending" using k by simp
    with k nx show ?thesis unfolding j' by (cases rule: worker_next_cases [of ?j1 lk]) auto
  qed
qed


section \<open>Moves of a job\<close>

text \<open>A pending node behind the cursor: no worker takes it.\<close>

definition stuck :: "nat \<Rightarrow> 'a sync_job \<Rightarrow> bool" where
  "stuck k j \<longleftrightarrow> k < length (jb_nodes j) \<and> k < jb_cursor j \<and> jn_status (jb_nodes j ! k) = NPending"

lemma stuck_next: "stuck k j \<Longrightarrow> worker_next j lk = (wk, j', lk') \<Longrightarrow> stuck k j'"
  by (cases rule: worker_next_cases [of j lk]) (auto simp: stuck_def)

lemma stuck_workers [simp]: "stuck k (j\<lparr>jb_workers := ws\<rparr>) = stuck k j"
  by (simp add: stuck_def)

lemma stuck_spawn: "stuck k j \<Longrightarrow> spawn n j lk = (j', lk') \<Longrightarrow> stuck k j'"
  by (induction n j lk rule: spawn.induct) (auto split: prod.splits dest: stuck_next)

definition conc_bound :: "nat option \<Rightarrow> nat" where
  "conc_bound conc = (case conc of None \<Rightarrow> 0 | Some c \<Rightarrow> c)"

definition move_ok :: "nat \<Rightarrow> 'a sync_job \<Rightarrow> 'a lock_state \<Rightarrow> 'a sync_job \<Rightarrow> 'a lock_state \<Rightarrow> bool" where
  "move_ok c j lk j' lk' \<longleftrightarrow>
     job_inv c j' lk' \<and> job_le j j' \<and> lock_ext lk lk' \<and> (lock_inv lk \<longrightarrow> lock_inv lk') \<and> (\<forall>k. stuck k j \<longrightarrow> stuck k j')"

lemma job_inv_lock: "job_inv c j lk \<Longrightarrow> lock_ext lk lk' \<Longrightarrow> job_inv c j lk'"
  by (auto simp: job_inv_def intro: pool_ok_lock)

lemma pool_size_bounds: "pool_size conc j \<le> conc_bound conc" "pool_size conc j \<le> length (jb_nodes j) - jb_cursor j"
  by (simp_all add: pool_size_def conc_bound_def split: option.split)

lemma round_facts:
  assumes ok: "pool_ok (jb_workers j) j lk" and ex: "all_exited j" and st: "jb_status j = JRunning"
    and step: "start_round conc j lk = (j', lk')"
  shows "move_ok (conc_bound conc) j lk j' lk'" and "jb_status j' = JRunning" and "map jn_id (jb_nodes j') = map jn_id (jb_nodes j)"
    and "nodes_work j' + lock_work lk' + pool_size conc j = nodes_work j + lock_work lk" and "no_skip j \<Longrightarrow> no_skip j'"
proof -
  let ?j = "j\<lparr>jb_workers := []\<rparr>"
  have "running_nodes j = {}" using ok busy_nodes_exited [of "jb_workers j"] ex by (auto simp: pool_ok_def all_exited_def)
  then have pool: "pool_ok (jb_workers ?j) ?j lk"
    using ok by (simp add: pool_ok_def running_nodes_def)
  have sp: "spawn (pool_size conc j) ?j lk = (j', lk')" using step by (simp add: start_round_def)
  from spawn_facts [OF pool sp] pool_size_bounds [of conc j] st
  have f: "pool_ok (jb_workers j') j' lk'" "length (jb_workers j') = pool_size conc j" "lock_ext lk lk'" "jb_status j' = JRunning"
    "map jn_id (jb_nodes j') = map jn_id (jb_nodes j)" "nodes_work j' + lock_work lk' + pool_size conc j = nodes_work ?j + lock_work lk"
    "no_skip ?j \<longrightarrow> no_skip j'" "lock_inv lk \<longrightarrow> lock_inv lk'"
    by auto
  have "job_le ?j j'" by (rule job_le_spawn [OF pool sp])
  then have "job_le j j'" by (simp add: job_le_def)
  with f pool_size_bounds(1) [of conc j] stuck_spawn [OF _ sp] show "move_ok (conc_bound conc) j lk j' lk'"
    by (simp add: move_ok_def job_inv_def)
  show "jb_status j' = JRunning" "map jn_id (jb_nodes j') = map jn_id (jb_nodes j)" by (rule f)+
  show "nodes_work j' + lock_work lk' + pool_size conc j = nodes_work j + lock_work lk" using f(6) by (simp add: nodes_work_def)
  show "no_skip j'" if "no_skip j" using f(7) that by (simp add: no_skip_def)
qed

lemma append_missing_shape: "\<exists>ys. append_missing xs ns = ns @ map pending_node ys"
proof (induction xs arbitrary: ns)
  case Nil
  then show ?case by (intro exI [of _ "[]"]) simp
next
  case (Cons x xs)
  show ?case
  proof (cases "\<exists>n \<in> set ns. jn_id n = x")
    case True
    then show ?thesis using Cons.IH [of ns] by simp
  next
    case False
    obtain ys where "append_missing xs (ns @ [pending_node x]) = (ns @ [pending_node x]) @ map pending_node ys"
      using Cons.IH by blast
    with False show ?thesis by (intro exI [of _ "x # ys"]) simp
  qed
qed

lemma append_missing_ids: "set xs \<subseteq> jn_id ` set (append_missing xs ns)"
proof (induction xs arbitrary: ns)
  case (Cons x xs)
  let ?ns = "if \<exists>n \<in> set ns. jn_id n = x then ns else ns @ [pending_node x]"
  obtain ys where "append_missing xs ?ns = ?ns @ map pending_node ys" using append_missing_shape by blast
  then have "x \<in> jn_id ` set (append_missing xs ?ns)" by (auto simp: pending_node_def split: if_splits)
  with Cons.IH [of ?ns] show ?case by simp
qed simp

lemma append_facts:
  assumes inv: "job_inv c j lk" and st: "jb_status j = JRunning"
  shows "move_ok c j lk (j\<lparr>jb_nodes := append_missing xs (jb_nodes j)\<rparr>) lk"
    and "no_skip j \<Longrightarrow> jb_cursor j \<le> length (jb_nodes j) \<Longrightarrow> no_skip (j\<lparr>jb_nodes := append_missing xs (jb_nodes j)\<rparr>)"
proof -
  obtain ys where ys: "append_missing xs (jb_nodes j) = jb_nodes j @ map pending_node ys"
    using append_missing_shape by blast
  let ?j = "j\<lparr>jb_nodes := append_missing xs (jb_nodes j)\<rparr>"
  have node: "jb_nodes ?j ! i = (if i < length (jb_nodes j) then jb_nodes j ! i else pending_node (ys ! (i - length (jb_nodes j))))"
    if "i < length (jb_nodes ?j)" for i
    using that by (auto simp: ys nth_append)
  have run: "running_nodes ?j = running_nodes j"
  proof -
    have "jn_status (jb_nodes ?j ! i) = NRunning \<longleftrightarrow> i < length (jb_nodes j) \<and> jn_status (jb_nodes j ! i) = NRunning"
      if "i < length (jb_nodes ?j)" for i
      unfolding node [OF that] by (simp add: pending_node_def)
    moreover have "length (jb_nodes j) \<le> length (jb_nodes ?j)" by (simp add: ys)
    ultimately show ?thesis unfolding running_nodes_def by (auto simp del: sync_job.simps)
  qed
  have pool: "pool_ok (jb_workers j) j lk" using inv by (simp add: job_inv_def)
  have busy: "i < length (jb_nodes j)" if "Busy i t \<in> set (jb_workers j)" for i t
  proof -
    have "i \<in> running_nodes j" using that pool in_busy_nodes [of i "jb_workers j"] by (auto simp: pool_ok_def)
    then show ?thesis by (simp add: running_nodes_def)
  qed
  have "worker_ok ?j lk w" if "w \<in> set (jb_workers j)" for w
  proof (cases w)
    case (Busy i t)
    have "worker_ok j lk w" using that pool by (simp add: pool_ok_def)
    then show ?thesis using busy [of i t] that by (simp add: Busy worker_ok_def ys nth_append)
  qed (simp add: worker_ok_def)
  moreover have "jn_status (jb_nodes ?j ! i) = NPending" if "i < length (jb_nodes ?j)" "jb_cursor j \<le> i" for i
    using that pool node [OF that(1)] by (auto simp: pool_ok_def pending_node_def)
  ultimately have "pool_ok (jb_workers ?j) ?j lk"
    using pool run by (simp add: pool_ok_def)
  then show "move_ok c j lk ?j lk"
    using inv st by (auto simp: move_ok_def job_inv_def job_le_def stuck_def ys nth_append)
  show "no_skip ?j" if "no_skip j" "jb_cursor j \<le> length (jb_nodes j)"
    using that by (auto simp: no_skip_def ys nth_append)
qed

section \<open>The invariant of the system\<close>

definition sync_inv :: "nat option \<Rightarrow> 'a sync_state \<Rightarrow> bool" where
  "sync_inv conc s \<longleftrightarrow>
     lock_inv (sy_lock s) \<and> (\<forall>p < length (sy_heap s). job_inv (conc_bound conc) (sy_heap s ! p) (sy_lock s)) \<and>
     (\<forall>i p. sy_jobs s i = Some p \<longrightarrow> p < length (sy_heap s))"

definition heap_le :: "'a sync_state \<Rightarrow> 'a sync_state \<Rightarrow> bool" where
  "heap_le s s' \<longleftrightarrow>
     length (sy_heap s) \<le> length (sy_heap s') \<and>
     (\<forall>p < length (sy_heap s). job_le (sy_heap s ! p) (sy_heap s' ! p) \<and>
        (\<forall>k. stuck k (sy_heap s ! p) \<longrightarrow> stuck k (sy_heap s' ! p)))"

lemma heap_le_same: "sy_heap s' = sy_heap s \<Longrightarrow> heap_le s s'"
  by (simp add: heap_le_def)

lemma heap_le_trans: "heap_le a b \<Longrightarrow> heap_le b c \<Longrightarrow> heap_le a c"
  unfolding heap_le_def by (auto intro: job_le_trans less_le_trans)

lemma put_job_inv:
  assumes inv: "sync_inv conc s" and p: "p < length (sy_heap s)"
    and mv: "move_ok (conc_bound conc) (sy_heap s ! p) (sy_lock s) j' lk'"
  shows "sync_inv conc (put_job p (j', lk') s)" and "heap_le s (put_job p (j', lk') s)"
  using inv p mv by (auto simp: sync_inv_def heap_le_def put_job_def move_ok_def nth_list_update intro: job_inv_lock)

lemma lock_change_inv:
  assumes "sync_inv conc s" and "lock_ext (sy_lock s) lk" and "lock_inv lk"
  shows "sync_inv conc (s\<lparr>sy_lock := lk\<rparr>)"
  using assms by (auto simp: sync_inv_def intro: job_inv_lock)


lemma resume_move:
  assumes inv: "sync_inv conc s" and p: "p < length (sy_heap s)"
    and w: "w < length (jb_workers (sy_heap s ! p))" "jb_workers (sy_heap s ! p) ! w = Busy i t"
    and step: "resume_worker w r (sy_heap s ! p) (sy_lock s) = (j', lk')"
  shows "move_ok (conc_bound conc) (sy_heap s ! p) (sy_lock s) j' lk'"
    and "jb_status (sy_heap s ! p) = JRunning"
proof -
  let ?j = "sy_heap s ! p"
  have ji: "job_inv (conc_bound conc) ?j (sy_lock s)" using inv p by (simp add: sync_inv_def)
  have "i \<in> running_nodes ?j"
    using ji w nth_mem [OF w(1)] in_busy_nodes [of i "jb_workers ?j"] by (auto simp: job_inv_def pool_ok_def)
  then have "jb_nodes ?j ! i \<in> set (jb_nodes ?j)" "\<not> finished_status (jn_status (jb_nodes ?j ! i))"
    by (simp_all add: running_nodes_def)
  then show st: "jb_status ?j = JRunning"
    using ji by (cases "jb_status ?j") (auto simp: job_inv_def)
  note f = resume_facts [OF ji w st step]
  show "move_ok (conc_bound conc) ?j (sy_lock s) j' lk'"
    unfolding move_ok_def using f by (auto simp: stuck_def)
qed

lemma finish_move:
  assumes inv: "job_inv c j lk" and st: "jb_status j = JRunning" and ex: "all_exited j" and no: "\<not> some_pending j"
  shows "move_ok c j lk (j\<lparr>jb_status := JDone, jb_finished := Some now\<rparr>) lk"
proof -
  have run: "running_nodes j = {}"
    using inv ex busy_nodes_exited [of "jb_workers j"] by (auto simp: job_inv_def pool_ok_def all_exited_def)
  have "finished_status (jn_status n)" if "n \<in> set (jb_nodes j)" for n
    using that no run by (cases "jn_status n") (auto simp: some_pending_def running_nodes_def in_set_conv_nth)
  moreover have "job_le j (j\<lparr>jb_status := JDone, jb_finished := Some now\<rparr>)" by (simp add: job_le_def)
  ultimately show ?thesis
    using inv pool_ok_cong [of "j\<lparr>jb_status := JDone, jb_finished := Some now\<rparr>" j "jb_workers j" lk]
    by (simp add: move_ok_def job_inv_def stuck_def)
qed

lemma sync_inv_current: "sync_inv conc (s\<lparr>sy_current := f\<rparr>) = sync_inv conc s"
  by (simp add: sync_inv_def)

lemma quiet_step_inv:
  assumes inv: "sync_inv conc s" and step: "quiet_step conc s s'"
  shows "sync_inv conc s' \<and> heap_le s s'"
  using step
proof cases
  case (drained lk)
  have "lock_inv lk" using inv path_lock.step_inv [OF _ lock_step.drain [OF drained(2)]] by (simp add: sync_inv_def)
  from lock_change_inv [OF inv lock_ext_drain [OF drained(2)] this] show ?thesis
    by (simp add: drained(1) heap_le_same)
next
  case (resumed p w i t r)
  obtain j' lk' where rs: "resume_worker w r (sy_heap s ! p) (sy_lock s) = (j', lk')"
    by (cases "resume_worker w r (sy_heap s ! p) (sy_lock s)")
  show ?thesis
    using put_job_inv [OF inv resumed(2) resume_move(1) [OF inv resumed(2-4) rs]] by (simp add: resumed(1) rs)
next
  case (round p now)
  let ?j = "sy_heap s ! p"
  have ji: "job_inv (conc_bound conc) ?j (sy_lock s)" using inv round by (simp add: sync_inv_def)
  show ?thesis
  proof (cases "some_pending ?j")
    case True
    obtain j' lk' where rs: "start_round conc ?j (sy_lock s) = (j', lk')" by (cases "start_round conc ?j (sy_lock s)")
    have "move_ok (conc_bound conc) ?j (sy_lock s) j' lk'"
      using round_facts(1) [OF _ round(4) round(3) rs] ji by (simp add: job_inv_def)
    from put_job_inv [OF inv round(2) this] True show ?thesis by (simp add: round(1) after_round_def rs)
  next
    case False
    note put_job_inv [OF inv round(2) finish_move [OF ji round(3,4) False, of now]]
    then show ?thesis using False by (auto simp: round(1) after_round_def Let_def sync_inv_current heap_le_def)
  qed
qed

lemma new_job_ok: "pool_ok [] \<lparr>jb_id = i, jb_user = u, jb_status = JRunning, jb_started = n, jb_finished = None,
      jb_nodes = map pending_node xs, jb_cursor = 0, jb_workers = []\<rparr> lk"
  by (auto simp: pool_ok_def running_nodes_def pending_node_def)

lemma startSyncJob_cases:
  obtains (attach) p where "currentRunningJob u s = Some p"
      "snd (startSyncJob conc i now u xs s) =
         put_job p ((sy_heap s ! p)\<lparr>jb_nodes := append_missing xs (jb_nodes (sy_heap s ! p))\<rparr>, sy_lock s) s"
  | (fresh) j' lk' where "currentRunningJob u s = None"
      "start_round conc \<lparr>jb_id = i, jb_user = u, jb_status = JRunning, jb_started = now, jb_finished = None,
         jb_nodes = map pending_node xs, jb_cursor = 0, jb_workers = []\<rparr> (sy_lock s) = (j', lk')"
      "snd (startSyncJob conc i now u xs s) =
         s\<lparr>sy_heap := sy_heap s @ [j'], sy_lock := lk',
           sy_jobs := (sy_jobs s)(i := Some (length (sy_heap s))), sy_current := (sy_current s)(u := Some i)\<rparr>"
proof (cases "currentRunningJob u s")
  case (Some p)
  then show ?thesis by (intro attach) (simp_all add: startSyncJob_def Let_def)
next
  case None
  obtain j' lk' where r: "start_round conc \<lparr>jb_id = i, jb_user = u, jb_status = JRunning, jb_started = now, jb_finished = None,
         jb_nodes = map pending_node xs, jb_cursor = 0, jb_workers = []\<rparr> (sy_lock s) = (j', lk')"
    by (cases "start_round conc \<lparr>jb_id = i, jb_user = u, jb_status = JRunning, jb_started = now, jb_finished = None,
         jb_nodes = map pending_node xs, jb_cursor = 0, jb_workers = []\<rparr> (sy_lock s)")
  then show ?thesis using None by (intro fresh [OF None r]) (simp add: startSyncJob_def Let_def)
qed

lemma current_running:
  assumes "sync_inv conc s" and "currentRunningJob u s = Some p"
  shows "p < length (sy_heap s)" and "jb_status (sy_heap s ! p) = JRunning"
  using assms by (auto simp: currentRunningJob_def sync_inv_def split: option.splits if_splits)

lemma sync_step_inv:
  assumes inv: "sync_inv conc s" and step: "sync_step conc s s'"
  shows "sync_inv conc s' \<and> heap_le s s'"
  using step
proof cases
  case quiet
  then show ?thesis by (rule quiet_step_inv [OF inv])
next
  case (start i now u xs)
  show ?thesis
  proof (cases rule: startSyncJob_cases [of u s conc i now xs])
    case (attach p)
    note p = current_running [OF inv attach(1)]
    then have "job_inv (conc_bound conc) (sy_heap s ! p) (sy_lock s)" using inv by (simp add: sync_inv_def)
    from put_job_inv [OF inv p(1) append_facts(1) [OF this p(2)]] show ?thesis by (simp add: start attach(2))
  next
    case (fresh j' lk')
    let ?j = "\<lparr>jb_id = i, jb_user = u, jb_status = JRunning, jb_started = now, jb_finished = None,
         jb_nodes = map pending_node xs, jb_cursor = 0, jb_workers = []\<rparr>"
    have "move_ok (conc_bound conc) ?j (sy_lock s) j' lk'"
      by (rule round_facts(1) [OF _ _ _ fresh(2)]) (simp_all add: new_job_ok all_exited_def)
    with inv show ?thesis
      by (auto simp: start fresh(3) sync_inv_def heap_le_def move_ok_def nth_append less_Suc_eq intro: job_inv_lock)
  qed
next
  case (locked key)
  have "lock_inv (snd (withPathLock key (sy_lock s)))" using inv by (simp add: sync_inv_def lock_inv_call)
  from lock_change_inv [OF inv lock_ext_call this] show ?thesis by (simp add: locked heap_le_same)
next
  case (expired i p)
  then show ?thesis using inv by (auto simp: sync_inv_def heap_le_same)
qed

interpretation sync_jobs: run_relation "sync_step conc" "\<lambda>s s'. sync_inv conc s \<longrightarrow> sync_inv conc s' \<and> heap_le s s'"
  for conc
proof
  show "sync_inv conc s \<longrightarrow> sync_inv conc s \<and> heap_le s s" for s :: "'a sync_state" by (simp add: heap_le_same)
qed (blast intro: heap_le_trans, use sync_step_inv in blast)

lemma sync_inv_init: "sync_inv conc sync_init"
  by (simp add: sync_inv_def sync_init_def lock_inv_init)

lemma sync_reachable: "(sync_step conc)\<^sup>*\<^sup>* sync_init s \<Longrightarrow> sync_inv conc s"
  using sync_jobs.run_rel sync_inv_init by blast


section \<open>Jobs finish unless a node was appended behind the cursor\<close>

definition sync_work :: "'a sync_state \<Rightarrow> nat" where
  "sync_work s = lock_work (sy_lock s) + sum_list (map job_work (sy_heap s))"

definition none_skipped :: "'a sync_state \<Rightarrow> bool" where
  "none_skipped s \<longleftrightarrow> (\<forall>j \<in> set (sy_heap s). no_skip j)"

lemma put_job_work:
  assumes "p < length (sy_heap s)"
  shows "sync_work (put_job p (j', lk') s) + job_work (sy_heap s ! p) + lock_work (sy_lock s) =
           sync_work s + job_work j' + lock_work lk'"
  using sum_list_map_update [OF assms, of job_work j'] by (simp add: sync_work_def put_job_def)

lemma put_job_none_skipped:
  "none_skipped s \<Longrightarrow> no_skip j' \<Longrightarrow> none_skipped (put_job p (j', lk') s)"
  by (auto simp: none_skipped_def put_job_def dest: set_update_subset_insert [THEN subsetD])

lemma put_job_current [simp]: "sync_work (s\<lparr>sy_current := f\<rparr>) = sync_work s" "none_skipped (s\<lparr>sy_current := f\<rparr>) = none_skipped s"
  by (simp_all add: sync_work_def none_skipped_def)

lemma quiet_step_work:
  assumes inv: "sync_inv conc s" and c: "0 < conc_bound conc" and ns: "none_skipped s" and step: "quiet_step conc s s'"
  shows "sync_work s' < sync_work s \<and> none_skipped s'"
  using step
proof cases
  case (drained lk)
  then show ?thesis using drain_step_work [OF drained(2)] ns by (simp add: sync_work_def none_skipped_def)
next
  case (resumed p w i t r)
  obtain j' lk' where rs: "resume_worker w r (sy_heap s ! p) (sy_lock s) = (j', lk')"
    by (cases "resume_worker w r (sy_heap s ! p) (sy_lock s)")
  have ji: "job_inv (conc_bound conc) (sy_heap s ! p) (sy_lock s)" using inv resumed(2) by (simp add: sync_inv_def)
  have st: "jb_status (sy_heap s ! p) = JRunning" by (rule resume_move(2) [OF inv resumed(2-4) rs])
  note f = resume_facts [OF ji resumed(3,4) st rs]
  have "no_skip (sy_heap s ! p)" using ns resumed(2) by (simp add: none_skipped_def)
  then show ?thesis
    using put_job_work [OF resumed(2), of j' lk'] f(2,5) st put_job_none_skipped [OF ns f(6)]
    by (simp add: resumed(1) rs job_work_def)
next
  case (round p now)
  let ?j = "sy_heap s ! p"
  have ji: "job_inv (conc_bound conc) ?j (sy_lock s)" using inv round by (simp add: sync_inv_def)
  have skip: "no_skip ?j" using ns round(2) by (simp add: none_skipped_def)
  show ?thesis
  proof (cases "some_pending ?j")
    case True
    obtain j' lk' where rs: "start_round conc ?j (sy_lock s) = (j', lk')" by (cases "start_round conc ?j (sy_lock s)")
    have pool: "pool_ok (jb_workers ?j) ?j (sy_lock s)" using ji by (simp add: job_inv_def)
    note f = round_facts [OF pool round(4) round(3) rs]
    from True obtain k where "k < length (jb_nodes ?j)" "jn_status (jb_nodes ?j ! k) = NPending"
      by (auto simp: some_pending_def in_set_conv_nth)
    with skip have "jb_cursor ?j < length (jb_nodes ?j)" by (auto simp: no_skip_def)
    with c have "0 < pool_size conc ?j" by (auto simp: pool_size_def conc_bound_def split: option.splits)
    then show ?thesis
      using put_job_work [OF round(2), of j' lk'] f(2,4) round(3) True put_job_none_skipped [OF ns f(5) [OF skip]]
      by (simp add: round(1) after_round_def rs job_work_def)
  next
    case False
    let ?d = "?j\<lparr>jb_status := JDone, jb_finished := Some now\<rparr>"
    have "no_skip ?d" using skip by (simp add: no_skip_def)
    moreover have "Suc (job_work ?d) = job_work ?j" using round(3) by (simp add: job_work_def nodes_work_def)
    ultimately show ?thesis
      using False put_job_work [OF round(2), of ?d "sy_lock s"] put_job_none_skipped [OF ns, of ?d]
      by (auto simp: round(1) after_round_def Let_def)
  qed
qed

lemma quiet_possible:
  assumes inv: "sync_inv conc s" and p: "p < length (sy_heap s)" "jb_status (sy_heap s ! p) = JRunning"
  shows "\<exists>s'. quiet_step conc s s'"
proof (cases "all_exited (sy_heap s ! p)")
  case True
  then show ?thesis using quiet_step.round [OF p] by blast
next
  case False
  let ?j = "sy_heap s ! p"
  from False obtain w where w: "w < length (jb_workers ?j)" "jb_workers ?j ! w \<noteq> Exited"
    by (auto simp: all_exited_def in_set_conv_nth)
  then obtain i t where b: "jb_workers ?j ! w = Busy i t" by (cases "jb_workers ?j ! w") auto
  then have "worker_ok ?j (sy_lock s) (Busy i t)"
    using inv p w nth_mem [OF w(1)] by (auto simp: sync_inv_def job_inv_def pool_ok_def)
  then have t: "t < length (lk_tasks (sy_lock s))" by (simp add: worker_ok_def)
  show ?thesis
  proof (cases "lt_phase (lk_tasks (sy_lock s) ! t)")
    case (Settled r)
    from quiet_step.resumed [OF p(1) w(1) b Settled] show ?thesis by blast
  next
    case Waiting
    with drain_possible [OF _ t] inv have "\<exists>lk. drain_step (sy_lock s) lk" by (simp add: sync_inv_def)
    then show ?thesis using quiet_step.drained by blast
  next
    case Running
    with drain_possible [OF _ t] inv have "\<exists>lk. drain_step (sy_lock s) lk" by (simp add: sync_inv_def)
    then show ?thesis using quiet_step.drained by blast
  qed
qed

lemma stuck_never_done:
  assumes "sync_inv conc s" and "p < length (sy_heap s)" and "stuck k (sy_heap s ! p)"
  shows "jb_status (sy_heap s ! p) = JRunning"
proof (cases "jb_status (sy_heap s ! p)")
  case JDone
  have "jb_nodes (sy_heap s ! p) ! k \<in> set (jb_nodes (sy_heap s ! p))" "jn_status (jb_nodes (sy_heap s ! p) ! k) = NPending"
    using assms(3) by (simp_all add: stuck_def)
  moreover have "job_inv (conc_bound conc) (sy_heap s ! p) (sy_lock s)" using assms(1,2) by (simp add: sync_inv_def)
  ultimately show ?thesis using JDone by (force simp: job_inv_def)
qed

lemma running_card:
  assumes "job_inv c j lk"
  shows "card (running_nodes j) \<le> c"
proof -
  have "card (running_nodes j) = length (busy_nodes (jb_workers j))"
    using assms by (metis job_inv_def pool_ok_def distinct_card)
  also have "\<dots> \<le> c" using assms length_busy_nodes [of "jb_workers j"] by (simp add: job_inv_def)
  finally show ?thesis .
qed

text \<open>A round that finds the cursor past the end and a node pending changes nothing, and is followed by another.\<close>

lemma empty_round_spins:
  assumes "some_pending (sy_heap s ! p)" and "jb_workers (sy_heap s ! p) = [] " and "pool_size conc (sy_heap s ! p) = 0"
  shows "after_round conc now p s = s"
proof -
  have same: "(sy_heap s ! p)\<lparr>jb_workers := []\<rparr> = sy_heap s ! p" using assms(2) by (cases "sy_heap s ! p") simp
  have "after_round conc now p s = s\<lparr>sy_heap := (sy_heap s)[p := (sy_heap s ! p)\<lparr>jb_workers := []\<rparr>]\<rparr>"
    using assms(1,3) by (simp add: after_round_def start_round_def put_job_def)
  then show ?thesis unfolding same by simp
qed

lemma nan_concurrency_spins:
  "pool_size (JOB_CONCURRENCY (Some None)) j = 0"
  by (simp add: pool_size_def JOB_CONCURRENCY_def)

lemma concurrency_positive: "JOB_CONCURRENCY env = Some c \<Longrightarrow> 1 \<le> c"
  by (auto simp: JOB_CONCURRENCY_def split: option.splits)


section \<open>A run\<close>

text \<open>
  Three workers on three nodes; the first node is done and its worker returns; then the user, who
  sees the job running, asks for a fourth node.
\<close>

definition started :: "string sync_state" where
  "started = snd (startSyncJob (JOB_CONCURRENCY None) ''J1'' 7 ''U'' [''A'', ''B'', ''C''] sync_init)"

definition one_settled :: "string sync_state" where
  "one_settled = started\<lparr>sy_lock := release 0 (Inr ''ok'') (set_phase 0 Running (sy_lock started))\<rparr>"

definition one_returned :: "string sync_state" where
  "one_returned = put_job 0 (resume_worker 0 (Inr ''ok'') (sy_heap one_settled ! 0) (sy_lock one_settled)) one_settled"

definition late_append :: "string sync_state" where
  "late_append = snd (startSyncJob (JOB_CONCURRENCY None) ''J2'' 8 ''U'' [''D''] one_returned)"

lemma started_run: "(sync_step (Some 3))\<^sup>*\<^sup>* sync_init started"
proof -
  have "sync_step (Some 3) sync_init started"
    using sync_step.start [of "Some 3" sync_init "''J1''" 7 "''U''" "[''A'', ''B'', ''C'']"]
    by (simp add: started_def JOB_CONCURRENCY_def)
  then show ?thesis by blast
qed

lemma one_settled_run: "(sync_step (Some 3))\<^sup>*\<^sup>* sync_init one_settled"
proof -
  let ?l = "sy_lock started" and ?m = "started\<lparr>sy_lock := set_phase 0 Running (sy_lock started)\<rparr>"
  have "drain_step ?l (set_phase 0 Running ?l)" by (rule drain_step.enter) code_simp
  then have 1: "sync_step (Some 3) started ?m" by (intro sync_step.quiet quiet_step.drained)
  have "drain_step (sy_lock ?m) (release 0 (Inr ''ok'') (sy_lock ?m))" by (rule drain_step.leave) code_simp
  then have "sync_step (Some 3) ?m (?m\<lparr>sy_lock := release 0 (Inr ''ok'') (sy_lock ?m)\<rparr>)"
    by (intro sync_step.quiet quiet_step.drained)
  then have 2: "sync_step (Some 3) ?m one_settled" by (simp add: one_settled_def)
  show ?thesis
    by (rule rtranclp.rtrancl_into_rtrancl [OF rtranclp.rtrancl_into_rtrancl [OF started_run 1] 2])
qed

lemma one_returned_run: "(sync_step (Some 3))\<^sup>*\<^sup>* sync_init one_returned"
proof -
  have "sync_step (Some 3) one_settled one_returned"
    unfolding one_returned_def
    by (intro sync_step.quiet quiet_step.resumed [where i = 0 and t = 0]; code_simp)
  then show ?thesis by (rule rtranclp.rtrancl_into_rtrancl [OF one_settled_run])
qed

lemma late_append_run: "(sync_step (Some 3))\<^sup>*\<^sup>* sync_init late_append"
proof -
  have "sync_step (Some 3) one_returned late_append"
    using sync_step.start [of "Some 3" one_returned "''J2''" 8 "''U''" "[''D'']"]
    by (simp add: late_append_def JOB_CONCURRENCY_def)
  then show ?thesis by (rule rtranclp.rtrancl_into_rtrancl [OF one_returned_run])
qed

section \<open>Properties\<close>

text \<open>
  a node is synced once and never together with itself.  In every reachable state and along every
  later run, a job keeps its nodes in their order, no status goes back, a node that finished keeps
  its result or error for ever, no job runs more nodes than the concurrency, and two functions that
  run under the lock of one node, for whatever jobs and requests, are the same.
\<close>

theorem sync_nodes_run_once:
  assumes "(sync_step conc)\<^sup>*\<^sup>* sync_init s" and "(sync_step conc)\<^sup>*\<^sup>* s s'" and "p < length (sy_heap s)"
  shows "job_le (sy_heap s ! p) (sy_heap s' ! p) \<and>
         card {i. i < length (jb_nodes (sy_heap s ! p)) \<and> jn_status (jb_nodes (sy_heap s ! p) ! i) = NRunning} \<le> conc_bound conc \<and>
         (\<forall>t < length (lk_tasks (sy_lock s)). \<forall>u < length (lk_tasks (sy_lock s)).
            lt_phase (lk_tasks (sy_lock s) ! t) = Running \<and> lt_phase (lk_tasks (sy_lock s) ! u) = Running \<and>
            lt_key (lk_tasks (sy_lock s) ! t) = lt_key (lk_tasks (sy_lock s) ! u) \<longrightarrow> t = u)"
proof (intro conjI allI impI)
  have inv: "sync_inv conc s" by (rule sync_reachable [OF assms(1)])
  show "job_le (sy_heap s ! p) (sy_heap s' ! p)"
    using sync_jobs.run_rel [OF assms(2)] inv assms(3) by (simp add: heap_le_def)
  show "card {i. i < length (jb_nodes (sy_heap s ! p)) \<and> jn_status (jb_nodes (sy_heap s ! p) ! i) = NRunning} \<le> conc_bound conc"
    using inv assms(3) running_card [unfolded running_nodes_def] by (auto simp: sync_inv_def)
  fix t u
  assume "t < length (lk_tasks (sy_lock s))" "u < length (lk_tasks (sy_lock s))"
    "lt_phase (lk_tasks (sy_lock s) ! t) = Running \<and> lt_phase (lk_tasks (sy_lock s) ! u) = Running \<and>
     lt_key (lk_tasks (sy_lock s) ! t) = lt_key (lk_tasks (sy_lock s) ! u)"
  then show "t = u" using lock_exclusive [of "sy_lock s" t u] inv by (simp add: sync_inv_def)
qed

theorem sync_nodes_run_once_witness:
  "job_le (sy_heap started ! 0) (sy_heap started ! 0) \<and>
   map jn_status (jb_nodes (sy_heap one_returned ! 0)) = [NDone, NRunning, NRunning]"
proof
  have p: "0 < length (sy_heap started)" by code_simp
  show "job_le (sy_heap started ! 0) (sy_heap started ! 0)"
    using sync_nodes_run_once [OF started_run rtranclp.rtrancl_refl p] by simp
  show "map jn_status (jb_nodes (sy_heap one_returned ! 0)) = [NDone, NRunning, NRunning]" by code_simp
qed

text \<open>
  C27: jobs terminate.  As long as no node was appended behind a job's cursor, and the concurrency is a
  number, every step that is not a new request brings the end nearer, whatever order the steps come
  in and however the functions settle, and when no step is left every job is done and every one of
  its nodes has finished.
\<close>

theorem sync_jobs_terminate:
  assumes "(sync_step conc)\<^sup>*\<^sup>* sync_init s" and "conc = JOB_CONCURRENCY env" and "conc \<noteq> None" and "none_skipped s"
  shows "(\<forall>s'. quiet_step conc s s' \<longrightarrow> sync_work s' < sync_work s \<and> none_skipped s') \<and>
         ((\<exists>s'. quiet_step conc s s') \<or>
          (\<forall>j \<in> set (sy_heap s). jb_status j = JDone \<and> (\<forall>n \<in> set (jb_nodes j). finished_status (jn_status n))))"
proof
  have inv: "sync_inv conc s" by (rule sync_reachable [OF assms(1)])
  obtain c0 where "conc = Some c0" using assms(3) by blast
  moreover from this concurrency_positive [of env c0] assms(2) have "1 \<le> c0" by simp
  ultimately have c: "0 < conc_bound conc" by (simp add: conc_bound_def)
  show "\<forall>s'. quiet_step conc s s' \<longrightarrow> sync_work s' < sync_work s \<and> none_skipped s'"
    using quiet_step_work [OF inv c assms(4)] by blast
  have "jb_status j = JDone \<and> (\<forall>n \<in> set (jb_nodes j). finished_status (jn_status n))"
    if "j \<in> set (sy_heap s)" "\<nexists>s'. quiet_step conc s s'" for j
  proof -
    from that(1) obtain p where p: "p < length (sy_heap s)" "j = sy_heap s ! p" by (metis in_set_conv_nth)
    have "jb_status j = JDone" using quiet_possible [OF inv p(1)] that(2) p(2) by (cases "jb_status j") auto
    then show ?thesis using inv p by (simp add: sync_inv_def job_inv_def)
  qed
  then show "(\<exists>s'. quiet_step conc s s') \<or>
      (\<forall>j \<in> set (sy_heap s). jb_status j = JDone \<and> (\<forall>n \<in> set (jb_nodes j). finished_status (jn_status n)))"
    by blast
qed

theorem sync_jobs_terminate_witness:
  "\<exists>s'. quiet_step (Some 3) one_settled s' \<and> sync_work s' < 8 \<and> none_skipped s'"
proof -
  have env: "Some 3 = JOB_CONCURRENCY None" by code_simp
  have ns: "none_skipped one_settled"
    unfolding none_skipped_def no_skip_list by code_simp
  have work: "sync_work one_settled = 8" by code_simp
  have "list_ex (\<lambda>j. jb_status j \<noteq> JDone) (sy_heap one_settled)" by code_simp
  then have "\<exists>j \<in> set (sy_heap one_settled). jb_status j \<noteq> JDone" by (simp add: list_ex_iff)
  with sync_jobs_terminate [OF one_settled_run env _ ns] work show ?thesis by auto
qed


text \<open>
  a node appended behind the cursor is lost.  Once the cursor of a job has passed a pending node,
  which happens when a second request adds a node after a worker of the running job has returned,
  no step ever runs that node and the job never finishes; when the other workers have returned too,
  the loop of \<open>runJob\<close> starts round after round with no worker and changes nothing.
\<close>

theorem late_node_is_lost:
  assumes "(sync_step conc)\<^sup>*\<^sup>* sync_init s" and "p < length (sy_heap s)" and "stuck k (sy_heap s ! p)"
    and "(sync_step conc)\<^sup>*\<^sup>* s s'"
  shows "jn_status (jb_nodes (sy_heap s' ! p) ! k) = NPending \<and> jb_status (sy_heap s' ! p) = JRunning \<and>
         (jb_workers (sy_heap s' ! p) = [] \<and> length (jb_nodes (sy_heap s' ! p)) \<le> jb_cursor (sy_heap s' ! p) \<longrightarrow>
          after_round conc now p s' = s')"
proof (intro conjI impI)
  have inv: "sync_inv conc s" by (rule sync_reachable [OF assms(1)])
  with sync_jobs.run_rel [OF assms(4)] assms(2,3)
  have inv': "sync_inv conc s'" and p: "p < length (sy_heap s')" and k: "stuck k (sy_heap s' ! p)"
    by (auto simp: heap_le_def)
  from k show "jn_status (jb_nodes (sy_heap s' ! p) ! k) = NPending" by (simp add: stuck_def)
  show "jb_status (sy_heap s' ! p) = JRunning" by (rule stuck_never_done [OF inv' p k])
  assume w: "jb_workers (sy_heap s' ! p) = [] \<and> length (jb_nodes (sy_heap s' ! p)) \<le> jb_cursor (sy_heap s' ! p)"
  have "some_pending (sy_heap s' ! p)" using k by (auto simp: stuck_def some_pending_def intro: nth_mem)
  then show "after_round conc now p s' = s'"
    using w by (intro empty_round_spins) (auto simp: pool_size_def split: option.split)
qed

theorem late_node_is_lost_witness:
  "jn_status (jb_nodes (sy_heap late_append ! 0) ! 3) = NPending \<and> jb_status (sy_heap late_append ! 0) = JRunning \<and>
   jn_id (jb_nodes (sy_heap late_append ! 0) ! 3) = ''D''"
proof -
  have p: "0 < length (sy_heap late_append)" and k: "stuck 3 (sy_heap late_append ! 0)"
    and d: "jn_id (jb_nodes (sy_heap late_append ! 0) ! 3) = ''D''"
    by code_simp+
  show ?thesis using late_node_is_lost [OF late_append_run p k rtranclp.rtrancl_refl] d by simp
qed

end
