(* ===== verification/FileRelocation.thy ===== *)
theory FileRelocation
  imports OrgInvariant
begin

text \<open>
  Moving an object on a remote, \<^verbatim>\<open>apps/server/domain/sync/file-relocation.ts\<close>, over the file adapter of
  \<^verbatim>\<open>apps/server/domain/sync/types.ts\<close>.  A backend is code and a service outside the repository, so the
  adapter is a parameter: a record of functions on a state of its own type, each of which answers
  or fails.  \<open>adapter_ok\<close> names what the code relies on: a listed view \<open>objs\<close> of the objects, which
  reads leave alone and report, and which a write changes at its own paths only; a write that
  reports an error may have done any part of its work.
\<close>

record file_ref =
  fr_hash :: "string option"
  fr_native :: bool
  fr_object :: "string option"      \<comment> \<open>remote_file_id\<close>

record 'r adapter =
  ad_open :: "string \<Rightarrow> 'r \<Rightarrow> (string + unit) \<times> 'r"
  ad_stat :: "string \<Rightarrow> string \<Rightarrow> 'r \<Rightarrow> (string + file_ref option) \<times> 'r"
  ad_get :: "string \<Rightarrow> string \<Rightarrow> 'r \<Rightarrow> (string + string) \<times> 'r"
  ad_put :: "string \<Rightarrow> string \<Rightarrow> string \<Rightarrow> 'r \<Rightarrow> (string + string option) \<times> 'r"   \<comment> \<open>the object's id\<close>
  ad_delete :: "string \<Rightarrow> string \<Rightarrow> 'r \<Rightarrow> (string + unit) \<times> 'r"
  ad_rename :: "string \<Rightarrow> string \<Rightarrow> string \<Rightarrow> 'r \<Rightarrow> (string + unit) \<times> 'r"
  ad_list :: "string \<Rightarrow> string \<Rightarrow> 'r \<Rightarrow> (string + (string \<times> file_ref) list) \<times> 'r"   \<comment> \<open>by path\<close>

type_synonym objects = "string \<times> string \<Rightarrow> string option"

definition adapter_ok :: "'r adapter \<Rightarrow> ('r \<Rightarrow> objects) \<Rightarrow> bool" where
  "adapter_ok ad objs \<longleftrightarrow>
     (\<forall>n p r. objs (snd (ad_list ad n p r)) = objs r \<and>
        (\<forall>refs. fst (ad_list ad n p r) = Inr refs \<longrightarrow> (\<forall>x \<in> set refs. objs r (n, fst x) \<noteq> None))) \<and>
     (\<forall>n r. objs (snd (ad_open ad n r)) = objs r) \<and>
     (\<forall>n p r. objs (snd (ad_stat ad n p r)) = objs r \<and>
        (\<forall>v. fst (ad_stat ad n p r) = Inr v \<longrightarrow> (v = None) = (objs r (n, p) = None))) \<and>
     (\<forall>n p r. objs (snd (ad_get ad n p r)) = objs r \<and>
        (\<forall>c. fst (ad_get ad n p r) = Inr c \<longrightarrow> objs r (n, p) = Some c)) \<and>
     (\<forall>n p c r. (\<forall>k. k \<noteq> (n, p) \<longrightarrow> objs (snd (ad_put ad n p c r)) k = objs r k) \<and>
        (\<forall>i. fst (ad_put ad n p c r) = Inr i \<longrightarrow> objs (snd (ad_put ad n p c r)) (n, p) = Some c)) \<and>
     (\<forall>n p r. (\<forall>k. k \<noteq> (n, p) \<longrightarrow> objs (snd (ad_delete ad n p r)) k = objs r k) \<and>
        (objs (snd (ad_delete ad n p r)) (n, p) = None \<or>
         (fst (ad_delete ad n p r) \<noteq> Inr () \<and> objs (snd (ad_delete ad n p r)) (n, p) = objs r (n, p)))) \<and>
     (\<forall>n p q r. p \<noteq> q \<longrightarrow>
        (\<forall>k. k \<noteq> (n, p) \<longrightarrow> k \<noteq> (n, q) \<longrightarrow> objs (snd (ad_rename ad n p q r)) k = objs r k) \<and>
        (objs (snd (ad_rename ad n p q r)) (n, p) = objs r (n, p) \<or>
         objs (snd (ad_rename ad n p q r)) (n, q) = objs r (n, p)) \<and>
        (objs (snd (ad_rename ad n p q r)) (n, p) = objs r (n, p) \<or> objs (snd (ad_rename ad n p q r)) (n, p) = None) \<and>
        (fst (ad_rename ad n p q r) = Inr () \<longrightarrow>
           objs (snd (ad_rename ad n p q r)) (n, p) = None \<and> objs (snd (ad_rename ad n p q r)) (n, q) = objs r (n, p)))"

record relocate_params =
  rl_from_name :: string
  rl_from_path :: string
  rl_to_name :: string
  rl_to_path :: string
  rl_copied :: bool

datatype relocate_status = Moved | AlreadyAtTarget
datatype relocate_phase = Copy | DeleteSource

definition both_exist :: "string \<Rightarrow> string \<Rightarrow> string" where
  "both_exist p q = ''both '' @ p @ '' and '' @ q @ '' exist on the remote''"

definition neither_exists :: "string \<Rightarrow> string \<Rightarrow> string" where
  "neither_exists p q = ''neither '' @ p @ '' nor '' @ q @ '' exists on the remote''"

definition non_empty :: "string option \<Rightarrow> bool" where
  "non_empty s \<longleftrightarrow> (case s of Some (c # cs) \<Rightarrow> True | _ \<Rightarrow> False)"

definition same_content :: "file_ref \<Rightarrow> file_ref \<Rightarrow> bool" where
  "same_content a b =
     (if non_empty (fr_hash a) \<and> non_empty (fr_hash b) \<and> length (the (fr_hash a)) = length (the (fr_hash b))
      then js_lower (the (fr_hash a)) = js_lower (the (fr_hash b)) else True)"

text \<open>The stat of both sides; the adapter of the target is the source's when they are one remote.\<close>

definition stat_both ::
  "'r adapter \<Rightarrow> relocate_params \<Rightarrow> 'r \<Rightarrow> (string + file_ref option \<times> file_ref option) \<times> 'r" where
  "stat_both ad p r =
     (case ad_open ad (rl_from_name p) r of
        (Inl e, r1) \<Rightarrow> (Inl e, r1)
      | (Inr _, r1) \<Rightarrow>
          (case (if rl_to_name p = rl_from_name p then (Inr (), r1) else ad_open ad (rl_to_name p) r1) of
             (Inl e, r2) \<Rightarrow> (Inl e, r2)
           | (Inr _, r2) \<Rightarrow>
               (case ad_stat ad (rl_from_name p) (rl_from_path p) r2 of
                  (a, r3) \<Rightarrow>
                    (case ad_stat ad (rl_to_name p) (rl_to_path p) r3 of
                       (b, r4) \<Rightarrow>
                         (case a of Inl e \<Rightarrow> (Inl e, r4)
                          | Inr x \<Rightarrow> (case b of Inl e \<Rightarrow> (Inl e, r4) | Inr y \<Rightarrow> (Inr (x, y), r4)))))))"

text \<open>The two ways an object gets to its target, with the phase the callback reported last.\<close>

definition transfer ::
  "'r adapter \<Rightarrow> relocate_params \<Rightarrow> 'r \<Rightarrow> (string + relocate_status) \<times> relocate_phase option \<times> 'r" where
  "transfer ad p r =
     (if rl_to_name p = rl_from_name p
      then (case ad_rename ad (rl_from_name p) (rl_from_path p) (rl_to_path p) r of
              (Inl e, r1) \<Rightarrow> (Inl e, Some Copy, r1)
            | (Inr _, r1) \<Rightarrow> (Inr Moved, Some Copy, r1))
      else (case ad_get ad (rl_from_name p) (rl_from_path p) r of
              (Inl e, r1) \<Rightarrow> (Inl e, Some Copy, r1)
            | (Inr c, r1) \<Rightarrow>
                (case ad_put ad (rl_to_name p) (rl_to_path p) c r1 of
                   (Inl e, r2) \<Rightarrow> (Inl e, Some Copy, r2)
                 | (Inr _, r2) \<Rightarrow>
                     (case ad_delete ad (rl_from_name p) (rl_from_path p) r2 of
                        (Inl e, r3) \<Rightarrow> (Inl e, Some DeleteSource, r3)
                      | (Inr _, r3) \<Rightarrow> (Inr Moved, Some DeleteSource, r3)))))"

definition relocateRemoteObject ::
  "'r adapter \<Rightarrow> relocate_params \<Rightarrow> 'r \<Rightarrow> (string + relocate_status) \<times> relocate_phase option \<times> 'r" where
  "relocateRemoteObject ad p r =
     (if rl_from_name p = rl_to_name p \<and> rl_from_path p = rl_to_path p then (Inr AlreadyAtTarget, None, r)
      else (case stat_both ad p r of
              (Inl e, r1) \<Rightarrow> (Inl e, None, r1)
            | (Inr (Some a, Some b), r1) \<Rightarrow>
                (if rl_copied p \<and> same_content a b
                 then (case ad_delete ad (rl_from_name p) (rl_from_path p) r1 of
                         (Inl e, r2) \<Rightarrow> (Inl e, Some DeleteSource, r2)
                       | (Inr _, r2) \<Rightarrow> (Inr Moved, Some DeleteSource, r2))
                 else (Inl (both_exist (rl_from_path p) (rl_to_path p)), None, r1))
            | (Inr (None, None), r1) \<Rightarrow> (Inl (neither_exists (rl_from_path p) (rl_to_path p)), None, r1)
            | (Inr (None, Some _), r1) \<Rightarrow> (Inr AlreadyAtTarget, None, r1)
            | (Inr (Some _, None), r1) \<Rightarrow> transfer ad p r1))"

section \<open>What a relocation does to the objects\<close>

lemma adapter_open: "adapter_ok ad objs \<Longrightarrow> ad_open ad n r = (v, r') \<Longrightarrow> objs r' = objs r"
  unfolding adapter_ok_def by (metis snd_conv)

lemma adapter_list:
  assumes "adapter_ok ad objs" and "ad_list ad n p r = (v, r')"
  shows "objs r' = objs r" and "v = Inr refs \<Longrightarrow> x \<in> set refs \<Longrightarrow> objs r (n, fst x) \<noteq> None"
  using assms unfolding adapter_ok_def by (metis snd_conv, metis fst_conv)

lemma adapter_stat:
  assumes "adapter_ok ad objs" and "ad_stat ad n p r = (v, r')"
  shows "objs r' = objs r" and "v = Inr w \<Longrightarrow> (w = None) = (objs r (n, p) = None)"
  using assms unfolding adapter_ok_def by (metis snd_conv, metis fst_conv)

lemma adapter_get:
  assumes "adapter_ok ad objs" and "ad_get ad n p r = (v, r')"
  shows "objs r' = objs r" and "v = Inr c \<Longrightarrow> objs r (n, p) = Some c"
  using assms unfolding adapter_ok_def by (metis snd_conv, metis fst_conv)

lemma adapter_put:
  assumes "adapter_ok ad objs" and "ad_put ad n p c r = (v, r')"
  shows "k \<noteq> (n, p) \<Longrightarrow> objs r' k = objs r k" and "v = Inr i \<Longrightarrow> objs r' (n, p) = Some c"
  using assms unfolding adapter_ok_def by (metis snd_conv, metis fst_conv snd_conv)

lemma adapter_delete:
  assumes "adapter_ok ad objs" and "ad_delete ad n p r = (v, r')"
  shows "k \<noteq> (n, p) \<Longrightarrow> objs r' k = objs r k" and "v = Inr () \<Longrightarrow> objs r' (n, p) = None"
    and "objs r' (n, p) = None \<or> objs r' (n, p) = objs r (n, p)"
  using assms unfolding adapter_ok_def by (metis snd_conv, metis fst_conv snd_conv, metis snd_conv)

lemma adapter_rename:
  assumes "adapter_ok ad objs" and "ad_rename ad n p q r = (v, r')" and "p \<noteq> q"
  shows "k \<noteq> (n, p) \<Longrightarrow> k \<noteq> (n, q) \<Longrightarrow> objs r' k = objs r k"
    and "objs r' (n, p) = objs r (n, p) \<or> objs r' (n, q) = objs r (n, p)"
    and "v = Inr () \<Longrightarrow> objs r' (n, p) = None \<and> objs r' (n, q) = objs r (n, p)"
    and "objs r' (n, p) = objs r (n, p) \<or> objs r' (n, p) = None"
proof -
  have law: "(\<forall>k. k \<noteq> (n, p) \<longrightarrow> k \<noteq> (n, q) \<longrightarrow> objs (snd (ad_rename ad n p q r)) k = objs r k) \<and>
      (objs (snd (ad_rename ad n p q r)) (n, p) = objs r (n, p) \<or> objs (snd (ad_rename ad n p q r)) (n, q) = objs r (n, p)) \<and>
      (objs (snd (ad_rename ad n p q r)) (n, p) = objs r (n, p) \<or> objs (snd (ad_rename ad n p q r)) (n, p) = None) \<and>
      (fst (ad_rename ad n p q r) = Inr () \<longrightarrow>
         objs (snd (ad_rename ad n p q r)) (n, p) = None \<and> objs (snd (ad_rename ad n p q r)) (n, q) = objs r (n, p))"
    using assms(1) [unfolded adapter_ok_def, THEN conjunct2, THEN conjunct2, THEN conjunct2, THEN conjunct2, THEN conjunct2, THEN conjunct2]
      assms(3) by simp
  note law = law [unfolded assms(2) fst_conv snd_conv]
  show "k \<noteq> (n, p) \<Longrightarrow> k \<noteq> (n, q) \<Longrightarrow> objs r' k = objs r k"
    by (rule law [THEN conjunct1, THEN spec, THEN mp, THEN mp])
  show "objs r' (n, p) = objs r (n, p) \<or> objs r' (n, q) = objs r (n, p)"
    by (rule law [THEN conjunct2, THEN conjunct1])
  show "v = Inr () \<Longrightarrow> objs r' (n, p) = None \<and> objs r' (n, q) = objs r (n, p)"
    by (rule law [THEN conjunct2, THEN conjunct2, THEN conjunct2, THEN mp])
  show "objs r' (n, p) = objs r (n, p) \<or> objs r' (n, p) = None"
    by (rule law [THEN conjunct2, THEN conjunct2, THEN conjunct1])
qed

lemma stat_both_objs:
  assumes "adapter_ok ad objs" and "stat_both ad p r = (v, r')"
  shows "objs r' = objs r"
    and "v = Inr (a, b) \<Longrightarrow> (a = None) = (objs r (rl_from_name p, rl_from_path p) = None) \<and>
           (b = None) = (objs r (rl_to_name p, rl_to_path p) = None)"
proof -
  show eq: "objs r' = objs r"
    using assms(2) by (auto simp: stat_both_def split: prod.splits sum.splits if_splits
        dest!: adapter_open [OF assms(1)] adapter_stat(1) [OF assms(1)])
  show "(a = None) = (objs r (rl_from_name p, rl_from_path p) = None) \<and>
      (b = None) = (objs r (rl_to_name p, rl_to_path p) = None)" if v: "v = Inr (a, b)"
  proof -
    obtain r2 r3 where a: "ad_stat ad (rl_from_name p) (rl_from_path p) r2 = (Inr a, r3)"
      and b: "ad_stat ad (rl_to_name p) (rl_to_path p) r3 = (Inr b, r')"
      using assms(2) v by (auto simp: stat_both_def split: prod.splits sum.splits)
    note adapter_stat [OF assms(1) a] adapter_stat [OF assms(1) b]
    then show ?thesis using eq by simp
  qed
qed


abbreviation (input) from_key :: "relocate_params \<Rightarrow> string \<times> string" where
  "from_key p \<equiv> (rl_from_name p, rl_from_path p)"

abbreviation (input) to_key :: "relocate_params \<Rightarrow> string \<times> string" where
  "to_key p \<equiv> (rl_to_name p, rl_to_path p)"

text \<open>What holds of a relocation from the objects \<open>o1\<close> to \<open>o2\<close>, whatever call failed.\<close>

definition relocated :: "relocate_params \<Rightarrow> objects \<Rightarrow> objects \<Rightarrow> (string + relocate_status) \<Rightarrow> relocate_phase option \<Rightarrow> bool" where
  "relocated p o1 o2 v ph \<longleftrightarrow>
     (\<forall>k. k \<noteq> from_key p \<longrightarrow> k \<noteq> to_key p \<longrightarrow> o2 k = o1 k) \<and>
     (o1 (to_key p) \<noteq> None \<longrightarrow> o2 (to_key p) = o1 (to_key p)) \<and>
     (o1 (to_key p) = None \<longrightarrow> o2 (from_key p) = o1 (from_key p) \<or> o2 (to_key p) = o1 (from_key p)) \<and>
     (\<not> rl_copied p \<longrightarrow> o1 (to_key p) \<noteq> None \<longrightarrow> o2 = o1) \<and>
     (ph = Some DeleteSource \<longrightarrow> o1 (to_key p) = None \<longrightarrow> o2 (to_key p) = o1 (from_key p)) \<and>
     (ph = Some DeleteSource \<longrightarrow> \<not> rl_copied p \<longrightarrow> o1 (to_key p) = None) \<and>
     (o2 (from_key p) = o1 (from_key p) \<or> o2 (from_key p) = None) \<and>
     (\<forall>st. v = Inr st \<longrightarrow> o2 (from_key p) = None \<and> o2 (to_key p) \<noteq> None \<and>
        (o1 (to_key p) = None \<longrightarrow> o2 (to_key p) = o1 (from_key p)))"

lemma transfer_relocates:
  assumes ad: "adapter_ok ad objs" and ne: "from_key p \<noteq> to_key p"
    and free: "objs r (to_key p) = None" and full: "objs r (from_key p) \<noteq> None"
    and step: "transfer ad p r = (v, ph, r')"
  shows "relocated p (objs r) (objs r') v ph"
proof (cases "rl_to_name p = rl_from_name p")
  case True
  obtain v1 r1 where rn: "ad_rename ad (rl_from_name p) (rl_from_path p) (rl_to_path p) r = (v1, r1)"
    by (cases "ad_rename ad (rl_from_name p) (rl_from_path p) (rl_to_path p) r")
  then have r': "r' = r1" "ph = Some Copy" "v = (case v1 of Inl e \<Rightarrow> Inl e | Inr _ \<Rightarrow> Inr Moved)"
    using step True by (auto simp: transfer_def split: sum.splits)
  have "rl_from_path p \<noteq> rl_to_path p" using ne True by simp
  note law = adapter_rename [OF ad rn this]
  show ?thesis
    using law(1) law(2) law(3) law(4) free full True
    by (auto simp: relocated_def r' split: sum.splits)
next
  case False
  obtain v1 r1 where gt: "ad_get ad (rl_from_name p) (rl_from_path p) r = (v1, r1)"
    by (cases "ad_get ad (rl_from_name p) (rl_from_path p) r")
  note get = adapter_get [OF ad gt]
  show ?thesis
  proof (cases v1)
    case (Inl e)
    then show ?thesis using step False gt get free by (auto simp: transfer_def relocated_def)
  next
    case (Inr c)
    obtain v2 r2 where pt: "ad_put ad (rl_to_name p) (rl_to_path p) c r1 = (v2, r2)"
      by (cases "ad_put ad (rl_to_name p) (rl_to_path p) c r1")
    note put = adapter_put [OF ad pt]
    have c: "objs r (from_key p) = Some c" using get(2) [OF Inr] .
    show ?thesis
    proof (cases v2)
      case (Inl e)
      then have "v = Inl e" "ph = Some Copy" "r' = r2" using step False gt Inr pt by (simp_all add: transfer_def)
      with put(1) get(1) ne free show ?thesis by (auto simp: relocated_def)
    next
      case (Inr u)
      obtain v3 r3 where dl: "ad_delete ad (rl_from_name p) (rl_from_path p) r2 = (v3, r3)"
        by (cases "ad_delete ad (rl_from_name p) (rl_from_path p) r2")
      note del = adapter_delete [OF ad dl]
      have r': "r' = r3" "ph = Some DeleteSource" "v = (case v3 of Inl e \<Rightarrow> Inl e | Inr _ \<Rightarrow> Inr Moved)"
        using step False gt \<open>v1 = Inr c\<close> pt Inr dl by (auto simp: transfer_def split: sum.splits)
      have to: "objs r3 (to_key p) = Some c"
        using del(1) [of "to_key p", OF not_sym [OF ne]] put(2) Inr by simp
      have other: "objs r3 k = objs r k" if "k \<noteq> from_key p" "k \<noteq> to_key p" for k
        using del(1) [OF that(1)] put(1) [OF that(2)] get(1) by simp
      show ?thesis
        using to other c free del(2) del(3) put(1) [of "from_key p", OF ne] get(1)
        by (auto simp: relocated_def r' split: sum.splits)
    qed
  qed
qed

lemma relocate_relocates:
  assumes ad: "adapter_ok ad objs" and ne: "from_key p \<noteq> to_key p"
    and step: "relocateRemoteObject ad p r = (v, ph, r')"
  shows "relocated p (objs r) (objs r') v ph"
proof -
  obtain w r1 where sb: "stat_both ad p r = (w, r1)" by (cases "stat_both ad p r")
  note objs = stat_both_objs [OF ad sb]
  have same: "\<not> (rl_from_name p = rl_to_name p \<and> rl_from_path p = rl_to_path p)" using ne by simp
  note st = step [unfolded relocateRemoteObject_def if_not_P [OF same] sb prod.case]
  show ?thesis
  proof (cases w)
    case (Inl e)
    then show ?thesis using st objs by (auto simp: relocated_def)
  next
    case (Inr ab)
    obtain a b where ab: "ab = (a, b)" by (cases ab)
    have ka: "(a = None) = (objs r (from_key p) = None)" and kb: "(b = None) = (objs r (to_key p) = None)"
      using objs(2) Inr ab by simp_all
    show ?thesis
    proof (cases a)
      case None
      then show ?thesis
        using st Inr ab objs(1) ka kb by (cases b) (auto simp: relocated_def)
    next
      case (Some x)
      show ?thesis
      proof (cases b)
        case None
        then have "transfer ad p r1 = (v, ph, r')" using st Inr ab Some by simp
        from transfer_relocates [OF ad ne _ _ this] show ?thesis
          using ka kb Some None objs(1) by simp
      next
        case (Some y)
        then have b: "objs r (to_key p) \<noteq> None" using kb by simp
        show ?thesis
        proof (cases "rl_copied p \<and> same_content x y")
          case False
          then have "v = Inl (both_exist (rl_from_path p) (rl_to_path p))" "ph = None" "r' = r1"
            using st Inr ab \<open>a = Some x\<close> Some by auto
          then show ?thesis using objs(1) b by (auto simp: relocated_def)
        next
          case True
          obtain v2 r2 where dl: "ad_delete ad (rl_from_name p) (rl_from_path p) r1 = (v2, r2)"
            by (cases "ad_delete ad (rl_from_name p) (rl_from_path p) r1")
          note del = adapter_delete [OF ad dl]
          have "r' = r2" "v = (case v2 of Inl e \<Rightarrow> Inl e | Inr _ \<Rightarrow> Inr Moved)"
            using st Inr ab \<open>a = Some x\<close> Some True dl by (auto split: sum.splits)
          then show ?thesis
            using del(1) del(2) del(3) objs(1) b ne True by (auto simp: relocated_def split: sum.splits)
        qed
      qed
    qed
  qed
qed

end
