(* ===== verification/FileOps.thy ===== *)
theory FileOps
  imports FileRelocation "HOL-Library.AList"
begin

text \<open>
  The file mutations of the sync engine, \<^verbatim>\<open>apps/server/domain/sync/engine-mutations.ts\<close>, the queue of
  pending operations they retry from, \<^verbatim>\<open>pending-ops.ts\<close>, the record half of \<^verbatim>\<open>file-relocation.ts\<close> and
  \<^verbatim>\<open>local-cleanup.ts\<close>.  The state is the graph database with its files table, the routing tables,
  the queue, the remotes (a state of the adapter parameter's type), the device's files and its
  \<open>file_state\<close> table.  The environment holds what these operations only read: whether the workspace
  is local, the mirrors, and which renames and removals the file system refuses.  The database
  does not fail; identifiers and the time are arguments.  Unicode normalisation is the identity on
  the model's strings.
\<close>

section \<open>State\<close>

record file_state =
  st_synced :: "string option"
  st_synced_at :: "timestamp option"
  st_cached :: "string option"
  st_mtime :: "nat option"
  st_size :: "nat option"
  st_ino :: "nat option"
  st_dev :: "nat option"

record move_payload =
  mp_from_name :: string
  mp_from_path :: string
  mp_to_name :: string
  mp_to_path :: string
  mp_to_node :: node_id
  mp_filename :: string
  mp_copied :: bool

record delete_payload =
  dp_name :: string
  dp_path :: string
  dp_filename :: string
  dp_hash :: "string option"
  dp_object :: "bool option"

datatype pending_op = OpMove move_payload | OpDelete delete_payload

record pending_row =
  pr_id :: string
  pr_user :: user_id
  pr_node :: node_id
  pr_file :: string
  pr_payload :: pending_op
  pr_attempts :: nat
  pr_error :: "string option"

text \<open>A file on the device: its bytes and what \<open>stat\<close> says of it (its size is that of the bytes).\<close>

record local_file =
  lf_content :: string
  lf_mtime :: timestamp
  lf_ino :: nat
  lf_dev :: nat

record 'r world =
  wd_db :: graph_db
  wd_routing :: routing_db
  wd_ops :: "pending_row list"
  wd_remote :: 'r
  wd_local :: "(string \<times> local_file) list"
  wd_state :: "(string \<times> file_state) list"
  wd_ino :: nat                                \<comment> \<open>the next fresh inode\<close>

record env =
  ev_local_only :: bool
  ev_cwd :: string
  ev_mirrors :: "(user_id \<times> node_id \<times> string) list"
  ev_rename_error :: "string \<Rightarrow> string \<Rightarrow> string option"   \<comment> \<open>other than a missing source\<close>
  ev_rm_error :: "string \<Rightarrow> string option"
  ev_write_error :: "string \<Rightarrow> string option"
  ev_device :: "string \<Rightarrow> nat"                        \<comment> \<open>the volume a path is on\<close>

datatype file_error =
    FileNotFound string
  | NoRemoteBinding string
  | NodeGone node_id
  | NoRemoteForTarget
  | PathFailure path_error
  | RemoteFailure string
  | LocalFailure string
  | InvalidFilename string
  | PathEndsOtherwise string string
  | NothingSelected
  | LocalModeOnly
  | NoRouting node_id
  | NoMirror node_id
  | HashMismatch string string
  | DirtyLocal string string

definition getMirrorPath :: "env \<Rightarrow> user_id \<Rightarrow> node_id \<Rightarrow> string option" where
  "getMirrorPath env user node = map_option (snd \<circ> snd) (find (\<lambda>m. fst m = user \<and> fst (snd m) = node) (ev_mirrors env))"

definition local_at :: "'r world \<Rightarrow> string \<Rightarrow> local_file option" where
  "local_at w p = map_of (wd_local w) p"

definition getFileState :: "string \<Rightarrow> 'r world \<Rightarrow> file_state option" where
  "getFileState i w = map_of (wd_state w) i"

definition on_db :: "(graph_db \<Rightarrow> graph_db) \<Rightarrow> 'r world \<Rightarrow> 'r world" where
  "on_db f w = w\<lparr>wd_db := f (wd_db w)\<rparr>"

definition file_by_id :: "graph_db \<Rightarrow> string \<Rightarrow> file_row option" where
  "file_by_id db i = find (\<lambda>f. fl_id f = i) (files_t db)"

definition insert_audit :: "user_id \<Rightarrow> string \<Rightarrow> string \<Rightarrow> string \<Rightarrow> json \<Rightarrow> graph_db \<Rightarrow> graph_db" where
  "insert_audit user action target_type target detail db =
     db\<lparr>audit_t := audit_t db @ [\<lparr>au_user = user, au_action = action, au_target_type = target_type,
                                  au_target_id = target, au_detail = Some detail\<rparr>]\<rparr>"

definition delete_file_row :: "string \<Rightarrow> graph_db \<Rightarrow> graph_db" where
  "delete_file_row i db = db\<lparr>files_t := filter (\<lambda>f. fl_id f \<noteq> i) (files_t db)\<rparr>"

definition update_file_row :: "string \<Rightarrow> (file_row \<Rightarrow> file_row) \<Rightarrow> graph_db \<Rightarrow> graph_db" where
  "update_file_row i f db = db\<lparr>files_t := map (\<lambda>r. if fl_id r = i then f r else r) (files_t db)\<rparr>"

definition deleteFileState :: "string \<Rightarrow> 'r world \<Rightarrow> 'r world" where
  "deleteFileState i w = w\<lparr>wd_state := AList.delete i (wd_state w)\<rparr>"

definition upsertFileState :: "string \<Rightarrow> file_state \<Rightarrow> 'r world \<Rightarrow> 'r world" where
  "upsertFileState i st w = w\<lparr>wd_state := AList.update i st (wd_state w)\<rparr>"

section \<open>The queue of pending operations\<close>

definition enqueuePendingOp :: "string \<Rightarrow> user_id \<Rightarrow> node_id \<Rightarrow> string \<Rightarrow> pending_op \<Rightarrow> 'r world \<Rightarrow> 'r world" where
  "enqueuePendingOp opid user node file payload w =
     w\<lparr>wd_ops := wd_ops w @ [\<lparr>pr_id = opid, pr_user = user, pr_node = node, pr_file = file,
                              pr_payload = payload, pr_attempts = 0, pr_error = None\<rparr>]\<rparr>"

definition completePendingOp :: "string \<Rightarrow> 'r world \<Rightarrow> 'r world" where
  "completePendingOp opid w = w\<lparr>wd_ops := filter (\<lambda>p. pr_id p \<noteq> opid) (wd_ops w)\<rparr>"

definition update_op :: "string \<Rightarrow> (pending_row \<Rightarrow> pending_row) \<Rightarrow> 'r world \<Rightarrow> 'r world" where
  "update_op opid f w = w\<lparr>wd_ops := map (\<lambda>p. if pr_id p = opid then f p else p) (wd_ops w)\<rparr>"

definition markPendingMoveSourceCopied :: "string \<Rightarrow> 'r world \<Rightarrow> 'r world" where
  "markPendingMoveSourceCopied opid w =
     (case find (\<lambda>p. pr_id p = opid) (wd_ops w) of
        None \<Rightarrow> w
      | Some p \<Rightarrow>
          (case pr_payload p of
             OpDelete d \<Rightarrow> w
           | OpMove m \<Rightarrow> update_op opid (\<lambda>p. p\<lparr>pr_payload := OpMove (m\<lparr>mp_copied := True\<rparr>)\<rparr>) w))"

definition failPendingOp :: "string \<Rightarrow> string \<Rightarrow> 'r world \<Rightarrow> 'r world" where
  "failPendingOp opid e w = update_op opid (\<lambda>p. p\<lparr>pr_attempts := Suc (pr_attempts p), pr_error := Some e\<rparr>) w"

definition listPendingOps :: "node_id \<Rightarrow> 'r world \<Rightarrow> pending_row list" where
  "listPendingOps node w = filter (\<lambda>p. pr_node p = node) (wd_ops w)"

section \<open>Writing a relocated record\<close>

definition mergeShadowFileState :: "string \<Rightarrow> string \<Rightarrow> 'r world \<Rightarrow> 'r world" where
  "mergeShadowFileState shadow survivor w =
     deleteFileState shadow
       (case getFileState shadow w of
          None \<Rightarrow> w
        | Some sh \<Rightarrow>
            upsertFileState survivor
              (sh\<lparr>st_synced := (case getFileState survivor w of None \<Rightarrow> None | Some sv \<Rightarrow> st_synced sv),
                  st_synced_at := (case getFileState survivor w of None \<Rightarrow> None | Some sv \<Rightarrow> st_synced_at sv)\<rparr>) w)"

definition find_shadow :: "string \<Rightarrow> node_id \<Rightarrow> string \<Rightarrow> graph_db \<Rightarrow> string option" where
  "find_shadow file node path db =
     map_option fl_id (find (\<lambda>f. fl_node f = node \<and> fl_remote_path f = Some path \<and> fl_id f \<noteq> file) (files_t db))"

definition writeRelocatedRecord ::
  "string \<Rightarrow> node_id \<Rightarrow> string \<Rightarrow> (file_row \<Rightarrow> file_row) \<Rightarrow> 'r world \<Rightarrow> 'r world" where
  "writeRelocatedRecord file node path upd w =
     (case find_shadow file node path (wd_db w) of
        None \<Rightarrow> on_db (update_file_row file upd) w
      | Some shadow \<Rightarrow>
          mergeShadowFileState shadow file (on_db (\<lambda>db. update_file_row file upd (delete_file_row shadow db)) w))"

section \<open>The device's files\<close>

datatype rename_outcome = RenameDone | RenameMissing | RenameFailed string

definition local_rename :: "env \<Rightarrow> string \<Rightarrow> string \<Rightarrow> 'r world \<Rightarrow> rename_outcome \<times> 'r world" where
  "local_rename env a b w =
     (case ev_rename_error env a b of
        Some e \<Rightarrow> (RenameFailed e, w)
      | None \<Rightarrow>
          (case local_at w a of
             None \<Rightarrow> (RenameMissing, w)
           | Some c \<Rightarrow> (RenameDone, w\<lparr>wd_local := AList.update b c (AList.delete a (wd_local w))\<rparr>)))"

definition removeLocalCopyAndState :: "env \<Rightarrow> string option \<Rightarrow> string \<Rightarrow> 'r world \<Rightarrow> bool \<times> 'r world" where
  "removeLocalCopyAndState env localPath file w =
     (let removed = (case localPath of None \<Rightarrow> True | Some p \<Rightarrow> ev_rm_error env p = None);
          w1 = (case localPath of None \<Rightarrow> w
                | Some p \<Rightarrow> (if ev_rm_error env p = None then w\<lparr>wd_local := AList.delete p (wd_local w)\<rparr> else w))
      in (removed, if removed then deleteFileState file w1 else w1))"

text \<open>The strings JavaScript reads as true.\<close>

definition truthy_opt :: "string option \<Rightarrow> string option" where
  "truthy_opt s = (case s of Some (c # cs) \<Rightarrow> Some (c # cs) | _ \<Rightarrow> None)"

text \<open>The local path of a remote path in a node's mirror; any error on the way gives none.\<close>

definition mirror_local :: "env \<Rightarrow> user_id \<Rightarrow> node_id \<Rightarrow> node_info \<Rightarrow> string \<Rightarrow> string option" where
  "mirror_local env user node info path =
     (case truthy_opt (getMirrorPath env user node) of
        None \<Rightarrow> None
      | Some root \<Rightarrow>
          (case bind_sum (buildNodeRoot info) (\<lambda>nr. deriveLocalPath (ev_cwd env) root nr path) of
             Inl _ \<Rightarrow> None
           | Inr l \<Rightarrow> Some l))"

section \<open>Move a file\<close>

record move_args =
  ma_user :: user_id
  ma_file :: string
  ma_subpath :: "string option"
  ma_section :: "string option"
  ma_node :: "node_id option"
  ma_filename :: "string option"
  ma_confirmed :: bool

record move_plan =
  pl_user :: user_id
  pl_file :: string
  pl_node :: node_id
  pl_target :: node_id
  pl_filename :: string
  pl_old_name :: "string option"
  pl_old_path :: string
  pl_new_name :: "string option"
  pl_new_path :: string
  pl_old_local :: "string option"
  pl_new_local :: "string option"

datatype file_move_result =
    MovePreview move_plan
  | MoveOk move_plan bool bool                        \<comment> \<open>local done, already at the target\<close>
  | MoveRemoteRepair move_plan bool string            \<comment> \<open>the copy landed, the error\<close>
  | MoveLocalRepair move_plan bool string             \<comment> \<open>already at the target, the error\<close>

definition is_section :: "string \<Rightarrow> bool" where
  "is_section s \<longleftrightarrow> s = ''outputs'' \<or> s = ''resources'' \<or> s = ''wip''"

definition inferSectionFromPath :: "string \<Rightarrow> string" where
  "inferSectionFromPath p =
     (let parts = split_on CHR ''/'' p
      in if 1 < length parts \<and> is_section (parts ! 1) then parts ! 1
         else if 3 < length parts \<and> is_section (parts ! 3) then parts ! 3
         else ''wip'')"

definition or_else :: "'a option \<Rightarrow> 'a \<Rightarrow> 'a" where
  "or_else x d = (case x of Some y \<Rightarrow> y | None \<Rightarrow> d)"

definition bound_file :: "env \<Rightarrow> string \<Rightarrow> 'r world \<Rightarrow> file_error + file_row \<times> string option \<times> string" where
  "bound_file env file w =
     (case file_by_id (wd_db w) file of
        None \<Rightarrow> Inl (FileNotFound file)
      | Some fr \<Rightarrow>
          (let name = (if ev_local_only env then None else fl_remote_name fr)
           in (case fl_remote_path fr of
                 None \<Rightarrow> Inl (NoRemoteBinding file)
               | Some path \<Rightarrow>
                   (if path = [] \<or> (\<not> ev_local_only env \<and> (name = None \<or> name = Some [])) then Inl (NoRemoteBinding file)
                    else Inr (fr, name, path)))))"

definition plan_file_move :: "env \<Rightarrow> move_args \<Rightarrow> 'r world \<Rightarrow> file_error + move_plan" where
  "plan_file_move env a w =
     bind_sum (bound_file env (ma_file a) w) (\<lambda>(fr, oldName, oldPath).
       (let target = or_else (ma_node a) (fl_node fr)
        in (case resolveNodeInfo (wd_db w) target of
              None \<Rightarrow> Inl (NodeGone target)
            | Some info \<Rightarrow>
                (let newName = resolveRemote (ev_local_only env) (wd_routing w) (in_type info) (in_org info);
                     filename = or_else (ma_filename a) (fl_filename fr)
                 in if \<not> ev_local_only env \<and> (newName = None \<or> newName = Some []) then Inl NoRemoteForTarget
                    else (case buildRemotePath \<lparr>rp_info = info, rp_section = or_else (ma_section a) (inferSectionFromPath oldPath),
                                                rp_subpath = ma_subpath a, rp_filename = filename\<rparr> of
                            Inl e \<Rightarrow> Inl (PathFailure e)
                          | Inr newPath \<Rightarrow>
                              (case resolveNodeInfo (wd_db w) (fl_node fr) of
                                 None \<Rightarrow> Inl (NodeGone (fl_node fr))
                               | Some oldInfo \<Rightarrow>
                                   Inr \<lparr>pl_user = ma_user a, pl_file = ma_file a, pl_node = fl_node fr, pl_target = target,
                                        pl_filename = filename, pl_old_name = oldName, pl_old_path = oldPath,
                                        pl_new_name = newName, pl_new_path = newPath,
                                        pl_old_local = mirror_local env (ma_user a) (fl_node fr) oldInfo oldPath,
                                        pl_new_local = mirror_local env (ma_user a) target info newPath\<rparr>))))))"

definition opt_json :: "string option \<Rightarrow> json" where
  "opt_json s = (case s of None \<Rightarrow> JNull | Some t \<Rightarrow> JStr t)"

definition move_detail :: "move_plan \<Rightarrow> (string \<times> json) list \<Rightarrow> json" where
  "move_detail p extra =
     JObj ([(''node_id'', JStr (pl_node p)), (''old_remote_path'', JStr (pl_old_path p)),
            (''old'', JObj [(''remote_name'', opt_json (pl_old_name p)), (''remote_path'', JStr (pl_old_path p)),
                            (''local_path'', opt_json (pl_old_local p))]),
            (''new'', JObj [(''remote_name'', opt_json (pl_new_name p)), (''remote_path'', JStr (pl_new_path p)),
                            (''local_path'', opt_json (pl_new_local p))]),
            (''cross_node'', JBool (pl_target p \<noteq> pl_node p)), (''cross_remote'', JBool (pl_new_name p \<noteq> pl_old_name p))] @ extra)"

definition writeMoveTombstone :: "move_plan \<Rightarrow> (string \<times> json) list \<Rightarrow> 'r world \<Rightarrow> 'r world" where
  "writeMoveTombstone p extra w =
     on_db (\<lambda>db. publishNodeChange (pl_node p) ChangeFiles
              (insert_audit (pl_user p) ''sync_move'' ''file'' (pl_file p) (move_detail p extra) db)) w"

definition relocate_row :: "move_plan \<Rightarrow> timestamp \<Rightarrow> file_row \<Rightarrow> file_row" where
  "relocate_row p now f =
     f\<lparr>fl_remote_name := pl_new_name p, fl_remote_path := Some (pl_new_path p), fl_node := pl_target p,
       fl_filename := pl_filename p, fl_updated_at := now\<rparr>"

definition move_record :: "timestamp \<Rightarrow> move_plan \<Rightarrow> 'r world \<Rightarrow> 'r world" where
  "move_record now p w = writeRelocatedRecord (pl_file p) (pl_target p) (pl_new_path p) (relocate_row p now) w"

definition move_local :: "env \<Rightarrow> move_plan \<Rightarrow> 'r world \<Rightarrow> rename_outcome \<times> 'r world" where
  "move_local env p w =
     (case (pl_old_local p, pl_new_local p) of
        (Some a, Some b) \<Rightarrow> (if a = [] \<or> b = [] \<or> a = b then (RenameMissing, w) else local_rename env a b w)
      | _ \<Rightarrow> (RenameMissing, w))"

definition moveFileLocalOnly :: "env \<Rightarrow> timestamp \<Rightarrow> move_plan \<Rightarrow> 'r world \<Rightarrow> (file_error + file_move_result) \<times> 'r world" where
  "moveFileLocalOnly env now p w =
     (case move_local env p w of
        (RenameFailed e, w1) \<Rightarrow> (Inl (LocalFailure e), w1)
      | (out, w1) \<Rightarrow>
          (let p' = p\<lparr>pl_new_name := None\<rparr>
           in (Inr (MoveOk p' (out = RenameDone) False), writeMoveTombstone p [] (move_record now p' w1))))"

definition partial_detail :: "move_plan \<Rightarrow> string \<Rightarrow> json" where
  "partial_detail p e =
     JObj [(''remote_ok'', JBool True), (''local_error'', JStr e),
           (''old_local_path'', opt_json (pl_old_local p)), (''new_local_path'', opt_json (pl_new_local p))]"

definition move_after_remote ::
  "env \<Rightarrow> timestamp \<Rightarrow> string \<Rightarrow> move_plan \<Rightarrow> bool \<Rightarrow> 'r world \<Rightarrow> file_move_result \<times> 'r world" where
  "move_after_remote env now opid p already w =
     (case move_local env p w of
        (RenameFailed e, w1) \<Rightarrow>
          (MoveLocalRepair p already e,
           completePendingOp opid
             (writeMoveTombstone p [(''local_error'', JStr e)]
               (on_db (\<lambda>db. publishNodeChange (pl_target p) ChangeFiles (publishNodeChange (pl_node p) ChangeFiles
                        (insert_audit (pl_user p) ''sync_move_partial'' ''file'' (pl_file p) (partial_detail p e) db)))
                 (move_record now p w1))))
      | (out, w1) \<Rightarrow>
          (MoveOk p (out = RenameDone) already,
           completePendingOp opid (writeMoveTombstone p [] (move_record now p w1))))"

definition move_params :: "move_payload \<Rightarrow> relocate_params" where
  "move_params m =
     \<lparr>rl_from_name = mp_from_name m, rl_from_path = mp_from_path m, rl_to_name = mp_to_name m,
      rl_to_path = mp_to_path m, rl_copied = mp_copied m\<rparr>"

definition plan_payload :: "move_plan \<Rightarrow> move_payload" where
  "plan_payload p =
     \<lparr>mp_from_name = or_else (pl_old_name p) [], mp_from_path = pl_old_path p, mp_to_name = or_else (pl_new_name p) [],
      mp_to_path = pl_new_path p, mp_to_node = pl_target p, mp_filename = pl_filename p, mp_copied = False\<rparr>"

definition moveFile ::
  "env \<Rightarrow> 'r adapter \<Rightarrow> timestamp \<Rightarrow> string \<Rightarrow> move_args \<Rightarrow> 'r world \<Rightarrow> (file_error + file_move_result) \<times> 'r world" where
  "moveFile env ad now opid a w =
     (case plan_file_move env a w of
        Inl e \<Rightarrow> (Inl e, w)
      | Inr p \<Rightarrow>
          if \<not> ma_confirmed a then (Inr (MovePreview p), w)
          else if ev_local_only env then moveFileLocalOnly env now p w
          else (let w1 = enqueuePendingOp opid (pl_user p) (pl_node p) (pl_file p) (OpMove (plan_payload p)) w
                in (case relocateRemoteObject ad (move_params (plan_payload p)) (wd_remote w1) of
                      (Inl e, ph, r) \<Rightarrow>
                        (let w2 = w1\<lparr>wd_remote := r\<rparr>;
                             w3 = (if ph = Some DeleteSource then markPendingMoveSourceCopied opid w2 else w2)
                         in (Inr (MoveRemoteRepair p (ph = Some DeleteSource) e), failPendingOp opid e w3))
                    | (Inr st, ph, r) \<Rightarrow>
                        (case move_after_remote env now opid p (st = AlreadyAtTarget) (w1\<lparr>wd_remote := r\<rparr>) of
                           (res, w2) \<Rightarrow> (Inr res, w2)))))"


section \<open>Rename a file\<close>

record rename_result =
  rn_filename :: string
  rn_path :: string
  rn_local :: "string option"
  rn_error :: "string option"      \<comment> \<open>the local error of a \<open>repair_needed\<close>\<close>

definition bad_filename :: "string \<Rightarrow> bool" where
  "bad_filename fn \<longleftrightarrow>
     fn = [] \<or> CHR ''/'' \<in> set fn \<or> CHR 0x5C \<in> set fn \<or> CHR 0x00 \<in> set fn \<or> fn = ''.'' \<or> fn = ''..''"

definition rename_locals :: "env \<Rightarrow> user_id \<Rightarrow> node_id \<Rightarrow> string \<Rightarrow> string \<Rightarrow> 'r world \<Rightarrow> string option \<times> string option" where
  "rename_locals env user node oldPath newPath w =
     (case resolveNodeInfo (wd_db w) node of
        None \<Rightarrow> (None, None)
      | Some info \<Rightarrow>
          (case (mirror_local env user node info oldPath, mirror_local env user node info newPath) of
             (Some a, Some b) \<Rightarrow> (Some a, Some b)
           | _ \<Rightarrow> (None, None)))"

definition rename_local_phase :: "env \<Rightarrow> string option \<Rightarrow> string option \<Rightarrow> 'r world \<Rightarrow> string option \<times> 'r world" where
  "rename_local_phase env oldLocal newLocal w =
     (case (oldLocal, newLocal) of
        (Some a, Some b) \<Rightarrow>
          (if a = [] \<or> b = [] \<or> a = b then (None, w)
           else (case local_rename env a b w of
                   (RenameFailed e, w1) \<Rightarrow> (Some e, w1)
                 | (_, w1) \<Rightarrow> (None, w1)))
      | _ \<Rightarrow> (None, w))"

definition rename_detail :: "node_id \<Rightarrow> string \<Rightarrow> string \<Rightarrow> string \<Rightarrow> string \<Rightarrow> json" where
  "rename_detail node oldName newName oldPath newPath =
     JObj [(''node_id'', JStr node), (''old_filename'', JStr oldName), (''new_filename'', JStr newName),
           (''old_remote_path'', JStr oldPath), (''new_remote_path'', JStr newPath)]"

definition rename_after_remote ::
  "env \<Rightarrow> timestamp \<Rightarrow> user_id \<Rightarrow> string \<Rightarrow> string option \<Rightarrow> file_row \<Rightarrow> string \<Rightarrow> string \<Rightarrow> 'r world \<Rightarrow> rename_result \<times> 'r world" where
  "rename_after_remote env now user fn opid f oldPath newPath w =
     (case rename_locals env user (fl_node f) oldPath newPath w of
        (oldLocal, newLocal) \<Rightarrow>
          (case rename_local_phase env oldLocal newLocal w of
             (err, w1) \<Rightarrow>
               (let w2 = writeRelocatedRecord (fl_id f) (fl_node f) newPath
                           (\<lambda>r. r\<lparr>fl_filename := fn, fl_remote_path := Some newPath, fl_updated_at := now\<rparr>) w1;
                    w3 = on_db (\<lambda>db. publishNodeChange (fl_node f) ChangeFiles
                                 (insert_audit user ''sync_rename'' ''file'' (fl_id f)
                                    (rename_detail (fl_node f) (fl_filename f) fn oldPath newPath) db)) w2
                in (\<lparr>rn_filename = fn, rn_path = newPath, rn_local = newLocal, rn_error = err\<rparr>,
                    case opid of None \<Rightarrow> w3 | Some i \<Rightarrow> completePendingOp i w3))))"

definition rename_payload :: "file_row \<Rightarrow> string \<Rightarrow> string \<Rightarrow> string \<Rightarrow> string \<Rightarrow> move_payload" where
  "rename_payload f name oldPath newPath fn =
     \<lparr>mp_from_name = name, mp_from_path = oldPath, mp_to_name = name, mp_to_path = newPath,
      mp_to_node = fl_node f, mp_filename = fn, mp_copied = False\<rparr>"

definition renameFile ::
  "env \<Rightarrow> 'r adapter \<Rightarrow> timestamp \<Rightarrow> string \<Rightarrow> user_id \<Rightarrow> string \<Rightarrow> string \<Rightarrow> 'r world \<Rightarrow> (file_error + rename_result) \<times> 'r world" where
  "renameFile env ad now opid user file fn w =
     (if bad_filename fn then (Inl (InvalidFilename fn), w)
      else (case bound_file env file w of
              Inl e \<Rightarrow> (Inl e, w)
            | Inr (f, name, oldPath) \<Rightarrow>
                if \<not> suffix (''/'' @ fl_filename f) oldPath \<and> oldPath \<noteq> fl_filename f
                then (Inl (PathEndsOtherwise oldPath (fl_filename f)), w)
                else (let newPath = take (length oldPath - length (fl_filename f)) oldPath @ fn
                      in if ev_local_only env
                         then (case rename_after_remote env now user fn None f oldPath newPath w of (r, w1) \<Rightarrow> (Inr r, w1))
                         else (let m = rename_payload f (or_else name []) oldPath newPath fn;
                                   w1 = enqueuePendingOp opid user (fl_node f) file (OpMove m) w
                               in (case relocateRemoteObject ad (move_params m) (wd_remote w1) of
                                     (Inl e, ph, r) \<Rightarrow> (Inl (RemoteFailure e), failPendingOp opid e (w1\<lparr>wd_remote := r\<rparr>))
                                   | (Inr st, ph, r) \<Rightarrow>
                                       (case rename_after_remote env now user fn (Some opid) f oldPath newPath (w1\<lparr>wd_remote := r\<rparr>) of
                                          (res, w2) \<Rightarrow> (Inr res, w2)))))))"

section \<open>Rename a folder\<close>

definition DEFAULT_RENAME_FOLDER_LIMIT :: int where "DEFAULT_RENAME_FOLDER_LIMIT = 20"

record folder_args =
  fo_user :: user_id
  fo_node :: node_id
  fo_old :: string
  fo_new :: string
  fo_dry :: bool
  fo_limit :: "int option"

record folder_entry =
  fe_file :: string
  fe_filename :: string
  fe_name :: "string option"
  fe_old_path :: string
  fe_new_path :: string
  fe_old_local :: "string option"
  fe_new_local :: "string option"

record folder_outcome =
  fu_file :: string
  fu_ok :: bool
  fu_old_path :: string
  fu_new_path :: string
  fu_error :: "string option"
  fu_already :: "bool option"

datatype folder_result = FolderPreview "folder_entry list" | FolderApplied "folder_outcome list" nat   \<comment> \<open>and the remaining\<close>

definition files_under :: "node_id \<Rightarrow> string \<Rightarrow> graph_db \<Rightarrow> file_row list" where
  "files_under node prefix_path db =
     sort_key (\<lambda>f. or_else (fl_remote_path f) [])
       (filter (\<lambda>f. fl_node f = node \<and> (case fl_remote_path f of None \<Rightarrow> False | Some p \<Rightarrow> pathPrefixCondition prefix_path p))
          (files_t db))"

definition folder_entry_of :: "env \<Rightarrow> folder_args \<Rightarrow> node_info \<Rightarrow> string \<Rightarrow> string \<Rightarrow> file_row \<Rightarrow> folder_entry" where
  "folder_entry_of env a info oldAbs newAbs f =
     (let old = or_else (fl_remote_path f) []; new = newAbs @ drop (length oldAbs) old
      in \<lparr>fe_file = fl_id f, fe_filename = fl_filename f,
          fe_name = (if ev_local_only env then None else fl_remote_name f),
          fe_old_path = old, fe_new_path = new,
          fe_old_local = mirror_local env (fo_user a) (fo_node a) info old,
          fe_new_local = mirror_local env (fo_user a) (fo_node a) info new\<rparr>)"

definition plan_folder :: "env \<Rightarrow> folder_args \<Rightarrow> 'r world \<Rightarrow> file_error + folder_entry list" where
  "plan_folder env a w =
     (case resolveNodeInfo (wd_db w) (fo_node a) of
        None \<Rightarrow> Inl (NodeGone (fo_node a))
      | Some info \<Rightarrow>
          (case bind_sum (buildNodeRoot info) (\<lambda>nr.
                bind_sum (assertSafeRelativePath (fo_old a) ''renameFolder.oldPrefix'') (\<lambda>_.
                bind_sum (assertSafeRelativePath (fo_new a) ''renameFolder.newPrefix'') (\<lambda>_. Inr nr))) of
             Inl e \<Rightarrow> Inl (PathFailure e)
           | Inr nr \<Rightarrow>
               (let oldAbs = nr @ ''/'' @ fo_old a; newAbs = nr @ ''/'' @ fo_new a
                in Inr (map (folder_entry_of env a info oldAbs newAbs) (files_under (fo_node a) oldAbs (wd_db w))))))"

definition folder_record :: "timestamp \<Rightarrow> folder_args \<Rightarrow> folder_entry \<Rightarrow> 'r world \<Rightarrow> 'r world" where
  "folder_record now a f w =
     on_db (\<lambda>db. publishNodeChange (fo_node a) ChangeFiles
              (insert_audit (fo_user a) ''sync_rename'' ''file'' (fe_file f)
                 (JObj [(''node_id'', JStr (fo_node a)), (''old_remote_path'', JStr (fe_old_path f)),
                        (''new_remote_path'', JStr (fe_new_path f)), (''via'', JStr ''rename_folder'')]) db))
       (writeRelocatedRecord (fe_file f) (fo_node a) (fe_new_path f)
          (\<lambda>r. r\<lparr>fl_remote_path := Some (fe_new_path f), fl_updated_at := now\<rparr>) w)"

definition folder_outcome_of :: "folder_entry \<Rightarrow> string option \<Rightarrow> bool option \<Rightarrow> folder_outcome" where
  "folder_outcome_of f e already =
     \<lparr>fu_file = fe_file f, fu_ok = (e = None), fu_old_path = fe_old_path f, fu_new_path = fe_new_path f,
      fu_error = e, fu_already = already\<rparr>"

definition folder_local :: "env \<Rightarrow> folder_entry \<Rightarrow> 'r world \<Rightarrow> rename_outcome \<times> 'r world" where
  "folder_local env f w =
     (case (fe_old_local f, fe_new_local f) of
        (Some a, Some b) \<Rightarrow> (if a = [] \<or> b = [] then (RenameMissing, w) else local_rename env a b w)
      | _ \<Rightarrow> (RenameMissing, w))"

definition folder_after_remote ::
  "env \<Rightarrow> timestamp \<Rightarrow> string option \<Rightarrow> folder_args \<Rightarrow> folder_entry \<Rightarrow> bool \<Rightarrow> 'r world \<Rightarrow> folder_outcome \<times> 'r world" where
  "folder_after_remote env now opid a f already w =
     (case folder_local env f w of
        (out, w1) \<Rightarrow>
          (let w2 = folder_record now a f w1;
               w3 = (case opid of None \<Rightarrow> w2 | Some i \<Rightarrow> completePendingOp i w2)
           in (folder_outcome_of f (case out of RenameFailed e \<Rightarrow> Some (''local: '' @ e) | _ \<Rightarrow> None) (Some already), w3)))"

definition folder_payload :: "folder_args \<Rightarrow> folder_entry \<Rightarrow> string \<Rightarrow> move_payload" where
  "folder_payload a f name =
     \<lparr>mp_from_name = name, mp_from_path = fe_old_path f, mp_to_name = name, mp_to_path = fe_new_path f,
      mp_to_node = fo_node a, mp_filename = fe_filename f, mp_copied = False\<rparr>"

definition rename_one ::
  "env \<Rightarrow> 'r adapter \<Rightarrow> timestamp \<Rightarrow> string \<Rightarrow> folder_args \<Rightarrow> folder_entry \<Rightarrow> 'r world \<Rightarrow> folder_outcome \<times> 'r world" where
  "rename_one env ad now opid a f w =
     (if ev_local_only env then folder_after_remote env now None a f False w
      else (case fe_name f of
              None \<Rightarrow> (folder_outcome_of f (Some (''File '' @ fe_file f @ '' has no remote binding'')) None, w)
            | Some name \<Rightarrow>
                (let m = folder_payload a f name;
                     w1 = enqueuePendingOp opid (fo_user a) (fo_node a) (fe_file f) (OpMove m) w
                 in (case relocateRemoteObject ad (move_params m) (wd_remote w1) of
                       (Inl e, ph, r) \<Rightarrow> (folder_outcome_of f (Some (''remote: '' @ e)) None, failPendingOp opid e (w1\<lparr>wd_remote := r\<rparr>))
                     | (Inr st, ph, r) \<Rightarrow> folder_after_remote env now (Some opid) a f (st = AlreadyAtTarget) (w1\<lparr>wd_remote := r\<rparr>)))))"

text \<open>The loop, with the identifier of each file's pending operation.\<close>

fun rename_each ::
  "env \<Rightarrow> 'r adapter \<Rightarrow> timestamp \<Rightarrow> (string \<Rightarrow> string) \<Rightarrow> folder_args \<Rightarrow> folder_entry list \<Rightarrow> 'r world \<Rightarrow> folder_outcome list \<times> 'r world" where
  "rename_each env ad now opids a [] w = ([], w)"
| "rename_each env ad now opids a (f # fs) w =
     (case rename_one env ad now (opids (fe_file f)) a f w of
        (o1, w1) \<Rightarrow> (case rename_each env ad now opids a fs w1 of (os, w2) \<Rightarrow> (o1 # os, w2)))"

definition outcome_json :: "folder_outcome \<Rightarrow> json" where
  "outcome_json u =
     JObj ([(''file_id'', JStr (fu_file u)), (''status'', JStr (if fu_ok u then ''ok'' else ''repair_needed'')),
            (''old_remote_path'', JStr (fu_old_path u)), (''new_remote_path'', JStr (fu_new_path u))] @
           (case fu_error u of None \<Rightarrow> [] | Some e \<Rightarrow> [(''error'', JStr e)]) @
           (case fu_already u of None \<Rightarrow> [] | Some b \<Rightarrow> [(''already_at_target'', JBool b)]))"

definition renameFolder ::
  "env \<Rightarrow> 'r adapter \<Rightarrow> timestamp \<Rightarrow> (string \<Rightarrow> string) \<Rightarrow> folder_args \<Rightarrow> 'r world \<Rightarrow> (file_error + folder_result) \<times> 'r world" where
  "renameFolder env ad now opids a w =
     (case plan_folder env a w of
        Inl e \<Rightarrow> (Inl e, w)
      | Inr affected \<Rightarrow>
          if fo_dry a then (Inr (FolderPreview affected), w)
          else (let limit = nat (max 0 (or_else (fo_limit a) DEFAULT_RENAME_FOLDER_LIMIT));
                    todo = take limit affected; remaining = length affected - length todo
                in (case rename_each env ad now opids a todo w of
                      (results, w1) \<Rightarrow>
                        (Inr (FolderApplied results remaining),
                         on_db (\<lambda>db. publishNodeChange (fo_node a) ChangeFiles
                                  (insert_audit (fo_user a) ''sync_rename_folder'' ''node'' (fo_node a)
                                     (JObj [(''old_prefix'', JStr (fo_old a)), (''new_prefix'', JStr (fo_new a)),
                                            (''remaining'', JNum (int remaining)), (''results'', JArr (map outcome_json results))]) db)) w1))))"


section \<open>Delete files\<close>

datatype delete_mode = Complete | UnregisterOnly

record delete_args =
  da_user :: user_id
  da_file :: string
  da_mode :: delete_mode
  da_confirmed :: bool

datatype delete_result =
    DeletePreview "string list" "string option"     \<comment> \<open>what it will remove from, the local path\<close>
  | DeleteOk
  | DeleteRepair string

definition mode_name :: "delete_mode \<Rightarrow> string" where
  "mode_name m = (case m of Complete \<Rightarrow> ''complete'' | UnregisterOnly \<Rightarrow> ''unregister_only'')"

definition delete_local_path :: "env \<Rightarrow> user_id \<Rightarrow> node_id \<Rightarrow> string option \<Rightarrow> 'r world \<Rightarrow> string option" where
  "delete_local_path env user node path w =
     (case truthy_opt path of
        None \<Rightarrow> None
      | Some p \<Rightarrow> (case resolveNodeInfo (wd_db w) node of None \<Rightarrow> None | Some info \<Rightarrow> mirror_local env user node info p))"

definition remote_remove :: "'r adapter \<Rightarrow> string \<Rightarrow> string \<Rightarrow> 'r \<Rightarrow> (string + unit) \<times> 'r" where
  "remote_remove ad name path r =
     (case ad_open ad name r of
        (Inl e, r1) \<Rightarrow> (Inl e, r1)
      | (Inr _, r1) \<Rightarrow>
          (case ad_stat ad name path r1 of
             (Inl e, r2) \<Rightarrow> (Inl e, r2)
           | (Inr None, r2) \<Rightarrow> (Inr (), r2)
           | (Inr (Some _), r2) \<Rightarrow> ad_delete ad name path r2))"

definition delete_payload_of :: "file_row \<Rightarrow> string \<Rightarrow> string \<Rightarrow> delete_payload" where
  "delete_payload_of f name path =
     \<lparr>dp_name = name, dp_path = path, dp_filename = fl_filename f, dp_hash = fl_hash f,
      dp_object = Some (fl_hash f \<noteq> None \<or> fl_native f)\<rparr>"

definition delete_after_remote ::
  "env \<Rightarrow> delete_args \<Rightarrow> file_row \<Rightarrow> string option \<Rightarrow> string option \<Rightarrow> string option \<Rightarrow> 'r world \<Rightarrow> 'r world" where
  "delete_after_remote env a f name localPath opid w =
     (let w1 = on_db (delete_file_row (da_file a)) w;
          w2 = snd (removeLocalCopyAndState env (if da_mode a = Complete then localPath else None) (da_file a) w1);
          w3 = on_db (\<lambda>db. publishNodeChange (fl_node f) ChangeFiles
                 (insert_audit (da_user a) ''sync_delete'' ''file'' (da_file a)
                    (JObj [(''mode'', JStr (mode_name (da_mode a))), (''node_id'', JStr (fl_node f)),
                           (''remote_name'', opt_json name), (''remote_path'', opt_json (fl_remote_path f)),
                           (''local_path'', opt_json localPath), (''filename'', JStr (fl_filename f))]) db)) w2
      in (case opid of None \<Rightarrow> w3 | Some i \<Rightarrow> completePendingOp i w3))"

definition deleteFile ::
  "env \<Rightarrow> 'r adapter \<Rightarrow> string \<Rightarrow> delete_args \<Rightarrow> 'r world \<Rightarrow> (file_error + delete_result) \<times> 'r world" where
  "deleteFile env ad opid a w =
     (case file_by_id (wd_db w) (da_file a) of
        None \<Rightarrow> (Inl (FileNotFound (da_file a)), w)
      | Some f \<Rightarrow>
          (let name = (if ev_local_only env then None else fl_remote_name f);
               localPath = delete_local_path env (da_user a) (fl_node f) (fl_remote_path f) w
           in if \<not> da_confirmed a
              then (Inr (DeletePreview
                      ((if da_mode a = Complete \<and> truthy_opt name \<noteq> None \<and> truthy_opt (fl_remote_path f) \<noteq> None then [''remote''] else []) @
                       (if da_mode a = Complete \<and> truthy_opt localPath \<noteq> None then [''local''] else []) @ [''portuni'']) localPath), w)
              else (case (truthy_opt name, truthy_opt (fl_remote_path f)) of
                      (Some n, Some p) \<Rightarrow>
                        if da_mode a = Complete
                        then (let w1 = enqueuePendingOp opid (da_user a) (fl_node f) (da_file a) (OpDelete (delete_payload_of f n p)) w
                              in (case remote_remove ad n p (wd_remote w1) of
                                    (Inl e, r) \<Rightarrow>
                                      (Inr (DeleteRepair e),
                                       on_db (\<lambda>db. publishNodeChange (fl_node f) ChangeFiles
                                          (insert_audit (da_user a) ''sync_delete_repair_needed'' ''file'' (da_file a)
                                             (JObj [(''mode'', JStr (mode_name (da_mode a))), (''remote_name'', JStr n),
                                                    (''remote_path'', JStr p), (''error'', JStr e)]) db))
                                         (failPendingOp opid e (w1\<lparr>wd_remote := r\<rparr>)))
                                  | (Inr _, r) \<Rightarrow>
                                      (Inr DeleteOk, delete_after_remote env a f name localPath (Some opid) (w1\<lparr>wd_remote := r\<rparr>))))
                        else (Inr DeleteOk, delete_after_remote env a f name localPath None w)
                    | _ \<Rightarrow> (Inr DeleteOk, delete_after_remote env a f name localPath None w))))"

definition DEFAULT_DELETE_FILES_LIMIT :: int where "DEFAULT_DELETE_FILES_LIMIT = 50"

record delete_many_args =
  dm_user :: user_id
  dm_node :: node_id
  dm_prefixes :: "string list"
  dm_files :: "string list"
  dm_mode :: delete_mode
  dm_confirmed :: bool
  dm_limit :: "int option"

record delete_entry =
  de_file :: string
  de_filename :: string
  de_path :: "string option"
  de_local :: "string option"

datatype delete_many_result =
    DeleteManyPreview "delete_entry list" "string list"
  | DeleteManyApplied "(delete_entry \<times> string option) list" "string list" nat     \<comment> \<open>the error of each file\<close>

definition strip_slashes :: "string \<Rightarrow> string" where
  "strip_slashes p = rev (dropWhile (\<lambda>c. c = CHR ''/'') (rev p))"

fun assert_prefixes :: "string list \<Rightarrow> file_error + unit" where
  "assert_prefixes [] = Inr ()"
| "assert_prefixes (p # ps) =
     (case assertSafeRelativePath p ''deleteFiles.pathPrefix'' of Inl e \<Rightarrow> Inl (PathFailure e) | Inr _ \<Rightarrow> assert_prefixes ps)"

definition selected_files :: "node_id \<Rightarrow> string \<Rightarrow> string list \<Rightarrow> string list \<Rightarrow> graph_db \<Rightarrow> file_row list" where
  "selected_files node nodeRoot pres fileIds db =
     sort_key (\<lambda>f. or_else (fl_remote_path f) [])
       (filter (\<lambda>f. fl_node f = node \<and>
            ((\<exists>p \<in> set pres. case fl_remote_path f of None \<Rightarrow> False | Some q \<Rightarrow> pathPrefixCondition (nodeRoot @ ''/'' @ p) q) \<or>
             fl_id f \<in> set fileIds)) (files_t db))"

text \<open>
  The files in order.  The code runs up to four deletions at a time; they are of distinct files, and
  the model takes the order in which each ends before the next begins.
\<close>

fun delete_each ::
  "env \<Rightarrow> 'r adapter \<Rightarrow> (string \<Rightarrow> string) \<Rightarrow> delete_many_args \<Rightarrow> delete_entry list \<Rightarrow> 'r world \<Rightarrow> (delete_entry \<times> string option) list \<times> 'r world" where
  "delete_each env ad opids a [] w = ([], w)"
| "delete_each env ad opids a (f # fs) w =
     (case deleteFile env ad (opids (de_file f))
             \<lparr>da_user = dm_user a, da_file = de_file f, da_mode = dm_mode a, da_confirmed = True\<rparr> w of
        (res, w1) \<Rightarrow>
          (case delete_each env ad opids a fs w1 of
             (os, w2) \<Rightarrow>
               ((f, case res of Inr (DeleteRepair e) \<Rightarrow> Some e | Inr _ \<Rightarrow> None
                              | Inl e \<Rightarrow> Some (''File '' @ de_file f @ '' not found'')) # os, w2)))"

text \<open>
  The batch: its pool of four workers is the sequence of its deletions here (each works on its own
  row, file and pending operation).
\<close>

definition deleteFiles ::
  "env \<Rightarrow> 'r adapter \<Rightarrow> (string \<Rightarrow> string) \<Rightarrow> delete_many_args \<Rightarrow> 'r world \<Rightarrow> (file_error + delete_many_result) \<times> 'r world" where
  "deleteFiles env ad opids a w =
     (let pres = map strip_slashes (dm_prefixes a)
      in if pres = [] \<and> dm_files a = [] then (Inl NothingSelected, w)
         else (case assert_prefixes pres of
                 Inl e \<Rightarrow> (Inl e, w)
               | Inr _ \<Rightarrow>
                   (case resolveNodeInfo (wd_db w) (dm_node a) of
                      None \<Rightarrow> (Inl (NodeGone (dm_node a)), w)
                    | Some info \<Rightarrow>
                        (case buildNodeRoot info of
                           Inl e \<Rightarrow> (Inl (PathFailure e), w)
                         | Inr nr \<Rightarrow>
                             (let selected = map (\<lambda>f. \<lparr>de_file = fl_id f, de_filename = fl_filename f, de_path = fl_remote_path f,
                                     de_local = (case truthy_opt (fl_remote_path f) of None \<Rightarrow> None
                                                 | Some p \<Rightarrow> mirror_local env (dm_user a) (dm_node a) info p)\<rparr>)
                                   (selected_files (dm_node a) nr pres (dm_files a) (wd_db w));
                                  notFound = filter (\<lambda>i. i \<notin> set (map de_file selected)) (dm_files a)
                              in if \<not> dm_confirmed a then (Inr (DeleteManyPreview selected notFound), w)
                                 else (let limit = nat (max 0 (or_else (dm_limit a) DEFAULT_DELETE_FILES_LIMIT));
                                           todo = take limit selected
                                       in (case delete_each env ad opids a todo w of
                                             (results, w1) \<Rightarrow>
                                               (Inr (DeleteManyApplied results notFound (length selected - length todo)), w1))))))))"

section \<open>Adopt files\<close>

record adopt_args =
  aa_user :: user_id
  aa_node :: node_id
  aa_paths :: "string list"
  aa_status :: "string option"
  aa_refs :: "string \<Rightarrow> file_ref option"

datatype skip_reason = SkipOutside string | SkipPath path_error | SkipMissing | SkipTracked

record adopt_state =
  an_adopted :: "(string \<times> string) list"       \<comment> \<open>file id and path\<close>
  an_skipped :: "(string \<times> skip_reason) list"  \<comment> \<open>path and reason\<close>
  an_audit :: "audit_entry list"

definition last_segment :: "string \<Rightarrow> string" where
  "last_segment p = last (split_on CHR ''/'' p)"

definition adopted_row :: "adopt_args \<Rightarrow> timestamp \<Rightarrow> string \<Rightarrow> string \<Rightarrow> string \<Rightarrow> file_ref \<Rightarrow> file_row" where
  "adopted_row a now i name p st =
     \<lparr>fl_id = i, fl_node = aa_node a, fl_remote_name = Some name, fl_remote_path = Some p, fl_updated_at = now,
      fl_filename = last_segment p, fl_status = or_else (aa_status a) ''wip'', fl_hash = fr_hash st,
      fl_native = fr_native st, fl_object = fr_object st, fl_pushed_by = Some (aa_user a),
      fl_pushed_at = Some now, fl_mime = None\<rparr>"

definition adopt_audit :: "adopt_args \<Rightarrow> string \<Rightarrow> string \<Rightarrow> string \<Rightarrow> file_ref \<Rightarrow> audit_entry" where
  "adopt_audit a i name p st =
     \<lparr>au_user = aa_user a, au_action = ''sync_adopt'', au_target_type = ''file'', au_target_id = i,
      au_detail = Some (JObj [(''remote_name'', JStr name), (''remote_path'', JStr p), (''hash'', opt_json (fr_hash st))])\<rparr>"

text \<open>One path: its checks, the metadata it comes with or a stat, and the insert that yields to a tracked row.\<close>

definition adopt_one ::
  "'r adapter \<Rightarrow> timestamp \<Rightarrow> (string \<Rightarrow> string) \<Rightarrow> adopt_args \<Rightarrow> string \<Rightarrow> string \<Rightarrow> string \<Rightarrow> adopt_state \<times> 'r world \<Rightarrow>
   (file_error + adopt_state) \<times> 'r world" where
  "adopt_one ad now ids a name nodeRoot p sw =
     (case sw of (s, w) \<Rightarrow>
        if \<not> prefix (nodeRoot @ ''/'') p
        then (Inr (s\<lparr>an_skipped := an_skipped s @ [(p, SkipOutside nodeRoot)]\<rparr>), w)
        else (case assertSafeRelativePath (drop (length (nodeRoot @ ''/'')) p) ''adoptFiles.path'' of
                Inl e \<Rightarrow> (Inr (s\<lparr>an_skipped := an_skipped s @ [(p, SkipPath e)]\<rparr>), w)
              | Inr _ \<Rightarrow>
                  (case (case aa_refs a p of Some st \<Rightarrow> (Inr (Some st), wd_remote w) | None \<Rightarrow> ad_stat ad name p (wd_remote w)) of
                     (Inl e, r) \<Rightarrow> (Inl (RemoteFailure e), w\<lparr>wd_remote := r\<rparr>)
                   | (Inr None, r) \<Rightarrow>
                       (Inr (s\<lparr>an_skipped := an_skipped s @ [(p, SkipMissing)]\<rparr>), w\<lparr>wd_remote := r\<rparr>)
                   | (Inr (Some st), r) \<Rightarrow>
                       (let w1 = w\<lparr>wd_remote := r\<rparr>
                        in if \<exists>f \<in> set (files_t (wd_db w)). fl_node f = aa_node a \<and> fl_remote_path f = Some p
                           then (Inr (s\<lparr>an_skipped := an_skipped s @ [(p, SkipTracked)]\<rparr>), w1)
                           else (Inr (s\<lparr>an_adopted := an_adopted s @ [(ids p, p)],
                                       an_audit := an_audit s @ [adopt_audit a (ids p) name p st]\<rparr>),
                                 on_db (\<lambda>db. publishNodeChange (aa_node a) ChangeFiles
                                    (db\<lparr>files_t := files_t db @ [adopted_row a now (ids p) name p st]\<rparr>)) w1)))))"

fun adopt_each ::
  "'r adapter \<Rightarrow> timestamp \<Rightarrow> (string \<Rightarrow> string) \<Rightarrow> adopt_args \<Rightarrow> string \<Rightarrow> string \<Rightarrow> string list \<Rightarrow> adopt_state \<times> 'r world \<Rightarrow>
   (file_error + adopt_state) \<times> 'r world" where
  "adopt_each ad now ids a name nodeRoot [] (s, w) = (Inr s, w)"
| "adopt_each ad now ids a name nodeRoot (p # ps) (s, w) =
     (case adopt_one ad now ids a name nodeRoot p (s, w) of
        (Inl e, w1) \<Rightarrow> (Inl e, w1)
      | (Inr s1, w1) \<Rightarrow> adopt_each ad now ids a name nodeRoot ps (s1, w1))"

definition adoptFiles ::
  "env \<Rightarrow> 'r adapter \<Rightarrow> timestamp \<Rightarrow> (string \<Rightarrow> string) \<Rightarrow> adopt_args \<Rightarrow> 'r world \<Rightarrow> (file_error + adopt_state) \<times> 'r world" where
  "adoptFiles env ad now ids a w =
     (if ev_local_only env then (Inl LocalModeOnly, w)
      else (case resolveNodeInfo (wd_db w) (aa_node a) of
              None \<Rightarrow> (Inl (NodeGone (aa_node a)), w)
            | Some info \<Rightarrow>
                (case truthy_opt (resolveRemote (ev_local_only env) (wd_routing w) (in_type info) (in_org info)) of
                   None \<Rightarrow> (Inl NoRemoteForTarget, w)
                 | Some name \<Rightarrow>
                     (case ad_open ad name (wd_remote w) of
                        (Inl e, r) \<Rightarrow> (Inl (RemoteFailure e), w\<lparr>wd_remote := r\<rparr>)
                      | (Inr _, r) \<Rightarrow>
                          (case buildNodeRoot info of
                             Inl e \<Rightarrow> (Inl (PathFailure e), w\<lparr>wd_remote := r\<rparr>)
                           | Inr nr \<Rightarrow>
                               (case adopt_each ad now ids a name nr (aa_paths a)
                                       (\<lparr>an_adopted = [], an_skipped = [], an_audit = []\<rparr>, w\<lparr>wd_remote := r\<rparr>) of
                                  (Inl e, w1) \<Rightarrow> (Inl e, w1)
                                | (Inr s, w1) \<Rightarrow>
                                    (Inr s, on_db (\<lambda>db. db\<lparr>audit_t := audit_t db @ an_audit s\<rparr>) w1)))))))"

section \<open>The retry of pending operations\<close>

definition claimed_by :: "graph_db \<Rightarrow> string \<times> string \<Rightarrow> string option" where
  "claimed_by db c =
     map_option fl_id (find (\<lambda>f. fl_remote_name f = Some (fst c) \<and> fl_remote_path f = Some (snd c)) (files_t db))"

fun first_claim :: "graph_db \<Rightarrow> (string \<times> string) list \<Rightarrow> (string \<times> string \<times> string) option" where
  "first_claim db [] = None"
| "first_claim db (c # cs) =
     (case claimed_by db c of Some i \<Rightarrow> Some (i, fst c, snd c) | None \<Rightarrow> first_claim db cs)"

definition assertRecordStillMatches :: "pending_row \<Rightarrow> (string \<times> string) list \<Rightarrow> graph_db \<Rightarrow> string + unit" where
  "assertRecordStillMatches row candidates db =
     (case file_by_id db (pr_file row) of
        Some f \<Rightarrow>
          (if \<exists>c \<in> set candidates. fl_remote_name f = Some (fst c) \<and> fl_remote_path f = Some (snd c) then Inr ()
           else Inl (''file '' @ pr_file row @ '' record now points at '' @ or_else (fl_remote_name f) ''null'' @ '':'' @
                     or_else (fl_remote_path f) ''null'' @ '', which does not match the pending op -- refusing to guess''))
      | None \<Rightarrow>
          (case first_claim db candidates of
             None \<Rightarrow> Inr ()
           | Some (i, n, p) \<Rightarrow>
               Inl (''file '' @ pr_file row @ '' record is gone and '' @ n @ '':'' @ p @
                    '' is now claimed by a different file ('' @ i @ '') -- refusing to guess'')))"

definition repaired_row :: "move_payload \<Rightarrow> timestamp \<Rightarrow> file_row \<Rightarrow> file_row" where
  "repaired_row m now f =
     f\<lparr>fl_remote_name := Some (mp_to_name m), fl_remote_path := Some (mp_to_path m), fl_node := mp_to_node m,
       fl_filename := mp_filename m, fl_updated_at := now\<rparr>"

definition runMove :: "'r adapter \<Rightarrow> timestamp \<Rightarrow> pending_row \<Rightarrow> move_payload \<Rightarrow> 'r world \<Rightarrow> (string + unit) \<times> 'r world" where
  "runMove ad now row m w =
     (case assertRecordStillMatches row [(mp_from_name m, mp_from_path m), (mp_to_name m, mp_to_path m)] (wd_db w) of
        Inl e \<Rightarrow> (Inl e, w)
      | Inr _ \<Rightarrow>
          (case relocateRemoteObject ad (move_params m) (wd_remote w) of
             (Inl e, ph, r) \<Rightarrow> (Inl e, w\<lparr>wd_remote := r\<rparr>)
           | (Inr st, ph, r) \<Rightarrow>
               (Inr (),
                on_db (\<lambda>db. publishNodeChange (mp_to_node m) ChangeFiles (publishNodeChange (pr_node row) ChangeFiles
                         (insert_audit (pr_user row) ''sync_move'' ''file'' (pr_file row)
                            (JObj [(''node_id'', JStr (pr_node row)), (''old_remote_path'', JStr (mp_from_path m)),
                                   (''repaired'', JBool True),
                                   (''old'', JObj [(''remote_name'', JStr (mp_from_name m)), (''remote_path'', JStr (mp_from_path m))]),
                                   (''new'', JObj [(''remote_name'', JStr (mp_to_name m)), (''remote_path'', JStr (mp_to_path m))])]) db)))
                  (writeRelocatedRecord (pr_file row) (mp_to_node m) (mp_to_path m) (repaired_row m now) (w\<lparr>wd_remote := r\<rparr>)))))"

definition delete_refused :: "delete_payload \<Rightarrow> file_ref \<Rightarrow> string option" where
  "delete_refused d cur =
     (if dp_object d = Some False then Some (dp_path d @ '' now holds an object, but the record being deleted had never been pushed -- refusing to delete a file this op did not target'')
      else (case (dp_hash d, fr_hash cur) of
              (Some h, Some g) \<Rightarrow> (if g \<noteq> h then Some (dp_path d @ '' is not the file this delete targeted (remote hash '' @ g @ '', expected '' @ h @ '') -- refusing to delete it'') else None)
            | _ \<Rightarrow> None))"

definition retry_remove :: "'r adapter \<Rightarrow> delete_payload \<Rightarrow> 'r \<Rightarrow> (string + unit) \<times> 'r" where
  "retry_remove ad d r =
     (case ad_open ad (dp_name d) r of
        (Inl e, r1) \<Rightarrow> (Inl e, r1)
      | (Inr _, r1) \<Rightarrow>
          (case ad_stat ad (dp_name d) (dp_path d) r1 of
             (Inl e, r2) \<Rightarrow> (Inl e, r2)
           | (Inr None, r2) \<Rightarrow> (Inr (), r2)
           | (Inr (Some cur), r2) \<Rightarrow>
               (case delete_refused d cur of
                  Some e \<Rightarrow> (Inl e, r2)
                | None \<Rightarrow> ad_delete ad (dp_name d) (dp_path d) r2)))"

definition runDelete :: "env \<Rightarrow> 'r adapter \<Rightarrow> pending_row \<Rightarrow> delete_payload \<Rightarrow> 'r world \<Rightarrow> (string + unit) \<times> 'r world" where
  "runDelete env ad row d w =
     (case assertRecordStillMatches row [(dp_name d, dp_path d)] (wd_db w) of
        Inl e \<Rightarrow> (Inl e, w)
      | Inr _ \<Rightarrow>
          (case retry_remove ad d (wd_remote w) of
             (Inl e, r) \<Rightarrow> (Inl e, w\<lparr>wd_remote := r\<rparr>)
           | (Inr _, r) \<Rightarrow>
               (let w1 = on_db (delete_file_row (pr_file row)) (w\<lparr>wd_remote := r\<rparr>);
                    localPath = (case resolveNodeInfo (wd_db w1) (pr_node row) of
                                   None \<Rightarrow> None | Some info \<Rightarrow> mirror_local env (pr_user row) (pr_node row) info (dp_path d));
                    w2 = snd (removeLocalCopyAndState env localPath (pr_file row) w1)
                in (Inr (),
                    on_db (\<lambda>db. publishNodeChange (pr_node row) ChangeFiles
                       (insert_audit (pr_user row) ''sync_delete'' ''file'' (pr_file row)
                          (JObj [(''mode'', JStr ''complete''), (''node_id'', JStr (pr_node row)), (''remote_name'', JStr (dp_name d)),
                                 (''remote_path'', JStr (dp_path d)), (''filename'', JStr (dp_filename d)), (''repaired'', JBool True)]) db)) w2))))"

definition run_op :: "env \<Rightarrow> 'r adapter \<Rightarrow> timestamp \<Rightarrow> pending_row \<Rightarrow> 'r world \<Rightarrow> (string + unit) \<times> 'r world" where
  "run_op env ad now row w =
     (case pr_payload row of OpMove m \<Rightarrow> runMove ad now row m w | OpDelete d \<Rightarrow> runDelete env ad row d w)"

record retry_result =
  rr_repaired :: "string list"
  rr_pending :: "(string \<times> nat \<times> string) list"      \<comment> \<open>file, attempts, error\<close>

fun retry_each :: "env \<Rightarrow> 'r adapter \<Rightarrow> timestamp \<Rightarrow> pending_row list \<Rightarrow> 'r world \<Rightarrow> retry_result \<times> 'r world" where
  "retry_each env ad now [] w = (\<lparr>rr_repaired = [], rr_pending = []\<rparr>, w)"
| "retry_each env ad now (row # rows) w =
     (case run_op env ad now row w of
        (Inr _, w1) \<Rightarrow>
          (case retry_each env ad now rows (completePendingOp (pr_id row) w1) of
             (res, w2) \<Rightarrow> (res\<lparr>rr_repaired := pr_file row # rr_repaired res\<rparr>, w2))
      | (Inl e, w1) \<Rightarrow>
          (case retry_each env ad now rows (failPendingOp (pr_id row) e w1) of
             (res, w2) \<Rightarrow> (res\<lparr>rr_pending := (pr_file row, Suc (pr_attempts row), e) # rr_pending res\<rparr>, w2)))"

definition retryPendingFileOps :: "env \<Rightarrow> 'r adapter \<Rightarrow> timestamp \<Rightarrow> node_id \<Rightarrow> 'r world \<Rightarrow> retry_result \<times> 'r world" where
  "retryPendingFileOps env ad now node w = retry_each env ad now (listPendingOps node w) w"

end
