(* ===== verification/FileLaws.thy ===== *)
theory FileLaws
  imports FileOps
begin

text \<open>
  What the file mutations promise, for every adapter that does what \<open>adapter_ok\<close> says and whichever of
  its calls fail: the content of a file that is moved or renamed can always be found, from its record
  or from its pending operation, and no other object on any remote changes; a retry finishes what
  a failure left, and touches nothing but its target; a deletion is complete or leaves everything.
\<close>

section \<open>Frames\<close>

lemma on_db_simps [simp]:
  "wd_db (on_db f w) = f (wd_db w)" "wd_ops (on_db f w) = wd_ops w" "wd_remote (on_db f w) = wd_remote w"
  "wd_local (on_db f w) = wd_local w" "wd_state (on_db f w) = wd_state w" "wd_routing (on_db f w) = wd_routing w"
  by (simp_all add: on_db_def)

lemma file_state_frame [simp]:
  "wd_db (deleteFileState i w) = wd_db w" "wd_ops (deleteFileState i w) = wd_ops w" "wd_remote (deleteFileState i w) = wd_remote w"
  "wd_db (upsertFileState i st w) = wd_db w" "wd_ops (upsertFileState i st w) = wd_ops w"
  "wd_remote (upsertFileState i st w) = wd_remote w"
  "wd_local (deleteFileState i w) = wd_local w" "wd_local (upsertFileState i st w) = wd_local w"
  by (simp_all add: deleteFileState_def upsertFileState_def)

lemma merge_frame [simp]:
  "wd_db (mergeShadowFileState a b w) = wd_db w" "wd_ops (mergeShadowFileState a b w) = wd_ops w"
  "wd_remote (mergeShadowFileState a b w) = wd_remote w" "wd_local (mergeShadowFileState a b w) = wd_local w"
  by (simp_all add: mergeShadowFileState_def split: option.split)

lemma record_frame [simp]:
  "wd_ops (writeRelocatedRecord f n p upd w) = wd_ops w" "wd_remote (writeRelocatedRecord f n p upd w) = wd_remote w"
  "wd_local (writeRelocatedRecord f n p upd w) = wd_local w"
  by (simp_all add: writeRelocatedRecord_def split: option.split)

lemma op_frame [simp]:
  "wd_db (enqueuePendingOp i u n f p w) = wd_db w" "wd_remote (enqueuePendingOp i u n f p w) = wd_remote w"
  "wd_db (completePendingOp i w) = wd_db w" "wd_remote (completePendingOp i w) = wd_remote w"
  "wd_db (failPendingOp i e w) = wd_db w" "wd_remote (failPendingOp i e w) = wd_remote w"
  "wd_db (markPendingMoveSourceCopied i w) = wd_db w" "wd_remote (markPendingMoveSourceCopied i w) = wd_remote w"
  "wd_local (enqueuePendingOp i u n f p w) = wd_local w" "wd_local (completePendingOp i w) = wd_local w"
  "wd_local (failPendingOp i e w) = wd_local w"
  by (simp_all add: enqueuePendingOp_def completePendingOp_def failPendingOp_def update_op_def
      markPendingMoveSourceCopied_def split: option.split pending_op.split)

lemma audit_file_frame [simp]:
  "files_t (insert_audit u a tt ti d db) = files_t db" "nodes_t (insert_audit u a tt ti d db) = nodes_t db"
  by (simp_all add: insert_audit_def)

lemma local_rename_frame [simp]:
  "local_rename env a b w = (out, w') \<Longrightarrow> wd_db w' = wd_db w \<and> wd_ops w' = wd_ops w \<and> wd_remote w' = wd_remote w"
  by (auto simp: local_rename_def split: option.splits)

lemma remove_local_frame [simp]:
  "wd_db (snd (removeLocalCopyAndState env l f w)) = wd_db w"
  "wd_ops (snd (removeLocalCopyAndState env l f w)) = wd_ops w"
  "wd_remote (snd (removeLocalCopyAndState env l f w)) = wd_remote w"
  by (auto simp: removeLocalCopyAndState_def Let_def split: option.split)

lemma file_by_id_update:
  assumes "\<And>r. fl_id (upd r) = fl_id r"
  shows "file_by_id (update_file_row f upd db) f = map_option upd (file_by_id db f)"
proof -
  have "find (\<lambda>r. fl_id r = f) (map (\<lambda>r. if fl_id r = f then upd r else r) xs) = map_option upd (find (\<lambda>r. fl_id r = f) xs)" for xs
    using assms by (induction xs) auto
  then show ?thesis by (simp add: file_by_id_def update_file_row_def)
qed

lemma file_by_id_delete: "i \<noteq> f \<Longrightarrow> file_by_id (delete_file_row i db) f = file_by_id db f"
proof -
  assume ne: "i \<noteq> f"
  have "find (\<lambda>r. fl_id r = f) (filter (\<lambda>r. fl_id r \<noteq> i) xs) = find (\<lambda>r. fl_id r = f) xs" for xs
    using ne by (induction xs) auto
  then show ?thesis by (simp add: file_by_id_def delete_file_row_def)
qed

lemma file_by_id_gone: "file_by_id (delete_file_row f db) f = None"
  by (simp add: file_by_id_def delete_file_row_def find_None_iff)

lemma file_by_id_files: "files_t db' = files_t db \<Longrightarrow> file_by_id db' f = file_by_id db f"
  by (simp add: file_by_id_def)

lemma find_shadow_other: "find_shadow f n p db = Some i \<Longrightarrow> i \<noteq> f"
  by (auto simp: find_shadow_def dest: find_SomeD)

lemma record_written:
  assumes "file_by_id (wd_db w) f = Some row" and "\<And>r. fl_id (upd r) = fl_id r"
  shows "file_by_id (wd_db (writeRelocatedRecord f n p upd w)) f = Some (upd row)"
  using assms find_shadow_other [of f n p "wd_db w"]
  by (auto simp: writeRelocatedRecord_def file_by_id_update file_by_id_delete split: option.split)

section \<open>Content is never out of reach\<close>

text \<open>The content is at the record's place, or a pending move of the file starts there and its target holds it.\<close>

definition findable :: "objects \<Rightarrow> graph_db \<Rightarrow> pending_row list \<Rightarrow> string \<Rightarrow> string \<Rightarrow> bool" where
  "findable objects db ops f c \<longleftrightarrow>
     (case file_by_id db f of
        None \<Rightarrow> False
      | Some r \<Rightarrow>
          (case (fl_remote_name r, fl_remote_path r) of
             (Some n, Some p) \<Rightarrow>
               objects (n, p) = Some c \<or>
               (\<exists>op \<in> set ops. pr_file op = f \<and>
                  (case pr_payload op of
                     OpMove m \<Rightarrow> mp_from_name m = n \<and> mp_from_path m = p \<and> objects (mp_to_name m, mp_to_path m) = Some c
                   | OpDelete d \<Rightarrow> False))
           | _ \<Rightarrow> False))"

text \<open>Every object but the one that moves is as it was.\<close>

definition others_kept :: "string \<times> string \<Rightarrow> objects \<Rightarrow> objects \<Rightarrow> bool" where
  "others_kept k0 o1 o2 \<longleftrightarrow> (\<forall>k. k \<noteq> k0 \<longrightarrow> o1 k \<noteq> None \<longrightarrow> o2 k = o1 k)"

lemma relocated_fresh:
  assumes "relocated p o1 o2 v ph" and "\<not> rl_copied p" and "o1 (from_key p) = Some c"
  shows "others_kept (from_key p) o1 o2"
    and "o2 (from_key p) = Some c \<or> o2 (to_key p) = Some c"
    and "v = Inr st \<Longrightarrow> o2 (to_key p) = Some c \<and> o2 (from_key p) = None"
    and "ph = Some DeleteSource \<Longrightarrow> o2 (to_key p) = Some c \<or> o2 = o1"
  using assms unfolding relocated_def others_kept_def by (metis option.distinct(1))+

lemma relocate_fresh:
  assumes ad: "adapter_ok ad objs" and step: "relocateRemoteObject ad p r = (v, ph, r')"
    and nc: "\<not> rl_copied p" and c: "objs r (from_key p) = Some c"
  shows "others_kept (from_key p) (objs r) (objs r')"
    and "objs r' (from_key p) = Some c \<or> objs r' (to_key p) = Some c"
    and "v = Inr st \<Longrightarrow> objs r' (to_key p) = Some c"
proof -
  consider "from_key p = to_key p" | "from_key p \<noteq> to_key p" by blast
  then have "others_kept (from_key p) (objs r) (objs r') \<and> (objs r' (from_key p) = Some c \<or> objs r' (to_key p) = Some c) \<and>
      (v = Inr st \<longrightarrow> objs r' (to_key p) = Some c)"
  proof cases
    case 1
    then have "r' = r" using step by (simp add: relocateRemoteObject_def)
    then show ?thesis using 1 c by (simp add: others_kept_def)
  next
    case 2
    note rel = relocate_relocates [OF ad 2 step]
    show ?thesis using relocated_fresh [OF rel nc c] by blast
  qed
  then show "others_kept (from_key p) (objs r) (objs r')" "objs r' (from_key p) = Some c \<or> objs r' (to_key p) = Some c"
    "v = Inr st \<Longrightarrow> objs r' (to_key p) = Some c" by blast+
qed

text \<open>After a failure the operation is queued, whatever was marked on it.\<close>

definition fresh_op :: "string \<Rightarrow> 'r world \<Rightarrow> bool" where
  "fresh_op i w \<longleftrightarrow> (\<forall>op \<in> set (wd_ops w). pr_id op \<noteq> i)"

lemma queued_after_failure:
  assumes "fresh_op i w"
  shows "\<exists>op \<in> set (wd_ops (failPendingOp i e (enqueuePendingOp i u n f (OpMove m) w\<lparr>wd_remote := r\<rparr>))).
           pr_file op = f \<and> pr_payload op = OpMove m"
    and "\<exists>op \<in> set (wd_ops (failPendingOp i e (markPendingMoveSourceCopied i (enqueuePendingOp i u n f (OpMove m) w\<lparr>wd_remote := r\<rparr>)))).
           pr_file op = f \<and> pr_payload op = OpMove (m\<lparr>mp_copied := True\<rparr>)"
proof -
  have "find (\<lambda>p. pr_id p = i) (wd_ops w) = None" using assms by (auto simp: fresh_op_def find_None_iff)
  then show "\<exists>op \<in> set (wd_ops (failPendingOp i e (markPendingMoveSourceCopied i (enqueuePendingOp i u n f (OpMove m) w\<lparr>wd_remote := r\<rparr>)))).
           pr_file op = f \<and> pr_payload op = OpMove (m\<lparr>mp_copied := True\<rparr>)"
    by (simp add: markPendingMoveSourceCopied_def enqueuePendingOp_def failPendingOp_def update_op_def find_append_list)
  show "\<exists>op \<in> set (wd_ops (failPendingOp i e (enqueuePendingOp i u n f (OpMove m) w\<lparr>wd_remote := r\<rparr>))).
           pr_file op = f \<and> pr_payload op = OpMove m"
    by (simp add: enqueuePendingOp_def failPendingOp_def update_op_def)
qed

lemma findableI_record:
  assumes "file_by_id db f = Some r" and "fl_remote_name r = Some n" and "fl_remote_path r = Some p" and "objects (n, p) = Some c"
  shows "findable objects db ops f c"
  using assms by (simp add: findable_def)

lemma findableI_queued:
  assumes "file_by_id db f = Some r" and "fl_remote_name r = Some n" and "fl_remote_path r = Some p"
    and "\<exists>op \<in> set ops. pr_file op = f \<and> pr_payload op = OpMove m" and "mp_from_name m = n" and "mp_from_path m = p"
    and "objects (n, p) = Some c \<or> objects (mp_to_name m, mp_to_path m) = Some c"
  shows "findable objects db ops f c"
  using assms by (auto simp: findable_def)


lemma bound_file_facts:
  assumes "bound_file env f w = Inr (row, name, path)" and "\<not> ev_local_only env"
  shows "file_by_id (wd_db w) f = Some row" and "fl_remote_path row = Some path" and "name = fl_remote_name row"
    and "fl_remote_name row = Some (or_else name [])"
proof -
  have "file_by_id (wd_db w) f = Some row \<and> fl_remote_path row = Some path \<and> name = fl_remote_name row \<and>
      fl_remote_name row \<noteq> None"
    using assms by (auto simp: bound_file_def Let_def split: option.splits if_splits)
  then show "file_by_id (wd_db w) f = Some row" "fl_remote_path row = Some path" "name = fl_remote_name row"
    "fl_remote_name row = Some (or_else name [])"
    by (auto simp: or_else_def)
qed

lemma plan_file_move_facts:
  assumes "plan_file_move env a w = Inr p" and "\<not> ev_local_only env"
  shows "\<exists>row. file_by_id (wd_db w) (ma_file a) = Some row \<and> pl_file p = ma_file a \<and> pl_node p = fl_node row \<and>
    fl_remote_name row = Some (or_else (pl_old_name p) []) \<and> fl_remote_path row = Some (pl_old_path p) \<and>
    pl_new_name p = Some (or_else (pl_new_name p) [])"
proof -
  obtain row name path where b: "bound_file env (ma_file a) w = Inr (row, name, path)"
    using assms(1) by (auto simp: plan_file_move_def bind_sum_Inr)
  note bf = bound_file_facts [OF b assms(2)]
  have "pl_file p = ma_file a \<and> pl_node p = fl_node row \<and> pl_old_name p = name \<and> pl_old_path p = path \<and> pl_new_name p \<noteq> None"
    using assms b by (auto simp: plan_file_move_def Let_def split: option.splits if_splits sum.splits)
  with bf show ?thesis by (auto simp: or_else_def)
qed

lemma move_local_frame:
  "move_local env p w = (out, w') \<Longrightarrow> wd_db w' = wd_db w \<and> wd_ops w' = wd_ops w \<and> wd_remote w' = wd_remote w"
  by (auto simp: move_local_def split: option.splits if_splits dest: local_rename_frame)

lemma publish_file [simp]: "file_by_id (publishNodeChange i k db) f = file_by_id db f"
  by (simp add: file_by_id_def)

lemma insert_audit_file [simp]: "file_by_id (insert_audit u a tt ti d db) f = file_by_id db f"
  by (simp add: file_by_id_def)

lemma relocate_row_id [simp]: "fl_id (relocate_row p now r) = fl_id r"
  by (simp add: relocate_row_def)

lemma move_after_remote_facts:
  assumes "move_after_remote env now i p al w = (res, w')" and "file_by_id (wd_db w) (pl_file p) = Some row"
  shows "wd_remote w' = wd_remote w" and "file_by_id (wd_db w') (pl_file p) = Some (relocate_row p now row)"
    and "wd_ops w' = filter (\<lambda>op. pr_id op \<noteq> i) (wd_ops w)"
proof -
  obtain out w1 where ml: "move_local env p w = (out, w1)" by (cases "move_local env p w")
  note fr = move_local_frame [OF ml]
  then have rec: "file_by_id (wd_db (move_record now p w1)) (pl_file p) = Some (relocate_row p now row)"
    unfolding move_record_def by (intro record_written) (simp_all add: assms(2))
  have rem: "wd_remote (move_record now p w1) = wd_remote w" "wd_ops (move_record now p w1) = wd_ops w"
    using fr by (simp_all add: move_record_def)
  show "wd_remote w' = wd_remote w" "file_by_id (wd_db w') (pl_file p) = Some (relocate_row p now row)"
    "wd_ops w' = filter (\<lambda>op. pr_id op \<noteq> i) (wd_ops w)"
    using assms(1) rec rem
    by (auto simp: move_after_remote_def ml writeMoveTombstone_def completePendingOp_def split: rename_outcome.splits)
qed

lemma moveFile_findable:
  assumes ad: "adapter_ok ad objs" and env: "\<not> ev_local_only env" and fresh: "fresh_op i w"
    and row: "file_by_id (wd_db w) f = Some row" and key: "fl_remote_name row = Some n" "fl_remote_path row = Some q"
    and c: "objs (wd_remote w) (n, q) = Some c"
    and step: "moveFile env ad now i a w = (v, w')" and f: "ma_file a = f"
  shows "findable (objs (wd_remote w')) (wd_db w') (wd_ops w') f c \<and> others_kept (n, q) (objs (wd_remote w)) (objs (wd_remote w'))"
proof -
  have stay: "findable (objs (wd_remote w)) (wd_db w) (wd_ops w) f c \<and> others_kept (n, q) (objs (wd_remote w)) (objs (wd_remote w))"
    using row key c by (simp add: findable_def others_kept_def)
  show ?thesis
  proof (cases "plan_file_move env a w")
    case (Inl e)
    then show ?thesis using step stay by (simp add: moveFile_def)
  next
    case (Inr p)
    from plan_file_move_facts [OF Inr env] row key f
    have p: "pl_file p = f" "or_else (pl_old_name p) [] = n" "pl_old_path p = q" "pl_new_name p = Some (or_else (pl_new_name p) [])"
      by auto
    show ?thesis
    proof (cases "ma_confirmed a")
      case False
      then show ?thesis using step Inr stay by (simp add: moveFile_def)
    next
      case True
      let ?m = "plan_payload p"
      let ?w1 = "enqueuePendingOp i (pl_user p) (pl_node p) (pl_file p) (OpMove ?m) w"
      obtain rv ph r where rl: "relocateRemoteObject ad (move_params ?m) (wd_remote w) = (rv, ph, r)"
        by (cases "relocateRemoteObject ad (move_params ?m) (wd_remote w)")
      have keys: "from_key (move_params ?m) = (n, q)" "\<not> rl_copied (move_params ?m)"
        using p by (simp_all add: move_params_def plan_payload_def)
      note rel = relocate_fresh [OF ad rl keys(2), unfolded keys(1), OF c]
      note unf = step [unfolded moveFile_def Inr sum.case Let_def op_frame rl prod.case]
      show ?thesis
      proof (cases rv)
        case (Inl e)
        show ?thesis
        proof (cases "ph = Some DeleteSource")
          case True
          let ?w2 = "failPendingOp i e (markPendingMoveSourceCopied i (?w1\<lparr>wd_remote := r\<rparr>))"
          have w': "w' = ?w2" using unf True \<open>ma_confirmed a\<close> env Inl by simp
          have "findable (objs r) (wd_db w') (wd_ops w') f c"
            by (rule findableI_queued [of _ _ row n q _ "?m\<lparr>mp_copied := True\<rparr>"])
              (use queued_after_failure(2) [OF fresh, of e r "pl_user p" "pl_node p" "pl_file p" ?m] rel row key p keys
                in \<open>simp_all add: w' move_params_def\<close>)
          then show ?thesis using rel(1) by (simp add: w')
        next
          case False
          let ?w2 = "failPendingOp i e (?w1\<lparr>wd_remote := r\<rparr>)"
          have w': "w' = ?w2" using unf False \<open>ma_confirmed a\<close> env Inl by simp
          have "findable (objs r) (wd_db w') (wd_ops w') f c"
            by (rule findableI_queued [of _ _ row n q _ ?m])
              (use queued_after_failure(1) [OF fresh, of e r "pl_user p" "pl_node p" "pl_file p" ?m] rel row key p keys
                in \<open>simp_all add: w' move_params_def\<close>)
          then show ?thesis using rel(1) by (simp add: w')
        qed
      next
        case (Inr st)
        obtain res w2 where ma: "move_after_remote env now i p (st = AlreadyAtTarget) (?w1\<lparr>wd_remote := r\<rparr>) = (res, w2)"
          by (cases "move_after_remote env now i p (st = AlreadyAtTarget) (?w1\<lparr>wd_remote := r\<rparr>)")
        have w': "w' = w2" using unf True env Inr ma by simp
        have "file_by_id (wd_db (?w1\<lparr>wd_remote := r\<rparr>)) (pl_file p) = Some row" using row p by simp
        note facts = move_after_remote_facts [OF ma this]
        have "objs r (or_else (pl_new_name p) [], pl_new_path p) = Some c"
          using rel(3) [OF Inr] by (simp add: move_params_def plan_payload_def)
        then have "findable (objs r) (wd_db w2) (wd_ops w2) f c"
          by (intro findableI_record [OF facts(2) [unfolded p(1)]]) (use p in \<open>simp_all add: relocate_row_def\<close>)
        then show ?thesis using rel(1) facts(1) by (simp add: w')
      qed
    qed
  qed
qed


lemma rename_local_frame:
  "rename_local_phase env a b w = (e, w') \<Longrightarrow> wd_db w' = wd_db w \<and> wd_ops w' = wd_ops w \<and> wd_remote w' = wd_remote w"
  by (auto simp: rename_local_phase_def split: option.splits if_splits prod.splits rename_outcome.splits dest: local_rename_frame)

lemma rename_after_remote_facts:
  assumes "rename_after_remote env now u fn opid row old new w = (res, w')" and "file_by_id (wd_db w) (fl_id row) = Some row"
  shows "wd_remote w' = wd_remote w"
    and "file_by_id (wd_db w') (fl_id row) = Some (row\<lparr>fl_filename := fn, fl_remote_path := Some new, fl_updated_at := now\<rparr>)"
proof -
  obtain ol nl where rl: "rename_locals env u (fl_node row) old new w = (ol, nl)"
    by (cases "rename_locals env u (fl_node row) old new w")
  obtain e w1 where rp: "rename_local_phase env ol nl w = (e, w1)" by (cases "rename_local_phase env ol nl w")
  note fr = rename_local_frame [OF rp]
  let ?upd = "\<lambda>r. r\<lparr>fl_filename := fn, fl_remote_path := Some new, fl_updated_at := now\<rparr>"
  have rec: "file_by_id (wd_db (writeRelocatedRecord (fl_id row) (fl_node row) new ?upd w1)) (fl_id row) = Some (?upd row)"
    using fr by (intro record_written) (simp_all add: assms(2))
  show "wd_remote w' = wd_remote w" "file_by_id (wd_db w') (fl_id row) = Some (?upd row)"
    using assms(1) rec fr by (auto simp: rename_after_remote_def rl rp Let_def completePendingOp_def split: option.splits)
qed

lemma file_by_id_id: "file_by_id db f = Some row \<Longrightarrow> fl_id row = f"
  by (auto simp: file_by_id_def dest: find_SomeD)

lemma renameFile_findable:
  assumes ad: "adapter_ok ad objs" and env: "\<not> ev_local_only env" and fresh: "fresh_op i w"
    and row: "file_by_id (wd_db w) f = Some row" and key: "fl_remote_name row = Some n" "fl_remote_path row = Some q"
    and c: "objs (wd_remote w) (n, q) = Some c"
    and step: "renameFile env ad now i u f fn w = (v, w')"
  shows "findable (objs (wd_remote w')) (wd_db w') (wd_ops w') f c \<and> others_kept (n, q) (objs (wd_remote w)) (objs (wd_remote w'))"
proof -
  have stay: "findable (objs (wd_remote w)) (wd_db w) (wd_ops w) f c \<and> others_kept (n, q) (objs (wd_remote w)) (objs (wd_remote w))"
    using row key c by (simp add: findable_def others_kept_def)
  show ?thesis
  proof (cases "bad_filename fn")
    case True
    then show ?thesis using step stay by (simp add: renameFile_def)
  next
    case False
    note s1 = step [unfolded renameFile_def if_not_P [OF False]]
    show ?thesis
    proof (cases "bound_file env f w")
      case (Inl e)
      then show ?thesis using s1 stay by simp
    next
      case (Inr b)
      obtain row' name old where b: "b = (row', name, old)" by (cases b)
      note bf = bound_file_facts [OF Inr [unfolded b] env]
      have eq: "row' = row" "old = q" "name = Some n" using bf row key by auto
      note s2 = s1 [unfolded Inr sum.case b prod.case eq]
      show ?thesis
      proof (cases "\<not> suffix (''/'' @ fl_filename row) q \<and> q \<noteq> fl_filename row")
        case True
        then show ?thesis using s2 stay by simp
      next
        case okname: False
        define new where "new = take (length q - length (fl_filename row)) q @ fn"
        let ?m = "rename_payload row n q new fn"
        let ?w1 = "enqueuePendingOp i u (fl_node row) f (OpMove ?m) w"
        obtain rv ph r where rl: "relocateRemoteObject ad (move_params ?m) (wd_remote w) = (rv, ph, r)"
          by (cases "relocateRemoteObject ad (move_params ?m) (wd_remote w)")
        have keys: "from_key (move_params ?m) = (n, q)" "\<not> rl_copied (move_params ?m)"
          "to_key (move_params ?m) = (n, new)"
          by (simp_all add: move_params_def rename_payload_def)
        note rel = relocate_fresh [OF ad rl keys(2), unfolded keys(1,3), OF c]
        note s3 = s2 [unfolded if_not_P [OF okname] if_not_P [OF env] Let_def op_frame or_else_def option.case,
            folded new_def, unfolded rl prod.case]
        show ?thesis
        proof (cases rv)
          case (Inl e)
          have w': "w' = failPendingOp i e (?w1\<lparr>wd_remote := r\<rparr>)" using s3 Inl by simp
          have "findable (objs r) (wd_db w') (wd_ops w') f c"
            by (rule findableI_queued [of _ _ row n q _ ?m])
              (use queued_after_failure(1) [OF fresh, of e r u "fl_node row" f ?m] rel row key
                in \<open>simp_all add: w' rename_payload_def\<close>)
          then show ?thesis using rel(1) by (simp add: w')
        next
          case (Inr st)
          obtain res w2 where ra: "rename_after_remote env now u fn (Some i) row q new (?w1\<lparr>wd_remote := r\<rparr>) = (res, w2)"
            by (cases "rename_after_remote env now u fn (Some i) row q new (?w1\<lparr>wd_remote := r\<rparr>)")
          have w': "w' = w2" using s3 Inr ra by simp
          have "file_by_id (wd_db (?w1\<lparr>wd_remote := r\<rparr>)) (fl_id row) = Some row"
            using row file_by_id_id [OF row] by simp
          note facts = rename_after_remote_facts [OF ra this]
          have "findable (objs r) (wd_db w2) (wd_ops w2) f c"
            by (rule findableI_record [OF facts(2) [unfolded file_by_id_id [OF row]]]) (use key rel(3) [OF Inr] in simp_all)
          then show ?thesis using rel(1) facts(1) by (simp add: w')
        qed
      qed
    qed
  qed
qed

lemma folder_local_frame:
  "folder_local env f w = (out, w') \<Longrightarrow> wd_db w' = wd_db w \<and> wd_ops w' = wd_ops w \<and> wd_remote w' = wd_remote w"
  by (auto simp: folder_local_def split: option.splits if_splits dest: local_rename_frame)

lemma folder_after_remote_facts:
  assumes "folder_after_remote env now opid a fe al w = (res, w')" and "file_by_id (wd_db w) (fe_file fe) = Some row"
  shows "wd_remote w' = wd_remote w"
    and "file_by_id (wd_db w') (fe_file fe) = Some (row\<lparr>fl_remote_path := Some (fe_new_path fe), fl_updated_at := now\<rparr>)"
proof -
  obtain out w1 where fl: "folder_local env fe w = (out, w1)" by (cases "folder_local env fe w")
  note fr = folder_local_frame [OF fl]
  let ?upd = "\<lambda>r. r\<lparr>fl_remote_path := Some (fe_new_path fe), fl_updated_at := now\<rparr>"
  have rec: "file_by_id (wd_db (writeRelocatedRecord (fe_file fe) (fo_node a) (fe_new_path fe) ?upd w1)) (fe_file fe) = Some (?upd row)"
    using fr by (intro record_written) (simp_all add: assms(2))
  show "wd_remote w' = wd_remote w" "file_by_id (wd_db w') (fe_file fe) = Some (?upd row)"
    using assms(1) rec fr by (auto simp: folder_after_remote_def fl folder_record_def Let_def completePendingOp_def split: option.splits)
qed

lemma rename_one_findable:
  assumes ad: "adapter_ok ad objs" and env: "\<not> ev_local_only env" and fresh: "fresh_op i w"
    and row: "file_by_id (wd_db w) (fe_file fe) = Some row" and key: "fl_remote_name row = Some n" "fl_remote_path row = Some q"
    and fe: "fe_name fe = Some n" "fe_old_path fe = q"
    and c: "objs (wd_remote w) (n, q) = Some c"
    and step: "rename_one env ad now i a fe w = (v, w')"
  shows "findable (objs (wd_remote w')) (wd_db w') (wd_ops w') (fe_file fe) c \<and>
    others_kept (n, q) (objs (wd_remote w)) (objs (wd_remote w'))"
proof -
  let ?m = "folder_payload a fe n" and ?f = "fe_file fe"
  let ?w1 = "enqueuePendingOp i (fo_user a) (fo_node a) ?f (OpMove ?m) w"
  obtain rv ph r where rl: "relocateRemoteObject ad (move_params ?m) (wd_remote w) = (rv, ph, r)"
    by (cases "relocateRemoteObject ad (move_params ?m) (wd_remote w)")
  have keys: "from_key (move_params ?m) = (n, q)" "\<not> rl_copied (move_params ?m)" "to_key (move_params ?m) = (n, fe_new_path fe)"
    by (simp_all add: move_params_def folder_payload_def fe)
  note rel = relocate_fresh [OF ad rl keys(2), unfolded keys(1,3), OF c]
  note s1 = step [unfolded rename_one_def if_not_P [OF env] fe(1) option.case Let_def op_frame rl prod.case]
  show ?thesis
  proof (cases rv)
    case (Inl e)
    have w': "w' = failPendingOp i e (?w1\<lparr>wd_remote := r\<rparr>)" using s1 Inl by simp
    have "findable (objs r) (wd_db w') (wd_ops w') ?f c"
      by (rule findableI_queued [of _ _ row n q _ ?m])
        (use queued_after_failure(1) [OF fresh, of e r "fo_user a" "fo_node a" ?f ?m] rel row key fe
          in \<open>simp_all add: w' folder_payload_def\<close>)
    then show ?thesis using rel(1) by (simp add: w')
  next
    case (Inr st)
    obtain res w2 where fa: "folder_after_remote env now (Some i) a fe (st = AlreadyAtTarget) (?w1\<lparr>wd_remote := r\<rparr>) = (res, w2)"
      by (cases "folder_after_remote env now (Some i) a fe (st = AlreadyAtTarget) (?w1\<lparr>wd_remote := r\<rparr>)")
    have w': "w' = w2" using s1 Inr fa by simp
    have "file_by_id (wd_db (?w1\<lparr>wd_remote := r\<rparr>)) ?f = Some row" using row by simp
    note facts = folder_after_remote_facts [OF fa this]
    have "findable (objs r) (wd_db w2) (wd_ops w2) ?f c"
      by (rule findableI_record [OF facts(2)]) (use key rel(3) [OF Inr] in simp_all)
    then show ?thesis using rel(1) facts(1) by (simp add: w')
  qed
qed


section \<open>A retry finishes what a failure left\<close>

text \<open>An adapter none of whose calls fails any more, and whose hashes agree on equal contents.\<close>

definition reliable :: "'r adapter \<Rightarrow> ('r \<Rightarrow> objects) \<Rightarrow> bool" where
  "reliable ad objs \<longleftrightarrow>
     (\<forall>n r. fst (ad_open ad n r) = Inr ()) \<and>
     (\<forall>n p r. \<exists>v. fst (ad_stat ad n p r) = Inr v) \<and>
     (\<forall>n p r. objs r (n, p) \<noteq> None \<longrightarrow> (\<exists>c. fst (ad_get ad n p r) = Inr c)) \<and>
     (\<forall>n p c r. \<exists>i. fst (ad_put ad n p c r) = Inr i) \<and>
     (\<forall>n p r. fst (ad_delete ad n p r) = Inr ()) \<and>
     (\<forall>n p q r. objs r (n, p) \<noteq> None \<longrightarrow> fst (ad_rename ad n p q r) = Inr ()) \<and>
     (\<forall>n p n' p' r r' a b. fst (ad_stat ad n p r) = Inr (Some a) \<longrightarrow> fst (ad_stat ad n' p' r') = Inr (Some b) \<longrightarrow>
        objs r (n, p) = objs r' (n', p') \<longrightarrow> same_content a b)"

lemma reliableD:
  assumes "reliable ad objs"
  shows "fst (ad_open ad n r) = Inr ()" "\<exists>v. fst (ad_stat ad n p r) = Inr v"
    "objs r (n, p) \<noteq> None \<Longrightarrow> \<exists>c. fst (ad_get ad n p r) = Inr c" "\<exists>i. fst (ad_put ad n p c r) = Inr i"
    "fst (ad_delete ad n p r) = Inr ()" "objs r (n, p) \<noteq> None \<Longrightarrow> fst (ad_rename ad n p q r) = Inr ()"
    "fst (ad_stat ad n p r) = Inr (Some a) \<Longrightarrow> fst (ad_stat ad n' p' r') = Inr (Some b) \<Longrightarrow>
       objs r (n, p) = objs r' (n', p') \<Longrightarrow> same_content a b"
proof -
  note law = assms [unfolded reliable_def]
  show "fst (ad_open ad n r) = Inr ()" using law by metis
  show "\<exists>v. fst (ad_stat ad n p r) = Inr v" using law by metis
  show "\<exists>i. fst (ad_put ad n p c r) = Inr i" using law by metis
  show "fst (ad_delete ad n p r) = Inr ()" using law by metis
  show "\<exists>c. fst (ad_get ad n p r) = Inr c" if "objs r (n, p) \<noteq> None" using law that by metis
  show "fst (ad_rename ad n p q r) = Inr ()" if "objs r (n, p) \<noteq> None" using law that by metis
  show "same_content a b" if "fst (ad_stat ad n p r) = Inr (Some a)" "fst (ad_stat ad n' p' r') = Inr (Some b)"
    "objs r (n, p) = objs r' (n', p')"
    using law that by metis
qed

lemma reliable_stat_both:
  assumes ad: "adapter_ok ad objs" and rel: "reliable ad objs"
  obtains a b r' where "stat_both ad p r = (Inr (a, b), r')" and "objs r' = objs r"
    and "(a = None) = (objs r (from_key p) = None)" and "(b = None) = (objs r (to_key p) = None)"
    and "\<And>x y. a = Some x \<Longrightarrow> b = Some y \<Longrightarrow> objs r (from_key p) = objs r (to_key p) \<Longrightarrow> same_content x y"
proof -
  obtain r1 where o1: "ad_open ad (rl_from_name p) r = (Inr (), r1)"
    using reliableD(1) [OF rel, of "rl_from_name p" r] by (metis prod.collapse)
  define o2 where "o2 = (if rl_to_name p = rl_from_name p then (Inr (), r1) else ad_open ad (rl_to_name p) r1)"
  have "fst o2 = Inr ()" using reliableD(1) [OF rel] by (simp add: o2_def)
  then obtain r2 where r2: "o2 = (Inr (), r2)" by (metis prod.collapse)
  obtain a r3 where a: "ad_stat ad (rl_from_name p) (rl_from_path p) r2 = (Inr a, r3)"
    using reliableD(2) [OF rel, of "rl_from_name p" "rl_from_path p" r2] by (metis prod.collapse)
  obtain b r4 where b: "ad_stat ad (rl_to_name p) (rl_to_path p) r3 = (Inr b, r4)"
    using reliableD(2) [OF rel, of "rl_to_name p" "rl_to_path p" r3] by (metis prod.collapse)
  have sb: "stat_both ad p r = (Inr (a, b), r4)"
    by (simp add: stat_both_def o1 flip: o2_def) (simp add: r2 a b)
  have "objs r2 = objs r"
    using adapter_open [OF ad o1] r2 adapter_open [OF ad, of "rl_to_name p" r1] by (auto simp: o2_def split: if_splits)
  then have r3: "objs r2 = objs r" "objs r3 = objs r" using adapter_stat(1) [OF ad a] by simp_all
  note objs = stat_both_objs [OF ad sb]
  show ?thesis
  proof (rule that [OF sb objs(1)])
    show "(a = None) = (objs r (from_key p) = None)" "(b = None) = (objs r (to_key p) = None)"
      using objs(2) by simp_all
    show "same_content x y" if "a = Some x" "b = Some y" "objs r (from_key p) = objs r (to_key p)" for x y
      using reliableD(7) [OF rel, of "rl_from_name p" "rl_from_path p" r2 x "rl_to_name p" "rl_to_path p" r3 y] a b that r3
      by simp
  qed
qed

text \<open>What a relocation can start from and still end well.\<close>

definition can_finish :: "relocate_params \<Rightarrow> objects \<Rightarrow> string \<Rightarrow> bool" where
  "can_finish p o1 c \<longleftrightarrow>
     (o1 (from_key p) = Some c \<and> o1 (to_key p) = None) \<or> (o1 (from_key p) = None \<and> o1 (to_key p) = Some c) \<or>
     (o1 (from_key p) = Some c \<and> o1 (to_key p) = Some c \<and> rl_copied p)"

lemma reliable_transfer:
  assumes ad: "adapter_ok ad objs" and rel: "reliable ad objs" and c: "objs r (from_key p) = Some c"
  shows "\<exists>ph r'. transfer ad p r = (Inr Moved, ph, r')"
proof (cases "rl_to_name p = rl_from_name p")
  case True
  obtain r1 where "ad_rename ad (rl_from_name p) (rl_from_path p) (rl_to_path p) r = (Inr (), r1)"
    using reliableD(6) [OF rel, of r "rl_from_name p" "rl_from_path p"] c by (metis option.distinct(1) prod.collapse)
  then show ?thesis using True by (simp add: transfer_def)
next
  case False
  obtain d r1 where g: "ad_get ad (rl_from_name p) (rl_from_path p) r = (Inr d, r1)"
    using reliableD(3) [OF rel, of r "rl_from_name p" "rl_from_path p"] c by (metis option.distinct(1) prod.collapse)
  obtain r2 i where pt: "ad_put ad (rl_to_name p) (rl_to_path p) d r1 = (Inr i, r2)"
    using reliableD(4) [OF rel] by (metis prod.collapse)
  obtain r3 where "ad_delete ad (rl_from_name p) (rl_from_path p) r2 = (Inr (), r3)"
    using reliableD(5) [OF rel] by (metis prod.collapse)
  then show ?thesis using False g pt by (simp add: transfer_def)
qed

lemma reliable_relocate:
  assumes ad: "adapter_ok ad objs" and rel: "reliable ad objs" and ne: "from_key p \<noteq> to_key p"
    and fin: "can_finish p (objs r) c" and step: "relocateRemoteObject ad p r = (v, ph, r')"
  shows "\<exists>st. v = Inr st" and "objs r' (to_key p) = Some c" and "objs r' (from_key p) = None"
    and "\<forall>k. k \<noteq> from_key p \<longrightarrow> k \<noteq> to_key p \<longrightarrow> objs r' k = objs r k"
proof -
  obtain a b r1 where sb: "stat_both ad p r = (Inr (a, b), r1)" and o1: "objs r1 = objs r"
    and ka: "(a = None) = (objs r (from_key p) = None)" and kb: "(b = None) = (objs r (to_key p) = None)"
    and sc: "\<And>x y. a = Some x \<Longrightarrow> b = Some y \<Longrightarrow> objs r (from_key p) = objs r (to_key p) \<Longrightarrow> same_content x y"
    using reliable_stat_both [OF ad rel, of p r] by blast
  have same: "\<not> (rl_from_name p = rl_to_name p \<and> rl_from_path p = rl_to_path p)" using ne by simp
  note st = step [unfolded relocateRemoteObject_def if_not_P [OF same] sb prod.case sum.case]
  have ok: "\<exists>st. v = Inr st"
  proof -
    consider (m) "objs r (from_key p) = Some c" "objs r (to_key p) = None"
      | (d) "objs r (from_key p) = None" "objs r (to_key p) = Some c"
      | (cp) "objs r (from_key p) = Some c" "objs r (to_key p) = Some c" "rl_copied p"
      using fin by (auto simp: can_finish_def)
    then show ?thesis
    proof cases
      case m
      then obtain x where ab: "a = Some x" "b = None" using ka kb by auto
      obtain ph2 r2 where "transfer ad p r1 = (Inr Moved, ph2, r2)"
        using reliable_transfer [OF ad rel, of r1 p c] m o1 by auto
      then show ?thesis using st ab by auto
    next
      case d
      then obtain y where "a = None" "b = Some y" using ka kb by auto
      then show ?thesis using st by auto
    next
      case cp
      then obtain x y where ab: "a = Some x" "b = Some y" using ka kb by auto
      have "rl_copied p \<and> same_content x y" using cp sc ab by simp
      moreover obtain r2 where "ad_delete ad (rl_from_name p) (rl_from_path p) r1 = (Inr (), r2)"
        using reliableD(5) [OF rel] by (metis prod.collapse)
      ultimately show ?thesis using st ab by auto
    qed
  qed
  then show "\<exists>st. v = Inr st" .
  note rel = relocate_relocates [OF ad ne step, unfolded relocated_def]
  from ok obtain st where v: "v = Inr st" by blast
  have fin2: "objs r' (from_key p) = None" "objs r (to_key p) = None \<Longrightarrow> objs r' (to_key p) = objs r (from_key p)"
    "objs r (to_key p) \<noteq> None \<Longrightarrow> objs r' (to_key p) = objs r (to_key p)"
    using rel v by simp_all
  show "objs r' (from_key p) = None" by (rule fin2(1))
  show "objs r' (to_key p) = Some c"
    using fin fin2(2,3) unfolding can_finish_def by (elim disjE conjE) simp_all
  show "\<forall>k. k \<noteq> from_key p \<longrightarrow> k \<noteq> to_key p \<longrightarrow> objs r' k = objs r k"
    by (rule rel [THEN conjunct1])
qed

lemma repaired_row_id [simp]: "fl_id (repaired_row m now r) = fl_id r"
  by (simp add: repaired_row_def)

lemma retry_move_finishes:
  assumes ad: "adapter_ok ad objs" and rel: "reliable ad objs" and ne: "from_key (move_params m) \<noteq> to_key (move_params m)"
    and row: "file_by_id (wd_db w) (pr_file op) = Some row"
    and key: "fl_remote_name row = Some (mp_from_name m)" "fl_remote_path row = Some (mp_from_path m)"
    and fin: "can_finish (move_params m) (objs (wd_remote w)) c"
    and step: "runMove ad now op m w = (v, w')"
  shows "v = Inr () \<and> file_by_id (wd_db w') (pr_file op) = Some (repaired_row m now row) \<and>
     objs (wd_remote w') (mp_to_name m, mp_to_path m) = Some c \<and> objs (wd_remote w') (mp_from_name m, mp_from_path m) = None"
proof -
  have match: "assertRecordStillMatches op [(mp_from_name m, mp_from_path m), (mp_to_name m, mp_to_path m)] (wd_db w) = Inr ()"
    using row key by (simp add: assertRecordStillMatches_def)
  obtain rv ph r where rl: "relocateRemoteObject ad (move_params m) (wd_remote w) = (rv, ph, r)"
    by (cases "relocateRemoteObject ad (move_params m) (wd_remote w)")
  note r = reliable_relocate [OF ad rel ne fin rl]
  from r(1) obtain st where st: "rv = Inr st" by blast
  have rec: "file_by_id (wd_db (writeRelocatedRecord (pr_file op) (mp_to_node m) (mp_to_path m) (repaired_row m now) (w\<lparr>wd_remote := r\<rparr>)))
      (pr_file op) = Some (repaired_row m now row)"
    by (rule record_written) (simp_all add: row)
  show ?thesis
    using step rec r(2,3) [unfolded move_params_def relocate_params.simps]
    by (auto simp: runMove_def match rl st)
qed


section \<open>A retry touches only its target\<close>

definition record_matches :: "pending_row \<Rightarrow> (string \<times> string) list \<Rightarrow> graph_db \<Rightarrow> bool" where
  "record_matches op keys db \<longleftrightarrow>
     (case file_by_id db (pr_file op) of
        Some r \<Rightarrow> (\<exists>k \<in> set keys. fl_remote_name r = Some (fst k) \<and> fl_remote_path r = Some (snd k))
      | None \<Rightarrow> (\<forall>g \<in> set (files_t db). \<forall>k \<in> set keys. \<not> (fl_remote_name g = Some (fst k) \<and> fl_remote_path g = Some (snd k))))"

lemma first_claim_None:
  "first_claim db ks = None \<longleftrightarrow>
     (\<forall>g \<in> set (files_t db). \<forall>k \<in> set ks. \<not> (fl_remote_name g = Some (fst k) \<and> fl_remote_path g = Some (snd k)))"
  by (induction ks) (auto simp: claimed_by_def find_None_iff split: option.splits dest!: find_SomeD)

lemma match_iff: "assertRecordStillMatches op ks db = Inr () \<longleftrightarrow> record_matches op ks db"
  unfolding record_matches_def first_claim_None [symmetric]
  by (auto simp: assertRecordStillMatches_def split: option.splits)

lemma match_cases: "assertRecordStillMatches op ks db = Inr () \<or> (\<exists>e. assertRecordStillMatches op ks db = Inl e)"
  by (cases "assertRecordStillMatches op ks db") auto

lemma runMove_objects:
  assumes ad: "adapter_ok ad objs" and step: "runMove ad now op m w = (v, w')"
  shows "(objs (wd_remote w') \<noteq> objs (wd_remote w) \<longrightarrow>
            record_matches op [(mp_from_name m, mp_from_path m), (mp_to_name m, mp_to_path m)] (wd_db w)) \<and>
         (\<forall>k. k \<noteq> (mp_from_name m, mp_from_path m) \<longrightarrow> k \<noteq> (mp_to_name m, mp_to_path m) \<longrightarrow>
            objs (wd_remote w') k = objs (wd_remote w) k) \<and>
         (\<not> mp_copied m \<longrightarrow> objs (wd_remote w) (mp_to_name m, mp_to_path m) \<noteq> None \<longrightarrow>
            objs (wd_remote w') = objs (wd_remote w))"
proof (cases "assertRecordStillMatches op [(mp_from_name m, mp_from_path m), (mp_to_name m, mp_to_path m)] (wd_db w) = Inr ()")
  case False
  then have "w' = w" using step match_cases by (force simp: runMove_def)
  then show ?thesis by simp
next
  case True
  obtain rv ph r where rl: "relocateRemoteObject ad (move_params m) (wd_remote w) = (rv, ph, r)"
    by (cases "relocateRemoteObject ad (move_params m) (wd_remote w)")
  have w': "wd_remote w' = r" using step True rl by (auto simp: runMove_def split: sum.splits)
  show ?thesis
  proof (cases "from_key (move_params m) = to_key (move_params m)")
    case eq: True
    then have "r = wd_remote w" using rl by (simp add: relocateRemoteObject_def)
    then show ?thesis by (simp add: w')
  next
    case ne: False
    from relocate_relocates [OF ad ne rl] True show ?thesis
      by (simp add: w' relocated_def match_iff) (simp add: move_params_def)
  qed
qed

lemma retry_remove_objects:
  assumes ad: "adapter_ok ad objs" and step: "retry_remove ad d r = (v, r')"
  shows "(\<forall>k. k \<noteq> (dp_name d, dp_path d) \<longrightarrow> objs r' k = objs r k) \<and>
     (objs r' \<noteq> objs r \<longrightarrow> (\<exists>r1 r2 cur. objs r1 = objs r \<and> ad_stat ad (dp_name d) (dp_path d) r1 = (Inr (Some cur), r2) \<and>
        delete_refused d cur = None)) \<and>
     (v = Inr () \<longrightarrow> objs r' (dp_name d, dp_path d) = None)"
proof -
  obtain v1 r1 where op: "ad_open ad (dp_name d) r = (v1, r1)" by (cases "ad_open ad (dp_name d) r")
  have o1: "objs r1 = objs r" by (rule adapter_open [OF ad op])
  obtain v2 r2 where st: "ad_stat ad (dp_name d) (dp_path d) r1 = (v2, r2)" by (cases "ad_stat ad (dp_name d) (dp_path d) r1")
  have o2: "objs r2 = objs r" using adapter_stat(1) [OF ad st] o1 by simp
  show ?thesis
  proof (cases v1)
    case (Inl e)
    then show ?thesis using step o1 by (auto simp: retry_remove_def op)
  next
    case (Inr u)
    note v1 = this
    show ?thesis
    proof (cases v2)
      case (Inl e)
      then show ?thesis using step o2 v1 by (auto simp: retry_remove_def op st)
    next
      case (Inr x)
      show ?thesis
      proof (cases x)
        case None
        then show ?thesis using step o1 o2 v1 Inr adapter_stat(2) [OF ad st Inr] by (auto simp: retry_remove_def op st)
      next
        case (Some cur)
        show ?thesis
        proof (cases "delete_refused d cur")
          case (Some e)
          then show ?thesis using step o2 v1 Inr \<open>x = Some cur\<close> by (auto simp: retry_remove_def op st)
        next
          case None
          then have dl: "ad_delete ad (dp_name d) (dp_path d) r2 = (v, r')"
            using step v1 Inr Some by (simp add: retry_remove_def op st)
          note del = adapter_delete [OF ad dl]
          show ?thesis
            using del o1 o2 st Inr Some None by auto
        qed
      qed
    qed
  qed
qed

lemma runDelete_objects:
  assumes ad: "adapter_ok ad objs" and step: "runDelete env ad op d w = (v, w')"
  shows "(objs (wd_remote w') \<noteq> objs (wd_remote w) \<longrightarrow> record_matches op [(dp_name d, dp_path d)] (wd_db w)) \<and>
         (\<forall>k. k \<noteq> (dp_name d, dp_path d) \<longrightarrow> objs (wd_remote w') k = objs (wd_remote w) k) \<and>
         (objs (wd_remote w') \<noteq> objs (wd_remote w) \<longrightarrow>
            (\<exists>r1 r2 cur. objs r1 = objs (wd_remote w) \<and> ad_stat ad (dp_name d) (dp_path d) r1 = (Inr (Some cur), r2) \<and>
               delete_refused d cur = None))"
proof (cases "assertRecordStillMatches op [(dp_name d, dp_path d)] (wd_db w) = Inr ()")
  case False
  then have "w' = w" using step match_cases by (force simp: runDelete_def)
  then show ?thesis by simp
next
  case True
  obtain rv r where rr: "retry_remove ad d (wd_remote w) = (rv, r)" by (cases "retry_remove ad d (wd_remote w)")
  have "wd_remote w' = r" using step True rr by (auto simp: runDelete_def Let_def split: sum.splits)
  with retry_remove_objects [OF ad rr] True show ?thesis by (simp add: match_iff)
qed

section \<open>A deletion is complete or leaves everything\<close>

lemma remote_remove_objects:
  assumes ad: "adapter_ok ad objs" and step: "remote_remove ad n p r = (v, r')"
  shows "\<forall>k. k \<noteq> (n, p) \<longrightarrow> objs r' k = objs r k" and "v = Inr () \<Longrightarrow> objs r' (n, p) = None"
proof -
  obtain v1 r1 where op: "ad_open ad n r = (v1, r1)" by (cases "ad_open ad n r")
  have o1: "objs r1 = objs r" by (rule adapter_open [OF ad op])
  obtain v2 r2 where st: "ad_stat ad n p r1 = (v2, r2)" by (cases "ad_stat ad n p r1")
  have o2: "objs r2 = objs r" using adapter_stat(1) [OF ad st] o1 by simp
  have "(\<forall>k. k \<noteq> (n, p) \<longrightarrow> objs r' k = objs r k) \<and> (v = Inr () \<longrightarrow> objs r' (n, p) = None)"
  proof (cases v1)
    case (Inl e)
    then show ?thesis using step o1 by (auto simp: remote_remove_def op)
  next
    case (Inr u)
    note v1 = this
    show ?thesis
    proof (cases v2)
      case (Inl e)
      then show ?thesis using step o2 v1 by (auto simp: remote_remove_def op st)
    next
      case (Inr x)
      show ?thesis
      proof (cases x)
        case None
        then show ?thesis using step o1 o2 v1 Inr adapter_stat(2) [OF ad st Inr] by (auto simp: remote_remove_def op st)
      next
        case (Some cur)
        then have dl: "ad_delete ad n p r2 = (v, r')" using step v1 Inr by (simp add: remote_remove_def op st)
        show ?thesis using adapter_delete [OF ad dl] o2 by auto
      qed
    qed
  qed
  then show "\<forall>k. k \<noteq> (n, p) \<longrightarrow> objs r' k = objs r k" "v = Inr () \<Longrightarrow> objs r' (n, p) = None" by blast+
qed


lemma deleteFile_outcomes:
  assumes ad: "adapter_ok ad objs" and env: "\<not> ev_local_only env" and fresh: "fresh_op i w"
    and row: "file_by_id (wd_db w) f = Some row"
    and key: "fl_remote_name row = Some n" "n \<noteq> []" "fl_remote_path row = Some p" "p \<noteq> []"
    and a: "da_file a = f" "da_mode a = Complete" "da_confirmed a"
    and step: "deleteFile env ad i a w = (v, w')"
  shows "(\<forall>k. k \<noteq> (n, p) \<longrightarrow> objs (wd_remote w') k = objs (wd_remote w) k) \<and>
     ((v = Inr DeleteOk \<and> file_by_id (wd_db w') f = None \<and> objs (wd_remote w') (n, p) = None \<and> fresh_op i w' \<and>
       au_action (last (audit_t (wd_db w'))) = ''sync_delete'' \<and> au_target_id (last (audit_t (wd_db w'))) = f) \<or>
      (\<exists>e. v = Inr (DeleteRepair e) \<and> files_t (wd_db w') = files_t (wd_db w) \<and> wd_local w' = wd_local w \<and>
         wd_state w' = wd_state w \<and>
         (\<exists>op \<in> set (wd_ops w'). pr_id op = i \<and> pr_file op = f \<and> pr_payload op = OpDelete (delete_payload_of row n p))))"
proof -
  have t: "truthy_opt (Some n) = Some n" "truthy_opt (Some p) = Some p"
    using key by (simp_all add: truthy_opt_def split: list.split)
  let ?w1 = "enqueuePendingOp i (da_user a) (fl_node row) f (OpDelete (delete_payload_of row n p)) w"
  obtain rv r where rr: "remote_remove ad n p (wd_remote w) = (rv, r)" by (cases "remote_remove ad n p (wd_remote w)")
  note objs = remote_remove_objects [OF ad rr]
  note s1 = step [unfolded deleteFile_def a(1) row option.case Let_def if_not_P [OF env] key(1,3) t prod.case op_frame rr]
  show ?thesis
  proof (cases rv)
    case (Inl e)
    have w': "v = Inr (DeleteRepair e)" "wd_remote w' = r" "files_t (wd_db w') = files_t (wd_db w)" "wd_local w' = wd_local w"
      "wd_state w' = wd_state w" "wd_ops w' = wd_ops (failPendingOp i e (?w1\<lparr>wd_remote := r\<rparr>))"
      using s1 a Inl by (auto simp: failPendingOp_def update_op_def enqueuePendingOp_def)
    have "\<exists>op \<in> set (wd_ops w'). pr_id op = i \<and> pr_file op = f \<and> pr_payload op = OpDelete (delete_payload_of row n p)"
      by (simp add: w' failPendingOp_def update_op_def enqueuePendingOp_def)
    with w' objs show ?thesis by auto
  next
    case (Inr u)
    define l where "l = delete_local_path env (da_user a) (fl_node row) (Some p) w"
    have w': "v = Inr DeleteOk" "w' = delete_after_remote env a row (Some n) l (Some i) (?w1\<lparr>wd_remote := r\<rparr>)"
      using s1 a Inr by (auto simp: l_def)
    have "wd_remote w' = r" "file_by_id (wd_db w') f = None" "fresh_op i w'"
      "au_action (last (audit_t (wd_db w'))) = ''sync_delete''" "au_target_id (last (audit_t (wd_db w'))) = f"
      using a by (simp_all add: w' delete_after_remote_def Let_def file_by_id_gone fresh_op_def completePendingOp_def insert_audit_def
          file_by_id_gone [unfolded file_by_id_def] file_by_id_def)
    with w' objs Inr show ?thesis by auto
  qed
qed

text \<open>The device's copy goes with its file state, or both stay.\<close>

lemma local_cleanup_outcomes:
  "removeLocalCopyAndState env (Some l) f w = (b, w') \<Longrightarrow>
     (b \<and> local_at w' l = None \<and> getFileState f w' = None) \<or> (\<not> b \<and> w' = w)"
  by (auto simp: removeLocalCopyAndState_def Let_def deleteFileState_def local_at_def getFileState_def delete_conv split: if_splits)


lemma failed_move_can_finish:
  assumes ad: "adapter_ok ad objs" and ne: "from_key p \<noteq> to_key p" and nc: "\<not> rl_copied p"
    and c: "objs r (from_key p) = Some c" and step: "relocateRemoteObject ad p r = (v, ph, r')"
    and clear: "objs r' (from_key p) = None \<or> objs r' (to_key p) = None \<or> ph = Some DeleteSource"
  shows "can_finish (p\<lparr>rl_copied := (ph = Some DeleteSource)\<rparr>) (objs r') c"
proof -
  note rel = relocate_relocates [OF ad ne step, unfolded relocated_def]
  have "objs r (to_key p) = None" if "ph = Some DeleteSource" using rel nc that by blast
  with rel nc c clear show ?thesis by (auto simp: can_finish_def)
qed

lemma moveFile_remote_failure:
  assumes env: "\<not> ev_local_only env" and step: "moveFile env ad now i a w = (Inr (MoveRemoteRepair p cp e), w')"
  shows "plan_file_move env a w = Inr p" and "ma_confirmed a"
    and "\<exists>ph r. relocateRemoteObject ad (move_params (plan_payload p)) (wd_remote w) = (Inl e, ph, r) \<and> cp = (ph = Some DeleteSource) \<and>
       w' = failPendingOp i e ((if cp then markPendingMoveSourceCopied i else id)
              (enqueuePendingOp i (pl_user p) (pl_node p) (pl_file p) (OpMove (plan_payload p)) w\<lparr>wd_remote := r\<rparr>))"
proof -
  obtain q where q: "plan_file_move env a w = Inr q" using step by (cases "plan_file_move env a w") (simp_all add: moveFile_def)
  have cf: "ma_confirmed a" using step q by (cases "ma_confirmed a") (simp_all add: moveFile_def)
  obtain rv ph r where rl: "relocateRemoteObject ad (move_params (plan_payload q)) (wd_remote w) = (rv, ph, r)"
    by (cases "relocateRemoteObject ad (move_params (plan_payload q)) (wd_remote w)")
  note unf = step [unfolded moveFile_def q sum.case Let_def op_frame rl prod.case]
  have "\<exists>e'. rv = Inl e'"
  proof (cases rv)
    case (Inr st)
    obtain res w2 where ma: "move_after_remote env now i q (st = AlreadyAtTarget)
        (enqueuePendingOp i (pl_user q) (pl_node q) (pl_file q) (OpMove (plan_payload q)) w\<lparr>wd_remote := r\<rparr>) = (res, w2)"
      by (cases "move_after_remote env now i q (st = AlreadyAtTarget)
        (enqueuePendingOp i (pl_user q) (pl_node q) (pl_file q) (OpMove (plan_payload q)) w\<lparr>wd_remote := r\<rparr>)")
    then have "res = MoveRemoteRepair p cp e" using unf cf env Inr by simp
    then show ?thesis using ma by (auto simp: move_after_remote_def split: prod.splits rename_outcome.splits)
  qed blast
  then obtain e' where e': "rv = Inl e'" by blast
  have all: "p = q \<and> e' = e \<and> cp = (ph = Some DeleteSource) \<and> w' = failPendingOp i e ((if ph = Some DeleteSource then markPendingMoveSourceCopied i else id)
              (enqueuePendingOp i (pl_user q) (pl_node q) (pl_file q) (OpMove (plan_payload q)) w\<lparr>wd_remote := r\<rparr>))"
    using unf cf env e' by auto
  show "plan_file_move env a w = Inr p" using q all by simp
  show "ma_confirmed a" by (rule cf)
  show "\<exists>ph r. relocateRemoteObject ad (move_params (plan_payload p)) (wd_remote w) = (Inl e, ph, r) \<and> cp = (ph = Some DeleteSource) \<and>
       w' = failPendingOp i e ((if cp then markPendingMoveSourceCopied i else id)
              (enqueuePendingOp i (pl_user p) (pl_node p) (pl_file p) (OpMove (plan_payload p)) w\<lparr>wd_remote := r\<rparr>))"
    using all rl e' by blast
qed

lemma failed_move_retry:
  assumes ad: "adapter_ok ad objs" and ad2: "adapter_ok ad2 objs" "reliable ad2 objs"
    and env: "\<not> ev_local_only env" and fresh: "fresh_op i w"
    and row: "file_by_id (wd_db w) (ma_file a) = Some row" and key: "fl_remote_name row = Some n" "fl_remote_path row = Some q"
    and c: "objs (wd_remote w) (n, q) = Some c"
    and step: "moveFile env ad now i a w = (Inr (MoveRemoteRepair p cp e), w')"
    and to: "pl_new_name p = Some n2" "(n2, pl_new_path p) \<noteq> (n, q)"
    and clear: "objs (wd_remote w') (n, q) = None \<or> objs (wd_remote w') (n2, pl_new_path p) = None \<or> cp"
  shows "\<exists>op \<in> set (wd_ops w'). pr_id op = i \<and> pr_file op = ma_file a \<and>
    (case run_op env ad2 now2 op w' of
       (v, w2) \<Rightarrow> v = Inr () \<and> objs (wd_remote w2) (n2, pl_new_path p) = Some c \<and> objs (wd_remote w2) (n, q) = None \<and>
         (\<exists>row2. file_by_id (wd_db w2) (ma_file a) = Some row2 \<and> fl_remote_name row2 = Some n2 \<and>
            fl_remote_path row2 = Some (pl_new_path p) \<and> fl_node row2 = pl_target p \<and> fl_filename row2 = pl_filename p))"
proof -
  note mf = moveFile_remote_failure [OF env step]
  obtain ph r where rl: "relocateRemoteObject ad (move_params (plan_payload p)) (wd_remote w) = (Inl e, ph, r)"
    and cp: "cp = (ph = Some DeleteSource)"
    and w': "w' = failPendingOp i e ((if cp then markPendingMoveSourceCopied i else id)
              (enqueuePendingOp i (pl_user p) (pl_node p) (pl_file p) (OpMove (plan_payload p)) w\<lparr>wd_remote := r\<rparr>))"
    using mf(3) by blast
  from plan_file_move_facts [OF mf(1) env] row key
  have pf: "pl_file p = ma_file a" "or_else (pl_old_name p) [] = n" "pl_old_path p = q" by auto
  define m where "m = (plan_payload p)\<lparr>mp_copied := cp\<rparr>"
  have mk: "mp_from_name m = n" "mp_from_path m = q" "mp_to_name m = n2" "mp_to_path m = pl_new_path p"
    "mp_to_node m = pl_target p" "mp_filename m = pl_filename p"
    using pf to by (simp_all add: m_def plan_payload_def or_else_def)
  have "\<exists>op \<in> set (wd_ops w'). pr_id op = i \<and> pr_file op = pl_file p \<and> pr_payload op = OpMove m"
  proof (cases cp)
    case True
    have "find (\<lambda>p. pr_id p = i) (wd_ops w) = None" using fresh by (auto simp: fresh_op_def find_None_iff)
    with True show ?thesis
      by (simp add: w' m_def markPendingMoveSourceCopied_def enqueuePendingOp_def failPendingOp_def update_op_def find_append_list)
  next
    case False
    then have "m = plan_payload p" by (simp add: m_def plan_payload_def)
    with False show ?thesis by (simp add: w' enqueuePendingOp_def failPendingOp_def update_op_def)
  qed
  then obtain op where op: "op \<in> set (wd_ops w')" "pr_id op = i" "pr_file op = ma_file a" "pr_payload op = OpMove m"
    using pf by auto
  have rem: "wd_remote w' = r" "wd_db w' = wd_db w" by (simp_all add: w')
  have params: "move_params m = (move_params (plan_payload p))\<lparr>rl_copied := (ph = Some DeleteSource)\<rparr>"
    by (simp add: m_def move_params_def cp)
  have keys: "from_key (move_params (plan_payload p)) = (n, q)" "to_key (move_params (plan_payload p)) = (n2, pl_new_path p)"
    "\<not> rl_copied (move_params (plan_payload p))"
    using pf to by (simp_all add: move_params_def plan_payload_def or_else_def)
  have fin: "can_finish (move_params m) (objs (wd_remote w')) c"
    unfolding params rem
  proof (rule failed_move_can_finish [OF ad _ keys(3) _ rl])
    show "from_key (move_params (plan_payload p)) \<noteq> to_key (move_params (plan_payload p))"
      unfolding keys by (rule not_sym [OF to(2)])
    show "objs (wd_remote w) (from_key (move_params (plan_payload p))) = Some c" unfolding keys by (rule c)
    show "objs r (from_key (move_params (plan_payload p))) = None \<or> objs r (to_key (move_params (plan_payload p))) = None \<or>
        ph = Some DeleteSource"
      unfolding keys using clear by (simp add: rem cp)
  qed
  obtain v w2 where run: "runMove ad2 now2 op m w' = (v, w2)" by (cases "runMove ad2 now2 op m w'")
  have done1: "v = Inr () \<and> file_by_id (wd_db w2) (pr_file op) = Some (repaired_row m now2 row) \<and>
     objs (wd_remote w2) (mp_to_name m, mp_to_path m) = Some c \<and> objs (wd_remote w2) (mp_from_name m, mp_from_path m) = None"
  proof (rule retry_move_finishes [OF ad2 _ _ _ _ fin run])
    show "from_key (move_params m) \<noteq> to_key (move_params m)" using mk not_sym [OF to(2)] by (simp add: move_params_def)
    show "file_by_id (wd_db w') (pr_file op) = Some row" using row op(3) rem by simp
    show "fl_remote_name row = Some (mp_from_name m)" "fl_remote_path row = Some (mp_from_path m)" using key mk by simp_all
  qed
  have row2: "fl_remote_name (repaired_row m now2 row) = Some n2" "fl_remote_path (repaired_row m now2 row) = Some (pl_new_path p)"
    "fl_node (repaired_row m now2 row) = pl_target p" "fl_filename (repaired_row m now2 row) = pl_filename p"
    by (simp_all add: repaired_row_def mk)
  have run2: "run_op env ad2 now2 op w' = (v, w2)" unfolding run_op_def op(4) pending_op.case by (rule run)
  have r2: "\<exists>row2. file_by_id (wd_db w2) (ma_file a) = Some row2 \<and> fl_remote_name row2 = Some n2 \<and>
      fl_remote_path row2 = Some (pl_new_path p) \<and> fl_node row2 = pl_target p \<and> fl_filename row2 = pl_filename p"
    using done1 [THEN conjunct2, THEN conjunct1, unfolded op(3)] row2 by blast
  have o2: "v = Inr ()" "objs (wd_remote w2) (n2, pl_new_path p) = Some c" "objs (wd_remote w2) (n, q) = None"
    using done1 unfolding mk by blast+
  have fin2: "case run_op env ad2 now2 op w' of
       (v, w2) \<Rightarrow> v = Inr () \<and> objs (wd_remote w2) (n2, pl_new_path p) = Some c \<and> objs (wd_remote w2) (n, q) = None \<and>
         (\<exists>row2. file_by_id (wd_db w2) (ma_file a) = Some row2 \<and> fl_remote_name row2 = Some n2 \<and>
            fl_remote_path row2 = Some (pl_new_path p) \<and> fl_node row2 = pl_target p \<and> fl_filename row2 = pl_filename p)"
    unfolding run2 prod.case by (intro conjI o2 r2)
  show ?thesis by (rule bexI [OF _ op(1)]) (intro conjI op(2,3) fin2)
qed

end
