(* ===== verification/FileSamples.thy ===== *)
theory FileSamples
  imports FileLaws
begin

text \<open>
  A small remote at which the witnesses of the file mutations apply their properties: objects
  under a remote and a path, and the fates of the next calls, any of which may fail before or
  after its work is done.  With the fates exhausted every call succeeds.
\<close>

datatype fate = Fine | FailBefore | FailAfter

record demo_remote =
  dr_objects :: "((string \<times> string) \<times> string) list"
  dr_fates :: "fate list"

definition demo_objs :: "demo_remote \<Rightarrow> objects" where
  "demo_objs r = map_of (dr_objects r)"

definition next_fate :: "demo_remote \<Rightarrow> fate \<times> demo_remote" where
  "next_fate r = (case dr_fates r of [] \<Rightarrow> (Fine, r) | f # fs \<Rightarrow> (f, r\<lparr>dr_fates := fs\<rparr>))"

definition no_fate :: "demo_remote \<Rightarrow> fate \<times> demo_remote" where
  "no_fate r = (Fine, r)"

definition remove_key :: "string \<times> string \<Rightarrow> demo_remote \<Rightarrow> demo_remote" where
  "remove_key k r = r\<lparr>dr_objects := filter (\<lambda>x. fst x \<noteq> k) (dr_objects r)\<rparr>"

definition put_key :: "string \<times> string \<Rightarrow> string \<Rightarrow> demo_remote \<Rightarrow> demo_remote" where
  "put_key k c r = r\<lparr>dr_objects := (k, c) # filter (\<lambda>x. fst x \<noteq> k) (dr_objects r)\<rparr>"

definition answered :: "fate \<times> demo_remote \<Rightarrow> (demo_remote \<Rightarrow> demo_remote) \<Rightarrow> (string + unit) \<times> demo_remote" where
  "answered fr f =
     (case fr of
        (Fine, r) \<Rightarrow> (Inr (), f r)
      | (FailBefore, r) \<Rightarrow> (Inl ''unreachable'', r)
      | (FailAfter, r) \<Rightarrow> (Inl ''timeout'', f r))"

definition demo_ref :: "string \<Rightarrow> file_ref" where
  "demo_ref c = \<lparr>fr_hash = Some c, fr_native = False, fr_object = None\<rparr>"

definition demo_adapter :: "(demo_remote \<Rightarrow> fate \<times> demo_remote) \<Rightarrow> demo_remote adapter" where
  "demo_adapter draw =
     \<lparr>ad_open = (\<lambda>n r. answered (draw r) id),
      ad_stat = (\<lambda>n p r. case draw r of
                   (Fine, r1) \<Rightarrow> (Inr (map_option demo_ref (demo_objs r1 (n, p))), r1)
                 | (_, r1) \<Rightarrow> (Inl ''unreachable'', r1)),
      ad_get = (\<lambda>n p r. case draw r of
                  (Fine, r1) \<Rightarrow> (case demo_objs r1 (n, p) of None \<Rightarrow> (Inl ''not found'', r1) | Some c \<Rightarrow> (Inr c, r1))
                | (_, r1) \<Rightarrow> (Inl ''unreachable'', r1)),
      ad_put = (\<lambda>n p c r. (case answered (draw r) (put_key (n, p) c) of (v, r1) \<Rightarrow> (map_sum id (\<lambda>_. None) v, r1))),
      ad_delete = (\<lambda>n p r. answered (draw r) (remove_key (n, p))),
      ad_rename = (\<lambda>n p q r. case demo_objs r (n, p) of
                     None \<Rightarrow> (Inl ''not found'', r)
                   | Some c \<Rightarrow> answered (draw r) (put_key (n, q) c \<circ> remove_key (n, p))),
      ad_list = (\<lambda>n p r. case draw r of
                   (Fine, r1) \<Rightarrow>
                     (Inr (map (\<lambda>k. (snd k, demo_ref (case demo_objs r1 k of None \<Rightarrow> [] | Some c \<Rightarrow> c)))
                             (filter (\<lambda>k. fst k = n \<and> prefix (p @ ''/'') (snd k)) (remdups (map fst (dr_objects r1))))), r1)
                 | (_, r1) \<Rightarrow> (Inl ''unreachable'', r1))\<rparr>"

lemma map_of_without: "map_of (filter (\<lambda>x. fst x \<noteq> k) xs) = (map_of xs)(k := None)"
  by (induction xs) (auto simp: fun_eq_iff)

lemma demo_objs_simps [simp]:
  "demo_objs (remove_key k r) = (demo_objs r)(k := None)"
  "demo_objs (put_key k c r) = (demo_objs r)(k := Some c)"
  by (simp_all add: demo_objs_def remove_key_def put_key_def map_of_without)

lemma demo_present: "x \<in> set (dr_objects r) \<Longrightarrow> \<exists>y. demo_objs r (fst x) = Some y"
  by (cases x) (auto simp: demo_objs_def intro: weak_map_of_SomeI)

lemma demo_adapter_ok:
  assumes draw: "\<And>r. demo_objs (snd (draw r)) = demo_objs r"
  shows "adapter_ok (demo_adapter draw) demo_objs"
proof -
  have d: "demo_objs r1 = demo_objs r" if "draw r = (f, r1)" for r f r1 using draw [of r] that by simp
  show ?thesis
    unfolding adapter_ok_def demo_adapter_def adapter.simps
    by (intro conjI; (intro allI)?)
      (auto simp: answered_def d split: fate.splits prod.splits option.splits dest!: demo_present)
qed

lemma draws [simp]: "demo_objs (snd (next_fate r)) = demo_objs r" "demo_objs (snd (no_fate r)) = demo_objs r"
  by (simp_all add: next_fate_def no_fate_def demo_objs_def split: list.split)

lemma demo_reliable: "reliable (demo_adapter no_fate) demo_objs"
  by (auto simp: reliable_def demo_adapter_def answered_def no_fate_def same_content_def demo_ref_def non_empty_def
      split: list.splits option.splits)

section \<open>A workspace with one file\<close>

definition drive_routing :: routing_db where
  "drive_routing =
     \<lparr>remotes_t = [\<lparr>rm_name = ''drive'', rm_type = ''gdrive'', rm_config = JNull, rm_created_by = ''ann'', rm_created_at = 0\<rparr>],
      rules_t = [(0, \<lparr>ru_priority = 0, ru_node_type = None, ru_org_slug = None, ru_remote = ''drive''\<rparr>)],
      next_rule_id = 1\<rparr>"

definition site_path :: "string \<Rightarrow> string" where
  "site_path f = ''acme/projects/site/wip/'' @ f"

definition sample_file :: "string \<Rightarrow> string \<Rightarrow> string option \<Rightarrow> file_row" where
  "sample_file i name h =
     \<lparr>fl_id = i, fl_node = ''site'', fl_remote_name = Some ''drive'', fl_remote_path = Some (site_path name), fl_updated_at = 0,
      fl_filename = name, fl_status = ''wip'', fl_hash = h, fl_native = False, fl_object = None,
      fl_pushed_by = Some ''ann'', fl_pushed_at = Some 0, fl_mime = None\<rparr>"

definition sample_state :: "string \<Rightarrow> file_state" where
  "sample_state h = \<lparr>st_synced = Some h, st_synced_at = Some 0, st_cached = Some h, st_mtime = None, st_size = None,
     st_ino = None, st_dev = None\<rparr>"

definition sample_local :: "string \<Rightarrow> nat \<Rightarrow> local_file" where
  "sample_local c ino = \<lparr>lf_content = c, lf_mtime = 0, lf_ino = ino, lf_dev = 0\<rparr>"

definition sample_world :: "fate list \<Rightarrow> demo_remote world" where
  "sample_world fates =
     \<lparr>wd_db = sample_org_db\<lparr>files_t := [sample_file ''f1'' ''a.md'' (Some ''A''), sample_file ''f2'' ''b.md'' (Some ''B'')]\<rparr>,
      wd_routing = drive_routing, wd_ops = [],
      wd_remote = \<lparr>dr_objects = [((''drive'', site_path ''a.md''), ''A''), ((''drive'', site_path ''b.md''), ''B'')], dr_fates = fates\<rparr>,
      wd_local = [(''/m/site/wip/a.md'', sample_local ''A'' 1), (''/m/site/wip/b.md'', sample_local ''B'' 2)],
      wd_state = [(''f1'', sample_state ''A''), (''f2'', sample_state ''B'')], wd_ino = 3\<rparr>"

definition sample_env :: env where
  "sample_env =
     \<lparr>ev_local_only = False, ev_cwd = ''/'', ev_mirrors = [(''ann'', ''site'', ''/m/site'')],
      ev_rename_error = (\<lambda>_ _. None), ev_rm_error = (\<lambda>_. None),
      ev_write_error = (\<lambda>_. None), ev_device = (\<lambda>_. 0)\<rparr>"

end
