(* ===== verification/FileGuarantees.thy ===== *)
theory FileGuarantees
  imports FileSamples
begin

text \<open>
  The properties of the file mutations: content stays within reach of its record whatever remote
  call fails, a failed move is finished by its retry, a deletion is complete or leaves everything,
  a retry touches nothing but what it was queued for.  Their witnesses run on the sample workspace.
\<close>



lemma sample_world_facts:
  "fresh_op i (sample_world fates)"
  "file_by_id (wd_db (sample_world fates)) ''f1'' = Some (sample_file ''f1'' ''a.md'' (Some ''A''))"
  "demo_objs (wd_remote (sample_world fates)) (''drive'', site_path ''a.md'') = Some ''A''"
  "\<not> ev_local_only sample_env"
  by (simp_all add: fresh_op_def sample_world_def file_by_id_def sample_file_def demo_objs_def sample_env_def)


text \<open>C28: a move whose remote half failed is finished by a retry, when the file's object was at its old place before
  the move and the failure did not leave an object at both places without the mark that the copy
  was done.  The failure leaves a queued operation of the file, and running that operation
  once the remote answers again puts the content at the planned place, removes it from the old one
  and points the record (with its node and filename) there.  With objects at both places and no mark, as after an upload
  that landed and reported an error, every retry refuses.\<close>
theorem failed_move_is_finished:
  assumes ad: "adapter_ok ad objs" and ad2: "adapter_ok ad2 objs" "reliable ad2 objs"
    and env: "\<not> ev_local_only env" and fresh: "fresh_op i w"
    and row: "file_by_id (wd_db w) (ma_file a) = Some row" and key: "fl_remote_name row = Some n" "fl_remote_path row = Some q"
    and c: "objs (wd_remote w) (n, q) = Some c"
    and step: "moveFile env ad now i a w = (Inr (MoveRemoteRepair p cp e), w')"
    and to: "pl_new_name p = Some n2" "(n2, pl_new_path p) \<noteq> (n, q)"
    and clear: "objs (wd_remote w') (n, q) = None \<or> objs (wd_remote w') (n2, pl_new_path p) = None \<or> cp"
  shows "\<exists>op \<in> set (wd_ops w'). pr_id op = i \<and> pr_file op = ma_file a \<and>
    (case run_op env ad2 now2 op w' of
       (v, w2) \<Rightarrow> v = Inr () \<and> objs (wd_remote w2) (n2, pl_new_path p) = Some c \<and> objs (wd_remote w2) (n, q) = None \<and>
         (\<exists>row2. file_by_id (wd_db w2) (ma_file a) = Some row2 \<and> fl_remote_name row2 = Some n2 \<and>
            fl_remote_path row2 = Some (pl_new_path p) \<and> fl_node row2 = pl_target p \<and> fl_filename row2 = pl_filename p))"
  by (rule failed_move_retry [OF assms])

definition sample_move :: move_args where
  "sample_move = \<lparr>ma_user = ''ann'', ma_file = ''f1'', ma_subpath = None, ma_section = Some ''outputs'', ma_node = None,
     ma_filename = None, ma_confirmed = True\<rparr>"

lemma sample_move_fails:
  "case moveFile sample_env (demo_adapter next_fate) 9 ''op'' sample_move (sample_world [Fine, Fine, Fine, FailAfter]) of
     (Inr (MoveRemoteRepair p cp e), w') \<Rightarrow>
        pl_new_name p = Some ''drive'' \<and> pl_new_path p = ''acme/projects/site/outputs/a.md'' \<and>
        demo_objs (wd_remote w') (''drive'', site_path ''a.md'') = None
   | _ \<Rightarrow> False"
  by code_simp

lemma failed_move_is_finished_witness:
  "case moveFile sample_env (demo_adapter next_fate) 9 ''op'' sample_move (sample_world [Fine, Fine, Fine, FailAfter]) of
     (v, w') \<Rightarrow> \<exists>op \<in> set (wd_ops w').
        demo_objs (wd_remote (snd (run_op sample_env (demo_adapter no_fate) 10 op w'))) (''drive'', ''acme/projects/site/outputs/a.md'') = Some ''A''"
proof -
  have ad: "adapter_ok (demo_adapter next_fate) demo_objs" "adapter_ok (demo_adapter no_fate) demo_objs"
    by (rule demo_adapter_ok, simp)+
  obtain p cp e w' where m: "moveFile sample_env (demo_adapter next_fate) 9 ''op'' sample_move (sample_world [Fine, Fine, Fine, FailAfter])
      = (Inr (MoveRemoteRepair p cp e), w')"
    and p: "pl_new_name p = Some ''drive''" "pl_new_path p = ''acme/projects/site/outputs/a.md''"
    and o: "demo_objs (wd_remote w') (''drive'', site_path ''a.md'') = None"
    using sample_move_fails by (auto split: prod.splits sum.splits file_move_result.splits)
  have f: "ma_file sample_move = ''f1''" by (simp add: sample_move_def)
  have ne: "(''drive'', pl_new_path p) \<noteq> (''drive'', site_path ''a.md'')" by (simp add: p site_path_def)
  have clear: "demo_objs (wd_remote w') (''drive'', site_path ''a.md'') = None \<or>
      demo_objs (wd_remote w') (''drive'', pl_new_path p) = None \<or> cp" using o by simp
  have row: "file_by_id (wd_db (sample_world [Fine, Fine, Fine, FailAfter])) (ma_file sample_move) = Some (sample_file ''f1'' ''a.md'' (Some ''A''))"
    "fl_remote_name (sample_file ''f1'' ''a.md'' (Some ''A'')) = Some ''drive''"
    "fl_remote_path (sample_file ''f1'' ''a.md'' (Some ''A'')) = Some (site_path ''a.md'')"
    by (simp_all add: f sample_world_facts sample_file_def)
  from failed_move_is_finished [OF ad demo_reliable sample_world_facts(4,1) row sample_world_facts(3) m p(1) ne clear, of 10]
  obtain op where "op \<in> set (wd_ops w')"
    "demo_objs (wd_remote (snd (run_op sample_env (demo_adapter no_fate) 10 op w'))) (''drive'', pl_new_path p) = Some ''A''"
    by (auto simp: split_beta)
  then show ?thesis unfolding m prod.case p by blast
qed

text \<open>C30: a confirmed complete deletion of a tracked file either succeeds, and then record and object are
  gone, its operation is off the queue and the deletion is audited, or it asks for a repair, and
  then every record, local file and file state is as it was and the deletion stays queued with
  the hash it targets.  Either way no other object of any remote changes.\<close>
theorem deletion_completes_or_is_queued:
  assumes "adapter_ok ad objs" and "\<not> ev_local_only env" and "fresh_op i w"
    and "file_by_id (wd_db w) f = Some row"
    and "fl_remote_name row = Some n" "n \<noteq> []" "fl_remote_path row = Some p" "p \<noteq> []"
    and "da_file a = f" "da_mode a = Complete" "da_confirmed a"
    and "deleteFile env ad i a w = (v, w')"
  shows "(\<forall>k. k \<noteq> (n, p) \<longrightarrow> objs (wd_remote w') k = objs (wd_remote w) k) \<and>
     ((v = Inr DeleteOk \<and> file_by_id (wd_db w') f = None \<and> objs (wd_remote w') (n, p) = None \<and> fresh_op i w' \<and>
       au_action (last (audit_t (wd_db w'))) = ''sync_delete'' \<and> au_target_id (last (audit_t (wd_db w'))) = f) \<or>
      (\<exists>e. v = Inr (DeleteRepair e) \<and> files_t (wd_db w') = files_t (wd_db w) \<and> wd_local w' = wd_local w \<and>
         wd_state w' = wd_state w \<and>
         (\<exists>op \<in> set (wd_ops w'). pr_id op = i \<and> pr_file op = f \<and> pr_payload op = OpDelete (delete_payload_of row n p))))"
  by (rule deleteFile_outcomes [OF assms])

definition sample_delete :: delete_args where
  "sample_delete = \<lparr>da_user = ''ann'', da_file = ''f1'', da_mode = Complete, da_confirmed = True\<rparr>"

lemma deletion_completes_or_is_queued_witness:
  "demo_objs (wd_remote (snd (deleteFile sample_env (demo_adapter next_fate) ''op'' sample_delete (sample_world [FailBefore]))))
     (''drive'', site_path ''b.md'') = Some ''B''"
proof -
  have ad: "adapter_ok (demo_adapter next_fate) demo_objs" by (rule demo_adapter_ok) simp
  have "fl_remote_name (sample_file ''f1'' ''a.md'' (Some ''A'')) = Some ''drive''" "''drive'' \<noteq> []"
    "fl_remote_path (sample_file ''f1'' ''a.md'' (Some ''A'')) = Some (site_path ''a.md'')" "site_path ''a.md'' \<noteq> []"
    "da_file sample_delete = ''f1''" "da_mode sample_delete = Complete" "da_confirmed sample_delete"
    by (simp_all add: sample_file_def site_path_def sample_delete_def)
  from deletion_completes_or_is_queued [OF ad sample_world_facts(4,1,2) this prod.collapse [symmetric],
      THEN conjunct1, THEN spec, of "(''drive'', site_path ''b.md'')"]
  show ?thesis by (simp add: sample_world_def demo_objs_def site_path_def)
qed



definition stale_payload :: delete_payload where
  "stale_payload = \<lparr>dp_name = ''drive'', dp_path = site_path ''a.md'', dp_filename = ''a.md'', dp_hash = Some ''Z'',
     dp_object = Some True\<rparr>"

definition stale_delete :: pending_row where
  "stale_delete =
     \<lparr>pr_id = ''op'', pr_user = ''ann'', pr_node = ''site'', pr_file = ''f1'', pr_payload = OpDelete stale_payload,
      pr_attempts = 1, pr_error = None\<rparr>"



text \<open>Without a hash the retry cannot tell: an object that came to the path after the deletion was ordered is deleted, although
  the comment of \<^verbatim>\<open>runDelete\<close> has an ambiguous remote never acted on.\<close>

lemma hashless_retry_deletes_newcomer:
  "demo_objs (wd_remote (snd (run_op sample_env (demo_adapter no_fate) 9
      (stale_delete\<lparr>pr_payload := OpDelete (stale_payload\<lparr>dp_hash := None\<rparr>)\<rparr>) (sample_world [])))) (''drive'', site_path ''a.md'') = None"
  by code_simp

section \<open>A file that was never pushed\<close>

text \<open>
  A tracked file without an object on the remote (created through the device and not yet stored)
  renamed onto the path of another tracked file: the relocation finds nothing at the source and
  an object at the target, which it reads as an earlier attempt's success.  The other file's
  record is then removed as a shadow, its local copy overwritten, and the renamed record points
  at its object.
\<close>

definition unpushed_world :: "demo_remote world" where
  "unpushed_world =
     (sample_world [])
       \<lparr>wd_remote := \<lparr>dr_objects = [((''drive'', site_path ''b.md''), ''B'')], dr_fates = []\<rparr>,
        wd_db := (wd_db (sample_world []))
          \<lparr>files_t := [sample_file ''f1'' ''a.md'' None, sample_file ''f2'' ''b.md'' (Some ''B'')]\<rparr>\<rparr>"

lemma unpushed_rename_takes_over:
  "case renameFile sample_env (demo_adapter no_fate) 9 ''op'' ''ann'' ''f1'' ''b.md'' unpushed_world of
     (v, w') \<Rightarrow>
       v = Inr \<lparr>rn_filename = ''b.md'', rn_path = site_path ''b.md'', rn_local = Some ''/m/site/wip/b.md'', rn_error = None\<rparr> \<and>
       file_by_id (wd_db w') ''f2'' = None \<and> map_option lf_content (local_at w' ''/m/site/wip/b.md'') = Some ''A'' \<and>
       demo_objs (wd_remote w') (''drive'', site_path ''b.md'') = Some ''B'' \<and> wd_ops w' = []"
  by code_simp

text \<open>Renamed to a free name it fails, and the queued move waits for an object to appear.\<close>

lemma unpushed_rename_fails:
  "case renameFile sample_env (demo_adapter no_fate) 9 ''op'' ''ann'' ''f1'' ''c.md'' unpushed_world of
     (v, w') \<Rightarrow> v = Inl (RemoteFailure (neither_exists (site_path ''a.md'') (site_path ''c.md''))) \<and>
       map pr_file (wd_ops w') = [''f1''] \<and> file_by_id (wd_db w') ''f1'' = Some (sample_file ''f1'' ''a.md'' None)"
  by code_simp

section \<open>A local workspace\<close>

text \<open>
  Without a remote nothing stats the target: a rename (or a move) onto the path of another tracked
  file replaces its content on the device, the only copy there is, and removes its record.
\<close>

definition local_env :: env where
  "local_env = sample_env\<lparr>ev_local_only := True\<rparr>"

definition sample_move_over :: move_args where
  "sample_move_over = sample_move\<lparr>ma_section := None, ma_filename := Some ''b.md''\<rparr>"

lemma local_rename_overwrites:
  "case renameFile local_env (demo_adapter no_fate) 9 ''op'' ''ann'' ''f1'' ''b.md'' (sample_world []) of
     (v, w') \<Rightarrow>
       v = Inr \<lparr>rn_filename = ''b.md'', rn_path = site_path ''b.md'', rn_local = Some ''/m/site/wip/b.md'', rn_error = None\<rparr> \<and>
       map fl_id (files_t (wd_db w')) = [''f1''] \<and>
       map_option lf_content (local_at w' ''/m/site/wip/b.md'') = Some ''A'' \<and> local_at w' ''/m/site/wip/a.md'' = None"
  by code_simp

lemma local_move_overwrites:
  "case moveFile local_env (demo_adapter no_fate) 9 ''op'' sample_move_over (sample_world []) of
     (v, w') \<Rightarrow>
       map fl_id (files_t (wd_db w')) = [''f1''] \<and>
       map_option lf_content (local_at w' ''/m/site/wip/b.md'') = Some ''A'' \<and> local_at w' ''/m/site/wip/a.md'' = None"
  by code_simp

end
