(* ===== verification/SyncEngine.thy ===== *)
theory SyncEngine
  imports FileLaws
begin

text \<open>
  Storing, registering and pulling files: \<^verbatim>\<open>storeFile\<close>, \<^verbatim>\<open>registerLocalFile\<close>, \<^verbatim>\<open>pullFile\<close> and
  \<^verbatim>\<open>localHashFor\<close> of \<^verbatim>\<open>apps/server/domain/sync/engine.ts\<close>, with \<^verbatim>\<open>hash.ts\<close>.  The two hash functions are a
  parameter.  What runs under the path lock is one step; the user's edits of the device's files
  while an upload is in flight are an argument of the store, a function on the files applied
  between the read of the bytes and the second \<open>stat\<close>.
\<close>

section \<open>Hashes\<close>

record hasher =
  hs_md5 :: "string \<Rightarrow> string"
  hs_sha :: "string \<Rightarrow> string"

definition is_md5 :: "string \<Rightarrow> bool" where
  "is_md5 h \<longleftrightarrow> length h = 32"

definition hash_as :: "hasher \<Rightarrow> bool \<Rightarrow> string \<Rightarrow> string" where
  "hash_as hs useMd5 c = (if useMd5 then hs_md5 hs c else hs_sha hs c)"

section \<open>Names and places\<close>

definition MIME :: "string \<Rightarrow> string option" where
  "MIME = map_of
     [(''.txt'', ''text/plain''), (''.md'', ''text/markdown''), (''.html'', ''text/html''), (''.json'', ''application/json''),
      (''.pdf'', ''application/pdf''), (''.png'', ''image/png''), (''.jpg'', ''image/jpeg''), (''.jpeg'', ''image/jpeg''),
      (''.svg'', ''image/svg+xml''), (''.zip'', ''application/zip''), (''.showtime'', ''application/zip'')]"

definition mimeFor :: "string \<Rightarrow> string option" where
  "mimeFor n =
     (if CHR ''.'' \<in> set n then MIME (js_lower (CHR ''.'' # rev (takeWhile (\<lambda>c. c \<noteq> CHR ''.'') (rev n)))) else None)"

definition path_basename :: "string \<Rightarrow> string" where
  "path_basename p = last_segment (strip_slashes p)"

record store_args =
  sa_user :: user_id
  sa_node :: node_id
  sa_local :: string
  sa_status :: "string option"
  sa_subpath :: "string option"

record file_place =
  fp_section :: string
  fp_subpath :: "string option"
  fp_filename :: string

definition place_of :: "env \<Rightarrow> string \<Rightarrow> store_args \<Rightarrow> file_place" where
  "place_of env mirrorRoot a =
     (case subpathFromMirror (ev_cwd env) mirrorRoot (sa_local a) of
        Some s \<Rightarrow> \<lparr>fp_section = ms_section s, fp_subpath = ms_subpath s, fp_filename = ms_filename s\<rparr>
      | None \<Rightarrow> \<lparr>fp_section = (if sa_status a = Some ''output'' then ''outputs'' else ''wip''),
                 fp_subpath = sa_subpath a, fp_filename = path_basename (sa_local a)\<rparr>)"

definition mirrored_path :: "env \<Rightarrow> string \<Rightarrow> file_place \<Rightarrow> path_error + string" where
  "mirrored_path env mirrorRoot p =
     safeMirrorJoin (ev_cwd env) mirrorRoot
       ([fp_section p] @ (case truthy_opt (fp_subpath p) of None \<Rightarrow> [] | Some s \<Rightarrow> [s]) @ [fp_filename p])"

definition place_remote :: "node_info \<Rightarrow> file_place \<Rightarrow> path_error + string" where
  "place_remote info p =
     buildRemotePath \<lparr>rp_info = info, rp_section = fp_section p, rp_subpath = fp_subpath p, rp_filename = fp_filename p\<rparr>"

section \<open>The device's files\<close>

definition enoent :: "string \<Rightarrow> file_error" where
  "enoent p = LocalFailure (''ENOENT: '' @ p)"

text \<open>A write that fails is taken to leave the file as it was; what a torn write leaves on the disk is not modelled.\<close>

definition write_local :: "env \<Rightarrow> timestamp \<Rightarrow> string \<Rightarrow> string \<Rightarrow> 'r world \<Rightarrow> (file_error + unit) \<times> 'r world" where
  "write_local env now p c w =
     (case ev_write_error env p of
        Some e \<Rightarrow> (Inl (LocalFailure e), w)
      | None \<Rightarrow>
          (case local_at w p of
             Some f \<Rightarrow> (Inr (), w\<lparr>wd_local := AList.update p (f\<lparr>lf_content := c, lf_mtime := now\<rparr>) (wd_local w)\<rparr>)
           | None \<Rightarrow>
               (Inr (), w\<lparr>wd_local := AList.update p \<lparr>lf_content = c, lf_mtime = now, lf_ino = wd_ino w, lf_dev = ev_device env p\<rparr>
                                        (wd_local w),
                          wd_ino := Suc (wd_ino w)\<rparr>)))"

text \<open>The source's copy into the mirror, unless it is there already or is the same physical file.\<close>

definition copy_in :: "env \<Rightarrow> timestamp \<Rightarrow> string \<Rightarrow> string \<Rightarrow> 'r world \<Rightarrow> (file_error + unit) \<times> 'r world" where
  "copy_in env now src dst w =
     (case local_at w src of
        None \<Rightarrow> (Inl (enoent src), w)
      | Some s \<Rightarrow>
          if dst = src then (Inr (), w)
          else (case local_at w dst of
                  Some d \<Rightarrow> (if lf_ino d = lf_ino s \<and> lf_dev d = lf_dev s then (Inr (), w)
                             else write_local env now dst (lf_content s) w)
                | None \<Rightarrow> write_local env now dst (lf_content s) w))"

definition with_cache :: "string option \<Rightarrow> local_file \<Rightarrow> file_state option \<Rightarrow> file_state" where
  "with_cache h f st =
     \<lparr>st_synced = (case st of None \<Rightarrow> None | Some s \<Rightarrow> st_synced s),
      st_synced_at = (case st of None \<Rightarrow> None | Some s \<Rightarrow> st_synced_at s),
      st_cached = h, st_mtime = Some (lf_mtime f), st_size = Some (length (lf_content f)),
      st_ino = Some (lf_ino f), st_dev = Some (lf_dev f)\<rparr>"

definition synced_state :: "timestamp \<Rightarrow> string \<Rightarrow> string \<Rightarrow> local_file \<Rightarrow> file_state" where
  "synced_state now h cached f = (with_cache (Some cached) f None)\<lparr>st_synced := Some h, st_synced_at := Some now\<rparr>"

section \<open>Rows keyed by their place\<close>

definition row_at :: "node_id \<Rightarrow> string \<Rightarrow> graph_db \<Rightarrow> file_row option" where
  "row_at node path db = find (\<lambda>f. fl_node f = node \<and> fl_remote_path f = Some path) (files_t db)"

text \<open>\<open>INSERT ... ON CONFLICT(node_id, remote_path) DO UPDATE ... RETURNING id\<close>.\<close>

definition upsert_row :: "file_row \<Rightarrow> (file_row \<Rightarrow> file_row) \<Rightarrow> node_id \<Rightarrow> string \<Rightarrow> graph_db \<Rightarrow> string \<times> graph_db" where
  "upsert_row new upd node path db =
     (case row_at node path db of
        None \<Rightarrow> (fl_id new, db\<lparr>files_t := files_t db @ [new]\<rparr>)
      | Some f \<Rightarrow> (fl_id f, update_file_row (fl_id f) upd db))"

section \<open>Store\<close>

record store_result =
  sr_file :: string
  sr_name :: "string option"
  sr_path :: string
  sr_local :: string
  sr_hash :: string

text \<open>The bytes go up and are verified by the hash the backend reports, which becomes the canonical one.\<close>

definition push_bytes ::
  "'r adapter \<Rightarrow> hasher \<Rightarrow> string \<Rightarrow> string \<Rightarrow> string \<Rightarrow> 'r \<Rightarrow> (file_error + string \<times> string option) \<times> 'r" where
  "push_bytes ad hs name path c r =
     (case ad_open ad name r of
        (Inl e, r1) \<Rightarrow> (Inl (RemoteFailure e), r1)
      | (Inr _, r1) \<Rightarrow>
          (case ad_put ad name path c r1 of
             (Inl e, r2) \<Rightarrow> (Inl (RemoteFailure e), r2)
           | (Inr obj, r2) \<Rightarrow>
               (case ad_stat ad name path r2 of
                  (v, r3) \<Rightarrow>
                    (case (case v of Inr (Some st) \<Rightarrow> truthy_opt (fr_hash st) | _ \<Rightarrow> None) of
                       None \<Rightarrow> (Inr (hs_sha hs c, obj), r3)
                     | Some h \<Rightarrow>
                         (let expected = hash_as hs (is_md5 h) c
                          in if js_lower h \<noteq> js_lower expected then (Inl (HashMismatch expected h), r3)
                             else (Inr (js_lower h, obj), r3))))))"

definition stored_row ::
  "store_args \<Rightarrow> timestamp \<Rightarrow> string \<Rightarrow> string \<Rightarrow> string \<Rightarrow> string \<Rightarrow> string option \<Rightarrow> string \<Rightarrow> file_row" where
  "stored_row a now i filename name path obj h =
     \<lparr>fl_id = i, fl_node = sa_node a, fl_remote_name = Some name, fl_remote_path = Some path, fl_updated_at = now,
      fl_filename = filename, fl_status = or_else (sa_status a) ''wip'', fl_hash = Some h, fl_native = False,
      fl_object = obj, fl_pushed_by = Some (sa_user a), fl_pushed_at = Some now, fl_mime = mimeFor filename\<rparr>"

definition restored_row ::
  "store_args \<Rightarrow> timestamp \<Rightarrow> string \<Rightarrow> string \<Rightarrow> string option \<Rightarrow> string \<Rightarrow> file_row \<Rightarrow> file_row" where
  "restored_row a now filename name obj h f =
     f\<lparr>fl_remote_name := Some name, fl_filename := filename, fl_status := or_else (sa_status a) (fl_status f),
       fl_object := (case obj of None \<Rightarrow> fl_object f | Some i \<Rightarrow> Some i), fl_hash := Some h,
       fl_pushed_by := Some (sa_user a), fl_pushed_at := Some now, fl_mime := mimeFor filename, fl_updated_at := now\<rparr>"

definition store_detail :: "string option \<Rightarrow> string \<Rightarrow> string \<Rightarrow> json" where
  "store_detail name path h =
     JObj [(''remote_name'', opt_json name), (''remote_path'', JStr path), (''hash'', JStr h)]"

text \<open>What runs under the path lock, with the edits that land during the upload.\<close>

definition store_locked ::
  "'r adapter \<Rightarrow> hasher \<Rightarrow> timestamp \<Rightarrow> string \<Rightarrow> ((string \<times> local_file) list \<Rightarrow> (string \<times> local_file) list) \<Rightarrow>
   store_args \<Rightarrow> string \<Rightarrow> string \<Rightarrow> string \<Rightarrow> string \<Rightarrow> 'r world \<Rightarrow> (file_error + string \<times> string) \<times> 'r world" where
  "store_locked ad hs now newId edits a filename name path dst w =
     (case local_at w dst of
        None \<Rightarrow> (Inl (enoent dst), w)
      | Some f \<Rightarrow>
          (case push_bytes ad hs name path (lf_content f) (wd_remote w) of
             (Inl e, r) \<Rightarrow> (Inl e, w\<lparr>wd_remote := r, wd_local := edits (wd_local w)\<rparr>)
           | (Inr (h, obj), r) \<Rightarrow>
               (case upsert_row (stored_row a now newId filename name path obj h) (restored_row a now filename name obj h)
                       (sa_node a) path (wd_db w) of
                  (i, db) \<Rightarrow>
                    (let w1 = w\<lparr>wd_remote := r, wd_local := edits (wd_local w),
                                wd_db := publishNodeChange (sa_node a) ChangeFiles
                                           (insert_audit (sa_user a) ''sync_store'' ''file'' i (store_detail (Some name) path h) db)\<rparr>
                     in (case local_at w1 dst of
                           None \<Rightarrow> (Inl (enoent dst), w1)
                         | Some g \<Rightarrow>
                             (let changed = lf_mtime g \<noteq> lf_mtime f \<or> length (lf_content g) \<noteq> length (lf_content f) \<or>
                                            lf_ino g \<noteq> lf_ino f;
                                  cached = (if changed then hash_as hs (is_md5 h) (lf_content g) else h)
                              in (Inr (i, h), upsertFileState i (synced_state now h cached g) w1)))))))"

definition storeFile ::
  "env \<Rightarrow> 'r adapter \<Rightarrow> hasher \<Rightarrow> timestamp \<Rightarrow> string \<Rightarrow> ((string \<times> local_file) list \<Rightarrow> (string \<times> local_file) list) \<Rightarrow>
   store_args \<Rightarrow> 'r world \<Rightarrow> (file_error + store_result) \<times> 'r world" where
  "storeFile env ad hs now newId edits a w =
     (if ev_local_only env then (Inl LocalModeOnly, w)
      else (case resolveNodeInfo (wd_db w) (sa_node a) of
              None \<Rightarrow> (Inl (NodeGone (sa_node a)), w)
            | Some info \<Rightarrow>
                (case truthy_opt (resolveRemote (ev_local_only env) (wd_routing w) (in_type info) (in_org info)) of
                   None \<Rightarrow> (Inl (NoRouting (sa_node a)), w)
                 | Some name \<Rightarrow>
                     (case truthy_opt (getMirrorPath env (sa_user a) (sa_node a)) of
                        None \<Rightarrow> (Inl (NoMirror (sa_node a)), w)
                      | Some root \<Rightarrow>
                          (let p = place_of env root a
                           in (case mirrored_path env root p of
                                 Inl e \<Rightarrow> (Inl (PathFailure e), w)
                               | Inr dst \<Rightarrow>
                                   (case copy_in env now (sa_local a) dst w of
                                      (Inl e, w1) \<Rightarrow> (Inl e, w1)
                                    | (Inr _, w1) \<Rightarrow>
                                        (case place_remote info p of
                                           Inl e \<Rightarrow> (Inl (PathFailure e), w1)
                                         | Inr path \<Rightarrow>
                                             (case store_locked ad hs now newId edits a (fp_filename p) name path dst w1 of
                                                (Inl e, w2) \<Rightarrow> (Inl e, w2)
                                              | (Inr (i, h), w2) \<Rightarrow>
                                                  (Inr \<lparr>sr_file = i, sr_name = Some name, sr_path = path, sr_local = dst, sr_hash = h\<rparr>,
                                                   w2))))))))))"

section \<open>Register\<close>

definition registered_row :: "store_args \<Rightarrow> timestamp \<Rightarrow> string \<Rightarrow> string \<Rightarrow> string option \<Rightarrow> string \<Rightarrow> file_row" where
  "registered_row a now i filename name path =
     \<lparr>fl_id = i, fl_node = sa_node a, fl_remote_name = name, fl_remote_path = Some path, fl_updated_at = now,
      fl_filename = filename, fl_status = or_else (sa_status a) ''wip'', fl_hash = None, fl_native = False,
      fl_object = None, fl_pushed_by = None, fl_pushed_at = None, fl_mime = mimeFor filename\<rparr>"

definition reregistered_row :: "store_args \<Rightarrow> timestamp \<Rightarrow> string \<Rightarrow> string option \<Rightarrow> file_row \<Rightarrow> file_row" where
  "reregistered_row a now filename name f =
     f\<lparr>fl_filename := filename, fl_status := or_else (sa_status a) (fl_status f), fl_mime := mimeFor filename,
       fl_remote_name := (case name of None \<Rightarrow> fl_remote_name f | Some n \<Rightarrow> Some n), fl_updated_at := now\<rparr>"

definition registerLocalFile ::
  "env \<Rightarrow> hasher \<Rightarrow> timestamp \<Rightarrow> string \<Rightarrow> store_args \<Rightarrow> 'r world \<Rightarrow> (file_error + store_result) \<times> 'r world" where
  "registerLocalFile env hs now newId a w =
     (case resolveNodeInfo (wd_db w) (sa_node a) of
        None \<Rightarrow> (Inl (NodeGone (sa_node a)), w)
      | Some info \<Rightarrow>
          (let name = resolveRemote (ev_local_only env) (wd_routing w) (in_type info) (in_org info)
           in (case truthy_opt (getMirrorPath env (sa_user a) (sa_node a)) of
                 None \<Rightarrow> (Inl (NoMirror (sa_node a)), w)
               | Some root \<Rightarrow>
                   (let p = place_of env root a
                    in (case mirrored_path env root p of
                          Inl e \<Rightarrow> (Inl (PathFailure e), w)
                        | Inr dst \<Rightarrow>
                            (case copy_in env now (sa_local a) dst w of
                               (Inl e, w1) \<Rightarrow> (Inl e, w1)
                             | (Inr _, w1) \<Rightarrow>
                                 (case local_at w1 dst of
                                    None \<Rightarrow> (Inl (enoent dst), w1)
                                  | Some f \<Rightarrow>
                                      (case place_remote info p of
                                         Inl e \<Rightarrow> (Inl (PathFailure e), w1)
                                       | Inr path \<Rightarrow>
                                           (case upsert_row (registered_row a now newId (fp_filename p) name path)
                                                   (reregistered_row a now (fp_filename p) name) (sa_node a) path (wd_db w1) of
                                              (i, db) \<Rightarrow>
                                                (let h = hs_sha hs (lf_content f);
                                                     w2 = upsertFileState i (with_cache (Some h) f (getFileState i w1)) (w1\<lparr>wd_db := db\<rparr>)
                                                 in (Inr \<lparr>sr_file = i, sr_name = name, sr_path = path, sr_local = dst, sr_hash = h\<rparr>,
                                                     on_db (\<lambda>db. publishNodeChange (sa_node a) ChangeFiles
                                                       (insert_audit (sa_user a) ''sync_register'' ''file'' i (store_detail name path h) db))
                                                       w2)))))))))))"

section \<open>Pull\<close>

record pull_args =
  pa_user :: user_id
  pa_file :: string
  pa_force :: bool

text \<open>A local copy with changes this device never synced.\<close>

definition dirty_local :: "hasher \<Rightarrow> bool \<Rightarrow> string \<Rightarrow> string \<Rightarrow> string \<Rightarrow> 'r world \<Rightarrow> bool" where
  "dirty_local hs useMd5 h file path w =
     (case local_at w path of
        None \<Rightarrow> False
      | Some f \<Rightarrow>
          (let baseline = (case getFileState file w of None \<Rightarrow> None | Some st \<Rightarrow> st_synced st);
               cur = hash_as hs useMd5 (lf_content f)
           in cur \<noteq> h \<and> (baseline = None \<or> baseline \<noteq> Some cur)))"

definition pull_locked ::
  "env \<Rightarrow> 'r adapter \<Rightarrow> hasher \<Rightarrow> timestamp \<Rightarrow> pull_args \<Rightarrow> file_row \<Rightarrow> string \<Rightarrow> string \<Rightarrow> string \<Rightarrow> 'r world \<Rightarrow>
   (file_error + string) \<times> 'r world" where
  "pull_locked env ad hs now a row name path localPath w =
     (case ad_get ad name path (wd_remote w) of
        (Inl e, r) \<Rightarrow> (Inl (RemoteFailure e), w\<lparr>wd_remote := r\<rparr>)
      | (Inr c, r) \<Rightarrow>
          (let w1 = w\<lparr>wd_remote := r\<rparr>;
               useMd5 = (case fl_hash row of None \<Rightarrow> False | Some k \<Rightarrow> is_md5 k);
               h = hash_as hs useMd5 c
           in if \<not> pa_force a \<and> dirty_local hs useMd5 h (pa_file a) localPath w1
              then (Inl (DirtyLocal (pa_file a) localPath), w1)
              else (case write_local env now localPath c w1 of
                      (Inl e, w2) \<Rightarrow> (Inl e, w2)
                    | (Inr _, w2) \<Rightarrow>
                        (case local_at w2 localPath of
                           None \<Rightarrow> (Inl (enoent localPath), w2)
                         | Some f \<Rightarrow>
                             (Inr h,
                              on_db (\<lambda>db. publishNodeChange (fl_node row) ChangeFiles
                                (insert_audit (pa_user a) ''sync_pull'' ''file'' (pa_file a) (store_detail (Some name) path h)
                                  (update_file_row (pa_file a) (\<lambda>f. f\<lparr>fl_hash := Some h\<rparr>) db)))
                                (upsertFileState (pa_file a) (synced_state now h h f) w2))))))"

definition pullFile ::
  "env \<Rightarrow> 'r adapter \<Rightarrow> hasher \<Rightarrow> timestamp \<Rightarrow> pull_args \<Rightarrow> 'r world \<Rightarrow> (file_error + string) \<times> 'r world" where
  "pullFile env ad hs now a w =
     (if ev_local_only env then (Inl LocalModeOnly, w)
      else (case file_by_id (wd_db w) (pa_file a) of
              None \<Rightarrow> (Inl (FileNotFound (pa_file a)), w)
            | Some row \<Rightarrow>
                (case (truthy_opt (fl_remote_name row), truthy_opt (fl_remote_path row)) of
                   (Some name, Some path) \<Rightarrow>
                     (case truthy_opt (getMirrorPath env (pa_user a) (fl_node row)) of
                        None \<Rightarrow> (Inl (NoMirror (fl_node row)), w)
                      | Some root \<Rightarrow>
                          (case resolveNodeInfo (wd_db w) (fl_node row) of
                             None \<Rightarrow> (Inl (NodeGone (fl_node row)), w)
                           | Some info \<Rightarrow>
                               (case bind_sum (buildNodeRoot info) (\<lambda>nr. deriveLocalPath (ev_cwd env) root nr path) of
                                  Inl e \<Rightarrow> (Inl (PathFailure e), w)
                                | Inr localPath \<Rightarrow>
                                    (case ad_open ad name (wd_remote w) of
                                       (Inl e, r) \<Rightarrow> (Inl (RemoteFailure e), w\<lparr>wd_remote := r\<rparr>)
                                     | (Inr _, r) \<Rightarrow> pull_locked env ad hs now a row name path localPath (w\<lparr>wd_remote := r\<rparr>)))))
                 | _ \<Rightarrow> (Inl (NoRemoteBinding (pa_file a)), w))))"

section \<open>The cached local hash\<close>

text \<open>The cached hash of a file whose times and size are those of the cache entry.\<close>

definition cached_hash :: "file_state option \<Rightarrow> local_file \<Rightarrow> string option" where
  "cached_hash cached f =
     (case cached of
        Some st \<Rightarrow> (if st_mtime st = Some (lf_mtime f) \<and> st_size st = Some (length (lf_content f))
                   then truthy_opt (st_cached st) else None)
      | None \<Rightarrow> None)"

text \<open>The algorithm: that of the reference hash, else that of the baseline, else SHA-256.\<close>

definition hash_algo :: "string option \<Rightarrow> file_state option \<Rightarrow> bool" where
  "hash_algo ref cached =
     (case (case ref of Some k \<Rightarrow> Some k | None \<Rightarrow> (case cached of None \<Rightarrow> None | Some st \<Rightarrow> st_synced st)) of
        None \<Rightarrow> False
      | Some k \<Rightarrow> is_md5 k)"

definition localHashFor ::
  "hasher \<Rightarrow> string \<Rightarrow> string \<Rightarrow> string option \<Rightarrow> file_state option \<Rightarrow> 'r world \<Rightarrow> string option \<times> 'r world" where
  "localHashFor hs path file ref cached w =
     (case local_at w path of
        None \<Rightarrow> (None, w)
      | Some f \<Rightarrow>
          (case cached_hash cached f of
             Some h \<Rightarrow> (Some h, w)
           | None \<Rightarrow>
               (let h = hash_as hs (hash_algo ref cached) (lf_content f)
                in (Some h, upsertFileState file (with_cache (Some h) f cached) w))))"

end
