(* ===== verification/MirrorIgnore.thy ===== *)
theory MirrorIgnore
  imports NodePaths
begin

text \<open>
  Which files of a mirror the walkers skip: the pattern matcher of \<^verbatim>\<open>apps/server/shared/portuniignore.ts\<close>
  and the three layers of \<^verbatim>\<open>apps/server/domain/sync/mirror-ignore.ts\<close>.  A pattern becomes the regular
  expression the code builds from it: a list of items, each possibly optional, tried from the
  places the expression may start at; the answers of an item are the rests it leaves.  A question
  mark is not escaped by the code, so it is the quantifier of the item before it, and one that
  has nothing to repeat makes the constructor throw, which drops the whole file of patterns.
\<close>

datatype glob_token = GlobLit char | GlobStar | GlobDouble | GlobQuest

fun glob_tokens :: "string \<Rightarrow> glob_token list" where
  "glob_tokens [] = []"
| "glob_tokens (c # s) =
     (if c = CHR ''*''
      then (case s of d # s' \<Rightarrow> (if d = CHR ''*'' then GlobDouble # glob_tokens s' else GlobStar # glob_tokens s)
                    | [] \<Rightarrow> [GlobStar])
      else (if c = CHR ''?'' then GlobQuest else GlobLit c) # glob_tokens s)"

definition leading_quests :: "glob_token list \<Rightarrow> nat" where
  "leading_quests ts = length (takeWhile (\<lambda>t. t = GlobQuest) ts)"

text \<open>The items with their quantifiers: one question mark makes a character optional, the next is the
  lazy mark; after a star the first is already the lazy mark.\<close>

fun glob_items :: "glob_token list \<Rightarrow> (glob_token \<times> bool) list option" where
  "glob_items [] = Some []"
| "glob_items (GlobQuest # ts) = glob_items ts"
| "glob_items (t # ts) =
     (let n = leading_quests ts
      in if n > (case t of GlobLit _ \<Rightarrow> 2 | _ \<Rightarrow> 1) then None
         else map_option (\<lambda>is. (t, (case t of GlobLit _ \<Rightarrow> n \<ge> 1 | _ \<Rightarrow> False)) # is) (glob_items ts))"

definition newline_char :: "char \<Rightarrow> bool" where
  "newline_char c \<longleftrightarrow> c = CHR 0x0A \<or> c = CHR 0x0D"

fun rests_while :: "(char \<Rightarrow> bool) \<Rightarrow> string \<Rightarrow> string list" where
  "rests_while P [] = [[]]"
| "rests_while P (c # s) = (c # s) # (if P c then rests_while P s else [])"

fun item_rests :: "glob_token \<Rightarrow> string \<Rightarrow> string list" where
  "item_rests (GlobLit c) s = (case s of d # r \<Rightarrow> (if d = c then [r] else []) | [] \<Rightarrow> [])"
| "item_rests GlobStar s = rests_while (\<lambda>c. c \<noteq> CHR ''/'') s"
| "item_rests GlobDouble s = rests_while (\<lambda>c. \<not> newline_char c) s"
| "item_rests GlobQuest s = [s]"

fun items_match :: "(glob_token \<times> bool) list \<Rightarrow> string \<Rightarrow> bool" where
  "items_match [] s \<longleftrightarrow> (case s of [] \<Rightarrow> True | c # _ \<Rightarrow> c = CHR ''/'')"
| "items_match ((t, opt) # is) s \<longleftrightarrow> list_ex (items_match is) (item_rests t s) \<or> (opt \<and> items_match is s)"

text \<open>The suffixes at which \<open>(^|/)\<close> lets the expression go on, and all of them when it is optional.\<close>

fun after_slashes :: "string \<Rightarrow> string list" where
  "after_slashes [] = []"
| "after_slashes (c # s) = (if c = CHR ''/'' then [s] else []) @ after_slashes s"

definition start_points :: "bool \<Rightarrow> string \<Rightarrow> string list" where
  "start_points free p = (if free then suffixes p else p # after_slashes p)"

datatype glob = Glob bool bool "(glob_token \<times> bool) list"     \<comment> \<open>anchored, free start\<close>

definition compile_pattern :: "string \<Rightarrow> glob option" where
  "compile_pattern raw =
     (let pat = (if raw \<noteq> [] \<and> last raw = CHR ''/'' then butlast raw else raw);
          anchored = (pat \<noteq> [] \<and> hd pat = CHR ''/'');
          ts = glob_tokens (if anchored then tl pat else pat);
          n = leading_quests ts
      in if n > (if anchored then 0 else 2) then None
         else map_option (Glob anchored (n \<ge> 1)) (glob_items ts))"

definition glob_match :: "glob \<Rightarrow> string \<Rightarrow> bool" where
  "glob_match g p = (case g of Glob anchored free is \<Rightarrow>
     if anchored then items_match is p else list_ex (items_match is) (start_points free p))"

fun compile_all :: "string list \<Rightarrow> glob list option" where
  "compile_all [] = Some []"
| "compile_all (l # ls) =
     (case compile_pattern l of None \<Rightarrow> None | Some g \<Rightarrow> map_option (\<lambda>gs. g # gs) (compile_all ls))"

definition pattern_lines :: "string \<Rightarrow> string list" where
  "pattern_lines text =
     filter (\<lambda>l. l \<noteq> [] \<and> \<not> prefix ''#'' l) (map js_trim (split_on CHR 0x0A text))"

definition compileIgnorePatterns :: "string \<Rightarrow> (string \<Rightarrow> bool) option" where
  "compileIgnorePatterns text = map_option (\<lambda>gs p. list_ex (\<lambda>g. glob_match g p) gs) (compile_all (pattern_lines text))"

section \<open>The layers\<close>

definition DEFAULT_PATTERNS :: string where
  "DEFAULT_PATTERNS = join_with [CHR 0x0A] [''Thumbs.db'', ''desktop.ini'', ''~$*'', ''*.tmp'', ''*.swp'']"

text \<open>The predicate over absolute paths, given what reading \<open>.portuniignore\<close> yields.\<close>

definition loadMirrorIgnore :: "string \<Rightarrow> string \<Rightarrow> string option \<Rightarrow> string \<Rightarrow> bool" where
  "loadMirrorIgnore cwd mirrorRoot text absPath =
     (let rel = path_relative cwd mirrorRoot absPath
      in if rel = [] \<or> prefix ''..'' rel then False
         else list_ex (\<lambda>s. prefix ''.'' s) (split_on CHR ''/'' rel) \<or>
              (case compileIgnorePatterns DEFAULT_PATTERNS of None \<Rightarrow> False | Some d \<Rightarrow> d rel) \<or>
              (case Option.bind text compileIgnorePatterns of None \<Rightarrow> False | Some c \<Rightarrow> c rel))"

end
