(* ===== verification/SyncScan.thy ===== *)
theory SyncScan
  imports SyncEngine MirrorIgnore
begin

text \<open>
  The status scan, \<^verbatim>\<open>scanRow\<close> and \<^verbatim>\<open>statusScan\<close> of \<^verbatim>\<open>apps/server/domain/sync/engine.ts\<close>: every tracked file
  of a node or of all nodes is put in one class by comparing the hash of the local copy, the hash
  of the last sync of this device and what the remote reports.  The result lists the entries with
  their class where the code has one list per class.  The bounded fan-out over the rows is the
  sequence of them: a row touches its own cache entry only.
\<close>

datatype status_class = Clean | Push | Pull | Conflict | RemoteMissing | RemoteError | Native | DeletedLocal

record status_entry =
  se_file :: string
  se_node :: node_id
  se_filename :: string
  se_local :: "string option"
  se_name :: "string option"
  se_path :: "string option"
  se_local_hash :: "string option"
  se_remote_hash :: "string option"
  se_last :: "string option"
  se_class :: status_class

definition entry_of :: "file_row \<Rightarrow> string option \<Rightarrow> string option \<Rightarrow> string option \<Rightarrow> string option \<Rightarrow> status_class \<Rightarrow> status_entry" where
  "entry_of f localPath lh rh base c =
     \<lparr>se_file = fl_id f, se_node = fl_node f, se_filename = fl_filename f, se_local = localPath,
      se_name = fl_remote_name f, se_path = fl_remote_path f, se_local_hash = lh, se_remote_hash = rh,
      se_last = base, se_class = c\<rparr>"

section \<open>What the remote says\<close>

text \<open>A listing is a positive cache: a path it lacks is asked for by its own stat.\<close>

definition remoteStatFor ::
  "'r adapter \<Rightarrow> string \<Rightarrow> string \<Rightarrow> (string \<times> file_ref) list \<Rightarrow> 'r \<Rightarrow> (string option \<times> bool) option \<times> 'r" where
  "remoteStatFor ad name path listed r =
     (case map_of (rev listed) path of
        Some ref \<Rightarrow> (Some (fr_hash ref, True), r)
      | None \<Rightarrow>
          (case ad_open ad name r of
             (Inl e, r1) \<Rightarrow> (None, r1)
           | (Inr _, r1) \<Rightarrow>
               (case ad_stat ad name path r1 of
                  (Inl e, r2) \<Rightarrow> (None, r2)
                | (Inr None, r2) \<Rightarrow> (Some (None, False), r2)
                | (Inr (Some st), r2) \<Rightarrow> (Some (fr_hash st, True), r2))))"

section \<open>The class of a file\<close>

text \<open>The local hash, the last synced hash and the answer of the remote: its hash and whether it exists.\<close>

definition compare_hashes :: "string option \<Rightarrow> string option \<Rightarrow> string option \<times> bool \<Rightarrow> status_class" where
  "compare_hashes localHash base rs =
     (if \<not> snd rs then (if localHash \<noteq> None \<and> base = None then Push else RemoteMissing)
      else (case localHash of
              None \<Rightarrow> (if truthy_opt base \<noteq> None then DeletedLocal else Pull)
            | Some l \<Rightarrow>
                (case base of
                   None \<Rightarrow> (if fst rs \<noteq> None \<and> fst rs = Some l then Clean else Conflict)
                 | Some b \<Rightarrow>
                     (let remoteUnknown = (fst rs = None);
                          remoteMatchesLast = (case fst rs of Some h \<Rightarrow> h = b | None \<Rightarrow> True);
                          localMatchesLast = (l = b)
                      in if remoteUnknown \<and> localMatchesLast then Clean
                         else if remoteUnknown \<and> \<not> localMatchesLast then Push
                         else if localMatchesLast \<and> remoteMatchesLast then Clean
                         else if \<not> localMatchesLast \<and> remoteMatchesLast then Push
                         else if localMatchesLast \<and> \<not> remoteMatchesLast then Pull
                         else Conflict))))"

definition row_local_path :: "env \<Rightarrow> user_id \<Rightarrow> node_info \<Rightarrow> file_row \<Rightarrow> string option" where
  "row_local_path env user info f =
     (case truthy_opt (fl_remote_path f) of None \<Rightarrow> None | Some p \<Rightarrow> mirror_local env user (fl_node f) info p)"

definition row_local_hash ::
  "hasher \<Rightarrow> (string \<Rightarrow> file_state option) \<Rightarrow> file_row \<Rightarrow> string option \<Rightarrow> 'r world \<Rightarrow> string option \<times> 'r world" where
  "row_local_hash hs states f localPath w =
     (case localPath of
        None \<Rightarrow> (None, w)
      | Some p \<Rightarrow> localHashFor hs p (fl_id f) (fl_hash f) (states (fl_id f)) w)"

definition row_base :: "(string \<Rightarrow> file_state option) \<Rightarrow> file_row \<Rightarrow> string option" where
  "row_base states f = (case states (fl_id f) of None \<Rightarrow> None | Some st \<Rightarrow> st_synced st)"

text \<open>The verdict once the local hash is known: a local workspace and an unrouted node have no remote to ask.\<close>

definition row_verdict ::
  "env \<Rightarrow> 'r adapter \<Rightarrow> (string \<times> node_id \<Rightarrow> (string \<times> file_ref) list) \<Rightarrow> file_row \<Rightarrow> string \<Rightarrow> string option \<Rightarrow> string option \<Rightarrow>
   string option \<Rightarrow> 'r world \<Rightarrow> status_entry \<times> 'r world" where
  "row_verdict env ad listings f path localPath base lh w =
     (if ev_local_only env
      then (entry_of f localPath lh None base (if lh = None then DeletedLocal else Clean), w)
      else (case truthy_opt (fl_remote_name f) of
              None \<Rightarrow> (entry_of f localPath lh None base (if lh = None then Clean else Push), w)
            | Some name \<Rightarrow>
                (case remoteStatFor ad name path (listings (name, fl_node f)) (wd_remote w) of
                   (None, r) \<Rightarrow> (entry_of f localPath lh None base RemoteError, w\<lparr>wd_remote := r\<rparr>)
                 | (Some rs, r) \<Rightarrow>
                     (entry_of f localPath lh (fst rs) base (compare_hashes lh base rs), w\<lparr>wd_remote := r\<rparr>))))"

text \<open>One row, with the state row loaded for it before the scan and the listing of its node.\<close>

definition scanRow ::
  "env \<Rightarrow> 'r adapter \<Rightarrow> hasher \<Rightarrow> user_id \<Rightarrow> (string \<Rightarrow> file_state option) \<Rightarrow> (string \<times> node_id \<Rightarrow> (string \<times> file_ref) list) \<Rightarrow>
   file_row \<Rightarrow> 'r world \<Rightarrow> status_entry \<times> 'r world" where
  "scanRow env ad hs user states listings f w =
     (case resolveNodeInfo (wd_db w) (fl_node f) of
        None \<Rightarrow> (entry_of f None None None None RemoteError, w)
      | Some info \<Rightarrow>
          (let localPath = row_local_path env user info f
           in if fl_native f then (entry_of f localPath None None None Native, w)
              else (case truthy_opt (fl_remote_path f) of
                      None \<Rightarrow> (entry_of f localPath None None None RemoteError, w)
                    | Some path \<Rightarrow>
                        (case row_local_hash hs states f localPath w of
                           (lh, w1) \<Rightarrow> row_verdict env ad listings f path localPath (row_base states f) lh w1))))"

section \<open>The scan\<close>

record status_args =
  ss_user :: user_id
  ss_node :: "node_id option"
  ss_remote :: "string option"
  ss_discovery :: bool            \<comment> \<open>\<open>includeDiscovery !== false\<close>\<close>
  ss_skip_remote :: bool

definition scan_rows :: "status_args \<Rightarrow> graph_db \<Rightarrow> file_row list" where
  "scan_rows a db =
     filter (\<lambda>f. (\<exists>n \<in> set (nodes_t db). nd_id n = fl_node f) \<and>
                 (case truthy_opt (ss_node a) of None \<Rightarrow> True | Some i \<Rightarrow> fl_node f = i) \<and>
                 (case truthy_opt (ss_remote a) of None \<Rightarrow> True | Some r \<Rightarrow> fl_remote_name f = Some r))
       (files_t db)"

text \<open>A section that does not list contributes nothing.\<close>

fun list_sections :: "'r adapter \<Rightarrow> string \<Rightarrow> string \<Rightarrow> string list \<Rightarrow> 'r \<Rightarrow> (string \<times> file_ref) list \<times> 'r" where
  "list_sections ad name root [] r = ([], r)"
| "list_sections ad name root (s # ss) r =
     (case ad_list ad name (root @ ''/'' @ s) r of
        (v, r1) \<Rightarrow>
          (case list_sections ad name root ss r1 of
             (refs, r2) \<Rightarrow> ((case v of Inl _ \<Rightarrow> [] | Inr l \<Rightarrow> l) @ refs, r2)))"

definition scan_pairs :: "graph_db \<Rightarrow> file_row list \<Rightarrow> (string \<times> node_id) list" where
  "scan_pairs db fs =
     js_set (concat (map (\<lambda>f. case truthy_opt (fl_remote_name f) of
                              None \<Rightarrow> []
                            | Some n \<Rightarrow> (if resolveNodeInfo db (fl_node f) = None then [] else [(n, fl_node f)])) fs))"

fun list_pairs ::
  "'r adapter \<Rightarrow> graph_db \<Rightarrow> (string \<times> node_id) list \<Rightarrow> 'r \<Rightarrow> ((string \<times> node_id) \<times> (string \<times> file_ref) list) list \<times> 'r" where
  "list_pairs ad db [] r = ([], r)"
| "list_pairs ad db (k # ks) r =
     (case ad_open ad (fst k) r of
        (Inl _, r1) \<Rightarrow> list_pairs ad db ks r1
      | (Inr _, r1) \<Rightarrow>
          (case (case resolveNodeInfo db (snd k) of None \<Rightarrow> None
                 | Some info \<Rightarrow> (case buildNodeRoot info of Inl _ \<Rightarrow> None | Inr root \<Rightarrow> Some root)) of
             None \<Rightarrow> list_pairs ad db ks r1
           | Some root \<Rightarrow>
               (case list_sections ad (fst k) root SECTIONS r1 of
                  (refs, r2) \<Rightarrow>
                    (case list_pairs ad db ks r2 of (rest, r3) \<Rightarrow> ((k, refs) # rest, r3)))))"

fun scan_each ::
  "env \<Rightarrow> 'r adapter \<Rightarrow> hasher \<Rightarrow> user_id \<Rightarrow> (string \<Rightarrow> file_state option) \<Rightarrow> (string \<times> node_id \<Rightarrow> (string \<times> file_ref) list) \<Rightarrow>
   file_row list \<Rightarrow> 'r world \<Rightarrow> status_entry list \<times> 'r world" where
  "scan_each env ad hs user states listings [] w = ([], w)"
| "scan_each env ad hs user states listings (f # fs) w =
     (case scanRow env ad hs user states listings f w of
        (e, w1) \<Rightarrow> (case scan_each env ad hs user states listings fs w1 of (es, w2) \<Rightarrow> (e # es, w2)))"

text \<open>The scan of the tracked files, without the discovery of untracked ones.\<close>

definition scan_tracked :: "env \<Rightarrow> 'r adapter \<Rightarrow> hasher \<Rightarrow> status_args \<Rightarrow> 'r world \<Rightarrow> status_entry list \<times> 'r world" where
  "scan_tracked env ad hs a w =
     (let fs = scan_rows a (wd_db w);
          lr = (if ev_local_only env then ([], wd_remote w) else list_pairs ad (wd_db w) (scan_pairs (wd_db w) fs) (wd_remote w))
      in scan_each env ad hs (ss_user a) (\<lambda>i. getFileState i w)
           (\<lambda>k. case map_of (fst lr) k of None \<Rightarrow> [] | Some refs \<Rightarrow> refs) fs (w\<lparr>wd_remote := snd lr\<rparr>))"

end
