(* ===== verification/SyncDiscovery.thy ===== *)
theory SyncDiscovery
  imports SyncScan
begin

text \<open>
  The discovery of untracked files, \<^verbatim>\<open>runDiscovery\<close>, \<^verbatim>\<open>walkMirror\<close>, \<^verbatim>\<open>matchDeleteTombstones\<close> and
  \<^verbatim>\<open>cleanupDeletedRemote\<close> of \<^verbatim>\<open>apps/server/domain/sync/engine.ts\<close>, its hash-free counterpart in
  \<^verbatim>\<open>discover-local.ts\<close>, and the scan with its discovery.  A walk of a directory lists the device's
  files under it none of whose path components is ignored, in the order of the model's table; the
  directories are those that hold a file.  The audit log is read newest row first.
\<close>

record new_local =
  nl_node :: node_id
  nl_local :: string
  nl_section :: string
  nl_subpath :: "string option"
  nl_filename :: string
  nl_hash :: "string option"

record new_remote =
  nr_node :: node_id
  nr_name :: string
  nr_path :: string
  nr_filename :: string
  nr_hash :: "string option"

record deleted_remote =
  ge_file :: string
  ge_node :: node_id
  ge_filename :: string
  ge_local :: string
  ge_path :: string
  ge_hash :: string
  ge_alive :: bool

section \<open>Walking a mirror\<close>

fun step_paths :: "string \<Rightarrow> string list \<Rightarrow> string list" where
  "step_paths dir [] = []"
| "step_paths dir (s # ss) = (dir @ ''/'' @ s) # step_paths (dir @ ''/'' @ s) ss"

definition under_dir :: "string \<Rightarrow> string \<Rightarrow> bool" where
  "under_dir dir p \<longleftrightarrow> prefix (dir @ ''/'') p"

definition walked :: "(string \<Rightarrow> bool) \<Rightarrow> string \<Rightarrow> string \<Rightarrow> bool" where
  "walked ignored dir p \<longleftrightarrow>
     under_dir dir p \<and>
     list_all (\<lambda>q. \<not> ignored q) (step_paths dir (split_on CHR ''/'' (drop (length (dir @ ''/'')) p)))"

definition mirror_ignore :: "env \<Rightarrow> string \<Rightarrow> 'r world \<Rightarrow> string \<Rightarrow> bool" where
  "mirror_ignore env root w =
     loadMirrorIgnore (ev_cwd env) root (map_option lf_content (local_at w (posix_join [root, ''.portuniignore''])))"

definition mirror_files :: "env \<Rightarrow> string \<Rightarrow> string \<Rightarrow> 'r world \<Rightarrow> string list" where
  "mirror_files env root section w =
     filter (walked (mirror_ignore env root w) (posix_join [root, section])) (map fst (wd_local w))"

definition found_local ::
  "env \<Rightarrow> node_id \<Rightarrow> string \<Rightarrow> string list \<Rightarrow> (string \<Rightarrow> string option) \<Rightarrow> string \<Rightarrow> new_local list" where
  "found_local env node root known h p =
     (if p \<in> set known then []
      else (case subpathFromMirror (ev_cwd env) root p of
              None \<Rightarrow> []
            | Some s \<Rightarrow> [\<lparr>nl_node = node, nl_local = p, nl_section = ms_section s, nl_subpath = ms_subpath s,
                          nl_filename = ms_filename s, nl_hash = h p\<rparr>]))"

definition known_locals :: "env \<Rightarrow> string \<Rightarrow> string \<Rightarrow> string list \<Rightarrow> string list" where
  "known_locals env root nodeRoot paths =
     concat (map (\<lambda>p. case deriveLocalPath (ev_cwd env) root nodeRoot p of Inl _ \<Rightarrow> [] | Inr l \<Rightarrow> [l]) paths)"

definition sha_at :: "hasher \<Rightarrow> 'r world \<Rightarrow> string \<Rightarrow> string option" where
  "sha_at hs w p = map_option (\<lambda>f. hs_sha hs (lf_content f)) (local_at w p)"

definition walkMirror :: "env \<Rightarrow> hasher \<Rightarrow> node_id \<Rightarrow> string \<Rightarrow> string list \<Rightarrow> string \<Rightarrow> 'r world \<Rightarrow> new_local list" where
  "walkMirror env hs node root known section w =
     concat (map (found_local env node root known (sha_at hs w)) (mirror_files env root section w))"

text \<open>The paths of a node's rows, whatever remote they are bound to; the hashes are left to the store.\<close>

definition listUntrackedLocal :: "env \<Rightarrow> user_id \<Rightarrow> node_id \<Rightarrow> 'r world \<Rightarrow> new_local list" where
  "listUntrackedLocal env user node w =
     (case truthy_opt (getMirrorPath env user node) of
        None \<Rightarrow> []
      | Some root \<Rightarrow>
          (case resolveNodeInfo (wd_db w) node of
             None \<Rightarrow> []
           | Some info \<Rightarrow>
               (case buildNodeRoot info of
                  Inl _ \<Rightarrow> []
                | Inr nodeRoot \<Rightarrow>
                    (let known = known_locals env root nodeRoot
                                   (concat (map (\<lambda>f. if fl_node f = node
                                                     then (case truthy_opt (fl_remote_path f) of None \<Rightarrow> [] | Some p \<Rightarrow> [p]) else [])
                                              (files_t (wd_db w))))
                     in concat (map (\<lambda>s. concat (map (found_local env node root known (\<lambda>_. None)) (mirror_files env root s w)))
                                 SECTIONS)))))"

section \<open>Discovery\<close>

record discovery =
  ds_new_local :: "new_local list"
  ds_new_remote :: "new_remote list"
  ds_stale :: "node_id list"            \<comment> \<open>mirrors of nodes that are gone, to be unregistered\<close>

definition known_rows :: "status_args \<Rightarrow> graph_db \<Rightarrow> file_row list" where
  "known_rows a db =
     (case truthy_opt (ss_node a) of
        None \<Rightarrow> files_t db
      | Some i \<Rightarrow>
          (case (case resolveNodeInfo db i of None \<Rightarrow> None
                 | Some info \<Rightarrow> (case buildNodeRoot info of Inl _ \<Rightarrow> None | Inr root \<Rightarrow> Some root)) of
             None \<Rightarrow> files_t db
           | Some root \<Rightarrow>
               filter (\<lambda>f. fl_node f = i \<or>
                           (case fl_remote_path f of None \<Rightarrow> False
                            | Some p \<Rightarrow> sql_like CHR 0x5C (like_escape root @ ''/%'') p)) (files_t db)))"

text \<open>The rows bound to a remote and a path: node, remote name and path.\<close>

definition bound_rows :: "file_row list \<Rightarrow> (node_id \<times> string \<times> string) list" where
  "bound_rows fs =
     concat (map (\<lambda>f. case (truthy_opt (fl_remote_name f), truthy_opt (fl_remote_path f)) of
                        (Some n, Some p) \<Rightarrow> [(fl_node f, n, p)]
                      | _ \<Rightarrow> []) fs)"

definition discoverRemote ::
  "env \<Rightarrow> 'r adapter \<Rightarrow> node_id \<Rightarrow> node_info \<Rightarrow> (string \<times> string) list \<Rightarrow> 'r world \<Rightarrow> new_remote list \<times> 'r world" where
  "discoverRemote env ad node info known w =
     (case truthy_opt (resolveRemote (ev_local_only env) (wd_routing w) (in_type info) (in_org info)) of
        None \<Rightarrow> ([], w)
      | Some name \<Rightarrow>
          (case ad_open ad name (wd_remote w) of
             (Inl _, r) \<Rightarrow> ([], w\<lparr>wd_remote := r\<rparr>)
           | (Inr _, r) \<Rightarrow>
               (case buildNodeRoot info of
                  Inl _ \<Rightarrow> ([], w\<lparr>wd_remote := r\<rparr>)
                | Inr root \<Rightarrow>
                    (case ad_list ad name root r of
                       (Inl _, r1) \<Rightarrow> ([], w\<lparr>wd_remote := r1\<rparr>)
                     | (Inr refs, r1) \<Rightarrow>
                         (map (\<lambda>x. \<lparr>nr_node = node, nr_name = name, nr_path = fst x, nr_filename = last_segment (fst x),
                                    nr_hash = fr_hash (snd x)\<rparr>)
                            (filter (\<lambda>x. (name, fst x) \<notin> set known) refs), w\<lparr>wd_remote := r1\<rparr>)))))"

fun discover_each ::
  "env \<Rightarrow> 'r adapter \<Rightarrow> hasher \<Rightarrow> status_args \<Rightarrow> (node_id \<times> string \<times> string) list \<Rightarrow> (node_id \<times> string) list \<Rightarrow> 'r world \<Rightarrow>
   (file_error + discovery) \<times> 'r world" where
  "discover_each env ad hs a known [] w = (Inr \<lparr>ds_new_local = [], ds_new_remote = [], ds_stale = []\<rparr>, w)"
| "discover_each env ad hs a known (m # ms) w =
     (case resolveNodeInfo (wd_db w) (fst m) of
        None \<Rightarrow>
          (case discover_each env ad hs a known ms w of
             (v, w1) \<Rightarrow> (map_sum id (\<lambda>d. d\<lparr>ds_stale := fst m # ds_stale d\<rparr>) v, w1))
      | Some info \<Rightarrow>
          (case buildNodeRoot info of
             Inl e \<Rightarrow> (Inl (PathFailure e), w)
           | Inr nodeRoot \<Rightarrow>
               (let mine = known_locals env (snd m) nodeRoot (map (\<lambda>x. snd (snd x)) (filter (\<lambda>x. fst x = fst m) known));
                    ls = concat (map (\<lambda>s. walkMirror env hs (fst m) (snd m) mine s w) SECTIONS)
                in (case (if ss_skip_remote a then ([], w) else discoverRemote env ad (fst m) info (map snd known) w) of
                      (rs, w1) \<Rightarrow>
                        (case discover_each env ad hs a known ms w1 of
                           (v, w2) \<Rightarrow>
                             (map_sum id (\<lambda>d. d\<lparr>ds_new_local := ls @ ds_new_local d, ds_new_remote := rs @ ds_new_remote d\<rparr>) v, w2))))))"

definition scan_mirrors :: "env \<Rightarrow> status_args \<Rightarrow> (node_id \<times> string) list" where
  "scan_mirrors env a =
     (case truthy_opt (ss_node a) of
        Some i \<Rightarrow> (case truthy_opt (getMirrorPath env (ss_user a) i) of None \<Rightarrow> [] | Some root \<Rightarrow> [(i, root)])
      | None \<Rightarrow> map snd (filter (\<lambda>m. fst m = ss_user a) (ev_mirrors env)))"

definition runDiscovery ::
  "env \<Rightarrow> 'r adapter \<Rightarrow> hasher \<Rightarrow> status_args \<Rightarrow> 'r world \<Rightarrow> (file_error + discovery) \<times> 'r world" where
  "runDiscovery env ad hs a w =
     (let known = bound_rows (known_rows a (wd_db w)); mirrors = scan_mirrors env a
      in (case discover_each env ad hs a known mirrors w of
            (Inl e, w1) \<Rightarrow> (Inl e, w1)
          | (Inr d, w1) \<Rightarrow>
              (case truthy_opt (ss_node a) of
                 None \<Rightarrow> (Inr d, w1)
               | Some i \<Rightarrow>
                   if mirrors \<noteq> [] \<or> ss_skip_remote a then (Inr d, w1)
                   else (case resolveNodeInfo (wd_db w1) i of
                           None \<Rightarrow> (Inr d, w1)
                         | Some info \<Rightarrow>
                             (case discoverRemote env ad i info (map snd known) w1 of
                                (rs, w2) \<Rightarrow> (Inr (d\<lparr>ds_new_remote := ds_new_remote d @ rs\<rparr>), w2))))))"

section \<open>Tombstones\<close>

definition is_tombstone :: "string \<Rightarrow> bool" where
  "is_tombstone action \<longleftrightarrow> action \<in> set [''sync_delete'', ''sync_delete_remote'', ''sync_move'', ''sync_rename'']"

definition json_text :: "json option \<Rightarrow> string \<Rightarrow> string option" where
  "json_text d k = (case Option.bind d (\<lambda>j. json_get j k) of Some (JStr s) \<Rightarrow> Some s | _ \<Rightarrow> None)"

text \<open>\<open>COALESCE(detail.remote_path, detail.old_remote_path)\<close>.\<close>

definition tomb_path :: "audit_entry \<Rightarrow> string option" where
  "tomb_path t =
     (case json_text (au_detail t) ''remote_path'' of
        Some p \<Rightarrow> Some p
      | None \<Rightarrow> json_text (au_detail t) ''old_remote_path'')"

definition tombstones :: "graph_db \<Rightarrow> node_id \<Rightarrow> string list \<Rightarrow> audit_entry list" where
  "tombstones db node paths =
     concat (map (\<lambda>chunk. filter (\<lambda>t. au_target_type t = ''file'' \<and> is_tombstone (au_action t) \<and>
                                      json_text (au_detail t) ''node_id'' = Some node \<and>
                                      (case tomb_path t of None \<Rightarrow> False | Some p \<Rightarrow> p \<in> set chunk))
                            (rev (audit_t db)))
               (chunks 300 paths))"

definition diskHashMatching :: "hasher \<Rightarrow> string \<Rightarrow> string \<Rightarrow> string option \<Rightarrow> 'r world \<Rightarrow> string option" where
  "diskHashMatching hs ref path pre w =
     (case (if is_md5 ref then None else (case pre of Some p \<Rightarrow> (if length p = 64 then Some p else None) | None \<Rightarrow> None)) of
        Some p \<Rightarrow> Some p
      | None \<Rightarrow> map_option (\<lambda>f. hash_as hs (is_md5 ref) (lf_content f)) (local_at w path))"

definition takeUnmatched :: "new_local list \<Rightarrow> string \<Rightarrow> string list \<Rightarrow> new_local option" where
  "takeUnmatched entries p matched = find (\<lambda>e. nl_local e = p \<and> nl_local e \<notin> set matched) entries"

definition match_one ::
  "env \<Rightarrow> hasher \<Rightarrow> string \<Rightarrow> string \<Rightarrow> node_id \<Rightarrow> new_local list \<Rightarrow> 'r world \<Rightarrow> audit_entry \<Rightarrow> string list \<Rightarrow> deleted_remote option" where
  "match_one env hs root nodeRoot node entries w t matched =
     (case truthy_opt (tomb_path t) of
        None \<Rightarrow> None
      | Some path \<Rightarrow>
          (case deriveLocalPath (ev_cwd env) root nodeRoot path of
             Inl _ \<Rightarrow> None
           | Inr expected \<Rightarrow>
               (case takeUnmatched entries expected matched of
                  None \<Rightarrow> None
                | Some e \<Rightarrow>
                    (case (case getFileState (au_target_id t) w of None \<Rightarrow> None | Some st \<Rightarrow> st_synced st) of
                       None \<Rightarrow> None
                     | Some h \<Rightarrow>
                         (let alive = (au_action t = ''sync_move'' \<or> au_action t = ''sync_rename'')
                          in if diskHashMatching hs h (nl_local e) (nl_hash e) w \<noteq> Some h then None
                             else if alive \<and> (case file_by_id (wd_db w) (au_target_id t) of
                                                None \<Rightarrow> False | Some f \<Rightarrow> fl_remote_path f = Some path) then None
                             else Some \<lparr>ge_file = au_target_id t, ge_node = node, ge_filename = nl_filename e,
                                        ge_local = nl_local e, ge_path = path, ge_hash = h, ge_alive = alive\<rparr>)))))"

fun match_each ::
  "(audit_entry \<Rightarrow> string list \<Rightarrow> deleted_remote option) \<Rightarrow> audit_entry list \<Rightarrow> string list \<Rightarrow> deleted_remote list" where
  "match_each m [] matched = []"
| "match_each m (t # ts) matched =
     (case m t matched of
        None \<Rightarrow> match_each m ts matched
      | Some g \<Rightarrow> g # match_each m ts (matched @ [ge_local g]))"

definition expected_paths :: "env \<Rightarrow> string \<Rightarrow> string \<Rightarrow> new_local list \<Rightarrow> string list" where
  "expected_paths env root nodeRoot entries =
     js_set (concat (map (\<lambda>e. (let rel = path_relative (ev_cwd env) root (nl_local e)
                               in if rel = [] \<or> prefix ''..'' rel then [] else [nodeRoot @ ''/'' @ rel])) entries))"

definition match_node ::
  "env \<Rightarrow> hasher \<Rightarrow> user_id \<Rightarrow> 'r world \<Rightarrow> node_id \<Rightarrow> new_local list \<Rightarrow> string list \<Rightarrow> deleted_remote list" where
  "match_node env hs user w node entries matched =
     (case truthy_opt (getMirrorPath env user node) of
        None \<Rightarrow> []
      | Some root \<Rightarrow>
          (case (case resolveNodeInfo (wd_db w) node of None \<Rightarrow> None
                 | Some info \<Rightarrow> (case buildNodeRoot info of Inl _ \<Rightarrow> None | Inr nr \<Rightarrow> Some nr)) of
             None \<Rightarrow> []
           | Some nodeRoot \<Rightarrow>
               match_each (match_one env hs root nodeRoot node entries w)
                 (tombstones (wd_db w) node (expected_paths env root nodeRoot entries)) matched))"

fun match_nodes ::
  "env \<Rightarrow> hasher \<Rightarrow> user_id \<Rightarrow> 'r world \<Rightarrow> new_local list \<Rightarrow> node_id list \<Rightarrow> string list \<Rightarrow> deleted_remote list" where
  "match_nodes env hs user w entries [] matched = []"
| "match_nodes env hs user w entries (i # is) matched =
     (let gs = match_node env hs user w i (filter (\<lambda>e. nl_node e = i) entries) matched
      in gs @ match_nodes env hs user w entries is (matched @ map ge_local gs))"

definition matchDeleteTombstones ::
  "env \<Rightarrow> hasher \<Rightarrow> user_id \<Rightarrow> new_local list \<Rightarrow> 'r world \<Rightarrow> deleted_remote list \<times> new_local list" where
  "matchDeleteTombstones env hs user entries w =
     (let gs = match_nodes env hs user w entries (js_set (map nl_node entries)) []
      in (gs, filter (\<lambda>e. nl_local e \<notin> set (map ge_local gs)) entries))"

text \<open>The stale copies go; the state row of a file that lives on at another path stays.\<close>

definition cleanup_one :: "env \<Rightarrow> deleted_remote \<Rightarrow> 'r world \<Rightarrow> 'r world" where
  "cleanup_one env g w =
     (let w1 = w\<lparr>wd_local := AList.delete (ge_local g) (wd_local w)\<rparr>
      in if ge_alive g then w1 else deleteFileState (ge_file g) w1)"

fun cleanupDeletedRemote ::
  "env \<Rightarrow> deleted_remote list \<Rightarrow> 'r world \<Rightarrow> (deleted_remote list \<times> (deleted_remote \<times> string) list) \<times> 'r world" where
  "cleanupDeletedRemote env [] w = (([], []), w)"
| "cleanupDeletedRemote env (g # gs) w =
     (case ev_rm_error env (ge_local g) of
        Some e \<Rightarrow> (case cleanupDeletedRemote env gs w of ((cs, es), w1) \<Rightarrow> ((cs, (g, e) # es), w1))
      | None \<Rightarrow>
          (case cleanupDeletedRemote env gs (cleanup_one env g w) of ((cs, es), w1) \<Rightarrow> ((g # cs, es), w1)))"

section \<open>The whole scan\<close>

record status_result =
  rs_entries :: "status_entry list"
  rs_new_local :: "new_local list"
  rs_new_remote :: "new_remote list"
  rs_deleted_remote :: "deleted_remote list"

definition bucket :: "status_class \<Rightarrow> status_result \<Rightarrow> status_entry list" where
  "bucket c s = filter (\<lambda>e. se_class e = c) (rs_entries s)"

definition statusScan ::
  "env \<Rightarrow> 'r adapter \<Rightarrow> hasher \<Rightarrow> status_args \<Rightarrow> 'r world \<Rightarrow> (file_error + status_result) \<times> 'r world" where
  "statusScan env ad hs a w =
     (case scan_tracked env ad hs a w of
        (es, w1) \<Rightarrow>
          if \<not> ss_discovery a
          then (Inr \<lparr>rs_entries = es, rs_new_local = [], rs_new_remote = [], rs_deleted_remote = []\<rparr>, w1)
          else (case runDiscovery env ad hs a w1 of
                  (Inl e, w2) \<Rightarrow> (Inl e, w2)
                | (Inr d, w2) \<Rightarrow>
                    (case matchDeleteTombstones env hs (ss_user a) (ds_new_local d) w2 of
                       (gone, rest) \<Rightarrow>
                         (Inr \<lparr>rs_entries = es, rs_new_local = rest, rs_new_remote = ds_new_remote d,
                               rs_deleted_remote = gone\<rparr>, w2))))"

end
