(* ===== verification/RemoteSweep.thy ===== *)
theory RemoteSweep
  imports SyncDiscovery
begin

text \<open>
  The sweep of a node's remote, \<^verbatim>\<open>apps/server/domain/sync/remote-sweep.ts\<close>: the records whose object a
  stat confirms gone are dropped with a tombstone, the stale hashes of the others are refreshed,
  and the untracked objects of the three sections are adopted.  The object ids are written where
  the listing proves them.  Fresh file ids are a function of the remote path.
\<close>

datatype sweep_error =
    ListFailed string string
  | RootUnreachable string
  | StatFailed string string
  | BackfillFailed string string
  | AdoptSkipped string skip_reason

record sweep_result =
  sw_adopted :: "(string \<times> string) list"       \<comment> \<open>file id, path\<close>
  sw_deleted :: "file_row list"
  sw_errors :: "sweep_error list"
  sw_retry :: retry_result

definition adoptableSection :: "string \<Rightarrow> string \<Rightarrow> string option" where
  "adoptableSection nodeRoot path =
     (if \<not> under_dir nodeRoot path then None
      else (let rel = drop (length (nodeRoot @ ''/'')) path
            in if rel = [] then None
               else (let parts = split_on CHR ''/'' rel
                     in if hd parts \<notin> set SECTIONS \<or> tl parts = [] then None
                        else if list_ex (\<lambda>s. prefix ''.'' s) (tl parts) then None
                        else Some (hd parts))))"

definition persistRemoteFileId :: "string \<Rightarrow> string option \<Rightarrow> graph_db \<Rightarrow> graph_db" where
  "persistRemoteFileId file obj db =
     (case truthy_opt obj of
        None \<Rightarrow> db
      | Some i \<Rightarrow> update_file_row file (\<lambda>f. if fl_object f = Some i then f else f\<lparr>fl_object := Some i\<rparr>) db)"

definition needsHashRefresh :: "file_row \<Rightarrow> string option \<Rightarrow> bool" where
  "needsHashRefresh f listed =
     (if fl_native f then False
      else if fl_hash f = None then True
      else listed \<noteq> None \<and> listed \<noteq> fl_hash f)"

section \<open>Records whose object is gone\<close>

fun stat_each :: "'r adapter \<Rightarrow> string \<Rightarrow> file_row list \<Rightarrow> 'r \<Rightarrow> (file_row \<times> (string + file_ref option)) list \<times> 'r" where
  "stat_each ad name [] r = ([], r)"
| "stat_each ad name (f # fs) r =
     (case ad_stat ad name (or_else (fl_remote_path f) []) r of
        (v, r1) \<Rightarrow> (case stat_each ad name fs r1 of (vs, r2) \<Rightarrow> ((f, v) # vs, r2)))"

definition sweep_tombstone :: "user_id \<Rightarrow> node_id \<Rightarrow> string \<Rightarrow> file_row \<Rightarrow> graph_db \<Rightarrow> graph_db" where
  "sweep_tombstone user node name f db =
     publishNodeChange node ChangeFiles
       (insert_audit user ''sync_delete_remote'' ''file'' (fl_id f)
          (JObj [(''node_id'', JStr node), (''remote_name'', JStr name), (''remote_path'', opt_json (fl_remote_path f)),
                 (''filename'', JStr (fl_filename f)), (''mode'', JStr ''complete''), (''reason'', JStr ''remote_sweep''),
                 (''hash'', opt_json (fl_hash f))])
          (delete_file_row (fl_id f) db))"

fun drop_confirmed ::
  "user_id \<Rightarrow> node_id \<Rightarrow> string \<Rightarrow> (file_row \<times> (string + file_ref option)) list \<Rightarrow> graph_db \<Rightarrow>
   (file_row list \<times> sweep_error list) \<times> graph_db" where
  "drop_confirmed user node name [] db = (([], []), db)"
| "drop_confirmed user node name ((f, v) # vs) db =
     (case v of
        Inl e \<Rightarrow>
          (case drop_confirmed user node name vs db of
             ((ds, es), db1) \<Rightarrow> ((ds, StatFailed (or_else (fl_remote_path f) []) e # es), db1))
      | Inr (Some _) \<Rightarrow> drop_confirmed user node name vs db
      | Inr None \<Rightarrow>
          (case drop_confirmed user node name vs (sweep_tombstone user node name f db) of
             ((ds, es), db1) \<Rightarrow> ((f # ds, es), db1)))"

definition deleteRemovedRecords ::
  "'r adapter \<Rightarrow> user_id \<Rightarrow> node_id \<Rightarrow> string \<Rightarrow> file_row list \<Rightarrow> 'r world \<Rightarrow> (file_row list \<times> sweep_error list) \<times> 'r world" where
  "deleteRemovedRecords ad user node name fs w =
     (case stat_each ad name fs (wd_remote w) of
        (vs, r) \<Rightarrow>
          (case drop_confirmed user node name vs (wd_db w) of
             (res, db) \<Rightarrow> (res, w\<lparr>wd_db := db, wd_remote := r\<rparr>)))"

section \<open>Hashes\<close>

definition set_hash :: "string \<Rightarrow> string \<Rightarrow> graph_db \<Rightarrow> graph_db" where
  "set_hash file h db = update_file_row file (\<lambda>f. f\<lparr>fl_hash := Some h\<rparr>) db"

text \<open>The hash of an object: the listed one, or that of its bytes.\<close>

definition resolve_hash :: "'r adapter \<Rightarrow> hasher \<Rightarrow> string \<Rightarrow> string \<Rightarrow> string option \<Rightarrow> 'r \<Rightarrow> (string + string) \<times> 'r" where
  "resolve_hash ad hs name path listed r =
     (case truthy_opt listed of
        Some h \<Rightarrow> (Inr h, r)
      | None \<Rightarrow> (case ad_get ad name path r of (v, r1) \<Rightarrow> (map_sum id (hs_sha hs) v, r1)))"

text \<open>A hash that does not resolve is left as it was: the sweep drops these errors.\<close>

fun refreshRemoteHashes ::
  "'r adapter \<Rightarrow> hasher \<Rightarrow> string \<Rightarrow> (file_row \<times> file_ref) list \<Rightarrow> 'r world \<Rightarrow> 'r world" where
  "refreshRemoteHashes ad hs name [] w = w"
| "refreshRemoteHashes ad hs name ((f, ref) # cs) w =
     (case resolve_hash ad hs name (or_else (fl_remote_path f) []) (fr_hash ref) (wd_remote w) of
        (Inl _, r) \<Rightarrow> refreshRemoteHashes ad hs name cs (w\<lparr>wd_remote := r\<rparr>)
      | (Inr h, r) \<Rightarrow>
          refreshRemoteHashes ad hs name cs
            (on_db (\<lambda>db. persistRemoteFileId (fl_id f) (fr_object ref) (set_hash (fl_id f) h db)) (w\<lparr>wd_remote := r\<rparr>)))"

section \<open>New objects\<close>

definition adopt_status :: "string \<Rightarrow> string" where
  "adopt_status section = (if section = ''outputs'' then ''output'' else ''wip'')"

definition adopt_groups :: "string \<Rightarrow> (string \<times> file_ref) list \<Rightarrow> (string \<times> string list) list" where
  "adopt_groups nodeRoot refs =
     (let tagged = concat (map (\<lambda>x. case adoptableSection nodeRoot (fst x) of None \<Rightarrow> []
                                    | Some s \<Rightarrow> [(adopt_status s, fst x)]) refs)
      in map (\<lambda>st. (st, map snd (filter (\<lambda>t. fst t = st) tagged))) (js_set (map fst tagged)))"

definition adoptable_refs :: "string \<Rightarrow> (string \<times> file_ref) list \<Rightarrow> string \<Rightarrow> file_ref option" where
  "adoptable_refs nodeRoot refs = map_of (rev (filter (\<lambda>x. adoptableSection nodeRoot (fst x) \<noteq> None) refs))"

text \<open>The bytes of an adopted object without a hash are fetched and hashed; a native one has none.\<close>

fun backfill_each ::
  "'r adapter \<Rightarrow> hasher \<Rightarrow> string \<Rightarrow> (string \<Rightarrow> file_ref option) \<Rightarrow> (string \<times> string) list \<Rightarrow> 'r world \<Rightarrow>
   sweep_error list \<times> 'r world" where
  "backfill_each ad hs name refs [] w = ([], w)"
| "backfill_each ad hs name refs ((i, p) # ps) w =
     (let native = (case refs p of None \<Rightarrow> False | Some ref \<Rightarrow> fr_native ref);
          known = (case refs p of None \<Rightarrow> None | Some ref \<Rightarrow> truthy_opt (fr_hash ref))
      in if native \<or> known \<noteq> None then backfill_each ad hs name refs ps w
         else (case ad_get ad name p (wd_remote w) of
                 (Inl e, r) \<Rightarrow>
                   (case backfill_each ad hs name refs ps (w\<lparr>wd_remote := r\<rparr>) of (es, w1) \<Rightarrow> (BackfillFailed p e # es, w1))
               | (Inr c, r) \<Rightarrow>
                   backfill_each ad hs name refs ps (on_db (set_hash i (hs_sha hs c)) (w\<lparr>wd_remote := r\<rparr>))))"

definition persist_adopted :: "(string \<Rightarrow> file_ref option) \<Rightarrow> (string \<times> string) list \<Rightarrow> graph_db \<Rightarrow> graph_db" where
  "persist_adopted refs ps db =
     fold (\<lambda>x db. persistRemoteFileId (fst x) (case refs (snd x) of None \<Rightarrow> None | Some ref \<Rightarrow> fr_object ref) db) ps db"

fun adopt_group_each ::
  "env \<Rightarrow> 'r adapter \<Rightarrow> hasher \<Rightarrow> timestamp \<Rightarrow> (string \<Rightarrow> string) \<Rightarrow> user_id \<Rightarrow> node_id \<Rightarrow> string \<Rightarrow> (string \<Rightarrow> file_ref option) \<Rightarrow>
   (string \<times> string list) list \<Rightarrow> 'r world \<Rightarrow> (file_error + (string \<times> string) list \<times> sweep_error list) \<times> 'r world" where
  "adopt_group_each env ad hs now ids user node name refs [] w = (Inr ([], []), w)"
| "adopt_group_each env ad hs now ids user node name refs (g # gs) w =
     (case adoptFiles env ad now ids
             \<lparr>aa_user = user, aa_node = node, aa_paths = snd g, aa_status = Some (fst g), aa_refs = refs\<rparr> w of
        (Inl e, w1) \<Rightarrow> (Inl e, w1)
      | (Inr s, w1) \<Rightarrow>
          (case backfill_each ad hs name refs (an_adopted s) (on_db (persist_adopted refs (an_adopted s)) w1) of
             (es, w2) \<Rightarrow>
               (let skips = map (\<lambda>x. AdoptSkipped (fst x) (snd x)) (filter (\<lambda>x. snd x \<noteq> SkipTracked) (an_skipped s))
                in (case adopt_group_each env ad hs now ids user node name refs gs w2 of
                      (v, w3) \<Rightarrow> (map_sum id (\<lambda>ae. (an_adopted s @ fst ae, es @ skips @ snd ae)) v, w3)))))"

definition adoptRemoteFiles ::
  "env \<Rightarrow> 'r adapter \<Rightarrow> hasher \<Rightarrow> timestamp \<Rightarrow> (string \<Rightarrow> string) \<Rightarrow> user_id \<Rightarrow> node_id \<Rightarrow> string \<Rightarrow> string \<Rightarrow>
   (string \<times> file_ref) list \<Rightarrow> 'r world \<Rightarrow> (file_error + (string \<times> string) list \<times> sweep_error list) \<times> 'r world" where
  "adoptRemoteFiles env ad hs now ids user node name nodeRoot refs w =
     adopt_group_each env ad hs now ids user node name (adoptable_refs nodeRoot refs) (adopt_groups nodeRoot refs) w"

section \<open>The sweep\<close>

fun list_all_sections ::
  "'r adapter \<Rightarrow> string \<Rightarrow> string \<Rightarrow> string list \<Rightarrow> 'r \<Rightarrow> (sweep_error + (string \<times> file_ref) list) \<times> 'r" where
  "list_all_sections ad name root [] r = (Inr [], r)"
| "list_all_sections ad name root (s # ss) r =
     (case ad_list ad name (root @ ''/'' @ s) r of
        (v, r1) \<Rightarrow>
          (case list_all_sections ad name root ss r1 of
             (rest, r2) \<Rightarrow>
               ((case v of Inl e \<Rightarrow> Inl (ListFailed (root @ ''/'' @ s) e)
                 | Inr refs \<Rightarrow> map_sum id (\<lambda>more. refs @ more) rest), r2)))"

definition sweep_records :: "node_id \<Rightarrow> string \<Rightarrow> graph_db \<Rightarrow> file_row list" where
  "sweep_records node name db =
     filter (\<lambda>f. fl_node f = node \<and> fl_remote_name f = Some name \<and> fl_remote_path f \<noteq> None) (files_t db)"

definition listed_at :: "(string \<times> file_ref) list \<Rightarrow> file_row \<Rightarrow> file_ref option" where
  "listed_at seen f = (case fl_remote_path f of None \<Rightarrow> None | Some p \<Rightarrow> map_of seen p)"

definition missing_records :: "(string \<times> file_ref) list \<Rightarrow> file_row list \<Rightarrow> file_row list" where
  "missing_records seen fs = filter (\<lambda>f. (fl_hash f \<noteq> None \<or> fl_native f) \<and> listed_at seen f = None) fs"

definition known_paths :: "string \<Rightarrow> string \<Rightarrow> graph_db \<Rightarrow> string list" where
  "known_paths name nodeRoot db =
     concat (map (\<lambda>f. case fl_remote_path f of None \<Rightarrow> []
                      | Some p \<Rightarrow> (if fl_remote_name f = Some name \<and> sql_like CHR 0x5C (like_escape nodeRoot @ ''/%'') p then [p] else []))
              (files_t db))"

definition persist_listed :: "(string \<times> file_ref) list \<Rightarrow> file_row list \<Rightarrow> graph_db \<Rightarrow> graph_db" where
  "persist_listed seen fs db =
     fold (\<lambda>f db. case listed_at seen f of None \<Rightarrow> db | Some ref \<Rightarrow> persistRemoteFileId (fl_id f) (fr_object ref) db) fs db"

definition refresh_candidates :: "(string \<times> file_ref) list \<Rightarrow> file_row list \<Rightarrow> (file_row \<times> file_ref) list" where
  "refresh_candidates seen fs =
     concat (map (\<lambda>f. case listed_at seen f of None \<Rightarrow> []
                      | Some ref \<Rightarrow> (if needsHashRefresh f (fr_hash ref) then [(f, ref)] else [])) fs)"

definition sweep_listed ::
  "env \<Rightarrow> 'r adapter \<Rightarrow> hasher \<Rightarrow> timestamp \<Rightarrow> (string \<Rightarrow> string) \<Rightarrow> user_id \<Rightarrow> node_id \<Rightarrow> string \<Rightarrow> string \<Rightarrow> retry_result \<Rightarrow>
   (string \<times> file_ref) list \<Rightarrow> 'r world \<Rightarrow> (file_error + sweep_result) \<times> 'r world" where
  "sweep_listed env ad hs now ids user node name nodeRoot retry listing w =
     (let seen = fold (\<lambda>x m. AList.update (fst x) (snd x) m) listing [];
          records = sweep_records node name (wd_db w);
          missing = missing_records seen records
      in (case (if missing = [] then (Inr (Some \<lparr>fr_hash = None, fr_native = False, fr_object = None\<rparr>), wd_remote w)
                else ad_stat ad name nodeRoot (wd_remote w)) of
            (Inr (Some _), r) \<Rightarrow>
              (case deleteRemovedRecords ad user node name missing (w\<lparr>wd_remote := r\<rparr>) of
                 ((ds, des), w1) \<Rightarrow>
                   (let w2 = refreshRemoteHashes ad hs name (refresh_candidates seen records)
                               (on_db (persist_listed seen records) w1);
                        known = known_paths name nodeRoot (wd_db w2)
                    in (case adoptRemoteFiles env ad hs now ids user node name nodeRoot
                               (filter (\<lambda>x. fst x \<notin> set known) seen) w2 of
                          (Inl e, w3) \<Rightarrow> (Inl e, w3)
                        | (Inr (adopted, aes), w3) \<Rightarrow>
                            (Inr \<lparr>sw_adopted = adopted, sw_deleted = ds, sw_errors = des @ aes, sw_retry = retry\<rparr>, w3))))
          | (_, r) \<Rightarrow>
              (Inr \<lparr>sw_adopted = [], sw_deleted = [], sw_errors = [RootUnreachable nodeRoot], sw_retry = retry\<rparr>,
               w\<lparr>wd_remote := r\<rparr>)))"

definition remoteSweep ::
  "env \<Rightarrow> 'r adapter \<Rightarrow> hasher \<Rightarrow> timestamp \<Rightarrow> (string \<Rightarrow> string) \<Rightarrow> user_id \<Rightarrow> node_id \<Rightarrow> 'r world \<Rightarrow>
   (file_error + sweep_result) \<times> 'r world" where
  "remoteSweep env ad hs now ids user node w0 =
     (if ev_local_only env then (Inl LocalModeOnly, w0)
      else (case retryPendingFileOps env ad now node w0 of
              (retry, w) \<Rightarrow>
                (case resolveNodeInfo (wd_db w) node of
                   None \<Rightarrow> (Inl (NodeGone node), w)
                 | Some info \<Rightarrow>
                     (case truthy_opt (resolveRemote (ev_local_only env) (wd_routing w) (in_type info) (in_org info)) of
                        None \<Rightarrow> (Inr \<lparr>sw_adopted = [], sw_deleted = [], sw_errors = [], sw_retry = retry\<rparr>, w)
                      | Some name \<Rightarrow>
                          (case ad_open ad name (wd_remote w) of
                             (Inl e, r) \<Rightarrow> (Inl (RemoteFailure e), w\<lparr>wd_remote := r\<rparr>)
                           | (Inr _, r) \<Rightarrow>
                               (case buildNodeRoot info of
                                  Inl e \<Rightarrow> (Inl (PathFailure e), w\<lparr>wd_remote := r\<rparr>)
                                | Inr nodeRoot \<Rightarrow>
                                    (case list_all_sections ad name nodeRoot SECTIONS r of
                                       (Inl e, r1) \<Rightarrow>
                                         (Inr \<lparr>sw_adopted = [], sw_deleted = [], sw_errors = [e], sw_retry = retry\<rparr>, w\<lparr>wd_remote := r1\<rparr>)
                                     | (Inr listing, r1) \<Rightarrow>
                                         sweep_listed env ad hs now ids user node name nodeRoot retry listing (w\<lparr>wd_remote := r1\<rparr>))))))))"

end
