(* ===== verification/SyncRun.thy ===== *)
theory SyncRun
  imports RemoteSweep
begin

text \<open>
  One node's deliberate sync, \<^verbatim>\<open>runNodeSync\<close> of \<^verbatim>\<open>apps/server/domain/sync/sync-run.ts\<close>: the sweep of the remote,
  the scan of the tracked files, the pushes and pulls the scan calls for, the removal of stale
  copies of files deleted elsewhere and the upload of every untracked file.  Every single store or
  pull that fails is reported and leaves the rest to go on.  \<open>ids\<close> draws file ids for local paths,
  \<open>rids\<close> for remote ones; \<open>edits\<close> is what the user does to the device's files while a path uploads.
\<close>

datatype run_error =
    NoLocalPath string
  | PushFailed string file_error
  | PullFailed string file_error
  | AdoptFailed string file_error
  | CleanupFailed deleted_remote string

record run_result =
  rn_pushed :: "string list"
  rn_pulled :: "string list"
  rn_adopted :: "string list"
  rn_sweep :: sweep_result
  rn_conflicts :: "string list"
  rn_deleted_local :: "string list"
  rn_deleted_remote :: "deleted_remote list"
  rn_errors :: "run_error list"
  rn_skipped :: "(string \<times> status_class) list"

type_synonym file_edits = "string \<Rightarrow> (string \<times> local_file) list \<Rightarrow> (string \<times> local_file) list"

definition store_path ::
  "env \<Rightarrow> 'r adapter \<Rightarrow> hasher \<Rightarrow> timestamp \<Rightarrow> (string \<Rightarrow> string) \<Rightarrow> file_edits \<Rightarrow> user_id \<Rightarrow> node_id \<Rightarrow> string \<Rightarrow> 'r world \<Rightarrow>
   (file_error + store_result) \<times> 'r world" where
  "store_path env ad hs now ids edits user node p w =
     storeFile env ad hs now (ids p) (edits p)
       \<lparr>sa_user = user, sa_node = node, sa_local = p, sa_status = None, sa_subpath = None\<rparr> w"

fun push_each ::
  "env \<Rightarrow> 'r adapter \<Rightarrow> hasher \<Rightarrow> timestamp \<Rightarrow> (string \<Rightarrow> string) \<Rightarrow> file_edits \<Rightarrow> user_id \<Rightarrow> status_entry list \<Rightarrow> 'r world \<Rightarrow>
   (string list \<times> run_error list) \<times> 'r world" where
  "push_each env ad hs now ids edits user [] w = (([], []), w)"
| "push_each env ad hs now ids edits user (e # es) w =
     (case truthy_opt (se_local e) of
        None \<Rightarrow>
          (case push_each env ad hs now ids edits user es w of ((ok, bad), w1) \<Rightarrow> ((ok, NoLocalPath (se_file e) # bad), w1))
      | Some p \<Rightarrow>
          (case store_path env ad hs now ids edits user (se_node e) p w of
             (Inl err, w1) \<Rightarrow>
               (case push_each env ad hs now ids edits user es w1 of ((ok, bad), w2) \<Rightarrow> ((ok, PushFailed (se_file e) err # bad), w2))
           | (Inr _, w1) \<Rightarrow>
               (case push_each env ad hs now ids edits user es w1 of ((ok, bad), w2) \<Rightarrow> ((se_file e # ok, bad), w2))))"

fun pull_each ::
  "env \<Rightarrow> 'r adapter \<Rightarrow> hasher \<Rightarrow> timestamp \<Rightarrow> user_id \<Rightarrow> status_entry list \<Rightarrow> 'r world \<Rightarrow>
   (string list \<times> run_error list) \<times> 'r world" where
  "pull_each env ad hs now user [] w = (([], []), w)"
| "pull_each env ad hs now user (e # es) w =
     (case pullFile env ad hs now \<lparr>pa_user = user, pa_file = se_file e, pa_force = False\<rparr> w of
        (Inl err, w1) \<Rightarrow>
          (case pull_each env ad hs now user es w1 of ((ok, bad), w2) \<Rightarrow> ((ok, PullFailed (se_file e) err # bad), w2))
      | (Inr _, w1) \<Rightarrow>
          (case pull_each env ad hs now user es w1 of ((ok, bad), w2) \<Rightarrow> ((se_file e # ok, bad), w2)))"

fun adopt_local_each ::
  "env \<Rightarrow> 'r adapter \<Rightarrow> hasher \<Rightarrow> timestamp \<Rightarrow> (string \<Rightarrow> string) \<Rightarrow> file_edits \<Rightarrow> user_id \<Rightarrow> new_local list \<Rightarrow> 'r world \<Rightarrow>
   (string list \<times> run_error list) \<times> 'r world" where
  "adopt_local_each env ad hs now ids edits user [] w = (([], []), w)"
| "adopt_local_each env ad hs now ids edits user (u # us) w =
     (case store_path env ad hs now ids edits user (nl_node u) (nl_local u) w of
        (Inl err, w1) \<Rightarrow>
          (case adopt_local_each env ad hs now ids edits user us w1 of
             ((ok, bad), w2) \<Rightarrow> ((ok, AdoptFailed (nl_filename u) err # bad), w2))
      | (Inr r, w1) \<Rightarrow>
          (case adopt_local_each env ad hs now ids edits user us w1 of ((ok, bad), w2) \<Rightarrow> ((sr_file r # ok, bad), w2)))"

definition run_scan_args :: "user_id \<Rightarrow> node_id \<Rightarrow> status_args" where
  "run_scan_args user node =
     \<lparr>ss_user = user, ss_node = Some node, ss_remote = None, ss_discovery = False, ss_skip_remote = False\<rparr>"

definition skipped_entries :: "status_result \<Rightarrow> status_entry list" where
  "skipped_entries s = concat (map (\<lambda>c. bucket c s) [Clean, RemoteMissing, RemoteError, Native])"

text \<open>The untracked files after the pushes and pulls: the stale copies go, the others are stored.\<close>

definition run_untracked ::
  "env \<Rightarrow> 'r adapter \<Rightarrow> hasher \<Rightarrow> timestamp \<Rightarrow> (string \<Rightarrow> string) \<Rightarrow> file_edits \<Rightarrow> user_id \<Rightarrow> node_id \<Rightarrow> 'r world \<Rightarrow>
   (string list \<times> deleted_remote list \<times> run_error list) \<times> 'r world" where
  "run_untracked env ad hs now ids edits user node w =
     (case matchDeleteTombstones env hs user (listUntrackedLocal env user node w) w of
        (gone, rest) \<Rightarrow>
          (case cleanupDeletedRemote env gone w of
             ((cleaned, stuck), w1) \<Rightarrow>
               (case adopt_local_each env ad hs now ids edits user rest w1 of
                  ((ok, bad), w2) \<Rightarrow> ((ok, cleaned, map (\<lambda>x. CleanupFailed (fst x) (snd x)) stuck @ bad), w2))))"

definition runNodeSync ::
  "env \<Rightarrow> 'r adapter \<Rightarrow> hasher \<Rightarrow> timestamp \<Rightarrow> (string \<Rightarrow> string) \<Rightarrow> (string \<Rightarrow> string) \<Rightarrow> file_edits \<Rightarrow> user_id \<Rightarrow> node_id \<Rightarrow> 'r world \<Rightarrow>
   (file_error + run_result) \<times> 'r world" where
  "runNodeSync env ad hs now ids rids edits user node w =
     (if ev_local_only env then (Inl LocalModeOnly, w)
      else (case remoteSweep env ad hs now rids user node w of
              (Inl e, w1) \<Rightarrow> (Inl e, w1)
            | (Inr sweep, w1) \<Rightarrow>
                (case statusScan env ad hs (run_scan_args user node) w1 of
                   (Inl e, w2) \<Rightarrow> (Inl e, w2)
                 | (Inr s, w2) \<Rightarrow>
                     (case push_each env ad hs now ids edits user (bucket Push s) w2 of
                        ((pushed, perr), w3) \<Rightarrow>
                          (case pull_each env ad hs now user (bucket Pull s) w3 of
                             ((pulled, gerr), w4) \<Rightarrow>
                               (case run_untracked env ad hs now ids edits user node w4 of
                                  ((adopted, cleaned, uerr), w5) \<Rightarrow>
                                    (Inr \<lparr>rn_pushed = pushed, rn_pulled = pulled, rn_adopted = adopted, rn_sweep = sweep,
                                          rn_conflicts = map se_file (bucket Conflict s),
                                          rn_deleted_local = map se_file (bucket DeletedLocal s),
                                          rn_deleted_remote = cleaned, rn_errors = perr @ gerr @ uerr,
                                          rn_skipped = map (\<lambda>e. (se_file e, se_class e)) (skipped_entries s)\<rparr>, w5)))))))"

end
