(* ===== verification/SyncLaws.thy ===== *)
theory SyncLaws
  imports SyncRun
begin

text \<open>
  What storing, pulling and scanning promise, for every adapter that does what \<open>adapter_ok\<close> says: a pull
  never replaces work that was not synced, a store records the bytes it uploaded and not those that
  arrived meanwhile, and the scan is a three-way merge of the local copy, the last sync and the
  remote object.
\<close>

section \<open>The device's files\<close>

named_theorems local_simps

lemma local_update [local_simps]:
  "local_at (w\<lparr>wd_local := AList.update p f (wd_local w)\<rparr>) q = (if q = p then Some f else local_at w q)"
  "local_at (w\<lparr>wd_local := AList.delete p (wd_local w)\<rparr>) q = (if q = p then None else local_at w q)"
  by (auto simp: local_at_def AList.update_conv' AList.delete_conv')

lemma local_frame [local_simps]:
  "local_at (w\<lparr>wd_remote := r\<rparr>) = local_at w" "local_at (w\<lparr>wd_db := d\<rparr>) = local_at w"
  "local_at (w\<lparr>wd_ino := k\<rparr>) = local_at w" "local_at (w\<lparr>wd_state := s\<rparr>) = local_at w"
  "local_at (on_db h w) = local_at w" "local_at (upsertFileState i st w) = local_at w"
  "local_at (deleteFileState i w) = local_at w"
  by (simp_all add: local_at_def fun_eq_iff on_db_def upsertFileState_def deleteFileState_def)

lemma state_frame [local_simps]:
  "getFileState i (w\<lparr>wd_remote := r\<rparr>) = getFileState i w" "getFileState i (w\<lparr>wd_db := d\<rparr>) = getFileState i w"
  "getFileState i (w\<lparr>wd_local := l\<rparr>) = getFileState i w" "getFileState i (w\<lparr>wd_ino := k\<rparr>) = getFileState i w"
  "getFileState i (on_db h w) = getFileState i w"
  "getFileState i (upsertFileState j st w) = (if i = j then Some st else getFileState i w)"
  "getFileState i (deleteFileState j w) = (if i = j then None else getFileState i w)"
  by (auto simp: getFileState_def on_db_def upsertFileState_def deleteFileState_def AList.update_conv' AList.delete_conv')

lemma write_local_effect:
  assumes "write_local env now p c w = (v, w')"
  shows "wd_db w' = wd_db w \<and> wd_remote w' = wd_remote w \<and> wd_state w' = wd_state w \<and> wd_ops w' = wd_ops w"
    and "q \<noteq> p \<Longrightarrow> local_at w' q = local_at w q"
    and "v = Inl e \<Longrightarrow> w' = w"
    and "v = Inr () \<Longrightarrow> \<exists>f. local_at w' p = Some f \<and> lf_content f = c"
  using assms by (auto simp: write_local_def local_at_def AList.update_conv' split: option.splits)

section \<open>Pull\<close>

text \<open>What a pull did to the file at its local path, when that file was there and is not there unchanged.\<close>

definition replaced_by_pull ::
  "hasher \<Rightarrow> objects \<Rightarrow> pull_args \<Rightarrow> string \<times> string \<Rightarrow> file_error + string \<Rightarrow> 'r world \<Rightarrow> local_file \<Rightarrow> local_file option \<Rightarrow> bool" where
  "replaced_by_pull hs os a k v w f new \<longleftrightarrow>
     (\<exists>g m. new = Some g \<and> v = Inr (hash_as hs m (lf_content g)) \<and> os k = Some (lf_content g) \<and>
        (hash_as hs m (lf_content f) = hash_as hs m (lf_content g) \<or>
         (\<exists>st. getFileState (pa_file a) w = Some st \<and> st_synced st = Some (hash_as hs m (lf_content f)))))"

lemma not_dirty:
  assumes "\<not> dirty_local hs m h file p w" and "local_at w p = Some f"
  shows "hash_as hs m (lf_content f) = h \<or>
         (\<exists>st. getFileState file w = Some st \<and> st_synced st = Some (hash_as hs m (lf_content f)))"
  using assms by (auto simp: dirty_local_def Let_def split: option.splits)

lemma pull_locked_effect:
  assumes ad: "adapter_ok ad objs" and step: "pull_locked env ad hs now a row name path p w = (v, w')" and nf: "\<not> pa_force a"
  shows "objs (wd_remote w') = objs (wd_remote w) \<and>
    (\<forall>q f. local_at w q = Some f \<longrightarrow> local_at w' q = Some f \<or>
       replaced_by_pull hs (objs (wd_remote w)) a (name, path) v w f (local_at w' q))"
proof -
  obtain c r where get: "ad_get ad name path (wd_remote w) = (c, r)" by (cases "ad_get ad name path (wd_remote w)")
  note r = adapter_get [OF ad get]
  define m where "m = (case fl_hash row of None \<Rightarrow> False | Some k \<Rightarrow> is_md5 k)"
  show ?thesis
  proof (cases c)
    case (Inl e)
    then show ?thesis using step r(1) by (auto simp: pull_locked_def get local_simps)
  next
    case (Inr bytes)
    let ?h = "hash_as hs m bytes" and ?w1 = "w\<lparr>wd_remote := r\<rparr>"
    show ?thesis
    proof (cases "dirty_local hs m ?h (pa_file a) p ?w1")
      case True
      then show ?thesis using step nf r(1) Inr by (auto simp: pull_locked_def get local_simps m_def Let_def)
    next
      case False
      obtain u w2 where wr: "write_local env now p bytes ?w1 = (u, w2)" by (cases "write_local env now p bytes ?w1")
      note eff = write_local_effect [OF wr]
      have bytes: "objs (wd_remote w) (name, path) = Some bytes" using r(2) Inr by simp
      have step': "(case (u, w2) of
              (Inl e, w2) \<Rightarrow> (Inl e, w2)
            | (Inr _, w2) \<Rightarrow>
                (case local_at w2 p of
                   None \<Rightarrow> (Inl (enoent p), w2)
                 | Some f \<Rightarrow>
                     (Inr ?h,
                      on_db (\<lambda>db. publishNodeChange (fl_node row) ChangeFiles
                        (insert_audit (pa_user a) ''sync_pull'' ''file'' (pa_file a) (store_detail (Some name) path ?h)
                          (update_file_row (pa_file a) (\<lambda>f. f\<lparr>fl_hash := Some ?h\<rparr>) db)))
                        (upsertFileState (pa_file a) (synced_state now ?h ?h f) w2)))) = (v, w')"
        using step False nf unfolding pull_locked_def get Inr prod.case sum.case Let_def m_def [symmetric] wr
        by simp
      show ?thesis
      proof (cases u)
        case (Inl e)
        then show ?thesis using step' eff(3) r(1) by (auto simp: local_simps)
      next
        case Inr': (Inr x)
        then obtain g where g: "local_at w2 p = Some g" "lf_content g = bytes" using eff(4) by auto
        have out: "v = Inr ?h" "local_at w' = local_at w2" "wd_remote w' = r"
          using step' eff(1) g by (auto simp: Inr' local_simps)
        have "local_at w' q = Some f \<or> replaced_by_pull hs (objs (wd_remote w)) a (name, path) v w f (local_at w' q)"
          if f: "local_at w q = Some f" for q f
        proof (cases "q = p")
          case True
          have "hash_as hs m (lf_content f) = ?h \<or>
              (\<exists>st. getFileState (pa_file a) w = Some st \<and> st_synced st = Some (hash_as hs m (lf_content f)))"
            using not_dirty [OF False, of f] f True by (simp add: local_simps)
          then show ?thesis using g bytes True unfolding replaced_by_pull_def out by blast
        next
          case False
          then show ?thesis using eff(2) f by (simp add: out local_simps)
        qed
        then show ?thesis using r(1) out by simp
      qed
    qed
  qed
qed

lemma pullFile_effect:
  assumes ad: "adapter_ok ad objs" and step: "pullFile env ad hs now a w = (v, w')" and nf: "\<not> pa_force a"
  shows "objs (wd_remote w') = objs (wd_remote w) \<and>
    (\<forall>q f. local_at w q = Some f \<longrightarrow> local_at w' q = Some f \<or>
       (\<exists>row name path. file_by_id (wd_db w) (pa_file a) = Some row \<and> fl_remote_name row = Some name \<and>
          fl_remote_path row = Some path \<and>
          replaced_by_pull hs (objs (wd_remote w)) a (name, path) v w f (local_at w' q)))"
proof -
  consider "wd_remote w' = wd_remote w \<and> local_at w' = local_at w"
    | r where "wd_remote w' = r" "local_at w' = local_at w" "objs r = objs (wd_remote w)"
    | row name path p r where "file_by_id (wd_db w) (pa_file a) = Some row" "fl_remote_name row = Some name"
        "fl_remote_path row = Some path" "objs r = objs (wd_remote w)"
        "pull_locked env ad hs now a row name path p (w\<lparr>wd_remote := r\<rparr>) = (v, w')"
    using step
    by (auto simp: pullFile_def truthy_opt_def local_simps split: if_splits option.splits sum.splits list.splits prod.splits
        dest: adapter_open [OF ad])
  then show ?thesis
  proof cases
    case (3 row name path p r)
    have "replaced_by_pull hs (objs r) a (name, path) v (w\<lparr>wd_remote := r\<rparr>) f new =
        replaced_by_pull hs (objs (wd_remote w)) a (name, path) v w f new" for f new
      by (simp add: replaced_by_pull_def 3 local_simps)
    then show ?thesis using pull_locked_effect [OF ad 3(5) nf] 3 by (fastforce simp: local_simps)
  qed simp_all
qed

section \<open>Store\<close>

text \<open>Hashes are lower-case and of the length the code tells the algorithms apart by.\<close>

definition hasher_ok :: "hasher \<Rightarrow> bool" where
  "hasher_ok hs \<longleftrightarrow>
     (\<forall>c. js_lower (hs_md5 hs c) = hs_md5 hs c \<and> length (hs_md5 hs c) = 32 \<and>
          js_lower (hs_sha hs c) = hs_sha hs c \<and> length (hs_sha hs c) = 64)"

lemma hash_as_length: "hasher_ok hs \<Longrightarrow> is_md5 (hash_as hs m c) = m"
  by (simp add: hasher_ok_def is_md5_def hash_as_def)

lemma verified_hash:
  assumes "hasher_ok hs" and "js_lower h = js_lower (hash_as hs (is_md5 h) c)"
  shows "js_lower h = hash_as hs (is_md5 (js_lower h)) c"
proof -
  have "js_lower (hash_as hs m c) = hash_as hs m c" for m using assms(1) by (simp add: hasher_ok_def hash_as_def)
  moreover have "is_md5 (js_lower h) = is_md5 h" by (simp add: is_md5_def js_lower_def)
  ultimately show ?thesis using assms(2) by simp
qed

lemma push_bytes_effect:
  assumes ad: "adapter_ok ad objs" and step: "push_bytes ad hs name path c r = (v, r')"
  shows "k \<noteq> (name, path) \<Longrightarrow> objs r' k = objs r k"
    and "hasher_ok hs \<Longrightarrow> v = Inr (h, obj) \<Longrightarrow> objs r' (name, path) = Some c \<and> h = hash_as hs (is_md5 h) c"
proof -
  obtain o1 r1 where op: "ad_open ad name r = (o1, r1)" by (cases "ad_open ad name r")
  obtain o2 r2 where pu: "ad_put ad name path c r1 = (o2, r2)" by (cases "ad_put ad name path c r1")
  obtain o3 r3 where st: "ad_stat ad name path r2 = (o3, r3)" by (cases "ad_stat ad name path r2")
  note l = adapter_open [OF ad op] adapter_put [OF ad pu] adapter_stat [OF ad st]
  show "objs r' k = objs r k" if k: "k \<noteq> (name, path)"
    using step l(1) l(2) [OF k] l(4) by (auto simp: push_bytes_def op pu st Let_def split: sum.splits option.splits if_splits)
  show "objs r' (name, path) = Some c \<and> h = hash_as hs (is_md5 h) c" if ok: "hasher_ok hs" and v: "v = Inr (h, obj)"
  proof -
    have "\<exists>i. o2 = Inr i" "r' = r3" using step v
      by (auto simp: push_bytes_def op pu st Let_def split: sum.splits option.splits if_splits)
    then have o: "objs r' (name, path) = Some c" using l(3,4) by auto
    define rep where "rep = (case o3 of Inr (Some st) \<Rightarrow> truthy_opt (fr_hash st) | _ \<Rightarrow> None)"
    show ?thesis
    proof (cases rep)
      case None
      then have "h = hash_as hs False c" using step v
        by (auto simp: push_bytes_def op pu st hash_as_def rep_def [symmetric] split: sum.splits)
      then show ?thesis using o hash_as_length [OF ok, of False c] by simp
    next
      case (Some x)
      then have "js_lower x = js_lower (hash_as hs (is_md5 x) c)" "h = js_lower x" using step v
        by (auto simp: push_bytes_def op pu st Let_def rep_def [symmetric] split: sum.splits if_splits)
      then show ?thesis using o verified_hash [OF ok, of x c] by simp
    qed
  qed
qed

text \<open>An edit that changes the bytes of a file changes what \<open>stat\<close> says of it.\<close>

definition visible_edits :: "((string \<times> local_file) list \<Rightarrow> (string \<times> local_file) list) \<Rightarrow> bool" where
  "visible_edits edits \<longleftrightarrow>
     (\<forall>l p f g. map_of l p = Some f \<longrightarrow> map_of (edits l) p = Some g \<longrightarrow> lf_content g \<noteq> lf_content f \<longrightarrow>
        lf_mtime g \<noteq> lf_mtime f \<or> length (lf_content g) \<noteq> length (lf_content f) \<or> lf_ino g \<noteq> lf_ino f)"

lemma row_at_upsert:
  assumes "upsert_row new upd node path db = (i, db')" and "fl_node new = node" "fl_remote_path new = Some path"
    and "\<And>f. fl_id (upd f) = fl_id f \<and> fl_node (upd f) = fl_node f \<and> fl_remote_path (upd f) = fl_remote_path f"
  shows "\<exists>f. row_at node path db' = Some f \<and> fl_id f = i \<and> (f = new \<or> (\<exists>f0. f = upd f0))"
proof (cases "row_at node path db")
  case None
  then show ?thesis using assms(1-3) by (auto simp: upsert_row_def row_at_def find_append_list)
next
  case (Some f)
  have "find (\<lambda>r. fl_node r = node \<and> fl_remote_path r = Some path) (map (\<lambda>r. if fl_id r = j then upd r else r) xs) =
      map_option (\<lambda>r. if fl_id r = j then upd r else r) (find (\<lambda>r. fl_node r = node \<and> fl_remote_path r = Some path) xs)" for j xs
    by (rule find_map_key) (simp add: assms(4))
  then show ?thesis
    using assms(1) Some assms(4) by (auto simp: upsert_row_def row_at_def update_file_row_def)
qed

text \<open>What a store that went through leaves: the object, the record, the baseline and the cache entry.\<close>

definition stored ::
  "hasher \<Rightarrow> objects \<Rightarrow> node_id \<Rightarrow> string \<Rightarrow> string \<Rightarrow> string \<Rightarrow> string \<Rightarrow> string \<Rightarrow> local_file \<Rightarrow> 'r world \<Rightarrow> bool" where
  "stored hs os node name path dst i h f w \<longleftrightarrow>
     (\<exists>g row st. os (name, path) = Some (lf_content f) \<and> h = hash_as hs (is_md5 h) (lf_content f) \<and>
        row_at node path (wd_db w) = Some row \<and> fl_id row = i \<and> fl_hash row = Some h \<and> fl_remote_name row = Some name \<and>
        local_at w dst = Some g \<and> getFileState i w = Some st \<and> st_synced st = Some h \<and>
        st = with_cache (Some (hash_as hs (is_md5 h) (lf_content g))) g (Some st))"

lemma store_locked_effect:
  assumes ad: "adapter_ok ad objs" and ok: "hasher_ok hs" and ed: "visible_edits edits"
    and step: "store_locked ad hs now newId edits a filename name path dst w = (Inr (i, h), w')"
  shows "\<exists>f. local_at w dst = Some f \<and> stored hs (objs (wd_remote w')) (sa_node a) name path dst i h f w'"
proof -
  obtain f where f: "local_at w dst = Some f" using step by (auto simp: store_locked_def split: option.splits)
  obtain v r where pb: "push_bytes ad hs name path (lf_content f) (wd_remote w) = (v, r)"
    by (cases "push_bytes ad hs name path (lf_content f) (wd_remote w)")
  obtain obj where v: "v = Inr (h, obj)" and r: "wd_remote w' = r"
    using step by (auto simp: store_locked_def f pb Let_def split: option.splits sum.splits prod.splits)
  note up = push_bytes_effect(2) [OF ad pb ok v]
  obtain j db where ups: "upsert_row (stored_row a now newId filename name path obj h) (restored_row a now filename name obj h)
      (sa_node a) path (wd_db w) = (j, db)" by fastforce
  have row: "\<exists>row. row_at (sa_node a) path db = Some row \<and> fl_id row = j \<and> fl_hash row = Some h \<and> fl_remote_name row = Some name"
    using row_at_upsert [OF ups] by (auto simp: stored_row_def restored_row_def)
  have f': "map_of (wd_local w) dst = Some f" using f by (simp add: local_at_def)
  obtain g where g: "map_of (edits (wd_local w)) dst = Some g"
    using step by (auto simp: store_locked_def f' pb v ups Let_def local_at_def split: option.splits)
  define cached where "cached = (if lf_mtime g \<noteq> lf_mtime f \<or> length (lf_content g) \<noteq> length (lf_content f) \<or> lf_ino g \<noteq> lf_ino f
     then hash_as hs (is_md5 h) (lf_content g) else h)"
  have same: "lf_content g = lf_content f"
    if "\<not> (lf_mtime g \<noteq> lf_mtime f \<or> length (lf_content g) \<noteq> length (lf_content f) \<or> lf_ino g \<noteq> lf_ino f)"
    using ed f g that unfolding visible_edits_def local_at_def by blast
  have c: "cached = hash_as hs (is_md5 h) (lf_content g)"
    unfolding cached_def using same up by auto
  have out: "i = j" "getFileState i w' = Some (synced_state now h cached g)" "local_at w' dst = Some g"
    "row_at (sa_node a) path (wd_db w') = row_at (sa_node a) path db"
    using step by (auto simp: store_locked_def f' pb v ups Let_def local_at_def g local_simps row_at_def cached_def)
  show ?thesis
    unfolding stored_def using f up row out r
    by (auto simp: c synced_state_def with_cache_def)
qed

section \<open>The cached hash\<close>

lemma stored_hash:
  assumes "hasher_ok hs" and "stored hs os node name path dst i h f w"
  shows "\<exists>g. local_at w dst = Some g \<and>
     fst (localHashFor hs dst i ref (getFileState i w) w) = Some (hash_as hs (is_md5 h) (lf_content g)) \<and>
     (h = hash_as hs (is_md5 h) (lf_content f))"
proof -
  obtain g st where g: "local_at w dst = Some g" "getFileState i w = Some st" "h = hash_as hs (is_md5 h) (lf_content f)"
    "st = with_cache (Some (hash_as hs (is_md5 h) (lf_content g))) g (Some st)"
    using assms(2) by (auto simp: stored_def)
  have st: "st_mtime st = Some (lf_mtime g)" "st_size st = Some (length (lf_content g))"
    "st_cached st = Some (hash_as hs (is_md5 h) (lf_content g))"
    by (subst g(4), simp add: with_cache_def)+
  have "hash_as hs (is_md5 h) (lf_content g) \<noteq> []"
    using assms(1) by (auto simp: hasher_ok_def hash_as_def dest: spec [of _ "lf_content g"])
  then have "truthy_opt (st_cached st) = Some (hash_as hs (is_md5 h) (lf_content g))"
    by (cases "hash_as hs (is_md5 h) (lf_content g)") (simp_all add: st truthy_opt_def)
  then show ?thesis using g(1-3) st by (simp add: localHashFor_def cached_hash_def)
qed

text \<open>The hash of a local copy comes out in the given algorithm, from the cache or by that choice.\<close>

definition hash_settled :: "hasher \<Rightarrow> bool \<Rightarrow> string option \<Rightarrow> file_state option \<Rightarrow> local_file \<Rightarrow> bool" where
  "hash_settled hs m ref cached f \<longleftrightarrow>
     (case cached_hash cached f of Some h \<Rightarrow> h = hash_as hs m (lf_content f) | None \<Rightarrow> hash_algo ref cached = m)"

lemma localHashFor_settled:
  assumes "localHashFor hs p i ref cached w = (h, w')" and "\<And>f. local_at w p = Some f \<Longrightarrow> hash_settled hs m ref cached f"
  shows "h = map_option (\<lambda>f. hash_as hs m (lf_content f)) (local_at w p)"
  using assms by (auto simp: localHashFor_def hash_settled_def Let_def split: option.splits)

lemma localHashFor_frame:
  assumes "localHashFor hs p i ref cached w = (h, w')"
  shows "wd_db w' = wd_db w \<and> wd_remote w' = wd_remote w \<and> wd_local w' = wd_local w \<and> wd_ops w' = wd_ops w \<and>
         wd_routing w' = wd_routing w"
  using assms by (auto simp: localHashFor_def Let_def upsertFileState_def split: option.splits)

section \<open>The baseline\<close>

definition baseline :: "'r world \<Rightarrow> string \<Rightarrow> string option" where
  "baseline w i = (case getFileState i w of None \<Rightarrow> None | Some st \<Rightarrow> st_synced st)"

lemma baseline_frame [local_simps]:
  "baseline (w\<lparr>wd_remote := r\<rparr>) = baseline w" "baseline (w\<lparr>wd_db := d\<rparr>) = baseline w"
  "baseline (w\<lparr>wd_local := l\<rparr>) = baseline w" "baseline (w\<lparr>wd_ino := k\<rparr>) = baseline w" "baseline (on_db h w) = baseline w"
  by (simp_all add: baseline_def fun_eq_iff local_simps)

lemma baseline_upsert [local_simps]:
  "baseline (upsertFileState i st w) = (baseline w)(i := st_synced st)"
  "baseline (deleteFileState i w) = (baseline w)(i := None)"
  by (auto simp: baseline_def fun_eq_iff local_simps)

lemma with_cache_synced: "st_synced (with_cache h f (getFileState i w)) = baseline w i"
  by (simp add: with_cache_def baseline_def)

lemma localHashFor_baseline:
  assumes "localHashFor hs p i ref (getFileState i w0) w = (h, w')" and "baseline w i = baseline w0 i"
  shows "baseline w' = baseline w"
  using assms
  by (auto simp: localHashFor_def Let_def fun_eq_iff baseline_upsert with_cache_synced split: option.splits)

section \<open>The scan reads only\<close>

definition same_files :: "('r \<Rightarrow> objects) \<Rightarrow> 'r world \<Rightarrow> 'r world \<Rightarrow> bool" where
  "same_files objs w w' \<longleftrightarrow>
     wd_db w' = wd_db w \<and> wd_routing w' = wd_routing w \<and> wd_ops w' = wd_ops w \<and> wd_local w' = wd_local w \<and>
     objs (wd_remote w') = objs (wd_remote w) \<and> baseline w' = baseline w"

lemma same_files_refl: "same_files objs w w" by (simp add: same_files_def)
lemma same_files_trans: "same_files objs w u \<Longrightarrow> same_files objs u v \<Longrightarrow> same_files objs w v" by (simp add: same_files_def)

lemma same_files_remote: "objs r = objs (wd_remote w) \<Longrightarrow> same_files objs w (w\<lparr>wd_remote := r\<rparr>)"
  by (simp add: same_files_def local_simps)

lemma remoteStatFor_reads:
  assumes "adapter_ok ad objs" and "remoteStatFor ad name path listed r = (v, r')"
  shows "objs r' = objs r"
  using assms(2)
  by (auto simp: remoteStatFor_def split: option.splits prod.splits sum.splits
      dest!: adapter_open [OF assms(1)] adapter_stat(1) [OF assms(1)])

lemma row_local_hash_reads:
  assumes "row_local_hash hs (\<lambda>i. getFileState i w0) f localPath w = (lh, w1)" and "baseline w = baseline w0"
  shows "same_files objs w w1"
  using assms localHashFor_frame [where hs = hs and w = w] localHashFor_baseline [where hs = hs and w = w and ?w0.0 = w0]
  by (cases localPath) (auto simp: row_local_hash_def same_files_def)

lemma row_verdict_reads:
  assumes ad: "adapter_ok ad objs" and "row_verdict env ad listings f path localPath b lh w = (e, w')"
  shows "same_files objs w w'"
  using assms(2)
  by (auto simp: row_verdict_def split: if_splits option.splits prod.splits
      intro!: same_files_refl same_files_remote remoteStatFor_reads [OF ad])

lemma scanRow_reads:
  assumes ad: "adapter_ok ad objs" and step: "scanRow env ad hs user (\<lambda>i. getFileState i w0) listings f w = (e, w')"
    and base: "baseline w = baseline w0"
  shows "same_files objs w w'"
  using step row_verdict_reads [OF ad] row_local_hash_reads [OF _ base] same_files_trans
  unfolding scanRow_def Let_def
  by (auto split: option.splits if_splits prod.splits intro: same_files_refl) blast+

lemma scan_each_reads:
  assumes ad: "adapter_ok ad objs"
  shows "scan_each env ad hs user (\<lambda>i. getFileState i w0) listings fs w = (es, w') \<Longrightarrow> baseline w = baseline w0 \<Longrightarrow>
    same_files objs w w'"
proof (induction fs arbitrary: w es)
  case (Cons f fs)
  obtain e w1 where row: "scanRow env ad hs user (\<lambda>i. getFileState i w0) listings f w = (e, w1)" by fastforce
  obtain es' where rest: "scan_each env ad hs user (\<lambda>i. getFileState i w0) listings fs w1 = (es', w')"
    using Cons.prems(1) row by (auto split: prod.splits)
  note r = scanRow_reads [OF ad row Cons.prems(2)]
  show ?case using same_files_trans [OF r Cons.IH [OF rest]] r Cons.prems(2) by (simp add: same_files_def)
qed (simp add: same_files_refl)

section \<open>The scan as a three-way merge\<close>

text \<open>The hashes the remote reports, in stats and in listings, are those of its objects in one algorithm.\<close>

definition reports :: "'r adapter \<Rightarrow> ('r \<Rightarrow> objects) \<Rightarrow> (string \<Rightarrow> string) \<Rightarrow> bool" where
  "reports ad objs H \<longleftrightarrow>
     (\<forall>n p r st. fst (ad_stat ad n p r) = Inr (Some st) \<longrightarrow> fr_hash st = map_option H (objs r (n, p))) \<and>
     (\<forall>n q r refs. fst (ad_list ad n q r) = Inr refs \<longrightarrow> (\<forall>x \<in> set refs. fr_hash (snd x) = map_option H (objs r (n, fst x))))"

lemma reports_stat: "reports ad objs H \<Longrightarrow> ad_stat ad n p r = (Inr (Some st), r') \<Longrightarrow> fr_hash st = map_option H (objs r (n, p))"
  unfolding reports_def by (metis fst_conv)

lemma reports_list:
  "reports ad objs H \<Longrightarrow> ad_list ad n q r = (Inr refs, r') \<Longrightarrow> x \<in> set refs \<Longrightarrow> fr_hash (snd x) = map_option H (objs r (n, fst x))"
  unfolding reports_def by (metis fst_conv)

text \<open>A listing is true of a state of the remote.\<close>

definition listing_true :: "(string \<Rightarrow> string) \<Rightarrow> objects \<Rightarrow> string \<Rightarrow> (string \<times> file_ref) list \<Rightarrow> bool" where
  "listing_true H os name refs \<longleftrightarrow>
     (\<forall>x \<in> set refs. os (name, fst x) \<noteq> None \<and> fr_hash (snd x) = map_option H (os (name, fst x)))"

lemma listing_true_simps [simp]:
  "listing_true H os name []"
  "listing_true H os name (xs @ ys) \<longleftrightarrow> listing_true H os name xs \<and> listing_true H os name ys"
  by (auto simp: listing_true_def)

lemma list_sections_true:
  assumes ad: "adapter_ok ad objs" and rep: "reports ad objs H"
  shows "list_sections ad name root ss r = (refs, r') \<Longrightarrow> listing_true H (objs r) name refs \<and> objs r' = objs r"
proof (induction ss arbitrary: r refs r')
  case (Cons s ss)
  obtain v r1 where l: "ad_list ad name (root @ ''/'' @ s) r = (v, r1)" by fastforce
  obtain more r2 where rest: "list_sections ad name root ss r1 = (more, r2)" by fastforce
  note h = adapter_list [OF ad l]
  have IH: "listing_true H (objs r) name more" "objs r2 = objs r" using Cons.IH [OF rest] h(1) by auto
  have mine: "listing_true H (objs r) name l" if "v = Inr l" for l
    unfolding listing_true_def using h(2) [OF that] reports_list [OF rep l [unfolded that]] by blast
  show ?case using Cons.prems l rest IH mine by (auto split: sum.splits)
qed simp

lemma list_sections_reads:
  assumes ad: "adapter_ok ad objs"
  shows "list_sections ad name root ss r = (refs, r') \<Longrightarrow> objs r' = objs r"
  by (induction ss arbitrary: r refs r') (auto split: prod.splits dest!: adapter_list(1) [OF ad])

lemma list_pairs_reads:
  assumes ad: "adapter_ok ad objs"
  shows "list_pairs ad db ks r = (out, r') \<Longrightarrow> objs r' = objs r"
proof (induction ks arbitrary: r out r')
  case (Cons k ks)
  then show ?case
    by (auto split: prod.splits sum.splits option.splits dest!: adapter_open [OF ad] list_sections_reads [OF ad])
qed simp

lemma list_pairs_true:
  assumes ad: "adapter_ok ad objs" and rep: "reports ad objs H"
  shows "list_pairs ad db ks r = (out, r') \<Longrightarrow>
    objs r' = objs r \<and> (\<forall>kr \<in> set out. listing_true H (objs r) (fst (fst kr)) (snd kr))"
proof (induction ks arbitrary: r out r')
  case (Cons k ks)
  obtain v r1 where op: "ad_open ad (fst k) r = (v, r1)" by fastforce
  note o = adapter_open [OF ad op]
  define root where "root = (case resolveNodeInfo db (snd k) of None \<Rightarrow> None
                 | Some info \<Rightarrow> (case buildNodeRoot info of Inl _ \<Rightarrow> None | Inr root \<Rightarrow> Some root))"
  have skip: ?case if "list_pairs ad db ks r1 = (out, r')" using Cons.IH [OF that] o by simp
  show ?case
  proof (cases v)
    case (Inl e)
    then show ?thesis using Cons.prems op skip by simp
  next
    case (Inr u)
    show ?thesis
    proof (cases root)
      case None
      then show ?thesis using Cons.prems op skip Inr by (simp add: root_def)
    next
      case (Some rt)
      obtain refs r2 where sec: "list_sections ad (fst k) rt SECTIONS r1 = (refs, r2)" by fastforce
      obtain more r3 where rest: "list_pairs ad db ks r2 = (more, r3)" by fastforce
      have out: "out = (k, refs) # more" "r' = r3"
        using Cons.prems op Inr Some sec rest by (simp_all add: root_def)
      show ?thesis
        using Cons.IH [OF rest] list_sections_true [OF ad rep sec] o by (auto simp: out)
    qed
  qed
qed simp

lemma remoteStatFor_true:
  assumes ad: "adapter_ok ad objs" and rep: "reports ad objs H" and l: "listing_true H (objs r) name listed"
    and step: "remoteStatFor ad name path listed r = (Some rs, r')"
  shows "rs = (map_option H (objs r (name, path)), objs r (name, path) \<noteq> None)"
proof (cases "map_of (rev listed) path")
  case (Some ref)
  then have "(path, ref) \<in> set listed" by (auto dest: map_of_SomeD)
  then show ?thesis using l step Some by (force simp: remoteStatFor_def listing_true_def)
next
  case None
  obtain v r1 where op: "ad_open ad name r = (v, r1)" by fastforce
  obtain u r2 where st: "ad_stat ad name path r1 = (u, r2)" by fastforce
  note o = adapter_open [OF ad op] and h = adapter_stat [OF ad st]
  show ?thesis
    using step None h(2) o reports_stat [OF rep] st
    by (auto simp: remoteStatFor_def op split: sum.splits option.splits)
qed

definition merge_class :: "string option \<Rightarrow> string option \<Rightarrow> string option \<Rightarrow> status_class" where
  "merge_class L B R =
     (case R of
        None \<Rightarrow> (if L \<noteq> None \<and> B = None then Push else RemoteMissing)
      | Some r \<Rightarrow>
          (case L of
             None \<Rightarrow> (if B = None then Pull else DeletedLocal)
           | Some l \<Rightarrow>
               (case B of
                  None \<Rightarrow> (if l = r then Clean else Conflict)
                | Some b \<Rightarrow>
                    (if l = b then (if r = b then Clean else Pull) else (if r = b then Push else Conflict)))))"

lemma compare_hashes_merges:
  assumes "inj_on H (set_option L \<union> set_option B \<union> set_option R)" and "\<And>c. H c \<noteq> []"
  shows "compare_hashes (map_option H L) (map_option H B) (map_option H R, R \<noteq> None) = merge_class L B R"
proof -
  have eq: "x \<in> set_option L \<union> set_option B \<union> set_option R \<Longrightarrow> y \<in> set_option L \<union> set_option B \<union> set_option R \<Longrightarrow>
      H x = H y \<longleftrightarrow> x = y" for x y
    using assms(1) by (auto dest: inj_onD)
  have ne: "truthy_opt (Some (H c)) = Some (H c)" for c
    using assms(2) [of c] by (cases "H c") (simp_all add: truthy_opt_def)
  show ?thesis
    using eq by (cases L; cases B; cases R) (auto simp: compare_hashes_def merge_class_def Let_def ne truthy_opt_def [of None])
qed

text \<open>
  A tracked row with a path on this device: it is bound to a remote, its baseline is the hash of some
  content, or absent, and its cache entry and its algorithm are those of the remote's hashes.
\<close>

definition scannable ::
  "env \<Rightarrow> hasher \<Rightarrow> bool \<Rightarrow> user_id \<Rightarrow> 'r world \<Rightarrow> file_row \<Rightarrow> string \<Rightarrow> string \<Rightarrow> string \<Rightarrow> string option \<Rightarrow> bool" where
  "scannable env hs m user w f name path p B \<longleftrightarrow>
     \<not> ev_local_only env \<and> \<not> fl_native f \<and> fl_remote_name f = Some name \<and> name \<noteq> [] \<and>
     fl_remote_path f = Some path \<and> path \<noteq> [] \<and>
     (\<exists>info. resolveNodeInfo (wd_db w) (fl_node f) = Some info \<and> row_local_path env user info f = Some p) \<and>
     baseline w (fl_id f) = map_option (hash_as hs m) B \<and>
     (\<forall>c. local_at w p = Some c \<longrightarrow> hash_settled hs m (fl_hash f) (getFileState (fl_id f) w) c)"

lemma truthy_nonempty: "s \<noteq> [] \<Longrightarrow> truthy_opt (Some s) = Some s"
  by (cases s) (simp_all add: truthy_opt_def)

lemma row_base_baseline: "row_base (\<lambda>i. getFileState i w) f = baseline w (fl_id f)"
  by (simp add: row_base_def baseline_def)

lemma scanRow_merges:
  assumes ad: "adapter_ok ad objs" and rep: "reports ad objs (hash_as hs m)" and ok: "hasher_ok hs"
    and sc: "scannable env hs m user w0 f name path p B" and same: "same_files objs w0 w"
    and lt: "listing_true (hash_as hs m) (objs (wd_remote w0)) name (listings (name, fl_node f))"
    and step: "scanRow env ad hs user (\<lambda>i. getFileState i w0) listings f w = (e, w')"
    and inj: "inj_on (hash_as hs m) (set_option (map_option lf_content (local_at w0 p)) \<union> set_option B \<union>
                set_option (objs (wd_remote w0) (name, path)))"
  shows "se_file e = fl_id f \<and>
    (se_class e = RemoteError \<or>
     se_class e = merge_class (map_option lf_content (local_at w0 p)) B (objs (wd_remote w0) (name, path)))"
proof -
  obtain info where info: "resolveNodeInfo (wd_db w) (fl_node f) = Some info" "row_local_path env user info f = Some p"
    using sc same by (auto simp: scannable_def same_files_def)
  have here: "local_at w = local_at w0" using same by (simp add: same_files_def local_at_def fun_eq_iff)
  obtain lh w1 where hash: "localHashFor hs p (fl_id f) (fl_hash f) (getFileState (fl_id f) w0) w = (lh, w1)" by fastforce
  have lh: "lh = map_option (hash_as hs m) (map_option lf_content (local_at w0 p))"
    using localHashFor_settled [OF hash, of m] sc by (simp add: here scannable_def option.map_comp comp_def)
  have w1: "objs (wd_remote w1) = objs (wd_remote w0)" using localHashFor_frame [OF hash] same by (simp add: same_files_def)
  obtain v r where st: "remoteStatFor ad name path (listings (name, fl_node f)) (wd_remote w1) = (v, r)" by fastforce
  have v: "rs = (map_option (hash_as hs m) (objs (wd_remote w0) (name, path)), objs (wd_remote w0) (name, path) \<noteq> None)"
    if "v = Some rs" for rs
    using remoteStatFor_true [OF ad rep _ st [unfolded that]] lt by (simp add: w1)
  have e: "e = (case v of None \<Rightarrow> entry_of f (Some p) lh None (baseline w0 (fl_id f)) RemoteError
     | Some rs \<Rightarrow> entry_of f (Some p) lh (fst rs) (baseline w0 (fl_id f)) (compare_hashes lh (baseline w0 (fl_id f)) rs))"
    using step sc info hash st
    by (auto simp: scanRow_def row_verdict_def row_local_hash_def row_base_baseline scannable_def truthy_nonempty split: option.splits)
  have ne: "hash_as hs m c \<noteq> []" for c
    using ok by (auto simp: hasher_ok_def hash_as_def dest: spec [of _ c])
  have b: "baseline w0 (fl_id f) = map_option (hash_as hs m) B" using sc by (simp add: scannable_def)
  show ?thesis
    using compare_hashes_merges [OF inj ne] v
    by (cases v) (simp_all add: e entry_of_def lh b)
qed

lemma scan_each_rows:
  assumes ad: "adapter_ok ad objs"
  shows "scan_each env ad hs user (\<lambda>i. getFileState i w0) listings fs w = (es, w') \<Longrightarrow> same_files objs w0 w \<Longrightarrow>
    list_all2 (\<lambda>f e. \<exists>u u'. same_files objs w0 u \<and> scanRow env ad hs user (\<lambda>i. getFileState i w0) listings f u = (e, u')) fs es"
proof (induction fs arbitrary: w es)
  case (Cons f fs)
  obtain e w1 where row: "scanRow env ad hs user (\<lambda>i. getFileState i w0) listings f w = (e, w1)" by fastforce
  obtain es' where rest: "scan_each env ad hs user (\<lambda>i. getFileState i w0) listings fs w1 = (es', w')" and es: "es = e # es'"
    using Cons.prems(1) row by (auto split: prod.splits)
  have "baseline w = baseline w0" using Cons.prems(2) by (simp add: same_files_def)
  then have "same_files objs w0 w1" using scanRow_reads [OF ad row] Cons.prems(2) same_files_trans by blast
  from Cons.IH [OF rest this] show ?case using Cons.prems(2) row by (auto simp: es)
qed simp

lemma list_all2_partner: "list_all2 P xs ys \<Longrightarrow> x \<in> set xs \<Longrightarrow> \<exists>y \<in> set ys. P x y"
  by (induction rule: list_all2_induct) auto

lemma list_all2_origin: "list_all2 P xs ys \<Longrightarrow> y \<in> set ys \<Longrightarrow> \<exists>x \<in> set xs. P x y"
  by (induction rule: list_all2_induct) auto

text \<open>A scan of the tracked rows: one entry per row, each judged in a world with the files, objects and baselines of the start.\<close>

lemma scan_tracked_rows:
  assumes ad: "adapter_ok ad objs" and step: "scan_tracked env ad hs a w = (es, w')"
  shows "\<exists>listings. list_all2 (\<lambda>f e. \<exists>u u'. same_files objs w u \<and>
      scanRow env ad hs (ss_user a) (\<lambda>i. getFileState i w) listings f u = (e, u')) (scan_rows a (wd_db w)) es \<and>
    (\<forall>H. reports ad objs H \<longrightarrow> (\<forall>k. listing_true H (objs (wd_remote w)) (fst k) (listings k))) \<and> same_files objs w w'"
proof -
  define lr where "lr = (if ev_local_only env then ([], wd_remote w)
     else list_pairs ad (wd_db w) (scan_pairs (wd_db w) (scan_rows a (wd_db w))) (wd_remote w))"
  define listings where "listings = (\<lambda>k. case map_of (fst lr) k of None \<Rightarrow> [] | Some refs \<Rightarrow> refs)"
  have run: "scan_each env ad hs (ss_user a) (\<lambda>i. getFileState i w) listings (scan_rows a (wd_db w)) (w\<lparr>wd_remote := snd lr\<rparr>) = (es, w')"
    using step by (simp add: scan_tracked_def Let_def lr_def listings_def)
  have "objs (snd lr) = objs (wd_remote w)"
    using list_pairs_reads [OF ad] by (cases lr) (auto simp: lr_def split: if_splits)
  then have same: "same_files objs w (w\<lparr>wd_remote := snd lr\<rparr>)" by (rule same_files_remote)
  have true: "listing_true H (objs (wd_remote w)) (fst k) (listings k)" if "reports ad objs H" for H k
  proof (cases "map_of (fst lr) k")
    case (Some refs)
    then have "(k, refs) \<in> set (fst lr)" by (rule map_of_SomeD)
    moreover have "\<forall>kr \<in> set (fst lr). listing_true H (objs (wd_remote w)) (fst (fst kr)) (snd kr)"
      using list_pairs_true [OF ad that] by (cases lr) (auto simp: lr_def split: if_splits)
    ultimately show ?thesis using Some by (auto simp: listings_def)
  qed (simp add: listings_def)
  show ?thesis
    using scan_each_rows [OF ad run same] true same_files_trans [OF same scan_each_reads [OF ad run]]
    by (intro exI [of _ listings]) (simp add: local_simps)
qed

end
