(* ===== verification/Reconcile.thy ===== *)
theory Reconcile
  imports SyncDiscovery
begin

text \<open>
  Bringing the records in line with one path of the disk, \<^verbatim>\<open>apps/server/domain/sync/reconcile.ts\<close>: what the
  mirror watcher calls for every event.  A new file that carries the inode and the content of a
  tracked one whose path is gone is that file moved; any other new file is registered; a changed
  one is re-hashed; a deleted one loses its cached hash, or its record when it was never pushed.
  A new directory is walked.  The identifiers of new rows and queue entries are functions of the
  path they are drawn for.
\<close>

datatype reconcile_action =
    RcIgnored
  | RcNoop "string option"
  | RcRegistered string
  | RcRehashed string
  | RcDeleted string
  | RcUnregistered string
  | RcMoved string
  | RcWalked

definition path_exists :: "'r world \<Rightarrow> string \<Rightarrow> bool" where
  "path_exists w p \<longleftrightarrow> local_at w p \<noteq> None \<or> list_ex (under_dir p) (map fst (wd_local w))"

section \<open>A move on disk\<close>

definition findFileStateByInode :: "nat \<Rightarrow> nat \<Rightarrow> 'r world \<Rightarrow> (string \<times> file_state) list" where
  "findFileStateByInode ino dev w = filter (\<lambda>x. st_ino (snd x) = Some ino \<and> st_dev (snd x) = Some dev) (wd_state w)"

text \<open>The tracked row a candidate pairs the file at a path with.\<close>

definition moved_from ::
  "env \<Rightarrow> hasher \<Rightarrow> user_id \<Rightarrow> string \<Rightarrow> local_file \<Rightarrow> 'r world \<Rightarrow> string \<times> file_state \<Rightarrow> file_row option" where
  "moved_from env hs user absPath f w c =
     (case truthy_opt (case st_cached (snd c) of Some h \<Rightarrow> Some h | None \<Rightarrow> st_synced (snd c)) of
        None \<Rightarrow> None
      | Some ref \<Rightarrow>
          (case file_by_id (wd_db w) (fst c) of
             None \<Rightarrow> None
           | Some row \<Rightarrow>
               (case truthy_opt (fl_remote_path row) of
                  None \<Rightarrow> None
                | Some path \<Rightarrow>
                    (case (case resolveNodeInfo (wd_db w) (fl_node row) of None \<Rightarrow> None
                           | Some info \<Rightarrow> mirror_local env user (fl_node row) info path) of
                       None \<Rightarrow> None
                     | Some old \<Rightarrow>
                         (if old = absPath \<or> path_exists w old \<or> hash_as hs (is_md5 ref) (lf_content f) \<noteq> ref then None
                          else Some row)))))"

fun first_some :: "('a \<Rightarrow> 'b option) \<Rightarrow> 'a list \<Rightarrow> 'b option" where
  "first_some f [] = None"
| "first_some f (x # xs) = (case f x of None \<Rightarrow> first_some f xs | Some y \<Rightarrow> Some y)"

definition sub_remote :: "node_info \<Rightarrow> mirror_subpath \<Rightarrow> path_error + string" where
  "sub_remote info s =
     buildRemotePath \<lparr>rp_info = info, rp_section = ms_section s, rp_subpath = ms_subpath s, rp_filename = ms_filename s\<rparr>"

definition rehash :: "hasher \<Rightarrow> string \<Rightarrow> string \<Rightarrow> string option \<Rightarrow> 'r world \<Rightarrow> 'r world" where
  "rehash hs absPath file ref w = snd (localHashFor hs absPath file ref (getFileState file w) w)"

definition retarget_row :: "node_id \<Rightarrow> string \<Rightarrow> string \<Rightarrow> timestamp \<Rightarrow> file_row \<Rightarrow> file_row" where
  "retarget_row node path filename now f =
     f\<lparr>fl_node := node, fl_remote_path := Some path, fl_filename := filename, fl_updated_at := now\<rparr>"

definition disk_move_args :: "user_id \<Rightarrow> string \<Rightarrow> node_id \<Rightarrow> mirror_subpath \<Rightarrow> move_args" where
  "disk_move_args user file node s =
     \<lparr>ma_user = user, ma_file = file, ma_subpath = ms_subpath s, ma_section = Some (ms_section s),
      ma_node = Some node, ma_filename = Some (ms_filename s), ma_confirmed = True\<rparr>"

definition tryApplyDiskMove ::
  "env \<Rightarrow> 'r adapter \<Rightarrow> hasher \<Rightarrow> timestamp \<Rightarrow> string \<Rightarrow> user_id \<Rightarrow> node_id \<Rightarrow> string \<Rightarrow> mirror_subpath \<Rightarrow> 'r world \<Rightarrow>
   (file_error + reconcile_action option) \<times> 'r world" where
  "tryApplyDiskMove env ad hs now opid user node absPath s w =
     (case local_at w absPath of
        None \<Rightarrow> (Inr None, w)
      | Some f \<Rightarrow>
          (case first_some (moved_from env hs user absPath f w) (findFileStateByInode (lf_ino f) (lf_dev f) w) of
             None \<Rightarrow> (Inr None, w)
           | Some row \<Rightarrow>
               (case fl_hash row of
                  None \<Rightarrow>
                    (case resolveNodeInfo (wd_db w) node of
                       None \<Rightarrow> (Inl (NodeGone node), w)
                     | Some info \<Rightarrow>
                         (case sub_remote info s of
                            Inl e \<Rightarrow> (Inl (PathFailure e), w)
                          | Inr path \<Rightarrow>
                              (Inr (Some (RcMoved (fl_id row))),
                               rehash hs absPath (fl_id row) None
                                 (on_db (update_file_row (fl_id row) (retarget_row node path (ms_filename s) now)) w))))
                | Some _ \<Rightarrow>
                    (case moveFile env ad now opid (disk_move_args user (fl_id row) node s) w of
                       (Inl e, w1) \<Rightarrow> (Inl e, w1)
                     | (Inr (MoveOk p done_local already), w1) \<Rightarrow>
                         (Inr (Some (RcMoved (fl_id row))), rehash hs absPath (fl_id row) None w1)
                     | (Inr _, w1) \<Rightarrow> (Inr (Some (RcNoop (Some (fl_id row)))), w1)))))"

section \<open>One path\<close>

definition forget_row :: "user_id \<Rightarrow> node_id \<Rightarrow> string \<Rightarrow> string \<Rightarrow> 'r world \<Rightarrow> 'r world" where
  "forget_row user node file path w =
     on_db (\<lambda>db. publishNodeChange node ChangeFiles
              (insert_audit user ''sync_unregister'' ''file'' file
                 (JObj [(''node_id'', JStr node), (''remote_path'', JStr path)]) db))
       (deleteFileState file (on_db (delete_file_row file) w))"

definition uncached :: "file_state option \<Rightarrow> file_state" where
  "uncached st =
     \<lparr>st_synced = (case st of None \<Rightarrow> None | Some s \<Rightarrow> st_synced s),
      st_synced_at = (case st of None \<Rightarrow> None | Some s \<Rightarrow> st_synced_at s),
      st_cached = None, st_mtime = None, st_size = None,
      st_ino = (case st of None \<Rightarrow> None | Some s \<Rightarrow> st_ino s), st_dev = (case st of None \<Rightarrow> None | Some s \<Rightarrow> st_dev s)\<rparr>"

definition never_pushed :: "file_row \<Rightarrow> 'r world \<Rightarrow> bool" where
  "never_pushed row w \<longleftrightarrow>
     fl_hash row = None \<and> (case getFileState (fl_id row) w of None \<Rightarrow> None | Some st \<Rightarrow> st_synced st) = None"

definition register_args :: "user_id \<Rightarrow> node_id \<Rightarrow> string \<Rightarrow> store_args" where
  "register_args user node p = \<lparr>sa_user = user, sa_node = node, sa_local = p, sa_status = None, sa_subpath = None\<rparr>"

text \<open>A path that is not a directory, in a mirror, with its place and its remote path.\<close>

definition reconcile_file ::
  "env \<Rightarrow> 'r adapter \<Rightarrow> hasher \<Rightarrow> timestamp \<Rightarrow> (string \<Rightarrow> string) \<Rightarrow> (string \<Rightarrow> string) \<Rightarrow> user_id \<Rightarrow> node_id \<Rightarrow> string \<Rightarrow>
   mirror_subpath \<Rightarrow> string \<Rightarrow> 'r world \<Rightarrow> (file_error + reconcile_action) \<times> 'r world" where
  "reconcile_file env ad hs now ids opids user node absPath s path w =
     (case row_at node path (wd_db w) of
        None \<Rightarrow>
          (if local_at w absPath = None then (Inr (RcNoop None), w)
           else (case tryApplyDiskMove env ad hs now (opids absPath) user node absPath s w of
                   (Inl e, w1) \<Rightarrow> (Inl e, w1)
                 | (Inr (Some act), w1) \<Rightarrow> (Inr act, w1)
                 | (Inr None, w1) \<Rightarrow>
                     (case registerLocalFile env hs now (ids absPath) (register_args user node absPath) w1 of
                        (Inl e, w2) \<Rightarrow> (Inl e, w2)
                      | (Inr r, w2) \<Rightarrow> (Inr (RcRegistered (sr_file r)), w2))))
      | Some row \<Rightarrow>
          if local_at w absPath \<noteq> None
          then (Inr (RcRehashed (fl_id row)), rehash hs absPath (fl_id row) (fl_hash row) w)
          else if never_pushed row w
          then (Inr (RcUnregistered (fl_id row)), forget_row user node (fl_id row) path w)
          else (Inr (RcDeleted (fl_id row)),
                upsertFileState (fl_id row) (uncached (getFileState (fl_id row) w)) w))"

text \<open>What a path of a mirror is reconciled as: nothing, or its place and remote path.\<close>

definition reconcile_place ::
  "env \<Rightarrow> user_id \<Rightarrow> node_id \<Rightarrow> string \<Rightarrow> 'r world \<Rightarrow> reconcile_action + (file_error + mirror_subpath \<times> string)" where
  "reconcile_place env user node absPath w =
     (case truthy_opt (getMirrorPath env user node) of
        None \<Rightarrow> Inl (RcNoop None)
      | Some root \<Rightarrow>
          if mirror_ignore env root w absPath then Inl RcIgnored
          else (case subpathFromMirror (ev_cwd env) root absPath of
                  None \<Rightarrow> Inl RcIgnored
                | Some s \<Rightarrow>
                    (case resolveNodeInfo (wd_db w) node of
                       None \<Rightarrow> Inl (RcNoop None)
                     | Some info \<Rightarrow>
                         (case sub_remote info s of
                            Inl e \<Rightarrow> Inr (Inl (PathFailure e))
                          | Inr path \<Rightarrow> Inr (Inr (s, path))))))"

definition reconcile_one ::
  "env \<Rightarrow> 'r adapter \<Rightarrow> hasher \<Rightarrow> timestamp \<Rightarrow> (string \<Rightarrow> string) \<Rightarrow> (string \<Rightarrow> string) \<Rightarrow> user_id \<Rightarrow> node_id \<Rightarrow> string \<Rightarrow> 'r world \<Rightarrow>
   (file_error + reconcile_action) \<times> 'r world" where
  "reconcile_one env ad hs now ids opids user node absPath w =
     (case reconcile_place env user node absPath w of
        Inl act \<Rightarrow> (Inr act, w)
      | Inr (Inl e) \<Rightarrow> (Inl e, w)
      | Inr (Inr (s, path)) \<Rightarrow> reconcile_file env ad hs now ids opids user node absPath s path w)"

fun reconcile_each ::
  "env \<Rightarrow> 'r adapter \<Rightarrow> hasher \<Rightarrow> timestamp \<Rightarrow> (string \<Rightarrow> string) \<Rightarrow> (string \<Rightarrow> string) \<Rightarrow> user_id \<Rightarrow> node_id \<Rightarrow> string list \<Rightarrow>
   'r world \<Rightarrow> (file_error + reconcile_action) \<times> 'r world" where
  "reconcile_each env ad hs now ids opids user node [] w = (Inr RcWalked, w)"
| "reconcile_each env ad hs now ids opids user node (p # ps) w =
     (case reconcile_one env ad hs now ids opids user node p w of
        (Inl e, w1) \<Rightarrow> (Inl e, w1)
      | (Inr _, w1) \<Rightarrow> reconcile_each env ad hs now ids opids user node ps w1)"

definition reconcileDirectory ::
  "env \<Rightarrow> 'r adapter \<Rightarrow> hasher \<Rightarrow> timestamp \<Rightarrow> (string \<Rightarrow> string) \<Rightarrow> (string \<Rightarrow> string) \<Rightarrow> user_id \<Rightarrow> node_id \<Rightarrow> string \<Rightarrow> string \<Rightarrow>
   'r world \<Rightarrow> (file_error + reconcile_action) \<times> 'r world" where
  "reconcileDirectory env ad hs now ids opids user node root dir w =
     reconcile_each env ad hs now ids opids user node
       (filter (walked (mirror_ignore env root w) dir) (map fst (wd_local w))) w"

definition is_directory :: "'r world \<Rightarrow> string \<Rightarrow> bool" where
  "is_directory w p \<longleftrightarrow> local_at w p = None \<and> list_ex (under_dir p) (map fst (wd_local w))"

definition reconcilePath ::
  "env \<Rightarrow> 'r adapter \<Rightarrow> hasher \<Rightarrow> timestamp \<Rightarrow> (string \<Rightarrow> string) \<Rightarrow> (string \<Rightarrow> string) \<Rightarrow> user_id \<Rightarrow> node_id \<Rightarrow> string \<Rightarrow> 'r world \<Rightarrow>
   (file_error + reconcile_action) \<times> 'r world" where
  "reconcilePath env ad hs now ids opids user node absPath w =
     (case reconcile_place env user node absPath w of
        Inl act \<Rightarrow> (Inr act, w)
      | Inr (Inl e) \<Rightarrow> (Inl e, w)
      | Inr (Inr (s, path)) \<Rightarrow>
          if is_directory w absPath \<and> row_at node path (wd_db w) = None
          then (case truthy_opt (getMirrorPath env user node) of
                  None \<Rightarrow> (Inr (RcNoop None), w)
                | Some root \<Rightarrow> reconcileDirectory env ad hs now ids opids user node root absPath w)
          else reconcile_file env ad hs now ids opids user node absPath s path w)"

end
