(* ===== verification/StatusViews.thy ===== *)
theory StatusViews
  imports SyncDiscovery NodeAccess
begin

text \<open>
  What is shown of a scan: the filter and the pages of \<^verbatim>\<open>apps/server/domain/sync/status-filter.ts\<close>, the
  preview of a node (\<^verbatim>\<open>previewNode\<close> of \<^verbatim>\<open>engine.ts\<close>) and the aggregate of unsynced work over all mirrors,
  \<^verbatim>\<open>pending.ts\<close>.  A result's lists are read by bucket.
\<close>

section \<open>Buckets\<close>

datatype status_bucket = Tracked status_class | NewLocal | NewRemote | DeletedRemote
datatype status_item =
  ItemTracked status_entry | ItemLocal new_local | ItemRemote new_remote | ItemDeleted deleted_remote

definition all_buckets :: "status_bucket list" where
  "all_buckets = [Tracked Clean, Tracked Push, Tracked Pull, Tracked Conflict, Tracked RemoteMissing, Tracked RemoteError,
     Tracked Native, NewLocal, NewRemote, Tracked DeletedLocal, DeletedRemote]"

definition bucket_items :: "status_bucket \<Rightarrow> status_result \<Rightarrow> status_item list" where
  "bucket_items b s =
     (case b of
        Tracked c \<Rightarrow> map ItemTracked (bucket c s)
      | NewLocal \<Rightarrow> map ItemLocal (rs_new_local s)
      | NewRemote \<Rightarrow> map ItemRemote (rs_new_remote s)
      | DeletedRemote \<Rightarrow> map ItemDeleted (rs_deleted_remote s))"

definition CLASS_BUCKET :: "string \<Rightarrow> status_bucket option" where
  "CLASS_BUCKET = map_of
     [(''clean'', Tracked Clean), (''push'', Tracked Push), (''pull'', Tracked Pull), (''conflict'', Tracked Conflict),
      (''remote_missing'', Tracked RemoteMissing), (''remote_error'', Tracked RemoteError), (''native'', Tracked Native),
      (''deleted_local'', Tracked DeletedLocal), (''new_local'', NewLocal), (''new_remote'', NewRemote)]"

definition entryPath :: "status_item \<Rightarrow> string option" where
  "entryPath e =
     (case e of
        ItemLocal l \<Rightarrow> Some (nl_local l)
      | ItemRemote r \<Rightarrow> Some (nr_path r)
      | ItemDeleted g \<Rightarrow> Some (ge_local g)
      | ItemTracked t \<Rightarrow> (case se_path t of Some p \<Rightarrow> Some p | None \<Rightarrow> se_local t))"

section \<open>The filter\<close>

record filter_options =
  fo_classes :: "string list option"
  fo_prefix :: "string option"
  fo_limit :: "nat option"
  fo_offset :: "int option"

record filtered_status =
  fs_items :: "status_bucket \<Rightarrow> status_item list"
  fs_counts :: "status_bucket \<Rightarrow> nat"
  fs_truncated :: bool

definition restricted :: "filter_options \<Rightarrow> bool" where
  "restricted o' = (case fo_classes o' of None \<Rightarrow> False | Some cs \<Rightarrow> 0 < length cs)"

definition included :: "filter_options \<Rightarrow> status_bucket \<Rightarrow> bool" where
  "included o' b = (case fo_classes o' of None \<Rightarrow> False | Some cs \<Rightarrow> list_ex (\<lambda>c. CLASS_BUCKET c = Some b) cs)"

definition left_out :: "filter_options \<Rightarrow> status_bucket \<Rightarrow> bool" where
  "left_out o' b \<longleftrightarrow> restricted o' \<and> b \<noteq> DeletedRemote \<and> \<not> included o' b"

definition on_prefix :: "filter_options \<Rightarrow> status_item list \<Rightarrow> status_item list" where
  "on_prefix o' xs =
     (case truthy_opt (fo_prefix o') of
        None \<Rightarrow> xs
      | Some p \<Rightarrow> filter (\<lambda>e. case entryPath e of None \<Rightarrow> False | Some q \<Rightarrow> prefix p q) xs)"

definition windowed :: "filter_options \<Rightarrow> status_item list \<Rightarrow> status_item list" where
  "windowed o' xs =
     (let offset = nat (max 0 (or_else (fo_offset o') 0))
      in case fo_limit o' of
           Some n \<Rightarrow> take n (drop offset xs)
         | None \<Rightarrow> (if 0 < offset then drop offset xs else xs))"

definition filterStatusResult :: "filter_options \<Rightarrow> status_result \<Rightarrow> filtered_status" where
  "filterStatusResult o' s =
     \<lparr>fs_items = (\<lambda>b. if left_out o' b then [] else windowed o' (on_prefix o' (bucket_items b s))),
      fs_counts = (\<lambda>b. length (bucket_items b s)),
      fs_truncated = list_ex (\<lambda>b. \<not> left_out o' b \<and>
                                 length (windowed o' (on_prefix o' (bucket_items b s))) < length (on_prefix o' (bucket_items b s)))
                       all_buckets\<rparr>"

definition localStatusView :: "filtered_status \<Rightarrow> (status_bucket \<times> status_item list \<times> nat) list \<times> bool" where
  "localStatusView r =
     (map (\<lambda>b. (b, fs_items r b, fs_counts r b)) [Tracked Clean, Tracked DeletedLocal, NewLocal], fs_truncated r)"

section \<open>The preview of a node\<close>

datatype preview_status = PvNew | PvUpdated | PvUnchanged | PvConflict | PvMissing | PvError | PvNative

record preview_entry =
  pv_file :: string
  pv_filename :: string
  pv_status :: preview_status
  pv_remote :: "string option"
  pv_local :: "string option"
  pv_last :: "string option"

definition preview_of :: "preview_status \<Rightarrow> status_entry \<Rightarrow> preview_entry" where
  "preview_of c e =
     \<lparr>pv_file = se_file e, pv_filename = se_filename e, pv_status = c, pv_remote = se_remote_hash e,
      pv_local = se_local_hash e, pv_last = se_last e\<rparr>"

definition previewNode ::
  "env \<Rightarrow> 'r adapter \<Rightarrow> hasher \<Rightarrow> user_id \<Rightarrow> node_id \<Rightarrow> 'r world \<Rightarrow> (file_error + preview_entry list) \<times> 'r world" where
  "previewNode env ad hs user node w =
     (case statusScan env ad hs \<lparr>ss_user = user, ss_node = Some node, ss_remote = None, ss_discovery = False,
                                  ss_skip_remote = False\<rparr> w of
        (v, w1) \<Rightarrow>
          (map_sum id (\<lambda>s.
             map (preview_of PvUnchanged) (bucket Clean s) @ map (preview_of PvUpdated) (bucket Push s) @
             map (preview_of PvUpdated) (bucket Pull s) @ map (preview_of PvConflict) (bucket Conflict s) @
             map (preview_of PvMissing) (bucket RemoteMissing s) @ map (preview_of PvError) (bucket RemoteError s) @
             map (preview_of PvNative) (bucket Native s)) v, w1))"

section \<open>Unsynced work over all mirrors\<close>

record unsynced_node =
  pn_node :: node_id
  pn_name :: string
  pn_type :: string
  pn_push :: nat
  pn_conflict :: nat
  pn_untracked :: nat
  pn_missing :: nat
  pn_deleted :: nat
  pn_pull :: nat
  pn_total :: nat
  pn_decisions :: nat

definition unsynced_of :: "node_row \<Rightarrow> status_result \<Rightarrow> unsynced_node option" where
  "unsynced_of n s =
     (let push = length (bucket Push s); conflict = length (bucket Conflict s);
          untracked = length (rs_new_local s) + length (rs_deleted_remote s);
          deleted = length (bucket DeletedLocal s); pull = length (bucket Pull s);
          total = push + untracked; decisions = conflict + deleted
      in if total = 0 \<and> decisions = 0 \<and> pull = 0 then None
         else Some \<lparr>pn_node = nd_id n, pn_name = nd_name n, pn_type = nd_type n, pn_push = push, pn_conflict = conflict,
                    pn_untracked = untracked, pn_missing = length (bucket RemoteMissing s), pn_deleted = deleted,
                    pn_pull = pull, pn_total = total, pn_decisions = decisions\<rparr>)"

text \<open>A mirror whose directory is gone is not scanned; \<open>dirs\<close> says which are there.\<close>

fun pending_each ::
  "env \<Rightarrow> 'r adapter \<Rightarrow> hasher \<Rightarrow> user_id \<Rightarrow> (string \<Rightarrow> bool) \<Rightarrow> (node_id \<times> string) list \<Rightarrow> 'r world \<Rightarrow> unsynced_node list \<times> 'r world" where
  "pending_each env ad hs user dirs [] w = ([], w)"
| "pending_each env ad hs user dirs (m # ms) w =
     (case node_by_id (wd_db w) (fst m) of
        None \<Rightarrow> pending_each env ad hs user dirs ms w
      | Some n \<Rightarrow>
          if \<not> dirs (snd m) then pending_each env ad hs user dirs ms w
          else (case statusScan env ad hs \<lparr>ss_user = user, ss_node = Some (fst m), ss_remote = None, ss_discovery = True,
                                            ss_skip_remote = True\<rparr> w of
                  (Inl _, w1) \<Rightarrow> pending_each env ad hs user dirs ms w1
                | (Inr s, w1) \<Rightarrow>
                    (case pending_each env ad hs user dirs ms w1 of
                       (ps, w2) \<Rightarrow> ((case unsynced_of n s of None \<Rightarrow> [] | Some p \<Rightarrow> [p]) @ ps, w2))))"

record pending_summary =
  ps_nodes :: "unsynced_node list"
  ps_total :: nat
  ps_decisions :: nat

definition computeSyncPending ::
  "env \<Rightarrow> 'r adapter \<Rightarrow> hasher \<Rightarrow> group_identity \<Rightarrow> (string \<Rightarrow> bool) \<Rightarrow> 'r world \<Rightarrow> pending_summary \<times> 'r world" where
  "computeSyncPending env ad hs ident dirs w =
     (if ev_local_only env then (\<lparr>ps_nodes = [], ps_total = 0, ps_decisions = 0\<rparr>, w)
      else (let mine = map snd (filter (\<lambda>m. fst m = gi_user ident) (ev_mirrors env));
                visible = filterVisibleNodeIds (wd_db w) ident (map fst mine)
            in (case pending_each env ad hs (gi_user ident) dirs (filter (\<lambda>m. fst m \<in> visible) mine) w of
                  (ps, w1) \<Rightarrow>
                    (\<lparr>ps_nodes = sort_key (\<lambda>p. - int (pn_total p)) ps, ps_total = sum_list (map pn_total ps),
                      ps_decisions = sum_list (map pn_decisions ps)\<rparr>, w1))))"

end
