(* ===== verification/SyncSamples.thy ===== *)
theory SyncSamples
  imports SyncLaws Reconcile StatusViews FileSamples
begin

text \<open>
  Small worlds for the sync engine: hashes that are the lower-case content padded to the length of the
  algorithm, a remote that reports the short one, as Google Drive does, one that reports none, and
  the device of the file samples.
\<close>

definition pad_to :: "nat \<Rightarrow> string \<Rightarrow> string" where
  "pad_to n c = take n (js_lower c @ replicate n CHR ''0'')"

definition demo_hasher :: hasher where
  "demo_hasher = \<lparr>hs_md5 = pad_to 32, hs_sha = pad_to 64\<rparr>"

text \<open>The adapter with the hashes it reports replaced by a function of the content.\<close>

definition reporting :: "(string \<Rightarrow> string option) \<Rightarrow> demo_remote adapter" where
  "reporting h =
     (let ref = (\<lambda>st. st\<lparr>fr_hash := Option.bind (fr_hash st) h\<rparr>); ad = demo_adapter no_fate
      in ad\<lparr>ad_stat := (\<lambda>n p r. case ad_stat ad n p r of (v, r1) \<Rightarrow> (map_sum id (map_option ref) v, r1)),
            ad_list := (\<lambda>n p r. case ad_list ad n p r of (v, r1) \<Rightarrow> (map_sum id (map (\<lambda>x. (fst x, ref (snd x)))) v, r1))\<rparr>)"




lemma js_lower_char_idem: "js_lower_char (js_lower_char c) = js_lower_char c"
  by (simp add: js_lower_char_def)

lemma js_lower_pad: "js_lower (pad_to n c) = pad_to n c"
proof -
  have "js_lower_char CHR ''0'' = CHR ''0''" by code_simp
  then show ?thesis by (simp add: pad_to_def js_lower_def take_map [symmetric] js_lower_char_idem comp_def)
qed

lemma demo_hasher_ok: "hasher_ok demo_hasher"
  by (simp add: hasher_ok_def demo_hasher_def js_lower_pad) (auto simp: pad_to_def js_lower_def min_def)

lemma reporting_ok: "adapter_ok (reporting h) demo_objs"
  unfolding adapter_ok_def reporting_def demo_adapter_def adapter.simps Let_def
  by (intro conjI; (intro allI)?)
    (auto simp: answered_def no_fate_def split: fate.splits prod.splits option.splits dest!: demo_present)

definition md5_remote :: "demo_remote adapter" where
  "md5_remote = reporting (\<lambda>c. Some (pad_to 32 c))"

definition plain_remote :: "demo_remote adapter" where
  "plain_remote = reporting (\<lambda>_. None)"

lemma succeeds: "\<not> isl (fst x) \<Longrightarrow> \<exists>v y. x = (Inr v, y)"
  by (cases x; cases "fst x") auto

definition synced_to :: "string \<Rightarrow> file_state" where
  "synced_to h = \<lparr>st_synced = Some h, st_synced_at = Some 0, st_cached = None, st_mtime = None, st_size = None,
     st_ino = None, st_dev = None\<rparr>"

lemma md5_remote_ok: "adapter_ok md5_remote demo_objs" by (simp add: md5_remote_def reporting_ok)

lemma md5_remote_reports: "reports md5_remote demo_objs (hash_as demo_hasher True)"
  unfolding reports_def md5_remote_def reporting_def demo_adapter_def adapter.simps Let_def
  by (auto simp: no_fate_def demo_ref_def hash_as_def demo_hasher_def split: option.splits dest!: demo_present)

text \<open>A device with the given files in the mirror of the site, the given rows, states and objects.\<close>

definition device :: "(string \<times> string) list \<Rightarrow> file_row list \<Rightarrow> (string \<times> file_state) list \<Rightarrow> (string \<times> string) list \<Rightarrow> demo_remote world" where
  "device locals rows states objects =
     \<lparr>wd_db = sample_org_db\<lparr>files_t := rows\<rparr>, wd_routing = drive_routing, wd_ops = [],
      wd_remote = \<lparr>dr_objects = map (\<lambda>x. ((''drive'', ''acme/projects/site/'' @ fst x), snd x)) objects, dr_fates = []\<rparr>,
      wd_local = map (\<lambda>x. (''/m/site/'' @ fst x, sample_local (snd x) (length (fst x)))) locals,
      wd_state = states, wd_ino = 100\<rparr>"

definition site_row :: "string \<Rightarrow> string \<Rightarrow> string option \<Rightarrow> file_row" where
  "site_row i p h = (sample_file i (last_segment p) h)\<lparr>fl_remote_path := Some (''acme/projects/site/'' @ p)\<rparr>"

definition site_scan_args :: status_args where
  "site_scan_args = \<lparr>ss_user = ''ann'', ss_node = Some ''site'', ss_remote = None, ss_discovery = True, ss_skip_remote = False\<rparr>"

text \<open>A file edited since its last sync, of which the remote still holds the synced bytes.\<close>

definition edited_device :: "demo_remote world" where
  "edited_device =
     device [(''wip/a.md'', ''new'')] [site_row ''f1'' ''wip/a.md'' (Some (pad_to 32 ''old''))]
       [(''f1'', synced_to (pad_to 32 ''old''))] [(''wip/a.md'', ''old'')]"

text \<open>The remote moved on and the local copy did not.\<close>

definition behind_device :: "demo_remote world" where
  "behind_device =
     device [(''wip/a.md'', ''old'')] [site_row ''f1'' ''wip/a.md'' (Some (pad_to 32 ''old''))]
       [(''f1'', synced_to (pad_to 32 ''old''))] [(''wip/a.md'', ''new'')]"

text \<open>Every file grows while an upload runs.\<close>

definition append_all :: "string \<Rightarrow> (string \<times> local_file) list \<Rightarrow> (string \<times> local_file) list" where
  "append_all c l = map (\<lambda>x. (fst x, (snd x)\<lparr>lf_content := lf_content (snd x) @ c\<rparr>)) l"

lemma append_all_visible: "visible_edits (append_all (x # c))"
proof -
  have "map_of (append_all (x # c) l) p = map_option (\<lambda>f. f\<lparr>lf_content := lf_content f @ x # c\<rparr>) (map_of l p)" for l p
    by (induction l) (auto simp: append_all_def)
  then show ?thesis by (auto simp: visible_edits_def)
qed

definition scan_site :: "demo_remote adapter \<Rightarrow> demo_remote world \<Rightarrow> status_result option" where
  "scan_site ad w =
     (case fst (statusScan sample_env ad demo_hasher site_scan_args w) of
        Inl _ \<Rightarrow> None | Inr s \<Rightarrow> Some s)"

definition class_in :: "demo_remote adapter \<Rightarrow> demo_remote world \<Rightarrow> string \<Rightarrow> status_class list" where
  "class_in ad w i =
     (case scan_site ad w of None \<Rightarrow> [] | Some s \<Rightarrow> map se_class (filter (\<lambda>e. se_file e = i) (rs_entries s)))"

definition sync_site :: "demo_remote adapter \<Rightarrow> demo_remote world \<Rightarrow> (file_error + run_result) \<times> demo_remote world" where
  "sync_site ad w = runNodeSync sample_env ad demo_hasher 9 (\<lambda>p. p) (\<lambda>p. p) (\<lambda>_. id) ''ann'' ''site'' w"

end
