(* ===== verification/SyncGuarantees.thy ===== *)
theory SyncGuarantees
  imports SyncLaws SyncSamples
begin

text \<open>
  The properties of the sync engine and their witnesses, and the cases in which it does not do what
  its comments say.
\<close>

section \<open>The scan\<close>



section \<open>Pull and store\<close>

text \<open>C31: A pull that is not forced never replaces a file of the device, unless with the bytes of the
  record's remote object and only where the bytes it replaces have the same hash or are the ones this
  device last synced; it changes no remote object, and a pull that fails replaces nothing.\<close>

theorem pull_keeps_unsynced_work:
  assumes "adapter_ok ad objs" and "pullFile env ad hs now a w = (v, w')" and "\<not> pa_force a"
    and "local_at w q = Some f" and "local_at w' q \<noteq> Some f"
  shows "objs (wd_remote w') = objs (wd_remote w) \<and>
    (\<exists>row name path g m. file_by_id (wd_db w) (pa_file a) = Some row \<and> fl_remote_name row = Some name \<and>
       fl_remote_path row = Some path \<and> local_at w' q = Some g \<and> v = Inr (hash_as hs m (lf_content g)) \<and>
       objs (wd_remote w) (name, path) = Some (lf_content g) \<and>
       (hash_as hs m (lf_content f) = hash_as hs m (lf_content g) \<or>
        (\<exists>st. getFileState (pa_file a) w = Some st \<and> st_synced st = Some (hash_as hs m (lf_content f)))))"
  using pullFile_effect [OF assms(1-3)] assms(4,5) unfolding replaced_by_pull_def by blast

lemma pull_keeps_unsynced_work_witness:
  "\<exists>v w'. pullFile sample_env md5_remote demo_hasher 9 \<lparr>pa_user = ''ann'', pa_file = ''f1'', pa_force = False\<rparr> behind_device = (v, w') \<and>
     demo_objs (wd_remote w') = demo_objs (wd_remote behind_device) \<and>
     (\<exists>g m. local_at w' ''/m/site/wip/a.md'' = Some g \<and> v = Inr (hash_as demo_hasher m (lf_content g)))"
proof -
  let ?a = "\<lparr>pa_user = ''ann'', pa_file = ''f1'', pa_force = False\<rparr>" and ?q = "''/m/site/wip/a.md''"
  let ?run = "pullFile sample_env md5_remote demo_hasher 9 ?a behind_device"
  obtain v w' where run: "?run = (v, w')" by fastforce
  have before: "local_at behind_device ?q = Some (sample_local ''old'' 8)" by code_simp
  have "local_at (snd ?run) ?q \<noteq> Some (sample_local ''old'' 8)" by code_simp
  then have after: "local_at w' ?q \<noteq> Some (sample_local ''old'' 8)" unfolding run snd_conv .
  have "\<not> pa_force ?a" by simp
  from pull_keeps_unsynced_work [OF md5_remote_ok run this before after] run show ?thesis by blast
qed

text \<open>C32: A store that succeeds leaves the bytes it read at the remote path, a record at the node and path
  with their hash, and that hash as the baseline of the file; whatever the user did to the file
  while it uploaded, the next look at it hashes the bytes that are there now, so against the
  uploaded object the file is clean when their hashes agree and to be pushed when they do not.\<close>

theorem store_records_the_upload:
  assumes "adapter_ok ad objs" and "hasher_ok hs" and "visible_edits edits"
    and "storeFile env ad hs now newId edits a w = (Inr r, w')"
  shows "\<exists>name f g lh. sr_name r = Some name \<and>
    stored hs (objs (wd_remote w')) (sa_node a) name (sr_path r) (sr_local r) (sr_file r) (sr_hash r) f w' \<and>
    local_at w' (sr_local r) = Some g \<and>
    lh = fst (localHashFor hs (sr_local r) (sr_file r) ref (getFileState (sr_file r) w') w') \<and>
    compare_hashes lh (Some (sr_hash r)) (Some (sr_hash r), True) =
      (if hash_as hs (is_md5 (sr_hash r)) (lf_content g) = hash_as hs (is_md5 (sr_hash r)) (lf_content f) then Clean else Push)"
proof -
  obtain filename name path dst i h w1 w2 where
    locked: "store_locked ad hs now newId edits a filename name path dst w1 = (Inr (i, h), w2)"
    and r: "r = \<lparr>sr_file = i, sr_name = Some name, sr_path = path, sr_local = dst, sr_hash = h\<rparr>" "w' = w2"
    using assms(4) by (auto simp: storeFile_def Let_def split: if_splits option.splits sum.splits prod.splits)
  obtain f where st: "stored hs (objs (wd_remote w')) (sa_node a) name path dst i h f w'"
    using store_locked_effect [OF assms(1-3) locked] r by auto
  obtain g where g: "local_at w' dst = Some g"
    "fst (localHashFor hs dst i ref (getFileState i w') w') = Some (hash_as hs (is_md5 h) (lf_content g))"
    "h = hash_as hs (is_md5 h) (lf_content f)"
    using stored_hash [OF assms(2) st] by blast
  have "compare_hashes (Some (hash_as hs (is_md5 h) (lf_content g))) (Some h) (Some h, True) =
      (if hash_as hs (is_md5 h) (lf_content g) = hash_as hs (is_md5 h) (lf_content f) then Clean else Push)"
    using g(3) by (simp add: compare_hashes_def)
  then show ?thesis
    unfolding r store_result.select_convs
    by (intro exI [of _ name] exI [of _ f] exI [of _ g] exI [of _ "Some (hash_as hs (is_md5 h) (lf_content g))"])
      (use st g in \<open>simp add: r\<close>)
qed

lemma store_records_the_upload_witness:
  "\<exists>r w'. storeFile sample_env md5_remote demo_hasher 9 ''n1'' (append_all ''!'') (register_args ''ann'' ''site'' ''/m/site/wip/a.md'')
      edited_device = (Inr r, w') \<and>
     (\<exists>c g. demo_objs (wd_remote w') (''drive'', sr_path r) = Some c \<and> local_at w' (sr_local r) = Some g \<and>
        fst (localHashFor demo_hasher (sr_local r) (sr_file r) None (getFileState (sr_file r) w') w') =
          Some (hash_as demo_hasher (is_md5 (sr_hash r)) (lf_content g)))"
proof -
  let ?run = "storeFile sample_env md5_remote demo_hasher 9 ''n1'' (append_all ''!'') (register_args ''ann'' ''site'' ''/m/site/wip/a.md'') edited_device"
  have "\<not> isl (fst ?run)" "map_sum (\<lambda>_. ()) sr_name (fst ?run) = Inr (Some ''drive'')" by code_simp+
  then obtain r w' where run: "?run = (Inr r, w')" and name: "sr_name r = Some ''drive''"
    using succeeds [of ?run] by auto
  obtain f where st: "stored demo_hasher (demo_objs (wd_remote w')) (sa_node (register_args ''ann'' ''site'' ''/m/site/wip/a.md''))
      ''drive'' (sr_path r) (sr_local r) (sr_file r) (sr_hash r) f w'"
    using store_records_the_upload [OF md5_remote_ok demo_hasher_ok append_all_visible run, of None] name by auto
  have o: "demo_objs (wd_remote w') (''drive'', sr_path r) = Some (lf_content f)"
    using st by (simp add: stored_def)
  obtain g where g: "local_at w' (sr_local r) = Some g"
    "fst (localHashFor demo_hasher (sr_local r) (sr_file r) None (getFileState (sr_file r) w') w') =
       Some (hash_as demo_hasher (is_md5 (sr_hash r)) (lf_content g))"
    using stored_hash [OF demo_hasher_ok st] by blast
  from run o g show ?thesis by (intro exI conjI)
qed

section \<open>Where the engine departs from its comments\<close>

definition contents_of :: "demo_remote world \<Rightarrow> (string \<times> string) list" where
  "contents_of w = map (\<lambda>x. (fst x, lf_content (snd x))) (wd_local w)"

text \<open>A record that was registered and never pushed has no remote hash to take the algorithm from, so on
  a backend that reports MD5 its SHA-256 never equals the remote's: identical content, which the comment
  of \<^verbatim>\<open>scanRow\<close> calls provably clean, is a conflict.\<close>

lemma identical_twin_is_a_conflict:
  "class_in md5_remote (device [(''wip/a.md'', ''alpha'')] [site_row ''f1'' ''wip/a.md'' None] [] [(''wip/a.md'', ''alpha'')]) ''f1'' =
     [Conflict]"
  by code_simp

text \<open>A record outside the three sections, as \<^verbatim>\<open>portuni_adopt_files\<close> makes one for any path under the node's
  root: its edit is pushed to another path, a file of the user's own at that path is overwritten on
  the device, and the record still waits to be pushed.\<close>

definition outside_run :: "(file_error + run_result) \<times> demo_remote world" where
  "outside_run =
     sync_site md5_remote
       (device [(''wip/readme.md'', ''mine''), (''readme.md'', ''edited'')]
          [site_row ''f1'' ''readme.md'' (Some (pad_to 32 ''old''))] [(''f1'', synced_to (pad_to 32 ''old''))]
          [(''readme.md'', ''old'')])"

lemma push_outside_sections_overwrites:
  "contents_of (snd outside_run) = [(''/m/site/wip/readme.md'', ''edited''), (''/m/site/readme.md'', ''edited'')] \<and>
   class_in md5_remote (snd outside_run) ''f1'' = [Push]"
  by code_simp

text \<open>A record of a node that had no remote when it was registered is pushed without a look at the remote:
  what is there under its path is gone.\<close>

lemma push_of_unrouted_record_overwrites:
  "dr_objects (wd_remote (snd (sync_site md5_remote
      (device [(''wip/a.md'', ''mine'')] [(site_row ''f1'' ''wip/a.md'' None)\<lparr>fl_remote_name := None\<rparr>] []
         [(''wip/a.md'', ''theirs'')])))) =
     [((''drive'', ''acme/projects/site/wip/a.md''), ''mine'')]"
  by code_simp

text \<open>The discovery of the scan takes only records bound to a remote for known, so a tracked file of an
  unrouted node is reported as untracked; the sync run's own discovery does not.\<close>

lemma unrouted_record_is_untracked:
  "map_option (\<lambda>s. map nl_local (rs_new_local s))
      (scan_site md5_remote (device [(''wip/a.md'', ''mine'')] [(site_row ''f1'' ''wip/a.md'' None)\<lparr>fl_remote_name := None\<rparr>] [] [])) =
     Some [''/m/site/wip/a.md''] \<and>
   listUntrackedLocal sample_env ''ann'' ''site''
      (device [(''wip/a.md'', ''mine'')] [(site_row ''f1'' ''wip/a.md'' None)\<lparr>fl_remote_name := None\<rparr>] [] []) = []"
  by code_simp

text \<open>Storing a file from outside the mirror replaces a file of the same name in the mirror, tracked or not.\<close>

lemma store_replaces_mirrored_file:
  "contents_of (snd (storeFile sample_env md5_remote demo_hasher 9 ''n1'' id (register_args ''ann'' ''site'' ''/tmp/a.md'')
      (edited_device\<lparr>wd_local := (''/tmp/a.md'', sample_local ''other'' 1) # wd_local edited_device\<rparr>))) =
     [(''/tmp/a.md'', ''other''), (''/m/site/wip/a.md'', ''other'')]"
  by code_simp

text \<open>The preview of a node leaves out the files deleted on this device, which a pull would bring back.\<close>

lemma preview_omits_deleted_files:
  "map_sum (\<lambda>_. ()) length (fst (previewNode sample_env md5_remote demo_hasher ''ann'' ''site''
      (edited_device\<lparr>wd_local := []\<rparr>))) = Inr 0 \<and>
   class_in md5_remote (edited_device\<lparr>wd_local := []\<rparr>) ''f1'' = [DeletedLocal]"
  by code_simp

end
