(* ===== verification/SyncPlaces.thy ===== *)
theory SyncPlaces
  imports SyncLaws
begin

text \<open>
  A file of a section of a mirror is stored in place: the place the engine reads off its path is its
  path again.  Mirror roots and the paths of the device are resolved, and no mirror is the root of
  the file system.
\<close>

definition resolved :: "string \<Rightarrow> string \<Rightarrow> bool" where
  "resolved cwd p \<longleftrightarrow> path_resolve cwd [p] = p"

definition mirror_root :: "string \<Rightarrow> string \<Rightarrow> bool" where
  "mirror_root cwd root \<longleftrightarrow> resolved cwd root \<and> root \<noteq> ''/''"

definition under_section :: "string \<Rightarrow> string \<Rightarrow> bool" where
  "under_section root p \<longleftrightarrow> list_ex (\<lambda>s. under_dir (root @ ''/'' @ s) p) SECTIONS"

lemma resolved_segments:
  assumes "resolved cwd p"
  shows "p = CHR ''/'' # join_with ''/'' (root_segments cwd p) \<and> (\<forall>s \<in> set (root_segments cwd p). plain_segment s)"
  using assms root_segments_plain [of cwd p] by (simp add: resolved_def resolve_root)

lemma resolved_join: "\<forall>s \<in> set ss. plain_segment s \<Longrightarrow> resolved cwd (CHR ''/'' # join_with ''/'' ss)"
  by (simp add: resolved_def path_simps)

lemma mirror_root_segments: "mirror_root cwd root \<Longrightarrow> root_segments cwd root \<noteq> []"
  using resolved_segments [of cwd root] by (auto simp: mirror_root_def)

lemma split_slash_Cons: "split_on CHR ''/'' (CHR ''/'' # s) = [] # split_on CHR ''/'' s"
  by simp

lemma split_resolved:
  assumes "resolved cwd p" and "root_segments cwd p \<noteq> []"
  shows "split_on CHR ''/'' p = [] # root_segments cwd p"
  using resolved_segments [OF assms(1)] assms(2) split_join_plain [of "root_segments cwd p"] by (metis split_slash_Cons)

text \<open>The segments of a resolved path under a section: those of the root, the section and the rest.\<close>

lemma under_section_segments:
  assumes root: "mirror_root cwd root" and p: "resolved cwd p" and sec: "under_section root p"
  shows "\<exists>s rs. s \<in> set SECTIONS \<and> rs \<noteq> [] \<and> (\<forall>t \<in> set (s # rs). plain_segment t) \<and>
     p = CHR ''/'' # join_with ''/'' (root_segments cwd root @ s # rs)"
proof -
  obtain s t where s: "s \<in> set SECTIONS" and pt: "p = root @ ''/'' @ s @ ''/'' @ t"
    using sec by (auto simp: under_section_def under_dir_def list_ex_iff prefix_def)
  have plain_s: "split_on CHR ''/'' s = [s]" using s by (auto simp: SECTIONS_def)
  have "split_on CHR ''/'' p = split_on CHR ''/'' root @ split_on CHR ''/'' s @ split_on CHR ''/'' t"
    using split_on_append [of "CHR ''/''" root "s @ CHR ''/'' # t"] split_on_append [of "CHR ''/''" s t] by (simp add: pt)
  then have parts: "split_on CHR ''/'' p = [] # root_segments cwd root @ s # split_on CHR ''/'' t"
    using split_resolved [of cwd root] root mirror_root_segments [OF root] by (simp add: mirror_root_def plain_s)
  have segs: "root_segments cwd p \<noteq> []"
    using resolved_segments [OF p] arg_cong [OF parts, of length] by (cases "root_segments cwd p") auto
  have eq: "root_segments cwd p = root_segments cwd root @ s # split_on CHR ''/'' t"
    using split_resolved [OF p segs] parts by simp
  then show ?thesis using resolved_segments [OF p] s by (intro exI [of _ s] exI [of _ "split_on CHR ''/'' t"]) auto
qed

text \<open>What the engine makes of such a path.\<close>

lemma stored_in_place:
  assumes root: "mirror_root (ev_cwd env) root" and p: "resolved (ev_cwd env) (sa_local a)"
    and sec: "under_section root (sa_local a)" and dst: "mirrored_path env root (place_of env root a) = Inr dst"
  shows "dst = sa_local a"
proof -
  obtain s rs where s: "s \<in> set SECTIONS" and rs: "rs \<noteq> []" "\<forall>t \<in> set (s # rs). plain_segment t"
    and path: "sa_local a = CHR ''/'' # join_with ''/'' (root_segments (ev_cwd env) root @ s # rs)"
    using under_section_segments [OF root p sec] by blast
  note R = mirror_root_segments [OF root]
  define sub where "sub = (if butlast rs = [] then None else Some (join_with ''/'' (butlast rs)))"
  define r where "r = \<lparr>rp_info = \<lparr>in_org = None, in_type = [], in_key = []\<rparr>, rp_section = s, rp_subpath = sub, rp_filename = last rs\<rparr>"
  have lr: "butlast rs @ [last rs] = rs" using rs(1) by simp
  have bl: "\<forall>t \<in> set (butlast rs). plain_segment t" using rs(2) by (auto dest: in_set_butlastD)
  have tail: "tail_segments r = s # rs"
    using lr bl by (auto simp: r_def tail_segments_def sub_def split_join_plain)
  have sub_ne: "sub \<noteq> Some []" using bl join_with_nonempty [of "butlast rs"] by (auto simp: sub_def)
  have sm: "subpathFromMirror (ev_cwd env) root (sa_local a) = Some \<lparr>ms_section = s, ms_subpath = sub, ms_filename = last rs\<rparr>"
    using mirror_of_tail [of r "ev_cwd env" root, unfolded tail] rs s R sub_ne unfolding path by (simp add: r_def)
  have tr: "truthy_opt sub = sub" using sub_ne truthy_nonempty by (cases sub) (auto simp: truthy_opt_def [of None])
  define parts where "parts = [s] @ (case sub of None \<Rightarrow> [] | Some x \<Rightarrow> [x]) @ [last rs]"
  have "concat (map (split_on CHR ''/'') parts) = s # rs"
  proof -
    have "plain_segment s" "plain_segment (last rs)" using rs by (auto simp: last_in_set)
    then have "split_on CHR ''/'' s = [s]" "split_on CHR ''/'' (last rs) = [last rs]"
      by (auto simp: plain_segment_def split_on_id)
    then show ?thesis using lr bl by (auto simp: parts_def sub_def split_join_plain)
  qed
  then have join: "posix_join parts = join_with ''/'' (s # rs)"
    using rs(2) by (intro posix_join_plain) (auto simp: parts_def)
  have place: "place_of env root a = \<lparr>fp_section = s, fp_subpath = sub, fp_filename = last rs\<rparr>"
    by (simp add: place_of_def sm)
  have "ensureUnderRoot (ev_cwd env) root (posix_join parts) = Some (sa_local a)"
    unfolding join path using ensure_below [OF R, of "s # rs"] rs(2) by simp
  moreover have "mirrored_path env root (place_of env root a) = safeMirrorJoin (ev_cwd env) root parts"
    unfolding mirrored_path_def place by (simp add: tr parts_def)
  ultimately show ?thesis
    using dst by (cases "assertSafePaths parts") (simp_all add: safeMirrorJoin_def bind_sum_def)
qed

text \<open>The local path of a record is resolved.\<close>

lemma ensure_resolved: "ensureUnderRoot cwd root c = Some p \<Longrightarrow> resolved cwd p"
  unfolding ensureUnderRoot_def Let_def
  using normal_segments_plain by (auto simp: path_resolve_def normalize_string_def intro!: resolved_join split: if_splits)

lemma derive_resolved: "deriveLocalPath cwd root nr path = Inr p \<Longrightarrow> resolved cwd p"
  by (auto simp: deriveLocalPath_def Let_def bind_sum_Inr split: if_splits option.splits dest: ensure_resolved)

lemma row_local_resolved: "row_local_path env user info f = Some p \<Longrightarrow> resolved (ev_cwd env) p"
  by (auto simp: row_local_path_def mirror_local_def bind_sum_Inr split: option.splits sum.splits dest: derive_resolved)

end
