(* ===== verification/SweepLaws.thy ===== *)
theory SweepLaws
  imports SyncLaws
begin

text \<open>
  What the sweep of a remote promises: it changes nothing on the remote or the device, it drops a record
  only when the remote said that its object is not there, and then it leaves a tombstone.
\<close>

section \<open>Records that stay\<close>

text \<open>A row is still there, bound as it was.\<close>

definition row_kept :: "file_row \<Rightarrow> graph_db \<Rightarrow> bool" where
  "row_kept f db \<longleftrightarrow>
     (\<exists>g \<in> set (files_t db). fl_id g = fl_id f \<and> fl_node g = fl_node f \<and> fl_remote_name g = fl_remote_name f \<and>
        fl_remote_path g = fl_remote_path f)"

definition placed :: "file_row \<Rightarrow> graph_db \<Rightarrow> bool" where
  "placed f db \<longleftrightarrow> (\<exists>g \<in> set (files_t db). fl_node g = fl_node f \<and> fl_remote_path g = fl_remote_path f)"

text \<open>A step that only adds records, at places that are \<open>ok\<close>, and audit rows, and rewrites what a record says of
  its content.\<close>

definition db_grown :: "(node_id \<Rightarrow> string option \<Rightarrow> bool) \<Rightarrow> graph_db \<Rightarrow> graph_db \<Rightarrow> bool" where
  "db_grown ok db db' \<longleftrightarrow>
     (\<forall>f. row_kept f db \<longrightarrow> row_kept f db') \<and> set (audit_t db) \<subseteq> set (audit_t db') \<and>
     nodes_t db' = nodes_t db \<and> edges_t db' = edges_t db \<and>
     (\<forall>f \<in> set (files_t db'). placed f db \<or> ok (fl_node f) (fl_remote_path f))"

definition grown :: "(node_id \<Rightarrow> string option \<Rightarrow> bool) \<Rightarrow> ('r \<Rightarrow> objects) \<Rightarrow> 'r world \<Rightarrow> 'r world \<Rightarrow> bool" where
  "grown ok objs w w' \<longleftrightarrow>
     db_grown ok (wd_db w) (wd_db w') \<and> objs (wd_remote w') = objs (wd_remote w) \<and> wd_local w' = wd_local w \<and>
     wd_state w' = wd_state w \<and> wd_ops w' = wd_ops w \<and> wd_routing w' = wd_routing w"

lemma placed_self: "f \<in> set (files_t db) \<Longrightarrow> placed f db" by (auto simp: placed_def)

lemma placed_trans:
  assumes "placed f b \<or> ok (fl_node f) (fl_remote_path f)"
    and "\<forall>f \<in> set (files_t b). placed f a \<or> ok (fl_node f) (fl_remote_path f)"
  shows "placed f a \<or> ok (fl_node f) (fl_remote_path f)"
proof (cases "placed f b")
  case True
  then obtain g where "g \<in> set (files_t b)" and g: "fl_node g = fl_node f" "fl_remote_path g = fl_remote_path f"
    by (auto simp: placed_def)
  then have "placed g a \<or> ok (fl_node g) (fl_remote_path g)" using assms(2) by blast
  then show ?thesis using g by (simp add: placed_def)
qed (use assms(1) in blast)

lemma db_grown_refl [simp]: "db_grown ok db db" by (simp add: db_grown_def placed_self)

lemma db_grown_trans: "db_grown ok a b \<Longrightarrow> db_grown ok b c \<Longrightarrow> db_grown ok a c"
proof -
  assume g: "db_grown ok a b" and h: "db_grown ok b c"
  have "placed f a \<or> ok (fl_node f) (fl_remote_path f)" if "f \<in> set (files_t c)" for f
    by (rule placed_trans [where b = b]) (use g h that in \<open>simp_all add: db_grown_def\<close>)
  then show ?thesis using g h by (simp add: db_grown_def) blast
qed

lemma grown_refl [simp]: "grown ok objs w w" by (simp add: grown_def)
lemma grown_trans: "grown ok objs a b \<Longrightarrow> grown ok objs b c \<Longrightarrow> grown ok objs a c"
  by (auto simp: grown_def intro: db_grown_trans)

lemma grown_remote [simp]: "grown ok objs w (w\<lparr>wd_remote := r\<rparr>) \<longleftrightarrow> objs r = objs (wd_remote w)"
  by (simp add: grown_def)

lemma grown_db: "db_grown ok (wd_db w) (f (wd_db w)) \<Longrightarrow> objs r = objs (wd_remote w) \<Longrightarrow> grown ok objs w (on_db f (w\<lparr>wd_remote := r\<rparr>))"
  by (simp add: grown_def)

lemma db_grown_update:
  assumes "\<And>r. fl_id (h r) = fl_id r \<and> fl_node (h r) = fl_node r \<and> fl_remote_name (h r) = fl_remote_name r \<and>
    fl_remote_path (h r) = fl_remote_path r"
  shows "db_grown ok db (update_file_row i h db)"
proof -
  have "row_kept f (update_file_row i h db)" if k: "row_kept f db" for f
  proof -
    obtain g where "g \<in> set (files_t db)" "fl_id g = fl_id f \<and> fl_node g = fl_node f \<and> fl_remote_name g = fl_remote_name f \<and>
        fl_remote_path g = fl_remote_path f" using k by (auto simp: row_kept_def)
    then show ?thesis
      unfolding row_kept_def update_file_row_def
      by (intro bexI [of _ "if fl_id g = i then h g else g"]) (auto simp: assms)
  qed
  moreover have "placed f db" if "f \<in> set (files_t (update_file_row i h db))" for f
    using that by (auto simp: placed_def update_file_row_def assms split: if_splits)
  ultimately show ?thesis by (simp add: db_grown_def) (simp add: update_file_row_def)
qed

lemma db_grown_publish [simp]: "db_grown ok db (publishNodeChange n k db') \<longleftrightarrow> db_grown ok db db'"
  by (simp add: db_grown_def row_kept_def)

lemma db_grown_insert: "ok (fl_node f) (fl_remote_path f) \<Longrightarrow> db_grown ok db (db\<lparr>files_t := files_t db @ [f]\<rparr>)"
  by (auto simp: db_grown_def row_kept_def placed_def)

lemma db_grown_audit: "db_grown ok db (db\<lparr>audit_t := audit_t db @ es\<rparr>)"
  by (auto simp: db_grown_def row_kept_def placed_def)

lemma persist_grown: "db_grown ok db (persistRemoteFileId i obj db)"
  by (auto simp: persistRemoteFileId_def split: option.split intro: db_grown_update)

lemma set_hash_grown: "db_grown ok db (set_hash i h db)"
  by (simp add: set_hash_def db_grown_update)

lemma fold_grown: "(\<And>x d. db_grown ok d (h x d)) \<Longrightarrow> db_grown ok db (fold h xs db)"
  by (induction xs arbitrary: db) (auto intro: db_grown_trans)

section \<open>Adoption\<close>

lemma adopt_one_grown:
  assumes ad: "adapter_ok ad objs" and "adopt_one ad now ids a name nodeRoot p (s, w) = (v, w')" and ok: "ok (aa_node a) (Some p)"
  shows "grown ok objs w w'"
proof -
  obtain u r where st: "(case aa_refs a p of Some st \<Rightarrow> (Inr (Some st), wd_remote w) | None \<Rightarrow> ad_stat ad name p (wd_remote w)) = (u, r)"
    by fastforce
  then have r: "objs r = objs (wd_remote w)" by (auto split: option.splits dest: adapter_stat(1) [OF ad])
  have ins: "grown ok objs w (on_db (\<lambda>db. publishNodeChange (aa_node a) ChangeFiles (db\<lparr>files_t := files_t db @ [f]\<rparr>)) (w\<lparr>wd_remote := r\<rparr>))"
    if "fl_node f = aa_node a" "fl_remote_path f = Some p" for f
    by (rule grown_db) (simp_all add: db_grown_insert r ok that)
  have ins: "grown ok objs w (on_db (\<lambda>db. publishNodeChange (aa_node a) ChangeFiles
      (db\<lparr>files_t := files_t db @ [adopted_row a now i name p st]\<rparr>)) (w\<lparr>wd_remote := r\<rparr>))" for i st
    by (rule ins) (simp_all add: adopted_row_def)
  show ?thesis using assms(2) r ins
    by (auto simp: adopt_one_def st Let_def split: if_splits sum.splits option.splits)
qed

lemma adopt_each_grown:
  assumes ad: "adapter_ok ad objs"
  shows "adopt_each ad now ids a name nodeRoot ps (s, w) = (v, w') \<Longrightarrow> \<forall>p \<in> set ps. ok (aa_node a) (Some p) \<Longrightarrow>
    grown ok objs w w'"
proof (induction ps arbitrary: s w)
  case (Cons p ps)
  obtain u w1 where one: "adopt_one ad now ids a name nodeRoot p (s, w) = (u, w1)" by fastforce
  have "ok (aa_node a) (Some p)" using Cons.prems(2) by simp
  note g = adopt_one_grown [OF ad one, of ok, OF this]
  show ?case using Cons.prems one g grown_trans [OF g Cons.IH] by (auto split: sum.splits)
qed simp

lemma adoptFiles_grown:
  assumes ad: "adapter_ok ad objs" and step: "adoptFiles env ad now ids a w = (v, w')"
    and ok: "\<forall>p \<in> set (aa_paths a). ok (aa_node a) (Some p)"
  shows "grown ok objs w w'"
proof -
  have aud: "grown ok objs w (on_db (\<lambda>db. db\<lparr>audit_t := audit_t db @ es\<rparr>) w1)" if "grown ok objs w w1" for w1 es
  proof -
    have "grown ok objs w1 (on_db (\<lambda>db. db\<lparr>audit_t := audit_t db @ es\<rparr>) w1)" by (simp add: grown_def db_grown_audit)
    then show ?thesis by (rule grown_trans [OF that])
  qed
  have each: "grown ok objs w w1" if "objs r = objs (wd_remote w)" "adopt_each ad now ids a n nr (aa_paths a) (s, w\<lparr>wd_remote := r\<rparr>) = (u, w1)" for r n nr s u w1
    using grown_trans [OF _ adopt_each_grown [where ok = ok, OF ad that(2) ok]] that(1) by simp
  show ?thesis using step
    by (auto simp: adoptFiles_def split: if_splits option.splits sum.splits prod.splits
        dest!: adapter_open [OF ad] intro: aud each)
qed

lemma backfill_grown:
  assumes ad: "adapter_ok ad objs"
  shows "backfill_each ad hs name refs ps w = (es, w') \<Longrightarrow> grown ok objs w w'"
proof (induction ps arbitrary: w es w')
  case (Cons p ps)
  obtain i q where p: "p = (i, q)" by fastforce
  obtain v r where get: "ad_get ad name q (wd_remote w) = (v, r)" by fastforce
  note r = adapter_get(1) [OF ad get]
  have set: "grown ok objs w (on_db (set_hash i h) (w\<lparr>wd_remote := r\<rparr>))" for h
    by (rule grown_db) (simp_all add: set_hash_grown r)
  have read: "grown ok objs w (w\<lparr>wd_remote := r\<rparr>)" by (simp add: r)
  show ?case using Cons.prems Cons.IH grown_trans [OF set Cons.IH] grown_trans [OF read Cons.IH]
    by (auto simp: p get Let_def split: if_splits sum.splits prod.splits)
qed simp

lemma adopt_group_grown:
  assumes ad: "adapter_ok ad objs"
  shows "adopt_group_each env ad hs now ids user node name refs gs w = (v, w') \<Longrightarrow>
    \<forall>g \<in> set gs. \<forall>p \<in> set (snd g). ok node (Some p) \<Longrightarrow> grown ok objs w w'"
proof (induction gs arbitrary: w v w')
  case (Cons g gs)
  obtain u w1 where a: "adoptFiles env ad now ids
      \<lparr>aa_user = user, aa_node = node, aa_paths = snd g, aa_status = Some (fst g), aa_refs = refs\<rparr> w = (u, w1)" by fastforce
  have mine: "\<forall>p \<in> set (snd g). ok node (Some p)" and rest: "\<forall>g \<in> set gs. \<forall>p \<in> set (snd g). ok node (Some p)"
    using Cons.prems(2) by auto
  have g1: "grown ok objs w w1" by (rule adoptFiles_grown [OF ad a]) (use mine in simp)
  show ?case
  proof (cases u)
    case (Inl e)
    then show ?thesis using Cons.prems a g1 by simp
  next
    case (Inr s)
    obtain es w2 where b: "backfill_each ad hs name refs (an_adopted s) (on_db (persist_adopted refs (an_adopted s)) w1) = (es, w2)"
      by fastforce
    have "db_grown ok (wd_db w1) (persist_adopted refs (an_adopted s) (wd_db w1))"
      unfolding persist_adopted_def by (rule fold_grown) (rule persist_grown)
    then have "grown ok objs w1 (on_db (persist_adopted refs (an_adopted s)) w1)" by (simp add: grown_def)
    note g2 = grown_trans [OF g1 grown_trans [OF this backfill_grown [OF ad b]]]
    obtain x w3 where c: "adopt_group_each env ad hs now ids user node name refs gs w2 = (x, w3)" by fastforce
    show ?thesis using Cons.prems a b c Inr grown_trans [OF g2 Cons.IH [OF c rest]] by (auto simp: Let_def)
  qed
qed simp

lemma refresh_grown:
  assumes ad: "adapter_ok ad objs"
  shows "grown ok objs w (refreshRemoteHashes ad hs name cs w)"
proof (induction cs arbitrary: w)
  case (Cons c cs)
  obtain f ref where c: "c = (f, ref)" by fastforce
  obtain v r where res: "resolve_hash ad hs name (or_else (fl_remote_path f) []) (fr_hash ref) (wd_remote w) = (v, r)" by fastforce
  have r: "objs r = objs (wd_remote w)"
    using res by (auto simp: resolve_hash_def split: option.splits prod.splits dest: adapter_get(1) [OF ad])
  have set: "grown ok objs w (on_db (\<lambda>db. persistRemoteFileId (fl_id f) (fr_object ref) (set_hash (fl_id f) h db)) (w\<lparr>wd_remote := r\<rparr>))" for h
    by (rule grown_db) (simp_all add: r db_grown_trans [OF set_hash_grown persist_grown])
  have read: "grown ok objs w (w\<lparr>wd_remote := r\<rparr>)" by (simp add: r)
  show ?case using grown_trans [OF set Cons.IH] grown_trans [OF read Cons.IH] by (auto simp: c res split: sum.split)
qed simp

section \<open>Confirmed removals\<close>

lemma stat_each_confirms:
  assumes ad: "adapter_ok ad objs"
  shows "stat_each ad name fs r = (vs, r') \<Longrightarrow> objs r' = objs r \<and>
    (\<forall>f v. (f, v) \<in> set vs \<longrightarrow> f \<in> set fs \<and> (v = Inr None \<longrightarrow> objs r (name, or_else (fl_remote_path f) []) = None))"
proof (induction fs arbitrary: r vs r')
  case (Cons f fs)
  obtain v r1 where st: "ad_stat ad name (or_else (fl_remote_path f) []) r = (v, r1)" by fastforce
  note h = adapter_stat [OF ad st]
  obtain us r2 where rest: "stat_each ad name fs r1 = (us, r2)" by fastforce
  show ?case using Cons.prems Cons.IH [OF rest] h st rest by auto
qed simp

text \<open>The row a sweep drops leaves a tombstone under its id.\<close>

definition swept :: "file_row \<Rightarrow> graph_db \<Rightarrow> bool" where
  "swept f db \<longleftrightarrow>
     (\<exists>t \<in> set (audit_t db). au_target_id t = fl_id f \<and> au_target_type t = ''file'' \<and> au_action t = ''sync_delete_remote'' \<and>
        tomb_path t = fl_remote_path f)"

lemma swept_grown: "db_grown ok db db' \<Longrightarrow> swept f db \<Longrightarrow> swept f db'"
  by (auto simp: db_grown_def swept_def)

lemma sweep_tombstone_effect:
  assumes "fl_remote_path f \<noteq> None"
  shows "swept f (sweep_tombstone user node name f db)"
    and "swept g db \<Longrightarrow> swept g (sweep_tombstone user node name f db)"
    and "row_kept g db \<Longrightarrow> fl_id g \<noteq> fl_id f \<Longrightarrow> row_kept g (sweep_tombstone user node name f db)"
    and "row_kept g (sweep_tombstone user node name f db) \<Longrightarrow> row_kept g db"
  using assms
  by (auto simp: swept_def sweep_tombstone_def insert_audit_def publishNodeChange_def delete_file_row_def row_kept_def
      tomb_path_def json_text_def opt_json_def)

lemma drop_confirmed_effect:
  assumes "\<forall>(f, v) \<in> set vs. fl_remote_path f \<noteq> None"
  shows "drop_confirmed user node name vs db = ((ds, es), db') \<Longrightarrow>
    (\<forall>g. row_kept g db \<longrightarrow> row_kept g db' \<or> (\<exists>f. (f, Inr None) \<in> set vs \<and> fl_id f = fl_id g \<and> swept f db')) \<and>
    (\<forall>g. swept g db \<longrightarrow> swept g db')"
  using assms
proof (induction vs arbitrary: db ds es db')
  case (Cons x vs)
  obtain f v where x: "x = (f, v)" by fastforce
  have p: "fl_remote_path f \<noteq> None" "\<forall>(f, v) \<in> set vs. fl_remote_path f \<noteq> None" using Cons.prems(2) by (auto simp: x)
  show ?case
  proof (cases "v = Inr None")
    case True
    obtain ds' es' where rest: "drop_confirmed user node name vs (sweep_tombstone user node name f db) = ((ds', es'), db')"
      using Cons.prems(1) True by (auto simp: x split: prod.splits)
    note IH = Cons.IH [OF rest p(2)]
    note t = sweep_tombstone_effect [OF p(1), where user = user and node = node and name = name and db = db]
    have "row_kept g db' \<or> (\<exists>f. (f, Inr None) \<in> set (x # vs) \<and> fl_id f = fl_id g \<and> swept f db')" if k: "row_kept g db" for g
    proof (cases "fl_id g = fl_id f")
      case same: True
      then show ?thesis using IH t(1) True by (auto simp: x)
    next
      case False
      then show ?thesis using IH t(3) [OF k False] by auto
    qed
    then show ?thesis using IH t(2) by blast
  next
    case False
    obtain ds' es' where rest: "drop_confirmed user node name vs db = ((ds', es'), db')"
      using Cons.prems(1) False by (auto simp: x split: prod.splits sum.splits option.splits)
    show ?thesis using Cons.IH [OF rest p(2)] by auto
  qed
qed simp

section \<open>The sweep\<close>

lemma list_all_sections_reads:
  assumes ad: "adapter_ok ad objs"
  shows "list_all_sections ad name root ss r = (v, r') \<Longrightarrow> objs r' = objs r"
  by (induction ss arbitrary: r v r') (auto split: prod.splits dest!: adapter_list(1) [OF ad])

text \<open>Every row is still bound as it was, or the remote said its object is not there, and it left a tombstone.\<close>

definition sweep_safe :: "(node_id \<Rightarrow> string option \<Rightarrow> bool) \<Rightarrow> ('r \<Rightarrow> objects) \<Rightarrow> 'r world \<Rightarrow> 'r world \<Rightarrow> bool" where
  "sweep_safe ok objs w w' \<longleftrightarrow>
     objs (wd_remote w') = objs (wd_remote w) \<and> wd_local w' = wd_local w \<and> wd_state w' = wd_state w \<and> wd_ops w' = wd_ops w \<and>
     nodes_t (wd_db w') = nodes_t (wd_db w) \<and> edges_t (wd_db w') = edges_t (wd_db w) \<and>
     (\<forall>f \<in> set (files_t (wd_db w')). placed f (wd_db w) \<or> ok (fl_node f) (fl_remote_path f)) \<and>
     (\<forall>g. row_kept g (wd_db w) \<longrightarrow> row_kept g (wd_db w') \<or>
        (\<exists>f name path. f \<in> set (files_t (wd_db w)) \<and> fl_id f = fl_id g \<and> fl_remote_name f = Some name \<and>
           fl_remote_path f = Some path \<and> objs (wd_remote w) (name, path) = None \<and>
           swept f (wd_db w')))"

lemma grown_sweep_safe: "grown ok objs w w' \<Longrightarrow> sweep_safe ok objs w w'"
  by (simp add: grown_def sweep_safe_def db_grown_def)

lemma sweep_safe_refl: "sweep_safe ok objs u u" by (simp add: grown_sweep_safe)

lemma sweep_safe_remote: "objs r = objs (wd_remote w) \<Longrightarrow> sweep_safe ok objs (w\<lparr>wd_remote := r\<rparr>) w' = sweep_safe ok objs w w'"
  by (simp add: sweep_safe_def)

lemma sweep_safe_grown: "sweep_safe ok objs w u \<Longrightarrow> grown ok objs u v \<Longrightarrow> sweep_safe ok objs w v"
proof -
  assume s: "sweep_safe ok objs w u" and g: "grown ok objs u v"
  have "row_kept h (wd_db u) \<Longrightarrow> row_kept h (wd_db v)" "swept f (wd_db u) \<Longrightarrow> swept f (wd_db v)" for h f
    using g swept_grown by (auto simp: grown_def db_grown_def)
  moreover have "placed f (wd_db w) \<or> ok (fl_node f) (fl_remote_path f)" if "f \<in> set (files_t (wd_db v))" for f
    by (rule placed_trans [where b = "wd_db u"]) (use s g that in \<open>simp_all add: sweep_safe_def grown_def db_grown_def\<close>)
  moreover have "nodes_t (wd_db v) = nodes_t (wd_db u)" "edges_t (wd_db v) = edges_t (wd_db u)"
    using g by (simp_all add: grown_def db_grown_def)
  ultimately show ?thesis using s g unfolding sweep_safe_def grown_def by simp blast
qed

lemma drop_confirmed_frame:
  "drop_confirmed user node name vs db = ((ds, es), db') \<Longrightarrow>
     nodes_t db' = nodes_t db \<and> edges_t db' = edges_t db \<and> set (files_t db') \<subseteq> set (files_t db)"
proof (induction vs arbitrary: db ds es)
  case (Cons x vs)
  obtain f v where x: "x = (f, v)" by fastforce
  have t: "nodes_t (sweep_tombstone user node name f db) = nodes_t db" "edges_t (sweep_tombstone user node name f db) = edges_t db"
    "set (files_t (sweep_tombstone user node name f db)) \<subseteq> set (files_t db)"
    by (auto simp: sweep_tombstone_def delete_file_row_def insert_audit_def publishNodeChange_def)
  show ?case using Cons.prems t Cons.IH
    by (auto simp: x split: sum.splits option.splits prod.splits) (blast | fastforce)+
qed simp

lemma deleteRemovedRecords_safe:
  assumes ad: "adapter_ok ad objs" and step: "deleteRemovedRecords ad user node name fs w = (res, w')"
    and fs: "set fs \<subseteq> set (sweep_records node name (wd_db w))"
  shows "sweep_safe ok objs w w'"
proof -
  obtain vs r where st: "stat_each ad name fs (wd_remote w) = (vs, r)" by fastforce
  obtain ds es db where dr: "drop_confirmed user node name vs (wd_db w) = ((ds, es), db)" by (metis surj_pair)
  note c = stat_each_confirms [OF ad st]
  have mine: "f \<in> set (files_t (wd_db w)) \<and> fl_remote_name f = Some name \<and> fl_remote_path f \<noteq> None" if "(f, v) \<in> set vs" for f v
    using c that fs by (auto simp: sweep_records_def)
  have "\<forall>(f, v) \<in> set vs. fl_remote_path f \<noteq> None" using mine by blast
  note eff = drop_confirmed_effect [OF this dr]
  have w': "w' = w\<lparr>wd_db := db, wd_remote := r\<rparr>" using step by (simp add: deleteRemovedRecords_def st dr)
  have gone: "\<exists>name path. f \<in> set (files_t (wd_db w)) \<and> fl_remote_name f = Some name \<and> fl_remote_path f = Some path \<and>
      objs (wd_remote w) (name, path) = None" if "(f, Inr None) \<in> set vs" for f
  proof -
    have "objs (wd_remote w) (name, or_else (fl_remote_path f) []) = None" using c that by blast
    then show ?thesis using mine [OF that] by (auto simp: or_else_def)
  qed
  show ?thesis
    unfolding sweep_safe_def w' using c eff gone drop_confirmed_frame [OF dr] placed_self by simp blast
qed

lemma adopt_groups_adoptable:
  "\<forall>g \<in> set (adopt_groups nodeRoot refs). \<forall>p \<in> set (snd g). adoptableSection nodeRoot p \<noteq> None"
proof -
  define tags where "tags = (\<lambda>x :: string \<times> file_ref. case adoptableSection nodeRoot (fst x) of None \<Rightarrow> [] | Some s \<Rightarrow> [(adopt_status s, fst x)])"
  have tags: "adoptableSection nodeRoot (snd t) \<noteq> None" if t: "t \<in> set (concat (map tags refs))" for t
  proof -
    obtain x where "x \<in> set refs" and x: "t \<in> set (tags x)" using t by auto
    then show ?thesis by (cases "adoptableSection nodeRoot (fst x)") (simp_all add: tags_def)
  qed
  define l where "l = concat (map tags refs)"
  have "\<exists>t \<in> set l. p = snd t" if "g \<in> set (adopt_groups nodeRoot refs)" "p \<in> set (snd g)" for g p
    using that unfolding adopt_groups_def tags_def [symmetric] Let_def l_def [symmetric] by force
  then show ?thesis using tags unfolding l_def by metis
qed

lemma sweep_listed_safe:
  assumes ad: "adapter_ok ad objs" and ok: "\<And>p. adoptableSection nodeRoot p \<noteq> None \<Longrightarrow> ok node (Some p)"
    and step: "sweep_listed env ad hs now ids user node name nodeRoot retry listing w = (v, w')"
  shows "sweep_safe ok objs w w'"
proof -
  define seen where "seen = fold (\<lambda>x m. AList.update (fst x) (snd x) m) listing []"
  define records where "records = sweep_records node name (wd_db w)"
  define missing where "missing = missing_records seen records"
  obtain c r where st: "(if missing = [] then (Inr (Some \<lparr>fr_hash = None, fr_native = False, fr_object = None\<rparr>), wd_remote w)
                else ad_stat ad name nodeRoot (wd_remote w)) = (c, r)" by fastforce
  then have r: "objs r = objs (wd_remote w)" by (auto split: if_splits dest: adapter_stat(1) [OF ad])
  have stop: "sweep_safe ok objs w (w\<lparr>wd_remote := r\<rparr>)" by (rule grown_sweep_safe) (simp add: r)
  show ?thesis
  proof (cases "\<exists>x. c = Inr (Some x)")
    case False
    then have "w' = w\<lparr>wd_remote := r\<rparr>" using step
      by (auto simp: sweep_listed_def Let_def seen_def [symmetric] records_def [symmetric] missing_def [symmetric] st
          split: sum.splits option.splits)
    then show ?thesis using stop by simp
  next
    case True
    obtain ds des w1 where del: "deleteRemovedRecords ad user node name missing (w\<lparr>wd_remote := r\<rparr>) = ((ds, des), w1)"
      by (metis surj_pair)
    have "sweep_safe ok objs (w\<lparr>wd_remote := r\<rparr>) w1"
      by (rule deleteRemovedRecords_safe [OF ad del]) (auto simp: missing_def missing_records_def records_def)
    then have s1: "sweep_safe ok objs w w1" by (simp add: sweep_safe_remote r)
    define w2 where "w2 = refreshRemoteHashes ad hs name (refresh_candidates seen records) (on_db (persist_listed seen records) w1)"
    have "db_grown ok (wd_db w1) (persist_listed seen records (wd_db w1))"
      unfolding persist_listed_def by (rule fold_grown) (auto split: option.split intro: persist_grown)
    then have "grown ok objs w1 (on_db (persist_listed seen records) w1)" by (simp add: grown_def)
    then have s2: "sweep_safe ok objs w w2"
      unfolding w2_def by (rule sweep_safe_grown [OF s1 grown_trans]) (rule refresh_grown [OF ad])
    obtain u w3 where adopt: "adoptRemoteFiles env ad hs now ids user node name nodeRoot
        (filter (\<lambda>x. fst x \<notin> set (known_paths name nodeRoot (wd_db w2))) seen) w2 = (u, w3)" by fastforce
    have "w' = w3" using step True del adopt
      by (auto simp: sweep_listed_def Let_def seen_def [symmetric] records_def [symmetric] missing_def [symmetric] st
          w2_def [symmetric] split: sum.splits)
    moreover have "grown ok objs w2 w3"
      using adopt unfolding adoptRemoteFiles_def by (rule adopt_group_grown [OF ad]) (use adopt_groups_adoptable ok in blast)
    ultimately show ?thesis using sweep_safe_grown [OF s2] by simp
  qed
qed

lemma retry_nothing: "listPendingOps node w = [] \<Longrightarrow> retryPendingFileOps env ad now node w = (\<lparr>rr_repaired = [], rr_pending = []\<rparr>, w)"
  by (simp add: retryPendingFileOps_def)

text \<open>The places where a sweep of a node adopts: under one of the sections of its root.\<close>

definition adoptable_place :: "graph_db \<Rightarrow> node_id \<Rightarrow> node_id \<Rightarrow> string option \<Rightarrow> bool" where
  "adoptable_place db node n path \<longleftrightarrow>
     n = node \<and> (case resolveNodeInfo db node of None \<Rightarrow> False
                 | Some info \<Rightarrow> (case (buildNodeRoot info, path) of
                                 (Inr root, Some p) \<Rightarrow> adoptableSection root p \<noteq> None
                               | _ \<Rightarrow> False))"

lemma remoteSweep_safe:
  assumes ad: "adapter_ok ad objs" and ops: "listPendingOps node w = []"
    and step: "remoteSweep env ad hs now ids user node w = (v, w')"
  shows "sweep_safe (adoptable_place (wd_db w) node) objs w w'"
proof -
  let ?ok = "adoptable_place (wd_db w) node"
  have read: "\<And>r. objs r = objs (wd_remote w) \<Longrightarrow> sweep_safe ?ok objs w (w\<lparr>wd_remote := r\<rparr>)"
    by (auto intro: grown_sweep_safe)
  have go: "sweep_safe ?ok objs w w1" if "objs r = objs (wd_remote w)" "resolveNodeInfo (wd_db w) node = Some info"
    "buildNodeRoot info = Inr nr"
    "sweep_listed env ad hs now ids user node name nr retry l (w\<lparr>wd_remote := r\<rparr>) = (u, w1)" for name nr retry l r u w1 info
  proof -
    have "?ok node (Some p)" if "adoptableSection nr p \<noteq> None" for p
      using that \<open>resolveNodeInfo _ _ = _\<close> \<open>buildNodeRoot _ = _\<close> by (simp add: adoptable_place_def)
    from sweep_listed_safe [where ok = ?ok, OF ad this that(4)] show ?thesis using that(1) by (simp add: sweep_safe_remote)
  qed
  show ?thesis
    using step unfolding remoteSweep_def retry_nothing [OF ops]
    by (auto split: if_splits option.splits sum.splits prod.splits
        dest!: adapter_open [OF ad] list_all_sections_reads [OF ad] intro: sweep_safe_refl read go)
qed

end
