(* ===== verification/SyncPhases.thy ===== *)
theory SyncPhases
  imports SyncPlaces SweepLaws
begin

text \<open>
  The worlds a sync run goes through, and what a store and a pull of it may do to the files of the
  device and to the baselines.  \<open>run_phases\<close> follows \<^verbatim>\<open>runNodeSync\<close> and keeps the worlds at which the remote
  can differ: the one after the sweep and the scan, the one after each push, and the one before the
  untracked files go up.
\<close>

section \<open>The worlds of a run\<close>

fun push_points ::
  "env \<Rightarrow> 'r adapter \<Rightarrow> hasher \<Rightarrow> timestamp \<Rightarrow> (string \<Rightarrow> string) \<Rightarrow> file_edits \<Rightarrow> user_id \<Rightarrow> status_entry list \<Rightarrow> 'r world \<Rightarrow>
   'r world list" where
  "push_points env ad hs now ids edits user [] w = []"
| "push_points env ad hs now ids edits user (e # es) w =
     (case push_each env ad hs now ids edits user [e] w of (_, w1) \<Rightarrow> w1 # push_points env ad hs now ids edits user es w1)"

text \<open>The stale copies go before the untracked files are stored.\<close>

definition after_cleanup :: "env \<Rightarrow> hasher \<Rightarrow> user_id \<Rightarrow> node_id \<Rightarrow> 'r world \<Rightarrow> 'r world" where
  "after_cleanup env hs user node w =
     snd (cleanupDeletedRemote env (fst (matchDeleteTombstones env hs user (listUntrackedLocal env user node w) w)) w)"

text \<open>None when the run stops before it transfers anything.\<close>

definition run_phases ::
  "env \<Rightarrow> 'r adapter \<Rightarrow> hasher \<Rightarrow> timestamp \<Rightarrow> (string \<Rightarrow> string) \<Rightarrow> (string \<Rightarrow> string) \<Rightarrow> file_edits \<Rightarrow> user_id \<Rightarrow> node_id \<Rightarrow> 'r world \<Rightarrow>
   ('r world list \<times> 'r world) option" where
  "run_phases env ad hs now ids rids edits user node w =
     (if ev_local_only env then None
      else (case remoteSweep env ad hs now rids user node w of
              (Inl e, w1) \<Rightarrow> None
            | (Inr sweep, w1) \<Rightarrow>
                (case statusScan env ad hs (run_scan_args user node) w1 of
                   (Inl e, w2) \<Rightarrow> None
                 | (Inr s, w2) \<Rightarrow>
                     (case push_points env ad hs now ids edits user (bucket Push s) w2 of
                        pts \<Rightarrow>
                          (case pull_each env ad hs now user (bucket Pull s) (last (w2 # pts)) of
                             (_, w4) \<Rightarrow> Some (w2 # pts, after_cleanup env hs user node w4))))))"

lemma push_each_points:
  "snd (push_each env ad hs now ids edits user es w) = last (w # push_points env ad hs now ids edits user es w)"
proof (induction es arbitrary: w)
  case (Cons e es)
  have "snd (push_each env ad hs now ids edits user (e # es) w) =
      snd (push_each env ad hs now ids edits user es (snd (push_each env ad hs now ids edits user [e] w)))"
    by (auto split: option.splits prod.splits sum.splits)
  then show ?case using Cons.IH by (simp split: prod.splits)
qed simp

section \<open>What a store and a pull do to the baselines\<close>

text \<open>A hash of an object that one of some worlds holds on a remote.\<close>

definition held :: "hasher \<Rightarrow> ('r \<Rightarrow> objects) \<Rightarrow> 'r world list \<Rightarrow> string \<Rightarrow> bool" where
  "held hs objs us h \<longleftrightarrow> (\<exists>u \<in> set us. \<exists>k b m. objs (wd_remote u) k = Some b \<and> h = hash_as hs m b)"

lemma heldI: "u \<in> set us \<Longrightarrow> objs (wd_remote u) k = Some b \<Longrightarrow> held hs objs us (hash_as hs m b)"
  unfolding held_def by blast

lemma held_content:
  assumes "hasher_ok hs" and "held hs objs us (hash_as hs m c)"
  shows "\<exists>u \<in> set us. \<exists>k b. objs (wd_remote u) k = Some b \<and> hash_as hs m b = hash_as hs m c"
proof -
  have m: "m = m'" if "hash_as hs m c = hash_as hs m' b" for m' b
    using that hash_as_length [OF assms(1), of m c] hash_as_length [OF assms(1), of m' b] by simp
  obtain u k b m' where u: "u \<in> set us" "objs (wd_remote u) k = Some b" "hash_as hs m c = hash_as hs m' b"
    using assms(2) unfolding held_def by blast
  have "hash_as hs m b = hash_as hs m c" using u(3) m [OF u(3)] by simp
  then show ?thesis using u(1,2) by blast
qed

lemma held_mono: "held hs objs us h \<Longrightarrow> set us \<subseteq> set vs \<Longrightarrow> held hs objs vs h"
  unfolding held_def by blast

text \<open>A new baseline is the hash of an object of the world after it.\<close>

definition synced_from :: "hasher \<Rightarrow> ('r \<Rightarrow> objects) \<Rightarrow> 'r world \<Rightarrow> 'r world \<Rightarrow> bool" where
  "synced_from hs objs w w' \<longleftrightarrow> (\<forall>i h. baseline w' i = Some h \<longrightarrow> baseline w i = Some h \<or> held hs objs [w'] h)"

lemma synced_same: "baseline w' = baseline w \<Longrightarrow> synced_from hs objs w w'"
  by (simp add: synced_from_def)

lemma synced_upsert:
  assumes "baseline w1 = baseline w" and "objs (wd_remote w1) k = Some b" and "st_synced st = Some (hash_as hs m b)"
  shows "synced_from hs objs w (upsertFileState i st w1)"
proof -
  have "held hs objs [upsertFileState i st w1] (hash_as hs m b)"
    by (rule heldI [where k = k and u = "upsertFileState i st w1"]) (simp_all add: assms(2) local_simps)
  then show ?thesis using assms by (auto simp: synced_from_def local_simps split: if_splits)
qed

lemma synced_on_db [simp]: "synced_from hs objs w (on_db h w') = synced_from hs objs w w'"
  by (simp add: synced_from_def held_def local_simps)

lemma synced_pull_locked:
  assumes ad: "adapter_ok ad objs" and step: "pull_locked env ad hs now a row name path p w = (v, w')"
  shows "synced_from hs objs w w'"
proof -
  obtain c r where get: "ad_get ad name path (wd_remote w) = (c, r)" by (cases "ad_get ad name path (wd_remote w)")
  note r = adapter_get [OF ad get]
  have keep: "baseline w2 = baseline w" "objs (wd_remote w2) = objs (wd_remote w)"
    if "write_local env now p bytes (w\<lparr>wd_remote := r\<rparr>) = (u, w2)" for bytes u w2
    using write_local_effect(1) [OF that] r(1) by (simp_all add: baseline_def getFileState_def fun_eq_iff)
  have same: "synced_from hs objs w (w\<lparr>wd_remote := r\<rparr>)" by (rule synced_same) (simp add: baseline_frame)
  have up: "synced_from hs objs w (upsertFileState i (synced_state now (hash_as hs m bytes) x f) w2)"
    if "c = Inr bytes" "write_local env now p bytes (w\<lparr>wd_remote := r\<rparr>) = (u, w2)" for bytes u w2 i m x f
    by (rule synced_upsert [where k = "(name, path)" and b = bytes and m = m])
       (use keep [OF that(2)] r that(1) in \<open>simp_all add: synced_state_def\<close>)
  have failed: "synced_from hs objs w w2" if "write_local env now p bytes (w\<lparr>wd_remote := r\<rparr>) = (u, w2)" for bytes u w2
    using synced_same [OF keep(1) [OF that]] .
  show ?thesis
    using step
    by (cases c) (auto simp: pull_locked_def get Let_def same split: if_splits option.splits sum.splits prod.splits intro: up failed)
qed

lemma synced_via_remote:
  "synced_from hs objs (w\<lparr>wd_remote := r\<rparr>) w' \<Longrightarrow> synced_from hs objs w w'"
  by (simp add: synced_from_def local_simps baseline_frame)

lemma synced_pull:
  assumes ad: "adapter_ok ad objs" and step: "pullFile env ad hs now a w = (v, w')"
  shows "synced_from hs objs w w'"
  using step
  by (auto simp: pullFile_def synced_same baseline_frame split: if_splits option.splits sum.splits prod.splits
      dest: synced_pull_locked [OF ad] intro: synced_via_remote)

lemma synced_store_locked:
  assumes ad: "adapter_ok ad objs" and ok: "hasher_ok hs"
    and step: "store_locked ad hs now newId edits a filename name path dst w = (v, w')"
  shows "synced_from hs objs w w' \<and> (wd_local w' = wd_local w \<or> wd_local w' = edits (wd_local w))"
proof (cases "local_at w dst")
  case None
  then show ?thesis using step by (simp add: store_locked_def synced_same)
next
  case (Some f)
  obtain x r where pb: "push_bytes ad hs name path (lf_content f) (wd_remote w) = (x, r)" by fastforce
  have up: "objs r (name, path) = Some (lf_content f) \<and> h = hash_as hs (is_md5 h) (lf_content f)" if "x = Inr (h, obj)" for h obj
    using push_bytes_effect(2) [OF ad pb ok that] .
  let ?w = "\<lambda>i db h. w\<lparr>wd_remote := r, wd_local := edits (wd_local w), wd_db := publishNodeChange (sa_node a) ChangeFiles
      (insert_audit (sa_user a) ''sync_store'' ''file'' i (store_detail (Some name) path h) db)\<rparr>"
  have new: "synced_from hs objs w (upsertFileState i (synced_state now h cached g) (?w i db h))" if "x = Inr (h, obj)" for h obj i cached g db
    by (rule synced_upsert [where k = "(name, path)" and b = "lf_content f" and m = "is_md5 h"])
       (use up [OF that] in \<open>simp_all add: synced_state_def local_simps baseline_frame\<close>)
  have same: "synced_from hs objs w (?w i db h)" "synced_from hs objs w (w\<lparr>wd_remote := r, wd_local := edits (wd_local w)\<rparr>)" for i db h
    by (rule synced_same; simp add: baseline_frame)+
  have loc: "wd_local (upsertFileState i st u) = wd_local u" for i st and u :: "'a world" by (simp add: upsertFileState_def)
  show ?thesis
    using step
    by (cases x) (auto simp: store_locked_def Some pb Let_def same loc split: option.splits prod.splits intro: new)
qed

lemma copy_in_place: "copy_in env now p p w = (v, w') \<Longrightarrow> w' = w"
  by (auto simp: copy_in_def split: option.splits)

text \<open>A store in place changes the device's files by the edits of its user only.\<close>

lemma synced_store:
  assumes ad: "adapter_ok ad objs" and ok: "hasher_ok hs"
    and place: "\<And>root dst. getMirrorPath env (sa_user a) (sa_node a) = Some root \<Longrightarrow>
      mirrored_path env root (place_of env root a) = Inr dst \<Longrightarrow> dst = sa_local a"
    and step: "storeFile env ad hs now newId edits a w = (v, w')"
  shows "synced_from hs objs w w' \<and> (wd_local w' = wd_local w \<or> wd_local w' = edits (wd_local w))"
proof -
  have root: "getMirrorPath env (sa_user a) (sa_node a) = Some root" if "truthy_opt (getMirrorPath env (sa_user a) (sa_node a)) = Some root" for root
    using that by (auto simp: truthy_opt_def split: option.splits list.splits)
  have copy: "w1 = w" if "truthy_opt (getMirrorPath env (sa_user a) (sa_node a)) = Some root"
    "mirrored_path env root (place_of env root a) = Inr dst" "copy_in env now (sa_local a) dst w = (x, w1)" for root dst x w1
    using place [OF root [OF that(1)] that(2)] that(3) copy_in_place by blast
  have go: "synced_from hs objs w w2 \<and> (wd_local w2 = wd_local w \<or> wd_local w2 = edits (wd_local w))"
    if "truthy_opt (getMirrorPath env (sa_user a) (sa_node a)) = Some root"
      "mirrored_path env root (place_of env root a) = Inr dst" "copy_in env now (sa_local a) dst w = (x, w1)"
      "store_locked ad hs now newId edits a fn name path dst w1 = (y, w2)" for root dst x w1 fn name path y w2
    using synced_store_locked [OF ad ok that(4)] copy [OF that(1-3)] by simp
  have stay: "synced_from hs objs w w" by (simp add: synced_same)
  show ?thesis
    using step
    by (simp add: storeFile_def Let_def split: if_splits option.splits sum.splits prod.splits)
       (use go copy stay in blast)+
qed

lemma pullFile_resolved:
  assumes "adapter_ok ad objs" and "pullFile env ad hs now a w = (v, w')" and "local_at w' q \<noteq> None"
  shows "local_at w q \<noteq> None \<or> resolved (ev_cwd env) q"
proof -
  have locked: "q = p \<or> local_at w2 q = local_at w1 q"
    if "pull_locked env ad hs now a row name path p w1 = (x, w2)" for row name path p w1 x w2
  proof (cases "q = p")
    case False
    have keep: "local_at u q = local_at w0 q" if "write_local env now p c w0 = (y, u)" for c w0 y u
      using write_local_effect(2) [OF that] False by blast
    show ?thesis using that
      by (auto simp: pull_locked_def Let_def local_simps split: if_splits option.splits sum.splits prod.splits dest!: keep)
  qed simp
  show ?thesis
    using assms(2,3)
    by (auto simp: pullFile_def local_simps bind_sum_Inr split: if_splits option.splits sum.splits prod.splits
        dest!: locked dest: derive_resolved)
qed

section \<open>Places in the sections\<close>

definition place_in_section :: "graph_db \<Rightarrow> node_id \<Rightarrow> string option \<Rightarrow> bool" where
  "place_in_section db n path \<longleftrightarrow>
     (case resolveNodeInfo db n of
        None \<Rightarrow> True
      | Some info \<Rightarrow> (case (buildNodeRoot info, path) of (Inr root, Some p) \<Rightarrow> under_section root p | _ \<Rightarrow> True))"

lemma adoptable_under_section: "adoptableSection root p \<noteq> None \<Longrightarrow> under_section root p"
proof -
  assume ad: "adoptableSection root p \<noteq> None"
  define rel where "rel = drop (length (root @ ''/'')) p"
  have p: "p = root @ ''/'' @ rel" and s: "hd (split_on CHR ''/'' rel) \<in> set SECTIONS" "tl (split_on CHR ''/'' rel) \<noteq> []"
    using ad by (auto simp: adoptableSection_def Let_def under_dir_def rel_def prefix_def split: if_splits)
  define sec where "sec = hd (split_on CHR ''/'' rel)"
  define rest where "rest = tl (split_on CHR ''/'' rel)"
  have "split_on CHR ''/'' rel = sec # rest" by (simp add: sec_def rest_def)
  then have "rel = join_with ''/'' (sec # rest)" using join_split_on [of "CHR ''/''" rel] by simp
  then have "rel = sec @ ''/'' @ join_with ''/'' rest" using s(2) by (simp add: rest_def join_with_Cons)
  then have "under_dir (root @ ''/'' @ sec) p" by (simp add: under_dir_def p)
  then show ?thesis using s(1) by (auto simp: under_section_def list_ex_iff sec_def)
qed

lemma adoptable_in_section: "adoptable_place db node n path \<Longrightarrow> place_in_section db n path"
  by (auto simp: adoptable_place_def place_in_section_def split: option.splits sum.splits intro: adoptable_under_section)

lemma resolveNodeInfo_cong: "nodes_t db' = nodes_t db \<Longrightarrow> edges_t db' = edges_t db \<Longrightarrow> resolveNodeInfo db' = resolveNodeInfo db"
proof -
  assume n: "nodes_t db' = nodes_t db" and e: "edges_t db' = edges_t db"
  have a: "node_by_id db' = node_by_id db" and b: "org_membership_edges db' = org_membership_edges db"
    by (simp_all add: fun_eq_iff node_by_id_def org_membership_edges_def n e)
  show ?thesis by (rule ext) (simp only: resolveNodeInfo_def a b)
qed

lemma derive_under_section:
  assumes root: "mirror_root cwd root" and sec: "under_section nr path" and d: "deriveLocalPath cwd root nr path = Inr p"
  shows "under_section root p"
proof -
  obtain s t where s: "s \<in> set SECTIONS" and path: "path = nr @ ''/'' @ s @ ''/'' @ t"
    using sec by (auto simp: under_section_def under_dir_def list_ex_iff prefix_def)
  have safe: "assertSafeRelativePath (s @ ''/'' @ t) ''deriveLocalPath.remotePath'' = Inr ()"
    and under: "ensureUnderRoot cwd root (s @ ''/'' @ t) = Some p"
    using d by (auto simp: deriveLocalPath_def Let_def bind_sum_Inr path split: if_splits option.splits)
  have s1: "split_on CHR ''/'' s = [s]" using s by (auto simp: SECTIONS_def)
  have split: "split_on CHR ''/'' (s @ ''/'' @ t) = s # split_on CHR ''/'' t"
    using split_on_append [of "CHR ''/''" s t] s1 by simp
  have plain: "\<forall>x \<in> set (s # split_on CHR ''/'' t). plain_segment x"
    using safe safe_segment_plain unfolding safe_relative_iff split by blast
  have rel: "s @ ''/'' @ t = join_with ''/'' (s # split_on CHR ''/'' t)" using join_split_on [of "CHR ''/''" t] by (simp add: join_with_Cons)
  have "p = CHR ''/'' # join_with ''/'' (root_segments cwd root @ s # split_on CHR ''/'' t)"
    using under ensure_below [OF mirror_root_segments [OF root] _ plain] unfolding rel by simp
  also have "\<dots> = root @ ''/'' @ s @ ''/'' @ t"
    using resolved_segments [of cwd root] root mirror_root_segments [OF root] rel
    by (simp add: join_with_append mirror_root_def)
  finally have "under_dir (root @ ''/'' @ s) p" by (simp add: under_dir_def)
  then show ?thesis using s by (auto simp: under_section_def list_ex_iff)
qed

end
