(* ===== verification/SyncRunLaws.thy ===== *)
theory SyncRunLaws
  imports SyncPhases
begin

text \<open>
  The stale copies a sync run removes, and the run as a whole: in the worlds of \<^verbatim>\<open>SyncPhases\<close>, what it
  takes from the device is on a remote by then or was synced before.
\<close>

section \<open>Stale copies\<close>

text \<open>The hashes that come with untracked entries are those of the files on disk.\<close>

definition truthful :: "hasher \<Rightarrow> 'r world \<Rightarrow> new_local list \<Rightarrow> bool" where
  "truthful hs w entries \<longleftrightarrow>
     (\<forall>e \<in> set entries. \<forall>x. nl_hash e = Some x \<longrightarrow> (\<exists>f. local_at w (nl_local e) = Some f \<and> x = hs_sha hs (lf_content f)))"

text \<open>A copy at a place that a tombstone of the node names, byte for byte as this device last synced it.\<close>

definition stale_copy :: "hasher \<Rightarrow> 'r world \<Rightarrow> deleted_remote \<Rightarrow> bool" where
  "stale_copy hs w g \<longleftrightarrow>
     (\<exists>f m t. local_at w (ge_local g) = Some f \<and> baseline w (ge_file g) = Some (hash_as hs m (lf_content f)) \<and>
        t \<in> set (audit_t (wd_db w)) \<and> is_tombstone (au_action t) \<and> au_target_id t = ge_file g \<and> tomb_path t = Some (ge_path g) \<and>
        (ge_alive g \<longrightarrow> (case file_by_id (wd_db w) (ge_file g) of None \<Rightarrow> True | Some r \<Rightarrow> fl_remote_path r \<noteq> Some (ge_path g))))"

lemma disk_hash:
  assumes "diskHashMatching hs h p pre w = Some h" and "\<And>x. pre = Some x \<Longrightarrow> \<exists>f. local_at w p = Some f \<and> x = hs_sha hs (lf_content f)"
  shows "\<exists>f m. local_at w p = Some f \<and> h = hash_as hs m (lf_content f)"
  using assms
  by (auto simp: diskHashMatching_def hash_as_def split: if_splits option.splits)

lemma truthy_SomeD: "truthy_opt s = Some x \<Longrightarrow> s = Some x"
  by (auto simp: truthy_opt_def split: option.splits list.splits)

lemma match_one_stale:
  assumes tr: "truthful hs w entries" and t: "t \<in> set (audit_t (wd_db w))" "is_tombstone (au_action t)"
    and m: "match_one env hs root nodeRoot node entries w t matched = Some g"
  shows "stale_copy hs w g"
proof -
  obtain path where p: "truthy_opt (tomb_path t) = Some path" using m by (auto simp: match_one_def split: option.splits)
  obtain expected where x: "deriveLocalPath (ev_cwd env) root nodeRoot path = Inr expected"
    using m by (auto simp: match_one_def p split: sum.splits)
  obtain e where e: "takeUnmatched entries expected matched = Some e" using m by (auto simp: match_one_def p x split: option.splits)
  have "(case getFileState i w of None \<Rightarrow> None | Some st \<Rightarrow> st_synced st) = baseline w i" for i by (simp add: baseline_def)
  note m' = m [unfolded match_one_def p x e option.case sum.case Let_def this]
  obtain h where st: "baseline w (au_target_id t) = Some h" using m' by (auto split: option.splits)
  define alive where "alive = (au_action t = ''sync_move'' \<or> au_action t = ''sync_rename'')"
  have d: "diskHashMatching hs h (nl_local e) (nl_hash e) w = Some h"
    and alive: "\<not> (alive \<and> (case file_by_id (wd_db w) (au_target_id t) of None \<Rightarrow> False | Some f \<Rightarrow> fl_remote_path f = Some path))"
    and g: "g = \<lparr>ge_file = au_target_id t, ge_node = node, ge_filename = nl_filename e, ge_local = nl_local e, ge_path = path,
      ge_hash = h, ge_alive = alive\<rparr>"
    using m' [unfolded st option.case alive_def [symmetric]] by (simp_all split: if_splits)
  have "e \<in> set entries" using e by (auto simp: takeUnmatched_def dest: find_SomeD)
  then have "\<exists>f m. local_at w (nl_local e) = Some f \<and> h = hash_as hs m (lf_content f)"
    using disk_hash [OF d] tr by (auto simp: truthful_def)
  then show ?thesis using st t truthy_SomeD [OF p] alive by (auto simp: stale_copy_def g split: option.splits)
qed

lemma match_each_stale:
  "\<forall>t \<in> set ts. t \<in> set (audit_t (wd_db w)) \<and> is_tombstone (au_action t) \<Longrightarrow> truthful hs w entries \<Longrightarrow>
     \<forall>g \<in> set (match_each (match_one env hs root nodeRoot node entries w) ts matched). stale_copy hs w g"
  by (induction ts arbitrary: matched) (auto split: option.splits dest: match_one_stale)

lemma tombstones_sound: "t \<in> set (tombstones db node paths) \<Longrightarrow> t \<in> set (audit_t db) \<and> is_tombstone (au_action t)"
  by (auto simp: tombstones_def)

lemma match_nodes_stale:
  "truthful hs w entries \<Longrightarrow> \<forall>g \<in> set (match_nodes env hs user w entries is matched). stale_copy hs w g"
proof (induction "is" arbitrary: matched)
  case (Cons i "is")
  have "truthful hs w (filter (\<lambda>e. nl_node e = i) entries)" using Cons.prems by (simp add: truthful_def)
  then have "\<forall>g \<in> set (match_node env hs user w i (filter (\<lambda>e. nl_node e = i) entries) matched). stale_copy hs w g"
    using match_each_stale tombstones_sound by (auto simp: match_node_def split: option.splits) blast
  then show ?case using Cons.IH [OF Cons.prems] by (auto simp: Let_def)
qed simp

lemma matchDeleteTombstones_stale:
  assumes "matchDeleteTombstones env hs user entries w = (gone, rest)" and "truthful hs w entries"
  shows "\<forall>g \<in> set gone. stale_copy hs w g" and "set rest \<subseteq> set entries"
  using assms match_nodes_stale [OF assms(2)] by (auto simp: matchDeleteTombstones_def Let_def)

lemma cleanup_effect:
  "cleanupDeletedRemote env gs w = ((cs, es), w') \<Longrightarrow>
     set cs \<subseteq> set gs \<and> wd_db w' = wd_db w \<and> wd_remote w' = wd_remote w \<and>
     local_at w' = (\<lambda>p. if p \<in> ge_local ` set cs then None else local_at w p) \<and>
     baseline w' = (\<lambda>i. if i \<in> ge_file ` set (filter (\<lambda>c. \<not> ge_alive c) cs) then None else baseline w i)"
proof (induction gs arbitrary: w cs es)
  case (Cons g gs)
  show ?case
  proof (cases "ev_rm_error env (ge_local g)")
    case None
    obtain cs' es' where rest: "cleanupDeletedRemote env gs (cleanup_one env g w) = ((cs', es'), w')" and cs: "cs = g # cs'"
      using Cons.prems None by (auto split: prod.splits)
    have one: "wd_db (cleanup_one env g w) = wd_db w" "wd_remote (cleanup_one env g w) = wd_remote w"
      "local_at (cleanup_one env g w) = (local_at w)(ge_local g := None)"
      "baseline (cleanup_one env g w) = (if ge_alive g then baseline w else (baseline w)(ge_file g := None))"
      by (auto simp: cleanup_one_def Let_def local_simps fun_eq_iff)
    show ?thesis using Cons.IH [OF rest] by (auto simp: cs one fun_eq_iff)
  next
    case (Some e)
    then show ?thesis using Cons.prems Cons.IH by (auto split: prod.splits)
  qed
qed (simp add: fun_eq_iff)

lemma cleanup_drops:
  assumes step: "cleanupDeletedRemote env gs w = ((cs, es), w')" and stale: "\<forall>g \<in> set gs. stale_copy hs w g"
  shows "local_at w p = Some f \<Longrightarrow> local_at w' p = Some f \<or> (\<exists>i m. baseline w i = Some (hash_as hs m (lf_content f)))"
    and "baseline w' i = Some h \<Longrightarrow> baseline w i = Some h"
  using cleanup_effect [OF step] stale by (force simp: stale_copy_def split: if_splits)+

section \<open>Files in the mirrors\<close>

text \<open>A path of the device that a store of the node puts where it is: resolved, in a section of the node's mirror.\<close>

definition in_mirror :: "env \<Rightarrow> user_id \<Rightarrow> node_id \<Rightarrow> string \<Rightarrow> bool" where
  "in_mirror env user n p \<longleftrightarrow>
     resolved (ev_cwd env) p \<and>
     (\<forall>root. getMirrorPath env user n = Some root \<longrightarrow> mirror_root (ev_cwd env) root \<and> under_section root p)"

text \<open>The mirrors of the device are resolved directories; so are the paths of its files.\<close>

definition mirrors_ok :: "env \<Rightarrow> bool" where
  "mirrors_ok env \<longleftrightarrow> list_all (\<lambda>m. mirror_root (ev_cwd env) (snd (snd m))) (ev_mirrors env)"

definition files_resolved :: "env \<Rightarrow> 'r world \<Rightarrow> bool" where
  "files_resolved env w \<longleftrightarrow> list_all (\<lambda>x. resolved (ev_cwd env) (fst x)) (wd_local w)"

text \<open>The records of a node are in the sections of its directory.\<close>

definition rows_in_sections :: "node_id \<Rightarrow> graph_db \<Rightarrow> bool" where
  "rows_in_sections node db \<longleftrightarrow>
     list_all (\<lambda>f. fl_node f = node \<longrightarrow> place_in_section db node (fl_remote_path f)) (files_t db)"

lemma mirror_of: "mirrors_ok env \<Longrightarrow> getMirrorPath env user n = Some root \<Longrightarrow> mirror_root (ev_cwd env) root"
  by (auto simp: mirrors_ok_def getMirrorPath_def list_all_iff dest!: find_SomeD)

lemma file_resolved: "files_resolved env w \<Longrightarrow> local_at w p \<noteq> None \<Longrightarrow> resolved (ev_cwd env) p"
  by (auto simp: files_resolved_def list_all_iff local_at_def dest!: map_of_SomeD)

lemma in_mirror_place:
  assumes "in_mirror env (sa_user a) (sa_node a) (sa_local a)" and "getMirrorPath env (sa_user a) (sa_node a) = Some root"
    and "mirrored_path env root (place_of env root a) = Inr dst"
  shows "dst = sa_local a"
  using assms stored_in_place by (auto simp: in_mirror_def)

lemma mirror_section:
  assumes root: "mirror_root cwd root" and s: "s \<in> set SECTIONS"
  shows "posix_join [root, s] = root @ ''/'' @ s"
proof -
  obtain ss where r: "root = CHR ''/'' # join_with ''/'' ss" and ne: "ss \<noteq> []" and plain: "\<forall>t \<in> set ss. plain_segment t"
    using resolved_segments [of cwd root] mirror_root_segments [OF root] root by (auto simp: mirror_root_def)
  have ps: "plain_segment s" "s \<noteq> []" using s by (auto simp: SECTIONS_def plain_segment_def)
  have eq: "root @ ''/'' @ s = CHR ''/'' # join_with ''/'' (ss @ [s])"
    using ne by (simp add: r join_with_append)
  have all: "\<forall>t \<in> set (ss @ [s]). plain_segment t" using plain ps by simp
  have "posix_join [root, s] = posix_normalize (root @ ''/'' @ s)"
    using ps by (simp add: posix_join_def r join_with_Cons)
  also have "\<dots> = root @ ''/'' @ s"
    unfolding eq using all join_with_nonempty [of "ss @ [s]" "''/''"] plain_join_ends(2) [of "ss @ [s]" "''/''"]
    by (simp add: posix_normalize_def normalize_string_def path_simps Let_def isAbsolute_def)
  finally show ?thesis .
qed

section \<open>The phases of a run\<close>

text \<open>The files a user makes while a path uploads have resolved paths.\<close>

definition edits_resolved :: "env \<Rightarrow> file_edits \<Rightarrow> bool" where
  "edits_resolved env edits \<longleftrightarrow> (\<forall>q xs. list_all (\<lambda>x. resolved (ev_cwd env) (fst x)) xs \<longrightarrow>
     list_all (\<lambda>x. resolved (ev_cwd env) (fst x)) (edits q xs))"

lemma scanRow_local:
  assumes "scanRow env ad hs user states listings f w = (e, w')" and "se_local e = Some p"
  shows "se_node e = fl_node f \<and> (\<exists>info. resolveNodeInfo (wd_db w) (fl_node f) = Some info \<and> row_local_path env user info f = Some p)"
  using assms
  by (auto simp: scanRow_def row_verdict_def Let_def entry_of_def split: option.splits if_splits prod.splits)

lemma row_in_mirror:
  assumes ok: "mirrors_ok env" and info: "resolveNodeInfo db (fl_node f) = Some info"
    and p: "row_local_path env user info f = Some p" and sec: "place_in_section db (fl_node f) (fl_remote_path f)"
  shows "in_mirror env user (fl_node f) p"
proof -
  obtain path where path: "truthy_opt (fl_remote_path f) = Some path" and ml: "mirror_local env user (fl_node f) info path = Some p"
    using p by (auto simp: row_local_path_def split: option.splits)
  have "under_section root p" if root: "getMirrorPath env user (fl_node f) = Some root" for root
  proof -
    note m = mirror_of [OF ok root]
    have "truthy_opt (getMirrorPath env user (fl_node f)) = Some root"
      using ml root by (auto simp: mirror_local_def dest: truthy_SomeD split: option.splits)
    then obtain nr where nr: "buildNodeRoot info = Inr nr" and d: "deriveLocalPath (ev_cwd env) root nr path = Inr p"
      using ml by (auto simp: mirror_local_def bind_sum_Inr split: sum.splits)
    have "under_section nr path" using sec truthy_SomeD [OF path] by (simp add: place_in_section_def info nr)
    then show ?thesis by (rule derive_under_section [OF m _ d])
  qed
  then show ?thesis using row_local_resolved [OF p] mirror_of [OF ok] by (simp add: in_mirror_def)
qed

lemma store_path_effect:
  assumes ad: "adapter_ok ad objs" and ok: "hasher_ok hs" and p: "in_mirror env user n p"
    and step: "store_path env ad hs now ids edits user n p w = (v, w')"
  shows "synced_from hs objs w w' \<and> (\<exists>qs. wd_local w' = fold edits qs (wd_local w))"
proof -
  let ?a = "\<lparr>sa_user = user, sa_node = n, sa_local = p, sa_status = None, sa_subpath = None\<rparr>"
  have p': "in_mirror env (sa_user ?a) (sa_node ?a) (sa_local ?a)" using p by simp
  have st: "storeFile env ad hs now (ids p) (edits p) ?a w = (v, w')" using step by (simp add: store_path_def)
  have eff: "synced_from hs objs w w'" "wd_local w' = wd_local w \<or> wd_local w' = edits p (wd_local w)"
    using synced_store [OF ad ok in_mirror_place [OF p'] st] by auto
  have "wd_local w' = fold edits [] (wd_local w) \<or> wd_local w' = fold edits [p] (wd_local w)" using eff(2) by simp
  then show ?thesis using eff(1) by blast
qed

lemma push_one_effect:
  assumes ad: "adapter_ok ad objs" and ok: "hasher_ok hs" and e: "\<And>p. se_local e = Some p \<Longrightarrow> in_mirror env user (se_node e) p"
    and w': "w' = snd (push_each env ad hs now ids edits user [e] w)"
  shows "synced_from hs objs w w' \<and> (\<exists>qs. wd_local w' = fold edits qs (wd_local w))"
proof (cases "truthy_opt (se_local e)")
  case None
  then have "w' = w" "fold edits [] (wd_local w) = wd_local w" by (simp_all add: w')
  then show ?thesis using synced_same by metis
next
  case (Some p)
  obtain v w1 where st: "store_path env ad hs now ids edits user (se_node e) p w = (v, w1)" by fastforce
  have "w' = w1" using Some st by (simp add: w' split: sum.splits)
  then show ?thesis using store_path_effect [OF ad ok e [OF truthy_SomeD [OF Some]] st] by simp
qed

lemma fold_fold: "\<exists>rs. fold f qs (fold f ps x) = fold f rs x"
  using fold_append [of f ps qs] by (metis comp_apply)

lemma push_points_effect:
  assumes ad: "adapter_ok ad objs" and ok: "hasher_ok hs"
  shows "\<forall>e \<in> set es. \<forall>p. se_local e = Some p \<longrightarrow> in_mirror env user (se_node e) p \<Longrightarrow>
     us = push_points env ad hs now ids edits user es w \<Longrightarrow>
     (\<exists>qs. wd_local (last (w # us)) = fold edits qs (wd_local w)) \<and>
     (\<forall>i h. baseline (last (w # us)) i = Some h \<longrightarrow> baseline w i = Some h \<or> held hs objs us h)"
proof (induction es arbitrary: w us)
  case Nil
  then show ?case by (auto intro: exI [of _ "[]"])
next
  case (Cons e es)
  define w1 where "w1 = snd (push_each env ad hs now ids edits user [e] w)"
  define vs where "vs = push_points env ad hs now ids edits user es w1"
  have us: "us = w1 # vs" using Cons.prems(2) by (simp add: w1_def vs_def split_def)
  have one: "synced_from hs objs w w1" "\<exists>qs. wd_local w1 = fold edits qs (wd_local w)"
    using push_one_effect [OF ad ok _ w1_def] Cons.prems(1) by auto
  obtain qs where qs: "wd_local (last (w1 # vs)) = fold edits qs (wd_local w1)"
    and rest: "\<And>i h. baseline (last (w1 # vs)) i = Some h \<Longrightarrow> baseline w1 i = Some h \<or> held hs objs vs h"
    using Cons.IH [OF _ vs_def] Cons.prems(1) by auto
  have "\<exists>rs. wd_local (last (w1 # vs)) = fold edits rs (wd_local w)" using qs one(2) fold_fold by metis
  moreover have "baseline w i = Some h \<or> held hs objs us h" if "baseline (last (w1 # vs)) i = Some h" for i h
    using rest [OF that] one(1) by (auto simp: synced_from_def held_def us)
  ultimately show ?case by (simp add: us)
qed

lemma adopt_local_each_effect:
  assumes ad: "adapter_ok ad objs" and ok: "hasher_ok hs"
  shows "adopt_local_each env ad hs now ids edits user us w = (r, w') \<Longrightarrow>
     \<forall>u \<in> set us. in_mirror env user (nl_node u) (nl_local u) \<Longrightarrow> \<exists>qs. wd_local w' = fold edits qs (wd_local w)"
proof (induction us arbitrary: w r w')
  case Nil
  then show ?case by (auto intro: exI [of _ "[]"])
next
  case (Cons e us)
  obtain v w1 where st: "store_path env ad hs now ids edits user (nl_node e) (nl_local e) w = (v, w1)" by fastforce
  obtain x u where rest: "adopt_local_each env ad hs now ids edits user us w1 = (x, u)" by fastforce
  have "u = w'" using Cons.prems(1) st rest by (auto split: prod.splits sum.splits)
  then show ?case
    using store_path_effect [OF ad ok _ st] Cons.IH [OF rest] Cons.prems(2) fold_fold [of edits] by (metis list.set_intros)
qed

section \<open>Nothing unsynced is taken before it is on a remote\<close>

text \<open>Every baseline is one of the start or the hash of an object of one of the worlds.\<close>

definition covered :: "hasher \<Rightarrow> ('r \<Rightarrow> objects) \<Rightarrow> 'r world \<Rightarrow> 'r world list \<Rightarrow> 'r world \<Rightarrow> bool" where
  "covered hs objs w0 us w \<longleftrightarrow> (\<forall>i h. baseline w i = Some h \<longrightarrow> baseline w0 i = Some h \<or> held hs objs us h)"

text \<open>The contents of a place stay, or some file was synced at their hash, or a remote holds them.\<close>

definition secured :: "hasher \<Rightarrow> ('r \<Rightarrow> objects) \<Rightarrow> 'r world \<Rightarrow> 'r world list \<Rightarrow> 'r world \<Rightarrow> 'r world \<Rightarrow> bool" where
  "secured hs objs w0 us u v \<longleftrightarrow>
     (\<forall>p c. map_option lf_content (local_at u p) = Some c \<longrightarrow> map_option lf_content (local_at v p) = Some c \<or>
        (\<exists>i m. baseline w0 i = Some (hash_as hs m c)) \<or> (\<exists>m. held hs objs us (hash_as hs m c)))"

lemma secured_trans: "secured hs objs w0 us u v \<Longrightarrow> secured hs objs w0 us v x \<Longrightarrow> secured hs objs w0 us u x"
  unfolding secured_def by blast

lemma secured_pull:
  assumes ad: "adapter_ok ad objs" and step: "pullFile env ad hs now a w = (v, w')" and nf: "\<not> pa_force a"
    and cov: "covered hs objs w0 us w" and at: "u \<in> set us" "objs (wd_remote u) = objs (wd_remote w)"
  shows "secured hs objs w0 us w w' \<and> covered hs objs w0 us w' \<and> objs (wd_remote u) = objs (wd_remote w')"
proof -
  note eff = pullFile_effect [OF ad step nf]
  have h: "held hs objs us (hash_as hs m c)" if "objs (wd_remote w) k = Some b" "hash_as hs m c = hash_as hs m b" for k b m c
    unfolding that(2) by (rule heldI [OF at(1), where k = k]) (simp add: at(2) that(1))
  have objs: "objs (wd_remote w') = objs (wd_remote w)" using eff by blast
  have new: "held hs objs us x" if "held hs objs [w'] x" for x
  proof -
    obtain k b m where k: "objs (wd_remote w') k = Some b" and x: "x = hash_as hs m b" using \<open>held hs objs [w'] x\<close> unfolding held_def by auto
    show ?thesis unfolding x by (rule heldI [OF at(1), where k = k]) (simp add: at(2) k flip: objs)
  qed
  have "covered hs objs w0 us w'"
    using synced_pull [OF ad step] cov new unfolding covered_def synced_from_def by blast
  moreover have "map_option lf_content (local_at w' p) = Some c \<or>
      (\<exists>i m. baseline w0 i = Some (hash_as hs m c)) \<or> (\<exists>m. held hs objs us (hash_as hs m c))"
    if lc: "map_option lf_content (local_at w p) = Some c" for p c
  proof -
    obtain f where f: "local_at w p = Some f" "lf_content f = c" using lc by blast
    consider "local_at w' p = Some f" | name path where "replaced_by_pull hs (objs (wd_remote w)) a (name, path) v w f (local_at w' p)"
      using eff f(1) by blast
    then show ?thesis
    proof cases
      case 2
      have st: "(\<exists>st. getFileState (pa_file a) w = Some st \<and> st_synced st = Some x) \<longleftrightarrow> baseline w (pa_file a) = Some x" for x
        by (auto simp: baseline_def split: option.splits)
      obtain g :: local_file and m where g: "objs (wd_remote w) (name, path) = Some (lf_content g)"
        "hash_as hs m c = hash_as hs m (lf_content g) \<or> baseline w (pa_file a) = Some (hash_as hs m c)"
        using 2 unfolding replaced_by_pull_def st f(2) by blast
      from g(2) show ?thesis
      proof
        assume "hash_as hs m c = hash_as hs m (lf_content g)"
        from h [OF g(1) this] show ?thesis by blast
      next
        assume "baseline w (pa_file a) = Some (hash_as hs m c)"
        then show ?thesis using cov unfolding covered_def by blast
      qed
    qed (simp add: f)
  qed
  ultimately show ?thesis using objs at(2) by (simp add: secured_def)
qed

lemma secured_pull_each:
  assumes ad: "adapter_ok ad objs"
  shows "pull_each env ad hs now user es w = (r, w') \<Longrightarrow> covered hs objs w0 us w \<Longrightarrow> u \<in> set us \<Longrightarrow>
     objs (wd_remote u) = objs (wd_remote w) \<Longrightarrow>
     secured hs objs w0 us w w' \<and> covered hs objs w0 us w' \<and>
     (\<forall>q. local_at w' q \<noteq> None \<longrightarrow> local_at w q \<noteq> None \<or> resolved (ev_cwd env) q)"
proof (induction es arbitrary: w r w')
  case (Cons e es)
  let ?a = "\<lparr>pa_user = user, pa_file = se_file e, pa_force = False\<rparr>"
  obtain v w1 where st: "pullFile env ad hs now ?a w = (v, w1)" by fastforce
  obtain x y where rest: "pull_each env ad hs now user es w1 = (x, y)" by fastforce
  have y: "y = w'" using Cons.prems(1) st rest by (auto split: prod.splits sum.splits)
  have one: "secured hs objs w0 us w w1" "covered hs objs w0 us w1" "objs (wd_remote u) = objs (wd_remote w1)"
    using secured_pull [OF ad st _ Cons.prems(2-4)] by auto
  show ?case
    using secured_trans [OF one(1)] Cons.IH [OF rest one(2) Cons.prems(3) one(3)] pullFile_resolved [OF ad st] unfolding y by blast
qed (auto simp: secured_def)

lemma secured_cleanup:
  assumes step: "cleanupDeletedRemote env gs w = ((cs, es), w')" and stale: "\<forall>g \<in> set gs. stale_copy hs w g"
    and cov: "covered hs objs w0 us w"
  shows "secured hs objs w0 us w w'"
proof -
  have "map_option lf_content (local_at w' p) = Some (lf_content f) \<or> (\<exists>i m. baseline w0 i = Some (hash_as hs m (lf_content f))) \<or>
      (\<exists>m. held hs objs us (hash_as hs m (lf_content f)))" if f: "local_at w p = Some f" for p f
    using cleanup_drops(1) [OF step stale f] cov unfolding covered_def by fastforce
  then show ?thesis by (auto simp: secured_def)
qed

lemma untracked_here:
  assumes ok: "mirrors_ok env" and files: "\<forall>q. local_at w q \<noteq> None \<longrightarrow> resolved (ev_cwd env) q"
    and u: "u \<in> set (listUntrackedLocal env user node w)"
  shows "nl_node u = node \<and> nl_hash u = None \<and> in_mirror env user node (nl_local u)"
proof -
  obtain root where root: "truthy_opt (getMirrorPath env user node) = Some root"
    using u by (cases "truthy_opt (getMirrorPath env user node)") (simp_all add: listUntrackedLocal_def)
  obtain s known where s: "s \<in> set SECTIONS" and f: "u \<in> set (concat (map (found_local env node root known (\<lambda>_. None)) (mirror_files env root s w)))"
    using u root by (auto simp: listUntrackedLocal_def Let_def split: option.splits sum.splits)
  have here: "nl_node u = node" "nl_hash u = None" "nl_local u \<in> set (mirror_files env root s w)"
    using f by (auto simp: found_local_def split: if_splits option.splits)
  note root' = truthy_SomeD [OF root]
  note m = mirror_of [OF ok root']
  have "under_dir (root @ ''/'' @ s) (nl_local u)" "nl_local u \<in> fst ` set (wd_local w)"
    using here(3) by (auto simp: mirror_files_def walked_def mirror_section [OF m s])
  then have "under_section root (nl_local u)" "local_at w (nl_local u) \<noteq> None"
    using s by (auto simp: under_section_def list_ex_iff local_at_def map_of_eq_None_iff)
  then show ?thesis using here files m root' by (simp add: in_mirror_def)
qed

lemma run_untracked_effect:
  assumes ad: "adapter_ok ad objs" and ok: "hasher_ok hs" and mir: "mirrors_ok env"
    and files: "\<forall>q. local_at w q \<noteq> None \<longrightarrow> resolved (ev_cwd env) q" and cov: "covered hs objs w0 us w"
    and step: "run_untracked env ad hs now ids edits user node w = (v, w')"
  shows "secured hs objs w0 us w (after_cleanup env hs user node w) \<and>
    (\<exists>qs. wd_local w' = fold edits qs (wd_local (after_cleanup env hs user node w)))"
proof -
  let ?us = "listUntrackedLocal env user node w"
  obtain gone rest where m: "matchDeleteTombstones env hs user ?us w = (gone, rest)" by fastforce
  obtain cs es w1 where c: "cleanupDeletedRemote env gone w = ((cs, es), w1)" by (metis surj_pair)
  obtain r w2 where a: "adopt_local_each env ad hs now ids edits user rest w1 = (r, w2)" by fastforce
  have w2: "w2 = w'" using step m c a by (auto simp: run_untracked_def split: prod.splits)
  have z: "after_cleanup env hs user node w = w1" by (simp add: after_cleanup_def m c)
  have "truthful hs w ?us" using untracked_here [OF mir files] by (simp add: truthful_def)
  note st = matchDeleteTombstones_stale [OF m this]
  have "\<forall>u \<in> set rest. in_mirror env user (nl_node u) (nl_local u)" using untracked_here [OF mir files] st(2) by blast
  from adopt_local_each_effect [OF ad ok a this] secured_cleanup [OF c st(1) cov] show ?thesis unfolding z w2 by blast
qed

text \<open>After a sweep the records of the node are in its sections still.\<close>

lemma swept_rows:
  assumes s: "sweep_safe (adoptable_place (wd_db w) node) objs w w1" and rows: "rows_in_sections node (wd_db w)"
    and f: "f \<in> set (files_t (wd_db w1))" "fl_node f = node"
  shows "place_in_section (wd_db w1) node (fl_remote_path f)"
proof -
  have "resolveNodeInfo (wd_db w1) = resolveNodeInfo (wd_db w)"
    using s by (intro resolveNodeInfo_cong) (simp_all add: sweep_safe_def)
  then have eq: "place_in_section (wd_db w1) = place_in_section (wd_db w)" by (simp add: place_in_section_def fun_eq_iff)
  have "placed f (wd_db w) \<or> adoptable_place (wd_db w) node (fl_node f) (fl_remote_path f)"
    using s f(1) unfolding sweep_safe_def by blast
  then show ?thesis
  proof
    assume "placed f (wd_db w)"
    then obtain g where "g \<in> set (files_t (wd_db w))" "fl_node g = node" "fl_remote_path g = fl_remote_path f"
      using f(2) by (auto simp: placed_def)
    then have "place_in_section (wd_db w) node (fl_remote_path g)" using rows unfolding rows_in_sections_def list_all_iff by blast
    then show ?thesis by (simp add: eq \<open>fl_remote_path g = _\<close>)
  next
    assume "adoptable_place (wd_db w) node (fl_node f) (fl_remote_path f)"
    from adoptable_in_section [OF this] show ?thesis by (simp add: eq f(2))
  qed
qed

lemma scan_entries_in_mirror:
  assumes ad: "adapter_ok ad objs" and mir: "mirrors_ok env"
    and rows: "\<And>f. f \<in> set (files_t (wd_db w)) \<Longrightarrow> fl_node f = node \<Longrightarrow> place_in_section (wd_db w) node (fl_remote_path f)"
    and step: "scan_tracked env ad hs (run_scan_args user node) w = (es, w')" and node: "node \<noteq> []"
  shows "same_files objs w w' \<and> (\<forall>e \<in> set es. \<forall>p. se_local e = Some p \<longrightarrow> in_mirror env user (se_node e) p)"
proof -
  obtain listings where l: "list_all2 (\<lambda>f e. \<exists>u u'. same_files objs w u \<and>
      scanRow env ad hs user (\<lambda>i. getFileState i w) listings f u = (e, u')) (scan_rows (run_scan_args user node) (wd_db w)) es"
    and same: "same_files objs w w'"
    using scan_tracked_rows [OF ad step] by (auto simp: run_scan_args_def)
  have "in_mirror env user (se_node e) p" if e: "e \<in> set es" and p: "se_local e = Some p" for e p
  proof -
    obtain f u u' where f: "f \<in> set (scan_rows (run_scan_args user node) (wd_db w))" and u: "same_files objs w u"
      and row: "scanRow env ad hs user (\<lambda>i. getFileState i w) listings f u = (e, u')"
      using list_all2_origin [OF l e] by blast
    have db: "wd_db u = wd_db w" using u by (simp add: same_files_def)
    have "f \<in> set (files_t (wd_db w))" "fl_node f = node"
      using f truthy_nonempty [OF node] by (auto simp: scan_rows_def run_scan_args_def)
    then have "place_in_section (wd_db w) (fl_node f) (fl_remote_path f)" using rows by simp
    then show ?thesis using scanRow_local [OF row p] row_in_mirror [OF mir] by (auto simp: db)
  qed
  then show ?thesis using same by blast
qed

lemma fold_edits_resolved:
  "edits_resolved env edits \<Longrightarrow> list_all (\<lambda>x. resolved (ev_cwd env) (fst x)) xs \<Longrightarrow>
     list_all (\<lambda>x. resolved (ev_cwd env) (fst x)) (fold edits qs xs)"
  by (induction qs arbitrary: xs) (simp_all add: edits_resolved_def)

lemma runNodeSync_secured:
  assumes ad: "adapter_ok ad objs" and ok: "hasher_ok hs" and mir: "mirrors_ok env" and files: "files_resolved env w"
    and rows: "rows_in_sections node (wd_db w)" and ops: "listPendingOps node w = []" and node: "node \<noteq> []"
    and ed: "edits_resolved env edits" and step: "runNodeSync env ad hs now ids rids edits user node w = (v, w')"
  shows "case run_phases env ad hs now ids rids edits user node w of
      None \<Rightarrow> wd_local w' = wd_local w
    | Some (us, z) \<Rightarrow> us \<noteq> [] \<and> (\<exists>qs. wd_local (last us) = fold edits qs (wd_local w)) \<and> secured hs objs w us (last us) z \<and>
        (\<exists>qs. wd_local w' = fold edits qs (wd_local z))"
proof (cases "ev_local_only env")
  case True
  then show ?thesis using step by (simp add: runNodeSync_def run_phases_def)
next
  case False
  obtain sw w1 where sw: "remoteSweep env ad hs now rids user node w = (sw, w1)" by fastforce
  note safe = remoteSweep_safe [OF ad ops sw]
  have l1: "wd_local w1 = wd_local w" "baseline w1 = baseline w" "objs (wd_remote w1) = objs (wd_remote w)"
    using safe by (simp_all add: sweep_safe_def baseline_def getFileState_def fun_eq_iff)
  show ?thesis
  proof (cases sw)
    case (Inl e)
    then show ?thesis using step False sw l1 by (simp add: runNodeSync_def run_phases_def)
  next
    case (Inr x)
    obtain es w2 where sc: "scan_tracked env ad hs (run_scan_args user node) w1 = (es, w2)" by fastforce
    define s where "s = \<lparr>rs_entries = es, rs_new_local = [] :: new_local list, rs_new_remote = [] :: new_remote list, rs_deleted_remote = [] :: deleted_remote list\<rparr>"
    have scan: "statusScan env ad hs (run_scan_args user node) w1 = (Inr s, w2)"
      by (simp add: statusScan_def sc s_def) (simp add: run_scan_args_def)
    have sub: "set (bucket c s) \<subseteq> set es" for c by (auto simp: bucket_def s_def)
    define pts where "pts = push_points env ad hs now ids edits user (bucket Push s) w2"
    define us where "us = w2 # pts"
    obtain a b where pu: "push_each env ad hs now ids edits user (bucket Push s) w2 = ((a, b), last us)"
      using push_each_points [of env ad hs now ids edits user "bucket Push s" w2] by (metis surj_pair snd_conv us_def pts_def)
    obtain c d w4 where pl: "pull_each env ad hs now user (bucket Pull s) (last us) = ((c, d), w4)" by (metis surj_pair)
    obtain f g h w5 where un: "run_untracked env ad hs now ids edits user node w4 = ((f, g, h), w5)" by (metis surj_pair)
    have w5: "w' = w5" using step False sw Inr scan pu pl un by (simp add: runNodeSync_def)
    have ph: "run_phases env ad hs now ids rids edits user node w = Some (us, after_cleanup env hs user node w4)"
      using False sw Inr scan pl by (simp add: run_phases_def us_def pts_def)
    note es = scan_entries_in_mirror [OF ad mir swept_rows [OF safe rows] sc node]
    have l2: "wd_local w2 = wd_local w" "baseline w2 = baseline w" using es l1 by (simp_all add: same_files_def)
    have "\<forall>e \<in> set (bucket Push s). \<forall>p. se_local e = Some p \<longrightarrow> in_mirror env user (se_node e) p" using es sub by blast
    note push = push_points_effect [OF ad ok this pts_def, folded us_def, unfolded l2]
    then obtain qs where qs: "wd_local (last us) = fold edits qs (wd_local w)" by blast
    have cov: "covered hs objs w us (last us)"
      using push held_mono [of hs objs pts _ us] unfolding covered_def us_def by (meson set_subset_Cons)
    have "list_all (\<lambda>x. resolved (ev_cwd env) (fst x)) (wd_local (last us))"
      using fold_edits_resolved [OF ed] files unfolding qs files_resolved_def by blast
    then have fl: "local_at (last us) q \<noteq> None \<Longrightarrow> resolved (ev_cwd env) q" for q
      by (rule file_resolved [unfolded files_resolved_def])
    have last: "last us \<in> set us" by (simp add: us_def)
    have pull: "secured hs objs w us (last us) w4" "covered hs objs w us w4" "\<forall>q. local_at w4 q \<noteq> None \<longrightarrow> resolved (ev_cwd env) q"
      using secured_pull_each [OF ad pl cov last] fl by blast+
    have "secured hs objs w us w4 (after_cleanup env hs user node w4) \<and>
        (\<exists>qs. wd_local w' = fold edits qs (wd_local (after_cleanup env hs user node w4)))"
      using run_untracked_effect [OF ad ok mir pull(3,2) un] unfolding w5 .
    then show ?thesis using qs secured_trans [OF pull(1)] unfolding ph by (auto simp: us_def)
  qed
qed

end
