(* ===== verification/ReconcileLaws.thy ===== *)
theory ReconcileLaws
  imports Reconcile SyncLaws
begin

text \<open>
  What the mirror watcher may do to the records: a record with a history, one that was pushed once or that
  this device synced, is never dropped, whatever events come in.
\<close>

definition row_hashes :: "graph_db \<Rightarrow> (string \<times> string option) list" where
  "row_hashes db = map (\<lambda>r. (fl_id r, fl_hash r)) (files_t db)"

text \<open>A record of the file is there, and it was pushed or this device synced it.\<close>

definition has_history :: "string \<Rightarrow> 'r world \<Rightarrow> bool" where
  "has_history i w \<longleftrightarrow>
     (\<exists>x \<in> set (row_hashes (wd_db w)). fst x = i) \<and>
     (baseline w i \<noteq> None \<or> (\<forall>x \<in> set (row_hashes (wd_db w)). fst x = i \<longrightarrow> snd x \<noteq> None))"

lemma history_frame: "row_hashes (wd_db w') = row_hashes (wd_db w) \<Longrightarrow> baseline w' = baseline w \<Longrightarrow> has_history i w' = has_history i w"
  by (simp add: has_history_def)

lemma row_hashes_simps [simp]:
  "row_hashes (publishNodeChange n k db) = row_hashes db" "row_hashes (insert_audit u a tt ti d db) = row_hashes db"
  by (simp_all add: row_hashes_def)

lemma row_hashes_update [simp]:
  "(\<And>r. fl_id (h r) = fl_id r \<and> fl_hash (h r) = fl_hash r) \<Longrightarrow> row_hashes (update_file_row j h db) = row_hashes db"
  by (simp add: row_hashes_def update_file_row_def comp_def)

lemma baseline_state: "wd_state w' = wd_state w \<Longrightarrow> baseline w' = baseline w"
  by (simp add: baseline_def getFileState_def fun_eq_iff)

text \<open>A move whose target no other record has.\<close>

lemma local_rename_state: "local_rename env a b w = (out, w') \<Longrightarrow> wd_state w' = wd_state w"
  unfolding local_rename_def by (cases "ev_rename_error env a b"; cases "local_at w a") auto

lemma move_local_state: "move_local env p w = (out, w') \<Longrightarrow> wd_state w' = wd_state w"
  unfolding move_local_def
  by (cases "pl_old_local p"; cases "pl_new_local p") (auto split: if_splits dest: local_rename_state)

lemma op_state [simp]:
  "wd_state (enqueuePendingOp i u n f p w) = wd_state w" "wd_state (completePendingOp i w) = wd_state w"
  "wd_state (failPendingOp i e w) = wd_state w" "wd_state (markPendingMoveSourceCopied i w) = wd_state w"
  "wd_state (writeMoveTombstone q x w) = wd_state w" "wd_state (on_db h w) = wd_state w"
  by (simp_all add: enqueuePendingOp_def completePendingOp_def failPendingOp_def update_op_def on_db_def
      markPendingMoveSourceCopied_def writeMoveTombstone_def split: option.split pending_op.split)

lemma move_record_keeps:
  assumes "find_shadow (pl_file p) (pl_target p) (pl_new_path p) (wd_db w) = None"
  shows "row_hashes (wd_db (move_record now p w)) = row_hashes (wd_db w)" and "wd_state (move_record now p w) = wd_state w"
  using assms by (simp_all add: move_record_def writeRelocatedRecord_def relocate_row_def)

lemma tombstone_hashes [simp]: "row_hashes (wd_db (writeMoveTombstone q x w)) = row_hashes (wd_db w)"
  by (simp add: writeMoveTombstone_def)

lemma move_after_remote_keeps:
  assumes "move_after_remote env now i p al w = (res, w')"
    and "find_shadow (pl_file p) (pl_target p) (pl_new_path p) (wd_db w) = None"
  shows "row_hashes (wd_db w') = row_hashes (wd_db w) \<and> wd_state w' = wd_state w"
proof -
  obtain out w1 where ml: "move_local env p w = (out, w1)" by fastforce
  have w1: "wd_db w1 = wd_db w" "wd_state w1 = wd_state w" using move_local_frame [OF ml] move_local_state [OF ml] by auto
  have "find_shadow (pl_file p) (pl_target p) (pl_new_path p) (wd_db w1) = None" using assms(2) w1 by simp
  note mk = move_record_keeps [OF this, of now]
  show ?thesis using assms(1) mk w1 by (cases out) (auto simp: move_after_remote_def ml)
qed

lemma moveFile_keeps:
  assumes step: "moveFile env ad now opid a w = (v, w')"
    and free: "\<And>p. plan_file_move env a w = Inr p \<Longrightarrow> find_shadow (pl_file p) (pl_target p) (pl_new_path p) (wd_db w) = None"
  shows "row_hashes (wd_db w') = row_hashes (wd_db w) \<and> wd_state w' = wd_state w"
proof (cases "plan_file_move env a w")
  case (Inl e)
  then show ?thesis using step by (simp add: moveFile_def)
next
  case (Inr p)
  note free = free [OF this]
  show ?thesis
  proof (cases "\<not> ma_confirmed a \<or> ev_local_only env")
    case True
    obtain out w1 where ml: "move_local env p w = (out, w1)" by fastforce
    have w1: "wd_db w1 = wd_db w" "wd_state w1 = wd_state w" using move_local_frame [OF ml] move_local_state [OF ml] by auto
    let ?p = "p\<lparr>pl_new_name := None\<rparr>"
    have "find_shadow (pl_file ?p) (pl_target ?p) (pl_new_path ?p) (wd_db w1) = None" using free w1 by simp
    note mk = move_record_keeps [OF this, of now]
    show ?thesis using step True Inr mk w1
      by (cases out) (auto simp: moveFile_def moveFileLocalOnly_def ml Let_def split: if_splits)
  next
    case False
    let ?w1 = "enqueuePendingOp opid (pl_user p) (pl_node p) (pl_file p) (OpMove (plan_payload p)) w"
    obtain rv ph r where rl: "relocateRemoteObject ad (move_params (plan_payload p)) (wd_remote ?w1) = (rv, ph, r)" by (metis surj_pair)
    note unf = step [unfolded moveFile_def Inr sum.case Let_def rl prod.case]
    show ?thesis
    proof (cases rv)
      case (Inl e)
      then show ?thesis using unf False by (auto split: if_splits)
    next
      case (Inr st)
      obtain res w2 where ma: "move_after_remote env now opid p (st = AlreadyAtTarget) (?w1\<lparr>wd_remote := r\<rparr>) = (res, w2)" by fastforce
      have "w' = w2" using unf False Inr ma by simp
      then show ?thesis using move_after_remote_keeps [OF ma] free by simp
    qed
  qed
qed


section \<open>The events\<close>

lemma plan_target:
  assumes plan: "plan_file_move env (disk_move_args user f node s) w = Inr p"
    and info: "resolveNodeInfo (wd_db w) node = Some info" and path: "sub_remote info s = Inr path"
  shows "pl_target p = node \<and> pl_new_path p = path"
proof -
  obtain row name old where b: "bound_file env f w = Inr (row, name, old)"
    using plan by (auto simp: plan_file_move_def bind_sum_Inr disk_move_args_def)
  have "buildRemotePath \<lparr>rp_info = info, rp_section = ms_section s, rp_subpath = ms_subpath s, rp_filename = ms_filename s\<rparr> = Inr path"
    using path by (simp add: sub_remote_def)
  then show ?thesis
    using plan b info
    by (auto simp: plan_file_move_def disk_move_args_def Let_def or_else_def split: option.splits if_splits)
qed

lemma no_row_no_shadow: "row_at node path db = None \<Longrightarrow> find_shadow f node path db = None"
  by (auto simp: row_at_def find_shadow_def find_None_iff)

lemma rehash_keeps: "row_hashes (wd_db (rehash hs p f ref w)) = row_hashes (wd_db w) \<and> baseline (rehash hs p f ref w) = baseline w"
proof -
  obtain h w' where r: "localHashFor hs p f ref (getFileState f w) w = (h, w')" by fastforce
  show ?thesis using localHashFor_frame [OF r] localHashFor_baseline [OF r] by (simp add: rehash_def r)
qed

lemma disk_move_keeps:
  assumes info: "resolveNodeInfo (wd_db w) node = Some info" and path: "sub_remote info s = Inr path"
    and free: "row_at node path (wd_db w) = None"
    and step: "tryApplyDiskMove env ad hs now opid user node absPath s w = (v, w')"
  shows "row_hashes (wd_db w') = row_hashes (wd_db w) \<and> baseline w' = baseline w"
proof -
  have move: "row_hashes (wd_db w1) = row_hashes (wd_db w) \<and> baseline w1 = baseline w"
    if m: "moveFile env ad now opid (disk_move_args user f node s) w = (x, w1)" for f x w1
  proof -
    have "find_shadow (pl_file p) (pl_target p) (pl_new_path p) (wd_db w) = None"
      if "plan_file_move env (disk_move_args user f node s) w = Inr p" for p
      using plan_target [OF that info path] no_row_no_shadow [OF free] by simp
    from moveFile_keeps [OF m this] show ?thesis using baseline_state by blast
  qed
  have retarget: "row_hashes (wd_db (rehash hs absPath i None (on_db (update_file_row i (retarget_row node path fn now)) w))) =
      row_hashes (wd_db w) \<and> baseline (rehash hs absPath i None (on_db (update_file_row i (retarget_row node path fn now)) w)) = baseline w"
    for i fn
    by (simp add: rehash_keeps retarget_row_def local_simps)
  show ?thesis
    using step move retarget
    by (auto simp: tryApplyDiskMove_def info path rehash_keeps split: option.splits sum.splits prod.splits file_move_result.splits)
qed

lemma register_keeps:
  assumes step: "registerLocalFile env hs now newId a w = (v, w')" and i: "newId \<noteq> i" and h: "has_history i w"
  shows "has_history i w'"
proof -
  have copy: "wd_db w1 = wd_db w \<and> wd_state w1 = wd_state w" if "copy_in env now src dst w = (x, w1)" for src dst x w1
    using that write_local_effect(1) by (auto simp: copy_in_def split: option.splits if_splits) blast+
  have none: "has_history i w1" if "copy_in env now src dst w = (x, w1)" for src dst x w1
    using h copy [OF that] baseline_state history_frame by metis
  have up: "has_history i (on_db g (upsertFileState j (with_cache hx f (getFileState j w1)) (w1\<lparr>wd_db := db\<rparr>)))"
    if c: "copy_in env now src dst w = (x, w1)" and u: "upsert_row (registered_row a now newId fn name path)
        (reregistered_row a now fn name) n path (wd_db w1) = (j, db)"
      and g: "\<And>d. row_hashes (g d) = row_hashes d" for src dst x w1 fn name path n j db hx f g
  proof -
    have rows: "set (row_hashes db) = set (row_hashes (wd_db w)) \<or> set (row_hashes db) = insert (newId, None) (set (row_hashes (wd_db w)))"
      using u copy [OF c]
      by (auto simp: upsert_row_def reregistered_row_def registered_row_def split: option.splits) (simp_all add: row_hashes_def)
    have "baseline w1 = baseline w" using copy [OF c] baseline_state by blast
    then have b: "baseline (on_db g (upsertFileState j (with_cache hx f (getFileState j w1)) (w1\<lparr>wd_db := db\<rparr>))) = baseline w"
      by (simp add: baseline_frame baseline_upsert with_cache_synced)
    show ?thesis using rows h i by (auto simp: has_history_def b g)
  qed
  show ?thesis
    using step h none up
    by (auto simp: registerLocalFile_def Let_def split: option.splits sum.splits prod.splits)
qed

text \<open>One event, a directory and every event.\<close>

lemma forget_keeps:
  assumes row: "row_at node path (wd_db w) = Some row" and never: "never_pushed row w" and h: "has_history i w"
  shows "has_history i (forget_row user node (fl_id row) path w)"
proof -
  have "row \<in> set (files_t (wd_db w))" using row find_SomeD unfolding row_at_def by metis
  then have "(fl_id row, fl_hash row) \<in> set (row_hashes (wd_db w))" by (simp add: row_hashes_def)
  then have mem: "(fl_id row, None) \<in> set (row_hashes (wd_db w))" "baseline w (fl_id row) = None"
    using never by (simp_all add: never_pushed_def baseline_def)
  have "i \<noteq> fl_id row"
  proof
    assume "i = fl_id row"
    then have "\<forall>x \<in> set (row_hashes (wd_db w)). fst x = i \<longrightarrow> snd x \<noteq> None" using h mem(2) by (simp add: has_history_def)
    from bspec [OF this mem(1)] show False using \<open>i = _\<close> by simp
  qed
  moreover have "row_hashes (wd_db (forget_row user node (fl_id row) path w)) = filter (\<lambda>x. fst x \<noteq> fl_id row) (row_hashes (wd_db w))"
    by (simp add: forget_row_def) (simp add: row_hashes_def delete_file_row_def filter_map comp_def)
  moreover have "baseline (forget_row user node (fl_id row) path w) = (baseline w)(fl_id row := None)"
    by (simp add: forget_row_def local_simps)
  ultimately show ?thesis using h by (auto simp: has_history_def)
qed

lemma reconcile_file_keeps:
  assumes info: "resolveNodeInfo (wd_db w) node = Some info" and path: "sub_remote info s = Inr path"
    and ids: "i \<notin> range ids" and h: "has_history i w"
    and step: "reconcile_file env ad hs now ids opids user node absPath s path w = (v, w')"
  shows "has_history i w'"
proof (cases "row_at node path (wd_db w)")
  case (Some row)
  have "has_history i (rehash hs absPath (fl_id row) (fl_hash row) w)" using rehash_keeps history_frame h by blast
  moreover have "has_history i (upsertFileState (fl_id row) (uncached (getFileState (fl_id row) w)) w)"
    using h by (subst history_frame) (auto simp: baseline_upsert uncached_def baseline_def [symmetric] fun_eq_iff)
  ultimately show ?thesis using step Some forget_keeps [OF Some _ h] by (auto simp: reconcile_file_def split: if_splits)
next
  case None
  show ?thesis
  proof (cases "local_at w absPath")
    case None
    then show ?thesis using step h \<open>row_at _ _ _ = None\<close> by (simp add: reconcile_file_def)
  next
    case (Some f)
    obtain x w1 where move: "tryApplyDiskMove env ad hs now (opids absPath) user node absPath s w = (x, w1)" by fastforce
    have h1: "has_history i w1" using disk_move_keeps [OF info path None move] history_frame h by blast
    obtain y w2 where reg: "registerLocalFile env hs now (ids absPath) (register_args user node absPath) w1 = (y, w2)" by fastforce
    have "ids absPath \<noteq> i" using ids by blast
    note h2 = register_keeps [OF reg this h1]
    show ?thesis using step None Some h1 h2 by (auto simp: reconcile_file_def move reg split: sum.splits option.splits)
  qed
qed

lemma place_known:
  "reconcile_place env user node absPath w = Inr (Inr (s, path)) \<Longrightarrow>
     \<exists>info. resolveNodeInfo (wd_db w) node = Some info \<and> sub_remote info s = Inr path"
  by (auto simp: reconcile_place_def split: option.splits if_splits sum.splits)

lemma reconcile_one_keeps:
  assumes "i \<notin> range ids" and "has_history i w" and "reconcile_one env ad hs now ids opids user node absPath w = (v, w')"
  shows "has_history i w'"
proof (cases "\<exists>s path. reconcile_place env user node absPath w = Inr (Inr (s, path))")
  case True
  then obtain s path where place: "reconcile_place env user node absPath w = Inr (Inr (s, path))" by blast
  then obtain info where info: "resolveNodeInfo (wd_db w) node = Some info" "sub_remote info s = Inr path" using place_known by blast
  show ?thesis using assms(3) reconcile_file_keeps [OF info assms(1,2)] by (simp add: reconcile_one_def place)
next
  case False
  then show ?thesis using assms by (auto simp: reconcile_one_def split: sum.splits prod.splits)
qed

lemma reconcile_each_keeps:
  assumes ids: "i \<notin> range ids"
  shows "has_history i w \<Longrightarrow> reconcile_each env ad hs now ids opids user node ps w = (v, w') \<Longrightarrow> has_history i w'"
proof (induction ps arbitrary: w)
  case (Cons p ps)
  obtain x w1 where one: "reconcile_one env ad hs now ids opids user node p w = (x, w1)" by fastforce
  show ?case using Cons reconcile_one_keeps [OF ids _ one] one by (auto split: sum.splits)
qed simp

lemma reconcilePath_keeps:
  assumes ids: "i \<notin> range ids" and h: "has_history i w"
    and step: "reconcilePath env ad hs now ids opids user node absPath w = (v, w')"
  shows "has_history i w'"
proof (cases "\<exists>s path. reconcile_place env user node absPath w = Inr (Inr (s, path))")
  case True
  then obtain s path where place: "reconcile_place env user node absPath w = Inr (Inr (s, path))" by blast
  then obtain info where info: "resolveNodeInfo (wd_db w) node = Some info" "sub_remote info s = Inr path" using place_known by blast
  show ?thesis
    using step h reconcile_each_keeps [OF ids h] reconcile_file_keeps [OF info ids h]
    by (auto simp: reconcilePath_def reconcileDirectory_def place split: if_splits option.splits)
next
  case False
  then show ?thesis using step h by (auto simp: reconcilePath_def split: sum.splits prod.splits)
qed

end
