(* ===== verification/RunGuarantees.thy ===== *)
theory RunGuarantees
  imports SyncRunLaws ReconcileLaws SyncSamples
begin

text \<open>
  The properties of a whole sync run, of the sweep of a remote, of the mirror watcher and of the pages
  of a status, with their witnesses.
\<close>

section \<open>A sync run\<close>

lemma secured_objects:
  assumes "hasher_ok hs" and "secured hs objs w0 us u v"
  shows "\<forall>p c. map_option lf_content (local_at u p) = Some c \<longrightarrow> map_option lf_content (local_at v p) = Some c \<or>
    (\<exists>i m. baseline w0 i = Some (hash_as hs m c)) \<or>
    (\<exists>x \<in> set us. \<exists>k b m. objs (wd_remote x) k = Some b \<and> hash_as hs m b = hash_as hs m c)"
proof -
  have "\<exists>x \<in> set us. \<exists>k b m. objs (wd_remote x) k = Some b \<and> hash_as hs m b = hash_as hs m c"
    if "held hs objs us (hash_as hs m c)" for m c
    using held_content [OF assms(1) that] by blast
  then show ?thesis using assms(2) unfolding secured_def by blast
qed

text \<open>C1: A sync run never takes from the device what was not synced, whatever the remote answers and whatever
  the user does to the files while the paths upload.  In \<open>run_phases\<close>, \<open>us\<close> are the worlds
  the run went through after its scan and after each of its pushes and \<open>z\<close> is the one after the pulls and the removal of stale copies,
  before the untracked files go up.  Up to the last push and from \<open>z\<close> on, only the user changes files; from the last
  push to \<open>z\<close> the bytes at a place stay there, unless some file's baseline at the start of the run was their
  hash or a remote held, in one of the worlds \<open>us\<close>, an object of their hash.  A run that stops before its first transfer changes
  no file.  This is for mirrors that are resolved directories, records in the sections of the node and no queued operation.\<close>

theorem sync_run_keeps_unsynced_work:
  assumes "adapter_ok ad objs" and "hasher_ok hs" and "mirrors_ok env" and "files_resolved env w"
    and "rows_in_sections node (wd_db w)" and "listPendingOps node w = []" and "node \<noteq> []" and "edits_resolved env edits"
    and "runNodeSync env ad hs now ids rids edits user node w = (v, w')"
  shows "case run_phases env ad hs now ids rids edits user node w of
      None \<Rightarrow> wd_local w' = wd_local w
    | Some (us, z) \<Rightarrow>
        us \<noteq> [] \<and> (\<exists>qs. wd_local (last us) = fold edits qs (wd_local w)) \<and>
        (\<forall>p c. map_option lf_content (local_at (last us) p) = Some c \<longrightarrow>
           map_option lf_content (local_at z p) = Some c \<or>
           (\<exists>i m. baseline w i = Some (hash_as hs m c)) \<or>
           (\<exists>u \<in> set us. \<exists>k b m. objs (wd_remote u) k = Some b \<and> hash_as hs m b = hash_as hs m c)) \<and>
        (\<exists>qs. wd_local w' = fold edits qs (wd_local z))"
proof (cases "run_phases env ad hs now ids rids edits user node w")
  case None
  then show ?thesis using runNodeSync_secured [OF assms] by simp
next
  case (Some x)
  obtain us z where x: "x = (us, z)" by fastforce
  from runNodeSync_secured [OF assms] have run: "us \<noteq> [] \<and> (\<exists>qs. wd_local (last us) = fold edits qs (wd_local w)) \<and>
      secured hs objs w us (last us) z \<and> (\<exists>qs. wd_local w' = fold edits qs (wd_local z))"
    unfolding Some x by simp
  then have "secured hs objs w us (last us) z" by blast
  from secured_objects [OF assms(2) this] run show ?thesis
    unfolding Some x option.case prod.case by blast
qed

lemma sample_mirrors: "mirrors_ok sample_env" "''site'' \<noteq> []"
  by code_simp+

text \<open>One file to be pushed, one to be pulled, and both grow while the push is under way.\<close>

definition raced_device :: "demo_remote world" where
  "raced_device =
     device [(''wip/a.md'', ''new''), (''wip/b.md'', ''old'')]
       [site_row ''f1'' ''wip/a.md'' (Some (pad_to 32 ''old'')), site_row ''f2'' ''wip/b.md'' (Some (pad_to 32 ''old''))]
       [(''f1'', synced_to (pad_to 32 ''old'')), (''f2'', synced_to (pad_to 32 ''old''))]
       [(''wip/a.md'', ''old''), (''wip/b.md'', ''theirs'')]"

lemma raced_device_facts:
  "files_resolved sample_env raced_device" "rows_in_sections ''site'' (wd_db raced_device)" "listPendingOps ''site'' raced_device = []"
  by code_simp+

lemma append_all_resolved: "edits_resolved env (\<lambda>_. append_all c)"
  by (auto simp: edits_resolved_def append_all_def list_all_iff)

lemma raced_edit_unsynced: "baseline raced_device i \<noteq> Some (hash_as demo_hasher m ''old+'')"
proof -
  have "pad_to 32 ''old'' \<noteq> hash_as demo_hasher True ''old+''" "pad_to 32 ''old'' \<noteq> hash_as demo_hasher False ''old+''" by code_simp+
  then have no: "pad_to 32 ''old'' \<noteq> hash_as demo_hasher m ''old+''" by (cases m) auto
  then show ?thesis by (auto simp: baseline_def getFileState_def raced_device_def device_def synced_to_def split: if_splits)
qed

lemma sync_run_keeps_unsynced_work_witness:
  "\<exists>us z. run_phases sample_env md5_remote demo_hasher 9 (\<lambda>p. p) (\<lambda>p. p) (\<lambda>_. append_all ''+'') ''ann'' ''site'' raced_device = Some (us, z) \<and>
     map_option lf_content (local_at (last us) ''/m/site/wip/b.md'') = Some ''old+'' \<and>
     (map_option lf_content (local_at z ''/m/site/wip/b.md'') = Some ''old+'' \<or>
      (\<exists>u \<in> set us. \<exists>k b m. demo_objs (wd_remote u) k = Some b \<and> hash_as demo_hasher m b = hash_as demo_hasher m ''old+'')) \<and>
     map_option lf_content (local_at z ''/m/site/wip/b.md'') \<noteq> Some ''theirs''"
proof -
  let ?run = "runNodeSync sample_env md5_remote demo_hasher 9 (\<lambda>p. p) (\<lambda>p. p) (\<lambda>_. append_all ''+'') ''ann'' ''site'' raced_device"
  let ?phases = "run_phases sample_env md5_remote demo_hasher 9 (\<lambda>p. p) (\<lambda>p. p) (\<lambda>_. append_all ''+'') ''ann'' ''site'' raced_device"
  obtain v w' where run: "?run = (v, w')" by fastforce
  have "map_option (\<lambda>(us, z). (map_option lf_content (local_at (last us) ''/m/site/wip/b.md''),
      map_option lf_content (local_at z ''/m/site/wip/b.md''))) ?phases = Some (Some ''old+'', Some ''old+'')" by code_simp
  then obtain us z where ph: "?phases = Some (us, z)" and b: "map_option lf_content (local_at (last us) ''/m/site/wip/b.md'') = Some ''old+''"
    "map_option lf_content (local_at z ''/m/site/wip/b.md'') = Some ''old+''" by auto
  have "map_option lf_content (local_at z ''/m/site/wip/b.md'') = Some ''old+'' \<or>
      (\<exists>u \<in> set us. \<exists>k b m. demo_objs (wd_remote u) k = Some b \<and> hash_as demo_hasher m b = hash_as demo_hasher m ''old+'')"
    using sync_run_keeps_unsynced_work [OF md5_remote_ok demo_hasher_ok sample_mirrors(1) raced_device_facts sample_mirrors(2)
        append_all_resolved run] b(1) raced_edit_unsynced unfolding ph option.case prod.case by blast
  then show ?thesis using ph b by auto
qed

section \<open>The sweep of a remote\<close>

text \<open>A sweep of a node's remote, with no queued operation, changes no object, no file of the device and no
  baseline; every record is still there, bound as it was, unless the remote holds no object at the place
  it names, and then its deletion is in the audit log as a tombstone of that path.\<close>

theorem sweep_drops_only_absent_records:
  assumes "adapter_ok ad objs" and "listPendingOps node w = []" and "remoteSweep env ad hs now ids user node w = (v, w')"
    and "g \<in> set (files_t (wd_db w))"
  shows "objs (wd_remote w') = objs (wd_remote w) \<and> wd_local w' = wd_local w \<and> wd_state w' = wd_state w \<and>
    (row_kept g (wd_db w') \<or>
     (\<exists>f \<in> set (files_t (wd_db w)). \<exists>name path. fl_id f = fl_id g \<and> fl_remote_name f = Some name \<and>
        fl_remote_path f = Some path \<and> objs (wd_remote w) (name, path) = None \<and> swept f (wd_db w')))"
proof -
  have "row_kept g (wd_db w)" using assms(4) by (auto simp: row_kept_def)
  then show ?thesis using remoteSweep_safe [OF assms(1-3)] unfolding sweep_safe_def by blast
qed

text \<open>Of two tracked files the remote lost one; the node's directory is there.\<close>

definition thinned_device :: "demo_remote world" where
  "thinned_device =
     (device [] [site_row ''f1'' ''wip/a.md'' (Some (pad_to 32 ''old'')), site_row ''f2'' ''wip/b.md'' (Some (pad_to 32 ''old''))]
       [] [])\<lparr>wd_remote := \<lparr>dr_objects = [((''drive'', ''acme/projects/site''), []),
         ((''drive'', ''acme/projects/site/wip/b.md''), ''old'')], dr_fates = []\<rparr>\<rparr>"

lemma sweep_drops_only_absent_records_witness:
  "\<exists>w'. snd (remoteSweep sample_env md5_remote demo_hasher 9 (\<lambda>p. p) ''ann'' ''site'' thinned_device) = w' \<and>
     demo_objs (wd_remote w') = demo_objs (wd_remote thinned_device) \<and> map fl_id (files_t (wd_db w')) = [''f2''] \<and>
     (row_kept (site_row ''f1'' ''wip/a.md'' (Some (pad_to 32 ''old''))) (wd_db w') \<or>
      (\<exists>f. fl_id f = ''f1'' \<and> swept f (wd_db w')))"
proof -
  let ?run = "remoteSweep sample_env md5_remote demo_hasher 9 (\<lambda>p. p) ''ann'' ''site'' thinned_device"
  let ?g = "site_row ''f1'' ''wip/a.md'' (Some (pad_to 32 ''old''))"
  obtain v w' where run: "?run = (v, w')" by fastforce
  have ids: "map fl_id (files_t (wd_db (snd ?run))) = [''f2'']" "listPendingOps ''site'' thinned_device = []" by code_simp+
  have g: "?g \<in> set (files_t (wd_db thinned_device))" "fl_id ?g = ''f1''" by (simp_all add: thinned_device_def device_def site_row_def sample_file_def)
  show ?thesis
    using sweep_drops_only_absent_records [OF md5_remote_ok ids(2) run g(1)] run ids(1) unfolding g(2) by auto
qed

section \<open>The mirror watcher\<close>

text \<open>C33: Whatever happens on the device's disk, bringing the records in line with it never drops a record with a
  history: one that was pushed or that this device synced is there afterwards under the same id, and still with
  its history, when the ids drawn for new rows are new.\<close>

theorem reconcile_keeps_history:
  assumes "reconcilePath env ad hs now ids opids user node absPath w = (v, w')" and "has_history i w" and "i \<notin> range ids"
  shows "has_history i w'"
  using reconcilePath_keeps [OF assms(3,2,1)] .

lemma reconcile_keeps_history_witness:
  "has_history ''f1'' (snd (reconcilePath sample_env md5_remote demo_hasher 9 (\<lambda>p. ''n'') (\<lambda>p. ''o'') ''ann'' ''site'' ''/m/site/wip/a.md''
      (edited_device\<lparr>wd_local := []\<rparr>)))"
proof -
  let ?w = "edited_device\<lparr>wd_local := []\<rparr>"
  have "has_history ''f1'' ?w"
    by (simp add: has_history_def row_hashes_def edited_device_def device_def site_row_def sample_file_def)
  moreover have "''f1'' \<notin> range (\<lambda>p :: string. ''n'')" by auto
  ultimately show ?thesis using reconcile_keeps_history [OF surjective_pairing] by blast
qed

section \<open>The pages of a status\<close>

lemma concat_windows: "concat (map (\<lambda>k. take n (drop (k * n) xs)) [0..<m]) = take (m * n) xs"
proof (induction m)
  case (Suc m)
  have "take (m * n + n) xs = take (m * n) xs @ take n (drop (m * n) xs)" by (rule take_add)
  then show ?case using Suc by (simp add: add.commute)
qed simp

lemma windowed_all: "windowed (fo\<lparr>fo_limit := None, fo_offset := None\<rparr>) xs = xs"
  by (simp add: windowed_def or_else_def)

lemma windowed_page: "windowed (fo\<lparr>fo_limit := Some n, fo_offset := Some (int k * int n)\<rparr>) xs = take n (drop (k * n) xs)"
  by (simp add: windowed_def or_else_def flip: of_nat_mult)

lemma windowed_complete: "\<not> length (windowed fo xs) < length xs \<longleftrightarrow> windowed fo xs = xs"
proof -
  have d: "drop k xs = xs" if "\<not> length (drop k xs) < length xs" for k using that by (cases "k = 0 \<or> xs = []") auto
  have "windowed fo xs = xs" if "\<not> length (windowed fo xs) < length xs"
  proof (cases "fo_limit fo")
    case None
    then have "windowed fo xs = drop (nat (max 0 (or_else (fo_offset fo) 0))) xs" by (simp add: windowed_def Let_def)
    then show ?thesis using that d by metis
  next
    case (Some n)
    let ?k = "nat (max 0 (or_else (fo_offset fo) 0))"
    have len: "length (windowed fo xs) = min n (length (drop ?k xs))" by (simp add: windowed_def Some Let_def min.commute)
    have "length xs \<le> min n (length (drop ?k xs))" using that unfolding len by (rule leI)
    then have "length xs \<le> n" "length xs \<le> length (drop ?k xs)" unfolding min.bounded_iff by blast+
    then have "\<not> length (drop ?k xs) < length xs" "length (drop ?k xs) \<le> n" by (simp_all only: not_less) simp
    then show ?thesis using d [of ?k] by (simp add: windowed_def Some Let_def)
  qed
  then show ?thesis by auto
qed

text \<open>The pages of a status are the status: with the window moved on by a page's length at a time, the items of a
  bucket come out once each and in order, as many pages as hold them, and the flag says of the whole
  result that nothing was left out exactly when every bucket shown is complete.\<close>

theorem pages_cover_the_status:
  assumes "length (fs_items (filterStatusResult (fo\<lparr>fo_limit := None, fo_offset := None\<rparr>) s) b) \<le> m * n"
  shows "concat (map (\<lambda>k. fs_items (filterStatusResult (fo\<lparr>fo_limit := Some n, fo_offset := Some (int (k * n))\<rparr>) s) b) [0..<m]) =
      fs_items (filterStatusResult (fo\<lparr>fo_limit := None, fo_offset := None\<rparr>) s) b \<and>
    (\<not> fs_truncated (filterStatusResult fo s) \<longleftrightarrow>
     list_all (\<lambda>c. fs_items (filterStatusResult fo s) c = fs_items (filterStatusResult (fo\<lparr>fo_limit := None, fo_offset := None\<rparr>) s) c)
       all_buckets)"
proof -
  have lo: "left_out (fo\<lparr>fo_limit := l, fo_offset := k\<rparr>) = left_out fo" "on_prefix (fo\<lparr>fo_limit := l, fo_offset := k\<rparr>) = on_prefix fo" for l k
    by (simp_all add: fun_eq_iff left_out_def restricted_def included_def on_prefix_def)
  have pages: "concat (map (\<lambda>k. if c then [] else take n (drop (k * n) xs)) [0..<m]) = (if c then [] else take (m * n) xs)" for c and xs :: "status_item list"
    by (simp add: concat_windows)
  have t: "fs_truncated (filterStatusResult fo s) \<longleftrightarrow>
      list_ex (\<lambda>c. \<not> left_out fo c \<and> windowed fo (on_prefix fo (bucket_items c s)) \<noteq> on_prefix fo (bucket_items c s)) all_buckets"
    by (simp add: filterStatusResult_def windowed_complete [symmetric])
  show ?thesis
    using assms unfolding t by (auto simp: filterStatusResult_def lo windowed_all windowed_page pages concat_windows list_all_iff list_ex_iff)
qed

definition site_status :: status_result where
  "site_status = (case scan_site md5_remote edited_device of Some s \<Rightarrow> s
     | None \<Rightarrow> \<lparr>rs_entries = [], rs_new_local = [], rs_new_remote = [], rs_deleted_remote = []\<rparr>)"

lemma pages_cover_the_status_witness:
  "fs_items (filterStatusResult \<lparr>fo_classes = None, fo_prefix = None, fo_limit = Some 1, fo_offset = Some 0\<rparr> site_status) (Tracked Push) =
   fs_items (filterStatusResult \<lparr>fo_classes = None, fo_prefix = None, fo_limit = None, fo_offset = None\<rparr> site_status) (Tracked Push)"
proof -
  let ?fo = "\<lparr>fo_classes = None, fo_prefix = None, fo_limit = None, fo_offset = None\<rparr>"
  have "length (fs_items (filterStatusResult ?fo site_status) (Tracked Push)) \<le> 1 * 1" by code_simp
  then have "length (fs_items (filterStatusResult (?fo\<lparr>fo_limit := None, fo_offset := None\<rparr>) site_status) (Tracked Push)) \<le> 1 * 1" by simp
  from pages_cover_the_status [OF this] show ?thesis by simp
qed

section \<open>Where the watcher departs from its comments\<close>

text \<open>An event on a section's own directory is taken for one on a file of that section with the section's name: a record
  at that place that was never pushed is dropped although its file is there.\<close>

lemma section_directory_unregisters:
  "fst (reconcilePath sample_env md5_remote demo_hasher 9 (\<lambda>p. ''n'') (\<lambda>p. ''o'') ''ann'' ''site'' ''/m/site/wip''
      (device [(''wip/wip'', ''text'')] [site_row ''f1'' ''wip/wip'' None] [] [])) = Inr (RcUnregistered ''f1'')"
  by code_simp

end
