(* ===== verification/WriteScope.thy ===== *)
theory WriteScope
  imports FileOps
begin

text \<open>
  The write scope on disk, \<^verbatim>\<open>apps/server/domain/write-scope.ts\<close>: in which mirror a path is, the directory
  of all mirrors, the tier of a write and the guard that answers for it (\<^verbatim>\<open>api/write-scope.ts\<close>), and the
  settings a mirror gets for the agents that run in it.  The home and the working directory of the
  process are a record; the platform is POSIX, so the separator is a slash.
\<close>

record host =
  ho_home :: string
  ho_cwd :: string

section \<open>Paths\<close>

definition expandHome :: "host \<Rightarrow> string \<Rightarrow> string" where
  "expandHome h p = (if prefix ''~/'' p then ho_home h @ tl p else if p = ''~'' then ho_home h else p)"

definition normalize_path :: "host \<Rightarrow> string \<Rightarrow> string" where
  "normalize_path h p = path_resolve (ho_cwd h) [expandHome h p]"

definition isWithin :: "host \<Rightarrow> string \<Rightarrow> string \<Rightarrow> bool" where
  "isWithin h parent child =
     (let p = normalize_path h parent; c = normalize_path h child
      in p = c \<or> prefix (if suffix ''/'' p then p else p @ ''/'') c)"

definition findContainingMirror :: "host \<Rightarrow> string list \<Rightarrow> string \<Rightarrow> string option" where
  "findContainingMirror h mirrors path =
     (let target = normalize_path h path
      in foldl (\<lambda>best raw.
           (let m = normalize_path h raw
            in if isWithin h m target \<and> (case best of None \<Rightarrow> True | Some b \<Rightarrow> length b < length m) then Some m else best))
         None mirrors)"

text \<open>How many leading segments of the first path all paths have.\<close>

definition agreeing :: "string list \<Rightarrow> string list list \<Rightarrow> nat" where
  "agreeing first split =
     length (takeWhile (\<lambda>i. list_all (\<lambda>s. i < length s \<and> s ! i = first ! i) split) [0..<length first])"

definition drive_prefix :: "string \<Rightarrow> bool" where
  "drive_prefix s =
     (case s of c # d # _ \<Rightarrow> d = CHR '':'' \<and> js_lower_char c \<in> set ''abcdefghijklmnopqrstuvwxyz'' | _ \<Rightarrow> False)"

definition commonAncestor :: "host \<Rightarrow> string list \<Rightarrow> string option" where
  "commonAncestor h paths =
     (if paths = [] then None
      else (let split = map (\<lambda>p. split_on CHR ''/'' (normalize_path h p)) paths;
                first = hd split; i = agreeing first split
            in if i < 2 then None
               else (let ancestor = join_with ''/'' (take i first)
                     in Some (if prefix ''/'' ancestor \<or> drive_prefix ancestor then ancestor else ''/'' @ ancestor))))"

definition resolvePortuniRoot :: "host \<Rightarrow> string option \<Rightarrow> string list \<Rightarrow> string option" where
  "resolvePortuniRoot h envValue mirrors =
     (case truthy_opt (map_option js_trim envValue) of
        Some e \<Rightarrow> Some (normalize_path h e)
      | None \<Rightarrow>
          (case mirrors of
             [] \<Rightarrow> None
           | [m] \<Rightarrow>
               (let parent = join_with ''/'' (butlast (split_on CHR ''/'' (normalize_path h m)))
                in Some (if parent = [] then ''/'' else parent))
           | _ \<Rightarrow> commonAncestor h mirrors))"

section \<open>Tiers\<close>

datatype write_tier = Tier1Current | Tier2Sibling | Tier3Outside

datatype tier_reason =
    InCurrentMirror string
  | InSiblingMirror string string
  | InMirrorFromOutside string
  | OutsideMirrors string
  | OutsideRoot string

definition reason_text :: "tier_reason \<Rightarrow> string" where
  "reason_text r =
     (case r of
        InCurrentMirror c \<Rightarrow> ''Target is inside current mirror ('' @ c @ '').''
      | InSiblingMirror t c \<Rightarrow>
          ''Target is in sibling mirror '' @ t @ '' (current is '' @ c @ ''). Run from that mirror's directory or confirm the cross-mirror write.''
      | InMirrorFromOutside t \<Rightarrow>
          ''Target is in mirror '' @ t @ '' but current cwd is not inside any mirror. Run from that mirror's directory or confirm the write.''
      | OutsideMirrors root \<Rightarrow>
          ''Target is inside PORTUNI_ROOT ('' @ root @ '') but outside every registered mirror. Confirm the write.''
      | OutsideRoot root \<Rightarrow> ''Target is outside PORTUNI_ROOT ('' @ root @ ''). Confirm the write is intended.'')"

record classification =
  cl_tier :: write_tier
  cl_reason :: tier_reason
  cl_current :: "string option"
  cl_target :: "string option"
  cl_root :: string

definition classifyWrite :: "host \<Rightarrow> string \<Rightarrow> string \<Rightarrow> string \<Rightarrow> string list \<Rightarrow> classification" where
  "classifyWrite h cwd0 target0 root0 mirrors =
     (let cwd = normalize_path h cwd0; target = normalize_path h target0; root = normalize_path h root0;
          current = findContainingMirror h mirrors cwd; inside = findContainingMirror h mirrors target;
          answer = (\<lambda>tier reason. \<lparr>cl_tier = tier, cl_reason = reason, cl_current = current, cl_target = inside, cl_root = root\<rparr>)
      in case (truthy_opt current, truthy_opt inside) of
           (Some c, Some t) \<Rightarrow>
             (if c = t then answer Tier1Current (InCurrentMirror c)
              else if isWithin h root target then answer Tier2Sibling (InSiblingMirror t c)
              else answer Tier3Outside (OutsideRoot root))
         | (None, Some t) \<Rightarrow>
             (if isWithin h root target then answer Tier2Sibling (InMirrorFromOutside t)
              else answer Tier3Outside (OutsideRoot root))
         | (_, None) \<Rightarrow>
             (if isWithin h root target then answer Tier2Sibling (OutsideMirrors root)
              else answer Tier3Outside (OutsideRoot root)))"

section \<open>The guard\<close>

datatype guard_answer = GuardBadRequest | GuardUnenforceable | GuardDecision bool classification

definition guard_allows :: "guard_answer \<Rightarrow> bool" where
  "guard_allows g = (case g of GuardBadRequest \<Rightarrow> False | GuardUnenforceable \<Rightarrow> True | GuardDecision allow _ \<Rightarrow> allow)"

text \<open>\<open>GET /scope\<close> with the two parameters, the environment's root and the mirrors of the caller.\<close>

definition handleWriteScope :: "host \<Rightarrow> string option \<Rightarrow> string option \<Rightarrow> string option \<Rightarrow> string list \<Rightarrow> guard_answer" where
  "handleWriteScope h cwd target envValue mirrors =
     (case (truthy_opt cwd, truthy_opt target) of
        (Some c, Some t) \<Rightarrow>
          (case truthy_opt (resolvePortuniRoot h envValue mirrors) of
             None \<Rightarrow> GuardUnenforceable
           | Some root \<Rightarrow>
               (let cls = classifyWrite h c t root mirrors
                in GuardDecision (cl_tier cls = Tier1Current) cls))
      | _ \<Rightarrow> GuardBadRequest)"

end
