(* ===== verification/ScopeSettings.thy ===== *)
theory ScopeSettings
  imports WriteScope
begin

text \<open>
  The files a mirror gets for the agents that run in it, \<^verbatim>\<open>apps/server/domain/write-scope.ts\<close>: the settings of
  Claude Code with their allow and deny rules and the guard hook, the MCP connection, the sandbox of Codex
  and the hint for a reader.  The text of a JSON value is \<open>JSON.stringify(value, null, 2)\<close>.  A string is the list
  of its UTF-8 bytes; the moment of the generation, the server's URL, the place of the guard script and
  the workspace id are arguments.
\<close>

section \<open>The text of a JSON value\<close>

definition hex_digit :: "string \<Rightarrow> nat \<Rightarrow> char" where
  "hex_digit ds n = ds ! (n mod 16)"

definition json_char :: "char \<Rightarrow> string" where
  "json_char c =
     (if c = CHR 0x22 then [CHR 0x5C, CHR 0x22] else if c = CHR 0x5C then [CHR 0x5C, CHR 0x5C]
      else if c = CHR 0x08 then [CHR 0x5C, CHR ''b''] else if c = CHR 0x0C then [CHR 0x5C, CHR ''f'']
      else if c = CHR 0x0A then [CHR 0x5C, CHR ''n''] else if c = CHR 0x0D then [CHR 0x5C, CHR ''r'']
      else if c = CHR 0x09 then [CHR 0x5C, CHR ''t'']
      else if (of_char c :: nat) < 32
        then CHR 0x5C # ''u00'' @ [hex_digit ''0123456789abcdef'' (of_char c div 16), hex_digit ''0123456789abcdef'' (of_char c)]
      else [c])"

definition json_string :: "string \<Rightarrow> string" where
  "json_string s = CHR 0x22 # concat (map json_char s) @ [CHR 0x22]"

fun digits :: "nat \<Rightarrow> string" where
  "digits n = (if n < 10 then [hex_digit ''0123456789'' n] else digits (n div 10) @ [''0123456789'' ! (n mod 10)])"

declare digits.simps [simp del]

definition json_int :: "int \<Rightarrow> string" where
  "json_int i = (if i < 0 then CHR ''-'' # digits (nat (- i)) else digits (nat i))"

definition json_indent :: "nat \<Rightarrow> string" where
  "json_indent n = newline @ replicate n CHR '' ''"

definition json_block :: "nat \<Rightarrow> string \<Rightarrow> string list \<Rightarrow> string \<Rightarrow> string" where
  "json_block n opening items closing =
     (if items = [] then opening @ closing
      else opening @ json_indent (n + 2) @ join_with ('','' @ json_indent (n + 2)) items @ json_indent n @ closing)"

fun json_pretty :: "nat \<Rightarrow> json \<Rightarrow> string" where
  "json_pretty n JNull = ''null''"
| "json_pretty n (JBool b) = (if b then ''true'' else ''false'')"
| "json_pretty n (JNum i) = json_int i"
| "json_pretty n (JStr s) = json_string s"
| "json_pretty n (JArr xs) = json_block n ''['' (map (json_pretty (n + 2)) xs) '']''"
| "json_pretty n (JObj kvs) =
     json_block n ''{'' (map (\<lambda>(k, v). json_string k @ '': '' @ json_pretty (n + 2) v) kvs) ''}''"

section \<open>The connection\<close>

definition js_upper_char :: "char \<Rightarrow> char" where
  "js_upper_char c =
     (if 97 \<le> (of_char c :: nat) \<and> (of_char c :: nat) \<le> 122 then char_of ((of_char c :: nat) - 32) else c)"

definition clientTokenEnvVar :: "string option \<Rightarrow> string" where
  "clientTokenEnvVar workspace =
     (case truthy_opt (map_option js_trim workspace) of
        None \<Rightarrow> ''PORTUNI_MCP_TOKEN''
      | Some i \<Rightarrow> ''PORTUNI_MCP_TOKEN_'' @ map (\<lambda>c. if c = CHR ''-'' then CHR ''_'' else c) (map js_upper_char i))"

definition uri_plain :: "char \<Rightarrow> bool" where
  "uri_plain c \<longleftrightarrow>
     c \<in> set ''ABCDEFGHIJKLMNOPQRSTUVWXYZabcdefghijklmnopqrstuvwxyz0123456789-_.!~*()'' \<or> c = CHR 0x27"

definition encodeURIComponent :: "string \<Rightarrow> string" where
  "encodeURIComponent s =
     concat (map (\<lambda>c. if uri_plain c then [c]
       else [CHR ''%'', hex_digit ''0123456789ABCDEF'' (of_char c div 16), hex_digit ''0123456789ABCDEF'' (of_char c)]) s)"

definition appendHomeNodeIdToUrl :: "string \<Rightarrow> string option \<Rightarrow> string" where
  "appendHomeNodeIdToUrl base home =
     (case truthy_opt home of
        None \<Rightarrow> base
      | Some i \<Rightarrow> base @ (if CHR ''?'' \<in> set base then ''&'' else ''?'') @ ''home_node_id='' @ encodeURIComponent i)"

definition token_reference :: "string \<Rightarrow> string" where
  "token_reference var = ''${'' @ var @ '':-}''"

definition buildClaudeMcpJson :: "string \<Rightarrow> string option \<Rightarrow> string \<Rightarrow> string option \<Rightarrow> json" where
  "buildClaudeMcpJson generated workspace url home =
     (let var = clientTokenEnvVar workspace
      in JObj
        [(''portuni_managed'', JObj
           [(''generated_at'', JStr generated),
            (''note'', JStr (''Portuni-managed file; regenerated on sidecar boot and mirror changes. Token comes from the ''
               @ var @ '' env var, never stored here.''))]),
         (''mcpServers'', JObj
           [(''portuni'', JObj
              [(''type'', JStr ''http''),
               (''url'', JStr (appendHomeNodeIdToUrl url home)),
               (''headers'', JObj [(''Authorization'', JStr (''Bearer '' @ token_reference var))])])])])"

section \<open>The settings of Claude Code\<close>

definition strip_trailing_slashes :: "string \<Rightarrow> string" where
  "strip_trailing_slashes s = rev (dropWhile (\<lambda>c. c = CHR ''/'') (rev s))"

definition server_base :: "string \<Rightarrow> string" where
  "server_base url =
     (let s = strip_trailing_slashes url in if suffix ''/mcp'' s then take (length s - 4) s else s)"

definition buildClaudeHooksBlock :: "string option \<Rightarrow> string option \<Rightarrow> string option \<Rightarrow> json option" where
  "buildClaudeHooksBlock workspace guard url =
     (case truthy_opt guard of
        None \<Rightarrow> None
      | Some script \<Rightarrow>
          (let var = clientTokenEnvVar workspace;
               command = (case truthy_opt url of
                   None \<Rightarrow> script
                 | Some u \<Rightarrow>
                     ''PORTUNI_URL='' @ json_string (server_base u) @ '' PORTUNI_GUARD_TOKEN='' @ [CHR 0x22] @ token_reference var
                     @ [CHR 0x22] @ '' PORTUNI_GUARD_TOKEN_VAR='' @ var @ '' '' @ json_string script)
           in Some (JObj [(''PreToolUse'', JArr
                [JObj [(''matcher'', JStr ''Edit|Write|NotebookEdit|MultiEdit''),
                       (''hooks'', JArr [JObj [(''type'', JStr ''command''), (''command'', JStr command)]])]])])))"

text \<open>The mirrors whose files the session must not edit: neither the current one nor one that contains it.\<close>

definition denied_mirrors :: "host \<Rightarrow> string \<Rightarrow> string list \<Rightarrow> string list" where
  "denied_mirrors h current others =
     (let cur = normalize_path h current
      in filter (\<lambda>m. \<not> isWithin h m cur) (filter (\<lambda>m. m \<noteq> cur) (map (normalize_path h) others)))"

definition edit_rule :: "string \<Rightarrow> string" where
  "edit_rule m = ''Edit('' @ m @ ''/**)''"

definition buildClaudeSettings ::
    "host \<Rightarrow> string \<Rightarrow> string option \<Rightarrow> string \<Rightarrow> string list \<Rightarrow> string \<Rightarrow> string option \<Rightarrow> string option \<Rightarrow> json" where
  "buildClaudeSettings h generated workspace current others root guard url =
     JObj
       ([(''portuni_managed'', JObj
            [(''mirror'', JStr (normalize_path h current)), (''portuni_root'', JStr (normalize_path h root)),
             (''generated_at'', JStr generated)]),
         (''enabledMcpjsonServers'', JArr [JStr ''portuni'']),
         (''permissions'', JObj
            [(''allow'', JArr [JStr (edit_rule (normalize_path h current))]),
             (''deny'', JArr (map (\<lambda>m. JStr (edit_rule m)) (denied_mirrors h current others))),
             (''ask'', JArr [JStr ''mcp__portuni__portuni_expand_scope''])])]
        @ (case buildClaudeHooksBlock workspace guard url of None \<Rightarrow> [] | Some hooks \<Rightarrow> [(''hooks'', hooks)]))"

section \<open>Codex\<close>

definition CODEX_MARKER :: string where
  "CODEX_MARKER = ''# portuni-managed: do not edit between this line and the next portuni marker''"

definition buildCodexSandboxConfig :: "host \<Rightarrow> string \<Rightarrow> string list" where
  "buildCodexSandboxConfig h current = [normalize_path h current]"

definition renderCodexToml :: "string list \<Rightarrow> string" where
  "renderCodexToml roots =
     join_with newline
       [CODEX_MARKER, ''[sandbox_workspace_write]'',
        ''writable_roots = ['' @ join_with '', '' (map json_string roots) @ '']'', []]"

record codex_server =
  cx_type :: string
  cx_url :: string
  cx_headers :: "(string \<times> string) list option"

definition buildCodexMcpServer :: "string \<Rightarrow> string option \<Rightarrow> codex_server" where
  "buildCodexMcpServer url token =
     \<lparr>cx_type = ''http'', cx_url = url,
      cx_headers = map_option (\<lambda>t. [(''Authorization'', ''Bearer '' @ t)]) (truthy_opt token)\<rparr>"

section \<open>The hint a mirror carries\<close>

record data_source =
  so_name :: string
  so_description :: "string option"
  so_link :: "string option"

definition source_line :: "data_source \<Rightarrow> string" where
  "source_line s =
     ''- '' @ so_name s
     @ (case truthy_opt (so_link s) of Some l \<Rightarrow> '' '' @ em_dash @ '' '' @ l | None \<Rightarrow> [])
     @ (case truthy_opt (so_description s) of Some d \<Rightarrow> '' ('' @ d @ '')'' | None \<Rightarrow> [])"

definition hint_head :: "host \<Rightarrow> string \<Rightarrow> string \<Rightarrow> string list" where
  "hint_head h cur root =
     [''## Portuni write scope'',
      '''',
      ''This mirror (`'' @ normalize_path h cur @ ''`) is your workspace.'',
      ''Other mirror paths that appear in Portuni context are READ-ONLY references.'',
      ''Editing files in those siblings is out of scope for this session '' @ em_dash @ '' ask the user first.'',
      ''Paths outside PORTUNI_ROOT (`'' @ normalize_path h root @ ''`) require explicit user approval for every write.'',
      '''',
      ''## Where to save files'',
      '''',
      ''New files belong in one of this mirror's section folders, never the mirror root:'',
      ''- `wip/` '' @ em_dash @ '' work in progress: drafts, scratch notes, intermediate research.'',
      ''- `outputs/` '' @ em_dash @ '' finished, shareable deliverables.'',
      ''- `resources/` '' @ em_dash @ '' reference material you were given or pulled in.'',
      ''The mirror root is reserved for Portuni-managed files (`PORTUNI_SCOPE.md`, `.mcp.json`, `CLAUDE.md`, `.claude/`). Do not place working files at the mirror root.'',
      '''',
      ''## Portuni data sources'',
      '''']"

definition hint_sources :: "data_source list \<Rightarrow> string list" where
  "hint_sources sources =
     (if sources \<noteq> []
      then [''This node has registered data sources. Consult them before researching elsewhere:'']
           @ map source_line sources
           @ [''Call `portuni_list_data_sources` for the authoritative, current list.'']
      else [''Call `portuni_list_data_sources` (or `portuni_get_context`) to see where this node gets its information before researching elsewhere.''])"

definition hint_registration :: "bool \<Rightarrow> string list" where
  "hint_registration personal =
     ['''', ''## Portuni file registration'', ''''] @
     (if personal
      then [''Files you create in this mirror's `wip/`, `outputs/`, or `resources/` are registered automatically '' @ em_dash @ '' the desktop app watches the mirror and tracks new files and edits without any action from you.'',
      ''This is a personal workspace: files stay on this device and there is no remote to upload to. `portuni_status` lists files on disk that are not registered yet (`new_local`) and registered files that are gone from disk (`deleted_local`).'']
      else [''Files you create in this mirror's `wip/`, `outputs/`, or `resources/` are registered automatically '' @ em_dash @ '' the desktop app watches the mirror and tracks new files and edits without any action from you. You normally do not need `portuni_store`.'',
      ''`portuni_store` uploads a file to the routed remote (a deliberate push) '' @ em_dash @ '' use it only when you explicitly want to push. `portuni_status` shows what is unsynced.'',
      ''If automatic tracking is not active in your environment, `portuni_status` lists files you created as `new_local`, and `portuni_store` then registers and uploads them. For files that appeared from elsewhere (`new_remote`), use `portuni_adopt_files`.''])"

definition hint_reading :: "string list" where
  "hint_reading =
     ['''',
      ''## Reading related nodes'',
      '''',
      ''Any in-scope node with a local mirror on this device '' @ em_dash @ '' the home node, a'',
      ''neighbour, or one added mid-session via `portuni_expand_scope` '' @ em_dash @ '' is'',
      ''directly readable at its real mirror path. `portuni_get_node` and'',
      ''`portuni_get_context` return that path in `readable_path`/`local_path`;'',
      ''use it with your native Read/Grep tools. A node with no local mirror'',
      ''here has `readable_path`/`local_path` set to null '' @ em_dash @ '' read its content'',
      ''with `portuni_read_file(node_id, path)` instead. If a related node is'',
      ''not yet in scope, the read tools return `scope_expansion_required` '' @ em_dash,
      ''confirm with the user, then `portuni_expand_scope`.'',
      '''']"

definition buildSoftHint :: "host \<Rightarrow> string \<Rightarrow> string \<Rightarrow> data_source list \<Rightarrow> bool \<Rightarrow> string" where
  "buildSoftHint h cur root sources personal =
     join_with newline (hint_head h cur root @ hint_sources sources @ hint_registration personal @ hint_reading)"

section \<open>Orientation\<close>

record responsibility_line =
  ri_title :: string
  ri_assignees :: "string list"

record event_line =
  ei_type :: string
  ei_content :: string
  ei_created :: string

record handoff_note =
  hn_session :: string
  hn_path :: string
  hn_suspended :: string

record orientation =
  or_name :: string
  or_type :: string
  or_description :: "string option"
  or_status :: string
  or_goal :: "string option"
  or_lifecycle :: "string option"
  or_responsibilities :: "responsibility_line list"
  or_events :: "event_line list"
  or_handoff :: "handoff_note option"

definition bold :: "string \<Rightarrow> string" where "bold s = ''**'' @ s @ ''**''"

definition responsibility_text :: "responsibility_line \<Rightarrow> string" where
  "responsibility_text r =
     ''- '' @ ri_title r
     @ (if ri_assignees r = [] then [] else '' '' @ em_dash @ '' '' @ join_with '', '' (ri_assignees r))"

definition event_text :: "event_line \<Rightarrow> string" where
  "event_text e = ''- `['' @ ei_type e @ '']` '' @ take 10 (ei_created e) @ '' '' @ em_dash @ '' '' @ ei_content e"

definition handoff_text :: "handoff_note \<Rightarrow> string" where
  "handoff_text n =
     ''A previous session ('' @ quoted (hn_session n) @ '', suspended '' @ take 10 (hn_suspended n)
     @ '') left a handoff note at `'' @ hn_path n @ ''`. Read it before starting if you are picking up that work.''"

definition buildOrientationHint :: "orientation \<Rightarrow> string" where
  "buildOrientationHint o1 =
     join_with newline
       ([''## Node context'', [],
         bold (or_name o1) @ '' ('' @ or_type o1 @ '') '' @ em_dash @ '' status: '' @ or_status o1
         @ (case truthy_opt (or_lifecycle o1) of Some l \<Rightarrow> '', lifecycle: '' @ l | None \<Rightarrow> [])]
        @ (case truthy_opt (or_goal o1) of Some g \<Rightarrow> [''Goal: '' @ g] | None \<Rightarrow> [])
        @ (case truthy_opt (or_description o1) of Some d \<Rightarrow> [[], d] | None \<Rightarrow> [])
        @ [[]]
        @ (if or_responsibilities o1 = [] then []
           else [''## Responsibilities'', []] @ map responsibility_text (or_responsibilities o1) @ [[]])
        @ (if or_events o1 = [] then [] else [''## Recent events'', []] @ map event_text (or_events o1) @ [[]])
        @ (case or_handoff o1 of None \<Rightarrow> [] | Some n \<Rightarrow> [''## Handoff'', [], handoff_text n, []]))"

end
