(* ===== verification/WriteScopeLaws.thy ===== *)
theory WriteScopeLaws
  imports ScopeSettings
begin

text \<open>
  The write scope in terms of path segments: a normal path is the list of its segments, containment is
  the prefix order on them, and the mirror of a path is the longest mirror that is a prefix of it.
\<close>

section \<open>Paths as lists of segments\<close>

definition path_of :: "string list \<Rightarrow> string" where
  "path_of ss = CHR ''/'' # join_with ''/'' ss"

definition segs :: "host \<Rightarrow> string \<Rightarrow> string list" where
  "segs h p = root_segments (ho_cwd h) (expandHome h p)"

definition plain :: "string list \<Rightarrow> bool" where
  "plain ss \<longleftrightarrow> (\<forall>s \<in> set ss. plain_segment s)"

lemma plain_segs [simp]: "plain (segs h p)"
  unfolding plain_def segs_def by (rule root_segments_plain)

lemma plain_take [simp]: "plain ss \<Longrightarrow> plain (take n ss)"
  by (auto simp: plain_def dest: in_set_takeD)

lemma plain_butlast [simp]: "plain ss \<Longrightarrow> plain (butlast ss)"
  by (auto simp: plain_def dest: in_set_butlastD)

lemma normalize_path_of [simp]: "normalize_path h p = path_of (segs h p)"
  by (simp add: normalize_path_def segs_def path_of_def resolve_root)

lemma segs_path_of [simp]: "plain ss \<Longrightarrow> segs h (path_of ss) = ss"
  by (simp add: segs_def path_of_def expandHome_def plain_def root_segments_abs)

lemma path_of_not_Nil [simp]: "path_of ss \<noteq> []"
  by (simp add: path_of_def)

lemma truthy_path_of [simp]: "truthy_opt (Some (path_of ss)) = Some (path_of ss)"
  by (simp add: truthy_opt_def path_of_def)

lemma path_of_eq [simp]: "plain ss \<Longrightarrow> plain ts \<Longrightarrow> path_of ss = path_of ts \<longleftrightarrow> ss = ts"
  using segs_path_of by metis

lemma split_path_of: "plain ss \<Longrightarrow> split_on CHR ''/'' (path_of ss) = [] # (if ss = [] then [[]] else ss)"
  by (simp add: path_of_def split_join_plain plain_def)

lemma join_path_of: "ss \<noteq> [] \<Longrightarrow> join_with ''/'' ([] # ss) = path_of ss"
  by (simp add: path_of_def join_with_Cons)

lemma path_of_below:
  "ss \<noteq> [] \<Longrightarrow> ts \<noteq> [] \<Longrightarrow> path_of (ss @ ts) = path_of ss @ CHR ''/'' # join_with ''/'' ts"
  by (simp add: path_of_def join_with_append)

lemma path_of_ends: "plain ss \<Longrightarrow> suffix ''/'' (path_of ss) \<longleftrightarrow> ss = []"
proof (cases "ss = []")
  case False
  assume "plain ss"
  then have "last (join_with ''/'' ss) \<noteq> CHR ''/''" and "join_with ''/'' ss \<noteq> []"
    using False plain_join_ends(2) join_with_nonempty by (auto simp: plain_def)
  then show ?thesis
    using False by (auto simp: path_of_def suffix_def dest: arg_cong [where f = last])
qed (simp add: path_of_def)

lemma isWithin_prefix: "isWithin h p c \<longleftrightarrow> prefix (segs h p) (segs h c)"
proof -
  define a b where "a = segs h p" and "b = segs h c"
  then have pl: "plain a" "plain b" by simp_all
  have "path_of a = path_of b \<or> prefix (path_of a @ ''/'') (path_of b) \<longleftrightarrow> prefix a b" if ne: "a \<noteq> []"
  proof
    assume "prefix a b"
    then obtain ts where "b = a @ ts" by (auto elim: prefixE)
    then show "path_of a = path_of b \<or> prefix (path_of a @ ''/'') (path_of b)"
      using ne by (cases "ts = []") (auto simp: path_of_below)
  next
    assume "path_of a = path_of b \<or> prefix (path_of a @ ''/'') (path_of b)"
    then show "prefix a b"
    proof
      assume "prefix (path_of a @ ''/'') (path_of b)"
      then obtain rest where r: "path_of b = path_of a @ CHR ''/'' # rest" by (auto elim: prefixE)
      have "split_on CHR ''/'' (path_of b) = ([] # a) @ split_on CHR ''/'' rest"
        unfolding r split_on_append using split_path_of [OF pl(1)] ne by simp
      moreover have "split_on CHR ''/'' (path_of b) = [] # b"
        using split_path_of [OF pl(2)] calculation ne
        by (auto simp: append_eq_Cons_conv split: if_split_asm)
      ultimately show ?thesis by simp
    qed (use pl in simp)
  qed
  moreover have "prefix ''/'' (path_of b)"
    by (simp add: path_of_def)
  ultimately show ?thesis
    using path_of_ends [OF pl(1)] unfolding isWithin_def Let_def normalize_path_of a_def [symmetric] b_def [symmetric]
    by (cases "a = []") (auto simp: path_of_def)
qed

section \<open>The mirror of a path\<close>

text \<open>The specification: the longest of the mirrors that are prefixes of the path.\<close>

definition innermost :: "string list list \<Rightarrow> string list \<Rightarrow> string list option" where
  "innermost ms t =
     (let cs = filter (\<lambda>m. prefix m t) ms
      in if cs = [] then None else Some (take (Max (set (map length cs))) t))"

lemma length_path_of_mono:
  assumes "plain t" and "prefix a t" and "prefix b t"
  shows "length (path_of a) < length (path_of b) \<longleftrightarrow> length a < length b"
proof -
  have longer: "length (path_of a) < length (path_of b)" if "prefix a b" and "a \<noteq> b" and "plain b" for a b
  proof -
    from that obtain ts where b: "b = a @ ts" and ts: "ts \<noteq> []" by (auto elim!: prefixE)
    then have "join_with ''/'' ts \<noteq> []"
      using \<open>plain b\<close> by (intro join_with_nonempty) (auto simp: plain_def)
    then show ?thesis
      using b ts by (cases "a = []") (simp_all add: path_of_below, simp add: path_of_def)
  qed
  have pl: "plain a" "plain b"
    using assms by (auto simp: plain_def dest: set_mono_prefix)
  have "prefix a b \<or> prefix b a"
    using assms prefix_same_cases by blast
  then show ?thesis
    using longer [of a b] longer [of b a] pl
    by (metis less_asym' less_irrefl linorder_neqE_nat not_less prefix_length_le prefix_length_less strict_prefixI)
qed

lemma innermost_snoc:
  "innermost (ms @ [m]) t =
     (if prefix m t \<and> (case innermost ms t of None \<Rightarrow> True | Some b \<Rightarrow> length b < length m) then Some m
      else innermost ms t)"
proof -
  define cs k where "cs = filter (\<lambda>m. prefix m t) ms" and "k = Max (length ` set cs)"
  have le: "k \<le> length t" if "cs \<noteq> []"
    using that unfolding k_def by (subst Max_le_iff) (auto simp: cs_def filter_empty_conv dest: prefix_length_le)
  have m: "take (length m) t = m" if "prefix m t"
    using that by (auto elim: prefixE)
  have "innermost ms t = (if cs = [] then None else Some (take k t))"
    by (simp add: innermost_def cs_def k_def)
  moreover have "innermost (ms @ [m]) t =
      (if prefix m t then Some (take (if cs = [] then length m else max (length m) k) t)
       else if cs = [] then None else Some (take k t))"
    by (simp add: innermost_def cs_def [symmetric] k_def)
  ultimately show ?thesis
    using le m by (auto simp: max_def min_def)
qed

lemma innermost_prefix: "innermost ms t = Some b \<Longrightarrow> prefix b t"
  by (auto simp: innermost_def Let_def take_is_prefix split: if_split_asm)

lemma innermost_Some_iff:
  "innermost ms t = Some b \<longleftrightarrow> b \<in> set ms \<and> prefix b t \<and> (\<forall>m \<in> set ms. prefix m t \<longrightarrow> length m \<le> length b)"
proof -
  define cs where "cs = filter (\<lambda>m. prefix m t) ms"
  have set: "set cs = {m \<in> set ms. prefix m t}" by (auto simp: cs_def)
  have at: "take (length m) t = m" if "prefix m t" for m
    using that by (auto elim: prefixE)
  show ?thesis
  proof
    assume "innermost ms t = Some b"
    then have ne: "cs \<noteq> []" and b: "b = take (Max (length ` set cs)) t"
      by (auto simp: innermost_def Let_def cs_def [symmetric] split: if_split_asm)
    have "Max (length ` set cs) \<in> length ` set cs"
      using ne by (intro Max_in) auto
    then obtain c where "c \<in> set cs" and c: "length c = Max (length ` set cs)" by auto
    then have "b = c" and "c \<in> set ms" and "prefix c t"
      using b set at [of c] by auto
    moreover have "length m \<le> length c" if "m \<in> set ms" and "prefix m t" for m
      using that set c by (auto intro!: Max_ge)
    ultimately show "b \<in> set ms \<and> prefix b t \<and> (\<forall>m \<in> set ms. prefix m t \<longrightarrow> length m \<le> length b)"
      by blast
  next
    assume b: "b \<in> set ms \<and> prefix b t \<and> (\<forall>m \<in> set ms. prefix m t \<longrightarrow> length m \<le> length b)"
    then have "b \<in> set cs" using set by auto
    moreover have "Max (length ` set cs) = length b"
      using b set by (intro Max_eqI) auto
    ultimately show "innermost ms t = Some b"
      using b at [of b] by (auto simp: innermost_def Let_def cs_def [symmetric])
  qed
qed

lemma innermost_None_iff: "innermost ms t = None \<longleftrightarrow> (\<forall>m \<in> set ms. \<not> prefix m t)"
  by (auto simp: innermost_def Let_def filter_empty_conv)

lemma findContainingMirror_innermost:
  "findContainingMirror h ms p = map_option path_of (innermost (map (segs h) ms) (segs h p))"
proof (induction ms rule: rev_induct)
  case Nil
  then show ?case by (simp add: findContainingMirror_def innermost_def)
next
  case (snoc m ms)
  define t where "t = segs h p"
  have pt: "plain t" by (simp add: t_def)
  have step: "findContainingMirror h (ms @ [m]) p =
      (let best = findContainingMirror h ms p; n = path_of (segs h m)
       in if prefix (segs h m) t \<and> (case best of None \<Rightarrow> True | Some b \<Rightarrow> length b < length n) then Some n else best)"
    by (simp add: findContainingMirror_def Let_def isWithin_prefix t_def)
  show ?case
  proof (cases "innermost (map (segs h) ms) t")
    case None
    then show ?thesis
      using step snoc.IH by (simp add: innermost_snoc t_def [symmetric])
  next
    case (Some b)
    then have "prefix b t" by (rule innermost_prefix)
    then show ?thesis
      using step snoc.IH Some length_path_of_mono [OF pt, of b "segs h m"]
      by (cases "prefix (segs h m) t") (simp_all add: innermost_snoc t_def [symmetric] Let_def)
  qed
qed

lemma tier_current_iff:
  "cl_tier (classifyWrite h cwd target root ms) = Tier1Current \<longleftrightarrow>
     innermost (map (segs h) ms) (segs h target) \<noteq> None \<and>
     innermost (map (segs h) ms) (segs h target) = innermost (map (segs h) ms) (segs h cwd)"
proof -
  have pl: "plain b" if "innermost (map (segs h) ms) (segs h q) = Some b" for b q
    using that by (auto simp: innermost_Some_iff)
  show ?thesis
    using pl [of cwd] pl [of target]
    by (cases "innermost (map (segs h) ms) (segs h cwd)"; cases "innermost (map (segs h) ms) (segs h target)")
      (auto simp: classifyWrite_def Let_def findContainingMirror_innermost truthy_opt_def [of None])
qed

section \<open>The directory of all mirrors\<close>

lemma agreeing_take:
  assumes "s \<in> set split"
  shows "take (agreeing first split) s = take (agreeing first split) first" and "agreeing first split \<le> length first"
proof -
  let ?P = "\<lambda>i. list_all (\<lambda>s. i < length s \<and> s ! i = first ! i) split"
  define n where "n = agreeing first split"
  have le: "n \<le> length first"
    unfolding n_def agreeing_def using length_takeWhile_le [of ?P "[0..<length first]"] by simp
  have "?P i" if "i < n" for i
  proof -
    have "takeWhile ?P [0..<length first] ! i = i"
      using that le takeWhile_nth [of i ?P "[0..<length first]"] by (simp add: n_def agreeing_def)
    then show ?thesis
      using that nth_mem [of i "takeWhile ?P [0..<length first]"] set_takeWhileD
      by (fastforce simp: n_def agreeing_def)
  qed
  then have at: "i < length s \<and> s ! i = first ! i" if "i < n" for i
    using that assms by (auto simp: list_all_iff)
  have "n \<le> length s"
    using at [of "length s"] by (auto intro: leI)
  then have "take n s = take n first"
    using le at by (intro nth_equalityI) auto
  then show "take (agreeing first split) s = take (agreeing first split) first" and "agreeing first split \<le> length first"
    using le by (simp_all add: n_def)
qed

lemma commonAncestor_contains:
  assumes root: "commonAncestor h ms = Some r" and m: "m \<in> set ms"
  shows "isWithin h r m"
proof -
  define split where "split = map (\<lambda>p. split_on CHR ''/'' (path_of (segs h p))) ms"
  define n where "n = agreeing (hd split) split"
  define s where "s = segs h m"
  from m have ne: "ms \<noteq> []" by auto
  have s: "plain s" by (simp add: s_def)
  have mem: "[] # (if s = [] then [[]] else s) \<in> set split"
    using m split_path_of [of s] by (auto simp: split_def s_def intro!: image_eqI [of _ _ m])
  have n: "\<not> n < 2" and r: "r = (let a = join_with ''/'' (take n (hd split))
      in if prefix ''/'' a \<or> drive_prefix a then a else ''/'' @ a)"
    using root ne by (auto simp: commonAncestor_def Let_def split_def n_def hd_map split: if_split_asm)
  have t: "take n (hd split) = [] # take (n - 1) (if s = [] then [[]] else s)"
    using agreeing_take(1) [OF mem, of "hd split"] n by (cases n) (simp_all add: n_def)
  have "join_with ''/'' ([] # take (n - 1) (if s = [] then [[]] else s)) = path_of (take (n - 1) s)"
    using n by (cases "s = []") (simp_all add: join_path_of, simp_all add: path_of_def)
  then have "r = path_of (take (n - 1) s)"
    unfolding r t Let_def by (simp add: path_of_def)
  then show ?thesis
    using s by (simp add: isWithin_prefix s_def [symmetric] take_is_prefix)
qed

lemma resolvePortuniRoot_contains:
  assumes "resolvePortuniRoot h None ms = Some r" and "m \<in> set ms"
  shows "isWithin h r m"
proof (cases "\<exists>x. ms = [x]")
  case True
  then have ms: "ms = [m]" using assms(2) by auto
  define s where "s = segs h m"
  have s: "plain s" by (simp add: s_def)
  have "butlast ([] # (if s = [] then [[]] else s)) = [] # butlast s"
    by simp
  then have "r = path_of (butlast s)"
    using assms(1) split_path_of [OF s]
    by (cases "butlast s = []")
      (simp_all add: ms resolvePortuniRoot_def truthy_opt_def Let_def s_def [symmetric] join_path_of, simp_all add: path_of_def)
  then show ?thesis
    using s by (simp add: isWithin_prefix s_def [symmetric] prefixeq_butlast)
next
  case False
  then have "commonAncestor h ms = Some r"
    using assms by (auto simp: resolvePortuniRoot_def truthy_opt_def split: list.splits)
  then show ?thesis
    using assms(2) by (rule commonAncestor_contains)
qed

section \<open>The mirrors a session must not edit\<close>

lemma denied_mirror_iff:
  "list_ex (\<lambda>m. isWithin h m target) (denied_mirrors h cur others) \<longleftrightarrow>
     (\<exists>m \<in> set others. \<not> prefix (segs h m) (segs h cur) \<and> prefix (segs h m) (segs h target))"
proof -
  have "segs h m \<noteq> segs h cur" if "\<not> prefix (segs h m) (segs h cur)" for m
    using that by auto
  then show ?thesis
    by (auto simp: list_ex_iff denied_mirrors_def Let_def isWithin_prefix)
qed

end
