(* ===== verification/Permissions.thy ===== *)
theory Permissions
  imports WriteScope "HOL-Library.AList"
begin

text \<open>
  What a runner's tool call may do, \<^verbatim>\<open>apps/server/domain/runner/permissions.ts\<close>: allowed, denied with a reason,
  or put to the user as a question.  The arguments of a call are a JSON object.
\<close>

datatype permission_policy = PolicyDefault | PolicyAuto

record permission_input =
  pi_tool :: string
  pi_input :: json
  pi_cwd :: string
  pi_root :: string
  pi_mirrors :: "string list"
  pi_policy :: permission_policy

record ask_prompt =
  ap_question :: string
  ap_options :: "string list"
  ap_multi :: bool

datatype ask_kind = AskApproval | AskInput

datatype question_code = ScopeExpand | AgentQuestion | PlanApproval | McpConfirmation

record ask_question =
  aq_kind :: ask_kind
  aq_title :: string
  aq_code :: question_code
  aq_detail :: string
  aq_options :: "string list option"
  aq_questions :: "ask_prompt list option"

datatype deny_code =
    ConnectorDisabled | RunEnded | TurnStopped | DeniedByUser | NotAnswered
  | WriteNoPath | WriteOutsideMirror | WriteOutsideRoot

datatype permission_decision =
    PermAllow
  | PermDeny string deny_code "(string \<times> string) list"
  | PermAsk ask_question

definition WRITE_TOOL_PATH_KEY :: "(string \<times> string) list" where
  "WRITE_TOOL_PATH_KEY =
     [(''Edit'', ''file_path''), (''Write'', ''file_path''), (''MultiEdit'', ''file_path''), (''NotebookEdit'', ''notebook_path'')]"

definition stringField :: "json \<Rightarrow> string \<Rightarrow> string option" where
  "stringField input key = (case json_get input key of Some (JStr s) \<Rightarrow> Some s | _ \<Rightarrow> None)"

fun strings_in :: "json list \<Rightarrow> string list" where
  "strings_in [] = []"
| "strings_in (JStr s # vs) = s # strings_in vs"
| "strings_in (_ # vs) = strings_in vs"

definition stringArrayField :: "json \<Rightarrow> string \<Rightarrow> string list option" where
  "stringArrayField input key =
     (case json_get input key of
        Some (JArr vs) \<Rightarrow> (let strings = strings_in vs in if strings = [] then None else Some strings)
      | _ \<Rightarrow> None)"

definition option_label :: "json \<Rightarrow> json" where
  "option_label v =
     (case v of
        JStr s \<Rightarrow> JStr s
      | JObj kvs \<Rightarrow> (case json_get v ''label'' of Some l \<Rightarrow> l | None \<Rightarrow> JNull)
      | _ \<Rightarrow> JNull)"

definition optionLabels :: "json option \<Rightarrow> string list" where
  "optionLabels options = (case options of Some (JArr vs) \<Rightarrow> strings_in (map option_label vs) | _ \<Rightarrow> [])"

definition prompt_of :: "json \<Rightarrow> ask_prompt option" where
  "prompt_of q =
     map_option (\<lambda>text. \<lparr>ap_question = text, ap_options = optionLabels (json_get q ''options''),
        ap_multi = (json_get q ''multiSelect'' = Some (JBool True))\<rparr>) (stringField q ''question'')"

definition askUserQuestionFields :: "json \<Rightarrow> string \<times> string list option \<times> ask_prompt list" where
  "askUserQuestionFields input =
     (case json_get input ''questions'' of
        Some (JArr (q # qs)) \<Rightarrow>
          (let prompts = List.map_filter prompt_of (q # qs);
               single = (case prompts of [p] \<Rightarrow> if ap_options p = [] then None else Some (ap_options p) | _ \<Rightarrow> None)
           in (join_with (newline @ newline) (map ap_question prompts), single, prompts))
      | _ \<Rightarrow>
          (let detail = (case stringField input ''question'' of Some s \<Rightarrow> s | None \<Rightarrow> []);
               options = stringArrayField input ''options''
           in (detail, options,
               if detail = [] then []
               else [\<lparr>ap_question = detail, ap_options = or_else options [], ap_multi = False\<rparr>])))"

text \<open>One reply for every question, or a map with a reply per question.\<close>

datatype answer_value = OneReply string | Replies "(string \<times> string) list"

definition reply_for :: "answer_value \<Rightarrow> string \<Rightarrow> string option" where
  "reply_for v q = (case v of OneReply s \<Rightarrow> Some s | Replies m \<Rightarrow> map_of m q)"

definition askUserQuestionAnswers :: "json \<Rightarrow> answer_value \<Rightarrow> (string \<times> string) list" where
  "askUserQuestionAnswers input value =
     foldl (\<lambda>answers q.
        (case reply_for value (ap_question q) of
           None \<Rightarrow> answers
         | Some a \<Rightarrow> if js_trim a = [] then answers else AList.update (ap_question q) a answers))
       [] (snd (snd (askUserQuestionFields input)))"

definition decidePermission :: "host \<Rightarrow> permission_input \<Rightarrow> permission_decision" where
  "decidePermission h p =
     (case map_of WRITE_TOOL_PATH_KEY (pi_tool p) of
        Some key \<Rightarrow>
          (case stringField (pi_input p) key of
             None \<Rightarrow>
               PermDeny (pi_tool p @ '' call has no '' @ key @ '' to classify'') WriteNoPath
                 [(''tool'', pi_tool p), (''field'', key)]
           | Some target \<Rightarrow>
               (let cls = classifyWrite h (pi_cwd p) target (pi_root p) (pi_mirrors p)
                in if cl_tier cls = Tier1Current then PermAllow
                   else PermDeny (reason_text (cl_reason cls))
                     (if cl_tier cls = Tier2Sibling then WriteOutsideMirror else WriteOutsideRoot) [(''path'', target)]))
      | None \<Rightarrow>
          if pi_tool p = ''Bash'' then PermAllow
          else if pi_tool p = ''mcp__portuni__portuni_expand_scope'' then
            (if pi_policy p = PolicyAuto then PermAllow
             else PermAsk \<lparr>aq_kind = AskApproval, aq_title = ''Expand the thread's scope?'', aq_code = ScopeExpand,
               aq_detail = ''The agent wants to read a node outside this thread's current scope.'',
               aq_options = None, aq_questions = None\<rparr>)
          else if pi_tool p = ''AskUserQuestion'' then
            (let (detail, options, questions) = askUserQuestionFields (pi_input p)
             in PermAsk \<lparr>aq_kind = AskInput, aq_title = ''Question from the agent'', aq_code = AgentQuestion,
                  aq_detail = detail, aq_options = options, aq_questions = Some questions\<rparr>)
          else if pi_tool p = ''ExitPlanMode'' then
            PermAsk \<lparr>aq_kind = AskApproval, aq_title = ''Approve the plan?'', aq_code = PlanApproval,
              aq_detail = or_else (stringField (pi_input p) ''plan'') [], aq_options = None, aq_questions = None\<rparr>
          else PermAllow)"

end
