(* ===== verification/ScopeFiles.thy ===== *)
theory ScopeFiles
  imports ScopeSettings
begin

text \<open>
  Writing those files into a mirror, \<^verbatim>\<open>apps/server/domain/scope-materialize.ts\<close>: the block between two markers
  in a user's own file, and the files of one mirror and of all of them.  The disk is a map from paths to
  contents; a read, a write or a removal that fails has its message in a second map.  A directory in the
  place of a file is an entry whose reads and writes fail.
\<close>

section \<open>The block between the markers\<close>

definition BEGIN_MARKER :: string where
  "BEGIN_MARKER = ''<!-- BEGIN portuni-scope (auto-generated, do not edit) -->''"

definition END_MARKER :: string where
  "END_MARKER = ''<!-- END portuni-scope -->''"

definition LEGACY_VIBE_MARKER :: string where
  "LEGACY_VIBE_MARKER = ''# portuni-managed: project-scoped MCP for Mistral Vibe''"

text \<open>\<open>String.prototype.indexOf\<close>, \<open>includes\<close>, \<open>trimEnd\<close> and \<open>trimStart\<close>.\<close>

fun index_of :: "string \<Rightarrow> string \<Rightarrow> nat option" where
  "index_of pat [] = (if pat = [] then Some 0 else None)"
| "index_of pat (c # cs) = (if prefix pat (c # cs) then Some 0 else map_option Suc (index_of pat cs))"

definition text_includes :: "string \<Rightarrow> string \<Rightarrow> bool" where
  "text_includes pat s \<longleftrightarrow> index_of pat s \<noteq> None"

definition trim_end :: "string \<Rightarrow> string" where
  "trim_end s = rev (dropWhile js_space (rev s))"

definition trim_start :: "string \<Rightarrow> string" where
  "trim_start s = dropWhile js_space s"

definition marker_block :: "string \<Rightarrow> string" where
  "marker_block body = BEGIN_MARKER @ newline @ js_trim body @ newline @ END_MARKER @ newline"

definition applyMarkerBlock :: "string \<Rightarrow> string \<Rightarrow> string" where
  "applyMarkerBlock existing body =
     (let appended =
            (if existing = [] then [] else existing @ (if suffix newline existing then newline else newline @ newline))
            @ marker_block body
      in case (index_of BEGIN_MARKER existing, index_of END_MARKER existing) of
           (Some b, Some e) \<Rightarrow>
             (if b < e
              then (let before = take b existing; after = drop (e + length END_MARKER) existing
                    in js_trim (trim_end before @ newline @ newline @ marker_block body @ trim_start after) @ newline)
              else appended)
         | _ \<Rightarrow> appended)"

section \<open>The files of a mirror\<close>

record mirror_disk =
  md_files :: "string \<Rightarrow> string option"
  md_read_fault :: "string \<Rightarrow> string option"
  md_write_fault :: "string \<Rightarrow> string option"
  md_unlink_fault :: "string \<Rightarrow> string option"

record materialized =
  mt_written :: "string list"
  mt_removed :: "string list"
  mt_errors :: "(string \<times> string) list"

definition nothing_yet :: materialized where
  "nothing_yet = \<lparr>mt_written = [], mt_removed = [], mt_errors = []\<rparr>"

definition note_written :: "string \<Rightarrow> materialized \<Rightarrow> materialized" where
  "note_written p r = r\<lparr>mt_written := mt_written r @ [p]\<rparr>"

definition note_removed :: "string \<Rightarrow> materialized \<Rightarrow> materialized" where
  "note_removed p r = r\<lparr>mt_removed := mt_removed r @ [p]\<rparr>"

definition note_error :: "string \<Rightarrow> string \<Rightarrow> materialized \<Rightarrow> materialized" where
  "note_error p m r = r\<lparr>mt_errors := mt_errors r @ [(p, m)]\<rparr>"

type_synonym scope_run = "mirror_disk \<times> materialized"

definition read_text :: "mirror_disk \<Rightarrow> string \<Rightarrow> string + string" where
  "read_text d p =
     (case md_read_fault d p of
        Some m \<Rightarrow> Inl m
      | None \<Rightarrow> (case md_files d p of None \<Rightarrow> Inl ''ENOENT'' | Some s \<Rightarrow> Inr s))"

text \<open>A write that fails is reported under \<open>label\<close>, the path or its short form.\<close>

definition safeWrite :: "string \<Rightarrow> string \<Rightarrow> string \<Rightarrow> scope_run \<Rightarrow> scope_run" where
  "safeWrite label p content run =
     (case md_write_fault (fst run) p of
        Some m \<Rightarrow> (fst run, note_error label m (snd run))
      | None \<Rightarrow> ((fst run)\<lparr>md_files := (md_files (fst run))(p := Some content)\<rparr>, note_written p (snd run)))"

text \<open>The rule for a file a user may own: written when it is missing or carries the marker.\<close>

definition write_if_ours :: "string \<Rightarrow> string \<Rightarrow> string \<Rightarrow> string \<Rightarrow> string \<Rightarrow> scope_run \<Rightarrow> scope_run" where
  "write_if_ours label p marker skipped content run =
     (if md_files (fst run) p = None then safeWrite label p content run
      else (case read_text (fst run) p of
              Inl m \<Rightarrow> (fst run, note_error label m (snd run))
            | Inr s \<Rightarrow> (if text_includes marker s then safeWrite label p content run
                        else (fst run, note_error p skipped (snd run)))))"

definition remove_if_ours :: "string \<Rightarrow> string \<Rightarrow> scope_run \<Rightarrow> scope_run" where
  "remove_if_ours p marker run =
     (if md_files (fst run) p = None then run
      else (case read_text (fst run) p of
              Inl m \<Rightarrow> (fst run, note_error p m (snd run))
            | Inr s \<Rightarrow>
                (if \<not> text_includes marker s then run
                 else (case md_unlink_fault (fst run) p of
                         Some m \<Rightarrow> (fst run, note_error p m (snd run))
                       | None \<Rightarrow>
                           ((fst run)\<lparr>md_files := (md_files (fst run))(p := None)\<rparr>, note_removed p (snd run))))))"

definition refreshMarkdownHint :: "string \<Rightarrow> string \<Rightarrow> scope_run \<Rightarrow> scope_run" where
  "refreshMarkdownHint p hint run =
     (if md_files (fst run) p = None then run
      else (case read_text (fst run) p of
              Inl m \<Rightarrow> (fst run, note_error p m (snd run))
            | Inr s \<Rightarrow>
                (let fresh = applyMarkerBlock s hint
                 in if fresh = s then run else safeWrite p p fresh run)))"

record scope_args =
  sg_current :: string
  sg_node :: "string option"
  sg_url :: string
  sg_others :: "string list"
  sg_root :: string
  sg_guard :: "string option"
  sg_sources :: "data_source list"
  sg_orientation :: "orientation option"

text \<open>What the process and the clock supply.\<close>

record scope_env =
  sn_host :: host
  sn_now :: string
  sn_workspace :: "string option"
  sn_personal :: bool

definition settings_path :: "string \<Rightarrow> string" where "settings_path cur = posix_join [cur, ''.claude'', ''settings.local.json'']"
definition codex_path :: "string \<Rightarrow> string" where "codex_path cur = posix_join [cur, ''.codex'', ''config.toml'']"
definition mcp_path :: "string \<Rightarrow> string" where "mcp_path cur = posix_join [cur, ''.mcp.json'']"
definition vibe_path :: "string \<Rightarrow> string" where "vibe_path cur = posix_join [cur, ''.vibe'', ''config.toml'']"
definition scope_md_path :: "string \<Rightarrow> string" where "scope_md_path cur = posix_join [cur, ''PORTUNI_SCOPE.md'']"
definition claude_md_path :: "string \<Rightarrow> string" where "claude_md_path cur = posix_join [cur, ''CLAUDE.md'']"
definition agents_md_path :: "string \<Rightarrow> string" where "agents_md_path cur = posix_join [cur, ''AGENTS.md'']"

definition settings_text :: "scope_env \<Rightarrow> scope_args \<Rightarrow> string" where
  "settings_text en g =
     json_pretty 0 (buildClaudeSettings (sn_host en) (sn_now en) (sn_workspace en)
       (normalize_path (sn_host en) (sg_current g)) (sg_others g) (sg_root g) (sg_guard g) (Some (sg_url g))) @ newline"

definition codex_text :: "scope_env \<Rightarrow> scope_args \<Rightarrow> string" where
  "codex_text en g =
     renderCodexToml (buildCodexSandboxConfig (sn_host en) (normalize_path (sn_host en) (sg_current g)))"

definition mcp_text :: "scope_env \<Rightarrow> scope_args \<Rightarrow> string" where
  "mcp_text en g = json_pretty 0 (buildClaudeMcpJson (sn_now en) (sn_workspace en) (sg_url g) (sg_node g)) @ newline"

definition hint_of :: "scope_env \<Rightarrow> scope_args \<Rightarrow> string" where
  "hint_of en g =
     buildSoftHint (sn_host en) (normalize_path (sn_host en) (sg_current g)) (sg_root g) (sg_sources g) (sn_personal en)"

definition scope_md_text :: "scope_env \<Rightarrow> scope_args \<Rightarrow> string" where
  "scope_md_text en g =
     hint_of en g @ (case sg_orientation g of None \<Rightarrow> [] | Some o1 \<Rightarrow> newline @ newline @ buildOrientationHint o1)"

definition materializeScopeConfig :: "scope_env \<Rightarrow> scope_args \<Rightarrow> mirror_disk \<Rightarrow> scope_run" where
  "materializeScopeConfig en g d =
     (let cur = normalize_path (sn_host en) (sg_current g);
          run0 = (d, nothing_yet);
          run1 = safeWrite ''.claude/settings.local.json'' (settings_path cur) (settings_text en g) run0;
          run2 = write_if_ours ''.codex/config.toml'' (codex_path cur) CODEX_MARKER
                   ''existing .codex/config.toml is user-owned (no portuni marker); skipped'' (codex_text en g) run1;
          run3 = (case truthy_opt (sg_node g) of
                    None \<Rightarrow> run2
                  | Some _ \<Rightarrow> write_if_ours (mcp_path cur) (mcp_path cur) ''portuni_managed''
                      ''existing .mcp.json is user-owned (no portuni marker); skipped'' (mcp_text en g) run2);
          run4 = remove_if_ours (vibe_path cur) LEGACY_VIBE_MARKER run3;
          run5 = safeWrite ''PORTUNI_SCOPE.md'' (scope_md_path cur) (scope_md_text en g) run4;
          run6 = refreshMarkdownHint (claude_md_path cur) (hint_of en g) run5
      in refreshMarkdownHint (agents_md_path cur) (hint_of en g) run6)"

section \<open>Every mirror of the device\<close>

text \<open>The two lookups of a node may fail with a message, which skips its mirror.\<close>

record node_hints =
  nh_sources :: "string \<Rightarrow> string + data_source list"
  nh_orientation :: "string \<Rightarrow> string + orientation option"

definition joined :: "materialized \<Rightarrow> materialized \<Rightarrow> materialized" where
  "joined a r =
     \<lparr>mt_written = mt_written a @ mt_written r, mt_removed = mt_removed a @ mt_removed r,
      mt_errors = mt_errors a @ mt_errors r\<rparr>"

definition materialize_one ::
    "scope_env \<Rightarrow> node_hints \<Rightarrow> string \<Rightarrow> string option \<Rightarrow> string \<Rightarrow> string list \<Rightarrow> string \<times> string \<Rightarrow> scope_run \<Rightarrow> scope_run" where
  "materialize_one en hints url guard root paths m run =
     (case nh_sources hints (fst m) of
        Inl e \<Rightarrow> (fst run, note_error (snd m) e (snd run))
      | Inr sources \<Rightarrow>
          (case nh_orientation hints (fst m) of
             Inl e \<Rightarrow> (fst run, note_error (snd m) e (snd run))
           | Inr orient \<Rightarrow>
               (let (d, r) = materializeScopeConfig en
                      \<lparr>sg_current = snd m, sg_node = Some (fst m), sg_url = url,
                       sg_others = filter (\<lambda>p. p \<noteq> snd m) paths, sg_root = root, sg_guard = guard,
                       sg_sources = sources, sg_orientation = orient\<rparr> (fst run)
                in (d, joined (snd run) r))))"

text \<open>The mirrors are pairs of a node and its local path.\<close>

definition materializeAllRegisteredMirrors ::
    "scope_env \<Rightarrow> node_hints \<Rightarrow> string \<Rightarrow> string option \<Rightarrow> string option \<Rightarrow> (string \<times> string) list \<Rightarrow> mirror_disk \<Rightarrow> scope_run" where
  "materializeAllRegisteredMirrors en hints url guard env_root mirrors d =
     (let paths = map snd mirrors
      in if mirrors = [] then (d, nothing_yet)
         else (case truthy_opt (resolvePortuniRoot (sn_host en) env_root paths) of
                 None \<Rightarrow> (d, nothing_yet)
               | Some root \<Rightarrow> fold (materialize_one en hints url guard root paths) mirrors (d, nothing_yet)))"

end
