(* ===== verification/ScopeFileLaws.thy ===== *)
theory ScopeFileLaws
  imports ScopeFiles WriteScopeLaws
begin

text \<open>
  The block between the markers and the files of a mirror: what a refresh leaves of a user's own file, and
  what a materialisation may make of each path.
\<close>

section \<open>The first place of a text in a text\<close>

text \<open>A text that begins across the end of \<open>a\<close> has a tail that begins what follows.\<close>

lemma straddle:
  assumes "prefix p (a @ c # ys)" and "\<not> prefix p a" and "a \<noteq> []"
  shows "c \<in> set (tl p)"
proof -
  obtain us where p: "p = a @ us" and us: "prefix us (c # ys)"
    using assms(1,2) unfolding prefix_append by blast
  have "us \<noteq> []"
    using p assms(2) by (metis append_Nil2 prefix_order.refl)
  with us obtain vs where "us = c # vs"
    by (cases us) auto
  with p assms(3) show ?thesis
    by (cases a) auto
qed

lemma index_of_None_append:
  assumes "index_of p xs = None" and "index_of p (c # ys) = None" and "c \<notin> set (tl p)"
  shows "index_of p (xs @ c # ys) = None"
  using assms(1)
proof (induction xs)
  case (Cons x xs)
  then have "\<not> prefix p (x # xs)" and "index_of p (xs @ c # ys) = None"
    by (auto split: if_split_asm)
  then show ?case
    using straddle [of p "x # xs" c ys] assms(3) by auto
qed (use assms in simp)

lemma index_of_here:
  assumes "index_of (c # q) xs = None" and "c \<notin> set q"
  shows "index_of (c # q) (xs @ c # q @ ys) = Some (length xs)"
  using assms(1)
proof (induction xs)
  case (Cons x xs)
  then have "\<not> prefix (c # q) (x # xs)" and "index_of (c # q) (xs @ c # q @ ys) = Some (length xs)"
    by (auto split: if_split_asm)
  then show ?case
    using straddle [of "c # q" "x # xs" c "q @ ys"] assms(2) by auto
qed simp

lemma index_of_None_parts:
  assumes "index_of p (xs @ ys) = None"
  shows "index_of p xs = None" and "index_of p ys = None"
proof -
  show "index_of p ys = None"
    using assms by (induction xs) (auto split: if_split_asm)
  show "index_of p xs = None"
    using assms
  proof (induction xs)
    case Nil
    then show ?case by (cases ys) (auto split: if_split_asm)
  next
    case (Cons x xs)
    then have "\<not> prefix p ((x # xs) @ ys)" and "index_of p (xs @ ys) = None"
      by (auto split: if_split_asm)
    then have "\<not> prefix p (x # xs)"
      by (metis prefix_prefix)
    then show ?case
      using Cons.IH \<open>index_of p (xs @ ys) = None\<close> by simp
  qed
qed

section \<open>White space\<close>

lemma js_trim_parts: "\<exists>a b. xs = a @ js_trim xs @ b"
proof -
  let ?t = "dropWhile js_space xs"
  have "xs = takeWhile js_space xs @ ?t" by simp
  moreover have "?t = rev (dropWhile js_space (rev ?t)) @ rev (takeWhile js_space (rev ?t))"
    by (metis rev_append rev_rev_ident takeWhile_dropWhile_id)
  ultimately show ?thesis
    unfolding js_trim_def by metis
qed

lemma js_trim_clear: "index_of p xs = None \<Longrightarrow> index_of p (js_trim xs) = None"
  using js_trim_parts [of xs] by (metis index_of_None_parts)

lemma trim_end_append: "trim_end (xs @ ys) = (if trim_end ys = [] then trim_end xs else xs @ trim_end ys)"
  by (auto simp: trim_end_def dropWhile_append)

lemma trim_start_append: "trim_start (xs @ ys) = (if trim_start xs = [] then trim_start ys else trim_start xs @ ys)"
  by (auto simp: trim_start_def dropWhile_append)

lemma js_trim_end_start: "js_trim xs = trim_end (trim_start xs)"
  by (simp add: js_trim_def trim_end_def trim_start_def)

lemma js_trim_start_end: "js_trim xs = trim_start (trim_end xs)"
proof (induction xs)
  case Nil
  then show ?case by (simp add: js_trim_def trim_start_def trim_end_def)
next
  case (Cons x xs)
  have end1: "trim_end (x # xs) = (if trim_end xs = [] then trim_end [x] else x # trim_end xs)"
    using trim_end_append [of "[x]" xs] by simp
  show ?case
  proof (cases "js_space x")
    case True
    then have "trim_start (x # xs) = trim_start xs" and "trim_start (x # trim_end xs) = trim_start (trim_end xs)"
      and "trim_end [x] = []"
      by (simp_all add: trim_start_def trim_end_def)
    then show ?thesis
      using Cons end1 unfolding js_trim_end_start by (cases "trim_end xs = []") simp_all
  next
    case False
    then have "trim_start (x # ys) = x # ys" and "trim_end [x] = [x]" for ys
      by (simp_all add: trim_start_def trim_end_def)
    then show ?thesis
      using end1 by (simp add: js_trim_end_start)
  qed
qed

lemma trims_idem [simp]:
  "trim_end (trim_end xs) = trim_end xs" "trim_start (trim_start xs) = trim_start xs" "trim_end [] = []" "trim_start [] = []"
  by (simp_all add: trim_end_def trim_start_def)

lemma trim_of_trimmed [simp]:
  "trim_end (js_trim xs) = js_trim xs" "trim_start (js_trim xs) = js_trim xs" "js_trim (js_trim xs) = js_trim xs"
proof -
  show "trim_end (js_trim xs) = js_trim xs"
    unfolding js_trim_end_start by simp
  show "trim_start (js_trim xs) = js_trim xs"
    unfolding js_trim_start_end by simp
  then show "js_trim (js_trim xs) = js_trim xs"
    using \<open>trim_end (js_trim xs) = js_trim xs\<close> js_trim_start_end by metis
qed

section \<open>A refreshed file\<close>

text \<open>The text of a file after a refresh: the user's text before and behind the block, trimmed.\<close>

definition refreshed :: "string \<Rightarrow> string \<Rightarrow> string \<Rightarrow> string" where
  "refreshed before after body =
     (if before = [] then [] else before @ newline @ newline)
     @ BEGIN_MARKER @ newline @ js_trim body @ newline @ END_MARKER
     @ (if after = [] then [] else newline @ after) @ newline"

definition unmarked :: "string \<Rightarrow> bool" where
  "unmarked s \<longleftrightarrow> \<not> text_includes BEGIN_MARKER s \<and> \<not> text_includes END_MARKER s"

lemma unmarked_index: "unmarked s \<longleftrightarrow> index_of BEGIN_MARKER s = None \<and> index_of END_MARKER s = None"
  by (simp add: unmarked_def text_includes_def)

lemma trims_of_markers:
  "trim_start (BEGIN_MARKER @ xs) = BEGIN_MARKER @ xs"
  "trim_end (xs @ END_MARKER) = xs @ END_MARKER"
  "trim_end (xs @ END_MARKER @ ys) = xs @ END_MARKER @ trim_end ys"
proof -
  show "trim_start (BEGIN_MARKER @ xs) = BEGIN_MARKER @ xs"
    by (simp add: trim_start_def BEGIN_MARKER_def js_space_def)
  show e: "trim_end (xs @ END_MARKER) = xs @ END_MARKER" for xs
    by (simp add: trim_end_append) (simp add: trim_end_def END_MARKER_def js_space_def)
  show "trim_end (xs @ END_MARKER @ ys) = xs @ END_MARKER @ trim_end ys"
    using e [of xs] trim_end_append [of "xs @ END_MARKER" ys] by simp
qed

lemma trims_of_newline: "trim_start newline = []" "trim_end newline = []"
  by (simp_all add: trim_start_def trim_end_def newline_def js_space_def)

lemma settles:
  "js_trim (trim_end pre @ newline @ newline @ marker_block body @ trim_start post) @ newline =
     refreshed (js_trim pre) (js_trim post) body"
proof -
  define B where "B = BEGIN_MARKER @ newline @ js_trim body @ newline"
  have B: "trim_start (B @ xs) = B @ xs" for xs
    by (simp add: B_def trims_of_markers)
  have post: "trim_end (newline @ trim_start post) = (if js_trim post = [] then [] else newline @ js_trim post)"
    by (simp add: trim_end_append trims_of_newline js_trim_end_start [symmetric])
  have "trim_end (trim_end pre @ newline @ newline @ marker_block body @ trim_start post) =
      trim_end pre @ newline @ newline @ B @ END_MARKER @ trim_end (newline @ trim_start post)"
    using trims_of_markers(3) [of "trim_end pre @ newline @ newline @ B" "newline @ trim_start post"]
    by (simp add: marker_block_def B_def)
  moreover have "trim_start (trim_end pre @ newline @ newline @ B @ ys) =
      (if js_trim pre = [] then B @ ys else js_trim pre @ newline @ newline @ B @ ys)" for ys
    using B [of ys] trim_start_append [of "trim_end pre" "newline @ newline @ B @ ys"]
      trim_start_append [of newline] by (simp add: trims_of_newline js_trim_start_end [symmetric])
  ultimately show ?thesis
    using post by (simp add: js_trim_start_end [of "trim_end pre @ _"] refreshed_def B_def)
qed

lemma markers_nonempty [simp]: "BEGIN_MARKER \<noteq> []" "END_MARKER \<noteq> []"
  by (simp_all add: BEGIN_MARKER_def END_MARKER_def)

lemma marker_starts:
  "BEGIN_MARKER = CHR ''<'' # tl BEGIN_MARKER" "CHR ''<'' \<notin> set (tl BEGIN_MARKER)"
  "END_MARKER = CHR ''<'' # tl END_MARKER" "CHR ''<'' \<notin> set (tl END_MARKER)"
  "CHR 0x0A \<notin> set (tl BEGIN_MARKER)" "CHR 0x0A \<notin> set (tl END_MARKER)"
  by (simp_all add: BEGIN_MARKER_def END_MARKER_def)

lemma index_of_begin: "index_of BEGIN_MARKER xs = None \<Longrightarrow> index_of BEGIN_MARKER (xs @ BEGIN_MARKER @ ys) = Some (length xs)"
  using index_of_here [of "CHR ''<''" "tl BEGIN_MARKER" xs ys] marker_starts by (metis append_Cons)

lemma index_of_end: "index_of END_MARKER xs = None \<Longrightarrow> index_of END_MARKER (xs @ END_MARKER @ ys) = Some (length xs)"
  using index_of_here [of "CHR ''<''" "tl END_MARKER" xs ys] marker_starts by (metis append_Cons)

lemma index_of_newline: "index_of END_MARKER ys = None \<Longrightarrow> index_of END_MARKER (newline @ ys) = None"
  by (simp add: newline_def END_MARKER_def)

lemma end_free_newline:
  "index_of END_MARKER xs = None \<Longrightarrow> index_of END_MARKER ys = None \<Longrightarrow> index_of END_MARKER (xs @ newline @ ys) = None"
  using index_of_None_append [of END_MARKER xs "CHR 0x0A" ys] index_of_newline [of ys] marker_starts(6)
  by (simp add: newline_def)

lemma begin_free_newline:
  "index_of BEGIN_MARKER xs = None \<Longrightarrow> index_of BEGIN_MARKER (xs @ newline) = None"
  using index_of_None_append [of BEGIN_MARKER xs "CHR 0x0A" "[]"] marker_starts(5)
  by (simp add: newline_def BEGIN_MARKER_def)

lemma end_free_block:
  assumes "index_of END_MARKER pre = None" and "index_of END_MARKER body = None"
  shows "index_of END_MARKER (pre @ BEGIN_MARKER @ newline @ js_trim body @ newline) = None"
proof -
  have "index_of END_MARKER BEGIN_MARKER = None" and "index_of END_MARKER [] = None"
    by (simp_all add: BEGIN_MARKER_def END_MARKER_def)
  then have "index_of END_MARKER (BEGIN_MARKER @ newline @ js_trim body @ newline @ []) = None"
    using assms(2) by (intro end_free_newline js_trim_clear)
  then show ?thesis
    using index_of_None_append [of END_MARKER pre "CHR ''<''" "tl BEGIN_MARKER @ newline @ js_trim body @ newline"]
      assms(1) marker_starts(1,4) by (metis append_Cons append_Nil2)
qed

lemma apply_to_marked:
  assumes "index_of BEGIN_MARKER pre = None" and "index_of END_MARKER (pre @ BEGIN_MARKER @ mid) = None"
  shows "applyMarkerBlock (pre @ BEGIN_MARKER @ mid @ END_MARKER @ post) body = refreshed (js_trim pre) (js_trim post) body"
proof -
  define x where "x = pre @ BEGIN_MARKER @ mid @ END_MARKER @ post"
  have b: "index_of BEGIN_MARKER x = Some (length pre)"
    unfolding x_def by (rule index_of_begin [OF assms(1)])
  have e: "index_of END_MARKER x = Some (length (pre @ BEGIN_MARKER @ mid))"
    using index_of_end [OF assms(2), of post] by (simp add: x_def)
  have "length pre < length (pre @ BEGIN_MARKER @ mid)"
    by (simp add: BEGIN_MARKER_def)
  moreover have "take (length pre) x = pre" and "drop (length (pre @ BEGIN_MARKER @ mid) + length END_MARKER) x = post"
    by (simp_all add: x_def)
  ultimately show ?thesis
    unfolding x_def [symmetric] applyMarkerBlock_def b e by (simp add: settles [symmetric])
qed

lemma apply_to_settled:
  assumes "unmarked before" and "js_trim before = before" and "js_trim after = after"
    and "index_of END_MARKER body = None"
  shows "applyMarkerBlock (refreshed before after body) fresh = refreshed before after fresh"
proof -
  define pre where "pre = (if before = [] then [] else before @ newline @ newline)"
  define post where "post = (if after = [] then [] else newline @ after) @ newline"
  have "index_of BEGIN_MARKER pre = None" and "index_of END_MARKER pre = None"
    using assms(1) begin_free_newline [of "before @ newline"] begin_free_newline [of before]
      end_free_newline [of before newline] index_of_newline [of "[]"]
    by (simp_all add: pre_def unmarked_index)
  moreover have "trim_start before = before" and "trim_start after = after" and "trim_end before = before" and "trim_end after = after"
    using trim_of_trimmed [of before] trim_of_trimmed [of after] unfolding assms(2,3) by blast+
  then have "js_trim pre = before" and "js_trim post = after"
    by (simp_all add: pre_def post_def js_trim_end_start trim_end_append trim_start_append trims_of_newline)
  ultimately show ?thesis
    using apply_to_marked [of pre "newline @ js_trim body @ newline" post fresh] end_free_block [of pre body] assms(4)
    by (simp add: refreshed_def pre_def post_def)
qed

lemma apply_to_unmarked:
  "unmarked x \<Longrightarrow>
     applyMarkerBlock x body = (if x = [] then [] else x @ (if suffix newline x then newline else newline @ newline)) @ marker_block body"
  by (simp add: applyMarkerBlock_def unmarked_index)

text \<open>The second refresh of a file without markers: the user's text ends up trimmed in front of the block.\<close>

lemma apply_twice_to_unmarked:
  assumes "unmarked x" and "index_of END_MARKER body = None"
  shows "applyMarkerBlock (applyMarkerBlock x body) fresh = refreshed (js_trim x) [] fresh"
proof -
  define pre where "pre = (if x = [] then [] else x @ (if suffix newline x then newline else newline @ newline))"
  have free: "index_of BEGIN_MARKER pre = None" "index_of END_MARKER pre = None"
    using assms(1) begin_free_newline [of "x @ newline"] begin_free_newline [of x]
      end_free_newline [of x newline] end_free_newline [of x "[]"] index_of_newline [of "[]"]
    by (simp_all add: pre_def unmarked_index)
  have "js_trim pre = js_trim x"
    by (simp add: pre_def js_trim_start_end trim_end_append trims_of_newline)
  moreover have "js_trim newline = []"
    by (simp add: js_trim_start_end trims_of_newline)
  moreover have "applyMarkerBlock x body = pre @ BEGIN_MARKER @ (newline @ js_trim body @ newline) @ END_MARKER @ newline"
    using apply_to_unmarked [OF assms(1)] by (simp add: pre_def marker_block_def)
  ultimately show ?thesis
    using apply_to_marked [OF free(1), of "newline @ js_trim body @ newline" newline fresh]
      end_free_block [OF free(2) assms(2)] by simp
qed

section \<open>The managed paths\<close>

lemma normal_absolute:
  assumes "plain ss" and "plain rs" and "rs \<noteq> []"
  shows "posix_normalize (path_of ss @ CHR ''/'' # join_with ''/'' rs) = path_of (ss @ rs)"
proof -
  have plain: "\<forall>s \<in> set ss. plain_segment s" "\<forall>s \<in> set rs. plain_segment s"
    using assms(1,2) by (auto simp: plain_def)
  have "normal_segments False (path_of ss @ CHR ''/'' # join_with ''/'' rs) = ss @ rs"
    using plain split_path_of [OF assms(1)] split_join_plain [OF assms(3) plain(2)]
    by (simp add: normal_segments_def split_on_append fold_push_plain push_segment_def)
  moreover have "join_with ''/'' (ss @ rs) \<noteq> []"
    using plain assms(3) by (intro join_with_nonempty) auto
  moreover have "last (join_with ''/'' rs) \<noteq> CHR ''/''" and "join_with ''/'' rs \<noteq> []"
    using plain_join_ends(2) [OF assms(3) plain(2)] join_with_nonempty [OF assms(3) plain(2)] by simp_all
  moreover have "isAbsolute (path_of ss @ ys)" for ys
    by (simp add: isAbsolute_def path_of_def)
  ultimately show ?thesis
    by (simp add: posix_normalize_def normalize_string_def Let_def) (simp add: path_of_def)
qed

lemma join_below:
  assumes "plain ss" and "plain rs" and "rs \<noteq> []"
  shows "posix_join (path_of ss # rs) = path_of (ss @ rs)"
proof -
  have "filter (\<lambda>p. p \<noteq> []) (path_of ss # rs) = path_of ss # rs"
    using assms(2) by (auto simp: plain_def plain_segment_def intro!: filter_True)
  then show ?thesis
    using normal_absolute [OF assms] assms(3) by (simp add: posix_join_def Let_def join_with_Cons)
qed

lemma managed_paths:
  assumes "plain ss"
  shows "settings_path (path_of ss) = path_of (ss @ [''.claude'', ''settings.local.json''])"
    and "codex_path (path_of ss) = path_of (ss @ [''.codex'', ''config.toml''])"
    and "mcp_path (path_of ss) = path_of (ss @ [''.mcp.json''])"
    and "vibe_path (path_of ss) = path_of (ss @ [''.vibe'', ''config.toml''])"
    and "scope_md_path (path_of ss) = path_of (ss @ [''PORTUNI_SCOPE.md''])"
    and "claude_md_path (path_of ss) = path_of (ss @ [''CLAUDE.md''])"
    and "agents_md_path (path_of ss) = path_of (ss @ [''AGENTS.md''])"
  unfolding settings_path_def codex_path_def mcp_path_def vibe_path_def scope_md_path_def claude_md_path_def agents_md_path_def
  by (rule join_below [OF assms]; simp add: plain_def plain_segment_def)+

section \<open>One file\<close>

named_theorems file_steps \<open>what a step does to a file\<close>

lemma other_files [file_steps]:
  "p \<noteq> q \<Longrightarrow> md_files (fst (safeWrite l q c run)) p = md_files (fst run) p"
  "p \<noteq> q \<Longrightarrow> md_files (fst (write_if_ours l q m k c run)) p = md_files (fst run) p"
  "p \<noteq> q \<Longrightarrow> md_files (fst (remove_if_ours q m run)) p = md_files (fst run) p"
  "p \<noteq> q \<Longrightarrow> md_files (fst (refreshMarkdownHint q h run)) p = md_files (fst run) p"
  by (simp_all add: safeWrite_def write_if_ours_def remove_if_ours_def refreshMarkdownHint_def Let_def
      split: option.splits sum.splits)

lemma read_text_Inr: "read_text d q = Inr s \<Longrightarrow> md_files d q = Some s"
  by (auto simp: read_text_def split: option.splits)

definition carries :: "string \<Rightarrow> string option \<Rightarrow> bool" where
  "carries m f = (case f of None \<Rightarrow> False | Some s \<Rightarrow> text_includes m s)"

text \<open>What each step makes of the file \<open>p\<close>.\<close>

lemma safeWrite_at:
  "md_files (fst (safeWrite l q c run)) p = md_files (fst run) p \<or>
   p = q \<and> md_files (fst (safeWrite l q c run)) p = Some c"
  by (simp add: safeWrite_def split: option.splits)

lemma write_if_ours_at:
  "md_files (fst (write_if_ours l q m k c run)) p = md_files (fst run) p \<or>
   p = q \<and> (md_files (fst run) p = None \<or> carries m (md_files (fst run) p))
     \<and> md_files (fst (write_if_ours l q m k c run)) p = Some c"
  using safeWrite_at [of l q c run p]
  by (auto simp: write_if_ours_def carries_def dest: read_text_Inr split: option.splits sum.splits)

lemma remove_if_ours_at:
  "md_files (fst (remove_if_ours q m run)) p = md_files (fst run) p \<or>
   p = q \<and> carries m (md_files (fst run) p) \<and> md_files (fst (remove_if_ours q m run)) p = None"
  by (auto simp: remove_if_ours_def carries_def dest: read_text_Inr split: option.splits sum.splits)

lemma refreshMarkdownHint_at:
  "md_files (fst (refreshMarkdownHint q h run)) p = md_files (fst run) p \<or>
   p = q \<and> md_files (fst run) p \<noteq> None \<and>
     md_files (fst (refreshMarkdownHint q h run)) p = Some (applyMarkerBlock (the (md_files (fst run) p)) h)"
  using safeWrite_at [of q q "applyMarkerBlock (the (md_files (fst run) q)) h" run p]
  by (auto simp: refreshMarkdownHint_def Let_def dest: read_text_Inr split: option.splits sum.splits)

text \<open>The text in front of the block of a file and behind it.\<close>

definition outside_block :: "string \<Rightarrow> (string \<times> string) option" where
  "outside_block x =
     (case (index_of BEGIN_MARKER x, index_of END_MARKER x) of
        (Some b, Some e) \<Rightarrow> if b < e then Some (take b x, drop (e + length END_MARKER) x) else None
      | _ \<Rightarrow> None)"

text \<open>What a refresh may make of a file: the text outside its block stays, trimmed at its ends, around the new block; a
  file without a block gets one behind its text.\<close>

definition hint_refreshed :: "string \<Rightarrow> string \<Rightarrow> string \<Rightarrow> bool" where
  "hint_refreshed hint x y \<longleftrightarrow>
     (case outside_block x of
        Some (pre, post) \<Rightarrow> y = refreshed (js_trim pre) (js_trim post) hint
      | None \<Rightarrow> (\<exists>gap \<in> {[], newline, newline @ newline}. y = x @ gap @ marker_block hint))"

lemma apply_refreshes: "hint_refreshed hint x (applyMarkerBlock x hint)"
proof (cases "outside_block x")
  case None
  then show ?thesis
    by (auto simp: hint_refreshed_def outside_block_def applyMarkerBlock_def Let_def split: option.splits if_splits)
next
  case (Some pq)
  obtain pre post where pq: "pq = (pre, post)" by fastforce
  then obtain b e where be: "index_of BEGIN_MARKER x = Some b" "index_of END_MARKER x = Some e" "b < e"
    and parts: "pre = take b x" "post = drop (e + length END_MARKER) x"
    using Some by (auto simp: outside_block_def split: option.splits if_splits)
  have "applyMarkerBlock x hint = js_trim (trim_end pre @ newline @ newline @ marker_block hint @ trim_start post) @ newline"
    using be by (simp add: applyMarkerBlock_def parts)
  then show ?thesis unfolding settles by (simp add: hint_refreshed_def Some pq)
qed

lemma refreshMarkdownHint_keeps:
  "md_files (fst (refreshMarkdownHint q h run)) p = md_files (fst run) p \<or>
   p = q \<and> (\<exists>x y. md_files (fst run) p = Some x \<and> md_files (fst (refreshMarkdownHint q h run)) p = Some y \<and> hint_refreshed h x y)"
  using refreshMarkdownHint_at [of q h run p] apply_refreshes [of h "the (md_files (fst run) p)"] by (metis option.collapse)

text \<open>What a materialisation may make of the file \<open>p\<close>.\<close>

definition outcome_ok :: "scope_env \<Rightarrow> scope_args \<Rightarrow> string \<Rightarrow> string option \<Rightarrow> string option \<Rightarrow> bool" where
  "outcome_ok en g p before after \<longleftrightarrow>
     (let cur = normalize_path (sn_host en) (sg_current g)
      in after = before
       \<or> p = settings_path cur \<and> after = Some (settings_text en g)
       \<or> p = codex_path cur \<and> (before = None \<or> carries CODEX_MARKER before) \<and> after = Some (codex_text en g)
       \<or> p = mcp_path cur \<and> truthy_opt (sg_node g) \<noteq> None \<and> (before = None \<or> carries ''portuni_managed'' before)
           \<and> after = Some (mcp_text en g)
       \<or> p = vibe_path cur \<and> carries LEGACY_VIBE_MARKER before \<and> after = None
       \<or> p = scope_md_path cur \<and> after = Some (scope_md_text en g)
       \<or> p \<in> {claude_md_path cur, agents_md_path cur} \<and>
           (\<exists>x y. before = Some x \<and> after = Some y \<and> hint_refreshed (hint_of en g) x y))"

lemma managed_paths_distinct:
  assumes "plain ss"
  shows "distinct (map (\<lambda>f. f (path_of ss))
    [settings_path, codex_path, mcp_path, vibe_path, scope_md_path, claude_md_path, agents_md_path])"
proof -
  have "plain (ss @ ts)" if "\<forall>t \<in> set ts. plain_segment t" for ts
    using assms that by (auto simp: plain_def)
  then show ?thesis
    by (simp add: managed_paths [OF assms] plain_segment_def)
qed

end
