(* ===== verification/ScopeGuarantees.thy ===== *)
theory ScopeGuarantees
  imports WriteScopeLaws Permissions ScopeFileLaws
begin

text \<open>
  The properties of the write scope on disk, with their witnesses, and what two of its functions do at the
  edges of their contracts.
\<close>

definition sample_host :: host where "sample_host = \<lparr>ho_home = ''/home/u'', ho_cwd = ''/w''\<rparr>"

definition sample_call :: "string \<Rightarrow> permission_input" where
  "sample_call target =
     \<lparr>pi_tool = ''Edit'', pi_input = JObj [(''file_path'', JStr target)], pi_cwd = ''/w/org'', pi_root = ''/w'',
      pi_mirrors = [''/w/org'', ''/w/org/project''], pi_policy = PolicyAuto\<rparr>"

section \<open>Properties\<close>

text \<open>
  C34: The two guards of a session agree.  For a session whose working directory belongs to the mirror
  \<open>current\<close>, the guard of \<^verbatim>\<open>GET /scope\<close> puts a target in the first tier exactly when the settings of that mirror
  let the agent edit it: the allow rule of the mirror covers it and no deny rule of another mirror does,
  whichever way the registered mirrors are nested.
\<close>

theorem guard_agrees_with_settings:
  assumes "findContainingMirror h (current # others) cwd = Some (normalize_path h current)"
  shows "cl_tier (classifyWrite h cwd target root (current # others)) = Tier1Current \<longleftrightarrow>
    isWithin h current target \<and> \<not> list_ex (\<lambda>m. isWithin h m target) (denied_mirrors h current others)"
proof -
  define c t ms where "c = segs h current" and "t = segs h target" and "ms = map (segs h) others"
  have in_cwd: "innermost (c # ms) (segs h cwd) = Some c"
    using assms by (auto simp: findContainingMirror_innermost c_def ms_def innermost_Some_iff)
  have "cl_tier (classifyWrite h cwd target root (current # others)) = Tier1Current \<longleftrightarrow> innermost (c # ms) t = Some c"
    using in_cwd by (auto simp: tier_current_iff c_def t_def ms_def)
  also have "\<dots> \<longleftrightarrow> prefix c t \<and> (\<forall>m \<in> set ms. prefix m t \<longrightarrow> prefix m c)"
    unfolding innermost_Some_iff by (auto dest: prefix_length_le prefix_length_prefix)
  also have "\<dots> \<longleftrightarrow> prefix c t \<and> \<not> (\<exists>m \<in> set others. \<not> prefix (segs h m) c \<and> prefix (segs h m) t)"
    by (auto simp: ms_def)
  finally show ?thesis
    unfolding denied_mirror_iff by (simp add: isWithin_prefix c_def t_def)
qed

lemma guard_agrees_with_settings_witness:
  "findContainingMirror sample_host [''/w/org/project'', ''/w/org'', ''/w/org/project/task''] ''/w/org/project/wip'' = Some ''/w/org/project'' \<and>
   denied_mirrors sample_host ''/w/org/project'' [''/w/org'', ''/w/org/project/task''] = [''/w/org/project/task''] \<and>
   cl_tier (classifyWrite sample_host ''/w/org/project/wip'' ''/w/org/project/a.md'' ''/w'' [''/w/org/project'', ''/w/org'', ''/w/org/project/task'']) = Tier1Current \<and>
   cl_tier (classifyWrite sample_host ''/w/org/project/wip'' ''/w/org/project/task/a.md'' ''/w'' [''/w/org/project'', ''/w/org'', ''/w/org/project/task'']) \<noteq> Tier1Current"
proof -
  have in_mirror: "findContainingMirror sample_host [''/w/org/project'', ''/w/org'', ''/w/org/project/task''] ''/w/org/project/wip'' = Some (normalize_path sample_host ''/w/org/project'')"
    by code_simp
  note rule = guard_agrees_with_settings [OF in_mirror]
  have "isWithin sample_host ''/w/org/project'' ''/w/org/project/a.md''" and "isWithin sample_host ''/w/org/project'' ''/w/org/project/task/a.md''"
    and "\<not> list_ex (\<lambda>m. isWithin sample_host m ''/w/org/project/a.md'') (denied_mirrors sample_host ''/w/org/project'' [''/w/org'', ''/w/org/project/task''])"
    and "list_ex (\<lambda>m. isWithin sample_host m ''/w/org/project/task/a.md'') (denied_mirrors sample_host ''/w/org/project'' [''/w/org'', ''/w/org/project/task''])"
    by code_simp+
  then have "cl_tier (classifyWrite sample_host ''/w/org/project/wip'' ''/w/org/project/a.md'' ''/w'' [''/w/org/project'', ''/w/org'', ''/w/org/project/task'']) = Tier1Current"
    and "cl_tier (classifyWrite sample_host ''/w/org/project/wip'' ''/w/org/project/task/a.md'' ''/w'' [''/w/org/project'', ''/w/org'', ''/w/org/project/task'']) \<noteq> Tier1Current"
    using rule [of "''/w/org/project/a.md''"] rule [of "''/w/org/project/task/a.md''"] by blast+
  moreover have "normalize_path sample_host ''/w/org/project'' = ''/w/org/project''"
    and "denied_mirrors sample_host ''/w/org/project'' [''/w/org'', ''/w/org/project/task''] = [''/w/org/project/task'']"
    by code_simp+
  ultimately show ?thesis
    using in_mirror by simp
qed

text \<open>
  C36: What a runner lets the agent's write tools change.  A call of \<open>Edit\<close>, \<open>Write\<close>, \<open>MultiEdit\<close> or \<open>NotebookEdit\<close>
  is allowed, whatever the policy, exactly when it names a target and the longest registered mirror around
  that target is the longest one around the working directory of the run.
\<close>

theorem runner_writes_stay_in_mirror:
  assumes "map_of WRITE_TOOL_PATH_KEY (pi_tool p) = Some key"
  shows "decidePermission h p = PermAllow \<longleftrightarrow>
    (\<exists>target m. stringField (pi_input p) key = Some target \<and>
       innermost (map (segs h) (pi_mirrors p)) (segs h target) = Some m \<and>
       innermost (map (segs h) (pi_mirrors p)) (segs h (pi_cwd p)) = Some m)"
proof (cases "stringField (pi_input p) key")
  case (Some target)
  define cls where "cls = classifyWrite h (pi_cwd p) target (pi_root p) (pi_mirrors p)"
  have "decidePermission h p = PermAllow \<longleftrightarrow> cl_tier cls = Tier1Current"
    using assms Some by (simp add: decidePermission_def Let_def cls_def)
  also have "\<dots> \<longleftrightarrow> (\<exists>m. innermost (map (segs h) (pi_mirrors p)) (segs h target) = Some m \<and>
       innermost (map (segs h) (pi_mirrors p)) (segs h (pi_cwd p)) = Some m)"
    unfolding cls_def tier_current_iff by (cases "innermost (map (segs h) (pi_mirrors p)) (segs h target)") auto
  finally show ?thesis
    using Some by simp
qed (use assms in \<open>simp add: decidePermission_def\<close>)

lemma runner_writes_stay_in_mirror_witness:
  "decidePermission sample_host (sample_call ''/w/org/a.md'') = PermAllow \<and>
   decidePermission sample_host (sample_call ''/w/org/project/a.md'') \<noteq> PermAllow"
proof -
  have key: "map_of WRITE_TOOL_PATH_KEY (pi_tool (sample_call t)) = Some ''file_path''" for t
    by (simp add: sample_call_def WRITE_TOOL_PATH_KEY_def)
  have field: "stringField (pi_input (sample_call t)) ''file_path'' = Some t" for t
    by (simp add: sample_call_def stringField_def)
  have at: "innermost (map (segs sample_host) (pi_mirrors (sample_call t))) (segs sample_host ''/w/org/a.md'') = Some [''w'', ''org'']"
    "innermost (map (segs sample_host) (pi_mirrors (sample_call t))) (segs sample_host (pi_cwd (sample_call t))) = Some [''w'', ''org'']"
    "innermost (map (segs sample_host) (pi_mirrors (sample_call t))) (segs sample_host ''/w/org/project/a.md'') = Some [''w'', ''org'', ''project'']" for t
    unfolding sample_call_def permission_input.simps by code_simp+
  show ?thesis
    using runner_writes_stay_in_mirror [OF key, of sample_host "''/w/org/a.md''"]
      runner_writes_stay_in_mirror [OF key, of sample_host "''/w/org/project/a.md''"] field at
    by simp
qed

text \<open>
  A refresh of a user's \<^verbatim>\<open>CLAUDE.md\<close> replaces the block and nothing else.  In a file with one block the
  text in front of it and behind it comes out trimmed at its ends and otherwise as it was, the new block
  between them; a second refresh changes the block alone, so the newest hint is all the history the file has.
\<close>

theorem hint_refresh_settles:
  assumes "unmarked before" and "index_of END_MARKER (before @ BEGIN_MARKER @ old) = None" and "unmarked hint"
  shows "applyMarkerBlock (before @ BEGIN_MARKER @ old @ END_MARKER @ after) hint = refreshed (js_trim before) (js_trim after) hint \<and>
    applyMarkerBlock (applyMarkerBlock (before @ BEGIN_MARKER @ old @ END_MARKER @ after) hint) fresh =
      refreshed (js_trim before) (js_trim after) fresh"
proof -
  have "index_of BEGIN_MARKER before = None" and "index_of END_MARKER hint = None"
    using assms(1,3) by (simp_all add: unmarked_index)
  moreover have "unmarked (js_trim before)"
    using assms(1) js_trim_clear by (auto simp: unmarked_index)
  ultimately show ?thesis
    using apply_to_marked [OF _ assms(2)] apply_to_settled [of "js_trim before" "js_trim after" hint fresh] by simp
qed

definition sample_file :: string where
  "sample_file = ''# Notes'' @ newline @ newline @ newline @ BEGIN_MARKER @ newline @ ''old'' @ newline @ END_MARKER @ newline @ ''More'' @ newline"

lemma hint_refresh_settles_witness:
  "applyMarkerBlock sample_file ''new'' =
     ''# Notes'' @ newline @ newline @ BEGIN_MARKER @ newline @ ''new'' @ newline @ END_MARKER @ newline @ ''More'' @ newline \<and>
   applyMarkerBlock (applyMarkerBlock sample_file ''new'') ''newer'' =
     ''# Notes'' @ newline @ newline @ BEGIN_MARKER @ newline @ ''newer'' @ newline @ END_MARKER @ newline @ ''More'' @ newline"
proof -
  define b old after where "b = ''# Notes'' @ newline @ newline @ newline" and "old = newline @ ''old'' @ newline"
    and "after = newline @ ''More'' @ newline"
  have "unmarked b" and "index_of END_MARKER (b @ BEGIN_MARKER @ old) = None" and "unmarked ''new''"
    unfolding b_def old_def by code_simp+
  note rule = hint_refresh_settles [OF this, of after "''newer''"]
  have "js_trim b = ''# Notes''" and "js_trim after = ''More''" and "js_trim ''new'' = ''new''" and "js_trim ''newer'' = ''newer''"
    unfolding b_def after_def by code_simp+
  then have refreshed: "refreshed (js_trim b) (js_trim after) h =
      ''# Notes'' @ newline @ newline @ BEGIN_MARKER @ newline @ js_trim h @ newline @ END_MARKER @ newline @ ''More'' @ newline" for h
    by (simp add: refreshed_def)
  have whole: "sample_file = b @ BEGIN_MARKER @ old @ END_MARKER @ after"
    by (simp add: sample_file_def b_def old_def after_def)
  show ?thesis
    using rule unfolding refreshed \<open>js_trim ''new'' = ''new''\<close> \<open>js_trim ''newer'' = ''newer''\<close> whole .
qed


section \<open>At the edges\<close>

text \<open>
  Two mirrors without a common top-level directory leave no root, and the guard then allows every write,
  a write into a third place included, although mirrors are registered.
\<close>

lemma guard_open_without_common_root:
  "resolvePortuniRoot sample_host None [''/home/u/a'', ''/mnt/b''] = None \<and>
   guard_allows (handleWriteScope sample_host (Some ''/home/u/a'') (Some ''/mnt/b/x'') None [''/home/u/a'', ''/mnt/b'']) \<and>
   \<not> guard_allows (handleWriteScope sample_host (Some ''/home/u/a'') (Some ''/mnt/b/x'') (Some ''/'') [''/home/u/a'', ''/mnt/b''])"
  by code_simp

text \<open>A stray end marker in front of the block makes every refresh append a further block.\<close>

definition stray_file :: string where
  "stray_file = END_MARKER @ newline @ BEGIN_MARKER @ newline @ ''h'' @ newline @ END_MARKER @ newline"

lemma stray_end_marker_appends:
  "applyMarkerBlock stray_file ''h'' = stray_file @ newline @ marker_block ''h'' \<and>
   applyMarkerBlock (applyMarkerBlock stray_file ''h'') ''h'' = stray_file @ newline @ marker_block ''h'' @ newline @ marker_block ''h''"
  by code_simp

text \<open>The second refresh of a file trims the user's own text: leading blanks of the first line are lost.\<close>

lemma second_refresh_trims:
  "applyMarkerBlock ''    code'' ''h'' = ''    code'' @ newline @ newline @ marker_block ''h'' \<and>
   applyMarkerBlock (applyMarkerBlock ''    code'' ''h'') ''h'' = ''code'' @ newline @ newline @ marker_block ''h''"
  by code_simp

end
