(* ===== verification/SessionEvents.thy ===== *)
theory SessionEvents
  imports Permissions Sessions
begin

text \<open>
  The events of a thread, \<^verbatim>\<open>apps/server/shared/session-events.ts\<close>, the rows of its record and of its content
  (\<^verbatim>\<open>domain/runner/store.ts\<close>, \<^verbatim>\<open>store-content.ts\<close>) and what a run is started with (\<^verbatim>\<open>domain/runner/types.ts\<close>).
  Usage reports are JSON values the server does not read.
\<close>

section \<open>Events\<close>

datatype run_end_reason = EndCompleted | EndInterrupted | EndSuspended | EndError | EndLimit | EndHostLost

datatype tool_category = CatCommand | CatFileRead | CatFileChange | CatMcp | CatOther

datatype tool_status = ToolStarted | ToolCompleted | ToolFailed

datatype file_op = OpCreate | OpEdit | OpDelete | OpRename

datatype error_class = ErrProvider | ErrTransport | ErrPermission | ErrUnknown

datatype run_error_code = ProviderFailed | ProviderNotLoggedIn | BrowserSignInDeclined

datatype resume_mode = ResumeConversation | ResumeHandoff

datatype message_source = FromChat | FromSystem

datatype question_answer = AnswerText string | AnswerBool bool | AnswerMap "(string \<times> string) list"

record question_decision =
  qd_by :: string
  qd_value :: question_answer
  qd_at :: iso

record question_payload =
  qp_request :: string
  qp_kind :: ask_kind
  qp_tool :: string
  qp_title :: string
  qp_code :: "question_code option"
  qp_params :: "(string \<times> string) list"
  qp_detail :: string
  qp_options :: "string list option"
  qp_questions :: "ask_prompt list option"
  qp_decision :: "question_decision option"

record tool_call =
  tc_use :: string
  tc_tool :: string
  tc_category :: tool_category
  tc_title :: string
  tc_input :: string
  tc_status :: tool_status
  tc_output :: "string option"
  tc_truncated :: bool
  tc_deny :: "(deny_code \<times> (string \<times> string) list) option"
  tc_parent :: "string option"

record context_usage =
  cu_run :: string
  cu_model :: "string option"
  cu_used :: nat
  cu_max :: "nat option"
  cu_input :: nat
  cu_cached :: nat
  cu_output :: nat

type_synonym run_id = string

datatype canonical_event =
    RunStarted run_id string "string option" "resume_mode option" "nat option"
  | RunEndedEv run_id run_end_reason json
  | TurnEnded run_id "int option"
  | UserMessage string message_source
  | AssistantMessage string
  | Reasoning string "nat option"
  | ToolCall tool_call
  | FileChange string file_op
  | QuestionEv question_payload
  | Compaction bool
  | HandoffEv "string option" "string option"
  | StateChanged session_state session_state bool "string option"
  | ErrorEv error_class string "run_error_code option" "(string \<times> string) list"
  | ContextUsage context_usage

text \<open>A streamed text, which is published and never kept.\<close>

datatype delta_channel = DeltaText | DeltaReasoning

record delta_frame =
  df_run :: run_id
  df_channel :: delta_channel
  df_text :: string

datatype sink_item = Canonical canonical_event | Delta delta_frame

section \<open>Payload caps\<close>

definition MAX_ASSISTANT_TEXT_BYTES :: nat where "MAX_ASSISTANT_TEXT_BYTES = 64 * 1024"
definition MAX_OUTPUT_EXCERPT_BYTES :: nat where "MAX_OUTPUT_EXCERPT_BYTES = 8 * 1024"
definition MAX_INPUT_SUMMARY_BYTES :: nat where "MAX_INPUT_SUMMARY_BYTES = 1024"

text \<open>
  The bytes of a text up to a limit.  A character cut in two is decoded as the replacement character, three
  bytes; \<open>utf8_width\<close> is the length a lead byte announces, one for any other byte.
\<close>

definition utf8_width :: "char \<Rightarrow> nat" where
  "utf8_width c =
     (let b = (of_char c :: nat)
      in if 192 \<le> b \<and> b < 224 then 2 else if 224 \<le> b \<and> b < 240 then 3 else if 240 \<le> b then 4 else 1)"

fun whole_characters :: "nat \<Rightarrow> string \<Rightarrow> string" where
  "whole_characters n [] = []"
| "whole_characters n (c # cs) =
     (if n = 0 then []
      else if utf8_width c \<le> n
        then take (utf8_width c) (c # cs) @ whole_characters (n - utf8_width c) (drop (utf8_width c - 1) cs)
      else [CHR 0xEF, CHR 0xBF, CHR 0xBD])"

definition truncateUtf8 :: "string \<Rightarrow> nat \<Rightarrow> string \<times> bool" where
  "truncateUtf8 text n = (if length text \<le> n then (text, False) else (whole_characters n text, True))"

definition capEventPayload :: "canonical_event \<Rightarrow> canonical_event" where
  "capEventPayload e =
     (case e of
        AssistantMessage text \<Rightarrow> AssistantMessage (fst (truncateUtf8 text MAX_ASSISTANT_TEXT_BYTES))
      | ToolCall p \<Rightarrow>
          (let out = map_option (\<lambda>t. truncateUtf8 t MAX_OUTPUT_EXCERPT_BYTES) (tc_output p)
           in ToolCall (p\<lparr>tc_output := map_option fst out,
                tc_input := fst (truncateUtf8 (tc_input p) MAX_INPUT_SUMMARY_BYTES),
                tc_truncated := (tc_truncated p \<or> (case out of None \<Rightarrow> False | Some (_, over) \<Rightarrow> over))\<rparr>))
      | _ \<Rightarrow> e)"

section \<open>Runs and content\<close>

record session_run =
  rr_id :: run_id
  rr_runner :: string
  rr_instance :: "string option"
  rr_host :: "string option"
  rr_agent :: "string option"
  rr_resumed_from :: "run_id option"
  rr_started :: iso
  rr_ended :: "iso option"
  rr_reason :: "run_end_reason option"
  rr_usage :: "json option"

record session_content =
  ct_brief :: "string option"
  ct_inline :: "string option"

text \<open>\<open>setContent\<close>: only the keys of the call are written.\<close>

definition set_brief :: "string option \<Rightarrow> session_content option \<Rightarrow> session_content" where
  "set_brief b c = (case c of None \<Rightarrow> \<lparr>ct_brief = b, ct_inline = None\<rparr> | Some r \<Rightarrow> r\<lparr>ct_brief := b\<rparr>)"

definition set_inline :: "string option \<Rightarrow> session_content option \<Rightarrow> session_content" where
  "set_inline s c = (case c of None \<Rightarrow> \<lparr>ct_brief = None, ct_inline = s\<rparr> | Some r \<Rightarrow> r\<lparr>ct_inline := s\<rparr>)"

datatype handoff_reason =
    ByDisconnect | ByIdle | ByTerminalExit | ByBootSweep | BySuspendTimeout | ByHostLost | ByRunEnded | ByContinue | ByHandoff

definition runEndReasonFor :: "handoff_reason \<Rightarrow> run_end_reason" where
  "runEndReasonFor r = (if r = ByHostLost then EndHostLost else EndSuspended)"

section \<open>What a run is started with\<close>

record mcp_endpoint =
  me_url :: string
  me_token :: string
  me_home :: string
  me_headers :: "(string \<times> string) list"

record provisioned =
  pv_cwd :: string
  pv_orientation :: string
  pv_mcp :: mcp_endpoint
  pv_root :: string
  pv_mirrors :: "string list"

record run_start =
  st_session :: session_id
  st_run :: run_id
  st_cwd :: string
  st_brief :: "string option"
  st_resume :: "string option"
  st_orientation :: string
  st_instance :: "string option"
  st_env :: "(string \<times> string) list"
  st_mcp :: mcp_endpoint
  st_policy :: permission_policy
  st_root :: string
  st_mirrors :: "string list"
  st_model :: "string option"
  st_effort :: "string option"

record instance_defaults =
  id_model :: "string option"
  id_effort :: "string option"

definition resolveModelAndEffort :: "string option \<times> string option \<Rightarrow> instance_defaults option \<Rightarrow> string option \<times> string option" where
  "resolveModelAndEffort own d =
     ((case fst own of Some m \<Rightarrow> Some m | None \<Rightarrow> Option.bind d id_model),
      (case snd own of Some e \<Rightarrow> Some e | None \<Rightarrow> Option.bind d id_effort))"

end
