(* ===== verification/SessionRuntime.thy ===== *)
theory SessionRuntime
  imports SessionEvents
begin

text \<open>
  The session runtime, \<^verbatim>\<open>apps/server/domain/runner/session-runtime.ts\<close>: what it keeps of one thread in its maps,
  the record and the content behind it, and every operation on them.  The promise of the event queue is
  the list of the work still in it; an operation that waits for it, or for a run to settle, is split at the
  wait, and \<open>RuntimeMachine\<close> puts the parts together.  What runs outside the process (provisioning, the transcript of a
  conversation, the agent itself) is an argument.
\<close>

section \<open>The state of a thread\<close>

datatype runtime_error =
    NoLiveRun
  | SessionNotFound
  | KeepsEnding
  | NoAnchor
  | NoRunner
  | NoRunnerAvailable
  | UnknownRunner string
  | NotProvisioned string
  | NotStarted string
  | BadTransition session_state session_state
  | EmptyName
  | StateChangedSince session_state
  | HandoffNotAllowed session_state
  | HandoffNoMirror
  | HandoffRunElsewhere string
  | HandoffTranscriptElsewhere string
  | TranscriptElsewhere string
  | HandoffNoContent
  | AdapterFailed string

text \<open>An item of the queue: an event of a run, a message or an answer to write down, and the rest of a run's end.\<close>

datatype work =
    WEvent run_id sink_item
  | WMessage run_id string
  | WAnswer run_id question_payload
  | WFinish run_id

text \<open>What the live channel is told: an event under its number, a streamed text, or that the row changed.\<close>

datatype published = PubEvent nat canonical_event | PubDelta delta_frame | PubChanged

record moment =
  mo_ms :: nat
  mo_iso :: iso

record thread =
  th_row :: session_row
  th_runs :: "session_run list"
  th_log :: "(run_id option \<times> canonical_event) list"
  th_content :: "session_content option"
  th_live :: "(run_id \<times> bool) option"
  th_question :: "question_payload option"
  th_base :: "run_id \<Rightarrow> nat option"
  th_closing :: bool
  th_end_reason :: "handoff_reason option"
  th_end_locale :: "string option"
  th_activity :: "nat option"
  th_ticks :: "nat option"
  th_turns :: nat
  th_current :: "run_id option"
  th_settling :: "run_id option"
  th_queue :: "work list"
  th_published :: "published list"

section \<open>Counters and events\<close>

definition addTurnInFlight :: "thread \<Rightarrow> thread" where
  "addTurnInFlight t = t\<lparr>th_turns := th_turns t + 1\<rparr>"

definition dropTurnInFlight :: "int \<Rightarrow> thread \<Rightarrow> thread" where
  "dropTurnInFlight count t = t\<lparr>th_turns := nat (int (th_turns t) - max count 0)\<rparr>"

definition isTurnInFlight :: "thread \<Rightarrow> bool" where
  "isTurnInFlight t \<longleftrightarrow> 0 < th_turns t"

definition trackRunSettling :: "run_id \<Rightarrow> thread \<Rightarrow> thread" where
  "trackRunSettling r t = t\<lparr>th_settling := Some r\<rparr>"

definition settleRun :: "run_id \<Rightarrow> thread \<Rightarrow> thread" where
  "settleRun r t = (if th_settling t = Some r then t\<lparr>th_settling := None\<rparr> else t)"

definition touchActivity :: "moment \<Rightarrow> thread \<Rightarrow> thread" where
  "touchActivity now t =
     t\<lparr>th_activity := Some (mo_ms now), th_ticks := Some (case th_ticks t of None \<Rightarrow> 1 | Some n \<Rightarrow> n + 1)\<rparr>"

definition publish :: "published \<Rightarrow> thread \<Rightarrow> thread" where
  "publish p t = t\<lparr>th_published := th_published t @ [p]\<rparr>"

definition enqueue :: "work \<Rightarrow> thread \<Rightarrow> thread" where
  "enqueue w t = t\<lparr>th_queue := th_queue t @ [w]\<rparr>"

definition appendEvent :: "run_id option \<Rightarrow> canonical_event \<Rightarrow> thread \<Rightarrow> thread" where
  "appendEvent r e t = t\<lparr>th_log := th_log t @ [(r, capEventPayload e)]\<rparr>"

definition appendAndPublish :: "run_id option \<Rightarrow> canonical_event list \<Rightarrow> thread \<Rightarrow> thread" where
  "appendAndPublish r es t =
     t\<lparr>th_log := th_log t @ map (\<lambda>e. (r, capEventPayload e)) es,
       th_published := th_published t @ map (\<lambda>(i, e). PubEvent (length (th_log t) + i) e) (enumerate 1 es)\<rparr>"

section \<open>The record\<close>

definition update_row :: "(session_row \<Rightarrow> session_row) \<Rightarrow> thread \<Rightarrow> thread" where
  "update_row f t = t\<lparr>th_row := f (th_row t)\<rparr>"

definition update_run :: "run_id \<Rightarrow> (session_run \<Rightarrow> session_run) \<Rightarrow> thread \<Rightarrow> thread" where
  "update_run r f t = t\<lparr>th_runs := map (\<lambda>x. if rr_id x = r then f x else x) (th_runs t)\<rparr>"

text \<open>\<open>patchSession\<close> with a state: the transition first, and an error leaves the row as it was.\<close>

definition patch_state :: "moment \<Rightarrow> session_state \<Rightarrow> session_row \<Rightarrow> runtime_error + session_row" where
  "patch_state now to row =
     (if se_state row = to then Inr row
      else if \<not> isAllowedSessionTransition (se_state row) to then Inl (BadTransition (se_state row) to)
      else Inr (row\<lparr>se_state := to, se_active_at := mo_iso now,
             se_closed_at := (if to = Closed then Some (mo_iso now) else if to = Running then None else se_closed_at row)\<rparr>))"

definition clearWaitingIfPending :: "run_id option \<Rightarrow> thread \<Rightarrow> thread" where
  "clearWaitingIfPending r t =
     (if th_question t = None then t
      else appendAndPublish r [StateChanged Running Running False None]
             (update_row (\<lambda>x. x\<lparr>se_waiting_since := None\<rparr>) (t\<lparr>th_question := None\<rparr>)))"

definition captureAgentSessionId :: "string option \<Rightarrow> run_id \<Rightarrow> thread \<Rightarrow> thread" where
  "captureAgentSessionId conversation r t =
     (case (th_live t, truthy_opt conversation) of
        (Some (l, False), Some c) \<Rightarrow>
          (if l = r then update_run r (\<lambda>x. x\<lparr>rr_agent := Some c\<rparr>) (t\<lparr>th_live := Some (l, True)\<rparr>) else t)
      | _ \<Rightarrow> t)"

definition isCurrentRun :: "run_id \<Rightarrow> thread \<Rightarrow> bool" where
  "isCurrentRun r t \<longleftrightarrow> th_current t = Some r"

section \<open>The server-side suspend\<close>

text \<open>
  What \<^verbatim>\<open>session-handoff.ts\<close> reads and computes: whether the node has a mirror on this device, the summary it would
  build, the hash of a text and the title in it.
\<close>

record handoff_env =
  hv_mirror :: bool
  hv_summary :: string
  hv_hash :: "string \<Rightarrow> string"
  hv_title :: "string \<Rightarrow> string option"

definition handoffRelativePath :: "session_id \<Rightarrow> string" where
  "handoffRelativePath i = ''wip/sessions/'' @ i @ ''-handoff.md''"

definition suspendRecord :: "moment \<Rightarrow> string option \<Rightarrow> string option \<Rightarrow> string option \<Rightarrow> session_row \<Rightarrow> session_row" where
  "suspendRecord now path hash title row =
     row\<lparr>se_state := Suspended, se_handoff_path := path, se_handoff_hash := hash, se_active_at := mo_iso now,
         se_name := handoffEnrichedName row title\<rparr>"

definition open_runs :: "thread \<Rightarrow> run_id list" where
  "open_runs t = map rr_id (filter (\<lambda>x. rr_ended x = None) (th_runs t))"

definition end_dangling :: "moment \<Rightarrow> handoff_reason \<Rightarrow> run_id \<Rightarrow> thread \<Rightarrow> thread" where
  "end_dangling now reason r t =
     appendEvent (Some r) (RunEndedEv r (runEndReasonFor reason) JNull)
       (update_run r (\<lambda>x. x\<lparr>rr_ended := Some (mo_iso now), rr_reason := Some (runEndReasonFor reason)\<rparr>) t)"

definition endDanglingRuns :: "moment \<Rightarrow> handoff_reason \<Rightarrow> thread \<Rightarrow> thread" where
  "endDanglingRuns now reason t = fold (end_dangling now reason) (open_runs t) t"

definition writeSummaryFileAndRecord :: "moment \<Rightarrow> handoff_env \<Rightarrow> string \<Rightarrow> thread \<Rightarrow> thread" where
  "writeSummaryFileAndRecord now env summary t =
     update_row (\<lambda>x. suspendRecord now (Some (handoffRelativePath (se_id x))) (Some (hv_hash env summary)) (hv_title env summary) x)
       (t\<lparr>th_content := Some (set_inline None (th_content t))\<rparr>)"

definition suspendWithSummary :: "moment \<Rightarrow> handoff_env \<Rightarrow> thread \<Rightarrow> thread" where
  "suspendWithSummary now env t =
     (if hv_mirror env \<and> truthy_opt (se_node (th_row t)) \<noteq> None then writeSummaryFileAndRecord now env (hv_summary env) t
      else update_row (suspendRecord now None (Some (hv_hash env (hv_summary env))) (hv_title env (hv_summary env)))
             (t\<lparr>th_content := Some (set_inline (Some (hv_summary env)) (th_content t))\<rparr>))"

definition writeFileForSuspended :: "moment \<Rightarrow> handoff_env \<Rightarrow> thread \<Rightarrow> thread" where
  "writeFileForSuspended now env t =
     (if \<not> hv_mirror env \<or> truthy_opt (se_node (th_row t)) = None then t
      else (let inline = (if th_log t \<noteq> [] then None else Option.bind (th_content t) ct_inline)
            in writeSummaryFileAndRecord now env (or_else inline (hv_summary env)) t))"

definition suspendServerSide :: "moment \<Rightarrow> handoff_env \<Rightarrow> handoff_reason \<Rightarrow> bool \<Rightarrow> thread \<Rightarrow> thread" where
  "suspendServerSide now env reason write_if_suspended t =
     (if write_if_suspended \<and> se_state (th_row t) = Suspended \<and> truthy_opt (se_handoff_path (th_row t)) = None
      then writeFileForSuspended now env t
      else if se_state (th_row t) \<noteq> Running then t
      else (let t1 = endDanglingRuns now reason t;
                t2 = (if reason = ByHandoff then suspendWithSummary now env t1
                      else update_row (suspendRecord now None None None) t1)
            in if open_runs t \<noteq> [] \<and> se_state (th_row t2) = Suspended
               then appendEvent None (StateChanged Running Suspended False None) t2 else t2))"

section \<open>The events of a run\<close>

text \<open>An event other than the end of the run; \<open>conversation\<close> is what the adapter names the conversation now.\<close>

definition handleEvent :: "moment \<Rightarrow> string option \<Rightarrow> run_id \<Rightarrow> canonical_event \<Rightarrow> thread \<Rightarrow> thread" where
  "handleEvent now conversation r e t =
     (let t1 = touchActivity now (appendAndPublish (Some r) [e] t);
          t2 = (case e of
                  TurnEnded _ consumed \<Rightarrow> if isCurrentRun r t1 then dropTurnInFlight (or_else consumed 1) t1 else t1
                | _ \<Rightarrow> t1);
          t3 = captureAgentSessionId conversation r t2
      in case e of
           ContextUsage u \<Rightarrow> update_row (\<lambda>x. x\<lparr>se_context_used := Some (cu_used u), se_context_max := cu_max u\<rparr>) t3
         | QuestionEv q \<Rightarrow>
             (if qp_decision q \<noteq> None
              then (if map_option qp_request (th_question t3) = Some (qp_request q) then clearWaitingIfPending (Some r) t3 else t3)
              else appendAndPublish (Some r) [StateChanged Running Running True None]
                     (update_row (\<lambda>x. x\<lparr>se_waiting_since := Some (mo_iso now)\<rparr>) (t3\<lparr>th_question := Some q\<rparr>)))
         | _ \<Rightarrow> t3)"

text \<open>
  The end of a run up to the write of its row.  A write that fails (\<open>failed\<close>) leaves the handler; the rest of
  the work of the current run's end is \<open>finishRun\<close>, which may fail at its own write.
\<close>

definition endRun :: "moment \<Rightarrow> string option \<Rightarrow> bool \<Rightarrow> run_id \<Rightarrow> run_end_reason \<Rightarrow> json \<Rightarrow> thread \<Rightarrow> thread" where
  "endRun now conversation failed r reason usage t =
     (let current = isCurrentRun r t;
          agent = (if map_option fst (th_live t) = Some r then truthy_opt conversation else None);
          t1 = touchActivity now (appendAndPublish (Some r) [RunEndedEv r reason usage] t);
          t2 = (if current
                then t1\<lparr>th_turns := 0, th_current := None, th_live := None, th_activity := None, th_ticks := None\<rparr>
                else t1);
          t3 = t2\<lparr>th_base := (th_base t2)(r := None)\<rparr>
      in if failed then t3
         else update_run r (\<lambda>x. x\<lparr>rr_ended := Some (mo_iso now), rr_reason := Some reason, rr_usage := Some usage,
                rr_agent := (case agent of Some c \<Rightarrow> Some c | None \<Rightarrow> rr_agent x)\<rparr>) t3)"

definition finishRun :: "moment \<Rightarrow> handoff_env \<Rightarrow> bool \<Rightarrow> run_id \<Rightarrow> thread \<Rightarrow> thread" where
  "finishRun now env failed r t =
     (let t1 = clearWaitingIfPending (Some r) t
      in if th_closing t1 then t1\<lparr>th_closing := False\<rparr>
         else (let reason = or_else (th_end_reason t1) ByRunEnded;
                   t2 = t1\<lparr>th_end_reason := None, th_end_locale := None\<rparr>
               in if failed then t2
                  else (let t3 = suspendServerSide now env reason False t2
                        in appendAndPublish (Some r)
                             ((if se_state (th_row t3) = Suspended then [StateChanged Running Suspended False None] else [])
                              @ (if reason = ByHandoff
                                 then [HandoffEv (se_handoff_path (th_row t3)) (se_handoff_hash (th_row t3))] else [])) t3)))"

definition withSuspendReason :: "thread \<Rightarrow> sink_item \<Rightarrow> sink_item" where
  "withSuspendReason t i =
     (case i of
        Canonical (RunEndedEv r EndCompleted usage) \<Rightarrow>
          (if th_closing t then i else Canonical (RunEndedEv r EndSuspended usage))
      | _ \<Rightarrow> i)"

text \<open>The sink of a run.\<close>

definition makeSink :: "run_id \<Rightarrow> sink_item \<Rightarrow> thread \<Rightarrow> thread" where
  "makeSink r i t = enqueue (WEvent r (withSuspendReason t i)) t"

section \<open>Starting a run\<close>

text \<open>
  What the start of a run finds: the size of the scope, the instance's defaults and environment, whether the
  registry knows the runner, and the adapter's answer, an error or none.
\<close>

record start_env =
  sa_scope :: nat
  sa_defaults :: "instance_defaults option"
  sa_env :: "(string \<times> string) list"
  sa_known :: bool
  sa_error :: "string option"

record start_opts =
  so_brief :: "string option"
  so_resume :: "string option"
  so_mode :: "resume_mode option"
  so_policy :: permission_policy
  so_log_brief :: bool

definition run_start_for :: "start_env \<Rightarrow> session_row \<Rightarrow> session_run \<Rightarrow> provisioned \<Rightarrow> start_opts \<Rightarrow> run_start" where
  "run_start_for sa row run pv opts =
     (let (model, effort) = resolveModelAndEffort (se_model row, se_effort row) (if rr_instance run = None then None else sa_defaults sa)
      in \<lparr>st_session = se_id row, st_run = rr_id run, st_cwd = pv_cwd pv, st_brief = so_brief opts, st_resume = so_resume opts,
          st_orientation = pv_orientation pv, st_instance = rr_instance run, st_env = sa_env sa,
          st_mcp = (pv_mcp pv)\<lparr>me_headers := [(''X-Portuni-Spawn-Id'', se_id row)]\<rparr>, st_policy = so_policy opts,
          st_root = pv_root pv, st_mirrors = pv_mirrors pv, st_model = model, st_effort = effort\<rparr>)"

text \<open>
  The brief is written down unless a refused message carries it over.  A start that fails gives the turn and the
  baseline back; one that succeeds registers the live run.
\<close>

definition start_log :: "session_run \<Rightarrow> start_opts \<Rightarrow> thread \<Rightarrow> thread" where
  "start_log run opts t =
     (let t1 = appendAndPublish (Some (rr_id run))
            [RunStarted (rr_id run) (rr_runner run) (rr_instance run) (so_mode opts)
               (if so_brief opts \<noteq> None \<and> \<not> so_log_brief opts then Some 1 else None)] t
      in case so_brief opts of
           None \<Rightarrow> t1
         | Some text \<Rightarrow>
             addTurnInFlight
               (if so_log_brief opts then appendAndPublish (Some (rr_id run)) [UserMessage text FromChat] t1 else t1))"

definition startRun ::
    "moment \<Rightarrow> start_env \<Rightarrow> session_run \<Rightarrow> provisioned \<Rightarrow> start_opts \<Rightarrow> thread \<Rightarrow> (runtime_error + run_start) \<times> thread" where
  "startRun now sa run pv opts t =
     (if \<not> sa_known sa then (Inl (UnknownRunner (rr_runner run)), t)
      else (let r = rr_id run;
                t1 = start_log run opts (t\<lparr>th_base := (th_base t)(r \<mapsto> sa_scope sa), th_current := Some r\<rparr>)
            in case sa_error sa of
                 Some e \<Rightarrow>
                   (let t2 = (if so_brief opts \<noteq> None then dropTurnInFlight 1 t1 else t1)
                    in (Inl (NotStarted e), t2\<lparr>th_base := (th_base t2)(r := None), th_current := None\<rparr>))
               | None \<Rightarrow>
                   (Inr (run_start_for sa (th_row t) run pv opts),
                    touchActivity now (trackRunSettling r (t1\<lparr>th_live := Some (r, False)\<rparr>)))))"

definition new_run :: "moment \<Rightarrow> run_id \<Rightarrow> string \<Rightarrow> string option \<Rightarrow> string \<Rightarrow> string option \<Rightarrow> run_id option \<Rightarrow> session_run" where
  "new_run now r runner inst host agent resumed =
     \<lparr>rr_id = r, rr_runner = runner, rr_instance = inst, rr_host = Some host, rr_agent = agent, rr_resumed_from = resumed,
      rr_started = mo_iso now, rr_ended = None, rr_reason = None, rr_usage = None\<rparr>"

text \<open>
  What a start by writing finds: the runner a task of the node gets, the provisioning, whether the last
  conversation can be resumed, the handoff file, the summary of the transcript, the id of the new run and the
  host this process is.
\<close>

record write_env =
  wv_runner :: "(string \<times> string option) option"
  wv_provision :: "string + provisioned"
  wv_resumable :: bool
  wv_file :: "string option"
  wv_summary :: string
  wv_run :: run_id
  wv_host :: string
  wv_start :: start_env

definition promoteDraftAndStart :: "moment \<Rightarrow> write_env \<Rightarrow> string \<Rightarrow> thread \<Rightarrow> (runtime_error + run_start) \<times> thread" where
  "promoteDraftAndStart now wv text t =
     (let row = th_row t
      in if se_state row \<noteq> Draft then (Inl NoLiveRun, t)
         else if truthy_opt (se_node row) = None then (Inl NoAnchor, t)
         else (case (case truthy_opt (se_runner row) of Some x \<Rightarrow> Some (x, se_instance row) | None \<Rightarrow> wv_runner wv) of
                 None \<Rightarrow> (Inl NoRunnerAvailable, t)
               | Some (runner, inst) \<Rightarrow>
                   (case wv_provision wv of
                      Inl e \<Rightarrow> (Inl (NotProvisioned e), t)
                    | Inr pv \<Rightarrow>
                        (let t1 = t\<lparr>th_content := Some (set_brief (Some text) (th_content t))\<rparr>
                         in case patch_state now Running row of
                              Inl e \<Rightarrow> (Inl e, t1)
                            | Inr row1 \<Rightarrow>
                                (let run = new_run now (wv_run wv) runner inst (wv_host wv) None None;
                                     t2 = appendAndPublish None [StateChanged Draft Running False None]
                                            (update_row (\<lambda>_. row1\<lparr>se_runner := Some runner, se_instance := inst,
                                               se_name := threadNameFromFirstMessage text, se_custom_name := True\<rparr>) t1)
                                 in startRun now (wv_start wv) run pv
                                      \<lparr>so_brief = Some text, so_resume = None, so_mode = None, so_policy = PolicyDefault,
                                       so_log_brief = True\<rparr> (t2\<lparr>th_runs := th_runs t2 @ [run]\<rparr>))))))"

section \<open>Resuming by writing\<close>

definition contentIsHere :: "thread \<Rightarrow> bool" where
  "contentIsHere t \<longleftrightarrow> th_log t \<noteq> [] \<or> th_content t \<noteq> None"

definition runHostOf :: "thread \<Rightarrow> string option" where
  "runHostOf t =
     (let hosted = filter (\<lambda>x. truthy_opt (rr_host x) \<noteq> None) (th_runs t); opened = filter (\<lambda>x. rr_ended x = None) hosted
      in if opened \<noteq> [] then rr_host (last opened) else if hosted \<noteq> [] then rr_host (last hosted) else se_host (th_row t))"

definition refuseForMissingContent :: "string \<Rightarrow> bool \<Rightarrow> thread \<Rightarrow> runtime_error" where
  "refuseForMissingContent here for_handoff t =
     (case truthy_opt (runHostOf t) of
        Some h \<Rightarrow>
          (if h = here then HandoffNoContent
           else if for_handoff then HandoffTranscriptElsewhere h else TranscriptElsewhere h)
      | None \<Rightarrow> HandoffNoContent)"

definition resumeSummary :: "write_env \<Rightarrow> thread \<Rightarrow> string option" where
  "resumeSummary wv t =
     (case (if truthy_opt (se_handoff_path (th_row t)) = None then None else truthy_opt (wv_file wv)) of
        Some f \<Rightarrow> Some f
      | None \<Rightarrow>
          (if th_log t \<noteq> [] then Some (wv_summary wv) else Option.bind (th_content t) ct_inline))"

definition handoff_orientation :: "string \<Rightarrow> provisioned \<Rightarrow> provisioned" where
  "handoff_orientation summary pv =
     pv\<lparr>pv_orientation := pv_orientation pv @ newline @ newline
          @ ''## Handoff (the previous conversation was not resumed)'' @ newline @ newline
          @ ''The CLI conversation could not be reopened; you continue from this handoff of the previous session. ''
          @ ''Treat it as what was said, not as a brief:'' @ newline @ newline @ summary\<rparr>"

definition resumeByWriting :: "moment \<Rightarrow> write_env \<Rightarrow> string \<Rightarrow> bool \<Rightarrow> thread \<Rightarrow> (runtime_error + run_start) \<times> thread" where
  "resumeByWriting now wv text logged t =
     (let row = th_row t
      in if truthy_opt (se_node row) = None then (Inl NoAnchor, t)
         else (case truthy_opt (se_runner row) of
                 None \<Rightarrow> (Inl NoRunner, t)
               | Some runner \<Rightarrow>
                   (case wv_provision wv of
                      Inl e \<Rightarrow> (Inl (NotProvisioned e), t)
                    | Inr pv \<Rightarrow>
                        (let previous = (if th_runs t = [] then None else Some (last (th_runs t)));
                             agent = Option.bind previous rr_agent;
                             resume = (if agent \<noteq> None \<and> wv_resumable wv then truthy_opt agent else None);
                             summary = (if resume \<noteq> None then None else truthy_opt (resumeSummary wv t))
                         in if resume = None \<and> summary = None \<and> \<not> contentIsHere t
                            then (Inl (refuseForMissingContent (wv_host wv) False t), t)
                            else (let run = new_run now (wv_run wv) runner (se_instance row) (wv_host wv) resume (map_option rr_id previous);
                                      t1 = t\<lparr>th_runs := th_runs t @ [run]\<rparr>
                                  in case patch_state now Running row of
                                       Inl e \<Rightarrow> (Inl e, t1)
                                     | Inr row1 \<Rightarrow>
                                         startRun now (wv_start wv) run
                                           (case summary of None \<Rightarrow> pv | Some s \<Rightarrow> handoff_orientation s pv)
                                           \<lparr>so_brief = Some text, so_resume = resume,
                                            so_mode = Some (if resume \<noteq> None then ResumeConversation else ResumeHandoff),
                                            so_policy = PolicyDefault, so_log_brief = (\<not> logged)\<rparr>
                                           (appendAndPublish None [StateChanged (se_state row) Running False None]
                                              (update_row (\<lambda>_. row1) t1)))))))"

text \<open>A message into a thread without a live run whose last run's end is complete.\<close>

definition send_into_idle :: "moment \<Rightarrow> write_env \<Rightarrow> string \<Rightarrow> bool \<Rightarrow> thread \<Rightarrow> (runtime_error + run_start) \<times> thread" where
  "send_into_idle now wv text logged t =
     (case se_state (th_row t) of
        Draft \<Rightarrow> promoteDraftAndStart now wv text t
      | Suspended \<Rightarrow> resumeByWriting now wv text logged t
      | Closed \<Rightarrow> resumeByWriting now wv text logged t
      | _ \<Rightarrow> (Inl NoLiveRun, t))"

section \<open>The record without a run\<close>

definition renameThread :: "string \<Rightarrow> thread \<Rightarrow> runtime_error option \<times> thread" where
  "renameThread name t =
     (let trimmed = js_trim name
      in if trimmed = [] then (Some EmptyName, t)
         else (None, publish PubChanged (update_row (\<lambda>x. x\<lparr>se_name := trimmed, se_custom_name := True\<rparr>) t)))"

text \<open>The two halves of a patch are absent or set, possibly to none; the result says what the live run is told.\<close>

definition setModelAndEffort :: "string option option \<Rightarrow> string option option \<Rightarrow> thread \<Rightarrow> (run_id \<times> string option) option \<times> thread" where
  "setModelAndEffort model effort t =
     ((case (model, th_live t) of (Some m, Some (r, _)) \<Rightarrow> Some (r, m) | _ \<Rightarrow> None),
      update_row (\<lambda>x. x\<lparr>se_model := or_else model (se_model x), se_effort := or_else effort (se_effort x)\<rparr>) t)"

record session_signals =
  sg_age :: "int option"
  sg_writes :: nat
  sg_reads :: nat
  sg_growth :: int

text \<open>\<open>started\<close> is the moment the live run started, in milliseconds; the scope is given by its two sizes.\<close>

definition sessionSignals :: "nat \<Rightarrow> (session_run \<Rightarrow> nat) \<Rightarrow> nat \<Rightarrow> nat \<Rightarrow> thread \<Rightarrow> session_signals" where
  "sessionSignals now started writes reads t =
     (case th_live t of
        None \<Rightarrow> \<lparr>sg_age = None, sg_writes = writes, sg_reads = reads, sg_growth = 0\<rparr>
      | Some (r, _) \<Rightarrow>
          \<lparr>sg_age = map_option (\<lambda>x. int now - int (started x)) (find (\<lambda>x. rr_id x = r) (th_runs t)),
           sg_writes = writes, sg_reads = reads,
           sg_growth = (case th_base t r of None \<Rightarrow> 0 | Some n \<Rightarrow> max 0 (int reads - int n))\<rparr>)"

definition pendingQuestion :: "thread \<Rightarrow> question_payload option" where
  "pendingQuestion t = th_question t"

end
