(* ===== verification/RuntimeMachine.thy ===== *)
theory RuntimeMachine
  imports SessionRuntime
begin

text \<open>
  The runtime of one thread as a machine: the operation that holds the thread's lifecycle lock, the event queue,
  the idle sweep and the agents behind the handles take steps in any order.  An operation is split where it waits:
  for the queue, for the adapter's \<open>close\<close>, or for a run to settle.

  The machine assumes three things of its surroundings, and the theorems over it hold under them.  The lifecycle
  lock of \<open>withLifecycleLock\<close> is taken as given: an operation begins only when none is under way (\<open>mc_task = Idle\<close>);
  the queues of that shape are the subject of \<open>PathLock\<close>.  A start is one step, and only messages start runs:
  the code also starts a run of a thread it has just created, in \<open>startTask\<close>, \<open>startFromHandoff\<close> and for the new
  thread of a continuation, without that thread's lock, and such a start is no step here.  And an agent, which is not
  code of this repository, reports only while its run is at work: nothing before its handle is there, and its
  \<open>run_ended\<close> is the last event it emits, once.  The guard \<open>isCurrentRun\<close> of a stray end is part of the steps of the
  queue, but under this assumption no stray end occurs.
\<close>

section \<open>Agents\<close>

datatype agent_status = Absent | Taking | Ending | Over

record agents =
  ag_status :: "run_id \<Rightarrow> agent_status"
  ag_taken :: "(run_id \<times> string) list"
  ag_answered :: "run_id \<Rightarrow> nat"
  ag_conversation :: "run_id \<Rightarrow> string option"

definition agent_starts :: "run_start \<Rightarrow> agents \<Rightarrow> agents" where
  "agent_starts rs a =
     a\<lparr>ag_status := (ag_status a)(st_run rs := Taking),
       ag_taken := ag_taken a @ (case st_brief rs of None \<Rightarrow> [] | Some text \<Rightarrow> [(st_run rs, text)])\<rparr>"

text \<open>\<open>send\<close>: a message into a run that is over or ending is refused.\<close>

definition agent_send :: "run_id \<Rightarrow> string \<Rightarrow> agents \<Rightarrow> agents option" where
  "agent_send r text a = (if ag_status a r = Taking then Some (a\<lparr>ag_taken := ag_taken a @ [(r, text)]\<rparr>) else None)"

text \<open>\<open>close\<close> ends the prompt stream; the end of the run follows when the process goes.\<close>

definition agent_close :: "run_id \<Rightarrow> agents \<Rightarrow> agents" where
  "agent_close r a = (if ag_status a r = Taking then a\<lparr>ag_status := (ag_status a)(r := Ending)\<rparr> else a)"

definition taken_by :: "run_id \<Rightarrow> agents \<Rightarrow> nat" where
  "taken_by r a = length (filter (\<lambda>m. fst m = r) (ag_taken a))"

section \<open>Operations under the lock\<close>

datatype wait =
    AfterSend string | AfterAnswer | AfterStop | AfterClose | AfterHandoffStop "string option" | AfterHandoffEnd
  | AfterContinue session_state

datatype task =
    Idle
  | Sending string bool nat
  | Logging string nat run_id
  | Handing string nat run_id
  | Settling string bool nat run_id
  | Answering run_id
  | Closing wait run_id
  | Draining wait nat
  | HandingOff "string option"
  | Finished "runtime_error option"

definition MAX_DELIVERY_ATTEMPTS :: nat where "MAX_DELIVERY_ATTEMPTS = 3"

definition deliverAfterRunEnd :: "string \<Rightarrow> nat \<Rightarrow> bool \<Rightarrow> thread \<Rightarrow> task" where
  "deliverAfterRunEnd text attempt logged t =
     (if MAX_DELIVERY_ATTEMPTS \<le> attempt + 1 then Finished (Some KeepsEnding)
      else (case th_settling t of
              None \<Rightarrow> Sending text logged (attempt + 1)
            | Some r \<Rightarrow> Settling text logged (attempt + 1) r))"

text \<open>\<open>sendMessageLocked\<close> up to its first wait, with a live run or with one that is settling.\<close>

definition send_to_live :: "moment \<Rightarrow> string \<Rightarrow> bool \<Rightarrow> nat \<Rightarrow> run_id \<Rightarrow> thread \<Rightarrow> task \<times> thread" where
  "send_to_live now text logged attempt r t =
     (let t1 = addTurnInFlight (touchActivity now t)
      in if logged then (Handing text attempt r, t1) else (Logging text attempt r, enqueue (WMessage r text) t1))"

text \<open>\<open>send\<close> of the handle, and what a refusal does.\<close>

definition hand_over :: "string \<Rightarrow> nat \<Rightarrow> run_id \<Rightarrow> agents \<Rightarrow> thread \<Rightarrow> task \<times> agents \<times> thread" where
  "hand_over text attempt r a t =
     (case agent_send r text a of
        Some a' \<Rightarrow> (Finished None, a', t)
      | None \<Rightarrow> (let t1 = dropTurnInFlight 1 t in (deliverAfterRunEnd text attempt True t1, a, t1)))"

definition answer_begin :: "moment \<Rightarrow> string \<Rightarrow> question_decision \<Rightarrow> thread \<Rightarrow> task \<times> thread" where
  "answer_begin now request decision t =
     (case th_live t of
        None \<Rightarrow> (Finished (Some NoLiveRun), t)
      | Some (r, _) \<Rightarrow>
          (let t1 = touchActivity now t
           in case th_question t1 of
                Some q \<Rightarrow>
                  (if qp_request q = request
                   then (Answering r, enqueue (WAnswer r (q\<lparr>qp_decision := Some decision\<rparr>)) t1)
                   else (Draining AfterAnswer (length (th_queue t1)), t1))
              | None \<Rightarrow> (Draining AfterAnswer (length (th_queue t1)), t1)))"

definition interrupt_begin :: "moment \<Rightarrow> wait \<Rightarrow> task \<Rightarrow> thread \<Rightarrow> task \<times> thread" where
  "interrupt_begin now w no_run t =
     (case th_live t of
        None \<Rightarrow> (no_run, t)
      | Some _ \<Rightarrow> (let t1 = touchActivity now t in (Draining w (length (th_queue t1)), t1)))"

text \<open>\<open>closeSessionLocked\<close> in front of and behind the end of the run.\<close>

definition close_finish :: "moment \<Rightarrow> thread \<Rightarrow> task \<times> thread" where
  "close_finish now t =
     (case patch_state now Closed (th_row t) of
        Inl e \<Rightarrow> (Finished (Some e), t)
      | Inr row \<Rightarrow>
          (let t1 = update_row (\<lambda>_. row) t
           in (Finished None,
               if se_state (th_row t) \<noteq> Closed
               then appendAndPublish None [StateChanged (se_state (th_row t)) Closed False None] t1 else t1)))"

definition close_begin :: "moment \<Rightarrow> thread \<Rightarrow> task \<times> thread" where
  "close_begin now t =
     (case th_live t of
        None \<Rightarrow> close_finish now t
      | Some (r, _) \<Rightarrow> (Closing AfterClose r, t\<lparr>th_closing := True\<rparr>))"

definition endRunWithReason :: "handoff_reason \<Rightarrow> string option \<Rightarrow> run_id \<Rightarrow> thread \<Rightarrow> thread" where
  "endRunWithReason reason locale r t =
     t\<lparr>th_end_reason := Some reason, th_end_locale := (if truthy_opt locale = None then th_end_locale t else locale)\<rparr>"

text \<open>\<open>handoffLocked\<close>: its refusals, the stop of the turn, the end of the run and the answer.\<close>

definition handoff_answer :: "thread \<Rightarrow> task" where
  "handoff_answer t = Finished (if truthy_opt (se_handoff_path (th_row t)) = None then Some HandoffNoMirror else None)"

definition handoff_begin :: "moment \<Rightarrow> handoff_env \<Rightarrow> string \<Rightarrow> string option \<Rightarrow> thread \<Rightarrow> task \<times> thread" where
  "handoff_begin now env here locale t =
     (let state = se_state (th_row t)
      in if state = Suspended \<and> truthy_opt (se_handoff_path (th_row t)) \<noteq> None then (Finished None, t)
         else if state \<noteq> Running \<and> state \<noteq> Suspended then (Finished (Some (HandoffNotAllowed state)), t)
         else if truthy_opt (se_node (th_row t)) = None \<or> \<not> hv_mirror env then (Finished (Some HandoffNoMirror), t)
         else if state = Running
         then (if th_live t = None \<and> truthy_opt (runHostOf t) \<noteq> None \<and> runHostOf t \<noteq> Some here
               then (Finished (Some (HandoffRunElsewhere (the (runHostOf t)))), t)
               else interrupt_begin now (AfterHandoffStop locale) (HandingOff locale) t)
         else if \<not> contentIsHere t then (Finished (Some (refuseForMissingContent here True t)), t)
         else (let t1 = suspendServerSide now env ByHandoff True t in (handoff_answer t1, t1)))"

definition handoff_end :: "moment \<Rightarrow> handoff_env \<Rightarrow> string option \<Rightarrow> thread \<Rightarrow> task \<times> thread" where
  "handoff_end now env locale t =
     (case th_live t of
        Some (r, _) \<Rightarrow> (Closing AfterHandoffEnd r, endRunWithReason ByHandoff locale r t)
      | None \<Rightarrow> (let t1 = suspendServerSide now env ByHandoff False t in (handoff_answer t1, t1)))"

text \<open>
  \<open>continueSessionLocked\<close> as far as the old thread goes: its refusals, of which the provisioning of the new run is the
  last, the end of the run, and the file and the close behind it.  \<open>before\<close> is the state the thread was found in, and
  \<open>hv_mirror\<close> whether the file could be written.
\<close>

definition continue_refusal :: "string \<Rightarrow> session_state option \<Rightarrow> string + provisioned \<Rightarrow> thread \<Rightarrow> runtime_error option" where
  "continue_refusal here expect pv t =
     (let row = th_row t
      in if expect \<noteq> None \<and> expect \<noteq> Some (se_state row) then Some (StateChangedSince (se_state row))
         else if truthy_opt (se_node row) = None then Some NoAnchor
         else if truthy_opt (se_runner row) = None then Some NoRunner
         else if th_live t = None
            \<and> (truthy_opt (runHostOf t) \<noteq> None \<and> runHostOf t \<noteq> Some here
               \<or> th_log t = [] \<and> Option.bind (th_content t) ct_inline = None)
         then Some (refuseForMissingContent here False t)
         else (case pv of Inl e \<Rightarrow> Some (NotProvisioned e) | Inr _ \<Rightarrow> None))"

definition with_file :: "handoff_env \<Rightarrow> session_row \<Rightarrow> session_row" where
  "with_file env row =
     (if hv_mirror env
      then row\<lparr>se_handoff_path := Some (handoffRelativePath (se_id row)), se_handoff_hash := Some (hv_hash env (hv_summary env))\<rparr>
      else row)"

definition continue_finish :: "moment \<Rightarrow> handoff_env \<Rightarrow> session_state \<Rightarrow> thread \<Rightarrow> task \<times> thread" where
  "continue_finish now env before t =
     (let t1 = (if hv_mirror env then t\<lparr>th_content := Some (set_inline None (th_content t))\<rparr> else t)
      in if before = Closed \<or> before = Archived then (Finished None, update_row (with_file env) t1)
         else (case patch_state now Closed (th_row t1) of
                 Inl e \<Rightarrow> (Finished (Some e), t1)
               | Inr row \<Rightarrow>
                   (Finished None,
                    appendAndPublish None [StateChanged before Closed False None] (update_row (\<lambda>_. with_file env row) t1))))"

definition continue_begin ::
    "moment \<Rightarrow> handoff_env \<Rightarrow> string \<Rightarrow> session_state option \<Rightarrow> string + provisioned \<Rightarrow> thread \<Rightarrow> task \<times> thread" where
  "continue_begin now env here expect pv t =
     (case continue_refusal here expect pv t of
        Some e \<Rightarrow> (Finished (Some e), t)
      | None \<Rightarrow>
          (case th_live t of
             Some (r, _) \<Rightarrow> (Closing (AfterContinue (se_state (th_row t))) r, t\<lparr>th_closing := True\<rparr>)
           | None \<Rightarrow> continue_finish now env (se_state (th_row t)) t))"

text \<open>What an operation does when the queue it waited for is empty.\<close>

definition drained :: "moment \<Rightarrow> handoff_env \<Rightarrow> wait \<Rightarrow> thread \<Rightarrow> task \<times> thread" where
  "drained now env w t =
     (case w of
        AfterClose \<Rightarrow> close_finish now t
      | AfterContinue before \<Rightarrow> continue_finish now env before t
      | AfterHandoffStop locale \<Rightarrow> (HandingOff locale, t)
      | AfterHandoffEnd \<Rightarrow> (handoff_answer t, t)
      | _ \<Rightarrow> (Finished None, t))"

section \<open>The idle sweep\<close>

datatype sweep = Resting | Picked nat | SweepClosing run_id | SweepDraining nat

definition isIdleRun :: "nat \<Rightarrow> nat \<Rightarrow> thread \<Rightarrow> bool" where
  "isIdleRun idle now t \<longleftrightarrow>
     \<not> (isTurnInFlight t \<and> th_question t = None) \<and> int idle < int now - int (or_else (th_activity t) now)"

definition sweep_pick :: "nat \<Rightarrow> nat \<Rightarrow> thread \<Rightarrow> sweep" where
  "sweep_pick idle now t =
     (if th_live t \<noteq> None \<and> isIdleRun idle now t then Picked (or_else (th_ticks t) 0) else Resting)"

definition sweep_end :: "nat \<Rightarrow> nat \<Rightarrow> nat \<Rightarrow> thread \<Rightarrow> sweep \<times> thread" where
  "sweep_end idle now tick t =
     (case th_live t of
        None \<Rightarrow> (Resting, t)
      | Some (r, _) \<Rightarrow>
          (if or_else (th_ticks t) 0 \<noteq> tick \<or> \<not> isIdleRun idle now t then (Resting, t)
           else (SweepClosing r, endRunWithReason ByIdle None r t)))"

section \<open>Waits\<close>

text \<open>One item of the queue is done: who drains has one less to wait for.\<close>

fun item_done :: "task \<Rightarrow> task" where
  "item_done (Draining w n) = Draining w (n - 1)"
| "item_done k = k"

fun sweep_item_done :: "sweep \<Rightarrow> sweep" where
  "sweep_item_done (SweepDraining n) = SweepDraining (n - 1)"
| "sweep_item_done k = k"

text \<open>The promise of a settling run is resolved.\<close>

fun wake :: "run_id \<Rightarrow> task \<Rightarrow> task" where
  "wake r (Settling text logged attempt q) = (if q = r then Sending text logged attempt else Settling text logged attempt q)"
| "wake r k = k"

fun logged_now :: "task \<Rightarrow> task" where
  "logged_now (Logging text attempt r) = Handing text attempt r"
| "logged_now k = k"

fun answered_now :: "nat \<Rightarrow> task \<Rightarrow> task" where
  "answered_now n (Answering r) = Draining AfterAnswer n"
| "answered_now n k = k"

section \<open>The machine\<close>

datatype request =
    ReqSend string
  | ReqAnswer string question_decision
  | ReqStop
  | ReqClose
  | ReqHandoff "string option"
  | ReqContinue "session_state option" "string + provisioned"

text \<open>
  Beside the runtime, the machine keeps what it was asked and answered: the request that holds the lock, whether
  its message is in the transcript, the replies, and whether a write or a start failed on the way.
\<close>

record machine =
  mc_thread :: thread
  mc_agents :: agents
  mc_task :: task
  mc_sweep :: sweep
  mc_request :: "request option"
  mc_written :: bool
  mc_replies :: "(request \<times> bool \<times> runtime_error option) list"
  mc_faulty :: bool

definition begin_request :: "moment \<Rightarrow> handoff_env \<Rightarrow> string \<Rightarrow> request \<Rightarrow> thread \<Rightarrow> task \<times> thread" where
  "begin_request now env here q t =
     (case q of
        ReqSend text \<Rightarrow> (Sending text False 0, t)
      | ReqAnswer i d \<Rightarrow> answer_begin now i d t
      | ReqStop \<Rightarrow> interrupt_begin now AfterStop (Finished None) t
      | ReqClose \<Rightarrow> close_begin now t
      | ReqHandoff locale \<Rightarrow> handoff_begin now env here locale t
      | ReqContinue expect pv \<Rightarrow> continue_begin now env here expect pv t)"

text \<open>An operation that has come to \<open>close\<close> has called it.\<close>

definition agent_told :: "task \<Rightarrow> agents \<Rightarrow> agents" where
  "agent_told k a = (case k of Closing _ r \<Rightarrow> agent_close r a | _ \<Rightarrow> a)"

definition consumed_by :: "canonical_event \<Rightarrow> nat" where
  "consumed_by e = (case e of TurnEnded _ c \<Rightarrow> nat (or_else c 1) | _ \<Rightarrow> 0)"

text \<open>What a run may emit before its end: a turn answers messages the run has taken and not answered yet.\<close>

definition may_emit :: "run_id \<Rightarrow> sink_item \<Rightarrow> agents \<Rightarrow> bool" where
  "may_emit r i a \<longleftrightarrow>
     ag_status a r \<in> {Taking, Ending} \<and>
     (case i of
        Delta _ \<Rightarrow> True
      | Canonical e \<Rightarrow> (case e of RunEndedEv _ _ _ \<Rightarrow> False | UserMessage _ _ \<Rightarrow> False | _ \<Rightarrow> ag_answered a r + consumed_by e \<le> taken_by r a))"

definition item_consumes :: "sink_item \<Rightarrow> nat" where
  "item_consumes i = (case i of Delta _ \<Rightarrow> 0 | Canonical e \<Rightarrow> consumed_by e)"

definition agent_emits :: "run_id \<Rightarrow> sink_item \<Rightarrow> agents \<Rightarrow> agents" where
  "agent_emits r i a = a\<lparr>ag_answered := (ag_answered a)(r := ag_answered a r + item_consumes i)\<rparr>"

definition pop :: "thread \<Rightarrow> thread" where
  "pop t = t\<lparr>th_queue := tl (th_queue t)\<rparr>"

definition fresh_run :: "run_id \<Rightarrow> machine \<Rightarrow> bool" where
  "fresh_run r m \<longleftrightarrow> ag_status (mc_agents m) r = Absent \<and> r \<notin> rr_id ` set (th_runs (mc_thread m))"

text \<open>One item is off the queue.\<close>

definition dequeued :: "thread \<Rightarrow> machine \<Rightarrow> machine" where
  "dequeued t m = m\<lparr>mc_thread := t, mc_task := item_done (mc_task m), mc_sweep := sweep_item_done (mc_sweep m)\<rparr>"

text \<open>The end of a run is accounted for, and who waits for it goes on.\<close>

definition run_settles :: "run_id \<Rightarrow> machine \<Rightarrow> machine" where
  "run_settles r m =
     (if th_settling (mc_thread m) = Some r
      then m\<lparr>mc_thread := settleRun r (mc_thread m), mc_task := wake r (mc_task m)\<rparr> else m)"

text \<open>The messages of a transcript that came from the chat.\<close>

definition chat_texts :: "(run_id option \<times> canonical_event) list \<Rightarrow> string list" where
  "chat_texts log = concat (map (\<lambda>(_, e). case e of UserMessage x FromChat \<Rightarrow> [x] | _ \<Rightarrow> []) log)"

text \<open>The start a message makes, or its refusal.\<close>

definition start_outcome :: "string \<Rightarrow> (runtime_error + run_start) \<times> thread \<Rightarrow> machine \<Rightarrow> machine" where
  "start_outcome text result m =
     (let written = (mc_written m \<or>
            length (chat_texts (th_log (mc_thread m))) < length (chat_texts (th_log (snd result))))
      in case result of
           (Inl e, t) \<Rightarrow> m\<lparr>mc_thread := t, mc_task := Finished (Some e), mc_written := written,
               mc_faulty := (mc_faulty m \<or> se_state (th_row t) = Running)\<rparr>
         | (Inr rs, t) \<Rightarrow> m\<lparr>mc_thread := t, mc_agents := agent_starts rs (mc_agents m),
               mc_task := Draining (AfterSend text) (length (th_queue t)), mc_written := written\<rparr>)"

inductive machine_step :: "machine \<Rightarrow> machine \<Rightarrow> bool" where
  Request:
    "mc_task m = Idle \<Longrightarrow> begin_request now env here q (mc_thread m) = (k, t) \<Longrightarrow>
     machine_step m (m\<lparr>mc_thread := t, mc_agents := agent_told k (mc_agents m), mc_task := k,
       mc_request := Some q, mc_written := False\<rparr>)"
| Reply:
    "mc_task m = Finished e \<Longrightarrow> mc_request m = Some q \<Longrightarrow>
     machine_step m (m\<lparr>mc_task := Idle, mc_request := None, mc_replies := mc_replies m @ [(q, mc_written m, e)]\<rparr>)"
| SendLive:
    "mc_task m = Sending x l n \<Longrightarrow> th_live (mc_thread m) = Some (r, saved) \<Longrightarrow>
     send_to_live now x l n r (mc_thread m) = (k, t) \<Longrightarrow>
     machine_step m (m\<lparr>mc_thread := t, mc_task := k\<rparr>)"
| SendSettling:
    "mc_task m = Sending x l n \<Longrightarrow> th_live (mc_thread m) = None \<Longrightarrow> th_settling (mc_thread m) \<noteq> None \<Longrightarrow>
     machine_step m (m\<lparr>mc_task := deliverAfterRunEnd x n l (mc_thread m)\<rparr>)"
| SendIdle:
    "mc_task m = Sending x l n \<Longrightarrow> th_live (mc_thread m) = None \<Longrightarrow> th_settling (mc_thread m) = None \<Longrightarrow>
     fresh_run (wv_run wv) m \<Longrightarrow>
     machine_step m (start_outcome x (send_into_idle now wv x l (mc_thread m)) m)"
| Hand:
    "mc_task m = Handing x n r \<Longrightarrow> hand_over x n r (mc_agents m) (mc_thread m) = (k, a, t) \<Longrightarrow>
     machine_step m (m\<lparr>mc_thread := t, mc_agents := a, mc_task := k\<rparr>)"
| HandFails:
    "mc_task m = Handing x n r \<Longrightarrow>
     machine_step m (m\<lparr>mc_thread := dropTurnInFlight 1 (mc_thread m), mc_task := Finished (Some (AdapterFailed e))\<rparr>)"
| CloseReturns:
    "mc_task m = Closing w r \<Longrightarrow>
     machine_step m (m\<lparr>mc_task := Draining w (length (th_queue (mc_thread m)))\<rparr>)"
| Drained:
    "mc_task m = Draining w 0 \<Longrightarrow> drained now env w (mc_thread m) = (k, t) \<Longrightarrow>
     machine_step m (m\<lparr>mc_thread := t, mc_task := k\<rparr>)"
| HandOff:
    "mc_task m = HandingOff locale \<Longrightarrow> handoff_end now env locale (mc_thread m) = (k, t) \<Longrightarrow>
     machine_step m (m\<lparr>mc_thread := t, mc_agents := agent_told k (mc_agents m), mc_task := k\<rparr>)"
| QueueEvent:
    "th_queue (mc_thread m) = WEvent r (Canonical e) # q \<Longrightarrow> (\<And>r' why u. e \<noteq> RunEndedEv r' why u) \<Longrightarrow>
     machine_step m (dequeued (handleEvent now (ag_conversation (mc_agents m) r) r e (pop (mc_thread m))) m)"
| QueueDelta:
    "th_queue (mc_thread m) = WEvent r (Delta d) # q \<Longrightarrow>
     machine_step m (dequeued (publish (PubDelta d) (pop (mc_thread m))) m)"
| QueueMessage:
    "th_queue (mc_thread m) = WMessage r x # q \<Longrightarrow>
     machine_step m (dequeued (appendAndPublish (Some r) [UserMessage x FromChat] (pop (mc_thread m)))
       (m\<lparr>mc_task := logged_now (mc_task m), mc_written := True\<rparr>))"
| QueueMessageFails:
    "th_queue (mc_thread m) = WMessage r x # q \<Longrightarrow>
     machine_step m (dequeued (dropTurnInFlight 1 (pop (mc_thread m))) (m\<lparr>mc_task := Finished (Some (AdapterFailed e))\<rparr>))"
| QueueAnswer:
    "th_queue (mc_thread m) = WAnswer r p # q \<Longrightarrow>
     t = clearWaitingIfPending (Some r) (appendAndPublish (Some r) [QuestionEv p] (pop (mc_thread m))) \<Longrightarrow>
     machine_step m (dequeued t m\<lparr>mc_task := answered_now (length q) (item_done (mc_task m))\<rparr>)"
| QueueEnd:
    "th_queue (mc_thread m) = WEvent r (Canonical (RunEndedEv r' why u)) # q \<Longrightarrow> isCurrentRun r (mc_thread m) \<Longrightarrow>
     t = endRun now (ag_conversation (mc_agents m) r) False r why u (pop (mc_thread m)) \<Longrightarrow>
     machine_step m (m\<lparr>mc_thread := t\<lparr>th_queue := WFinish r # th_queue t\<rparr>\<rparr>)"
| QueueEndFails:
    "th_queue (mc_thread m) = WEvent r (Canonical (RunEndedEv r' why u)) # q \<Longrightarrow>
     t = endRun now (ag_conversation (mc_agents m) r) True r why u (pop (mc_thread m)) \<Longrightarrow>
     machine_step m (run_settles r (dequeued t (m\<lparr>mc_faulty := True\<rparr>)))"
| QueueEndLate:
    "th_queue (mc_thread m) = WEvent r (Canonical (RunEndedEv r' why u)) # q \<Longrightarrow> \<not> isCurrentRun r (mc_thread m) \<Longrightarrow>
     t = endRun now (ag_conversation (mc_agents m) r) False r why u (pop (mc_thread m)) \<Longrightarrow>
     machine_step m (run_settles r (dequeued t m))"
| QueueFinish:
    "th_queue (mc_thread m) = WFinish r # q \<Longrightarrow>
     t = finishRun now env failed r (pop (mc_thread m)) \<Longrightarrow>
     machine_step m (run_settles r (dequeued t (m\<lparr>mc_faulty := (mc_faulty m \<or> failed)\<rparr>)))"
| AgentEmits:
    "may_emit r i (mc_agents m) \<Longrightarrow>
     machine_step m (m\<lparr>mc_agents := agent_emits r i (mc_agents m), mc_thread := makeSink r i (mc_thread m)\<rparr>)"
| AgentFails:
    "ag_status (mc_agents m) r = Taking \<Longrightarrow>
     machine_step m (m\<lparr>mc_agents := (mc_agents m)\<lparr>ag_status := (ag_status (mc_agents m))(r := Ending)\<rparr>\<rparr>)"
| AgentEnds:
    "ag_status (mc_agents m) r \<in> {Taking, Ending} \<Longrightarrow>
     machine_step m (m\<lparr>mc_agents := (mc_agents m)\<lparr>ag_status := (ag_status (mc_agents m))(r := Over)\<rparr>,
       mc_thread := makeSink r (Canonical (RunEndedEv r why u)) (mc_thread m)\<rparr>)"
| AgentNamed:
    "machine_step m (m\<lparr>mc_agents := (mc_agents m)\<lparr>ag_conversation := (ag_conversation (mc_agents m))(r := c)\<rparr>\<rparr>)"
| SweepPick:
    "mc_sweep m = Resting \<Longrightarrow> machine_step m (m\<lparr>mc_sweep := sweep_pick idle ms (mc_thread m)\<rparr>)"
| SweepEnd:
    "mc_sweep m = Picked tick \<Longrightarrow> sweep_end idle ms tick (mc_thread m) = (k, t) \<Longrightarrow>
     machine_step m (m\<lparr>mc_thread := t, mc_sweep := k,
       mc_agents := (case k of SweepClosing r \<Rightarrow> agent_close r (mc_agents m) | _ \<Rightarrow> mc_agents m)\<rparr>)"
| SweepReturns:
    "mc_sweep m = SweepClosing r \<Longrightarrow> machine_step m (m\<lparr>mc_sweep := SweepDraining (length (th_queue (mc_thread m)))\<rparr>)"
| SweepDone:
    "mc_sweep m = SweepDraining 0 \<Longrightarrow> machine_step m (m\<lparr>mc_sweep := Resting\<rparr>)"
| Rename:
    "machine_step m (m\<lparr>mc_thread := snd (renameThread x (mc_thread m))\<rparr>)"
| SetModel:
    "machine_step m (m\<lparr>mc_thread := snd (setModelAndEffort model effort (mc_thread m))\<rparr>)"

text \<open>A thread as the process finds it: nothing in its maps, and no run that it could still be driving.\<close>

definition quiet_thread :: "thread \<Rightarrow> bool" where
  "quiet_thread t \<longleftrightarrow>
     th_live t = None \<and> th_question t = None \<and> \<not> th_closing t \<and> th_end_reason t = None \<and> th_current t = None
     \<and> th_settling t = None \<and> th_queue t = [] \<and> th_turns t = 0 \<and> th_ticks t = None \<and> th_activity t = None
     \<and> se_state (th_row t) \<noteq> Running"

definition initial :: "machine \<Rightarrow> bool" where
  "initial m \<longleftrightarrow>
     quiet_thread (mc_thread m) \<and> distinct (map rr_id (th_runs (mc_thread m)))
     \<and> (\<forall>r. ag_status (mc_agents m) r = Absent \<and> ag_answered (mc_agents m) r = 0) \<and> ag_taken (mc_agents m) = []
     \<and> mc_task m = Idle \<and> mc_sweep m = Resting \<and> mc_request m = None \<and> mc_replies m = [] \<and> \<not> mc_faulty m"

end
