(* ===== verification/RuntimeLaws.thy ===== *)
theory RuntimeLaws
  imports RuntimeMachine
begin

text \<open>
  Invariants of the runtime machine: who drives the thread, what the queue holds, what an operation waits for.
\<close>

section \<open>What the operations leave alone\<close>

named_theorems thread_simps \<open>the maps of a thread after an operation\<close>

lemmas thread_defs = addTurnInFlight_def dropTurnInFlight_def trackRunSettling_def touchActivity_def publish_def enqueue_def
  appendEvent_def appendAndPublish_def update_row_def update_run_def

text \<open>The maps that the operations on the record, the log and the counters do not touch.\<close>

definition same_maps :: "thread \<Rightarrow> thread \<Rightarrow> bool" where
  "same_maps t t' \<longleftrightarrow>
     th_live t' = th_live t \<and> th_question t' = th_question t \<and> th_closing t' = th_closing t
     \<and> th_end_reason t' = th_end_reason t \<and> th_current t' = th_current t \<and> th_settling t' = th_settling t
     \<and> th_queue t' = th_queue t \<and> th_turns t' = th_turns t"

lemma same_maps_refl [simp]: "same_maps t t"
  by (simp add: same_maps_def)

lemma same_maps_trans: "same_maps t u \<Longrightarrow> same_maps u v \<Longrightarrow> same_maps t v"
  by (simp add: same_maps_def)

lemma same_maps_simps [simp]:
  "same_maps t (appendAndPublish r es u) \<longleftrightarrow> same_maps t u"
  "same_maps t (appendEvent r e u) \<longleftrightarrow> same_maps t u"
  "same_maps t (update_row f u) \<longleftrightarrow> same_maps t u"
  "same_maps t (update_run i g u) \<longleftrightarrow> same_maps t u"
  "same_maps t (touchActivity now u) \<longleftrightarrow> same_maps t u"
  "same_maps t (publish p u) \<longleftrightarrow> same_maps t u"
  "same_maps t (u\<lparr>th_content := c\<rparr>) \<longleftrightarrow> same_maps t u"
  "same_maps t (u\<lparr>th_runs := rs\<rparr>) \<longleftrightarrow> same_maps t u"
  "same_maps t (u\<lparr>th_base := b\<rparr>) \<longleftrightarrow> same_maps t u"
  by (simp_all add: same_maps_def thread_defs)

lemma thread_frames [thread_simps]:
  "th_row (appendAndPublish r es t) = th_row t" "th_row (appendEvent r e t) = th_row t" "th_row (update_run i g t) = th_row t"
  "th_row (touchActivity now t) = th_row t" "th_row (publish p t) = th_row t" "th_row (update_row f t) = f (th_row t)"
  "th_row (trackRunSettling i t) = th_row t" "th_row (enqueue w t) = th_row t" "th_row (addTurnInFlight t) = th_row t" "th_row (dropTurnInFlight c t) = th_row t"
  "th_live (appendAndPublish r es t) = th_live t" "th_live (update_run i g t) = th_live t" "th_live (touchActivity now t) = th_live t"
  "th_live (update_row f t) = th_live t" "th_live (enqueue w t) = th_live t" "th_live (addTurnInFlight t) = th_live t"
  "th_live (dropTurnInFlight c t) = th_live t" "th_live (publish p t) = th_live t" "th_live (trackRunSettling i t) = th_live t"
  "th_question (appendAndPublish r es t) = th_question t" "th_question (update_run i g t) = th_question t"
  "th_question (touchActivity now t) = th_question t" "th_question (update_row f t) = th_question t"
  "th_question (enqueue w t) = th_question t" "th_question (addTurnInFlight t) = th_question t"
  "th_question (dropTurnInFlight c t) = th_question t" "th_question (publish p t) = th_question t" "th_question (trackRunSettling i t) = th_question t"
  "th_closing (appendAndPublish r es t) = th_closing t" "th_closing (update_run i g t) = th_closing t"
  "th_closing (touchActivity now t) = th_closing t" "th_closing (update_row f t) = th_closing t"
  "th_closing (enqueue w t) = th_closing t" "th_closing (addTurnInFlight t) = th_closing t"
  "th_closing (dropTurnInFlight c t) = th_closing t" "th_closing (publish p t) = th_closing t" "th_closing (trackRunSettling i t) = th_closing t"
  "th_current (appendAndPublish r es t) = th_current t" "th_current (update_run i g t) = th_current t"
  "th_current (touchActivity now t) = th_current t" "th_current (update_row f t) = th_current t"
  "th_current (enqueue w t) = th_current t" "th_current (addTurnInFlight t) = th_current t"
  "th_current (dropTurnInFlight c t) = th_current t" "th_current (publish p t) = th_current t" "th_current (trackRunSettling i t) = th_current t"
  "th_settling (appendAndPublish r es t) = th_settling t" "th_settling (update_run i g t) = th_settling t"
  "th_settling (touchActivity now t) = th_settling t" "th_settling (update_row f t) = th_settling t"
  "th_settling (enqueue w t) = th_settling t" "th_settling (addTurnInFlight t) = th_settling t"
  "th_settling (dropTurnInFlight c t) = th_settling t" "th_settling (publish p t) = th_settling t" "th_settling (trackRunSettling i t) = Some i"
  "th_queue (appendAndPublish r es t) = th_queue t" "th_queue (update_run i g t) = th_queue t"
  "th_queue (touchActivity now t) = th_queue t" "th_queue (update_row f t) = th_queue t"
  "th_queue (enqueue w t) = th_queue t @ [w]" "th_queue (addTurnInFlight t) = th_queue t"
  "th_queue (dropTurnInFlight c t) = th_queue t" "th_queue (publish p t) = th_queue t" "th_queue (trackRunSettling i t) = th_queue t"
  "th_turns (appendAndPublish r es t) = th_turns t" "th_turns (update_run i g t) = th_turns t"
  "th_turns (touchActivity now t) = th_turns t" "th_turns (update_row f t) = th_turns t"
  "th_turns (enqueue w t) = th_turns t" "th_turns (addTurnInFlight t) = Suc (th_turns t)"
  "th_turns (dropTurnInFlight c t) = nat (int (th_turns t) - max c 0)" "th_turns (publish p t) = th_turns t" "th_turns (trackRunSettling i t) = th_turns t"
  "th_log (appendAndPublish r es t) = th_log t @ map (\<lambda>e. (r, capEventPayload e)) es" "th_log (update_run i g t) = th_log t"
  "th_log (touchActivity now t) = th_log t" "th_log (update_row f t) = th_log t"
  "th_log (enqueue w t) = th_log t" "th_log (addTurnInFlight t) = th_log t"
  "th_log (dropTurnInFlight c t) = th_log t" "th_log (publish p t) = th_log t" "th_log (trackRunSettling i t) = th_log t"
  "th_log (appendEvent r e t) = th_log t @ [(r, capEventPayload e)]"
  by (simp_all add: thread_defs)

lemma same_maps_clear:
  "th_live (clearWaitingIfPending r t) = th_live t" "th_closing (clearWaitingIfPending r t) = th_closing t"
  "th_end_reason (clearWaitingIfPending r t) = th_end_reason t" "th_current (clearWaitingIfPending r t) = th_current t"
  "th_settling (clearWaitingIfPending r t) = th_settling t" "th_queue (clearWaitingIfPending r t) = th_queue t"
  "th_turns (clearWaitingIfPending r t) = th_turns t" "th_question (clearWaitingIfPending r t) = None"
  "se_state (th_row (clearWaitingIfPending r t)) = se_state (th_row t)"
  by (simp_all add: clearWaitingIfPending_def thread_defs)

declare same_maps_clear [thread_simps]

lemma capture_frame [thread_simps]:
  "map_option fst (th_live (captureAgentSessionId c r t)) = map_option fst (th_live t)"
  "th_question (captureAgentSessionId c r t) = th_question t"
  "th_closing (captureAgentSessionId c r t) = th_closing t" "th_end_reason (captureAgentSessionId c r t) = th_end_reason t"
  "th_current (captureAgentSessionId c r t) = th_current t" "th_settling (captureAgentSessionId c r t) = th_settling t"
  "th_queue (captureAgentSessionId c r t) = th_queue t" "th_turns (captureAgentSessionId c r t) = th_turns t"
  "th_row (captureAgentSessionId c r t) = th_row t" "th_log (captureAgentSessionId c r t) = th_log t"
  by (auto simp: captureAgentSessionId_def thread_defs split: option.splits bool.splits)

section \<open>What the composed operations change\<close>

text \<open>The run that is live, without what is saved of it.\<close>

definition live_run :: "thread \<Rightarrow> run_id option" where
  "live_run t = map_option fst (th_live t)"

lemma live_run_cases: "live_run t = Some r \<longleftrightarrow> (\<exists>saved. th_live t = Some (r, saved))"
  by (auto simp: live_run_def)

lemma live_run_None: "th_live t = None \<longleftrightarrow> live_run t = None"
  by (simp add: live_run_def)

lemma live_run_frames [thread_simps]:
  "live_run (appendAndPublish r es t) = live_run t" "live_run (update_run i g t) = live_run t"
  "live_run (touchActivity now t) = live_run t" "live_run (update_row f t) = live_run t"
  "live_run (enqueue w t) = live_run t" "live_run (addTurnInFlight t) = live_run t"
  "live_run (dropTurnInFlight c t) = live_run t" "live_run (publish p t) = live_run t"
  "live_run (trackRunSettling i t) = live_run t" "live_run (captureAgentSessionId conv l t) = live_run t"
  "live_run (clearWaitingIfPending o' t) = live_run t" "live_run (pop t) = live_run t"
  by (simp_all add: live_run_def thread_simps pop_def)

definition run_ids :: "thread \<Rightarrow> run_id list" where
  "run_ids t = map rr_id (th_runs t)"

lemma update_run_ids:
  assumes "\<And>x. rr_id (f x) = rr_id x"
  shows "run_ids (update_run r f t) = run_ids t"
  using assms by (simp add: run_ids_def update_run_def)

lemma run_ids_frames [thread_simps]:
  "run_ids (appendAndPublish r es t) = run_ids t" "run_ids (appendEvent r' e t) = run_ids t"
  "run_ids (touchActivity now t) = run_ids t" "run_ids (update_row f t) = run_ids t"
  "run_ids (enqueue w t) = run_ids t" "run_ids (addTurnInFlight t) = run_ids t"
  "run_ids (dropTurnInFlight c t) = run_ids t" "run_ids (publish p t) = run_ids t"
  "run_ids (trackRunSettling i t) = run_ids t" "run_ids (captureAgentSessionId conv r'' t) = run_ids t"
  "run_ids (clearWaitingIfPending o' t) = run_ids t" "run_ids (pop t) = run_ids t"
  by (auto simp: run_ids_def thread_defs pop_def captureAgentSessionId_def clearWaitingIfPending_def split: option.splits bool.splits)

lemma pop_frames [thread_simps]:
  "th_row (pop t) = th_row t" "th_live (pop t) = th_live t" "th_question (pop t) = th_question t"
  "th_closing (pop t) = th_closing t" "th_current (pop t) = th_current t" "th_settling (pop t) = th_settling t"
  "th_queue (pop t) = tl (th_queue t)" "th_turns (pop t) = th_turns t" "th_log (pop t) = th_log t"
  by (simp_all add: pop_def)

lemma question_frames [thread_simps]:
  "live_run (t\<lparr>th_question := q\<rparr>) = live_run t" "run_ids (t\<lparr>th_question := q\<rparr>) = run_ids t"
  by (simp_all add: live_run_def run_ids_def)

text \<open>What follows the record of an event, beside the turn it answers.\<close>

definition event_effect :: "moment \<Rightarrow> run_id \<Rightarrow> canonical_event \<Rightarrow> thread \<Rightarrow> thread" where
  "event_effect now r e t =
     (case e of
        ContextUsage u \<Rightarrow> update_row (\<lambda>x. x\<lparr>se_context_used := Some (cu_used u), se_context_max := cu_max u\<rparr>) t
      | QuestionEv q \<Rightarrow>
          (if qp_decision q \<noteq> None
           then (if map_option qp_request (th_question t) = Some (qp_request q) then clearWaitingIfPending (Some r) t else t)
           else appendAndPublish (Some r) [StateChanged Running Running True None]
                  (update_row (\<lambda>x. x\<lparr>se_waiting_since := Some (mo_iso now)\<rparr>) (t\<lparr>th_question := Some q\<rparr>)))
      | _ \<Rightarrow> t)"

lemma effect_frames:
  "live_run (event_effect now r e t) = live_run t" "th_current (event_effect now r e t) = th_current t"
  "th_settling (event_effect now r e t) = th_settling t" "th_queue (event_effect now r e t) = th_queue t"
  "th_closing (event_effect now r e t) = th_closing t" "run_ids (event_effect now r e t) = run_ids t"
  "th_turns (event_effect now r e t) = th_turns t" "se_state (th_row (event_effect now r e t)) = se_state (th_row t)"
  by (cases e; simp add: event_effect_def thread_simps split del: if_split; simp add: thread_simps)+

lemma handle_effect:
  "handleEvent now conv r e t =
     event_effect now r e (captureAgentSessionId conv r
       (let u = touchActivity now (appendAndPublish (Some r) [e] t)
        in if th_current t = Some r then dropTurnInFlight (int (consumed_by e)) u else u))"
proof -
  have "dropTurnInFlight (or_else c 1) u = dropTurnInFlight (int (nat (or_else c 1))) u" for c u
    by (simp add: dropTurnInFlight_def max_def)
  moreover have "dropTurnInFlight 0 u = u" for u
    by (simp add: dropTurnInFlight_def)
  ultimately show ?thesis
    by (cases e) (auto simp: handleEvent_def event_effect_def consumed_by_def Let_def isCurrentRun_def thread_simps)
qed

lemma handle_frames [thread_simps]:
  "live_run (handleEvent now conv r e t) = live_run t" "th_current (handleEvent now conv r e t) = th_current t"
  "th_settling (handleEvent now conv r e t) = th_settling t" "th_queue (handleEvent now conv r e t) = th_queue t"
  "th_closing (handleEvent now conv r e t) = th_closing t" "run_ids (handleEvent now conv r e t) = run_ids t"
  "se_state (th_row (handleEvent now conv r e t)) = se_state (th_row t)"
  by (simp_all add: handle_effect effect_frames thread_simps Let_def)

lemma handle_turns [thread_simps]:
  "th_turns (handleEvent now conv r e t) = (if th_current t = Some r then th_turns t - consumed_by e else th_turns t)"
  by (auto simp: handle_effect effect_frames thread_simps Let_def)

text \<open>The chat messages in the transcript.\<close>

definition chat_of :: "thread \<Rightarrow> string list" where
  "chat_of t = chat_texts (th_log t)"

fun chat_in :: "canonical_event \<Rightarrow> string list" where
  "chat_in (UserMessage x FromChat) = [x]"
| "chat_in e = []"

lemma chat_texts_simps [simp]:
  "chat_texts [] = []" "chat_texts ((r, e) # log) = chat_in e @ chat_texts log"
  "chat_texts (xs @ ys) = chat_texts xs @ chat_texts ys"
proof -
  show "chat_texts ((r, e) # log) = chat_in e @ chat_texts log"
    by (cases "(e)" rule: chat_in.cases) (simp_all add: chat_texts_def)
qed (simp_all add: chat_texts_def)

lemma chat_in_capped [simp]: "chat_in (capEventPayload e) = chat_in e"
  by (cases e) (simp_all add: capEventPayload_def Let_def)

lemma chat_texts_capped: "chat_texts (map (\<lambda>e. (r, capEventPayload e)) es) = concat (map chat_in es)"
  by (induction es) auto

lemma chat_frames [thread_simps]:
  "chat_of (appendAndPublish r es t) = chat_of t @ concat (map chat_in es)" "chat_of (update_run i g t) = chat_of t"
  "chat_of (appendEvent r e t) = chat_of t @ chat_in e"
  "chat_of (touchActivity now t) = chat_of t" "chat_of (update_row f t) = chat_of t"
  "chat_of (enqueue w t) = chat_of t" "chat_of (addTurnInFlight t) = chat_of t"
  "chat_of (dropTurnInFlight c t) = chat_of t" "chat_of (publish p t) = chat_of t" "chat_of (trackRunSettling i t) = chat_of t"
  "chat_of (captureAgentSessionId conv l t) = chat_of t" "chat_of (pop t) = chat_of t" "chat_of (t\<lparr>th_question := q\<rparr>) = chat_of t"
  "chat_of (clearWaitingIfPending o' t) = chat_of t"
  by (simp_all add: chat_of_def thread_simps chat_texts_capped clearWaitingIfPending_def)

lemma handle_chat [thread_simps]: "chat_of (handleEvent now conv r e t) = chat_of t @ chat_in e"
proof -
  have "chat_of (event_effect now r e u) = chat_of u" for u
    by (cases e) (auto simp: event_effect_def thread_simps)
  then show ?thesis
    by (simp add: handle_effect thread_simps Let_def)
qed

lemma end_frames [thread_simps]:
  "live_run (endRun now conv failed r why u t) = (if th_current t = Some r then None else live_run t)"
  "th_current (endRun now conv failed r why u t) = (if th_current t = Some r then None else th_current t)"
  "th_settling (endRun now conv failed r why u t) = th_settling t" "th_queue (endRun now conv failed r why u t) = th_queue t"
  "th_closing (endRun now conv failed r why u t) = th_closing t" "run_ids (endRun now conv failed r why u t) = run_ids t"
  "th_turns (endRun now conv failed r why u t) = (if th_current t = Some r then 0 else th_turns t)"
  "th_row (endRun now conv failed r why u t) = th_row t" "chat_of (endRun now conv failed r why u t) = chat_of t"
  by (simp_all add: endRun_def Let_def isCurrentRun_def thread_defs live_run_def run_ids_def chat_of_def capEventPayload_def)

text \<open>The suspend touches the record, the runs and the transcript only.\<close>

definition same_thread :: "thread \<Rightarrow> thread \<Rightarrow> bool" where
  "same_thread t t' \<longleftrightarrow> same_maps t t' \<and> run_ids t' = run_ids t \<and> chat_of t' = chat_of t"

lemma same_thread_simps [simp]:
  "same_thread t t"
  "same_thread t (update_row f u) \<longleftrightarrow> same_thread t u"
  "same_thread t (u\<lparr>th_content := c\<rparr>) \<longleftrightarrow> same_thread t u"
  by (simp_all add: same_thread_def thread_simps) (simp add: run_ids_def chat_of_def)

lemma same_thread_append [simp]: "chat_in e = [] \<Longrightarrow> same_thread t (appendEvent r e u) \<longleftrightarrow> same_thread t u"
  by (simp add: same_thread_def thread_simps)

lemma dangling_same: "same_thread t u \<Longrightarrow> same_thread t (end_dangling now reason r u)"
  by (simp add: same_thread_def end_dangling_def thread_simps update_run_ids)

lemma endDangling_same: "same_thread t u \<Longrightarrow> same_thread t (fold (end_dangling now reason) rs u)"
  by (induction rs arbitrary: u) (simp_all add: dangling_same)

lemma suspend_same: "same_thread t (suspendServerSide now env reason w t)"
  by (auto simp: suspendServerSide_def Let_def endDanglingRuns_def endDangling_same suspendWithSummary_def
      writeSummaryFileAndRecord_def writeFileForSuspended_def)

lemma suspend_frames [thread_simps]:
  "live_run (suspendServerSide now env reason w t) = live_run t" "th_current (suspendServerSide now env reason w t) = th_current t"
  "th_settling (suspendServerSide now env reason w t) = th_settling t" "th_queue (suspendServerSide now env reason w t) = th_queue t"
  "th_closing (suspendServerSide now env reason w t) = th_closing t" "run_ids (suspendServerSide now env reason w t) = run_ids t"
  "th_turns (suspendServerSide now env reason w t) = th_turns t" "chat_of (suspendServerSide now env reason w t) = chat_of t"
  "th_question (suspendServerSide now env reason w t) = th_question t"
  using suspend_same [of t now env reason w] by (simp_all add: same_thread_def same_maps_def live_run_def)

lemma dangling_row: "th_row (endDanglingRuns now reason t) = th_row t"
proof -
  have "th_row (fold (end_dangling now reason) rs u) = th_row u" for rs u
    by (induction rs arbitrary: u) (simp_all add: end_dangling_def thread_simps)
  then show ?thesis by (simp add: endDanglingRuns_def)
qed

lemma suspend_state [thread_simps]:
  "se_state (th_row (suspendServerSide now env reason w t)) =
     (if se_state (th_row t) = Running then Suspended else se_state (th_row t))"
  by (simp add: suspendServerSide_def Let_def suspendWithSummary_def writeSummaryFileAndRecord_def writeFileForSuspended_def
      suspendRecord_def thread_simps dangling_row)

lemma mark_frames [thread_simps]:
  "live_run (t\<lparr>th_closing := b\<rparr>) = live_run t" "run_ids (t\<lparr>th_closing := b\<rparr>) = run_ids t" "chat_of (t\<lparr>th_closing := b\<rparr>) = chat_of t"
  "live_run (t\<lparr>th_end_reason := a, th_end_locale := c\<rparr>) = live_run t"
  "run_ids (t\<lparr>th_end_reason := a, th_end_locale := c\<rparr>) = run_ids t"
  "chat_of (t\<lparr>th_end_reason := a, th_end_locale := c\<rparr>) = chat_of t"
  by (simp_all add: live_run_def run_ids_def chat_of_def)

lemma finish_frames [thread_simps]:
  "live_run (finishRun now env failed r t) = live_run t" "th_current (finishRun now env failed r t) = th_current t"
  "th_settling (finishRun now env failed r t) = th_settling t" "th_queue (finishRun now env failed r t) = th_queue t"
  "run_ids (finishRun now env failed r t) = run_ids t" "th_turns (finishRun now env failed r t) = th_turns t"
  "chat_of (finishRun now env failed r t) = chat_of t" "th_question (finishRun now env failed r t) = None"
  "th_closing (finishRun now env failed r t) \<longleftrightarrow> False"
  by (simp_all add: finishRun_def Let_def thread_simps)

lemma finish_state [thread_simps]:
  "se_state (th_row (finishRun now env failed r t)) =
     (if \<not> th_closing t \<and> \<not> failed \<and> se_state (th_row t) = Running then Suspended else se_state (th_row t))"
  by (simp add: finishRun_def Let_def thread_simps)

section \<open>Starts\<close>

lemma start_log_frames [thread_simps]:
  "live_run (start_log run opts t) = live_run t" "th_current (start_log run opts t) = th_current t"
  "th_settling (start_log run opts t) = th_settling t" "th_queue (start_log run opts t) = th_queue t"
  "th_closing (start_log run opts t) = th_closing t" "run_ids (start_log run opts t) = run_ids t"
  "th_row (start_log run opts t) = th_row t"
  "th_turns (start_log run opts t) = th_turns t + (if so_brief opts = None then 0 else 1)"
  "chat_of (start_log run opts t) =
     chat_of t @ (case so_brief opts of None \<Rightarrow> [] | Some x \<Rightarrow> if so_log_brief opts then [x] else [])"
  by (simp_all add: start_log_def Let_def thread_simps split: option.split)

lemma run_start_fields [simp]:
  "st_run (run_start_for sa row run pv opts) = rr_id run" "st_brief (run_start_for sa row run pv opts) = so_brief opts"
  by (simp_all add: run_start_for_def split: prod.split)

text \<open>A start leaves what waits alone; \<open>registered\<close> says what the run enters, and a refusal registers nothing.\<close>

definition start_keeps :: "thread \<Rightarrow> thread \<Rightarrow> bool" where
  "start_keeps t t' \<longleftrightarrow> th_queue t' = th_queue t \<and> th_closing t' = th_closing t"

definition registered :: "run_id \<Rightarrow> string \<Rightarrow> run_start \<Rightarrow> thread \<Rightarrow> thread \<Rightarrow> bool" where
  "registered r x rs t t' \<longleftrightarrow>
     st_run rs = r \<and> st_brief rs = Some x \<and> live_run t' = Some r \<and> th_current t' = Some r \<and> th_settling t' = Some r
     \<and> th_turns t' = Suc (th_turns t) \<and> run_ids t' = run_ids t @ [r] \<and> se_state (th_row t') = Running"

definition unregistered :: "run_id \<Rightarrow> thread \<Rightarrow> thread \<Rightarrow> bool" where
  "unregistered r t t' \<longleftrightarrow>
     live_run t' = live_run t \<and> th_settling t' = th_settling t \<and> th_turns t' = th_turns t
     \<and> th_current t' \<in> {th_current t, None} \<and> run_ids t' \<in> {run_ids t, run_ids t @ [r]}"

lemma startRun_cases:
  assumes "startRun now sa run pv opts t = (res, t')" and "so_brief opts = Some x"
    and "run_ids t = ids @ [rr_id run]" and "se_state (th_row t) = Running"
    and "live_run t = live_run t0" and "th_settling t = th_settling t0" and "th_turns t = th_turns t0"
    and "th_current t = th_current t0" and "ids = run_ids t0" and "start_keeps t0 t"
  shows "start_keeps t0 t'
    \<and> (case res of Inl e \<Rightarrow> unregistered (rr_id run) t0 t' | Inr rs \<Rightarrow> registered (rr_id run) x rs t0 t')
    \<and> chat_of t' \<in> {chat_of t, chat_of t @ (if so_log_brief opts then [x] else [])}
    \<and> (res \<in> range Inr \<longrightarrow> chat_of t' = chat_of t @ (if so_log_brief opts then [x] else []))
    \<and> se_state (th_row t') = Running"
proof -
  have base: "live_run (u\<lparr>th_base := b, th_current := c\<rparr>) = live_run u" "run_ids (u\<lparr>th_base := b, th_current := c\<rparr>) = run_ids u"
    "chat_of (u\<lparr>th_base := b, th_current := c\<rparr>) = chat_of u" for b c u
    by (simp_all add: live_run_def run_ids_def chat_of_def)
  have lv: "live_run (u\<lparr>th_live := l\<rparr>) = map_option fst l" "run_ids (u\<lparr>th_live := l\<rparr>) = run_ids u"
    "chat_of (u\<lparr>th_live := l\<rparr>) = chat_of u" for u l
    by (simp_all add: live_run_def run_ids_def chat_of_def)
  show ?thesis
    using assms
    by (auto simp: startRun_def Let_def thread_simps base lv start_keeps_def registered_def unregistered_def
        split: if_split_asm option.split_asm)
qed


text \<open>
  A message into an idle thread: a start that is made registers the run; a refused one registers nothing.  The
  message is in the transcript at most once more, and once a run took it with a text not yet written down.
\<close>

definition idle_outcome :: "run_id \<Rightarrow> string \<Rightarrow> bool \<Rightarrow> thread \<Rightarrow> runtime_error + run_start \<Rightarrow> thread \<Rightarrow> bool" where
  "idle_outcome r x logged t res t' \<longleftrightarrow>
     start_keeps t t' \<and> (case res of Inl e \<Rightarrow> unregistered r t t' | Inr rs \<Rightarrow> registered r x rs t t')
     \<and> chat_of t' \<in> {chat_of t, chat_of t @ [x]}
     \<and> (logged \<and> se_state (th_row t) \<noteq> Draft \<longrightarrow> chat_of t' = chat_of t)
     \<and> (\<not> (logged \<and> se_state (th_row t) \<noteq> Draft) \<and> res \<in> range Inr \<longrightarrow> chat_of t' = chat_of t @ [x])
     \<and> se_state (th_row t') \<in> {se_state (th_row t), Running}"

lemma refused_idle: "idle_outcome r x logged t (Inl e) t"
  by (auto simp: idle_outcome_def start_keeps_def unregistered_def)

lemma patch_running:
  "patch_state now Running row = Inr row1 \<Longrightarrow> se_state row1 = Running"
  by (auto simp: patch_state_def split: if_split_asm)

lemma startRun_idle:
  assumes "startRun now sa run pv opts u = (res, t')" and "so_brief opts = Some x"
    and "run_ids u = run_ids t @ [rr_id run]" and "se_state (th_row u) = Running"
    and "live_run u = live_run t" and "th_settling u = th_settling t" and "th_turns u = th_turns t"
    and "th_current u = th_current t" and "start_keeps t u" and "chat_of u = chat_of t"
    and "so_log_brief opts \<longleftrightarrow> \<not> (logged \<and> se_state (th_row t) \<noteq> Draft)"
  shows "idle_outcome (rr_id run) x logged t res t'"
  using startRun_cases [OF assms(1-8) refl assms(9)] assms(10,11)
  by (auto simp: idle_outcome_def)


lemma promote_idle:
  assumes "promoteDraftAndStart now wv x t = (res, t')"
  shows "idle_outcome (wv_run wv) x logged t res t'"
proof -
  consider (no) e where "res = Inl e" "t' = t"
    | (content) e c where "res = Inl e" "t' = t\<lparr>th_content := c\<rparr>"
    | (start) run row1 c pv opts where "se_state (th_row t) = Draft" "rr_id run = wv_run wv" "so_brief opts = Some x" "so_log_brief opts" "se_state row1 = Running"
        "startRun now (wv_start wv) run pv opts
           (appendAndPublish None [StateChanged Draft Running False None] (t\<lparr>th_content := c, th_row := row1\<rparr>)
              \<lparr>th_runs := th_runs t @ [run]\<rparr>) = (res, t')"
  proof -
    have "th_runs (update_row f u) = th_runs u" "th_runs (appendAndPublish r es u) = th_runs u" for f u r es
      by (simp_all add: thread_defs)
    note keep = this
    define chosen where
      "chosen = (case truthy_opt (se_runner (th_row t)) of Some y \<Rightarrow> Some (y, se_instance (th_row t)) | None \<Rightarrow> wv_runner wv)"
    note def = promoteDraftAndStart_def [of now wv x t, unfolded Let_def, folded chosen_def]
    show thesis
    proof (cases "se_state (th_row t) \<noteq> Draft \<or> truthy_opt (se_node (th_row t)) = None \<or> chosen = None \<or> wv_provision wv \<in> range Inl")
      case True
      then have "\<exists>e. promoteDraftAndStart now wv x t = (Inl e, t)"
        unfolding def by (cases chosen; cases "wv_provision wv") (auto split: prod.split)
      with assms no show thesis by auto
    next
      case False
      then obtain runner inst pv where c: "se_state (th_row t) = Draft" "truthy_opt (se_node (th_row t)) \<noteq> None"
          "chosen = Some (runner, inst)" "wv_provision wv = Inr pv"
        by (cases "wv_provision wv") auto
      show thesis
      proof (cases "patch_state now Running (th_row t)")
        case (Inl e)
        with assms c show thesis unfolding def by (auto intro: content)
      next
        case (Inr row1)
        from assms c Inr show thesis
          unfolding def
          by (simp add: keep update_row_def) (rule start [rotated 5], assumption, simp_all add: new_run_def patch_running)
      qed
    qed
  qed
  then show ?thesis
  proof cases
    case no
    then show ?thesis by (simp add: refused_idle)
  next
    case content
    then show ?thesis
      by (auto simp: idle_outcome_def start_keeps_def unregistered_def live_run_def run_ids_def chat_of_def)
  next
    case start
    from start(6,3) show ?thesis
      unfolding start(2) [symmetric]
      by (rule startRun_idle) (auto simp: start start_keeps_def thread_defs live_run_def run_ids_def chat_of_def capEventPayload_def)
  qed
qed


lemma resume_idle:
  assumes "resumeByWriting now wv x logged t = (res, t')" and "se_state (th_row t) \<noteq> Draft"
  shows "idle_outcome (wv_run wv) x logged t res t'"
proof -
  define previous where "previous = (if th_runs t = [] then None else Some (last (th_runs t)))"
  define agent where "agent = Option.bind previous rr_agent"
  define resume where "resume = (if agent \<noteq> None \<and> wv_resumable wv then truthy_opt agent else None)"
  define summary where "summary = (if resume \<noteq> None then None else truthy_opt (resumeSummary wv t))"
  note def = resumeByWriting_def [of now wv x logged t, unfolded Let_def, folded previous_def, folded agent_def,
      folded resume_def, folded summary_def]
  consider (no) e where "res = Inl e" "t' = t"
    | (rows) e run where "rr_id run = wv_run wv" "res = Inl e" "t' = t\<lparr>th_runs := th_runs t @ [run]\<rparr>"
    | (start) run row1 pv opts where "rr_id run = wv_run wv" "so_brief opts = Some x" "so_log_brief opts \<longleftrightarrow> \<not> logged" "se_state row1 = Running"
        "startRun now (wv_start wv) run pv opts
           (appendAndPublish None [StateChanged (se_state (th_row t)) Running False None]
              (update_row (\<lambda>_. row1) (t\<lparr>th_runs := th_runs t @ [run]\<rparr>))) = (res, t')"
  proof (cases "truthy_opt (se_node (th_row t)) = None \<or> truthy_opt (se_runner (th_row t)) = None \<or> wv_provision wv \<in> range Inl
      \<or> resume = None \<and> summary = None \<and> \<not> contentIsHere t")
    case True
    then have "\<exists>e. resumeByWriting now wv x logged t = (Inl e, t)"
      unfolding def by (cases "truthy_opt (se_runner (th_row t))"; cases "wv_provision wv") auto
    with assms(1) no show thesis by auto
  next
    case False
    then obtain runner pv where c: "truthy_opt (se_node (th_row t)) \<noteq> None" "truthy_opt (se_runner (th_row t)) = Some runner"
        "wv_provision wv = Inr pv" "\<not> (resume = None \<and> summary = None \<and> \<not> contentIsHere t)"
      by (cases "wv_provision wv") auto
    show thesis
    proof (cases "patch_state now Running (th_row t)")
      case (Inl e)
      with assms(1) c show thesis
        unfolding def by (auto simp: new_run_def intro: rows [rotated])
    next
      case (Inr row1)
      from assms(1) c(1,4) show thesis
        unfolding def c(2,3) Inr option.case sum.case
        by (simp only: if_False simp_thms) (rule start [rotated 4], assumption, simp_all add: new_run_def patch_running [OF Inr])
    qed
  qed
  then show ?thesis
  proof cases
    case no
    then show ?thesis by (simp add: refused_idle)
  next
    case rows
    then show ?thesis
      by (auto simp: idle_outcome_def start_keeps_def unregistered_def live_run_def run_ids_def chat_of_def)
  next
    case start
    from start(5,2) show ?thesis
      unfolding start(1) [symmetric]
      by (rule startRun_idle) (auto simp: start assms(2) start_keeps_def thread_defs live_run_def run_ids_def chat_of_def capEventPayload_def)
  qed
qed

lemma idle_cases:
  assumes "send_into_idle now wv x logged t = (res, t')"
  shows "idle_outcome (wv_run wv) x logged t res t'"
  using assms promote_idle resume_idle refused_idle
  by (auto simp: send_into_idle_def split: session_state.split_asm)

end
