(* ===== verification/RuntimeInvariants.thy ===== *)
theory RuntimeInvariants
  imports RuntimeLaws
begin

text \<open>
  The invariants of the runtime machine: which run drives the thread and what is queued of it, what the operation
  under the lock waits for, how many messages a run has not answered, which messages are in the transcript and
  with the agents, and how the state of the record follows.
\<close>

declare live_run_None [simp]

section \<open>The queue\<close>

fun events_of :: "work list \<Rightarrow> (run_id \<times> sink_item) list" where
  "events_of [] = []"
| "events_of (WEvent r i # q) = (r, i) # events_of q"
| "events_of (w # q) = events_of q"

fun finishes :: "work list \<Rightarrow> run_id list" where
  "finishes [] = []"
| "finishes (WFinish r # q) = r # finishes q"
| "finishes (w # q) = finishes q"

fun chat_work :: "work list \<Rightarrow> work list" where
  "chat_work [] = []"
| "chat_work (WMessage r x # q) = WMessage r x # chat_work q"
| "chat_work (WAnswer r p # q) = WAnswer r p # chat_work q"
| "chat_work (w # q) = chat_work q"

lemma events_append [simp]: "events_of (xs @ ys) = events_of xs @ events_of ys"
  by (induction xs rule: events_of.induct) auto

lemma finishes_append [simp]: "finishes (xs @ ys) = finishes xs @ finishes ys"
  by (induction xs rule: finishes.induct) auto

lemma chat_work_append [simp]: "chat_work (xs @ ys) = chat_work xs @ chat_work ys"
  by (induction xs rule: chat_work.induct) auto

fun is_end :: "sink_item \<Rightarrow> bool" where
  "is_end (Canonical (RunEndedEv r why u)) = True"
| "is_end i = False"

fun chat_item :: "sink_item \<Rightarrow> string list" where
  "chat_item (Canonical e) = chat_in e"
| "chat_item i = []"

lemma suspend_reason_item [simp]:
  "is_end (withSuspendReason t i) = is_end i" "item_consumes (withSuspendReason t i) = item_consumes i"
  "chat_item (withSuspendReason t i) = chat_item i"
  by (auto simp: withSuspendReason_def item_consumes_def consumed_by_def
      split: sink_item.splits canonical_event.splits run_end_reason.splits)

lemma may_emit_item:
  "may_emit r i a \<Longrightarrow> \<not> is_end i \<and> chat_item i = [] \<and> ag_status a r \<in> {Taking, Ending}"
  by (auto simp: may_emit_def split: sink_item.splits canonical_event.splits)

section \<open>Who drives the thread\<close>

text \<open>
  With a live run: it is the current and the settling one, everything queued is its, and its end is queued
  exactly when it is over, as its last event.  Without one: no event is queued, and a run that still settles has
  the rest of its end at the head of the queue.
\<close>

definition tidy :: "run_id \<Rightarrow> (run_id \<times> sink_item) list \<Rightarrow> bool" where
  "tidy r es \<longleftrightarrow>
     list_all (\<lambda>p. fst p = r \<and> chat_item (snd p) = []) es \<and> list_all (\<lambda>p. \<not> is_end (snd p)) (butlast es)"

definition ended_in :: "(run_id \<times> sink_item) list \<Rightarrow> bool" where
  "ended_in es \<longleftrightarrow> list_ex (\<lambda>p. is_end (snd p)) es"

lemma ended_simps [simp]:
  "\<not> ended_in []" "ended_in (p # es) \<longleftrightarrow> is_end (snd p) \<or> ended_in es" "ended_in (es @ fs) \<longleftrightarrow> ended_in es \<or> ended_in fs"
  by (simp_all add: ended_in_def)

lemma tidy_Nil [simp]: "tidy r []"
  by (simp add: tidy_def)

lemma tidy_Cons: "tidy r (p # es) \<longleftrightarrow> fst p = r \<and> chat_item (snd p) = [] \<and> tidy r es \<and> (is_end (snd p) \<longrightarrow> es = [])"
  by (auto simp: tidy_def)

lemma tidy_snoc:
  assumes "tidy r es" and "\<not> ended_in es" and "chat_item i = []"
  shows "tidy r (es @ [(r, i)])"
  using assms by (simp add: tidy_def ended_in_def list_all_iff list_ex_iff)

definition live_inv :: "run_id \<Rightarrow> agent_status \<Rightarrow> run_id option \<Rightarrow> run_id option \<Rightarrow> work list \<Rightarrow> bool" where
  "live_inv r st current settling q \<longleftrightarrow>
     current = Some r \<and> settling = Some r \<and> finishes q = [] \<and> tidy r (events_of q) \<and> st \<noteq> Absent
     \<and> (st = Over \<longleftrightarrow> ended_in (events_of q))"

definition no_live_inv :: "run_id option \<Rightarrow> run_id option \<Rightarrow> work list \<Rightarrow> bool" where
  "no_live_inv current settling q \<longleftrightarrow>
     current = None \<and> events_of q = []
     \<and> (case settling of None \<Rightarrow> finishes q = [] | Some r \<Rightarrow> q \<noteq> [] \<and> hd q = WFinish r \<and> finishes (tl q) = [])"

definition runs_ok ::
    "(run_id \<Rightarrow> agent_status) \<Rightarrow> run_id option \<Rightarrow> run_id option \<Rightarrow> run_id option \<Rightarrow> work list \<Rightarrow> bool" where
  "runs_ok st live current settling q \<longleftrightarrow>
     (case live of Some r \<Rightarrow> live_inv r (st r) current settling q | None \<Rightarrow> no_live_inv current settling q)
     \<and> (\<forall>r. st r = Taking \<or> st r = Ending \<longrightarrow> live = Some r)"

lemma runs_ok_live:
  assumes "runs_ok st live current settling q" and "st r = Taking \<or> st r = Ending"
  shows "live = Some r" "live_inv r (st r) current settling q" "\<not> ended_in (events_of q)"
  using assms by (auto simp: runs_ok_def live_inv_def split: option.split_asm)

definition plain_work :: "work \<Rightarrow> bool" where
  "plain_work w \<longleftrightarrow> (case w of WEvent r i \<Rightarrow> \<not> is_end i | WFinish r \<Rightarrow> False | _ \<Rightarrow> True)"

lemma runs_ok_pop:
  assumes "runs_ok st live current settling (w # q)" and "plain_work w"
  shows "runs_ok st live current settling q"
  using assms
  by (cases w; cases live; cases settling) (auto simp: runs_ok_def live_inv_def no_live_inv_def tidy_Cons plain_work_def)

lemma runs_ok_push:
  assumes "runs_ok st live current settling q" and "chat_work [w] = [w]"
  shows "runs_ok st live current settling (q @ [w])"
  using assms
  by (cases w; cases live; cases settling) (auto simp: runs_ok_def live_inv_def no_live_inv_def hd_append)

lemma runs_ok_emit:
  assumes "runs_ok st live current settling q" and "st r = Taking \<or> st r = Ending" and "\<not> is_end i" and "chat_item i = []"
  shows "runs_ok st live current settling (q @ [WEvent r i])"
proof -
  have l: "live = Some r" and i: "live_inv r (st r) current settling q" "\<not> ended_in (events_of q)"
    by (rule runs_ok_live [OF assms(1,2)])+
  from i assms(3,4) have "live_inv r (st r) current settling (q @ [WEvent r i])"
    by (simp add: live_inv_def tidy_snoc)
  with assms(1) show ?thesis by (simp add: runs_ok_def l)
qed

lemma runs_ok_over:
  assumes "runs_ok st live current settling q" and "st r = Taking \<or> st r = Ending" and "is_end i" and "chat_item i = []"
  shows "runs_ok (st(r := Over)) live current settling (q @ [WEvent r i])"
proof -
  have l: "live = Some r" and i: "live_inv r (st r) current settling q" "\<not> ended_in (events_of q)"
    by (rule runs_ok_live [OF assms(1,2)])+
  from i assms(3,4) have "live_inv r Over current settling (q @ [WEvent r i])"
    by (simp add: live_inv_def tidy_snoc)
  with assms(1) show ?thesis by (simp add: runs_ok_def l)
qed

lemma runs_ok_ending:
  assumes "runs_ok st live current settling q" and "st r = Taking"
  shows "runs_ok (st(r := Ending)) live current settling q"
proof -
  have l: "live = Some r" and i: "live_inv r (st r) current settling q" "\<not> ended_in (events_of q)"
    by (rule runs_ok_live [OF assms(1) disjI1 [OF assms(2)]])+
  from i assms(2) have "live_inv r Ending current settling q"
    by (simp add: live_inv_def)
  with assms(1) show ?thesis by (simp add: runs_ok_def l)
qed

lemma runs_ok_end:
  assumes "runs_ok st live current settling (WEvent r i # q)" and "is_end i"
  shows "live = Some r" "current = Some r" "settling = Some r" "events_of q = []" "finishes q = []" "st r = Over"
    "runs_ok st None None (Some r) (WFinish r # q)" "runs_ok st None None None q"
proof -
  from assms show l: "live = Some r" "current = Some r" "settling = Some r" "events_of q = []" "finishes q = []" "st r = Over"
    by (auto simp: runs_ok_def live_inv_def no_live_inv_def tidy_Cons split: option.split_asm)
  from assms(1) have "st x \<noteq> Taking \<and> st x \<noteq> Ending" for x
    unfolding l(1) using l(6) by (cases "x = r") (auto simp: runs_ok_def)
  with l show "runs_ok st None None (Some r) (WFinish r # q)" "runs_ok st None None None q"
    by (simp_all add: runs_ok_def no_live_inv_def)
qed

lemma runs_ok_finish:
  assumes "runs_ok st live current settling (WFinish r # q)"
  shows "live = None" "current = None" "settling = Some r" "runs_ok st None None None q"
  using assms by (auto simp: runs_ok_def live_inv_def no_live_inv_def split: option.split_asm)

lemma runs_ok_idle:
  assumes "runs_ok st None current None q"
  shows "runs_ok st None None None q" "current = None"
  using assms by (auto simp: runs_ok_def no_live_inv_def)

lemma runs_ok_start:
  assumes "runs_ok st None current None q"
  shows "runs_ok (st(r := Taking)) (Some r) (Some r) (Some r) q"
  using assms by (auto simp: runs_ok_def live_inv_def no_live_inv_def)

definition runs_inv :: "machine \<Rightarrow> bool" where
  "runs_inv m \<longleftrightarrow>
     runs_ok (ag_status (mc_agents m)) (live_run (mc_thread m)) (th_current (mc_thread m)) (th_settling (mc_thread m))
       (th_queue (mc_thread m))"


section \<open>What the operations ask\<close>

text \<open>The parts of an operation leave the runs alone and add one piece of work at most, which they then wait for.\<close>

definition same_runs :: "thread \<Rightarrow> thread \<Rightarrow> bool" where
  "same_runs t t' \<longleftrightarrow>
     live_run t' = live_run t \<and> th_current t' = th_current t \<and> th_settling t' = th_settling t \<and> run_ids t' = run_ids t
     \<and> chat_of t' = chat_of t"

definition work_added :: "task \<Rightarrow> work list \<Rightarrow> work list \<Rightarrow> bool" where
  "work_added k q q' \<longleftrightarrow>
     (case k of
        Logging x n r \<Rightarrow> q' = q @ [WMessage r x]
      | Answering r \<Rightarrow> \<exists>p. q' = q @ [WAnswer r p]
      | Draining w n \<Rightarrow> q' = q \<and> n \<le> length q
      | _ \<Rightarrow> q' = q)"

lemma send_to_live_asks:
  "send_to_live now x logged n r t = (k, t') \<Longrightarrow>
     same_runs t t' \<and> work_added k (th_queue t) (th_queue t') \<and> th_turns t' = Suc (th_turns t)
     \<and> th_closing t' = th_closing t \<and> th_row t' = th_row t"
  by (auto simp: send_to_live_def Let_def same_runs_def work_added_def thread_simps split: if_split_asm)

text \<open>The waits of a close, and of a continuation that closes.\<close>

definition closes :: "wait \<Rightarrow> bool" where
  "closes w \<longleftrightarrow> (case w of AfterClose \<Rightarrow> True | AfterContinue before \<Rightarrow> before \<noteq> Closed \<and> before \<noteq> Archived | _ \<Rightarrow> False)"

definition after_close :: "task \<Rightarrow> bool" where
  "after_close k \<longleftrightarrow> (case k of Closing w r \<Rightarrow> closes w | Draining w n \<Rightarrow> closes w | _ \<Rightarrow> False)"

lemma after_close_simps [simp]:
  "\<not> after_close Idle" "\<not> after_close (Sending x l n)" "\<not> after_close (Logging x n r)" "\<not> after_close (Handing x n r)"
  "\<not> after_close (Settling x l n r)" "\<not> after_close (Answering r)" "after_close (Closing w r) \<longleftrightarrow> closes w"
  "after_close (Draining w n) \<longleftrightarrow> closes w" "\<not> after_close (HandingOff loc)" "\<not> after_close (Finished e)"
  by (simp_all add: after_close_def)

lemma closes_simps [simp]:
  "closes AfterClose" "closes (AfterContinue before) \<longleftrightarrow> before \<noteq> Closed \<and> before \<noteq> Archived" "\<not> closes (AfterSend x)"
  "\<not> closes AfterAnswer" "\<not> closes AfterStop" "\<not> closes (AfterHandoffStop loc)" "\<not> closes AfterHandoffEnd"
  by (simp_all add: closes_def)

text \<open>The turns stay, only closing sets its mark, and the state does not become running or a draft.\<close>

definition asks :: "thread \<Rightarrow> task \<Rightarrow> thread \<Rightarrow> bool" where
  "asks t k t' \<longleftrightarrow>
     same_runs t t' \<and> work_added k (th_queue t) (th_queue t') \<and> th_turns t' = th_turns t
     \<and> (th_closing t' \<longrightarrow> th_closing t \<or> live_run t \<noteq> None \<and> (se_state (th_row t') = Running \<longrightarrow> after_close k))
     \<and> (se_state (th_row t') \<in> {Running, Draft} \<longrightarrow> se_state (th_row t') = se_state (th_row t))"

lemma asks_refused: "asks t (Finished e) t"
  by (simp add: asks_def same_runs_def work_added_def)

lemma close_finish_asks:
  "close_finish now t = (k, t') \<Longrightarrow> asks t k t' \<and> (\<exists>e. k = Finished e) \<and> se_state (th_row t') \<noteq> Running"
  by (auto simp: close_finish_def asks_def same_runs_def work_added_def thread_simps patch_state_def isAllowedSessionTransition_def
      split: sum.split_asm if_split_asm)

lemma close_begin_asks:
  assumes "close_begin now t = (k, t')"
  shows "asks t k t' \<and> (case k of Closing w r \<Rightarrow> w = AfterClose | Finished e \<Rightarrow> se_state (th_row t') \<noteq> Running | _ \<Rightarrow> False)"
proof (cases "th_live t")
  case None
  with assms close_finish_asks show ?thesis by (fastforce simp: close_begin_def)
next
  case (Some l)
  with assms live_run_None [of t] show ?thesis
    by (cases l) (auto simp del: live_run_None simp: close_begin_def asks_def same_runs_def work_added_def thread_simps)
qed

lemma with_file_state [simp]: "se_state (with_file env row) = se_state row"
  by (simp add: with_file_def)

lemma content_frames [thread_simps]:
  "live_run (t\<lparr>th_content := c\<rparr>) = live_run t" "run_ids (t\<lparr>th_content := c\<rparr>) = run_ids t" "chat_of (t\<lparr>th_content := c\<rparr>) = chat_of t"
  by (simp_all add: live_run_def run_ids_def chat_of_def del: live_run_None)

lemma continue_finish_asks:
  "continue_finish now env before t = (k, t') \<Longrightarrow>
     asks t k t' \<and> (\<exists>e. k = Finished e) \<and> (before \<noteq> Closed \<and> before \<noteq> Archived \<longrightarrow> se_state (th_row t') \<noteq> Running)"
  by (auto simp: continue_finish_def Let_def asks_def same_runs_def work_added_def thread_simps patch_state_def isAllowedSessionTransition_def
      split: sum.split_asm if_split_asm)

lemma continue_begin_asks:
  assumes "continue_begin now env here expect pv t = (k, t')"
  shows "asks t k t' \<and> (case k of Closing w r \<Rightarrow> \<exists>before. w = AfterContinue before | Finished e \<Rightarrow> True | _ \<Rightarrow> False)"
proof (cases "continue_refusal here expect pv t")
  case (Some e)
  with assms asks_refused show ?thesis by (auto simp: continue_begin_def)
next
  case n: None
  show ?thesis
  proof (cases "th_live t")
    case None
    with assms n continue_finish_asks show ?thesis by (fastforce simp: continue_begin_def)
  next
    case (Some l)
    with assms n live_run_None [of t] show ?thesis
      by (cases l) (auto simp del: live_run_None simp: continue_begin_def asks_def same_runs_def work_added_def thread_simps)
  qed
qed

lemma interrupt_asks:
  assumes "interrupt_begin now w k0 t = (k, t')" and "asks t k0 t"
  shows "asks t k t' \<and> (k = k0 \<or> k = Draining w (length (th_queue t)))"
  using assms by (auto simp: interrupt_begin_def Let_def asks_def same_runs_def work_added_def thread_simps split: option.split_asm)

lemma answer_asks:
  assumes "answer_begin now i d t = (k, t')"
  shows "asks t k t' \<and> (case k of Answering r \<Rightarrow> True | Draining w n \<Rightarrow> w = AfterAnswer | Finished e \<Rightarrow> True | _ \<Rightarrow> False)"
  using assms
  by (auto simp: answer_begin_def Let_def asks_def same_runs_def work_added_def thread_simps
      split: option.split_asm if_split_asm prod.split_asm)

lemma suspend_asks: "asks t (Finished e) (suspendServerSide now env reason w t)"
  by (auto simp: asks_def same_runs_def work_added_def thread_simps)

lemma handoff_end_asks:
  assumes "handoff_end now env locale t = (k, t')"
  shows "asks t k t' \<and> (case k of Closing w r \<Rightarrow> w = AfterHandoffEnd | Finished e \<Rightarrow> True | _ \<Rightarrow> False)"
  using assms suspend_asks [of t _ now env ByHandoff False]
  by (auto simp: handoff_end_def endRunWithReason_def Let_def handoff_answer_def asks_def same_runs_def work_added_def thread_simps
      split: option.split_asm)

lemma handoff_begin_asks:
  assumes "handoff_begin now env here locale t = (k, t')"
  shows "asks t k t'
    \<and> (case k of Draining w n \<Rightarrow> w = AfterHandoffStop locale | HandingOff l \<Rightarrow> True | Finished e \<Rightarrow> True | _ \<Rightarrow> False)"
proof -
  have "asks t (HandingOff locale) t"
    by (simp add: asks_def same_runs_def work_added_def)
  note interrupt = interrupt_asks [OF _ this, of now "AfterHandoffStop locale" k t']
  show ?thesis
    using assms suspend_asks [of t _ now env ByHandoff True] asks_refused [of t] interrupt
    by (auto simp: handoff_begin_def Let_def handoff_answer_def split: if_split_asm)
qed

text \<open>Which waits belong to which request.\<close>

definition fits :: "request option \<Rightarrow> task \<Rightarrow> bool" where
  "fits q k \<longleftrightarrow>
     (case q of
        None \<Rightarrow> k = Idle
      | Some (ReqSend x) \<Rightarrow>
          (case k of
             Sending y l n \<Rightarrow> y = x | Logging y n r \<Rightarrow> y = x | Handing y n r \<Rightarrow> y = x | Settling y l n r \<Rightarrow> y = x
           | Draining w n \<Rightarrow> w = AfterSend x | Finished e \<Rightarrow> True | _ \<Rightarrow> False)
      | Some _ \<Rightarrow>
          (case k of
             Answering r \<Rightarrow> True | Closing w r \<Rightarrow> w \<in> {AfterClose, AfterHandoffEnd} \<union> range AfterContinue
           | Draining w n \<Rightarrow> (\<forall>x. w \<noteq> AfterSend x) | HandingOff l \<Rightarrow> True | Finished e \<Rightarrow> True | _ \<Rightarrow> False))"

lemma begin_asks:
  assumes "begin_request now env here q t = (k, t')"
  shows "asks t k t' \<and> fits (Some q) k \<and> (\<forall>x. q = ReqSend x \<longrightarrow> k = Sending x False 0)"
proof (cases q)
  case (ReqSend x)
  with assms show ?thesis
    by (auto simp: begin_request_def asks_def same_runs_def work_added_def fits_def)
next
  case (ReqAnswer i d)
  with assms answer_asks [of now i d t k t'] show ?thesis
    by (auto simp: begin_request_def fits_def split: task.split_asm)
next
  case ReqStop
  with assms interrupt_asks [OF _ asks_refused, of now AfterStop None t k t'] show ?thesis
    by (auto simp: begin_request_def fits_def)
next
  case ReqClose
  with assms close_begin_asks [of now t k t'] show ?thesis
    by (auto simp: begin_request_def fits_def split: task.split_asm)
next
  case (ReqHandoff l)
  with assms handoff_begin_asks [of now env here l t k t'] show ?thesis
    by (auto simp: begin_request_def fits_def split: task.split_asm)
next
  case (ReqContinue expect pv)
  with assms continue_begin_asks [of now env here expect pv t k t'] show ?thesis
    by (auto simp: begin_request_def fits_def split: task.split_asm)
qed

lemma drained_asks:
  assumes "drained now env w t = (k, t')"
  shows "asks t k t' \<and> (case k of HandingOff l \<Rightarrow> w = AfterHandoffStop l | Finished e \<Rightarrow> True | _ \<Rightarrow> False)
    \<and> (closes w \<longrightarrow> se_state (th_row t') \<noteq> Running) \<and> (w = AfterSend x \<longrightarrow> k = Finished None \<and> t' = t)"
proof (cases w)
  case AfterClose
  with assms close_finish_asks [of now t k t'] show ?thesis by (auto simp: drained_def)
next
  case (AfterContinue before)
  with assms continue_finish_asks [of now env before t k t'] show ?thesis by (auto simp: drained_def)
qed (use assms asks_refused [of t] in \<open>auto simp: drained_def handoff_answer_def asks_def same_runs_def work_added_def\<close>)


section \<open>The runs stay in order\<close>

lemma work_added_run_inv:
  assumes "runs_ok st live current settling q" and "work_added k q q'"
  shows "runs_ok st live current settling q'"
  using assms by (cases k) (auto simp: work_added_def intro: runs_ok_push)

lemma close_run_inv:
  "runs_ok (ag_status a) live current settling q \<Longrightarrow> runs_ok (ag_status (agent_close r a)) live current settling q"
  by (simp add: agent_close_def runs_ok_ending)

lemma told_run_inv:
  "runs_ok (ag_status a) live current settling q \<Longrightarrow> runs_ok (ag_status (agent_told k a)) live current settling q"
  by (cases k) (simp_all add: agent_told_def close_run_inv)

lemma asks_runs:
  assumes "asks t k t'" and "runs_ok st (live_run t) (th_current t) (th_settling t) (th_queue t)"
  shows "runs_ok st (live_run t') (th_current t') (th_settling t') (th_queue t')"
  using assms(1) work_added_run_inv [OF assms(2), of k "th_queue t'"] by (simp add: asks_def same_runs_def)

lemma send_agents: "agent_send r x a = Some a' \<Longrightarrow> ag_status a' = ag_status a"
  by (auto simp: agent_send_def split: if_split_asm)

lemma run_settles_settled:
  assumes "th_settling (mc_thread m) = Some r"
  shows "run_settles r m = m\<lparr>mc_thread := (mc_thread m)\<lparr>th_settling := None\<rparr>, mc_task := wake r (mc_task m)\<rparr>"
  using assms by (simp add: run_settles_def settleRun_def)

lemma settling_frames [thread_simps]:
  "live_run (t\<lparr>th_settling := s\<rparr>) = live_run t" "run_ids (t\<lparr>th_settling := s\<rparr>) = run_ids t"
  "chat_of (t\<lparr>th_settling := s\<rparr>) = chat_of t"
  "live_run (t\<lparr>th_queue := q\<rparr>) = live_run t" "run_ids (t\<lparr>th_queue := q\<rparr>) = run_ids t" "chat_of (t\<lparr>th_queue := q\<rparr>) = chat_of t"
  by (simp_all add: live_run_def run_ids_def chat_of_def del: live_run_None)

lemma endWith_frames [thread_simps]:
  "live_run (endRunWithReason reason loc r t) = live_run t" "th_current (endRunWithReason reason loc r t) = th_current t"
  "th_settling (endRunWithReason reason loc r t) = th_settling t" "th_queue (endRunWithReason reason loc r t) = th_queue t"
  "th_closing (endRunWithReason reason loc r t) = th_closing t" "run_ids (endRunWithReason reason loc r t) = run_ids t"
  "th_turns (endRunWithReason reason loc r t) = th_turns t" "chat_of (endRunWithReason reason loc r t) = chat_of t"
  "th_row (endRunWithReason reason loc r t) = th_row t"
  by (simp_all add: endRunWithReason_def thread_simps)

lemma end_item:
  assumes "runs_inv m" and "th_queue (mc_thread m) = WEvent r (Canonical (RunEndedEv r' why u)) # q"
  shows "live_run (mc_thread m) = Some r" "th_current (mc_thread m) = Some r" "th_settling (mc_thread m) = Some r"
    "events_of q = []" "finishes q = []" "ag_status (mc_agents m) r = Over"
    "runs_ok (ag_status (mc_agents m)) None None (Some r) (WFinish r # q)" "runs_ok (ag_status (mc_agents m)) None None None q"
  by (rule runs_ok_end [OF assms(1) [unfolded runs_inv_def assms(2)]], simp)+

lemma finish_item:
  assumes "runs_inv m" and "th_queue (mc_thread m) = WFinish r # q"
  shows "live_run (mc_thread m) = None" "th_current (mc_thread m) = None" "th_settling (mc_thread m) = Some r"
    "runs_ok (ag_status (mc_agents m)) None None None q"
  by (rule runs_ok_finish [OF assms(1) [unfolded runs_inv_def assms(2)]])+

lemma live_item:
  assumes "runs_inv m" and "ag_status (mc_agents m) r = Taking \<or> ag_status (mc_agents m) r = Ending"
  shows "live_run (mc_thread m) = Some r" "th_current (mc_thread m) = Some r" "th_settling (mc_thread m) = Some r"
  using runs_ok_live [OF assms(1) [unfolded runs_inv_def] assms(2)] by (auto simp: live_inv_def)

lemma runs_inv_step:
  assumes "machine_step m m'" and i: "runs_inv m"
  shows "runs_inv m'"
  using assms(1)
proof cases
  case (Request now env here q k t)
  with i asks_runs [of "mc_thread m" k t] begin_asks [of now env here q "mc_thread m" k t] show ?thesis
    by (simp add: runs_inv_def told_run_inv)
next
  case (SendLive x l n r saved now k t)
  with i work_added_run_inv send_to_live_asks [of now x l n r "mc_thread m" k t] show ?thesis
    by (auto simp: runs_inv_def same_runs_def)
next
  case (SendIdle x l n wv now)
  obtain res t where s: "send_into_idle now wv x l (mc_thread m) = (res, t)" by fastforce
  with idle_cases have o: "idle_outcome (wv_run wv) x l (mc_thread m) res t" by blast
  from i SendIdle(3,4) have j: "runs_ok (ag_status (mc_agents m)) None (th_current (mc_thread m)) None (th_queue (mc_thread m))"
    by (simp add: runs_inv_def)
  from o runs_ok_start [OF j] runs_ok_idle [OF j] SendIdle show ?thesis
    by (cases res) (auto simp: runs_inv_def start_outcome_def s Let_def idle_outcome_def start_keeps_def registered_def
        unregistered_def agent_starts_def)
next
  case (Hand x n r k a t)
  with i show ?thesis
    by (auto simp: runs_inv_def hand_over_def Let_def thread_simps send_agents split: option.split_asm)
next
  case (HandFails x n r)
  with i show ?thesis by (simp add: runs_inv_def thread_simps)
next
  case (Drained w now env k t)
  with i asks_runs [of "mc_thread m" k t] drained_asks [of now env w "mc_thread m" k t] show ?thesis
    by (simp add: runs_inv_def)
next
  case (HandOff loc now env k t)
  with i asks_runs [of "mc_thread m" k t] handoff_end_asks [of now env loc "mc_thread m" k t] show ?thesis
    by (simp add: runs_inv_def told_run_inv)
next
  case (QueueEvent r e q now)
  then have "plain_work (WEvent r (Canonical e))" by (cases e) (auto simp: plain_work_def)
  with i runs_ok_pop [of "ag_status (mc_agents m)"] QueueEvent show ?thesis
    by (auto simp: runs_inv_def dequeued_def thread_simps)
next
  case (QueueDelta r d q)
  with i runs_ok_pop [of "ag_status (mc_agents m)" _ _ _ "WEvent r (Delta d)"] show ?thesis
    by (auto simp: runs_inv_def dequeued_def thread_simps plain_work_def)
next
  case (QueueMessage r x q)
  with i runs_ok_pop [of "ag_status (mc_agents m)" _ _ _ "WMessage r x"] show ?thesis
    by (auto simp: runs_inv_def dequeued_def thread_simps plain_work_def)
next
  case (QueueMessageFails r x q)
  with i runs_ok_pop [of "ag_status (mc_agents m)" _ _ _ "WMessage r x"] show ?thesis
    by (auto simp: runs_inv_def dequeued_def thread_simps plain_work_def)
next
  case (QueueAnswer r p q t)
  with i runs_ok_pop [of "ag_status (mc_agents m)" _ _ _ "WAnswer r p"] show ?thesis
    by (auto simp: runs_inv_def dequeued_def thread_simps plain_work_def)
next
  case (QueueEnd r r' why u q t now)
  then show ?thesis
    using end_item [OF i QueueEnd(2)] by (simp add: runs_inv_def thread_simps)
next
  case (QueueEndFails r r' why u q t now)
  then show ?thesis
    using end_item [OF i QueueEndFails(2)] by (simp add: runs_inv_def thread_simps run_settles_settled dequeued_def)
next
  case (QueueEndLate r r' why u q t now)
  then show ?thesis
    using end_item [OF i QueueEndLate(2)] by (simp add: isCurrentRun_def)
next
  case (QueueFinish r q t now env failed)
  then show ?thesis
    using finish_item [OF i QueueFinish(2)] by (simp add: runs_inv_def thread_simps run_settles_settled dequeued_def)
next
  case (AgentEmits r i)
  with assms(2) may_emit_item [of r i "mc_agents m"] show ?thesis
    by (auto simp: runs_inv_def agent_emits_def makeSink_def thread_simps intro!: runs_ok_emit)
next
  case (AgentFails r)
  with i show ?thesis by (simp add: runs_inv_def runs_ok_ending)
next
  case (AgentEnds r why u)
  have "is_end (withSuspendReason (mc_thread m) (Canonical (RunEndedEv r why u)))" by simp
  with AgentEnds i show ?thesis
    by (auto simp: runs_inv_def makeSink_def thread_simps simp del: suspend_reason_item(1) intro!: runs_ok_over)
next
  case (SweepEnd tick idle ms k t)
  with i show ?thesis
    by (auto simp: runs_inv_def sweep_end_def thread_simps close_run_inv split: option.split_asm if_split_asm)
next
  case Rename
  with i show ?thesis by (auto simp: runs_inv_def renameThread_def Let_def thread_simps)
next
  case SetModel
  with i show ?thesis by (auto simp: runs_inv_def setModelAndEffort_def thread_simps)
qed (use i in \<open>simp_all add: runs_inv_def\<close>)


section \<open>What an operation waits for\<close>

text \<open>
  A message or an answer is queued exactly while its operation waits for it.  Who waits for a run to settle waits
  for the one that is settling; who drains waits for no more than there is.
\<close>

definition waits :: "run_id option \<Rightarrow> run_id option \<Rightarrow> work list \<Rightarrow> task \<Rightarrow> bool" where
  "waits live settling q k \<longleftrightarrow>
     (case k of
        Sending x l n \<Rightarrow> n < MAX_DELIVERY_ATTEMPTS \<and> chat_work q = []
      | Logging x n r \<Rightarrow> n < MAX_DELIVERY_ATTEMPTS \<and> chat_work q = [WMessage r x] \<and> live \<in> {None, Some r}
      | Handing x n r \<Rightarrow> n < MAX_DELIVERY_ATTEMPTS \<and> chat_work q = [] \<and> live \<in> {None, Some r}
      | Settling x l n r \<Rightarrow> n < MAX_DELIVERY_ATTEMPTS \<and> chat_work q = [] \<and> settling = Some r
      | Answering r \<Rightarrow> \<exists>p. chat_work q = [WAnswer r p]
      | Draining w n \<Rightarrow> n \<le> length q \<and> chat_work q = []
      | _ \<Rightarrow> chat_work q = [])"

definition sweep_waits :: "work list \<Rightarrow> sweep \<Rightarrow> bool" where
  "sweep_waits q w \<longleftrightarrow> (case w of SweepDraining n \<Rightarrow> n \<le> length q | _ \<Rightarrow> True)"

definition tasks_inv :: "machine \<Rightarrow> bool" where
  "tasks_inv m \<longleftrightarrow>
     fits (mc_request m) (mc_task m)
     \<and> waits (live_run (mc_thread m)) (th_settling (mc_thread m)) (th_queue (mc_thread m)) (mc_task m)
     \<and> sweep_waits (th_queue (mc_thread m)) (mc_sweep m)"

lemma waits_event:
  "waits live settling q k \<Longrightarrow> waits live settling (q @ [WEvent r i]) k"
  "sweep_waits q w \<Longrightarrow> sweep_waits (q @ [WEvent r i]) w"
  by (auto simp: waits_def sweep_waits_def split: task.splits sweep.splits)

lemma waits_pop:
  assumes "waits live settling (w # q) k" and "chat_work [w] = []"
  shows "waits live settling q (item_done k)"
proof -
  from assms(2) have "chat_work (w # q) = chat_work q" by (cases w) auto
  with assms(1) show ?thesis by (cases k) (auto simp: waits_def)
qed

lemma sweep_waits_pop: "sweep_waits (w # q) k \<Longrightarrow> sweep_waits q (sweep_item_done k)"
  by (cases k) (auto simp: sweep_waits_def)

lemma waits_settled:
  assumes "waits live (Some r) q k"
  shows "waits live None q (wake r k)"
  using assms by (cases k) (auto simp: waits_def)

lemma waits_no_live: "waits live settling q k \<Longrightarrow> waits None settling q k"
  by (cases k) (auto simp: waits_def)

lemma waits_ended:
  assumes "waits live (Some r) (w # q) k" and "chat_work [w] = []"
  shows "waits None None q (wake r (item_done k))"
  by (rule waits_no_live [OF waits_settled [OF waits_pop [OF assms]]])

lemma waits_head: "chat_work (w # q) = chat_work (w' # q) \<Longrightarrow> waits live settling (w # q) k \<Longrightarrow> waits live settling (w' # q) k"
  by (cases k) (auto simp: waits_def)

lemma fits_moves:
  "fits q k \<Longrightarrow> fits q (item_done k)" "fits q k \<Longrightarrow> fits q (wake r k)" "fits q k \<Longrightarrow> fits q (logged_now k)"
  "fits q k \<Longrightarrow> fits q (answered_now n k)"
proof -
  show "fits q k \<Longrightarrow> fits q (item_done k)" "fits q k \<Longrightarrow> fits q (wake r k)" "fits q k \<Longrightarrow> fits q (logged_now k)"
    by (cases k; simp add: fits_def split: option.splits request.splits)+
  show "fits q k \<Longrightarrow> fits q (answered_now n k)"
    by (cases k) (auto simp: fits_def split: option.splits request.splits)
qed

text \<open>The sender's tasks.\<close>

definition sender :: "task \<Rightarrow> bool" where
  "sender k \<longleftrightarrow> (case k of Sending x l n \<Rightarrow> 0 < n | Logging x n r \<Rightarrow> True | Handing x n r \<Rightarrow> True | Settling x l n r \<Rightarrow> True | _ \<Rightarrow> False)"

lemma asks_waits:
  assumes "asks t k t'" and "\<not> sender k" and "chat_work (th_queue t) = []"
  shows "waits (live_run t') (th_settling t') (th_queue t') k"
  using assms by (cases k) (auto simp: asks_def work_added_def waits_def sender_def MAX_DELIVERY_ATTEMPTS_def)

lemma asks_sweep:
  assumes "asks t k t'" and "sweep_waits (th_queue t) w"
  shows "sweep_waits (th_queue t') w"
  using assms by (cases k) (auto simp: asks_def work_added_def sweep_waits_def split: sweep.split)

lemma fits_sender: "fits (Some q) k \<Longrightarrow> (\<And>x. q \<noteq> ReqSend x) \<Longrightarrow> \<not> sender k"
  by (auto simp: fits_def sender_def split: request.split_asm task.split_asm)

lemma deliver_waits:
  assumes "chat_work (th_queue t) = []" and "k = deliverAfterRunEnd x n l t"
  shows "waits (live_run t) (th_settling t) (th_queue t) k \<and> (\<forall>q. q = Some (ReqSend x) \<longrightarrow> fits q k)"
  using assms by (auto simp: deliverAfterRunEnd_def waits_def fits_def split: option.split)


lemma fits_iff:
  "fits q Idle \<longleftrightarrow> q = None" "fits q (Sending x l n) \<longleftrightarrow> q = Some (ReqSend x)" "fits q (Logging x n r) \<longleftrightarrow> q = Some (ReqSend x)"
  "fits q (Handing x n r) \<longleftrightarrow> q = Some (ReqSend x)" "fits q (Settling x l n r) \<longleftrightarrow> q = Some (ReqSend x)"
  "fits q (Draining (AfterSend x) n) \<longleftrightarrow> q = Some (ReqSend x)" "fits q (Finished e) \<longleftrightarrow> q \<noteq> None"
  by (auto simp: fits_def split: option.splits request.splits)

lemma send_waits:
  assumes "send_to_live now x l n r t = (k, t')" and "chat_work (th_queue t) = []" and "n < MAX_DELIVERY_ATTEMPTS"
    and "live_run t = Some r"
  shows "waits (live_run t') (th_settling t') (th_queue t') k \<and> fits (Some (ReqSend x)) k"
  using assms by (auto simp: send_to_live_def Let_def waits_def fits_iff thread_simps split: if_split_asm)

lemma fits_Closing: "fits q (Closing w r) \<Longrightarrow> fits q (Draining w n)"
  by (auto simp: fits_def split: option.splits request.splits)

lemma fits_Draining:
  assumes "fits q (Draining w n)" and "drained now env w t = (k, t')"
  shows "fits q k \<and> \<not> sender k"
  using assms drained_asks [OF assms(2)]
  by (auto simp: fits_def sender_def split: option.splits request.splits task.splits)

lemma fits_HandingOff:
  assumes "fits q (HandingOff loc)" and "handoff_end now env loc t = (k, t')"
  shows "fits q k \<and> \<not> sender k"
  using assms handoff_end_asks [OF assms(2)]
  by (auto simp: fits_def sender_def split: option.splits request.splits task.splits)

lemma tasks_inv_step:
  assumes "machine_step m m'" and r: "runs_inv m" and i: "tasks_inv m"
  shows "tasks_inv m'"
  using assms(1)
proof cases
  case (Request now env here q k t)
  note a = begin_asks [OF Request(3)]
  have "\<not> sender k"
    using a fits_sender [of q k] by (cases q) (auto simp: sender_def)
  with Request i a asks_waits [of "mc_thread m" k t] asks_sweep [of "mc_thread m" k t] show ?thesis
    by (simp add: tasks_inv_def waits_def)
next
  case (Reply e q)
  with i show ?thesis by (simp add: tasks_inv_def waits_def fits_iff)
next
  case (SendLive x l n r saved now k t)
  from SendLive(3) have "live_run (mc_thread m) = Some r" by (simp add: live_run_def)
  with SendLive i send_waits [OF SendLive(4)] send_to_live_asks [OF SendLive(4)] show ?thesis
    by (auto simp: tasks_inv_def waits_def [of _ _ _ "Sending x l n"] fits_iff sweep_waits_def work_added_def
        split: sweep.split task.split_asm)
next
  case (SendSettling x l n)
  with i deliver_waits [of "mc_thread m" _ x n l] show ?thesis
    by (auto simp: tasks_inv_def waits_def [of _ _ _ "Sending x l n"] fits_iff)
next
  case (SendIdle x l n wv now)
  obtain res t where s: "send_into_idle now wv x l (mc_thread m) = (res, t)" by fastforce
  with idle_cases have o: "idle_outcome (wv_run wv) x l (mc_thread m) res t" by blast
  with i SendIdle s show ?thesis
    by (cases res) (auto simp: tasks_inv_def start_outcome_def Let_def idle_outcome_def start_keeps_def fits_iff waits_def)
next
  case (Hand x n r k a t)
  with i deliver_waits [of "dropTurnInFlight 1 (mc_thread m)" _ x n True] show ?thesis
    by (auto simp: tasks_inv_def hand_over_def Let_def thread_simps fits_iff waits_def [of _ _ _ "Handing x n r"]
        waits_def [of _ _ _ "Finished None"] split: option.split_asm)
next
  case (HandFails x n r)
  with i show ?thesis by (simp add: tasks_inv_def thread_simps fits_iff waits_def)
next
  case (CloseReturns w r)
  with i show ?thesis by (auto simp: tasks_inv_def waits_def intro: fits_Closing)
next
  case (Drained w now env k t)
  with i drained_asks [OF Drained(3)] fits_Draining [OF _ Drained(3)] asks_waits [of "mc_thread m" k t]
    asks_sweep [of "mc_thread m" k t]
  show ?thesis by (auto simp: tasks_inv_def waits_def [of _ _ _ "Draining w 0"])
next
  case (HandOff loc now env k t)
  with i handoff_end_asks [OF HandOff(3)] fits_HandingOff [OF _ HandOff(3)] asks_waits [of "mc_thread m" k t]
    asks_sweep [of "mc_thread m" k t]
  show ?thesis by (auto simp: tasks_inv_def waits_def [of _ _ _ "HandingOff loc"])
next
  case (QueueEvent r e q now)
  with i waits_pop [of _ _ "WEvent r (Canonical e)" q] sweep_waits_pop [of "WEvent r (Canonical e)" q] show ?thesis
    by (auto simp: tasks_inv_def dequeued_def thread_simps fits_moves)
next
  case (QueueDelta r d q)
  with i waits_pop [of _ _ "WEvent r (Delta d)" q] sweep_waits_pop [of "WEvent r (Delta d)" q] show ?thesis
    by (auto simp: tasks_inv_def dequeued_def thread_simps fits_moves)
next
  case (QueueMessage r x q)
  with i sweep_waits_pop [of "WMessage r x" q] show ?thesis
    by (cases "mc_task m") (auto simp: tasks_inv_def dequeued_def thread_simps fits_iff waits_def)
next
  case (QueueMessageFails r x q)
  with i sweep_waits_pop [of "WMessage r x" q] show ?thesis
    by (cases "mc_task m") (auto simp: tasks_inv_def dequeued_def thread_simps fits_iff waits_def)
next
  case (QueueAnswer r p q t)
  with i sweep_waits_pop [of "WAnswer r p" q] show ?thesis
    by (cases "mc_task m") (auto simp: tasks_inv_def dequeued_def thread_simps fits_moves waits_def
        fits_moves(4) [of _ "Answering _", simplified])
next
  case (QueueEnd r r' why u q t now)
  have w: "waits (live_run (mc_thread m)) (th_settling (mc_thread m)) (WEvent r (Canonical (RunEndedEv r' why u)) # q) (mc_task m)"
    and s: "sweep_waits (WEvent r (Canonical (RunEndedEv r' why u)) # q) (mc_sweep m)" and f: "fits (mc_request m) (mc_task m)"
    using i by (simp_all add: tasks_inv_def QueueEnd(2))
  have "waits None (th_settling (mc_thread m)) (WFinish r # q) (mc_task m)"
    by (rule waits_head [OF _ waits_no_live [OF w]]) simp
  moreover have "sweep_waits (WFinish r # q) (mc_sweep m)"
    using s by (cases "mc_sweep m") (simp_all add: sweep_waits_def)
  ultimately show ?thesis
    using f end_item(2) [OF r QueueEnd(2)] QueueEnd by (simp add: tasks_inv_def thread_simps)
next
  case (QueueEndFails r' r'' why u q t now)
  with i end_item [OF r QueueEndFails(2)] waits_ended [of "Some r'" r' "WEvent r' (Canonical (RunEndedEv r'' why u))" q]
    sweep_waits_pop [of "WEvent r' (Canonical (RunEndedEv r'' why u))" q]
  show ?thesis
    by (auto simp: tasks_inv_def thread_simps run_settles_settled dequeued_def fits_moves)
next
  case (QueueEndLate r' r'' why u q t now)
  then show ?thesis
    using end_item [OF r QueueEndLate(2)] by (simp add: isCurrentRun_def)
next
  case (QueueFinish r' q t now env failed)
  with i finish_item [OF r QueueFinish(2)] waits_ended [of None r' "WFinish r'" q] sweep_waits_pop [of "WFinish r'" q]
  show ?thesis
    by (auto simp: tasks_inv_def thread_simps run_settles_settled dequeued_def fits_moves)
next
  case (AgentEmits r i)
  with assms(3) show ?thesis by (simp add: tasks_inv_def makeSink_def thread_simps waits_event)
next
  case (AgentEnds r why u)
  with i show ?thesis by (simp add: tasks_inv_def makeSink_def thread_simps waits_event)
next
  case (SweepPick idle ms)
  with i show ?thesis by (simp add: tasks_inv_def sweep_pick_def sweep_waits_def)
next
  case (SweepEnd tick idle ms k t)
  with i show ?thesis
    by (auto simp: tasks_inv_def sweep_end_def sweep_waits_def thread_simps split: option.split_asm if_split_asm)
next
  case Rename
  with i show ?thesis by (auto simp: tasks_inv_def renameThread_def Let_def thread_simps)
next
  case SetModel
  with i show ?thesis by (auto simp: tasks_inv_def setModelAndEffort_def thread_simps)
qed (use i in \<open>simp_all add: tasks_inv_def sweep_waits_def\<close>)

end
