(* ===== verification/RuntimeAccounts.thy ===== *)
theory RuntimeAccounts
  imports RuntimeInvariants
begin

text \<open>
  The accounts of the runtime machine: how many messages the live run has not answered, which messages the
  transcript and the agents have, and how the state of the record follows the runs.
\<close>

section \<open>Messages not answered yet\<close>

definition consumed_in :: "work list \<Rightarrow> nat" where
  "consumed_in q = sum_list (map (item_consumes \<circ> snd) (events_of q))"

lemma consumed_in_simps [simp]:
  "consumed_in [] = 0" "consumed_in (xs @ ys) = consumed_in xs + consumed_in ys"
  "consumed_in (WEvent r i # q) = item_consumes i + consumed_in q" "consumed_in (WMessage r x # q) = consumed_in q"
  "consumed_in (WAnswer r p # q) = consumed_in q" "consumed_in (WFinish r # q) = consumed_in q"
  by (simp_all add: consumed_in_def)

text \<open>A message between its turn and the agent.\<close>

definition in_hand :: "task \<Rightarrow> nat" where
  "in_hand k = (case k of Logging x n r \<Rightarrow> 1 | Handing x n r \<Rightarrow> 1 | _ \<Rightarrow> 0)"

lemma in_hand_simps [simp]:
  "in_hand (Logging x n r) = 1" "in_hand (Handing x n r) = 1" "in_hand Idle = 0" "in_hand (Sending x l n) = 0"
  "in_hand (Settling x l n r) = 0" "in_hand (Answering r) = 0" "in_hand (Closing w r) = 0" "in_hand (Draining w n) = 0"
  "in_hand (HandingOff loc) = 0" "in_hand (Finished e) = 0"
  by (simp_all add: in_hand_def)

definition turns_ok :: "agents \<Rightarrow> run_id option \<Rightarrow> nat \<Rightarrow> nat \<Rightarrow> bool" where
  "turns_ok a live n c \<longleftrightarrow> (case live of None \<Rightarrow> n = 0 | Some r \<Rightarrow> n + ag_answered a r = taken_by r a + c)"

definition accounts_inv :: "machine \<Rightarrow> bool" where
  "accounts_inv m \<longleftrightarrow>
     (\<forall>r. ag_answered (mc_agents m) r \<le> taken_by r (mc_agents m))
     \<and> (\<forall>r. ag_status (mc_agents m) r = Absent \<longrightarrow> taken_by r (mc_agents m) = 0)
     \<and> turns_ok (mc_agents m) (live_run (mc_thread m)) (th_turns (mc_thread m))
          (consumed_in (th_queue (mc_thread m)) + in_hand (mc_task m))"

text \<open>A step of an operation that hands nothing over.\<close>

lemma event_item:
  assumes "runs_inv m" and "th_queue (mc_thread m) = WEvent r i # q"
  shows "live_run (mc_thread m) = Some r" "th_current (mc_thread m) = Some r" "chat_item i = []"
  using assms by (auto simp: runs_inv_def runs_ok_def live_inv_def no_live_inv_def tidy_Cons split: option.split_asm)

lemma close_agents [simp]:
  "taken_by r (agent_close s a) = taken_by r a" "ag_answered (agent_close s a) = ag_answered a"
  "ag_taken (agent_close s a) = ag_taken a" "ag_status (agent_close s a) r = Absent \<longleftrightarrow> ag_status a r = Absent"
  by (auto simp: agent_close_def taken_by_def)

lemma told_agents [simp]:
  "taken_by r (agent_told k a) = taken_by r a" "ag_answered (agent_told k a) = ag_answered a"
  "ag_taken (agent_told k a) = ag_taken a" "ag_status (agent_told k a) r = Absent \<longleftrightarrow> ag_status a r = Absent"
  by (auto simp: agent_told_def split: task.split)

lemma status_agents [simp]:
  "taken_by r (a\<lparr>ag_status := s\<rparr>) = taken_by r a" "taken_by r (a\<lparr>ag_conversation := c\<rparr>) = taken_by r a"
  "taken_by r (a\<lparr>ag_answered := n\<rparr>) = taken_by r a"
  by (simp_all add: taken_by_def)

lemma starts_agents:
  "st_brief rs = Some x \<Longrightarrow> ag_taken (agent_starts rs a) = ag_taken a @ [(st_run rs, x)]"
  "ag_answered (agent_starts rs a) = ag_answered a"
  "ag_status (agent_starts rs a) = (ag_status a)(st_run rs := Taking)"
  "st_brief rs = Some x \<Longrightarrow> taken_by r (agent_starts rs a) = taken_by r a + (if r = st_run rs then 1 else 0)"
  by (auto simp: agent_starts_def taken_by_def)

lemma send_taken:
  "agent_send r x a = Some a' \<Longrightarrow> ag_taken a' = ag_taken a @ [(r, x)] \<and> ag_answered a' = ag_answered a \<and> ag_status a r = Taking
     \<and> ag_status a' = ag_status a \<and> taken_by s a' = taken_by s a + (if s = r then 1 else 0)"
  by (auto simp: agent_send_def taken_by_def split: if_split_asm)

lemma work_added_consumes:
  "work_added k q q' \<Longrightarrow> consumed_in q' = consumed_in q"
  by (cases k) (auto simp: work_added_def)

lemma asks_turns:
  assumes "asks t k t'" and "\<not> sender k" and "turns_ok a (live_run t) (th_turns t) (consumed_in (th_queue t))"
  shows "turns_ok a (live_run t') (th_turns t') (consumed_in (th_queue t') + in_hand k)"
proof -
  from assms(2) have "in_hand k = 0" by (cases k) (auto simp: in_hand_def sender_def)
  with assms work_added_consumes [of k "th_queue t" "th_queue t'"] show ?thesis
    by (simp add: asks_def same_runs_def)
qed

lemma moved_in_hand [simp]:
  "in_hand (item_done k) = in_hand k" "in_hand (wake r k) = in_hand k" "in_hand (logged_now k) = in_hand k"
  "in_hand (answered_now n k) = in_hand k"
  by (cases k; simp)+

lemma deliver_in_hand [simp]: "in_hand (deliverAfterRunEnd x n l t) = 0"
  by (simp add: deliverAfterRunEnd_def split: option.split)

lemma turns_told [simp]: "turns_ok (agent_told k a) live n c = turns_ok a live n c"
  "turns_ok (agent_close r a) live n c = turns_ok a live n c" "turns_ok (a\<lparr>ag_status := s\<rparr>) live n c = turns_ok a live n c"
  "turns_ok (a\<lparr>ag_conversation := v\<rparr>) live n c = turns_ok a live n c"
  by (simp_all add: turns_ok_def split: option.split)

lemma start_outcome_fields [simp]:
  "mc_thread (start_outcome x (res, t) m) = t"
  "mc_agents (start_outcome x (res, t) m) = (case res of Inl e \<Rightarrow> mc_agents m | Inr rs \<Rightarrow> agent_starts rs (mc_agents m))"
  "mc_task (start_outcome x (res, t) m) =
     (case res of Inl e \<Rightarrow> Finished (Some e) | Inr rs \<Rightarrow> Draining (AfterSend x) (length (th_queue t)))"
  "mc_sweep (start_outcome x (res, t) m) = mc_sweep m" "mc_request (start_outcome x (res, t) m) = mc_request m"
  "mc_replies (start_outcome x (res, t) m) = mc_replies m"
  "mc_written (start_outcome x (res, t) m) \<longleftrightarrow> mc_written m \<or> length (chat_of (mc_thread m)) < length (chat_of t)"
  "mc_faulty (start_outcome x (res, t) m) \<longleftrightarrow> mc_faulty m \<or> (res \<in> range Inl \<and> se_state (th_row t) = Running)"
  by (cases res; auto simp: start_outcome_def Let_def chat_of_def)+

lemma idle_refused:
  "idle_outcome r x l t (Inl e) t' \<Longrightarrow> live_run t' = live_run t \<and> th_turns t' = th_turns t \<and> th_queue t' = th_queue t"
  by (simp add: idle_outcome_def unregistered_def start_keeps_def)

lemma idle_started:
  "idle_outcome r x l t (Inr rs) t' \<Longrightarrow>
     st_run rs = r \<and> st_brief rs = Some x \<and> live_run t' = Some r \<and> th_turns t' = Suc (th_turns t) \<and> th_queue t' = th_queue t"
  by (simp add: idle_outcome_def registered_def start_keeps_def)

lemma turns_drop:
  assumes "turns_ok a (Some r) n (c + d)" and "ag_answered a r \<le> taken_by r a"
  shows "turns_ok a (Some r) (n - c) d"
  using assms by (simp add: turns_ok_def)

lemma in_hand_dropped:
  assumes "turns_ok a live n (Suc c)" and "\<forall>r. ag_answered a r \<le> taken_by r a"
  shows "turns_ok a live (nat (int n - 1)) c"
proof (cases live)
  case None
  with assms show ?thesis by (simp add: turns_ok_def)
next
  case (Some r)
  have "nat (int n - 1) = n - 1" by simp
  with Some assms(1) turns_drop [of a r n 1 c] assms(2) show ?thesis by simp
qed

lemma accounts_step:
  assumes "machine_step m m'" and r: "runs_inv m" and w: "tasks_inv m" and i: "accounts_inv m"
  shows "accounts_inv m'"
  using assms(1)
proof cases
  case (Request now env here q k t)
  note a = begin_asks [OF Request(3)]
  have "\<not> sender k"
    using a fits_sender [of q k] by (cases q) (auto simp: sender_def)
  with Request i a asks_turns [of "mc_thread m" k t "mc_agents m"] show ?thesis
    by (simp add: accounts_inv_def)
next
  case (Reply e q)
  with i show ?thesis by (simp add: accounts_inv_def turns_ok_def)
next
  case (SendLive x l n r saved now k t)
  from SendLive(3) have l: "live_run (mc_thread m) = Some r" by (simp add: live_run_def)
  from SendLive(4) have "in_hand k = 1"
    by (auto simp: send_to_live_def Let_def split: if_split_asm)
  moreover from send_to_live_asks [OF SendLive(4)] work_added_consumes have "consumed_in (th_queue t) = consumed_in (th_queue (mc_thread m))" by blast
  ultimately show ?thesis
    using SendLive i send_to_live_asks [OF SendLive(4)] l
    by (simp add: accounts_inv_def turns_ok_def same_runs_def)
next
  case (SendSettling x l n)
  with i show ?thesis by (simp add: accounts_inv_def)
next
  case (SendIdle x l n wv now)
  obtain res t where s: "send_into_idle now wv x l (mc_thread m) = (res, t)" by fastforce
  with idle_cases have o: "idle_outcome (wv_run wv) x l (mc_thread m) res t" by blast
  from r SendIdle have "events_of (th_queue (mc_thread m)) = []"
    by (simp add: runs_inv_def runs_ok_def no_live_inv_def)
  then have "consumed_in (th_queue (mc_thread m)) = 0" by (simp add: consumed_in_def)
  note q = this
  show ?thesis
  proof (cases res)
    case (Inl e)
    with o idle_refused have "live_run t = None" "th_turns t = th_turns (mc_thread m)" using SendIdle(3) by auto
    with i SendIdle(1,3) s Inl show ?thesis by (simp add: accounts_inv_def turns_ok_def)
  next
    case (Inr rs)
    with o have d: "st_run rs = wv_run wv" "st_brief rs = Some x" "live_run t = Some (wv_run wv)"
        "th_turns t = Suc (th_turns (mc_thread m))" "th_queue t = th_queue (mc_thread m)"
      by (auto dest: idle_started)
    have "taken_by (wv_run wv) (mc_agents m) = 0" "ag_answered (mc_agents m) (wv_run wv) = 0"
      using i SendIdle(5) by (auto simp: accounts_inv_def fresh_run_def) (metis le_zero_eq)
    with i SendIdle(1,3) s Inr d q show ?thesis
      by (auto simp: accounts_inv_def turns_ok_def starts_agents le_SucI)
  qed
next
  case (Hand x n r' k a t)
  have l: "live_run (mc_thread m) \<in> {None, Some r'}" and
      t: "turns_ok (mc_agents m) (live_run (mc_thread m)) (th_turns (mc_thread m)) (consumed_in (th_queue (mc_thread m)) + 1)" and
      le: "\<And>r. ag_answered (mc_agents m) r \<le> taken_by r (mc_agents m)"
        "\<And>r. ag_status (mc_agents m) r = Absent \<Longrightarrow> taken_by r (mc_agents m) = 0"
    using w i Hand(2) by (auto simp: tasks_inv_def waits_def accounts_inv_def)
  show ?thesis
  proof (cases "agent_send r' x (mc_agents m)")
    case None
    with Hand(3) have m': "t = dropTurnInFlight 1 (mc_thread m)" "in_hand k = 0" "a = mc_agents m"
      by (auto simp: hand_over_def Let_def)
    have "turns_ok (mc_agents m) (live_run t) (th_turns t) (consumed_in (th_queue t))"
      using l t le(1) [of r'] by (auto simp: m' turns_ok_def thread_simps nat_diff_distrib)
    with Hand(1) le m' show ?thesis by (simp add: accounts_inv_def)
  next
    case (Some a')
    with Hand(3) have m': "t = mc_thread m" "k = Finished None" "a = a'"
      by (auto simp: hand_over_def)
    note g = send_taken [OF Some]
    then have "live_run (mc_thread m) = Some r'" using live_item [OF r, of r'] by blast
    with t g have "turns_ok a' (live_run t) (th_turns t) (consumed_in (th_queue t))"
      by (simp add: turns_ok_def m')
    with Hand(1) le m' g show ?thesis by (auto simp: accounts_inv_def le_SucI)
  qed
next
  case (HandFails x n r')
  have l: "live_run (mc_thread m) \<in> {None, Some r'}" using w HandFails(2) by (auto simp: tasks_inv_def waits_def)
  with i HandFails in_hand_dropped show ?thesis by (simp add: accounts_inv_def thread_simps)
next
  case (CloseReturns w r)
  with i show ?thesis by (simp add: accounts_inv_def turns_ok_def)
next
  case (Drained w' now env k t)
  have "\<not> sender k" using w Drained fits_Draining [OF _ Drained(3)] by (auto simp: tasks_inv_def)
  with Drained i drained_asks [OF Drained(3)] asks_turns [of "mc_thread m" k t "mc_agents m"] show ?thesis
    by (simp add: accounts_inv_def)
next
  case (HandOff loc now env k t)
  have "\<not> sender k" using w HandOff fits_HandingOff [OF _ HandOff(3)] by (auto simp: tasks_inv_def)
  with HandOff i handoff_end_asks [OF HandOff(3)] asks_turns [of "mc_thread m" k t "mc_agents m"] show ?thesis
    by (simp add: accounts_inv_def)
next
  case (QueueEvent r' e q now)
  have "turns_ok (mc_agents m) (Some r') (th_turns (mc_thread m)) (consumed_by e + (consumed_in q + in_hand (mc_task m)))"
    using i event_item [OF r QueueEvent(2)] by (simp add: accounts_inv_def QueueEvent(2) item_consumes_def add.assoc)
  then have "turns_ok (mc_agents m) (Some r') (th_turns (mc_thread m) - consumed_by e) (consumed_in q + in_hand (mc_task m))"
    by (rule turns_drop) (use i in \<open>simp add: accounts_inv_def\<close>)
  with i QueueEvent event_item [OF r QueueEvent(2)] show ?thesis
    by (simp add: accounts_inv_def dequeued_def thread_simps)
next
  case (QueueDelta r' d q)
  with i event_item [OF r QueueDelta(2)] show ?thesis
    by (auto simp: accounts_inv_def dequeued_def thread_simps turns_ok_def item_consumes_def)
next
  case (QueueMessage r' x q)
  with i show ?thesis
    by (simp add: accounts_inv_def dequeued_def thread_simps turns_ok_def)
next
  case (QueueMessageFails r' x q)
  from w QueueMessageFails(2) obtain n where k: "mc_task m = Logging x n r'"
    by (cases "mc_task m") (auto simp: tasks_inv_def waits_def)
  with i QueueMessageFails in_hand_dropped show ?thesis by (simp add: accounts_inv_def dequeued_def thread_simps)
next
  case (QueueAnswer r' p q t)
  with i show ?thesis
    by (simp add: accounts_inv_def dequeued_def thread_simps turns_ok_def)
next
  case (QueueEnd r' r'' why u q t now)
  with i end_item [OF r QueueEnd(2)] show ?thesis
    by (simp add: accounts_inv_def thread_simps turns_ok_def)
next
  case (QueueEndFails r' r'' why u q t now)
  with i end_item [OF r QueueEndFails(2)] show ?thesis
    by (simp add: accounts_inv_def thread_simps turns_ok_def run_settles_settled dequeued_def)
next
  case (QueueEndLate r' r'' why u q t now)
  then show ?thesis
    using end_item [OF r QueueEndLate(2)] by (simp add: isCurrentRun_def)
next
  case (QueueFinish r' q t now env failed)
  with i finish_item [OF r QueueFinish(2)] show ?thesis
    by (simp add: accounts_inv_def thread_simps turns_ok_def run_settles_settled dequeued_def)
next
  case (AgentEmits r' i')
  then have "ag_status (mc_agents m) r' = Taking \<or> ag_status (mc_agents m) r' = Ending" and
      le: "ag_answered (mc_agents m) r' + item_consumes i' \<le> taken_by r' (mc_agents m)"
    using i by (auto simp: may_emit_def item_consumes_def accounts_inv_def consumed_by_def split: sink_item.split_asm canonical_event.splits)
  from live_item [OF r this(1)] AgentEmits i le show ?thesis
    by (simp add: accounts_inv_def agent_emits_def makeSink_def thread_simps turns_ok_def)
next
  case (AgentFails r)
  with i show ?thesis by (simp add: accounts_inv_def)
next
  case (AgentEnds r why u)
  with i show ?thesis
    by (simp add: accounts_inv_def makeSink_def thread_simps) (simp add: item_consumes_def consumed_by_def)
next
  case (SweepEnd tick idle ms k t)
  with i show ?thesis
    by (auto simp: accounts_inv_def sweep_end_def thread_simps split: option.split_asm if_split_asm)
next
  case Rename
  with i show ?thesis by (auto simp: accounts_inv_def renameThread_def Let_def thread_simps)
next
  case SetModel
  with i show ?thesis by (auto simp: accounts_inv_def setModelAndEffort_def thread_simps)
qed (use i in \<open>simp_all add: accounts_inv_def\<close>)


section \<open>Where the messages are\<close>

text \<open>What the callers were told: the messages accepted, and those that are in the transcript.\<close>

fun accepted :: "(request \<times> bool \<times> runtime_error option) list \<Rightarrow> string list" where
  "accepted [] = []"
| "accepted ((ReqSend x, w, None) # rs) = x # accepted rs"
| "accepted (p # rs) = accepted rs"

fun transcribed :: "(request \<times> bool \<times> runtime_error option) list \<Rightarrow> string list" where
  "transcribed [] = []"
| "transcribed ((ReqSend x, True, e) # rs) = x # transcribed rs"
| "transcribed (p # rs) = transcribed rs"

fun accepted_unwritten :: "(request \<times> bool \<times> runtime_error option) list \<Rightarrow> string list" where
  "accepted_unwritten [] = []"
| "accepted_unwritten ((ReqSend x, False, None) # rs) = x # accepted_unwritten rs"
| "accepted_unwritten (p # rs) = accepted_unwritten rs"

lemma accepted_append [simp]: "accepted (xs @ ys) = accepted xs @ accepted ys"
  by (induction xs rule: accepted.induct) auto

lemma transcribed_append [simp]: "transcribed (xs @ ys) = transcribed xs @ transcribed ys"
  by (induction xs rule: transcribed.induct) auto

lemma accepted_unwritten_append [simp]: "accepted_unwritten (xs @ ys) = accepted_unwritten xs @ accepted_unwritten ys"
  by (induction xs rule: accepted_unwritten.induct) auto

definition pending_taken :: "request option \<Rightarrow> task \<Rightarrow> string list" where
  "pending_taken q k =
     (case q of
        Some (ReqSend x) \<Rightarrow> (case k of Finished None \<Rightarrow> [x] | Draining w n \<Rightarrow> [x] | _ \<Rightarrow> [])
      | _ \<Rightarrow> [])"

definition pending_written :: "request option \<Rightarrow> bool \<Rightarrow> string list" where
  "pending_written q w = (case q of Some (ReqSend x) \<Rightarrow> if w then [x] else [] | _ \<Rightarrow> [])"

text \<open>What a task knows of the transcript.\<close>

definition written_ok :: "request option \<Rightarrow> bool \<Rightarrow> task \<Rightarrow> bool" where
  "written_ok q w k \<longleftrightarrow>
     (case q of
        Some (ReqSend x) \<Rightarrow>
          (case k of
             Sending y l n \<Rightarrow> w = l | Logging y n r \<Rightarrow> \<not> w | Handing y n r \<Rightarrow> w | Settling y l n r \<Rightarrow> w = l
           | Draining v n \<Rightarrow> w | Finished e \<Rightarrow> e = None \<longrightarrow> w | _ \<Rightarrow> True)
      | _ \<Rightarrow> q \<noteq> None \<longrightarrow> \<not> w)"

text \<open>A draft has had no run.\<close>

definition draft_ok :: "session_state \<Rightarrow> run_id option \<Rightarrow> run_id option \<Rightarrow> task \<Rightarrow> bool" where
  "draft_ok st live settling k \<longleftrightarrow>
     (st = Draft \<longrightarrow> live = None \<and> settling = None
        \<and> (case k of Sending x l n \<Rightarrow> \<not> l | Logging x n r \<Rightarrow> False | Handing x n r \<Rightarrow> False | Settling x l n r \<Rightarrow> False | _ \<Rightarrow> True))"

definition texts_inv :: "string list \<Rightarrow> machine \<Rightarrow> bool" where
  "texts_inv chat0 m \<longleftrightarrow>
     map snd (ag_taken (mc_agents m)) = accepted (mc_replies m) @ pending_taken (mc_request m) (mc_task m)
     \<and> chat_of (mc_thread m) = chat0 @ transcribed (mc_replies m) @ pending_written (mc_request m) (mc_written m)
     \<and> accepted_unwritten (mc_replies m) = []
     \<and> written_ok (mc_request m) (mc_written m) (mc_task m)
     \<and> draft_ok (se_state (th_row (mc_thread m))) (live_run (mc_thread m)) (th_settling (mc_thread m)) (mc_task m)"

text \<open>A step of an operation that is not at the sender's work.\<close>

lemma asks_texts:
  assumes "asks t k t'" and "draft_ok (se_state (th_row t)) (live_run t) (th_settling t) k"
  shows "chat_of t' = chat_of t" "draft_ok (se_state (th_row t')) (live_run t') (th_settling t') k"
  using assms by (auto simp: asks_def same_runs_def draft_ok_def)

lemma other_request:
  assumes "\<And>x. q \<noteq> Some (ReqSend x)"
  shows "pending_taken q k = []" "pending_written q w = []" "written_ok q w k \<longleftrightarrow> (q \<noteq> None \<longrightarrow> \<not> w)"
  using assms by (auto simp: pending_taken_def pending_written_def written_ok_def split: option.split request.split)

lemma moved_texts [simp]:
  "pending_taken q (item_done k) = pending_taken q k" "pending_taken q (wake r k) = pending_taken q k"
  "pending_taken q (logged_now k) = pending_taken q k" "written_ok q w (item_done k) = written_ok q w k"
  "written_ok q w (wake r k) = written_ok q w k" "draft_ok st live s (item_done k) = draft_ok st live s k"
  by (cases k; simp add: pending_taken_def written_ok_def draft_ok_def split: option.split request.split)+

lemma draft_not:
  "draft_ok st live s k \<Longrightarrow> live \<noteq> None \<or> s \<noteq> None \<Longrightarrow> st \<noteq> Draft" "st \<noteq> Draft \<Longrightarrow> draft_ok st live s k"
  by (auto simp: draft_ok_def)

lemma send_request: "tasks_inv m \<Longrightarrow> sender (mc_task m) \<or> (\<exists>x l n. mc_task m = Sending x l n) \<Longrightarrow> \<exists>x. mc_request m = Some (ReqSend x)"
  by (auto simp: tasks_inv_def sender_def fits_iff split: task.split_asm)

lemma texts_step:
  assumes "machine_step m m'" and r: "runs_inv m" and w: "tasks_inv m" and i: "texts_inv chat0 m"
  shows "texts_inv chat0 m'"
  using assms(1)
proof cases
  case (Request now env here q k t)
  note a = begin_asks [OF Request(3)]
  have "\<not> sender k"
    using a fits_sender [of q k] by (cases q) (auto simp: sender_def)
  then have "draft_ok (se_state (th_row (mc_thread m))) (live_run (mc_thread m)) (th_settling (mc_thread m)) k"
    using i Request(2) a by (cases q; cases k) (auto simp: texts_inv_def draft_ok_def sender_def fits_def)
  with a have "chat_of t = chat_of (mc_thread m)" "draft_ok (se_state (th_row t)) (live_run t) (th_settling t) k"
    by (auto dest: asks_texts)
  moreover have "pending_taken (Some q) k = []" "pending_written (Some q) False = []" "written_ok (Some q) False k"
    using a by (cases q; simp add: pending_taken_def pending_written_def written_ok_def)+
  moreover have "mc_request m = None" using w Request(2) by (simp add: tasks_inv_def fits_iff)
  ultimately show ?thesis
    using i Request(1,2) by (simp add: texts_inv_def pending_taken_def pending_written_def)
next
  case (Reply e q)
  show ?thesis
  proof (cases "\<exists>x. q = ReqSend x")
    case True
    then obtain x where [simp]: "q = ReqSend x" ..
    show ?thesis
      using i Reply
      by (cases e; cases "mc_written m")
        (simp_all add: texts_inv_def pending_taken_def pending_written_def written_ok_def draft_ok_def)
  next
    case False
    then have "accepted [(q, v, e)] = []" "transcribed [(q, v, e)] = []" "accepted_unwritten [(q, v, e)] = []" for v
      by (cases q; simp)+
    moreover have "\<not> mc_written m" using False i Reply(3) by (simp add: texts_inv_def other_request)
    ultimately show ?thesis
      using i Reply other_request [of None] other_request [of "Some q"] False
      by (simp add: texts_inv_def draft_ok_def)
  qed
next
  case (SendLive x l n r saved now k t)
  have q: "mc_request m = Some (ReqSend x)" using w SendLive(2) by (simp add: tasks_inv_def fits_iff)
  from SendLive(3) have "live_run (mc_thread m) = Some r" by (simp add: live_run_def)
  with i have "se_state (th_row (mc_thread m)) \<noteq> Draft" by (auto simp: texts_inv_def draft_ok_def)
  with i SendLive q send_to_live_asks [OF SendLive(4)] show ?thesis
    by (auto simp: texts_inv_def same_runs_def draft_not send_to_live_def Let_def pending_taken_def written_ok_def split: if_split_asm)
next
  case (SendSettling x l n)
  have q: "mc_request m = Some (ReqSend x)" using w SendSettling(2) by (simp add: tasks_inv_def fits_iff)
  from i SendSettling(4) have "se_state (th_row (mc_thread m)) \<noteq> Draft" by (auto simp: texts_inv_def draft_ok_def)
  with i SendSettling q show ?thesis
    by (auto simp: texts_inv_def draft_not deliverAfterRunEnd_def pending_taken_def written_ok_def split: option.split)
next
  case (SendIdle x l n wv now)
  obtain res t where s: "send_into_idle now wv x l (mc_thread m) = (res, t)" by fastforce
  with idle_cases have o: "idle_outcome (wv_run wv) x l (mc_thread m) res t" by blast
  have q: "mc_request m = Some (ReqSend x)" using w SendIdle(2) by (simp add: tasks_inv_def fits_iff)
  have l: "mc_written m = l" "l \<Longrightarrow> se_state (th_row (mc_thread m)) \<noteq> Draft"
    using i SendIdle(2) q by (auto simp: texts_inv_def written_ok_def draft_ok_def)
  show ?thesis
  proof (cases res)
    case (Inl e)
    with o have c: "chat_of t \<in> {chat_of (mc_thread m), chat_of (mc_thread m) @ [x]}" "l \<Longrightarrow> chat_of t = chat_of (mc_thread m)"
        "live_run t = live_run (mc_thread m)" "th_settling t = th_settling (mc_thread m)"
      using l by (auto simp: idle_outcome_def unregistered_def)
    from c(1,2) i s SendIdle(1-4) Inl q l(1) c(3,4) show ?thesis
      by (cases l) (auto simp: texts_inv_def pending_taken_def pending_written_def written_ok_def draft_ok_def)
  next
    case (Inr rs)
    with o have c: "chat_of t = chat_of (mc_thread m) @ (if l then [] else [x])" "se_state (th_row t) \<noteq> Draft"
        "st_run rs = wv_run wv" "st_brief rs = Some x"
      using l by (auto simp: idle_outcome_def registered_def)
    with i s SendIdle(1-4) Inr q l(1) show ?thesis
      by (cases l) (auto simp: texts_inv_def pending_taken_def pending_written_def written_ok_def draft_not starts_agents)
  qed
next
  case (Hand x n r' k a t)
  have q: "mc_request m = Some (ReqSend x)" using w Hand(2) by (simp add: tasks_inv_def fits_iff)
  from i Hand(2) have d: "se_state (th_row (mc_thread m)) \<noteq> Draft" by (auto simp: texts_inv_def draft_ok_def)
  show ?thesis
  proof (cases "agent_send r' x (mc_agents m)")
    case None
    with Hand i q d show ?thesis
      by (auto simp: texts_inv_def hand_over_def Let_def thread_simps draft_not deliverAfterRunEnd_def pending_taken_def written_ok_def
          split: option.split)
  next
    case (Some a')
    with Hand i q d send_taken [OF Some] show ?thesis
      by (auto simp: texts_inv_def hand_over_def draft_not pending_taken_def written_ok_def)
  qed
next
  case (HandFails x n r' e)
  have q: "mc_request m = Some (ReqSend x)" using w HandFails(2) by (simp add: tasks_inv_def fits_iff)
  from i HandFails(2) have d: "se_state (th_row (mc_thread m)) \<noteq> Draft" by (auto simp: texts_inv_def draft_ok_def)
  with i HandFails q show ?thesis
    by (simp add: texts_inv_def thread_simps draft_not pending_taken_def written_ok_def)
next
  case (CloseReturns v r')
  have "mc_request m \<noteq> Some (ReqSend x)" for x
    using w CloseReturns(2) by (auto simp: tasks_inv_def fits_def)
  with i CloseReturns other_request show ?thesis by (simp add: texts_inv_def draft_ok_def)
next
  case (Drained v now env k t)
  note a = drained_asks [OF Drained(3)]
  have "draft_ok (se_state (th_row (mc_thread m))) (live_run (mc_thread m)) (th_settling (mc_thread m)) k"
    using i Drained(2) a by (cases k) (auto simp: texts_inv_def draft_ok_def)
  note d = asks_texts [OF a [THEN conjunct1] this]
  show ?thesis
  proof (cases "\<exists>x. mc_request m = Some (ReqSend x)")
    case True
    then obtain x where x: "mc_request m = Some (ReqSend x)" ..
    with w Drained(2) have "v = AfterSend x" by (simp add: tasks_inv_def fits_def)
    with a have "k = Finished None" "t = mc_thread m" by auto
    with i Drained(1,2) x show ?thesis
      by (simp add: texts_inv_def pending_taken_def written_ok_def draft_ok_def)
  next
    case False
    with i Drained d other_request [of "mc_request m"] show ?thesis by (simp add: texts_inv_def)
  qed
next
  case (HandOff loc now env k t)
  note a = handoff_end_asks [OF HandOff(3)]
  have "draft_ok (se_state (th_row (mc_thread m))) (live_run (mc_thread m)) (th_settling (mc_thread m)) k"
    using i HandOff(2) a by (cases k) (auto simp: texts_inv_def draft_ok_def)
  note d = asks_texts [OF a [THEN conjunct1] this]
  have "mc_request m \<noteq> Some (ReqSend x)" for x
    using w HandOff(2) by (auto simp: tasks_inv_def fits_def)
  with i HandOff d other_request [of "mc_request m"] show ?thesis by (simp add: texts_inv_def)
next
  case (QueueEvent r' e q now)
  with i event_item [OF r QueueEvent(2)] show ?thesis by (simp add: texts_inv_def dequeued_def thread_simps)
next
  case (QueueDelta r' d q)
  with i show ?thesis by (simp add: texts_inv_def dequeued_def thread_simps)
next
  case (QueueMessage r' x q)
  from w QueueMessage(2) obtain n where k: "mc_task m = Logging x n r'"
    by (cases "mc_task m") (auto simp: tasks_inv_def waits_def)
  with w have q: "mc_request m = Some (ReqSend x)" by (simp add: tasks_inv_def fits_iff)
  from i k have d: "se_state (th_row (mc_thread m)) \<noteq> Draft" by (auto simp: texts_inv_def draft_ok_def)
  from i QueueMessage q k d show ?thesis
    by (auto simp: texts_inv_def dequeued_def thread_simps draft_not pending_taken_def pending_written_def written_ok_def)
next
  case (QueueMessageFails r' x q e)
  from w QueueMessageFails(2) obtain n where k: "mc_task m = Logging x n r'"
    by (cases "mc_task m") (auto simp: tasks_inv_def waits_def)
  with w have q: "mc_request m = Some (ReqSend x)" by (simp add: tasks_inv_def fits_iff)
  from i k have d: "se_state (th_row (mc_thread m)) \<noteq> Draft" by (auto simp: texts_inv_def draft_ok_def)
  from i QueueMessageFails q k d show ?thesis
    by (auto simp: texts_inv_def dequeued_def thread_simps draft_not pending_taken_def pending_written_def written_ok_def)
next
  case (QueueAnswer r' p q t)
  from w QueueAnswer(2) have k: "mc_task m = Answering r'"
    by (cases "mc_task m") (auto simp: tasks_inv_def waits_def)
  with w have "mc_request m \<noteq> Some (ReqSend x)" for x by (auto simp: tasks_inv_def fits_def)
  with i QueueAnswer k other_request [of "mc_request m"] show ?thesis
    by (simp add: texts_inv_def dequeued_def thread_simps draft_ok_def)
next
  case (QueueEnd r' r'' why u q t now)
  have "se_state (th_row (mc_thread m)) \<noteq> Draft"
    using i end_item [OF r QueueEnd(2)] by (auto simp: texts_inv_def draft_ok_def)
  with i QueueEnd show ?thesis by (simp add: texts_inv_def thread_simps draft_not)
next
  case (QueueEndFails r' r'' why u q t now)
  have "se_state (th_row (mc_thread m)) \<noteq> Draft"
    using i end_item [OF r QueueEndFails(2)] by (auto simp: texts_inv_def draft_ok_def)
  with i QueueEndFails end_item [OF r QueueEndFails(2)] show ?thesis
    by (simp add: texts_inv_def thread_simps draft_not run_settles_settled dequeued_def)
next
  case (QueueEndLate r' r'' why u q t now)
  then show ?thesis
    using end_item [OF r QueueEndLate(2)] by (simp add: isCurrentRun_def)
next
  case (QueueFinish r' q t now env failed)
  have "se_state (th_row (mc_thread m)) \<noteq> Draft"
    using i finish_item [OF r QueueFinish(2)] by (auto simp: texts_inv_def draft_ok_def)
  with i QueueFinish finish_item [OF r QueueFinish(2)] show ?thesis
    by (simp add: texts_inv_def thread_simps draft_not run_settles_settled dequeued_def)
next
  case (AgentEmits r' i')
  with i show ?thesis by (simp add: texts_inv_def agent_emits_def makeSink_def thread_simps)
next
  case (AgentEnds r' why u)
  with i show ?thesis by (simp add: texts_inv_def makeSink_def thread_simps)
next
  case (SweepEnd tick idle ms k t)
  then have "mc_thread m' = mc_thread m \<or> (\<exists>r'. mc_thread m' = endRunWithReason ByIdle None r' (mc_thread m))"
      "ag_taken (mc_agents m') = ag_taken (mc_agents m)" "mc_task m' = mc_task m" "mc_request m' = mc_request m"
      "mc_replies m' = mc_replies m" "mc_written m' = mc_written m"
    by (auto simp: sweep_end_def split: option.split_asm if_split_asm sweep.split)
  with i show ?thesis by (auto simp: texts_inv_def thread_simps)
next
  case Rename
  with i show ?thesis by (auto simp: texts_inv_def renameThread_def Let_def thread_simps)
next
  case SetModel
  with i show ?thesis by (auto simp: texts_inv_def setModelAndEffort_def thread_simps)
qed (use i in \<open>simp_all add: texts_inv_def\<close>)


section \<open>The state of the record\<close>

text \<open>
  While no write of the record failed: a thread that is running has a run that is live or settling, except while
  closing it waits; and the mark of closing is gone once the run it closes has settled.
\<close>

definition state_ok :: "bool \<Rightarrow> session_state \<Rightarrow> run_id option \<Rightarrow> run_id option \<Rightarrow> bool \<Rightarrow> bool" where
  "state_ok closing st live settling c \<longleftrightarrow>
     (closing \<longrightarrow> settling \<noteq> None \<and> (st = Running \<longrightarrow> c)) \<and> (live = None \<and> settling = None \<and> st = Running \<longrightarrow> c)"

definition states_inv :: "machine \<Rightarrow> bool" where
  "states_inv m \<longleftrightarrow>
     mc_faulty m \<or> state_ok (th_closing (mc_thread m)) (se_state (th_row (mc_thread m))) (live_run (mc_thread m))
       (th_settling (mc_thread m)) (after_close (mc_task m))"

lemma after_close_moved [simp]:
  "after_close (item_done k) = after_close k" "after_close (wake r k) = after_close k" "after_close (logged_now k) = after_close k"
  "after_close (answered_now n k) = after_close k"
  by (cases k; simp)+

lemma deliver_after [simp]: "\<not> after_close (deliverAfterRunEnd x n l t)"
  by (simp add: deliverAfterRunEnd_def split: option.split)

lemma asks_state:
  assumes "asks t k t'" and "runs_ok st (live_run t) (th_current t) (th_settling t) q"
    and "state_ok (th_closing t) (se_state (th_row t)) (live_run t) (th_settling t) False"
  shows "state_ok (th_closing t') (se_state (th_row t')) (live_run t') (th_settling t') (after_close k)"
proof -
  from assms(2) have "live_run t \<noteq> None \<Longrightarrow> th_settling t \<noteq> None"
    by (auto simp: runs_ok_def live_inv_def)
  with assms(1,3) show ?thesis
    by (auto simp: asks_def same_runs_def state_ok_def)
qed

lemma asks_stopped:
  assumes "asks t k t'" and "runs_ok st (live_run t) (th_current t) (th_settling t) q" and "se_state (th_row t') \<noteq> Running"
    and "state_ok (th_closing t) (se_state (th_row t)) (live_run t) (th_settling t) c"
  shows "state_ok (th_closing t') (se_state (th_row t')) (live_run t') (th_settling t') c'"
proof -
  from assms(2) have "live_run t \<noteq> None \<Longrightarrow> th_settling t \<noteq> None"
    by (auto simp: runs_ok_def live_inv_def)
  with assms(1,3,4) show ?thesis
    by (auto simp: asks_def same_runs_def state_ok_def)
qed

lemma states_step:
  assumes "machine_step m m'" and r: "runs_inv m" and w: "tasks_inv m" and i: "states_inv m"
  shows "states_inv m'"
  using assms(1)
proof cases
  case (Request now env here q k t)
  with i asks_state [OF _ r [unfolded runs_inv_def], of k t] begin_asks [OF Request(3)] show ?thesis
    by (auto simp: states_inv_def)
next
  case (SendLive x l n r saved now k t)
  from SendLive(4) have "\<not> after_close k" by (auto simp: send_to_live_def Let_def split: if_split_asm)
  with SendLive i send_to_live_asks [OF SendLive(4)] show ?thesis
    by (auto simp: states_inv_def same_runs_def)
next
  case (SendSettling x l n)
  with i show ?thesis by (auto simp: states_inv_def)
next
  case (SendIdle x l n wv now)
  obtain res t where s: "send_into_idle now wv x l (mc_thread m) = (res, t)" by fastforce
  with idle_cases have o: "idle_outcome (wv_run wv) x l (mc_thread m) res t" by blast
  from i SendIdle(2-4) have c: "mc_faulty m \<or> \<not> th_closing (mc_thread m)"
    by (auto simp: states_inv_def state_ok_def)
  show ?thesis
  proof (cases res)
    case (Inl e)
    with o have "th_closing t = th_closing (mc_thread m)" by (simp add: idle_outcome_def start_keeps_def)
    with Inl c s SendIdle(1) show ?thesis by (auto simp: states_inv_def state_ok_def)
  next
    case (Inr rs)
    with o have "th_closing t = th_closing (mc_thread m)" "live_run t = Some (wv_run wv)"
      by (simp_all add: idle_outcome_def start_keeps_def registered_def)
    with Inr c s SendIdle(1) show ?thesis by (auto simp: states_inv_def state_ok_def)
  qed
next
  case (Hand x n r' k a t)
  with i show ?thesis
    by (auto simp: states_inv_def hand_over_def Let_def thread_simps split: option.split_asm)
next
  case (HandFails x n r' e)
  with i show ?thesis by (auto simp: states_inv_def thread_simps)
next
  case (CloseReturns v r')
  with i show ?thesis by (auto simp: states_inv_def)
next
  case (Drained v now env k t)
  note a = drained_asks [OF Drained(3)]
  show ?thesis
  proof (cases "closes v")
    case True
    with a i Drained asks_stopped [OF _ r [unfolded runs_inv_def], of k t] show ?thesis
      by (auto simp: states_inv_def)
  next
    case False
    with a i Drained asks_state [OF _ r [unfolded runs_inv_def], of k t] show ?thesis
      by (auto simp: states_inv_def)
  qed
next
  case (HandOff loc now env k t)
  with i handoff_end_asks [OF HandOff(3)] asks_state [OF _ r [unfolded runs_inv_def], of k t] show ?thesis
    by (auto simp: states_inv_def)
next
  case (QueueEvent r' e q now)
  with i show ?thesis by (auto simp: states_inv_def dequeued_def thread_simps)
next
  case (QueueDelta r' d q)
  with i show ?thesis by (auto simp: states_inv_def dequeued_def thread_simps)
next
  case (QueueMessage r' x q)
  with i show ?thesis by (auto simp: states_inv_def dequeued_def thread_simps)
next
  case (QueueMessageFails r' x q e)
  with i w show ?thesis
    by (cases "mc_task m") (auto simp: states_inv_def dequeued_def thread_simps tasks_inv_def waits_def)
next
  case (QueueAnswer r' p q t)
  with i show ?thesis by (auto simp: states_inv_def dequeued_def thread_simps)
next
  case (QueueEnd r' r'' why u q t now)
  with i end_item [OF r QueueEnd(2)] show ?thesis
    by (auto simp: states_inv_def thread_simps state_ok_def)
next
  case (QueueEndFails r' r'' why u q t now)
  then show ?thesis by (simp add: states_inv_def run_settles_def dequeued_def)
next
  case (QueueEndLate r' r'' why u q t now)
  then show ?thesis
    using end_item [OF r QueueEndLate(2)] by (simp add: isCurrentRun_def)
next
  case (QueueFinish r' q t now env failed)
  with i finish_item [OF r QueueFinish(2)] show ?thesis
    by (auto simp: states_inv_def thread_simps run_settles_settled dequeued_def state_ok_def)
next
  case (AgentEmits r' i')
  with i show ?thesis by (simp add: states_inv_def makeSink_def thread_simps)
next
  case (AgentEnds r' why u)
  with i show ?thesis by (simp add: states_inv_def makeSink_def thread_simps)
next
  case (SweepEnd tick idle ms k t)
  then have "mc_thread m' = mc_thread m \<or> (\<exists>r'. mc_thread m' = endRunWithReason ByIdle None r' (mc_thread m))"
      "mc_task m' = mc_task m" "mc_faulty m' = mc_faulty m"
    by (auto simp: sweep_end_def split: option.split_asm if_split_asm sweep.split)
  with i show ?thesis by (auto simp: states_inv_def thread_simps)
next
  case Rename
  with i show ?thesis by (auto simp: states_inv_def renameThread_def Let_def thread_simps)
next
  case SetModel
  with i show ?thesis by (auto simp: states_inv_def setModelAndEffort_def thread_simps)
qed (use i in \<open>simp_all add: states_inv_def\<close>)


section \<open>The rows of the runs\<close>

text \<open>Every run an agent was started for has a row, and no two rows share an id.\<close>

definition table_inv :: "machine \<Rightarrow> bool" where
  "table_inv m \<longleftrightarrow>
     distinct (run_ids (mc_thread m))
     \<and> (\<forall>r. ag_status (mc_agents m) r \<noteq> Absent \<longrightarrow> r \<in> set (run_ids (mc_thread m)))"

lemma table_step:
  assumes "machine_step m m'" and r: "runs_inv m" and i: "table_inv m"
  shows "table_inv m'"
  using assms(1)
proof cases
  case (Request now env here q k t)
  with i begin_asks [OF Request(3)] show ?thesis
    by (simp add: table_inv_def asks_def same_runs_def)
next
  case (SendLive x l n r saved now k t)
  with i send_to_live_asks [OF SendLive(4)] show ?thesis
    by (simp add: table_inv_def same_runs_def)
next
  case (SendIdle x l n wv now)
  obtain res t where s: "send_into_idle now wv x l (mc_thread m) = (res, t)" by fastforce
  with idle_cases have o: "idle_outcome (wv_run wv) x l (mc_thread m) res t" by blast
  have f: "wv_run wv \<notin> set (run_ids (mc_thread m))" using SendIdle(5) by (simp add: fresh_run_def run_ids_def)
  show ?thesis
  proof (cases res)
    case (Inl e)
    with o have "run_ids t \<in> {run_ids (mc_thread m), run_ids (mc_thread m) @ [wv_run wv]}"
      by (simp add: idle_outcome_def unregistered_def)
    with Inl i f s SendIdle(1) show ?thesis by (auto simp: table_inv_def)
  next
    case (Inr rs)
    with o have "run_ids t = run_ids (mc_thread m) @ [wv_run wv]" "st_run rs = wv_run wv"
      by (simp_all add: idle_outcome_def registered_def)
    with Inr i f s SendIdle(1) show ?thesis by (auto simp: table_inv_def starts_agents)
  qed
next
  case (Hand x n r' k a t)
  show ?thesis
  proof (cases "agent_send r' x (mc_agents m)")
    case None
    with Hand i show ?thesis by (auto simp: table_inv_def hand_over_def Let_def thread_simps)
  next
    case (Some a')
    with Hand i send_taken [OF Some] show ?thesis by (auto simp: table_inv_def hand_over_def)
  qed
next
  case (HandFails x n r' e)
  with i show ?thesis by (simp add: table_inv_def thread_simps)
next
  case (Drained v now env k t)
  with i drained_asks [OF Drained(3)] show ?thesis by (simp add: table_inv_def asks_def same_runs_def)
next
  case (HandOff loc now env k t)
  with i handoff_end_asks [OF HandOff(3)] show ?thesis by (simp add: table_inv_def asks_def same_runs_def)
next
  case (QueueEvent r' e q now)
  with i show ?thesis by (simp add: table_inv_def dequeued_def thread_simps)
next
  case (QueueDelta r' d q)
  with i show ?thesis by (simp add: table_inv_def dequeued_def thread_simps)
next
  case (QueueMessage r' x q)
  with i show ?thesis by (simp add: table_inv_def dequeued_def thread_simps)
next
  case (QueueMessageFails r' x q e)
  with i show ?thesis by (simp add: table_inv_def dequeued_def thread_simps)
next
  case (QueueAnswer r' p q t)
  with i show ?thesis by (simp add: table_inv_def dequeued_def thread_simps)
next
  case (QueueEnd r' r'' why u q t now)
  with i show ?thesis by (simp add: table_inv_def thread_simps)
next
  case (QueueEndFails r' r'' why u q t now)
  with i end_item [OF r QueueEndFails(2)] show ?thesis
    by (simp add: table_inv_def thread_simps run_settles_settled dequeued_def)
next
  case (QueueEndLate r' r'' why u q t now)
  then show ?thesis
    using end_item [OF r QueueEndLate(2)] by (simp add: isCurrentRun_def)
next
  case (QueueFinish r' q t now env failed)
  with i finish_item [OF r QueueFinish(2)] show ?thesis
    by (simp add: table_inv_def thread_simps run_settles_settled dequeued_def)
next
  case (AgentEmits r' i')
  with i show ?thesis by (simp add: table_inv_def agent_emits_def makeSink_def thread_simps)
next
  case (AgentEnds r' why u)
  with i show ?thesis by (auto simp: table_inv_def makeSink_def thread_simps)
next
  case (SweepEnd tick idle ms k t)
  with i show ?thesis
    by (auto simp: table_inv_def sweep_end_def thread_simps split: option.split_asm if_split_asm)
next
  case Rename
  with i show ?thesis by (auto simp: table_inv_def renameThread_def Let_def thread_simps)
next
  case SetModel
  with i show ?thesis by (auto simp: table_inv_def setModelAndEffort_def thread_simps)
qed (use i in \<open>auto simp: table_inv_def\<close>)

section \<open>Every reachable machine\<close>

definition machine_inv :: "string list \<Rightarrow> machine \<Rightarrow> bool" where
  "machine_inv chat0 m \<longleftrightarrow>
     runs_inv m \<and> tasks_inv m \<and> accounts_inv m \<and> texts_inv chat0 m \<and> states_inv m \<and> table_inv m"

interpretation runtime: invariant_system machine_step "machine_inv chat0"
  for chat0
  by unfold_locales
    (simp add: machine_inv_def runs_inv_step tasks_inv_step accounts_step texts_step states_step table_step)

lemma initial_inv:
  assumes "initial m"
  shows "machine_inv (chat_of (mc_thread m)) m"
  using assms
  by (simp add: initial_def quiet_thread_def machine_inv_def runs_inv_def runs_ok_def no_live_inv_def tasks_inv_def fits_iff
      waits_def sweep_waits_def accounts_inv_def taken_by_def turns_ok_def texts_inv_def pending_taken_def pending_written_def
      written_ok_def draft_ok_def states_inv_def state_ok_def table_inv_def run_ids_def)

lemma reachable_inv:
  assumes "initial m0" and "machine_step\<^sup>*\<^sup>* m0 m"
  shows "machine_inv (chat_of (mc_thread m0)) m"
  by (rule runtime.run_inv [OF assms(2) initial_inv [OF assms(1)]])

end
