(* ===== verification/RuntimeChannel.thy ===== *)
theory RuntimeChannel
  imports RuntimeAccounts
begin

text \<open>
  The live channel of a thread: what it is told is in the transcript, under the number it was given, and the numbers
  only grow.
\<close>

fun event_numbers :: "published list \<Rightarrow> nat list" where
  "event_numbers [] = []"
| "event_numbers (PubEvent n e # ps) = n # event_numbers ps"
| "event_numbers (p # ps) = event_numbers ps"

lemma event_numbers_append [simp]: "event_numbers (xs @ ys) = event_numbers xs @ event_numbers ys"
  by (induction xs rule: event_numbers.induct) auto

definition in_transcript :: "(run_id option \<times> canonical_event) list \<Rightarrow> published \<Rightarrow> bool" where
  "in_transcript log p \<longleftrightarrow>
     (case p of
        PubEvent n e \<Rightarrow> 0 < n \<and> n \<le> length log \<and> snd (log ! (n - 1)) = capEventPayload e
      | _ \<Rightarrow> True)"

definition numbered :: "thread \<Rightarrow> bool" where
  "numbered t \<longleftrightarrow>
     sorted_wrt (<) (event_numbers (th_published t)) \<and> list_all (in_transcript (th_log t)) (th_published t)"

lemma in_transcript_grows: "in_transcript log p \<Longrightarrow> in_transcript (log @ later) p"
  by (auto simp: in_transcript_def nth_append split: published.split_asm)

lemma numbers_bounded:
  "list_all (in_transcript log) ps \<Longrightarrow> n \<in> set (event_numbers ps) \<Longrightarrow> n \<le> length log"
  by (induction ps rule: event_numbers.induct) (auto simp: in_transcript_def)

lemma batch_numbers: "event_numbers (map (\<lambda>(i, e). PubEvent (k + i) e) (enumerate j es)) = map ((+) k) [j..<j + length es]"
  by (induction es arbitrary: j) (auto simp: upt_rec enumerate_simps)

lemma batch_in_transcript:
  "list_all (in_transcript (log @ map (\<lambda>e. (r, capEventPayload e)) es))
     (map (\<lambda>(i, e). PubEvent (length log + i) e) (enumerate 1 es))"
  by (auto simp: list_all_iff in_transcript_def in_set_enumerate_eq nth_append)

lemma append_numbered [simp]:
  assumes "numbered t"
  shows "numbered (appendAndPublish r es t)"
proof -
  let ?new = "map (\<lambda>(i, e). PubEvent (length (th_log t) + i) e) (enumerate 1 es)"
  have "\<forall>n\<in>set (event_numbers (th_published t)). \<forall>k\<in>set (event_numbers ?new). n < k"
    using assms numbers_bounded by (fastforce simp: numbered_def batch_numbers)
  moreover have "sorted_wrt (<) (event_numbers ?new)"
    by (simp add: batch_numbers sorted_wrt_map del: upt_Suc)
  moreover have "list_all (in_transcript (th_log t @ map (\<lambda>e. (r, capEventPayload e)) es)) (th_published t)"
    using assms by (auto simp: numbered_def list_all_iff intro: in_transcript_grows)
  ultimately show ?thesis
    using assms batch_in_transcript [of "th_log t" r es]
    by (simp add: numbered_def appendAndPublish_def sorted_wrt_append)
qed


lemma event_numbered [simp]:
  assumes "numbered t"
  shows "numbered (appendEvent r e t)"
  using assms by (auto simp: numbered_def appendEvent_def list_all_iff intro: in_transcript_grows)

lemma quiet_numbered [simp]:
  assumes "numbered t"
  shows "numbered (update_row f t)" "numbered (update_run i g t)" "numbered (touchActivity now t)" "numbered (enqueue w t)"
    "numbered (addTurnInFlight t)" "numbered (dropTurnInFlight c t)" "numbered (trackRunSettling i t)" "numbered (pop t)"
    "numbered (t\<lparr>th_question := q\<rparr>)" "numbered (t\<lparr>th_content := b\<rparr>)" "numbered (t\<lparr>th_runs := rs\<rparr>)" "numbered (t\<lparr>th_queue := ws\<rparr>)"
    "numbered (t\<lparr>th_live := l\<rparr>)" "numbered (t\<lparr>th_closing := c'\<rparr>)" "numbered (t\<lparr>th_settling := s\<rparr>)"
    "numbered (t\<lparr>th_end_reason := a, th_end_locale := d\<rparr>)" "numbered (t\<lparr>th_base := x, th_current := y\<rparr>)"
    "numbered (publish (PubDelta z) t)" "numbered (publish PubChanged t)"
  using assms by (simp_all add: numbered_def thread_defs pop_def in_transcript_def)

lemma clear_numbered [simp]: "numbered t \<Longrightarrow> numbered (clearWaitingIfPending r t)"
  by (simp add: clearWaitingIfPending_def)

lemma capture_numbered [simp]: "numbered t \<Longrightarrow> numbered (captureAgentSessionId c r t)"
  by (auto simp: captureAgentSessionId_def split: option.split bool.split prod.split)

lemma handle_numbered [simp]: "numbered t \<Longrightarrow> numbered (handleEvent now conv r e t)"
proof -
  have "numbered u \<Longrightarrow> numbered (event_effect now r e u)" for u
    by (cases e) (auto simp: event_effect_def)
  then show "numbered t \<Longrightarrow> numbered (handleEvent now conv r e t)"
    by (simp add: handle_effect Let_def)
qed

lemma dangling_numbered [simp]: "numbered t \<Longrightarrow> numbered (endDanglingRuns now reason t)"
proof -
  have "numbered u \<Longrightarrow> numbered (fold (end_dangling now reason) rs u)" for rs u
    by (induction rs arbitrary: u) (simp_all add: end_dangling_def)
  then show "numbered t \<Longrightarrow> numbered (endDanglingRuns now reason t)" by (simp add: endDanglingRuns_def)
qed

lemma suspend_numbered [simp]: "numbered t \<Longrightarrow> numbered (suspendServerSide now env reason w t)"
  by (simp add: suspendServerSide_def Let_def suspendWithSummary_def writeSummaryFileAndRecord_def writeFileForSuspended_def)

lemma end_numbered [simp]: "numbered t \<Longrightarrow> numbered (endRun now conv failed r why u t)"
proof -
  have "numbered v \<Longrightarrow> numbered (v\<lparr>th_turns := n, th_current := c, th_live := l, th_activity := a, th_ticks := k\<rparr>)"
      "numbered v \<Longrightarrow> numbered (v\<lparr>th_base := b\<rparr>)" for v n c l a k b
    by (simp_all add: numbered_def)
  then show "numbered t \<Longrightarrow> numbered (endRun now conv failed r why u t)"
    by (simp add: endRun_def Let_def)
qed

lemma finish_numbered [simp]: "numbered t \<Longrightarrow> numbered (finishRun now env failed r t)"
  by (simp add: finishRun_def Let_def)

lemma start_numbered:
  assumes "startRun now sa run pv opts t = (res, t')" and "numbered t"
  shows "numbered t'"
proof -
  have "numbered u \<Longrightarrow> numbered (start_log run opts u)" for u
    by (simp add: start_log_def Let_def split: option.split)
  with assms show ?thesis
    by (auto simp: startRun_def Let_def split: if_split_asm option.split_asm)
qed

lemma promote_numbered:
  "promoteDraftAndStart now wv x t = (res, t') \<Longrightarrow> numbered t \<Longrightarrow> numbered t'"
  by (auto simp: promoteDraftAndStart_def Let_def elim!: start_numbered split: if_split_asm option.split_asm sum.split_asm prod.split_asm)


lemma resume_numbered:
  "resumeByWriting now wv x logged t = (res, t') \<Longrightarrow> numbered t \<Longrightarrow> numbered t'"
  by (auto simp: resumeByWriting_def Let_def elim!: start_numbered split: if_split_asm option.split_asm sum.split_asm)

lemma idle_numbered:
  "send_into_idle now wv x logged t = (res, t') \<Longrightarrow> numbered t \<Longrightarrow> numbered t'"
  using promote_numbered resume_numbered by (fastforce simp: send_into_idle_def split: session_state.split_asm)

lemma asked_numbered:
  assumes "numbered t"
  shows "send_to_live now x l n r t = (k, t') \<Longrightarrow> numbered t'" "close_finish now t = (k, t') \<Longrightarrow> numbered t'"
    "answer_begin now i d t = (k, t') \<Longrightarrow> numbered t'" "interrupt_begin now w k0 t = (k, t') \<Longrightarrow> numbered t'"
    "handoff_end now env loc t = (k, t') \<Longrightarrow> numbered t'" "sweep_end idle ms tick t = (ks, t') \<Longrightarrow> numbered t'"
proof -
  have "numbered (endRunWithReason reason loc r t)" for reason loc r
    using assms by (simp add: endRunWithReason_def)
  with assms show "send_to_live now x l n r t = (k, t') \<Longrightarrow> numbered t'" "close_finish now t = (k, t') \<Longrightarrow> numbered t'"
    "answer_begin now i d t = (k, t') \<Longrightarrow> numbered t'" "interrupt_begin now w k0 t = (k, t') \<Longrightarrow> numbered t'"
    "handoff_end now env loc t = (k, t') \<Longrightarrow> numbered t'" "sweep_end idle ms tick t = (ks, t') \<Longrightarrow> numbered t'"
    by (auto simp: send_to_live_def close_finish_def answer_begin_def interrupt_begin_def handoff_end_def sweep_end_def Let_def
        split: if_split_asm option.split_asm sum.split_asm prod.split_asm)
qed

lemma continue_numbered:
  "continue_finish now env before t = (k, t') \<Longrightarrow> numbered t \<Longrightarrow> numbered t'"
  by (auto simp: continue_finish_def Let_def split: if_split_asm sum.split_asm)

lemma begin_numbered:
  assumes "begin_request now env here q t = (k, t')" and "numbered t"
  shows "numbered t'"
proof (cases q)
  case (ReqClose)
  with assms asked_numbered(2) [OF assms(2)] show ?thesis
    by (auto simp: begin_request_def close_begin_def split: option.split_asm)
next
  case (ReqHandoff loc)
  with assms asked_numbered(4) [OF assms(2)] show ?thesis
    by (auto simp: begin_request_def handoff_begin_def Let_def split: if_split_asm)
next
  case (ReqContinue expect pv)
  with assms continue_numbered [of now env _ t k t'] show ?thesis
    by (auto simp: begin_request_def continue_begin_def split: option.split_asm)
qed (use assms asked_numbered(3,4) [OF assms(2)] in \<open>auto simp: begin_request_def\<close>)

lemma drained_numbered:
  assumes "drained now env w t = (k, t')" and "numbered t"
  shows "numbered t'"
proof (cases w)
  case AfterClose
  with assms asked_numbered(2) [OF assms(2), of now k t'] show ?thesis by (auto simp: drained_def)
next
  case (AfterContinue before)
  with assms continue_numbered [of now env before t k t'] show ?thesis by (auto simp: drained_def)
qed (use assms in \<open>auto simp: drained_def\<close>)

lemma settle_numbered [simp]: "numbered (mc_thread m) \<Longrightarrow> numbered (mc_thread (run_settles r m))"
  by (simp add: run_settles_def settleRun_def)

definition channel_inv :: "machine \<Rightarrow> bool" where
  "channel_inv m \<longleftrightarrow> numbered (mc_thread m)"

lemma channel_step:
  assumes "machine_step m m'" and i: "channel_inv m"
  shows "channel_inv m'"
  using assms(1)
proof cases
  case (Request now env here q k t)
  with i show ?thesis by (auto simp: channel_inv_def dest: begin_numbered)
next
  case (SendLive x l n r saved now k t)
  with i show ?thesis by (auto simp: channel_inv_def dest: asked_numbered(1) [rotated])
next
  case (SendIdle x l n wv now)
  obtain res t where s: "send_into_idle now wv x l (mc_thread m) = (res, t)" by fastforce
  with i SendIdle(1) idle_numbered show ?thesis by (auto simp: channel_inv_def)
next
  case (Hand x n r' k a t)
  with i show ?thesis by (auto simp: channel_inv_def hand_over_def Let_def split: option.split_asm)
next
  case (Drained v now env k t)
  with i show ?thesis by (auto simp: channel_inv_def dest: drained_numbered)
next
  case (HandOff loc now env k t)
  with i show ?thesis by (auto simp: channel_inv_def dest: asked_numbered(5) [rotated])
next
  case (SweepEnd tick idle ms k t)
  with i show ?thesis by (auto simp: channel_inv_def dest: asked_numbered(6) [rotated])
next
  case Rename
  with i show ?thesis by (auto simp: channel_inv_def renameThread_def Let_def)
next
  case SetModel
  with i show ?thesis by (auto simp: channel_inv_def setModelAndEffort_def)
qed (use i in \<open>simp_all add: channel_inv_def dequeued_def makeSink_def\<close>)

interpretation channel: invariant_system machine_step channel_inv
  by unfold_locales (rule channel_step)

end
