(* ===== verification/RuntimeQuestions.thy ===== *)
theory RuntimeQuestions
  imports RuntimeAccounts
begin

text \<open>
  Whose question is pending: as long as no write of the record and no start has failed, the question that a thread
  keeps was asked by the run that is settling, and nothing behind it in the transcript answers it.
\<close>

section \<open>Questions in the transcript\<close>

text \<open>The question an event answers.\<close>

fun answers :: "canonical_event \<Rightarrow> string list" where
  "answers (QuestionEv q) = (if qp_decision q = None then [] else [qp_request q])"
| "answers e = []"

text \<open>The run asked the question, and it is still open at the end of the transcript.\<close>

definition open_question :: "run_id \<Rightarrow> question_payload \<Rightarrow> (run_id option \<times> canonical_event) list \<Rightarrow> bool" where
  "open_question r q log \<longleftrightarrow>
     qp_decision q = None
     \<and> (\<exists>before behind. log = before @ (Some r, QuestionEv q) # behind
          \<and> list_all (\<lambda>(_, e). qp_request q \<notin> set (answers e)) behind)"

lemma answers_capped [simp]: "answers (capEventPayload e) = answers e"
  by (cases e) (simp_all add: capEventPayload_def Let_def)

lemma open_question_asked: "qp_decision q = None \<Longrightarrow> open_question r q (log @ [(Some r, QuestionEv q)])"
  unfolding open_question_def by (intro conjI exI [of _ log] exI [of _ "[]"]) simp_all

lemma open_question_grows:
  assumes "open_question r q log" and "list_all (\<lambda>(_, e). qp_request q \<notin> set (answers e)) later"
  shows "open_question r q (log @ later)"
proof -
  from assms(1) obtain before behind where "qp_decision q = None" "log = before @ (Some r, QuestionEv q) # behind"
      "list_all (\<lambda>(_, e). qp_request q \<notin> set (answers e)) behind"
    by (auto simp: open_question_def)
  with assms(2) have "qp_decision q = None"
      "log @ later = before @ (Some r, QuestionEv q) # behind @ later \<and> list_all (\<lambda>(_, e). qp_request q \<notin> set (answers e)) (behind @ later)"
    by simp_all
  then show ?thesis unfolding open_question_def by blast
qed

section \<open>Operations that answer nothing\<close>

text \<open>The pending question stays, and what the transcript grows by answers nothing.\<close>

definition quiet :: "thread \<Rightarrow> thread \<Rightarrow> bool" where
  "quiet t t' \<longleftrightarrow>
     th_question t' = th_question t
     \<and> (\<exists>later. th_log t' = th_log t @ later \<and> list_all (\<lambda>(_, e). answers e = []) later)"

lemma quiet_refl [simp]: "quiet t t"
  by (simp add: quiet_def)

lemma quiet_trans: "quiet t u \<Longrightarrow> quiet u v \<Longrightarrow> quiet t v"
  by (force simp: quiet_def)

lemma quiet_same: "th_question v = th_question u \<Longrightarrow> th_log v = th_log u \<Longrightarrow> quiet t u \<Longrightarrow> quiet t v"
  by (simp add: quiet_def)

lemma quiet_frames [simp]:
  assumes "quiet t u"
  shows "quiet t (update_row f u)" "quiet t (update_run i g u)" "quiet t (touchActivity now u)" "quiet t (enqueue w u)"
    "quiet t (addTurnInFlight u)" "quiet t (dropTurnInFlight c u)" "quiet t (trackRunSettling i u)" "quiet t (pop u)"
    "quiet t (publish p u)" "quiet t (captureAgentSessionId v r u)" "quiet t (u\<lparr>th_content := b\<rparr>)" "quiet t (u\<lparr>th_runs := rs\<rparr>)"
    "quiet t (u\<lparr>th_queue := ws\<rparr>)" "quiet t (u\<lparr>th_live := l\<rparr>)" "quiet t (u\<lparr>th_closing := c'\<rparr>)" "quiet t (u\<lparr>th_settling := s\<rparr>)"
    "quiet t (u\<lparr>th_end_reason := a, th_end_locale := d\<rparr>)" "quiet t (u\<lparr>th_base := x, th_current := y\<rparr>)"
    "quiet t (u\<lparr>th_base := x\<rparr>)" "quiet t (u\<lparr>th_end_reason := a\<rparr>)"
    "quiet t (u\<lparr>th_turns := n, th_current := y, th_live := l, th_activity := a', th_ticks := k\<rparr>)"
  by (rule quiet_same [OF _ _ assms]; simp add: thread_simps)+

lemma quiet_append [simp]:
  assumes "quiet t u" and "list_all (\<lambda>e. answers e = []) es"
  shows "quiet t (appendAndPublish r es u)"
proof -
  from assms(2) have "quiet u (appendAndPublish r es u)"
    by (auto simp: quiet_def thread_simps list_all_iff)
  with assms(1) show ?thesis by (rule quiet_trans)
qed

lemma quiet_event [simp]:
  assumes "quiet t u" and "answers e = []"
  shows "quiet t (appendEvent r e u)"
proof -
  from assms(2) have "quiet u (appendEvent r e u)"
    by (auto simp: quiet_def thread_defs)
  with assms(1) show ?thesis by (rule quiet_trans)
qed

lemma quiet_dangling [simp]: "quiet t u \<Longrightarrow> quiet t (endDanglingRuns now reason u)"
proof -
  have "quiet t v \<Longrightarrow> quiet t (fold (end_dangling now reason) rs v)" for rs v
    by (induction rs arbitrary: v) (simp_all add: end_dangling_def)
  then show "quiet t u \<Longrightarrow> quiet t (endDanglingRuns now reason u)" by (simp add: endDanglingRuns_def)
qed

lemma quiet_suspend [simp]: "quiet t u \<Longrightarrow> quiet t (suspendServerSide now env reason w u)"
  by (simp add: suspendServerSide_def Let_def suspendWithSummary_def writeSummaryFileAndRecord_def writeFileForSuspended_def)

lemma quiet_end [simp]: "quiet t u \<Longrightarrow> quiet t (endRun now conv failed r why use u)"
  by (simp add: endRun_def Let_def)

lemma quiet_start:
  assumes "startRun now sa run pv opts u = (res, t')" and "quiet t u"
  shows "quiet t t'"
proof -
  have "quiet t v \<Longrightarrow> quiet t (start_log run opts v)" for v
    by (simp add: start_log_def Let_def split: option.split)
  with assms show ?thesis
    by (auto simp: startRun_def Let_def split: if_split_asm option.split_asm)
qed

lemma quiet_idle:
  assumes "send_into_idle now wv x logged t = (res, t')"
  shows "quiet t t'"
proof -
  have "promoteDraftAndStart now wv x t = (res, t') \<Longrightarrow> quiet t t'"
    by (auto simp: promoteDraftAndStart_def Let_def elim!: quiet_start split: if_split_asm option.split_asm sum.split_asm prod.split_asm)
  moreover have "resumeByWriting now wv x logged t = (res, t') \<Longrightarrow> quiet t t'"
    by (auto simp: resumeByWriting_def Let_def elim!: quiet_start split: if_split_asm option.split_asm sum.split_asm)
  ultimately show ?thesis
    using assms by (auto simp: send_into_idle_def split: session_state.split_asm)
qed

lemma quiet_parts:
  shows "send_to_live now x l n r t = (k, t') \<Longrightarrow> quiet t t'" "close_finish now t = (k, t') \<Longrightarrow> quiet t t'"
    "answer_begin now i d t = (k, t') \<Longrightarrow> quiet t t'" "interrupt_begin now w k0 t = (k, t') \<Longrightarrow> quiet t t'"
    "handoff_end now env loc t = (k, t') \<Longrightarrow> quiet t t'" "sweep_end idle ms tick t = (ks, t') \<Longrightarrow> quiet t t'"
    "continue_finish now env before t = (k, t') \<Longrightarrow> quiet t t'"
  by (auto simp: send_to_live_def close_finish_def answer_begin_def interrupt_begin_def handoff_end_def sweep_end_def
      continue_finish_def endRunWithReason_def Let_def split: if_split_asm option.split_asm sum.split_asm prod.split_asm)

lemma quiet_begin:
  assumes "begin_request now env here q t = (k, t')"
  shows "quiet t t'"
proof (cases q)
  case ReqClose
  with assms quiet_parts(2) show ?thesis
    by (auto simp: begin_request_def close_begin_def split: option.split_asm)
next
  case (ReqHandoff loc)
  with assms quiet_parts(4) show ?thesis
    by (auto simp: begin_request_def handoff_begin_def Let_def split: if_split_asm)
next
  case (ReqContinue expect pv)
  with assms quiet_parts(7) show ?thesis
    by (auto simp: begin_request_def continue_begin_def split: option.split_asm)
qed (use assms quiet_parts(3,4) in \<open>auto simp: begin_request_def\<close>)

lemma quiet_drained:
  assumes "drained now env w t = (k, t')"
  shows "quiet t t'"
  using assms quiet_parts(2,7) by (auto simp: drained_def split: wait.split_asm)

section \<open>The pending question is the settling run's\<close>

definition question_ok :: "run_id option \<Rightarrow> thread \<Rightarrow> bool" where
  "question_ok settling t \<longleftrightarrow>
     (\<forall>q. th_question t = Some q \<longrightarrow> (\<exists>r. settling = Some r \<and> open_question r q (th_log t)))"

definition question_inv :: "machine \<Rightarrow> bool" where
  "question_inv m \<longleftrightarrow> mc_faulty m \<or> question_ok (th_settling (mc_thread m)) (mc_thread m)"

lemma question_ok_quiet:
  assumes "question_ok s t" and "quiet t t'"
  shows "question_ok s t'"
proof -
  from assms(2) obtain later where "th_question t' = th_question t" "th_log t' = th_log t @ later"
      "list_all (\<lambda>(_, e). answers e = []) later"
    by (auto simp: quiet_def)
  moreover from this(3) have "list_all (\<lambda>(_, e). qp_request q \<notin> set (answers e)) later" for q :: question_payload
    by (auto simp: list_all_iff)
  ultimately show ?thesis
    using assms(1) open_question_grows by (fastforce simp: question_ok_def)
qed

lemma question_ok_none: "th_question t = None \<Longrightarrow> question_ok s t"
  by (simp add: question_ok_def)

text \<open>An event of the settling run keeps the question its own, or clears it.\<close>

lemma question_ok_event:
  assumes "question_ok (Some r) t"
  shows "question_ok (Some r) (handleEvent now conv r e t)"
proof (cases "\<exists>q. e = QuestionEv q")
  case False
  then have a: "answers e = []" by (cases e) auto
  with False have "quiet t (handleEvent now conv r e t)"
    by (cases e) (simp_all add: handle_effect event_effect_def Let_def)
  with assms show ?thesis by (rule question_ok_quiet)
next
  case True
  then obtain q where e: "e = QuestionEv q" ..
  define u where "u = captureAgentSessionId conv r (touchActivity now (appendAndPublish (Some r) [e] t))"
  have h: "handleEvent now conv r e t = event_effect now r e u"
    by (simp add: handle_effect u_def e consumed_by_def dropTurnInFlight_def Let_def)
  have l: "th_log u = th_log t @ [(Some r, QuestionEv q)]" and p: "th_question u = th_question t"
    by (simp_all add: u_def e thread_simps capEventPayload_def)
  show ?thesis
  proof (cases "qp_decision q")
    case None
    then have "th_question (event_effect now r e u) = Some q"
        "th_log (event_effect now r e u) = (th_log t @ [(Some r, QuestionEv q)]) @ [(Some r, StateChanged Running Running True None)]"
      by (simp_all add: e event_effect_def l thread_simps capEventPayload_def)
    moreover have "open_question r q ((th_log t @ [(Some r, QuestionEv q)]) @ [(Some r, StateChanged Running Running True None)])"
      by (rule open_question_grows [OF open_question_asked [OF None]]) simp
    ultimately show ?thesis
      unfolding h question_ok_def by (simp del: append_assoc)
  next
    case (Some d)
    show ?thesis
    proof (cases "map_option qp_request (th_question u) = Some (qp_request q)")
      case True
      then have "th_question (event_effect now r e u) = None"
        by (simp add: e event_effect_def Some thread_simps)
      then show ?thesis unfolding h by (rule question_ok_none)
    next
      case False
      then have "event_effect now r e u = u" by (auto simp: e event_effect_def Some)
      with False assms show ?thesis
        unfolding h by (auto simp: question_ok_def l p intro!: open_question_grows)
    qed
  qed
qed


lemma question_step:
  assumes "machine_step m m'" and r: "runs_inv m" and i: "question_inv m"
  shows "question_inv m'"
  using assms(1)
proof cases
  case (Request now env here q k t)
  with i begin_asks [OF Request(3)] question_ok_quiet [OF _ quiet_begin [OF Request(3)]] show ?thesis
    by (auto simp: question_inv_def asks_def same_runs_def)
next
  case (SendLive x l n r saved now k t)
  with i send_to_live_asks [OF SendLive(4)] question_ok_quiet [OF _ quiet_parts(1) [OF SendLive(4)]] show ?thesis
    by (auto simp: question_inv_def same_runs_def)
next
  case (SendIdle x l n wv now)
  obtain res t where s: "send_into_idle now wv x l (mc_thread m) = (res, t)" by fastforce
  from i SendIdle(4) have "mc_faulty m \<or> th_question (mc_thread m) = None"
    by (auto simp: question_inv_def question_ok_def)
  with quiet_idle [OF s] have "mc_faulty m \<or> th_question t = None"
    by (auto simp: quiet_def)
  with s SendIdle(1) show ?thesis by (auto simp: question_inv_def intro: question_ok_none)
next
  case (Hand x n r' k a t)
  have "quiet (mc_thread m) (mc_thread m')" "th_settling (mc_thread m') = th_settling (mc_thread m)" "mc_faulty m' = mc_faulty m"
    using Hand by (auto simp: hand_over_def Let_def thread_simps split: option.split_asm)
  with i question_ok_quiet show ?thesis by (auto simp: question_inv_def)
next
  case (Drained v now env k t)
  with i drained_asks [OF Drained(3)] question_ok_quiet [OF _ quiet_drained [OF Drained(3)]] show ?thesis
    by (auto simp: question_inv_def asks_def same_runs_def)
next
  case (HandOff loc now env k t)
  with i handoff_end_asks [OF HandOff(3)] question_ok_quiet [OF _ quiet_parts(5) [OF HandOff(3)]] show ?thesis
    by (auto simp: question_inv_def asks_def same_runs_def)
next
  case (QueueEvent r' e q now)
  from event_item [OF r QueueEvent(2)] r have s: "th_settling (mc_thread m) = Some r'"
    by (simp add: runs_inv_def runs_ok_def live_inv_def)
  have "quiet (mc_thread m) (pop (mc_thread m))" by simp
  with i s question_ok_quiet question_ok_event have "mc_faulty m \<or> question_ok (Some r') (handleEvent now (ag_conversation (mc_agents m) r') r' e (pop (mc_thread m)))"
    by (auto simp: question_inv_def)
  with QueueEvent(1) s show ?thesis by (simp add: question_inv_def dequeued_def thread_simps)
next
  case (QueueAnswer r' p q t)
  then have "th_question (mc_thread m') = None" by (simp add: dequeued_def thread_simps)
  then show ?thesis by (simp add: question_inv_def question_ok_none)
next
  case (QueueEnd r' r'' why u q t now)
  have "quiet (mc_thread m) (mc_thread m')" using QueueEnd by simp
  with i question_ok_quiet QueueEnd show ?thesis by (auto simp: question_inv_def thread_simps)
next
  case (QueueEndFails r' r'' why u q t now)
  then show ?thesis by (simp add: question_inv_def run_settles_def dequeued_def)
next
  case (QueueEndLate r' r'' why u q t now)
  then show ?thesis
    using end_item [OF r QueueEndLate(2)] by (simp add: isCurrentRun_def)
next
  case (QueueFinish r' q t now env failed)
  have "th_question (mc_thread m') = None"
    using QueueFinish by (simp add: run_settles_def dequeued_def settleRun_def thread_simps)
  then show ?thesis by (simp add: question_inv_def question_ok_none)
next
  case (SweepEnd tick idle ms k t)
  have "th_settling t = th_settling (mc_thread m)"
    using SweepEnd(3) by (auto simp: sweep_end_def thread_simps split: option.split_asm if_split_asm)
  with i SweepEnd question_ok_quiet [OF _ quiet_parts(6) [OF SweepEnd(3)]] show ?thesis by (auto simp: question_inv_def)
next
  case (Rename x)
  have "quiet (mc_thread m) (mc_thread m')" "th_settling (mc_thread m') = th_settling (mc_thread m)"
    using Rename by (auto simp: renameThread_def Let_def thread_simps)
  with i Rename question_ok_quiet show ?thesis by (auto simp: question_inv_def)
next
  case (SetModel model effort)
  have "quiet (mc_thread m) (mc_thread m')" "th_settling (mc_thread m') = th_settling (mc_thread m)"
    using SetModel by (auto simp: setModelAndEffort_def thread_simps)
  with i SetModel question_ok_quiet show ?thesis by (auto simp: question_inv_def)
qed (use i question_ok_quiet [of "th_settling (mc_thread m)" "mc_thread m"] in
    \<open>auto simp: question_inv_def dequeued_def makeSink_def thread_simps\<close>)

interpretation questions: invariant_system machine_step "\<lambda>m. machine_inv chat0 m \<and> question_inv m"
  for chat0
proof unfold_locales
  fix s t
  assume a: "machine_inv chat0 s \<and> question_inv s" and s: "machine_step s t"
  then have "runs_inv s" by (simp add: machine_inv_def)
  with a s show "machine_inv chat0 t \<and> question_inv t"
    using runtime.step_inv question_step by blast
qed

lemma pending_question:
  assumes "initial m0" and "machine_step\<^sup>*\<^sup>* m0 m" and "\<not> mc_faulty m"
    and "live_run (mc_thread m) = Some r" and "th_question (mc_thread m) = Some q"
  shows "open_question r q (th_log (mc_thread m))"
proof -
  from assms(1) have "machine_inv (chat_of (mc_thread m0)) m0 \<and> question_inv m0"
    by (auto simp: initial_inv question_inv_def question_ok_def initial_def quiet_thread_def)
  from questions.run_inv [OF assms(2) this] assms(3-5) show ?thesis
    by (auto simp: question_inv_def question_ok_def machine_inv_def runs_inv_def runs_ok_def live_inv_def)
qed

end
