(* ===== verification/RuntimeSamples.thy ===== *)
theory RuntimeSamples
  imports RuntimeAccounts
begin

text \<open>
  A thread from its draft to its suspend, step by step: a message starts a run, the run answers it, the idle sweep
  ends the run, and the record is suspended.  The witnesses of the runtime's properties stand on its machines.
\<close>

definition day_moment :: moment where "day_moment = \<lparr>mo_ms = 1000, mo_iso = ''2026-01-02''\<rparr>"

definition day_row :: "session_state \<Rightarrow> session_row" where
  "day_row st =
     \<lparr>se_id = ''s1'', se_node = Some ''n1'', se_user = ''ann'', se_type = InteractiveTask, se_cli = None,
      se_instance = None, se_agent_session = None, se_terminal = None, se_runner = Some ''claude'',
      se_host = Some ''here'', se_waiting_since = None, se_state = st, se_handoff_path = None,
      se_handoff_hash = None, se_name = ''n'', se_custom_name = False, se_model = None, se_effort = None,
      se_context_used = None, se_context_max = None,
      se_created_at = ''2026-01-01'', se_active_at = ''2026-01-01'', se_closed_at = None\<rparr>"

definition day_thread :: "session_state \<Rightarrow> thread" where
  "day_thread st =
     \<lparr>th_row = day_row st, th_runs = [], th_log = [], th_content = None, th_live = None, th_question = None,
      th_base = (\<lambda>_. None), th_closing = False, th_end_reason = None, th_end_locale = None, th_activity = None,
      th_ticks = None, th_turns = 0, th_current = None, th_settling = None, th_queue = [], th_published = []\<rparr>"

definition day_provisioned :: provisioned where
  "day_provisioned =
     \<lparr>pv_cwd = ''/m'', pv_orientation = '''', pv_mcp = \<lparr>me_url = ''u'', me_token = ''t'', me_home = ''h'', me_headers = []\<rparr>,
      pv_root = ''/'', pv_mirrors = [''/m'']\<rparr>"

definition day_start :: "string option \<Rightarrow> start_env" where
  "day_start e = \<lparr>sa_scope = 1, sa_defaults = None, sa_env = [], sa_known = True, sa_error = e\<rparr>"

definition day_env :: "string option \<Rightarrow> write_env" where
  "day_env e =
     \<lparr>wv_runner = None, wv_provision = Inr day_provisioned, wv_resumable = False, wv_file = None, wv_summary = ''sum'',
      wv_run = ''r1'', wv_host = ''here'', wv_start = day_start e\<rparr>"

definition day_handoff :: handoff_env where
  "day_handoff = \<lparr>hv_mirror = True, hv_summary = ''sum'', hv_hash = (\<lambda>_. ''hash''), hv_title = (\<lambda>_. None)\<rparr>"

definition day0 :: machine where
  "day0 =
     \<lparr>mc_thread = day_thread Draft,
      mc_agents = \<lparr>ag_status = (\<lambda>_. Absent), ag_taken = [], ag_answered = (\<lambda>_. 0), ag_conversation = (\<lambda>_. None)\<rparr>,
      mc_task = Idle, mc_sweep = Resting, mc_request = None, mc_written = False, mc_replies = [], mc_faulty = False\<rparr>"

section \<open>Steps as functions\<close>

definition requested :: "request \<Rightarrow> machine \<Rightarrow> machine" where
  "requested q m =
     (case begin_request day_moment day_handoff ''here'' q (mc_thread m) of
        (k, t) \<Rightarrow> m\<lparr>mc_thread := t, mc_agents := agent_told k (mc_agents m), mc_task := k, mc_request := Some q, mc_written := False\<rparr>)"

definition sent_idle :: "string \<Rightarrow> machine \<Rightarrow> machine" where
  "sent_idle x m = start_outcome x (send_into_idle day_moment (day_env None) x False (mc_thread m)) m"

definition drained_by :: "wait \<Rightarrow> machine \<Rightarrow> machine" where
  "drained_by w m = (case drained day_moment day_handoff w (mc_thread m) of (k, t) \<Rightarrow> m\<lparr>mc_thread := t, mc_task := k\<rparr>)"

definition replied :: "request \<Rightarrow> runtime_error option \<Rightarrow> machine \<Rightarrow> machine" where
  "replied q e m = m\<lparr>mc_task := Idle, mc_request := None, mc_replies := mc_replies m @ [(q, mc_written m, e)]\<rparr>"

definition emitted :: "run_id \<Rightarrow> sink_item \<Rightarrow> machine \<Rightarrow> machine" where
  "emitted r i m = m\<lparr>mc_agents := agent_emits r i (mc_agents m), mc_thread := makeSink r i (mc_thread m)\<rparr>"

definition handled :: "run_id \<Rightarrow> canonical_event \<Rightarrow> machine \<Rightarrow> machine" where
  "handled r e m = dequeued (handleEvent day_moment (ag_conversation (mc_agents m) r) r e (pop (mc_thread m))) m"

definition swept_at :: "nat \<Rightarrow> machine \<Rightarrow> machine" where
  "swept_at tick m =
     (case sweep_end 0 2000 tick (mc_thread m) of
        (k, t) \<Rightarrow> m\<lparr>mc_thread := t, mc_sweep := k,
          mc_agents := (case k of SweepClosing r \<Rightarrow> agent_close r (mc_agents m) | _ \<Rightarrow> mc_agents m)\<rparr>)"

definition gone :: "run_id \<Rightarrow> machine \<Rightarrow> machine" where
  "gone r m = m\<lparr>mc_agents := (mc_agents m)\<lparr>ag_status := (ag_status (mc_agents m))(r := Over)\<rparr>,
                mc_thread := makeSink r (Canonical (RunEndedEv r EndCompleted JNull)) (mc_thread m)\<rparr>"

definition run_ended :: "run_id \<Rightarrow> machine \<Rightarrow> machine" where
  "run_ended r m =
     (let t = endRun day_moment (ag_conversation (mc_agents m) r) False r EndSuspended JNull (pop (mc_thread m))
      in m\<lparr>mc_thread := t\<lparr>th_queue := WFinish r # th_queue t\<rparr>\<rparr>)"

definition run_finished :: "run_id \<Rightarrow> machine \<Rightarrow> machine" where
  "run_finished r m =
     run_settles r (dequeued (finishRun day_moment day_handoff False r (pop (mc_thread m))) (m\<lparr>mc_faulty := (mc_faulty m \<or> False)\<rparr>))"

definition day_answer :: canonical_event where "day_answer = TurnEnded ''r1'' (Some 1)"

definition day1 :: machine where "day1 = requested (ReqSend ''Hello'') day0"
definition day2 :: machine where "day2 = sent_idle ''Hello'' day1"
definition day3 :: machine where "day3 = drained_by (AfterSend ''Hello'') day2"
definition day4 :: machine where "day4 = replied (ReqSend ''Hello'') None day3"
definition day5 :: machine where "day5 = emitted ''r1'' (Canonical day_answer) day4"
definition day6 :: machine where "day6 = handled ''r1'' day_answer day5"
definition day7 :: machine where "day7 = day6\<lparr>mc_sweep := Picked 2\<rparr>"
definition day8 :: machine where "day8 = swept_at 2 day7"
definition day9 :: machine where "day9 = gone ''r1'' day8"
definition day10 :: machine where "day10 = run_ended ''r1'' day9"
definition day11 :: machine where "day11 = run_finished ''r1'' day10"

section \<open>The steps\<close>

lemma requested_step: "mc_task m = Idle \<Longrightarrow> machine_step m (requested q m)"
  by (auto simp: requested_def intro: machine_step.Request split: prod.split)

lemma drained_step: "mc_task m = Draining w 0 \<Longrightarrow> machine_step m (drained_by w m)"
  by (auto simp: drained_by_def intro: machine_step.Drained split: prod.split)

lemma swept_step: "mc_sweep m = Picked tick \<Longrightarrow> machine_step m (swept_at tick m)"
  by (auto simp only: swept_at_def split: prod.split) (rule machine_step.SweepEnd)

lemma day_1: "machine_step day0 day1"
  unfolding day1_def by (rule requested_step) code_simp

lemma day_2: "machine_step day1 day2"
  unfolding day2_def sent_idle_def by (rule machine_step.SendIdle [where n = 0]) code_simp+

lemma day_3: "machine_step day2 day3"
  unfolding day3_def by (rule drained_step) code_simp

lemma day_4: "machine_step day3 day4"
  unfolding day4_def replied_def by (rule machine_step.Reply) code_simp+

text \<open>The afternoon is followed on the maps.\<close>

lemma day4_maps:
  "th_queue (mc_thread day4) = []" "th_live (mc_thread day4) = Some (''r1'', False)" "th_current (mc_thread day4) = Some ''r1''"
  "th_settling (mc_thread day4) = Some ''r1''" "th_turns (mc_thread day4) = 1" "th_question (mc_thread day4) = None"
  "\<not> th_closing (mc_thread day4)" "th_ticks (mc_thread day4) = Some 1" "se_state (th_row (mc_thread day4)) = Running"
  "ag_status (mc_agents day4) ''r1'' = Taking" "ag_answered (mc_agents day4) ''r1'' = 0"
  "ag_taken (mc_agents day4) = [(''r1'', ''Hello'')]" "ag_conversation (mc_agents day4) ''r1'' = None"
  "mc_task day4 = Idle" "mc_sweep day4 = Resting" "\<not> mc_faulty day4" "mc_replies day4 = [(ReqSend ''Hello'', True, None)]"
  by code_simp+

lemma day5_maps:
  "th_queue (mc_thread day5) = [WEvent ''r1'' (Canonical day_answer)]"
  "ag_conversation (mc_agents day5) ''r1'' = None" "th_live (mc_thread day5) = Some (''r1'', False)" "th_current (mc_thread day5) = Some ''r1''"
  "th_settling (mc_thread day5) = Some ''r1''" "th_turns (mc_thread day5) = 1" "th_question (mc_thread day5) = None" "\<not> th_closing (mc_thread day5)"
  "th_ticks (mc_thread day5) = Some 1" "se_state (th_row (mc_thread day5)) = Running" "ag_status (mc_agents day5) ''r1'' = Taking"
  "mc_task day5 = Idle" "mc_sweep day5 = Resting" "\<not> mc_faulty day5"
  by (simp_all add: day5_def emitted_def makeSink_def thread_simps day4_maps withSuspendReason_def day_answer_def agent_emits_def
      enqueue_def)

lemma day6_maps:
  "th_queue (mc_thread day6) = []" "th_live (mc_thread day6) = Some (''r1'', False)" "th_current (mc_thread day6) = Some ''r1''"
  "th_settling (mc_thread day6) = Some ''r1''" "th_turns (mc_thread day6) = 0" "th_question (mc_thread day6) = None" "\<not> th_closing (mc_thread day6)"
  "th_ticks (mc_thread day6) = Some 2" "th_activity (mc_thread day6) = Some 1000" "se_state (th_row (mc_thread day6)) = Running"
  "ag_status (mc_agents day6) ''r1'' = Taking" "ag_conversation (mc_agents day6) ''r1'' = None"
  "mc_task day6 = Idle" "mc_sweep day6 = Resting" "\<not> mc_faulty day6"
  by (simp_all add: day6_def handled_def dequeued_def handleEvent_def thread_defs pop_def day5_maps day_answer_def isCurrentRun_def
      captureAgentSessionId_def or_else_def truthy_opt_def day_moment_def)

lemma day8_maps:
  "mc_sweep day8 = SweepClosing ''r1''" "th_queue (mc_thread day8) = []" "th_live (mc_thread day8) = Some (''r1'', False)"
  "th_current (mc_thread day8) = Some ''r1''" "th_settling (mc_thread day8) = Some ''r1''" "\<not> th_closing (mc_thread day8)"
  "se_state (th_row (mc_thread day8)) = Running" "th_question (mc_thread day8) = None"
  "ag_status (mc_agents day8) ''r1'' = Ending" "ag_conversation (mc_agents day8) ''r1'' = None" "mc_task day8 = Idle" "\<not> mc_faulty day8"
  by (simp_all add: day8_def swept_at_def sweep_end_def day7_def isIdleRun_def isTurnInFlight_def or_else_def day6_maps
      endRunWithReason_def agent_close_def)

lemma day9_maps:
  "th_queue (mc_thread day9) = [WEvent ''r1'' (Canonical (RunEndedEv ''r1'' EndSuspended JNull))]" "th_current (mc_thread day9) = Some ''r1''"
  "th_settling (mc_thread day9) = Some ''r1''" "\<not> th_closing (mc_thread day9)" "se_state (th_row (mc_thread day9)) = Running"
  "mc_task day9 = Idle" "\<not> mc_faulty day9"
  by (simp_all add: day9_def gone_def makeSink_def thread_simps withSuspendReason_def day8_maps enqueue_def)

lemma day10_maps:
  "th_queue (mc_thread day10) = [WFinish ''r1'']" "live_run (mc_thread day10) = None" "th_settling (mc_thread day10) = Some ''r1''"
  "\<not> th_closing (mc_thread day10)" "se_state (th_row (mc_thread day10)) = Running" "mc_task day10 = Idle" "\<not> mc_faulty day10"
  by (simp_all add: day10_def run_ended_def Let_def thread_simps day9_maps)

lemma day11_maps:
  "live_run (mc_thread day11) = None" "th_settling (mc_thread day11) = None" "se_state (th_row (mc_thread day11)) = Suspended"
  "mc_task day11 = Idle" "\<not> mc_faulty day11"
  by (simp_all add: day11_def run_finished_def run_settles_def settleRun_def dequeued_def thread_simps day10_maps)

lemma day_5: "machine_step day4 day5"
  unfolding day5_def emitted_def
  by (rule machine_step.AgentEmits) (simp add: may_emit_def day_answer_def day4_maps taken_by_def consumed_by_def or_else_def)

lemma day_6: "machine_step day5 day6"
  unfolding day6_def handled_def by (rule machine_step.QueueEvent [OF day5_maps(1)]) (simp add: day_answer_def)

lemma day_7: "machine_step day6 day7"
proof -
  have "sweep_pick 0 2000 (mc_thread day6) = Picked 2"
    by (simp add: sweep_pick_def isIdleRun_def isTurnInFlight_def or_else_def day6_maps)
  with machine_step.SweepPick [of day6 0 2000] show ?thesis by (simp add: day7_def day6_maps)
qed

lemma day_8: "machine_step day7 day8"
  unfolding day8_def by (rule swept_step) (simp add: day7_def)

lemma day_9: "machine_step day8 day9"
  unfolding day9_def gone_def by (rule machine_step.AgentEnds) (simp add: day8_maps)

lemma day_10: "machine_step day9 day10"
  unfolding day10_def run_ended_def Let_def
  by (rule machine_step.QueueEnd [OF day9_maps(1)]) (simp_all add: isCurrentRun_def day9_maps)

lemma day_11: "machine_step day10 day11"
  unfolding day11_def run_finished_def by (rule machine_step.QueueFinish [OF day10_maps(1)]) (rule refl)

lemma day_initial: "initial day0"
  by (simp add: initial_def quiet_thread_def day0_def day_thread_def day_row_def)

lemmas one_more = rtranclp.rtrancl_into_rtrancl [of machine_step]

lemma day_reaches:
  "machine_step\<^sup>*\<^sup>* day0 day2" "machine_step\<^sup>*\<^sup>* day0 day4" "machine_step\<^sup>*\<^sup>* day0 day7" "machine_step\<^sup>*\<^sup>* day0 day11"
proof -
  show d2: "machine_step\<^sup>*\<^sup>* day0 day2"
    by (rule one_more [OF one_more [OF rtranclp.rtrancl_refl day_1] day_2])
  show d4: "machine_step\<^sup>*\<^sup>* day0 day4"
    by (rule one_more [OF one_more [OF d2 day_3] day_4])
  show d7: "machine_step\<^sup>*\<^sup>* day0 day7"
    by (rule one_more [OF one_more [OF one_more [OF d4 day_5] day_6] day_7])
  show "machine_step\<^sup>*\<^sup>* day0 day11"
    by (rule one_more [OF one_more [OF one_more [OF one_more [OF d7 day_8] day_9] day_10] day_11])
qed

end
