(* ===== verification/RuntimeGuarantees.thy ===== *)
theory RuntimeGuarantees
  imports RuntimeChannel RuntimeQuestions RuntimeSamples
begin

text \<open>
  What the runtime promises of a thread, whatever the order of its operations, its queue, the idle sweep and the
  agents: one run at a time, every accepted message once, no operation that waits for nothing, no working run
  ended as idle, and no idle thread left running.
\<close>

section \<open>An operation can always go on\<close>

text \<open>How far an operation is from its end; its attempts count for more than its waits.\<close>

fun task_rank :: "task \<Rightarrow> nat" where
  "task_rank Idle = 0"
| "task_rank (Finished e) = 1"
| "task_rank (Draining w n) = (case w of AfterHandoffStop l \<Rightarrow> 5 | _ \<Rightarrow> 2)"
| "task_rank (Answering r) = 3"
| "task_rank (Closing w r) = 3 + (case w of AfterHandoffStop l \<Rightarrow> 3 | _ \<Rightarrow> 0)"
| "task_rank (HandingOff l) = 4"
| "task_rank (Sending x l n) = 4 * (MAX_DELIVERY_ATTEMPTS - n) + 7"
| "task_rank (Logging x n r) = 4 * (MAX_DELIVERY_ATTEMPTS - n) + 6"
| "task_rank (Handing x n r) = 4 * (MAX_DELIVERY_ATTEMPTS - n) + 5"
| "task_rank (Settling x l n r) = 4 * (MAX_DELIVERY_ATTEMPTS - n) + 8"

fun work_rank :: "work \<Rightarrow> nat" where
  "work_rank (WFinish r) = 1"
| "work_rank w = 2"

definition queue_rank :: "machine \<Rightarrow> nat" where
  "queue_rank m = sum_list (map work_rank (th_queue (mc_thread m)))"

text \<open>One while the live run's process has not gone.\<close>

definition driving :: "(run_id \<Rightarrow> agent_status) \<Rightarrow> run_id option \<Rightarrow> nat" where
  "driving st live = (case live of None \<Rightarrow> 0 | Some r \<Rightarrow> if st r = Over then 0 else 1)"

definition process_rank :: "machine \<Rightarrow> nat" where
  "process_rank m = driving (ag_status (mc_agents m)) (live_run (mc_thread m))"

lemma driving_None [simp]: "driving st None = 0"
  by (simp add: driving_def)

lemma rank_moved [simp]:
  "task_rank (item_done k) = task_rank k" "task_rank (wake r k) \<le> task_rank k" "task_rank (logged_now k) \<le> task_rank k"
  "task_rank (answered_now n (item_done k)) \<le> task_rank k"
  by (cases k; simp)+

lemma deliver_rank:
  "n < MAX_DELIVERY_ATTEMPTS \<Longrightarrow> task_rank (deliverAfterRunEnd x n l t) < task_rank (Handing x n r)"
  by (auto simp: deliverAfterRunEnd_def split: option.split)

text \<open>The queue moves on its own; an operation that waits for it comes no further from its end.\<close>

lemma queue_moves:
  assumes i: "machine_inv chat0 m" and q: "th_queue (mc_thread m) \<noteq> []"
  shows "\<exists>m'. machine_step m m' \<and> task_rank (mc_task m') \<le> task_rank (mc_task m) \<and> process_rank m' \<le> process_rank m
    \<and> queue_rank m' < queue_rank m"
proof -
  from q obtain w q where q: "th_queue (mc_thread m) = w # q" by (cases "th_queue (mc_thread m)") auto
  from i have r: "runs_inv m" by (simp add: machine_inv_def)
  show ?thesis
  proof (cases w)
    case (WEvent r' it)
    show ?thesis
    proof (cases "is_end it")
      case True
      then obtain r'' why u where w: "th_queue (mc_thread m) = WEvent r' (Canonical (RunEndedEv r'' why u)) # q"
        using q WEvent by (cases it rule: is_end.cases) auto
      note e = end_item [OF r w]
      then have "isCurrentRun r' (mc_thread m)" by (simp add: isCurrentRun_def)
      from machine_step.QueueEnd [OF w this refl, of undefined] e w show ?thesis
        by (intro exI conjI) (assumption, simp_all add: process_rank_def queue_rank_def thread_simps)
    next
      case False
      show ?thesis
      proof (cases it)
        case (Canonical e)
        with False have "\<And>a b c. e \<noteq> RunEndedEv a b c" by auto
        from machine_step.QueueEvent [OF q [unfolded WEvent Canonical] this, of undefined] q WEvent show ?thesis
          by (intro exI conjI) (assumption, simp_all add: process_rank_def queue_rank_def thread_simps dequeued_def)
      next
        case (Delta d)
        from machine_step.QueueDelta [OF q [unfolded WEvent Delta]] q WEvent show ?thesis
          by (intro exI conjI) (assumption, simp_all add: process_rank_def queue_rank_def thread_simps dequeued_def)
      qed
    qed
  next
    case (WMessage r' x)
    from machine_step.QueueMessage [OF q [unfolded WMessage]] q WMessage show ?thesis
      by (intro exI conjI) (assumption, simp_all add: process_rank_def queue_rank_def thread_simps dequeued_def)
  next
    case (WAnswer r' p)
    from machine_step.QueueAnswer [OF q [unfolded WAnswer] refl] q WAnswer rank_moved show ?thesis
      by (intro exI conjI) (assumption, auto simp add: process_rank_def queue_rank_def thread_simps dequeued_def intro: order_trans)
  next
    case (WFinish r')
    note w = q [unfolded WFinish]
    from machine_step.QueueFinish [OF w refl, of undefined undefined False] finish_item [OF r w] w show ?thesis
      by (intro exI conjI) (assumption, simp_all add: process_rank_def queue_rank_def thread_simps dequeued_def run_settles_settled
          order_trans [OF rank_moved(2)])
  qed
qed


text \<open>
  One step brings an operation nearer to its end: its own, the queue's, or the end of the run it waits for.
\<close>

definition nearer :: "(machine \<times> machine) set" where
  "nearer = measures [task_rank \<circ> mc_task, process_rank, queue_rank]"

lemma nearer_wf: "wf nearer"
  by (simp add: nearer_def)

lemma nearer_task: "task_rank (mc_task m') < task_rank (mc_task m) \<Longrightarrow> (m', m) \<in> nearer"
  by (simp add: nearer_def)

lemma nearer_queue:
  "task_rank (mc_task m') \<le> task_rank (mc_task m) \<Longrightarrow> process_rank m' \<le> process_rank m \<Longrightarrow> queue_rank m' < queue_rank m
     \<Longrightarrow> (m', m) \<in> nearer"
  by (auto simp: nearer_def)

lemma queue_nearer:
  assumes "machine_inv chat0 m" and "th_queue (mc_thread m) \<noteq> []"
  shows "\<exists>m'. machine_step m m' \<and> (m', m) \<in> nearer"
  using queue_moves [OF assms] nearer_queue by blast

lemma fresh_exists:
  assumes "machine_inv chat0 m"
  shows "\<exists>wv :: write_env. fresh_run (wv_run wv) m"
proof -
  obtain r :: run_id where "r \<notin> set (run_ids (mc_thread m))"
    using ex_new_if_finite [OF infinite_UNIV_listI, of "set (run_ids (mc_thread m))"] by auto
  with assms have "fresh_run r m"
    by (auto simp: machine_inv_def table_inv_def fresh_run_def run_ids_def)
  then have "fresh_run (wv_run ((undefined :: write_env)\<lparr>wv_run := r\<rparr>)) m" by simp
  then show ?thesis ..
qed

lemma settling_nearer:
  assumes i: "machine_inv chat0 m" and k: "mc_task m = Settling x l n r" and q: "th_queue (mc_thread m) = []"
  shows "\<exists>m'. machine_step m m' \<and> (m', m) \<in> nearer"
proof -
  from i k have s: "th_settling (mc_thread m) = Some r" and ri: "runs_inv m"
    by (simp_all add: machine_inv_def tasks_inv_def waits_def)
  with q have "live_run (mc_thread m) = Some r" "ag_status (mc_agents m) r \<noteq> Absent" "ag_status (mc_agents m) r \<noteq> Over"
    by (auto simp: runs_inv_def runs_ok_def live_inv_def no_live_inv_def split: option.split_asm)
  then have st: "ag_status (mc_agents m) r \<in> {Taking, Ending}" and l: "live_run (mc_thread m) = Some r"
    by (cases "ag_status (mc_agents m) r"; simp)+
  from machine_step.AgentEnds [OF st, of undefined undefined] k l st show ?thesis
    by (intro exI conjI) (assumption, auto simp add: nearer_def process_rank_def makeSink_def thread_simps driving_def)
qed

lemma sending_nearer:
  assumes i: "machine_inv chat0 m" and k: "mc_task m = Sending x l n"
  shows "\<exists>m'. machine_step m m' \<and> (m', m) \<in> nearer"
proof -
  from i k have n: "n < MAX_DELIVERY_ATTEMPTS"
    by (simp add: machine_inv_def tasks_inv_def waits_def)
  show ?thesis
  proof (cases "th_live (mc_thread m)")
    case (Some live)
    then obtain r saved where l: "th_live (mc_thread m) = Some (r, saved)" by (cases live) auto
    obtain k' t where s: "send_to_live undefined x l n r (mc_thread m) = (k', t)" by fastforce
    then have "task_rank k' < task_rank (Sending x l n)"
      by (auto simp: send_to_live_def Let_def split: if_split_asm)
    with machine_step.SendLive [OF k l s] k show ?thesis
      by (intro exI conjI) (assumption, simp add: nearer_task)
  next
    case None
    show ?thesis
    proof (cases "th_settling (mc_thread m)")
      case (Some r)
      then have sn: "th_settling (mc_thread m) \<noteq> None" by simp
      from machine_step.SendSettling [OF k None sn] k deliver_rank [OF n, of x l "mc_thread m" r] show ?thesis
        by (intro exI conjI) (assumption, auto intro: nearer_task)
    next
      case sn: None
      obtain wv :: write_env where f: "fresh_run (wv_run wv) m" using fresh_exists [OF i] ..
      obtain res t where s: "send_into_idle undefined wv x l (mc_thread m) = (res, t)" by fastforce
      have "task_rank (mc_task (start_outcome x (res, t) m)) < task_rank (Sending x l n)"
        by (cases res) simp_all
      with machine_step.SendIdle [OF k None sn f, of undefined] k s show ?thesis
        by (intro exI conjI) (assumption, simp add: nearer_task)
    qed
  qed
qed

lemma operation_nearer:
  assumes i: "machine_inv chat0 m" and k: "mc_task m \<noteq> Idle"
  shows "\<exists>m'. machine_step m m' \<and> (m', m) \<in> nearer"
proof -
  from i have w: "tasks_inv m" by (simp add: machine_inv_def)
  show ?thesis
  proof (cases "mc_task m")
    case Idle
    with k show ?thesis by simp
  next
    case (Sending x l n)
    then show ?thesis by (rule sending_nearer [OF i])
  next
    case (Logging x n r)
    with w have "th_queue (mc_thread m) \<noteq> []" by (auto simp: tasks_inv_def waits_def)
    then show ?thesis by (rule queue_nearer [OF i])
  next
    case (Handing x n r)
    with w have n: "n < MAX_DELIVERY_ATTEMPTS" by (simp add: tasks_inv_def waits_def)
    obtain k' a t where s: "hand_over x n r (mc_agents m) (mc_thread m) = (k', a, t)" by (cases "hand_over x n r (mc_agents m) (mc_thread m)")
    then have "task_rank k' < task_rank (Handing x n r)"
      using deliver_rank [OF n, of x True _ r] by (auto simp: hand_over_def Let_def simp del: task_rank.simps(9) split: option.split_asm) (simp only: task_rank.simps)
    with machine_step.Hand [OF Handing s] Handing show ?thesis
      by (intro exI conjI) (assumption, simp add: nearer_task)
  next
    case (Settling x l n r)
    then show ?thesis
      using settling_nearer [OF i Settling] queue_nearer [OF i] by (cases "th_queue (mc_thread m) = []") auto
  next
    case (Answering r)
    with w have "th_queue (mc_thread m) \<noteq> []" by (auto simp: tasks_inv_def waits_def)
    then show ?thesis by (rule queue_nearer [OF i])
  next
    case (Closing v r)
    with machine_step.CloseReturns [OF Closing] show ?thesis
      by (intro exI conjI) (assumption, auto intro!: nearer_task split: wait.split)
  next
    case (Draining v n)
    show ?thesis
    proof (cases n)
      case 0
      obtain k' t where s: "drained undefined undefined v (mc_thread m) = (k', t)" by fastforce
      have "task_rank k' < task_rank (Draining v n)"
        using drained_asks [OF s, of undefined] by (cases k') (auto split: wait.split)
      with machine_step.Drained [OF Draining [unfolded 0] s] Draining show ?thesis
        by (intro exI conjI) (assumption, simp add: nearer_task)
    next
      case (Suc j)
      with w Draining have "th_queue (mc_thread m) \<noteq> []" by (auto simp: tasks_inv_def waits_def)
      then show ?thesis by (rule queue_nearer [OF i])
    qed
  next
    case (HandingOff l)
    obtain k' t where s: "handoff_end undefined undefined l (mc_thread m) = (k', t)" by fastforce
    have "task_rank k' < task_rank (HandingOff l)"
      using handoff_end_asks [OF s] by (auto split: task.split_asm)
    with machine_step.HandOff [OF HandingOff s] HandingOff show ?thesis
      by (intro exI conjI) (assumption, simp add: nearer_task)
  next
    case (Finished e)
    with w obtain q where q: "mc_request m = Some q" by (auto simp: tasks_inv_def fits_iff)
    from machine_step.Reply [OF Finished q] Finished show ?thesis
      by (intro exI conjI) (assumption, simp add: nearer_task)
  qed
qed

lemma operation_returns:
  assumes "machine_inv chat0 m"
  shows "\<exists>m'. machine_step\<^sup>*\<^sup>* m m' \<and> mc_task m' = Idle"
  using assms
proof (induction m rule: wf_induct_rule [OF nearer_wf])
  case (1 m)
  show ?case
  proof (cases "mc_task m = Idle")
    case False
    with operation_nearer [OF 1(2)] obtain m1 where s: "machine_step m m1" "(m1, m) \<in> nearer" by blast
    from runtime.step_inv [OF 1(2) s(1)] 1(1) [OF s(2)] obtain m' where "machine_step\<^sup>*\<^sup>* m1 m'" "mc_task m' = Idle" by blast
    with s(1) show ?thesis by (meson converse_rtranclp_into_rtranclp)
  qed blast
qed


section \<open>One run at a time\<close>

text \<open>
  With the lifecycle lock held by every operation that starts a run, as the machine assumes, at most one agent
  process is at work for a thread, and it is the live run's: that run is also the current one and the one that
  settles, and every run an agent was started for has its row.
\<close>

lemma one_live_run:
  assumes "initial m0" and "machine_step\<^sup>*\<^sup>* m0 m"
  shows "ag_status (mc_agents m) r \<in> {Taking, Ending} \<Longrightarrow> live_run (mc_thread m) = Some r"
    and "live_run (mc_thread m) = Some r \<Longrightarrow>
         th_current (mc_thread m) = Some r \<and> th_settling (mc_thread m) = Some r \<and> ag_status (mc_agents m) r \<noteq> Absent"
    and "ag_status (mc_agents m) r \<noteq> Absent \<Longrightarrow> r \<in> set (run_ids (mc_thread m))"
proof -
  have i: "runs_inv m" "table_inv m"
    using reachable_inv [OF assms] by (simp_all add: machine_inv_def)
  have "live_run (mc_thread m) = Some r \<Longrightarrow> live_inv r (ag_status (mc_agents m) r) (th_current (mc_thread m)) (th_settling (mc_thread m)) (th_queue (mc_thread m))"
    using i(1) by (simp add: runs_inv_def runs_ok_def)
  then show "ag_status (mc_agents m) r \<in> {Taking, Ending} \<Longrightarrow> live_run (mc_thread m) = Some r"
    and "live_run (mc_thread m) = Some r \<Longrightarrow>
         th_current (mc_thread m) = Some r \<and> th_settling (mc_thread m) = Some r \<and> ag_status (mc_agents m) r \<noteq> Absent"
    and "ag_status (mc_agents m) r \<noteq> Absent \<Longrightarrow> r \<in> set (run_ids (mc_thread m))"
    using i(2) live_item [OF i(1), of r] by (auto simp: table_inv_def live_inv_def)
qed

section \<open>Every message once\<close>

text \<open>C4: When the thread's operations have returned, the agents have taken exactly the messages that were accepted,
  each once and in their order; the transcript has grown by exactly the messages whose callers were told it holds
  them, each once and in order; and a message that was accepted is always in the transcript.  A refused, retried
  or redelivered message is never delivered twice, nor shown twice.\<close>

theorem messages_delivered_once:
  assumes "initial m0" and "machine_step\<^sup>*\<^sup>* m0 m" and "mc_task m = Idle"
  shows "map snd (ag_taken (mc_agents m)) = accepted (mc_replies m)
    \<and> chat_texts (th_log (mc_thread m)) = chat_texts (th_log (mc_thread m0)) @ transcribed (mc_replies m)
    \<and> accepted_unwritten (mc_replies m) = []"
proof -
  have i: "tasks_inv m" "texts_inv (chat_of (mc_thread m0)) m"
    using reachable_inv [OF assms(1,2)] by (simp_all add: machine_inv_def)
  from i(1) assms(3) have "mc_request m = None" by (simp add: tasks_inv_def fits_iff)
  with i(2) show ?thesis
    by (simp add: texts_inv_def pending_taken_def pending_written_def chat_of_def)
qed

lemma messages_delivered_once_witness:
  "map snd (ag_taken (mc_agents day4)) = [''Hello''] \<and> chat_texts (th_log (mc_thread day4)) = [''Hello'']"
  using messages_delivered_once [OF day_initial day_reaches(2)] day4_maps
  by (simp add: day0_def day_thread_def)

section \<open>Nothing waits for nothing\<close>

text \<open>C37: An operation under the lifecycle lock always has a way to return, from every state it can be in: no wait is for
  something that cannot come.  A message waits only for the run that is settling, and at most twice.\<close>

theorem operation_can_return:
  assumes "initial m0" and "machine_step\<^sup>*\<^sup>* m0 m"
  shows "(\<exists>m'. machine_step\<^sup>*\<^sup>* m m' \<and> mc_task m' = Idle)
    \<and> (mc_task m = Settling x l n r \<longrightarrow> th_settling (mc_thread m) = Some r \<and> n < MAX_DELIVERY_ATTEMPTS)"
proof -
  note i = reachable_inv [OF assms]
  then have "tasks_inv m" by (simp add: machine_inv_def)
  then show ?thesis
    using operation_returns [OF i] by (auto simp: tasks_inv_def waits_def)
qed

lemma operation_can_return_witness:
  "(\<exists>m'. machine_step\<^sup>*\<^sup>* day2 m' \<and> mc_task m' = Idle) \<and> mc_task day2 = Draining (AfterSend ''Hello'') 0"
proof -
  have "mc_task day2 = Draining (AfterSend ''Hello'') 0" by code_simp
  with operation_can_return [OF day_initial day_reaches(1)] show ?thesis by blast
qed

section \<open>The idle sweep\<close>

lemma started_sweep [simp]: "mc_sweep (start_outcome x outcome m) = mc_sweep m"
  by (cases outcome) simp

text \<open>C38: While no write of the record and no start has failed, the idle sweep ends a run only while a question of this run
  is open, which the run asked and nothing in the transcript has answered since, or when every message the run has
  taken is answered and none is on its way to it: a working run is never ended as idle, however its events and the
  sweep interleave.  Without the restriction it may be (\<open>left_question_ends_the_next_run\<close>).\<close>

theorem idle_sweep_spares_working_run:
  assumes "initial m0" and "machine_step\<^sup>*\<^sup>* m0 m" and "\<not> mc_faulty m" and "machine_step m m'"
    and "mc_sweep m \<noteq> SweepClosing r" and "mc_sweep m' = SweepClosing r"
  shows "live_run (mc_thread m) = Some r
    \<and> ((\<exists>q. th_question (mc_thread m) = Some q \<and> open_question r q (th_log (mc_thread m)))
       \<or> ag_answered (mc_agents m) r = taken_by r (mc_agents m) \<and> in_hand (mc_task m) = 0)"
proof -
  from assms(4-6) obtain tick idle ms t where s: "sweep_end idle ms tick (mc_thread m) = (SweepClosing r, t)"
    by (cases rule: machine_step.cases)
      (auto simp: dequeued_def run_settles_def sweep_pick_def split: if_split_asm elim: sweep_item_done.elims)
  have l: "live_run (mc_thread m) = Some r" and q: "th_question (mc_thread m) \<noteq> None \<or> th_turns (mc_thread m) = 0"
    using s by (auto simp: sweep_end_def isIdleRun_def isTurnInFlight_def live_run_def simp del: live_run_None
        split: option.split_asm if_split_asm)
  have "accounts_inv m"
    using reachable_inv [OF assms(1,2)] by (simp add: machine_inv_def)
  then have "turns_ok (mc_agents m) (live_run (mc_thread m)) (th_turns (mc_thread m)) (consumed_in (th_queue (mc_thread m)) + in_hand (mc_task m))"
    and "ag_answered (mc_agents m) r \<le> taken_by r (mc_agents m)"
    by (simp_all add: accounts_inv_def)
  with l q pending_question [OF assms(1-3) l] show ?thesis by (auto simp: turns_ok_def)
qed

lemma idle_sweep_spares_working_run_witness:
  "mc_sweep day8 = SweepClosing ''r1'' \<and> ag_answered (mc_agents day7) ''r1'' = taken_by ''r1'' (mc_agents day7)"
proof -
  have "mc_sweep day7 = Picked 2" "th_question (mc_thread day7) = None" "\<not> mc_faulty day7" by (simp_all add: day7_def day6_maps)
  then show ?thesis
    using idle_sweep_spares_working_run [OF day_initial day_reaches(3) _ day_8, of "''r1''"] day8_maps by simp
qed

section \<open>A thread at rest\<close>

text \<open>C39: While no write of the record and no start has failed: a thread with no live run, none settling and no operation
  under way is not recorded as running, and nothing of a close is left behind that the next run's end would find.\<close>

theorem idle_thread_is_not_running:
  assumes "initial m0" and "machine_step\<^sup>*\<^sup>* m0 m" and "\<not> mc_faulty m" and "mc_task m = Idle"
    and "live_run (mc_thread m) = None" and "th_settling (mc_thread m) = None"
  shows "se_state (th_row (mc_thread m)) \<noteq> Running \<and> \<not> th_closing (mc_thread m)"
proof -
  have "states_inv m"
    using reachable_inv [OF assms(1,2)] by (simp add: machine_inv_def)
  with assms(3-6) show ?thesis by (auto simp: states_inv_def state_ok_def)
qed

lemma idle_thread_is_not_running_witness:
  "se_state (th_row (mc_thread day11)) = Suspended \<and> \<not> th_closing (mc_thread day11)"
  using idle_thread_is_not_running [OF day_initial day_reaches(4)] day11_maps by simp

section \<open>The live channel\<close>

text \<open>C40: Every event the live channel was told of is in the transcript at the place its number names, capped as the
  transcript caps it, and the numbers grow strictly: a client that follows the channel is told of no place twice,
  and of a later place only after the earlier ones.  Places it is not told of, as those a suspend appends, it finds in
  the transcript.\<close>

theorem published_events_are_numbered:
  assumes "initial m0" and "th_published (mc_thread m0) = []" and "machine_step\<^sup>*\<^sup>* m0 m"
  shows "sorted_wrt (<) (event_numbers (th_published (mc_thread m)))
    \<and> list_all (in_transcript (th_log (mc_thread m))) (th_published (mc_thread m))"
proof -
  have "channel_inv m0" using assms(2) by (simp add: channel_inv_def numbered_def)
  from channel.run_inv [OF assms(3) this] show ?thesis by (simp add: channel_inv_def numbered_def)
qed

lemma published_events_are_numbered_witness:
  "event_numbers (th_published (mc_thread day4)) = [1, 2, 3]
   \<and> list_all (in_transcript (th_log (mc_thread day4))) (th_published (mc_thread day4))"
proof -
  have n: "event_numbers (th_published (mc_thread day4)) = [1, 2, 3]" by code_simp
  have "th_published (mc_thread day0) = []" by (simp add: day0_def day_thread_def)
  from published_events_are_numbered [OF day_initial this day_reaches(2)] n show ?thesis by simp
qed

section \<open>What the code does not hold\<close>

text \<open>
  A start that fails after the record was moved leaves the thread running without a run: nothing of it settles, and the
  next message is refused for want of a live run.
\<close>

lemma failed_start_strands_the_thread:
  "case send_into_idle day_moment (day_env (Some ''no'')) ''Hi'' False (day_thread Draft) of
     (res, t) \<Rightarrow> res = Inl (NotStarted ''no'') \<and> se_state (th_row t) = Running \<and> th_settling t = None
       \<and> open_runs t = [''r1''] \<and> fst (send_into_idle day_moment (day_env None) ''Hi'' False t) = Inl NoLiveRun"
  by code_simp

text \<open>
  When the write of a run's end fails while the thread is being closed, the mark of the close stays; the next
  run's end finds it and leaves the thread running without a run.
\<close>

lemma failed_end_keeps_the_closing_mark:
  assumes "th_closing t" and "th_current t = Some r" and "th_current u = Some r'" and "th_closing u" and "se_state (th_row u) = Running"
  shows "th_closing (endRun now conv True r why use t)"
    and "se_state (th_row (finishRun now env False r' (endRun now conv False r' why use u))) = Running"
    and "live_run (finishRun now env False r' (endRun now conv False r' why use u)) = None"
  using assms by (simp_all add: thread_simps)

text \<open>
  When the write of a run's end fails, the question the run left open stays with the thread.  The sweep takes it for the
  next run's and ends that run as idle, whatever messages it is working on.
\<close>

lemma left_question_ends_the_next_run:
  assumes "th_question t = Some q"
  shows "th_question (endRun now conv True r why use t) = Some q"
    and "th_live t = Some (r', saved) \<Longrightarrow> th_activity t = Some seen \<Longrightarrow> seen + idle < ms \<Longrightarrow>
         sweep_end idle ms (or_else (th_ticks t) 0) t = (SweepClosing r', endRunWithReason ByIdle None r' t)"
  using assms by (simp_all add: endRun_def Let_def thread_simps sweep_end_def isIdleRun_def or_else_def)

text \<open>
  The adapter's close may return before the end of the run is handled.  A handoff then answers that the node has
  no mirror, though the file is written a moment later; and closing the thread in between keeps the handoff's reason
  for the next run, whose end writes a handoff file nobody asked for.
\<close>

lemma handoff_answers_before_the_end:
  "truthy_opt (se_handoff_path (th_row t)) = None \<Longrightarrow> drained now env AfterHandoffEnd t = (Finished (Some HandoffNoMirror), t)"
  by (simp add: drained_def handoff_answer_def)

lemma handoff_reason_outlives_a_close:
  "th_closing t \<Longrightarrow> th_end_reason (finishRun now env failed r t) = th_end_reason t"
  "se_handoff_path (th_row (finishRun day_moment day_handoff False ''r2'' ((day_thread Running)\<lparr>th_end_reason := Some ByHandoff\<rparr>)))
     = Some ''wip/sessions/s1-handoff.md''"
proof -
  show "th_closing t \<Longrightarrow> th_end_reason (finishRun now env failed r t) = th_end_reason t"
    by (simp add: finishRun_def Let_def same_maps_clear)
  show "se_handoff_path (th_row (finishRun day_moment day_handoff False ''r2'' ((day_thread Running)\<lparr>th_end_reason := Some ByHandoff\<rparr>)))
     = Some ''wip/sessions/s1-handoff.md''"
    by code_simp
qed

text \<open>A capped text may be longer than its cap: a character cut in two becomes a replacement of three bytes.\<close>

lemma cap_is_exceeded:
  "length (fst (truncateUtf8 [CHR 0xC3, CHR 0xA9] 1)) = 3"
  by code_simp

end
