(* ===== verification/SessionStarts.thy ===== *)
theory SessionStarts
  imports RuntimeMachine
begin

text \<open>
  The starts that make a new thread, \<^verbatim>\<open>startTask\<close>, \<^verbatim>\<open>startFromHandoff\<close> and the second half of
  \<^verbatim>\<open>continueSessionLocked\<close> in \<^verbatim>\<open>session-runtime.ts\<close>, and the handoff paths of \<^verbatim>\<open>domain/session-handoff.ts\<close>.  The
  row a store creates is an argument.
\<close>

section \<open>Handoff paths\<close>

definition handoff_char :: "char \<Rightarrow> bool" where
  "handoff_char c \<longleftrightarrow>
     (let n = (of_char c :: nat) in 48 \<le> n \<and> n \<le> 57 \<or> 65 \<le> n \<and> n \<le> 90 \<or> 97 \<le> n \<and> n \<le> 122 \<or> n = 95 \<or> n = 45)"

definition handoff_prefix :: string where "handoff_prefix = ''wip/sessions/''"
definition handoff_suffix :: string where "handoff_suffix = ''-handoff.md''"

text \<open>What stands between the two fixed parts of the pattern.\<close>

definition handoff_middle :: "string \<Rightarrow> string option" where
  "handoff_middle p =
     (if take (length handoff_prefix) p = handoff_prefix
         \<and> length handoff_prefix + length handoff_suffix \<le> length p
         \<and> drop (length p - length handoff_suffix) p = handoff_suffix
      then Some (take (length p - length handoff_prefix - length handoff_suffix) (drop (length handoff_prefix) p)) else None)"

definition isHandoffRelativePath :: "string \<Rightarrow> bool" where
  "isHandoffRelativePath p \<longleftrightarrow> (case handoff_middle p of None \<Rightarrow> False | Some i \<Rightarrow> i \<noteq> [] \<and> list_all handoff_char i)"

definition handoffPathSessionId :: "string \<Rightarrow> session_id option" where
  "handoffPathSessionId p = (if isHandoffRelativePath p then handoff_middle p else None)"

text \<open>A file of the mirror, read only under such a path; \<open>mirror\<close> is the root of the mirror and \<open>files\<close> what is in it.\<close>

definition readNodeHandoffFile :: "string option \<Rightarrow> (string \<Rightarrow> string option) \<Rightarrow> string \<Rightarrow> string option" where
  "readNodeHandoffFile mirror files p =
     (if \<not> isHandoffRelativePath p then None
      else case truthy_opt mirror of None \<Rightarrow> None | Some root \<Rightarrow> files (root @ ''/'' @ p))"

lemma middle_iff: "handoff_middle p = Some i \<longleftrightarrow> p = handoff_prefix @ i @ handoff_suffix"
proof
  assume "handoff_middle p = Some i"
  then have t: "take (length handoff_prefix) p = handoff_prefix" "drop (length p - length handoff_suffix) p = handoff_suffix"
    and l: "length handoff_prefix + length handoff_suffix \<le> length p"
    and i: "i = take (length p - length handoff_prefix - length handoff_suffix) (drop (length handoff_prefix) p)"
    by (auto simp: handoff_middle_def split: if_split_asm)
  let ?q = "drop (length handoff_prefix) p"
  have "p = handoff_prefix @ ?q" using t(1) by (metis append_take_drop_id)
  moreover have "drop (length ?q - length handoff_suffix) ?q = handoff_suffix"
    using t(2) l by (simp add: drop_drop)
  then have "?q = i @ handoff_suffix"
    using i by (metis append_take_drop_id length_drop)
  ultimately show "p = handoff_prefix @ i @ handoff_suffix" by simp
qed (simp add: handoff_middle_def)

lemma handoff_path_iff:
  "isHandoffRelativePath p \<longleftrightarrow> (\<exists>i. p = handoffRelativePath i \<and> i \<noteq> [] \<and> list_all handoff_char i)"
proof -
  have "isHandoffRelativePath p \<longleftrightarrow> (\<exists>i. handoff_middle p = Some i \<and> i \<noteq> [] \<and> list_all handoff_char i)"
    by (auto simp: isHandoffRelativePath_def split: option.split)
  then show ?thesis
    by (simp add: middle_iff handoffRelativePath_def handoff_prefix_def handoff_suffix_def)
qed

lemma handoff_path_roundtrip:
  "i \<noteq> [] \<Longrightarrow> list_all handoff_char i \<Longrightarrow> handoffPathSessionId (handoffRelativePath i) = Some i"
  using middle_iff [of "handoffRelativePath i" i]
  by (auto simp: handoffPathSessionId_def handoff_path_iff handoffRelativePath_def handoff_prefix_def handoff_suffix_def)

section \<open>The runner a task gets\<close>

record runner_detection =
  rd_id :: string
  rd_installed :: bool
  rd_logged_in :: bool

record runner_instance =
  ri_id :: string
  ri_runner :: string
  ri_orgs :: "string list"

text \<open>The lookup of the organization may fail, which counts as none.\<close>

definition resolveTaskDefaults ::
    "runner_detection list \<Rightarrow> runner_instance list \<Rightarrow> string + string option \<Rightarrow> (string \<times> string option) option" where
  "resolveTaskDefaults detections instances org =
     (case find (\<lambda>d. rd_installed d \<and> rd_logged_in d) detections of
        None \<Rightarrow> None
      | Some usable \<Rightarrow>
          (let forRunner = filter (\<lambda>i. ri_runner i = rd_id usable) instances;
               orgDefault = (case truthy_opt (case org of Inl _ \<Rightarrow> None | Inr o' \<Rightarrow> o') of
                               None \<Rightarrow> None | Some o' \<Rightarrow> find (\<lambda>i. o' \<in> set (ri_orgs i)) forRunner)
           in Some (rd_id usable, map_option ri_id orgDefault)))"

definition resolveDraftDefaults ::
    "runner_detection list \<Rightarrow> runner_instance list \<Rightarrow> string + string option \<Rightarrow> string option \<times> string option" where
  "resolveDraftDefaults detections instances org =
     (case resolveTaskDefaults detections instances org of
        None \<Rightarrow> (None, None)
      | Some (runner, inst) \<Rightarrow> (Some runner, inst))"

lemma default_instance_fits:
  assumes "resolveTaskDefaults detections instances (Inr (Some org)) = Some (runner, Some i)"
  shows "\<exists>x\<in>set instances. ri_id x = i \<and> ri_runner x = runner \<and> org \<in> set (ri_orgs x)"
proof -
  from assms obtain usable where u: "find (\<lambda>d. rd_installed d \<and> rd_logged_in d) detections = Some usable"
    by (auto simp: resolveTaskDefaults_def split: option.split_asm)
  define mine where "mine = filter (\<lambda>i. ri_runner i = rd_id usable) instances"
  from assms u have r: "runner = rd_id usable" and o: "truthy_opt (Some org) \<noteq> None"
    by (auto simp: resolveTaskDefaults_def Let_def split: option.split_asm)
  from o have "truthy_opt (Some org) = Some org" by (cases org) (simp_all add: truthy_opt_def)
  with assms u have "map_option ri_id (find (\<lambda>i. org \<in> set (ri_orgs i)) mine) = Some i"
    by (auto simp: resolveTaskDefaults_def Let_def mine_def)
  then obtain x where "find (\<lambda>i. org \<in> set (ri_orgs i)) mine = Some x" and i: "ri_id x = i" by auto
  then have "x \<in> set mine" "org \<in> set (ri_orgs x)" by (auto dest: find_SomeD)
  with i r show ?thesis by (auto simp: mine_def)
qed

section \<open>New threads\<close>

definition new_thread :: "session_row \<Rightarrow> session_content option \<Rightarrow> thread" where
  "new_thread row content =
     \<lparr>th_row = row, th_runs = [], th_log = [], th_content = content, th_live = None, th_question = None,
      th_base = (\<lambda>_. None), th_closing = False, th_end_reason = None, th_end_locale = None, th_activity = None,
      th_ticks = None, th_turns = 0, th_current = None, th_settling = None, th_queue = [], th_published = []\<rparr>"

definition start_new ::
    "moment \<Rightarrow> start_env \<Rightarrow> run_id \<Rightarrow> string \<Rightarrow> string \<Rightarrow> string option \<Rightarrow> provisioned \<Rightarrow> start_opts \<Rightarrow> thread
      \<Rightarrow> (runtime_error + run_start) \<times> thread" where
  "start_new now sa r host runner inst pv opts t =
     (let run = new_run now r runner inst host None None in startRun now sa run pv opts (t\<lparr>th_runs := th_runs t @ [run]\<rparr>))"

text \<open>\<open>startTask\<close>: nothing is created unless the run can be provisioned; the brief is the thread's first message.\<close>

definition startTask ::
    "moment \<Rightarrow> start_env \<Rightarrow> run_id \<Rightarrow> string \<Rightarrow> string \<Rightarrow> string option \<Rightarrow> string \<Rightarrow> permission_policy option
      \<Rightarrow> string + provisioned \<Rightarrow> session_row \<Rightarrow> (runtime_error + run_start) \<times> thread option" where
  "startTask now sa r host runner inst brief policy pv row =
     (case pv of
        Inl e \<Rightarrow> (Inl (NotProvisioned e), None)
      | Inr p \<Rightarrow>
          (case start_new now sa r host runner inst p
                  \<lparr>so_brief = Some brief, so_resume = None, so_mode = None, so_policy = or_else policy PolicyDefault, so_log_brief = True\<rparr>
                  (new_thread row (Some (set_brief (Some brief) None))) of
             (res, t) \<Rightarrow> (res, Some t)))"

datatype start_error = PathInvalid | FileNotHere string | NoDefaultRunner | StartRefused runtime_error

text \<open>\<open>startFromHandoff\<close>: the file is read before anything is created, and is all that is carried over.\<close>

definition handoff_seeded :: "string \<Rightarrow> string \<Rightarrow> provisioned \<Rightarrow> provisioned" where
  "handoff_seeded path summary pv =
     pv\<lparr>pv_orientation := pv_orientation pv @ newline @ newline @ ''## Continuing from a handoff'' @ newline @ newline
          @ ''You are picking up a thread from another device; the conversation does not carry over, ''
          @ ''you continue from this summary (`'' @ path @ ''`):'' @ newline @ newline @ summary\<rparr>"

definition startFromHandoff ::
    "moment \<Rightarrow> start_env \<Rightarrow> run_id \<Rightarrow> string \<Rightarrow> string option \<Rightarrow> (string \<Rightarrow> string option) \<Rightarrow> (string \<Rightarrow> string option)
      \<Rightarrow> (string \<times> string option) option \<Rightarrow> string \<Rightarrow> permission_policy option \<Rightarrow> string + provisioned \<Rightarrow> session_row
      \<Rightarrow> (start_error + run_start) \<times> thread option" where
  "startFromHandoff now sa r host mirror files title defaults path policy pv row =
     (if \<not> isHandoffRelativePath path then (Inl PathInvalid, None)
      else case readNodeHandoffFile mirror files path of
             None \<Rightarrow> (Inl (FileNotHere path), None)
           | Some summary \<Rightarrow>
               (case defaults of
                  None \<Rightarrow> (Inl NoDefaultRunner, None)
                | Some (runner, inst) \<Rightarrow>
                    (case pv of
                       Inl e \<Rightarrow> (Inl (StartRefused (NotProvisioned e)), None)
                     | Inr p \<Rightarrow>
                         (case start_new now sa r host runner inst (handoff_seeded path summary p)
                                 \<lparr>so_brief = None, so_resume = None, so_mode = Some ResumeHandoff,
                                  so_policy = or_else policy PolicyDefault, so_log_brief = True\<rparr>
                                 (new_thread (case title summary of None \<Rightarrow> row | Some n \<Rightarrow> row\<lparr>se_name := n\<rparr>) None) of
                            (Inl e, t) \<Rightarrow> (Inl (StartRefused e), Some t)
                          | (Inr rs, t) \<Rightarrow> (Inr rs, Some t)))))"

text \<open>The new thread of \<open>continueSessionLocked\<close>: it keeps the name and starts on the old thread's summary.\<close>

definition continue_seeded :: "string option \<Rightarrow> string \<Rightarrow> provisioned \<Rightarrow> provisioned" where
  "continue_seeded written summary pv =
     pv\<lparr>pv_orientation := pv_orientation pv @ newline @ newline @ ''## Continuing from the previous session'' @ newline @ newline
          @ (case written of
               Some path \<Rightarrow> ''You are picking up the previous thread; the conversation does not carry over, ''
                  @ ''you continue from this summary (`'' @ path @ ''`):'' @ newline @ newline @ summary
             | None \<Rightarrow> summary)\<rparr>"

definition continued_thread ::
    "moment \<Rightarrow> start_env \<Rightarrow> run_id \<Rightarrow> string \<Rightarrow> handoff_env \<Rightarrow> session_row \<Rightarrow> string \<Rightarrow> provisioned \<Rightarrow> session_row
      \<Rightarrow> (runtime_error + run_start) \<times> thread" where
  "continued_thread now sa r host env old runner pv row =
     start_new now sa r host runner (se_instance old)
       (continue_seeded (if hv_mirror env then Some (handoffRelativePath (se_id old)) else None) (hv_summary env) pv)
       \<lparr>so_brief = None, so_resume = None, so_mode = None, so_policy = PolicyDefault, so_log_brief = True\<rparr>
       (new_thread (row\<lparr>se_name := se_name old, se_custom_name := True\<rparr>) None)"

section \<open>What a start makes\<close>

text \<open>A start refused before its run leaves no thread; one that is made takes the text it was given, and the run is live.\<close>

lemma task_creates_nothing_unprovisioned: "snd (startTask now sa r host runner inst brief policy (Inl e) row) = None"
  by (simp add: startTask_def)

lemma handoff_start_reads_first:
  assumes "startFromHandoff now sa r host mirror files title defaults path policy pv row = (res, Some t)"
  shows "\<exists>i root summary. path = handoffRelativePath i \<and> i \<noteq> [] \<and> list_all handoff_char i
    \<and> truthy_opt mirror = Some root \<and> files (root @ ''/'' @ path) = Some summary"
proof -
  from assms have p: "isHandoffRelativePath path" and f: "readNodeHandoffFile mirror files path \<noteq> None"
    by (auto simp: startFromHandoff_def split: if_split_asm option.split_asm)
  from f p obtain root summary where "truthy_opt mirror = Some root" "files (root @ ''/'' @ path) = Some summary"
    by (auto simp: readNodeHandoffFile_def split: option.split_asm)
  with p show ?thesis by (auto simp: handoff_path_iff)
qed

lemma started_new:
  assumes "start_new now sa r host runner inst pv opts (new_thread row c) = (Inr rs, t)"
  shows "st_run rs = r \<and> st_orientation rs = pv_orientation pv \<and> st_brief rs = so_brief opts \<and> th_live t = Some (r, False)
    \<and> th_settling t = Some r \<and> map rr_id (th_runs t) = [r]"
  using assms
  by (auto simp: start_new_def startRun_def new_thread_def new_run_def start_log_def run_start_for_def Let_def touchActivity_def
      trackRunSettling_def addTurnInFlight_def appendAndPublish_def split: if_split_asm option.split_asm option.split prod.split_asm)

end
