(* ===== verification/Spec2Isabelle.thy ===== *)
theory Spec2Isabelle
  imports Prelude Roles NodeAccess ReadScope ScopeTools ScopeRuns ScopeWrites Sessions SessionPersistence SessionLaws WriteGate Tokens TokenLaws GraphFacts RateLimit SyncJobs FileGuarantees
    SyncGuarantees RunGuarantees ScopeGuarantees RuntimeGuarantees SessionStarts
begin

text \<open>
  A verification development of the Portuni server (\<^verbatim>\<open>apps/server\<close>), an HTTP and MCP server over a graph
  of organizations, projects, processes, areas and principles, whose nodes own files that are
  mirrored on devices and on remotes.  Paths below are relative to \<^verbatim>\<open>apps/server\<close>.

  \<^bold>\<open>Parts and how they interact.\<close>  A request comes with a credential (\<open>Tokens\<close>), which gives a user with
  groups and a global role (\<open>Roles\<close>).  What a user may see of the graph is decided node by node along
  the chain of parents (\<open>NodeAccess\<close>).  An MCP session has a read scope over the visible nodes, which
  grows by reads and by expansions a human may have to confirm (\<open>ReadScope\<close>, \<open>ScopeTools\<close>,
  \<open>ScopeRuns\<close>, \<open>ScopeWrites\<close>), and which is kept in session rows (\<open>Sessions\<close>, \<open>SessionPersistence\<close>).  Every mutation
  passes the write gate (\<open>WriteGate\<close>) and then changes the graph (\<open>Nodes\<close>, \<open>Edges\<close>) or a node's files
  (\<open>FileRelocation\<close>, \<open>FileOps\<close>), whose places follow from the node (\<open>NodePaths\<close>, \<open>Routing\<close>).  A device
  stores and pulls files (\<open>SyncEngine\<close>), compares them with the remotes (\<open>SyncScan\<close>, \<open>SyncDiscovery\<close>),
  follows its disk (\<open>Reconcile\<close>) and its remotes (\<open>RemoteSweep\<close>) and syncs a node as a whole
  (\<open>SyncRun\<close>).  An agent that works in a mirror gets settings and hints (\<open>ScopeFiles\<close>), and its writes are put into
  tiers (\<open>WriteScope\<close>, \<open>Permissions\<close>).  The agents themselves run as threads of the session runtime, which queues what
  they report and lets people write to them, answer them, stop them and hand them over (\<open>SessionEvents\<close>,
  \<open>SessionRuntime\<close>, \<open>RuntimeMachine\<close>, \<open>SessionStarts\<close>).  Beside them stand the rate limiter of the HTTP server (\<open>RateLimit\<close>), the keyed lock (\<open>PathLock\<close>) and the
  background jobs that sync nodes under it (\<open>SyncJobs\<close>).

  \<^bold>\<open>Conventions.\<close>  A table is the list of its rows in table order, in a record per database; an
  operation is a function that takes and returns the tables, with a sum type where the code throws
  or refuses.  JavaScript strings are lists of characters (Unicode normalisation is the identity on
  them, lower-casing is of ASCII), sets and maps keep insertion order as lists, dates are numbers of
  milliseconds.  Random identifiers, hashes, the clock, the answers of a dialog and the remote
  backends are arguments.  Operations that await run as one step, except where the interleaving is
  the point: the redemption of a code, the path lock, the sync jobs and the session runtime are step
  relations; an operation of the runtime is cut at the waits another operation can run at.

  \<^bold>\<open>Theories.\<close>
  \<^item> \<open>Prelude\<close>: base types, the JavaScript operations, and the locales \<open>invariant_system\<close> (a step relation
    with an invariant), \<open>run_relation\<close> (a relation every run keeps) and \<open>kept_rows\<close>; every step relation of
    the model is an interpretation of one of them.
  \<^item> \<open>GraphDb\<close>, \<open>Samples\<close>: the graph tables (\<^verbatim>\<open>infra/schema.ts\<close>), the audit writer (\<^verbatim>\<open>infra/audit.ts\<close>), the change
    feed, and a concrete graph for the witnesses.
  \<^item> \<open>Roles\<close>, \<open>NodeAccess\<close>: \<^verbatim>\<open>auth/roles.ts\<close>, \<^verbatim>\<open>auth/node-access.ts\<close>.  The chain of parents is walked at most
    \<open>MAX_CHAIN = 50\<close> steps in batches of \<open>CHAIN_BATCH = 500\<close>, as in the code; the batched resolution is
    proved equal to the walk, so the bound is a bound of the property, not of the model.  The locale
    \<open>visibility_service\<close> is what the scope and the REST gate use of it.
  \<^item> \<open>ReadScope\<close>, \<open>ScopeTools\<close>, \<open>ScopeRuns\<close>: \<^verbatim>\<open>mcp/scope.ts\<close>, \<^verbatim>\<open>mcp/list-scope-gate.ts\<close>, \<^verbatim>\<open>mcp/auto-seed.ts\<close>,
    \<^verbatim>\<open>mcp/tools/scope.ts\<close>.  Guards decide exactly; reads stay in the parts of the graph a session was let into; a
    headless session that reads and expands is confined.
  \<^item> \<open>ScopeWrites\<close>: \<^verbatim>\<open>mcp/tools/context.ts\<close> (what a traversal adds to the scope), and \<open>tool_run\<close>, any sequence of the
    tools that touch a scope, of gated writes and of node creations: the write set grows by consent or creation only.
    The home is not part of the write set; \<open>session_init\<close> moves it without a dialog (a finding).
  \<^item> \<open>Sessions\<close>, \<open>SessionPersistence\<close>, \<open>SessionLaws\<close>, \<open>SessionSamples\<close>: \<^verbatim>\<open>domain/sessions.ts\<close>,
    \<^verbatim>\<open>mcp/session-persistence.ts\<close>, \<^verbatim>\<open>auth/session-access.ts\<close>.  The life cycle and the tables' invariant over
    all runs of operations, the round trip of a scope, resumption and connector grants.
  \<^item> \<open>WriteGate\<close>: \<^verbatim>\<open>domain/write-gate.ts\<close>, \<^verbatim>\<open>mcp/write-gate.ts\<close>, \<^verbatim>\<open>api/write-gate.ts\<close>, exact decisions per channel.
  \<^item> \<open>Tokens\<close>, \<open>TokenLaws\<close>: \<^verbatim>\<open>auth/oauth/codes.ts\<close>, \<^verbatim>\<open>grants.ts\<close>, \<^verbatim>\<open>auth/device-tokens.ts\<close>,
    \<^verbatim>\<open>auth/request-identity.ts\<close>, the token endpoint of \<^verbatim>\<open>api/oauth.ts\<close>.  The hash is a parameter; revocation
    is final (locale \<open>revocable\<close>, interpreted for access and device tokens), a code is handed out once
    under any interleaving, replays revoke.
  \<^item> \<open>NodePaths\<close>, \<open>Routing\<close>: \<^verbatim>\<open>domain/sync/remote-path.ts\<close>, \<^verbatim>\<open>node-info.ts\<close>, \<^verbatim>\<open>shared/safe-path.ts\<close>, \<^verbatim>\<open>routing.ts\<close>; the
    round trip between a remote path and a mirror path.
  \<^item> \<open>Edges\<close>, \<open>Nodes\<close>, \<open>OrgInvariant\<close>, \<open>NodeLaws\<close>, \<open>GraphFacts\<close>: \<^verbatim>\<open>domain/edges.ts\<close>, \<^verbatim>\<open>domain/nodes.ts\<close>,
    \<^verbatim>\<open>shared/popp.ts\<close>, \<^verbatim>\<open>domain/sync/sync-key.ts\<close>, the triggers of \<^verbatim>\<open>infra/schema-triggers.ts\<close>, the MCP tools
    and the REST handlers of edges.  Every node but an organization belongs to exactly one, over any
    sequence of calls; creates and updates are all or nothing; the code's tables agree with the
    triggers; files follow a moved node.
  \<^item> \<open>RateLimit\<close>: \<^verbatim>\<open>http/rate-limit.ts\<close>; its ring buffers refine a log of request times.
  \<^item> \<open>PathLock\<close>: \<^verbatim>\<open>domain/sync/path-lock.ts\<close>; its promise chains refine a queue per key.  A function under the lock may
    itself call it and wait (\<open>awaits\<close>, \<open>nested_step\<close>): the calls drain when a function only waits for keys of a lower
    rank, and a function that waits for its own key never ends.
  \<^item> \<open>SyncJobs\<close>: \<^verbatim>\<open>domain/sync/sync-jobs.ts\<close>; what runs at a time, termination by a measure, and the node
    that is lost.
  \<^item> \<open>FileRelocation\<close>, \<open>FileOps\<close>, \<open>FileLaws\<close>, \<open>FileSamples\<close>, \<open>FileGuarantees\<close>: \<^verbatim>\<open>domain/sync/file-relocation.ts\<close>,
    \<^verbatim>\<open>engine-mutations.ts\<close>, \<^verbatim>\<open>pending-ops.ts\<close>, \<^verbatim>\<open>local-cleanup.ts\<close>.  The state is the database, the routing
    tables, the queue of pending operations, the remotes, the device's files and its sync state.  The
    remotes are a parameter: a record of adapter functions on a state of any type, of which
    \<open>adapter_ok\<close> states what \<^verbatim>\<open>FileAdapter\<close> documents (reads report and change nothing, writes change
    their own paths only, a failed write may have done any part of its work) and \<open>reliable\<close> that no
    call fails any more.  \<open>FileSamples\<close> instantiates it with a remote whose calls fail by a list of
    fates and proves both.
  \<^item> \<open>SyncEngine\<close>, \<open>MirrorIgnore\<close>, \<open>SyncScan\<close>, \<open>SyncDiscovery\<close>, \<open>StatusViews\<close>: \<^verbatim>\<open>domain/sync/engine.ts\<close>, \<^verbatim>\<open>hash.ts\<close>,
    \<^verbatim>\<open>mirror-ignore.ts\<close>, \<^verbatim>\<open>shared/portuniignore.ts\<close>, \<^verbatim>\<open>discover-local.ts\<close>, \<^verbatim>\<open>status-filter.ts\<close>, \<^verbatim>\<open>pending.ts\<close>.  On the
    world of the file mutations; the two hash functions are a parameter of which \<open>hasher_ok\<close> states the
    lengths and the case of the digits.  What a user does to the files during an upload is an argument of the store.
  \<^item> \<open>Reconcile\<close>, \<open>RemoteSweep\<close>, \<open>SyncRun\<close>: \<^verbatim>\<open>reconcile.ts\<close>, \<^verbatim>\<open>remote-sweep.ts\<close>, \<^verbatim>\<open>sync-run.ts\<close>, whole operations composed
    as the code composes them.
  \<^item> \<open>SyncLaws\<close>, \<open>SweepLaws\<close>, \<open>SyncPlaces\<close>, \<open>SyncPhases\<close>, \<open>SyncRunLaws\<close>, \<open>ReconcileLaws\<close>: the effects of the operations, the
    scan as a three-way merge of contents (\<open>merge_class\<close>, for a backend whose hashes \<open>reports\<close> those of its
    objects), the places where a store leaves a file where it is, and the worlds a sync run goes through
    (\<open>run_phases\<close>: after its scan, after each push, after pulls and cleanup), over which its safety is stated.
    A \<open>writeFile\<close> that fails is taken to leave the file as it was (\<open>write_local\<close>); what a torn write leaves is not modelled.
  \<^item> \<open>SyncSamples\<close>, \<open>SyncGuarantees\<close>, \<open>RunGuarantees\<close>: a hash, two backends and devices for the witnesses, and
    the properties.

  \<^item> \<open>WriteScope\<close>, \<open>ScopeSettings\<close>, \<open>ScopeFiles\<close>, \<open>Permissions\<close>: \<^verbatim>\<open>domain/write-scope.ts\<close>, \<^verbatim>\<open>api/write-scope.ts\<close>,
    \<^verbatim>\<open>domain/scope-materialize.ts\<close>, \<^verbatim>\<open>domain/runner/permissions.ts\<close>.  The home and the working directory of the
    process are a record; a mirror's files are a map with the faults of the disk beside it.
  \<^item> \<open>WriteScopeLaws\<close>, \<open>ScopeFileLaws\<close>, \<open>ScopeGuarantees\<close>: containment is the prefix order on segments and the mirror of
    a path the longest prefix (\<open>innermost\<close>), so the guard, the settings and the runner agree; the block of
    a hint settles, and a materialisation keeps a user's files.
  \<^item> \<open>SessionEvents\<close>, \<open>SessionRuntime\<close>, \<open>SessionStarts\<close>: \<^verbatim>\<open>shared/session-events.ts\<close>, \<^verbatim>\<open>domain/runner/store-content.ts\<close>,
    \<^verbatim>\<open>domain/runner/session-runtime.ts\<close>, \<^verbatim>\<open>domain/session-handoff.ts\<close>.  The maps of the runtime that concern one thread
    are one record beside its session row, its runs, its content row and its transcript; the operations are
    those of the closure \<^verbatim>\<open>createSessionRuntime\<close>, with the store's failures, the adapter's answers, the clock
    and the new ids as arguments.  A delivery is tried at most \<open>MAX_DELIVERY_ATTEMPTS = 3\<close> times, as in the code.
  \<^item> \<open>RuntimeMachine\<close>: the thread, its agents and the operations in flight as a step relation: an agent emits an
    event, a queue handles its first, an operation passes its next wait, the idle sweep picks and ends runs.  It assumes
    the lifecycle lock (one operation at a time), takes a start as one step, leaves out the starts of threads just
    created, which the code makes without the lock, and lets an agent report only while its run is at work, with
    \<open>run_ended\<close> as its last event.
  \<^item> \<open>RuntimeLaws\<close>, \<open>RuntimeInvariants\<close>, \<open>RuntimeAccounts\<close>, \<open>RuntimeChannel\<close>, \<open>RuntimeQuestions\<close>: frames of the operations; the invariant of
    the machine in parts (the runs, the tasks in flight, where every message is, the written texts, the session's state, the
    tables), the numbering of the channel and whose question is pending, interpretations of \<open>invariant_system\<close>.
  \<^item> \<open>RuntimeSamples\<close>, \<open>RuntimeGuarantees\<close>: a concrete day of a thread for the witnesses, and the properties.

  \<^bold>\<open>Concrete lemmas beside the properties\<close> show where the code departs from its intent:
  \<open>lateral_edge_to_other_org_is_stuck\<close>, \<open>owner_is_not_checked\<close>, \<open>traversal_passes_hard_floor\<close>, \<open>headless_init_takes_sensitive_home\<close>,
  \<open>twice_the_limit_in_a_minute\<close>, \<open>late_node_is_lost\<close>, \<open>nan_concurrency_spins\<close>, \<open>unpushed_rename_takes_over\<close>,
  \<open>unpushed_rename_fails\<close>, \<open>local_rename_overwrites\<close>, \<open>local_move_overwrites\<close>, \<open>hashless_retry_deletes_newcomer\<close>,
  \<open>identical_twin_is_a_conflict\<close>, \<open>push_outside_sections_overwrites\<close>, \<open>push_of_unrouted_record_overwrites\<close>,
  \<open>unrouted_record_is_untracked\<close>, \<open>store_replaces_mirrored_file\<close>, \<open>preview_omits_deleted_files\<close>,
  \<open>section_directory_unregisters\<close>, \<open>guard_open_without_common_root\<close>, \<open>stray_end_marker_appends\<close>, \<open>second_refresh_trims\<close>,
  \<open>failed_start_strands_the_thread\<close>, \<open>failed_end_keeps_the_closing_mark\<close>, \<open>handoff_answers_before_the_end\<close>,
  \<open>handoff_reason_outlives_a_close\<close>, \<open>left_question_ends_the_next_run\<close>, \<open>cap_is_exceeded\<close>.

  \<^bold>\<open>Not modelled.\<close>  The backends and credentials of the remotes, HTTP and MCP framing, the web client and
  the desktop shell, migrations and drivers, prompts and translations: they carry no logic of their
  own or are another language.  The central-mode engine is the same sync operations over HTTP calls to another
  server; the watchers of disks and remotes turn notifications into calls of the modelled operations; the
  entity tables (actors, responsibilities, events, attributes) are row operations beside the graph.  Of the runner, the
  adapters of the agents, their registry and pid files, the sweep of orphaned processes and the WebSocket are
  process and stream I/O.
  Of modelled parts: \<open>deleteFiles\<close> runs its pool of four one deletion at a time, the boot sweep of
  sessions and the text of a handoff's summary are left out, the rows of a scan and the sections of a remote are
  visited one after the other, and the database itself does not fail.
\<close>

end
